(* ===== verification/Prelude.thy ===== *)
theory Prelude
  imports Main "HOL-Library.Word" "HOL-Library.List_Lexorder" "HOL-Library.Sublist"
begin

text \<open>
  Shared vocabulary of the development.

  \<^item> Rust strings are lists of Unicode scalar values (\<open>rstr\<close>); \<open>lit\<close> embeds an ASCII
    literal. \<open>str_len\<close> is the UTF-8 length that \<open>str::len\<close> returns, and list order on
    \<open>rstr\<close> is the order of \<open>String\<close> (UTF-8 keeps the order of scalar values).
  \<^item> \<open>Result\<close> is the sum type with the error on the left, \<open>rbind\<close> is the \<open>?\<close> operator.
  \<^item> \<open>BTreeMap\<close> is a key-sorted association list with the operations \<open>bt_get\<close>,
    \<open>bt_insert\<close>, \<open>bt_remove\<close>, \<open>bt_keys\<close> and \<open>bt_values\<close>; the locale \<open>ordered_map\<close> states
    what clients may rely on and is interpreted on these operations.
  \<^item> Machine integers are words.
  The functions of the Rust standard library that the sources call are defined here once.
\<close>

named_theorems result_simps \<open>facts that turn a successful computation into its steps\<close>
named_theorems str_simps \<open>rewriting of string operations on literals\<close>

section \<open>Machine integers\<close>

type_synonym u8 = "8 word"
type_synonym u16 = "16 word"
type_synonym u32 = "32 word"
type_synonym u64 = "64 word"
type_synonym bytes = "8 word list"

definition u64_max :: u64 where "u64_max = - 1"
definition u32_max :: u32 where "u32_max = - 1"

definition checked_add :: "u64 \<Rightarrow> u64 \<Rightarrow> u64 option" where
  "checked_add a b = (if unat a + unat b < 2 ^ 64 then Some (a + b) else None)"

definition u32_try_from :: "u64 \<Rightarrow> u32 option" where
  "u32_try_from n = (if unat n < 2 ^ 32 then Some (ucast n) else None)"

lemma checked_add_unat: "checked_add a b = Some c \<Longrightarrow> unat c = unat a + unat b"
  by (auto simp: checked_add_def unat_word_ariths split: if_splits)

lemma checked_add_one_gt: "checked_add a 1 = Some c \<Longrightarrow> a < c"
  by (drule checked_add_unat) (simp add: word_less_nat_alt)

lemma checked_add_one_None: "checked_add a 1 = None \<longleftrightarrow> a = u64_max"
proof -
  have "unat (u64_max) = 2 ^ 64 - 1"
    by (simp add: u64_max_def unsigned_minus_1_eq_mask mask_eq_exp_minus_1)
  moreover have "unat a < 2 ^ 64"
    using unsigned_less [of a] by simp
  ultimately have "checked_add a 1 = None \<longleftrightarrow> unat a = unat u64_max"
    by (auto simp: checked_add_def)
  then show ?thesis
    by (simp add: word_unat_eq_iff)
qed

lemma u32_try_from_unat: "u32_try_from n = Some v \<Longrightarrow> unat v = unat n"
  by (auto simp: u32_try_from_def unsigned_ucast_eq take_bit_nat_eq_self split: if_splits)

section \<open>Strings\<close>

type_synonym uchar = nat
type_synonym rstr = "uchar list"

definition lit :: "string \<Rightarrow> rstr" where
  "lit s = map of_char s"

definition chr :: "char \<Rightarrow> uchar" where
  "chr c = of_char c"

lemma lit_eq_iff [simp]: "lit a = lit b \<longleftrightarrow> a = b"
  by (auto simp: lit_def inj_map_eq_map inj_def)

lemma lit_Nil [simp]: "lit [] = []" "lit s = [] \<longleftrightarrow> s = []" "[] = lit s \<longleftrightarrow> s = []"
  by (auto simp: lit_def)

lemma length_lit [simp]: "length (lit s) = length s"
  by (simp add: lit_def)

lemma lit_append: "lit (a @ b) = lit a @ lit b"
  by (simp add: lit_def)

lemma lit_Cons: "lit (c # s) = chr c # lit s"
  by (simp add: lit_def chr_def)

lemma chr_eq_iff [simp]: "chr a = chr b \<longleftrightarrow> a = b"
  by (simp add: chr_def)

lemmas [str_simps] = lit_def chr_def

definition utf8_len :: "uchar \<Rightarrow> nat" where
  "utf8_len c = (if c < 0x80 then 1 else if c < 0x800 then 2 else if c < 0x10000 then 3 else 4)"

text \<open>\<open>str::len\<close>: the number of UTF-8 bytes.\<close>

definition str_len :: "rstr \<Rightarrow> nat" where
  "str_len s = sum_list (map utf8_len s)"

text \<open>\<open>str::as_bytes\<close>.\<close>

definition utf8_char :: "uchar \<Rightarrow> bytes" where
  "utf8_char c =
     (if c < 0x80 then [of_nat c]
      else if c < 0x800 then [of_nat (0xC0 + c div 64), of_nat (0x80 + c mod 64)]
      else if c < 0x10000 then
        [of_nat (0xE0 + c div 4096), of_nat (0x80 + (c div 64) mod 64), of_nat (0x80 + c mod 64)]
      else [of_nat (0xF0 + c div 262144), of_nat (0x80 + (c div 4096) mod 64),
            of_nat (0x80 + (c div 64) mod 64), of_nat (0x80 + c mod 64)])"

definition as_bytes :: "rstr \<Rightarrow> bytes" where
  "as_bytes s = concat (map utf8_char s)"

lemma length_as_bytes: "length (as_bytes s) = str_len s"
  by (induction s) (auto simp: as_bytes_def str_len_def utf8_len_def utf8_char_def)

subsection \<open>Character classes\<close>

text \<open>\<open>char::is_whitespace\<close> (Unicode White\_Space) and \<open>char::is_control\<close> (category Cc).\<close>

definition is_whitespace :: "uchar \<Rightarrow> bool" where
  "is_whitespace c \<longleftrightarrow> (9 \<le> c \<and> c \<le> 13) \<or> c = 32 \<or> c = 0x85 \<or> c = 0xA0 \<or> c = 0x1680
     \<or> (0x2000 \<le> c \<and> c \<le> 0x200A) \<or> c = 0x2028 \<or> c = 0x2029 \<or> c = 0x202F \<or> c = 0x205F
     \<or> c = 0x3000"

definition is_control :: "uchar \<Rightarrow> bool" where
  "is_control c \<longleftrightarrow> c \<le> 31 \<or> (127 \<le> c \<and> c \<le> 159)"

definition is_ascii_digit :: "uchar \<Rightarrow> bool" where
  "is_ascii_digit c \<longleftrightarrow> 48 \<le> c \<and> c \<le> 57"

definition is_ascii_alphabetic :: "uchar \<Rightarrow> bool" where
  "is_ascii_alphabetic c \<longleftrightarrow> (65 \<le> c \<and> c \<le> 90) \<or> (97 \<le> c \<and> c \<le> 122)"

definition is_ascii_alphanumeric :: "uchar \<Rightarrow> bool" where
  "is_ascii_alphanumeric c \<longleftrightarrow> is_ascii_digit c \<or> is_ascii_alphabetic c"

text \<open>\<open>b.is_ascii_digit() || (b'a'..=b'f').contains(&b)\<close>: a lower-case hex digit.\<close>

definition is_lower_hex :: "uchar \<Rightarrow> bool" where
  "is_lower_hex c \<longleftrightarrow> is_ascii_digit c \<or> (97 \<le> c \<and> c \<le> 102)"

lemmas char_class_defs [str_simps] =
  is_whitespace_def is_control_def is_ascii_digit_def is_ascii_alphabetic_def
  is_ascii_alphanumeric_def is_lower_hex_def

definition to_ascii_lowercase :: "rstr \<Rightarrow> rstr" where
  "to_ascii_lowercase s = map (\<lambda>c. if 65 \<le> c \<and> c \<le> 90 then c + 32 else c) s"

lemma length_to_ascii_lowercase [simp]: "length (to_ascii_lowercase s) = length s"
  by (simp add: to_ascii_lowercase_def)

text \<open>A string whose bytes are all lower-case hex digits has as many bytes as characters.\<close>

lemma str_len_lower_hex: "list_all is_lower_hex s \<Longrightarrow> str_len s = length s"
  by (induction s) (auto simp: str_len_def utf8_len_def is_lower_hex_def is_ascii_digit_def)

subsection \<open>String operations\<close>

definition trim_start :: "rstr \<Rightarrow> rstr" where
  "trim_start s = dropWhile is_whitespace s"

definition trim_end :: "rstr \<Rightarrow> rstr" where
  "trim_end s = rev (dropWhile is_whitespace (rev s))"

definition trim :: "rstr \<Rightarrow> rstr" where
  "trim s = trim_end (trim_start s)"

definition starts_with :: "rstr \<Rightarrow> rstr \<Rightarrow> bool" where
  "starts_with s p \<longleftrightarrow> take (length p) s = p"

definition ends_with :: "rstr \<Rightarrow> rstr \<Rightarrow> bool" where
  "ends_with s p \<longleftrightarrow> length p \<le> length s \<and> drop (length s - length p) s = p"

definition strip_prefix :: "rstr \<Rightarrow> rstr \<Rightarrow> rstr option" where
  "strip_prefix s p = (if starts_with s p then Some (drop (length p) s) else None)"

text \<open>\<open>str::split(c)\<close>: always at least one piece.\<close>

fun split_on :: "uchar \<Rightarrow> rstr \<Rightarrow> rstr list" where
  "split_on c [] = [[]]"
| "split_on c (x # xs) =
     (if x = c then [] # split_on c xs
      else (case split_on c xs of [] \<Rightarrow> [[x]] | p # ps \<Rightarrow> (x # p) # ps))"

text \<open>\<open>[..].join(sep)\<close>.\<close>

fun join :: "rstr \<Rightarrow> rstr list \<Rightarrow> rstr" where
  "join sep [] = []"
| "join sep [x] = x"
| "join sep (x # y # ys) = x @ sep @ join sep (y # ys)"

text \<open>\<open>str::split_whitespace\<close>: the maximal runs of non-white-space characters.\<close>

function split_whitespace :: "rstr \<Rightarrow> rstr list" where
  "split_whitespace s =
     (let t = dropWhile is_whitespace s
      in if t = [] then []
         else takeWhile (\<lambda>c. \<not> is_whitespace c) t
              # split_whitespace (dropWhile (\<lambda>c. \<not> is_whitespace c) t))"
  by pat_completeness auto
termination
proof (relation "measure length", goal_cases)
  case 1
  show ?case by simp
next
  case (2 s t)
  then have "t \<noteq> []" and "\<not> is_whitespace (hd t)"
    using hd_dropWhile [of is_whitespace s] by auto
  then have "length (dropWhile (\<lambda>c. \<not> is_whitespace c) t) < length t"
    by (cases t) (auto simp: length_dropWhile_le le_imp_less_Suc)
  also have "length t \<le> length s"
    using 2 by (simp add: length_dropWhile_le)
  finally show ?case by simp
qed

declare split_whitespace.simps [simp del]

lemma split_on_ne [simp]: "split_on c s \<noteq> []"
  by (induction s) (auto split: list.splits)

lemma join_split_on: "join [c] (split_on c s) = s"
proof (induction s)
  case Nil
  then show ?case by simp
next
  case (Cons x xs)
  obtain p ps where ps: "split_on c xs = p # ps"
    by (cases "split_on c xs") auto
  with Cons show ?case
    by (cases ps) auto
qed

lemma split_on_no_sep: "p \<in> set (split_on c s) \<Longrightarrow> c \<notin> set p"
  by (induction s arbitrary: p) (auto split: list.splits if_splits)

lemma split_on_single: "c \<notin> set s \<Longrightarrow> split_on c s = [s]"
  by (induction s) auto

lemma split_on_append: "c \<notin> set s \<Longrightarrow> split_on c (s @ c # t) = s # split_on c t"
  by (induction s) auto

lemma join_Cons_ne: "ys \<noteq> [] \<Longrightarrow> join sep (x # ys) = x @ sep @ join sep ys"
  by (cases ys) auto

lemma split_on_join:
  assumes "xs \<noteq> []" and "\<forall>x \<in> set xs. c \<notin> set x"
  shows "split_on c (join [c] xs) = xs"
  using assms
proof (induction xs)
  case Nil
  then show ?case by simp
next
  case (Cons x xs)
  then show ?case
    by (cases "xs = []") (auto simp: join_Cons_ne split_on_single split_on_append)
qed

lemma trim_start_split: "takeWhile is_whitespace s @ trim_start s = s"
  by (simp add: trim_start_def)

lemma trim_end_prefix: "trim_end s @ drop (length (trim_end s)) s = s"
proof -
  have "s = rev (rev s)"
    by simp
  also have "rev s = takeWhile is_whitespace (rev s) @ dropWhile is_whitespace (rev s)"
    by simp
  also have "rev \<dots> = trim_end s @ rev (takeWhile is_whitespace (rev s))"
    by (simp only: rev_append trim_end_def)
  finally have s: "s = trim_end s @ rev (takeWhile is_whitespace (rev s))" .
  then have "drop (length (trim_end s)) s = rev (takeWhile is_whitespace (rev s))"
    by (metis append_eq_conv_conj)
  with s show ?thesis by simp
qed

lemma strip_prefix_Some: "strip_prefix s p = Some r \<longleftrightarrow> s = p @ r"
  by (auto simp: strip_prefix_def starts_with_def split: if_splits)
    (metis append_take_drop_id)

lemma set_trim_start: "set (trim_start s) \<subseteq> set s"
  by (auto simp: trim_start_def dest: set_dropWhileD)

lemma set_trim_end: "set (trim_end s) \<subseteq> set s"
  by (auto simp: trim_end_def dest: set_dropWhileD)

lemma set_trim: "set (trim s) \<subseteq> set s"
  using set_trim_start set_trim_end by (auto simp: trim_def)

lemma trim_end_idem [simp]: "trim_end (trim_end s) = trim_end s"
  by (simp add: trim_end_def dropWhile_eq_self_iff hd_dropWhile)

lemma trim_start_idem [simp]: "trim_start (trim_start s) = trim_start s"
  by (simp add: trim_start_def dropWhile_eq_self_iff hd_dropWhile)

lemma trim_start_trim_end:
  "trim_start s = s \<Longrightarrow> trim_start (trim_end s) = trim_end s"
proof -
  assume s: "trim_start s = s"
  show ?thesis
  proof (cases "trim_end s")
    case Nil
    then show ?thesis by (simp add: trim_start_def)
  next
    case (Cons a t)
    with trim_end_prefix [of s] have "s \<noteq> []" "hd s = a"
      by (auto, metis append_Cons list.sel(1))
    with s have "\<not> is_whitespace a"
      by (metis hd_dropWhile trim_start_def)
    with Cons show ?thesis by (simp add: trim_start_def)
  qed
qed

lemma trim_idem [simp]: "trim (trim s) = trim s"
  by (simp add: trim_def trim_start_trim_end)

section \<open>Hexadecimal rendering\<close>

definition hex_digit :: "nat \<Rightarrow> uchar" where
  "hex_digit n = (if n < 10 then 48 + n else 87 + n)"

text \<open>\<open>format!("{b:02x}")\<close> over a byte slice.\<close>

definition hex :: "bytes \<Rightarrow> rstr" where
  "hex bs = concat (map (\<lambda>b. [hex_digit (unat b div 16), hex_digit (unat b mod 16)]) bs)"

lemma hex_digit_lower: "n < 16 \<Longrightarrow> is_lower_hex (hex_digit n)"
  by (auto simp: hex_digit_def is_lower_hex_def is_ascii_digit_def)

lemma hex_lower: "list_all is_lower_hex (hex bs)"
proof (induction bs)
  case Nil
  then show ?case by (simp add: hex_def)
next
  case (Cons b bs)
  have "unat b < 256"
    using unsigned_less [of b] by simp
  then show ?case
    using Cons by (auto simp: hex_def intro!: hex_digit_lower)
qed

lemma length_hex: "length (hex bs) = 2 * length bs"
  by (induction bs) (auto simp: hex_def)

section \<open>Decimal rendering\<close>

text \<open>\<open>Display\<close> of an unsigned number.\<close>

fun dec :: "nat \<Rightarrow> rstr" where
  "dec n = (if n < 10 then [48 + n] else dec (n div 10) @ [48 + n mod 10])"

declare dec.simps [simp del]

text \<open>The value \<open>str::parse\<close> gives a string of ASCII digits, before the check of its range.\<close>

definition parse_digits :: "rstr \<Rightarrow> nat" where
  "parse_digits xs = foldl (\<lambda>a c. 10 * a + (c - 48)) 0 xs"

lemma parse_digits_dec [simp]: "parse_digits (dec n) = n"
proof (induction n rule: dec.induct)
  case (1 n)
  then show ?case by (subst dec.simps) (auto simp: parse_digits_def)
qed

lemma dec_digits: "list_all is_ascii_digit (dec n)"
proof (induction n rule: dec.induct)
  case (1 n)
  have digit: "is_ascii_digit (48 + k)" if "k < 10" for k using that by (simp add: is_ascii_digit_def)
  show ?case
  proof (cases "n < 10")
    case True
    then show ?thesis by (subst dec.simps) (simp add: digit)
  next
    case False
    with 1 digit [of "n mod 10"] show ?thesis by (subst dec.simps) simp
  qed
qed

section \<open>Results\<close>

text \<open>The error type of the commands (\<open>error.rs\<close>), with the texts it carries.\<close>

datatype app_error =
    AE_Io rstr
  | AE_ForbiddenPath rstr
  | AE_NotFound rstr
  | AE_Other rstr
  | AE_Parse rstr nat
  | AE_Conflict rstr

definition rbind :: "'e + 'a \<Rightarrow> ('a \<Rightarrow> 'e + 'b) \<Rightarrow> 'e + 'b" where
  "rbind m f = (case m of Inl e \<Rightarrow> Inl e | Inr a \<Rightarrow> f a)"

definition map_err :: "('e \<Rightarrow> 'f) \<Rightarrow> 'e + 'a \<Rightarrow> 'f + 'a" where
  "map_err h m = (case m of Inl e \<Rightarrow> Inl (h e) | Inr a \<Rightarrow> Inr a)"

definition ok_or :: "'e \<Rightarrow> 'a option \<Rightarrow> 'e + 'a" where
  "ok_or e x = (case x of None \<Rightarrow> Inl e | Some a \<Rightarrow> Inr a)"

text \<open>An early return: \<open>if bad { return Err(e) }\<close>.\<close>

definition fail_if :: "bool \<Rightarrow> 'e \<Rightarrow> 'e + unit" where
  "fail_if bad e = (if bad then Inl e else Inr ())"

definition is_ok :: "'e + 'a \<Rightarrow> bool" where
  "is_ok m = (case m of Inl _ \<Rightarrow> False | Inr _ \<Rightarrow> True)"

definition is_err :: "'e + 'a \<Rightarrow> bool" where
  "is_err m = (case m of Inl _ \<Rightarrow> True | Inr _ \<Rightarrow> False)"

definition is_some_and :: "'a option \<Rightarrow> ('a \<Rightarrow> bool) \<Rightarrow> bool" where
  "is_some_and x p = (case x of None \<Rightarrow> False | Some a \<Rightarrow> p a)"

definition is_none_or :: "'a option \<Rightarrow> ('a \<Rightarrow> bool) \<Rightarrow> bool" where
  "is_none_or x p = (case x of None \<Rightarrow> True | Some a \<Rightarrow> p a)"

definition opt_filter :: "('a \<Rightarrow> bool) \<Rightarrow> 'a option \<Rightarrow> 'a option" where
  "opt_filter p x = (case x of None \<Rightarrow> None | Some a \<Rightarrow> if p a then Some a else None)"

text \<open>A \<open>for\<close> loop whose body may return early, with an accumulator.\<close>

fun for_each :: "('s \<Rightarrow> 'a \<Rightarrow> 'e + 's) \<Rightarrow> 's \<Rightarrow> 'a list \<Rightarrow> 'e + 's" where
  "for_each f s [] = Inr s"
| "for_each f s (x # xs) = rbind (f s x) (\<lambda>s'. for_each f s' xs)"

definition for_all :: "('a \<Rightarrow> 'e + unit) \<Rightarrow> 'a list \<Rightarrow> 'e + unit" where
  "for_all f xs = for_each (\<lambda>_. f) () xs"

lemma rbind_Inr [simp, result_simps]:
  "rbind m f = Inr b \<longleftrightarrow> (\<exists>a. m = Inr a \<and> f a = Inr b)"
  by (cases m) (auto simp: rbind_def)

lemma rbind_Inl: "rbind m f = Inl e \<longleftrightarrow> m = Inl e \<or> (\<exists>a. m = Inr a \<and> f a = Inl e)"
  by (cases m) (auto simp: rbind_def)

lemma rbind_simps [simp]: "rbind (Inl e) f = Inl e" "rbind (Inr a) f = f a"
  by (simp_all add: rbind_def)

lemma rbind_cong [fundef_cong]:
  "m = m' \<Longrightarrow> (\<And>a. m' = Inr a \<Longrightarrow> f a = f' a) \<Longrightarrow> rbind m f = rbind m' f'"
  by (cases m') (auto simp: rbind_def)

lemma map_err_Inr [simp, result_simps]: "map_err h m = Inr a \<longleftrightarrow> m = Inr a"
  by (cases m) (auto simp: map_err_def)

lemma map_err_simps [simp]: "map_err h (Inl e) = Inl (h e)" "map_err h (Inr a) = Inr a"
  by (simp_all add: map_err_def)

lemma ok_or_Inr [simp, result_simps]: "ok_or e x = Inr a \<longleftrightarrow> x = Some a"
  by (cases x) (auto simp: ok_or_def)

lemma ok_or_simps [simp]: "ok_or e None = Inl e" "ok_or e (Some a) = Inr a"
  by (simp_all add: ok_or_def)

lemma fail_if_Inr [simp, result_simps]: "fail_if b e = Inr u \<longleftrightarrow> \<not> b"
  by (simp add: fail_if_def)

lemma fail_if_Inl [simp]: "fail_if b e = Inl e' \<longleftrightarrow> b \<and> e = e'"
  by (simp add: fail_if_def)

lemma fail_if_simps [simp]: "fail_if True e = Inl e" "fail_if False e = Inr ()"
  by (simp_all add: fail_if_def)

lemma is_ok_iff: "is_ok m \<longleftrightarrow> (\<exists>a. m = Inr a)"
  by (cases m) (auto simp: is_ok_def)

lemma is_ok_simps [simp]: "is_ok (Inr a)" "\<not> is_ok (Inl e)"
  by (simp_all add: is_ok_def)

lemma is_err_simps [simp]: "is_err (Inl e)" "\<not> is_err (Inr a)"
  by (simp_all add: is_err_def)

lemma is_err_iff: "is_err m \<longleftrightarrow> \<not> is_ok m"
  by (cases m) auto

lemma is_some_and_simps [simp]: "\<not> is_some_and None p" "is_some_and (Some a) p = p a"
  by (simp_all add: is_some_and_def)

lemma is_none_or_simps [simp]: "is_none_or None p" "is_none_or (Some a) p = p a"
  by (simp_all add: is_none_or_def)

lemma opt_filter_simps [simp]:
  "opt_filter p None = None"
  "opt_filter p (Some a) = (if p a then Some a else None)"
  by (simp_all add: opt_filter_def)

lemma opt_filter_Some: "opt_filter p x = Some a \<longleftrightarrow> x = Some a \<and> p a"
  by (cases x) auto

lemma for_all_Inr [simp, result_simps]: "for_all f xs = Inr u \<longleftrightarrow> (\<forall>x \<in> set xs. f x = Inr ())"
  unfolding for_all_def by (induction xs) auto

lemma for_each_append:
  "for_each f s (xs @ ys) = rbind (for_each f s xs) (\<lambda>s'. for_each f s' ys)"
proof (induction xs arbitrary: s)
  case Nil
  then show ?case by simp
next
  case (Cons x xs)
  then show ?case by (cases "f s x") auto
qed

text \<open>The loop rule: an invariant kept by every successful iteration holds at the end.\<close>

lemma for_each_inv:
  assumes "for_each f s xs = Inr t" and "P s"
    and "\<And>s x s'. x \<in> set xs \<Longrightarrow> P s \<Longrightarrow> f s x = Inr s' \<Longrightarrow> P s'"
  shows "P t"
  using assms
proof (induction xs arbitrary: s)
  case Nil
  then show ?case by simp
next
  case (Cons x xs)
  from Cons.prems(1) obtain s' where s': "f s x = Inr s'" "for_each f s' xs = Inr t"
    by auto
  from Cons.prems(2,3) s'(1) have "P s'" by auto
  with Cons.IH [OF s'(2)] Cons.prems(3) show ?case by auto
qed

section \<open>Ordered maps\<close>

type_synonym ('k, 'v) btm = "('k \<times> 'v) list"

definition bt_empty :: "('k, 'v) btm" where
  "bt_empty = []"

definition bt_get :: "('k, 'v) btm \<Rightarrow> 'k \<Rightarrow> 'v option" where
  "bt_get m k = map_of m k"

fun bt_insert :: "'k::linorder \<Rightarrow> 'v \<Rightarrow> ('k, 'v) btm \<Rightarrow> ('k, 'v) btm" where
  "bt_insert k v [] = [(k, v)]"
| "bt_insert k v ((a, b) # m) =
     (if k < a then (k, v) # (a, b) # m
      else if k = a then (k, v) # m
      else (a, b) # bt_insert k v m)"

definition bt_remove :: "'k \<Rightarrow> ('k, 'v) btm \<Rightarrow> ('k, 'v) btm" where
  "bt_remove k m = filter (\<lambda>(a, _). a \<noteq> k) m"

definition bt_contains :: "('k, 'v) btm \<Rightarrow> 'k \<Rightarrow> bool" where
  "bt_contains m k \<longleftrightarrow> bt_get m k \<noteq> None"

definition bt_keys :: "('k, 'v) btm \<Rightarrow> 'k list" where
  "bt_keys m = map fst m"

definition bt_values :: "('k, 'v) btm \<Rightarrow> 'v list" where
  "bt_values m = map snd m"

text \<open>\<open>get_mut\<close> followed by an assignment: nothing happens when the key is absent.\<close>

definition bt_modify :: "'k \<Rightarrow> ('v \<Rightarrow> 'v) \<Rightarrow> ('k::linorder, 'v) btm \<Rightarrow> ('k, 'v) btm" where
  "bt_modify k f m = (case bt_get m k of None \<Rightarrow> m | Some v \<Rightarrow> bt_insert k (f v) m)"

definition bt_inv :: "('k::linorder, 'v) btm \<Rightarrow> bool" where
  "bt_inv m \<longleftrightarrow> sorted_wrt (<) (map fst m)"

lemma bt_get_empty [simp]: "bt_get bt_empty k = None" "bt_get [] k = None"
  by (simp_all add: bt_get_def bt_empty_def)

lemma bt_get_insert [simp]: "bt_get (bt_insert k v m) j = (if j = k then Some v else bt_get m j)"
  by (induction m) (auto simp: bt_get_def)

lemma bt_get_remove [simp]: "bt_get (bt_remove k m) j = (if j = k then None else bt_get m j)"
  by (induction m) (auto simp: bt_get_def bt_remove_def)

lemma set_map_fst_insert [simp]: "fst ` set (bt_insert k v m) = insert k (fst ` set m)"
  by (induction k v m rule: bt_insert.induct) auto

lemma bt_inv_empty [simp]: "bt_inv bt_empty" "bt_inv []"
  by (simp_all add: bt_inv_def bt_empty_def)

lemma bt_inv_insert: "bt_inv m \<Longrightarrow> bt_inv (bt_insert k v m)"
proof (induction k v m rule: bt_insert.induct)
  case (1 k v)
  then show ?case by (simp add: bt_inv_def)
next
  case (2 k v a b m)
  have "\<forall>x \<in> fst ` set (bt_insert k v m). x = k \<or> x \<in> fst ` set m"
    by simp
  with 2 show ?case
    by (fastforce simp: bt_inv_def)
qed

lemma bt_inv_remove: "bt_inv m \<Longrightarrow> bt_inv (bt_remove k m)"
  unfolding bt_inv_def bt_remove_def by (induction m) auto

lemma bt_inv_distinct: "bt_inv m \<Longrightarrow> distinct (map fst m)"
  by (simp add: bt_inv_def strict_sorted_iff)

lemma bt_get_iff: "bt_inv m \<Longrightarrow> bt_get m k = Some v \<longleftrightarrow> (k, v) \<in> set m"
  by (simp add: bt_get_def bt_inv_distinct)

lemma bt_get_None: "bt_get m k = None \<longleftrightarrow> k \<notin> fst ` set m"
  by (auto simp: bt_get_def map_of_eq_None_iff)

lemma bt_get_SomeD: "bt_get m k = Some v \<Longrightarrow> (k, v) \<in> set m"
  by (simp add: bt_get_def map_of_SomeD)

lemma bt_get_modify [simp]:
  "bt_get (bt_modify k f m) j = (if j = k then map_option f (bt_get m k) else bt_get m j)"
  by (auto simp: bt_modify_def split: option.splits)

lemma bt_inv_modify: "bt_inv m \<Longrightarrow> bt_inv (bt_modify k f m)"
  by (auto simp: bt_modify_def bt_inv_insert split: option.splits)

lemma bt_contains_simps [simp]:
  "\<not> bt_contains [] k"
  "bt_contains (bt_insert a v m) k \<longleftrightarrow> k = a \<or> bt_contains m k"
  "bt_contains (bt_remove a m) k \<longleftrightarrow> k \<noteq> a \<and> bt_contains m k"
  by (auto simp: bt_contains_def)

lemma set_bt_insert: "set (bt_insert k v m) \<subseteq> insert (k, v) (set m)"
  by (induction k v m rule: bt_insert.induct) auto

lemma set_bt_modify: "set (bt_modify k f m) \<subseteq> set m \<union> {(k, f v) |v. (k, v) \<in> set m}"
  using set_bt_insert by (fastforce simp: bt_modify_def dest: bt_get_SomeD split: option.splits)

lemma set_bt_remove: "set (bt_remove k m) \<subseteq> set m"
  by (auto simp: bt_remove_def)

text \<open>What a client of \<open>BTreeMap\<close> relies on: lookup after each update, that every update
  keeps the representation invariant, and that iteration meets exactly the stored entries.\<close>

locale ordered_map =
  fixes inv :: "'m \<Rightarrow> bool"
    and get :: "'m \<Rightarrow> 'k \<Rightarrow> 'v option"
    and insert_at :: "'k \<Rightarrow> 'v \<Rightarrow> 'm \<Rightarrow> 'm"
    and remove_at :: "'k \<Rightarrow> 'm \<Rightarrow> 'm"
    and entries :: "'m \<Rightarrow> ('k \<times> 'v) list"
  assumes get_insert: "get (insert_at k v m) j = (if j = k then Some v else get m j)"
    and get_remove: "get (remove_at k m) j = (if j = k then None else get m j)"
    and inv_insert: "inv m \<Longrightarrow> inv (insert_at k v m)"
    and inv_remove: "inv m \<Longrightarrow> inv (remove_at k m)"
    and entries_get: "inv m \<Longrightarrow> (k, v) \<in> set (entries m) \<longleftrightarrow> get m k = Some v"
    and map_ext: "inv m \<Longrightarrow> inv m' \<Longrightarrow> (\<And>k. get m k = get m' k) \<Longrightarrow> m = m'"
begin

lemma insert_idem: "inv m \<Longrightarrow> insert_at k v (insert_at k v m) = insert_at k v m"
  by (rule map_ext) (simp_all add: inv_insert get_insert)

lemma insert_same: "inv m \<Longrightarrow> get m k = Some v \<Longrightarrow> insert_at k v m = m"
  by (rule map_ext) (simp_all add: inv_insert get_insert)

lemma insert_commute:
  "inv m \<Longrightarrow> j \<noteq> k \<Longrightarrow> insert_at j v (insert_at k w m) = insert_at k w (insert_at j v m)"
  by (rule map_ext) (auto simp: inv_insert get_insert)

lemma insert_remove: "inv m \<Longrightarrow> insert_at k v (remove_at k m) = insert_at k v m"
  by (rule map_ext) (auto simp: inv_insert inv_remove get_insert get_remove)

lemma entries_insert:
  "inv m \<Longrightarrow> set (entries (insert_at k v m)) = insert (k, v) {e \<in> set (entries m). fst e \<noteq> k}"
  by (auto simp: entries_get inv_insert get_insert split: if_splits)

lemma all_entries_insert:
  "inv m \<Longrightarrow> (\<forall>(j, w) \<in> set (entries m). P j w) \<Longrightarrow> P k v
    \<Longrightarrow> (\<forall>(j, w) \<in> set (entries (insert_at k v m)). P j w)"
  by (auto simp: entries_insert)

end

lemma bt_ext:
  assumes "bt_inv m" and "bt_inv m'" and "\<And>k. bt_get m k = bt_get m' k"
  shows "m = m'"
proof -
  have "set m = set m'"
    using assms by (auto simp flip: bt_get_iff)
  moreover have "sorted (map fst m)" "sorted (map fst m')" "distinct (map fst m)"
    "distinct (map fst m')"
    using assms by (auto simp: bt_inv_def strict_sorted_iff)
  moreover have "inj_on fst (set m \<union> set m')"
    using calculation by (simp add: distinct_map)
  ultimately show ?thesis
    by (intro map_sorted_distinct_set_unique)
qed

interpretation bt: ordered_map bt_inv bt_get bt_insert bt_remove "\<lambda>m. m"
  by unfold_locales (auto simp: bt_inv_insert bt_inv_remove bt_get_iff intro: bt_ext)

section \<open>Ordered sets of seen values\<close>

text \<open>\<open>BTreeSet::insert\<close> used as a duplicate test: all elements differ.\<close>

lemma distinct_card_len: "card (set xs) = length xs \<longleftrightarrow> distinct xs"
  by (metis card_distinct distinct_card)

section \<open>Logs\<close>

text \<open>Every entry of a log has its reason in the entries before it.\<close>

definition explained_by :: "('e list \<Rightarrow> 'e \<Rightarrow> bool) \<Rightarrow> 'e list \<Rightarrow> bool" where
  "explained_by R log \<longleftrightarrow> (\<forall>before e after. log = before @ e # after \<longrightarrow> R before e)"

lemma explained_Nil [simp]: "explained_by R []"
  by (simp add: explained_by_def)

lemma explained_snoc [simp]: "explained_by R (log @ [e]) \<longleftrightarrow> explained_by R log \<and> R log e"
proof
  assume *: "explained_by R (log @ [e])"
  have "R before x" if "log = before @ x # after" for before x after
    using * that by (auto simp: explained_by_def)
  with * show "explained_by R log \<and> R log e" by (auto simp: explained_by_def)
next
  assume *: "explained_by R log \<and> R log e"
  have "R before x" if "log @ [e] = before @ x # after" for before x after
    using that * by (cases after rule: rev_cases) (auto simp: explained_by_def)
  then show "explained_by R (log @ [e])" by (simp add: explained_by_def)
qed

text \<open>Facts that are kept: a log only grows.\<close>

lemma fact_mono:
  "mono (\<lambda>E. e \<in> E)" "mono (\<lambda>_. c)" "mono P \<Longrightarrow> mono Q \<Longrightarrow> mono (\<lambda>E. P E \<and> Q E)" "mono P \<Longrightarrow> mono Q \<Longrightarrow> mono (\<lambda>E. P E \<or> Q E)"
  "(\<And>x. mono (R x)) \<Longrightarrow> mono (\<lambda>E. \<exists>x. R x E)"
  by (fastforce simp: mono_def le_bool_def)+

lemma fact_insert: "mono P \<Longrightarrow> P E \<Longrightarrow> P (insert e E)"
  by (metis le_boolE monoD subset_insertI)

section \<open>Words\<close>

text \<open>Splitting at white space gives words, and gives back the words that were joined by single spaces.\<close>

definition word_ok :: "rstr \<Rightarrow> bool" where
  "word_ok w \<longleftrightarrow> w \<noteq> [] \<and> list_all (\<lambda>c. \<not> is_whitespace c) w"

lemma split_whitespace_step:
  "dropWhile is_whitespace s = t \<Longrightarrow> split_whitespace s =
     (if t = [] then [] else takeWhile (\<lambda>c. \<not> is_whitespace c) t # split_whitespace (dropWhile (\<lambda>c. \<not> is_whitespace c) t))"
  by (subst split_whitespace.simps) (simp only: Let_def)

lemma split_whitespace_ok: "w \<in> set (split_whitespace s) \<Longrightarrow> word_ok w"
proof (induction s rule: split_whitespace.induct)
  case (1 s)
  define t where "t = dropWhile is_whitespace s"
  show ?case
  proof (cases t)
    case Nil
    with 1(2) split_whitespace_step [OF t_def [symmetric]] show ?thesis by simp
  next
    case (Cons c t')
    have c: "\<not> is_whitespace c" using hd_dropWhile [of is_whitespace s] Cons by (simp flip: t_def)
    have "w = takeWhile (\<lambda>c. \<not> is_whitespace c) t \<or> w \<in> set (split_whitespace (dropWhile (\<lambda>c. \<not> is_whitespace c) t))"
      using 1(2) Cons split_whitespace_step [OF t_def [symmetric]] by simp
    then show ?thesis
    proof
      assume "w = takeWhile (\<lambda>c. \<not> is_whitespace c) t"
      with c Cons show ?thesis by (auto simp: word_ok_def list_all_iff dest: set_takeWhileD)
    qed (use 1(1) [OF t_def] Cons in simp)
  qed
qed

lemma split_whitespace_word:
  assumes "word_ok w"
  shows "split_whitespace (w @ 32 # s) = w # split_whitespace s" "split_whitespace w = [w]"
proof -
  have ws: "is_whitespace 32" by (simp add: is_whitespace_def)
  have w: "w \<noteq> []" "\<forall>c \<in> set w. \<not> is_whitespace c" using assms by (auto simp: word_ok_def list_all_iff)
  then have t: "takeWhile (\<lambda>c. \<not> is_whitespace c) (w @ 32 # s) = w" "dropWhile (\<lambda>c. \<not> is_whitespace c) (w @ 32 # s) = 32 # s"
    "takeWhile (\<lambda>c. \<not> is_whitespace c) w = w" "dropWhile (\<lambda>c. \<not> is_whitespace c) w = []"
    using ws by (simp_all add: takeWhile_append dropWhile_append takeWhile_eq_all_conv dropWhile_eq_Nil_conv)
  have d: "dropWhile is_whitespace (w @ 32 # s) = w @ 32 # s" "dropWhile is_whitespace w = w" using w by (cases w; simp)+
  have "split_whitespace (32 # s) = split_whitespace s"
    using ws split_whitespace_step [of "32 # s", OF refl] split_whitespace_step [of s, OF refl] by simp
  moreover have "split_whitespace [] = []" using split_whitespace_step [of "[]", OF refl] by simp
  ultimately show "split_whitespace (w @ 32 # s) = w # split_whitespace s" "split_whitespace w = [w]"
    using split_whitespace_step [OF d(1)] split_whitespace_step [OF d(2)] t w(1) by simp_all
qed

lemma split_whitespace_join: "list_all word_ok ws \<Longrightarrow> split_whitespace (join (lit '' '') ws) = ws"
proof (induction ws rule: induct_list012)
  case 1
  show ?case by (simp add: split_whitespace.simps [of "[]"])
next
  case (2 w)
  then show ?case by (simp add: split_whitespace_word)
next
  case (3 w v ws)
  have "lit '' '' = [32]" by (simp add: lit_def)
  with 3 show ?case by (simp add: split_whitespace_word)
qed

end
