(* ===== verification/Utf8.thy ===== *)
theory Utf8
  imports Prelude
begin

text \<open>\<open>std::str::from_utf8\<close>, the inverse of \<open>as_bytes\<close>: overlong forms, surrogates and values above the
  last scalar value are refused.\<close>

definition is_scalar :: "uchar \<Rightarrow> bool" where
  "is_scalar c \<longleftrightarrow> c < 0xD800 \<or> (0xE000 \<le> c \<and> c < 0x110000)"

definition continuation :: "u8 \<Rightarrow> bool" where
  "continuation b \<longleftrightarrow> 0x80 \<le> unat b \<and> unat b < 0xC0"

definition low_bits :: "u8 \<Rightarrow> nat" where
  "low_bits b = unat b - 0x80"

text \<open>The first character of a byte string and the bytes after it.\<close>

fun decode_char :: "bytes \<Rightarrow> (uchar \<times> bytes) option" where
  "decode_char (a # rest) =
     (if unat a < 0x80 then Some (unat a, rest)
      else
        (case rest of
           b # rest1 \<Rightarrow>
             if \<not> continuation b then None
             else if 0xC0 \<le> unat a \<and> unat a < 0xE0 then
               (let c = (unat a - 0xC0) * 64 + low_bits b in if 0x80 \<le> c then Some (c, rest1) else None)
             else
               (case rest1 of
                  b' # rest2 \<Rightarrow>
                    if \<not> continuation b' then None
                    else if 0xE0 \<le> unat a \<and> unat a < 0xF0 then
                      (let c = (unat a - 0xE0) * 4096 + low_bits b * 64 + low_bits b'
                       in if 0x800 \<le> c \<and> is_scalar c then Some (c, rest2) else None)
                    else
                      (case rest2 of
                         b'' # rest3 \<Rightarrow>
                           if continuation b'' \<and> 0xF0 \<le> unat a then
                             (let c = (unat a - 0xF0) * 262144 + low_bits b * 4096 + low_bits b' * 64 + low_bits b''
                              in if 0x10000 \<le> c \<and> is_scalar c then Some (c, rest3) else None)
                           else None
                       | [] \<Rightarrow> None)
                | [] \<Rightarrow> None)
         | [] \<Rightarrow> None))"
| "decode_char [] = None"

lemma decode_char_shorter: "decode_char bs = Some (c, rest) \<Longrightarrow> length rest < length bs"
  by (cases bs) (auto simp: Let_def split: if_splits list.splits)

function from_utf8 :: "bytes \<Rightarrow> rstr option" where
  "from_utf8 bs =
     (if bs = [] then Some []
      else
        (case decode_char bs of
           None \<Rightarrow> None
         | Some (c, rest) \<Rightarrow> map_option (Cons c) (from_utf8 rest)))"
  by pat_completeness auto
termination
  by (relation "measure length") (auto dest: decode_char_shorter)

declare from_utf8.simps [simp del]

lemma byte_nat: "n < 256 \<Longrightarrow> unat (of_nat n :: u8) = n"
  by (simp add: unat_of_nat)

lemma digits64:
  fixes c :: nat
  shows "c div 64 * 64 + c mod 64 = c"
    and "c div 4096 * 4096 + c div 64 mod 64 * 64 + c mod 64 = c"
    and "c div 262144 * 262144 + c div 4096 mod 64 * 4096 + c div 64 mod 64 * 64 + c mod 64 = c"
proof -
  show one: "c div 64 * 64 + c mod 64 = c" for c :: nat by simp
  have d: "c div 4096 = c div 64 div 64" "c div 262144 = c div 64 div 64 div 64" by (simp_all add: div_mult2_eq [symmetric])
  show "c div 4096 * 4096 + c div 64 mod 64 * 64 + c mod 64 = c"
    using one [of c] one [of "c div 64"] unfolding d by linarith
  show "c div 262144 * 262144 + c div 4096 mod 64 * 4096 + c div 64 mod 64 * 64 + c mod 64 = c"
    using one [of c] one [of "c div 64"] one [of "c div 64 div 64"] unfolding d by linarith
qed

lemma tail_byte: "k < 64 \<Longrightarrow> unat (of_nat (0x80 + k) :: u8) = 0x80 + k"
  by (simp only: byte_nat)

lemma tail_cont: "k < 64 \<Longrightarrow> continuation (of_nat (0x80 + k)) \<and> low_bits (of_nat (0x80 + k)) = k"
  unfolding continuation_def low_bits_def by (simp only: tail_byte) simp

lemma decode_char_utf8:
  assumes "is_scalar c"
  shows "decode_char (utf8_char c @ rest) = Some (c, rest)"
proof -
  note t = tail_cont [of "c mod 64"] tail_cont [of "c div 64 mod 64"] tail_cont [of "c div 4096 mod 64"]
  consider "c < 0x80" | "0x80 \<le> c" "c < 0x800" | "0x800 \<le> c" "c < 0x10000" | "0x10000 \<le> c" by linarith
  then show ?thesis
  proof cases
    case 1
    then show ?thesis by (simp add: utf8_char_def byte_nat)
  next
    case 2
    then have "c div 64 < 32" by (simp add: less_mult_imp_div_less)
    then have a: "unat (of_nat (0xC0 + c div 64) :: u8) = 0xC0 + c div 64" "c div 64 < 32"
      by (auto intro: byte_nat simp del: of_nat_add)
    with 2 t digits64(1) [of c] show ?thesis by (simp add: utf8_char_def Let_def del: of_nat_add)
  next
    case 3
    then have "c div 4096 < 16" by (simp add: less_mult_imp_div_less)
    then have a: "unat (of_nat (0xE0 + c div 4096) :: u8) = 0xE0 + c div 4096" "c div 4096 < 16"
      by (auto intro: byte_nat simp del: of_nat_add)
    with 3 t digits64(2) [of c] assms show ?thesis by (simp add: utf8_char_def Let_def del: of_nat_add)
  next
    case 4
    then have "c < 0x110000" using assms by (simp add: is_scalar_def)
    then have "c div 262144 < 5" by (simp add: less_mult_imp_div_less)
    then have a: "unat (of_nat (0xF0 + c div 262144) :: u8) = 0xF0 + c div 262144" "c div 262144 < 5"
      by (auto intro: byte_nat simp del: of_nat_add)
    with 4 t digits64(3) [of c] assms show ?thesis by (simp add: utf8_char_def Let_def del: of_nat_add)
  qed
qed

lemma from_utf8_as_bytes: "list_all is_scalar s \<Longrightarrow> from_utf8 (as_bytes s) = Some s"
proof (induction s)
  case Nil
  then show ?case by (simp add: as_bytes_def from_utf8.simps)
next
  case (Cons c s)
  then have "decode_char (utf8_char c @ as_bytes s) = Some (c, as_bytes s)" by (intro decode_char_utf8) simp
  moreover have "utf8_char c \<noteq> []" by (simp add: utf8_char_def)
  moreover have "as_bytes (c # s) = utf8_char c @ as_bytes s" by (simp add: as_bytes_def)
  ultimately show ?case using Cons by (simp add: from_utf8.simps [of "utf8_char c @ as_bytes s"])
qed

end
