(* ===== verification/Session_Protocol.thy ===== *)
theory Session_Protocol
  imports Utf8
begin

text \<open>
  The frames between the broker and its clients (\<open>session/protocol.rs\<close>): a big-endian length, a type byte
  and a payload. A connection is a script of what its \<open>read\<close> calls see: chunks of any size,
  interruptions and failures. JSON messages are the payload of control frames; their texts are not
  modelled, only the messages.
\<close>

section \<open>Messages\<close>

datatype client_kind = CK_Connect | CK_Mcp

datatype host_query = HQ_Alias rstr | HQ_Id rstr

record pty_request =
  pr_cols :: u16
  pr_rows :: u16
  pr_term :: rstr

datatype question_kind = QK_HostKeyNotice | QK_Passphrase | QK_Password | QK_Interactive

definition PROTOCOL_VERSION :: u32 where
  "PROTOCOL_VERSION = 1"

definition MCP_PROTOCOL_VERSION :: u32 where
  "MCP_PROTOCOL_VERSION = 2"

section \<open>Frames\<close>

definition CONTROL :: u8 where
  "CONTROL = 1"

definition DATA :: u8 where
  "DATA = 2"

definition MAX_FRAME :: nat where
  "MAX_FRAME = 2 ^ 20"

definition DATA_CHUNK :: nat where
  "DATA_CHUNK = 32 * 1024"

datatype frame = F_Control bytes | F_Data bytes

datatype 'e frame_error =
    FE_Io 'e
  | FE_TooLarge nat
  | FE_UnknownType u8
  | FE_Empty
  | FE_Truncated

text \<open>\<open>u32::to_be_bytes\<close> and \<open>u32::from_be_bytes\<close>.\<close>

definition be_bytes :: "u32 \<Rightarrow> bytes" where
  "be_bytes w = map (\<lambda>k. of_nat (unat w div 256 ^ k)) [3, 2, 1, 0]"

definition from_be_bytes :: "bytes \<Rightarrow> u32" where
  "from_be_bytes bs = of_nat (foldl (\<lambda>n b. n * 256 + unat b) 0 bs)"

subsection \<open>Reading\<close>

datatype 'e read_event = R_Bytes bytes | R_Interrupted | R_Fail 'e

datatype 'e read_result = RR_Ok bytes | RR_Interrupted | RR_Err 'e

text \<open>One call of \<open>read\<close> with a buffer of \<open>n\<close> bytes: part of the next chunk, nothing at the end of the stream.\<close>

fun read_once :: "nat \<Rightarrow> 'e read_event list \<Rightarrow> 'e read_result \<times> 'e read_event list" where
  "read_once n [] = (RR_Ok [], [])"
| "read_once n (R_Bytes bs # r) = (RR_Ok (take n bs), if drop n bs = [] then r else R_Bytes (drop n bs) # r)"
| "read_once n (R_Interrupted # r) = (RR_Interrupted, r)"
| "read_once n (R_Fail e # r) = (RR_Err e, r)"

definition script_size :: "'e read_event list \<Rightarrow> nat" where
  "script_size r = sum_list (map (\<lambda>ev. case ev of R_Bytes bs \<Rightarrow> Suc (length bs) | _ \<Rightarrow> 1) r)"

lemma script_size_simps [simp]:
  "script_size [] = 0" "script_size (R_Bytes bs # r) = Suc (length bs) + script_size r"
  "script_size (R_Interrupted # r) = Suc (script_size r)" "script_size (R_Fail e # r) = Suc (script_size r)"
  by (simp_all add: script_size_def)

lemma read_once_smaller:
  "read_once n r = (RR_Ok bs, r') \<Longrightarrow> bs \<noteq> [] \<Longrightarrow> script_size r' < script_size r"
  "read_once n r = (RR_Interrupted, r') \<Longrightarrow> script_size r' < script_size r"
  by (induction n r rule: read_once.induct) (auto split: if_splits)

function read_full :: "nat \<Rightarrow> bytes \<Rightarrow> 'e read_event list \<Rightarrow> 'e frame_error + (bytes option \<times> 'e read_event list)" where
  "read_full n filled r =
     (if n \<le> length filled then Inr (Some filled, r)
      else
        (case read_once (n - length filled) r of
           (RR_Ok bs, r') \<Rightarrow>
             if bs = [] then (if filled = [] then Inr (None, r') else Inl FE_Truncated)
             else read_full n (filled @ bs) r'
         | (RR_Interrupted, r') \<Rightarrow> read_full n filled r'
         | (RR_Err e, _) \<Rightarrow> Inl (FE_Io e)))"
  by pat_completeness auto
termination
  by (relation "measure (\<lambda>(_, _, r). script_size r)") (auto dest: read_once_smaller [OF sym] read_once_smaller(2) [OF sym])

declare read_full.simps [simp del]

definition frame_of :: "u8 \<Rightarrow> bytes \<Rightarrow> 'e frame_error + frame" where
  "frame_of kind payload =
     (if kind = CONTROL then Inr (F_Control payload)
      else if kind = DATA then Inr (F_Data payload)
      else Inl (FE_UnknownType kind))"

definition read_frame :: "'e read_event list \<Rightarrow> 'e frame_error + (frame option \<times> 'e read_event list)" where
  "read_frame r =
     rbind (read_full 4 [] r) (\<lambda>(head, r).
     case head of
       None \<Rightarrow> Inr (None, r)
     | Some h \<Rightarrow>
         (let len = unat (from_be_bytes h) in
          if len = 0 then Inl FE_Empty
          else if len > MAX_FRAME then Inl (FE_TooLarge len)
          else
            rbind (read_full 1 [] r) (\<lambda>(kind, r).
            case kind of
              None \<Rightarrow> Inl FE_Truncated
            | Some k \<Rightarrow>
                rbind (read_full (len - 1) [] r) (\<lambda>(payload, r).
                case payload of
                  None \<Rightarrow> Inl FE_Truncated
                | Some p \<Rightarrow> rbind (frame_of (hd k) p) (\<lambda>f. Inr (Some f, r))))))"

subsection \<open>Writing\<close>

datatype write_error = WE_TooLarge nat

definition write_frame :: "u8 \<Rightarrow> bytes \<Rightarrow> write_error + bytes" where
  "write_frame kind payload =
     (if length payload + 1 > MAX_FRAME then Inl (WE_TooLarge (length payload + 1))
      else Inr (be_bytes (of_nat (length payload + 1)) @ [kind] @ payload))"

definition write_data :: "bytes \<Rightarrow> write_error + bytes" where
  "write_data bs = write_frame DATA bs"

definition write_control :: "bytes \<Rightarrow> write_error + bytes" where
  "write_control json = write_frame CONTROL json"

section \<open>A stream of frames\<close>

text \<open>A connection that does not fail, whatever the sizes of its chunks, and the bytes it carries.\<close>

definition steady :: "'e read_event list \<Rightarrow> bool" where
  "steady r = list_all (\<lambda>ev. case ev of R_Bytes bs \<Rightarrow> bs \<noteq> [] | R_Interrupted \<Rightarrow> True | R_Fail _ \<Rightarrow> False) r"

definition content :: "'e read_event list \<Rightarrow> bytes" where
  "content r = concat (map (\<lambda>ev. case ev of R_Bytes bs \<Rightarrow> bs | _ \<Rightarrow> []) r)"

lemma stream_simps [simp]:
  "steady []" "steady (R_Bytes bs # r) \<longleftrightarrow> bs \<noteq> [] \<and> steady r" "steady (R_Interrupted # r) = steady r" "\<not> steady (R_Fail e # r)"
  "content [] = []" "content (R_Bytes bs # r) = bs @ content r" "content (R_Interrupted # r) = content r"
  by (simp_all add: steady_def content_def)

lemma read_full_steady:
  assumes "steady r"
  shows "if n \<le> length filled + length (content r)
    then \<exists>r'. read_full n filled r = Inr (Some (filled @ take (n - length filled) (content r)), r') \<and> steady r'
           \<and> content r' = drop (n - length filled) (content r)
    else read_full n filled r = (if filled = [] \<and> content r = [] then Inr (None, []) else Inl FE_Truncated)"
  using assms
proof (induction "script_size r" arbitrary: r filled rule: less_induct)
  case less
  show ?case
  proof (cases "n \<le> length filled")
    case True
    with less.prems show ?thesis by (simp add: read_full.simps [of n filled r])
  next
    case False
    show ?thesis
    proof (cases r)
      case Nil
      with False show ?thesis by (simp add: read_full.simps [of n filled "[]"] read_full.simps [of n "[]" "[]"])
    next
      case (Cons ev rs)
      show ?thesis
      proof (cases ev)
        case (R_Bytes bs)
        let ?k = "n - length filled"
        define r' where "r' = (if drop ?k bs = [] then rs else R_Bytes (drop ?k bs) # rs)"
        have bs: "bs \<noteq> []" "take ?k bs \<noteq> []" and r': "steady r'" "content r' = drop ?k bs @ content rs" "script_size r' < script_size r"
          using less.prems Cons R_Bytes False by (auto simp: r'_def)
        have step: "read_full n filled r = read_full n (filled @ take ?k bs) r'"
          unfolding read_full.simps [of n filled r] using False Cons R_Bytes bs by (simp add: r'_def)
        show ?thesis
          using less.hyps [OF r'(3,1), of "filled @ take ?k bs"] bs r'(2) False Cons R_Bytes unfolding step
          by (cases "?k \<le> length bs") (auto simp: min_def split: if_splits)
      next
        case R_Interrupted
        with False Cons have "read_full n filled r = read_full n filled rs" unfolding read_full.simps [of n filled r] by simp
        with less.hyps [of rs filled] less.prems Cons R_Interrupted show ?thesis by (simp split: if_splits)
      next
        case (R_Fail e)
        with less.prems Cons show ?thesis by simp
      qed
    qed
  qed
qed

lemma be_bytes_roundtrip: "length (be_bytes w) = 4" "from_be_bytes (be_bytes w) = w"
proof -
  show "length (be_bytes w) = 4" by (simp add: be_bytes_def)
  define n where "n = unat w"
  have n: "n < 256 ^ 4" using unsigned_less [of w, where 'a = nat] by (simp add: n_def)
  have b: "unat (of_nat (n div m) :: u8) = n div m mod 256" for m by (simp add: unat_of_nat)
  have d: "n div 65536 = n div 256 div 256" "n div 16777216 = n div 256 div 256 div 256"
    by (simp_all flip: div_mult2_eq)
  have t: "n div 256 div 256 div 256 < 256" using n by (simp flip: div_mult2_eq)
  then have "((n div 16777216 mod 256 * 256 + n div 65536 mod 256) * 256 + n div 256 mod 256) * 256 + n mod 256 = n"
    by (simp only: d mod_less div_mult_mod_eq)
  moreover have "map unat (be_bytes w) = [n div 16777216 mod 256, n div 65536 mod 256, n div 256 mod 256, n mod 256]"
    using b [of 16777216] b [of 65536] b [of 256] b [of 1] by (simp add: be_bytes_def flip: n_def)
  moreover have "foldl (\<lambda>n b. n * 256 + unat b) m bs = foldl (\<lambda>n b. n * 256 + b) m (map unat bs)" for m and bs :: bytes
    by (induction bs arbitrary: m) auto
  ultimately have "foldl (\<lambda>n b. n * 256 + unat b) 0 (be_bytes w) = n" using t [folded d(2)] by simp
  then show "from_be_bytes (be_bytes w) = w" by (simp add: from_be_bytes_def n_def)
qed

text \<open>What a sender hands to the connection, and what the other side makes of a whole connection.\<close>

fun send_frame :: "frame \<Rightarrow> write_error + bytes" where
  "send_frame (F_Control p) = write_control p"
| "send_frame (F_Data p) = write_data p"

fun send_all :: "frame list \<Rightarrow> write_error + bytes" where
  "send_all [] = Inr []"
| "send_all (f # fs) = rbind (send_frame f) (\<lambda>b. rbind (send_all fs) (\<lambda>bs. Inr (b @ bs)))"

lemma read_full_shrinks: "read_full n filled r = Inr (Some bs, r') \<Longrightarrow> script_size r' \<le> script_size r \<and> (length filled < n \<longrightarrow> script_size r' < script_size r)"
proof (induction n filled r rule: read_full.induct)
  case (1 n filled r)
  show ?case
  proof (cases "n \<le> length filled")
    case True
    with "1.prems" show ?thesis by (simp add: read_full.simps [of n filled r])
  next
    case False
    obtain res rs where ro: "read_once (n - length filled) r = (res, rs)" by fastforce
    show ?thesis
    proof (cases res)
      case (RR_Ok b)
      with "1.prems" False ro have b: "b \<noteq> []" "read_full n (filled @ b) rs = Inr (Some bs, r')"
        by (auto simp: read_full.simps [of n filled r] split: if_splits)
      with "1.IH"(1) [OF False ro [symmetric] RR_Ok] read_once_smaller(1) [of "n - length filled" r b rs] ro RR_Ok show ?thesis by auto
    next
      case RR_Interrupted
      with "1.prems" False ro have "read_full n filled rs = Inr (Some bs, r')" by (simp add: read_full.simps [of n filled r])
      with "1.IH"(2) [OF False ro [symmetric]] RR_Interrupted read_once_smaller(2) [of "n - length filled" r rs] ro show ?thesis by auto
    next
      case (RR_Err e)
      with "1.prems" False ro show ?thesis by (simp add: read_full.simps [of n filled r])
    qed
  qed
qed

lemma read_frame_smaller: "read_frame r = Inr (Some f, r') \<Longrightarrow> script_size r' < script_size r"
  by (fastforce simp: read_frame_def Let_def split: option.splits if_splits dest: read_full_shrinks)

function read_frames :: "'e read_event list \<Rightarrow> frame list \<times> 'e frame_error option" where
  "read_frames r =
     (case read_frame r of
        Inl e \<Rightarrow> ([], Some e)
      | Inr (None, _) \<Rightarrow> ([], None)
      | Inr (Some f, r') \<Rightarrow> (case read_frames r' of (fs, e) \<Rightarrow> (f # fs, e)))"
  by pat_completeness auto
termination
  by (relation "measure script_size") (auto intro: read_frame_smaller)

declare read_frames.simps [simp del]

lemma read_full_exact:
  assumes "steady r" "content r = xs @ ys"
  obtains r' where "read_full (length xs) [] r = Inr (Some xs, r')" "steady r'" "content r' = ys"
  using read_full_steady [OF assms(1), of "length xs" "[]"] assms(2) that by auto

lemma read_full_short:
  assumes "steady r" "length (content r) < n"
  shows "read_full n [] r = (if content r = [] then Inr (None, []) else Inl FE_Truncated)"
  using read_full_steady [OF assms(1), of n "[]"] assms(2) by (simp split: if_splits)

lemma send_frame_bytes:
  assumes "send_frame f = Inr b"
  obtains kind payload where "b = be_bytes (of_nat (length payload + 1)) @ [kind] @ payload" "unat (of_nat (length payload + 1) :: u32) = length payload + 1"
    "length payload + 1 \<le> MAX_FRAME" "\<And>T. (frame_of kind payload :: 'e frame_error + frame) = Inr f"
proof -
  have "unat (of_nat (n + 1) :: u32) = n + 1" if "n + 1 \<le> MAX_FRAME" for n
    using that by (simp add: unat_of_nat MAX_FRAME_def del: of_nat_add of_nat_Suc)
  with assms that show ?thesis
    by (cases f) (auto simp: write_control_def write_data_def write_frame_def frame_of_def CONTROL_def DATA_def split: if_splits)
qed

text \<open>One whole frame is read as it was sent, a cut one is an error.\<close>

lemma read_frame_whole:
  assumes "steady (r :: 'e read_event list)" "send_frame f = Inr b" "content r = b @ rest"
  obtains r' where "read_frame r = Inr (Some f, r')" "steady r'" "content r' = rest"
proof -
  obtain kind payload where b: "b = be_bytes (of_nat (length payload + 1)) @ [kind] @ payload"
    "unat (of_nat (length payload + 1) :: u32) = length payload + 1" "length payload + 1 \<le> MAX_FRAME"
    "(frame_of kind payload :: 'e frame_error + frame) = Inr f"
    using send_frame_bytes [OF assms(2)] by metis
  let ?h = "be_bytes (of_nat (length payload + 1))"
  obtain r1 where r1: "read_full 4 [] r = Inr (Some ?h, r1)" "steady r1" "content r1 = kind # payload @ rest"
    using read_full_exact [OF assms(1), of ?h "kind # payload @ rest"] assms(3) b(1) be_bytes_roundtrip(1) by auto
  obtain r2 where r2: "read_full 1 [] r1 = Inr (Some [kind], r2)" "steady r2" "content r2 = payload @ rest"
    using read_full_exact [OF r1(2), of "[kind]" "payload @ rest"] r1(3) by auto
  obtain r3 where r3: "read_full (length payload) [] r2 = Inr (Some payload, r3)" "steady r3" "content r3 = rest"
    using read_full_exact [OF r2(2,3)] .
  have "read_frame r = Inr (Some f, r3)"
    using r1(1) r2(1) r3(1) b(2-4) be_bytes_roundtrip(2) [of "of_nat (length payload + 1)"] by (simp add: read_frame_def Let_def)
  with r3 that show ?thesis by blast
qed

lemma read_frame_cut:
  assumes "steady (r :: 'e read_event list)" "send_frame f = Inr b" "content r @ lost = b" "lost \<noteq> []"
  shows "read_frame r = (if content r = [] then Inr (None, []) else Inl FE_Truncated)"
proof -
  obtain kind payload where b: "b = be_bytes (of_nat (length payload + 1)) @ [kind] @ payload"
    "unat (of_nat (length payload + 1) :: u32) = length payload + 1" "length payload + 1 \<le> MAX_FRAME"
    using send_frame_bytes [OF assms(2)] by metis
  let ?h = "be_bytes (of_nat (length payload + 1))" and ?c = "content r"
  show ?thesis
  proof (cases "length ?c < 4")
    case True
    with read_full_short [OF assms(1) True] show ?thesis by (simp add: read_frame_def)
  next
    case False
    obtain c1 where c1: "?c = ?h @ c1" "c1 @ lost = kind # payload"
    proof (rule that)
      have "take 4 (?c @ lost) = ?h" "drop 4 (?c @ lost) = kind # payload"
        using assms(3) b(1) be_bytes_roundtrip(1) [of "of_nat (length payload + 1)"] by simp_all
      with False show "?c = ?h @ drop 4 ?c" "drop 4 ?c @ lost = kind # payload"
        by (simp_all add: take_append) (metis append_take_drop_id)
    qed
    obtain r1 where r1: "read_full 4 [] r = Inr (Some ?h, r1)" "steady r1" "content r1 = c1"
      using read_full_exact [OF assms(1) c1(1)] be_bytes_roundtrip(1) by auto
    show ?thesis
    proof (cases c1)
      case Nil
      with read_full_short [OF r1(2), of 1] r1 b(2,3) be_bytes_roundtrip(2) [of "of_nat (length payload + 1)"] c1(1) be_bytes_roundtrip(1) [of "of_nat (length payload + 1)"]
      show ?thesis by (auto simp: read_frame_def Let_def)
    next
      case (Cons k c2)
      with c1(2) have c2: "k = kind" "c2 @ lost = payload" by auto
      obtain r2 where r2: "read_full 1 [] r1 = Inr (Some [kind], r2)" "steady r2" "content r2 = c2"
        using read_full_exact [OF r1(2), of "[kind]" c2] r1(3) Cons c2(1) by auto
      have "length c2 < length payload" using c2(2) assms(4) by auto
      with read_full_short [OF r2(2), of "length payload"] r1(1) r2 b(2,3) be_bytes_roundtrip [of "of_nat (length payload + 1)"] c1(1)
      show ?thesis by (auto simp: read_frame_def Let_def)
    qed
  qed
qed

text \<open>C35. The frames of a connection arrive exactly as they were sent, however the transport splits or interrupts the
  bytes: a connection that carries the first part of what the sender wrote yields all frames that are complete in
  it and nothing else, and ends cleanly exactly when it was cut between two frames.\<close>

theorem frames_roundtrip:
  assumes "steady r" "send_all fs = Inr out" "content r @ lost = out"
  shows "\<exists>gs hs sent cut. fs = gs @ hs \<and> send_all gs = Inr sent \<and> content r = sent @ cut
    \<and> (case hs of [] \<Rightarrow> cut = [] | h # _ \<Rightarrow> \<exists>b. send_frame h = Inr b \<and> length cut < length b)
    \<and> read_frames r = (gs, if cut = [] then None else Some FE_Truncated)"
  using assms
proof (induction fs arbitrary: r out)
  case Nil
  then have "read_frame r = Inr (None, [])" using read_full_short [OF Nil(1), of 4] by (simp add: read_frame_def)
  with Nil show ?case by (auto simp: read_frames.simps [of r])
next
  case (Cons f fs)
  from Cons.prems(2) obtain b out' where o: "send_frame f = Inr b" "send_all fs = Inr out'" "out = b @ out'" by auto
  show ?case
  proof (cases "length b \<le> length (content r)")
    case True
    with Cons.prems(3) o(3) obtain c where c: "content r = b @ c" "c @ lost = out'" by (auto simp: append_eq_append_conv2)
    obtain r' where r': "read_frame r = Inr (Some f, r')" "steady r'" "content r' = c"
      using read_frame_whole [OF Cons.prems(1) o(1) c(1)] .
    from Cons.IH [OF r'(2) o(2)] c(2) r'(3) obtain gs hs sent cut where g: "fs = gs @ hs" "send_all gs = Inr sent" "c = sent @ cut"
      "case hs of [] \<Rightarrow> cut = [] | h # _ \<Rightarrow> \<exists>b. send_frame h = Inr b \<and> length cut < length b"
      "read_frames r' = (gs, if cut = [] then None else Some FE_Truncated)" by auto
    have "send_all (f # gs) = Inr (b @ sent)" using o(1) g(2) by simp
    with g r'(1) c(1) show ?thesis
      by (intro exI [of _ "f # gs"] exI [of _ hs] exI [of _ "b @ sent"] exI [of _ cut]) (simp add: read_frames.simps [of r])
  next
    case False
    with Cons.prems(3) o(3) obtain l where l: "content r @ l = b" "l \<noteq> []" by (auto simp: append_eq_append_conv2)
    with read_frame_cut [OF Cons.prems(1) o(1) l] False o(1) show ?thesis
      by (intro exI [of _ "[]"] exI [of _ "f # fs"] exI [of _ "content r"]) (simp add: read_frames.simps [of r])
  qed
qed

theorem frames_roundtrip_witness:
  "\<exists>r :: unit read_event list. content r = [0, 0, 0, 2, 2, 65, 0, 0] \<and> read_frames r = ([F_Data [65]], Some FE_Truncated)"
proof -
  let ?r = "[R_Bytes [0, 0, 0], R_Interrupted, R_Bytes [2, 2], R_Bytes [65, 0, 0]] :: unit read_event list"
  have f: "send_frame (F_Data [65]) = Inr [0, 0, 0, 2, 2, 65]" "send_frame (F_Control []) = Inr [0, 0, 0, 1, 1]"
    by (simp_all add: write_data_def write_control_def write_frame_def MAX_FRAME_def be_bytes_def DATA_def CONTROL_def)
  then have o: "send_all [F_Data [65], F_Control []] = Inr [0, 0, 0, 2, 2, 65, 0, 0, 0, 1, 1]" by simp
  have h: "steady ?r" "content ?r @ [0, 1, 1] = [0, 0, 0, 2, 2, 65, 0, 0, 0, 1, 1]" by simp_all
  obtain gs hs sent cut where g: "[F_Data [65], F_Control []] = gs @ hs" "send_all gs = Inr sent" "content ?r = sent @ cut"
    "case hs of [] \<Rightarrow> cut = [] | h # _ \<Rightarrow> \<exists>b. send_frame h = Inr b \<and> length cut < length b"
    "read_frames ?r = (gs, if cut = [] then None else Some FE_Truncated)"
    using frames_roundtrip [OF h(1) o h(2)] by (elim exE conjE)
  consider "gs = []" "hs = [F_Data [65], F_Control []]" | "gs = [F_Data [65]]" "hs = [F_Control []]" | "gs = [F_Data [65], F_Control []]" "hs = []"
    using g(1) [symmetric] unfolding append_eq_Cons_conv by (elim disjE conjE exE) simp_all
  then have "gs = [F_Data [65]] \<and> cut \<noteq> []"
  proof cases
    case 1
    with f(1) g(2,4) have "length cut < 6" "sent = []" by auto
    then show ?thesis using arg_cong [OF g(3), of length] by simp
  next
    case 2
    with f g(2) have "length sent = 6" by auto
    then show ?thesis using arg_cong [OF g(3), of length] 2 by auto
  next
    case 3
    with o g(2,4) have "length sent = 11" by auto
    then show ?thesis using arg_cong [OF g(3), of length] by simp
  qed
  with g(5) show ?thesis by (intro exI [of _ ?r]) simp
qed

end
