(* ===== verification/Agent_Protocol.thy ===== *)
theory Agent_Protocol
  imports Session_Protocol
begin

text \<open>
  The SSH agent as its clients see it (\<open>agent/protocol.rs\<close>, \<open>agent/session.rs\<close>): frames, requests, and the session of
  one connection, which remembers the host it was bound to and whether it was forwarded. The wire format of the
  \<open>ssh-encoding\<close> and \<open>ssh-key\<close> packages is the parameter \<open>ssh_codec\<close>; every decoder takes a field off the front of the
  bytes. Which keys there are and what is signed is up to the authority.
\<close>

section \<open>Frames\<close>

definition MAX_MESSAGE :: nat where
  "MAX_MESSAGE = 256 * 1024"

datatype 'e agent_error = AG_Length nat | AG_Eof | AG_Io 'e

text \<open>\<open>Read::read_exact\<close> for at least one byte: interruptions are retried, the end of the stream is an error of its own.\<close>

definition read_exact :: "nat \<Rightarrow> 'e read_event list \<Rightarrow> 'e agent_error + (bytes \<times> 'e read_event list)" where
  "read_exact n r =
     (case read_full n [] r of
        Inr (Some bs, r) \<Rightarrow> Inr (bs, r)
      | Inl (FE_Io e) \<Rightarrow> Inl (AG_Io e)
      | _ \<Rightarrow> Inl AG_Eof)"

definition agent_read_frame :: "'e read_event list \<Rightarrow> 'e agent_error + (bytes \<times> 'e read_event list) option" where
  "agent_read_frame r =
     (case read_exact 4 r of
        Inl AG_Eof \<Rightarrow> Inr None
      | Inl e \<Rightarrow> Inl e
      | Inr (head, r) \<Rightarrow>
          (let len = unat (from_be_bytes head) in
           if len = 0 \<or> len > MAX_MESSAGE then Inl (AG_Length len)
           else rbind (read_exact len r) (\<lambda>m. Inr (Some m))))"

definition agent_write_frame :: "bytes \<Rightarrow> bytes" where
  "agent_write_frame body = be_bytes (of_nat (length body)) @ body"

lemma agent_read_frame_smaller: "agent_read_frame r = Inr (Some (msg, r')) \<Longrightarrow> script_size r' < script_size r"
proof -
  assume "agent_read_frame r = Inr (Some (msg, r'))"
  then obtain head r1 n where "read_full 4 [] r = Inr (Some head, r1)" "read_full n [] r1 = Inr (Some msg, r')"
    by (auto simp: agent_read_frame_def read_exact_def Let_def split: sum.splits option.splits if_splits agent_error.splits prod.splits frame_error.splits)
  then show ?thesis using read_full_shrinks [of 4 "[]" r head r1] read_full_shrinks [of n "[]" r1 msg r'] by auto
qed

text \<open>A frame that arrives in one piece is read as it was written.\<close>

lemma read_full_chunk:
  assumes "0 < n" "n \<le> length bs"
  shows "read_full n [] (R_Bytes bs # r) = Inr (Some (take n bs), if drop n bs = [] then r else R_Bytes (drop n bs) # r)"
proof -
  have "read_full n (take n bs) q = Inr (Some (take n bs), q)" for q :: "'a read_event list" using assms by (simp add: read_full.simps)
  with assms show ?thesis by (subst read_full.simps) auto
qed

lemma agent_frame_back:
  assumes "body \<noteq> []" "length body \<le> MAX_MESSAGE"
  shows "agent_read_frame (R_Bytes (agent_write_frame body) # r) = Inr (Some (body, r))"
proof -
  have "unat (of_nat (length body) :: u32) = length body" using assms(2) by (simp add: MAX_MESSAGE_def unat_of_nat)
  with assms show ?thesis
    by (simp add: agent_read_frame_def read_exact_def agent_write_frame_def read_full_chunk be_bytes_roundtrip Let_def)
qed

section \<open>Messages\<close>

definition SSH_AGENT_FAILURE :: u8 where "SSH_AGENT_FAILURE = 5"
definition SSH_AGENT_SUCCESS :: u8 where "SSH_AGENT_SUCCESS = 6"
definition SSH_AGENTC_REQUEST_IDENTITIES :: u8 where "SSH_AGENTC_REQUEST_IDENTITIES = 11"
definition SSH_AGENT_IDENTITIES_ANSWER :: u8 where "SSH_AGENT_IDENTITIES_ANSWER = 12"
definition SSH_AGENTC_SIGN_REQUEST :: u8 where "SSH_AGENTC_SIGN_REQUEST = 13"
definition SSH_AGENT_SIGN_RESPONSE :: u8 where "SSH_AGENT_SIGN_RESPONSE = 14"
definition SSH_AGENTC_EXTENSION :: u8 where "SSH_AGENTC_EXTENSION = 27"
definition SSH_AGENT_EXTENSION_FAILURE :: u8 where "SSH_AGENT_EXTENSION_FAILURE = 28"

definition SESSION_BIND :: rstr where
  "SESSION_BIND = lit ''session-bind@openssh.com''"

record ('k, 'g) ssh_codec =
  sc_u8 :: "bytes \<Rightarrow> (u8 \<times> bytes) option"
  sc_u32 :: "bytes \<Rightarrow> (u32 \<times> bytes) option"
  sc_bytes :: "bytes \<Rightarrow> (bytes \<times> bytes) option"
  sc_string :: "bytes \<Rightarrow> (rstr \<times> bytes) option"
  sc_key :: "bytes \<Rightarrow> ('k \<times> bytes) option"
  sc_signature :: "bytes \<Rightarrow> ('g \<times> bytes) option"
  sc_put_u32 :: "u32 \<Rightarrow> bytes"
  sc_put_bytes :: "bytes \<Rightarrow> bytes"
  sc_put_string :: "rstr \<Rightarrow> bytes"
  sc_put_key :: "'k \<Rightarrow> bytes"
  sc_verify :: "'k \<Rightarrow> bytes \<Rightarrow> 'g \<Rightarrow> bool"

datatype ('k, 'g) request =
    RQ_Identities
  | RQ_Sign 'k bytes u32
  | RQ_SessionBind 'k bytes 'g bool
  | RQ_Extension rstr
  | RQ_Unsupported

text \<open>A field with a length, which its content must use up.\<close>

definition read_prefixed_exact :: "('k, 'g) ssh_codec \<Rightarrow> (bytes \<Rightarrow> ('a \<times> bytes) option) \<Rightarrow> bytes \<Rightarrow> ('a \<times> bytes) option" where
  "read_prefixed_exact C decode body =
     Option.bind (sc_bytes C body) (\<lambda>(nested, rest).
     Option.bind (decode nested) (\<lambda>(v, left). if left = [] then Some (v, rest) else None))"

text \<open>\<open>Reader::finish\<close>: no bytes may be left over.\<close>

definition finish :: "bytes \<Rightarrow> 'a \<Rightarrow> 'a option" where
  "finish rest v = (if rest = [] then Some v else None)"

definition parse_sign :: "('k, 'g) ssh_codec \<Rightarrow> bytes \<Rightarrow> ('k, 'g) request option" where
  "parse_sign C body =
     Option.bind (read_prefixed_exact C (sc_key C) body) (\<lambda>(key, body).
     Option.bind (sc_bytes C body) (\<lambda>(data, body).
     Option.bind (sc_u32 C body) (\<lambda>(flags, body).
     finish body (RQ_Sign key data flags))))"

definition parse_extension :: "('k, 'g) ssh_codec \<Rightarrow> bytes \<Rightarrow> ('k, 'g) request option" where
  "parse_extension C body =
     Option.bind (sc_string C body) (\<lambda>(name, body).
     if name \<noteq> SESSION_BIND then Some (RQ_Extension name)
     else
       Option.bind (read_prefixed_exact C (sc_key C) body) (\<lambda>(host, body).
       Option.bind (sc_bytes C body) (\<lambda>(sid, body).
       Option.bind (read_prefixed_exact C (sc_signature C) body) (\<lambda>(sig, body).
       Option.bind (sc_u8 C body) (\<lambda>(forwarding, body).
       finish body (RQ_SessionBind host sid sig (forwarding \<noteq> 0)))))))"

definition parse_request :: "('k, 'g) ssh_codec \<Rightarrow> bytes \<Rightarrow> ('k, 'g) request" where
  "parse_request C msg =
     (case msg of
        [] \<Rightarrow> RQ_Unsupported
      | kind # body \<Rightarrow>
          (case (if kind = SSH_AGENTC_REQUEST_IDENTITIES then finish body RQ_Identities
                 else if kind = SSH_AGENTC_SIGN_REQUEST then parse_sign C body
                 else if kind = SSH_AGENTC_EXTENSION then parse_extension C body
                 else Some RQ_Unsupported) of
             Some r \<Rightarrow> r
           | None \<Rightarrow> RQ_Unsupported))"

definition identities_answer :: "('k, 'g) ssh_codec \<Rightarrow> ('k \<times> rstr) list \<Rightarrow> bytes" where
  "identities_answer C keys =
     [SSH_AGENT_IDENTITIES_ANSWER] @ sc_put_u32 C (of_nat (length keys))
       @ concat (map (\<lambda>(key, comment). sc_put_key C key @ sc_put_string C comment) keys)"

definition sign_response :: "('k, 'g) ssh_codec \<Rightarrow> bytes \<Rightarrow> bytes" where
  "sign_response C blob = [SSH_AGENT_SIGN_RESPONSE] @ sc_put_bytes C blob"

text \<open>The data of a login that is to be signed.\<close>

record 'k userauth =
  ua_session_id :: bytes
  ua_user :: rstr
  ua_key :: 'k
  ua_hostbound_host_key :: "'k option"

definition parse_userauth :: "('k, 'g) ssh_codec \<Rightarrow> bytes \<Rightarrow> 'k userauth option" where
  "parse_userauth C data =
     Option.bind (sc_bytes C data) (\<lambda>(sid, r).
     Option.bind (sc_u8 C r) (\<lambda>(kind, r).
     if kind \<noteq> 50 then None
     else
       Option.bind (sc_string C r) (\<lambda>(user, r).
       Option.bind (sc_string C r) (\<lambda>(service, r).
       if service \<noteq> lit ''ssh-connection'' then None
       else
         Option.bind (sc_string C r) (\<lambda>(method, r).
         if method \<noteq> lit ''publickey'' \<and> method \<noteq> lit ''publickey-hostbound-v00@openssh.com'' then None
         else
           Option.bind (sc_u8 C r) (\<lambda>(signed, r).
           if signed \<noteq> 1 then None
           else
             Option.bind (sc_string C r) (\<lambda>(_, r).
             Option.bind (read_prefixed_exact C (sc_key C) r) (\<lambda>(key, r).
             Option.bind (if method = lit ''publickey'' then Some (None, r)
                          else map_option (\<lambda>(h, r). (Some h, r)) (read_prefixed_exact C (sc_key C) r)) (\<lambda>(hostbound, r).
             finish r \<lparr>ua_session_id = sid, ua_user = user, ua_key = key, ua_hostbound_host_key = hostbound\<rparr>)))))))))"

section \<open>The session of a connection\<close>

record 'k sign_request =
  sq_key :: 'k
  sq_data :: bytes
  sq_flags :: u32
  sq_user :: "rstr option"
  sq_host_key :: "'k option"
  sq_forwarded :: bool

record ('k, 's) sign_authority =
  sa_identities :: "'s \<Rightarrow> ('k \<times> rstr) list \<times> 's"
  sa_sign :: "'k sign_request \<Rightarrow> 's \<Rightarrow> bytes option \<times> 's"

record 'k agent_session =
  sn_bound :: "('k \<times> bytes) option"
  sn_forwarded :: bool

definition session_default :: "'k agent_session" where
  "session_default = \<lparr>sn_bound = None, sn_forwarded = False\<rparr>"

definition sign_request_of :: "('k, 'g) ssh_codec \<Rightarrow> 'k agent_session \<Rightarrow> 'k \<Rightarrow> bytes \<Rightarrow> u32 \<Rightarrow> 'k sign_request" where
  "sign_request_of C sn key data flags =
     (let userauth = (case parse_userauth C data of Some u \<Rightarrow> if ua_key u = key then Some u else None | None \<Rightarrow> None);
          host = (case (userauth, sn_bound sn) of
              (Some u, Some (host, sid)) \<Rightarrow>
                if ua_session_id u = sid \<and> is_none_or (ua_hostbound_host_key u) (\<lambda>h. h = host) then Some host else None
            | _ \<Rightarrow> None) in
      \<lparr>sq_key = key, sq_data = data, sq_flags = flags, sq_user = map_option ua_user userauth, sq_host_key = host, sq_forwarded = sn_forwarded sn\<rparr>)"

definition handle :: "('k, 'g) ssh_codec \<Rightarrow> ('k, 's) sign_authority \<Rightarrow> bytes \<Rightarrow> 'k agent_session \<Rightarrow> 's \<Rightarrow> bytes \<times> 'k agent_session \<times> 's" where
  "handle C A msg sn s =
     (case parse_request C msg of
        RQ_Identities \<Rightarrow> (case sa_identities A s of (keys, s) \<Rightarrow> (identities_answer C keys, sn, s))
      | RQ_Sign key data flags \<Rightarrow>
          (case sa_sign A (sign_request_of C sn key data flags) s of
             (Some blob, s) \<Rightarrow> (sign_response C blob, sn, s)
           | (None, s) \<Rightarrow> ([SSH_AGENT_FAILURE], sn, s))
      | RQ_SessionBind host sid sig forwarding \<Rightarrow>
          if \<not> sc_verify C host sid sig then ([SSH_AGENT_EXTENSION_FAILURE], sn, s)
          else ([SSH_AGENT_SUCCESS], sn\<lparr>sn_bound := Some (host, sid), sn_forwarded := (sn_forwarded sn \<or> forwarding)\<rparr>, s)
      | RQ_Extension _ \<Rightarrow> ([SSH_AGENT_FAILURE], sn, s)
      | RQ_Unsupported \<Rightarrow> ([SSH_AGENT_FAILURE], sn, s))"

text \<open>A whole connection. \<open>writes\<close> says which replies cannot be written.\<close>

function agent_loop :: "('k, 'g) ssh_codec \<Rightarrow> ('k, 's) sign_authority \<Rightarrow> (nat \<Rightarrow> 'e option) \<Rightarrow> nat \<Rightarrow> 'e read_event list \<Rightarrow> 'k agent_session \<Rightarrow> 's
    \<Rightarrow> ('e agent_error + unit) \<times> bytes list \<times> 's" where
  "agent_loop C A writes n r sn s =
     (case agent_read_frame r of
        Inl e \<Rightarrow> (Inl e, [], s)
      | Inr None \<Rightarrow> (Inr (), [], s)
      | Inr (Some (msg, r)) \<Rightarrow>
          (case handle C A msg sn s of
             (reply, sn, s) \<Rightarrow>
               (case writes n of
                  Some e \<Rightarrow> (Inl (AG_Io e), [], s)
                | None \<Rightarrow>
                    (case agent_loop C A writes (n + 1) r sn s of (res, out, s) \<Rightarrow> (res, agent_write_frame reply # out, s)))))"
  by pat_completeness auto
termination
  by (relation "measure (\<lambda>(_, _, _, _, r, _). script_size r)") (auto dest: agent_read_frame_smaller)

declare agent_loop.simps [simp del]

definition serve :: "('k, 'g) ssh_codec \<Rightarrow> ('k, 's) sign_authority \<Rightarrow> (nat \<Rightarrow> 'e option) \<Rightarrow> 'e read_event list \<Rightarrow> 's
    \<Rightarrow> ('e agent_error + unit) \<times> bytes list \<times> 's" where
  "serve C A writes r s = agent_loop C A writes 0 r session_default s"

section \<open>What a request says of its host\<close>

text \<open>The messages of a connection.\<close>

function agent_frames :: "'e read_event list \<Rightarrow> bytes list" where
  "agent_frames r = (case agent_read_frame r of Inr (Some (msg, r)) \<Rightarrow> msg # agent_frames r | _ \<Rightarrow> [])"
  by pat_completeness auto
termination
  by (relation "measure script_size") (auto dest: agent_read_frame_smaller)

declare agent_frames.simps [simp del]

text \<open>The host, the session and the forwarding a message proves: the host signed the session.\<close>

definition proven_bind :: "('k, 'g) ssh_codec \<Rightarrow> bytes \<Rightarrow> ('k \<times> bytes \<times> bool) option" where
  "proven_bind C msg =
     (case parse_request C msg of
        RQ_SessionBind host sid sig forwarding \<Rightarrow> if sc_verify C host sid sig then Some (host, sid, forwarding) else None
      | _ \<Rightarrow> None)"

definition bind_step :: "('k, 'g) ssh_codec \<Rightarrow> 'k agent_session \<Rightarrow> bytes \<Rightarrow> 'k agent_session" where
  "bind_step C sn msg =
     (case proven_bind C msg of
        None \<Rightarrow> sn
      | Some (host, sid, forwarding) \<Rightarrow> sn\<lparr>sn_bound := Some (host, sid), sn_forwarded := (sn_forwarded sn \<or> forwarding)\<rparr>)"

lemma handle_session: "handle C A msg sn s = (reply, sn', s') \<Longrightarrow> sn' = bind_step C sn msg"
  by (auto simp: handle_def bind_step_def proven_bind_def split: request.splits prod.splits option.splits if_splits)

text \<open>An authority that also writes down what it is asked to sign.\<close>

definition recorded :: "('k, 's) sign_authority \<Rightarrow> ('k, 's \<times> 'k sign_request list) sign_authority" where
  "recorded A =
     \<lparr>sa_identities = (\<lambda>(s, qs). case sa_identities A s of (keys, s) \<Rightarrow> (keys, (s, qs))),
      sa_sign = (\<lambda>q (s, qs). case sa_sign A q s of (blob, s) \<Rightarrow> (blob, (s, qs @ [q])))\<rparr>"

lemma handle_recorded:
  assumes "handle C (recorded A) msg sn (s, qs) = (reply, sn', (s', qs'))"
  shows "qs' = qs \<or> (\<exists>key data flags. parse_request C msg = RQ_Sign key data flags \<and> qs' = qs @ [sign_request_of C sn key data flags])"
  using assms by (auto simp: handle_def recorded_def split: request.splits prod.splits option.splits if_splits)

definition asked_at :: "('k, 'g) ssh_codec \<Rightarrow> 'k agent_session \<Rightarrow> bytes list \<Rightarrow> 'k sign_request \<Rightarrow> bool" where
  "asked_at C sn msgs q \<longleftrightarrow>
     (\<exists>before m after key data flags. msgs = before @ m # after \<and> parse_request C m = RQ_Sign key data flags
        \<and> q = sign_request_of C (foldl (bind_step C) sn before) key data flags)"

lemma asked_at_head: "parse_request C m = RQ_Sign key data flags \<Longrightarrow> asked_at C sn (m # msgs) (sign_request_of C sn key data flags)"
  unfolding asked_at_def by (rule exI [of _ "[]"]) auto

lemma asked_at_tail: "asked_at C (bind_step C sn m) msgs q \<Longrightarrow> asked_at C sn (m # msgs) q"
  unfolding asked_at_def by (metis append_Cons foldl_Cons)

lemma agent_loop_requests:
  "agent_loop C (recorded A) writes n r sn (s, qs) = (res, out, (s', qs')) \<Longrightarrow> q \<in> set qs' \<Longrightarrow> q \<in> set qs \<or> asked_at C sn (agent_frames r) q"
proof (induction "script_size r" arbitrary: n r sn s qs out rule: less_induct)
  case less
  show ?case
  proof (cases "\<exists>msg r'. agent_read_frame r = Inr (Some (msg, r'))")
    case False
    with less.prems show ?thesis by (subst (asm) agent_loop.simps) (auto split: sum.splits option.splits)
  next
    case True
    then obtain msg r' where f: "agent_read_frame r = Inr (Some (msg, r'))" by blast
    obtain reply sn1 s1 qs1 where h: "handle C (recorded A) msg sn (s, qs) = (reply, sn1, (s1, qs1))" by (metis surj_pair)
    have fr: "agent_frames r = msg # agent_frames r'" by (subst agent_frames.simps) (simp add: f)
    have here: "q \<in> set qs \<or> asked_at C sn (agent_frames r) q" if "q \<in> set qs1"
      using handle_recorded [OF h] that by (auto simp: fr intro: asked_at_head)
    show ?thesis
    proof (cases "writes n")
      case (Some e)
      with less.prems f h here show ?thesis by (subst (asm) agent_loop.simps) simp
    next
      case None
      with less.prems(1) f h obtain out' where "agent_loop C (recorded A) writes (n + 1) r' sn1 (s1, qs1) = (res, out', (s', qs'))"
        by (subst (asm) agent_loop.simps) (auto split: prod.splits)
      from less.hyps [OF agent_read_frame_smaller [OF f] this less.prems(2)] here handle_session [OF h] show ?thesis
        by (auto simp: fr intro: asked_at_tail)
    qed
  qed
qed

definition proven_binds :: "('k, 'g) ssh_codec \<Rightarrow> bytes list \<Rightarrow> ('k \<times> bytes \<times> bool) list" where
  "proven_binds C msgs = List.map_filter (proven_bind C) msgs"

lemma foldl_binds:
  "sn_bound (foldl (bind_step C) session_default msgs)
     = (if proven_binds C msgs = [] then None else Some (fst (last (proven_binds C msgs)), fst (snd (last (proven_binds C msgs)))))"
  "sn_forwarded (foldl (bind_step C) session_default msgs) \<longleftrightarrow> (\<exists>b \<in> set (proven_binds C msgs). snd (snd b))"
  by (induction msgs rule: rev_induct)
     (auto simp: proven_binds_def map_filter_def session_default_def bind_step_def split: option.splits)

text \<open>C8. What the agent is told about a login is proven on the same connection, whatever the client sends: a request names a host only if the last
  session binding before it was signed by the key of that host, and the data to be signed is a login with exactly the
  requested key in exactly that session, for that host if it names one; and a connection that was ever bound for
  forwarding stays marked as forwarded.\<close>

theorem agent_names_proven_host:
  assumes "serve C (recorded A) writes r (s, []) = (res, out, (s', qs))" "q \<in> set qs"
  shows "\<exists>before m after. agent_frames r = before @ m # after \<and> parse_request C m = RQ_Sign (sq_key q) (sq_data q) (sq_flags q)
    \<and> (sq_forwarded q \<longleftrightarrow> (\<exists>b \<in> set (proven_binds C before). snd (snd b)))
    \<and> (\<forall>h. sq_host_key q = Some h \<longrightarrow>
         (\<exists>u fw. proven_binds C before \<noteq> [] \<and> last (proven_binds C before) = (h, ua_session_id u, fw)
            \<and> parse_userauth C (sq_data q) = Some u \<and> ua_key u = sq_key q \<and> sq_user q = Some (ua_user u)
            \<and> is_none_or (ua_hostbound_host_key u) (\<lambda>k. k = h)))"
proof -
  from agent_loop_requests [of C A writes 0 r session_default s "[]"] assms
  have "asked_at C session_default (agent_frames r) q" by (auto simp: serve_def)
  then obtain before m after key data flags where m: "agent_frames r = before @ m # after" "parse_request C m = RQ_Sign key data flags"
    and q: "q = sign_request_of C (foldl (bind_step C) session_default before) key data flags"
    unfolding asked_at_def by blast
  have f: "sq_key q = key" "sq_data q = data" "sq_flags q = flags" "sq_forwarded q = sn_forwarded (foldl (bind_step C) session_default before)"
    by (simp_all add: q sign_request_of_def Let_def)
  have "\<exists>u fw. proven_binds C before \<noteq> [] \<and> last (proven_binds C before) = (h, ua_session_id u, fw)
            \<and> parse_userauth C data = Some u \<and> ua_key u = key \<and> sq_user q = Some (ua_user u)
            \<and> is_none_or (ua_hostbound_host_key u) (\<lambda>k. k = h)" if "sq_host_key q = Some h" for h
    using that foldl_binds(1) [of C before]
    by (auto simp: q sign_request_of_def Let_def split: option.splits if_splits prod.splits) (metis prod.collapse fst_conv snd_conv)+
  with m f foldl_binds(2) [of C before] show ?thesis by auto
qed

text \<open>A small codec with one byte for every length, key and signature, and a client that binds to the host 7 and logs in with the key 5.\<close>

definition toy_take :: "(bytes \<Rightarrow> 'a) \<Rightarrow> bytes \<Rightarrow> ('a \<times> bytes) option" where
  "toy_take f bs = (case bs of [] \<Rightarrow> None | n # r \<Rightarrow> if unat n \<le> length r then Some (f (take (unat n) r), drop (unat n) r) else None)"

definition toy_byte :: "(u8 \<Rightarrow> 'a) \<Rightarrow> bytes \<Rightarrow> ('a \<times> bytes) option" where
  "toy_byte f bs = (case bs of [] \<Rightarrow> None | b # r \<Rightarrow> Some (f b, r))"

definition toy_codec :: "(nat, unit) ssh_codec" where
  "toy_codec = \<lparr>sc_u8 = toy_byte (\<lambda>b. b), sc_u32 = toy_byte ucast, sc_bytes = toy_take (\<lambda>b. b), sc_string = toy_take (map unat), sc_key = toy_byte unat,
     sc_signature = toy_byte (\<lambda>_. ()), sc_put_u32 = (\<lambda>w. [ucast w]), sc_put_bytes = (\<lambda>b. b), sc_put_string = (\<lambda>s. map of_nat s),
     sc_put_key = (\<lambda>k. [of_nat k]), sc_verify = (\<lambda>_ _ _. True)\<rparr>"

definition toy_authority :: "(nat, unit) sign_authority" where
  "toy_authority = \<lparr>sa_identities = (\<lambda>_. ([], ())), sa_sign = (\<lambda>_ _. (None, ()))\<rparr>"

definition toy_string :: "rstr \<Rightarrow> bytes" where
  "toy_string s = of_nat (length s) # map of_nat s"

definition toy_login :: bytes where
  "toy_login = [1, 9, 50] @ toy_string (lit ''root'') @ toy_string (lit ''ssh-connection'') @ toy_string (lit ''publickey'') @ [1] @ toy_string (lit ''ed'') @ [1, 5]"

definition toy_bind :: bytes where
  "toy_bind = [27] @ toy_string SESSION_BIND @ [1, 7, 1, 9, 1, 0, 0]"

definition toy_sign :: bytes where
  "toy_sign = [13, 1, 5] @ (of_nat (length toy_login) # toy_login) @ [0]"

definition toy_client :: "unit read_event list" where
  "toy_client = [R_Bytes (agent_write_frame toy_bind), R_Bytes (agent_write_frame toy_sign)]"

lemma toy_messages:
  "parse_request toy_codec toy_bind = RQ_SessionBind 7 [9] () False" "parse_request toy_codec toy_sign = RQ_Sign 5 toy_login 0"
  "parse_userauth toy_codec toy_login = Some \<lparr>ua_session_id = [9], ua_user = lit ''root'', ua_key = 5, ua_hostbound_host_key = None\<rparr>"
  by code_simp+

definition toy_request :: "nat sign_request" where
  "toy_request = \<lparr>sq_key = 5, sq_data = toy_login, sq_flags = 0, sq_user = Some (lit ''root''), sq_host_key = Some 7, sq_forwarded = False\<rparr>"

lemma toy_run: "serve toy_codec (recorded toy_authority) (\<lambda>_. None) toy_client ((), [])
    = (Inr (), map agent_write_frame [[SSH_AGENT_SUCCESS], [SSH_AGENT_FAILURE]], ((), [toy_request]))"
proof -
  have sizes: "toy_bind \<noteq> []" "toy_sign \<noteq> []" "length toy_bind \<le> MAX_MESSAGE" "length toy_sign \<le> MAX_MESSAGE"
    by (simp_all add: toy_bind_def toy_sign_def toy_login_def toy_string_def SESSION_BIND_def MAX_MESSAGE_def lit_def)
  have verified: "sc_verify toy_codec h sid sig" for h sid sig by (simp add: toy_codec_def)
  have ended: "agent_read_frame [] = Inr None" by (simp add: agent_read_frame_def read_exact_def read_full.simps)
  show ?thesis
    by (simp add: serve_def toy_client_def agent_loop.simps agent_frame_back sizes ended handle_def toy_messages verified recorded_def toy_authority_def
        sign_request_of_def session_default_def is_none_or_def toy_request_def)
qed

theorem agent_names_proven_host_witness:
  "\<exists>before q. proven_binds toy_codec before \<noteq> [] \<and> last (proven_binds toy_codec before) = (7, [9], False)
    \<and> q \<in> set (snd (snd (snd (serve toy_codec (recorded toy_authority) (\<lambda>_. None) toy_client ((), [])))))
    \<and> sq_host_key q = Some 7 \<and> sq_user q = Some (lit ''root'')"
proof -
  have q: "sq_host_key toy_request = Some 7" "sq_data toy_request = toy_login" "sq_user toy_request = Some (lit ''root'')" "\<not> sq_forwarded toy_request"
    by (simp_all add: toy_request_def)
  from agent_names_proven_host [OF toy_run, of toy_request] q toy_messages(3) obtain before fw where
    b: "proven_binds toy_codec before \<noteq> []" "last (proven_binds toy_codec before) = (7, [9], fw)" "\<not> fw"
    by (fastforce dest: last_in_set)
  with q toy_run show ?thesis by (auto intro!: exI [of _ before] exI [of _ toy_request])
qed

end
