(* ===== verification/Json.thy ===== *)
theory Json
  imports Prelude
begin

text \<open>
  The JSON values (\<open>serde_json::Value\<close>) that record payloads are made of, with the accessors
  the sources use. Objects are ordered maps. Reading and writing JSON \<^emph>\<open>text\<close>, and the
  conversions between values and typed payloads that \<open>serde\<close> derives, are not defined here: they
  are parameters of the definitions that use them.
\<close>

datatype json_number = PosInt u64 | NegInt "64 word" | Float "64 word"

datatype json =
    JNull
  | JBool bool
  | JNumber json_number
  | JString rstr
  | JArray "json list"
  | JObject "(rstr \<times> json) list"

definition is_null :: "json \<Rightarrow> bool" where
  "is_null v \<longleftrightarrow> v = JNull"

fun as_object :: "json \<Rightarrow> (rstr, json) btm option" where
  "as_object (JObject m) = Some m"
| "as_object _ = None"

fun as_str_json :: "json \<Rightarrow> rstr option" where
  "as_str_json (JString s) = Some s"
| "as_str_json _ = None"

fun as_bool :: "json \<Rightarrow> bool option" where
  "as_bool (JBool b) = Some b"
| "as_bool _ = None"

fun as_u64 :: "json \<Rightarrow> u64 option" where
  "as_u64 (JNumber (PosInt n)) = Some n"
| "as_u64 _ = None"

text \<open>\<open>Value::get(key)\<close>: the member of an object, nothing for every other value.\<close>

fun jget :: "json \<Rightarrow> rstr \<Rightarrow> json option" where
  "jget (JObject m) k = bt_get m k"
| "jget _ k = None"

text \<open>\<open>value[key] = v\<close>: on an object the member is set, \<open>null\<close> first becomes an empty object,
  and every other value panics (\<open>None\<close>).\<close>

fun jset :: "json \<Rightarrow> rstr \<Rightarrow> json \<Rightarrow> json option" where
  "jset (JObject m) k v = Some (JObject (bt_insert k v m))"
| "jset JNull k v = Some (JObject (bt_insert k v bt_empty))"
| "jset _ k v = None"

abbreviation get_u64 :: "json \<Rightarrow> rstr \<Rightarrow> u64 option" where
  "get_u64 v k \<equiv> Option.bind (jget v k) as_u64"

abbreviation get_str :: "json \<Rightarrow> rstr \<Rightarrow> rstr option" where
  "get_str v k \<equiv> Option.bind (jget v k) as_str_json"

lemma jget_jset: "jset v k x = Some v' \<Longrightarrow> jget v' j = (if j = k then Some x else jget v j)"
  by (cases v) auto

lemma jset_object: "as_object v = Some m \<Longrightarrow> \<exists>v'. jset v k x = Some v'"
  by (cases v) auto

end
