(* ===== verification/Sync_Record.thy ===== *)
theory Sync_Record
  imports Json "HOL-Library.Multiset"
begin

text \<open>
  The record model of the synchronisation (\<open>sync/record.rs\<close>): record kinds, decrypted records,
  cached records, the wire envelope and the last-writer-wins rule \<open>merge\<close>. The locale \<open>lww\<close>
  states what makes a comparison a sound winner rule and shows that winners do not depend on the
  order in which revisions arrive; it is interpreted on the comparison inside \<open>merge\<close>.
\<close>

section \<open>Data\<close>

datatype record_kind =
    RK_Host | RK_Group | RK_Key | RK_Password | RK_Device | RK_Meta | RK_Space | RK_SpaceKey
  | RK_KeySlot

fun as_str :: "record_kind \<Rightarrow> rstr" where
  "as_str RK_Host = lit ''host''"
| "as_str RK_Group = lit ''group''"
| "as_str RK_Key = lit ''key''"
| "as_str RK_Password = lit ''password''"
| "as_str RK_Device = lit ''device''"
| "as_str RK_Meta = lit ''meta''"
| "as_str RK_Space = lit ''space''"
| "as_str RK_SpaceKey = lit ''spacekey''"
| "as_str RK_KeySlot = lit ''keyslot''"

definition parse_kind :: "rstr \<Rightarrow> record_kind option" where
  "parse_kind s =
     (if s = lit ''host'' then Some RK_Host
      else if s = lit ''group'' then Some RK_Group
      else if s = lit ''key'' then Some RK_Key
      else if s = lit ''password'' then Some RK_Password
      else if s = lit ''device'' then Some RK_Device
      else if s = lit ''meta'' then Some RK_Meta
      else if s = lit ''space'' then Some RK_Space
      else if s = lit ''spacekey'' then Some RK_SpaceKey
      else if s = lit ''keyslot'' then Some RK_KeySlot
      else None)"

fun is_secret :: "record_kind \<Rightarrow> bool" where
  "is_secret RK_Key = True"
| "is_secret RK_Password = True"
| "is_secret RK_SpaceKey = True"
| "is_secret _ = False"

record sync_record =
  r_kind :: record_kind
  r_id :: rstr
  r_version :: u64
  r_updated_at_ms :: u64
  r_device_id :: rstr
  r_deleted :: bool
  r_payload :: json

record local_record =
  lr_record :: sync_record
  lr_seq :: u64
  lr_dirty :: bool

record envelope =
  e_id_hash :: rstr
  e_kind :: rstr
  e_seq :: u64
  e_nonce :: rstr
  e_ciphertext :: rstr
  e_deleted :: bool

datatype merge_outcome = KeepLocal | TakeRemote | RemoteWinsOverDirtyLocal

definition ACCOUNT_META_ID :: rstr where
  "ACCOUNT_META_ID = lit ''account''"

definition ROTATION_META_PREFIX :: rstr where
  "ROTATION_META_PREFIX = lit ''rotation:''"

section \<open>Operations\<close>

definition record_key :: "record_kind \<Rightarrow> rstr \<Rightarrow> rstr" where
  "record_key kind i = as_str kind @ lit '':'' @ i"

text \<open>The comparison inside \<open>merge\<close>: the later time stamp wins; at the same time a tombstone
  beats a live record; otherwise the smaller device id wins.\<close>

definition remote_wins :: "sync_record \<Rightarrow> sync_record \<Rightarrow> bool" where
  "remote_wins remote mine =
     (if r_updated_at_ms mine < r_updated_at_ms remote then True
      else if r_updated_at_ms remote < r_updated_at_ms mine then False
      else (case (r_deleted remote, r_deleted mine) of
              (True, False) \<Rightarrow> True
            | (False, True) \<Rightarrow> False
            | _ \<Rightarrow> r_device_id remote < r_device_id mine))"

definition merge :: "local_record option \<Rightarrow> sync_record \<Rightarrow> merge_outcome" where
  "merge local remote =
     (case local of
        None \<Rightarrow> TakeRemote
      | Some l \<Rightarrow>
          if \<not> remote_wins remote (lr_record l) then KeepLocal
          else if lr_dirty l then RemoteWinsOverDirtyLocal
          else TakeRemote)"

definition rotation_meta_id :: "rstr \<Rightarrow> rstr" where
  "rotation_meta_id device_id = ROTATION_META_PREFIX @ device_id"

definition rotation_marker_device :: "rstr \<Rightarrow> rstr option" where
  "rotation_marker_device meta_id =
     opt_filter (\<lambda>device. device \<noteq> []) (strip_prefix meta_id ROTATION_META_PREFIX)"

section \<open>Kinds and cache keys\<close>

lemma parse_kind_as_str [simp]: "parse_kind (as_str k) = Some k"
  by (cases k) (simp_all add: parse_kind_def)

lemma parse_kind_Some: "parse_kind s = Some k \<longleftrightarrow> s = as_str k"
proof
  assume "parse_kind s = Some k"
  then show "s = as_str k"
    unfolding parse_kind_def by (simp split: if_splits)
next
  assume "s = as_str k"
  then show "parse_kind s = Some k" by simp
qed

lemma as_str_inj [simp]: "as_str a = as_str b \<longleftrightarrow> a = b"
  by (metis option.inject parse_kind_as_str)

lemma no_colon_as_str: "chr CHR '':'' \<notin> set (as_str k)"
  by (cases k) (simp_all add: str_simps)

lemma prefix_key_inj:
  assumes "chr c \<notin> set a" and "chr c \<notin> set b" and "a @ lit [c] @ x = b @ lit [c] @ y"
  shows "a = b \<and> x = y"
proof -
  have *: "takeWhile (\<lambda>d. d \<noteq> chr c) (p @ lit [c] @ q) = p" if "chr c \<notin> set p" for p q
    using that by (subst takeWhile_append2) (auto simp: lit_Cons)
  from assms * have "a = b" by metis
  with assms show ?thesis by simp
qed

lemma record_key_inj [simp]: "record_key k i = record_key k' i' \<longleftrightarrow> k = k' \<and> i = i'"
  unfolding record_key_def using prefix_key_inj [OF no_colon_as_str no_colon_as_str] by fastforce

section \<open>Last writer wins\<close>

text \<open>A winner rule is a strict weak order. \<open>absorb\<close> is one merge step, \<open>run\<close> a sequence of
  them; the result of a run is beaten by nothing that was seen, and two runs over the same
  revisions end in revisions that do not beat each other.\<close>

locale lww =
  fixes beats :: "'r \<Rightarrow> 'r \<Rightarrow> bool"
  assumes irrefl: "\<not> beats a a"
    and trans: "beats a b \<Longrightarrow> beats b c \<Longrightarrow> beats a c"
    and negtrans: "\<not> beats a b \<Longrightarrow> \<not> beats b c \<Longrightarrow> \<not> beats a c"
begin

lemma asym: "beats a b \<Longrightarrow> \<not> beats b a"
  using irrefl trans by blast

lemma run_unbeaten:
  "\<forall>x \<in> insert a (set xs). \<not> beats x (foldl (\<lambda>m r. if beats r m then r else m) a xs)"
proof (induction xs arbitrary: a)
  case Nil
  then show ?case by (simp add: irrefl)
next
  case (Cons x xs)
  let ?a = "if beats x a then x else a"
  from Cons have *: "\<not> beats y (foldl (\<lambda>m r. if beats r m then r else m) ?a xs)"
    if "y \<in> insert ?a (set xs)" for y
    using that by blast
  have "\<not> beats y ?a" if "y = a \<or> y = x" for y
    using that asym irrefl by auto
  with * [of ?a] negtrans have "\<not> beats y (foldl (\<lambda>m r. if beats r m then r else m) ?a xs)"
    if "y = a \<or> y = x" for y
    using that by blast
  with * show ?case by auto
qed

lemma run_in: "foldl (\<lambda>m r. if beats r m then r else m) a xs \<in> insert a (set xs)"
  by (induction xs arbitrary: a) auto

lemma run_order_independent:
  assumes "set (a # xs) = set (b # ys)"
    and tie: "\<And>x y. x \<in> set (a # xs) \<Longrightarrow> y \<in> set (a # xs) \<Longrightarrow>
      \<not> beats x y \<Longrightarrow> \<not> beats y x \<Longrightarrow> x = y"
  shows "foldl (\<lambda>m r. if beats r m then r else m) a xs
    = foldl (\<lambda>m r. if beats r m then r else m) b ys"
proof -
  let ?u = "foldl (\<lambda>m r. if beats r m then r else m) a xs"
  let ?v = "foldl (\<lambda>m r. if beats r m then r else m) b ys"
  have u: "?u \<in> set (a # xs)" "?u \<in> insert b (set ys)"
    using run_in [of a xs] assms(1) by auto
  have v: "?v \<in> set (a # xs)" "?v \<in> insert a (set xs)"
    using run_in [of b ys] assms(1) by auto
  have "\<not> beats ?u ?v" "\<not> beats ?v ?u"
    using run_unbeaten [of b ys] u(2) run_unbeaten [of a xs] v(2) by blast+
  with u(1) v(1) show ?thesis by (rule tie)
qed

end

lemma remote_wins_iff:
  "remote_wins r m \<longleftrightarrow>
     r_updated_at_ms m < r_updated_at_ms r
   \<or> r_updated_at_ms m = r_updated_at_ms r
     \<and> (r_deleted r \<and> \<not> r_deleted m
        \<or> r_deleted r = r_deleted m \<and> r_device_id r < r_device_id m)"
  by (auto simp: remote_wins_def split: bool.splits)

interpretation wins: lww remote_wins
proof
  fix a b c :: sync_record
  show "\<not> remote_wins a a"
    by (simp add: remote_wins_iff)
  show "remote_wins a c" if "remote_wins a b" "remote_wins b c"
    using that by (fastforce simp: remote_wins_iff)
  show "\<not> remote_wins a c" if "\<not> remote_wins a b" "\<not> remote_wins b c"
    using that by (fastforce simp: remote_wins_iff not_less)
qed

text \<open>Equal standing means the same stamp.\<close>

lemma remote_wins_tie:
  "\<not> remote_wins a b \<Longrightarrow> \<not> remote_wins b a \<Longrightarrow>
     r_updated_at_ms a = r_updated_at_ms b \<and> r_deleted a = r_deleted b
     \<and> r_device_id a = r_device_id b"
  by (auto simp: remote_wins_iff)

lemma merge_simps [simp]:
  "merge None r = TakeRemote"
  "merge (Some l) r = KeepLocal \<longleftrightarrow> \<not> remote_wins r (lr_record l)"
  "merge (Some l) r = TakeRemote \<longleftrightarrow> remote_wins r (lr_record l) \<and> \<not> lr_dirty l"
  "merge (Some l) r = RemoteWinsOverDirtyLocal \<longleftrightarrow> remote_wins r (lr_record l) \<and> lr_dirty l"
  by (auto simp: merge_def)

lemma merge_KeepLocal: "merge l r = KeepLocal \<longleftrightarrow> (\<exists>x. l = Some x \<and> \<not> remote_wins r (lr_record x))"
  by (cases l) auto

lemma merge_not_keep: "merge l r \<noteq> KeepLocal \<longleftrightarrow> (\<forall>x. l = Some x \<longrightarrow> remote_wins r (lr_record x))"
  by (cases l) auto

text \<open>What a section keeps for one identity when a remote revision arrives: the rule that
  \<open>merge_rows\<close> applies to every row.\<close>

definition absorb :: "local_record option \<Rightarrow> sync_record \<times> u64 \<Rightarrow> local_record option" where
  "absorb l rs =
     (case rs of (r, seq) \<Rightarrow>
        if merge l r = KeepLocal then map_option (\<lambda>x. x\<lparr>lr_seq := max (lr_seq x) seq\<rparr>) l
        else Some \<lparr>lr_record = r, lr_seq = seq, lr_dirty = False\<rparr>)"

lemma absorb_record:
  "map_option lr_record (absorb (Some l) (r, seq))
     = Some (if remote_wins r (lr_record l) then r else lr_record l)"
  by (simp add: absorb_def)

lemma foldl_absorb_record:
  "map_option lr_record (foldl absorb (Some l) rs)
     = Some (foldl (\<lambda>m r. if remote_wins r m then r else m) (lr_record l) (map fst rs))"
proof (induction rs arbitrary: l)
  case Nil
  then show ?case by simp
next
  case (Cons p rs)
  obtain r seq where p: "p = (r, seq)" by (cases p)
  have "absorb (Some l) p \<noteq> None"
    by (simp add: p absorb_def)
  then obtain l' where l': "absorb (Some l) p = Some l'" by auto
  with absorb_record [of l r seq] p have "lr_record l' = (if remote_wins r (lr_record l) then r else lr_record l)"
    by simp
  with Cons.IH [of l'] l' p show ?case by simp
qed

section \<open>Properties\<close>

text \<open>Kind names and cache keys identify records: a kind is read back from its name and from no
  other string, and two records share a cache key only when kind and id agree, whatever
  characters the ids contain.\<close>

theorem kind_and_key_unambiguous:
  "(parse_kind s = Some k \<longleftrightarrow> s = as_str k)
   \<and> (record_key a i = record_key b j \<longleftrightarrow> a = b \<and> i = j)"
  by (simp add: parse_kind_Some)

text \<open>Last writer wins converges: two devices that start from any two of the same set of
  revisions of a record and receive the others in any order, with repetitions, keep the same
  record, as long as revisions that carry the same time, deletion flag and device are the same
  revision.\<close>

theorem merge_order_independent:
  assumes "set (lr_record a # map fst rs) = set (lr_record b # map fst qs)"
    and "\<And>x y. x \<in> set (lr_record a # map fst rs) \<Longrightarrow> y \<in> set (lr_record a # map fst rs) \<Longrightarrow>
      r_updated_at_ms x = r_updated_at_ms y \<Longrightarrow> r_deleted x = r_deleted y \<Longrightarrow>
      r_device_id x = r_device_id y \<Longrightarrow> x = y"
  shows "map_option lr_record (foldl absorb (Some a) rs)
    = map_option lr_record (foldl absorb (Some b) qs)"
proof -
  have "foldl (\<lambda>m r. if remote_wins r m then r else m) (lr_record a) (map fst rs)
    = foldl (\<lambda>m r. if remote_wins r m then r else m) (lr_record b) (map fst qs)"
  proof (rule wins.run_order_independent [OF assms(1)])
    fix x y
    assume "x \<in> set (lr_record a # map fst rs)" "y \<in> set (lr_record a # map fst rs)"
      "\<not> remote_wins x y" "\<not> remote_wins y x"
    with assms(2) remote_wins_tie [of x y] show "x = y" by blast
  qed
  then show ?thesis by (simp only: foldl_absorb_record)
qed

text \<open>Two concrete revisions of one record, for the witness.\<close>

definition revision_a :: sync_record where
  "revision_a = \<lparr>r_kind = RK_Host, r_id = lit ''h'', r_version = 1, r_updated_at_ms = 5,
     r_device_id = lit ''a'', r_deleted = False, r_payload = JNull\<rparr>"

definition revision_b :: sync_record where
  "revision_b = revision_a\<lparr>r_version := 2, r_updated_at_ms := 9, r_deleted := True\<rparr>"

theorem merge_order_independent_witness:
  "map_option lr_record (foldl absorb (Some \<lparr>lr_record = revision_a, lr_seq = 0, lr_dirty = True\<rparr>)
       [(revision_b, 3), (revision_a, 1)])
   = map_option lr_record (foldl absorb (Some \<lparr>lr_record = revision_b, lr_seq = 0, lr_dirty = False\<rparr>)
       [(revision_a, 7)])"
  by (rule merge_order_independent) (auto simp: revision_a_def revision_b_def)

end
