(* ===== verification/Crypto.thy ===== *)
theory Crypto
  imports Sync_Record
begin

text \<open>
  Chain keys, record identities and the encrypted envelope (\<open>sync/crypto.rs\<close>), the encoding of a
  record into a push item and back (\<open>sync/reconcile.rs\<close>) and the \<open>spacekey\<close> payload
  (\<open>sync/record.rs\<close>). The primitives come from other crates and are the fields of \<open>crypto_ext\<close>:
  base64, the AEAD, HMAC, HKDF, BIP39, and the text form of a record. \<open>crypto_laws\<close> collects what
  the code relies on: base64 and the AEAD decode what they encoded, HMAC and HKDF return
  32 bytes.
\<close>

section \<open>External primitives\<close>

record crypto_ext =
  x_b64_encode :: "bytes \<Rightarrow> rstr"
  x_b64_decode :: "rstr \<Rightarrow> bytes option"
  x_aead_encrypt :: "bytes \<Rightarrow> bytes \<Rightarrow> bytes \<Rightarrow> bytes \<Rightarrow> bytes option"
  x_aead_decrypt :: "bytes \<Rightarrow> bytes \<Rightarrow> bytes \<Rightarrow> bytes \<Rightarrow> bytes option"
  x_hmac_sha256 :: "bytes \<Rightarrow> bytes \<Rightarrow> bytes"
  x_hkdf_sha256 :: "bytes \<Rightarrow> bytes \<Rightarrow> bytes \<Rightarrow> bytes"
  x_to_lowercase :: "rstr \<Rightarrow> rstr"
  x_mnemonic_parse :: "rstr \<Rightarrow> rstr + unit"
  x_mnemonic_seed :: "rstr \<Rightarrow> bytes"
  x_record_to_vec :: "sync_record \<Rightarrow> rstr + bytes"
  x_record_from_slice :: "bytes \<Rightarrow> rstr + sync_record"
  x_value_from_slice :: "bytes \<Rightarrow> json option"

text \<open>Documented behaviour of the base64, AEAD, HMAC and HKDF crates.\<close>

definition crypto_laws :: "'a crypto_ext_scheme \<Rightarrow> bool" where
  "crypto_laws X \<longleftrightarrow>
     (\<forall>b. x_b64_decode X (x_b64_encode X b) = Some b)
   \<and> (\<forall>k n a m c. x_aead_encrypt X k n a m = Some c \<longrightarrow> x_aead_decrypt X k n a c = Some m)
   \<and> (\<forall>k m. length (x_hmac_sha256 X k m) = 32)
   \<and> (\<forall>s i p. length (x_hkdf_sha256 X s i p) = 32)"

section \<open>Chain keys\<close>

definition HKDF_SALT :: bytes where
  "HKDF_SALT = as_bytes (lit ''sshelter-sync-v1'')"

definition HKDF_SALT_V2 :: bytes where
  "HKDF_SALT_V2 = as_bytes (lit ''sshelter-sync-v2'')"

definition NONCE_LEN :: nat where
  "NONCE_LEN = 24"

record chain_keys =
  ck_chain_id :: rstr
  ck_auth_token :: rstr
  ck_enc_key :: bytes

definition normalize_mnemonic :: "'a crypto_ext_scheme \<Rightarrow> rstr \<Rightarrow> app_error + rstr" where
  "normalize_mnemonic X input =
     (let words = map (x_to_lowercase X) (split_whitespace input)
      in if length words \<noteq> 24
         then Inl (AE_Other (lit ''a sync code has 24 words (got '' @ dec (length words) @ lit '')''))
         else (let joined = join (lit '' '') words
               in rbind (map_err (\<lambda>e. AE_Other (lit ''invalid sync code: '' @ e))
                           (x_mnemonic_parse X joined))
                    (\<lambda>_. Inr joined)))"

definition seed_of :: "'a crypto_ext_scheme \<Rightarrow> rstr \<Rightarrow> app_error + bytes" where
  "seed_of X mnemonic =
     rbind (normalize_mnemonic X mnemonic) (\<lambda>normalized.
     rbind (map_err (\<lambda>e. AE_Other (lit ''invalid sync code: '' @ e))
              (x_mnemonic_parse X normalized)) (\<lambda>_.
     Inr (x_mnemonic_seed X normalized)))"

definition derive_chain_keys :: "'a crypto_ext_scheme \<Rightarrow> bytes \<Rightarrow> bytes \<Rightarrow> rstr \<Rightarrow> chain_keys" where
  "derive_chain_keys X salt seed pre =
     \<lparr>ck_chain_id = hex (x_hkdf_sha256 X salt seed (as_bytes (pre @ lit ''/chain-id''))),
      ck_auth_token = hex (x_hkdf_sha256 X salt seed (as_bytes (pre @ lit ''/auth''))),
      ck_enc_key = x_hkdf_sha256 X salt seed (as_bytes (pre @ lit ''/enc''))\<rparr>"

definition derive_keys :: "'a crypto_ext_scheme \<Rightarrow> rstr \<Rightarrow> app_error + chain_keys" where
  "derive_keys X mnemonic =
     rbind (seed_of X mnemonic) (\<lambda>seed. Inr (derive_chain_keys X HKDF_SALT seed (lit ''sshelter/v1'')))"

definition derive_account :: "'a crypto_ext_scheme \<Rightarrow> rstr \<Rightarrow> app_error + chain_keys" where
  "derive_account X mnemonic =
     rbind (seed_of X mnemonic)
       (\<lambda>seed. Inr (derive_chain_keys X HKDF_SALT_V2 seed (lit ''sshelter/v2/account'')))"

definition derive_space0 :: "'a crypto_ext_scheme \<Rightarrow> rstr \<Rightarrow> app_error + chain_keys" where
  "derive_space0 X mnemonic =
     rbind (seed_of X mnemonic)
       (\<lambda>seed. Inr (derive_chain_keys X HKDF_SALT_V2 seed (lit ''sshelter/v2/space0'')))"

definition is_chain_id :: "rstr \<Rightarrow> bool" where
  "is_chain_id s \<longleftrightarrow> str_len s = 64 \<and> list_all is_lower_hex s"

text \<open>\<open>ChainKeys::generate\<close> on the outcome of filling 96 bytes from the OS random source.\<close>

definition generate :: "rstr + bytes \<Rightarrow> app_error + chain_keys" where
  "generate random =
     rbind (map_err (\<lambda>e. AE_Other (lit ''cannot draw random space keys: '' @ e)) random)
       (\<lambda>bs. Inr \<lparr>ck_chain_id = hex (take 32 bs), ck_auth_token = hex (take 32 (drop 32 bs)),
                  ck_enc_key = drop 64 bs\<rparr>)"

definition from_parts :: "'a crypto_ext_scheme \<Rightarrow> rstr \<Rightarrow> rstr \<Rightarrow> rstr \<Rightarrow> app_error + chain_keys" where
  "from_parts X chain_id auth_token enc_key_b64 =
     (if \<not> is_chain_id chain_id \<or> \<not> is_chain_id auth_token
      then Inl (AE_Other (lit ''space key record has a malformed chain id or token''))
      else rbind (ok_or (AE_Other (lit ''space key record has a malformed key''))
                    (x_b64_decode X enc_key_b64)) (\<lambda>key.
           rbind (fail_if (length key \<noteq> 32)
                    (AE_Other (lit ''space key record has a malformed key''))) (\<lambda>_.
           Inr \<lparr>ck_chain_id = chain_id, ck_auth_token = auth_token, ck_enc_key = key\<rparr>)))"

definition enc_key_b64 :: "'a crypto_ext_scheme \<Rightarrow> chain_keys \<Rightarrow> rstr" where
  "enc_key_b64 X keys = x_b64_encode X (ck_enc_key keys)"

section \<open>Sealing records\<close>

definition id_hash :: "'a crypto_ext_scheme \<Rightarrow> chain_keys \<Rightarrow> rstr \<Rightarrow> rstr \<Rightarrow> rstr" where
  "id_hash X keys kind i =
     hex (x_hmac_sha256 X (ck_enc_key keys) (as_bytes kind @ as_bytes [10] @ as_bytes i))"

record sealed =
  s_id_hash :: rstr
  s_nonce :: rstr
  s_ciphertext :: rstr

definition aad :: "chain_keys \<Rightarrow> rstr \<Rightarrow> rstr \<Rightarrow> bytes" where
  "aad keys kind hash = as_bytes (ck_chain_id keys @ [10] @ kind @ [10] @ hash)"

text \<open>\<open>random\<close> is the outcome of drawing the 24-byte nonce.\<close>

definition seal :: "'a crypto_ext_scheme \<Rightarrow> rstr + bytes \<Rightarrow> chain_keys \<Rightarrow> rstr \<Rightarrow> rstr \<Rightarrow> bytes
    \<Rightarrow> app_error + sealed" where
  "seal X random keys kind i plaintext =
     rbind (map_err (\<lambda>e. AE_Other (lit ''cannot draw nonce: '' @ e)) random) (\<lambda>nonce.
     let hash = id_hash X keys kind i in
     rbind (ok_or (AE_Other (lit ''encryption failed''))
              (x_aead_encrypt X (ck_enc_key keys) nonce (aad keys kind hash) plaintext)) (\<lambda>ciphertext.
     Inr \<lparr>s_id_hash = hash, s_nonce = x_b64_encode X nonce,
          s_ciphertext = x_b64_encode X ciphertext\<rparr>))"

definition open_sealed :: "'a crypto_ext_scheme \<Rightarrow> chain_keys \<Rightarrow> rstr \<Rightarrow> rstr \<Rightarrow> sealed
    \<Rightarrow> app_error + bytes" where
  "open_sealed X keys kind hash sld =
     rbind (ok_or (AE_Other (lit ''record nonce is not valid base64''))
              (x_b64_decode X (s_nonce sld))) (\<lambda>nonce.
     rbind (fail_if (length nonce \<noteq> NONCE_LEN)
              (AE_Other (lit ''record nonce has the wrong length''))) (\<lambda>_.
     rbind (ok_or (AE_Other (lit ''record ciphertext is not valid base64''))
              (x_b64_decode X (s_ciphertext sld))) (\<lambda>ciphertext.
     ok_or (AE_Other (lit ''record cannot be decrypted with this chain''))
       (x_aead_decrypt X (ck_enc_key keys) nonce (aad keys kind hash) ciphertext))))"

section \<open>Push items\<close>

record push_item =
  pi_id_hash :: rstr
  pi_kind :: rstr
  pi_nonce :: rstr
  pi_ciphertext :: rstr
  pi_deleted :: bool
  pi_base_seq :: u64

definition sealed_of_envelope :: "envelope \<Rightarrow> sealed" where
  "sealed_of_envelope env =
     \<lparr>s_id_hash = e_id_hash env, s_nonce = e_nonce env, s_ciphertext = e_ciphertext env\<rparr>"

definition encode :: "'a crypto_ext_scheme \<Rightarrow> rstr + bytes \<Rightarrow> chain_keys \<Rightarrow> sync_record \<Rightarrow> u64
    \<Rightarrow> app_error + push_item" where
  "encode X random keys rec base_seq =
     rbind (map_err (\<lambda>e. AE_Other (lit ''cannot serialize record: '' @ e)) (x_record_to_vec X rec))
       (\<lambda>plaintext.
     rbind (seal X random keys (as_str (r_kind rec)) (r_id rec) plaintext) (\<lambda>sld.
     Inr \<lparr>pi_id_hash = s_id_hash sld, pi_kind = as_str (r_kind rec), pi_nonce = s_nonce sld,
          pi_ciphertext = s_ciphertext sld, pi_deleted = r_deleted rec, pi_base_seq = base_seq\<rparr>))"

definition decode :: "'a crypto_ext_scheme \<Rightarrow> chain_keys \<Rightarrow> envelope \<Rightarrow> app_error + sync_record" where
  "decode X keys env =
     rbind (ok_or (AE_Other (lit ''unknown record kind '' @ [39] @ e_kind env @ [39]))
              (parse_kind (e_kind env))) (\<lambda>kind.
     rbind (open_sealed X keys (e_kind env) (e_id_hash env) (sealed_of_envelope env)) (\<lambda>plaintext.
     rbind (map_err (\<lambda>e. AE_Other (lit ''record payload is unreadable: '' @ e))
              (x_record_from_slice X plaintext)) (\<lambda>rec.
     rbind (fail_if (r_kind rec \<noteq> kind
                     \<or> id_hash X keys (as_str (r_kind rec)) (r_id rec) \<noteq> e_id_hash env)
              (AE_Other (lit ''record identity does not match its envelope''))) (\<lambda>_.
     Inr rec))))"

text \<open>The envelope a relay stores for an accepted push item.\<close>

definition envelope_of_item :: "push_item \<Rightarrow> u64 \<Rightarrow> envelope" where
  "envelope_of_item item seq =
     \<lparr>e_id_hash = pi_id_hash item, e_kind = pi_kind item, e_seq = seq, e_nonce = pi_nonce item,
      e_ciphertext = pi_ciphertext item, e_deleted = pi_deleted item\<rparr>"

section \<open>The \<open>spacekey\<close> payload\<close>

record space_key_payload =
  skp_schema :: u32
  skp_auth_token :: rstr
  skp_enc_key :: rstr

definition from_keys :: "'a crypto_ext_scheme \<Rightarrow> chain_keys \<Rightarrow> space_key_payload" where
  "from_keys X keys =
     \<lparr>skp_schema = 1, skp_auth_token = ck_auth_token keys, skp_enc_key = enc_key_b64 X keys\<rparr>"

definition to_keys :: "'a crypto_ext_scheme \<Rightarrow> space_key_payload \<Rightarrow> rstr \<Rightarrow> app_error + chain_keys" where
  "to_keys X p space_id = from_parts X space_id (skp_auth_token p) (skp_enc_key p)"

section \<open>Lemmas\<close>

definition well_formed_keys :: "chain_keys \<Rightarrow> bool" where
  "well_formed_keys keys \<longleftrightarrow>
     is_chain_id (ck_chain_id keys) \<and> is_chain_id (ck_auth_token keys) \<and> length (ck_enc_key keys) = 32"

lemma is_chain_id_hex: "length bs = 32 \<Longrightarrow> is_chain_id (hex bs)"
  by (simp add: is_chain_id_def str_len_lower_hex [OF hex_lower] hex_lower length_hex)

lemma derive_chain_keys_wf: "crypto_laws X \<Longrightarrow> well_formed_keys (derive_chain_keys X salt seed pre)"
  by (simp add: well_formed_keys_def derive_chain_keys_def crypto_laws_def is_chain_id_hex)

lemma from_parts_Inr:
  "from_parts X c t k = Inr keys \<longleftrightarrow>
     is_chain_id c \<and> is_chain_id t \<and>
     (\<exists>b. x_b64_decode X k = Some b \<and> length b = 32
        \<and> keys = \<lparr>ck_chain_id = c, ck_auth_token = t, ck_enc_key = b\<rparr>)"
  by (auto simp: from_parts_def)

lemma from_parts_wf: "from_parts X c t k = Inr keys \<Longrightarrow> well_formed_keys keys"
  by (auto simp: from_parts_Inr well_formed_keys_def)

lemma seal_fields:
  "seal X random keys kind i m = Inr s \<Longrightarrow>
     \<exists>n c. random = Inr n \<and> s_id_hash s = id_hash X keys kind i \<and> s_nonce s = x_b64_encode X n
       \<and> s_ciphertext s = x_b64_encode X c
       \<and> x_aead_encrypt X (ck_enc_key keys) n (aad keys kind (id_hash X keys kind i)) m = Some c"
  by (auto simp: seal_def Let_def)

lemma open_seal:
  assumes "crypto_laws X" and "length nonce = NONCE_LEN"
    and "seal X (Inr nonce) keys kind i m = Inr s"
  shows "open_sealed X keys kind (s_id_hash s) s = Inr m"
  using seal_fields [OF assms(3)] assms(1,2)
  by (auto simp: open_sealed_def crypto_laws_def)

lemma open_sealed_cong:
  "s_nonce s = s_nonce t \<Longrightarrow> s_ciphertext s = s_ciphertext t \<Longrightarrow>
     open_sealed X keys kind h s = open_sealed X keys kind h t"
  by (simp add: open_sealed_def)

lemma encode_fields:
  assumes "encode X random keys rec b = Inr item"
  shows "\<exists>m s. x_record_to_vec X rec = Inr m
     \<and> seal X random keys (as_str (r_kind rec)) (r_id rec) m = Inr s
     \<and> item = \<lparr>pi_id_hash = s_id_hash s, pi_kind = as_str (r_kind rec), pi_nonce = s_nonce s,
               pi_ciphertext = s_ciphertext s, pi_deleted = r_deleted rec, pi_base_seq = b\<rparr>"
  using assms by (auto simp: encode_def)

lemma decode_encode:
  assumes "crypto_laws X" and "length nonce = NONCE_LEN"
    and "encode X (Inr nonce) keys rec b = Inr item"
    and "\<And>m. x_record_to_vec X rec = Inr m \<Longrightarrow> x_record_from_slice X m = Inr rec"
  shows "decode X keys (envelope_of_item item seq) = Inr rec"
proof -
  from encode_fields [OF assms(3)] obtain m s where
    m: "x_record_to_vec X rec = Inr m"
    and s: "seal X (Inr nonce) keys (as_str (r_kind rec)) (r_id rec) m = Inr s"
    and item: "item = \<lparr>pi_id_hash = s_id_hash s, pi_kind = as_str (r_kind rec),
      pi_nonce = s_nonce s, pi_ciphertext = s_ciphertext s, pi_deleted = r_deleted rec,
      pi_base_seq = b\<rparr>"
    by blast
  have o: "open_sealed X keys (as_str (r_kind rec)) (s_id_hash s) s = Inr m"
    by (rule open_seal [OF assms(1,2) s])
  have "open_sealed X keys (as_str (r_kind rec)) (s_id_hash s)
      (sealed_of_envelope (envelope_of_item item seq)) = Inr m"
    using o by (subst open_sealed_cong [of _ s]) (simp_all add: sealed_of_envelope_def
        envelope_of_item_def item)
  moreover have "s_id_hash s = id_hash X keys (as_str (r_kind rec)) (r_id rec)"
    using seal_fields [OF s] by blast
  ultimately show ?thesis
    using assms(4) [OF m] by (simp add: decode_def envelope_of_item_def item)
qed

lemma decode_identity:
  "decode X keys env = Inr rec \<Longrightarrow>
     e_kind env = as_str (r_kind rec) \<and> e_id_hash env = id_hash X keys (as_str (r_kind rec)) (r_id rec)"
  by (auto simp: decode_def parse_kind_Some)

section \<open>A concrete instance of the primitives\<close>

text \<open>An instance that satisfies the laws; it only serves to show that they can hold.\<close>

definition sample_ext :: crypto_ext where
  "sample_ext =
     \<lparr>x_b64_encode = map unat, x_b64_decode = (\<lambda>s. Some (map of_nat s)),
      x_aead_encrypt = (\<lambda>k n a m. Some (m @ k)),
      x_aead_decrypt = (\<lambda>k n a c. Some (take (length c - length k) c)),
      x_hmac_sha256 = (\<lambda>k m. take 32 (m @ replicate 32 0)),
      x_hkdf_sha256 = (\<lambda>s i p. take 32 (p @ replicate 32 0)),
      x_to_lowercase = to_ascii_lowercase,
      x_mnemonic_parse = (\<lambda>_. Inr ()), x_mnemonic_seed = as_bytes,
      x_record_to_vec = (\<lambda>r. Inr (as_bytes (r_id r))),
      x_record_from_slice = (\<lambda>b. Inr (revision_a\<lparr>r_id := map unat b\<rparr>)),
      x_value_from_slice = (\<lambda>_. None)\<rparr>"

definition sample_keys :: chain_keys where
  "sample_keys = \<lparr>ck_chain_id = hex (replicate 32 0), ck_auth_token = hex (replicate 32 1),
     ck_enc_key = replicate 32 7\<rparr>"

lemma sample_laws: "crypto_laws sample_ext"
  by (simp add: crypto_laws_def sample_ext_def o_def min_def)

section \<open>Properties\<close>

text \<open>What a chain seals, the same chain opens to the same bytes, for every key, kind, identity
  and 24-byte nonce.\<close>

theorem seal_open_roundtrip:
  assumes "crypto_laws X" and "length nonce = 24"
    and "seal X (Inr nonce) keys kind i plaintext = Inr s"
  shows "open_sealed X keys kind (s_id_hash s) s = Inr plaintext"
  using open_seal [OF assms(1) _ assms(3)] assms(2) by (simp add: NONCE_LEN_def)

theorem seal_open_roundtrip_witness:
  "\<exists>s. seal sample_ext (Inr (replicate 24 3)) sample_keys (lit ''host'') (lit ''h'') [1, 2, 3] = Inr s
     \<and> open_sealed sample_ext sample_keys (lit ''host'') (s_id_hash s) s = Inr [1, 2, 3]"
proof -
  have "\<exists>s. seal sample_ext (Inr (replicate 24 3)) sample_keys (lit ''host'') (lit ''h'') [1, 2, 3] = Inr s"
    by (simp add: seal_def sample_ext_def Let_def)
  with seal_open_roundtrip [OF sample_laws length_replicate] show ?thesis by blast
qed

text \<open>A record that is encoded into a push item and stored by the relay under any sequence number
  decodes to the same record, provided its text form reads back; and whatever an envelope decodes
  to has the kind and the identity hash of the envelope, so a relay cannot swap ciphertexts
  between records.\<close>

theorem encode_decode_roundtrip:
  assumes "crypto_laws X" and "length nonce = 24"
    and "encode X (Inr nonce) keys rec base = Inr item"
    and "\<And>m. x_record_to_vec X rec = Inr m \<Longrightarrow> x_record_from_slice X m = Inr rec"
  shows "decode X keys (envelope_of_item item seq) = Inr rec
    \<and> (\<forall>env r. decode X keys env = Inr r \<longrightarrow>
         e_kind env = as_str (r_kind r) \<and> e_id_hash env = id_hash X keys (as_str (r_kind r)) (r_id r))"
  using decode_encode [OF assms(1) _ assms(3)] assms(2,4)
    decode_identity [of X keys] by (fastforce simp: NONCE_LEN_def)

theorem encode_decode_roundtrip_witness:
  "\<exists>item. encode sample_ext (Inr (replicate 24 3)) sample_keys revision_a 4 = Inr item
     \<and> decode sample_ext sample_keys (envelope_of_item item 9) = Inr revision_a"
proof -
  have "\<exists>item. encode sample_ext (Inr (replicate 24 3)) sample_keys revision_a 4 = Inr item"
    by (simp add: encode_def seal_def sample_ext_def Let_def)
  then obtain item where item: "encode sample_ext (Inr (replicate 24 3)) sample_keys revision_a 4 = Inr item" ..
  have txt_form: "x_record_from_slice sample_ext m = Inr revision_a"
    if "x_record_to_vec sample_ext revision_a = Inr m" for m
    using that by (auto simp: sample_ext_def revision_a_def as_bytes_def utf8_char_def str_simps)
  from encode_decode_roundtrip [OF sample_laws length_replicate item txt_form] item show ?thesis by blast
qed

text \<open>Every way to obtain chain keys gives well-formed ones (64 lower-case hex digits for the id
  and the token, 32 key bytes): derivation from a mnemonic, random generation, and reading a
  space-key payload; and the payload written for well-formed keys reads back as these keys.\<close>

theorem chain_keys_well_formed:
  assumes "crypto_laws X"
  shows "(derive_keys X m = Inr k1 \<longrightarrow> well_formed_keys k1)
    \<and> (derive_account X m = Inr k2 \<longrightarrow> well_formed_keys k2)
    \<and> (derive_space0 X m = Inr k3 \<longrightarrow> well_formed_keys k3)
    \<and> (length bs = 96 \<longrightarrow> (\<exists>k. generate (Inr bs) = Inr k \<and> well_formed_keys k))
    \<and> (to_keys X p space_id = Inr k4 \<longrightarrow> well_formed_keys k4 \<and> ck_chain_id k4 = space_id)
    \<and> (well_formed_keys k5 \<longrightarrow> to_keys X (from_keys X k5) (ck_chain_id k5) = Inr k5)"
proof -
  have "generate (Inr bs) = Inr k \<Longrightarrow> well_formed_keys k" if "length bs = 96" for k
    using that by (auto simp: generate_def well_formed_keys_def is_chain_id_hex)
  moreover have "to_keys X (from_keys X k5) (ck_chain_id k5) = Inr k5" if "well_formed_keys k5"
    using that assms
    by (simp add: to_keys_def from_keys_def from_parts_Inr well_formed_keys_def enc_key_b64_def
        crypto_laws_def)
  ultimately show ?thesis
    using derive_chain_keys_wf [OF assms] from_parts_wf [of X space_id]
    by (auto simp: derive_keys_def derive_account_def derive_space0_def to_keys_def from_parts_Inr
        generate_def)
qed

theorem chain_keys_well_formed_witness:
  "\<exists>k. generate (Inr (replicate 96 5)) = Inr k \<and> well_formed_keys k
     \<and> to_keys sample_ext (from_keys sample_ext k) (ck_chain_id k) = Inr k"
proof -
  have "length (replicate 96 (5 :: u8)) = 96" by simp
  then obtain k where "generate (Inr (replicate 96 5)) = Inr k" "well_formed_keys k"
    using chain_keys_well_formed [OF sample_laws, where bs = "replicate 96 5"] by blast
  with chain_keys_well_formed [OF sample_laws, where ?k5.0 = k] show ?thesis by blast
qed

end
