(* ===== verification/Records_Types.thy ===== *)
theory Records_Types
  imports Crypto
begin

text \<open>
  The data of the typed records: payloads, errors and constants of \<open>sync/records_v3/types.rs\<close>,
  the account and space sections of \<open>sync/state_v2.rs\<close> and \<open>sync/records_v3/state.rs\<close>, the
  durable account operation of \<open>sync/record_account.rs\<close> with its leave and rotation plans, and
  the views of \<open>sync/record_repository.rs\<close> and \<open>sync/record_groups.rs\<close>. \<open>record_ext\<close> adds to
  the external primitives the conversions derived by \<open>serde\<close>, the OpenSSH public-key parser, the
  derived error texts and the digest of a deletion review. A \<open>BTreeSet\<close> of strings is a \<open>set\<close>.
\<close>

section \<open>Constants\<close>

definition HOST_SCHEMA :: u32 where "HOST_SCHEMA = 2"
definition KEYSLOT_SCHEMA :: u32 where "KEYSLOT_SCHEMA = 2"
definition ACCOUNT_SCHEMA :: u32 where "ACCOUNT_SCHEMA = 4"
definition MIN_ACCOUNT_SCHEMA :: u32 where "MIN_ACCOUNT_SCHEMA = 3"
definition GROUP_SCHEMA :: u32 where "GROUP_SCHEMA = 1"
definition GROUPED_HOST_SCHEMA :: u32 where "GROUPED_HOST_SCHEMA = 3"
definition GROUP_STATE_VERSION :: u32 where "GROUP_STATE_VERSION = 4"
definition NAVIGATION_STATE_VERSION :: u32 where "NAVIGATION_STATE_VERSION = 5"
definition STATE_VERSION :: u32 where "STATE_VERSION = 3"
definition MAX_JUMPS :: nat where "MAX_JUMPS = 5"

lemmas schema_defs = HOST_SCHEMA_def KEYSLOT_SCHEMA_def ACCOUNT_SCHEMA_def MIN_ACCOUNT_SCHEMA_def
  GROUP_SCHEMA_def GROUPED_HOST_SCHEMA_def GROUP_STATE_VERSION_def NAVIGATION_STATE_VERSION_def
  STATE_VERSION_def

section \<open>Payloads\<close>

datatype migration_phase = MP_AccountGated | MP_Publishing | MP_Active

record migration_gate =
  mg_id :: rstr
  mg_source_digest :: rstr
  mg_phase :: migration_phase

datatype host_scope = HS_Local | HS_Space rstr

datatype auth_kind = Auth_Key | Auth_Password | Auth_Interactive

datatype inherited_field =
    IF_Port | IF_User | IF_Authentication | IF_Jump | IF_KeepaliveSecs | IF_KeepaliveMaxMissed
  | IF_ConnectTimeoutSecs

fun inherited_str :: "inherited_field \<Rightarrow> rstr" where
  "inherited_str IF_Port = lit ''port''"
| "inherited_str IF_User = lit ''user''"
| "inherited_str IF_Authentication = lit ''authentication''"
| "inherited_str IF_Jump = lit ''jump''"
| "inherited_str IF_KeepaliveSecs = lit ''keepalive_secs''"
| "inherited_str IF_KeepaliveMaxMissed = lit ''keepalive_max_missed''"
| "inherited_str IF_ConnectTimeoutSecs = lit ''connect_timeout_secs''"

record stored_host_key =
  hk_algorithm :: rstr
  hk_public_key :: rstr
  hk_fingerprint :: rstr
  hk_pinned_at_ms :: u64
  hk_pinned_by_device_id :: rstr

record unsupported_setting =
  us_keyword :: rstr
  us_value :: rstr
  us_requires_review :: bool

record imported_settings =
  im_source :: rstr
  im_at_ms :: u64
  im_unsupported :: "unsupported_setting list"

record host_payload =
  hp_schema :: u32
  hp_group_id :: "rstr option"
  hp_inherit :: "inherited_field list"
  hp_alias :: rstr
  hp_hostname :: rstr
  hp_port :: u16
  hp_user :: rstr
  hp_auth :: auth_kind
  hp_key_id :: "rstr option"
  hp_jump :: "rstr list"
  hp_keepalive_secs :: u32
  hp_keepalive_max_missed :: u32
  hp_connect_timeout_secs :: u32
  hp_host_key :: "stored_host_key option"
  hp_tags :: "rstr list"
  hp_notes :: rstr
  hp_imported :: "imported_settings option"

record host_record =
  hr_id :: rstr
  hr_scope :: host_scope
  hr_payload :: host_payload

record key_slot_payload =
  ks_schema :: u32
  ks_name :: rstr
  ks_public_key :: rstr
  ks_fingerprint :: rstr
  ks_key_type :: rstr
  ks_has_passphrase :: bool
  ks_created_at_ms :: u64
  ks_origin_device_id :: rstr

datatype 'a typed_record = Live 'a | Tombstone rstr

datatype connection_status = CR_Ready | CR_NeedsKey rstr | CR_NeedsReview

datatype record_validation_error =
    VE_UnsupportedSchema rstr u32
  | VE_Invalid rstr rstr rstr
  | VE_Decode rstr rstr
  | VE_WrongKind rstr rstr
  | VE_DuplicateId rstr
  | VE_AliasConflict rstr host_scope
  | VE_AmbiguousAlias rstr
  | VE_HostNotFound rstr
  | VE_MissingJump rstr rstr
  | VE_JumpCycle rstr
  | VE_RepeatedJump rstr rstr
  | VE_JumpDepth rstr
  | VE_PublicKeyMismatch rstr
  | VE_MigrationCollision rstr rstr rstr

record group_authentication =
  ga_auth :: auth_kind
  ga_key_id :: "rstr option"

record group_defaults =
  gd_port :: "u16 option"
  gd_user :: "rstr option"
  gd_authentication :: "group_authentication option"
  gd_jump :: "rstr list option"
  gd_keepalive_secs :: "u32 option"
  gd_keepalive_max_missed :: "u32 option"
  gd_connect_timeout_secs :: "u32 option"

record group_payload =
  gp_schema :: u32
  gp_name :: rstr
  gp_parent_id :: "rstr option"
  gp_defaults :: group_defaults

record group_record =
  gr_id :: rstr
  gr_scope :: host_scope
  gr_payload :: group_payload

record group_order =
  go_schema :: u32
  go_ids :: "rstr list"

record meta_payload =
  mt_schema_version :: u32
  mt_created_by_app_version :: rstr

section \<open>Sections of the state\<close>

record verified_public_identity =
  vp_id :: rstr
  vp_version :: u64
  vp_updated_at_ms :: u64
  vp_device_id :: rstr
  vp_deleted :: bool

record sealed_record =
  sr_envelope :: envelope
  sr_dirty :: bool
  sr_public_identity :: "verified_public_identity option"

record rotation_marker_payload =
  rm_rotated_at_ms :: u64
  rm_by_device_id :: rstr
  rm_by_device_name :: rstr

record freeze_info =
  fi_detected_at_ms :: u64
  fi_markers :: "rotation_marker_payload list"

record account_state =
  acc_chain_id :: rstr
  acc_cursor_seq :: u64
  acc_baseline_established :: bool
  acc_remote_schema_version :: "u32 option"
  acc_frozen :: "freeze_info option"
  acc_records :: "(rstr, local_record) btm"
  acc_sealed :: "(rstr, sealed_record) btm"
  acc_chain_deletes :: "sealed_record list"

record space_state =
  sp_selected :: bool
  sp_cursor_seq :: u64
  sp_baseline_established :: bool
  sp_records :: "(rstr, local_record) btm"
  sp_sealed :: "(rstr, sealed_record) btm"
  sp_last_error :: "rstr option"
  sp_missing :: bool

record local_key_metadata =
  lk_vault_id :: rstr
  lk_public :: key_slot_payload

record local_import_receipt =
  ir_source_digest :: rstr
  ir_host_ids :: "rstr list"
  ir_key_ids :: "rstr list"

record local_state =
  ls_group_order :: "rstr list"
  ls_groups :: "(rstr, local_record) btm"
  ls_hosts :: "(rstr, local_record) btm"
  ls_keys :: "(rstr, local_key_metadata) btm"
  ls_import_receipts :: "(rstr, local_import_receipt) btm"

record relay_features =
  rf_url :: rstr
  rf_version :: "rstr option"
  rf_features :: "rstr list"
  rf_checked_at_ms :: u64

datatype rotation_progress_step =
    RP_Prepared | RP_LocalChangesSent | RP_Freezing | RP_Copying | RP_Deleting | RP_Switching

record rotated_space =
  rs_new_space_id :: rstr
  rs_sealed_key :: sealed_record

record rotation_progress =
  rp_step :: rotation_progress_step
  rp_started_at_ms :: u64
  rp_new_account_chain_id :: rstr
  rp_spaces :: "(rstr, rotated_space) btm"
  rp_created :: "rstr set"
  rp_copied :: "rstr set"
  rp_deleted :: "rstr set"
  rp_paused_until_ms :: "u64 option"

datatype sync_notice =
    SN_Upgraded "rstr option" "rstr list" "rstr list"
  | SN_SpaceDeleted rstr rstr
  | SN_RenameBlocked rstr rstr rstr
  | SN_LeftAccount "rstr list"
  | SN_NewSyncCode
  | SN_OtherRotation "rstr list"
  | SN_KeysNeeded "rstr list"

section \<open>Durable account operations\<close>

record host_remap =
  rmap_source_space_id :: rstr
  rmap_source_host_id :: rstr
  rmap_local_host_id :: rstr
  rmap_alias :: rstr

record planned_host =
  ph_mapping :: host_remap
  ph_local :: local_record

record planned_group =
  pg_source_space_id :: rstr
  pg_source_group_id :: rstr
  pg_local_group_id :: rstr
  pg_local :: local_record

record leave_plan =
  lp_groups :: "planned_group list"
  lp_source_spaces :: "(rstr, space_state) btm"
  lp_hosts :: "planned_host list"
  lp_passwords_copied :: "rstr set"

datatype rotation_step = RS_Prepared | RS_Freezing | RS_Copying | RS_Activating

record rotation_plan =
  rl_step :: rotation_step
  rl_source_code_account :: rstr
  rl_source_account :: account_state
  rl_source_spaces :: "(rstr, space_state) btm"
  rl_space_ids :: "(rstr, rstr) btm"
  rl_target_spaces :: "(rstr, space_state) btm"
  rl_frozen :: "rstr set"
  rl_created :: "rstr set"
  rl_source_digest :: rstr

datatype pending_account_kind =
    PK_CreateAccount | PK_JoinAccount | PK_CreateSpace | PK_LeaveAccount | PK_RotateAccount

datatype pending_account_phase =
    PP_Prepared | PP_RemoteCreated | PP_Publishing | PP_ActivationReady | PP_Activated

record pending_account_operation =
  po_id :: rstr
  po_device_name :: rstr
  po_kind :: pending_account_kind
  po_phase :: pending_account_phase
  po_migration_gate :: "migration_gate option"
  po_relay_url :: rstr
  po_staged_code_account :: "rstr option"
  po_prepared_account :: account_state
  po_space_id :: "rstr option"
  po_prepared_space :: "space_state option"
  po_leave :: "leave_plan option"
  po_rotation :: "rotation_plan option"

section \<open>The state\<close>

record sync_state =
  st_version :: u32
  st_device_id :: rstr
  st_device_name :: rstr
  st_relay_url :: rstr
  st_account :: "account_state option"
  st_spaces :: "(rstr, space_state) btm"
  st_local :: local_state
  st_rotation :: "rotation_progress option"
  st_relay_features :: "relay_features option"
  st_legacy_v1_backup :: "rstr option"
  st_phrase_cleanup_pending :: bool
  st_migration_gate :: "migration_gate option"
  st_shared_writes_blocked :: bool
  st_pending_account :: "pending_account_operation option"
  st_notices :: "sync_notice list"
  st_last_sync_ms :: "u64 option"
  st_last_error :: "rstr option"

section \<open>Views and repository errors\<close>

record record_revision =
  rv_version :: u64
  rv_updated_at_ms :: u64
  rv_device_id :: rstr

datatype host_readiness = HR_Ready | HR_NeedsKey rstr | HR_KeyConflict rstr | HR_NeedsReview

record host_view =
  hv_host :: host_record
  hv_effective_payload :: host_payload
  hv_inherited_from :: "(rstr, rstr) btm"
  hv_group_error :: "rstr option"
  hv_revision :: record_revision
  hv_readiness :: host_readiness

datatype key_authority = KA_Local | KA_Account

datatype key_status = KS_Available | KS_NeedsMaterial | KS_Conflict | KS_Deleted

record key_view =
  kv_id :: rstr
  kv_authority :: key_authority
  kv_public :: "key_slot_payload option"
  kv_vault_id :: "rstr option"
  kv_status :: key_status

record group_view =
  gv_group :: group_record
  gv_revision :: record_revision
  gv_group_error :: "rstr option"

record repository_snapshot =
  snap_hosts :: "host_view list"
  snap_keys :: "key_view list"
  snap_groups :: "group_view list"

record host_endpoint =
  ep_hostname :: rstr
  ep_port :: u16

record effective_host =
  ef_payload :: host_payload
  ef_inherited_from :: "(rstr, rstr) btm"

datatype repository_error =
    RE_Validation record_validation_error
  | RE_RevisionConflict rstr record_revision
  | RE_SpaceUnavailable rstr
  | RE_ReadOnlyAccount
  | RE_Group rstr
  | RE_UpgradeConfirmationRequired
  | RE_OpaqueHostAuthority rstr
  | RE_EndpointChanged rstr
  | RE_PinConflict rstr
  | RE_KeyNotFound rstr
  | RE_OrderingOverflow rstr

section \<open>External conversions\<close>

record ssh_public =
  pk_algorithm :: rstr
  pk_fingerprint :: rstr
  pk_key_data :: bytes

record record_ext = crypto_ext +
  x_host_from_value :: "json \<Rightarrow> rstr + host_payload"
  x_host_to_value :: "host_payload \<Rightarrow> json"
  x_keyslot_from_value :: "json \<Rightarrow> rstr + key_slot_payload"
  x_keyslot_to_value :: "key_slot_payload \<Rightarrow> json"
  x_group_from_value :: "json \<Rightarrow> rstr + group_payload"
  x_group_to_value :: "group_payload \<Rightarrow> json"
  x_order_from_value :: "json \<Rightarrow> rstr + group_order"
  x_order_to_value :: "group_order \<Rightarrow> json"
  x_gate_from_value :: "json \<Rightarrow> rstr + migration_gate"
  x_meta_from_value :: "json \<Rightarrow> rstr + meta_payload"
  x_from_openssh :: "rstr \<Rightarrow> ssh_public option"
  x_error_text :: "repository_error \<Rightarrow> rstr"
  x_review_digest :: "group_view list \<Rightarrow> (host_record \<times> record_revision \<times> host_payload
    \<times> (rstr, rstr) btm \<times> rstr option) list \<Rightarrow> rstr option"

section \<open>Orders\<close>

text \<open>The derived order of \<open>HostScope\<close> and \<open>InheritedField\<close>: variants in declaration order.\<close>

fun inherited_rank :: "inherited_field \<Rightarrow> nat" where
  "inherited_rank IF_Port = 0"
| "inherited_rank IF_User = 1"
| "inherited_rank IF_Authentication = 2"
| "inherited_rank IF_Jump = 3"
| "inherited_rank IF_KeepaliveSecs = 4"
| "inherited_rank IF_KeepaliveMaxMissed = 5"
| "inherited_rank IF_ConnectTimeoutSecs = 6"

instantiation inherited_field :: linorder
begin

definition less_eq_inherited_field :: "inherited_field \<Rightarrow> inherited_field \<Rightarrow> bool" where
  "less_eq_inherited_field a b \<longleftrightarrow> inherited_rank a \<le> inherited_rank b"

definition less_inherited_field :: "inherited_field \<Rightarrow> inherited_field \<Rightarrow> bool" where
  "less_inherited_field a b \<longleftrightarrow> inherited_rank a < inherited_rank b"

instance
proof
  fix a b c :: inherited_field
  have inj: "inherited_rank a = inherited_rank b \<Longrightarrow> a = b"
    by (cases a; cases b) simp_all
  show "(a < b) = (a \<le> b \<and> \<not> b \<le> a)"
    unfolding less_eq_inherited_field_def less_inherited_field_def by (rule less_le_not_le)
  show "a \<le> a"
    unfolding less_eq_inherited_field_def by (rule order_refl)
  show "a \<le> b \<or> b \<le> a"
    unfolding less_eq_inherited_field_def by (rule linear)
  show "a \<le> c" if "a \<le> b" "b \<le> c"
    using that unfolding less_eq_inherited_field_def by (rule order_trans)
  show "a = b" if "a \<le> b" "b \<le> a"
    using that unfolding less_eq_inherited_field_def by (intro inj order_antisym)
qed

end

fun scope_key :: "host_scope \<Rightarrow> rstr list" where
  "scope_key HS_Local = []"
| "scope_key (HS_Space s) = [s]"

instantiation host_scope :: linorder
begin

definition less_eq_host_scope :: "host_scope \<Rightarrow> host_scope \<Rightarrow> bool" where
  "less_eq_host_scope a b \<longleftrightarrow> scope_key a \<le> scope_key b"

definition less_host_scope :: "host_scope \<Rightarrow> host_scope \<Rightarrow> bool" where
  "less_host_scope a b \<longleftrightarrow> scope_key a < scope_key b"

instance
proof
  fix a b c :: host_scope
  have inj: "scope_key a = scope_key b \<Longrightarrow> a = b"
    by (cases a; cases b) simp_all
  show "(a < b) = (a \<le> b \<and> \<not> b \<le> a)"
    unfolding less_eq_host_scope_def less_host_scope_def by (rule less_le_not_le)
  show "a \<le> a"
    unfolding less_eq_host_scope_def by (rule order_refl)
  show "a \<le> b \<or> b \<le> a"
    unfolding less_eq_host_scope_def by (rule linear)
  show "a \<le> c" if "a \<le> b" "b \<le> c"
    using that unfolding less_eq_host_scope_def by (rule order_trans)
  show "a = b" if "a \<le> b" "b \<le> a"
    using that unfolding less_eq_host_scope_def by (intro inj order_antisym)
qed

end

section \<open>Identities of sealed records\<close>

definition is_host_id :: "rstr \<Rightarrow> bool" where
  "is_host_id i \<longleftrightarrow> str_len i = 16 \<and> list_all is_lower_hex i"

definition is_slot_id :: "rstr \<Rightarrow> bool" where
  "is_slot_id i \<longleftrightarrow> str_len i = 32 \<and> list_all is_lower_hex i"

text \<open>\<open>group_order::RECORD_ID\<close>, the identity of the navigation record.\<close>

definition RECORD_ID :: rstr where
  "RECORD_ID = lit ''library-group-order''"

definition sealed_key :: "rstr \<Rightarrow> rstr \<Rightarrow> rstr" where
  "sealed_key kind hash = kind @ lit '':'' @ hash"

definition is_valid_for :: "verified_public_identity \<Rightarrow> envelope \<Rightarrow> bool" where
  "is_valid_for v env \<longleftrightarrow>
     (if e_kind env = lit ''host'' \<or> e_kind env = lit ''group''
      then str_len (vp_id v) = 16 \<and> list_all is_lower_hex (vp_id v)
      else if e_kind env = lit ''keyslot'' then is_slot_id (vp_id v)
      else if e_kind env = lit ''meta'' then vp_id v = RECORD_ID
      else False)
     \<and> vp_version v > 0 \<and> is_slot_id (vp_device_id v) \<and> vp_deleted v = e_deleted env"

definition header :: "verified_public_identity \<Rightarrow> record_kind \<Rightarrow> sync_record" where
  "header v kind =
     \<lparr>r_kind = kind, r_id = vp_id v, r_version = vp_version v, r_updated_at_ms = vp_updated_at_ms v,
      r_device_id = vp_device_id v, r_deleted = vp_deleted v, r_payload = JNull\<rparr>"

definition account_new :: "rstr \<Rightarrow> account_state" where
  "account_new chain_id =
     \<lparr>acc_chain_id = chain_id, acc_cursor_seq = 0, acc_baseline_established = False,
      acc_remote_schema_version = None, acc_frozen = None, acc_records = bt_empty,
      acc_sealed = bt_empty, acc_chain_deletes = []\<rparr>"

text \<open>\<open>SealedRecord::seal\<close>, \<open>open\<close>, \<open>push_item\<close> and \<open>key\<close>.\<close>

definition sealed_record_seal :: "'a crypto_ext_scheme \<Rightarrow> rstr + bytes \<Rightarrow> chain_keys \<Rightarrow> sync_record
    \<Rightarrow> u64 \<Rightarrow> app_error + sealed_record" where
  "sealed_record_seal X random keys rec seq =
     rbind (encode X random keys rec seq) (\<lambda>item.
       Inr \<lparr>sr_envelope = envelope_of_item item seq, sr_dirty = True, sr_public_identity = None\<rparr>)"

definition sealed_record_open :: "'a crypto_ext_scheme \<Rightarrow> chain_keys \<Rightarrow> sealed_record
    \<Rightarrow> app_error + sync_record" where
  "sealed_record_open X keys s = decode X keys (sr_envelope s)"

definition sealed_push_item :: "sealed_record \<Rightarrow> push_item" where
  "sealed_push_item s =
     \<lparr>pi_id_hash = e_id_hash (sr_envelope s), pi_kind = e_kind (sr_envelope s),
      pi_nonce = e_nonce (sr_envelope s), pi_ciphertext = e_ciphertext (sr_envelope s),
      pi_deleted = e_deleted (sr_envelope s), pi_base_seq = e_seq (sr_envelope s)\<rparr>"

definition sealed_record_key :: "sealed_record \<Rightarrow> rstr" where
  "sealed_record_key s = sealed_key (e_kind (sr_envelope s)) (e_id_hash (sr_envelope s))"

end
