(* ===== verification/Jump_Route.thy ===== *)
theory Jump_Route
  imports Records_Types
begin

text \<open>
  The interface of a jump-route expansion. The program computes routes twice, over host ids when a
  set of hosts is validated (\<open>records_v3/validate.rs\<close>) and over positions in a snapshot
  (\<open>record_repository.rs\<close>); both inherit only the first jump's own route. The locale \<open>jump_route\<close>
  states when an expansion succeeds and proves once what a route is: bounded, free of repetition,
  built from known hosts, composed of the first jump's route and the other jumps.
  A table is \<open>'t\<close>, a node \<open>'n\<close> with its key \<open>'k\<close>, a jump reference \<open>'j\<close>; \<open>'r\<close> only labels errors.
\<close>

lemma stack_measure:
  "length stack \<le> MAX_JUMPS \<Longrightarrow> MAX_JUMPS + 1 - length (i # stack) < MAX_JUMPS + 1 - length stack"
  by simp

locale jump_route =
  fixes good :: "'t \<Rightarrow> bool"
    and key :: "'n \<Rightarrow> 'k"
    and jumps :: "'t \<Rightarrow> 'n \<Rightarrow> 'j list"
    and look :: "'t \<Rightarrow> 'j \<Rightarrow> 'n option"
    and expand :: "'t \<Rightarrow> 'r \<Rightarrow> 'n \<Rightarrow> 'k list \<Rightarrow> 'k list \<Rightarrow> 'e + 'k list"
  assumes expand_Inr: "good t \<Longrightarrow> expand t root n stack out = Inr out' \<longleftrightarrow>
      key n \<notin> set stack \<and> length stack \<le> MAX_JUMPS
      \<and> (\<exists>mid. (case jumps t n of
                  [] \<Rightarrow> mid = out
                | first # rest \<Rightarrow>
                    \<exists>m out1 ms. look t first = Some m \<and> key m \<notin> set (key n # stack)
                      \<and> expand t root m (key n # stack) out = Inr out1
                      \<and> map (look t) rest = map Some ms
                      \<and> (\<forall>x \<in> set ms. key x \<notin> set (key n # stack)) \<and> distinct (map key ms)
                      \<and> key ` set ms \<inter> set out1 = {} \<and> mid = out1 @ map key ms)
          \<and> key n \<notin> set mid \<and> length mid \<le> MAX_JUMPS \<and> out' = mid @ [key n])"
begin

lemma expand_ConsE:
  assumes "good t" and "expand t root n stack out = Inr out'" and "jumps t n = first # rest"
  obtains m out1 ms where "key n \<notin> set stack" "length stack \<le> MAX_JUMPS"
    "look t first = Some m" "key m \<notin> set (key n # stack)"
    "expand t root m (key n # stack) out = Inr out1"
    "map (look t) rest = map Some ms" "\<forall>x \<in> set ms. key x \<notin> set (key n # stack)"
    "distinct (map key ms)" "key ` set ms \<inter> set out1 = {}"
    "key n \<notin> set (out1 @ map key ms)" "length (out1 @ map key ms) \<le> MAX_JUMPS"
    "out' = (out1 @ map key ms) @ [key n]"
proof -
  have "\<exists>mid. (\<exists>m out1 ms. look t first = Some m \<and> key m \<notin> set (key n # stack)
          \<and> expand t root m (key n # stack) out = Inr out1
          \<and> map (look t) rest = map Some ms
          \<and> (\<forall>x \<in> set ms. key x \<notin> set (key n # stack)) \<and> distinct (map key ms)
          \<and> key ` set ms \<inter> set out1 = {} \<and> mid = out1 @ map key ms)
      \<and> key n \<notin> set mid \<and> length mid \<le> MAX_JUMPS \<and> out' = mid @ [key n]"
    and "key n \<notin> set stack" "length stack \<le> MAX_JUMPS"
    using expand_Inr [OF assms(1), of root n stack out out', unfolded assms(2,3) list.case] by blast+
  then show thesis using that by blast
qed

text \<open>A successful expansion only appends, and succeeds in every less constrained context with
  the same hops.\<close>

lemma expand_mono:
  assumes "good t" and "expand t root n stack out = Inr out'"
  shows "\<exists>r. out' = out @ r \<and> (\<forall>root' stack' out2.
      set stack' \<subseteq> set stack \<and> length stack' \<le> length stack
      \<and> set out2 \<subseteq> set out \<and> length out2 \<le> length out
      \<longrightarrow> expand t root' n stack' out2 = Inr (out2 @ r))"
  using assms(2)
proof (induction "MAX_JUMPS + 1 - length stack" arbitrary: n stack out' rule: less_induct)
  case less
  show ?case
  proof (cases "jumps t n")
    case Nil
    with less.prems show ?thesis
      by (intro exI [of _ "[key n]"]) (auto simp: expand_Inr [OF assms(1)])
  next
    case (Cons first rest)
    obtain m out1 ms where
      i: "key n \<notin> set stack" "length stack \<le> MAX_JUMPS"
      and j: "look t first = Some m" "key m \<notin> set (key n # stack)"
      and rec: "expand t root m (key n # stack) out = Inr out1"
      and rest: "map (look t) rest = map Some ms" "\<forall>x \<in> set ms. key x \<notin> set (key n # stack)"
        "distinct (map key ms)" "key ` set ms \<inter> set out1 = {}"
      and fin: "key n \<notin> set (out1 @ map key ms)" "length (out1 @ map key ms) \<le> MAX_JUMPS"
        "out' = (out1 @ map key ms) @ [key n]"
      by (rule expand_ConsE [OF assms(1) less.prems Cons])
    from less.hyps [OF stack_measure [OF i(2)] rec] obtain r where
      r: "out1 = out @ r" and IH: "\<And>root' stack' out2. set stack' \<subseteq> set (key n # stack) \<Longrightarrow>
        length stack' \<le> length (key n # stack) \<Longrightarrow> set out2 \<subseteq> set out \<Longrightarrow> length out2 \<le> length out
        \<Longrightarrow> expand t root' m stack' out2 = Inr (out2 @ r)"
      by blast
    show ?thesis
    proof (intro exI conjI allI impI)
      show "out' = out @ (r @ map key ms @ [key n])" using fin(3) r by simp
      fix root' stack' out2
      assume a: "set stack' \<subseteq> set stack \<and> length stack' \<le> length stack
        \<and> set out2 \<subseteq> set out \<and> length out2 \<le> length out"
      have e: "expand t root' m (key n # stack') out2 = Inr (out2 @ r)"
        using a by (intro IH) auto
      have "\<exists>m out1 ms'. look t first = Some m \<and> key m \<notin> set (key n # stack')
          \<and> expand t root' m (key n # stack') out2 = Inr out1
          \<and> map (look t) rest = map Some ms'
          \<and> (\<forall>x \<in> set ms'. key x \<notin> set (key n # stack')) \<and> distinct (map key ms')
          \<and> key ` set ms' \<inter> set out1 = {} \<and> out2 @ r @ map key ms = out1 @ map key ms'"
        by (intro exI [of _ m] exI [of _ "out2 @ r"] exI [of _ ms]) (use a j rest r e in auto)
      moreover have "key n \<notin> set stack'" "length stack' \<le> MAX_JUMPS"
        "key n \<notin> set (out2 @ r @ map key ms)" "length (out2 @ r @ map key ms) \<le> MAX_JUMPS"
        using a i fin r by auto
      ultimately show "expand t root' n stack' out2 = Inr (out2 @ r @ map key ms @ [key n])"
        unfolding expand_Inr [OF assms(1), of root' n stack' out2] Cons list.case
        by (intro conjI exI [of _ "out2 @ r @ map key ms"]) simp_all
    qed
  qed
qed

lemma expand_bounds:
  assumes "good t" and "expand t root n stack out = Inr out'" and "distinct out"
  shows "distinct out' \<and> length out' \<le> MAX_JUMPS + 1"
  using assms(2)
proof (induction "MAX_JUMPS + 1 - length stack" arbitrary: n stack out' rule: less_induct)
  case less
  show ?case
  proof (cases "jumps t n")
    case Nil
    with less.prems assms(3) show ?thesis by (auto simp: expand_Inr [OF assms(1)])
  next
    case (Cons first rest)
    show ?thesis
    proof (rule expand_ConsE [OF assms(1) less.prems Cons])
      fix m out1 ms
      assume "length stack \<le> MAX_JUMPS" and rec: "expand t root m (key n # stack) out = Inr out1"
        and "distinct (map key ms)" "key ` set ms \<inter> set out1 = {}" "key n \<notin> set (out1 @ map key ms)"
          "length (out1 @ map key ms) \<le> MAX_JUMPS" "out' = (out1 @ map key ms) @ [key n]"
      moreover from less.hyps [OF stack_measure [OF this(1)] rec] have "distinct out1" by simp
      ultimately show ?thesis by auto
    qed
  qed
qed

lemma expand_known:
  assumes "good t" and "expand t root n stack out = Inr out'"
  shows "set out' \<subseteq> set out \<union> {key n} \<union> {key m | m j. look t j = Some m}"
  using assms(2)
proof (induction "MAX_JUMPS + 1 - length stack" arbitrary: n stack out' rule: less_induct)
  case less
  show ?case
  proof (cases "jumps t n")
    case Nil
    with less.prems show ?thesis by (auto simp: expand_Inr [OF assms(1)])
  next
    case (Cons first rest)
    show ?thesis
    proof (rule expand_ConsE [OF assms(1) less.prems Cons])
      fix m out1 ms
      assume s: "length stack \<le> MAX_JUMPS" and m: "look t first = Some m"
        and rec: "expand t root m (key n # stack) out = Inr out1"
        and ms: "map (look t) rest = map Some ms" and out': "out' = (out1 @ map key ms) @ [key n]"
      have "\<exists>j. look t j = Some x" if "x \<in> set ms" for x
      proof -
        from that have "Some x \<in> set (map (look t) rest)" unfolding ms by simp
        then show ?thesis by (metis (no_types, lifting) ex_map_conv set_map image_iff)
      qed
      moreover from less.hyps [OF stack_measure [OF s] rec] m
      have "set out1 \<subseteq> set out \<union> {key m | m j. look t j = Some m}" by auto
      ultimately show ?thesis unfolding out' by auto
    qed
  qed
qed

lemma expand_compose:
  assumes "good t" and "expand t root n [] [] = Inr r"
  shows "case jumps t n of
      [] \<Rightarrow> r = [key n]
    | j # js \<Rightarrow> \<exists>m ms r0. look t j = Some m \<and> map (look t) js = map Some ms
        \<and> (\<forall>root'. expand t root' m [] [] = Inr r0) \<and> r = r0 @ map key ms @ [key n]"
proof (cases "jumps t n")
  case Nil
  with assms show ?thesis by (auto simp: expand_Inr [OF assms(1)])
next
  case (Cons j js)
  show ?thesis
  proof (rule expand_ConsE [OF assms Cons])
    fix m out1 ms
    assume m: "look t j = Some m" and rec: "expand t root m (key n # []) [] = Inr out1"
      and ms: "map (look t) js = map Some ms" and r: "r = (out1 @ map key ms) @ [key n]"
    from expand_mono [OF assms(1) rec] obtain r0 where "out1 = r0"
      and "\<And>root'. expand t root' m [] [] = Inr r0"
      by auto
    with m ms r Cons show ?thesis by auto
  qed
qed

lemma expand_last: "good t \<Longrightarrow> expand t root n stack out = Inr r \<Longrightarrow> last r = key n \<and> r \<noteq> []"
  by (auto simp: expand_Inr)

end

end
