(* ===== verification/Validate.thy ===== *)
theory Validate
  imports Jump_Route
begin

text \<open>
  Validation and decoding of typed records (\<open>sync/records_v3/validate.rs\<close>): host, key-slot and
  group shapes, alias and identity uniqueness, and the jump route \<open>chain_ids\<close>, in which only the
  first jump inherits its own route. The lemmas characterise a computed route: bounded, without
  repetition, ending in the target, and composed of the first jump's route and the other jumps.
\<close>

section \<open>Checks\<close>

definition invalid :: "rstr \<Rightarrow> rstr \<Rightarrow> rstr \<Rightarrow> record_validation_error" where
  "invalid field i reason = VE_Invalid field i reason"

definition schema :: "rstr \<Rightarrow> u32 \<Rightarrow> u32 \<Rightarrow> record_validation_error + unit" where
  "schema kind found expected =
     (if found = expected then Inr () else Inl (VE_UnsupportedSchema kind found))"

definition alias_char :: "uchar \<Rightarrow> bool" where
  "alias_char b \<longleftrightarrow> is_ascii_alphanumeric b \<or> b \<in> set (lit ''._@%-'')"

definition parse_public :: "'a record_ext_scheme \<Rightarrow> rstr \<Rightarrow> rstr \<Rightarrow> record_validation_error + ssh_public" where
  "parse_public X line i =
     ok_or (invalid (lit ''public_key'') i (lit ''not a complete OpenSSH public key''))
       (x_from_openssh X (trim line))"

definition check_pin :: "'a record_ext_scheme \<Rightarrow> rstr \<Rightarrow> stored_host_key \<Rightarrow> record_validation_error + unit" where
  "check_pin X i pin =
     rbind (fail_if (\<not> is_slot_id (hk_pinned_by_device_id pin))
              (invalid (lit ''pinned_by_device_id'') i (lit ''expected a device id''))) (\<lambda>_.
     rbind (parse_public X (hk_algorithm pin @ lit '' '' @ hk_public_key pin) i) (\<lambda>key.
     fail_if (pk_algorithm key \<noteq> hk_algorithm pin \<or> pk_fingerprint key \<noteq> hk_fingerprint pin)
       (VE_PublicKeyMismatch i)))"

definition validate_host_shape :: "'a record_ext_scheme \<Rightarrow> host_record \<Rightarrow> record_validation_error + unit" where
  "validate_host_shape X host =
     (let p = hr_payload host; i = hr_id host in
      rbind (fail_if (hp_schema p \<noteq> HOST_SCHEMA \<and> hp_schema p \<noteq> GROUPED_HOST_SCHEMA)
               (VE_UnsupportedSchema (lit ''host'') (hp_schema p))) (\<lambda>_.
      rbind (fail_if (hp_schema p = HOST_SCHEMA \<and> (hp_group_id p \<noteq> None \<or> hp_inherit p \<noteq> []))
               (invalid (lit ''group_id'') i (lit ''inheritance requires host schema 3''))) (\<lambda>_.
      rbind (fail_if (is_some_and (hp_group_id p) (\<lambda>g. \<not> is_host_id g)
                      \<or> card (set (hp_inherit p)) \<noteq> length (hp_inherit p))
               (invalid (lit ''inherit'') i (lit ''invalid group or duplicate inherited field''))) (\<lambda>_.
      rbind (fail_if (\<not> is_host_id i)
               (invalid (lit ''id'') i (lit ''expected 16 lowercase hex characters''))) (\<lambda>_.
      rbind (case hr_scope host of
               HS_Space space_id \<Rightarrow>
                 fail_if (\<not> is_chain_id space_id)
                   (invalid (lit ''space_id'') i (lit ''expected a valid chain id''))
             | HS_Local \<Rightarrow> Inr ()) (\<lambda>_.
      rbind (fail_if (hp_alias p = [] \<or> starts_with (hp_alias p) (lit ''-'')
                      \<or> \<not> list_all alias_char (hp_alias p))
               (invalid (lit ''alias'') i (lit ''not a valid CLI alias''))) (\<lambda>_.
      rbind (fail_if (hp_hostname p = [] \<or> list_ex (\<lambda>c. is_whitespace c \<or> is_control c) (hp_hostname p))
               (invalid (lit ''hostname'') i (lit ''missing or invalid endpoint''))) (\<lambda>_.
      rbind (fail_if (hp_port p = 0)
               (invalid (lit ''port'') i (lit ''must be between 1 and 65535''))) (\<lambda>_.
      rbind (fail_if (list_ex (\<lambda>c. is_whitespace c \<or> is_control c) (hp_user p))
               (invalid (lit ''user'') i (lit ''contains whitespace or control characters''))) (\<lambda>_.
      rbind (fail_if (hp_connect_timeout_secs p = 0)
               (invalid (lit ''connect_timeout_secs'') i (lit ''must be nonzero''))) (\<lambda>_.
      rbind (fail_if (hp_auth p = Auth_Key \<and> hp_key_id p = None)
               (invalid (lit ''key_id'') i (lit ''key authentication requires a key reference''))) (\<lambda>_.
      rbind (fail_if (is_some_and (hp_key_id p) (\<lambda>k. \<not> is_slot_id k))
               (invalid (lit ''key_id'') i (lit ''expected an existing-format vault id''))) (\<lambda>_.
      rbind (for_all (\<lambda>j. fail_if (\<not> is_host_id j)
               (invalid (lit ''jump'') i (lit ''expected host ids''))) (hp_jump p)) (\<lambda>_.
      (case hp_host_key p of None \<Rightarrow> Inr () | Some pin \<Rightarrow> check_pin X i pin)))))))))))))))"

text \<open>The duplicate test of \<open>validate_host\<close>: \<open>seen\<close> holds the jumps met so far.\<close>

definition check_jump :: "host_record \<Rightarrow> rstr set \<Rightarrow> rstr \<Rightarrow> record_validation_error + rstr set" where
  "check_jump host seen j =
     rbind (fail_if (j = hr_id host) (VE_JumpCycle (hr_id host))) (\<lambda>_.
     rbind (fail_if (j \<in> seen) (VE_RepeatedJump (hr_id host) j)) (\<lambda>_.
     Inr (insert j seen)))"

definition validate_host :: "'a record_ext_scheme \<Rightarrow> host_record \<Rightarrow> record_validation_error + unit" where
  "validate_host X host =
     rbind (validate_host_shape X host) (\<lambda>_.
     rbind (for_each (check_jump host) {} (hp_jump (hr_payload host))) (\<lambda>_.
     fail_if (length (hp_jump (hr_payload host)) > MAX_JUMPS) (VE_JumpDepth (hr_id host))))"

definition validate_keyslot :: "'a record_ext_scheme \<Rightarrow> rstr \<Rightarrow> key_slot_payload \<Rightarrow> record_validation_error + unit" where
  "validate_keyslot X i slot =
     rbind (schema (lit ''keyslot'') (ks_schema slot) KEYSLOT_SCHEMA) (\<lambda>_.
     rbind (fail_if (\<not> is_slot_id i)
              (invalid (lit ''id'') i (lit ''expected 32 lowercase hex characters''))) (\<lambda>_.
     rbind (fail_if (trim (ks_name slot) = [] \<or> list_ex is_control (ks_name slot))
              (invalid (lit ''name'') i (lit ''missing or invalid label''))) (\<lambda>_.
     rbind (fail_if (\<not> is_slot_id (ks_origin_device_id slot))
              (invalid (lit ''origin_device_id'') i (lit ''expected a device id''))) (\<lambda>_.
     rbind (parse_public X (ks_public_key slot) i) (\<lambda>key.
     fail_if (pk_algorithm key \<noteq> ks_key_type slot \<or> pk_fingerprint key \<noteq> ks_fingerprint slot)
       (VE_PublicKeyMismatch i))))))"

text \<open>\<open>requires_review\<close> of an import: shared by \<open>connection_readiness\<close> and the repository.\<close>

definition needs_import_review :: "host_record \<Rightarrow> bool" where
  "needs_import_review host \<longleftrightarrow>
     is_some_and (hp_imported (hr_payload host)) (\<lambda>im. list_ex us_requires_review (im_unsupported im))"

definition connection_readiness :: "'a record_ext_scheme \<Rightarrow> host_record \<Rightarrow> rstr set
    \<Rightarrow> record_validation_error + connection_status" where
  "connection_readiness X host available_keys =
     rbind (validate_host X host) (\<lambda>_.
     if needs_import_review host then Inr CR_NeedsReview
     else if hp_auth (hr_payload host) = Auth_Key then
       (case hp_key_id (hr_payload host) of
          None \<Rightarrow> undefined
        | Some i \<Rightarrow> if i \<notin> available_keys then Inr (CR_NeedsKey i) else Inr CR_Ready)
     else Inr CR_Ready)"

section \<open>Routes\<close>

type_synonym host_table = "(rstr, host_record) btm"

definition add_hop :: "host_record \<Rightarrow> rstr \<Rightarrow> rstr list \<Rightarrow> record_validation_error + rstr list" where
  "add_hop host root out =
     rbind (fail_if (hr_id host \<in> set out) (VE_RepeatedJump root (hr_id host))) (\<lambda>_.
     let out = out @ [hr_id host] in
     rbind (fail_if (length out > MAX_JUMPS + 1) (VE_JumpDepth root)) (\<lambda>_. Inr out))"

definition find_jump :: "host_table \<Rightarrow> host_record \<Rightarrow> rstr \<Rightarrow> rstr list \<Rightarrow> rstr
    \<Rightarrow> record_validation_error + host_record" where
  "find_jump hosts current root stack j =
     rbind (ok_or (VE_MissingJump (hr_id current) j) (bt_get hosts j)) (\<lambda>jump.
     rbind (fail_if (j \<in> set stack) (VE_JumpCycle root)) (\<lambda>_. Inr jump))"

text \<open>\<open>append\<close>: the stack is the list of the hosts being expanded. Only position 0 recurses; the
  stack is the same after the recursive call as before it.\<close>

function append_hops :: "host_table \<Rightarrow> host_record \<Rightarrow> rstr \<Rightarrow> rstr list \<Rightarrow> rstr list
    \<Rightarrow> record_validation_error + rstr list" where
  "append_hops hosts current root stack out =
     (if hr_id current \<in> set stack then Inl (VE_JumpCycle root)
      else
        let stack' = hr_id current # stack in
        if length stack' > MAX_JUMPS + 1 then Inl (VE_JumpDepth root)
        else
          rbind (case hp_jump (hr_payload current) of
                   [] \<Rightarrow> Inr out
                 | first # rest \<Rightarrow>
                     rbind (find_jump hosts current root stack' first) (\<lambda>jump.
                     rbind (append_hops hosts jump root stack' out) (\<lambda>out.
                     for_each (\<lambda>out j. rbind (find_jump hosts current root stack' j) (\<lambda>jump.
                                       add_hop jump root out)) out rest)))
            (\<lambda>out. add_hop current root out))"
  by pat_completeness auto
termination
  by (relation "measure (\<lambda>(hosts, current, root, stack, out). MAX_JUMPS + 2 - length stack)") auto

declare append_hops.simps [simp del]

definition chain_ids :: "host_table \<Rightarrow> host_record \<Rightarrow> record_validation_error + rstr list" where
  "chain_ids hosts target = append_hops hosts target (hr_id target) [] []"

text \<open>The first loop of \<open>validate_hosts\<close>, with its table of hosts and its set of aliases.\<close>

definition admit_host :: "'a record_ext_scheme \<Rightarrow> host_table \<times> (host_scope \<times> rstr) set \<Rightarrow> host_record
    \<Rightarrow> record_validation_error + host_table \<times> (host_scope \<times> rstr) set" where
  "admit_host X st host =
     (case st of (ids, aliases) \<Rightarrow>
        rbind (validate_host X host) (\<lambda>_.
        rbind (fail_if (bt_contains ids (hr_id host)) (VE_DuplicateId (hr_id host))) (\<lambda>_.
        rbind (fail_if ((hr_scope host, hp_alias (hr_payload host)) \<in> aliases)
                 (VE_AliasConflict (hp_alias (hr_payload host)) (hr_scope host))) (\<lambda>_.
        Inr (bt_insert (hr_id host) host ids,
             insert (hr_scope host, hp_alias (hr_payload host)) aliases)))))"

definition validate_hosts :: "'a record_ext_scheme \<Rightarrow> host_record list \<Rightarrow> record_validation_error + unit" where
  "validate_hosts X hosts =
     rbind (for_each (admit_host X) (bt_empty, {}) hosts) (\<lambda>(ids, aliases).
     for_all (\<lambda>host. rbind (chain_ids ids host) (\<lambda>_. Inr ())) hosts)"

definition resolve_alias :: "'a record_ext_scheme \<Rightarrow> host_record list \<Rightarrow> rstr
    \<Rightarrow> record_validation_error + host_record" where
  "resolve_alias X hosts alias =
     rbind (validate_hosts X hosts) (\<lambda>_.
     (case filter (\<lambda>h. hp_alias (hr_payload h) = alias) hosts of
        [] \<Rightarrow> Inl (VE_HostNotFound alias)
      | [first] \<Rightarrow> Inr first
      | _ \<Rightarrow> Inl (VE_AmbiguousAlias alias)))"

section \<open>Decoding\<close>

definition payload_schema :: "sync_record \<Rightarrow> rstr \<Rightarrow> u32 \<Rightarrow> record_validation_error + unit" where
  "payload_schema rec kind expected =
     rbind (ok_or (invalid (lit ''schema'') (r_id rec) (lit ''missing or invalid schema''))
              (Option.bind (get_u64 (r_payload rec) (lit ''schema'')) u32_try_from)) (\<lambda>found.
     schema kind found expected)"

definition decode_host :: "'a record_ext_scheme \<Rightarrow> sync_record \<Rightarrow> host_scope
    \<Rightarrow> record_validation_error + host_record typed_record" where
  "decode_host X rec scope =
     rbind (fail_if (r_kind rec \<noteq> RK_Host) (VE_WrongKind (lit ''host'') (as_str (r_kind rec)))) (\<lambda>_.
     rbind (fail_if (\<not> is_host_id (r_id rec))
              (invalid (lit ''id'') (r_id rec) (lit ''expected a host id''))) (\<lambda>_.
     if r_deleted rec then Inr (Tombstone (r_id rec))
     else
       let sch = (case get_u64 (r_payload rec) (lit ''schema'') of None \<Rightarrow> 0 | Some n \<Rightarrow> n) in
       rbind (fail_if (sch \<noteq> 2 \<and> sch \<noteq> 3)
                (VE_UnsupportedSchema (lit ''host'')
                   (case u32_try_from sch of None \<Rightarrow> u32_max | Some v \<Rightarrow> v))) (\<lambda>_.
       rbind (map_err (\<lambda>e. VE_Decode (lit ''host'') e) (x_host_from_value X (r_payload rec))) (\<lambda>payload.
       let host = \<lparr>hr_id = r_id rec, hr_scope = scope, hr_payload = payload\<rparr> in
       rbind (validate_host_shape X host) (\<lambda>_. Inr (Live host))))))"

definition decode_keyslot :: "'a record_ext_scheme \<Rightarrow> sync_record
    \<Rightarrow> record_validation_error + key_slot_payload typed_record" where
  "decode_keyslot X rec =
     rbind (fail_if (r_kind rec \<noteq> RK_KeySlot) (VE_WrongKind (lit ''keyslot'') (as_str (r_kind rec)))) (\<lambda>_.
     rbind (fail_if (\<not> is_slot_id (r_id rec))
              (invalid (lit ''id'') (r_id rec) (lit ''expected a keyslot id''))) (\<lambda>_.
     if r_deleted rec then Inr (Tombstone (r_id rec))
     else
       rbind (payload_schema rec (lit ''keyslot'') KEYSLOT_SCHEMA) (\<lambda>_.
       rbind (map_err (\<lambda>e. VE_Decode (lit ''keyslot'') e) (x_keyslot_from_value X (r_payload rec))) (\<lambda>slot.
       rbind (validate_keyslot X (r_id rec) slot) (\<lambda>_. Inr (Live slot))))))"

definition key_material_matches :: "'a record_ext_scheme \<Rightarrow> key_slot_payload \<Rightarrow> rstr \<Rightarrow> rstr
    \<Rightarrow> record_validation_error + unit" where
  "key_material_matches X slot local_public_key local_fingerprint =
     rbind (schema (lit ''keyslot'') (ks_schema slot) KEYSLOT_SCHEMA) (\<lambda>_.
     rbind (parse_public X (ks_public_key slot) (lit ''account keyslot'')) (\<lambda>authoritative.
     rbind (parse_public X local_public_key (lit ''local key'')) (\<lambda>local.
     fail_if (pk_key_data authoritative \<noteq> pk_key_data local
              \<or> pk_fingerprint authoritative \<noteq> ks_fingerprint slot
              \<or> pk_fingerprint authoritative \<noteq> local_fingerprint
              \<or> pk_algorithm authoritative \<noteq> ks_key_type slot)
       (VE_PublicKeyMismatch (lit ''account keyslot'')))))"

definition replace_host_payload :: "'a record_ext_scheme \<Rightarrow> host_record \<Rightarrow> host_payload
    \<Rightarrow> record_validation_error + host_record" where
  "replace_host_payload X host payload =
     (let payload' = (if hp_hostname (hr_payload host) \<noteq> hp_hostname payload
                         \<or> hp_port (hr_payload host) \<noteq> hp_port payload
                      then payload\<lparr>hp_host_key := None\<rparr> else payload);
          updated = host\<lparr>hr_payload := payload'\<rparr>
      in rbind (validate_host X updated) (\<lambda>_. Inr updated))"

definition validate_group :: "group_record \<Rightarrow> record_validation_error + unit" where
  "validate_group grp =
     (let p = gr_payload grp; i = gr_id grp; d = gp_defaults p in
      rbind (schema (lit ''group'') (gp_schema p) GROUP_SCHEMA) (\<lambda>_.
      rbind (fail_if (\<not> is_host_id i \<or> is_some_and (gp_parent_id p) (\<lambda>g. \<not> is_host_id g))
               (invalid (lit ''id'') i (lit ''expected group ids''))) (\<lambda>_.
      rbind (case gr_scope grp of
               HS_Space space_id \<Rightarrow>
                 fail_if (\<not> is_chain_id space_id) (invalid (lit ''scope'') i (lit ''invalid space id''))
             | HS_Local \<Rightarrow> Inr ()) (\<lambda>_.
      rbind (fail_if (trim (gp_name p) \<noteq> gp_name p \<or> gp_name p = [] \<or> length (gp_name p) > 128
                      \<or> list_ex is_control (gp_name p))
               (invalid (lit ''name'') i (lit ''expected a trimmed name of 1 to 128 characters''))) (\<lambda>_.
      rbind (fail_if (gd_port d = Some 0 \<or> gd_connect_timeout_secs d = Some 0
                      \<or> is_some_and (gd_user d) (list_ex (\<lambda>c. is_control c \<or> is_whitespace c)))
               (invalid (lit ''defaults'') i (lit ''invalid connection defaults''))) (\<lambda>_.
      rbind (fail_if (is_some_and (gd_authentication d) (\<lambda>auth.
                        (ga_auth auth = Auth_Key) \<noteq> (ga_key_id auth \<noteq> None)
                        \<or> is_some_and (ga_key_id auth) (\<lambda>k. \<not> is_slot_id k)))
               (invalid (lit ''authentication'') i
                  (lit ''authentication and key identity must be consistent''))) (\<lambda>_.
      fail_if (is_some_and (gd_jump d) (\<lambda>jumps.
                 length jumps > MAX_JUMPS \<or> list_ex (\<lambda>j. \<not> is_host_id j) jumps
                 \<or> card (set jumps) \<noteq> length jumps))
        (invalid (lit ''jump'') i (lit ''invalid jump defaults'')))))))))"

definition decode_group :: "'a record_ext_scheme \<Rightarrow> sync_record \<Rightarrow> host_scope
    \<Rightarrow> record_validation_error + group_record typed_record" where
  "decode_group X rec scope =
     rbind (fail_if (r_kind rec \<noteq> RK_Group) (VE_WrongKind (lit ''group'') (as_str (r_kind rec)))) (\<lambda>_.
     rbind (fail_if (\<not> is_host_id (r_id rec))
              (invalid (lit ''id'') (r_id rec) (lit ''expected a group id''))) (\<lambda>_.
     if r_deleted rec then Inr (Tombstone (r_id rec))
     else
       rbind (map_err (\<lambda>e. VE_Decode (lit ''group'') e) (x_group_from_value X (r_payload rec))) (\<lambda>payload.
       let grp = \<lparr>gr_id = r_id rec, gr_scope = scope, gr_payload = payload\<rparr> in
       rbind (validate_group grp) (\<lambda>_. Inr (Live grp)))))"

section \<open>Checks as predicates\<close>

text \<open>The conditions behind \<open>validate_host_shape\<close> and \<open>validate_host\<close>.\<close>

definition scope_ok :: "host_scope \<Rightarrow> bool" where
  "scope_ok scope = (case scope of HS_Local \<Rightarrow> True | HS_Space s \<Rightarrow> is_chain_id s)"

definition host_shape_ok :: "'a record_ext_scheme \<Rightarrow> host_record \<Rightarrow> bool" where
  "host_shape_ok X h \<longleftrightarrow>
     (let p = hr_payload h in
      (hp_schema p = HOST_SCHEMA \<and> hp_group_id p = None \<and> hp_inherit p = []
       \<or> hp_schema p = GROUPED_HOST_SCHEMA)
      \<and> (\<forall>g. hp_group_id p = Some g \<longrightarrow> is_host_id g) \<and> distinct (hp_inherit p)
      \<and> is_host_id (hr_id h) \<and> scope_ok (hr_scope h)
      \<and> hp_alias p \<noteq> [] \<and> \<not> starts_with (hp_alias p) (lit ''-'') \<and> list_all alias_char (hp_alias p)
      \<and> hp_hostname p \<noteq> [] \<and> \<not> list_ex (\<lambda>c. is_whitespace c \<or> is_control c) (hp_hostname p)
      \<and> hp_port p \<noteq> 0 \<and> \<not> list_ex (\<lambda>c. is_whitespace c \<or> is_control c) (hp_user p)
      \<and> hp_connect_timeout_secs p \<noteq> 0
      \<and> (hp_auth p = Auth_Key \<longrightarrow> hp_key_id p \<noteq> None)
      \<and> (\<forall>k. hp_key_id p = Some k \<longrightarrow> is_slot_id k) \<and> list_all is_host_id (hp_jump p)
      \<and> (\<forall>pin. hp_host_key p = Some pin \<longrightarrow> check_pin X (hr_id h) pin = Inr ()))"

lemma is_some_and_None: "\<not> is_some_and v (\<lambda>x. \<not> P x) \<longleftrightarrow> (\<forall>x. v = Some x \<longrightarrow> P x)"
  by (cases v) auto

lemma validate_host_shape_iff: "validate_host_shape X h = Inr () \<longleftrightarrow> host_shape_ok X h"
proof -
  have scope: "(case hr_scope h of HS_Local \<Rightarrow> Inr () | HS_Space s \<Rightarrow> fail_if (\<not> is_chain_id s) e) = Inr ()
      \<longleftrightarrow> scope_ok (hr_scope h)" for e :: record_validation_error
    by (simp add: scope_ok_def split: host_scope.splits)
  have pin: "(case v of None \<Rightarrow> Inr () | Some pin \<Rightarrow> check_pin X (hr_id h) pin) = Inr ()
      \<longleftrightarrow> (\<forall>pin. v = Some pin \<longrightarrow> check_pin X (hr_id h) pin = Inr ())" for v
    by (cases v) auto
  show ?thesis
    unfolding validate_host_shape_def host_shape_ok_def Let_def
    by (auto simp: scope pin distinct_card_len is_some_and_None list_all_iff schema_defs)
qed

lemma check_jumps_Inr:
  "for_each (check_jump h) seen js = Inr seen' \<longleftrightarrow>
     hr_id h \<notin> set js \<and> distinct js \<and> set js \<inter> seen = {} \<and> seen' = seen \<union> set js"
  by (induction js arbitrary: seen) (auto simp: check_jump_def)

lemma validate_host_iff:
  "validate_host X h = Inr () \<longleftrightarrow>
     host_shape_ok X h \<and> hr_id h \<notin> set (hp_jump (hr_payload h)) \<and> distinct (hp_jump (hr_payload h))
     \<and> length (hp_jump (hr_payload h)) \<le> MAX_JUMPS"
  by (auto simp: validate_host_def validate_host_shape_iff check_jumps_Inr)

text \<open>The \<open>expect\<close> of \<open>connection_readiness\<close> cannot fail.\<close>

lemma validated_key_reference:
  "validate_host X h = Inr () \<Longrightarrow> hp_auth (hr_payload h) = Auth_Key \<Longrightarrow> hp_key_id (hr_payload h) \<noteq> None"
  by (simp add: validate_host_iff host_shape_ok_def Let_def)

section \<open>Route lemmas\<close>

definition keyed :: "host_table \<Rightarrow> bool" where
  "keyed hosts \<longleftrightarrow> (\<forall>k h. bt_get hosts k = Some h \<longrightarrow> hr_id h = k)"

lemma add_hop_Inr:
  "add_hop h root out = Inr out' \<longleftrightarrow>
     hr_id h \<notin> set out \<and> length out \<le> MAX_JUMPS \<and> out' = out @ [hr_id h]"
  by (auto simp: add_hop_def Let_def)

lemma find_jump_Inr:
  "find_jump hosts cur root stack j = Inr h \<longleftrightarrow> bt_get hosts j = Some h \<and> j \<notin> set stack"
  by (auto simp: find_jump_def)

lemma add_hops_Inr:
  assumes "keyed hosts"
  shows "for_each (\<lambda>out j. rbind (find_jump hosts cur root stack j) (\<lambda>jump. add_hop jump root out)) out js
      = Inr out' \<longleftrightarrow>
    (\<forall>j \<in> set js. bt_get hosts j \<noteq> None \<and> j \<notin> set stack) \<and> distinct js \<and> set js \<inter> set out = {}
    \<and> (js \<noteq> [] \<longrightarrow> length out + length js \<le> MAX_JUMPS + 1) \<and> out' = out @ js"
proof (induction js arbitrary: out)
  case Nil
  then show ?case by auto
next
  case (Cons j js)
  show ?case
  proof (cases "bt_get hosts j")
    case None
    then show ?thesis by (simp add: find_jump_Inr)
  next
    case (Some h)
    with assms have "hr_id h = j" by (simp add: keyed_def)
    with Some have "for_each (\<lambda>out j. rbind (find_jump hosts cur root stack j) (\<lambda>jump. add_hop jump root out))
        out (j # js) = Inr out' \<longleftrightarrow>
      j \<notin> set stack \<and> j \<notin> set out \<and> length out \<le> MAX_JUMPS
      \<and> for_each (\<lambda>out j. rbind (find_jump hosts cur root stack j) (\<lambda>jump. add_hop jump root out))
          (out @ [j]) js = Inr out'"
      by (auto simp: find_jump_Inr add_hop_Inr)
    then show ?thesis
      unfolding Cons.IH using Some by auto
  qed
qed

lemma map_look_Some:
  "keyed hosts \<Longrightarrow> (\<exists>ms. map (bt_get hosts) js = map Some ms \<and> P ms) \<longleftrightarrow>
     (\<forall>j \<in> set js. bt_get hosts j \<noteq> None) \<and> P (map (\<lambda>j. the (bt_get hosts j)) js)"
proof -
  have *: "map (bt_get hosts) js = map Some ms \<longleftrightarrow>
    (\<forall>j \<in> set js. bt_get hosts j \<noteq> None) \<and> ms = map (\<lambda>j. the (bt_get hosts j)) js" for ms
  proof (induction js arbitrary: ms)
    case (Cons j js)
    then show ?case by (cases ms) auto
  qed auto
  show ?thesis by (auto simp: *)
qed

lemma keyed_ids: "keyed hosts \<Longrightarrow> \<forall>j \<in> set js. bt_get hosts j \<noteq> None \<Longrightarrow>
    map hr_id (map (\<lambda>j. the (bt_get hosts j)) js) = js"
  by (induction js) (auto simp: keyed_def)

interpretation hops: jump_route keyed hr_id "\<lambda>_ h. hp_jump (hr_payload h)" bt_get
  "\<lambda>hosts root current stack out. append_hops hosts current root stack out"
proof
  fix hosts :: host_table and root :: rstr and n :: host_record and stack out out' :: "rstr list"
  assume k: "keyed hosts"
  show "append_hops hosts n root stack out = Inr out' \<longleftrightarrow>
      hr_id n \<notin> set stack \<and> length stack \<le> MAX_JUMPS
      \<and> (\<exists>mid. (case hp_jump (hr_payload n) of
                  [] \<Rightarrow> mid = out
                | first # rest \<Rightarrow>
                    \<exists>m out1 ms. bt_get hosts first = Some m \<and> hr_id m \<notin> set (hr_id n # stack)
                      \<and> append_hops hosts m root (hr_id n # stack) out = Inr out1
                      \<and> map (bt_get hosts) rest = map Some ms
                      \<and> (\<forall>x \<in> set ms. hr_id x \<notin> set (hr_id n # stack)) \<and> distinct (map hr_id ms)
                      \<and> hr_id ` set ms \<inter> set out1 = {} \<and> mid = out1 @ map hr_id ms)
          \<and> hr_id n \<notin> set mid \<and> length mid \<le> MAX_JUMPS \<and> out' = mid @ [hr_id n])"
    (is "?lhs \<longleftrightarrow> ?rhs")
  proof (cases "hr_id n \<in> set stack \<or> MAX_JUMPS < length stack")
    case True
    then show ?thesis by (subst append_hops.simps) (auto simp: Let_def)
  next
    case False
    show ?thesis
    proof (cases "hp_jump (hr_payload n)")
      case Nil
      with False show ?thesis by (subst append_hops.simps) (auto simp: Let_def add_hop_Inr)
    next
      case (Cons first rest)
      let ?st = "hr_id n # stack"
      have rest: "for_each (\<lambda>out j. rbind (find_jump hosts n root ?st j) (\<lambda>jump. add_hop jump root out)) o1 rest
            = Inr mid \<and> length mid \<le> MAX_JUMPS \<longleftrightarrow>
          (\<exists>ms. map (bt_get hosts) rest = map Some ms \<and> (\<forall>x \<in> set ms. hr_id x \<notin> set ?st)
            \<and> distinct (map hr_id ms) \<and> hr_id ` set ms \<inter> set o1 = {} \<and> mid = o1 @ map hr_id ms)
          \<and> length mid \<le> MAX_JUMPS" for o1 mid
      proof (cases "\<forall>j \<in> set rest. bt_get hosts j \<noteq> None")
        case True
        note ids = keyed_ids [OF k True]
        have im: "hr_id ` set (map (\<lambda>j. the (bt_get hosts j)) rest) = set rest"
          by (subst set_map [symmetric]) (simp only: ids)
        have all: "(\<forall>x \<in> set (map (\<lambda>j. the (bt_get hosts j)) rest). hr_id x \<notin> set ?st)
            \<longleftrightarrow> (\<forall>j \<in> set rest. j \<notin> set ?st)"
          unfolding im [symmetric] by blast
        show ?thesis
          unfolding add_hops_Inr [OF k] map_look_Some [OF k] all im ids using True by auto
      next
        case False
        then show ?thesis
          unfolding add_hops_Inr [OF k] map_look_Some [OF k] by auto
      qed
      have "append_hops hosts n root stack out =
        rbind (rbind (find_jump hosts n root ?st first) (\<lambda>jump.
               rbind (append_hops hosts jump root ?st out) (\<lambda>out.
               for_each (\<lambda>out j. rbind (find_jump hosts n root ?st j) (\<lambda>jump. add_hop jump root out)) out rest)))
          (\<lambda>out. add_hop n root out)"
        using False by (subst append_hops.simps) (simp add: Let_def Cons)
      then have "?lhs \<longleftrightarrow> (\<exists>mid m o1. bt_get hosts first = Some m \<and> first \<notin> set ?st
          \<and> append_hops hosts m root ?st out = Inr o1
          \<and> (for_each (\<lambda>out j. rbind (find_jump hosts n root ?st j) (\<lambda>jump. add_hop jump root out)) o1 rest
               = Inr mid \<and> length mid \<le> MAX_JUMPS)
          \<and> hr_id n \<notin> set mid \<and> out' = mid @ [hr_id n])"
        by (simp only: rbind_Inr find_jump_Inr add_hop_Inr) blast
      moreover have "bt_get hosts first = Some m \<and> first \<notin> set ?st \<longleftrightarrow>
          bt_get hosts first = Some m \<and> hr_id m \<notin> set ?st" for m
        using k by (auto simp: keyed_def)
      moreover have "hr_id n \<notin> set stack" "length stack \<le> MAX_JUMPS"
        using False by simp_all
      ultimately show ?thesis
        unfolding rest Cons list.case by blast
    qed
  qed
qed

lemma chain_ids_hops: "chain_ids hosts target = append_hops hosts target (hr_id target) [] []"
  by (simp add: chain_ids_def)

lemma chain_ids_compose:
  assumes "keyed hosts" and "chain_ids hosts target = Inr r"
  shows "case hp_jump (hr_payload target) of
      [] \<Rightarrow> r = [hr_id target]
    | j # js \<Rightarrow> \<exists>h r0. bt_get hosts j = Some h \<and> chain_ids hosts h = Inr r0
        \<and> r = r0 @ js @ [hr_id target]"
proof (cases "hp_jump (hr_payload target)")
  case Nil
  with hops.expand_compose [OF assms(1) assms(2) [unfolded chain_ids_hops]] show ?thesis by simp
next
  case (Cons j js)
  with hops.expand_compose [OF assms(1) assms(2) [unfolded chain_ids_hops]] obtain m ms r0 where
    m: "bt_get hosts j = Some m" and ms: "map (bt_get hosts) js = map Some ms"
    and r0: "\<And>root'. append_hops hosts m root' [] [] = Inr r0" and r: "r = r0 @ map hr_id ms @ [hr_id target]"
    by auto
  from ms assms(1) have "map hr_id ms = js"
    by (induction js arbitrary: ms) (auto simp: keyed_def Cons_eq_map_conv)
  with m r0 r Cons show ?thesis by (simp add: chain_ids_hops)
qed

section \<open>Sets of hosts\<close>

definition host_table_of :: "host_record list \<Rightarrow> host_table" where
  "host_table_of hosts = foldl (\<lambda>m h. bt_insert (hr_id h) h m) bt_empty hosts"

definition scoped_alias :: "host_record \<Rightarrow> host_scope \<times> rstr" where
  "scoped_alias h = (hr_scope h, hp_alias (hr_payload h))"

lemma foldl_table_get:
  "distinct (map hr_id hosts) \<Longrightarrow>
     bt_get (foldl (\<lambda>m h. bt_insert (hr_id h) h m) m hosts) k
       = (case find (\<lambda>h. hr_id h = k) hosts of Some h \<Rightarrow> Some h | None \<Rightarrow> bt_get m k)"
proof (induction hosts arbitrary: m)
  case Nil
  then show ?case by simp
next
  case (Cons h hosts)
  have "find (\<lambda>h. hr_id h = k) hosts = None" if "hr_id h = k"
    unfolding find_None_iff using Cons.prems that by (auto simp: image_iff)
  with Cons show ?case by (auto split: option.splits)
qed

lemma host_table_get:
  assumes "distinct (map hr_id hosts)"
  shows "bt_get (host_table_of hosts) k = Some h \<longleftrightarrow> h \<in> set hosts \<and> hr_id h = k"
proof -
  have *: "find (\<lambda>h. hr_id h = k) hosts = Some h \<longleftrightarrow> h \<in> set hosts \<and> hr_id h = k"
    using assms by (induction hosts) auto
  show ?thesis
    using * foldl_table_get [OF assms, of bt_empty k] by (auto simp: host_table_of_def split: option.splits)
qed

lemma keyed_host_table: "distinct (map hr_id hosts) \<Longrightarrow> keyed (host_table_of hosts)"
  by (simp add: keyed_def host_table_get)

lemma admit_hosts_Inr:
  "for_each (admit_host X) (ids, aliases) hosts = Inr st \<longleftrightarrow>
     (\<forall>h \<in> set hosts. validate_host X h = Inr ()) \<and> distinct (map hr_id hosts)
     \<and> (\<forall>h \<in> set hosts. \<not> bt_contains ids (hr_id h))
     \<and> distinct (map scoped_alias hosts) \<and> (\<forall>h \<in> set hosts. scoped_alias h \<notin> aliases)
     \<and> st = (foldl (\<lambda>m h. bt_insert (hr_id h) h m) ids hosts, aliases \<union> scoped_alias ` set hosts)"
proof (induction hosts arbitrary: ids aliases)
  case Nil
  then show ?case by auto
next
  case (Cons h hosts)
  have "for_each (admit_host X) (ids, aliases) (h # hosts) = Inr st \<longleftrightarrow>
      validate_host X h = Inr () \<and> \<not> bt_contains ids (hr_id h) \<and> scoped_alias h \<notin> aliases
      \<and> for_each (admit_host X) (bt_insert (hr_id h) h ids, insert (scoped_alias h) aliases) hosts = Inr st"
    by (auto simp: admit_host_def scoped_alias_def)
  then show ?case
    unfolding Cons.IH by (auto simp: image_iff)
qed

lemma validate_hosts_Inr:
  "validate_hosts X hosts = Inr () \<longleftrightarrow>
     (\<forall>h \<in> set hosts. validate_host X h = Inr ()) \<and> distinct (map hr_id hosts)
     \<and> distinct (map scoped_alias hosts)
     \<and> (\<forall>h \<in> set hosts. \<exists>r. chain_ids (host_table_of hosts) h = Inr r)"
  by (auto simp: validate_hosts_def admit_hosts_Inr host_table_of_def bt_empty_def)

section \<open>A concrete instance\<close>

lemma hex_ids:
  "is_lower_hex c \<Longrightarrow> is_host_id (replicate 16 c)"
  "is_lower_hex c \<Longrightarrow> is_slot_id (replicate 32 c)"
  "is_lower_hex c \<Longrightarrow> is_chain_id (replicate 64 c)"
  by (simp_all add: is_host_id_def is_slot_id_def is_chain_id_def str_len_lower_hex list_all_iff)

definition sample_payload :: host_payload where
  "sample_payload =
     \<lparr>hp_schema = 2, hp_group_id = None, hp_inherit = [], hp_alias = lit ''a'', hp_hostname = lit ''h'',
      hp_port = 22, hp_user = [], hp_auth = Auth_Password, hp_key_id = None, hp_jump = [],
      hp_keepalive_secs = 30, hp_keepalive_max_missed = 3, hp_connect_timeout_secs = 15,
      hp_host_key = None, hp_tags = [], hp_notes = [], hp_imported = None\<rparr>"

definition sample_host :: host_record where
  "sample_host = \<lparr>hr_id = replicate 16 48, hr_scope = HS_Local, hr_payload = sample_payload\<rparr>"

definition sample_jump :: host_record where
  "sample_jump = \<lparr>hr_id = replicate 16 49, hr_scope = HS_Local,
     hr_payload = sample_payload\<lparr>hp_alias := lit ''b'', hp_jump := [replicate 16 48]\<rparr>\<rparr>"

text \<open>The text form of the sample keeps the alias and the schema of a host, the name of a group.\<close>

definition sample_rext :: record_ext where
  "sample_rext = crypto_ext.extend sample_ext (record_ext.fields
     (\<lambda>v. case get_str v (lit ''alias'') of
            Some a \<Rightarrow> if get_u64 v (lit ''schema'') = Some 2 then Inr (sample_payload\<lparr>hp_alias := a\<rparr>)
                        else Inl (lit ''schema'')
          | None \<Rightarrow> Inl (lit ''no alias''))
     (\<lambda>p. JObject [(lit ''alias'', JString (hp_alias p)),
                   (lit ''schema'', JNumber (PosInt (ucast (hp_schema p))))])
     (\<lambda>v. Inl []) (\<lambda>k. JNull)
     (\<lambda>v. case get_str v (lit ''name'') of
            Some n \<Rightarrow> Inr \<lparr>gp_schema = 1, gp_name = n, gp_parent_id = None,
              gp_defaults = \<lparr>gd_port = None, gd_user = None, gd_authentication = None, gd_jump = None,
                gd_keepalive_secs = None, gd_keepalive_max_missed = None,
                gd_connect_timeout_secs = None\<rparr>\<rparr>
          | None \<Rightarrow> Inl [])
     (\<lambda>g. JObject [(lit ''name'', JString (gp_name g))])
     (\<lambda>v. Inl []) (\<lambda>g. JNull) (\<lambda>v. Inl []) (\<lambda>v. Inl [])
     (\<lambda>l. Some \<lparr>pk_algorithm = lit ''ssh-ed25519'', pk_fingerprint = lit ''SHA256:a'', pk_key_data = [1]\<rparr>) (\<lambda>e. [])
     (\<lambda>gs hs. Some []))"

lemma sample_hosts_valid:
  "validate_host X sample_host = Inr ()" "validate_host X sample_jump = Inr ()"
  by (simp_all add: validate_host_iff host_shape_ok_def sample_host_def sample_jump_def sample_payload_def
      schema_defs hex_ids scope_ok_def alias_char_def starts_with_def
      MAX_JUMPS_def str_simps)

lemma sample_validate_hosts: "validate_hosts X [sample_host, sample_jump] = Inr ()"
proof -
  have "chain_ids (host_table_of [sample_host, sample_jump]) sample_host = Inr [hr_id sample_host]"
    by (simp add: chain_ids_def append_hops.simps sample_host_def sample_payload_def add_hop_def MAX_JUMPS_def)
  moreover have "chain_ids (host_table_of [sample_host, sample_jump]) sample_jump
      = Inr [hr_id sample_host, hr_id sample_jump]"
    by (simp add: chain_ids_def append_hops.simps host_table_of_def bt_empty_def find_jump_def bt_get_def
        sample_host_def sample_jump_def sample_payload_def add_hop_def MAX_JUMPS_def)
  moreover have "hr_id sample_host \<noteq> hr_id sample_jump" "scoped_alias sample_host \<noteq> scoped_alias sample_jump"
    by (simp_all add: sample_host_def sample_jump_def scoped_alias_def sample_payload_def)
  ultimately show ?thesis
    by (simp add: validate_hosts_Inr sample_hosts_valid)
qed

section \<open>Properties\<close>

text \<open>C40. A set of hosts passes validation exactly when every host is valid on its own, ids are
  unique, aliases are unique within their scope, and every host has a jump route.\<close>

theorem validate_hosts_exact:
  "(validate_hosts X hosts = Inr ()) =
     ((\<forall>h \<in> set hosts. validate_host X h = Inr ()) \<and> distinct (map hr_id hosts)
      \<and> distinct (map (\<lambda>h. (hr_scope h, hp_alias (hr_payload h))) hosts)
      \<and> (\<forall>h \<in> set hosts. is_ok (chain_ids (host_table_of hosts) h)))"
  by (simp add: validate_hosts_Inr scoped_alias_def [abs_def] is_ok_iff)

theorem validate_hosts_exact_witness:
  "is_ok (chain_ids (host_table_of [sample_host, sample_jump]) sample_jump)"
  using validate_hosts_exact [of sample_rext "[sample_host, sample_jump]"]
    sample_validate_hosts [of sample_rext] by simp

text \<open>The route of a host in a valid set is bounded by five jumps and the host itself, never
  visits a host twice, visits only hosts of the set, ends in the host, and is the route of its
  first jump followed by its other jumps: only the first jump's own route is inherited.\<close>

theorem chain_ids_route:
  assumes "validate_hosts X hosts = Inr ()" and "h \<in> set hosts"
  shows "\<exists>r. chain_ids (host_table_of hosts) h = Inr r
    \<and> distinct r \<and> length r \<le> 6 \<and> set r \<subseteq> hr_id ` set hosts \<and> last r = hr_id h
    \<and> (case hp_jump (hr_payload h) of
         [] \<Rightarrow> r = [hr_id h]
       | j # js \<Rightarrow> \<exists>first r0. first \<in> set hosts \<and> hr_id first = j
           \<and> chain_ids (host_table_of hosts) first = Inr r0 \<and> r = r0 @ js @ [hr_id h])"
proof -
  let ?t = "host_table_of hosts"
  from assms obtain r where d: "distinct (map hr_id hosts)" and r: "chain_ids ?t h = Inr r"
    by (auto simp: validate_hosts_Inr)
  note k = keyed_host_table [OF d]
  have "distinct r \<and> length r \<le> 6"
    using hops.expand_bounds [OF k r [unfolded chain_ids_hops]] by (simp add: MAX_JUMPS_def)
  moreover have "set r \<subseteq> hr_id ` set hosts"
    using hops.expand_known [OF k r [unfolded chain_ids_hops]] assms(2) host_table_get [OF d]
    by fastforce
  moreover from chain_ids_compose [OF k r] have "last r = hr_id h"
    by (auto split: list.splits)
  moreover from chain_ids_compose [OF k r] have "case hp_jump (hr_payload h) of
         [] \<Rightarrow> r = [hr_id h]
       | j # js \<Rightarrow> \<exists>first r0. first \<in> set hosts \<and> hr_id first = j
           \<and> chain_ids ?t first = Inr r0 \<and> r = r0 @ js @ [hr_id h]"
    by (simp add: host_table_get [OF d] conj_assoc split: list.splits)
  ultimately show ?thesis using r by blast
qed

theorem chain_ids_route_witness:
  "\<exists>r. chain_ids (host_table_of [sample_host, sample_jump]) sample_jump = Inr r
     \<and> distinct r \<and> length r \<le> 6 \<and> last r = hr_id sample_jump"
  using chain_ids_route [OF sample_validate_hosts [of sample_rext], of sample_jump] by auto

text \<open>An alias resolves to a host exactly when the set is valid and that host is the only one
  with the alias, over all scopes; with none or several the two errors say so.\<close>

theorem resolve_alias_exact:
  "(resolve_alias X hosts alias = Inr h) =
     (validate_hosts X hosts = Inr () \<and> h \<in> set hosts \<and> hp_alias (hr_payload h) = alias
      \<and> (\<forall>h' \<in> set hosts. hp_alias (hr_payload h') = alias \<longrightarrow> h' = h))"
proof (cases "validate_hosts X hosts = Inr ()")
  case True
  then have "distinct hosts"
    by (auto simp: validate_hosts_Inr distinct_map)
  let ?m = "filter (\<lambda>h. hp_alias (hr_payload h) = alias) hosts"
  have "distinct ?m" using \<open>distinct hosts\<close> by simp
  have "resolve_alias X hosts alias = Inr h \<longleftrightarrow> ?m = [h]"
    using True by (simp add: resolve_alias_def split: list.splits)
  also have "\<dots> \<longleftrightarrow> set ?m = {h}"
    using \<open>distinct ?m\<close> by (metis distinct_singleton list.simps(15) set_empty2 set_eq_iff_mset_eq_distinct
        mset_single_iff_right mset.simps)
  finally show ?thesis using True by auto
qed (auto simp: resolve_alias_def)

theorem resolve_alias_exact_witness:
  "resolve_alias sample_rext [sample_host, sample_jump] (lit ''b'') = Inr sample_jump"
  using resolve_alias_exact [of sample_rext "[sample_host, sample_jump]" "lit ''b''" sample_jump]
    sample_validate_hosts [of sample_rext]
  by (simp add: sample_host_def sample_jump_def sample_payload_def)

text \<open>Replacing the payload of a host keeps its id and scope, gives a valid host, and keeps a
  pinned host key only for an unchanged endpoint.\<close>

theorem replace_host_payload_pin:
  assumes "replace_host_payload X host payload = Inr updated"
  shows "hr_id updated = hr_id host \<and> hr_scope updated = hr_scope host
    \<and> validate_host X updated = Inr ()
    \<and> hr_payload updated = payload\<lparr>hp_host_key := hp_host_key (hr_payload updated)\<rparr>
    \<and> hp_host_key (hr_payload updated) =
        (if hp_hostname (hr_payload host) = hp_hostname payload
            \<and> hp_port (hr_payload host) = hp_port payload then hp_host_key payload else None)"
  using assms by (auto simp: replace_host_payload_def Let_def split: if_splits)

theorem replace_host_payload_pin_witness:
  "\<exists>u. replace_host_payload sample_rext sample_host (sample_payload\<lparr>hp_alias := lit ''b''\<rparr>) = Inr u
     \<and> hr_id u = hr_id sample_host"
proof -
  have "validate_host sample_rext (sample_host\<lparr>hr_payload := sample_payload\<lparr>hp_alias := lit ''b''\<rparr>\<rparr>) = Inr ()"
    by (simp add: validate_host_iff host_shape_ok_def sample_host_def sample_payload_def
      schema_defs hex_ids scope_ok_def alias_char_def starts_with_def
      MAX_JUMPS_def str_simps)
  then have "\<exists>u. replace_host_payload sample_rext sample_host (sample_payload\<lparr>hp_alias := lit ''b''\<rparr>) = Inr u"
    by (simp add: replace_host_payload_def Let_def) (simp add: sample_host_def sample_payload_def)
  with replace_host_payload_pin show ?thesis by blast
qed

end
