(* ===== verification/State_Gates.thy ===== *)
theory State_Gates
  imports Validate
begin

text \<open>
  The gates of the state (\<open>sync/records_v3/state.rs\<close>): when shared writes are blocked, the
  validation of migration markers, account metadata, cached rows and sealed rows. Then the shared
  foundations of the repository (\<open>sync/record_repository.rs\<close>): header and cache checks, revisions,
  the shadowing rule for unreadable winners, the scope gate, and \<open>ordered_record\<close>, which stamps
  every local edit. The lemmas show that a stamped edit beats everything it was derived from and
  that stamping fails only when a counter is exhausted.
\<close>

section \<open>Gates\<close>

definition validate_migration_gate :: "migration_gate \<Rightarrow> record_validation_error + unit" where
  "validate_migration_gate gate =
     rbind (fail_if (\<not> is_slot_id (mg_id gate))
              (VE_Invalid (lit ''migration_id'') (lit ''migration'')
                 (lit ''expected 32 lowercase hex characters''))) (\<lambda>_.
     fail_if (\<not> is_chain_id (mg_source_digest gate))
       (VE_Invalid (lit ''source_digest'') (lit ''migration'') (lit ''expected a SHA-256 digest'')))"

definition account_meta_key :: rstr where
  "account_meta_key = record_key RK_Meta ACCOUNT_META_ID"

definition account_migration_pending :: "'a record_ext_scheme \<Rightarrow> sync_state \<Rightarrow> bool" where
  "account_migration_pending X s \<longleftrightarrow>
     (if is_some_and (st_migration_gate s) (\<lambda>gate. mg_phase gate \<noteq> MP_Active) then True
      else is_some_and
             (opt_filter (\<lambda>v. \<not> is_null v)
               (Option.bind
                 (opt_filter (\<lambda>local. \<not> r_deleted (lr_record local))
                   (Option.bind (st_account s) (\<lambda>a. bt_get (acc_records a) account_meta_key)))
                 (\<lambda>local. jget (r_payload (lr_record local)) (lit ''migration''))))
             (\<lambda>v. case x_gate_from_value X v of Inl _ \<Rightarrow> True | Inr gate \<Rightarrow> mg_phase gate \<noteq> MP_Active))"

definition account_writes_blocked :: "'a record_ext_scheme \<Rightarrow> sync_state \<Rightarrow> bool" where
  "account_writes_blocked X s \<longleftrightarrow>
     st_pending_account s \<noteq> None
     \<or> st_shared_writes_blocked s
     \<or> account_migration_pending X s
     \<or> is_some_and (st_account s) (\<lambda>a.
         acc_frozen a \<noteq> None
         \<or> is_some_and (acc_remote_schema_version a) (\<lambda>version. version > ACCOUNT_SCHEMA))"

definition validate_cache_key :: "rstr \<Rightarrow> local_record \<Rightarrow> record_validation_error + unit" where
  "validate_cache_key key local =
     rbind (fail_if (is_secret (r_kind (lr_record local)))
              (VE_Invalid (lit ''records'') (as_str (r_kind (lr_record local)))
                 (lit ''secret records must remain sealed''))) (\<lambda>_.
     fail_if (key \<noteq> record_key (r_kind (lr_record local)) (r_id (lr_record local)))
       (VE_Invalid (lit ''record_key'') (r_id (lr_record local))
          (lit ''cache key does not match kind and id'')))"

text \<open>\<open>read_hosts\<close> of \<open>records_v3/state.rs\<close>: every row must decode.\<close>

definition check_host_rows :: "'a record_ext_scheme \<Rightarrow> (rstr, local_record) btm \<Rightarrow> host_scope
    \<Rightarrow> record_validation_error + unit" where
  "check_host_rows X records scope =
     for_all (\<lambda>(key, local).
       rbind (validate_cache_key key local) (\<lambda>_.
       if r_kind (lr_record local) = RK_Group
       then rbind (decode_group X (lr_record local) scope) (\<lambda>_. Inr ())
       else rbind (decode_host X (lr_record local) scope) (\<lambda>_. Inr ()))) records"

definition validate_sealed :: "(rstr, sealed_record) btm \<Rightarrow> bool \<Rightarrow> record_validation_error + unit" where
  "validate_sealed sealed account =
     for_all (\<lambda>(key, rec).
       rbind (case sr_public_identity rec of
                None \<Rightarrow> Inr ()
              | Some hint \<Rightarrow>
                  fail_if (\<not> is_valid_for hint (sr_envelope rec)
                           \<or> \<not> (if account
                                 then e_kind (sr_envelope rec) \<in> {lit ''keyslot'', lit ''meta''}
                                 else e_kind (sr_envelope rec) \<in> {lit ''host'', lit ''group''}))
                    (VE_Invalid (lit ''public_identity'') (lit ''sealed'')
                       (lit ''invalid public ordering evidence''))) (\<lambda>_.
       fail_if (key \<noteq> sealed_key (e_kind (sr_envelope rec)) (e_id_hash (sr_envelope rec)))
         (VE_Invalid (lit ''sealed_key'') (e_id_hash (sr_envelope rec))
            (lit ''cache key does not match envelope'')))) sealed"

definition account_meta :: "rstr \<Rightarrow> meta_payload" where
  "account_meta app_version =
     \<lparr>mt_schema_version = MIN_ACCOUNT_SCHEMA, mt_created_by_app_version = app_version\<rparr>"

definition validate_account_meta :: "meta_payload \<Rightarrow> record_validation_error + unit" where
  "validate_account_meta meta =
     fail_if (\<not> (MIN_ACCOUNT_SCHEMA \<le> mt_schema_version meta \<and> mt_schema_version meta \<le> ACCOUNT_SCHEMA))
       (VE_UnsupportedSchema (lit ''account'') (mt_schema_version meta))"

section \<open>Repository foundations\<close>

definition repo_invalid :: "rstr \<Rightarrow> rstr \<Rightarrow> rstr \<Rightarrow> repository_error" where
  "repo_invalid field i reason = RE_Validation (VE_Invalid field i reason)"

definition validate_header :: "sync_state \<Rightarrow> repository_error + unit" where
  "validate_header s =
     rbind (fail_if (st_version s \<notin> {STATE_VERSION, GROUP_STATE_VERSION, NAVIGATION_STATE_VERSION})
              (RE_Validation (VE_UnsupportedSchema (lit ''state'') (st_version s)))) (\<lambda>_.
     rbind (fail_if (\<not> is_slot_id (st_device_id s))
              (repo_invalid (lit ''device_id'') (st_device_id s) (lit ''expected a device id''))) (\<lambda>_.
     rbind (fail_if (st_account s = None \<and> st_spaces s \<noteq> [])
              (repo_invalid (lit ''spaces'') (lit ''state'') (lit ''spaces require an account''))) (\<lambda>_.
     rbind (fail_if (is_some_and (st_account s) (\<lambda>a. \<not> is_chain_id (acc_chain_id a)))
              (repo_invalid (lit ''chain_id'')
                 (case st_account s of None \<Rightarrow> [] | Some a \<Rightarrow> acc_chain_id a)
                 (lit ''expected an account chain id''))) (\<lambda>_.
     for_all (\<lambda>i. fail_if (\<not> is_chain_id i)
                    (repo_invalid (lit ''space_id'') i (lit ''expected a chain id'')))
       (bt_keys (st_spaces s))))))"

definition validate_cache :: "rstr \<Rightarrow> local_record \<Rightarrow> repository_error + unit" where
  "validate_cache key local =
     (let rec = lr_record local in
      rbind (fail_if (is_secret (r_kind rec))
               (repo_invalid (lit ''records'') (r_id rec) (lit ''secret records must remain sealed''))) (\<lambda>_.
      rbind (fail_if (key \<noteq> record_key (r_kind rec) (r_id rec))
               (repo_invalid (lit ''record_key'') (r_id rec)
                  (lit ''cache key does not match kind and id''))) (\<lambda>_.
      fail_if (r_version rec = 0 \<or> \<not> is_slot_id (r_device_id rec))
        (repo_invalid (lit ''revision'') (r_id rec) (lit ''invalid record ordering identity'')))))"

definition revision :: "sync_record \<Rightarrow> record_revision" where
  "revision rec =
     \<lparr>rv_version = r_version rec, rv_updated_at_ms = r_updated_at_ms rec, rv_device_id = r_device_id rec\<rparr>"

definition opaque_shadows :: "sealed_record \<Rightarrow> local_record option \<Rightarrow> record_kind \<Rightarrow> rstr \<Rightarrow> bool" where
  "opaque_shadows sealed local kind i =
     (case opt_filter (\<lambda>hint. is_valid_for hint (sr_envelope sealed) \<and> vp_id hint = i
                         \<and> e_kind (sr_envelope sealed) = as_str kind) (sr_public_identity sealed) of
        None \<Rightarrow> False
      | Some identity \<Rightarrow> merge local (header identity kind) \<noteq> KeepLocal)"

definition ensure_scope :: "'a record_ext_scheme \<Rightarrow> sync_state \<Rightarrow> host_scope \<Rightarrow> repository_error + unit" where
  "ensure_scope X s scope =
     (case scope of
        HS_Local \<Rightarrow> Inr ()
      | HS_Space space_id \<Rightarrow>
          rbind (ok_or (RE_SpaceUnavailable space_id) (st_account s)) (\<lambda>_.
          rbind (fail_if (account_writes_blocked X s) RE_ReadOnlyAccount) (\<lambda>_.
          rbind (ok_or (RE_SpaceUnavailable space_id) (bt_get (st_spaces s) space_id)) (\<lambda>space.
          fail_if (\<not> sp_selected space \<or> sp_missing space) (RE_SpaceUnavailable space_id)))))"

text \<open>\<open>Iterator::max\<close>.\<close>

fun iter_max :: "'a::linorder list \<Rightarrow> 'a option" where
  "iter_max [] = None"
| "iter_max (x # xs) = Some (foldl max x xs)"

definition ordered_record :: "sync_state \<Rightarrow> rstr \<Rightarrow> json \<Rightarrow> bool \<Rightarrow> u64 \<Rightarrow> sync_record list
    \<Rightarrow> repository_error + sync_record" where
  "ordered_record s i payload deleted now_ms previous =
     (let max_version = (case iter_max (map r_version previous) of None \<Rightarrow> 0 | Some v \<Rightarrow> v) in
      rbind (ok_or (RE_OrderingOverflow i) (checked_add max_version 1)) (\<lambda>version.
      rbind (case iter_max (map r_updated_at_ms previous) of
               Some p \<Rightarrow> if p \<ge> now_ms then ok_or (RE_OrderingOverflow i) (checked_add p 1)
                          else Inr now_ms
             | None \<Rightarrow> Inr now_ms) (\<lambda>updated_at_ms.
      Inr \<lparr>r_kind = RK_Host, r_id = i, r_version = version, r_updated_at_ms = updated_at_ms,
           r_device_id = st_device_id s, r_deleted = deleted, r_payload = payload\<rparr>)))"

definition cached :: "sync_record \<Rightarrow> u64 \<Rightarrow> host_scope \<Rightarrow> local_record" where
  "cached rec seq scope =
     \<lparr>lr_record = rec, lr_seq = seq, lr_dirty = (case scope of HS_Space _ \<Rightarrow> True | HS_Local \<Rightarrow> False)\<rparr>"

section \<open>Ordering of edits\<close>

lemma foldl_max_ge: "(x :: 'a::linorder) \<le> foldl max x xs" "\<forall>y \<in> set xs. y \<le> foldl max x xs"
proof (induction xs arbitrary: x)
  case (Cons a xs)
  {
    case 1
    show ?case using Cons(1) [of "max x a"] by simp
  next
    case 2
    show ?case using Cons(1) [of "max x a"] Cons(2) [of "max x a"] by auto
  }
qed simp_all

lemma foldl_max_in: "foldl max (x :: 'a::linorder) xs \<in> insert x (set xs)"
proof (induction xs arbitrary: x)
  case (Cons a xs)
  from Cons [of "max x a"] show ?case by (auto simp: max_def split: if_splits)
qed simp

lemma iter_max_Some: "iter_max xs = Some m \<Longrightarrow> m \<in> set xs \<and> (\<forall>x \<in> set xs. x \<le> m)"
  using foldl_max_ge foldl_max_in by (cases xs) fastforce+

lemma iter_max_None [simp]: "iter_max xs = None \<longleftrightarrow> xs = []"
  by (cases xs) auto

lemma ordered_record_Inr:
  assumes "ordered_record s i payload deleted now previous = Inr rec"
  shows "r_kind rec = RK_Host" "r_id rec = i" "r_device_id rec = st_device_id s"
    "r_deleted rec = deleted" "r_payload rec = payload" "now \<le> r_updated_at_ms rec"
    "0 < r_version rec"
    "\<forall>p \<in> set previous. r_version p < r_version rec \<and> r_updated_at_ms p < r_updated_at_ms rec"
proof -
  define mv where "mv = (case iter_max (map r_version previous) of None \<Rightarrow> 0 | Some v \<Rightarrow> v)"
  from assms obtain v t where
    v: "checked_add mv 1 = Some v"
    and t: "(case iter_max (map r_updated_at_ms previous) of
               Some p \<Rightarrow> if p \<ge> now then ok_or (RE_OrderingOverflow i) (checked_add p 1) else Inr now
             | None \<Rightarrow> Inr now) = Inr t"
    and rec: "rec = \<lparr>r_kind = RK_Host, r_id = i, r_version = v, r_updated_at_ms = t,
           r_device_id = st_device_id s, r_deleted = deleted, r_payload = payload\<rparr>"
    by (auto simp: ordered_record_def Let_def mv_def)
  show "r_kind rec = RK_Host" "r_id rec = i" "r_device_id rec = st_device_id s"
    "r_deleted rec = deleted" "r_payload rec = payload"
    by (simp_all add: rec)
  have mv: "mv < v" by (rule checked_add_one_gt [OF v])
  then show "0 < r_version rec" by (simp add: rec) (metis word_gt_0 word_not_simps(1))
  have tb: "now \<le> t \<and> (\<forall>p. iter_max (map r_updated_at_ms previous) = Some p \<longrightarrow> p < t)"
    using t by (auto split: option.splits if_splits dest: checked_add_one_gt)
  then show "now \<le> r_updated_at_ms rec" by (simp add: rec)
  have "r_version p \<le> mv" if "p \<in> set previous" for p
    using that iter_max_Some [of "map r_version previous"]
    by (auto simp: mv_def split: option.splits)
  moreover have "r_updated_at_ms p < t" if "p \<in> set previous" for p
    using that tb iter_max_Some [of "map r_updated_at_ms previous"]
    by (cases "iter_max (map r_updated_at_ms previous)") (fastforce intro: le_less_trans)+
  ultimately show "\<forall>p \<in> set previous. r_version p < r_version rec \<and> r_updated_at_ms p < r_updated_at_ms rec"
    using mv by (auto simp: rec intro: le_less_trans)
qed

lemma ordered_record_wins:
  "ordered_record s i payload deleted now previous = Inr rec \<Longrightarrow> p \<in> set previous \<Longrightarrow>
     remote_wins (rec\<lparr>r_kind := k\<rparr>) p \<and> \<not> remote_wins p (rec\<lparr>r_kind := k\<rparr>)"
  using ordered_record_Inr(8) [of s i payload deleted now previous rec]
  by (auto simp: remote_wins_iff)

text \<open>Stamping fails exactly when a version counter is exhausted or the clock must be overtaken at
  the end of time.\<close>

lemma ordered_record_Inl:
  "is_err (ordered_record s i payload deleted now previous) \<longleftrightarrow>
     (\<exists>p \<in> set previous. r_version p = u64_max) \<or> (\<exists>p \<in> set previous. r_updated_at_ms p = u64_max)"
proof -
  have top: "x \<le> u64_max" for x :: u64 by (simp add: u64_max_def)
  have ex: "(\<exists>p \<in> set previous. f p = u64_max) \<longleftrightarrow> iter_max (map f previous) = Some u64_max"
    for f :: "sync_record \<Rightarrow> u64"
  proof
    assume "\<exists>p \<in> set previous. f p = u64_max"
    then obtain p where p: "p \<in> set previous" "f p = u64_max" by blast
    then obtain m where "iter_max (map f previous) = Some m" by (cases "iter_max (map f previous)") auto
    with iter_max_Some [OF this] p top show "iter_max (map f previous) = Some u64_max"
      by (metis antisym image_eqI list.set_map)
  next
    assume "iter_max (map f previous) = Some u64_max"
    from iter_max_Some [OF this] have "u64_max \<in> f ` set previous" by simp
    then show "\<exists>p \<in> set previous. f p = u64_max" by (metis imageE)
  qed
  have zero: "(0 :: u64) \<noteq> u64_max" by (simp add: u64_max_def)
  have ov: "checked_add u64_max 1 = None" "checked_add 0 1 = Some 1"
    by (simp add: checked_add_one_None) (simp add: checked_add_def)
  show ?thesis
    unfolding ex
    using zero top
    by (cases "iter_max (map r_version previous)"; cases "iter_max (map r_updated_at_ms previous)")
      (auto simp: ordered_record_def Let_def is_err_def ok_or_def rbind_def ov
        dest: checked_add_one_None [THEN iffD1] split: option.splits)
qed

end
