(* ===== verification/Group_Tree.thy ===== *)
theory Group_Tree
  imports State_Gates
begin

text \<open>
  Groups and inheritance, the reading side of \<open>sync/record_groups.rs\<close>: looking up a group in its
  scope, the walk to the root (\<open>ancestor_path\<close>, at most 32 groups), the effective settings of a
  host (\<open>resolve_effective\<close>), flattening (\<open>materialize\<close>) and the list of groups. Indexing a map
  (\<open>m[k]\<close>) is \<open>bt_at\<close>; it panics on a missing key, and the lemmas show the key is there.
\<close>

definition bt_at :: "('k, 'v) btm \<Rightarrow> 'k \<Rightarrow> 'v" where
  "bt_at m k = the (bt_get m k)"

lemma bt_at_Some [simp]: "bt_get m k = Some v \<Longrightarrow> bt_at m k = v"
  by (simp add: bt_at_def)

definition group_records :: "sync_state \<Rightarrow> host_scope \<Rightarrow> repository_error + (rstr, local_record) btm" where
  "group_records s scope =
     (case scope of
        HS_Local \<Rightarrow> Inr (ls_groups (st_local s))
      | HS_Space space_id \<Rightarrow>
          ok_or (RE_SpaceUnavailable space_id)
            (map_option sp_records
              (opt_filter (\<lambda>sp. sp_selected sp \<and> \<not> sp_missing sp) (bt_get (st_spaces s) space_id))))"

definition set_group_records :: "sync_state \<Rightarrow> host_scope \<Rightarrow> ((rstr, local_record) btm \<Rightarrow> (rstr, local_record) btm)
    \<Rightarrow> sync_state" where
  "set_group_records s scope f =
     (case scope of
        HS_Local \<Rightarrow> s\<lparr>st_local := (st_local s)\<lparr>ls_groups := f (ls_groups (st_local s))\<rparr>\<rparr>
      | HS_Space space_id \<Rightarrow>
          s\<lparr>st_spaces := bt_modify space_id (\<lambda>sp. sp\<lparr>sp_records := f (sp_records sp)\<rparr>) (st_spaces s)\<rparr>)"

definition group_of :: "'a record_ext_scheme \<Rightarrow> sync_state \<Rightarrow> host_scope \<Rightarrow> rstr
    \<Rightarrow> repository_error + group_record" where
  "group_of X s scope i =
     rbind (group_records s scope) (\<lambda>rows.
     let local = bt_get rows (record_key RK_Group i) in
     rbind (case scope of
              HS_Space space_id \<Rightarrow>
                fail_if (list_ex (\<lambda>row. opaque_shadows row local RK_Group i)
                           (bt_values (sp_sealed (bt_at (st_spaces s) space_id))))
                  (RE_Group (lit ''group '' @ i @ lit '' has unsupported winning authority''))
            | HS_Local \<Rightarrow> Inr ()) (\<lambda>_.
     rbind (ok_or (RE_Group (lit ''group '' @ i @ lit '' does not exist in this scope'')) local) (\<lambda>local.
     rbind (validate_cache (record_key RK_Group i) local) (\<lambda>_.
     rbind (map_err RE_Validation (decode_group X (lr_record local) scope)) (\<lambda>typed.
     (case typed of
        Live g \<Rightarrow> Inr g
      | Tombstone _ \<Rightarrow> Inl (RE_Group (lit ''group '' @ i @ lit '' was deleted''))))))))"

text \<open>The loop of \<open>ancestor_path\<close>. The path grows by one from the empty path, so \<open>>= 32\<close> is the
  source's \<open>== 32\<close>.\<close>

function ancestor_walk :: "'a record_ext_scheme \<Rightarrow> sync_state \<Rightarrow> host_scope \<Rightarrow> rstr option
    \<Rightarrow> group_record list \<Rightarrow> rstr set \<Rightarrow> repository_error + group_record list" where
  "ancestor_walk X s scope cursor path seen =
     (case cursor of
        None \<Rightarrow> Inr path
      | Some i \<Rightarrow>
          if length path \<ge> 32 \<or> i \<in> seen
          then Inl (RE_Group (lit ''group '' @ i @ lit '' has a cycle or exceeds 32 ancestors''))
          else rbind (group_of X s scope i) (\<lambda>g.
                 ancestor_walk X s scope (gp_parent_id (gr_payload g)) (path @ [g]) (insert i seen)))"
  by pat_completeness auto
termination
  by (relation "measure (\<lambda>(X, s, scope, cursor, path, seen). 32 - length path)") auto

declare ancestor_walk.simps [simp del]

definition ancestor_path :: "'a record_ext_scheme \<Rightarrow> sync_state \<Rightarrow> host_scope \<Rightarrow> rstr option
    \<Rightarrow> repository_error + group_record list" where
  "ancestor_path X s scope i = ancestor_walk X s scope i [] {}"

fun find_map :: "('a \<Rightarrow> 'b option) \<Rightarrow> 'a list \<Rightarrow> 'b option" where
  "find_map f [] = None"
| "find_map f (x # xs) = (case f x of Some y \<Rightarrow> Some y | None \<Rightarrow> find_map f xs)"

text \<open>The macro \<open>inherit!\<close>: the nearest group that sets the field, or the default.\<close>

definition inherit :: "group_record list \<Rightarrow> (group_defaults \<Rightarrow> 'v option) \<Rightarrow> 'v \<Rightarrow> 'v \<times> rstr" where
  "inherit path sel dflt =
     (case find_map (\<lambda>g. map_option (\<lambda>v. (gr_id g, v)) (sel (gp_defaults (gr_payload g)))) path of
        Some (i, v) \<Rightarrow> (v, i)
      | None \<Rightarrow> (dflt, lit ''default''))"

definition inherit_field :: "group_record list \<Rightarrow> host_payload \<Rightarrow> inherited_field \<Rightarrow> host_payload \<times> rstr" where
  "inherit_field path p field =
     (case field of
        IF_Port \<Rightarrow> (case inherit path gd_port 22 of (v, from) \<Rightarrow> (p\<lparr>hp_port := v\<rparr>, from))
      | IF_User \<Rightarrow> (case inherit path gd_user [] of (v, from) \<Rightarrow> (p\<lparr>hp_user := v\<rparr>, from))
      | IF_Jump \<Rightarrow> (case inherit path gd_jump [] of (v, from) \<Rightarrow> (p\<lparr>hp_jump := v\<rparr>, from))
      | IF_KeepaliveSecs \<Rightarrow>
          (case inherit path gd_keepalive_secs 30 of (v, from) \<Rightarrow> (p\<lparr>hp_keepalive_secs := v\<rparr>, from))
      | IF_KeepaliveMaxMissed \<Rightarrow>
          (case inherit path gd_keepalive_max_missed 3 of (v, from) \<Rightarrow>
             (p\<lparr>hp_keepalive_max_missed := v\<rparr>, from))
      | IF_ConnectTimeoutSecs \<Rightarrow>
          (case inherit path gd_connect_timeout_secs 15 of (v, from) \<Rightarrow>
             (p\<lparr>hp_connect_timeout_secs := v\<rparr>, from))
      | IF_Authentication \<Rightarrow>
          (case inherit path gd_authentication \<lparr>ga_auth = Auth_Password, ga_key_id = None\<rparr> of
             (a, from) \<Rightarrow> (p\<lparr>hp_auth := ga_auth a, hp_key_id := ga_key_id a\<rparr>, from)))"

definition resolve_effective :: "'a record_ext_scheme \<Rightarrow> sync_state \<Rightarrow> host_record
    \<Rightarrow> repository_error + effective_host" where
  "resolve_effective X s host =
     rbind (ancestor_path X s (hr_scope host) (hp_group_id (hr_payload host))) (\<lambda>path.
     let (p, inherited_from) =
           foldl (\<lambda>(p, m) field. case inherit_field path p field of (p', from) \<Rightarrow>
                                    (p', bt_insert (inherited_str field) from m))
             (hr_payload host, bt_empty) (hp_inherit (hr_payload host))
     in rbind (map_err RE_Validation (validate_host X (host\<lparr>hr_payload := p\<rparr>))) (\<lambda>_.
        Inr \<lparr>ef_payload = p, ef_inherited_from = inherited_from\<rparr>))"

definition materialize :: "host_payload \<Rightarrow> host_payload" where
  "materialize p = p\<lparr>hp_group_id := None, hp_inherit := [], hp_schema := HOST_SCHEMA\<rparr>"

definition err_text :: "'a record_ext_scheme \<Rightarrow> repository_error + 'b \<Rightarrow> rstr option" where
  "err_text X r = (case r of Inl e \<Rightarrow> Some (x_error_text X e) | Inr _ \<Rightarrow> None)"

definition group_row_view :: "'a record_ext_scheme \<Rightarrow> sync_state \<Rightarrow> host_scope \<Rightarrow> group_view list
    \<Rightarrow> rstr \<times> local_record \<Rightarrow> repository_error + group_view list" where
  "group_row_view X s scope out kr =
     (case kr of (key, row) \<Rightarrow>
        rbind (validate_cache key row) (\<lambda>_.
        rbind (map_err RE_Validation (decode_group X (lr_record row) scope)) (\<lambda>typed.
        (case typed of
           Live g \<Rightarrow>
             Inr (out @ [\<lparr>gv_group = g, gv_revision = revision (lr_record row),
                          gv_group_error = err_text X (ancestor_path X s scope (Some (gr_id g)))\<rparr>])
         | Tombstone _ \<Rightarrow> Inr out))))"

definition group_scopes :: "sync_state \<Rightarrow> host_scope list" where
  "group_scopes s =
     HS_Local # map (\<lambda>(i, _). HS_Space i) (filter (\<lambda>(_, sp). sp_selected sp \<and> \<not> sp_missing sp) (st_spaces s))"

definition list_groups :: "'a record_ext_scheme \<Rightarrow> sync_state \<Rightarrow> repository_error + group_view list" where
  "list_groups X s =
     for_each (\<lambda>out scope.
       rbind (group_records s scope) (\<lambda>rows.
       for_each (group_row_view X s scope) out
         (filter (\<lambda>(_, r). r_kind (lr_record r) = RK_Group) rows))) [] (group_scopes s)"

definition account_group_enabled :: "sync_state \<Rightarrow> bool" where
  "account_group_enabled s \<longleftrightarrow>
     is_some_and (Option.bind (st_account s) (\<lambda>a. bt_get (acc_records a) account_meta_key)) (\<lambda>r.
       \<not> r_deleted (lr_record r)
       \<and> get_u64 (r_payload (lr_record r)) (lit ''schema_version'') = Some 4)"

definition require_host_format :: "sync_state \<Rightarrow> host_payload \<Rightarrow> host_scope \<Rightarrow> repository_error + unit" where
  "require_host_format s p scope =
     (if hp_schema p = GROUPED_HOST_SCHEMA then
        rbind (fail_if (st_version s < GROUP_STATE_VERSION) RE_UpgradeConfirmationRequired) (\<lambda>_.
        fail_if (scope \<noteq> HS_Local \<and> \<not> account_group_enabled s) RE_UpgradeConfirmationRequired)
      else Inr ())"

section \<open>Ancestors\<close>

lemma live_or_error [result_simps]:
  "(case t of Live g \<Rightarrow> Inr g | Tombstone x \<Rightarrow> Inl (e x)) = Inr g' \<longleftrightarrow> t = Live g'"
  by (cases t) auto

lemma group_of_id:
  assumes "group_of X s scope i = Inr g"
  shows "gr_id g = i" and "gr_scope g = scope" and "validate_group g = Inr ()"
proof -
  have d: "gr_id g = r_id rec \<and> gr_scope g = sc \<and> validate_group g = Inr ()"
    if "decode_group X rec sc = Inr (Live g)" for rec sc
    using that by (auto simp: decode_group_def Let_def split: if_splits)
  from assms obtain rows local where
    "bt_get rows (record_key RK_Group i) = Some local"
    "validate_cache (record_key RK_Group i) local = Inr ()"
    and dec: "decode_group X (lr_record local) scope = Inr (Live g)"
    by (auto simp: group_of_def Let_def live_or_error)
  then have "r_id (lr_record local) = i"
    by (auto simp: validate_cache_def Let_def)
  with d [OF dec] show "gr_id g = i" "gr_scope g = scope" "validate_group g = Inr ()" by auto
qed

text \<open>A path of groups from a start: each is the stored group of the pointer before it.\<close>

fun parent_chain :: "'a record_ext_scheme \<Rightarrow> sync_state \<Rightarrow> host_scope \<Rightarrow> rstr option \<Rightarrow> group_record list \<Rightarrow> bool" where
  "parent_chain X s scope cursor [] \<longleftrightarrow> cursor = None"
| "parent_chain X s scope cursor (g # gs) \<longleftrightarrow>
     cursor = Some (gr_id g) \<and> group_of X s scope (gr_id g) = Inr g
     \<and> parent_chain X s scope (gp_parent_id (gr_payload g)) gs"

lemma ancestor_walk_Inr:
  assumes "ancestor_walk X s scope cursor path seen = Inr out" and "length path \<le> 32"
    and "distinct (map gr_id path)" and "seen = gr_id ` set path"
  shows "\<exists>ext. out = path @ ext \<and> parent_chain X s scope cursor ext \<and> length out \<le> 32
    \<and> distinct (map gr_id out)"
  using assms
proof (induction X s scope cursor path seen rule: ancestor_walk.induct)
  case (1 X s scope cursor path seen)
  show ?case
  proof (cases cursor)
    case None
    with 1 show ?thesis by (subst (asm) ancestor_walk.simps) auto
  next
    case (Some i)
    from 1(2) obtain g where c: "\<not> (length path \<ge> 32 \<or> i \<in> seen)" and g: "group_of X s scope i = Inr g"
      and w: "ancestor_walk X s scope (gp_parent_id (gr_payload g)) (path @ [g]) (insert i seen) = Inr out"
      by (subst (asm) ancestor_walk.simps) (auto simp: Some split: if_splits)
    have gi: "gr_id g = i" by (rule group_of_id(1) [OF g])
    have "\<exists>ext. out = (path @ [g]) @ ext \<and> parent_chain X s scope (gp_parent_id (gr_payload g)) ext
      \<and> length out \<le> 32 \<and> distinct (map gr_id out)"
      by (rule 1(1) [OF Some c g w]) (use c gi 1 in auto)
    then obtain ext where "out = (path @ [g]) @ ext" "parent_chain X s scope (gp_parent_id (gr_payload g)) ext"
      "length out \<le> 32" "distinct (map gr_id out)"
      by blast
    then show ?thesis
      using Some gi g by (intro exI [of _ "g # ext"]) auto
  qed
qed

lemma ancestor_path_Inr:
  "ancestor_path X s scope i = Inr path \<Longrightarrow>
     parent_chain X s scope i path \<and> length path \<le> 32 \<and> distinct (map gr_id path)"
  using ancestor_walk_Inr [of X s scope i "[]" "{}"] by (auto simp: ancestor_path_def)

section \<open>Inheritance\<close>

text \<open>The nearest group that sets a value decides.\<close>

lemma find_map_Some:
  "find_map f xs = Some y \<Longrightarrow> \<exists>pre x post. xs = pre @ x # post \<and> f x = Some y \<and> (\<forall>z \<in> set pre. f z = None)"
proof (induction xs)
  case Nil
  then show ?case by simp
next
  case (Cons a xs)
  show ?case
  proof (cases "f a")
    case None
    with Cons obtain pre x post where "xs = pre @ x # post" "f x = Some y" "\<forall>z \<in> set pre. f z = None"
      by auto
    with None show ?thesis by (intro exI [of _ "a # pre"]) auto
  next
    case (Some b)
    with Cons.prems show ?thesis by (intro exI [of _ "[]"]) auto
  qed
qed

lemma find_map_None: "find_map f xs = None \<longleftrightarrow> (\<forall>x \<in> set xs. f x = None)"
  by (induction xs) (auto split: option.splits)

lemma inherit_field_untouched:
  assumes "inherit_field path p field = (p', from)"
  shows "hp_schema p' = hp_schema p" "hp_group_id p' = hp_group_id p" "hp_inherit p' = hp_inherit p"
    "hp_alias p' = hp_alias p" "hp_hostname p' = hp_hostname p" "hp_host_key p' = hp_host_key p"
    "hp_tags p' = hp_tags p" "hp_notes p' = hp_notes p" "hp_imported p' = hp_imported p"
  using assms by (cases field; auto simp: inherit_field_def split: prod.splits)+

lemma inherit_fold_untouched:
  assumes "foldl (\<lambda>(p, m) field. case inherit_field path p field of (p', from) \<Rightarrow>
      (p', bt_insert (inherited_str field) from m)) (p, m) fs = (p', m')"
  shows "hp_schema p' = hp_schema p \<and> hp_group_id p' = hp_group_id p \<and> hp_inherit p' = hp_inherit p
    \<and> hp_alias p' = hp_alias p \<and> hp_hostname p' = hp_hostname p \<and> hp_host_key p' = hp_host_key p
    \<and> hp_tags p' = hp_tags p \<and> hp_notes p' = hp_notes p \<and> hp_imported p' = hp_imported p"
  using assms
proof (induction fs arbitrary: p m)
  case Nil
  then show ?case by simp
next
  case (Cons f fs)
  obtain q src where q: "inherit_field path p f = (q, src)" by fastforce
  with Cons.IH [of q "bt_insert (inherited_str f) src m"] Cons.prems inherit_field_untouched [OF q]
  show ?case by simp
qed

lemma resolve_effective_Inr:
  assumes "resolve_effective X s host = Inr e"
  obtains path m where "ancestor_path X s (hr_scope host) (hp_group_id (hr_payload host)) = Inr path"
    and "foldl (\<lambda>(p, m) field. case inherit_field path p field of (p', from) \<Rightarrow>
        (p', bt_insert (inherited_str field) from m)) (hr_payload host, bt_empty)
        (hp_inherit (hr_payload host)) = (ef_payload e, m)"
    and "validate_host X (host\<lparr>hr_payload := ef_payload e\<rparr>) = Inr ()"
    and "ef_inherited_from e = m"
proof -
  from assms obtain path where
    path: "ancestor_path X s (hr_scope host) (hp_group_id (hr_payload host)) = Inr path"
    by (auto simp: resolve_effective_def)
  obtain p m where f: "foldl (\<lambda>(p, m) field. case inherit_field path p field of (p', from) \<Rightarrow>
        (p', bt_insert (inherited_str field) from m)) (hr_payload host, bt_empty)
        (hp_inherit (hr_payload host)) = (p, m)"
    by fastforce
  from assms path f have "validate_host X (host\<lparr>hr_payload := p\<rparr>) = Inr ()"
    "e = \<lparr>ef_payload = p, ef_inherited_from = m\<rparr>"
    by (auto simp: resolve_effective_def)
  with that [OF path, of m] f show thesis by simp
qed

lemma resolve_effective_untouched:
  assumes "resolve_effective X s host = Inr e"
  shows "hp_alias (ef_payload e) = hp_alias (hr_payload host)"
    "hp_hostname (ef_payload e) = hp_hostname (hr_payload host)"
    "hp_host_key (ef_payload e) = hp_host_key (hr_payload host)"
    "validate_host X (host\<lparr>hr_payload := ef_payload e\<rparr>) = Inr ()"
proof -
  from assms obtain path m where
    f: "foldl (\<lambda>(p, m) field. case inherit_field path p field of (p', from) \<Rightarrow>
        (p', bt_insert (inherited_str field) from m)) (hr_payload host, bt_empty)
        (hp_inherit (hr_payload host)) = (ef_payload e, m)"
    and v: "validate_host X (host\<lparr>hr_payload := ef_payload e\<rparr>) = Inr ()"
    by (rule resolve_effective_Inr)
  show "hp_alias (ef_payload e) = hp_alias (hr_payload host)"
    "hp_hostname (ef_payload e) = hp_hostname (hr_payload host)"
    "hp_host_key (ef_payload e) = hp_host_key (hr_payload host)"
    using inherit_fold_untouched [OF f] by simp_all
  show "validate_host X (host\<lparr>hr_payload := ef_payload e\<rparr>) = Inr ()" by (rule v)
qed

lemma resolve_effective_ungrouped:
  assumes "hp_group_id (hr_payload h) = None" and "hp_inherit (hr_payload h) = []"
  shows "resolve_effective X s h =
    rbind (map_err RE_Validation (validate_host X h)) (\<lambda>_.
      Inr \<lparr>ef_payload = hr_payload h, ef_inherited_from = bt_empty\<rparr>)"
  using assms by (simp add: resolve_effective_def ancestor_path_def ancestor_walk.simps)

end
