(* ===== verification/Group_Order.thy ===== *)
theory Group_Order
  imports Group_Tree
begin

text \<open>
  \<open>sync/group_order.rs\<close>: the order in which the groups are shown. It is kept in the local state or,
  with an account, in one account record that only newer clients can read; a sealed row this client
  cannot read may hold a newer order, and then the cached one is not edited.
\<close>

section \<open>Operations\<close>

definition MAX_GROUPS :: nat where
  "MAX_GROUPS = 4096"

definition valid_ids :: "rstr list \<Rightarrow> bool" where
  "valid_ids ids \<longleftrightarrow> length ids \<le> MAX_GROUPS \<and> list_all is_host_id ids \<and> card (set ids) = length ids"

definition decode_order :: "'a record_ext_scheme \<Rightarrow> sync_record \<Rightarrow> group_order option" where
  "decode_order X rec =
     (if r_kind rec \<noteq> RK_Meta \<or> r_id rec \<noteq> RECORD_ID \<or> r_version rec = 0 \<or> \<not> is_slot_id (r_device_id rec)
      then None
      else if r_deleted rec
      then (if is_null (r_payload rec) then Some \<lparr>go_schema = 1, go_ids = []\<rparr> else None)
      else
        (case x_order_from_value X (r_payload rec) of
           Inl _ \<Rightarrow> None
         | Inr payload \<Rightarrow> if go_schema payload = 1 \<and> valid_ids (go_ids payload) then Some payload else None))"

record order_view =
  ov_ids :: "rstr list"
  ov_revision :: "record_revision option"
  ov_blocked :: bool

definition order_key :: rstr where
  "order_key = record_key RK_Meta RECORD_ID"

definition has_navigation_data :: "sync_state \<Rightarrow> bool" where
  "has_navigation_data s \<longleftrightarrow>
     ls_group_order (st_local s) \<noteq> []
     \<or> is_some_and (st_account s) (\<lambda>account.
         bt_contains (acc_records account) order_key
         \<or> list_ex (\<lambda>row. e_kind (sr_envelope row) = lit ''meta''
                           \<and> is_some_and (sr_public_identity row) (\<lambda>hint. vp_id hint = RECORD_ID))
             (bt_values (acc_sealed account)))"

definition blocked_by_opaque :: "'a record_ext_scheme \<Rightarrow> sync_state \<Rightarrow> chain_keys option \<Rightarrow> bool" where
  "blocked_by_opaque X s keys =
     (case st_account s of
        None \<Rightarrow> False
      | Some account \<Rightarrow>
          (let opaque = filter (\<lambda>r. e_kind (sr_envelope r) = lit ''meta'' \<and> sr_public_identity r = None)
                          (bt_values (acc_sealed account)) in
           if opaque = [] then False
           else
             (case opt_filter (\<lambda>k. ck_chain_id k = acc_chain_id account) keys of
                None \<Rightarrow> True
              | Some k \<Rightarrow>
                  list_ex (\<lambda>r. e_id_hash (sr_envelope r) = id_hash X k (lit ''meta'') RECORD_ID) opaque)))"

definition order_shadowed :: "account_state \<Rightarrow> bool" where
  "order_shadowed account \<longleftrightarrow>
     list_ex (\<lambda>opaque. opaque_shadows opaque (bt_get (acc_records account) order_key) RK_Meta RECORD_ID)
       (bt_values (acc_sealed account))"

definition view_order :: "'a record_ext_scheme \<Rightarrow> sync_state \<Rightarrow> order_view" where
  "view_order X s =
     (case st_account s of
        None \<Rightarrow> \<lparr>ov_ids = ls_group_order (st_local s), ov_revision = None, ov_blocked = False\<rparr>
      | Some account \<Rightarrow>
          (let row = bt_get (acc_records account) order_key;
               shadowed = order_shadowed account in
           \<lparr>ov_ids = (if shadowed then []
                      else (case Option.bind row (\<lambda>r. decode_order X (lr_record r)) of
                              Some p \<Rightarrow> go_ids p
                            | None \<Rightarrow> ls_group_order (st_local s))),
            ov_revision = map_option (\<lambda>r. revision (lr_record r)) row,
            ov_blocked = shadowed \<or> account_writes_blocked X s\<rparr>))"

definition order_invalid :: "rstr \<Rightarrow> rstr \<Rightarrow> repository_error" where
  "order_invalid i reason = repo_invalid (lit ''group_order'') i reason"

definition set_order :: "'a record_ext_scheme \<Rightarrow> sync_state \<Rightarrow> rstr list \<Rightarrow> record_revision option \<Rightarrow> rstr list \<Rightarrow> u64
    \<Rightarrow> repository_error + sync_state" where
  "set_order X s expected_ids expected_revision ids now =
     (let current = view_order X s in
      rbind (fail_if (ov_blocked current) RE_ReadOnlyAccount) (\<lambda>_.
      rbind (fail_if (ov_ids current \<noteq> expected_ids \<or> ov_revision current \<noteq> expected_revision)
               (order_invalid RECORD_ID (lit ''Group order changed; refresh and try again.''))) (\<lambda>_.
      rbind (fail_if (\<not> valid_ids ids)
               (order_invalid RECORD_ID (lit ''Invalid or duplicate group identities.''))) (\<lambda>_.
      rbind (list_groups X s) (\<lambda>groups.
      rbind (for_all (\<lambda>i. fail_if (i \<notin> set (ov_ids current) \<and> \<not> list_ex (\<lambda>g. gr_id (gv_group g) = i) groups)
                             (order_invalid i (lit ''Group is no longer available.''))) ids) (\<lambda>_.
      if ids = ov_ids current then Inr s
      else
        let next_state = s\<lparr>st_version := max (st_version s) NAVIGATION_STATE_VERSION\<rparr> in
        (case st_account s of
           Some account \<Rightarrow>
             (let previous = bt_get (acc_records account) order_key in
              rbind (ordered_record s RECORD_ID (x_order_to_value X \<lparr>go_schema = 1, go_ids = ids\<rparr>) False now
                       (case previous of None \<Rightarrow> [] | Some r \<Rightarrow> [lr_record r])) (\<lambda>rec.
              Inr (next_state\<lparr>st_account := Some (account\<lparr>acc_records :=
                     bt_insert order_key
                       \<lparr>lr_record = rec\<lparr>r_kind := RK_Meta\<rparr>,
                        lr_seq = (case previous of None \<Rightarrow> 0 | Some r \<Rightarrow> lr_seq r), lr_dirty = True\<rparr>
                       (acc_records account)\<rparr>)\<rparr>)))
         | None \<Rightarrow> Inr (next_state\<lparr>st_local := (st_local next_state)\<lparr>ls_group_order := ids\<rparr>\<rparr>))))))))"

definition publish_local :: "'a record_ext_scheme \<Rightarrow> sync_state \<Rightarrow> chain_keys option \<Rightarrow> u64
    \<Rightarrow> repository_error + sync_state" where
  "publish_local X s keys now =
     (case st_account s of
        None \<Rightarrow> Inr s
      | Some account \<Rightarrow>
          if ls_group_order (st_local s) = [] \<or> bt_contains (acc_records account) order_key then Inr s
          else
            rbind (fail_if (blocked_by_opaque X s keys) RE_ReadOnlyAccount) (\<lambda>_.
            rbind (fail_if (list_ex (\<lambda>opaque. opaque_shadows opaque None RK_Meta RECORD_ID)
                              (bt_values (acc_sealed account))) RE_ReadOnlyAccount) (\<lambda>_.
            rbind (ordered_record s RECORD_ID
                     (x_order_to_value X \<lparr>go_schema = 1, go_ids = ls_group_order (st_local s)\<rparr>) False now []) (\<lambda>rec.
            Inr (s\<lparr>st_account := Some (account\<lparr>acc_records :=
                   bt_insert order_key
                     \<lparr>lr_record = rec\<lparr>r_kind := RK_Meta\<rparr>, lr_seq = 0, lr_dirty = True\<rparr>
                     (acc_records account)\<rparr>)\<rparr>)))))"

section \<open>Lemmas\<close>

text \<open>A winning replacement of the row cannot be shadowed by anything the old row was not shadowed by.\<close>

lemma shadow_wins:
  assumes "\<not> opaque_shadows sealed local kind i"
    and "case local of None \<Rightarrow> True | Some l \<Rightarrow> remote_wins rec (lr_record l)"
  shows "\<not> opaque_shadows sealed (Some \<lparr>lr_record = rec, lr_seq = q, lr_dirty = d\<rparr>) kind i"
proof (cases local)
  case None
  with assms show ?thesis by (auto simp: opaque_shadows_def split: option.splits)
next
  case (Some l)
  have "\<not> remote_wins h rec" if "\<not> remote_wins h (lr_record l)" for h
    using wins.negtrans [OF that wins.asym] assms(2) Some by simp
  with Some assms show ?thesis by (auto simp: opaque_shadows_def merge_not_keep split: option.splits)
qed

lemma set_order_Inr:
  assumes "set_order X s ids0 rv ids now = Inr s'"
  obtains (same) "s' = s" "ids = ov_ids (view_order X s)"
    | (local) "st_account s = None" "s' = s\<lparr>st_version := max (st_version s) NAVIGATION_STATE_VERSION,
        st_local := (st_local s)\<lparr>ls_group_order := ids\<rparr>\<rparr>"
    | (shared) account rec where "st_account s = Some account" "\<not> order_shadowed account"
      "\<not> account_writes_blocked X s" "valid_ids ids"
      "ordered_record s RECORD_ID (x_order_to_value X \<lparr>go_schema = 1, go_ids = ids\<rparr>) False now
         (case bt_get (acc_records account) order_key of None \<Rightarrow> [] | Some r \<Rightarrow> [lr_record r]) = Inr rec"
      "s' = s\<lparr>st_version := max (st_version s) NAVIGATION_STATE_VERSION,
        st_account := Some (account\<lparr>acc_records := bt_insert order_key
          \<lparr>lr_record = rec\<lparr>r_kind := RK_Meta\<rparr>,
           lr_seq = (case bt_get (acc_records account) order_key of None \<Rightarrow> 0 | Some r \<Rightarrow> lr_seq r), lr_dirty = True\<rparr>
          (acc_records account)\<rparr>)\<rparr>"
proof (cases "ids = ov_ids (view_order X s)")
  case True
  with assms show thesis by (intro same) (auto simp: set_order_def Let_def)
next
  case False
  show thesis
  proof (cases "st_account s")
    case None
    with False assms show thesis by (intro local) (auto simp: set_order_def Let_def)
  next
    case (Some account)
    have b: "\<not> ov_blocked (view_order X s)" "valid_ids ids" using assms by (auto simp: set_order_def Let_def)
    then have "\<not> order_shadowed account" "\<not> account_writes_blocked X s"
      by (auto simp: view_order_def Some Let_def)
    moreover from assms False Some obtain rec where
      "ordered_record s RECORD_ID (x_order_to_value X \<lparr>go_schema = 1, go_ids = ids\<rparr>) False now
         (case bt_get (acc_records account) order_key of None \<Rightarrow> [] | Some r \<Rightarrow> [lr_record r]) = Inr rec"
      "s' = s\<lparr>st_version := max (st_version s) NAVIGATION_STATE_VERSION,
        st_account := Some (account\<lparr>acc_records := bt_insert order_key
          \<lparr>lr_record = rec\<lparr>r_kind := RK_Meta\<rparr>,
           lr_seq = (case bt_get (acc_records account) order_key of None \<Rightarrow> 0 | Some r \<Rightarrow> lr_seq r), lr_dirty = True\<rparr>
          (acc_records account)\<rparr>)\<rparr>"
      by (auto simp: set_order_def Let_def)
    ultimately show thesis using shared Some b(2) by blast
  qed
qed

text \<open>Setting the group order is a compare-and-set whose result is visible: it is refused unless the
  caller saw the current order and revision and writes are open, and afterwards the view shows
  exactly the new order, also over account rows this client cannot read.\<close>

theorem set_order_then_view:
  assumes "set_order X s ids0 rv ids now = Inr s'" and "is_slot_id (st_device_id s)"
    and "x_order_from_value X (x_order_to_value X \<lparr>go_schema = 1, go_ids = ids\<rparr>)
      = Inr \<lparr>go_schema = 1, go_ids = ids\<rparr>"
  shows "ov_ids (view_order X s') = ids \<and> ov_ids (view_order X s) = ids0 \<and> ov_revision (view_order X s) = rv
    \<and> \<not> ov_blocked (view_order X s) \<and> valid_ids ids"
proof -
  have pre: "ov_ids (view_order X s) = ids0 \<and> ov_revision (view_order X s) = rv
    \<and> \<not> ov_blocked (view_order X s) \<and> valid_ids ids"
    using assms(1) by (auto simp: set_order_def Let_def)
  from assms(1) have "ov_ids (view_order X s') = ids"
  proof (cases rule: set_order_Inr)
    case same
    then show ?thesis by simp
  next
    case local
    then show ?thesis by (simp add: view_order_def)
  next
    case (shared account rec)
    note r = ordered_record_Inr [OF shared(5)]
    have wins: "case bt_get (acc_records account) order_key of None \<Rightarrow> True
        | Some l \<Rightarrow> remote_wins (rec\<lparr>r_kind := RK_Meta\<rparr>) (lr_record l)"
      using r(8) by (auto simp: remote_wins_iff split: option.splits)
    have "\<not> order_shadowed (account\<lparr>acc_records := bt_insert order_key
          \<lparr>lr_record = rec\<lparr>r_kind := RK_Meta\<rparr>,
           lr_seq = (case bt_get (acc_records account) order_key of None \<Rightarrow> 0 | Some r \<Rightarrow> lr_seq r), lr_dirty = True\<rparr>
          (acc_records account)\<rparr>)"
      using shared(2) shadow_wins [OF _ wins] by (auto simp: order_shadowed_def list_ex_iff)
    moreover have "decode_order X (rec\<lparr>r_kind := RK_Meta\<rparr>) = Some \<lparr>go_schema = 1, go_ids = ids\<rparr>"
      using r(2-7) assms(2,3) shared(4) by (auto simp: decode_order_def)
    ultimately show ?thesis by (simp add: shared(6) view_order_def Let_def)
  qed
  with pre show ?thesis by simp
qed

text \<open>Publishing the local order after joining an account happens at most once: it leaves hosts,
  groups and spaces alone, the published row makes every later call a no-op, and it is refused
  while a sealed row might hold an order.\<close>

theorem publish_local_once:
  assumes "publish_local X s keys now = Inr s'"
  shows "st_local s' = st_local s \<and> st_spaces s' = st_spaces s \<and> publish_local X s' keys' now' = Inr s'
    \<and> (s' \<noteq> s \<longrightarrow> \<not> blocked_by_opaque X s keys)"
proof (cases "st_account s")
  case None
  with assms show ?thesis by (auto simp: publish_local_def)
next
  case (Some account)
  show ?thesis
  proof (cases "ls_group_order (st_local s) = [] \<or> bt_contains (acc_records account) order_key")
    case True
    with assms Some show ?thesis by (auto simp: publish_local_def)
  next
    case False
    with assms Some obtain row :: local_record where
      "s' = s\<lparr>st_account := Some (account\<lparr>acc_records := bt_insert order_key row (acc_records account)\<rparr>)\<rparr>"
      "\<not> blocked_by_opaque X s keys"
      by (auto simp: publish_local_def)
    then show ?thesis by (simp add: publish_local_def)
  qed
qed

text \<open>An account without records, and the order of one group.\<close>

definition order_state :: sync_state where
  "order_state =
     \<lparr>st_version = 5, st_device_id = replicate 32 48, st_device_name = [], st_relay_url = [],
      st_account = Some (account_new (replicate 64 48)), st_spaces = [],
      st_local = \<lparr>ls_group_order = [replicate 16 49], ls_groups = [], ls_hosts = [], ls_keys = [], ls_import_receipts = []\<rparr>,
      st_rotation = None, st_relay_features = None, st_legacy_v1_backup = None,
      st_phrase_cleanup_pending = False, st_migration_gate = None, st_shared_writes_blocked = False,
      st_pending_account = None, st_notices = [], st_last_sync_ms = None, st_last_error = None\<rparr>"

definition order_rext :: record_ext where
  "order_rext = sample_rext\<lparr>x_order_from_value := (\<lambda>v. Inr \<lparr>go_schema = 1, go_ids = []\<rparr>)\<rparr>"

lemma order_state_view:
  "view_order order_rext order_state = \<lparr>ov_ids = [replicate 16 49], ov_revision = None, ov_blocked = False\<rparr>"
  by (simp add: view_order_def order_state_def account_new_def order_shadowed_def bt_empty_def bt_values_def
      account_writes_blocked_def account_migration_pending_def)

lemma order_groups: "list_groups order_rext order_state = Inr []"
  by (simp add: list_groups_def group_scopes_def group_records_def order_state_def)

theorem set_order_then_view_witness:
  "\<exists>s'. set_order order_rext order_state [replicate 16 49] None [] 7 = Inr s' \<and> ov_ids (view_order order_rext s') = []"
proof -
  have "\<exists>s'. set_order order_rext order_state [replicate 16 49] None [] 7 = Inr s'"
    by (simp add: set_order_def order_state_view order_groups valid_ids_def)
      (simp add: order_state_def ordered_record_def checked_add_def account_new_def bt_empty_def)
  then obtain s' where s': "set_order order_rext order_state [replicate 16 49] None [] 7 = Inr s'" ..
  have "is_slot_id (st_device_id order_state)" by (simp add: order_state_def hex_ids str_simps)
  with set_order_then_view [OF s'] s' show ?thesis by (simp add: order_rext_def)
qed

theorem publish_local_once_witness:
  "\<exists>s'. publish_local order_rext order_state None 7 = Inr s' \<and> publish_local order_rext s' None 9 = Inr s'"
proof -
  have "\<exists>s'. publish_local order_rext order_state None 7 = Inr s'"
    by (simp add: publish_local_def blocked_by_opaque_def order_state_def account_new_def bt_empty_def bt_values_def
        ordered_record_def checked_add_def)
  then obtain s' where s': "publish_local order_rext order_state None 7 = Inr s'" ..
  with publish_local_once [OF s'] show ?thesis by simp
qed

end
