(* ===== verification/Record_Repository.thy ===== *)
theory Record_Repository
  imports Group_Tree
begin

text \<open>
  The host and key repository (\<open>sync/record_repository.rs\<close>): snapshots with readiness, routes over
  a snapshot, key metadata, and the edits of hosts and keys. Every operation takes the state and
  returns the next state or an error; the caller persists a returned state. A \<open>next\<close> state differs
  from the old one only in the rows that an operation names, which the frame lemmas state.
\<close>

section \<open>Reading hosts\<close>

definition host_row_view :: "'a record_ext_scheme \<Rightarrow> host_scope \<Rightarrow> (rstr, sealed_record) btm option
    \<Rightarrow> host_view list \<Rightarrow> rstr \<times> local_record \<Rightarrow> repository_error + host_view list" where
  "host_row_view X scope sealed out kr =
     (case kr of (key, local) \<Rightarrow>
        rbind (validate_cache key local) (\<lambda>_.
        if r_kind (lr_record local) = RK_Group then Inr out
        else
          rbind (map_err RE_Validation (decode_host X (lr_record local) scope)) (\<lambda>typed.
          (case typed of
             Live host \<Rightarrow>
               Inr (out @ [\<lparr>hv_host = host, hv_effective_payload = hr_payload host,
                            hv_inherited_from = bt_empty, hv_group_error = None,
                            hv_revision = revision (lr_record local),
                            hv_readiness =
                              (if is_some_and sealed (\<lambda>rows. list_ex (\<lambda>row.
                                    opaque_shadows row (Some local) RK_Host (r_id (lr_record local)))
                                    (bt_values rows))
                               then HR_NeedsReview else HR_Ready)\<rparr>])
           | Tombstone _ \<Rightarrow> Inr out))))"

definition read_hosts :: "'a record_ext_scheme \<Rightarrow> (rstr, local_record) btm \<Rightarrow> host_scope
    \<Rightarrow> (rstr, sealed_record) btm option \<Rightarrow> host_view list \<Rightarrow> repository_error + host_view list" where
  "read_hosts X records scope sealed out = for_each (host_row_view X scope sealed) out records"

definition duplicate_id :: "host_view list \<Rightarrow> rstr \<Rightarrow> bool" where
  "duplicate_id hosts i \<longleftrightarrow> length (filter (\<lambda>view. hr_id (hv_host view) = i) hosts) > 1"

definition alias_conflict :: "host_view list \<Rightarrow> host_record \<Rightarrow> bool" where
  "alias_conflict hosts host \<longleftrightarrow>
     length (filter (\<lambda>view. hr_scope (hv_host view) = hr_scope host
                       \<and> hp_alias (hr_payload (hv_host view)) = hp_alias (hr_payload host)) hosts) > 1"

definition host_index :: "host_view list \<Rightarrow> rstr \<Rightarrow> record_validation_error + nat" where
  "host_index hosts i =
     (case filter (\<lambda>n. hr_id (hv_host (hosts ! n)) = i) [0..<length hosts] of
        [] \<Rightarrow> Inl (VE_HostNotFound i)
      | [first] \<Rightarrow> Inr first
      | _ \<Rightarrow> Inl (VE_DuplicateId i))"

section \<open>Routes over a snapshot\<close>

definition add_index :: "host_view list \<Rightarrow> nat \<Rightarrow> rstr \<Rightarrow> nat list \<Rightarrow> record_validation_error + nat list" where
  "add_index hosts index root out =
     rbind (fail_if (index \<in> set out) (VE_RepeatedJump root (hr_id (hv_host (hosts ! index))))) (\<lambda>_.
     let out = out @ [index] in
     rbind (fail_if (length out > MAX_JUMPS + 1) (VE_JumpDepth root)) (\<lambda>_. Inr out))"

definition find_index :: "host_view list \<Rightarrow> nat \<Rightarrow> rstr \<Rightarrow> nat list \<Rightarrow> rstr
    \<Rightarrow> record_validation_error + nat" where
  "find_index hosts index root stack j =
     rbind (case host_index hosts j of
              Inl (VE_HostNotFound _) \<Rightarrow> Inl (VE_MissingJump (hr_id (hv_host (hosts ! index))) j)
            | other \<Rightarrow> other) (\<lambda>jump.
     rbind (fail_if (jump \<in> set stack) (VE_JumpCycle root)) (\<lambda>_. Inr jump))"

function append_indices :: "host_view list \<Rightarrow> nat \<Rightarrow> rstr \<Rightarrow> nat list \<Rightarrow> nat list
    \<Rightarrow> record_validation_error + nat list" where
  "append_indices hosts index root stack out =
     (if index \<in> set stack then Inl (VE_JumpCycle root)
      else
        let stack' = index # stack in
        if length stack' > MAX_JUMPS + 1 then Inl (VE_JumpDepth root)
        else
          rbind (case hp_jump (hv_effective_payload (hosts ! index)) of
                   [] \<Rightarrow> Inr out
                 | first # rest \<Rightarrow>
                     rbind (find_index hosts index root stack' first) (\<lambda>jump.
                     rbind (append_indices hosts jump root stack' out) (\<lambda>out.
                     for_each (\<lambda>out j. rbind (find_index hosts index root stack' j) (\<lambda>jump.
                                       add_index hosts jump root out)) out rest)))
            (\<lambda>out. add_index hosts index root out))"
  by pat_completeness auto
termination
  by (relation "measure (\<lambda>(hosts, index, root, stack, out). MAX_JUMPS + 2 - length stack)") auto

declare append_indices.simps [simp del]

definition route_indices :: "host_view list \<Rightarrow> rstr \<Rightarrow> record_validation_error + nat list" where
  "route_indices hosts i =
     rbind (host_index hosts i) (\<lambda>index. append_indices hosts index i [] [])"

section \<open>Keys\<close>

definition local_key_view :: "'a record_ext_scheme \<Rightarrow> (rstr, key_view) btm \<Rightarrow> rstr \<times> local_key_metadata
    \<Rightarrow> repository_error + (rstr, key_view) btm" where
  "local_key_view X keys kv =
     (case kv of (i, local) \<Rightarrow>
        rbind (map_err RE_Validation (validate_keyslot X i (lk_public local))) (\<lambda>_.
        rbind (fail_if (\<not> is_slot_id (lk_vault_id local))
                 (repo_invalid (lit ''vault_id'') i (lit ''expected a vault id''))) (\<lambda>_.
        Inr (bt_insert i \<lparr>kv_id = i, kv_authority = KA_Local, kv_public = Some (lk_public local),
                          kv_vault_id = Some (lk_vault_id local), kv_status = KS_Available\<rparr> keys))))"

definition live_key_view :: "'a record_ext_scheme \<Rightarrow> sync_state \<Rightarrow> rstr \<Rightarrow> key_slot_payload \<Rightarrow> key_view" where
  "live_key_view X s i public =
     (let material = bt_get (ls_keys (st_local s)) i;
          status = (case material of
                      None \<Rightarrow> KS_NeedsMaterial
                    | Some m \<Rightarrow>
                        if is_ok (key_material_matches X public (ks_public_key (lk_public m))
                                    (ks_fingerprint (lk_public m)))
                        then KS_Available else KS_Conflict)
      in \<lparr>kv_id = i, kv_authority = KA_Account, kv_public = Some public,
          kv_vault_id = (if status = KS_Available then map_option lk_vault_id material else None),
          kv_status = status\<rparr>)"

definition account_key_view :: "'a record_ext_scheme \<Rightarrow> sync_state \<Rightarrow> (rstr, key_view) btm
    \<Rightarrow> rstr \<times> local_record \<Rightarrow> repository_error + (rstr, key_view) btm" where
  "account_key_view X s keys kr =
     (case kr of (cache_key, local) \<Rightarrow>
        rbind (validate_cache cache_key local) (\<lambda>_.
        rbind (fail_if (r_kind (lr_record local) = RK_Host)
                 (RE_Validation (VE_WrongKind (lit ''account metadata'') (lit ''host'')))) (\<lambda>_.
        if r_kind (lr_record local) \<noteq> RK_KeySlot then Inr keys
        else
          let i = r_id (lr_record local) in
          rbind (map_err RE_Validation (decode_keyslot X (lr_record local))) (\<lambda>typed.
          Inr (bt_insert i
                 (case typed of
                    Tombstone _ \<Rightarrow> \<lparr>kv_id = i, kv_authority = KA_Account, kv_public = None,
                                      kv_vault_id = None, kv_status = KS_Deleted\<rparr>
                  | Live public \<Rightarrow> live_key_view X s i public) keys)))))"

definition shadow_key_view :: "account_state \<Rightarrow> (rstr, key_view) btm \<Rightarrow> sealed_record \<Rightarrow> (rstr, key_view) btm" where
  "shadow_key_view account keys sealed =
     (case sr_public_identity sealed of
        None \<Rightarrow> keys
      | Some identity \<Rightarrow>
          if bt_contains keys (vp_id identity)
             \<and> opaque_shadows sealed (bt_get (acc_records account) (record_key RK_KeySlot (vp_id identity)))
                 RK_KeySlot (vp_id identity)
          then bt_modify (vp_id identity)
                 (\<lambda>view. view\<lparr>kv_authority := KA_Account, kv_status := KS_Conflict, kv_vault_id := None\<rparr>) keys
          else keys)"

definition list_keys :: "'a record_ext_scheme \<Rightarrow> sync_state \<Rightarrow> repository_error + key_view list" where
  "list_keys X s =
     rbind (validate_header s) (\<lambda>_.
     rbind (for_each (local_key_view X) bt_empty (ls_keys (st_local s))) (\<lambda>keys.
     (case st_account s of
        None \<Rightarrow> Inr (bt_values keys)
      | Some account \<Rightarrow>
          rbind (for_each (account_key_view X s) keys (acc_records account)) (\<lambda>keys.
          Inr (bt_values (foldl (shadow_key_view account) keys (bt_values (acc_sealed account))))))))"

definition resolve_key :: "'a record_ext_scheme \<Rightarrow> sync_state \<Rightarrow> rstr \<Rightarrow> repository_error + key_view" where
  "resolve_key X s i =
     rbind (list_keys X s) (\<lambda>keys. ok_or (RE_KeyNotFound i) (find (\<lambda>k. kv_id k = i) keys))"

section \<open>Snapshots\<close>

definition collect_hosts :: "'a record_ext_scheme \<Rightarrow> sync_state \<Rightarrow> repository_error + host_view list" where
  "collect_hosts X s =
     rbind (read_hosts X (ls_hosts (st_local s)) HS_Local None []) (\<lambda>hosts.
     for_each (\<lambda>out (space_id, space).
       if sp_selected space \<and> \<not> sp_missing space
       then read_hosts X (sp_records space) (HS_Space space_id) (Some (sp_sealed space)) out
       else Inr out) hosts (st_spaces s))"

definition apply_effective :: "'a record_ext_scheme \<Rightarrow> sync_state \<Rightarrow> host_view \<Rightarrow> host_view" where
  "apply_effective X s view =
     (case resolve_effective X s (hv_host view) of
        Inr e \<Rightarrow> view\<lparr>hv_effective_payload := ef_payload e, hv_inherited_from := ef_inherited_from e\<rparr>
      | Inl err \<Rightarrow> view\<lparr>hv_group_error := Some (x_error_text X err), hv_readiness := HR_NeedsReview\<rparr>)"

definition view_readiness :: "host_view list \<Rightarrow> key_view list \<Rightarrow> host_view \<Rightarrow> host_readiness" where
  "view_readiness hosts keys view =
     (let host = hv_host view in
      if hv_readiness view = HR_NeedsReview \<or> needs_import_review host \<or> alias_conflict hosts host
         \<or> is_err (route_indices hosts (hr_id host))
      then HR_NeedsReview
      else if hp_auth (hv_effective_payload view) = Auth_Key then
        (let i = the (hp_key_id (hv_effective_payload view)) in
         case map_option kv_status (find (\<lambda>k. kv_id k = i) keys) of
           Some KS_Available \<Rightarrow> HR_Ready
         | Some KS_Conflict \<Rightarrow> HR_KeyConflict i
         | _ \<Rightarrow> HR_NeedsKey i)
      else HR_Ready)"

definition snapshot :: "'a record_ext_scheme \<Rightarrow> sync_state \<Rightarrow> repository_error + repository_snapshot" where
  "snapshot X s =
     rbind (validate_header s) (\<lambda>_.
     rbind (list_keys X s) (\<lambda>keys.
     rbind (collect_hosts X s) (\<lambda>raw.
     let hosts = map (apply_effective X s) raw;
         ready = map (\<lambda>view. view\<lparr>hv_readiness := view_readiness hosts keys view\<rparr>) hosts
     in rbind (list_groups X s) (\<lambda>groups.
        Inr \<lparr>snap_hosts = ready, snap_keys = keys, snap_groups = groups\<rparr>))))"

definition list_hosts :: "'a record_ext_scheme \<Rightarrow> sync_state \<Rightarrow> repository_error + host_view list" where
  "list_hosts X s = rbind (snapshot X s) (\<lambda>snap. Inr (snap_hosts snap))"

definition get_host :: "'a record_ext_scheme \<Rightarrow> sync_state \<Rightarrow> rstr \<Rightarrow> repository_error + host_view" where
  "get_host X s i =
     rbind (list_hosts X s) (\<lambda>hosts.
     rbind (map_err RE_Validation (host_index hosts i)) (\<lambda>n. Inr (hosts ! n)))"

definition find_by_alias :: "'a record_ext_scheme \<Rightarrow> sync_state \<Rightarrow> rstr \<Rightarrow> repository_error + host_view" where
  "find_by_alias X s alias =
     rbind (list_hosts X s) (\<lambda>hosts.
     (case filter (\<lambda>view. hp_alias (hr_payload (hv_host view)) = alias) hosts of
        [] \<Rightarrow> Inl (RE_Validation (VE_HostNotFound alias))
      | [first] \<Rightarrow>
          rbind (map_err RE_Validation (host_index hosts (hr_id (hv_host first)))) (\<lambda>_. Inr first)
      | _ \<Rightarrow> Inl (RE_Validation (VE_AmbiguousAlias alias))))"

definition resolve_host_chain :: "'a record_ext_scheme \<Rightarrow> sync_state \<Rightarrow> rstr
    \<Rightarrow> repository_error + host_view list" where
  "resolve_host_chain X s i =
     rbind (snapshot X s) (\<lambda>snap.
     rbind (map_err RE_Validation (route_indices (snap_hosts snap) i)) (\<lambda>route.
     Inr (map (\<lambda>index. snap_hosts snap ! index) route)))"

section \<open>Edits\<close>

definition host_records :: "sync_state \<Rightarrow> host_scope \<Rightarrow> (rstr, local_record) btm" where
  "host_records s scope =
     (case scope of
        HS_Local \<Rightarrow> ls_hosts (st_local s)
      | HS_Space space_id \<Rightarrow> sp_records (bt_at (st_spaces s) space_id))"

text \<open>\<open>records_mut(..).insert(key, row)\<close>.\<close>

definition put_host :: "host_scope \<Rightarrow> rstr \<Rightarrow> local_record \<Rightarrow> sync_state \<Rightarrow> sync_state" where
  "put_host scope key row s =
     (case scope of
        HS_Local \<Rightarrow> s\<lparr>st_local := (st_local s)\<lparr>ls_hosts := bt_insert key row (ls_hosts (st_local s))\<rparr>\<rparr>
      | HS_Space space_id \<Rightarrow>
          s\<lparr>st_spaces := bt_modify space_id
               (\<lambda>sp. sp\<lparr>sp_records := bt_insert key row (sp_records sp)\<rparr>) (st_spaces s)\<rparr>)"

definition ensure_host_authority :: "sync_state \<Rightarrow> host_record \<Rightarrow> repository_error + unit" where
  "ensure_host_authority s host =
     (case hr_scope host of
        HS_Local \<Rightarrow> Inr ()
      | HS_Space space_id \<Rightarrow>
          (let space = bt_at (st_spaces s) space_id;
               local = bt_get (sp_records space) (record_key RK_Host (hr_id host))
           in fail_if (list_ex (\<lambda>sealed. opaque_shadows sealed local RK_Host (hr_id host))
                         (bt_values (sp_sealed space)))
                (RE_OpaqueHostAuthority (hr_id host))))"

definition scope_requires_relationship_review :: "'a record_ext_scheme \<Rightarrow> sync_state \<Rightarrow> host_scope
    \<Rightarrow> repository_error + bool" where
  "scope_requires_relationship_review X s scope =
     rbind (snapshot X s) (\<lambda>repository.
     Inr (list_ex (\<lambda>view.
       hr_scope (hv_host view) = scope
       \<and> (hv_group_error view \<noteq> None
          \<or> is_err (ensure_host_authority s (hv_host view))
          \<or> alias_conflict (snap_hosts repository) (hv_host view)
          \<or> is_err (route_indices (snap_hosts repository) (hr_id (hv_host view)))))
       (snap_hosts repository)))"

definition checked_host :: "'a record_ext_scheme \<Rightarrow> sync_state \<Rightarrow> rstr \<Rightarrow> record_revision
    \<Rightarrow> repository_error + host_view" where
  "checked_host X s i expected =
     rbind (get_host X s i) (\<lambda>host.
     rbind (fail_if (hv_revision host \<noteq> expected) (RE_RevisionConflict i (hv_revision host))) (\<lambda>_.
     rbind (ensure_scope X s (hr_scope (hv_host host))) (\<lambda>_.
     rbind (ensure_host_authority s (hv_host host)) (\<lambda>_.
     Inr host))))"

fun is_missing_jump :: "record_validation_error \<Rightarrow> bool" where
  "is_missing_jump (VE_MissingJump _ _) = True"
| "is_missing_jump _ = False"

text \<open>One iteration of \<open>validate_transition\<close>.\<close>

definition transition_check :: "host_view list \<Rightarrow> host_view list \<Rightarrow> host_view \<Rightarrow> repository_error + unit" where
  "transition_check old new view =
     (let host = hv_host view in
      rbind (case hv_group_error view of
               None \<Rightarrow> Inr ()
             | Some e \<Rightarrow>
                 fail_if (\<not> list_ex (\<lambda>v. hr_id (hv_host v) = hr_id host \<and> hv_group_error v = Some e) old)
                   (RE_Group e)) (\<lambda>_.
      rbind (fail_if (duplicate_id new (hr_id host) \<and> \<not> duplicate_id old (hr_id host))
               (RE_Validation (VE_DuplicateId (hr_id host)))) (\<lambda>_.
      rbind (fail_if (alias_conflict new host
                      \<and> \<not> list_ex (\<lambda>v. hr_scope (hv_host v) = hr_scope host
                             \<and> hp_alias (hr_payload (hv_host v)) = hp_alias (hr_payload host)
                             \<and> alias_conflict old (hv_host v)) old)
               (RE_Validation (VE_AliasConflict (hp_alias (hr_payload host)) (hr_scope host)))) (\<lambda>_.
      (case route_indices new (hr_id host) of
         Inr _ \<Rightarrow> Inr ()
       | Inl e \<Rightarrow>
           if is_missing_jump e \<and> needs_import_review host then Inr ()
           else fail_if (route_indices old (hr_id host) \<noteq> Inl e) (RE_Validation e))))))"

definition validate_transition :: "'a record_ext_scheme \<Rightarrow> sync_state \<Rightarrow> sync_state \<Rightarrow> repository_error + unit" where
  "validate_transition X before after =
     rbind (snapshot X before) (\<lambda>old.
     rbind (snapshot X after) (\<lambda>new.
     for_all (transition_check (snap_hosts old) (snap_hosts new)) (snap_hosts new)))"

definition create_host :: "'a record_ext_scheme \<Rightarrow> sync_state \<Rightarrow> rstr \<Rightarrow> host_scope \<Rightarrow> host_payload \<Rightarrow> u64
    \<Rightarrow> repository_error + sync_state" where
  "create_host X s i scope payload now_ms =
     rbind (ensure_scope X s scope) (\<lambda>_.
     rbind (require_host_format s payload scope) (\<lambda>_.
     let key = record_key RK_Host i in
     rbind (fail_if (bt_contains (ls_hosts (st_local s)) key
                     \<or> list_ex (\<lambda>space. bt_contains (sp_records space) key) (bt_values (st_spaces s)))
              (RE_Validation (VE_DuplicateId i))) (\<lambda>_.
     let payload = payload\<lparr>hp_host_key := None\<rparr> in
     rbind (map_err RE_Validation
              (validate_host X \<lparr>hr_id = i, hr_scope = scope, hr_payload = payload\<rparr>)) (\<lambda>_.
     rbind (ordered_record s i (x_host_to_value X payload) False now_ms []) (\<lambda>rec.
     let next_state = put_host scope key (cached rec 0 scope) s in
     rbind (validate_transition X s next_state) (\<lambda>_. Inr next_state))))))"

text \<open>The common end of the edits: a new revision of the row, derived from the stored one, checked
  against the old state.\<close>

definition replace_host_row :: "'a record_ext_scheme \<Rightarrow> sync_state \<Rightarrow> host_scope \<Rightarrow> rstr \<Rightarrow> json \<Rightarrow> bool \<Rightarrow> u64
    \<Rightarrow> repository_error + sync_state" where
  "replace_host_row X s scope i payload deleted now_ms =
     (let key = record_key RK_Host i;
          previous = bt_at (host_records s scope) key in
      rbind (ordered_record s i payload deleted now_ms [lr_record previous]) (\<lambda>rec.
      let next_state = put_host scope key (cached rec (lr_seq previous) scope) s in
      rbind (validate_transition X s next_state) (\<lambda>_. Inr next_state)))"

definition update_host :: "'a record_ext_scheme \<Rightarrow> sync_state \<Rightarrow> rstr \<Rightarrow> record_revision \<Rightarrow> host_payload \<Rightarrow> u64
    \<Rightarrow> repository_error + sync_state" where
  "update_host X s i expected payload now_ms =
     rbind (checked_host X s i expected) (\<lambda>host.
     rbind (require_host_format s payload (hr_scope (hv_host host))) (\<lambda>_.
     rbind (resolve_effective X s ((hv_host host)\<lparr>hr_payload := payload\<rparr>)) (\<lambda>effective.
     let payload = payload\<lparr>hp_host_key :=
           (if hp_hostname (hv_effective_payload host) = hp_hostname (ef_payload effective)
               \<and> hp_port (hv_effective_payload host) = hp_port (ef_payload effective)
            then hp_host_key (hr_payload (hv_host host)) else None)\<rparr> in
     rbind (map_err RE_Validation (validate_host X ((hv_host host)\<lparr>hr_payload := payload\<rparr>))) (\<lambda>_.
     replace_host_row X s (hr_scope (hv_host host)) i (x_host_to_value X payload) False now_ms))))"

definition delete_host :: "'a record_ext_scheme \<Rightarrow> sync_state \<Rightarrow> rstr \<Rightarrow> record_revision \<Rightarrow> u64
    \<Rightarrow> repository_error + sync_state" where
  "delete_host X s i expected now_ms =
     rbind (checked_host X s i expected) (\<lambda>host.
     replace_host_row X s (hr_scope (hv_host host)) i JNull True now_ms)"

definition move_host :: "'a record_ext_scheme \<Rightarrow> sync_state \<Rightarrow> rstr \<Rightarrow> record_revision \<Rightarrow> host_scope \<Rightarrow> u64
    \<Rightarrow> repository_error + sync_state" where
  "move_host X s i expected destination now_ms =
     rbind (checked_host X s i expected) (\<lambda>host.
     rbind (ensure_scope X s destination) (\<lambda>_.
     let origin = hr_scope (hv_host host) in
     if origin = destination then Inr s
     else
       let key = record_key RK_Host i;
           source = bt_at (host_records s origin) key;
           existing = bt_get (host_records s destination) key in
       rbind (fail_if (is_some_and existing (\<lambda>local. \<not> r_deleted (lr_record local)))
                (RE_Validation (VE_DuplicateId i))) (\<lambda>_.
       rbind (case existing of None \<Rightarrow> Inr () | Some e \<Rightarrow> validate_cache key e) (\<lambda>_.
       let previous = lr_record source # (case existing of None \<Rightarrow> [] | Some e \<Rightarrow> [lr_record e]) in
       rbind (resolve_effective X s (hv_host host)) (\<lambda>effective.
       rbind (ordered_record s i (x_host_to_value X (materialize (ef_payload effective))) False now_ms
                previous) (\<lambda>rec.
       let tombstone = rec\<lparr>r_deleted := True, r_payload := JNull\<rparr>;
           next_state =
             put_host destination key
               (cached rec (case existing of None \<Rightarrow> 0 | Some e \<Rightarrow> lr_seq e) destination)
               (put_host origin key (cached tombstone (lr_seq source) origin) s) in
       rbind (validate_transition X s next_state) (\<lambda>_. Inr next_state)))))))"

definition same_pin :: "stored_host_key \<Rightarrow> stored_host_key \<Rightarrow> bool" where
  "same_pin l r \<longleftrightarrow> hk_algorithm l = hk_algorithm r \<and> hk_public_key l = hk_public_key r
     \<and> hk_fingerprint l = hk_fingerprint r"

definition forget_host_key :: "'a record_ext_scheme \<Rightarrow> sync_state \<Rightarrow> rstr \<Rightarrow> record_revision \<Rightarrow> host_endpoint
    \<Rightarrow> stored_host_key \<Rightarrow> u64 \<Rightarrow> repository_error + sync_state" where
  "forget_host_key X s i expected endpoint pin now_ms =
     rbind (checked_host X s i expected) (\<lambda>host.
     rbind (fail_if (hp_hostname (hv_effective_payload host) \<noteq> ep_hostname endpoint
                     \<or> hp_port (hv_effective_payload host) \<noteq> ep_port endpoint)
              (RE_EndpointChanged i)) (\<lambda>_.
     rbind (fail_if (hp_host_key (hr_payload (hv_host host)) \<noteq> Some pin) (RE_PinConflict i)) (\<lambda>_.
     replace_host_row X s (hr_scope (hv_host host)) i
       (x_host_to_value X ((hr_payload (hv_host host))\<lparr>hp_host_key := None\<rparr>)) False now_ms)))"

definition pin_host_key :: "'a record_ext_scheme \<Rightarrow> sync_state \<Rightarrow> rstr \<Rightarrow> host_endpoint
    \<Rightarrow> stored_host_key option \<Rightarrow> stored_host_key \<Rightarrow> u64 \<Rightarrow> repository_error + sync_state" where
  "pin_host_key X s i endpoint previous_pin candidate now_ms =
     rbind (get_host X s i) (\<lambda>host.
     rbind (ensure_scope X s (hr_scope (hv_host host))) (\<lambda>_.
     rbind (ensure_host_authority s (hv_host host)) (\<lambda>_.
     rbind (fail_if (hv_group_error host \<noteq> None
                     \<or> hp_hostname (hv_effective_payload host) \<noteq> ep_hostname endpoint
                     \<or> hp_port (hv_effective_payload host) \<noteq> ep_port endpoint)
              (RE_EndpointChanged i)) (\<lambda>_.
     let current = hp_host_key (hr_payload (hv_host host)) in
     if is_some_and current (\<lambda>c. same_pin c candidate) then Inr s
     else
       rbind (fail_if (\<not> (case (current, previous_pin) of
                              (None, None) \<Rightarrow> True
                            | (Some c, Some p) \<Rightarrow> same_pin c p
                            | _ \<Rightarrow> False)) (RE_PinConflict i)) (\<lambda>_.
       let candidate = candidate\<lparr>hk_pinned_at_ms := now_ms, hk_pinned_by_device_id := st_device_id s\<rparr>;
           payload = (hr_payload (hv_host host))\<lparr>hp_host_key := Some candidate\<rparr> in
       rbind (map_err RE_Validation (validate_host X ((hv_host host)\<lparr>hr_payload := payload\<rparr>))) (\<lambda>_.
       replace_host_row X s (hr_scope (hv_host host)) i (x_host_to_value X payload) False now_ms))))))"

definition valid_slot_name :: "rstr \<Rightarrow> bool" where
  "valid_slot_name name =
     (case name of
        [] \<Rightarrow> False
      | first # rest \<Rightarrow>
          str_len name \<le> 64 \<and> is_ascii_alphanumeric first
          \<and> list_all (\<lambda>c. is_ascii_alphanumeric c \<or> c \<in> set (lit ''._-'')) rest
          \<and> \<not> ends_with (to_ascii_lowercase name) (lit ''.pub''))"

definition rename_key :: "'a record_ext_scheme \<Rightarrow> sync_state \<Rightarrow> rstr \<Rightarrow> key_slot_payload \<Rightarrow> rstr \<Rightarrow> u64
    \<Rightarrow> repository_error + sync_state" where
  "rename_key X s i expected name now_ms =
     (let name = trim name in
      rbind (fail_if (\<not> valid_slot_name name)
               (repo_invalid (lit ''name'') i
                  (lit ''expected 1'' @ [0x2013] @ lit ''64 letters, numbers, dots, dashes or underscores''))) (\<lambda>_.
      rbind (resolve_key X s i) (\<lambda>key.
      rbind (fail_if (kv_status key = KS_Conflict \<or> kv_status key = KS_Deleted)
               (repo_invalid (lit ''key'') i (lit ''resolve the key conflict or deletion before renaming''))) (\<lambda>_.
      rbind (fail_if (kv_public key \<noteq> Some expected)
               (repo_invalid (lit ''key'') i (lit ''key metadata changed; refresh before renaming''))) (\<lambda>_.
      rbind (fail_if (kv_authority key = KA_Account \<and> (account_writes_blocked X s \<or> st_rotation s \<noteq> None))
               RE_ReadOnlyAccount) (\<lambda>_.
      if ks_name expected = name then Inr s
      else
        let public = expected\<lparr>ks_name := name\<rparr> in
        rbind (map_err RE_Validation (validate_keyslot X i public)) (\<lambda>_.
        rbind (if kv_authority key = KA_Account then
                 (let cache_key = record_key RK_KeySlot i;
                      account = the (st_account s);
                      previous = bt_at (acc_records account) cache_key in
                  rbind (ordered_record s i (x_keyslot_to_value X public) False now_ms [lr_record previous])
                    (\<lambda>rec.
                  Inr (s\<lparr>st_account := Some (account\<lparr>acc_records :=
                         bt_insert cache_key
                           \<lparr>lr_record = rec\<lparr>r_kind := RK_KeySlot\<rparr>, lr_seq = lr_seq previous, lr_dirty = True\<rparr>
                           (acc_records account)\<rparr>)\<rparr>)))
               else Inr s) (\<lambda>next_state.
        Inr (next_state\<lparr>st_local := (st_local next_state)\<lparr>ls_keys :=
               bt_modify i (\<lambda>m. m\<lparr>lk_public := (lk_public m)\<lparr>ks_name := name\<rparr>\<rparr>)
                 (ls_keys (st_local next_state))\<rparr>\<rparr>)))))))))"

section \<open>Routes over positions\<close>

lemma host_index_Inr:
  "host_index hosts i = Inr n \<longleftrightarrow>
     n < length hosts \<and> hr_id (hv_host (hosts ! n)) = i
     \<and> (\<forall>m < length hosts. hr_id (hv_host (hosts ! m)) = i \<longrightarrow> m = n)"
proof -
  let ?f = "filter (\<lambda>n. hr_id (hv_host (hosts ! n)) = i) [0..<length hosts]"
  have "host_index hosts i = Inr n \<longleftrightarrow> ?f = [n]"
    by (simp add: host_index_def split: list.splits)
  also have "\<dots> \<longleftrightarrow> set ?f = {n}"
  proof
    assume s: "set ?f = {n}"
    have "distinct ?f" by simp
    with s have "length ?f = 1" by (metis card_1_singleton_iff One_nat_def distinct_card)
    then obtain m where "?f = [m]" by (metis length_0_conv length_Suc_conv One_nat_def)
    with s show "?f = [n]" by simp
  qed simp
  also have "\<dots> \<longleftrightarrow> n < length hosts \<and> hr_id (hv_host (hosts ! n)) = i
     \<and> (\<forall>m < length hosts. hr_id (hv_host (hosts ! m)) = i \<longrightarrow> m = n)"
    by auto
  finally show ?thesis .
qed

definition look_index :: "host_view list \<Rightarrow> rstr \<Rightarrow> nat option" where
  "look_index hosts j = (case host_index hosts j of Inr n \<Rightarrow> Some n | Inl _ \<Rightarrow> None)"

lemma look_index_Some: "look_index hosts j = Some n \<longleftrightarrow> host_index hosts j = Inr n"
  by (simp add: look_index_def split: sum.splits)

lemma find_index_Inr:
  "find_index hosts index root stack j = Inr n \<longleftrightarrow> look_index hosts j = Some n \<and> n \<notin> set stack"
  by (auto simp: find_index_def look_index_def split: sum.splits record_validation_error.splits)

lemma add_index_Inr:
  "add_index hosts n root out = Inr out' \<longleftrightarrow> n \<notin> set out \<and> length out \<le> MAX_JUMPS \<and> out' = out @ [n]"
  by (auto simp: add_index_def Let_def)

lemma add_indices_Inr:
  "for_each (\<lambda>out j. rbind (find_index hosts index root stack j) (\<lambda>jump. add_index hosts jump root out)) out js
      = Inr out' \<and> length out' \<le> MAX_JUMPS \<longleftrightarrow>
    (\<exists>ms. map (look_index hosts) js = map Some ms \<and> (\<forall>x \<in> set ms. x \<notin> set stack)
       \<and> distinct ms \<and> set ms \<inter> set out = {} \<and> out' = out @ ms) \<and> length out' \<le> MAX_JUMPS"
proof (induction js arbitrary: out)
  case Nil
  then show ?case by auto
next
  case (Cons j js)
  show ?case
  proof (cases "look_index hosts j")
    case None
    then show ?thesis by (auto simp: find_index_Inr)
  next
    case (Some n)
    have "for_each (\<lambda>out j. rbind (find_index hosts index root stack j) (\<lambda>jump. add_index hosts jump root out))
        out (j # js) = Inr out' \<longleftrightarrow> n \<notin> set stack \<and> n \<notin> set out \<and> length out \<le> MAX_JUMPS
      \<and> for_each (\<lambda>out j. rbind (find_index hosts index root stack j) (\<lambda>jump. add_index hosts jump root out))
          (out @ [n]) js = Inr out'"
      using Some by (auto simp: find_index_Inr add_index_Inr)
    then have "(for_each (\<lambda>out j. rbind (find_index hosts index root stack j) (\<lambda>jump. add_index hosts jump root out))
        out (j # js) = Inr out' \<and> length out' \<le> MAX_JUMPS) \<longleftrightarrow> n \<notin> set stack \<and> n \<notin> set out \<and> length out \<le> MAX_JUMPS
      \<and> ((\<exists>ms. map (look_index hosts) js = map Some ms \<and> (\<forall>x \<in> set ms. x \<notin> set stack)
       \<and> distinct ms \<and> set ms \<inter> set (out @ [n]) = {} \<and> out' = (out @ [n]) @ ms) \<and> length out' \<le> MAX_JUMPS)"
      using Cons.IH [of "out @ [n]"] by metis
    also have "\<dots> \<longleftrightarrow> (\<exists>ms. map (look_index hosts) (j # js) = map Some (n # ms)
        \<and> (\<forall>x \<in> set (n # ms). x \<notin> set stack) \<and> distinct (n # ms) \<and> set (n # ms) \<inter> set out = {}
        \<and> out' = out @ n # ms) \<and> length out' \<le> MAX_JUMPS"
      using Some by auto
    also have "\<dots> \<longleftrightarrow> (\<exists>ms. map (look_index hosts) (j # js) = map Some ms \<and> (\<forall>x \<in> set ms. x \<notin> set stack)
       \<and> distinct ms \<and> set ms \<inter> set out = {} \<and> out' = out @ ms) \<and> length out' \<le> MAX_JUMPS"
    proof -
      have "\<exists>ms'. ms = n # ms'" if "map (look_index hosts) (j # js) = map Some ms" for ms
        using that Some by (cases ms) auto
      then show ?thesis by blast
    qed
    finally show ?thesis .
  qed
qed

interpretation positions: jump_route "\<lambda>_. True" "\<lambda>n. n" "\<lambda>hosts n. hp_jump (hv_effective_payload (hosts ! n))"
  look_index "\<lambda>hosts root index stack out. append_indices hosts index root stack out"
proof
  fix hosts :: "host_view list" and root :: rstr and n :: nat and stack out out' :: "nat list"
  show "append_indices hosts n root stack out = Inr out' \<longleftrightarrow>
      n \<notin> set stack \<and> length stack \<le> MAX_JUMPS
      \<and> (\<exists>mid. (case hp_jump (hv_effective_payload (hosts ! n)) of
                  [] \<Rightarrow> mid = out
                | first # rest \<Rightarrow>
                    \<exists>m out1 ms. look_index hosts first = Some m \<and> m \<notin> set (n # stack)
                      \<and> append_indices hosts m root (n # stack) out = Inr out1
                      \<and> map (look_index hosts) rest = map Some ms
                      \<and> (\<forall>x \<in> set ms. x \<notin> set (n # stack)) \<and> distinct (map (\<lambda>n. n) ms)
                      \<and> (\<lambda>n. n) ` set ms \<inter> set out1 = {} \<and> mid = out1 @ map (\<lambda>n. n) ms)
          \<and> n \<notin> set mid \<and> length mid \<le> MAX_JUMPS \<and> out' = mid @ [n])"
    (is "?lhs \<longleftrightarrow> ?rhs")
  proof (cases "n \<in> set stack \<or> MAX_JUMPS < length stack")
    case True
    then show ?thesis by (subst append_indices.simps) (auto simp: Let_def)
  next
    case False
    show ?thesis
    proof (cases "hp_jump (hv_effective_payload (hosts ! n))")
      case Nil
      with False show ?thesis by (subst append_indices.simps) (auto simp: Let_def add_index_Inr)
    next
      case (Cons first rest)
      let ?st = "n # stack"
      have "append_indices hosts n root stack out =
        rbind (rbind (find_index hosts n root ?st first) (\<lambda>jump.
               rbind (append_indices hosts jump root ?st out) (\<lambda>out.
               for_each (\<lambda>out j. rbind (find_index hosts n root ?st j) (\<lambda>jump. add_index hosts jump root out)) out rest)))
          (\<lambda>out. add_index hosts n root out)"
        using False by (subst append_indices.simps) (simp add: Let_def Cons)
      then have "?lhs \<longleftrightarrow> (\<exists>mid m o1. (look_index hosts first = Some m \<and> m \<notin> set ?st)
          \<and> append_indices hosts m root ?st out = Inr o1
          \<and> (for_each (\<lambda>out j. rbind (find_index hosts n root ?st j) (\<lambda>jump. add_index hosts jump root out)) o1 rest
               = Inr mid \<and> length mid \<le> MAX_JUMPS)
          \<and> n \<notin> set mid \<and> out' = mid @ [n])"
        by (simp only: rbind_Inr find_index_Inr add_index_Inr) blast
      moreover have "n \<notin> set stack" "length stack \<le> MAX_JUMPS"
        using False by simp_all
      ultimately show ?thesis
        unfolding add_indices_Inr Cons list.case list.map_ident image_ident by blast
    qed
  qed
qed

section \<open>What a snapshot lists\<close>

text \<open>The ordered maps inside a state keep their representation invariant.\<close>

definition maps_ok :: "sync_state \<Rightarrow> bool" where
  "maps_ok s \<longleftrightarrow>
     bt_inv (ls_hosts (st_local s)) \<and> bt_inv (ls_groups (st_local s)) \<and> bt_inv (ls_keys (st_local s))
     \<and> bt_inv (st_spaces s)
     \<and> (\<forall>(i, sp) \<in> set (st_spaces s). bt_inv (sp_records sp) \<and> bt_inv (sp_sealed sp))
     \<and> (\<forall>a. st_account s = Some a \<longrightarrow> bt_inv (acc_records a) \<and> bt_inv (acc_sealed a))"

definition row_view :: "host_scope \<Rightarrow> (rstr, sealed_record) btm option \<Rightarrow> local_record \<Rightarrow> host_record \<Rightarrow> host_view" where
  "row_view scope sealed local host =
     \<lparr>hv_host = host, hv_effective_payload = hr_payload host, hv_inherited_from = bt_empty,
      hv_group_error = None, hv_revision = revision (lr_record local),
      hv_readiness = (if is_some_and sealed (\<lambda>rows. list_ex (\<lambda>row.
          opaque_shadows row (Some local) RK_Host (r_id (lr_record local))) (bt_values rows))
        then HR_NeedsReview else HR_Ready)\<rparr>"

definition row_views :: "'a record_ext_scheme \<Rightarrow> host_scope \<Rightarrow> (rstr, sealed_record) btm option
    \<Rightarrow> rstr \<times> local_record \<Rightarrow> host_view list" where
  "row_views X scope sealed kr =
     (if r_kind (lr_record (snd kr)) = RK_Group then []
      else case decode_host X (lr_record (snd kr)) scope of
             Inr (Live host) \<Rightarrow> [row_view scope sealed (snd kr) host]
           | _ \<Rightarrow> [])"

definition row_ok :: "'a record_ext_scheme \<Rightarrow> host_scope \<Rightarrow> rstr \<times> local_record \<Rightarrow> bool" where
  "row_ok X scope kr \<longleftrightarrow> validate_cache (fst kr) (snd kr) = Inr ()
     \<and> (r_kind (lr_record (snd kr)) = RK_Group \<or> is_ok (decode_host X (lr_record (snd kr)) scope))"

lemma host_row_view_Inr:
  "host_row_view X scope sealed out kr = Inr out' \<longleftrightarrow>
     row_ok X scope kr \<and> out' = out @ row_views X scope sealed kr"
proof (cases kr)
  case (Pair key local)
  show ?thesis
  proof (cases "r_kind (lr_record local) = RK_Group")
    case True
    then show ?thesis by (auto simp: Pair host_row_view_def row_ok_def row_views_def)
  next
    case False
    show ?thesis
    proof (cases "decode_host X (lr_record local) scope")
      case (Inl e)
      with False show ?thesis by (auto simp: Pair host_row_view_def row_ok_def)
    next
      case (Inr t)
      with False show ?thesis
        by (cases t) (auto simp: Pair host_row_view_def row_ok_def row_views_def row_view_def)
    qed
  qed
qed

lemma for_each_collect:
  assumes "\<And>out x out'. f out x = Inr out' \<longleftrightarrow> ok x \<and> out' = out @ g x"
  shows "for_each f out xs = Inr out' \<longleftrightarrow> (\<forall>x \<in> set xs. ok x) \<and> out' = out @ concat (map g xs)"
  by (induction xs arbitrary: out) (auto simp: assms)

lemma read_hosts_Inr:
  "read_hosts X records scope sealed out = Inr out' \<longleftrightarrow>
     (\<forall>kr \<in> set records. row_ok X scope kr) \<and> out' = out @ concat (map (row_views X scope sealed) records)"
  unfolding read_hosts_def by (rule for_each_collect) (rule host_row_view_Inr)

definition open_space :: "space_state \<Rightarrow> bool" where
  "open_space sp \<longleftrightarrow> sp_selected sp \<and> \<not> sp_missing sp"

definition space_views :: "'a record_ext_scheme \<Rightarrow> rstr \<times> space_state \<Rightarrow> host_view list" where
  "space_views X ks =
     (if open_space (snd ks)
      then concat (map (row_views X (HS_Space (fst ks)) (Some (sp_sealed (snd ks)))) (sp_records (snd ks)))
      else [])"

lemma collect_hosts_Inr:
  "collect_hosts X s = Inr raw \<longleftrightarrow>
     (\<forall>kr \<in> set (ls_hosts (st_local s)). row_ok X HS_Local kr)
     \<and> (\<forall>ks \<in> set (st_spaces s). open_space (snd ks) \<longrightarrow>
          (\<forall>kr \<in> set (sp_records (snd ks)). row_ok X (HS_Space (fst ks)) kr))
     \<and> raw = concat (map (row_views X HS_Local None) (ls_hosts (st_local s)))
           @ concat (map (space_views X) (st_spaces s))"
proof -
  have "(\<lambda>out (space_id, space).
       if sp_selected space \<and> \<not> sp_missing space
       then read_hosts X (sp_records space) (HS_Space space_id) (Some (sp_sealed space)) out
       else Inr out) out ks = Inr out' \<longleftrightarrow>
      (open_space (snd ks) \<longrightarrow> (\<forall>kr \<in> set (sp_records (snd ks)). row_ok X (HS_Space (fst ks)) kr))
      \<and> out' = out @ space_views X ks" for out ks out'
    by (cases ks) (auto simp: read_hosts_Inr space_views_def open_space_def)
  note spaces = for_each_collect [OF this]
  show ?thesis
    unfolding collect_hosts_def rbind_Inr read_hosts_Inr spaces by auto
qed

text \<open>A row of a scope that the snapshot reads.\<close>

definition stored_row :: "sync_state \<Rightarrow> host_scope \<Rightarrow> rstr \<Rightarrow> local_record \<Rightarrow> bool" where
  "stored_row s scope key local \<longleftrightarrow>
     (case scope of
        HS_Local \<Rightarrow> bt_get (ls_hosts (st_local s)) key = Some local
      | HS_Space i \<Rightarrow> \<exists>sp. bt_get (st_spaces s) i = Some sp \<and> open_space sp
          \<and> bt_get (sp_records sp) key = Some local)"

lemma stored_row_records: "stored_row s scope key local \<Longrightarrow> bt_get (host_records s scope) key = Some local"
  by (auto simp: stored_row_def host_records_def split: host_scope.splits)

lemma decode_host_Live:
  assumes "decode_host X rec scope = Inr (Live h)"
  shows "r_kind rec = RK_Host" "hr_id h = r_id rec" "hr_scope h = scope" "\<not> r_deleted rec"
    "host_shape_ok X h" "x_host_from_value X (r_payload rec) = Inr (hr_payload h)"
  using assms by (auto simp: decode_host_def Let_def validate_host_shape_iff [symmetric] split: if_splits)

lemma row_views_mem:
  "v \<in> set (row_views X scope sealed (key, local)) \<longleftrightarrow>
     (\<exists>h. decode_host X (lr_record local) scope = Inr (Live h) \<and> v = row_view scope sealed local h)"
proof (cases "decode_host X (lr_record local) scope")
  case (Inr t)
  then show ?thesis
    using decode_host_Live(1) [of X "lr_record local" scope]
    by (cases t) (auto simp: row_views_def)
qed (simp add: row_views_def)

definition scope_sealed :: "sync_state \<Rightarrow> host_scope \<Rightarrow> (rstr, sealed_record) btm option" where
  "scope_sealed s scope =
     (case scope of HS_Local \<Rightarrow> None | HS_Space i \<Rightarrow> map_option sp_sealed (bt_get (st_spaces s) i))"

lemma ex_scope: "(\<exists>scope. P scope) \<longleftrightarrow> P HS_Local \<or> (\<exists>i. P (HS_Space i))"
  by (metis host_scope.exhaust)

lemma row_view_keeps [simp]:
  "hv_host (row_view scope sealed local h) = h"
  "hv_revision (row_view scope sealed local h) = revision (lr_record local)"
  by (simp_all add: row_view_def)

lemma collect_hosts_mem:
  assumes "maps_ok s" and "collect_hosts X s = Inr raw"
  shows "v \<in> set raw \<longleftrightarrow> (\<exists>scope key local h. stored_row s scope key local
    \<and> decode_host X (lr_record local) scope = Inr (Live h) \<and> v = row_view scope (scope_sealed s scope) local h)"
proof -
  have inv: "bt_inv (ls_hosts (st_local s))" "bt_inv (st_spaces s)"
    and sp: "\<And>i sp. bt_get (st_spaces s) i = Some sp \<Longrightarrow> bt_inv (sp_records sp)"
    using assms(1) by (auto simp: maps_ok_def dest: bt_get_SomeD)
  have raw: "raw = concat (map (row_views X HS_Local None) (ls_hosts (st_local s)))
      @ concat (map (space_views X) (st_spaces s))"
    using assms(2) by (simp add: collect_hosts_Inr)
  have "v \<in> set raw \<longleftrightarrow>
      (\<exists>key local. (key, local) \<in> set (ls_hosts (st_local s)) \<and> v \<in> set (row_views X HS_Local None (key, local)))
    \<or> (\<exists>i sp. (i, sp) \<in> set (st_spaces s) \<and> v \<in> set (space_views X (i, sp)))"
    unfolding raw by auto
  also have "\<dots> \<longleftrightarrow>
      (\<exists>key local. stored_row s HS_Local key local \<and> v \<in> set (row_views X HS_Local None (key, local)))
    \<or> (\<exists>i key local. stored_row s (HS_Space i) key local
         \<and> v \<in> set (row_views X (HS_Space i) (scope_sealed s (HS_Space i)) (key, local)))"
  proof -
    have local: "(key, l) \<in> set (ls_hosts (st_local s)) \<longleftrightarrow> stored_row s HS_Local key l" for key l
      by (simp add: stored_row_def bt_get_iff [OF inv(1)])
    have space: "(i, sp) \<in> set (st_spaces s) \<longleftrightarrow> bt_get (st_spaces s) i = Some sp" for i sp
      by (simp add: bt_get_iff [OF inv(2)])
    have row: "v \<in> set (space_views X (i, sp)) \<longleftrightarrow> (\<exists>key l. stored_row s (HS_Space i) key l
        \<and> v \<in> set (row_views X (HS_Space i) (scope_sealed s (HS_Space i)) (key, l)))"
      if "bt_get (st_spaces s) i = Some sp" for i sp
      using that bt_get_iff [OF sp [OF that]]
      by (auto simp: space_views_def stored_row_def scope_sealed_def)
    have none: "\<exists>sp. bt_get (st_spaces s) i = Some sp" if "stored_row s (HS_Space i) key l" for i key l
      using that by (auto simp: stored_row_def)
    show ?thesis unfolding local space using row none by blast
  qed
  also have "\<dots> \<longleftrightarrow> (\<exists>scope key local. stored_row s scope key local
       \<and> v \<in> set (row_views X scope (scope_sealed s scope) (key, local)))"
    by (simp add: ex_scope scope_sealed_def [of s HS_Local])
  finally show ?thesis by (simp only: row_views_mem) blast
qed

lemma snapshot_Inr:
  "snapshot X s = Inr snap \<longleftrightarrow>
     (\<exists>keys raw groups. validate_header s = Inr () \<and> list_keys X s = Inr keys \<and> collect_hosts X s = Inr raw
        \<and> list_groups X s = Inr groups
        \<and> snap = \<lparr>snap_hosts = map (\<lambda>view. view\<lparr>hv_readiness :=
              view_readiness (map (apply_effective X s) raw) keys view\<rparr>) (map (apply_effective X s) raw),
            snap_keys = keys, snap_groups = groups\<rparr>)"
  unfolding snapshot_def Let_def rbind_Inr sum.inject by auto

lemma list_hosts_Inr:
  assumes "list_hosts X s = Inr hosts"
  shows "\<exists>keys raw. list_keys X s = Inr keys \<and> collect_hosts X s = Inr raw
    \<and> hosts = map (\<lambda>view. view\<lparr>hv_readiness := view_readiness (map (apply_effective X s) raw) keys view\<rparr>)
        (map (apply_effective X s) raw)"
  using assms unfolding list_hosts_def rbind_Inr snapshot_Inr by force

lemma apply_effective_keeps [simp]:
  "hv_host (apply_effective X s v) = hv_host v" "hv_revision (apply_effective X s v) = hv_revision v"
  by (simp_all add: apply_effective_def split: sum.splits)

text \<open>Every listed host is a stored, live row, and every stored row that decodes to a live host is
  listed.\<close>

lemma list_hosts_mem:
  assumes "maps_ok s" and "list_hosts X s = Inr hosts"
  shows "(\<exists>v \<in> set hosts. hv_host v = h \<and> hv_revision v = rv) \<longleftrightarrow>
    (\<exists>key local. stored_row s (hr_scope h) key local
       \<and> decode_host X (lr_record local) (hr_scope h) = Inr (Live h) \<and> rv = revision (lr_record local))"
proof -
  from list_hosts_Inr [OF assms(2)] obtain raw keys where c: "collect_hosts X s = Inr raw"
    and h: "hosts = map (\<lambda>view. view\<lparr>hv_readiness := view_readiness (map (apply_effective X s) raw) keys view\<rparr>)
        (map (apply_effective X s) raw)"
    by blast
  have "(\<exists>v \<in> set hosts. hv_host v = h \<and> hv_revision v = rv) \<longleftrightarrow>
      (\<exists>v \<in> set raw. hv_host v = h \<and> hv_revision v = rv)"
    by (auto simp: h)
  also have "\<dots> \<longleftrightarrow> (\<exists>scope key local. stored_row s scope key local
       \<and> decode_host X (lr_record local) scope = Inr (Live h) \<and> rv = revision (lr_record local))"
  proof -
    have "(\<exists>v. (\<exists>scope key local h'. Q scope key local \<and> D local scope h' \<and> v = row_view scope (se scope) local h')
        \<and> hv_host v = h \<and> hv_revision v = rv) \<longleftrightarrow>
      (\<exists>scope key local. Q scope key local \<and> D local scope h \<and> rv = revision (lr_record local))"
      for Q :: "host_scope \<Rightarrow> rstr \<Rightarrow> local_record \<Rightarrow> bool" and D se
    proof
      assume "\<exists>scope key local. Q scope key local \<and> D local scope h \<and> rv = revision (lr_record local)"
      then obtain scope key local where "Q scope key local" "D local scope h" "rv = revision (lr_record local)"
        by blast
      then show "\<exists>v. (\<exists>scope key local h'. Q scope key local \<and> D local scope h'
          \<and> v = row_view scope (se scope) local h') \<and> hv_host v = h \<and> hv_revision v = rv"
        by (intro exI [of _ "row_view scope (se scope) local h"]) auto
    qed (auto, blast)
    then show ?thesis unfolding Bex_def collect_hosts_mem [OF assms(1) c] .
  qed
  also have "\<dots> \<longleftrightarrow> (\<exists>key local. stored_row s (hr_scope h) key local
       \<and> decode_host X (lr_record local) (hr_scope h) = Inr (Live h) \<and> rv = revision (lr_record local))"
    using decode_host_Live(3) by blast
  finally show ?thesis .
qed

lemma stored_row_key:
  assumes "maps_ok s" and "list_hosts X s = Inr hosts" and "stored_row s scope key local"
  shows "key = record_key (r_kind (lr_record local)) (r_id (lr_record local))"
    and "validate_cache key local = Inr ()"
proof -
  from list_hosts_Inr [OF assms(2)] obtain raw where c: "collect_hosts X s = Inr raw" by blast
  have ok: "row_ok X scope (key, local)"
    using c assms(3) unfolding collect_hosts_Inr stored_row_def
    by (auto split: host_scope.splits dest!: bt_get_SomeD)
  then show "validate_cache key local = Inr ()" by (simp add: row_ok_def)
  then show "key = record_key (r_kind (lr_record local)) (r_id (lr_record local))"
    by (auto simp: validate_cache_def Let_def)
qed

lemma get_host_stored:
  assumes "maps_ok s" and "get_host X s i = Inr v"
  obtains local where "hr_id (hv_host v) = i"
    "stored_row s (hr_scope (hv_host v)) (record_key RK_Host i) local"
    "decode_host X (lr_record local) (hr_scope (hv_host v)) = Inr (Live (hv_host v))"
    "hv_revision v = revision (lr_record local)"
proof -
  from assms(2) obtain hosts n where h: "list_hosts X s = Inr hosts" "host_index hosts i = Inr n" "v = hosts ! n"
    by (auto simp: get_host_def)
  then have n: "n < length hosts" "hr_id (hv_host v) = i" by (auto simp: host_index_Inr)
  with h have "\<exists>w \<in> set hosts. hv_host w = hv_host v \<and> hv_revision w = hv_revision v" by auto
  then obtain key local where l: "stored_row s (hr_scope (hv_host v)) key local"
    "decode_host X (lr_record local) (hr_scope (hv_host v)) = Inr (Live (hv_host v))"
    "hv_revision v = revision (lr_record local)"
    unfolding list_hosts_mem [OF assms(1) h(1)] by blast
  moreover have "key = record_key RK_Host i"
    using stored_row_key(1) [OF assms(1) h(1) l(1)] decode_host_Live(1,2) [OF l(2)] n(2) by simp
  ultimately show thesis using that n(2) by blast
qed

section \<open>Effect of writing a row\<close>

definition scope_open :: "sync_state \<Rightarrow> host_scope \<Rightarrow> bool" where
  "scope_open s scope =
     (case scope of HS_Local \<Rightarrow> True | HS_Space i \<Rightarrow> \<exists>sp. bt_get (st_spaces s) i = Some sp \<and> open_space sp)"

lemma ensure_scope_Inr:
  "ensure_scope X s scope = Inr () \<longleftrightarrow>
     scope_open s scope \<and> (scope \<noteq> HS_Local \<longrightarrow> st_account s \<noteq> None \<and> \<not> account_writes_blocked X s)"
  by (cases scope) (auto simp: ensure_scope_def scope_open_def open_space_def)

lemma put_host_keeps [simp]:
  "st_version (put_host scope key row s) = st_version s"
  "st_device_id (put_host scope key row s) = st_device_id s"
  "st_account (put_host scope key row s) = st_account s"
  "st_pending_account (put_host scope key row s) = st_pending_account s"
  "st_shared_writes_blocked (put_host scope key row s) = st_shared_writes_blocked s"
  "st_migration_gate (put_host scope key row s) = st_migration_gate s"
  "ls_groups (st_local (put_host scope key row s)) = ls_groups (st_local s)"
  "ls_keys (st_local (put_host scope key row s)) = ls_keys (st_local s)"
  by (cases scope; simp add: put_host_def)+

lemma blocked_put [simp]: "account_writes_blocked X (put_host scope key row s) = account_writes_blocked X s"
  by (simp add: account_writes_blocked_def account_migration_pending_def)

lemma put_host_local [simp]:
  "st_spaces (put_host HS_Local key row s) = st_spaces s"
  by (simp add: put_host_def)

lemma put_host_records:
  assumes "scope_open s scope"
  shows "host_records (put_host scope key row s) sc
    = (if sc = scope then bt_insert key row (host_records s sc) else host_records s sc)"
  using assms
  by (cases scope; cases sc) (auto simp: put_host_def host_records_def scope_open_def bt_at_def)

lemma scope_open_put [simp]: "scope_open (put_host scope key row s) sc = scope_open s sc"
proof (cases sc)
  case HS_Local
  then show ?thesis by (simp add: scope_open_def)
next
  case (HS_Space i)
  then show ?thesis
    by (cases scope) (auto simp: scope_open_def put_host_def open_space_def)
qed

lemma stored_row_open: "stored_row s scope key l \<longleftrightarrow> scope_open s scope \<and> bt_get (host_records s scope) key = Some l"
  by (cases scope) (auto simp: stored_row_def scope_open_def host_records_def)

lemma maps_ok_put:
  assumes "maps_ok s"
  shows "maps_ok (put_host scope key row s)"
proof (cases scope)
  case HS_Local
  with assms show ?thesis by (auto simp: maps_ok_def put_host_def bt_inv_insert)
next
  case (HS_Space i)
  have "bt_inv (sp_records sp) \<and> bt_inv (sp_sealed sp)"
    if "(j, sp) \<in> set (bt_modify i (\<lambda>sp. sp\<lparr>sp_records := bt_insert key row (sp_records sp)\<rparr>) (st_spaces s))"
    for j sp
    using that set_bt_modify assms by (fastforce simp: maps_ok_def bt_inv_insert)
  with HS_Space assms show ?thesis
    by (auto simp: maps_ok_def put_host_def bt_inv_modify)
qed

lemma checked_host_Inr:
  "checked_host X s i expected = Inr v \<longleftrightarrow>
     get_host X s i = Inr v \<and> hv_revision v = expected \<and> ensure_scope X s (hr_scope (hv_host v)) = Inr ()
     \<and> ensure_host_authority s (hv_host v) = Inr ()"
  by (auto simp: checked_host_def)

lemma replace_host_row_Inr:
  assumes "replace_host_row X s scope i payload deleted now = Inr s'"
  obtains rec where
    "ordered_record s i payload deleted now [lr_record (bt_at (host_records s scope) (record_key RK_Host i))] = Inr rec"
    "s' = put_host scope (record_key RK_Host i)
       (cached rec (lr_seq (bt_at (host_records s scope) (record_key RK_Host i))) scope) s"
    "validate_transition X s s' = Inr ()"
  using assms by (auto simp: replace_host_row_def Let_def)

text \<open>What every edit of one host row does: the row under the host's key becomes a newer revision,
  keeps its relay sequence number and is marked for upload exactly in a space.\<close>

definition row_edit :: "sync_state \<Rightarrow> host_scope \<Rightarrow> rstr \<Rightarrow> json \<Rightarrow> bool \<Rightarrow> u64 \<Rightarrow> sync_state \<Rightarrow> bool" where
  "row_edit s scope i payload deleted now s' \<longleftrightarrow>
     scope_open s scope \<and>
     (\<exists>old rec. bt_get (host_records s scope) (record_key RK_Host i) = Some old
        \<and> s' = put_host scope (record_key RK_Host i) (cached rec (lr_seq old) scope) s
        \<and> r_kind rec = RK_Host \<and> r_id rec = i \<and> r_device_id rec = st_device_id s
        \<and> r_deleted rec = deleted \<and> r_payload rec = payload \<and> now \<le> r_updated_at_ms rec
        \<and> r_version (lr_record old) < r_version rec
        \<and> r_updated_at_ms (lr_record old) < r_updated_at_ms rec)"

lemma replace_host_row_edit:
  assumes "maps_ok s" and "get_host X s i = Inr v"
    and "replace_host_row X s (hr_scope (hv_host v)) i payload deleted now = Inr s'"
  shows "row_edit s (hr_scope (hv_host v)) i payload deleted now s'"
proof -
  let ?scope = "hr_scope (hv_host v)"
  from get_host_stored [OF assms(1,2)] obtain local where
    l: "stored_row s ?scope (record_key RK_Host i) local" by blast
  from assms(3) obtain rec where
    r: "ordered_record s i payload deleted now [lr_record (bt_at (host_records s ?scope) (record_key RK_Host i))] = Inr rec"
    and s': "s' = put_host ?scope (record_key RK_Host i)
       (cached rec (lr_seq (bt_at (host_records s ?scope) (record_key RK_Host i))) ?scope) s"
    by (rule replace_host_row_Inr)
  from l have g: "bt_get (host_records s ?scope) (record_key RK_Host i) = Some local" "scope_open s ?scope"
    by (simp_all add: stored_row_open)
  with r s' ordered_record_Inr [OF r] show ?thesis
    unfolding row_edit_def by auto
qed

lemma row_edit_wins:
  assumes "row_edit s scope i payload deleted now s'"
    and "bt_get (host_records s sc) key = Some l"
  shows "\<exists>l'. bt_get (host_records s' sc) key = Some l' \<and> lr_seq l' = lr_seq l
    \<and> (l' = l \<or> remote_wins (lr_record l') (lr_record l))"
  using assms unfolding row_edit_def by (auto simp: put_host_records cached_def remote_wins_iff)

section \<open>Sequences of edits\<close>

inductive repo_step :: "'a record_ext_scheme \<Rightarrow> sync_state \<Rightarrow> sync_state \<Rightarrow> bool" for X where
  step_create: "create_host X s i scope p now = Inr s' \<Longrightarrow> repo_step X s s'"
| step_update: "update_host X s i rv p now = Inr s' \<Longrightarrow> repo_step X s s'"
| step_delete: "delete_host X s i rv now = Inr s' \<Longrightarrow> repo_step X s s'"
| step_move: "move_host X s i rv destination now = Inr s' \<Longrightarrow> repo_step X s s'"
| step_forget: "forget_host_key X s i rv endpoint pin now = Inr s' \<Longrightarrow> repo_step X s s'"
| step_pin: "pin_host_key X s i endpoint prev cand now = Inr s' \<Longrightarrow> repo_step X s s'"

inductive_cases repo_stepE: "repo_step X s s'"

lemma update_host_edit:
  assumes "maps_ok s" and "update_host X s i rv p now = Inr s'"
  obtains v p' where "checked_host X s i rv = Inr v"
    "row_edit s (hr_scope (hv_host v)) i (x_host_to_value X p') False now s'"
    "ensure_scope X s (hr_scope (hv_host v)) = Inr ()"
    "validate_host X ((hv_host v)\<lparr>hr_payload := p'\<rparr>) = Inr ()"
    "\<exists>e. resolve_effective X s ((hv_host v)\<lparr>hr_payload := p\<rparr>) = Inr e
       \<and> p' = p\<lparr>hp_host_key := (if hp_hostname (hv_effective_payload v) = hp_hostname (ef_payload e)
                \<and> hp_port (hv_effective_payload v) = hp_port (ef_payload e)
             then hp_host_key (hr_payload (hv_host v)) else None)\<rparr>"
  using assms by (auto simp: update_host_def Let_def checked_host_Inr dest: replace_host_row_edit)

lemma delete_host_edit:
  assumes "maps_ok s" and "delete_host X s i rv now = Inr s'"
  obtains v where "checked_host X s i rv = Inr v" "ensure_scope X s (hr_scope (hv_host v)) = Inr ()"
    "row_edit s (hr_scope (hv_host v)) i JNull True now s'"
  using assms by (auto simp: delete_host_def checked_host_Inr dest: replace_host_row_edit)

lemma forget_host_key_edit:
  assumes "maps_ok s" and "forget_host_key X s i rv ep pin now = Inr s'"
  obtains v where "checked_host X s i rv = Inr v" "ensure_scope X s (hr_scope (hv_host v)) = Inr ()"
    "hp_host_key (hr_payload (hv_host v)) = Some pin"
    "row_edit s (hr_scope (hv_host v)) i
       (x_host_to_value X ((hr_payload (hv_host v))\<lparr>hp_host_key := None\<rparr>)) False now s'"
  using assms by (auto simp: forget_host_key_def checked_host_Inr dest: replace_host_row_edit)

lemma pin_host_key_edit:
  assumes "maps_ok s" and "pin_host_key X s i ep prev cand now = Inr s'"
  obtains (same) v where "get_host X s i = Inr v" "s' = s"
      "is_some_and (hp_host_key (hr_payload (hv_host v))) (\<lambda>c. same_pin c cand)"
    | (pinned) v where "get_host X s i = Inr v" "ensure_scope X s (hr_scope (hv_host v)) = Inr ()"
      "hp_hostname (hv_effective_payload v) = ep_hostname ep" "hp_port (hv_effective_payload v) = ep_port ep"
      "hp_host_key (hr_payload (hv_host v)) = None \<and> prev = None
       \<or> (\<exists>c p. hp_host_key (hr_payload (hv_host v)) = Some c \<and> prev = Some p \<and> same_pin c p)"
      "row_edit s (hr_scope (hv_host v)) i (x_host_to_value X ((hr_payload (hv_host v))\<lparr>hp_host_key :=
         Some (cand\<lparr>hk_pinned_at_ms := now, hk_pinned_by_device_id := st_device_id s\<rparr>)\<rparr>)) False now s'"
proof -
  from assms(2) obtain v where v: "get_host X s i = Inr v" "ensure_scope X s (hr_scope (hv_host v)) = Inr ()"
    by (auto simp: pin_host_key_def)
  show thesis
  proof (cases "is_some_and (hp_host_key (hr_payload (hv_host v))) (\<lambda>c. same_pin c cand)")
    case True
    with assms(2) v have "s' = s" by (simp add: pin_host_key_def Let_def)
    with v(1) True show thesis by (intro same)
  next
    case False
    let ?p = "(hr_payload (hv_host v))\<lparr>hp_host_key :=
         Some (cand\<lparr>hk_pinned_at_ms := now, hk_pinned_by_device_id := st_device_id s\<rparr>)\<rparr>"
    from assms(2) v False have
      e: "hp_hostname (hv_effective_payload v) = ep_hostname ep" "hp_port (hv_effective_payload v) = ep_port ep"
      and m: "case (hp_host_key (hr_payload (hv_host v)), prev) of
          (None, None) \<Rightarrow> True | (Some c, Some p) \<Rightarrow> same_pin c p | _ \<Rightarrow> False"
      and r: "replace_host_row X s (hr_scope (hv_host v)) i (x_host_to_value X ?p) False now = Inr s'"
      by (simp_all add: pin_host_key_def Let_def)
    from m have "hp_host_key (hr_payload (hv_host v)) = None \<and> prev = None
       \<or> (\<exists>c p. hp_host_key (hr_payload (hv_host v)) = Some c \<and> prev = Some p \<and> same_pin c p)"
      by (simp split: option.splits)
    with v e replace_host_row_edit [OF assms(1) v(1) r] show thesis by (intro pinned)
  qed
qed

lemma create_host_edit:
  assumes "maps_ok s" and "create_host X s i scope p now = Inr s'"
  obtains rec where "ensure_scope X s scope = Inr ()"
    "\<And>sc. scope_open s sc \<Longrightarrow> bt_get (host_records s sc) (record_key RK_Host i) = None"
    "validate_host X \<lparr>hr_id = i, hr_scope = scope, hr_payload = p\<lparr>hp_host_key := None\<rparr>\<rparr> = Inr ()"
    "ordered_record s i (x_host_to_value X (p\<lparr>hp_host_key := None\<rparr>)) False now [] = Inr rec"
    "s' = put_host scope (record_key RK_Host i) (cached rec 0 scope) s" "validate_transition X s s' = Inr ()"
proof -
  from assms(2) obtain rec where
    e: "ensure_scope X s scope = Inr ()"
    and n: "\<not> bt_contains (ls_hosts (st_local s)) (record_key RK_Host i)"
      "\<not> list_ex (\<lambda>space. bt_contains (sp_records space) (record_key RK_Host i)) (bt_values (st_spaces s))"
    and r: "validate_host X \<lparr>hr_id = i, hr_scope = scope, hr_payload = p\<lparr>hp_host_key := None\<rparr>\<rparr> = Inr ()"
      "ordered_record s i (x_host_to_value X (p\<lparr>hp_host_key := None\<rparr>)) False now [] = Inr rec"
      "s' = put_host scope (record_key RK_Host i) (cached rec 0 scope) s" "validate_transition X s s' = Inr ()"
    by (auto simp: create_host_def Let_def)
  have "bt_get (host_records s sc) (record_key RK_Host i) = None" if "scope_open s sc" for sc
    using that n
    by (cases sc) (force simp: scope_open_def host_records_def bt_contains_def bt_values_def list_ex_iff
        dest: bt_get_SomeD)+
  with e r that show thesis by blast
qed

lemma move_host_edit:
  assumes "maps_ok s" and "move_host X s i rv destination now = Inr s'"
  obtains (stay) v where "checked_host X s i rv = Inr v" "hr_scope (hv_host v) = destination" "s' = s"
    | (moved) v rec source e where "checked_host X s i rv = Inr v" "hr_scope (hv_host v) \<noteq> destination"
      "ensure_scope X s (hr_scope (hv_host v)) = Inr ()" "ensure_scope X s destination = Inr ()"
      "bt_get (host_records s (hr_scope (hv_host v))) (record_key RK_Host i) = Some source"
      "resolve_effective X s (hv_host v) = Inr e"
      "ordered_record s i (x_host_to_value X (materialize (ef_payload e))) False now
         (lr_record source # (case bt_get (host_records s destination) (record_key RK_Host i) of
            None \<Rightarrow> [] | Some x \<Rightarrow> [lr_record x])) = Inr rec"
      "\<And>x. bt_get (host_records s destination) (record_key RK_Host i) = Some x \<Longrightarrow> r_deleted (lr_record x)"
      "s' = put_host destination (record_key RK_Host i)
         (cached rec (case bt_get (host_records s destination) (record_key RK_Host i) of
            None \<Rightarrow> 0 | Some x \<Rightarrow> lr_seq x) destination)
         (put_host (hr_scope (hv_host v)) (record_key RK_Host i)
            (cached (rec\<lparr>r_deleted := True, r_payload := JNull\<rparr>) (lr_seq source) (hr_scope (hv_host v))) s)"
      "validate_transition X s s' = Inr ()"
proof -
  from assms(2) obtain v where v: "checked_host X s i rv = Inr v" and d: "ensure_scope X s destination = Inr ()"
    by (auto simp: move_host_def)
  let ?scope = "hr_scope (hv_host v)" and ?key = "record_key RK_Host i"
  show thesis
  proof (cases "?scope = destination")
    case True
    with assms(2) v d have "s' = s" by (simp add: move_host_def)
    with v True show thesis by (intro stay)
  next
    case False
    from v have g: "get_host X s i = Inr v" "ensure_scope X s ?scope = Inr ()"
      by (simp_all add: checked_host_Inr)
    from get_host_stored [OF assms(1) g(1)] obtain source where
      "stored_row s ?scope ?key source" by blast
    then have src: "bt_get (host_records s ?scope) ?key = Some source" by (simp add: stored_row_open)
    let ?ex = "bt_get (host_records s destination) ?key"
    from assms(2) v d False src obtain e rec where
      "\<not> is_some_and ?ex (\<lambda>local. \<not> r_deleted (lr_record local))"
      "resolve_effective X s (hv_host v) = Inr e"
      "ordered_record s i (x_host_to_value X (materialize (ef_payload e))) False now
         (lr_record source # (case ?ex of None \<Rightarrow> [] | Some x \<Rightarrow> [lr_record x])) = Inr rec"
      "s' = put_host destination ?key (cached rec (case ?ex of None \<Rightarrow> 0 | Some x \<Rightarrow> lr_seq x) destination)
         (put_host ?scope ?key (cached (rec\<lparr>r_deleted := True, r_payload := JNull\<rparr>) (lr_seq source) ?scope) s)"
      "validate_transition X s s' = Inr ()"
      by (simp add: move_host_def Let_def) blast
    then show thesis
      using v False g(2) d src by (intro moved) auto
  qed
qed

lemma repo_step_rows:
  assumes "repo_step X s s'" and "maps_ok s" and "bt_get (host_records s sc) key = Some l"
    and "scope_open s sc"
  shows "\<exists>l'. bt_get (host_records s' sc) key = Some l' \<and> lr_seq l' = lr_seq l
    \<and> (l' = l \<or> remote_wins (lr_record l') (lr_record l))"
  using assms(1)
proof cases
  case (step_create i scope p now)
  from assms(2) step_create obtain rec where
    n: "\<And>sc. scope_open s sc \<Longrightarrow> bt_get (host_records s sc) (record_key RK_Host i) = None"
    and s': "s' = put_host scope (record_key RK_Host i) (cached rec 0 scope) s"
    and e: "ensure_scope X s scope = Inr ()"
    by (rule create_host_edit) blast
  from n [OF assms(4)] assms(3) have "key \<noteq> record_key RK_Host i" by auto
  with e s' assms(3) show ?thesis
    by (auto simp: put_host_records ensure_scope_Inr)
next
  case (step_update i rv p now)
  from assms(2) step_update obtain v :: host_view and p' where
    "row_edit s (hr_scope (hv_host v)) i (x_host_to_value X p') False now s'"
    by (rule update_host_edit) blast
  then show ?thesis using assms(3) by (rule row_edit_wins)
next
  case (step_delete i rv now)
  from assms(2) step_delete obtain v :: host_view where "row_edit s (hr_scope (hv_host v)) i JNull True now s'"
    by (rule delete_host_edit) blast
  then show ?thesis using assms(3) by (rule row_edit_wins)
next
  case (step_forget i rv endpoint pin now)
  from assms(2) step_forget obtain v :: host_view where "row_edit s (hr_scope (hv_host v)) i
       (x_host_to_value X ((hr_payload (hv_host v))\<lparr>hp_host_key := None\<rparr>)) False now s'"
    by (rule forget_host_key_edit) blast
  then show ?thesis using assms(3) by (rule row_edit_wins)
next
  case (step_pin i endpoint prev cand now)
  from assms(2) step_pin show ?thesis
  proof (cases rule: pin_host_key_edit)
    case (same v)
    then show ?thesis using assms(3) by auto
  next
    case (pinned v)
    from pinned(6) assms(3) show ?thesis by (rule row_edit_wins)
  qed
next
  case (step_move i rv destination now)
  from assms(2) step_move show ?thesis
  proof (cases rule: move_host_edit)
    case (stay v)
    then show ?thesis using assms(3) by auto
  next
    case (moved v rec source e)
    note w = ordered_record_Inr(8) [OF moved(7)]
    have o: "scope_open s (hr_scope (hv_host v))" "scope_open s destination"
      using moved(3,4) by (simp_all add: ensure_scope_Inr)
    show ?thesis
    proof (cases "key = record_key RK_Host i \<and> (sc = destination \<or> sc = hr_scope (hv_host v))")
      case True
      then show ?thesis
        using assms(3) moved(2,5,9) w o
        by (auto simp: put_host_records cached_def remote_wins_iff)
    next
      case False
      then show ?thesis
        using assms(3) moved(9) o by (auto simp: put_host_records)
    qed
  qed
qed

lemma repo_step_keeps:
  assumes "repo_step X s s'" and "maps_ok s"
  shows "maps_ok s' \<and> st_account s' = st_account s \<and> st_device_id s' = st_device_id s
    \<and> (\<forall>sc. scope_open s' sc = scope_open s sc)
    \<and> account_writes_blocked X s' = account_writes_blocked X s
    \<and> (account_writes_blocked X s \<longrightarrow> st_spaces s' = st_spaces s)"
proof -
  have edit: "maps_ok t \<and> st_account t = st_account s \<and> st_device_id t = st_device_id s
      \<and> (\<forall>sc. scope_open t sc = scope_open s sc)
      \<and> account_writes_blocked X t = account_writes_blocked X s
      \<and> (account_writes_blocked X s \<longrightarrow> st_spaces t = st_spaces s)"
    if "t = put_host scope key row s" "ensure_scope X s scope = Inr ()" for t scope key row
    using that maps_ok_put [OF assms(2)] by (cases scope) (auto simp: ensure_scope_Inr)
  have row: "maps_ok s' \<and> st_account s' = st_account s \<and> st_device_id s' = st_device_id s
      \<and> (\<forall>sc. scope_open s' sc = scope_open s sc)
      \<and> account_writes_blocked X s' = account_writes_blocked X s
      \<and> (account_writes_blocked X s \<longrightarrow> st_spaces s' = st_spaces s)"
    if "row_edit s scope i payload del now s'" "ensure_scope X s scope = Inr ()" for scope i payload del now
    using that(1) edit [OF _ that(2)] unfolding row_edit_def by blast
  from assms(1) show ?thesis
  proof cases
    case (step_create i scope p now)
    from assms(2) step_create obtain rec where
      "s' = put_host scope (record_key RK_Host i) (cached rec 0 scope) s" "ensure_scope X s scope = Inr ()"
      by (rule create_host_edit) blast
    then show ?thesis by (rule edit)
  next
    case (step_update i rv p now)
    from assms(2) step_update show ?thesis by (rule update_host_edit) (rule row)
  next
    case (step_delete i rv now)
    from assms(2) step_delete show ?thesis by (rule delete_host_edit) (rule row)
  next
    case (step_forget i rv endpoint pin now)
    from assms(2) step_forget show ?thesis by (rule forget_host_key_edit) (rule row)
  next
    case (step_pin i endpoint prev cand now)
    from assms(2) step_pin show ?thesis
    proof (cases rule: pin_host_key_edit)
      case (same v)
      then show ?thesis using assms(2) by simp
    next
      case (pinned v)
      from pinned(6,2) show ?thesis by (rule row)
    qed
  next
    case (step_move i rv destination now)
    from assms(2) step_move show ?thesis
    proof (cases rule: move_host_edit)
      case (stay v)
      then show ?thesis using assms(2) by simp
    next
      case (moved v rec source e)
      then have "account_writes_blocked X s \<Longrightarrow> hr_scope (hv_host v) = HS_Local \<and> destination = HS_Local"
        by (auto simp: ensure_scope_Inr)
      with moved maps_ok_put [OF maps_ok_put [OF assms(2)]] show ?thesis by auto
    qed
  qed
qed

lemma repo_steps_keep:
  assumes "(repo_step X)\<^sup>*\<^sup>* s s'" and "maps_ok s"
  shows "maps_ok s' \<and> st_account s' = st_account s \<and> (\<forall>sc. scope_open s' sc = scope_open s sc)
    \<and> account_writes_blocked X s' = account_writes_blocked X s
    \<and> (account_writes_blocked X s \<longrightarrow> st_spaces s' = st_spaces s)"
  using assms(1)
proof (induction rule: rtranclp_induct)
  case base
  then show ?case using assms(2) by simp
next
  case (step t u)
  with repo_step_keeps [of X t u] show ?case by simp
qed

lemma repo_steps_rows:
  assumes "(repo_step X)\<^sup>*\<^sup>* s s'" and "maps_ok s" and "scope_open s sc"
    and "bt_get (host_records s sc) key = Some l"
  shows "\<exists>l'. bt_get (host_records s' sc) key = Some l' \<and> lr_seq l' = lr_seq l
    \<and> (l' = l \<or> remote_wins (lr_record l') (lr_record l))"
  using assms(1)
proof (induction rule: rtranclp_induct)
  case base
  then show ?case using assms(4) by simp
next
  case (step t u)
  then obtain l' where l': "bt_get (host_records t sc) key = Some l'" "lr_seq l' = lr_seq l"
    "l' = l \<or> remote_wins (lr_record l') (lr_record l)"
    by blast
  have "maps_ok t" "scope_open t sc"
    using repo_steps_keep [OF step(1) assms(2)] assms(3) by simp_all
  from repo_step_rows [OF step(2) this(1) l'(1) this(2)] l' show ?case
    using wins.trans by metis
qed

section \<open>Listing after an edit\<close>

lemma decode_host_stamped:
  assumes "host_shape_ok X \<lparr>hr_id = i, hr_scope = scope, hr_payload = p\<rparr>"
    and "r_kind rec = RK_Host" "r_id rec = i" "\<not> r_deleted rec" "r_payload rec = x_host_to_value X p"
    and "x_host_from_value X (x_host_to_value X p) = Inr p"
    and "get_u64 (x_host_to_value X p) (lit ''schema'') = Some (ucast (hp_schema p))"
  shows "decode_host X rec scope = Inr (Live \<lparr>hr_id = i, hr_scope = scope, hr_payload = p\<rparr>)"
proof -
  have "hp_schema p = 2 \<or> hp_schema p = 3" "is_host_id i"
    using assms(1) by (auto simp: host_shape_ok_def Let_def schema_defs)
  then show ?thesis
    using assms by (auto simp: decode_host_def Let_def validate_host_shape_iff)
qed

lemma host_index_unique:
  assumes "\<not> duplicate_id hosts i" and "v \<in> set hosts" and "hr_id (hv_host v) = i"
  shows "\<exists>n. host_index hosts i = Inr n \<and> hosts ! n = v"
proof -
  from assms(2) obtain n where n: "n < length hosts" "hosts ! n = v" by (auto simp: in_set_conv_nth)
  have "m = n" if "m < length hosts" "hr_id (hv_host (hosts ! m)) = i" for m
  proof (rule ccontr)
    assume "m \<noteq> n"
    have "card {n, m} \<le> card {k. k < length hosts \<and> hr_id (hv_host (hosts ! k)) = i}"
      using n that assms(3) by (intro card_mono) auto
    then show False
      using assms(1) \<open>m \<noteq> n\<close> by (simp add: duplicate_id_def length_filter_conv_card)
  qed
  with n assms(3) show ?thesis by (auto simp: host_index_Inr)
qed

lemma validate_transition_Inr:
  assumes "validate_transition X s s' = Inr ()"
  obtains old new where "list_hosts X s = Inr old" "list_hosts X s' = Inr new"
    "\<And>v. v \<in> set new \<Longrightarrow> transition_check old new v = Inr ()"
  using assms by (auto simp: validate_transition_def list_hosts_def)

lemma create_host_listed:
  assumes "maps_ok s" and "create_host X s i scope p now = Inr s'"
    and "x_host_from_value X (x_host_to_value X (p\<lparr>hp_host_key := None\<rparr>)) = Inr (p\<lparr>hp_host_key := None\<rparr>)"
    and "get_u64 (x_host_to_value X (p\<lparr>hp_host_key := None\<rparr>)) (lit ''schema'') = Some (ucast (hp_schema p))"
  shows "\<exists>v. get_host X s' i = Inr v
    \<and> hv_host v = \<lparr>hr_id = i, hr_scope = scope, hr_payload = p\<lparr>hp_host_key := None\<rparr>\<rparr>"
proof -
  let ?q = "p\<lparr>hp_host_key := None\<rparr>" and ?key = "record_key RK_Host i"
  let ?h = "\<lparr>hr_id = i, hr_scope = scope, hr_payload = ?q\<rparr>"
  from create_host_edit [OF assms(1,2)] obtain rec where
    e: "ensure_scope X s scope = Inr ()"
    and none: "\<And>sc. scope_open s sc \<Longrightarrow> bt_get (host_records s sc) ?key = None"
    and v: "validate_host X ?h = Inr ()"
    and r: "ordered_record s i (x_host_to_value X ?q) False now [] = Inr rec"
    and s': "s' = put_host scope ?key (cached rec 0 scope) s"
    and t: "validate_transition X s s' = Inr ()"
    by blast
  from t obtain old new where old: "list_hosts X s = Inr old" and new: "list_hosts X s' = Inr new"
    and chk: "\<And>v. v \<in> set new \<Longrightarrow> transition_check old new v = Inr ()"
    by (rule validate_transition_Inr) blast
  have o: "scope_open s scope" using e by (simp add: ensure_scope_Inr)
  have m': "maps_ok s'" using maps_ok_put [OF assms(1)] s' by simp
  have "decode_host X (lr_record (cached rec 0 scope)) scope = Inr (Live ?h)"
    using v ordered_record_Inr [OF r] assms(3,4)
    by (intro decode_host_stamped) (simp_all add: cached_def validate_host_iff)
  moreover have "stored_row s' scope ?key (cached rec 0 scope)"
    using o by (simp add: stored_row_open s' put_host_records)
  ultimately obtain v where v: "v \<in> set new" "hv_host v = ?h"
    using list_hosts_mem [OF m' new, of ?h] by (metis host_record.select_convs(2))
  have "\<not> list_ex (\<lambda>w. hr_id (hv_host w) = i) old"
  proof
    assume "list_ex (\<lambda>w. hr_id (hv_host w) = i) old"
    then obtain w where w: "w \<in> set old" "hr_id (hv_host w) = i" by (auto simp: list_ex_iff)
    then obtain key l where l: "stored_row s (hr_scope (hv_host w)) key l"
      "decode_host X (lr_record l) (hr_scope (hv_host w)) = Inr (Live (hv_host w))"
      using list_hosts_mem [OF assms(1) old, of "hv_host w" "hv_revision w"] by blast
    then have "key = ?key"
      using stored_row_key(1) [OF assms(1) old l(1)] decode_host_Live(1,2) [OF l(2)] w(2) by simp
    with l(1) none show False by (auto simp: stored_row_open)
  qed
  then have "filter (\<lambda>w. hr_id (hv_host w) = i) old = []"
    by (auto simp: list_ex_iff filter_empty_conv)
  then have "\<not> duplicate_id old i" by (simp add: duplicate_id_def)
  moreover have "\<not> (duplicate_id new i \<and> \<not> duplicate_id old i)"
    using chk [OF v(1)] v(2) by (auto simp: transition_check_def Let_def)
  ultimately obtain n where "host_index new i = Inr n" "new ! n = v"
    using host_index_unique [of new i v] v by auto
  with new v(2) show ?thesis by (simp add: get_host_def)
qed

end
