(* ===== verification/Record_Open.thy ===== *)
theory Record_Open
  imports Group_Order Record_Repository
begin

text \<open>
  The first part of \<open>sync/record_merge.rs\<close>: its data, opening an envelope into a record, the checks
  a typed record must pass, and the secrets of the account. Decrypted buffers are wiped by the code;
  that has no counterpart in a value model. What \<open>serde\<close> derives for the payloads read here is
  \<open>merge_ext\<close>.
\<close>

section \<open>Data\<close>

definition MAX_RELAY_SEQ :: u64 where
  "MAX_RELAY_SEQ = 9007199254740991"

record meta_payload_v3 =
  mv_schema_version :: u32
  mv_created_by_app_version :: rstr
  mv_migration :: "migration_gate option"

record space_payload =
  spp_schema :: u32
  spp_name :: rstr
  spp_slug :: rstr
  spp_created_at_ms :: u64
  spp_previous_id :: "rstr option"

record device_slot =
  dsl_slot_id :: rstr
  dsl_fingerprint :: "rstr option"
  dsl_synced_copy :: bool
  dsl_in_vault :: bool

record device_payload =
  dp_schema :: u32
  dp_name :: rstr
  dp_platform :: rstr
  dp_joined_at_ms :: u64
  dp_last_seen_ms :: u64
  dp_keys :: "rstr list"
  dp_spaces :: "rstr list"
  dp_slots :: "device_slot list"

datatype account_gate =
    Compatible
  | NeedsMigration u32
  | NeedsUpdate u32
  | MigrationPending migration_gate
  | InvalidMigration
  | InvalidPull

datatype diagnostic_code = Unreadable | Unsupported | InvalidShape | OpaqueConflict

record merge_diagnostic =
  dg_kind :: rstr
  dg_id_hash :: rstr
  dg_code :: diagnostic_code

record 's merge_report =
  mo_section :: 's
  mo_gate :: account_gate
  mo_observed_schema :: "u32 option"
  mo_skipped :: u32
  mo_conflicts :: "rstr list"
  mo_diagnostics :: "merge_diagnostic list"
  mo_baseline_established :: bool

record pull_response =
  pl_records :: "envelope list"
  pl_latest_seq :: u64

record outgoing_item =
  og_key :: rstr
  og_item :: push_item
  og_version :: u64
  og_updated_at_ms :: u64

datatype expected_revision = ExpectPublic sync_record | ExpectSealed envelope

record typed_outgoing =
  to_outgoing :: outgoing_item
  to_expected :: expected_revision

record secret_rev =
  sv_version :: u64
  sv_updated_at_ms :: u64
  sv_device_id :: rstr
  sv_deleted :: bool

text \<open>The \<open>serde\<close> conversions of the payloads that only this component reads.\<close>

record merge_ext = record_ext +
  x_meta_v3_from_value :: "json \<Rightarrow> meta_payload_v3 option"
  x_space_from_value :: "json \<Rightarrow> space_payload option"
  x_device_from_value :: "json \<Rightarrow> device_payload option"

section \<open>Opening and sealing\<close>

definition failure :: app_error where
  "failure = AE_Other (lit ''typed sync record is invalid or unavailable'')"

definition header_fields :: "rstr list" where
  "header_fields = [lit ''kind'', lit ''id'', lit ''version'', lit ''updated_at_ms'', lit ''device_id'',
     lit ''deleted'', lit ''payload'']"

definition record_of_fields :: "(rstr, json) btm \<Rightarrow> diagnostic_code + sync_record" where
  "record_of_fields m =
     rbind (fail_if (list_ex (\<lambda>key. key \<notin> set header_fields) (bt_keys m)) Unsupported) (\<lambda>_.
     rbind (ok_or InvalidShape
              (Option.bind (Option.bind (bt_get m (lit ''kind'')) as_str_json) parse_kind)) (\<lambda>kind.
     rbind (ok_or InvalidShape (Option.bind (bt_get m (lit ''id'')) as_str_json)) (\<lambda>i.
     rbind (ok_or InvalidShape (Option.bind (bt_get m (lit ''version'')) as_u64)) (\<lambda>version.
     rbind (ok_or InvalidShape (Option.bind (bt_get m (lit ''updated_at_ms'')) as_u64)) (\<lambda>t.
     rbind (ok_or InvalidShape (Option.bind (bt_get m (lit ''device_id'')) as_str_json)) (\<lambda>device.
     rbind (ok_or InvalidShape (Option.bind (bt_get m (lit ''deleted'')) as_bool)) (\<lambda>deleted.
     rbind (ok_or InvalidShape (bt_get m (lit ''payload''))) (\<lambda>payload.
     Inr \<lparr>r_kind = kind, r_id = i, r_version = version, r_updated_at_ms = t, r_device_id = device,
          r_deleted = deleted, r_payload = payload\<rparr>))))))))"

definition open_record :: "'a merge_ext_scheme \<Rightarrow> chain_keys \<Rightarrow> envelope \<Rightarrow> diagnostic_code + sync_record" where
  "open_record X keys env =
     rbind (ok_or Unsupported (parse_kind (e_kind env))) (\<lambda>kind.
     rbind (map_err (\<lambda>_. Unreadable)
              (open_sealed X keys (e_kind env) (e_id_hash env) (sealed_of_envelope env))) (\<lambda>bs.
     rbind (ok_or Unreadable (x_value_from_slice X bs)) (\<lambda>v.
     rbind (ok_or InvalidShape (as_object v)) (\<lambda>m.
     rbind (record_of_fields m) (\<lambda>rec.
     rbind (fail_if (r_kind rec \<noteq> kind \<or> r_deleted rec \<noteq> e_deleted env
                     \<or> id_hash X keys (as_str kind) (r_id rec) \<noteq> e_id_hash env) InvalidShape) (\<lambda>_.
     Inr rec))))))"

definition encode_record :: "'a merge_ext_scheme \<Rightarrow> rstr + bytes \<Rightarrow> chain_keys \<Rightarrow> sync_record \<Rightarrow> u64
    \<Rightarrow> app_error + push_item" where
  "encode_record X random keys rec base_seq =
     rbind (map_err (\<lambda>_. failure) (x_record_to_vec X rec)) (\<lambda>bs.
     rbind (seal X random keys (as_str (r_kind rec)) (r_id rec) bs) (\<lambda>sld.
     Inr \<lparr>pi_id_hash = s_id_hash sld, pi_kind = as_str (r_kind rec), pi_nonce = s_nonce sld,
          pi_ciphertext = s_ciphertext sld, pi_deleted = r_deleted rec, pi_base_seq = base_seq\<rparr>))"

definition valid_secret :: "'a merge_ext_scheme \<Rightarrow> sync_record \<Rightarrow> bool" where
  "valid_secret X rec \<longleftrightarrow>
     (case r_kind rec of RK_Key \<Rightarrow> is_slot_id (r_id rec) | RK_SpaceKey \<Rightarrow> is_chain_id (r_id rec) | _ \<Rightarrow> False)
     \<and> (if r_deleted rec
        then is_null (r_payload rec) \<or> get_u64 (r_payload rec) (lit ''schema'') = Some 1
        else get_u64 (r_payload rec) (lit ''schema'') = Some 1
             \<and> (case r_kind rec of
                  RK_Key \<Rightarrow>
                    is_some_and (get_str (r_payload rec) (lit ''private_key''))
                      (\<lambda>txt. txt \<noteq> [] \<and> str_len txt \<le> 16 * 1024)
                | RK_SpaceKey \<Rightarrow>
                    is_some_and (get_str (r_payload rec) (lit ''auth_token'')) is_chain_id
                    \<and> is_some_and (Option.bind (get_str (r_payload rec) (lit ''enc_key'')) (x_b64_decode X))
                        (\<lambda>bs. length bs = 32)
                | _ \<Rightarrow> False))"

definition seal_secret_record :: "'a merge_ext_scheme \<Rightarrow> rstr + bytes \<Rightarrow> chain_keys \<Rightarrow> sync_record \<Rightarrow> u64
    \<Rightarrow> app_error + sealed_record" where
  "seal_secret_record X random keys rec base_seq =
     rbind (fail_if (\<not> is_secret (r_kind rec) \<or> \<not> valid_secret X rec) failure) (\<lambda>_.
     rbind (encode_record X random keys rec base_seq) (\<lambda>item.
     Inr \<lparr>sr_envelope = \<lparr>e_id_hash = pi_id_hash item, e_kind = pi_kind item, e_seq = base_seq,
            e_nonce = pi_nonce item, e_ciphertext = pi_ciphertext item, e_deleted = pi_deleted item\<rparr>,
          sr_dirty = True, sr_public_identity = None\<rparr>))"

definition meta_schema :: "sync_record \<Rightarrow> u32 option" where
  "meta_schema rec =
     map_option (\<lambda>v. case u32_try_from v of Some n \<Rightarrow> n | None \<Rightarrow> u32_max)
       (get_u64 (r_payload rec) (lit ''schema_version''))"

definition valid_meta :: "'a merge_ext_scheme \<Rightarrow> sync_record \<Rightarrow> account_gate + meta_payload_v3" where
  "valid_meta X rec =
     rbind (fail_if (r_deleted rec) InvalidMigration) (\<lambda>_.
     rbind (ok_or InvalidMigration (x_meta_v3_from_value X (r_payload rec))) (\<lambda>meta.
     rbind (fail_if (\<not> (MIN_ACCOUNT_SCHEMA \<le> mv_schema_version meta \<and> mv_schema_version meta \<le> ACCOUNT_SCHEMA))
              (NeedsMigration (mv_schema_version meta))) (\<lambda>_.
     rbind (case mv_migration meta of
              None \<Rightarrow> Inr ()
            | Some marker \<Rightarrow> map_err (\<lambda>_. InvalidMigration) (validate_migration_gate marker)) (\<lambda>_.
     Inr meta))))"

definition null_tombstone_or_schema2 :: "sync_record \<Rightarrow> bool" where
  "null_tombstone_or_schema2 rec \<longleftrightarrow>
     \<not> r_deleted rec \<or> is_null (r_payload rec) \<or> get_u64 (r_payload rec) (lit ''schema'') = Some 2"

definition valid_public :: "'a merge_ext_scheme \<Rightarrow> sync_record \<Rightarrow> bool \<Rightarrow> chain_keys \<Rightarrow> bool" where
  "valid_public X rec account keys \<longleftrightarrow>
     (if account then
        (case r_kind rec of
           RK_Meta \<Rightarrow>
             if r_id rec = ACCOUNT_META_ID then is_ok (valid_meta X rec)
             else if r_id rec = RECORD_ID then decode_order X rec \<noteq> None
             else False
         | RK_KeySlot \<Rightarrow> is_ok (decode_keyslot X rec) \<and> null_tombstone_or_schema2 rec
         | RK_Space \<Rightarrow>
             is_chain_id (r_id rec)
             \<and> (r_deleted rec \<and> is_null (r_payload rec)
                \<or> is_some_and (x_space_from_value X (r_payload rec)) (\<lambda>p.
                    spp_schema p = 1 \<and> trim (spp_name p) \<noteq> [] \<and> is_none_or (spp_previous_id p) is_chain_id))
         | RK_Device \<Rightarrow>
             is_slot_id (r_id rec)
             \<and> (r_deleted rec \<and> is_null (r_payload rec)
                \<or> is_some_and (x_device_from_value X (r_payload rec)) (\<lambda>p.
                    dp_schema p = 1 \<and> list_all is_chain_id (dp_spaces p)))
         | _ \<Rightarrow> False)
      else if r_kind rec = RK_Group then
        is_ok (decode_group X rec (HS_Space (ck_chain_id keys))) \<and> (\<not> r_deleted rec \<or> is_null (r_payload rec))
      else
        is_ok (decode_host X rec (HS_Space (ck_chain_id keys))) \<and> null_tombstone_or_schema2 rec)"

section \<open>Secrets of the account\<close>

definition opened_secret :: "'a merge_ext_scheme \<Rightarrow> account_state \<Rightarrow> chain_keys \<Rightarrow> record_kind \<Rightarrow> rstr
    \<Rightarrow> app_error + sync_record option" where
  "opened_secret X section keys kind i =
     rbind (fail_if (acc_chain_id section \<noteq> ck_chain_id keys) failure) (\<lambda>_.
     (case bt_get (acc_sealed section) (sealed_key (as_str kind) (id_hash X keys (as_str kind) i)) of
        None \<Rightarrow> Inr None
      | Some sld \<Rightarrow>
          rbind (map_err (\<lambda>_. failure) (open_record X keys (sr_envelope sld))) (\<lambda>rec.
          rbind (fail_if (r_kind rec \<noteq> kind \<or> r_id rec \<noteq> i \<or> \<not> valid_secret X rec) failure) (\<lambda>_.
          if r_deleted rec then Inr None else Inr (Some rec)))))"

definition live_metadata :: "'a merge_ext_scheme \<Rightarrow> account_state \<Rightarrow> chain_keys \<Rightarrow> record_kind \<Rightarrow> rstr
    \<Rightarrow> app_error + bool" where
  "live_metadata X section keys kind i =
     rbind (fail_if (acc_chain_id section \<noteq> ck_chain_id keys) failure) (\<lambda>_.
     (case bt_get (acc_records section) (record_key kind i) of
        None \<Rightarrow> Inr False
      | Some row \<Rightarrow>
          if r_deleted (lr_record row) then Inr False
          else
            rbind (fail_if (\<not> valid_public X (lr_record row) True keys
                            \<or> bt_contains (acc_sealed section)
                                (sealed_key (as_str kind) (id_hash X keys (as_str kind) i))) failure) (\<lambda>_.
            Inr True)))"

definition space_keys :: "'a merge_ext_scheme \<Rightarrow> account_state \<Rightarrow> chain_keys \<Rightarrow> rstr
    \<Rightarrow> app_error + chain_keys option" where
  "space_keys X section keys i =
     rbind (live_metadata X section keys RK_Space i) (\<lambda>live.
     if \<not> live then Inr None
     else
       rbind (opened_secret X section keys RK_SpaceKey i) (\<lambda>opened.
       (case opened of
          None \<Rightarrow> Inr None
        | Some rec \<Rightarrow>
            rbind (ok_or failure (get_str (r_payload rec) (lit ''auth_token''))) (\<lambda>token.
            rbind (ok_or failure (get_str (r_payload rec) (lit ''enc_key''))) (\<lambda>encoded.
            rbind (from_parts X i token encoded) (\<lambda>k. Inr (Some k)))))))"

definition key_secret :: "'a merge_ext_scheme \<Rightarrow> account_state \<Rightarrow> chain_keys \<Rightarrow> rstr
    \<Rightarrow> app_error + rstr option" where
  "key_secret X section keys i =
     rbind (live_metadata X section keys RK_KeySlot i) (\<lambda>live.
     if \<not> live then Inr None
     else
       rbind (opened_secret X section keys RK_Key i) (\<lambda>opened.
       (case opened of
          None \<Rightarrow> Inr None
        | Some rec \<Rightarrow>
            rbind (ok_or failure (get_str (r_payload rec) (lit ''private_key''))) (\<lambda>txt. Inr (Some txt)))))"

definition rev_of :: "sync_record \<Rightarrow> secret_rev" where
  "rev_of rec = \<lparr>sv_version = r_version rec, sv_updated_at_ms = r_updated_at_ms rec,
     sv_device_id = r_device_id rec, sv_deleted = r_deleted rec\<rparr>"

definition secret_revision :: "'a merge_ext_scheme \<Rightarrow> account_state \<Rightarrow> chain_keys \<Rightarrow> record_kind \<Rightarrow> rstr
    \<Rightarrow> app_error + secret_rev option" where
  "secret_revision X section keys kind i =
     rbind (fail_if (acc_chain_id section \<noteq> ck_chain_id keys \<or> \<not> (kind = RK_Key \<or> kind = RK_SpaceKey)) failure) (\<lambda>_.
     (case bt_get (acc_sealed section) (sealed_key (as_str kind) (id_hash X keys (as_str kind) i)) of
        None \<Rightarrow> Inr None
      | Some sld \<Rightarrow>
          rbind (map_err (\<lambda>_. failure) (open_record X keys (sr_envelope sld))) (\<lambda>rec.
          rbind (fail_if (r_kind rec \<noteq> kind \<or> r_id rec \<noteq> i \<or> \<not> valid_secret X rec) failure) (\<lambda>_.
          Inr (Some (rev_of rec))))))"

definition own_fields :: "rstr list" where
  "own_fields = [lit ''schema'', lit ''name'', lit ''mode'', lit ''origin_device_id'', lit ''created_at_ms'',
     lit ''public_key'', lit ''fingerprint'', lit ''key_type'', lit ''has_passphrase'']"

definition legacy_own_payload :: "json \<Rightarrow> bool" where
  "legacy_own_payload payload =
     (case as_object payload of
        None \<Rightarrow> False
      | Some m \<Rightarrow>
          \<not> list_ex (\<lambda>key. key \<notin> set own_fields) (bt_keys m)
          \<and> Option.bind (bt_get m (lit ''schema'')) as_u64 = Some 1
          \<and> Option.bind (bt_get m (lit ''mode'')) as_str_json = Some (lit ''own'')
          \<and> is_some_and (Option.bind (bt_get m (lit ''name'')) as_str_json) valid_slot_name
          \<and> is_some_and (Option.bind (bt_get m (lit ''origin_device_id'')) as_str_json) is_slot_id
          \<and> Option.bind (bt_get m (lit ''created_at_ms'')) as_u64 \<noteq> None
          \<and> list_all (\<lambda>key. is_none_or (bt_get m key) is_null)
              [lit ''public_key'', lit ''fingerprint'', lit ''key_type'', lit ''has_passphrase''])"

definition legacy_own_slot_revision :: "'a merge_ext_scheme \<Rightarrow> account_state \<Rightarrow> chain_keys \<Rightarrow> rstr
    \<Rightarrow> app_error + secret_rev option" where
  "legacy_own_slot_revision X section keys i =
     rbind (fail_if (acc_chain_id section \<noteq> ck_chain_id keys \<or> \<not> is_slot_id i) failure) (\<lambda>_.
     (case bt_get (acc_sealed section) (sealed_key (lit ''keyslot'') (id_hash X keys (lit ''keyslot'') i)) of
        None \<Rightarrow> Inr None
      | Some sld \<Rightarrow>
          rbind (map_err (\<lambda>_. failure) (open_record X keys (sr_envelope sld))) (\<lambda>rec.
          rbind (fail_if (r_kind rec \<noteq> RK_KeySlot \<or> r_id rec \<noteq> i \<or> r_deleted rec
                          \<or> \<not> legacy_own_payload (r_payload rec)) failure) (\<lambda>_.
          Inr (Some ((rev_of rec)\<lparr>sv_deleted := False\<rparr>))))))"

end
