(* ===== verification/Record_Merge.thy ===== *)
theory Record_Merge
  imports Record_Open
begin

text \<open>
  The merge of a pulled page into the account or a space (\<open>sync/record_merge.rs\<close>). Records this
  client understands become typed rows by last writer wins; everything else stays encrypted in
  \<open>sealed\<close>. A page that cannot be merged without losing something is refused as a whole. Mutable
  arguments are returned, with the flag the function returns.
\<close>

section \<open>Identities of sealed rows\<close>

definition legacy_text_payload :: "json \<Rightarrow> bool" where
  "legacy_text_payload payload =
     is_some_and (as_object payload) (\<lambda>p.
       length p = 2 \<and> Option.bind (bt_get p (lit ''schema'')) as_u64 = Some 1
       \<and> Option.bind (bt_get p (lit ''text'')) as_str_json \<noteq> None)"

definition hint_of_fields :: "'a merge_ext_scheme \<Rightarrow> chain_keys \<Rightarrow> envelope \<Rightarrow> bool \<Rightarrow> (rstr, json) btm
    \<Rightarrow> verified_public_identity option" where
  "hint_of_fields X keys env account m =
     Option.bind (Option.bind (bt_get m (lit ''id'')) as_str_json) (\<lambda>i.
     Option.bind (Option.bind (bt_get m (lit ''kind'')) as_str_json) (\<lambda>kind.
     if kind \<noteq> e_kind env \<or> id_hash X keys (e_kind env) i \<noteq> e_id_hash env then None
     else
       Option.bind (Option.bind (bt_get m (lit ''device_id'')) as_str_json) (\<lambda>actor.
       Option.bind (Option.bind (bt_get m (lit ''version'')) as_u64) (\<lambda>version.
       Option.bind (Option.bind (bt_get m (lit ''deleted'')) as_bool) (\<lambda>deleted.
       let known_id = (if account \<and> e_kind env = lit ''meta'' then i = RECORD_ID
                       else if account then is_slot_id i else is_host_id i) in
       if \<not> known_id \<or> \<not> is_slot_id actor \<or> version = 0 \<or> deleted \<noteq> e_deleted env then None
       else
         Option.bind (Option.bind (bt_get m (lit ''updated_at_ms'')) as_u64) (\<lambda>t.
         let hint = \<lparr>vp_id = i, vp_version = version, vp_updated_at_ms = t, vp_device_id = actor,
                     vp_deleted = deleted\<rparr> in
         if length m = 7 \<and> \<not> deleted
            \<and> is_some_and (bt_get m (lit ''payload'')) (\<lambda>payload.
                e_kind env = lit ''host'' \<and> legacy_text_payload payload
                \<or> e_kind env = lit ''keyslot'' \<and> legacy_own_payload payload)
         then None else Some hint))))))"

definition opened_object :: "'a merge_ext_scheme \<Rightarrow> chain_keys \<Rightarrow> rstr \<Rightarrow> envelope \<Rightarrow> (rstr, json) btm option" where
  "opened_object X keys kind env =
     (case open_sealed X keys kind (e_id_hash env) (sealed_of_envelope env) of
        Inl _ \<Rightarrow> None
      | Inr bs \<Rightarrow> Option.bind (x_value_from_slice X bs) as_object)"

definition verify_public_identity :: "'a merge_ext_scheme \<Rightarrow> chain_keys \<Rightarrow> envelope \<Rightarrow> bool
    \<Rightarrow> verified_public_identity option" where
  "verify_public_identity X keys env account =
     (if \<not> (if account then e_kind env = lit ''keyslot'' \<or> e_kind env = lit ''meta''
            else e_kind env = lit ''host'' \<or> e_kind env = lit ''group'') then None
      else Option.bind (opened_object X keys (e_kind env) env) (hint_of_fields X keys env account))"

definition is_legacy_alias_host :: "'a merge_ext_scheme \<Rightarrow> chain_keys \<Rightarrow> envelope \<Rightarrow> bool" where
  "is_legacy_alias_host X keys env =
     (case open_record X keys env of
        Inl _ \<Rightarrow> False
      | Inr rec \<Rightarrow> r_kind rec = RK_Host \<and> \<not> r_deleted rec \<and> legacy_text_payload (r_payload rec))"

definition authenticated_future_schema :: "'a merge_ext_scheme \<Rightarrow> chain_keys \<Rightarrow> envelope \<Rightarrow> u32 option" where
  "authenticated_future_schema X keys env =
     Option.bind (opened_object X keys (lit ''meta'') env) (\<lambda>m.
     Option.bind (Option.bind (bt_get m (lit ''kind'')) as_str_json) (\<lambda>kind.
     Option.bind (Option.bind (bt_get m (lit ''id'')) as_str_json) (\<lambda>i.
     Option.bind (Option.bind (bt_get m (lit ''deleted'')) as_bool) (\<lambda>deleted.
     if kind \<noteq> lit ''meta'' \<or> i \<noteq> ACCOUNT_META_ID \<or> deleted \<noteq> e_deleted env
        \<or> id_hash X keys (lit ''meta'') ACCOUNT_META_ID \<noteq> e_id_hash env then None
     else
       Option.bind (Option.bind (bt_get m (lit ''payload'')) (\<lambda>p. get_u64 p (lit ''schema_version''))) (\<lambda>sch.
       if sch > ucast ACCOUNT_SCHEMA
       then Some (case u32_try_from sch of Some n \<Rightarrow> n | None \<Rightarrow> u32_max) else None)))))"

section \<open>The account gate\<close>

definition opt_max :: "u32 option \<Rightarrow> u32 option \<Rightarrow> u32 option" where
  "opt_max a b = (case a of None \<Rightarrow> b | Some x \<Rightarrow> (case b of None \<Rightarrow> a | Some y \<Rightarrow> Some (max x y)))"

text \<open>The state of the loop over the metadata envelopes: schema, winner, unreadable.\<close>

definition gate_step :: "'a merge_ext_scheme \<Rightarrow> chain_keys \<Rightarrow> u32 option \<times> local_record option \<times> bool \<Rightarrow> envelope
    \<Rightarrow> u32 option \<times> local_record option \<times> bool" where
  "gate_step X keys st env =
     (case st of (sch, winner, unreadable) \<Rightarrow>
        (case open_record X keys env of
           Inr remote \<Rightarrow>
             (opt_max sch (meta_schema remote),
              if merge winner remote \<noteq> KeepLocal
              then Some \<lparr>lr_record = remote, lr_seq = e_seq env, lr_dirty = False\<rparr> else winner,
              unreadable)
         | Inl _ \<Rightarrow> (opt_max sch (authenticated_future_schema X keys env), winner, True)))"

definition gate_of_winner :: "'a merge_ext_scheme \<Rightarrow> u32 option \<Rightarrow> local_record option \<Rightarrow> account_gate" where
  "gate_of_winner X sch winner =
     (case winner of
        None \<Rightarrow> NeedsMigration (case sch of None \<Rightarrow> 0 | Some v \<Rightarrow> v)
      | Some w \<Rightarrow>
          (case meta_schema (lr_record w) of
             None \<Rightarrow> InvalidMigration
           | Some winning_schema \<Rightarrow>
               if winning_schema < MIN_ACCOUNT_SCHEMA then NeedsMigration winning_schema
               else
                 (case valid_meta X (lr_record w) of
                    Inl gate \<Rightarrow> gate
                  | Inr meta \<Rightarrow>
                      (case mv_migration meta of
                         Some marker \<Rightarrow> if mg_phase marker \<noteq> MP_Active then MigrationPending marker else Compatible
                       | None \<Rightarrow> Compatible))))"

definition account_gate_of :: "'a merge_ext_scheme \<Rightarrow> account_state \<Rightarrow> chain_keys \<Rightarrow> pull_response
    \<Rightarrow> account_gate \<times> u32 option" where
  "account_gate_of X section keys pulled =
     (if acc_chain_id section \<noteq> ck_chain_id keys then (InvalidPull, None)
      else
        let winner = bt_get (acc_records section) account_meta_key;
            sch = (case winner of
                        Some w \<Rightarrow> opt_max (acc_remote_schema_version section) (meta_schema (lr_record w))
                      | None \<Rightarrow> acc_remote_schema_version section);
            meta_hash = id_hash X keys (lit ''meta'') ACCOUNT_META_ID;
            (sch, winner, unreadable) =
              foldl (gate_step X keys) (sch, winner, False)
                (filter (\<lambda>row. e_kind row = lit ''meta'' \<and> e_id_hash row = meta_hash) (pl_records pulled))
        in (case opt_filter (\<lambda>v. v > ACCOUNT_SCHEMA) sch of
              Some v \<Rightarrow> (NeedsUpdate v, Some v)
            | None \<Rightarrow>
                if unreadable then (InvalidMigration, sch)
                else (gate_of_winner X sch winner, sch)))"

definition pull_row_ok :: "u64 \<Rightarrow> u64 \<Rightarrow> u64 set \<times> (rstr \<times> rstr) set \<Rightarrow> envelope
    \<Rightarrow> unit + u64 set \<times> (rstr \<times> rstr) set" where
  "pull_row_ok since latest st row =
     (case st of (sequences, identities) \<Rightarrow>
        if e_seq row > since \<and> e_seq row \<le> latest \<and> e_seq row \<notin> sequences
           \<and> (e_kind row, e_id_hash row) \<notin> identities
        then Inr (insert (e_seq row) sequences, insert (e_kind row, e_id_hash row) identities)
        else Inl ())"

definition valid_pull :: "u64 \<Rightarrow> bool \<Rightarrow> u64 \<Rightarrow> pull_response \<Rightarrow> u64 \<Rightarrow> bool" where
  "valid_pull cursor baseline known_seq pulled since \<longleftrightarrow>
     \<not> (pl_latest_seq pulled > MAX_RELAY_SEQ
        \<or> \<not> baseline \<and> since \<noteq> 0
        \<or> baseline \<and> since \<noteq> 0 \<and> since \<noteq> cursor
        \<or> pl_latest_seq pulled < cursor
        \<or> pl_latest_seq pulled < known_seq
        \<or> pl_latest_seq pulled < since)
     \<and> is_ok (for_each (pull_row_ok since (pl_latest_seq pulled)) ({}, {}) (pl_records pulled))"

definition max_seq :: "(rstr, local_record) btm \<Rightarrow> (rstr, sealed_record) btm \<Rightarrow> u64" where
  "max_seq records sealed =
     (case iter_max (map lr_seq (bt_values records) @ map (\<lambda>r. e_seq (sr_envelope r)) (bt_values sealed)) of
        None \<Rightarrow> 0 | Some v \<Rightarrow> v)"

section \<open>Rows\<close>

definition header_view :: "sync_record \<Rightarrow> u64 \<Rightarrow> bool \<Rightarrow> local_record" where
  "header_view rec seq dirty = \<lparr>lr_record = rec\<lparr>r_payload := JNull\<rparr>, lr_seq = seq, lr_dirty = dirty\<rparr>"

definition same_ciphertext :: "envelope \<Rightarrow> envelope \<Rightarrow> bool" where
  "same_ciphertext a b \<longleftrightarrow> e_kind a = e_kind b \<and> e_id_hash a = e_id_hash b \<and> e_nonce a = e_nonce b
     \<and> e_ciphertext a = e_ciphertext b \<and> e_deleted a = e_deleted b"

definition retain_opaque :: "'a merge_ext_scheme \<Rightarrow> (rstr, sealed_record) btm \<Rightarrow> chain_keys \<Rightarrow> envelope \<Rightarrow> bool
    \<Rightarrow> bool \<times> (rstr, sealed_record) btm" where
  "retain_opaque X sealed keys env account =
     (let key = sealed_key (e_kind env) (e_id_hash env);
          replaced = (True, bt_insert key \<lparr>sr_envelope = env, sr_dirty = False,
                        sr_public_identity = verify_public_identity X keys env account\<rparr> sealed) in
      (case bt_get sealed key of
         None \<Rightarrow> replaced
       | Some local \<Rightarrow>
           if sr_dirty local \<and> \<not> same_ciphertext (sr_envelope local) env then (False, sealed)
           else
             (let env' = (sr_envelope local)\<lparr>e_seq := max (e_seq (sr_envelope local)) (e_seq env)\<rparr>;
                  older =
                    (if e_seq (sr_envelope local) > e_seq env
                     then (True, bt_modify key (\<lambda>_. local\<lparr>sr_public_identity :=
                                   verify_public_identity X keys (sr_envelope local) account\<rparr>) sealed)
                     else replaced) in
              (case (open_record X keys (sr_envelope local), open_record X keys env) of
                 (Inr old, Inr remote) \<Rightarrow>
                   if merge (Some (header_view old (e_seq (sr_envelope local)) (sr_dirty local))) remote = KeepLocal
                   then (True, bt_modify key (\<lambda>_. local\<lparr>sr_envelope := env', sr_public_identity :=
                                 verify_public_identity X keys env' account\<rparr>) sealed)
                   else older
               | _ \<Rightarrow> older))))"

record merge_rows_state =
  ms_records :: "(rstr, local_record) btm"
  ms_sealed :: "(rstr, sealed_record) btm"
  ms_conflicts :: "rstr list"
  ms_diagnostics :: "merge_diagnostic list"

definition admissible :: "'a merge_ext_scheme \<Rightarrow> chain_keys \<Rightarrow> bool \<Rightarrow> diagnostic_code + sync_record \<Rightarrow> bool" where
  "admissible X keys account opened =
     (case opened of
        Inl _ \<Rightarrow> False
      | Inr rec \<Rightarrow>
          if is_secret (r_kind rec) then account \<and> valid_secret X rec else valid_public X rec account keys)"

definition merge_opaque_row :: "'a merge_ext_scheme \<Rightarrow> chain_keys \<Rightarrow> bool \<Rightarrow> merge_rows_state \<Rightarrow> envelope
    \<Rightarrow> diagnostic_code \<Rightarrow> bool \<times> merge_rows_state" where
  "merge_opaque_row X keys account st env code =
     (let st = st\<lparr>ms_diagnostics := ms_diagnostics st
                   @ [\<lparr>dg_kind = e_kind env, dg_id_hash = e_id_hash env, dg_code = code\<rparr>]\<rparr> in
      (case retain_opaque X (ms_sealed st) keys env account of
         (ok, sealed) \<Rightarrow> (ok, st\<lparr>ms_sealed := sealed\<rparr>)))"

definition merge_secret_row :: "'a merge_ext_scheme \<Rightarrow> chain_keys \<Rightarrow> merge_rows_state \<Rightarrow> envelope \<Rightarrow> sync_record
    \<Rightarrow> merge_rows_state" where
  "merge_secret_row X keys st env remote =
     (let wire_key = sealed_key (e_kind env) (e_id_hash env);
          local_view = Option.bind (bt_get (ms_sealed st) wire_key) (\<lambda>row.
            (case open_record X keys (sr_envelope row) of
               Inl _ \<Rightarrow> None
             | Inr rec \<Rightarrow> Some (header_view rec (e_seq (sr_envelope row)) (sr_dirty row))));
          outcome = merge local_view remote in
      if outcome = KeepLocal
      then st\<lparr>ms_sealed := bt_modify wire_key (\<lambda>row. row\<lparr>sr_envelope := (sr_envelope row)\<lparr>e_seq :=
                max (e_seq (sr_envelope row)) (e_seq env)\<rparr>\<rparr>) (ms_sealed st)\<rparr>
      else
        st\<lparr>ms_conflicts := (if outcome = RemoteWinsOverDirtyLocal then ms_conflicts st @ [wire_key]
                            else ms_conflicts st),
           ms_sealed := bt_insert wire_key \<lparr>sr_envelope = env, sr_dirty = False, sr_public_identity = None\<rparr>
             (ms_sealed st)\<rparr>)"

text \<open>A sealed row that would be lost refuses the page.\<close>

definition opaque_blocks :: "'a merge_ext_scheme \<Rightarrow> chain_keys \<Rightarrow> (rstr, sealed_record) btm \<Rightarrow> envelope \<Rightarrow> sync_record
    \<Rightarrow> bool" where
  "opaque_blocks X keys sealed env remote =
     is_some_and (bt_get sealed (sealed_key (e_kind env) (e_id_hash env))) (\<lambda>opaque.
       (case open_record X keys (sr_envelope opaque) of
          Inr old \<Rightarrow>
            merge (Some (header_view old (e_seq (sr_envelope opaque)) (sr_dirty opaque))) remote = KeepLocal
        | Inl _ \<Rightarrow> e_seq (sr_envelope opaque) > e_seq env))"

definition merge_public_row :: "'a merge_ext_scheme \<Rightarrow> chain_keys \<Rightarrow> merge_rows_state \<Rightarrow> envelope \<Rightarrow> sync_record
    \<Rightarrow> bool \<times> merge_rows_state" where
  "merge_public_row X keys st env remote =
     (if opaque_blocks X keys (ms_sealed st) env remote then (False, st)
      else
        let wire_key = sealed_key (e_kind env) (e_id_hash env);
            key = record_key (r_kind remote) (r_id remote);
            outcome = merge (bt_get (ms_records st) key) remote;
            st = (if outcome = KeepLocal
                  then st\<lparr>ms_records := bt_modify key (\<lambda>l. l\<lparr>lr_seq := max (lr_seq l) (e_seq env)\<rparr>) (ms_records st)\<rparr>
                  else
                    st\<lparr>ms_conflicts := (if outcome = RemoteWinsOverDirtyLocal then ms_conflicts st @ [key]
                                        else ms_conflicts st),
                       ms_records := bt_insert key \<lparr>lr_record = remote, lr_seq = e_seq env, lr_dirty = False\<rparr>
                         (ms_records st)\<rparr>)
        in (True,
            if is_some_and (bt_get (ms_sealed st) wire_key) sr_dirty then st
            else st\<lparr>ms_sealed := bt_remove wire_key (ms_sealed st)\<rparr>))"

definition merge_row :: "'a merge_ext_scheme \<Rightarrow> chain_keys \<Rightarrow> bool \<Rightarrow> merge_rows_state \<Rightarrow> envelope
    \<Rightarrow> bool \<times> merge_rows_state" where
  "merge_row X keys account st env =
     (let opened = open_record X keys env in
      if \<not> admissible X keys account opened
      then merge_opaque_row X keys account st env (case opened of Inl code \<Rightarrow> code | Inr _ \<Rightarrow> Unsupported)
      else
        (case opened of
           Inl code \<Rightarrow> (False, st)
         | Inr remote \<Rightarrow>
             if is_secret (r_kind remote) then (True, merge_secret_row X keys st env remote)
             else merge_public_row X keys st env remote))"

fun merge_rows :: "'a merge_ext_scheme \<Rightarrow> chain_keys \<Rightarrow> bool \<Rightarrow> merge_rows_state \<Rightarrow> envelope list
    \<Rightarrow> bool \<times> merge_rows_state" where
  "merge_rows X keys account st [] = (True, st)"
| "merge_rows X keys account st (env # envs) =
     (case merge_row X keys account st env of
        (True, st') \<Rightarrow> merge_rows X keys account st' envs
      | (False, st') \<Rightarrow> (False, st'))"

definition admit_retained_group_order :: "'a merge_ext_scheme \<Rightarrow> chain_keys \<Rightarrow> merge_rows_state
    \<Rightarrow> bool \<times> merge_rows_state" where
  "admit_retained_group_order X keys st =
     (let wire_key = sealed_key (lit ''meta'') (id_hash X keys (lit ''meta'') RECORD_ID) in
      (case bt_get (ms_sealed st) wire_key of
         None \<Rightarrow> (True, st)
       | Some retained \<Rightarrow>
           if sr_dirty retained then (True, st)
           else
             (let env = sr_envelope retained in
              if \<not> (case open_record X keys env of Inl _ \<Rightarrow> False | Inr rec \<Rightarrow> decode_order X rec \<noteq> None)
              then (True, st\<lparr>ms_sealed := bt_modify wire_key (\<lambda>r. r\<lparr>sr_public_identity :=
                              verify_public_identity X keys env True\<rparr>) (ms_sealed st)\<rparr>)
              else merge_rows X keys True (st\<lparr>ms_sealed := bt_remove wire_key (ms_sealed st)\<rparr>) [env])))"

section \<open>Sections\<close>

definition len_u32 :: "'b list \<Rightarrow> u32" where
  "len_u32 xs = (if length xs < 2 ^ 32 then of_nat (length xs) else u32_max)"

definition initial_report :: "'s \<Rightarrow> account_gate \<Rightarrow> u32 option \<Rightarrow> bool \<Rightarrow> 's merge_report" where
  "initial_report section gate sch baseline =
     \<lparr>mo_section = section, mo_gate = gate, mo_observed_schema = sch, mo_skipped = 0, mo_conflicts = [],
      mo_diagnostics = [], mo_baseline_established = baseline\<rparr>"

definition refuse_page :: "'s merge_report \<Rightarrow> merge_diagnostic list \<Rightarrow> 's merge_report" where
  "refuse_page out diagnostics =
     out\<lparr>mo_gate := InvalidPull, mo_skipped := len_u32 diagnostics,
         mo_diagnostics := diagnostics @ [\<lparr>dg_kind = [], dg_id_hash = [], dg_code = OpaqueConflict\<rparr>]\<rparr>"

definition merge_account :: "'a merge_ext_scheme \<Rightarrow> account_state \<Rightarrow> chain_keys \<Rightarrow> pull_response \<Rightarrow> u64
    \<Rightarrow> account_state merge_report" where
  "merge_account X section keys pulled since =
     (case account_gate_of X section keys pulled of (gate, sch) \<Rightarrow>
      let out = initial_report section gate sch (acc_baseline_established section) in
      if gate \<noteq> Compatible then out
      else if \<not> valid_pull (acc_cursor_seq section) (acc_baseline_established section)
                  (max_seq (acc_records section) (acc_sealed section)) pulled since
      then out\<lparr>mo_gate := InvalidPull\<rparr>
      else
        (case (case admit_retained_group_order X keys
                      \<lparr>ms_records = acc_records section, ms_sealed = acc_sealed section, ms_conflicts = [],
                       ms_diagnostics = []\<rparr> of
                 (True, st) \<Rightarrow> merge_rows X keys True st (pl_records pulled)
               | (False, st) \<Rightarrow> (False, st)) of
           (False, st) \<Rightarrow> refuse_page out (ms_diagnostics st)
         | (True, st) \<Rightarrow>
             out\<lparr>mo_section := section\<lparr>acc_records := ms_records st, acc_sealed := ms_sealed st,
                    acc_cursor_seq := pl_latest_seq pulled, acc_baseline_established := True,
                    acc_remote_schema_version := sch\<rparr>,
                 mo_conflicts := ms_conflicts st, mo_diagnostics := ms_diagnostics st,
                 mo_skipped := len_u32 (ms_diagnostics st), mo_baseline_established := True\<rparr>))"

definition merge_space :: "'a merge_ext_scheme \<Rightarrow> space_state \<Rightarrow> chain_keys \<Rightarrow> pull_response \<Rightarrow> u64 \<Rightarrow> account_gate
    \<Rightarrow> space_state merge_report" where
  "merge_space X section keys pulled since gate =
     (let out = initial_report section gate None (sp_baseline_established section) in
      if gate \<noteq> Compatible then out
      else if \<not> valid_pull (sp_cursor_seq section) (sp_baseline_established section)
                  (max_seq (sp_records section) (sp_sealed section)) pulled since
      then out\<lparr>mo_gate := InvalidPull\<rparr>
      else
        (case merge_rows X keys False
                \<lparr>ms_records = sp_records section, ms_sealed = sp_sealed section, ms_conflicts = [],
                 ms_diagnostics = []\<rparr> (pl_records pulled) of
           (False, st) \<Rightarrow> refuse_page out (ms_diagnostics st)
         | (True, st) \<Rightarrow>
             out\<lparr>mo_section := section\<lparr>sp_records := ms_records st, sp_sealed := ms_sealed st,
                    sp_cursor_seq := pl_latest_seq pulled, sp_baseline_established := True\<rparr>,
                 mo_conflicts := ms_conflicts st, mo_diagnostics := ms_diagnostics st,
                 mo_skipped := len_u32 (ms_diagnostics st), mo_baseline_established := True\<rparr>))"

section \<open>Opened records\<close>

lemma open_record_Inr:
  assumes "open_record X keys env = Inr rec"
  shows "e_kind env = as_str (r_kind rec)" "e_id_hash env = id_hash X keys (as_str (r_kind rec)) (r_id rec)"
    "e_deleted env = r_deleted rec"
  using assms by (auto simp: open_record_def parse_kind_Some)

lemma admissible_Inr:
  "admissible X keys account opened \<longleftrightarrow> (\<exists>rec. opened = Inr rec
     \<and> (if is_secret (r_kind rec) then account \<and> valid_secret X rec else valid_public X rec account keys))"
  by (auto simp: admissible_def split: sum.splits)

lemma merge_row_cases:
  obtains (opaque) code where "\<not> admissible X keys account (open_record X keys env)"
      "merge_row X keys account st env = merge_opaque_row X keys account st env code"
    | (hidden) remote where "open_record X keys env = Inr remote" "admissible X keys account (Inr remote)"
      "is_secret (r_kind remote)" "merge_row X keys account st env = (True, merge_secret_row X keys st env remote)"
    | (typed) remote where "open_record X keys env = Inr remote" "admissible X keys account (Inr remote)"
      "\<not> is_secret (r_kind remote)" "merge_row X keys account st env = merge_public_row X keys st env remote"
proof (cases "admissible X keys account (open_record X keys env)")
  case False
  then show thesis by (intro opaque) (simp_all add: merge_row_def Let_def)
next
  case True
  then obtain remote where r: "open_record X keys env = Inr remote" by (auto simp: admissible_Inr)
  show thesis
    by (cases "is_secret (r_kind remote)")
      (use True r hidden typed in \<open>simp_all add: merge_row_def Let_def\<close>)
qed

section \<open>Well-formed sections\<close>

definition rows_wf :: "(rstr, local_record) btm \<Rightarrow> bool" where
  "rows_wf records \<longleftrightarrow> bt_inv records \<and> (\<forall>(key, row) \<in> set records.
     key = record_key (r_kind (lr_record row)) (r_id (lr_record row)) \<and> \<not> is_secret (r_kind (lr_record row)))"

definition sealed_wf :: "(rstr, sealed_record) btm \<Rightarrow> bool" where
  "sealed_wf sealed \<longleftrightarrow> bt_inv sealed \<and> (\<forall>(key, row) \<in> set sealed.
     key = sealed_key (e_kind (sr_envelope row)) (e_id_hash (sr_envelope row)))"

definition section_wf :: "merge_rows_state \<Rightarrow> bool" where
  "section_wf st \<longleftrightarrow> rows_wf (ms_records st) \<and> sealed_wf (ms_sealed st)"

lemma all_insert:
  assumes "\<And>k v. (k, v) \<in> set m \<Longrightarrow> P k v" and "P key row" and "(k, v) \<in> set (bt_insert key row m)"
  shows "P k v"
  using set_bt_insert [of key row m] assms by blast

lemma all_modify:
  assumes "\<And>k v. (k, v) \<in> set m \<Longrightarrow> P k v" and "\<And>v. (key, v) \<in> set m \<Longrightarrow> P key (f v)"
    and "(k, v) \<in> set (bt_modify key f m)"
  shows "P k v"
  using set_bt_modify [of key f m] assms by blast

lemma rows_wf_iff:
  "rows_wf m \<longleftrightarrow> bt_inv m \<and> (\<forall>key row. (key, row) \<in> set m \<longrightarrow>
     key = record_key (r_kind (lr_record row)) (r_id (lr_record row)) \<and> \<not> is_secret (r_kind (lr_record row)))"
  unfolding rows_wf_def by blast

lemma sealed_wf_iff:
  "sealed_wf m \<longleftrightarrow> bt_inv m \<and> (\<forall>key row. (key, row) \<in> set m \<longrightarrow>
     key = sealed_key (e_kind (sr_envelope row)) (e_id_hash (sr_envelope row)))"
  unfolding sealed_wf_def by blast

lemma rows_wf_insert:
  assumes "rows_wf m" and "key = record_key (r_kind (lr_record row)) (r_id (lr_record row))"
    and "\<not> is_secret (r_kind (lr_record row))"
  shows "rows_wf (bt_insert key row m)"
  unfolding rows_wf_iff
proof (intro conjI allI impI)
  show "bt_inv (bt_insert key row m)" using assms(1) by (simp add: rows_wf_iff bt_inv_insert)
  fix k r
  assume "(k, r) \<in> set (bt_insert key row m)"
  with all_insert [of m "\<lambda>k r. k = record_key (r_kind (lr_record r)) (r_id (lr_record r)) \<and> \<not> is_secret (r_kind (lr_record r))"]
  show "k = record_key (r_kind (lr_record r)) (r_id (lr_record r))" "\<not> is_secret (r_kind (lr_record r))"
    using assms unfolding rows_wf_iff by blast+
qed

lemma rows_wf_modify:
  assumes "rows_wf m" and "\<And>row. lr_record (f row) = lr_record row"
  shows "rows_wf (bt_modify key f m)"
  unfolding rows_wf_iff
proof (intro conjI allI impI)
  show "bt_inv (bt_modify key f m)" using assms(1) by (simp add: rows_wf_iff bt_inv_modify)
  fix k r
  assume "(k, r) \<in> set (bt_modify key f m)"
  with all_modify [of m "\<lambda>k r. k = record_key (r_kind (lr_record r)) (r_id (lr_record r)) \<and> \<not> is_secret (r_kind (lr_record r))" key f]
  show "k = record_key (r_kind (lr_record r)) (r_id (lr_record r))" "\<not> is_secret (r_kind (lr_record r))"
    using assms(1) unfolding rows_wf_iff assms(2) by blast+
qed

lemma sealed_wf_insert:
  assumes "sealed_wf m" and "key = sealed_key (e_kind (sr_envelope row)) (e_id_hash (sr_envelope row))"
  shows "sealed_wf (bt_insert key row m)"
  unfolding sealed_wf_iff
proof (intro conjI allI impI)
  show "bt_inv (bt_insert key row m)" using assms(1) by (simp add: sealed_wf_iff bt_inv_insert)
  fix k r
  assume "(k, r) \<in> set (bt_insert key row m)"
  with all_insert [of m "\<lambda>k r. k = sealed_key (e_kind (sr_envelope r)) (e_id_hash (sr_envelope r))"]
  show "k = sealed_key (e_kind (sr_envelope r)) (e_id_hash (sr_envelope r))"
    using assms unfolding sealed_wf_iff by blast
qed

lemma sealed_wf_modify:
  assumes "sealed_wf m" and "\<And>row. (key, row) \<in> set m \<Longrightarrow> e_kind (sr_envelope (f row)) = e_kind (sr_envelope row)
      \<and> e_id_hash (sr_envelope (f row)) = e_id_hash (sr_envelope row)"
  shows "sealed_wf (bt_modify key f m)"
  unfolding sealed_wf_iff
proof (intro conjI allI impI)
  show "bt_inv (bt_modify key f m)" using assms(1) by (simp add: sealed_wf_iff bt_inv_modify)
  fix k r
  assume e: "(k, r) \<in> set (bt_modify key f m)"
  show "k = sealed_key (e_kind (sr_envelope r)) (e_id_hash (sr_envelope r))"
  proof (rule all_modify [where P = "\<lambda>k r. k = sealed_key (e_kind (sr_envelope r)) (e_id_hash (sr_envelope r))", OF _ _ e])
    show "key = sealed_key (e_kind (sr_envelope (f v))) (e_id_hash (sr_envelope (f v)))" if "(key, v) \<in> set m" for v
      using assms(1) assms(2) [OF that] that unfolding sealed_wf_iff by simp
  qed (use assms(1) in \<open>simp add: sealed_wf_iff\<close>)
qed

lemma sealed_wf_remove: "sealed_wf m \<Longrightarrow> sealed_wf (bt_remove key m)"
  using set_bt_remove [of key m] by (auto simp: sealed_wf_iff bt_inv_remove)

lemma retain_opaque_wf:
  assumes "sealed_wf m"
  shows "sealed_wf (snd (retain_opaque X m keys env account))"
proof -
  let ?key = "sealed_key (e_kind env) (e_id_hash env)"
  have "sealed_wf (bt_insert ?key \<lparr>sr_envelope = env, sr_dirty = False, sr_public_identity = h\<rparr> m)" for h
    using assms by (simp add: sealed_wf_insert)
  moreover have "sealed_wf (bt_modify ?key (\<lambda>_. local\<lparr>sr_public_identity := h\<rparr>) m)"
    "sealed_wf (bt_modify ?key (\<lambda>_. local\<lparr>sr_envelope := (sr_envelope local)\<lparr>e_seq := n\<rparr>, sr_public_identity := h\<rparr>) m)"
    if g: "bt_get m ?key = Some local" for local n h
  proof -
    have "row = local" if "(?key, row) \<in> set m" for row
      using that g assms by (simp add: sealed_wf_iff bt_get_iff [symmetric])
    then show "sealed_wf (bt_modify ?key (\<lambda>_. local\<lparr>sr_public_identity := h\<rparr>) m)"
      "sealed_wf (bt_modify ?key (\<lambda>_. local\<lparr>sr_envelope := (sr_envelope local)\<lparr>e_seq := n\<rparr>, sr_public_identity := h\<rparr>) m)"
      by (auto intro!: sealed_wf_modify [OF assms])
  qed
  ultimately show ?thesis
    using assms by (auto simp: retain_opaque_def Let_def split: option.splits sum.splits)
qed

lemma merge_row_wf:
  assumes "section_wf st" and "merge_row X keys account st env = (ok, st')"
  shows "section_wf st'"
proof (cases rule: merge_row_cases [of X keys account env st])
  case (opaque code)
  with assms retain_opaque_wf [of "ms_sealed st" X keys env account] show ?thesis
    by (auto simp: merge_opaque_row_def Let_def section_wf_def split: prod.splits)
next
  case (hidden remote)
  with assms show ?thesis
    by (auto simp: merge_secret_row_def Let_def section_wf_def intro!: sealed_wf_modify sealed_wf_insert)
next
  case (typed remote)
  with assms show ?thesis
    by (auto simp: merge_public_row_def Let_def section_wf_def intro!: rows_wf_modify rows_wf_insert sealed_wf_remove
        split: if_splits)
qed

lemma merge_rows_inv:
  assumes "merge_rows X keys account st envs = (ok, st')" and "P st"
    and "\<And>st env ok st'. env \<in> set envs \<Longrightarrow> P st \<Longrightarrow> merge_row X keys account st env = (ok, st') \<Longrightarrow> P st'"
  shows "P st'"
  using assms
proof (induction envs arbitrary: st)
  case Nil
  then show ?case by simp
next
  case (Cons env envs)
  obtain b st1 where r: "merge_row X keys account st env = (b, st1)" by fastforce
  have "P st1" using Cons.prems(3) [OF _ Cons.prems(2) r] by simp
  with Cons.IH [of st1] Cons.prems r show ?case by (cases b) auto
qed

lemma merge_rows_wf: "merge_rows X keys account st envs = (ok, st') \<Longrightarrow> section_wf st \<Longrightarrow> section_wf st'"
  by (rule merge_rows_inv) (auto intro: merge_row_wf)

section \<open>What a page does to one row\<close>

text \<open>The revisions of one typed row that a page carries, in order, with their sequence numbers.\<close>

definition arrival :: "'a merge_ext_scheme \<Rightarrow> chain_keys \<Rightarrow> bool \<Rightarrow> rstr \<Rightarrow> envelope \<Rightarrow> (sync_record \<times> u64) list" where
  "arrival X keys account key env =
     (case open_record X keys env of
        Inl _ \<Rightarrow> []
      | Inr rec \<Rightarrow>
          if \<not> is_secret (r_kind rec) \<and> valid_public X rec account keys
             \<and> record_key (r_kind rec) (r_id rec) = key then [(rec, e_seq env)] else [])"

lemma merge_row_arrival:
  assumes "merge_row X keys account st env = (True, st')"
  shows "bt_get (ms_records st') key = foldl absorb (bt_get (ms_records st) key) (arrival X keys account key env)"
proof (cases rule: merge_row_cases [of X keys account env st])
  case (opaque code)
  have "arrival X keys account key env = []"
    using opaque(1) by (auto simp: arrival_def admissible_Inr split: sum.splits)
  with assms opaque(2) show ?thesis by (auto simp: merge_opaque_row_def Let_def split: prod.splits)
next
  case (hidden remote)
  with assms show ?thesis by (auto simp: arrival_def merge_secret_row_def Let_def)
next
  case (typed remote)
  then have v: "valid_public X remote account keys" by (simp add: admissible_Inr)
  from typed assms have "\<not> opaque_blocks X keys (ms_sealed st) env remote"
    by (auto simp: merge_public_row_def split: if_splits)
  with typed assms v show ?thesis
    by (auto simp: merge_public_row_def Let_def arrival_def absorb_def split: if_splits)
qed

lemma merge_rows_arrivals:
  assumes "merge_rows X keys account st envs = (True, st')"
  shows "bt_get (ms_records st') key
    = foldl absorb (bt_get (ms_records st) key) (concat (map (arrival X keys account key) envs))"
  using assms
proof (induction envs arbitrary: st)
  case Nil
  then show ?case by simp
next
  case (Cons env envs)
  then obtain st1 where r: "merge_row X keys account st env = (True, st1)"
    and rs: "merge_rows X keys account st1 envs = (True, st')"
    by (auto split: prod.splits bool.splits)
  with Cons.IH [OF rs] merge_row_arrival [OF r, of key] show ?case by simp
qed

text \<open>Unsent local work is never dropped silently.\<close>

lemma merge_row_conflicts:
  assumes "merge_row X keys account st env = (ok, st')"
  shows "set (ms_conflicts st) \<subseteq> set (ms_conflicts st')"
proof (cases rule: merge_row_cases [of X keys account env st])
  case (opaque code)
  with assms show ?thesis by (auto simp: merge_opaque_row_def Let_def split: prod.splits)
next
  case (hidden remote)
  with assms show ?thesis by (auto simp: merge_secret_row_def Let_def split: if_splits)
next
  case (typed remote)
  with assms show ?thesis by (auto simp: merge_public_row_def Let_def split: if_splits)
qed

lemma merge_row_dirty:
  assumes "merge_row X keys account st env = (ok, st')" and "bt_get (ms_records st) key = Some l" and "lr_dirty l"
  shows "key \<in> set (ms_conflicts st')
    \<or> (\<exists>l'. bt_get (ms_records st') key = Some l' \<and> lr_record l' = lr_record l \<and> lr_dirty l')"
proof (cases rule: merge_row_cases [of X keys account env st])
  case (opaque code)
  with assms show ?thesis by (auto simp: merge_opaque_row_def Let_def split: prod.splits)
next
  case (hidden remote)
  with assms show ?thesis by (auto simp: merge_secret_row_def Let_def)
next
  case (typed remote)
  with assms show ?thesis
    by (auto simp: merge_public_row_def Let_def split: if_splits)
qed

lemma merge_rows_dirty:
  assumes "merge_rows X keys account st envs = (ok, st')" and "bt_get (ms_records st) key = Some l" and "lr_dirty l"
  shows "key \<in> set (ms_conflicts st')
    \<or> (\<exists>l'. bt_get (ms_records st') key = Some l' \<and> lr_record l' = lr_record l \<and> lr_dirty l')"
  using assms(1)
proof (rule merge_rows_inv)
  fix s env b s'
  assume a: "key \<in> set (ms_conflicts s)
    \<or> (\<exists>l'. bt_get (ms_records s) key = Some l' \<and> lr_record l' = lr_record l \<and> lr_dirty l')"
    and r: "merge_row X keys account s env = (b, s')"
  show "key \<in> set (ms_conflicts s')
    \<or> (\<exists>l'. bt_get (ms_records s') key = Some l' \<and> lr_record l' = lr_record l \<and> lr_dirty l')"
  proof (cases "key \<in> set (ms_conflicts s)")
    case True
    then show ?thesis using merge_row_conflicts [OF r] by auto
  next
    case False
    with a obtain l' :: local_record where "bt_get (ms_records s) key = Some l'" "lr_record l' = lr_record l" "lr_dirty l'"
      by blast
    with merge_row_dirty [OF r] show ?thesis by metis
  qed
qed (use assms in blast)

section \<open>Pages\<close>

lemma pull_row_ok_pair:
  "pull_row_ok since latest (A, B) env =
     (if e_seq env > since \<and> e_seq env \<le> latest \<and> e_seq env \<notin> A \<and> (e_kind env, e_id_hash env) \<notin> B
      then Inr (insert (e_seq env) A, insert (e_kind env, e_id_hash env) B) else Inl ())"
  by (simp add: pull_row_ok_def)

lemma valid_pull_rows:
  assumes "valid_pull cursor baseline known pulled since"
  shows "cursor \<le> pl_latest_seq pulled" "known \<le> pl_latest_seq pulled" "pl_latest_seq pulled \<le> MAX_RELAY_SEQ"
    "\<forall>env \<in> set (pl_records pulled). since < e_seq env \<and> e_seq env \<le> pl_latest_seq pulled"
    "distinct (map e_seq (pl_records pulled))"
    "distinct (map (\<lambda>env. (e_kind env, e_id_hash env)) (pl_records pulled))"
proof -
  have *: "(\<forall>env \<in> set envs. since < e_seq env \<and> e_seq env \<le> latest)
      \<and> distinct (map e_seq envs) \<and> distinct (map (\<lambda>env. (e_kind env, e_id_hash env)) envs)
      \<and> e_seq ` set envs \<inter> A = {} \<and> (\<lambda>env. (e_kind env, e_id_hash env)) ` set envs \<inter> B = {}"
    if "is_ok (for_each (pull_row_ok since latest) (A, B) envs)" for envs A B latest
    using that
  proof (induction envs arbitrary: A B)
    case (Cons env envs)
    have c: "since < e_seq env" "e_seq env \<le> latest" "e_seq env \<notin> A" "(e_kind env, e_id_hash env) \<notin> B"
      "is_ok (for_each (pull_row_ok since latest) (insert (e_seq env) A, insert (e_kind env, e_id_hash env) B) envs)"
      using Cons.prems by (auto simp: pull_row_ok_pair split: if_splits)
    from Cons.IH [OF c(5)] c(1-4) show ?case by (simp add: image_iff)
  qed simp
  show "cursor \<le> pl_latest_seq pulled" "known \<le> pl_latest_seq pulled" "pl_latest_seq pulled \<le> MAX_RELAY_SEQ"
    using assms by (auto simp: valid_pull_def)
  show "\<forall>env \<in> set (pl_records pulled). since < e_seq env \<and> e_seq env \<le> pl_latest_seq pulled"
    "distinct (map e_seq (pl_records pulled))"
    "distinct (map (\<lambda>env. (e_kind env, e_id_hash env)) (pl_records pulled))"
    using * [OF assms [unfolded valid_pull_def, THEN conjunct2]] by simp_all
qed

section \<open>The gate\<close>

text \<open>\<open>Option<u32>\<close> with \<open>None\<close> below every value.\<close>

definition opt_le :: "u32 option \<Rightarrow> u32 option \<Rightarrow> bool" where
  "opt_le a b \<longleftrightarrow> (\<forall>x. a = Some x \<longrightarrow> (\<exists>y. b = Some y \<and> x \<le> y))"

lemma opt_le_refl [simp]: "opt_le a a"
  by (simp add: opt_le_def)

lemma opt_le_trans: "opt_le a b \<Longrightarrow> opt_le b c \<Longrightarrow> opt_le a c"
  unfolding opt_le_def by (metis order.trans)

lemma opt_le_max [simp]: "opt_le a (opt_max a b)" "opt_le b (opt_max a b)"
  by (auto simp: opt_le_def opt_max_def split: option.splits)

lemma gate_fold_schema:
  assumes "foldl (gate_step X keys) (sch, winner, un) envs = (sch', winner', un')"
  shows "opt_le sch sch'"
    and "\<And>env rec. env \<in> set envs \<Longrightarrow> open_record X keys env = Inr rec \<Longrightarrow> opt_le (meta_schema rec) sch'"
proof -
  have "opt_le sch sch' \<and> (\<forall>env \<in> set envs. \<forall>rec. open_record X keys env = Inr rec \<longrightarrow> opt_le (meta_schema rec) sch')"
    using assms
  proof (induction envs arbitrary: sch winner un)
    case (Cons env envs)
    obtain s1 w1 u1 where g: "gate_step X keys (sch, winner, un) env = (s1, w1, u1)" by (metis prod_cases3)
    have f: "foldl (gate_step X keys) (s1, w1, u1) envs = (sch', winner', un')" using Cons.prems g by simp
    have "opt_le sch s1" "\<And>rec. open_record X keys env = Inr rec \<Longrightarrow> opt_le (meta_schema rec) s1"
      using g by (auto simp: gate_step_def split: sum.splits)
    with Cons.IH [OF f] opt_le_trans show ?case by (metis set_ConsD)
  qed simp
  then show "opt_le sch sch'"
    "\<And>env rec. env \<in> set envs \<Longrightarrow> open_record X keys env = Inr rec \<Longrightarrow> opt_le (meta_schema rec) sch'" by blast+
qed

text \<open>If every metadata revision could be read, the winner is beaten by none of them.\<close>

lemma gate_fold_winner:
  assumes "foldl (gate_step X keys) (sch, winner, un) envs = (sch', winner', False)"
  shows "\<not> un" and "\<And>env. env \<in> set envs \<Longrightarrow> \<exists>rec w. open_record X keys env = Inr rec
      \<and> winner' = Some w \<and> \<not> remote_wins rec (lr_record w)"
    and "\<And>w. winner = Some w \<Longrightarrow> \<exists>w'. winner' = Some w' \<and> \<not> remote_wins (lr_record w) (lr_record w')"
proof -
  have "\<not> un \<and> (\<forall>env \<in> set envs. \<exists>rec w. open_record X keys env = Inr rec
      \<and> winner' = Some w \<and> \<not> remote_wins rec (lr_record w))
    \<and> (\<forall>w. winner = Some w \<longrightarrow> (\<exists>w'. winner' = Some w' \<and> \<not> remote_wins (lr_record w) (lr_record w')))"
    using assms
  proof (induction envs arbitrary: sch winner un)
    case Nil
    then show ?case by (simp add: wins.irrefl)
  next
    case (Cons env envs)
    obtain s1 w1 u1 where g: "gate_step X keys (sch, winner, un) env = (s1, w1, u1)" by (metis prod_cases3)
    have f: "foldl (gate_step X keys) (s1, w1, u1) envs = (sch', winner', False)" using Cons.prems g by simp
    note IH = Cons.IH [OF f]
    show ?case
    proof (cases "open_record X keys env")
      case (Inl code)
      with g IH show ?thesis by (simp add: gate_step_def)
    next
      case (Inr rec)
      with g have u1: "u1 = un" and w1: "w1 = (if merge winner rec \<noteq> KeepLocal
              then Some \<lparr>lr_record = rec, lr_seq = e_seq env, lr_dirty = False\<rparr> else winner)"
        by (auto simp: gate_step_def)
      obtain w where w: "w1 = Some w" "\<not> remote_wins rec (lr_record w)"
        "\<And>v. winner = Some v \<Longrightarrow> \<not> remote_wins (lr_record v) (lr_record w)"
        using w1 by (cases winner; cases "merge winner rec = KeepLocal")
          (auto simp: merge_not_keep merge_KeepLocal wins.irrefl dest: wins.asym)
      from IH w(1) obtain w' where w': "winner' = Some w'" "\<not> remote_wins (lr_record w) (lr_record w')" by blast
      have "\<not> remote_wins rec (lr_record w')" by (rule wins.negtrans [OF w(2) w'(2)])
      moreover have "\<not> remote_wins (lr_record v) (lr_record w')" if "winner = Some v" for v
        by (rule wins.negtrans [OF w(3) [OF that] w'(2)])
      ultimately show ?thesis using IH u1 w' Inr by simp
    qed
  qed
  then show "\<not> un" "\<And>env. env \<in> set envs \<Longrightarrow> \<exists>rec w. open_record X keys env = Inr rec
      \<and> winner' = Some w \<and> \<not> remote_wins rec (lr_record w)"
    "\<And>w. winner = Some w \<Longrightarrow> \<exists>w'. winner' = Some w' \<and> \<not> remote_wins (lr_record w) (lr_record w')"
    by blast+
qed

end
