(* ===== verification/Record_Push.thy ===== *)
theory Record_Push
  imports Record_Merge
begin

text \<open>
  The push half of \<open>sync/record_merge.rs\<close>: the dirty rows of a section as push items, and the receipts
  of the relay. A receipt clears the dirty flag only of the very revision that was sent. The nonce of
  the n-th new item is the n-th element of \<open>random\<close>.
\<close>

section \<open>Operations\<close>

definition outgoing_public :: "'a merge_ext_scheme \<Rightarrow> (nat \<Rightarrow> rstr + bytes) \<Rightarrow> (rstr, sealed_record) btm \<Rightarrow> chain_keys \<Rightarrow> bool
    \<Rightarrow> typed_outgoing list \<Rightarrow> rstr \<times> local_record \<Rightarrow> app_error + typed_outgoing list" where
  "outgoing_public X random sealed keys account out kr =
     (case kr of (key, row) \<Rightarrow>
        rbind (fail_if (is_secret (r_kind (lr_record row))
                        \<or> key \<noteq> record_key (r_kind (lr_record row)) (r_id (lr_record row))
                        \<or> \<not> valid_public X (lr_record row) account keys
                        \<or> bt_contains sealed (sealed_key (as_str (r_kind (lr_record row)))
                            (id_hash X keys (as_str (r_kind (lr_record row))) (r_id (lr_record row))))) failure) (\<lambda>_.
        rbind (encode_record X (random (length out)) keys (lr_record row) (lr_seq row)) (\<lambda>item.
        Inr (out @ [\<lparr>to_outgoing = \<lparr>og_key = key, og_item = item, og_version = r_version (lr_record row),
                       og_updated_at_ms = r_updated_at_ms (lr_record row)\<rparr>,
                     to_expected = ExpectPublic (lr_record row)\<rparr>]))))"

definition outgoing_sealed :: "'a merge_ext_scheme \<Rightarrow> chain_keys \<Rightarrow> bool \<Rightarrow> typed_outgoing list \<Rightarrow> rstr \<times> sealed_record
    \<Rightarrow> app_error + typed_outgoing list" where
  "outgoing_sealed X keys account out kr =
     (case kr of (key, row) \<Rightarrow>
        rbind (map_err (\<lambda>_. failure) (open_record X keys (sr_envelope row))) (\<lambda>opened.
        rbind (fail_if (\<not> account \<or> \<not> is_secret (r_kind opened) \<or> \<not> valid_secret X opened
                        \<or> key \<noteq> sealed_key (e_kind (sr_envelope row)) (e_id_hash (sr_envelope row))) failure) (\<lambda>_.
        Inr (out @ [\<lparr>to_outgoing = \<lparr>og_key = key,
                       og_item = \<lparr>pi_id_hash = e_id_hash (sr_envelope row), pi_kind = e_kind (sr_envelope row),
                         pi_nonce = e_nonce (sr_envelope row), pi_ciphertext = e_ciphertext (sr_envelope row),
                         pi_deleted = e_deleted (sr_envelope row), pi_base_seq = e_seq (sr_envelope row)\<rparr>,
                       og_version = r_version opened, og_updated_at_ms = r_updated_at_ms opened\<rparr>,
                     to_expected = ExpectSealed (sr_envelope row)\<rparr>]))))"

definition outgoing :: "'a merge_ext_scheme \<Rightarrow> (nat \<Rightarrow> rstr + bytes) \<Rightarrow> (rstr, local_record) btm
    \<Rightarrow> (rstr, sealed_record) btm \<Rightarrow> chain_keys \<Rightarrow> bool \<Rightarrow> app_error + typed_outgoing list" where
  "outgoing X random records sealed keys account =
     rbind (for_each (outgoing_public X random sealed keys account) []
              (filter (\<lambda>(_, row). lr_dirty row) records)) (\<lambda>out.
     for_each (outgoing_sealed X keys account) out (filter (\<lambda>(_, row). sr_dirty row) sealed))"

definition account_outgoing :: "'a merge_ext_scheme \<Rightarrow> (nat \<Rightarrow> rstr + bytes) \<Rightarrow> account_state \<Rightarrow> chain_keys
    \<Rightarrow> app_error + typed_outgoing list" where
  "account_outgoing X random section keys =
     rbind (fail_if (fst (account_gate_of X section keys
                            \<lparr>pl_records = [], pl_latest_seq = acc_cursor_seq section\<rparr>) \<noteq> Compatible
                     \<or> \<not> acc_baseline_established section \<or> acc_frozen section \<noteq> None) failure) (\<lambda>_.
     outgoing X random (acc_records section) (acc_sealed section) keys True)"

definition space_outgoing :: "'a merge_ext_scheme \<Rightarrow> (nat \<Rightarrow> rstr + bytes) \<Rightarrow> space_state \<Rightarrow> chain_keys \<Rightarrow> account_gate
    \<Rightarrow> app_error + typed_outgoing list" where
  "space_outgoing X random section keys gate =
     rbind (fail_if (gate \<noteq> Compatible \<or> \<not> sp_baseline_established section \<or> \<not> sp_selected section
                     \<or> sp_missing section) failure) (\<lambda>_.
     outgoing X random (sp_records section) (sp_sealed section) keys False)"

text \<open>One accepted item: \<open>accepted\<close> pairs a key with the sequence number the relay gave it.\<close>

definition receive :: "typed_outgoing list \<Rightarrow> (rstr, local_record) btm \<times> (rstr, sealed_record) btm \<Rightarrow> rstr \<times> u64
    \<Rightarrow> (rstr, local_record) btm \<times> (rstr, sealed_record) btm" where
  "receive sent_items st accepted =
     (case st of (records, sealed) \<Rightarrow> case accepted of (key, seq) \<Rightarrow>
        (case find (\<lambda>sent. og_key (to_outgoing sent) = key) sent_items of
           None \<Rightarrow> (records, sealed)
         | Some sent \<Rightarrow>
             if seq = 0 \<or> seq > MAX_RELAY_SEQ \<or> seq < pi_base_seq (og_item (to_outgoing sent))
             then (records, sealed)
             else
               (case to_expected sent of
                  ExpectPublic expected \<Rightarrow>
                    (bt_modify key (\<lambda>row. if lr_dirty row \<and> lr_record row = expected \<and> lr_seq row \<le> seq
                                          then row\<lparr>lr_seq := seq, lr_dirty := False\<rparr> else row) records, sealed)
                | ExpectSealed expected \<Rightarrow>
                    (records, bt_modify key (\<lambda>row. if sr_dirty row \<and> same_ciphertext (sr_envelope row) expected
                                                       \<and> e_seq (sr_envelope row) \<le> seq
                                                   then row\<lparr>sr_envelope := (sr_envelope row)\<lparr>e_seq := seq\<rparr>, sr_dirty := False\<rparr>
                                                   else row) sealed))))"

definition apply_receipts :: "typed_outgoing list \<Rightarrow> (rstr \<times> u64) list \<Rightarrow> (rstr, local_record) btm \<times> (rstr, sealed_record) btm
    \<Rightarrow> (rstr, local_record) btm \<times> (rstr, sealed_record) btm" where
  "apply_receipts sent_items accepted st = foldl (receive sent_items) st accepted"

definition apply_account_receipts :: "account_state \<Rightarrow> typed_outgoing list \<Rightarrow> (rstr \<times> u64) list \<Rightarrow> account_state" where
  "apply_account_receipts section sent_items accepted =
     (case apply_receipts sent_items accepted (acc_records section, acc_sealed section) of
        (records, sealed) \<Rightarrow> section\<lparr>acc_records := records, acc_sealed := sealed\<rparr>)"

definition apply_space_receipts :: "space_state \<Rightarrow> typed_outgoing list \<Rightarrow> (rstr \<times> u64) list \<Rightarrow> space_state" where
  "apply_space_receipts section sent_items accepted =
     (case apply_receipts sent_items accepted (sp_records section, sp_sealed section) of
        (records, sealed) \<Rightarrow> section\<lparr>sp_records := records, sp_sealed := sealed\<rparr>)"

section \<open>Outgoing rows\<close>

lemma outgoing_public_Inr:
  "outgoing_public X random sealed keys account out (key, row) = Inr out' \<longleftrightarrow>
     \<not> is_secret (r_kind (lr_record row)) \<and> key = record_key (r_kind (lr_record row)) (r_id (lr_record row))
     \<and> valid_public X (lr_record row) account keys
     \<and> bt_get sealed (sealed_key (as_str (r_kind (lr_record row)))
         (id_hash X keys (as_str (r_kind (lr_record row))) (r_id (lr_record row)))) = None
     \<and> (\<exists>item. encode_record X (random (length out)) keys (lr_record row) (lr_seq row) = Inr item
          \<and> out' = out @ [\<lparr>to_outgoing = \<lparr>og_key = key, og_item = item, og_version = r_version (lr_record row),
                og_updated_at_ms = r_updated_at_ms (lr_record row)\<rparr>, to_expected = ExpectPublic (lr_record row)\<rparr>])"
  by (auto simp: outgoing_public_def bt_contains_def)

text \<open>What one pushed item says about the row it was made from.\<close>

definition sent_row :: "'a merge_ext_scheme \<Rightarrow> (nat \<Rightarrow> rstr + bytes) \<Rightarrow> chain_keys \<Rightarrow> rstr \<times> local_record \<Rightarrow> typed_outgoing \<Rightarrow> bool" where
  "sent_row X random keys kr sent \<longleftrightarrow>
     og_key (to_outgoing sent) = fst kr \<and> to_expected sent = ExpectPublic (lr_record (snd kr))
     \<and> (\<exists>n. encode_record X (random n) keys (lr_record (snd kr)) (lr_seq (snd kr)) = Inr (og_item (to_outgoing sent)))"

lemma outgoing_rows:
  assumes "for_each (outgoing_public X random sealed keys account) out rows = Inr out'"
  shows "\<exists>new. out' = out @ new \<and> list_all2 (sent_row X random keys) rows new
    \<and> (\<forall>(key, row) \<in> set rows. valid_public X (lr_record row) account keys \<and> \<not> is_secret (r_kind (lr_record row)))"
  using assms
proof (induction rows arbitrary: out)
  case Nil
  then show ?case by simp
next
  case (Cons kr rows)
  obtain key row where kr: "kr = (key, row)" by (cases kr)
  from Cons.prems obtain o1 where o1: "outgoing_public X random sealed keys account out (key, row) = Inr o1"
    and f: "for_each (outgoing_public X random sealed keys account) o1 rows = Inr out'"
    by (auto simp: kr)
  from o1 obtain item where i: "encode_record X (random (length out)) keys (lr_record row) (lr_seq row) = Inr item"
    and v: "valid_public X (lr_record row) account keys" "\<not> is_secret (r_kind (lr_record row))"
    and eq: "o1 = out @ [\<lparr>to_outgoing = \<lparr>og_key = key, og_item = item, og_version = r_version (lr_record row),
                og_updated_at_ms = r_updated_at_ms (lr_record row)\<rparr>, to_expected = ExpectPublic (lr_record row)\<rparr>]"
    unfolding outgoing_public_Inr by blast
  from Cons.IH [OF f] obtain new where "out' = o1 @ new" "list_all2 (sent_row X random keys) rows new"
    "\<forall>(key, row) \<in> set rows. valid_public X (lr_record row) account keys \<and> \<not> is_secret (r_kind (lr_record row))"
    by blast
  moreover have "sent_row X random keys kr \<lparr>to_outgoing = \<lparr>og_key = key, og_item = item, og_version = r_version (lr_record row),
                og_updated_at_ms = r_updated_at_ms (lr_record row)\<rparr>, to_expected = ExpectPublic (lr_record row)\<rparr>"
    using i by (auto simp: kr sent_row_def)
  ultimately show ?case using v eq
    by (intro exI [of _ "\<lparr>to_outgoing = \<lparr>og_key = key, og_item = item, og_version = r_version (lr_record row),
                og_updated_at_ms = r_updated_at_ms (lr_record row)\<rparr>, to_expected = ExpectPublic (lr_record row)\<rparr> # new"])
      (simp add: kr)
qed

section \<open>Receipts\<close>

text \<open>What a receipt may do to a row: nothing, or mark exactly the revision that was sent as stored at
  a sequence number that is not lower.\<close>

definition row_received :: "typed_outgoing list \<Rightarrow> rstr \<Rightarrow> local_record option \<Rightarrow> local_record option \<Rightarrow> bool" where
  "row_received sent_items key old new \<longleftrightarrow> new = old \<or>
     (\<exists>row seq sent. old = Some row \<and> lr_dirty row \<and> lr_seq row \<le> seq \<and> seq \<le> MAX_RELAY_SEQ
        \<and> sent \<in> set sent_items \<and> og_key (to_outgoing sent) = key \<and> to_expected sent = ExpectPublic (lr_record row)
        \<and> new = Some (row\<lparr>lr_seq := seq, lr_dirty := False\<rparr>))"

definition sealed_received :: "typed_outgoing list \<Rightarrow> rstr \<Rightarrow> sealed_record option \<Rightarrow> sealed_record option \<Rightarrow> bool" where
  "sealed_received sent_items key old new \<longleftrightarrow> new = old \<or>
     (\<exists>row seq sent e. old = Some row \<and> sr_dirty row \<and> e_seq (sr_envelope row) \<le> seq \<and> seq \<le> MAX_RELAY_SEQ
        \<and> sent \<in> set sent_items \<and> og_key (to_outgoing sent) = key \<and> to_expected sent = ExpectSealed e
        \<and> same_ciphertext (sr_envelope row) e
        \<and> new = Some (row\<lparr>sr_envelope := (sr_envelope row)\<lparr>e_seq := seq\<rparr>, sr_dirty := False\<rparr>))"

lemma receive_rows:
  assumes "receive sent_items (records, sealed) (k, seq) = (records', sealed')"
  shows "row_received sent_items key (bt_get records key) (bt_get records' key)
    \<and> sealed_received sent_items key (bt_get sealed key) (bt_get sealed' key)"
proof (cases "find (\<lambda>sent. og_key (to_outgoing sent) = k) sent_items")
  case None
  with assms show ?thesis by (simp add: receive_def row_received_def sealed_received_def)
next
  case (Some sent)
  then have s: "sent \<in> set sent_items" "og_key (to_outgoing sent) = k"
    by (auto simp: find_Some_iff)
  show ?thesis
  proof (cases "seq = 0 \<or> seq > MAX_RELAY_SEQ \<or> seq < pi_base_seq (og_item (to_outgoing sent))")
    case True
    with Some assms show ?thesis by (simp add: receive_def row_received_def sealed_received_def)
  next
    case False
    then have m: "seq \<le> MAX_RELAY_SEQ" by auto
    show ?thesis
    proof (cases "to_expected sent")
      case (ExpectPublic e)
      let ?f = "\<lambda>row. if lr_dirty row \<and> lr_record row = e \<and> lr_seq row \<le> seq
        then row\<lparr>lr_seq := seq, lr_dirty := False\<rparr> else row"
      from assms Some False ExpectPublic have "records' = bt_modify k ?f records" "sealed' = sealed"
        by (simp_all add: receive_def)
      then show ?thesis
        using s m ExpectPublic by (cases "bt_get records k") (auto simp: row_received_def sealed_received_def)
    next
      case (ExpectSealed e)
      let ?f = "\<lambda>row. if sr_dirty row \<and> same_ciphertext (sr_envelope row) e \<and> e_seq (sr_envelope row) \<le> seq
        then row\<lparr>sr_envelope := (sr_envelope row)\<lparr>e_seq := seq\<rparr>, sr_dirty := False\<rparr> else row"
      from assms Some False ExpectSealed have "sealed' = bt_modify k ?f sealed" "records' = records"
        by (simp_all add: receive_def)
      then show ?thesis
        using s m ExpectSealed by (cases "bt_get sealed k") (auto simp: row_received_def sealed_received_def)
    qed
  qed
qed

lemma row_received_trans:
  "row_received sent key a b \<Longrightarrow> row_received sent key b c \<Longrightarrow> row_received sent key a c"
  by (auto simp: row_received_def)

lemma sealed_received_trans:
  "sealed_received sent key a b \<Longrightarrow> sealed_received sent key b c \<Longrightarrow> sealed_received sent key a c"
  by (auto simp: sealed_received_def)

lemma apply_receipts_rows:
  assumes "apply_receipts sent_items accepted (records, sealed) = (records', sealed')"
  shows "row_received sent_items key (bt_get records key) (bt_get records' key)
    \<and> sealed_received sent_items key (bt_get sealed key) (bt_get sealed' key)"
  using assms unfolding apply_receipts_def
proof (induction accepted arbitrary: records sealed)
  case Nil
  then show ?case by (simp add: row_received_def sealed_received_def)
next
  case (Cons acc accepted)
  obtain k seq where a: "acc = (k, seq)" by (cases acc)
  obtain r1 s1 where r: "receive sent_items (records, sealed) (k, seq) = (r1, s1)" by fastforce
  from Cons.prems r a have "foldl (receive sent_items) (r1, s1) accepted = (records', sealed')" by simp
  from Cons.IH [OF this] receive_rows [OF r, of key] show ?case
    using row_received_trans sealed_received_trans by blast
qed

end
