(* ===== verification/State_Validity.thy ===== *)
theory State_Validity
  imports Group_Order Record_Push
begin

text \<open>
  The validity of a whole state (\<open>validate_state\<close> of \<open>sync/records_v3/state.rs\<close>) with everything it
  calls: the relay address check (\<open>sync/relay.rs\<close>), the durable account operation
  (\<open>validate_pending\<close> of \<open>sync/record_account.rs\<close>), the plan that preserves the hosts of a left
  account (\<open>validate_plan\<close> of \<open>sync/record_leave.rs\<close>) and the plan of a key rotation
  (\<open>sync/record_rotation.rs\<close>). The state file is read and written only through this check. The
  functions call each other: a state with a pending operation validates the states that operation
  prepares, none of which has a pending operation, which is why the recursion ends.
\<close>

section \<open>Addresses\<close>

text \<open>A parsed address of the \<open>url\<close> package, as far as the program reads it. The parser and the
  address given at build time are external.\<close>

record parsed_url =
  u_scheme :: rstr
  u_host :: "rstr option"
  u_query :: "rstr option"
  u_fragment :: "rstr option"
  u_username :: rstr
  u_password :: "rstr option"

record relay_env =
  x_url_parse :: "rstr \<Rightarrow> parsed_url option"
  x_injected_relay :: "rstr option"
  x_debug_build :: bool

definition trim_end_slash :: "rstr \<Rightarrow> rstr" where
  "trim_end_slash s = rev (dropWhile (\<lambda>c. c = chr CHR ''/'') (rev s))"

definition validate_url :: "'u relay_env_scheme \<Rightarrow> rstr \<Rightarrow> app_error + rstr" where
  "validate_url U base_url =
     (let trimmed = trim_end_slash (trim base_url) in
      rbind (ok_or (AE_Other (lit ''relay URL must be a full URL such as https://relay.example.com''))
               (x_url_parse U trimmed)) (\<lambda>url.
      let loopback = u_host url \<in> {Some (lit ''127.0.0.1''), Some (lit ''localhost''), Some (lit ''[::1]'')} in
      rbind (if u_scheme url = lit ''https'' then Inr ()
             else if u_scheme url = lit ''http'' \<and> loopback then Inr ()
             else if u_scheme url = lit ''http''
             then Inl (AE_Other (lit ''relay URL must use https:// (plain http is only allowed for 127.0.0.1 / localhost)''))
             else Inl (AE_Other (lit ''relay URL must start with https://''))) (\<lambda>_.
      rbind (fail_if (u_query url \<noteq> None \<or> u_fragment url \<noteq> None \<or> u_username url \<noteq> [] \<or> u_password url \<noteq> None)
               (AE_Other (lit ''relay URL must not contain a query, fragment or credentials''))) (\<lambda>_.
      Inr trimmed))))"

definition LOCAL_RELAY_URL :: rstr where
  "LOCAL_RELAY_URL = lit ''http://127.0.0.1:8787''"

definition default_relay_url :: "rstr option \<Rightarrow> bool \<Rightarrow> rstr" where
  "default_relay_url injected debug =
     (case injected of
        Some url \<Rightarrow> if url \<noteq> [] then url else if debug then LOCAL_RELAY_URL else []
      | None \<Rightarrow> if debug then LOCAL_RELAY_URL else [])"

section \<open>The plan of a left account\<close>

definition leave_error :: "string \<Rightarrow> app_error" where
  "leave_error s = AE_Other (lit s)"

definition remapped_group_name :: "rstr \<Rightarrow> rstr \<Rightarrow> rstr" where
  "remapped_group_name name i = take 111 name @ lit ''-'' @ i"

definition leave_source_row :: "'a record_ext_scheme \<Rightarrow> rstr \<Rightarrow> rstr \<times> local_record \<Rightarrow> app_error + unit" where
  "leave_source_row X space_id kr =
     (case kr of (key, row) \<Rightarrow>
        rbind (fail_if (key \<noteq> record_key (r_kind (lr_record row)) (r_id (lr_record row))
                        \<or> r_kind (lr_record row) \<notin> {RK_Host, RK_Group})
                 (leave_error ''invalid leave source row'')) (\<lambda>_.
        if r_kind (lr_record row) = RK_Group
        then rbind (map_err (\<lambda>_. leave_error ''invalid leave source group'')
                      (decode_group X (lr_record row) (HS_Space space_id))) (\<lambda>_. Inr ())
        else rbind (map_err (\<lambda>_. leave_error ''invalid leave source host'')
                      (decode_host X (lr_record row) (HS_Space space_id))) (\<lambda>_. Inr ())))"

definition leave_source_space :: "'a record_ext_scheme \<Rightarrow> rstr \<times> space_state \<Rightarrow> app_error + unit" where
  "leave_source_space X kv =
     (case kv of (i, space) \<Rightarrow>
        rbind (fail_if (\<not> is_chain_id i \<or> \<not> sp_selected space \<or> sp_missing space)
                 (leave_error ''invalid leave source space'')) (\<lambda>_.
        for_all (leave_source_row X i) (sp_records space)))"

text \<open>\<open>collect\<close> of pairs into a \<open>BTreeMap\<close>: a later pair replaces an earlier one.\<close>

definition collect_map :: "('k::linorder \<times> 'v) list \<Rightarrow> ('k, 'v) btm" where
  "collect_map kvs = foldl (\<lambda>m (k, v). bt_insert k v m) bt_empty kvs"

definition host_remap_table :: "leave_plan \<Rightarrow> (rstr, rstr) btm" where
  "host_remap_table plan = collect_map (map (\<lambda>h.
     (rmap_source_host_id (ph_mapping h), rmap_local_host_id (ph_mapping h))) (lp_hosts plan))"

definition group_remap_table :: "leave_plan \<Rightarrow> (rstr, rstr) btm" where
  "group_remap_table plan = collect_map (map (\<lambda>g. (pg_source_group_id g, pg_local_group_id g)) (lp_groups plan))"

definition remap_jump :: "(rstr, rstr) btm \<Rightarrow> rstr \<Rightarrow> rstr" where
  "remap_jump remap j = (case bt_get remap j of None \<Rightarrow> j | Some target \<Rightarrow> target)"

definition live_or :: "app_error \<Rightarrow> app_error \<Rightarrow> 'e + 'v typed_record \<Rightarrow> app_error + 'v" where
  "live_or decode_error deleted_error r =
     rbind (map_err (\<lambda>_. decode_error) r) (\<lambda>typed.
       case typed of Live v \<Rightarrow> Inr v | Tombstone _ \<Rightarrow> Inl deleted_error)"

type_synonym seen = "rstr set \<times> (rstr \<times> rstr) set"

definition leave_host :: "'a record_ext_scheme \<Rightarrow> leave_plan \<Rightarrow> seen \<Rightarrow> planned_host \<Rightarrow> app_error + seen" where
  "leave_host X plan seen host =
     (case seen of (ids, sources) \<Rightarrow>
      let m = ph_mapping host in
      rbind (fail_if (\<not> is_host_id (rmap_local_host_id m) \<or> rmap_local_host_id m \<in> ids
                      \<or> (rmap_source_space_id m, rmap_source_host_id m) \<in> sources)
               (leave_error ''invalid leave mapping identity'')) (\<lambda>_.
      rbind (ok_or (leave_error ''leave mapping has no source'')
               (opt_filter (\<lambda>r. \<not> r_deleted (lr_record r))
                 (Option.bind (bt_get (lp_source_spaces plan) (rmap_source_space_id m)) (\<lambda>s.
                    bt_get (sp_records s) (record_key RK_Host (rmap_source_host_id m)))))) (\<lambda>source.
      rbind (live_or (leave_error ''invalid planned local host'')
               (leave_error ''leave plan cannot copy a tombstone'')
               (decode_host X (lr_record (ph_local host)) HS_Local)) (\<lambda>local.
      rbind (live_or (leave_error ''invalid leave source host'') (leave_error ''leave source is deleted'')
               (decode_host X (lr_record source) HS_Local)) (\<lambda>expected.
      rbind (fail_if (rmap_alias m \<noteq> hp_alias (hr_payload expected)
                      \<and> rmap_alias m \<noteq> hp_alias (hr_payload expected) @ lit ''-'' @ rmap_local_host_id m)
               (leave_error ''leave alias is not a stable source remap'')) (\<lambda>_.
      let payload = (hr_payload expected)\<lparr>hp_alias := rmap_alias m\<rparr> in
      rbind (case hp_group_id payload of
               None \<Rightarrow> Inr payload
             | Some i \<Rightarrow> rbind (ok_or (leave_error ''missing preserved group'')
                                  (bt_get (group_remap_table plan) i)) (\<lambda>j.
                         Inr (payload\<lparr>hp_group_id := Some j\<rparr>))) (\<lambda>payload.
      let payload = payload\<lparr>hp_jump := map (remap_jump (host_remap_table plan)) (hp_jump payload)\<rparr> in
      rbind (fail_if (hr_payload local \<noteq> payload)
               (leave_error ''leave plan does not preserve its source host'')) (\<lambda>_.
      rbind (fail_if (hr_id local \<noteq> rmap_local_host_id m \<or> hp_alias (hr_payload local) \<noteq> rmap_alias m
                      \<or> lr_seq (ph_local host) \<noteq> 0 \<or> lr_dirty (ph_local host)
                      \<or> r_id (lr_record source) \<noteq> rmap_source_host_id m)
               (leave_error ''inconsistent leave mapping'')) (\<lambda>_.
      Inr (insert (rmap_local_host_id m) ids,
           insert (rmap_source_space_id m, rmap_source_host_id m) sources))))))))))"

definition leave_group :: "'a record_ext_scheme \<Rightarrow> leave_plan \<Rightarrow> seen \<Rightarrow> planned_group \<Rightarrow> app_error + seen" where
  "leave_group X plan seen g =
     (case seen of (ids, sources) \<Rightarrow>
      rbind (fail_if (pg_local_group_id g \<in> ids \<or> (pg_source_space_id g, pg_source_group_id g) \<in> sources)
               (leave_error ''duplicate preserved group identity'')) (\<lambda>_.
      rbind (ok_or (leave_error ''group source missing'')
               (Option.bind (bt_get (lp_source_spaces plan) (pg_source_space_id g)) (\<lambda>s.
                  bt_get (sp_records s) (record_key RK_Group (pg_source_group_id g))))) (\<lambda>source.
      rbind (live_or (leave_error ''invalid group source'') (leave_error ''deleted group source'')
               (decode_group X (lr_record source) HS_Local)) (\<lambda>expected.
      rbind (live_or (leave_error ''invalid preserved group'') (leave_error ''deleted preserved group'')
               (decode_group X (lr_record (pg_local g)) HS_Local)) (\<lambda>local.
      let payload = gr_payload expected in
      rbind (case gp_parent_id payload of
               None \<Rightarrow> Inr payload
             | Some p \<Rightarrow> rbind (ok_or (leave_error ''missing preserved parent'')
                                  (bt_get (group_remap_table plan) p)) (\<lambda>q.
                         Inr (payload\<lparr>gp_parent_id := Some q\<rparr>))) (\<lambda>payload.
      let payload = payload\<lparr>gp_defaults := (gp_defaults payload)\<lparr>gd_jump :=
            map_option (map (remap_jump (host_remap_table plan))) (gd_jump (gp_defaults payload))\<rparr>\<rparr> in
      rbind (fail_if (gp_name (gr_payload local) \<noteq> gp_name payload
                      \<and> gp_name (gr_payload local) \<noteq> remapped_group_name (gp_name payload) (pg_local_group_id g))
               (leave_error ''group name is not a stable remap'')) (\<lambda>_.
      let payload = payload\<lparr>gp_name := gp_name (gr_payload local)\<rparr> in
      rbind (fail_if (gr_id local \<noteq> pg_local_group_id g \<or> gr_payload local \<noteq> payload
                      \<or> lr_seq (pg_local g) \<noteq> 0 \<or> lr_dirty (pg_local g))
               (leave_error ''group preservation mismatch'')) (\<lambda>_.
      Inr (insert (pg_local_group_id g) ids,
           insert (pg_source_space_id g, pg_source_group_id g) sources)))))))))"

definition live_rows :: "(rstr, space_state) btm \<Rightarrow> nat" where
  "live_rows spaces = sum_list (map (\<lambda>s.
     length (filter (\<lambda>r. \<not> r_deleted (lr_record r)) (bt_values (sp_records s)))) (bt_values spaces))"

definition validate_leave_plan :: "'a record_ext_scheme \<Rightarrow> leave_plan \<Rightarrow> app_error + unit" where
  "validate_leave_plan X plan =
     rbind (for_all (leave_source_space X) (lp_source_spaces plan)) (\<lambda>_.
     rbind (for_each (leave_host X plan) ({}, {}) (lp_hosts plan)) (\<lambda>seen.
     rbind (for_each (leave_group X plan) seen (lp_groups plan)) (\<lambda>_.
     rbind (fail_if (\<exists>i \<in> lp_passwords_copied plan.
                       \<not> list_ex (\<lambda>h. rmap_local_host_id (ph_mapping h) = i) (lp_hosts plan))
              (leave_error ''invalid leave credential receipt'')) (\<lambda>_.
     fail_if (live_rows (lp_source_spaces plan) \<noteq> length (lp_hosts plan) + length (lp_groups plan))
       (leave_error ''incomplete leave plan'')))))"

section \<open>Validity\<close>

definition state_invalid :: "string \<Rightarrow> rstr \<Rightarrow> string \<Rightarrow> record_validation_error" where
  "state_invalid field i reason = VE_Invalid (lit field) i (lit reason)"

definition state_decode_error :: "rstr \<Rightarrow> record_validation_error" where
  "state_decode_error reason = VE_Decode (lit ''state'') reason"

text \<open>One row of the account section.\<close>

definition validate_account_row :: "'a record_ext_scheme \<Rightarrow> rstr \<times> local_record \<Rightarrow> record_validation_error + unit" where
  "validate_account_row X kr =
     (case kr of (key, local) \<Rightarrow>
        rbind (validate_cache_key key local) (\<lambda>_.
        let rec = lr_record local in
        if r_kind rec = RK_KeySlot then rbind (decode_keyslot X rec) (\<lambda>_. Inr ())
        else if r_kind rec = RK_Meta \<and> r_id rec = RECORD_ID then
          fail_if (decode_order X rec = None)
            (state_invalid ''group_order'' (r_id rec) ''invalid navigation metadata'')
        else if r_kind rec = RK_Meta \<and> r_id rec = ACCOUNT_META_ID \<and> \<not> r_deleted rec then
          rbind (map_err state_decode_error (x_meta_from_value X (r_payload rec))) (\<lambda>meta.
          rbind (validate_account_meta meta) (\<lambda>_.
          (case opt_filter (\<lambda>v. \<not> is_null v) (jget (r_payload rec) (lit ''migration'')) of
             None \<Rightarrow> Inr ()
           | Some v \<Rightarrow>
               rbind (map_err (\<lambda>_. VE_Decode (lit ''migration'') (lit ''migration marker is invalid''))
                        (x_gate_from_value X v)) (\<lambda>gate. validate_migration_gate gate))))
        else if r_kind rec \<in> {RK_Host, RK_Group} then
          Inl (VE_WrongKind (lit ''account metadata'') (lit ''host''))
        else Inr ()))"

definition validate_account_section :: "'a record_ext_scheme \<Rightarrow> account_state option \<Rightarrow> record_validation_error + unit" where
  "validate_account_section X account =
     (case account of
        None \<Rightarrow> Inr ()
      | Some a \<Rightarrow>
          rbind (fail_if (\<not> is_chain_id (acc_chain_id a))
                   (state_invalid ''chain_id'' (acc_chain_id a) ''expected an account chain id'')) (\<lambda>_.
          rbind (for_all (validate_account_row X) (acc_records a)) (\<lambda>_.
          validate_sealed (acc_sealed a) True)))"

definition grouped_row :: "local_record \<Rightarrow> bool" where
  "grouped_row r \<longleftrightarrow> r_kind (lr_record r) = RK_Group
     \<or> get_u64 (r_payload (lr_record r)) (lit ''schema'') = Some 3"

definition validate_local_group :: "'a record_ext_scheme \<Rightarrow> rstr \<times> local_record \<Rightarrow> record_validation_error + unit" where
  "validate_local_group X kr =
     (case kr of (key, row) \<Rightarrow>
        rbind (validate_cache_key key row) (\<lambda>_.
        rbind (decode_group X (lr_record row) HS_Local) (\<lambda>_. Inr ())))"

definition validate_local_key :: "'a record_ext_scheme \<Rightarrow> rstr \<times> local_key_metadata \<Rightarrow> record_validation_error + unit" where
  "validate_local_key X kv =
     (case kv of (i, material) \<Rightarrow>
        rbind (validate_keyslot X i (lk_public material)) (\<lambda>_.
        fail_if (\<not> is_slot_id (lk_vault_id material)) (state_invalid ''vault_id'' i ''expected a vault id'')))"

definition validate_receipt :: "rstr \<times> local_import_receipt \<Rightarrow> record_validation_error + unit" where
  "validate_receipt kv =
     (case kv of (i, receipt) \<Rightarrow>
        fail_if (\<not> is_slot_id i \<or> \<not> is_chain_id (ir_source_digest receipt)
                 \<or> list_ex (\<lambda>h. \<not> is_host_id h) (ir_host_ids receipt)
                 \<or> list_ex (\<lambda>k. \<not> is_slot_id k) (ir_key_ids receipt))
          (state_invalid ''import_receipt'' (lit ''state'') ''invalid import receipt identity''))"

definition validate_space :: "'a record_ext_scheme \<Rightarrow> rstr \<times> space_state \<Rightarrow> record_validation_error + unit" where
  "validate_space X kv =
     (case kv of (space_id, space) \<Rightarrow>
        rbind (fail_if (\<not> is_chain_id space_id) (state_invalid ''space_id'' space_id ''expected a chain id'')) (\<lambda>_.
        rbind (check_host_rows X (sp_records space) (HS_Space space_id)) (\<lambda>_.
        validate_sealed (sp_sealed space) False)))"

text \<open>The checks of \<open>validate_state\<close> before and after the pending operation.\<close>

definition validate_frame :: "sync_state \<Rightarrow> record_validation_error + unit" where
  "validate_frame s =
     rbind (fail_if (st_version s \<notin> {STATE_VERSION, GROUP_STATE_VERSION, NAVIGATION_STATE_VERSION})
              (VE_UnsupportedSchema (lit ''state'') (st_version s))) (\<lambda>_.
     rbind (fail_if (\<not> is_slot_id (st_device_id s))
              (state_invalid ''device_id'' (st_device_id s) ''expected a device id'')) (\<lambda>_.
     rbind (fail_if (st_account s = None \<and> st_spaces s \<noteq> [])
              (state_invalid ''spaces'' (lit ''state'') ''spaces require an account'')) (\<lambda>_.
     rbind (case st_migration_gate s of
              None \<Rightarrow> Inr ()
            | Some gate \<Rightarrow>
                rbind (fail_if (st_account s = None)
                         (state_invalid ''migration_gate'' (lit ''state'')
                            ''a migration gate requires an account'')) (\<lambda>_.
                validate_migration_gate gate)) (\<lambda>_.
     fail_if (st_shared_writes_blocked s \<and> st_account s = None)
       (state_invalid ''shared_writes_blocked'' (lit ''state'') ''a shared write gate requires an account'')))))"

definition validate_sections :: "'a record_ext_scheme \<Rightarrow> sync_state \<Rightarrow> record_validation_error + unit" where
  "validate_sections X s =
     (let local = st_local s in
      rbind (fail_if (\<not> valid_ids (ls_group_order local)
                      \<or> ls_group_order local \<noteq> [] \<and> st_version s < NAVIGATION_STATE_VERSION)
               (state_invalid ''group_order'' (lit ''local'') ''invalid navigation format'')) (\<lambda>_.
      rbind (check_host_rows X (ls_hosts local) HS_Local) (\<lambda>_.
      rbind (for_all (validate_local_group X) (ls_groups local)) (\<lambda>_.
      rbind (fail_if (st_version s = STATE_VERSION
                      \<and> (ls_groups local \<noteq> []
                         \<or> list_ex grouped_row (bt_values (ls_hosts local)
                             @ concat (map (\<lambda>sp. bt_values (sp_records sp)) (bt_values (st_spaces s))))))
               (state_invalid ''version'' (lit ''state'') ''groups require state version 4'')) (\<lambda>_.
      rbind (for_all (validate_local_key X) (ls_keys local)) (\<lambda>_.
      rbind (for_all validate_receipt (ls_import_receipts local)) (\<lambda>_.
      rbind (for_all (validate_space X) (st_spaces s)) (\<lambda>_.
      validate_account_section X (st_account s)))))))))"

section \<open>Pending operations\<close>

definition PENDING_CODE_PREFIX :: rstr where
  "PENDING_CODE_PREFIX = lit ''sync:records-pending:''"

definition SOURCE_CODE_PREFIX :: rstr where
  "SOURCE_CODE_PREFIX = lit ''sync:records-rotation-source:''"

definition minimal :: "'u relay_env_scheme \<Rightarrow> account_state \<Rightarrow> (rstr, space_state) btm \<Rightarrow> rstr \<Rightarrow> sync_state" where
  "minimal U account spaces device =
     \<lparr>st_version = GROUP_STATE_VERSION, st_device_id = device, st_device_name = lit ''rotation validation'',
      st_relay_url = default_relay_url (x_injected_relay U) (x_debug_build U), st_account = Some account,
      st_spaces = spaces,
      st_local = \<lparr>ls_group_order = [], ls_groups = [], ls_hosts = [], ls_keys = [], ls_import_receipts = []\<rparr>,
      st_rotation = None, st_relay_features = None, st_legacy_v1_backup = None,
      st_phrase_cleanup_pending = False, st_migration_gate = None, st_shared_writes_blocked = False,
      st_pending_account = None, st_notices = [], st_last_sync_ms = None, st_last_error = None\<rparr>"

text \<open>The identities and receipts of a rotation, and the marker it leaves while copying.\<close>

definition rotation_error :: "string \<Rightarrow> app_error" where
  "rotation_error s = AE_Other (lit s)"

definition rotation_ids_ok :: "pending_account_operation \<Rightarrow> rotation_plan \<Rightarrow> bool" where
  "rotation_ids_ok op p \<longleftrightarrow>
     \<not> (rl_source_code_account p \<noteq> SOURCE_CODE_PREFIX @ po_id op
        \<or> acc_chain_id (rl_source_account p) = acc_chain_id (po_prepared_account op)
        \<or> \<not> is_chain_id (rl_source_digest p)
        \<or> list_ex (\<lambda>(a, b). \<not> is_chain_id a \<or> \<not> is_chain_id b \<or> a = b) (rl_space_ids p)
        \<or> card (set (bt_values (rl_space_ids p))) \<noteq> length (rl_space_ids p)
        \<or> (\<exists>i \<in> rl_created p. i \<noteq> acc_chain_id (po_prepared_account op)
              \<and> i \<notin> set (bt_values (rl_space_ids p)))
        \<or> (\<exists>i \<in> rl_frozen p. i \<noteq> acc_chain_id (rl_source_account p) \<and> \<not> bt_contains (rl_space_ids p) i))"

definition rotation_marker :: "'a record_ext_scheme \<Rightarrow> pending_account_operation \<Rightarrow> rotation_plan \<Rightarrow> app_error + unit" where
  "rotation_marker X op p =
     rbind (fail_if (set (bt_keys (rl_source_spaces p)) \<noteq> set (bt_keys (rl_space_ids p))
                     \<or> set (bt_keys (rl_target_spaces p)) \<noteq> set (bt_values (rl_space_ids p))
                     \<or> acc_chain_id (rl_source_account p) \<notin> rl_frozen p
                     \<or> list_ex (\<lambda>i. i \<notin> rl_frozen p) (bt_keys (rl_source_spaces p)))
              (rotation_error ''incomplete frozen source or destination plan'')) (\<lambda>_.
     rbind (ok_or (rotation_error ''rotation metadata missing'')
              (bt_get (acc_records (po_prepared_account op)) (record_key RK_Meta ACCOUNT_META_ID))) (\<lambda>meta.
     rbind (map_err (\<lambda>_. rotation_error ''rotation marker missing'')
              (x_gate_from_value X
                (case jget (r_payload (lr_record meta)) (lit ''migration'') of None \<Rightarrow> JNull | Some v \<Rightarrow> v))) (\<lambda>m.
     fail_if (mg_id m \<noteq> po_id op \<or> mg_source_digest m \<noteq> rl_source_digest p
              \<or> mg_phase m \<noteq> (if rl_step p = RS_Activating then MP_Active else MP_Publishing))
       (rotation_error ''rotation marker does not match the durable phase''))))"

definition rotation_device :: "pending_account_operation \<Rightarrow> rotation_plan \<Rightarrow> rstr" where
  "rotation_device op p =
     (case bt_values (acc_records (po_prepared_account op)) @ bt_values (acc_records (rl_source_account p)) of
        r # _ \<Rightarrow> r_device_id (lr_record r)
      | [] \<Rightarrow> lit ''00000000000000000000000000000001'')"

definition pending_invalid :: app_error where
  "pending_invalid = AE_Other (lit ''invalid pending record account operation'')"

text \<open>The state a pending operation will switch to.\<close>

definition prepared_state :: "sync_state \<Rightarrow> pending_account_operation \<Rightarrow> sync_state" where
  "prepared_state s op =
     s\<lparr>st_pending_account := None, st_account := Some (po_prepared_account op),
       st_spaces := (case (po_space_id op, po_prepared_space op) of
                       (Some i, Some space) \<Rightarrow> bt_insert i space bt_empty
                     | _ \<Rightarrow> bt_empty)\<rparr>"

definition pending_rows_ok :: "pending_account_operation \<Rightarrow> app_error + unit" where
  "pending_rows_ok op =
     rbind (for_all (\<lambda>(key, row).
              fail_if (is_secret (r_kind (lr_record row))
                       \<or> key \<noteq> record_key (r_kind (lr_record row)) (r_id (lr_record row))) pending_invalid)
              (acc_records (po_prepared_account op))) (\<lambda>_.
     for_all (\<lambda>(key, row).
       fail_if (key \<noteq> sealed_key (e_kind (sr_envelope row)) (e_id_hash (sr_envelope row))) pending_invalid)
       (acc_sealed (po_prepared_account op)))"

function (sequential) validate_state :: "'a record_ext_scheme \<Rightarrow> 'u relay_env_scheme \<Rightarrow> sync_state \<Rightarrow> record_validation_error + unit"
  and validate_pending :: "'a record_ext_scheme \<Rightarrow> 'u relay_env_scheme \<Rightarrow> pending_account_operation \<Rightarrow> app_error + unit"
  and validate_rotation_plan :: "'a record_ext_scheme \<Rightarrow> 'u relay_env_scheme \<Rightarrow> pending_account_operation \<Rightarrow> app_error + unit" where
  "validate_state X U s =
     rbind (validate_frame s) (\<lambda>_.
     rbind (case st_pending_account s of
              None \<Rightarrow> Inr ()
            | Some op \<Rightarrow>
                rbind (map_err (\<lambda>_. state_invalid ''pending_account'' (lit ''state'')
                                      ''invalid pending account operation'')
                         (validate_pending X U op)) (\<lambda>_.
                validate_state X U (prepared_state s op))) (\<lambda>_.
     validate_sections X s))"
| "validate_pending X U op =
     rbind (fail_if (\<not> is_slot_id (po_id op) \<or> trim (po_device_name op) \<noteq> po_device_name op
                     \<or> po_device_name op = [] \<or> str_len (po_device_name op) > 128
                     \<or> \<not> is_chain_id (acc_chain_id (po_prepared_account op))
                     \<or> is_err (validate_url U (po_relay_url op))) pending_invalid) (\<lambda>_.
     rbind (case po_migration_gate op of
              None \<Rightarrow> Inr ()
            | Some marker \<Rightarrow> map_err (\<lambda>_. pending_invalid) (validate_migration_gate marker)) (\<lambda>_.
     rbind (fail_if (po_kind op \<noteq> PK_LeaveAccount \<and> po_leave op \<noteq> None) pending_invalid) (\<lambda>_.
     rbind (fail_if (po_kind op \<noteq> PK_RotateAccount \<and> po_rotation op \<noteq> None) pending_invalid) (\<lambda>_.
     rbind (if po_kind op = PK_CreateAccount \<or> po_kind op = PK_JoinAccount then
              fail_if (po_staged_code_account op \<noteq> Some (PENDING_CODE_PREFIX @ po_id op)
                       \<or> po_space_id op \<noteq> None \<or> po_prepared_space op \<noteq> None) pending_invalid
            else if po_kind op = PK_RotateAccount then
              rbind (fail_if (po_staged_code_account op \<noteq> Some (PENDING_CODE_PREFIX @ po_id op)
                              \<or> po_space_id op \<noteq> None \<or> po_prepared_space op \<noteq> None
                              \<or> po_leave op \<noteq> None) pending_invalid) (\<lambda>_.
              validate_rotation_plan X U op)
            else if po_kind op = PK_LeaveAccount then
              rbind (fail_if (po_staged_code_account op \<noteq> None \<or> po_space_id op \<noteq> None
                              \<or> po_prepared_space op \<noteq> None) pending_invalid) (\<lambda>_.
              rbind (ok_or pending_invalid (po_leave op)) (\<lambda>plan. validate_leave_plan X plan))
            else
              fail_if (po_staged_code_account op \<noteq> None \<or> \<not> is_some_and (po_space_id op) is_chain_id
                       \<or> po_prepared_space op = None) pending_invalid) (\<lambda>_.
     pending_rows_ok op)))))"
| "validate_rotation_plan X U op =
     rbind (ok_or (rotation_error ''rotation plan missing'') (po_rotation op)) (\<lambda>p.
     rbind (fail_if (\<not> rotation_ids_ok op p) (rotation_error ''invalid rotation identity or receipt'')) (\<lambda>_.
     rbind (if rl_step p \<in> {RS_Copying, RS_Activating} then rotation_marker X op p else Inr ()) (\<lambda>_.
     rbind (map_err (\<lambda>_. rotation_error ''invalid rotation source'')
              (validate_state X U (minimal U (rl_source_account p) (rl_source_spaces p) (rotation_device op p)))) (\<lambda>_.
     rbind (map_err (\<lambda>_. rotation_error ''invalid rotation target'')
              (validate_state X U (minimal U (po_prepared_account op) (rl_target_spaces p) (rotation_device op p)))) (\<lambda>_.
     fail_if (list_ex (\<lambda>i. i \<notin> set (bt_values (rl_space_ids p))) (bt_keys (rl_target_spaces p)))
       (rotation_error ''invalid target space mapping''))))))"
  by pat_completeness auto
termination
  by (relation "measure (\<lambda>c. case c of
        Inl (_, _, s) \<Rightarrow> if st_pending_account s = None then 0 else 3
      | Inr (Inl _) \<Rightarrow> 2 | Inr (Inr _) \<Rightarrow> 1)")
    (auto simp: prepared_state_def minimal_def)

declare validate_state.simps [simp del] validate_pending.simps [simp del]
  validate_rotation_plan.simps [simp del]

end
