(* ===== verification/Relay_Client.thy ===== *)
theory Relay_Client
  imports State_Validity
begin

text \<open>
  The client of the relay (\<open>sync/relay.rs\<close>) and the upload in batches (\<open>push_outgoing\<close> of
  \<open>sync/merge.rs\<close>). The HTTP library is external: a request is a value, \<open>x_send\<close> answers it with a
  status and a body or fails, and the \<open>serde\<close> decoders of the bodies are fields of the environment.
  The locale \<open>relay_api\<close> states what the engine relies on when it pulls and pushes; it is
  interpreted on the client below. Durations are whole seconds: the source builds them from seconds
  only, and none of them comes near the limit of \<open>Duration\<close>.
\<close>

section \<open>Polling\<close>

definition MIN_POLL_INTERVAL :: nat where
  "MIN_POLL_INTERVAL = 45"

definition POLL_INTERVAL_PER_CHAIN :: nat where
  "POLL_INTERVAL_PER_CHAIN = 2"

definition IDLE_POLL_INTERVAL :: nat where
  "IDLE_POLL_INTERVAL = 5 * 60"

definition ACTIVE_WINDOW :: nat where
  "ACTIVE_WINDOW = 5 * 60"

definition FIRST_BACKOFF_SECS :: u64 where
  "FIRST_BACKOFF_SECS = 90"

definition MAX_BACKOFF :: nat where
  "MAX_BACKOFF = 15 * 60"

definition poll_interval :: "u64 \<Rightarrow> nat" where
  "poll_interval n_chains =
     (let n = (case u32_try_from n_chains of Some n \<Rightarrow> n | None \<Rightarrow> u32_max)
      in max MIN_POLL_INTERVAL (POLL_INTERVAL_PER_CHAIN * unat n))"

definition backoff_delay :: "u32 \<Rightarrow> nat" where
  "backoff_delay consecutive_failures =
     (if consecutive_failures = 0 then 0
      else min (unat (push_bit (unat (min consecutive_failures 10 - 1)) FIRST_BACKOFF_SECS)) MAX_BACKOFF)"

definition saturating_add :: "u64 \<Rightarrow> u64 \<Rightarrow> u64" where
  "saturating_add a b = (case checked_add a b of Some c \<Rightarrow> c | None \<Rightarrow> u64_max)"

definition saturating_sub :: "u64 \<Rightarrow> u64 \<Rightarrow> u64" where
  "saturating_sub a b = (if b \<le> a then a - b else 0)"

definition next_poll_delay :: "u64 \<Rightarrow> bool \<Rightarrow> u64 \<Rightarrow> u64 \<Rightarrow> u32 \<Rightarrow> nat" where
  "next_poll_delay n_chains focused last_activity_ms now_ms consecutive_failures =
     (let window = of_nat (ACTIVE_WINDOW * 1000);
          recent = last_activity_ms \<le> saturating_add now_ms window
                   \<and> saturating_sub now_ms last_activity_ms < window;
          active = focused \<or> recent;
          normal = (if active then poll_interval n_chains
                    else max IDLE_POLL_INTERVAL (poll_interval n_chains))
      in max normal (backoff_delay consecutive_failures))"

section \<open>Answers and errors\<close>

datatype push_result = Accepted u64 | Conflict envelope

datatype wire_push_result = WireOk u64 | WireConflict envelope

datatype relay_error =
    R_NotFound
  | R_RateLimited
  | R_QuotaExceeded
  | R_Unsupported rstr
  | R_InvalidRequest rstr
  | R_Http u16
  | R_Unreachable rstr
  | R_BadResponse rstr

fun relay_error_text :: "relay_error \<Rightarrow> rstr" where
  "relay_error_text R_NotFound = lit ''sync chain not found on the relay (or the sync code does not match)''"
| "relay_error_text R_RateLimited = lit ''the relay is rate-limiting this device; try again later''"
| "relay_error_text R_QuotaExceeded = lit ''the relay refused the request: too large or over the storage quota''"
| "relay_error_text (R_Unsupported what) =
     lit ''the relay does not support '' @ what @ lit '' yet; update the relay''"
| "relay_error_text (R_InvalidRequest m) = lit ''invalid relay request: '' @ m"
| "relay_error_text (R_Http code) = lit ''relay returned HTTP '' @ dec (unat code)"
| "relay_error_text (R_Unreachable m) = lit ''cannot reach the sync relay: '' @ m"
| "relay_error_text (R_BadResponse m) = lit ''relay sent an unexpected response: '' @ m"

definition app_error_of_relay :: "relay_error \<Rightarrow> app_error" where
  "app_error_of_relay e =
     (if e = R_NotFound then AE_NotFound (relay_error_text e) else AE_Other (relay_error_text e))"

record relay_info =
  ri_version :: "rstr option"
  ri_features :: "rstr list"

definition supports :: "relay_info \<Rightarrow> rstr \<Rightarrow> bool" where
  "supports info feature \<longleftrightarrow> feature \<in> set (ri_features info)"

record wire_info =
  wi_relay :: rstr
  wi_version :: rstr
  wi_features :: "rstr list"

record batch_pull_item =
  bp_chain :: rstr
  bp_token :: rstr
  bp_since :: u64

datatype batch_pull_result =
    BP_Ok pull_response
  | BP_NotFound
  | BP_RateLimited
  | BP_Deferred

record batch_pull_entry =
  be_chain :: rstr
  be_result :: batch_pull_result

datatype wire_batch_entry =
    WB_Ok rstr "envelope list" u64
  | WB_NotFound rstr
  | WB_RateLimited rstr
  | WB_Deferred rstr

datatype push_outcome = Applied "push_result list" | Frozen

definition FEATURE_PULL_BATCH :: rstr where
  "FEATURE_PULL_BATCH = lit ''pull-batch''"

definition FEATURE_FREEZE :: rstr where
  "FEATURE_FREEZE = lit ''freeze''"

definition MAX_BATCH_PULL :: nat where
  "MAX_BATCH_PULL = 64"

definition MAX_PUSH_ITEMS :: nat where
  "MAX_PUSH_ITEMS = 200"

definition MAX_SAFE_INTEGER :: u64 where
  "MAX_SAFE_INTEGER = 9007199254740991"

fun push_result_of :: "wire_push_result \<Rightarrow> push_result" where
  "push_result_of (WireOk seq) = Accepted seq"
| "push_result_of (WireConflict current) = Conflict current"

definition push_results :: "wire_push_result list \<Rightarrow> push_result list" where
  "push_results results = map push_result_of results"

section \<open>Checks before and after a request\<close>

definition check_chain :: "rstr \<Rightarrow> rstr \<Rightarrow> relay_error + unit" where
  "check_chain chain_id tok =
     (if is_chain_id chain_id \<and> is_chain_id tok then Inr ()
      else Inl (R_InvalidRequest (lit ''chain id and token must be 64 lowercase hex characters'')))"

definition status_error :: "u16 \<Rightarrow> relay_error" where
  "status_error code =
     (if code = 404 then R_NotFound
      else if code = 413 then R_QuotaExceeded
      else if code = 429 then R_RateLimited
      else R_Http code)"

definition check_cursor :: "u64 \<Rightarrow> relay_error + unit" where
  "check_cursor since = fail_if (since > MAX_SAFE_INTEGER) (R_InvalidRequest (lit ''a pull cursor is out of range''))"

definition checked_seqs :: "pull_response \<Rightarrow> relay_error + pull_response" where
  "checked_seqs resp =
     (if pl_latest_seq resp > MAX_SAFE_INTEGER \<or> (\<exists>r \<in> set (pl_records resp). e_seq r > MAX_SAFE_INTEGER)
      then Inl (R_BadResponse (lit ''the relay answered with a sequence number out of range''))
      else Inr resp)"

fun result_seq :: "push_result \<Rightarrow> u64" where
  "result_seq (Accepted seq) = seq"
| "result_seq (Conflict current) = e_seq current"

definition checked_push_results :: "push_result list \<Rightarrow> relay_error + push_result list" where
  "checked_push_results results =
     (if \<exists>r \<in> set results. result_seq r > MAX_SAFE_INTEGER
      then Inl (R_BadResponse (lit ''the relay answered a push with a sequence number out of range''))
      else Inr results)"

definition check_push :: "push_item list \<Rightarrow> relay_error + unit" where
  "check_push items =
     (if items = [] \<or> length items > MAX_PUSH_ITEMS
      then Inl (R_InvalidRequest (lit ''a push takes 1 to 200 records''))
      else if \<not> distinct (map pi_id_hash items)
      then Inl (R_InvalidRequest (lit ''a record appears twice in one push''))
      else Inr ())"

definition check_batch_item :: "rstr set \<Rightarrow> batch_pull_item \<Rightarrow> relay_error + rstr set" where
  "check_batch_item seen item =
     rbind (check_chain (bp_chain item) (bp_token item)) (\<lambda>_.
     rbind (check_cursor (bp_since item)) (\<lambda>_.
     rbind (fail_if (bp_chain item \<in> seen)
              (R_InvalidRequest (lit ''a chain appears twice in one batch pull''))) (\<lambda>_.
     Inr (insert (bp_chain item) seen))))"

definition check_batch :: "batch_pull_item list \<Rightarrow> relay_error + unit" where
  "check_batch items =
     (if length items > MAX_BATCH_PULL
      then Inl (R_InvalidRequest (lit ''a batch pull takes at most 64 chains''))
      else rbind (for_each check_batch_item {} items) (\<lambda>_. Inr ()))"

definition batch_entry :: "batch_pull_item \<Rightarrow> wire_batch_entry \<Rightarrow> relay_error + batch_pull_entry" where
  "batch_entry item entry =
     rbind (case entry of
              WB_Ok chain records latest_seq \<Rightarrow>
                rbind (checked_seqs \<lparr>pl_records = records, pl_latest_seq = latest_seq\<rparr>) (\<lambda>resp. Inr (chain, BP_Ok resp))
            | WB_NotFound chain \<Rightarrow> Inr (chain, BP_NotFound)
            | WB_RateLimited chain \<Rightarrow> Inr (chain, BP_RateLimited)
            | WB_Deferred chain \<Rightarrow> Inr (chain, BP_Deferred)) (\<lambda>(chain, result).
     rbind (fail_if (chain \<noteq> bp_chain item)
              (R_BadResponse (lit ''the batch pull answered chains out of order''))) (\<lambda>_.
     Inr \<lparr>be_chain = chain, be_result = result\<rparr>))"

definition batch_entries :: "batch_pull_item list \<Rightarrow> wire_batch_entry list \<Rightarrow> relay_error + batch_pull_entry list" where
  "batch_entries items results =
     (if length results \<noteq> length items
      then Inl (R_BadResponse (lit ''the batch pull answered a different number of chains''))
      else for_each (\<lambda>out (item, entry). rbind (batch_entry item entry) (\<lambda>e. Inr (out @ [e])))
             [] (zip items results))"

section \<open>The HTTP client\<close>

datatype http_method = GET | PUT | POST | DELETE

datatype http_body = NoBody | EmptyObject | PushBody "push_item list" | BatchBody "batch_pull_item list"

record http_request =
  hq_method :: http_method
  hq_url :: rstr
  hq_bearer :: "rstr option"
  hq_body :: http_body

text \<open>Reading a body can time out (\<open>Inl True\<close>) or break off (\<open>Inl False\<close>).\<close>

record http_response =
  hs_status :: u16
  hs_body :: "bool + bytes"

text \<open>What the client takes from \<open>reqwest\<close> and \<open>serde_json\<close>. A decoder fails with the line and the
  column of the error.\<close>

record http_env =
  x_send :: "http_request \<Rightarrow> rstr + http_response"
  x_decode_info :: "bytes \<Rightarrow> (nat \<times> nat) + wire_info"
  x_decode_pull :: "bytes \<Rightarrow> (nat \<times> nat) + pull_response"
  x_decode_batch :: "bytes \<Rightarrow> (nat \<times> nat) + wire_batch_entry list"
  x_decode_push :: "bytes \<Rightarrow> (nat \<times> nat) + wire_push_result list"
  x_decode_status :: "bytes \<Rightarrow> (nat \<times> nat) + rstr"

definition send :: "http_env \<Rightarrow> http_request \<Rightarrow> relay_error + http_response" where
  "send H req = map_err R_Unreachable (x_send H req)"

definition read_body :: "http_response \<Rightarrow> relay_error + bytes" where
  "read_body resp =
     map_err (\<lambda>timeout. R_Unreachable (if timeout then lit ''the relay's answer timed out''
                else lit ''the connection broke off while reading the relay's answer'')) (hs_body resp)"

definition read_json :: "(bytes \<Rightarrow> (nat \<times> nat) + 'j) \<Rightarrow> http_response \<Rightarrow> relay_error + 'j" where
  "read_json parse resp =
     rbind (read_body resp) (\<lambda>body.
     map_err (\<lambda>(line, column). R_BadResponse (lit ''the answer is not the expected JSON (line '' @ dec line
                @ lit '', column '' @ dec column @ lit '')'')) (parse body))"

definition is_success :: "u16 \<Rightarrow> bool" where
  "is_success status \<longleftrightarrow> 200 \<le> status \<and> status \<le> 299"

definition chain_url :: "rstr \<Rightarrow> rstr \<Rightarrow> rstr \<Rightarrow> rstr" where
  "chain_url base chain_id rest = base @ lit ''/v1/chains/'' @ chain_id @ rest"

definition chain_request :: "http_env \<Rightarrow> http_method \<Rightarrow> rstr \<Rightarrow> rstr \<Rightarrow> http_body \<Rightarrow> relay_error + unit" where
  "chain_request H meth url tok body =
     rbind (send H \<lparr>hq_method = meth, hq_url = url, hq_bearer = Some tok, hq_body = body\<rparr>) (\<lambda>resp.
     if is_success (hs_status resp) then Inr () else Inl (status_error (hs_status resp)))"

definition info :: "http_env \<Rightarrow> rstr \<Rightarrow> relay_error + relay_info" where
  "info H base =
     rbind (send H \<lparr>hq_method = GET, hq_url = base @ lit ''/v1/info'', hq_bearer = None, hq_body = NoBody\<rparr>) (\<lambda>resp.
     if hs_status resp = 200 then
       rbind (read_json (x_decode_info H) resp) (\<lambda>wire.
       rbind (fail_if (wi_relay wire \<noteq> lit ''sshelter-relay'')
                (R_BadResponse (lit ''this server is not a Lunport relay''))) (\<lambda>_.
       Inr \<lparr>ri_version = Some (wi_version wire), ri_features = wi_features wire\<rparr>))
     else if hs_status resp = 404 then Inr \<lparr>ri_version = None, ri_features = []\<rparr>
     else Inl (status_error (hs_status resp)))"

definition create_chain :: "http_env \<Rightarrow> rstr \<Rightarrow> rstr \<Rightarrow> rstr \<Rightarrow> relay_error + unit" where
  "create_chain H base chain_id tok =
     rbind (check_chain chain_id tok) (\<lambda>_. chain_request H PUT (chain_url base chain_id []) tok EmptyObject)"

definition delete_chain :: "http_env \<Rightarrow> rstr \<Rightarrow> rstr \<Rightarrow> rstr \<Rightarrow> relay_error + unit" where
  "delete_chain H base chain_id tok =
     rbind (check_chain chain_id tok) (\<lambda>_. chain_request H DELETE (chain_url base chain_id []) tok NoBody)"

definition freeze_chain :: "http_env \<Rightarrow> rstr \<Rightarrow> rstr \<Rightarrow> rstr \<Rightarrow> relay_error + unit" where
  "freeze_chain H base chain_id tok =
     rbind (check_chain chain_id tok) (\<lambda>_. chain_request H POST (chain_url base chain_id (lit ''/freeze'')) tok NoBody)"

definition pull :: "http_env \<Rightarrow> rstr \<Rightarrow> rstr \<Rightarrow> rstr \<Rightarrow> u64 \<Rightarrow> relay_error + pull_response" where
  "pull H base chain_id tok since =
     rbind (check_chain chain_id tok) (\<lambda>_.
     rbind (check_cursor since) (\<lambda>_.
     rbind (send H \<lparr>hq_method = GET, hq_url = chain_url base chain_id (lit ''/records?since='' @ dec (unat since)),
              hq_bearer = Some tok, hq_body = NoBody\<rparr>) (\<lambda>resp.
     if hs_status resp = 200 then rbind (read_json (x_decode_pull H) resp) checked_seqs
     else Inl (status_error (hs_status resp)))))"

definition pull_batch :: "http_env \<Rightarrow> rstr \<Rightarrow> batch_pull_item list \<Rightarrow> relay_error + batch_pull_entry list" where
  "pull_batch H base items =
     (if items = [] then Inr []
      else
        rbind (check_batch items) (\<lambda>_.
        rbind (send H \<lparr>hq_method = POST, hq_url = base @ lit ''/v1/pull'', hq_bearer = None, hq_body = BatchBody items\<rparr>) (\<lambda>resp.
        if hs_status resp = 200 then rbind (read_json (x_decode_batch H) resp) (batch_entries items)
        else if hs_status resp = 404 then Inl (R_Unsupported FEATURE_PULL_BATCH)
        else Inl (status_error (hs_status resp)))))"

definition push :: "http_env \<Rightarrow> rstr \<Rightarrow> rstr \<Rightarrow> rstr \<Rightarrow> push_item list \<Rightarrow> relay_error + push_outcome" where
  "push H base chain_id tok items =
     rbind (check_chain chain_id tok) (\<lambda>_.
     rbind (check_push items) (\<lambda>_.
     rbind (send H \<lparr>hq_method = POST, hq_url = chain_url base chain_id (lit ''/records''),
              hq_bearer = Some tok, hq_body = PushBody items\<rparr>) (\<lambda>resp.
     if hs_status resp = 200 then
       rbind (read_json (x_decode_push H) resp) (\<lambda>wire.
       rbind (checked_push_results (push_results wire)) (\<lambda>results.
       rbind (fail_if (length results \<noteq> length items)
                (R_BadResponse (lit ''the relay answered a push with the wrong number of results''))) (\<lambda>_.
       Inr (Applied results))))
     else if hs_status resp = 409 then
       rbind (read_body resp) (\<lambda>body.
       if x_decode_status H body = Inr (lit ''frozen'') then Inr Frozen else Inl (R_Http 409))
     else Inl (status_error (hs_status resp)))))"

section \<open>Uploading in batches\<close>

definition PUSH_BATCH_ITEMS :: nat where
  "PUSH_BATCH_ITEMS = 200"

definition PUSH_BATCH_BYTES :: nat where
  "PUSH_BATCH_BYTES = 512 * 1024"

record pushed =
  ps_accepted :: "(rstr \<times> u64) list"
  ps_conflicts :: nat
  ps_frozen :: bool
  ps_error :: "relay_error option"

definition item_size :: "outgoing_item \<Rightarrow> nat" where
  "item_size out = str_len (pi_ciphertext (og_item out)) + str_len (pi_nonce (og_item out))"

text \<open>The inner loop: \<open>n\<close> items of \<open>b\<close> bytes are in the batch already.\<close>

fun next_batch :: "nat \<Rightarrow> nat \<Rightarrow> outgoing_item list \<Rightarrow> outgoing_item list \<times> outgoing_item list" where
  "next_batch n b [] = ([], [])"
| "next_batch n b (out # rest) =
     (if n > 0 \<and> (n \<ge> PUSH_BATCH_ITEMS \<or> b + item_size out > PUSH_BATCH_BYTES)
      then ([], out # rest)
      else (case next_batch (n + 1) (b + item_size out) rest of
              (batch, later) \<Rightarrow> (out # batch, later)))"

lemma next_batch_append: "next_batch n b outs = (batch, later) \<Longrightarrow> outs = batch @ later"
  by (induction n b outs arbitrary: batch rule: next_batch.induct) (auto split: if_splits prod.splits)

lemma next_batch_progress: "next_batch 0 b (out # rest) = (batch, later) \<Longrightarrow> batch \<noteq> []"
  by (auto split: prod.splits)

fun note_result :: "pushed \<Rightarrow> outgoing_item \<times> push_result \<Rightarrow> pushed" where
  "note_result p (out, Accepted seq) = p\<lparr>ps_accepted := ps_accepted p @ [(og_key out, seq)]\<rparr>"
| "note_result p (out, Conflict _) = p\<lparr>ps_conflicts := ps_conflicts p + 1\<rparr>"

text \<open>The relay answers the n-th request of the upload with \<open>relay n\<close>.\<close>

function push_batches :: "(nat \<Rightarrow> push_item list \<Rightarrow> relay_error + push_outcome) \<Rightarrow> nat \<Rightarrow> pushed
    \<Rightarrow> outgoing_item list \<Rightarrow> pushed" where
  "push_batches relay n p outs =
     (if outs = [] then p
      else
        (case next_batch 0 0 outs of (batch, later) \<Rightarrow>
           (case relay n (map og_item batch) of
              Inl e \<Rightarrow> p\<lparr>ps_error := Some e\<rparr>
            | Inr Frozen \<Rightarrow> p\<lparr>ps_frozen := True\<rparr>
            | Inr (Applied results) \<Rightarrow>
                if length results \<noteq> length batch
                then p\<lparr>ps_error := Some (R_BadResponse (lit ''a push of '' @ dec (length batch)
                         @ lit '' records was answered with '' @ dec (length results) @ lit '' results''))\<rparr>
                else push_batches relay (n + 1) (foldl note_result p (zip batch results)) later)))"
  by pat_completeness auto
termination
proof (relation "measure (\<lambda>(_, _, _, outs). length outs)", goal_cases)
  case 1
  show ?case by simp
next
  case (2 relay n p outs batch later)
  moreover from 2 have "outs = batch @ later" by (metis next_batch_append)
  moreover from 2 have "batch \<noteq> []" by (metis neq_Nil_conv next_batch_progress)
  ultimately show ?case by simp
qed

declare push_batches.simps [simp del]

definition push_outgoing :: "(nat \<Rightarrow> push_item list \<Rightarrow> relay_error + push_outcome) \<Rightarrow> outgoing_item list \<Rightarrow> pushed" where
  "push_outgoing relay outs =
     push_batches relay 0 \<lparr>ps_accepted = [], ps_conflicts = 0, ps_frozen = False, ps_error = None\<rparr> outs"

section \<open>The polling delay\<close>

lemma u32_max_unat: "unat u32_max = 2 ^ 32 - 1"
  by (simp add: u32_max_def unsigned_minus_1_eq_mask mask_eq_exp_minus_1)

lemma poll_interval_nat: "poll_interval c = max 45 (2 * min (unat c) (2 ^ 32 - 1))"
proof (cases "unat c < 2 ^ 32")
  case True
  then have "u32_try_from c = Some (ucast c)" "unat (ucast c :: u32) = unat c"
    by (auto simp: u32_try_from_def unsigned_ucast_eq take_bit_nat_eq_self)
  with True show ?thesis by (simp add: poll_interval_def MIN_POLL_INTERVAL_def POLL_INTERVAL_PER_CHAIN_def)
next
  case False
  then show ?thesis
    by (simp add: poll_interval_def MIN_POLL_INTERVAL_def POLL_INTERVAL_PER_CHAIN_def u32_try_from_def u32_max_unat)
qed

text \<open>The shift is capped at nine places, so it never leaves the 64 bits.\<close>

lemma backoff_shift: "k < 10 \<Longrightarrow> unat (push_bit k FIRST_BACKOFF_SECS) = 90 * 2 ^ k"
proof -
  assume "k < 10"
  then have "k = 0 \<or> k = 1 \<or> k = 2 \<or> k = 3 \<or> k = 4 \<or> k = 5 \<or> k = 6 \<or> k = 7 \<or> k = 8 \<or> k = 9" by arith
  then show ?thesis by (elim disjE) (simp_all add: FIRST_BACKOFF_SECS_def push_bit_eq_mult)
qed

lemma backoff_delay_nat:
  "backoff_delay f = (if f = 0 then 0 else min (90 * 2 ^ (unat f - 1)) 900)"
proof (cases "f = 0")
  case False
  then have pos: "0 < unat f" by (simp add: unat_gt_0)
  have "unat (min f 10 - 1) = min (unat f) 10 - 1"
    using pos by (cases "f \<le> 10") (auto simp: min_def word_le_nat_alt unat_sub_if_size)
  moreover have "min (90 * 2 ^ (min (unat f) 10 - 1)) (900 :: nat) = min (90 * 2 ^ (unat f - 1)) 900"
  proof (cases "unat f \<le> 10")
    case False
    then have "(2 :: nat) ^ 9 \<le> 2 ^ (unat f - 1)" by (intro power_increasing) auto
    with False show ?thesis by simp
  qed simp
  moreover have "unat (push_bit (min (unat f) 10 - 1) FIRST_BACKOFF_SECS) = 90 * 2 ^ (min (unat f) 10 - 1)"
    using pos by (intro backoff_shift) auto
  ultimately show ?thesis
    using False by (simp add: backoff_delay_def MAX_BACKOFF_def)
qed (simp add: backoff_delay_def)

lemma saturating_add_le: "a \<le> saturating_add b c \<longleftrightarrow> unat a \<le> unat b + unat c"
proof (cases "checked_add b c")
  case None
  then have "2 ^ 64 \<le> unat b + unat c" by (simp add: checked_add_def split: if_splits)
  moreover have "unat a < 2 ^ 64" using unsigned_less [of a] by simp
  ultimately show ?thesis by (simp add: saturating_add_def None u64_max_def)
next
  case (Some d)
  then show ?thesis by (simp add: saturating_add_def word_le_nat_alt checked_add_unat)
qed

lemma saturating_sub_unat: "unat (saturating_sub a b) = unat a - unat b"
  by (auto simp: saturating_sub_def word_le_nat_alt unat_sub)

lemma delay_max:
  "max (if a then max 45 q else max 300 (max 45 q)) b = Max {if a then 45 else 300, q, b :: nat}"
  by (simp add: max.assoc) (simp add: max_def)

text \<open>The delay before the next round is what its description asks for, computed in unbounded
  arithmetic: at least 45 seconds and two seconds per chain; at least five minutes on an idle device;
  after failed rounds 90 seconds doubled with every further failure, at most fifteen minutes. A
  device is in use when its window is in front or the last activity lies within five minutes of the
  clock, on either side. Neither a number of failures nor a clock near the end of its range wraps
  around.\<close>

theorem next_poll_delay_exact:
  "next_poll_delay n_chains focused last_activity now failures =
     Max {if focused \<or> (unat last_activity \<le> unat now + 300000 \<and> unat now < unat last_activity + 300000)
          then 45 else 300,
          2 * min (unat n_chains) (2 ^ 32 - 1),
          if failures = 0 then 0 else min (90 * 2 ^ (unat failures - 1)) 900}"
proof -
  have w: "unat (of_nat (ACTIVE_WINDOW * 1000) :: u64) = 300000" by (simp add: ACTIVE_WINDOW_def)
  then have "last_activity \<le> saturating_add now (of_nat (ACTIVE_WINDOW * 1000))
        \<and> saturating_sub now last_activity < of_nat (ACTIVE_WINDOW * 1000)
      \<longleftrightarrow> unat last_activity \<le> unat now + 300000 \<and> unat now < unat last_activity + 300000"
    by (auto simp: saturating_add_le word_less_nat_alt saturating_sub_unat)
  then show ?thesis
    unfolding next_poll_delay_def Let_def IDLE_POLL_INTERVAL_def poll_interval_nat backoff_delay_nat delay_max [symmetric]
    by (simp only:) simp
qed

section \<open>Batches\<close>

definition batch_ok :: "outgoing_item list \<Rightarrow> bool" where
  "batch_ok batch \<longleftrightarrow> batch \<noteq> [] \<and> length batch \<le> PUSH_BATCH_ITEMS
     \<and> (length batch = 1 \<or> sum_list (map item_size batch) \<le> PUSH_BATCH_BYTES)"

lemma next_batch_bounds:
  assumes "next_batch n b outs = (batch, later)" "0 < n" "n \<le> PUSH_BATCH_ITEMS"
  shows "n + length batch \<le> PUSH_BATCH_ITEMS
    \<and> (batch = [] \<or> b + sum_list (map item_size batch) \<le> PUSH_BATCH_BYTES)"
  using assms
proof (induction n b outs arbitrary: batch rule: next_batch.induct)
  case (2 n b out rest)
  then show ?case
    by (auto split: if_splits prod.splits simp: add.assoc)
qed simp

lemma next_batch_ok:
  assumes "next_batch 0 0 (out # rest) = (batch, later)"
  shows "batch_ok batch"
proof -
  from assms obtain tl where b: "batch = out # tl" and n: "next_batch 1 (item_size out) rest = (tl, later)"
    by (auto split: prod.splits)
  from next_batch_bounds [OF n] b show ?thesis
    by (auto simp: batch_ok_def PUSH_BATCH_ITEMS_def)
qed

text \<open>What the relay said about the records it answered.\<close>

definition accepted_of :: "(outgoing_item \<times> push_result) list \<Rightarrow> (rstr \<times> u64) list" where
  "accepted_of answers = [(og_key out, seq). (out, Accepted seq) \<leftarrow> answers]"

definition conflicts_of :: "(outgoing_item \<times> push_result) list \<Rightarrow> nat" where
  "conflicts_of answers = length [out. (out, Conflict _) \<leftarrow> answers]"

lemma answers_append [simp]:
  "accepted_of (as @ bs) = accepted_of as @ accepted_of bs"
  "conflicts_of (as @ bs) = conflicts_of as + conflicts_of bs"
  by (simp_all add: accepted_of_def conflicts_of_def)

lemma foldl_note_result:
  "foldl note_result p answers = p\<lparr>ps_accepted := ps_accepted p @ accepted_of answers,
     ps_conflicts := ps_conflicts p + conflicts_of answers\<rparr>"
proof (induction answers arbitrary: p)
  case (Cons a as)
  obtain out r where a: "a = (out, r)" by force
  show ?case by (cases r) (simp_all add: Cons.IH a accepted_of_def conflicts_of_def)
qed (simp add: accepted_of_def conflicts_of_def)

text \<open>One request of an upload: the batch is within the limits, and the answers are the ones the
  relay gave to these very items.\<close>

definition exchange_ok :: "(nat \<Rightarrow> push_item list \<Rightarrow> relay_error + push_outcome) \<Rightarrow> nat \<Rightarrow> (outgoing_item \<times> push_result) list \<Rightarrow> bool" where
  "exchange_ok relay n answers \<longleftrightarrow> batch_ok (map fst answers)
     \<and> relay n (map (og_item \<circ> fst) answers) = Inr (Applied (map snd answers))"

definition stops :: "(nat \<Rightarrow> push_item list \<Rightarrow> relay_error + push_outcome) \<Rightarrow> nat \<Rightarrow> outgoing_item list \<Rightarrow> bool \<Rightarrow> relay_error option \<Rightarrow> bool" where
  "stops relay n unsent frozen e \<longleftrightarrow>
     (if unsent = [] then \<not> frozen \<and> e = None
      else \<exists>batch. prefix batch unsent \<and> batch_ok batch
        \<and> (relay n (map og_item batch) = Inr Frozen \<and> frozen \<and> e = None
           \<or> (\<exists>x. relay n (map og_item batch) = Inl x \<and> \<not> frozen \<and> e = Some x)
           \<or> (\<exists>results. relay n (map og_item batch) = Inr (Applied results) \<and> length results \<noteq> length batch
                \<and> \<not> frozen \<and> e \<noteq> None)))"

lemma upload_stop:
  assumes "outs \<noteq> []" and b: "next_batch 0 0 outs = (batch, later)" and ok: "batch_ok batch"
    and that: "\<not> (\<exists>results. relay n (map og_item batch) = Inr (Applied results) \<and> length results = length batch)"
    and p: "\<not> ps_frozen p" "ps_error p = None"
  shows "stops relay n outs (ps_frozen (push_batches relay n p outs)) (ps_error (push_batches relay n p outs))"
    "ps_accepted (push_batches relay n p outs) = ps_accepted p"
    "ps_conflicts (push_batches relay n p outs) = ps_conflicts p"
proof -
  have pre: "prefix batch outs" using next_batch_append [OF b] by simp
  have "stops relay n outs (ps_frozen (push_batches relay n p outs)) (ps_error (push_batches relay n p outs))
    \<and> ps_accepted (push_batches relay n p outs) = ps_accepted p
    \<and> ps_conflicts (push_batches relay n p outs) = ps_conflicts p"
  proof (cases "relay n (map og_item batch)")
    case (Inl e)
    then have "push_batches relay n p outs = p\<lparr>ps_error := Some e\<rparr>"
      using assms(1) by (subst push_batches.simps) (simp add: b)
    with Inl pre ok p assms(1) show ?thesis by (auto simp: stops_def)
  next
    case (Inr outcome)
    show ?thesis
    proof (cases outcome)
      case Frozen
      then have "push_batches relay n p outs = p\<lparr>ps_frozen := True\<rparr>"
        using assms(1) Inr by (subst push_batches.simps) (simp add: b)
      with Inr Frozen pre ok p assms(1) show ?thesis by (auto simp: stops_def)
    next
      case (Applied results)
      with that Inr have len: "length results \<noteq> length batch" by simp
      then have "\<exists>e. push_batches relay n p outs = p\<lparr>ps_error := Some e\<rparr>"
        using assms(1) Inr Applied by (subst push_batches.simps) (auto simp: b)
      with Inr Applied len pre ok p assms(1) show ?thesis by (auto simp: stops_def)
    qed
  qed
  then show "stops relay n outs (ps_frozen (push_batches relay n p outs)) (ps_error (push_batches relay n p outs))"
    "ps_accepted (push_batches relay n p outs) = ps_accepted p"
    "ps_conflicts (push_batches relay n p outs) = ps_conflicts p" by simp_all
qed

lemma push_batches_exact:
  assumes "\<not> ps_frozen p" "ps_error p = None"
  shows "\<exists>exchanges unsent. outs = concat (map (map fst) exchanges) @ unsent
     \<and> (\<forall>i < length exchanges. exchange_ok relay (n + i) (exchanges ! i))
     \<and> stops relay (n + length exchanges) unsent (ps_frozen (push_batches relay n p outs)) (ps_error (push_batches relay n p outs))
     \<and> ps_accepted (push_batches relay n p outs) = ps_accepted p @ accepted_of (concat exchanges)
     \<and> ps_conflicts (push_batches relay n p outs) = ps_conflicts p + conflicts_of (concat exchanges)"
  using assms
proof (induction relay n p outs rule: push_batches.induct)
  case (1 relay n p outs)
  show ?case
  proof (cases outs)
    case Nil
    then show ?thesis
      using 1(2,3) by (intro exI [of _ "[]"] exI [of _ "[]"])
        (simp add: push_batches.simps [of relay n p "[]"] stops_def accepted_of_def conflicts_of_def)
  next
    case (Cons out rest)
    obtain batch later where b: "next_batch 0 0 outs = (batch, later)" by force
    from Cons have ne: "outs \<noteq> []" by simp
    note ok = next_batch_ok [OF b [unfolded Cons]] and split = next_batch_append [OF b]
    have stop: ?thesis if "\<not> (\<exists>results. relay n (map og_item batch) = Inr (Applied results) \<and> length results = length batch)"
    proof -
      have "stops relay n outs (ps_frozen (push_batches relay n p outs)) (ps_error (push_batches relay n p outs))"
        "ps_accepted (push_batches relay n p outs) = ps_accepted p"
        "ps_conflicts (push_batches relay n p outs) = ps_conflicts p"
        using upload_stop [where relay = relay and n = n, OF _ b ok that 1(2,3)] Cons by simp_all
      then show ?thesis
        by (intro exI [of _ "[]"] exI [of _ outs]) (simp add: accepted_of_def conflicts_of_def)
    qed
    show ?thesis
    proof (cases "\<exists>results. relay n (map og_item batch) = Inr (Applied results) \<and> length results = length batch")
      case True
      then obtain results where r: "relay n (map og_item batch) = Inr (Applied results)" "length results = length batch" by blast
      let ?q = "foldl note_result p (zip batch results)"
      have eq: "push_batches relay n p outs = push_batches relay (n + 1) ?q later"
        using r ne by (subst push_batches.simps) (simp add: b)
      obtain exchanges unsent where ih: "later = concat (map (map fst) exchanges) @ unsent"
        "\<forall>i < length exchanges. exchange_ok relay (n + 1 + i) (exchanges ! i)"
        "stops relay (n + 1 + length exchanges) unsent (ps_frozen (push_batches relay (n + 1) ?q later)) (ps_error (push_batches relay (n + 1) ?q later))"
        "ps_accepted (push_batches relay (n + 1) ?q later) = ps_accepted ?q @ accepted_of (concat exchanges)"
        "ps_conflicts (push_batches relay (n + 1) ?q later) = ps_conflicts ?q + conflicts_of (concat exchanges)"
        using 1(1) [OF ne b [symmetric] r(1) refl] r(2) 1(2,3)
        by (auto simp: foldl_note_result)
      have "exchange_ok relay n (zip batch results)"
        using ok r by (simp add: exchange_ok_def map_fst_zip map_snd_zip flip: map_map)
      then have all: "\<forall>i < length (zip batch results # exchanges). exchange_ok relay (n + i) ((zip batch results # exchanges) ! i)"
        using ih(2) by (auto simp: less_Suc_eq_0_disj)
      have "outs = concat (map (map fst) (zip batch results # exchanges)) @ unsent"
        using split ih(1) r(2) by (simp add: map_fst_zip)
      moreover have "stops relay (n + length (zip batch results # exchanges)) unsent
          (ps_frozen (push_batches relay (n + 1) ?q later)) (ps_error (push_batches relay (n + 1) ?q later))"
        using ih(3) by simp
      moreover have "ps_accepted (push_batches relay (n + 1) ?q later) = ps_accepted p @ accepted_of (concat (zip batch results # exchanges))"
        "ps_conflicts (push_batches relay (n + 1) ?q later) = ps_conflicts p + conflicts_of (concat (zip batch results # exchanges))"
        using ih(4,5) by (simp_all add: foldl_note_result)
      ultimately show ?thesis using all unfolding eq by blast
    qed (rule stop)
  qed
qed

lemma push_outgoing_answers:
  "\<exists>exchanges unsent. outs = concat (map (map fst) exchanges) @ unsent
     \<and> (\<forall>i < length exchanges. exchange_ok relay i (exchanges ! i))
     \<and> stops relay (length exchanges) unsent (ps_frozen (push_outgoing relay outs)) (ps_error (push_outgoing relay outs))
     \<and> ps_accepted (push_outgoing relay outs) = accepted_of (concat exchanges)
     \<and> ps_conflicts (push_outgoing relay outs) = conflicts_of (concat exchanges)"
  unfolding push_outgoing_def
  using push_batches_exact [of "\<lparr>ps_accepted = [], ps_conflicts = 0, ps_frozen = False, ps_error = None\<rparr>" outs relay 0] by simp

text \<open>C19. An upload sends the pending records in order, in requests of at most 200 records and 512
  KiB (a single larger record goes alone), each record at most once. What it reports as accepted or
  in conflict is what the relay answered for that very record; the records after the first request
  that failed or hit a frozen chain are not sent, and the upload says so. When nothing is reported,
  every record was answered.\<close>

theorem push_outgoing_exact:
  "\<exists>exchanges unsent. outs = concat (map (map fst) exchanges) @ unsent
     \<and> (\<forall>i < length exchanges. exchange_ok relay i (exchanges ! i))
     \<and> stops relay (length exchanges) unsent (ps_frozen (push_outgoing relay outs)) (ps_error (push_outgoing relay outs))
     \<and> ps_accepted (push_outgoing relay outs) = accepted_of (concat exchanges)
     \<and> ps_conflicts (push_outgoing relay outs) = conflicts_of (concat exchanges)"
  by (rule push_outgoing_answers)

text \<open>Two small records go in one request, a record of half a megabyte alone.\<close>

definition small_item :: "string \<Rightarrow> outgoing_item" where
  "small_item key = \<lparr>og_key = lit key, og_item = \<lparr>pi_id_hash = lit key, pi_kind = lit ''host'', pi_nonce = lit ''n'',
     pi_ciphertext = lit ''c'', pi_deleted = False, pi_base_seq = 0\<rparr>, og_version = 1, og_updated_at_ms = 1\<rparr>"

definition sample_relay_push :: "nat \<Rightarrow> push_item list \<Rightarrow> relay_error + push_outcome" where
  "sample_relay_push n items = (if length items = 2 then Inr (Applied [Accepted 7, Accepted 8]) else Inl R_QuotaExceeded)"

lemma sample_upload:
  "push_outgoing sample_relay_push [small_item ''a'', small_item ''b''] =
     \<lparr>ps_accepted = [(lit ''a'', 7), (lit ''b'', 8)], ps_conflicts = 0, ps_frozen = False, ps_error = None\<rparr>"
  by (simp add: push_outgoing_def push_batches.simps sample_relay_push_def small_item_def item_size_def
    PUSH_BATCH_ITEMS_def PUSH_BATCH_BYTES_def str_len_def utf8_len_def lit_def)

theorem push_outgoing_exact_witness:
  "\<exists>exchanges. map fst (concat exchanges) = [small_item ''a'', small_item ''b'']
     \<and> accepted_of (concat exchanges) = [(lit ''a'', 7), (lit ''b'', 8)]"
proof -
  from push_outgoing_exact [of "[small_item ''a'', small_item ''b'']" sample_relay_push]
  obtain exchanges unsent where e: "[small_item ''a'', small_item ''b''] = concat (map (map fst) exchanges) @ unsent"
    and s: "stops sample_relay_push (length exchanges) unsent False None"
    and a: "accepted_of (concat exchanges) = [(lit ''a'', 7), (lit ''b'', 8)]"
    by (auto simp: sample_upload)
  have "length (accepted_of xs) \<le> length xs" for xs
    by (induction xs) (auto simp: accepted_of_def split: push_result.splits)
  with a have "2 \<le> length (concat exchanges)" by (metis length_Cons list.size(3) numeral_2_eq_2)
  moreover have "length (concat (map (map fst) exchanges)) = length (concat exchanges)"
    by (simp add: map_concat [symmetric])
  moreover have "length (concat (map (map fst) exchanges)) + length unsent = 2" using arg_cong [OF e, of length] by simp
  ultimately have "length unsent = 0" by linarith
  then have "unsent = []" by simp
  with e a show ?thesis by (auto simp: map_concat)
qed

section \<open>The contract of the relay\<close>

text \<open>What the engine relies on when it uploads through \<open>RelayApi::push\<close>: a request that was applied is
  answered item by item, with sequence numbers the relay can accept again.\<close>

locale relay_push =
  fixes relay :: "nat \<Rightarrow> push_item list \<Rightarrow> relay_error + push_outcome"
  assumes one_answer_each: "relay n items = Inr (Applied results) \<Longrightarrow> length results = length items"
    and seqs_in_range: "relay n items = Inr (Applied results) \<Longrightarrow> r \<in> set results \<Longrightarrow> result_seq r \<le> MAX_SAFE_INTEGER"
begin

lemma error_from_relay:
  "ps_error (push_outgoing relay outs) = Some e \<Longrightarrow> \<exists>n items. relay n items = Inl e"
  using push_outgoing_answers [of outs relay] one_answer_each
  by (auto simp: stops_def split: if_splits)

lemma accepted_in_range:
  assumes "(key, seq) \<in> set (ps_accepted (push_outgoing relay outs))"
  shows "seq \<le> MAX_SAFE_INTEGER \<and> key \<in> og_key ` set outs"
proof -
  obtain exchanges unsent where e: "outs = concat (map (map fst) exchanges) @ unsent"
    "\<forall>i < length exchanges. exchange_ok relay i (exchanges ! i)"
    "ps_accepted (push_outgoing relay outs) = accepted_of (concat exchanges)"
    using push_outgoing_answers [of outs relay] by blast
  with assms obtain ex out where "ex \<in> set exchanges" "(out, Accepted seq) \<in> set ex" "key = og_key out"
    by (force simp: accepted_of_def)
  moreover from this(1) e(2) obtain i where "exchange_ok relay i ex" by (metis in_set_conv_nth)
  ultimately show ?thesis
    using e(1) seqs_in_range [of i _ "map snd ex" "Accepted seq"] by (force simp: exchange_ok_def)
qed

end

interpretation client: relay_push "\<lambda>n. push (H n) base chain_id tok"
  for H base chain_id tok
  by unfold_locales
    (auto simp: push_def checked_push_results_def not_less split: if_splits)

end
