(* ===== verification/Ssh_Types.thy ===== *)
theory Ssh_Types
  imports Session_Protocol
begin

text \<open>
  The data that crosses the interface of the SSH engine and its errors with the sentences the user sees
  (\<open>ssh/types.rs\<close>, \<open>ssh/error.rs\<close>). Durations are in nanoseconds.
\<close>

section \<open>Hosts, keys and targets\<close>

type_synonym host_id = rstr
type_synonym secret = rstr

record hop_ref =
  hf_id :: host_id
  hf_alias :: rstr
  hf_hostname :: rstr
  hf_port :: u16
  hf_user :: rstr

record host_key =
  sk_algorithm :: rstr
  sk_public_key :: bytes
  sk_fingerprint :: rstr

datatype host_key_verdict = V_Pinned | V_Unknown | V_Mismatch host_key

datatype rsa_hash = Sha256 | Sha512

record prompt =
  p_text :: rstr
  p_echo :: bool

datatype auth_method = AM_Key rstr | AM_Password | AM_Interactive

fun method_name :: "auth_method \<Rightarrow> rstr" where
  "method_name (AM_Key _) = lit ''publickey''"
| "method_name AM_Password = lit ''password''"
| "method_name AM_Interactive = lit ''keyboard-interactive''"

definition SECOND :: nat where
  "SECOND = 1000000000"

text \<open>\<open>Duration::MAX\<close>.\<close>

definition DURATION_MAX :: nat where
  "DURATION_MAX = 18446744073709551615 * SECOND + 999999999"

definition DEFAULT_CONNECT_TIMEOUT :: nat where
  "DEFAULT_CONNECT_TIMEOUT = 15 * SECOND"

definition DEFAULT_KEEPALIVE_EVERY :: nat where
  "DEFAULT_KEEPALIVE_EVERY = 30 * SECOND"

definition DEFAULT_KEEPALIVE_MAX_MISSED :: u32 where
  "DEFAULT_KEEPALIVE_MAX_MISSED = 3"

record hop =
  h_id :: host_id
  h_alias :: rstr
  h_hostname :: rstr
  h_port :: u16
  h_user :: rstr
  h_auth :: auth_method
  h_pinned :: "host_key option"
  h_connect_timeout :: nat
  h_keepalive_every :: nat
  h_keepalive_max_missed :: u32
  h_nodelay :: bool

definition hop_new :: "rstr \<Rightarrow> rstr \<Rightarrow> rstr \<Rightarrow> u16 \<Rightarrow> rstr \<Rightarrow> auth_method \<Rightarrow> hop" where
  "hop_new i alias hostname port user auth =
     \<lparr>h_id = i, h_alias = alias, h_hostname = hostname, h_port = port, h_user = user, h_auth = auth, h_pinned = None,
      h_connect_timeout = DEFAULT_CONNECT_TIMEOUT, h_keepalive_every = DEFAULT_KEEPALIVE_EVERY,
      h_keepalive_max_missed = DEFAULT_KEEPALIVE_MAX_MISSED, h_nodelay = True\<rparr>"

definition hop_reference :: "hop \<Rightarrow> hop_ref" where
  "hop_reference h = \<lparr>hf_id = h_id h, hf_alias = h_alias h, hf_hostname = h_hostname h, hf_port = h_port h, hf_user = h_user h\<rparr>"

definition auth_sequence :: "hop \<Rightarrow> auth_method list" where
  "auth_sequence h =
     (case h_auth h of
        AM_Key k \<Rightarrow> [AM_Key k, AM_Password, AM_Interactive]
      | AM_Password \<Rightarrow> [AM_Password, AM_Interactive]
      | AM_Interactive \<Rightarrow> [AM_Interactive])"

type_synonym target = "hop list"

section \<open>Errors\<close>

datatype phase = PH_Tcp | PH_Handshake | PH_Auth

fun phase_text :: "phase \<Rightarrow> rstr" where
  "phase_text PH_Tcp = lit ''the TCP connection''"
| "phase_text PH_Handshake = lit ''the SSH handshake''"
| "phase_text PH_Auth = lit ''login''"

datatype connect_error =
    CE_BadJumpChain rstr
  | CE_Unreachable hop_ref rstr
  | CE_Timeout hop_ref phase
  | CE_HostKeyUnknown hop_ref host_key
  | CE_HostKeyMismatch hop_ref host_key host_key
  | CE_NoCommonHostKeyAlgorithm hop_ref "rstr list" "rstr list"
  | CE_AuthFailed hop_ref "auth_method list" rstr bool
  | CE_AuthAbandoned hop_ref rstr
  | CE_Protocol hop_ref rstr

datatype auth_error = AUE_KeyUnavailable rstr | AUE_Refused rstr | AUE_Failed rstr

definition endpoint_text :: "hop_ref \<Rightarrow> rstr" where
  "endpoint_text hop = lit ''Could not reach '' @ hf_hostname hop @ lit '':'' @ dec (unat (hf_port hop))"

fun connect_error_text :: "connect_error \<Rightarrow> rstr" where
  "connect_error_text (CE_BadJumpChain why) = lit ''The jump chain cannot be used: '' @ why"
| "connect_error_text (CE_Unreachable hop reason) = endpoint_text hop @ lit '' ('' @ reason @ lit '').''"
| "connect_error_text (CE_Timeout hop p) = endpoint_text hop @ lit '' (timed out during '' @ phase_text p @ lit '').''"
| "connect_error_text (CE_HostKeyUnknown hop _) = lit ''The host key of '' @ hf_alias hop @ lit '' has not been confirmed yet.''"
| "connect_error_text (CE_HostKeyMismatch hop _ _) = lit ''The host key of '' @ hf_alias hop @ lit '' changed. Connection refused.''"
| "connect_error_text (CE_NoCommonHostKeyAlgorithm hop ours theirs) =
     lit ''Could not agree on a host key algorithm with '' @ hf_alias hop @ lit '': the server offers '' @ join (lit '', '') theirs
     @ lit '', Lunport accepts '' @ join (lit '', '') ours @ lit ''.''
     @ (if lit ''ssh-rsa'' \<in> set theirs \<and> lit ''ssh-rsa'' \<notin> set ours then lit '' Lunport does not use ssh-rsa (SHA-1).'' else [])"
| "connect_error_text (CE_AuthFailed hop tried reason _) =
     lit ''Authentication failed for '' @ hf_user hop @ lit ''@'' @ hf_alias hop
     @ (if tried = [] then lit '' (no login method could be tried).''
        else lit '' (tried: '' @ join (lit '', '') (map method_name tried) @ lit '').'')
     @ (if reason = [] then [] else lit '' '' @ reason)"
| "connect_error_text (CE_AuthAbandoned hop reason) = lit ''Authentication for '' @ hf_alias hop @ lit '' was abandoned ('' @ reason @ lit '').''"
| "connect_error_text (CE_Protocol _ t) = lit ''SSH error: '' @ t"

text \<open>The hop an error is about.\<close>

fun hop_of :: "connect_error \<Rightarrow> hop_ref option" where
  "hop_of (CE_BadJumpChain _) = None"
| "hop_of (CE_Unreachable hop _) = Some hop"
| "hop_of (CE_Timeout hop _) = Some hop"
| "hop_of (CE_HostKeyUnknown hop _) = Some hop"
| "hop_of (CE_HostKeyMismatch hop _ _) = Some hop"
| "hop_of (CE_NoCommonHostKeyAlgorithm hop _ _) = Some hop"
| "hop_of (CE_AuthFailed hop _ _ _) = Some hop"
| "hop_of (CE_AuthAbandoned hop _) = Some hop"
| "hop_of (CE_Protocol hop _) = Some hop"

end
