(* ===== verification/Session_Auth.thy ===== *)
theory Session_Auth
  imports Ssh_Types
begin

text \<open>
  What the broker gives the engine for one connection (\<open>session/auth.rs\<close>): the policy over the pinned host
  keys, and the source of signatures, passwords and answers, which asks the person at the terminal.

  The engine calls back while it connects. One call of \<open>SshEngine::connect\<close> is a dialogue: a tree of the
  callbacks it makes and the result it ends with. Everything outside (the engine, the directory of saved hosts,
  the vault, the keychain, the person) is a parameter over a world that every call may change, so other
  threads may act between any two calls. The state keeps a log of what was asked, checked and pinned.
\<close>

section \<open>Text for the terminal\<close>

text \<open>\<open>replace("\r\n", "\n")\<close>.\<close>

fun crlf_to_lf :: "rstr \<Rightarrow> rstr" where
  "crlf_to_lf (a # b # s) = (if a = 13 \<and> b = 10 then 10 # crlf_to_lf s else a # crlf_to_lf (b # s))"
| "crlf_to_lf s = s"

definition is_deceptive_format :: "uchar \<Rightarrow> bool" where
  "is_deceptive_format c \<longleftrightarrow> c \<in> {0x061C, 0x200E, 0x200F, 0x2028, 0x2029} \<or> (0x202A \<le> c \<and> c \<le> 0x202E) \<or> (0x2066 \<le> c \<and> c \<le> 0x2069)"

definition printable :: "rstr \<Rightarrow> rstr" where
  "printable t = map (\<lambda>c. if is_control c \<and> c \<noteq> 10 \<and> c \<noteq> 9 \<or> is_deceptive_format c then 63 else c) (crlf_to_lf t)"

definition label :: "rstr \<Rightarrow> rstr" where
  "label name = map (\<lambda>c. if c = 10 \<or> c = 9 then 63 else c) (printable name)"

definition prompt_prefix :: "hop_ref \<Rightarrow> rstr" where
  "prompt_prefix hop = lit ''('' @ label (hf_user hop) @ lit ''@'' @ label (hf_alias hop) @ lit '') ''"

definition shown_prompt :: "hop_ref \<Rightarrow> rstr \<Rightarrow> rstr" where
  "shown_prompt hop t =
     (let prefix = prompt_prefix hop;
          text' = printable t;
          body = (if ends_with text' [10] then butlast text' else text');
          shown = join [10] (map (\<lambda>line. prefix @ line) (split_on 10 body))
      in if ends_with text' [10] then shown @ [10] else shown)"

section \<open>The world of a session\<close>

record vault_key =
  vk_name :: rstr
  vk_public_key :: rstr

datatype reply = RP_Answer secret | RP_Cancelled | RP_TimedOut | RP_Gone

datatype open_error = OE_NeedsPassphrase | OE_WrongPassphrase | OE_UnsupportedCipher rstr | OE_Unreadable

datatype directory_error = DE_NotFound rstr | DE_Ambiguous rstr | DE_Unsupported rstr | DE_Failed rstr

fun directory_error_text :: "directory_error \<Rightarrow> rstr" where
  "directory_error_text (DE_NotFound t) = t"
| "directory_error_text (DE_Ambiguous t) = t"
| "directory_error_text (DE_Unsupported t) = t"
| "directory_error_text (DE_Failed t) = t"

record pinned_key =
  pk_key :: host_key
  pk_pinned_at_ms :: u64

record pinned_summary =
  ps_fingerprint :: rstr
  ps_pinned_at_ms :: u64

record host_key_question =
  hq_alias :: rstr
  hq_hostname :: rstr
  hq_port :: u16
  hq_algorithm :: rstr
  hq_fingerprint :: rstr
  hq_changed :: "pinned_summary option"

text \<open>One call of the engine: the callbacks it makes, in order, with the world at that moment.\<close>

datatype ('w, 's) dialogue =
    D_Done "connect_error + 's" 'w
  | D_Check hop_ref host_key "host_key_verdict \<Rightarrow> ('w, 's) dialogue"
  | D_PublicKey rstr "rstr option \<Rightarrow> ('w, 's) dialogue"
  | D_Sign rstr bytes "rsa_hash option" 'w "(auth_error + bytes) \<Rightarrow> 'w \<Rightarrow> ('w, 's) dialogue"
  | D_Password hop_ref 'w "secret option \<Rightarrow> 'w \<Rightarrow> ('w, 's) dialogue"
  | D_Interactive hop_ref "prompt list" nat 'w "secret list option \<Rightarrow> 'w \<Rightarrow> ('w, 's) dialogue"
  | D_Banner hop_ref rstr 'w "'w \<Rightarrow> ('w, 's) dialogue"

record ('w, 's, 'm, 'k) session_env =
  se_connect :: "target \<Rightarrow> 'w \<Rightarrow> ('w, 's) dialogue"
  se_close :: "'s \<Rightarrow> 'w \<Rightarrow> 'w"
  se_resolve :: "host_query \<Rightarrow> 'w \<Rightarrow> (directory_error + target) \<times> 'w"
  se_pinned_for :: "hop_ref \<Rightarrow> 'w \<Rightarrow> (directory_error + pinned_key option) \<times> 'w"
  se_pin_confirmed :: "hop_ref \<Rightarrow> host_key option \<Rightarrow> host_key \<Rightarrow> ('w \<Rightarrow> (directory_error + unit) \<times> 'w) \<Rightarrow> 'w
    \<Rightarrow> (directory_error + unit) \<times> 'w"
  se_password_account :: "host_id \<Rightarrow> 'w \<Rightarrow> rstr \<times> 'w"
  se_key :: "rstr \<Rightarrow> 'w \<Rightarrow> vault_key option \<times> 'w"
  se_private_text :: "rstr \<Rightarrow> 'w \<Rightarrow> (rstr + rstr option) \<times> 'w"
  se_public_key_data :: "rstr \<Rightarrow> 'k option"
  se_private_key_data :: "rstr \<Rightarrow> 'k option"
  se_open :: "rstr \<Rightarrow> secret option \<Rightarrow> open_error + 'm"
  se_material_key :: "'m \<Rightarrow> 'k"
  se_sign :: "'m \<Rightarrow> bytes \<Rightarrow> u32 \<Rightarrow> 'w \<Rightarrow> (rstr + bytes) \<times> 'w"
  se_keychain_get :: "rstr \<Rightarrow> 'w \<Rightarrow> (app_error + rstr option) \<times> 'w"
  se_keychain_delete :: "rstr \<Rightarrow> 'w \<Rightarrow> (app_error + unit) \<times> 'w"
  se_ask_at :: "hop_ref \<Rightarrow> question_kind \<Rightarrow> rstr \<Rightarrow> bool \<Rightarrow> nat option \<Rightarrow> 'w \<Rightarrow> reply \<times> 'w"
  se_host_key_notice :: "rstr \<Rightarrow> 'w \<Rightarrow> 'w"
  se_banner :: "rstr \<Rightarrow> 'w \<Rightarrow> 'w"
  se_confirm :: "host_key_question \<Rightarrow> 'w \<Rightarrow> rstr option \<times> 'w"
  se_cancelled :: "'w \<Rightarrow> bool \<times> 'w"
  se_now :: "'w \<Rightarrow> nat \<times> 'w"
  se_instant_max :: nat

datatype session_event =
    EV_Resolved target
  | EV_Asked hop_ref question_kind rstr
  | EV_Checked hop_ref host_key host_key_verdict
  | EV_Confirmed hop_ref host_key "rstr option"
  | EV_Recorded hop_ref host_key
  | EV_Pinned hop_ref host_key

datatype password_source = PS_Keychain | PS_Typed

record ('w, 'm) session_state =
  ss_world :: 'w
  ss_pins :: "host_id \<Rightarrow> host_key option"
  ss_opened :: "rstr \<Rightarrow> ('m \<times> rstr) option"
  ss_typed :: "host_id \<Rightarrow> secret option"
  ss_cancelled :: "host_id set"
  ss_gave :: "host_id \<Rightarrow> password_source option"
  ss_password_first :: "host_id \<Rightarrow> nat option"
  ss_asked_host_key :: "host_id set"
  ss_unrestricted :: "host_id set"
  ss_passwords_typed :: "host_id \<Rightarrow> nat option"
  ss_log :: "session_event list"

section \<open>Asking the person\<close>

type_synonym ('a, 'w, 'm) act = "('w, 'm) session_state \<Rightarrow> 'a \<times> ('w, 'm) session_state"

definition call :: "('w \<Rightarrow> 'a \<times> 'w) \<Rightarrow> ('a, 'w, 'm) act" where
  "call f st = (case f (ss_world st) of (a, w) \<Rightarrow> (a, st\<lparr>ss_world := w\<rparr>))"

definition log_event :: "session_event \<Rightarrow> ('w, 'm) session_state \<Rightarrow> ('w, 'm) session_state" where
  "log_event ev st = st\<lparr>ss_log := ss_log st @ [ev]\<rparr>"

definition PASSPHRASE_ATTEMPTS :: nat where
  "PASSPHRASE_ATTEMPTS = 3"

definition passphrase_account :: "rstr \<Rightarrow> rstr" where
  "passphrase_account key_id = lit ''vault:passphrase:'' @ key_id"

definition prompt_wait :: "hop \<Rightarrow> nat" where
  "prompt_wait h = max (min (h_connect_timeout h * 4) DURATION_MAX) (60 * SECOND)"

definition deadline_after :: "('w, 's, 'm, 'k) session_env \<Rightarrow> nat \<Rightarrow> (nat, 'w, 'm) act" where
  "deadline_after E wait st =
     (case call (se_now E) st of (now, st) \<Rightarrow>
        (if now + wait \<le> se_instant_max E then now + wait else now + 60 * 60 * 24 * 365 * SECOND, st))"

definition ask_at :: "('w, 's, 'm, 'k) session_env \<Rightarrow> hop_ref \<Rightarrow> question_kind \<Rightarrow> rstr \<Rightarrow> bool \<Rightarrow> nat option \<Rightarrow> (reply, 'w, 'm) act" where
  "ask_at E hop kind t echo deadline st = call (se_ask_at E hop kind t echo deadline) (log_event (EV_Asked hop kind t) st)"

section \<open>Opening the keys\<close>

definition abandoned :: "hop \<Rightarrow> rstr \<Rightarrow> rstr" where
  "abandoned h reason = connect_error_text (CE_AuthAbandoned (hop_reference h) reason)"

definition unreadable_key :: "vault_key \<Rightarrow> rstr" where
  "unreadable_key key = lit ''The key '' @ vk_name key @ lit '' in Lunport'' @ [39] @ lit ''s vault cannot be read.''"

fun ask_passphrase :: "('w, 's, 'm, 'k) session_env \<Rightarrow> hop \<Rightarrow> vault_key \<Rightarrow> rstr \<Rightarrow> rstr \<Rightarrow> nat \<Rightarrow> (rstr + 'm, 'w, 'm) act" where
  "ask_passphrase E h key t question 0 st = (Inl (abandoned h (lit ''the passphrase was wrong three times'')), st)"
| "ask_passphrase E h key t question (Suc n) st =
     (case deadline_after E (prompt_wait h) st of (deadline, st) \<Rightarrow>
      case ask_at E (hop_reference h) QK_Passphrase question False (Some deadline) st of (r, st) \<Rightarrow>
        (case r of
           RP_Answer passphrase \<Rightarrow>
             (case se_open E t (Some passphrase) of
                Inr m \<Rightarrow> (Inr m, st)
              | Inl OE_WrongPassphrase \<Rightarrow>
                  ask_passphrase E h key t
                    (lit ''That passphrase didn'' @ [39] @ lit ''t work. Enter the passphrase for the key '' @ label (vk_name key) @ lit '': '') n st
              | Inl _ \<Rightarrow> (Inl (unreadable_key key), st))
         | RP_Cancelled \<Rightarrow> (Inl (abandoned h (lit ''the passphrase was not given'')), st)
         | RP_Gone \<Rightarrow> (Inl (abandoned h (lit ''the passphrase was not given'')), st)
         | RP_TimedOut \<Rightarrow> (Inl (abandoned h (lit ''the passphrase prompt timed out'')), st)))"

definition remembered :: "('w, 's, 'm, 'k) session_env \<Rightarrow> rstr \<Rightarrow> rstr \<Rightarrow> ('m option, 'w, 'm) act" where
  "remembered E key_id t st =
     (let account = passphrase_account key_id in
      case call (se_keychain_get E account) st of (got, st) \<Rightarrow>
        (case got of
           Inr (Some saved) \<Rightarrow>
             (case se_open E t (Some saved) of
                Inr m \<Rightarrow> (Some m, st)
              | Inl _ \<Rightarrow> (None, snd (call (se_keychain_delete E account) st)))
         | _ \<Rightarrow> (None, st)))"

definition open_key :: "('w, 's, 'm, 'k) session_env \<Rightarrow> hop \<Rightarrow> rstr \<Rightarrow> vault_key \<Rightarrow> rstr \<Rightarrow> (rstr + 'm, 'w, 'm) act" where
  "open_key E h key_id key t st =
     (case se_open E t None of
        Inr m \<Rightarrow> (Inr m, st)
      | Inl OE_NeedsPassphrase \<Rightarrow>
          (case remembered E key_id t st of (got, st) \<Rightarrow>
             (case got of
                Some m \<Rightarrow> (Inr m, st)
              | None \<Rightarrow>
                  ask_passphrase E h key t (lit ''Enter the passphrase for the key '' @ label (vk_name key) @ lit '': '') PASSPHRASE_ATTEMPTS st))
      | Inl (OE_UnsupportedCipher cipher) \<Rightarrow>
          (Inl (lit ''The key '' @ vk_name key @ lit '' is encrypted with '' @ cipher @ lit '', which Lunport cannot open.''), st)
      | Inl _ \<Rightarrow> (Inl (unreadable_key key), st))"

definition key_mismatch :: "vault_key \<Rightarrow> rstr" where
  "key_mismatch key = lit ''Lunport refused the key '' @ label (vk_name key) @ lit '': its private key does not match its saved public key.''"

definition unlock_key :: "('w, 's, 'm, 'k) session_env \<Rightarrow> hop \<Rightarrow> rstr \<Rightarrow> vault_key \<Rightarrow> rstr \<Rightarrow> (rstr + unit, 'w, 'm) act" where
  "unlock_key E h key_id key t st =
     (case se_public_key_data E (vk_public_key key) of
        None \<Rightarrow> (Inl (key_mismatch key), st)
      | Some identity' \<Rightarrow>
          if is_some_and (se_private_key_data E t) (\<lambda>k. k \<noteq> identity') then (Inl (key_mismatch key), st)
          else
            (case open_key E h key_id key t st of (opened, st) \<Rightarrow>
               (case opened of
                  Inl e \<Rightarrow> (Inl e, st)
                | Inr m \<Rightarrow>
                    if se_material_key E m \<noteq> identity' then (Inl (key_mismatch key), st)
                    else (Inr (), st\<lparr>ss_opened := (ss_opened st)(key_id := Some (m, vk_public_key key))\<rparr>))))"

definition unlock_hop :: "('w, 's, 'm, 'k) session_env \<Rightarrow> hop \<Rightarrow> (rstr + unit, 'w, 'm) act" where
  "unlock_hop E h st =
     (case h_auth h of
        AM_Key key_id \<Rightarrow>
          if ss_opened st key_id \<noteq> None then (Inr (), st)
          else
            (case call (se_key E key_id) st of (key, st) \<Rightarrow>
               (case key of
                  None \<Rightarrow> (Inr (), st)
                | Some key \<Rightarrow>
                    (case call (se_private_text E key_id) st of (got, st) \<Rightarrow>
                       (case got of
                          Inl e \<Rightarrow> (Inl (lit ''Lunport cannot read the key '' @ vk_name key @ lit '' from its vault ('' @ e @ lit '').''), st)
                        | Inr None \<Rightarrow> (Inr (), st)
                        | Inr (Some t) \<Rightarrow> unlock_key E h key_id key t st))))
      | _ \<Rightarrow> (Inr (), st))"

fun unlock :: "('w, 's, 'm, 'k) session_env \<Rightarrow> target \<Rightarrow> (rstr + unit, 'w, 'm) act" where
  "unlock E [] st = (Inr (), st)"
| "unlock E (h # hs) st =
     (case unlock_hop E h st of (r, st) \<Rightarrow> (case r of Inl e \<Rightarrow> (Inl e, st) | Inr _ \<Rightarrow> unlock E hs st))"

section \<open>The policy and the source of answers\<close>

definition pins_of_target :: "target \<Rightarrow> host_id \<Rightarrow> host_key option" where
  "pins_of_target t = fold (\<lambda>h pins. case h_pinned h of Some k \<Rightarrow> pins(h_id h := Some k) | None \<Rightarrow> pins) t (\<lambda>_. None)"

definition policy_check :: "(host_id \<Rightarrow> host_key option) \<Rightarrow> hop_ref \<Rightarrow> host_key \<Rightarrow> host_key_verdict" where
  "policy_check pins hop key =
     (case pins (hf_id hop) of
        Some pinned \<Rightarrow> if sk_fingerprint pinned = sk_fingerprint key then V_Pinned else V_Mismatch pinned
      | None \<Rightarrow> V_Unknown)"

definition prepare :: "target \<Rightarrow> ('w, 'm) session_state \<Rightarrow> ('w, 'm) session_state" where
  "prepare t st =
     st\<lparr>ss_password_first :=
          fold (\<lambda>h first. if h_auth h = AM_Password then first(h_id h := Some (prompt_wait h)) else first) t (\<lambda>_. None)\<rparr>"

definition auth_public_key :: "rstr \<Rightarrow> ('w, 'm) session_state \<Rightarrow> rstr option" where
  "auth_public_key key_id st = map_option snd (ss_opened st key_id)"

definition sign_flags :: "rsa_hash option \<Rightarrow> u32" where
  "sign_flags h = (case h of Some Sha512 \<Rightarrow> 4 | Some Sha256 \<Rightarrow> 2 | None \<Rightarrow> 0)"

definition auth_sign :: "('w, 's, 'm, 'k) session_env \<Rightarrow> rstr \<Rightarrow> bytes \<Rightarrow> rsa_hash option \<Rightarrow> (auth_error + bytes, 'w, 'm) act" where
  "auth_sign E key_id data hash st =
     (case ss_opened st key_id of
        None \<Rightarrow> (Inl (AUE_KeyUnavailable (lit ''the key '' @ key_id @ lit '' was not opened'')), st)
      | Some (m, _) \<Rightarrow>
          (case call (se_sign E m data (sign_flags hash)) st of (r, st) \<Rightarrow> (map_err AUE_Failed r, st)))"

definition password_question :: "hop_ref \<Rightarrow> rstr" where
  "password_question hop = label (hf_user hop) @ lit ''@'' @ label (hf_alias hop) @ [39] @ lit ''s password: ''"

definition gave :: "host_id \<Rightarrow> password_source \<Rightarrow> ('w, 'm) session_state \<Rightarrow> ('w, 'm) session_state" where
  "gave i src st = st\<lparr>ss_gave := (ss_gave st)(i := Some src)\<rparr>"

definition set_typed :: "host_id \<Rightarrow> secret \<Rightarrow> ('w, 'm) session_state \<Rightarrow> ('w, 'm) session_state" where
  "set_typed i password st = st\<lparr>ss_typed := (ss_typed st)(i := Some password)\<rparr>"

definition forget_typed :: "host_id \<Rightarrow> ('w, 'm) session_state \<Rightarrow> ('w, 'm) session_state" where
  "forget_typed i st = st\<lparr>ss_typed := (ss_typed st)(i := None)\<rparr>"

definition cancel :: "host_id \<Rightarrow> ('w, 'm) session_state \<Rightarrow> ('w, 'm) session_state" where
  "cancel i st = st\<lparr>ss_cancelled := insert i (ss_cancelled st)\<rparr>"

definition ask_password :: "('w, 's, 'm, 'k) session_env \<Rightarrow> hop_ref \<Rightarrow> (secret option, 'w, 'm) act" where
  "ask_password E hop st =
     (case (if hf_id hop \<in> ss_cancelled st then None else ss_password_first st (hf_id hop)) of
        None \<Rightarrow> (None, st)
      | Some wait \<Rightarrow>
          (case deadline_after E wait st of (deadline, st) \<Rightarrow>
           case ask_at E hop QK_Password (password_question hop) False (Some deadline) st of (r, st) \<Rightarrow>
             (case r of
                RP_Answer password \<Rightarrow> (Some password, gave (hf_id hop) PS_Typed (set_typed (hf_id hop) password st))
              | _ \<Rightarrow> (None, cancel (hf_id hop) st))))"

definition auth_password :: "('w, 's, 'm, 'k) session_env \<Rightarrow> hop_ref \<Rightarrow> (secret option, 'w, 'm) act" where
  "auth_password E hop st =
     (case ss_typed st (hf_id hop) of
        Some typed \<Rightarrow> (Some typed, gave (hf_id hop) PS_Typed st)
      | None \<Rightarrow>
          (case call (se_password_account E (hf_id hop)) st of (account, st) \<Rightarrow>
           case call (se_keychain_get E account) st of (got, st) \<Rightarrow>
             (case got of
                Inr (Some saved) \<Rightarrow>
                  if saved \<noteq> [] then (Some saved, gave (hf_id hop) PS_Keychain st) else ask_password E hop st
              | _ \<Rightarrow> ask_password E hop st)))"

fun ask_prompts :: "('w, 's, 'm, 'k) session_env \<Rightarrow> hop_ref \<Rightarrow> nat \<Rightarrow> prompt list \<Rightarrow> secret list \<Rightarrow> (secret list option, 'w, 'm) act" where
  "ask_prompts E hop deadline [] answers st = (Some answers, st)"
| "ask_prompts E hop deadline (p # ps) answers st =
     (case ask_at E hop QK_Interactive (shown_prompt hop (p_text p)) (p_echo p) (Some deadline) st of (r, st) \<Rightarrow>
        (case r of
           RP_Answer answer \<Rightarrow> ask_prompts E hop deadline ps (answers @ [answer]) st
         | _ \<Rightarrow> (None, cancel (hf_id hop) st)))"

definition auth_interactive :: "('w, 's, 'm, 'k) session_env \<Rightarrow> hop_ref \<Rightarrow> prompt list \<Rightarrow> nat \<Rightarrow> (secret list option, 'w, 'm) act" where
  "auth_interactive E hop prompts deadline st =
     (if hf_id hop \<in> ss_cancelled st then (None, st) else ask_prompts E hop deadline prompts [] st)"

definition auth_banner :: "('w, 's, 'm, 'k) session_env \<Rightarrow> rstr \<Rightarrow> ('w, 'm) session_state \<Rightarrow> ('w, 'm) session_state" where
  "auth_banner E t st = st\<lparr>ss_world := se_banner E (printable t) (ss_world st)\<rparr>"

section \<open>One call of the engine\<close>

primrec run_dialogue :: "('w, 's, 'm, 'k) session_env \<Rightarrow> ('w, 's) dialogue \<Rightarrow> (connect_error + 's, 'w, 'm) act" where
  "run_dialogue E (D_Done r w) = (\<lambda>st. (r, st\<lparr>ss_world := w\<rparr>))"
| "run_dialogue E (D_Check hop key k) = (\<lambda>st.
     let v = policy_check (ss_pins st) hop key in run_dialogue E (k v) (log_event (EV_Checked hop key v) st))"
| "run_dialogue E (D_PublicKey key_id k) = (\<lambda>st. run_dialogue E (k (auth_public_key key_id st)) st)"
| "run_dialogue E (D_Sign key_id data hash w k) = (\<lambda>st.
     case auth_sign E key_id data hash (st\<lparr>ss_world := w\<rparr>) of (r, st) \<Rightarrow> run_dialogue E (k r (ss_world st)) st)"
| "run_dialogue E (D_Password hop w k) = (\<lambda>st.
     case auth_password E hop (st\<lparr>ss_world := w\<rparr>) of (r, st) \<Rightarrow> run_dialogue E (k r (ss_world st)) st)"
| "run_dialogue E (D_Interactive hop prompts deadline w k) = (\<lambda>st.
     case auth_interactive E hop prompts deadline (st\<lparr>ss_world := w\<rparr>) of (r, st) \<Rightarrow> run_dialogue E (k r (ss_world st)) st)"
| "run_dialogue E (D_Banner hop t w k) = (\<lambda>st.
     let st = auth_banner E t (st\<lparr>ss_world := w\<rparr>) in run_dialogue E (k (ss_world st)) st)"

end
