(* ===== verification/File_Util.thy ===== *)
theory File_Util
  imports Prelude
begin

text \<open>
  Paths, the write policy of a development build (\<open>write_policy.rs\<close>) and the file helpers of
  \<open>fsutil.rs\<close>: atomic writes, the mirrored backup directories and the pruning of backups.

  A path is its list of components (\<open>Path::components\<close>; the Windows prefix is left out). The file
  system is a map from paths to nodes and a count of the system calls made so far; \<open>x_fault\<close> decides
  which calls fail, so every failure at every point is covered. The links between directories, which
  only \<open>canonicalize\<close> sees, are an \<open>os_view\<close>. A temporary file lives in the same directory until it
  is renamed and is removed when it is dropped; it is not a node of the map.
\<close>

section \<open>Paths\<close>

datatype component = RootDir | CurDir | ParentDir | Normal rstr

type_synonym path = "component list"

definition is_absolute :: "path \<Rightarrow> bool" where
  "is_absolute p \<longleftrightarrow> p \<noteq> [] \<and> hd p = RootDir"

definition file_name :: "path \<Rightarrow> rstr option" where
  "file_name p = (if p = [] then None else case last p of Normal n \<Rightarrow> Some n | _ \<Rightarrow> None)"

definition parent :: "path \<Rightarrow> path option" where
  "parent p = (if p = [] \<or> last p = RootDir then None else Some (butlast p))"

definition with_file_name :: "path \<Rightarrow> rstr \<Rightarrow> path" where
  "with_file_name p n = (if file_name p = None then p else butlast p) @ [Normal n]"

text \<open>\<open>Path::join\<close>: an absolute path replaces the first one.\<close>

definition path_join :: "path \<Rightarrow> path \<Rightarrow> path" where
  "path_join p q = (if is_absolute q then q else p @ filter (\<lambda>c. c \<noteq> CurDir) q)"

definition component_str :: "component \<Rightarrow> rstr" where
  "component_str c = (case c of RootDir \<Rightarrow> [] | CurDir \<Rightarrow> lit ''.'' | ParentDir \<Rightarrow> lit ''..'' | Normal n \<Rightarrow> n)"

definition path_display :: "path \<Rightarrow> rstr" where
  "path_display p = (if p = [RootDir] then lit ''/'' else join (lit ''/'') (map component_str p))"

section \<open>Errors of the file system\<close>

datatype io_kind = IO_NotFound | IO_PermissionDenied | IO_Other

datatype io_error = IoError (io_kind: io_kind) (io_text: rstr)

definition io :: "io_error \<Rightarrow> app_error" where
  "io e = AE_Io (io_text e)"

section \<open>The write policy\<close>

record os_view =
  ov_canonicalize :: "path \<Rightarrow> io_error + path"
  ov_is_dir :: "path \<Rightarrow> io_error + bool"
  ov_symlink_metadata :: "path \<Rightarrow> io_error + unit"

datatype app_profile = Production | Development

datatype write_policy = Unrestricted | Confined path

definition denied :: io_error where
  "denied = IoError IO_PermissionDenied (lit ''destination is outside the development data root'')"

definition clean_absolute :: "path \<Rightarrow> bool" where
  "clean_absolute p \<longleftrightarrow> is_absolute p \<and> ParentDir \<notin> set p"

text \<open>The loop of \<open>projected\<close>: \<open>missing\<close> holds the components taken off the end so far, the innermost
  one last.\<close>

function project :: "os_view \<Rightarrow> path \<Rightarrow> rstr list \<Rightarrow> io_error + path" where
  "project V at missing =
     (case ov_canonicalize V at of
        Inr resolved \<Rightarrow>
          if missing \<noteq> [] then
            rbind (ov_is_dir V at) (\<lambda>dir.
            if \<not> dir then Inl denied else Inr (resolved @ map Normal (rev missing)))
          else Inr resolved
      | Inl e \<Rightarrow>
          if io_kind e = IO_NotFound then
            rbind (case ov_symlink_metadata V at of
                     Inr _ \<Rightarrow> Inl denied
                   | Inl e' \<Rightarrow> if io_kind e' = IO_NotFound then Inr () else Inl e') (\<lambda>_.
            rbind (ok_or denied (file_name at)) (\<lambda>n.
            case parent at of
              None \<Rightarrow> Inl denied
            | Some up \<Rightarrow> project V up (missing @ [n])))
          else Inl e)"
  by pat_completeness auto
termination
  by (relation "measure (\<lambda>(_, at, _). length at)") (auto simp: parent_def split: if_splits)

declare project.simps [simp del]

definition projected :: "os_view \<Rightarrow> path \<Rightarrow> io_error + path" where
  "projected V p = project V p []"

definition check_policy :: "os_view \<Rightarrow> write_policy \<Rightarrow> path \<Rightarrow> io_error + unit" where
  "check_policy V policy p =
     (case policy of
        Unrestricted \<Rightarrow> Inr ()
      | Confined root \<Rightarrow>
          if \<not> clean_absolute root \<or> \<not> clean_absolute p then Inl denied
          else
            rbind (ok_or denied (parent root)) (\<lambda>up.
            rbind (projected V up) (\<lambda>base.
            rbind (ok_or denied (file_name root)) (\<lambda>n.
            let expected = base @ [Normal n] in
            rbind (projected V root) (\<lambda>actual.
            if actual \<noteq> expected then Inl denied
            else
              rbind (projected V p) (\<lambda>destination.
              if destination = expected \<or> prefix expected destination then Inr () else Inl denied))))))"

section \<open>The file system\<close>

datatype link_target = Dangling | ToFile bytes | ToOther

datatype file_node = RegularFile bytes | Directory | Symlink link_target | SpecialFile

record disk =
  d_files :: "path \<Rightarrow> file_node option"
  d_calls :: nat

text \<open>\<open>x_partial\<close> is how many bytes a copy writes before it fails; \<open>x_read_dir\<close> lists a directory, with
  \<open>None\<close> for a name that is not UTF-8; \<open>x_profile\<close> is the profile of the build, \<open>x_data_dir\<close> and
  \<open>x_data_local_dir\<close> are the data directories of the user and \<open>x_current_dir\<close> the current directory.\<close>

record os_env =
  x_fault :: "nat \<Rightarrow> rstr option"
  x_partial :: "nat \<Rightarrow> nat"
  x_view :: "nat \<Rightarrow> os_view"
  x_read_dir :: "nat \<Rightarrow> path \<Rightarrow> io_error + (io_error + rstr option) list"
  x_profile :: app_profile
  x_data_dir :: "path option"
  x_data_local_dir :: "path option"
  x_current_dir :: "io_error + path"

definition profile_identifier :: "app_profile \<Rightarrow> rstr" where
  "profile_identifier profile =
     (case profile of Production \<Rightarrow> lit ''org.homelab.sshelter'' | Development \<Rightarrow> lit ''org.homelab.sshelter.dev'')"

definition app_data_root :: "os_env \<Rightarrow> app_error + path" where
  "app_data_root E =
     rbind (ok_or (AE_Other (lit ''cannot determine local data directory'')) (x_data_local_dir E)) (\<lambda>p.
     Inr (p @ [Normal (profile_identifier (x_profile E))]))"

definition error_text :: "app_error \<Rightarrow> rstr" where
  "error_text e =
     (case e of
        AE_Io m \<Rightarrow> lit ''io error: '' @ m
      | AE_ForbiddenPath m \<Rightarrow> lit ''path is not allowed: '' @ m
      | AE_NotFound m \<Rightarrow> lit ''not found: '' @ m
      | AE_Other m \<Rightarrow> m
      | AE_Parse m line \<Rightarrow> lit ''parse error at line '' @ dec line @ lit '': '' @ m
      | AE_Conflict m \<Rightarrow> lit ''file changed on disk since it was loaded: '' @ m)"

definition current_write_policy :: "os_env \<Rightarrow> io_error + write_policy" where
  "current_write_policy E =
     (case x_profile E of
        Production \<Rightarrow> Inr Unrestricted
      | Development \<Rightarrow>
          rbind (map_err (\<lambda>e. IoError IO_Other (error_text e)) (app_data_root E)) (\<lambda>root. Inr (Confined root)))"

text \<open>A fallible action on a state; the file operations act on the disk.\<close>

type_synonym ('s, 'a) act = "'s \<Rightarrow> (app_error + 'a) \<times> 's"
type_synonym 'a io = "(disk, 'a) act"

definition io_bind :: "('s, 'a) act \<Rightarrow> ('a \<Rightarrow> ('s, 'b) act) \<Rightarrow> ('s, 'b) act" where
  "io_bind m f = (\<lambda>d. case m d of (Inl e, d') \<Rightarrow> (Inl e, d') | (Inr a, d') \<Rightarrow> f a d')"

definition io_return :: "'a \<Rightarrow> ('s, 'a) act" where
  "io_return a = (\<lambda>d. (Inr a, d))"

definition io_fail :: "app_error \<Rightarrow> ('s, 'a) act" where
  "io_fail e = (\<lambda>d. (Inl e, d))"

definition io_lift :: "app_error + 'a \<Rightarrow> ('s, 'a) act" where
  "io_lift r = (\<lambda>d. (r, d))"

text \<open>One system call: it fails, or \<open>f\<close> runs on the files.\<close>

definition sys :: "os_env \<Rightarrow> (disk \<Rightarrow> (io_error + 'a) \<times> disk) \<Rightarrow> disk \<Rightarrow> (io_error + 'a) \<times> disk" where
  "sys E f d =
     (let d' = d\<lparr>d_calls := d_calls d + 1\<rparr>
      in case x_fault E (d_calls d) of
           Some text \<Rightarrow> (Inl (IoError IO_Other text), d')
         | None \<Rightarrow> f d')"

definition try_io :: "(disk \<Rightarrow> (io_error + 'a) \<times> disk) \<Rightarrow> 'a io" where
  "try_io m d = (case m d of (r, d') \<Rightarrow> (map_err io r, d'))"

definition not_found :: io_error where
  "not_found = IoError IO_NotFound (lit ''No such file or directory (os error 2)'')"

definition symlink_metadata :: "os_env \<Rightarrow> path \<Rightarrow> disk \<Rightarrow> (io_error + file_node) \<times> disk" where
  "symlink_metadata E p = sys E (\<lambda>d. (case d_files d p of Some node \<Rightarrow> Inr node | None \<Rightarrow> Inl not_found, d))"

text \<open>\<open>Path::exists\<close>: follows links and reports every failure as absence.\<close>

definition path_exists :: "os_env \<Rightarrow> path \<Rightarrow> disk \<Rightarrow> bool \<times> disk" where
  "path_exists E p d =
     (case symlink_metadata E p d of
        (Inl _, d') \<Rightarrow> (False, d')
      | (Inr (Symlink target), d') \<Rightarrow> (target \<noteq> Dangling, d')
      | (Inr _, d') \<Rightarrow> (True, d'))"

text \<open>\<open>OpenOptions\<close> with \<open>O_NOFOLLOW\<close>: a link is refused.\<close>

definition open_nofollow :: "os_env \<Rightarrow> path \<Rightarrow> disk \<Rightarrow> (io_error + file_node) \<times> disk" where
  "open_nofollow E p =
     sys E (\<lambda>d. (case d_files d p of
                   None \<Rightarrow> Inl not_found
                 | Some (Symlink _) \<Rightarrow> Inl (IoError IO_Other (lit ''Too many levels of symbolic links (os error 40)''))
                 | Some node \<Rightarrow> Inr node, d))"

text \<open>A call on an open file that reads its metadata or its contents.\<close>

definition on_file :: "os_env \<Rightarrow> 'a \<Rightarrow> disk \<Rightarrow> (io_error + 'a) \<times> disk" where
  "on_file E result = sys E (\<lambda>d. (Inr result, d))"

definition node_bytes :: "file_node \<Rightarrow> bytes" where
  "node_bytes node = (case node of RegularFile b \<Rightarrow> b | _ \<Rightarrow> [])"

definition is_file :: "file_node \<Rightarrow> bool" where
  "is_file node \<longleftrightarrow> (case node of RegularFile _ \<Rightarrow> True | _ \<Rightarrow> False)"

definition check_write :: "os_env \<Rightarrow> path \<Rightarrow> unit io" where
  "check_write E p d =
     (map_err (\<lambda>e. if io_kind e = IO_PermissionDenied then AE_ForbiddenPath (path_display p) else io e)
        (rbind (current_write_policy E) (\<lambda>policy. check_policy (x_view E (d_calls d)) policy p)), d)"

definition writes_are_confined :: "os_env \<Rightarrow> bool" where
  "writes_are_confined E \<longleftrightarrow> (case current_write_policy E of Inr (Confined _) \<Rightarrow> True | _ \<Rightarrow> False)"

definition make_dirs :: "path \<Rightarrow> disk \<Rightarrow> disk" where
  "make_dirs p d = d\<lparr>d_files := (\<lambda>q. if prefix q p \<and> d_files d q = None then Some Directory else d_files d q)\<rparr>"

definition create_dir_all :: "os_env \<Rightarrow> path \<Rightarrow> disk \<Rightarrow> (io_error + unit) \<times> disk" where
  "create_dir_all E p = sys E (\<lambda>d. (Inr (), make_dirs p d))"

definition ensure_dir_secure :: "os_env \<Rightarrow> path \<Rightarrow> unit io" where
  "ensure_dir_secure E dir =
     io_bind (check_write E dir) (\<lambda>_ d.
     case path_exists E dir d of
       (True, d') \<Rightarrow> (Inr (), d')
     | (False, d') \<Rightarrow>
         io_bind (try_io (create_dir_all E dir)) (\<lambda>_. try_io (on_file E ())) d')"

text \<open>The rename that puts the temporary file in place fails on a directory.\<close>

definition persist :: "os_env \<Rightarrow> path \<Rightarrow> bytes \<Rightarrow> disk \<Rightarrow> (io_error + unit) \<times> disk" where
  "persist E p contents =
     sys E (\<lambda>d. if d_files d p = Some Directory
                 then (Inl (IoError IO_Other (lit ''Is a directory (os error 21)'')), d)
                 else (Inr (), d\<lparr>d_files := (d_files d)(p := Some (RegularFile contents))\<rparr>))"

text \<open>The steps on the temporary file: create it, set its mode, write it, flush it.\<close>

definition atomic_write :: "os_env \<Rightarrow> path \<Rightarrow> bytes \<Rightarrow> unit io" where
  "atomic_write E p contents =
     io_bind (check_write E p) (\<lambda>_.
     io_bind (io_lift (ok_or (AE_Other (lit ''no parent dir for '' @ path_display p)) (parent p))) (\<lambda>up.
     io_bind (ensure_dir_secure E up) (\<lambda>_.
     io_bind (try_io (on_file E ())) (\<lambda>_.
     io_bind (try_io (on_file E ())) (\<lambda>_.
     io_bind (try_io (on_file E ())) (\<lambda>_.
     io_bind (try_io (on_file E ())) (\<lambda>_.
     io_bind (try_io (persist E p contents)) (\<lambda>_ d.
     case on_file E () d of (_, d') \<Rightarrow> (Inr (), d')))))))))"

section \<open>Backups\<close>

fun mirror_step :: "path \<Rightarrow> component \<Rightarrow> path" where
  "mirror_step rel ParentDir = butlast rel"
| "mirror_step rel (Normal n) = rel @ [Normal n]"
| "mirror_step rel RootDir = rel"
| "mirror_step rel CurDir = rel"

definition backups_root :: "os_env \<Rightarrow> app_error + path" where
  "backups_root E =
     (case x_profile E of
        Development \<Rightarrow> rbind (app_data_root E) (\<lambda>p. Inr (p @ [Normal (lit ''backups'')]))
      | Production \<Rightarrow>
          rbind (ok_or (AE_Other (lit ''cannot determine user data directory for backups'')) (x_data_dir E)) (\<lambda>p.
          Inr (p @ [Normal (lit ''org.homelab.sshelter''), Normal (lit ''backups'')])))"

definition backup_dir_for :: "os_env \<Rightarrow> path \<Rightarrow> app_error + path" where
  "backup_dir_for E target =
     rbind (ok_or (AE_Other (lit ''no parent dir for '' @ path_display target)) (parent target)) (\<lambda>up.
     rbind (if is_absolute up then Inr up
            else rbind (map_err io (x_current_dir E)) (\<lambda>cwd. Inr (path_join cwd up))) (\<lambda>abs_parent.
     rbind (backups_root E) (\<lambda>root.
     Inr (path_join root (foldl mirror_step [] abs_parent)))))"

definition strip_suffix :: "rstr \<Rightarrow> rstr \<Rightarrow> rstr option" where
  "strip_suffix s suf = (if ends_with s suf then Some (take (length s - length suf) s) else None)"

definition backup_millis_for :: "rstr \<Rightarrow> rstr \<Rightarrow> u64 option" where
  "backup_millis_for name target_filename =
     (case strip_prefix name target_filename of
        None \<Rightarrow> None
      | Some rest \<Rightarrow>
          (case strip_prefix rest (lit ''.'') of
             None \<Rightarrow> None
           | Some rest \<Rightarrow>
               (case strip_suffix rest (lit ''.bak'') of
                  None \<Rightarrow> None
                | Some digits \<Rightarrow>
                    if digits = [] \<or> \<not> list_all is_ascii_digit digits then None
                    else if parse_digits digits < 2 ^ 64 then Some (of_nat (parse_digits digits)) else None)))"

definition read_dir :: "os_env \<Rightarrow> path \<Rightarrow> disk \<Rightarrow> (io_error + (io_error + rstr option) list) \<times> disk" where
  "read_dir E p = sys E (\<lambda>d. (x_read_dir E (d_calls d) p, d))"

fun check_entries :: "os_env \<Rightarrow> path \<Rightarrow> rstr \<Rightarrow> (io_error + rstr option) list \<Rightarrow> unit io" where
  "check_entries E dir filename [] = io_return ()"
| "check_entries E dir filename (entry # entries) =
     io_bind (io_lift (map_err io entry)) (\<lambda>name.
     io_bind (if is_some_and name (\<lambda>n. backup_millis_for n filename \<noteq> None)
              then check_write E (dir @ [Normal (the name)]) else io_return ()) (\<lambda>_.
     check_entries E dir filename entries))"

definition check_backup_write :: "os_env \<Rightarrow> path \<Rightarrow> unit io" where
  "check_backup_write E target =
     (if \<not> writes_are_confined E then io_return ()
      else
        io_bind (io_lift (backup_dir_for E target)) (\<lambda>dir.
        io_bind (check_write E dir) (\<lambda>_.
        io_bind (io_lift (ok_or (AE_Other (lit ''backup target has no file name'')) (file_name target))) (\<lambda>filename d.
        case read_dir E dir d of
          (Inr entries, d') \<Rightarrow> check_entries E dir filename entries d'
        | (Inl e, d') \<Rightarrow> if io_kind e = IO_NotFound then (Inr (), d') else (Inl (io e), d')))))"

definition copy_file :: "os_env \<Rightarrow> path \<Rightarrow> path \<Rightarrow> disk \<Rightarrow> (io_error + unit) \<times> disk" where
  "copy_file E p q d =
     (let put = (\<lambda>b d. d\<lparr>d_files := (d_files d)(q := Some (RegularFile b))\<rparr>)
      in case sys E (\<lambda>d. case d_files d p of
                         Some (RegularFile b) \<Rightarrow> (Inr b, d)
                       | Some (Symlink (ToFile b)) \<Rightarrow> (Inr b, d)
                       | Some (Symlink Dangling) \<Rightarrow> (Inl not_found, d)
                       | Some _ \<Rightarrow> (Inl (IoError IO_Other (lit ''the source path is neither a regular file nor a symlink to a regular file'')), d)
                       | None \<Rightarrow> (Inl not_found, d)) d of
           (Inl e, d') \<Rightarrow> (Inl e, d')
         | (Inr b, d') \<Rightarrow>
             (case x_fault E (d_calls d') of
                Some text \<Rightarrow> (Inl (IoError IO_Other text),
                               put (take (x_partial E (d_calls d')) b) (d'\<lparr>d_calls := d_calls d' + 1\<rparr>))
              | None \<Rightarrow> (Inr (), put b (d'\<lparr>d_calls := d_calls d' + 1\<rparr>))))"

definition backup_name :: "rstr \<Rightarrow> nat \<Rightarrow> rstr" where
  "backup_name filename millis = filename @ lit ''.'' @ dec millis @ lit ''.bak''"

definition backup :: "os_env \<Rightarrow> nat \<Rightarrow> path \<Rightarrow> path option io" where
  "backup E millis p d0 =
     (case path_exists E p d0 of
        (False, d) \<Rightarrow> (Inr None, d)
      | (True, d) \<Rightarrow>
          io_bind (check_backup_write E p) (\<lambda>_.
          io_bind (io_lift (ok_or (AE_Other (lit ''no file name for '' @ path_display p)) (file_name p))) (\<lambda>filename.
          io_bind (io_lift (backup_dir_for E p)) (\<lambda>dir.
          let backup_path = dir @ [Normal (backup_name filename millis)] in
          io_bind (check_write E dir) (\<lambda>_.
          io_bind (check_write E backup_path) (\<lambda>_.
          io_bind (try_io (create_dir_all E dir)) (\<lambda>_.
          io_bind (try_io (copy_file E p backup_path)) (\<lambda>_.
          io_return (Some backup_path)))))))) d)"

text \<open>The scan of the mirror directory: entries that cannot be read, names that do not parse and
  everything but plain files are passed over.\<close>

fun scan_backups :: "os_env \<Rightarrow> path \<Rightarrow> rstr \<Rightarrow> (io_error + rstr option) list \<Rightarrow> disk \<Rightarrow> (u64 \<times> path) list \<times> disk" where
  "scan_backups E dir filename [] d = ([], d)"
| "scan_backups E dir filename (entry # entries) d =
     (case entry of
        Inr (Some name) \<Rightarrow>
          (case backup_millis_for name filename of
             Some millis \<Rightarrow>
               (case symlink_metadata E (dir @ [Normal name]) d of
                  (Inr (RegularFile _), d') \<Rightarrow>
                    (case scan_backups E dir filename entries d' of
                       (found, d'') \<Rightarrow> ((millis, dir @ [Normal name]) # found, d''))
                | (_, d') \<Rightarrow> scan_backups E dir filename entries d')
           | None \<Rightarrow> scan_backups E dir filename entries d)
      | _ \<Rightarrow> scan_backups E dir filename entries d)"

definition remove_file :: "os_env \<Rightarrow> path \<Rightarrow> disk \<Rightarrow> (io_error + unit) \<times> disk" where
  "remove_file E p =
     sys E (\<lambda>d. case d_files d p of
                   None \<Rightarrow> (Inl not_found, d)
                 | Some Directory \<Rightarrow> (Inl (IoError IO_Other (lit ''Is a directory (os error 21)'')), d)
                 | Some _ \<Rightarrow> (Inr (), d\<lparr>d_files := (d_files d)(p := None)\<rparr>))"

fun delete_all :: "os_env \<Rightarrow> nat \<Rightarrow> (u64 \<times> path) list \<Rightarrow> nat io" where
  "delete_all E deleted [] = io_return deleted"
| "delete_all E deleted ((_, p) # rest) =
     io_bind (check_write E p) (\<lambda>_ d.
     case remove_file E p d of
       (Inr _, d') \<Rightarrow> delete_all E (deleted + 1) rest d'
     | (Inl _, d') \<Rightarrow> delete_all E deleted rest d')"

text \<open>\<open>sort_by_key\<close> with \<open>Reverse\<close> is stable, as \<open>sort_key\<close> is.\<close>

definition newest_first :: "(u64 \<times> path) list \<Rightarrow> (u64 \<times> path) list" where
  "newest_first backups = sort_key (\<lambda>b. - int (unat (fst b))) backups"

definition prune_backups :: "os_env \<Rightarrow> path \<Rightarrow> nat \<Rightarrow> nat io" where
  "prune_backups E target keep =
     io_bind (io_lift (ok_or (AE_Other (lit ''no file name for '' @ path_display target)) (file_name target))) (\<lambda>filename.
     io_bind (io_lift (backup_dir_for E target)) (\<lambda>dir.
     io_bind (check_write E dir) (\<lambda>_ d.
     case read_dir E dir d of
       (Inl e, d') \<Rightarrow> if io_kind e = IO_NotFound then (Inr 0, d') else (Inl (io e), d')
     | (Inr entries, d') \<Rightarrow>
         (case scan_backups E dir filename entries d' of
            (found, d'') \<Rightarrow> delete_all E 0 (drop keep (newest_first found)) d''))))"

section \<open>The write policy confines\<close>

lemma file_name_Some: "file_name p = Some n \<longleftrightarrow> p \<noteq> [] \<and> p = butlast p @ [Normal n]"
  by (cases p rule: rev_cases) (auto simp: file_name_def split: component.splits)

lemma parent_Some: "parent p = Some q \<longleftrightarrow> p \<noteq> [] \<and> last p \<noteq> RootDir \<and> q = butlast p"
  by (auto simp: parent_def)

text \<open>A projection is the real location of the longest existing ancestor, which is a directory, with
  the missing components appended. Nothing, not even a link, is in place of those.\<close>

definition absent :: "os_view \<Rightarrow> path \<Rightarrow> bool" where
  "absent V p \<longleftrightarrow> (\<exists>e. ov_canonicalize V p = Inl e \<and> io_kind e = IO_NotFound)
     \<and> (\<exists>e. ov_symlink_metadata V p = Inl e \<and> io_kind e = IO_NotFound)"

lemma project_step:
  assumes "project V at missing = Inr d"
  shows "(\<exists>real. ov_canonicalize V at = Inr real \<and> d = real @ map Normal (rev missing)
            \<and> (missing \<noteq> [] \<longrightarrow> ov_is_dir V at = Inr True))
       \<or> (\<exists>n up. absent V at \<and> at = up @ [Normal n] \<and> project V up (missing @ [n]) = Inr d)"
proof (cases "ov_canonicalize V at")
  case (Inr real)
  with assms show ?thesis
    by (subst (asm) project.simps) (auto split: if_splits)
next
  case (Inl e)
  from assms Inl have "io_kind e = IO_NotFound" by (subst (asm) project.simps) (auto split: if_splits)
  with assms Inl obtain n up where "absent V at" "file_name at = Some n" "parent at = Some up"
    "project V up (missing @ [n]) = Inr d"
    by (subst (asm) project.simps) (auto simp: absent_def split: if_splits option.splits sum.splits)
  then show ?thesis by (metis file_name_Some parent_Some)
qed

definition resolves :: "os_view \<Rightarrow> path \<Rightarrow> path \<Rightarrow> bool" where
  "resolves V p d \<longleftrightarrow> (\<exists>base new real. p = base @ map Normal new \<and> ov_canonicalize V base = Inr real
     \<and> d = real @ map Normal new \<and> (new \<noteq> [] \<longrightarrow> ov_is_dir V base = Inr True)
     \<and> (\<forall>k. 0 < k \<and> k \<le> length new \<longrightarrow> absent V (base @ map Normal (take k new))))"

lemma project_resolves:
  assumes "project V at missing = Inr d"
  shows "\<exists>base new real. at = base @ map Normal new \<and> ov_canonicalize V base = Inr real
    \<and> d = real @ map Normal (new @ rev missing) \<and> (new @ missing \<noteq> [] \<longrightarrow> ov_is_dir V base = Inr True)
    \<and> (\<forall>k. 0 < k \<and> k \<le> length new \<longrightarrow> absent V (base @ map Normal (take k new)))"
  using assms
proof (induction "length at" arbitrary: at missing)
  case 0
  then show ?case using project_step by fastforce
next
  case (Suc l)
  from project_step [OF Suc.prems] show ?case
  proof (elim disjE exE conjE)
    fix real assume "ov_canonicalize V at = Inr real" "d = real @ map Normal (rev missing)"
      "missing \<noteq> [] \<longrightarrow> ov_is_dir V at = Inr True"
    then show ?thesis by (intro exI [of _ at] exI [of _ "[]"] exI [of _ real]) simp
  next
    fix n up assume gone: "absent V at" and at: "at = up @ [Normal n]" and p: "project V up (missing @ [n]) = Inr d"
    from at Suc.hyps(2) have "l = length up" by simp
    from Suc.hyps(1) [OF this p] obtain base new real where ih: "up = base @ map Normal new" "ov_canonicalize V base = Inr real"
      "d = real @ map Normal (new @ rev (missing @ [n]))" "ov_is_dir V base = Inr True"
      "\<forall>k. 0 < k \<and> k \<le> length new \<longrightarrow> absent V (base @ map Normal (take k new))"
      by auto
    have "absent V (base @ map Normal (take k (new @ [n])))" if "0 < k" "k \<le> Suc (length new)" for k
      using that ih(1,5) gone at by (cases "k \<le> length new") (auto simp: le_Suc_eq)
    with ih at show ?thesis by (intro exI [of _ base] exI [of _ "new @ [n]"] exI [of _ real]) simp
  qed
qed

lemma projected_resolves: "projected V p = Inr d \<Longrightarrow> resolves V p d"
  unfolding projected_def resolves_def by (drule project_resolves) simp

text \<open>C20. A build that confines its writes accepts a destination only below its data root: the data
  root itself is not redirected by a link, and the destination, after all links on its existing part
  are followed, lies in it; the part that does not exist yet has no link in it either. A path with
  \<open>..\<close> and a relative path are refused.\<close>

theorem confined_writes_stay_inside:
  assumes "check_policy V (Confined root) p = Inr ()"
  shows "ParentDir \<notin> set p \<and> is_absolute p
    \<and> (\<exists>up n base destination. root = up @ [Normal n] \<and> resolves V up base \<and> resolves V root (base @ [Normal n])
         \<and> resolves V p destination \<and> prefix (base @ [Normal n]) destination)"
proof -
  from assms obtain up base n destination where c: "clean_absolute root" "clean_absolute p"
    and r: "parent root = Some up" "projected V up = Inr base" "file_name root = Some n"
      "projected V root = Inr (base @ [Normal n])" "projected V p = Inr destination"
      "destination = base @ [Normal n] \<or> prefix (base @ [Normal n]) destination"
    by (auto simp: check_policy_def Let_def split: if_splits)
  have "root = up @ [Normal n]" using r(1,3) by (metis file_name_Some parent_Some)
  moreover have "prefix (base @ [Normal n]) destination" using r(6) by auto
  ultimately show ?thesis
    using c(2) r(2,4,5) [THEN projected_resolves] unfolding clean_absolute_def by blast
qed

definition sample_view :: os_view where
  "sample_view = \<lparr>ov_canonicalize = (\<lambda>p. if length p \<le> 3 then Inr p else Inl not_found),
     ov_is_dir = (\<lambda>p. Inr True), ov_symlink_metadata = (\<lambda>p. if length p \<le> 3 then Inr () else Inl not_found)\<rparr>"

definition sample_dir :: path where
  "sample_dir = [RootDir, Normal (lit ''data''), Normal (lit ''app'')]"

lemma sample_check: "check_policy sample_view (Confined sample_dir) (sample_dir @ [Normal (lit ''f'')]) = Inr ()"
  by (simp add: check_policy_def clean_absolute_def is_absolute_def parent_def file_name_def projected_def
    project.simps sample_view_def sample_dir_def not_found_def)

theorem confined_writes_stay_inside_witness:
  "\<exists>destination. resolves sample_view (sample_dir @ [Normal (lit ''f'')]) destination \<and> prefix sample_dir destination"
proof -
  obtain up n base destination where r: "sample_dir = up @ [Normal n]" "resolves sample_view sample_dir (base @ [Normal n])"
    "resolves sample_view (sample_dir @ [Normal (lit ''f'')]) destination" "prefix (base @ [Normal n]) destination"
    using confined_writes_stay_inside [OF sample_check] by blast
  moreover have "base @ [Normal n] = sample_dir"
    using r(2) by (auto simp: resolves_def sample_view_def split: if_splits)
  ultimately show ?thesis by metis
qed

section \<open>Writes replace or keep\<close>

lemma io_bind_Inr: "io_bind m f d = (Inr b, d') \<longleftrightarrow> (\<exists>a d1. m d = (Inr a, d1) \<and> f a d1 = (Inr b, d'))"
  by (auto simp: io_bind_def split: prod.splits sum.splits)

lemma io_bind_Inl: "io_bind m f d = (Inl e, d') \<longleftrightarrow> m d = (Inl e, d') \<or> (\<exists>a d1. m d = (Inr a, d1) \<and> f a d1 = (Inl e, d'))"
  by (auto simp: io_bind_def split: prod.splits sum.splits)

lemma io_simps [simp]:
  "io_return a d = (r, d') \<longleftrightarrow> r = Inr a \<and> d' = d"
  "io_lift x d = (r, d') \<longleftrightarrow> r = x \<and> d' = d"
  "io_fail e d = (r, d') \<longleftrightarrow> r = Inl e \<and> d' = d"
  by (auto simp: io_return_def io_lift_def io_fail_def)

text \<open>A relation between the files before and after, kept by every step of a program.\<close>

definition keeps :: "((path \<Rightarrow> file_node option) \<Rightarrow> (path \<Rightarrow> file_node option) \<Rightarrow> bool) \<Rightarrow> (disk \<Rightarrow> 'r \<times> disk) \<Rightarrow> bool" where
  "keeps R m \<longleftrightarrow> (\<forall>d. R (d_files d) (d_files (snd (m d))))"

lemma keeps_bind:
  assumes "keeps R m" "\<And>a. keeps R (f a)" "\<And>x y z. R x y \<Longrightarrow> R y z \<Longrightarrow> R x z"
  shows "keeps R (io_bind m f)"
  using assms unfolding keeps_def io_bind_def by (auto split: prod.splits sum.splits) (metis snd_conv)+

lemma keeps_pure [simp]:
  assumes "\<And>x. R x x"
  shows "keeps R (io_return a)" "keeps R (io_lift r)" "keeps R (io_fail e)" "keeps R (check_write E p)"
    "keeps R (on_file E x)" "keeps R (try_io (on_file E x))" "keeps R (symlink_metadata E p)" "keeps R (path_exists E p)"
    "keeps R (open_nofollow E p)" "keeps R (read_dir E p)"
  using assms
  by (auto simp: keeps_def io_return_def io_lift_def io_fail_def check_write_def on_file_def sys_def try_io_def Let_def
      symlink_metadata_def path_exists_def open_nofollow_def read_dir_def
      split: option.splits prod.splits sum.splits file_node.splits if_splits)

text \<open>Only missing directories on the way to \<open>up\<close> appear.\<close>

definition only_new_dirs :: "path \<Rightarrow> (path \<Rightarrow> file_node option) \<Rightarrow> (path \<Rightarrow> file_node option) \<Rightarrow> bool" where
  "only_new_dirs up x y \<longleftrightarrow> (\<forall>p. y p = x p \<or> (prefix p up \<and> x p = None \<and> y p = Some Directory))"

lemma only_new_dirs_refl [simp]: "only_new_dirs up x x"
  by (simp add: only_new_dirs_def)

lemma only_new_dirs_trans: "only_new_dirs up x y \<Longrightarrow> only_new_dirs up y z \<Longrightarrow> only_new_dirs up x z"
  unfolding only_new_dirs_def by (metis option.distinct(1))

lemma path_exists_files: "path_exists E p d = (b, d') \<Longrightarrow> d_files d' = d_files d"
  by (auto simp: path_exists_def symlink_metadata_def sys_def Let_def
      split: prod.splits option.splits sum.splits file_node.splits)

lemma ensure_dir_keeps: "keeps (only_new_dirs p) (ensure_dir_secure E p)"
proof -
  have make: "keeps (only_new_dirs p) (try_io (create_dir_all E p))"
    by (auto simp: keeps_def try_io_def create_dir_all_def sys_def Let_def make_dirs_def only_new_dirs_def
        split: option.splits prod.splits)
  have "keeps (only_new_dirs p) (io_bind (try_io (create_dir_all E p)) (\<lambda>_. try_io (on_file E ())))"
    by (rule keeps_bind) (auto intro: make only_new_dirs_trans)
  then have "keeps (only_new_dirs p) (\<lambda>d. case path_exists E p d of (True, d') \<Rightarrow> (Inr (), d')
       | (False, d') \<Rightarrow> io_bind (try_io (create_dir_all E p)) (\<lambda>_. try_io (on_file E ())) d')"
    by (auto simp: keeps_def split: prod.splits bool.splits) (metis path_exists_files only_new_dirs_refl)+
  then show ?thesis
    unfolding ensure_dir_secure_def by (intro keeps_bind) (auto intro: only_new_dirs_trans)
qed

text \<open>A write of a file is all or nothing, whatever system call fails. No other file changes; at most
  missing directories above it appear.\<close>

lemma atomic_write_effect:
  assumes "atomic_write E p contents d = (r, d')"
  shows "(r = Inr () \<longrightarrow> d_files d' p = Some (RegularFile contents))
    \<and> (r \<noteq> Inr () \<longrightarrow> d_files d' p = d_files d p)
    \<and> only_new_dirs (butlast p) ((d_files d)(p := None)) ((d_files d')(p := None))"
proof (cases "parent p")
  case None
  then have "r \<noteq> Inr ()" "d' = d"
    using assms by (auto simp: atomic_write_def io_bind_def io_lift_def check_write_def split: prod.splits sum.splits)
  then show ?thesis by simp
next
  case (Some up)
  then have up: "up = butlast p" "\<not> prefix p up"
    by (auto simp: parent_Some) (metis append_butlast_last_id not_Cons_self2 prefix_length_le prefix_order.antisym_conv prefixI same_prefix_nil)
  let ?pre = "\<lambda>k. io_bind (check_write E p) (\<lambda>_.
     io_bind (ensure_dir_secure E up) (\<lambda>_.
     io_bind (try_io (on_file E ())) (\<lambda>_.
     io_bind (try_io (on_file E ())) (\<lambda>_.
     io_bind (try_io (on_file E ())) (\<lambda>_.
     io_bind (try_io (on_file E ())) (\<lambda>_. k))))))"
  define last :: "unit io" where "last = io_bind (try_io (persist E p contents)) (\<lambda>_ d. case on_file E () d of (_, d') \<Rightarrow> (Inr (), d'))"
  have all: "atomic_write E p contents d = io_bind (?pre (io_return ())) (\<lambda>_. last) d"
    by (simp add: atomic_write_def last_def io_bind_def io_return_def io_lift_def Some fun_eq_iff split: prod.splits sum.splits)
  have pre: "keeps (only_new_dirs up) (?pre (io_return ()))"
    by (intro keeps_bind) (auto intro: ensure_dir_keeps only_new_dirs_trans)
  have last: "(x = Inr () \<and> d_files d2 = (d_files d1)(p := Some (RegularFile contents))) \<or> (x \<noteq> Inr () \<and> d_files d2 = d_files d1)"
    if "last d1 = (x, d2)" for d1 d2 x
    using that by (auto simp: last_def io_bind_def try_io_def persist_def on_file_def sys_def Let_def
        split: prod.splits sum.splits option.splits if_splits)
  obtain x1 d1 where x1: "?pre (io_return ()) d = (x1, d1)" by force
  with pre have new: "only_new_dirs up (d_files d) (d_files d1)" unfolding keeps_def by (metis snd_conv)
  then have same: "d_files d1 p = d_files d p" using up(2) unfolding only_new_dirs_def by blast
  have dirs: "only_new_dirs up ((d_files d)(p := None)) ((d_files d1)(p := None))" using new by (auto simp: only_new_dirs_def)
  show ?thesis
  proof (cases x1)
    case (Inl e)
    then have "r = Inl e" "d' = d1" using assms all x1 by (auto simp: io_bind_def)
    with same dirs up(1) show ?thesis by simp
  next
    case (Inr u)
    then have "last d1 = (r, d')" using assms all x1 by (auto simp: io_bind_def)
    from last [OF this] same dirs up(1) show ?thesis by auto
  qed
qed

definition calm :: os_env where
  "calm = \<lparr>x_fault = (\<lambda>_. None), x_partial = (\<lambda>_. 0), x_view = (\<lambda>_. sample_view),
     x_read_dir = (\<lambda>_ _. Inr [Inr (Some (lit ''c.1.bak'')), Inr (Some (lit ''c.2.bak''))]), x_profile = Production,
     x_data_dir = Some sample_dir, x_data_local_dir = Some sample_dir, x_current_dir = Inr sample_dir\<rparr>"

definition sample_disk :: disk where
  "sample_disk = \<lparr>d_files = (\<lambda>_. None), d_calls = 0\<rparr>"

definition sample_file :: path where
  "sample_file = sample_dir @ [Normal (lit ''c'')]"

lemma calm_simps [simp]:
  "sys calm f d = f (d\<lparr>d_calls := d_calls d + 1\<rparr>)"
  "check_write calm p d = (Inr (), d)"
  by (simp_all add: sys_def check_write_def current_write_policy_def check_policy_def calm_def)

lemma calm_write:
  assumes "parent p \<noteq> None" "d_files d p \<noteq> Some Directory" "d_files d (the (parent p)) = Some Directory"
  shows "\<exists>d'. atomic_write calm p contents d = (Inr (), d')"
  using assms
  by (auto simp: atomic_write_def io_bind_def io_lift_def ensure_dir_secure_def path_exists_def symlink_metadata_def
    try_io_def on_file_def persist_def make_dirs_def)

section \<open>Backups stay in their directory\<close>

lemma mirror_normal: "\<forall>c \<in> set rel. \<exists>n. c = Normal n \<Longrightarrow> \<forall>c \<in> set (foldl mirror_step rel p). \<exists>n. c = Normal n"
proof (induction p arbitrary: rel)
  case (Cons c p)
  then have "\<forall>x \<in> set (mirror_step rel c). \<exists>n. x = Normal n"
    by (cases c) (auto dest: in_set_butlastD)
  with Cons.IH show ?case by simp
qed simp

lemma join_normal: "\<forall>c \<in> set rel. \<exists>n. c = Normal n \<Longrightarrow> path_join root rel = root @ rel"
  by (cases rel) (auto simp: path_join_def is_absolute_def filter_id_conv)

text \<open>The backup directory of a file lies below the directory for backups, one normal component
  per step, whatever \<open>..\<close> the path of the file has: no path leads out of it. Files in different
  directories (given without \<open>.\<close> and \<open>..\<close>) have different backup directories.\<close>

theorem backup_dir_inside:
  "(\<forall>dir. backup_dir_for E target = Inr dir \<longrightarrow>
      (\<exists>root rel. backups_root E = Inr root \<and> dir = root @ rel \<and> (\<forall>c \<in> set rel. \<exists>n. c = Normal n)))
   \<and> (backup_dir_for E (RootDir # map Normal ns @ [Normal f]) = backup_dir_for E (RootDir # map Normal ms @ [Normal g])
      \<longrightarrow> is_ok (backups_root E) \<longrightarrow> ns = ms)"
proof -
  have "foldl mirror_step rel (map Normal ns) = rel @ map Normal ns" for rel ns
    by (induction ns arbitrary: rel) auto
  then have eq: "backup_dir_for E (RootDir # map Normal ns @ [Normal f]) = rbind (backups_root E) (\<lambda>root. Inr (root @ map Normal ns))" for ns f
    by (simp add: backup_dir_for_def parent_def is_absolute_def butlast_append join_normal)
  have "ns = ms" if "backup_dir_for E (RootDir # map Normal ns @ [Normal f]) = backup_dir_for E (RootDir # map Normal ms @ [Normal g])" "is_ok (backups_root E)"
  proof -
    from that have "map Normal ns = map Normal ms" unfolding eq by (auto simp: is_ok_iff)
    then show ?thesis by (simp add: inj_map_eq_map inj_def)
  qed
  moreover have "\<exists>root rel. backups_root E = Inr root \<and> dir = root @ rel \<and> (\<forall>c \<in> set rel. \<exists>n. c = Normal n)"
    if "backup_dir_for E target = Inr dir" for dir
    using that mirror_normal [of "[]"] by (auto simp: backup_dir_for_def join_normal)
  ultimately show ?thesis by blast
qed

theorem backup_dir_inside_witness:
  "\<exists>dir. backup_dir_for calm (sample_dir @ [ParentDir, ParentDir, ParentDir, ParentDir, Normal (lit ''etc''), Normal (lit ''c'')]) = Inr dir
     \<and> prefix (sample_dir @ [Normal (lit ''org.homelab.sshelter''), Normal (lit ''backups'')]) dir"
proof -
  have root: "backups_root calm = Inr (sample_dir @ [Normal (lit ''org.homelab.sshelter''), Normal (lit ''backups'')])"
    by (simp add: backups_root_def calm_def)
  then have "\<exists>dir. backup_dir_for calm (sample_dir @ [ParentDir, ParentDir, ParentDir, ParentDir, Normal (lit ''etc''), Normal (lit ''c'')]) = Inr dir"
    by (simp add: backup_dir_for_def parent_def is_absolute_def sample_dir_def)
  moreover from backup_dir_inside [THEN conjunct1, of calm "sample_dir @ [ParentDir, ParentDir, ParentDir, ParentDir, Normal (lit ''etc''), Normal (lit ''c'')]"] root
  have "prefix (sample_dir @ [Normal (lit ''org.homelab.sshelter''), Normal (lit ''backups'')]) dir"
    if "backup_dir_for calm (sample_dir @ [ParentDir, ParentDir, ParentDir, ParentDir, Normal (lit ''etc''), Normal (lit ''c'')]) = Inr dir" for dir
    using that by auto
  ultimately show ?thesis by blast
qed

text \<open>The name \<open>backup\<close> gives is the one \<open>prune_backups\<close> reads back.\<close>

lemma backup_name_roundtrip: "backup_millis_for (backup_name f (unat m)) f = Some m"
proof -
  have "strip_suffix (dec n @ lit ''.bak'') (lit ''.bak'') = Some (dec n)" for n
    by (simp add: strip_suffix_def ends_with_def)
  moreover have "unat m < 2 ^ 64" using unsigned_less [of m] by simp
  moreover have "dec n \<noteq> []" for n by (subst dec.simps) simp
  ultimately show ?thesis
    using dec_digits [of "unat m"]
    by (simp add: backup_millis_for_def backup_name_def strip_prefix_def starts_with_def)
qed

lemma scan_step:
  assumes "scan_backups E dir filename (entry # entries) d = (found, d')"
  shows "\<exists>d1. d_files d1 = d_files d \<and> (scan_backups E dir filename entries d1 = (found, d')
    \<or> (\<exists>name m b rest. entry = Inr (Some name) \<and> backup_millis_for name filename = Some m
         \<and> d_files d (dir @ [Normal name]) = Some (RegularFile b)
         \<and> scan_backups E dir filename entries d1 = (rest, d') \<and> found = (m, dir @ [Normal name]) # rest))"
proof (cases "\<exists>name m. entry = Inr (Some name) \<and> backup_millis_for name filename = Some m")
  case True
  then obtain name m where e: "entry = Inr (Some name)" "backup_millis_for name filename = Some m" by blast
  obtain r d1 where r: "symlink_metadata E (dir @ [Normal name]) d = (r, d1)" by force
  then have "d_files d1 = d_files d" "\<forall>node. r = Inr node \<longrightarrow> d_files d (dir @ [Normal name]) = Some node"
    by (auto simp: symlink_metadata_def sys_def Let_def split: option.splits)
  with assms e r show ?thesis
    by (intro exI [of _ d1]) (auto split: sum.splits prod.splits file_node.splits)
next
  case False
  with assms show ?thesis by (intro exI [of _ d]) (auto split: sum.splits option.splits)
qed

definition entry_names :: "(io_error + rstr option) list \<Rightarrow> rstr list" where
  "entry_names entries = [name. Inr (Some name) \<leftarrow> entries]"

definition backup_file :: "path \<Rightarrow> rstr \<Rightarrow> (path \<Rightarrow> file_node option) \<Rightarrow> rstr set \<Rightarrow> u64 \<Rightarrow> path \<Rightarrow> bool" where
  "backup_file dir filename files names m p \<longleftrightarrow>
     (\<exists>name b. name \<in> names \<and> p = dir @ [Normal name] \<and> backup_millis_for name filename = Some m
        \<and> files p = Some (RegularFile b))"

lemma scan_backups_sound:
  assumes "scan_backups E dir filename entries d = (found, d')"
  shows "d_files d' = d_files d"
    and "\<forall>(m, p) \<in> set found. backup_file dir filename (d_files d) (set (entry_names entries)) m p"
    and "distinct (entry_names entries) \<Longrightarrow> distinct (map snd found)"
  using assms
proof (induction entries arbitrary: d found)
  case (Cons entry entries)
  have sub: "set (entry_names entries) \<subseteq> set (entry_names (entry # entries))"
    "distinct (entry_names (entry # entries)) \<Longrightarrow> distinct (entry_names entries)"
    by (auto simp: entry_names_def)
  then have mono: "backup_file dir filename files (set (entry_names entries)) m p
      \<Longrightarrow> backup_file dir filename files (set (entry_names (entry # entries))) m p" for files m p
    unfolding backup_file_def by blast
  {
    fix d found assume "scan_backups E dir filename (entry # entries) d = (found, d')"
    from scan_step [OF this] obtain d1 where d1: "d_files d1 = d_files d"
      and "scan_backups E dir filename entries d1 = (found, d')
        \<or> (\<exists>name m b rest. entry = Inr (Some name) \<and> backup_millis_for name filename = Some m
             \<and> d_files d (dir @ [Normal name]) = Some (RegularFile b)
             \<and> scan_backups E dir filename entries d1 = (rest, d') \<and> found = (m, dir @ [Normal name]) # rest)" by blast
    then have "d_files d' = d_files d
      \<and> (\<forall>(m, p) \<in> set found. backup_file dir filename (d_files d) (set (entry_names (entry # entries))) m p)
      \<and> (distinct (entry_names (entry # entries)) \<longrightarrow> distinct (map snd found))"
    proof (elim disjE exE conjE)
      assume "scan_backups E dir filename entries d1 = (found, d')"
      with Cons.IH [of d1 found] d1 sub(2) mono show ?thesis by fastforce
    next
      fix name m b rest
      assume e: "entry = Inr (Some name)" "backup_millis_for name filename = Some m"
        "d_files d (dir @ [Normal name]) = Some (RegularFile b)" and r: "scan_backups E dir filename entries d1 = (rest, d')"
        and f: "found = (m, dir @ [Normal name]) # rest"
      note ih = Cons.IH(1,2) [OF r] Cons.IH(3) [OF _ r]
      have "distinct (map snd found)" if "distinct (entry_names (entry # entries))"
      proof -
        from that e(1) have "name \<notin> set (entry_names entries)" by (simp add: entry_names_def)
        then have "dir @ [Normal name] \<notin> snd ` set rest" using ih(2) by (fastforce simp: backup_file_def)
        with ih(3) sub(2) that f show ?thesis by auto
      qed
      moreover have "backup_file dir filename (d_files d) (set (entry_names (entry # entries))) m (dir @ [Normal name])"
        using e by (auto simp: backup_file_def entry_names_def)
      ultimately show ?thesis using ih(1,2) d1 mono f by fastforce
    qed
  }
  note step = this
  {
    case 1
    then show ?case using step by blast
  next
    case 2
    then show ?case using step by blast
  next
    case 3
    then show ?case using step by blast
  }
qed auto

lemma delete_all_files:
  assumes "delete_all E n old d = (r, d')"
  shows "d_files d' p = d_files d p \<or> (p \<in> snd ` set old \<and> d_files d' p = None)"
  using assms
proof (induction old arbitrary: n d)
  case (Cons entry rest)
  obtain m q where entry: "entry = (m, q)" by force
  show ?case
  proof (cases "fst (check_write E q d)")
    case (Inl e)
    with Cons.prems entry show ?thesis by (auto simp: io_bind_def check_write_def split: prod.splits sum.splits)
  next
    case (Inr u)
    then have "check_write E q d = (Inr u, d)" by (simp add: check_write_def)
    with Cons.prems entry obtain x d1 k where x: "remove_file E q d = (x, d1)" and rest: "delete_all E k rest d1 = (r, d')"
      by (auto simp: io_bind_def split: prod.splits sum.splits)
    have "d_files d1 p = d_files d p \<or> (p = q \<and> d_files d1 p = None)"
      using x by (auto simp: remove_file_def sys_def Let_def split: option.splits file_node.splits if_splits)
    moreover have "d_files d' p = d_files d1 p \<or> (p \<in> snd ` set rest \<and> d_files d' p = None)"
      by (rule Cons.IH [OF rest])
    ultimately show ?thesis by (auto simp: entry)
  qed
qed simp

text \<open>Pruning the backups of a file deletes only plain files in its backup directory whose name is
  the name of the file with a time stamp, and for each one it deletes, as many backups as are to be
  kept, all of them at least as recent, stay. Nothing else in the file system changes.\<close>

theorem prune_backups_safe:
  assumes "prune_backups E target keep d = (r, d')"
    and "\<And>n dir entries. x_read_dir E n dir = Inr entries \<Longrightarrow> distinct (entry_names entries)"
    and "d_files d' p \<noteq> d_files d p"
  shows "\<exists>dir filename name millis b kept. backup_dir_for E target = Inr dir \<and> file_name target = Some filename
     \<and> p = dir @ [Normal name] \<and> backup_millis_for name filename = Some millis
     \<and> d_files d p = Some (RegularFile b) \<and> d_files d' p = None
     \<and> distinct kept \<and> length kept = keep
     \<and> (\<forall>q \<in> set kept. \<exists>other m c. q = dir @ [Normal other] \<and> backup_millis_for other filename = Some m \<and> millis \<le> m
          \<and> d_files d' q = Some (RegularFile c) \<and> d_files d q = Some (RegularFile c))"
proof -
  from assms(1,3) obtain dir filename where f: "file_name target = Some filename" "backup_dir_for E target = Inr dir"
    and "fst (check_write E dir d) = Inr ()"
    by (auto simp: prune_backups_def io_bind_def check_write_def io_lift_def split: prod.splits sum.splits)
  then have "check_write E dir d = (Inr (), d)" by (simp add: check_write_def)
  with assms(1) f obtain x d1 where rd: "read_dir E dir d = (x, d1)"
    and x: "(case x of Inl e \<Rightarrow> if io_kind e = IO_NotFound then (Inr 0, d1) else (Inl (io e), d1)
      | Inr entries \<Rightarrow> (case scan_backups E dir filename entries d1 of
            (found, d'') \<Rightarrow> delete_all E 0 (drop keep (newest_first found)) d'')) = (r, d')"
    by (auto simp: prune_backups_def io_bind_def io_lift_def split: prod.splits)
  have d1: "d_files d1 = d_files d" using rd by (auto simp: read_dir_def sys_def Let_def split: option.splits)
  with x assms(3) obtain entries where e: "x = Inr entries" by (auto split: sum.splits if_splits)
  then have dis: "distinct (entry_names entries)"
    using rd assms(2) by (auto simp: read_dir_def sys_def Let_def split: option.splits)
  obtain found d2 where s: "scan_backups E dir filename entries d1 = (found, d2)" by force
  with x e have del: "delete_all E 0 (drop keep (newest_first found)) d2 = (r, d')" by simp
  note scan = scan_backups_sound [OF s] and files = delete_all_files [OF del]
  let ?all = "newest_first found"
  have set: "set ?all = set found" and sorted: "sorted (map (\<lambda>b. - int (unat (fst b))) ?all)"
    by (simp_all add: newest_first_def)
  have dist: "distinct (map snd ?all)"
    using scan(3) [OF dis] set by (metis distinct_map distinct_sort newest_first_def)
  from files [of p] scan(1) d1 assms(3) obtain millis where p: "(millis, p) \<in> set (drop keep ?all)" "d_files d' p = None" by force
  then have len: "keep < length ?all" by (metis drop_all empty_iff leI list.set(1))
  from p(1) have "(millis, p) \<in> set found" using set by (metis in_set_dropD)
  from bspec [OF scan(2) this] d1 obtain name b where n: "p = dir @ [Normal name]" "backup_millis_for name filename = Some millis"
    "d_files d p = Some (RegularFile b)" by (auto simp: backup_file_def)
  have keepers: "\<exists>other m c. q = dir @ [Normal other] \<and> backup_millis_for other filename = Some m \<and> millis \<le> m
          \<and> d_files d' q = Some (RegularFile c) \<and> d_files d q = Some (RegularFile c)"
    if "q \<in> set (map snd (take keep ?all))" for q
  proof -
    from that obtain m where m: "(m, q) \<in> set (take keep ?all)" by auto
    then have "(m, q) \<in> set found" using set by (metis in_set_takeD)
    from bspec [OF scan(2) this] d1 obtain other c where o: "q = dir @ [Normal other]" "backup_millis_for other filename = Some m"
      "d_files d q = Some (RegularFile c)" by (auto simp: backup_file_def)
    have "sorted (map (\<lambda>b. - int (unat (fst b))) (take keep ?all @ drop keep ?all))" using sorted by simp
    then have "\<forall>a \<in> set (take keep ?all). \<forall>b \<in> set (drop keep ?all). - int (unat (fst a)) \<le> - int (unat (fst b))"
      unfolding map_append sorted_append by simp
    from bspec [OF bspec [OF this m] p(1)] have "millis \<le> m" by (simp add: word_le_def)
    moreover have "distinct (map snd (take keep ?all @ drop keep ?all))" using dist by simp
    then have "q \<notin> snd ` set (drop keep ?all)" using that unfolding map_append distinct_append by auto
    then have "d_files d' q = d_files d2 q" using files [of q] by blast
    ultimately show ?thesis using o scan(1) d1 by auto
  qed
  have "distinct (map snd (take keep ?all))" "length (map snd (take keep ?all)) = keep"
    using dist len by (simp_all add: take_map [symmetric])
  with keepers f n p(2) show ?thesis by blast
qed

text \<open>With one backup to keep, the older of two goes.\<close>

definition backup_path :: "string \<Rightarrow> path" where
  "backup_path name = sample_dir @ [Normal (lit ''org.homelab.sshelter''), Normal (lit ''backups''),
     Normal (lit ''data''), Normal (lit ''app''), Normal (lit name)]"

definition pruned_disk :: disk where
  "pruned_disk = \<lparr>d_files = (\<lambda>p. if p = backup_path ''c.1.bak'' \<or> p = backup_path ''c.2.bak'' then Some (RegularFile []) else None), d_calls = 0\<rparr>"

lemma sample_prune: "\<exists>d'. prune_backups calm sample_file 1 pruned_disk = (Inr 1, d') \<and> d_files d' (backup_path ''c.1.bak'') = None"
proof -
  have dir: "backup_dir_for calm sample_file = Inr (sample_dir @ [Normal (lit ''org.homelab.sshelter''), Normal (lit ''backups''),
     Normal (lit ''data''), Normal (lit ''app'')])" (is "_ = Inr ?dir")
    by (simp add: backup_dir_for_def sample_file_def sample_dir_def parent_def is_absolute_def backups_root_def calm_def
      path_join_def)
  have fname: "file_name sample_file = Some (lit ''c'')" by (simp add: sample_file_def file_name_def)
  have millis: "backup_millis_for (lit ''c.1.bak'') (lit ''c'') = Some 1" "backup_millis_for (lit ''c.2.bak'') (lit ''c'') = Some 2"
    by (simp_all add: backup_millis_for_def strip_prefix_def strip_suffix_def starts_with_def ends_with_def
      parse_digits_def lit_def is_ascii_digit_def)
  have read: "x_read_dir calm n p = Inr [Inr (Some (lit ''c.1.bak'')), Inr (Some (lit ''c.2.bak''))]" for n p by (simp add: calm_def)
  show ?thesis
    unfolding prune_backups_def io_bind_def io_lift_def fname dir
    by (simp add: read_dir_def read millis symlink_metadata_def backup_path_def pruned_disk_def newest_first_def remove_file_def
      io_bind_def io_return_def)
qed

theorem prune_backups_safe_witness:
  "\<exists>d' kept. prune_backups calm sample_file 1 pruned_disk = (Inr 1, d') \<and> length kept = 1
     \<and> (\<forall>q \<in> set kept. d_files d' q = Some (RegularFile []))"
proof -
  obtain d' where d': "prune_backups calm sample_file 1 pruned_disk = (Inr 1, d')" "d_files d' (backup_path ''c.1.bak'') = None"
    using sample_prune by blast
  have "distinct (entry_names entries)" if "x_read_dir calm n dir = Inr entries" for n dir entries
    using that by (auto simp: calm_def entry_names_def)
  from prune_backups_safe [OF d'(1) this, where p = "backup_path ''c.1.bak''"] d'(2)
  obtain kept where "length kept = 1" "\<forall>q \<in> set kept. \<exists>c. d_files d' q = Some (RegularFile c) \<and> d_files pruned_disk q = Some (RegularFile c)"
    by (fastforce simp: pruned_disk_def)
  with d'(1) show ?thesis
    by (intro exI [of _ d'] exI [of _ kept]) (auto simp: pruned_disk_def split: if_splits)
qed

end
