(* ===== verification/State_V2.thy ===== *)
theory State_V2
  imports State_Validity File_Util
begin

text \<open>
  The earlier state formats: \<open>SyncState\<close> of \<open>sync/state.rs\<close> (version 1, read only) and \<open>SyncStateV2\<close>
  of \<open>sync/state_v2.rs\<close>, with the queries on them and with reading and writing the state file of
  version 2. The conversions of \<open>serde\<close> are fields of an environment.
\<close>

section \<open>Version 1\<close>

record legacy_state =
  lg_version :: u32
  lg_chain_id :: "rstr option"
  lg_device_id :: rstr
  lg_device_name :: rstr
  lg_relay_url :: rstr
  lg_cursor_seq :: u64
  lg_password_sync :: bool
  lg_remote_schema_version :: "u32 option"
  lg_baseline_established :: bool
  lg_phrase_cleanup_pending :: bool
  lg_records :: "(rstr, local_record) btm"
  lg_sealed :: "(rstr, envelope) btm"
  lg_last_sync_ms :: "u64 option"
  lg_last_error :: "rstr option"

definition legacy_joined :: "legacy_state \<Rightarrow> bool" where
  "legacy_joined s \<longleftrightarrow> lg_chain_id s \<noteq> None"

section \<open>Version 2\<close>

definition STATE_VERSION_V2 :: u32 where
  "STATE_VERSION_V2 = 2"

definition ACCOUNT_SCHEMA_VERSION :: u32 where
  "ACCOUNT_SCHEMA_VERSION = 2"

definition MNEMONIC_ACCOUNT :: rstr where
  "MNEMONIC_ACCOUNT = lit ''sync:mnemonic''"

definition NEXT_MNEMONIC_ACCOUNT :: rstr where
  "NEXT_MNEMONIC_ACCOUNT = lit ''sync:mnemonic-next''"

datatype link_kind = LinkSymlink | LinkHardLink | LinkCopy

datatype slot_source =
    Linked rstr link_kind "rstr option" bool
  | SyncedCopy rstr
  | VaultKey rstr rstr bool

record local_slot =
  sl_file_name :: rstr
  sl_source :: "slot_source option"
  sl_last_error :: "rstr option"
  sl_asked :: bool
  sl_payload :: "key_slot_payload option"
  sl_uploaded_fingerprint :: "rstr option"
  sl_parked :: bool
  sl_learned_in :: "rstr option"
  sl_copy_from_another_account :: bool
  sl_local_only :: bool

record gated_directive =
  gd_keyword :: rstr
  gd_value :: rstr

record approval_signature =
  as_host :: rstr
  as_gated :: "gated_directive list"

record pending_approval =
  pa_record :: sync_record
  pa_seq :: u64
  pa_text :: rstr
  pa_applied :: approval_signature
  pa_incoming :: approval_signature
  pa_from_device :: rstr

record declined_version =
  dv_version :: u64
  dv_updated_at_ms :: u64
  dv_seq :: u64

record space_state_v2 =
  s2_selected :: bool
  s2_file_name :: rstr
  s2_cursor_seq :: u64
  s2_baseline_established :: bool
  s2_records :: "(rstr, local_record) btm"
  s2_pending_approvals :: "(rstr, pending_approval) btm"
  s2_last_error :: "rstr option"
  s2_declined :: "(rstr, declined_version) btm"
  s2_republish :: "rstr set"
  s2_missing :: bool
  s2_rename_blocked :: "rstr option"

definition space_new :: "rstr \<Rightarrow> space_state_v2" where
  "space_new filename = \<lparr>s2_selected = True, s2_file_name = filename, s2_cursor_seq = 0,
     s2_baseline_established = False, s2_records = [], s2_pending_approvals = [], s2_last_error = None,
     s2_declined = [], s2_republish = {}, s2_missing = False, s2_rename_blocked = None\<rparr>"

record sync_state_v2 =
  v2_version :: u32
  v2_device_id :: rstr
  v2_device_name :: rstr
  v2_relay_url :: rstr
  v2_account :: "account_state option"
  v2_spaces :: "(rstr, space_state_v2) btm"
  v2_rotation :: "rotation_progress option"
  v2_legacy_v1_backup :: "rstr option"
  v2_relay_features :: "relay_features option"
  v2_phrase_cleanup_pending :: bool
  v2_last_sync_ms :: "u64 option"
  v2_last_error :: "rstr option"
  v2_key_slots :: "(rstr, local_slot) btm"
  v2_notices :: "sync_notice list"

text \<open>\<open>fresh\<close> on the outcome of filling 16 bytes from the random source of the operating system.\<close>

definition v2_fresh :: "'u relay_env_scheme \<Rightarrow> rstr + bytes \<Rightarrow> rstr \<Rightarrow> app_error + sync_state_v2" where
  "v2_fresh U random device_name =
     rbind (map_err (\<lambda>e. AE_Other (lit ''cannot create device id: '' @ e)) random) (\<lambda>b.
     Inr \<lparr>v2_version = STATE_VERSION_V2, v2_device_id = hex b, v2_device_name = device_name,
       v2_relay_url = default_relay_url (x_injected_relay U) (x_debug_build U), v2_account = None, v2_spaces = [],
       v2_rotation = None, v2_legacy_v1_backup = None, v2_relay_features = None, v2_phrase_cleanup_pending = False,
       v2_last_sync_ms = None, v2_last_error = None, v2_key_slots = [], v2_notices = []\<rparr>)"

definition v2_joined :: "sync_state_v2 \<Rightarrow> bool" where
  "v2_joined s \<longleftrightarrow> v2_account s \<noteq> None"

definition v2_read_only :: "sync_state_v2 \<Rightarrow> bool" where
  "v2_read_only s \<longleftrightarrow>
     is_some_and (Option.bind (v2_account s) acc_remote_schema_version) (\<lambda>v. v > ACCOUNT_SCHEMA_VERSION)"

definition v2_frozen :: "sync_state_v2 \<Rightarrow> freeze_info option" where
  "v2_frozen s = Option.bind (v2_account s) acc_frozen"

definition rotation_progress_new :: "rstr \<Rightarrow> u64 \<Rightarrow> rotation_progress" where
  "rotation_progress_new new_account_chain_id started_at_ms =
     \<lparr>rp_step = RP_Prepared, rp_started_at_ms = started_at_ms, rp_new_account_chain_id = new_account_chain_id,
       rp_spaces = [], rp_created = {}, rp_copied = {}, rp_deleted = {}, rp_paused_until_ms = None\<rparr>"

definition cancellable :: "rotation_progress \<Rightarrow> bool" where
  "cancellable r \<longleftrightarrow> rp_step r \<in> {RP_Prepared, RP_LocalChangesSent}"

section \<open>The file\<close>

datatype loaded_state = Missing | LegacyState legacy_state | Current sync_state_v2

record v2_codec =
  x_v2_probe :: "bytes \<Rightarrow> rstr + u32"
  x_v1_from_slice :: "bytes \<Rightarrow> rstr + legacy_state"
  x_v2_from_slice :: "bytes \<Rightarrow> rstr + sync_state_v2"
  x_v2_to_vec :: "sync_state_v2 \<Rightarrow> rstr + bytes"

definition unreadable :: "rstr \<Rightarrow> app_error" where
  "unreadable e = AE_Other (lit ''sync state is unreadable: '' @ e)"

definition state_version :: "'c v2_codec_scheme \<Rightarrow> bytes \<Rightarrow> app_error + u32" where
  "state_version C b = map_err unreadable (x_v2_probe C b)"

definition read_file :: "os_env \<Rightarrow> path \<Rightarrow> disk \<Rightarrow> (io_error + bytes) \<times> disk" where
  "read_file E p =
     sys E (\<lambda>d. (case d_files d p of
                   Some (RegularFile b) \<Rightarrow> Inr b
                 | Some (Symlink (ToFile b)) \<Rightarrow> Inr b
                 | Some (Symlink Dangling) \<Rightarrow> Inl not_found
                 | Some _ \<Rightarrow> Inl (IoError IO_Other (lit ''Is a directory (os error 21)''))
                 | None \<Rightarrow> Inl not_found, d))"

definition parse_v2 :: "'c v2_codec_scheme \<Rightarrow> bytes \<Rightarrow> app_error + loaded_state" where
  "parse_v2 C b =
     rbind (state_version C b) (\<lambda>v.
     if v = 1 then map_err unreadable (rbind (x_v1_from_slice C b) (\<lambda>s. Inr (LegacyState s)))
     else if v = STATE_VERSION_V2 then map_err unreadable (rbind (x_v2_from_slice C b) (\<lambda>s. Inr (Current s)))
     else if v > STATE_VERSION_V2
     then Inl (AE_Other (lit ''sync state was written by a newer Lunport (version '' @ dec (unat v) @ lit ''); update the app''))
     else Inl (AE_Other (lit ''sync state has an unknown version ('' @ dec (unat v) @ lit '')'')))"

definition load :: "'c v2_codec_scheme \<Rightarrow> os_env \<Rightarrow> path \<Rightarrow> loaded_state io" where
  "load C E p d =
     (case read_file E p d of
        (Inl e, d') \<Rightarrow> (if io_kind e = IO_NotFound then Inr Missing else Inl (io e), d')
      | (Inr b, d') \<Rightarrow> (parse_v2 C b, d'))"

text \<open>Every record the file would hold in plain text.\<close>

definition plaintext_records :: "sync_state_v2 \<Rightarrow> sync_record list" where
  "plaintext_records s =
     (case v2_account s of Some a \<Rightarrow> map lr_record (bt_values (acc_records a)) | None \<Rightarrow> [])
     @ concat (map (\<lambda>space. map lr_record (bt_values (s2_records space))
                             @ map pa_record (bt_values (s2_pending_approvals space))) (bt_values (v2_spaces s)))"

definition refuse_plaintext_secrets :: "sync_state_v2 \<Rightarrow> app_error + unit" where
  "refuse_plaintext_secrets s =
     (case find (\<lambda>r. is_secret (r_kind r)) (plaintext_records s) of
        Some r \<Rightarrow> Inl (AE_Other (lit ''refusing to write a '' @ as_str (r_kind r)
                    @ lit '' record into the sync state in plaintext''))
      | None \<Rightarrow> Inr ())"

definition save_v2 :: "'c v2_codec_scheme \<Rightarrow> os_env \<Rightarrow> path \<Rightarrow> sync_state_v2 \<Rightarrow> unit io" where
  "save_v2 C E p s =
     io_bind (io_lift (refuse_plaintext_secrets s)) (\<lambda>_.
     io_bind (case parent p of Some dir \<Rightarrow> ensure_dir_secure E dir | None \<Rightarrow> io_return ()) (\<lambda>_.
     io_bind (io_lift (map_err (\<lambda>e. AE_Other (lit ''cannot serialize sync state: '' @ e)) (x_v2_to_vec C s))) (\<lambda>b.
     atomic_write E p b)))"

end
