(* ===== verification/Agent_Broker.thy ===== *)
theory Agent_Broker
  imports Agent_Protocol Relay_Client Session_Auth State_V2
begin

text \<open>
  The decisions of the SSH agent (\<open>agent/approval.rs\<close>, \<open>agent/broker.rs\<close>): which keys it lists, whether it signs, whether
  a person is asked, and how long an approval and an opened private key are kept. The boundary of the code, the trait
  \<open>AgentHost\<close>, is the parameter \<open>agent_host\<close>; a call takes its answer by the number of the call. Every access under a lock is
  atomic, and before it \<open>ah_others\<close> may change the broker as other connections do. A request that is refused is \<open>None\<close>,
  as the \<open>Option\<close> of the code. The log notes what was asked and remembered, for the theorems.
\<close>

section \<open>Approvals\<close>

record agent_settings =
  ag_remember_minutes :: u32
  ag_always_ask :: bool

definition DEFAULT_REMEMBER_MINUTES :: u32 where
  "DEFAULT_REMEMBER_MINUTES = 240"

definition REMEMBER_CHOICES_MINUTES :: "u32 list" where
  "REMEMBER_CHOICES_MINUTES = [15, 60, 240, 720]"

definition remember_minutes :: "agent_settings \<Rightarrow> u32" where
  "remember_minutes settings =
     (if ag_remember_minutes settings \<in> set REMEMBER_CHOICES_MINUTES then ag_remember_minutes settings else DEFAULT_REMEMBER_MINUTES)"

text \<open>Settings that cannot be read are the strict ones.\<close>

definition settings_or_ask_every_time :: "app_error + agent_settings \<Rightarrow> agent_settings" where
  "settings_or_ask_every_time r =
     (case r of Inr s \<Rightarrow> s | Inl _ \<Rightarrow> \<lparr>ag_remember_minutes = DEFAULT_REMEMBER_MINUTES, ag_always_ask = True\<rparr>)"

record approval_key =
  ak_key_fingerprint :: rstr
  ak_host_fingerprint :: rstr
  ak_program :: rstr

record key_protection =
  kp_ask_every_time :: bool
  kp_require_user_presence :: bool

definition protection_default :: key_protection where
  "protection_default = \<lparr>kp_ask_every_time = False, kp_require_user_presence = False\<rparr>"

datatype approval_verdict = VD_Remembered | VD_Ask bool

definition approval_verdict_of :: "key_protection \<Rightarrow> agent_settings \<Rightarrow> bool \<Rightarrow> bool \<Rightarrow> approval_verdict" where
  "approval_verdict_of protection settings context_known hit =
     (if kp_ask_every_time protection \<or> ag_always_ask settings \<or> \<not> context_known then VD_Ask False
      else if hit then VD_Remembered
      else VD_Ask True)"

type_synonym approval_cache = "approval_key \<Rightarrow> u64 option"

definition cache_prune :: "u64 \<Rightarrow> approval_cache \<Rightarrow> approval_cache" where
  "cache_prune now c = (\<lambda>k. opt_filter (\<lambda>expires. expires > now) (c k))"

definition cache_is_remembered :: "approval_key \<Rightarrow> u64 \<Rightarrow> approval_cache \<Rightarrow> bool \<times> approval_cache" where
  "cache_is_remembered k now c = (let c = cache_prune now c in (c k \<noteq> None, c))"

definition expiry :: "u64 \<Rightarrow> u32 \<Rightarrow> u64" where
  "expiry now minutes = saturating_add now (ucast minutes * 60000)"

definition cache_remember :: "approval_key \<Rightarrow> u64 \<Rightarrow> u32 \<Rightarrow> approval_cache \<Rightarrow> approval_cache" where
  "cache_remember k now minutes c = c(k := Some (expiry now minutes))"

section \<open>The state of the broker\<close>

record 'm unlocked =
  ul_material :: 'm
  ul_expires_ms :: u64

record 'm broker =
  bk_approvals :: approval_cache
  bk_unlocked :: "rstr \<Rightarrow> 'm unlocked option"
  bk_asking :: "approval_key set"

definition live :: "u64 \<Rightarrow> 'm unlocked \<Rightarrow> bool" where
  "live now u \<longleftrightarrow> ul_expires_ms u > now"

definition broker_clear :: "'m broker \<Rightarrow> 'm broker" where
  "broker_clear b = b\<lparr>bk_approvals := (\<lambda>_. None), bk_unlocked := (\<lambda>_. None)\<rparr>"

definition broker_expire :: "u64 \<Rightarrow> 'm broker \<Rightarrow> 'm broker" where
  "broker_expire now b = b\<lparr>bk_approvals := cache_prune now (bk_approvals b), bk_unlocked := (\<lambda>i. opt_filter (live now) (bk_unlocked b i))\<rparr>"

text \<open>An opened key whose slot holds another key by now is dropped.\<close>

definition cached_in :: "('m \<Rightarrow> 'k) \<Rightarrow> rstr \<Rightarrow> 'k \<Rightarrow> u64 \<Rightarrow> 'm broker \<Rightarrow> 'm option \<times> 'm broker" where
  "cached_in key_of i key now b =
     (let un = (\<lambda>i. opt_filter (live now) (bk_unlocked b i)) in
      case un i of
        Some u \<Rightarrow>
          if key_of (ul_material u) = key then (Some (ul_material u), b\<lparr>bk_unlocked := un\<rparr>)
          else (None, b\<lparr>bk_unlocked := un(i := None)\<rparr>)
      | None \<Rightarrow> (None, b\<lparr>bk_unlocked := un\<rparr>))"

definition extend_unlocked :: "rstr \<Rightarrow> u64 \<Rightarrow> 'm broker \<Rightarrow> 'm broker" where
  "extend_unlocked i until b =
     b\<lparr>bk_unlocked := (bk_unlocked b)(i := map_option (\<lambda>u. u\<lparr>ul_expires_ms := max (ul_expires_ms u) until\<rparr>) (bk_unlocked b i))\<rparr>"

section \<open>The host\<close>

record agent_key =
  ky_slot_id :: rstr
  ky_name :: rstr
  ky_fingerprint :: rstr
  ky_public_key :: rstr
  ky_has_passphrase :: bool

definition vault_keys :: "sync_state_v2 \<Rightarrow> agent_key list" where
  "vault_keys s =
     List.map_filter (\<lambda>(i, l).
       case sl_source l of
         Some (VaultKey fingerprint public_key has_passphrase) \<Rightarrow>
           Some \<lparr>ky_slot_id = i,
                 ky_name = (case opt_filter (\<lambda>name. name \<noteq> []) (map_option ks_name (sl_payload l)) of Some name \<Rightarrow> name | None \<Rightarrow> sl_file_name l),
                 ky_fingerprint = fingerprint, ky_public_key = public_key, ky_has_passphrase = has_passphrase\<rparr>
       | _ \<Rightarrow> None) (v2_key_slots s)"

record program =
  pg_chain :: "rstr list"
  pg_identity :: rstr

record grant =
  gr_slot_id :: rstr

record agent_approval_request =
  aq_id :: rstr
  aq_key_name :: rstr
  aq_key_fingerprint :: rstr
  aq_program_chain :: "rstr list"
  aq_user :: "rstr option"
  aq_host :: "rstr option"
  aq_host_fingerprint :: "rstr option"
  aq_rememberable :: bool
  aq_remember_minutes :: u32
  aq_needs_passphrase :: bool
  aq_passphrase_error :: "rstr option"
  aq_preapproved :: bool

record agent_approval_answer =
  aa_allow :: bool
  aa_remember :: bool
  aa_passphrase :: "rstr option"
  aa_remember_passphrase :: bool

datatype key_algorithm = KA_Ed25519 | KA_Ecdsa | KA_Rsa | KA_Other

record ('k, 'm) agent_host =
  ah_others :: "nat \<Rightarrow> 'm broker \<Rightarrow> 'm broker"
  ah_keys :: "nat \<Rightarrow> agent_key list"
  ah_private_key :: "nat \<Rightarrow> rstr \<Rightarrow> app_error + rstr option"
  ah_settings :: "nat \<Rightarrow> agent_settings"
  ah_keychain_get :: "nat \<Rightarrow> rstr \<Rightarrow> app_error + rstr option"
  ah_keychain_set :: "nat \<Rightarrow> rstr \<Rightarrow> rstr \<Rightarrow> app_error + unit"
  ah_keychain_delete :: "nat \<Rightarrow> rstr \<Rightarrow> app_error + unit"
  ah_now :: "nat \<Rightarrow> u64"
  ah_host_name :: "nat \<Rightarrow> 'k \<Rightarrow> rstr option"
  ah_ask :: "nat \<Rightarrow> agent_approval_request \<Rightarrow> agent_approval_answer option"
  ah_wait :: "nat \<Rightarrow> approval_key \<Rightarrow> bool"
  ah_public_key_data :: "rstr \<Rightarrow> 'k option"
  ah_algorithm :: "'k \<Rightarrow> key_algorithm"
  ah_fingerprint :: "'k \<Rightarrow> rstr"
  ah_open :: "rstr \<Rightarrow> rstr option \<Rightarrow> open_error + 'm"
  ah_key_data :: "'m \<Rightarrow> 'k"
  ah_sign :: "nat \<Rightarrow> 'm \<Rightarrow> bytes \<Rightarrow> u32 \<Rightarrow> app_error + bytes"

datatype agent_event =
    GE_Asked agent_approval_request "agent_approval_answer option"
  | GE_Hit approval_key u64
  | GE_Waited approval_key bool
  | GE_Remembered approval_key u64
  | GE_Finished approval_key bool

record 'm agent_state =
  as_broker :: "'m broker"
  as_step :: nat
  as_log :: "agent_event list"

type_synonym ('m, 'a) agent_act = "'m agent_state \<Rightarrow> 'a option \<times> 'm agent_state"

definition try_bind :: "('m, 'a) agent_act \<Rightarrow> ('a \<Rightarrow> ('m, 'b) agent_act) \<Rightarrow> ('m, 'b) agent_act" where
  "try_bind m f st = (case m st of (None, st) \<Rightarrow> (None, st) | (Some a, st) \<Rightarrow> f a st)"

definition try_return :: "'a \<Rightarrow> ('m, 'a) agent_act" where
  "try_return a st = (Some a, st)"

definition refuse :: "('m, 'a) agent_act" where
  "refuse st = (None, st)"

definition on_host :: "(nat \<Rightarrow> 'a) \<Rightarrow> ('m, 'a) agent_act" where
  "on_host f st = (Some (f (as_step st)), st\<lparr>as_step := as_step st + 1\<rparr>)"

definition locked :: "('k, 'm) agent_host \<Rightarrow> ('m broker \<Rightarrow> 'a \<times> 'm broker) \<Rightarrow> ('m, 'a) agent_act" where
  "locked N f st =
     (case f (ah_others N (as_step st) (as_broker st)) of (a, b) \<Rightarrow> (Some a, st\<lparr>as_broker := b, as_step := as_step st + 1\<rparr>))"

definition note_event :: "agent_event \<Rightarrow> ('m, unit) agent_act" where
  "note_event e st = (Some (), st\<lparr>as_log := as_log st @ [e]\<rparr>)"

text \<open>The window. No answer in time is a refusal.\<close>

definition ask_person :: "('k, 'm) agent_host \<Rightarrow> agent_approval_request \<Rightarrow> ('m, agent_approval_answer) agent_act" where
  "ask_person N p =
     try_bind (on_host (\<lambda>n. ah_ask N n p)) (\<lambda>answer.
     try_bind (note_event (GE_Asked p answer)) (\<lambda>_.
     case answer of None \<Rightarrow> refuse | Some a \<Rightarrow> try_return a))"

section \<open>Names of hosts\<close>

fun split_sub :: "rstr \<Rightarrow> rstr \<Rightarrow> (rstr \<times> rstr) option" where
  "split_sub pat [] = None"
| "split_sub pat (c # s) =
     (if starts_with (c # s) pat then Some ([], drop (length pat) (c # s)) else map_option (\<lambda>(a, b). (c # a, b)) (split_sub pat s))"

definition shown_name :: "rstr \<Rightarrow> rstr" where
  "shown_name name =
     (case Option.bind (strip_prefix name (lit ''['')) (split_sub (lit '']:'')) of
        Some (host, port) \<Rightarrow> host @ lit '':'' @ port
      | None \<Rightarrow> name)"

definition showable :: "rstr \<Rightarrow> bool" where
  "showable name \<longleftrightarrow> \<not> starts_with name (lit ''|'') \<and> \<not> starts_with name (lit ''!'') \<and> chr CHR ''*'' \<notin> set name \<and> chr CHR ''?'' \<notin> set name"

definition name_in_line :: "('k, 'm) agent_host \<Rightarrow> 'k \<Rightarrow> rstr \<Rightarrow> rstr option" where
  "name_in_line N host_key line =
     (let line = trim line in
      if line = [] \<or> starts_with line (lit ''#'') \<or> starts_with line (lit ''@'') then None
      else
        (case split_whitespace line of
           names # kind # blob # _ \<Rightarrow>
             if ah_public_key_data N (kind @ lit '' '' @ blob) \<noteq> Some host_key then None
             else map_option shown_name (List.find showable (split_on (chr CHR '','') names))
         | _ \<Rightarrow> None))"

definition host_name_in :: "('k, 'm) agent_host \<Rightarrow> rstr \<Rightarrow> 'k \<Rightarrow> rstr option" where
  "host_name_in N known_hosts host_key =
     (case List.map_filter (name_in_line N host_key) (split_on 10 known_hosts) of [] \<Rightarrow> None | name # _ \<Rightarrow> Some name)"

section \<open>Asking\<close>

definition MAX_SHOWN_CHARS :: nat where
  "MAX_SHOWN_CHARS = 256"

definition WRONG_PASSPHRASE :: rstr where
  "WRONG_PASSPHRASE = lit ''That passphrase didn'' @ [39] @ lit ''t work.''"

definition AGENT_PASSPHRASE_ATTEMPTS :: nat where
  "AGENT_PASSPHRASE_ATTEMPTS = 3"

definition shorten :: "rstr \<Rightarrow> nat \<Rightarrow> rstr" where
  "shorten t n = (if length t \<le> n then t else take n t @ [8230])"

record 'k ask =
  ak_key :: agent_key
  ak_request :: "'k sign_request"
  ak_program_of :: "program option"
  ak_host :: "rstr option"
  ak_host_display :: "rstr option"
  ak_minutes :: u32

definition prompt_of :: "'k ask \<Rightarrow> bool \<Rightarrow> bool \<Rightarrow> bool \<Rightarrow> rstr option \<Rightarrow> agent_approval_request" where
  "prompt_of a preapproved needs_passphrase rememberable passphrase_error =
     \<lparr>aq_id = [], aq_key_name = ky_name (ak_key a), aq_key_fingerprint = ky_fingerprint (ak_key a),
      aq_program_chain = (case ak_program_of a of Some p \<Rightarrow> pg_chain p | None \<Rightarrow> []),
      aq_user = map_option (\<lambda>u. shorten u MAX_SHOWN_CHARS) (sq_user (ak_request a)), aq_host = ak_host_display a, aq_host_fingerprint = ak_host a,
      aq_rememberable = rememberable, aq_remember_minutes = ak_minutes a, aq_needs_passphrase = needs_passphrase,
      aq_passphrase_error = passphrase_error, aq_preapproved = preapproved\<rparr>"

definition names :: "('k, 'm) agent_host \<Rightarrow> 'k ask \<Rightarrow> 'm \<Rightarrow> bool" where
  "names N a m \<longleftrightarrow> ah_key_data N m = sq_key (ak_request a)"

definition agent_can_sign :: "key_algorithm \<Rightarrow> bool" where
  "agent_can_sign k \<longleftrightarrow> k \<in> {KA_Ed25519, KA_Ecdsa, KA_Rsa}"

definition signable_public_key :: "('k, 'm) agent_host \<Rightarrow> agent_key \<Rightarrow> 'k option" where
  "signable_public_key N k = opt_filter (\<lambda>d. agent_can_sign (ah_algorithm N d)) (ah_public_key_data N (ky_public_key k))"

section \<open>Opening a key\<close>

definition cached_key :: "('k, 'm) agent_host \<Rightarrow> 'k ask \<Rightarrow> ('m, 'm option) agent_act" where
  "cached_key N a =
     try_bind (on_host (ah_now N)) (\<lambda>now. locked N (cached_in (ah_key_data N) (ky_slot_id (ak_key a)) (sq_key (ak_request a)) now))"

definition remembered_passphrase :: "('k, 'm) agent_host \<Rightarrow> rstr \<Rightarrow> ('m, rstr option) agent_act" where
  "remembered_passphrase N i =
     try_bind (on_host (\<lambda>n. ah_keychain_get N n (passphrase_account i))) (\<lambda>r.
     try_return (case r of Inr v \<Rightarrow> v | Inl _ \<Rightarrow> None))"

text \<open>A passphrase from the keychain. One that does not fit any more is removed.\<close>

definition open_saved :: "('k, 'm) agent_host \<Rightarrow> rstr \<Rightarrow> rstr \<Rightarrow> ('m, 'm option) agent_act" where
  "open_saved N i t =
     try_bind (remembered_passphrase N i) (\<lambda>saved.
     case saved of
       None \<Rightarrow> try_return None
     | Some p \<Rightarrow>
         (case ah_open N t (Some p) of
            Inr m \<Rightarrow> try_return (Some m)
          | Inl OE_WrongPassphrase \<Rightarrow> try_bind (on_host (\<lambda>n. ah_keychain_delete N n (passphrase_account i))) (\<lambda>_. try_return None)
          | Inl _ \<Rightarrow> refuse))"

text \<open>A typed passphrase is saved in the keychain if that was wished; otherwise the opened key stays in memory for a while.\<close>

definition keep_opened :: "('k, 'm) agent_host \<Rightarrow> 'k ask \<Rightarrow> 'm \<Rightarrow> rstr \<Rightarrow> bool \<Rightarrow> ('m, 'm) agent_act" where
  "keep_opened N a m passphrase remember =
     try_bind (if remember then try_bind (on_host (\<lambda>n. ah_keychain_set N n (passphrase_account (ky_slot_id (ak_key a))) passphrase)) (\<lambda>r. try_return (is_ok r))
               else try_return False) (\<lambda>saved.
     if saved then try_return m
     else
       try_bind (on_host (ah_now N)) (\<lambda>now.
       try_bind (locked N (\<lambda>b. ((), b\<lparr>bk_unlocked := (bk_unlocked b)(ky_slot_id (ak_key a) :=
          Some \<lparr>ul_material = m, ul_expires_ms = expiry now (ak_minutes a)\<rparr>)\<rparr>))) (\<lambda>_.
       try_return m)))"

definition typed_passphrase :: "('k, 'm) agent_host \<Rightarrow> 'k ask \<Rightarrow> (rstr \<times> bool) option \<Rightarrow> rstr option \<Rightarrow> ('m, rstr \<times> bool) agent_act" where
  "typed_passphrase N a supplied error =
     (case supplied of
        Some given \<Rightarrow> try_return given
      | None \<Rightarrow>
          try_bind (ask_person N (prompt_of a True True False error)) (\<lambda>answer.
          if \<not> aa_allow answer then refuse
          else try_return (case aa_passphrase answer of Some p \<Rightarrow> p | None \<Rightarrow> [], aa_remember_passphrase answer)))"

fun passphrase_rounds :: "('k, 'm) agent_host \<Rightarrow> 'k ask \<Rightarrow> rstr \<Rightarrow> nat \<Rightarrow> (rstr \<times> bool) option \<Rightarrow> rstr option \<Rightarrow> ('m, 'm) agent_act" where
  "passphrase_rounds N a t 0 supplied error = refuse"
| "passphrase_rounds N a t (Suc k) supplied error =
     try_bind (typed_passphrase N a supplied error) (\<lambda>(passphrase, remember).
     case ah_open N t (Some passphrase) of
       Inr m \<Rightarrow> if \<not> names N a m then refuse else keep_opened N a m passphrase remember
     | Inl OE_WrongPassphrase \<Rightarrow> passphrase_rounds N a t k None (Some WRONG_PASSPHRASE)
     | Inl _ \<Rightarrow> refuse)"

definition unlock :: "('k, 'm) agent_host \<Rightarrow> 'k ask \<Rightarrow> (rstr \<times> bool) option \<Rightarrow> ('m, 'm) agent_act" where
  "unlock N a supplied =
     try_bind (cached_key N a) (\<lambda>opened.
     case opened of
       Some m \<Rightarrow> try_return m
     | None \<Rightarrow>
         try_bind (on_host (\<lambda>n. ah_private_key N n (ky_slot_id (ak_key a)))) (\<lambda>r.
         case r of
           Inr (Some t) \<Rightarrow>
             (case ah_open N t None of
                Inr m \<Rightarrow> try_return m
              | Inl OE_NeedsPassphrase \<Rightarrow>
                  try_bind (if supplied = None then open_saved N (ky_slot_id (ak_key a)) t else try_return None) (\<lambda>saved.
                  case saved of
                    Some m \<Rightarrow> try_return m
                  | None \<Rightarrow> passphrase_rounds N a t AGENT_PASSPHRASE_ATTEMPTS supplied None)
              | Inl _ \<Rightarrow> refuse)
         | _ \<Rightarrow> refuse))"

section \<open>Approving\<close>

definition remember_approval :: "('k, 'm) agent_host \<Rightarrow> approval_key \<Rightarrow> rstr \<Rightarrow> u32 \<Rightarrow> ('m, unit) agent_act" where
  "remember_approval N k i minutes =
     try_bind (on_host (ah_now N)) (\<lambda>now.
     try_bind (note_event (GE_Remembered k (expiry now minutes))) (\<lambda>_.
     try_bind (locked N (\<lambda>b. ((), b\<lparr>bk_approvals := cache_remember k now minutes (bk_approvals b)\<rparr>))) (\<lambda>_.
     locked N (\<lambda>b. ((), extend_unlocked i (expiry now minutes) b)))))"

definition needs_passphrase :: "('k, 'm) agent_host \<Rightarrow> 'k ask \<Rightarrow> ('m, bool) agent_act" where
  "needs_passphrase N a =
     (if \<not> ky_has_passphrase (ak_key a) then try_return False
      else
        try_bind (cached_key N a) (\<lambda>opened.
        if opened \<noteq> None then try_return False
        else try_bind (remembered_passphrase N (ky_slot_id (ak_key a))) (\<lambda>p. try_return (p = None))))"

definition ask_and_unlock :: "('k, 'm) agent_host \<Rightarrow> 'k ask \<Rightarrow> approval_key option \<Rightarrow> ('m, 'm) agent_act" where
  "ask_and_unlock N a k =
     try_bind (needs_passphrase N a) (\<lambda>needs.
     try_bind (ask_person N (prompt_of a False needs (k \<noteq> None) None)) (\<lambda>answer.
     if \<not> aa_allow answer then refuse
     else
       try_bind (unlock N a (if needs then map_option (\<lambda>p. (p, aa_remember_passphrase answer)) (aa_passphrase answer) else None)) (\<lambda>m.
       try_bind (case k of
                   Some k \<Rightarrow> if aa_remember answer then remember_approval N k (ky_slot_id (ak_key a)) (ak_minutes a) else try_return ()
                 | None \<Rightarrow> try_return ()) (\<lambda>_.
       try_return m))))"

definition is_remembered :: "('k, 'm) agent_host \<Rightarrow> approval_key \<Rightarrow> ('m, bool) agent_act" where
  "is_remembered N k =
     try_bind (on_host (ah_now N)) (\<lambda>now.
     try_bind (locked N (\<lambda>b. case cache_is_remembered k now (bk_approvals b) of (hit, c) \<Rightarrow> (hit, b\<lparr>bk_approvals := c\<rparr>))) (\<lambda>hit.
     try_bind (if hit then note_event (GE_Hit k now) else try_return ()) (\<lambda>_.
     try_return hit)))"

text \<open>The first of several equal requests asks; when it is done, however it ends, the others get its answer.\<close>

definition ending_with :: "('m, 'a) agent_act \<Rightarrow> (bool \<Rightarrow> ('m, unit) agent_act) \<Rightarrow> ('m, 'a) agent_act" where
  "ending_with m g st = (case m st of (r, st) \<Rightarrow> (r, snd (g (r \<noteq> None) st)))"

definition first_done :: "('k, 'm) agent_host \<Rightarrow> approval_key \<Rightarrow> bool \<Rightarrow> ('m, unit) agent_act" where
  "first_done N k allowed =
     try_bind (locked N (\<lambda>b. ((), b\<lparr>bk_asking := bk_asking b - {k}\<rparr>))) (\<lambda>_. note_event (GE_Finished k allowed))"

definition ask_once :: "('k, 'm) agent_host \<Rightarrow> 'k ask \<Rightarrow> approval_key \<Rightarrow> ('m, 'm) agent_act" where
  "ask_once N a k =
     try_bind (locked N (\<lambda>b. if k \<in> bk_asking b then (False, b) else (True, b\<lparr>bk_asking := insert k (bk_asking b)\<rparr>))) (\<lambda>first.
     if \<not> first then
       try_bind (on_host (\<lambda>n. ah_wait N n k)) (\<lambda>allowed.
       try_bind (note_event (GE_Waited k allowed)) (\<lambda>_.
       if allowed then unlock N a None else refuse))
     else
       ending_with
         (try_bind (is_remembered N k) (\<lambda>hit. if hit then unlock N a None else ask_and_unlock N a (Some k)))
         (first_done N k))"

definition approval_key_of :: "'k ask \<Rightarrow> approval_key option" where
  "approval_key_of a =
     (case (ak_host a, ak_program_of a) of
        (Some h, Some p) \<Rightarrow> Some \<lparr>ak_key_fingerprint = ky_fingerprint (ak_key a), ak_host_fingerprint = h, ak_program = pg_identity p\<rparr>
      | _ \<Rightarrow> None)"

definition approve :: "('k, 'm) agent_host \<Rightarrow> 'k ask \<Rightarrow> agent_settings \<Rightarrow> ('m, 'm) agent_act" where
  "approve N a settings =
     (let k = approval_key_of a in
      try_bind (case k of Some k \<Rightarrow> is_remembered N k | None \<Rightarrow> try_bind (on_host (ah_now N)) (\<lambda>_. try_return False)) (\<lambda>hit.
      case approval_verdict_of protection_default settings (k \<noteq> None) hit of
        VD_Remembered \<Rightarrow> unlock N a None
      | VD_Ask False \<Rightarrow> ask_and_unlock N a None
      | VD_Ask True \<Rightarrow> (case k of Some k \<Rightarrow> ask_once N a k | None \<Rightarrow> ask_and_unlock N a None)))"

section \<open>Signing\<close>

definition broker_identities :: "('k, 'm) agent_host \<Rightarrow> grant option \<Rightarrow> ('m, ('k \<times> rstr) list) agent_act" where
  "broker_identities N g =
     try_bind (on_host (ah_keys N)) (\<lambda>keys.
     try_return (List.map_filter (\<lambda>k. map_option (\<lambda>d. (d, ky_name k)) (signable_public_key N k))
       (filter (\<lambda>k. is_none_or g (\<lambda>g. gr_slot_id g = ky_slot_id k)) keys)))"

definition find_key :: "('k, 'm) agent_host \<Rightarrow> 'k sign_request \<Rightarrow> grant option \<Rightarrow> agent_key list \<Rightarrow> agent_key option" where
  "find_key N q g keys =
     (let fits = (\<lambda>k. signable_public_key N k = Some (sq_key q)) in
      case g of
        Some g \<Rightarrow> opt_filter fits (List.find (\<lambda>k. ky_slot_id k = gr_slot_id g) keys)
      | None \<Rightarrow> List.find fits keys)"

definition ask_of :: "('k, 'm) agent_host \<Rightarrow> agent_key \<Rightarrow> 'k sign_request \<Rightarrow> program option \<Rightarrow> agent_settings \<Rightarrow> ('m, 'k ask) agent_act" where
  "ask_of N key q p settings =
     (let fp = map_option (ah_fingerprint N) (sq_host_key q) in
      try_bind (case sq_host_key q of
                  Some h \<Rightarrow> try_bind (on_host (\<lambda>n. ah_host_name N n h)) (\<lambda>name.
                    try_return (Some (case name of Some s \<Rightarrow> s | None \<Rightarrow> ah_fingerprint N h)))
                | None \<Rightarrow> try_return None) (\<lambda>display.
      try_return \<lparr>ak_key = key, ak_request = q, ak_program_of = p, ak_host = fp, ak_host_display = display, ak_minutes = remember_minutes settings\<rparr>))"

definition broker_sign :: "('k, 'm) agent_host \<Rightarrow> 'k sign_request \<Rightarrow> program option \<Rightarrow> grant option \<Rightarrow> ('m, bytes) agent_act" where
  "broker_sign N q p g =
     (if sq_forwarded q then refuse
      else
        try_bind (on_host (ah_keys N)) (\<lambda>keys.
        case find_key N q g keys of
          None \<Rightarrow> refuse
        | Some key \<Rightarrow>
            try_bind (on_host (ah_settings N)) (\<lambda>settings.
            try_bind (ask_of N key q p settings) (\<lambda>a.
            try_bind (if g \<noteq> None then unlock N a None else approve N a settings) (\<lambda>m.
            if \<not> names N a m then refuse
            else
              try_bind (on_host (\<lambda>n. ah_sign N n m (sq_data q) (sq_flags q))) (\<lambda>r.
              case r of Inr blob \<Rightarrow> try_return blob | Inl _ \<Rightarrow> refuse))))))"

text \<open>The authority of one connection.\<close>

definition connection :: "('k, 'm) agent_host \<Rightarrow> program option \<Rightarrow> grant option \<Rightarrow> ('k, 'm agent_state) sign_authority" where
  "connection N p g =
     \<lparr>sa_identities = (\<lambda>st. case broker_identities N g st of (Some keys, st) \<Rightarrow> (keys, st) | (None, st) \<Rightarrow> ([], st)),
      sa_sign = (\<lambda>q. broker_sign N q p g)\<rparr>"

end
