(* ===== verification/Agent_Prompt.thy ===== *)
theory Agent_Prompt
  imports Agent_Broker
begin

text \<open>
  The requests waiting for an answer of a person (\<open>agent/prompt.rs\<close>): \<open>PromptHub\<close>, the operations of the window and
  the threads that ask. The threads run interleaved; a step is what one of them does under one lock, or on one
  channel. A thread that asks is known by the id of its request, its progress is \<open>ask_progress\<close>, and its channel holds at
  most one answer. \<open>hb_shown\<close> is the list the window was told last and \<open>hb_accepted\<close> lists the answers that were
  reported as accepted, for the theorems.
\<close>

section \<open>The hub\<close>

record waiting =
  wt_request :: agent_approval_request
  wt_answered :: bool

datatype ask_progress =
    AP_Numbered agent_approval_request
  | AP_Listed
  | AP_Waiting
  | AP_Leaving "agent_approval_answer option"
  | AP_Left "agent_approval_answer option"
  | AP_Telling "agent_approval_answer option"
  | AP_Returned "agent_approval_answer option"
  | AP_Unwound

record prompt_hub =
  hb_pending :: "waiting list"
  hb_next_id :: u64
  hb_channel :: "rstr \<Rightarrow> agent_approval_answer option"
  hb_asks :: "rstr \<Rightarrow> ask_progress option"
  hb_shown :: "agent_approval_request list"
  hb_accepted :: "(rstr \<times> agent_approval_answer) list"

definition hub_default :: prompt_hub where
  "hub_default = \<lparr>hb_pending = [], hb_next_id = 0, hb_channel = \<lambda>_. None, hb_asks = \<lambda>_. None, hb_shown = [], hb_accepted = []\<rparr>"

definition answer_default :: agent_approval_answer where
  "answer_default = \<lparr>aa_allow = False, aa_remember = False, aa_passphrase = None, aa_remember_passphrase = False\<rparr>"

definition approval_id :: "u64 \<Rightarrow> rstr" where
  "approval_id n = lit ''approval-'' @ dec (unat n)"

abbreviation wt_id :: "waiting \<Rightarrow> rstr" where
  "wt_id w \<equiv> aq_id (wt_request w)"

definition hub_pending :: "prompt_hub \<Rightarrow> agent_approval_request list" where
  "hub_pending h = map wt_request (filter (\<lambda>w. \<not> wt_answered w) (hb_pending h))"

definition hub_publish :: "prompt_hub \<Rightarrow> prompt_hub" where
  "hub_publish h = h\<lparr>hb_shown := hub_pending h\<rparr>"

definition hub_forget :: "rstr \<Rightarrow> prompt_hub \<Rightarrow> prompt_hub" where
  "hub_forget i h = h\<lparr>hb_pending := filter (\<lambda>w. wt_id w \<noteq> i) (hb_pending h)\<rparr>"

text \<open>\<open>try_send\<close> on a channel of one place.\<close>

definition try_send :: "rstr \<Rightarrow> agent_approval_answer \<Rightarrow> (rstr \<Rightarrow> agent_approval_answer option) \<Rightarrow> bool \<times> (rstr \<Rightarrow> agent_approval_answer option)" where
  "try_send i answer ch = (if ch i = None then (True, ch(i := Some answer)) else (False, ch))"

definition answer_gone :: app_error where
  "answer_gone = AE_NotFound (lit ''that request was already answered or has expired'')"

fun mark_answered :: "rstr \<Rightarrow> waiting list \<Rightarrow> waiting list option" where
  "mark_answered i [] = None"
| "mark_answered i (w # ws) =
     (if wt_id w = i \<and> \<not> wt_answered w then Some (w\<lparr>wt_answered := True\<rparr> # ws) else map_option ((#) w) (mark_answered i ws))"

definition hub_resolve :: "rstr \<Rightarrow> agent_approval_answer \<Rightarrow> prompt_hub \<Rightarrow> (app_error + unit) \<times> prompt_hub" where
  "hub_resolve i answer h =
     (case mark_answered i (hb_pending h) of
        None \<Rightarrow> (Inl answer_gone, h)
      | Some ws \<Rightarrow>
          (case try_send i answer (hb_channel h) of
             (True, ch) \<Rightarrow> (Inr (), h\<lparr>hb_pending := ws, hb_channel := ch, hb_accepted := (i, answer) # hb_accepted h\<rparr>)
           | (False, _) \<Rightarrow> (Inl answer_gone, h\<lparr>hb_pending := ws\<rparr>)))"

definition hub_deny_all :: "prompt_hub \<Rightarrow> prompt_hub" where
  "hub_deny_all h = h\<lparr>hb_pending := [], hb_channel := fold (\<lambda>w ch. snd (try_send (wt_id w) answer_default ch)) (hb_pending h) (hb_channel h)\<rparr>"

text \<open>Whether a new request has come to the head of the list; only then is the window brought to the front.\<close>

definition note_head :: "rstr option \<Rightarrow> agent_approval_request list \<Rightarrow> bool \<times> rstr option" where
  "note_head shown requests =
     (let head = (case requests of [] \<Rightarrow> None | r # _ \<Rightarrow> Some (aq_id r)) in (head \<noteq> None \<and> shown \<noteq> head, head))"

section \<open>The threads\<close>

definition progress :: "rstr \<Rightarrow> ask_progress \<Rightarrow> prompt_hub \<Rightarrow> prompt_hub" where
  "progress i pc h = h\<lparr>hb_asks := (hb_asks h)(i \<mapsto> pc)\<rparr>"

text \<open>
  A thread takes a number, lists its request, tells the window, waits for an answer or until its time is over, takes its request
  off the list, looks at the channel once more if it had none, tells the window and returns. A window that panics unwinds the
  thread, which takes its request off the list. Numbers do not wrap around within one run.
\<close>

inductive hub_step :: "prompt_hub \<Rightarrow> prompt_hub \<Rightarrow> bool" where
  number: "hb_next_id h < u64_max \<Longrightarrow> i = approval_id (hb_next_id h + 1) \<Longrightarrow>
     hub_step h (progress i (AP_Numbered (r\<lparr>aq_id := i\<rparr>)) (h\<lparr>hb_next_id := hb_next_id h + 1\<rparr>))"
| enlist: "hb_asks h i = Some (AP_Numbered r) \<Longrightarrow>
     hub_step h (progress i AP_Listed (h\<lparr>hb_pending := hb_pending h @ [\<lparr>wt_request = r, wt_answered = False\<rparr>]\<rparr>))"
| announce: "hb_asks h i = Some AP_Listed \<Longrightarrow> hub_step h (progress i AP_Waiting (hub_publish h))"
| receive: "hb_asks h i = Some AP_Waiting \<Longrightarrow> hb_channel h i = Some answer \<Longrightarrow>
     hub_step h (progress i (AP_Leaving (Some answer)) (h\<lparr>hb_channel := (hb_channel h)(i := None)\<rparr>))"
| time_out: "hb_asks h i = Some AP_Waiting \<Longrightarrow> hb_channel h i = None \<Longrightarrow> hub_step h (progress i (AP_Leaving None) h)"
| leave: "hb_asks h i = Some (AP_Leaving r) \<Longrightarrow> hub_step h (progress i (AP_Left r) (hub_forget i h))"
| look_again: "hb_asks h i = Some (AP_Left r) \<Longrightarrow>
     hub_step h (progress i (AP_Telling (if r = None then hb_channel h i else r)) (h\<lparr>hb_channel := (if r = None then (hb_channel h)(i := None) else hb_channel h)\<rparr>))"
| tell: "hb_asks h i = Some (AP_Telling r) \<Longrightarrow> hub_step h (progress i (AP_Returned r) (hub_publish h))"
| unwind: "hb_asks h i = Some AP_Listed \<or> hb_asks h i = Some (AP_Telling r) \<Longrightarrow> hub_step h (progress i AP_Unwound (hub_forget i h))"
| resolve: "hub_step h (snd (hub_resolve i answer h))"
| deny: "hub_step h (hub_deny_all h)"

inductive_cases hub_stepE: "hub_step h h'"

section \<open>The invariant\<close>

text \<open>The answer a thread has or will find, and the ones that wait for it.\<close>

fun answer_in :: "ask_progress \<Rightarrow> agent_approval_answer option \<Rightarrow> agent_approval_answer option" where
  "answer_in (AP_Leaving r) c = (if r = None then c else r)"
| "answer_in (AP_Left r) c = (if r = None then c else r)"
| "answer_in (AP_Telling r) c = r"
| "answer_in (AP_Returned r) c = r"
| "answer_in AP_Unwound c = None"
| "answer_in _ c = c"

fun may_be_listed :: "ask_progress \<Rightarrow> bool" where
  "may_be_listed AP_Listed = True"
| "may_be_listed AP_Waiting = True"
| "may_be_listed (AP_Leaving r) = True"
| "may_be_listed _ = False"

fun may_be_shown :: "ask_progress \<Rightarrow> bool" where
  "may_be_shown (AP_Numbered r) = False"
| "may_be_shown (AP_Returned r) = False"
| "may_be_shown _ = True"

definition entries_of :: "rstr \<Rightarrow> waiting list \<Rightarrow> bool list" where
  "entries_of i ws = map wt_answered (filter (\<lambda>w. wt_id w = i) ws)"

text \<open>
  One request: its entries in the list, its progress, its channel and the answers reported as accepted. It is listed once at most and
  only while its thread has not left; it is unanswered only while there is no answer for it; every accepted answer is the answer of the thread,
  unless that unwound; and an answer is an accepted one or the denial of a closed window.
\<close>

definition thread_ok :: "bool list \<Rightarrow> ask_progress option \<Rightarrow> agent_approval_answer option \<Rightarrow> agent_approval_answer set \<Rightarrow> bool" where
  "thread_ok es pc c acc \<longleftrightarrow>
     (case pc of
        None \<Rightarrow> es = [] \<and> c = None \<and> acc = {}
      | Some pc \<Rightarrow>
          (es = [] \<or> may_be_listed pc \<and> (es = [True] \<or> es = [False] \<and> answer_in pc c = None))
          \<and> (\<forall>a \<in> acc. pc = AP_Unwound \<or> answer_in pc c = Some a)
          \<and> (\<forall>a. answer_in pc c = Some a \<longrightarrow> a \<in> acc \<or> a = answer_default)
          \<and> (case pc of AP_Numbered r \<Rightarrow> c = None | _ \<Rightarrow> True))"

definition accepted_for :: "rstr \<Rightarrow> (rstr \<times> agent_approval_answer) list \<Rightarrow> agent_approval_answer set" where
  "accepted_for i acc = {a. (i, a) \<in> set acc}"

definition threads_ok :: "prompt_hub \<Rightarrow> bool" where
  "threads_ok h \<longleftrightarrow> (\<forall>i. thread_ok (entries_of i (hb_pending h)) (hb_asks h i) (hb_channel h i) (accepted_for i (hb_accepted h)))"

definition numbers_ok :: "prompt_hub \<Rightarrow> bool" where
  "numbers_ok h \<longleftrightarrow> (\<forall>i. hb_asks h i \<noteq> None \<longrightarrow> (\<exists>n. i = approval_id n \<and> n \<le> hb_next_id h))
     \<and> (\<forall>i r. hb_asks h i = Some (AP_Numbered r) \<longrightarrow> aq_id r = i)"

definition shown_ok :: "prompt_hub \<Rightarrow> bool" where
  "shown_ok h \<longleftrightarrow> (\<forall>r \<in> set (hb_shown h). \<exists>pc. hb_asks h (aq_id r) = Some pc \<and> may_be_shown pc)"

definition hub_ok :: "prompt_hub \<Rightarrow> bool" where
  "hub_ok h \<longleftrightarrow> threads_ok h \<and> numbers_ok h \<and> shown_ok h"

lemma hub_ok_default: "hub_ok hub_default"
  by (simp add: hub_ok_def threads_ok_def numbers_ok_def shown_ok_def thread_ok_def entries_of_def accepted_for_def hub_default_def)

lemma approval_id_inject [simp]: "approval_id m = approval_id n \<longleftrightarrow> m = n"
  by (metis approval_id_def append_eq_append_conv parse_digits_dec unsigned_word_eqI)

lemma hub_simps [simp]:
  "hb_pending (progress i pc h) = hb_pending h" "hb_next_id (progress i pc h) = hb_next_id h" "hb_channel (progress i pc h) = hb_channel h"
  "hb_asks (progress i pc h) = (hb_asks h)(i \<mapsto> pc)" "hb_shown (progress i pc h) = hb_shown h" "hb_accepted (progress i pc h) = hb_accepted h"
  "hb_pending (hub_forget i h) = filter (\<lambda>w. wt_id w \<noteq> i) (hb_pending h)" "hb_next_id (hub_forget i h) = hb_next_id h"
  "hb_channel (hub_forget i h) = hb_channel h" "hb_asks (hub_forget i h) = hb_asks h" "hb_shown (hub_forget i h) = hb_shown h"
  "hb_accepted (hub_forget i h) = hb_accepted h"
  "hb_pending (hub_publish h) = hb_pending h" "hb_next_id (hub_publish h) = hb_next_id h" "hb_channel (hub_publish h) = hb_channel h"
  "hb_asks (hub_publish h) = hb_asks h" "hb_shown (hub_publish h) = hub_pending h" "hb_accepted (hub_publish h) = hb_accepted h"
  by (simp_all add: progress_def hub_forget_def hub_publish_def)

lemma next_number: "n < u64_max \<Longrightarrow> n < n + 1"
proof -
  assume n: "n < u64_max"
  then have "1 + n \<noteq> 0" by (metis add_eq_0_iff less_irrefl minus_equation_iff u64_max_def)
  then show ?thesis using unatSuc [of n] by (simp add: word_less_nat_alt add.commute)
qed

lemma number_fresh: "numbers_ok h \<Longrightarrow> hb_next_id h < u64_max \<Longrightarrow> hb_asks h (approval_id (hb_next_id h + 1)) = None"
  using next_number [of "hb_next_id h"] by (fastforce simp: numbers_ok_def)

text \<open>A step of one thread.\<close>

lemma threads_ok_update:
  assumes "threads_ok h" "hb_asks h' = (hb_asks h)(i \<mapsto> pc)"
    "\<And>j. j \<noteq> i \<Longrightarrow> entries_of j (hb_pending h') = entries_of j (hb_pending h) \<and> hb_channel h' j = hb_channel h j" "hb_accepted h' = hb_accepted h"
    "thread_ok (entries_of i (hb_pending h)) (hb_asks h i) (hb_channel h i) (accepted_for i (hb_accepted h)) \<Longrightarrow>
      thread_ok (entries_of i (hb_pending h')) (Some pc) (hb_channel h' i) (accepted_for i (hb_accepted h))"
  shows "threads_ok h'"
  using assms unfolding threads_ok_def by (metis fun_upd_apply)

lemma entries_simps [simp]:
  "entries_of i [] = []" "entries_of i (ws @ [w]) = entries_of i ws @ (if wt_id w = i then [wt_answered w] else [])"
  "entries_of i (filter (\<lambda>w. wt_id w \<noteq> j) ws) = (if i = j then [] else entries_of i ws)"
  by (auto simp: entries_of_def filter_empty_conv intro!: arg_cong [of _ _ "map wt_answered"] filter_cong)

text \<open>An answer, and the closing of the window.\<close>

lemma mark_answered_entries:
  "mark_answered i ws = Some ws' \<Longrightarrow> j \<noteq> i \<Longrightarrow> entries_of j ws' = entries_of j ws"
  "mark_answered i ws = Some ws' \<Longrightarrow> \<exists>xs ys. entries_of i ws = xs @ False # ys \<and> entries_of i ws' = xs @ True # ys"
proof (induction ws arbitrary: ws')
  case (Cons w ws)
  {
    case 1
    with Cons show ?case by (auto simp: entries_of_def split: if_splits)
  next
    case 2
    show ?case
    proof (cases "wt_id w = i \<and> \<not> wt_answered w")
      case True
      with 2 have "entries_of i (w # ws) = [] @ False # entries_of i ws" "entries_of i ws' = [] @ True # entries_of i ws"
        by (auto simp: entries_of_def)
      then show ?thesis by blast
    next
      case False
      with 2 obtain vs where "mark_answered i ws = Some vs" "ws' = w # vs" by auto
      with Cons.IH(2) obtain xs ys where "entries_of i ws = xs @ False # ys" "entries_of i vs = xs @ True # ys" by blast
      with \<open>ws' = w # vs\<close> show ?thesis
        by (cases "wt_id w = i") (auto simp: entries_of_def intro: exI [of _ "wt_answered w # xs"] exI [of _ xs])
    qed
  }
qed simp_all

lemma threads_ok_resolve:
  assumes "threads_ok h" shows "threads_ok (snd (hub_resolve i answer h))"
proof (cases "mark_answered i (hb_pending h)")
  case None
  with assms show ?thesis by (simp add: hub_resolve_def)
next
  case (Some ws)
  have own: "thread_ok (entries_of i (hb_pending h)) (hb_asks h i) (hb_channel h i) (accepted_for i (hb_accepted h))"
    using assms by (simp add: threads_ok_def)
  obtain xs ys where "entries_of i (hb_pending h) = xs @ False # ys" "entries_of i ws = xs @ True # ys"
    using mark_answered_entries(2) [OF Some] by blast
  with own obtain pc where e: "entries_of i ws = [True]" "entries_of i (hb_pending h) = [False]" and pc: "hb_asks h i = Some pc" "may_be_listed pc"
    "answer_in pc (hb_channel h i) = None"
    by (auto simp: thread_ok_def append_eq_Cons_conv split: option.splits)
  then have c: "hb_channel h i = None" by (cases pc) (auto split: if_splits)
  have "thread_ok (entries_of j ws) (hb_asks h j) (((hb_channel h)(i := Some answer)) j) (accepted_for j ((i, answer) # hb_accepted h))" for j
  proof (cases "j = i")
    case True
    with own e pc c show ?thesis by (cases pc) (auto simp: thread_ok_def accepted_for_def split: if_splits)
  next
    case False
    with assms mark_answered_entries(1) [OF Some] show ?thesis by (simp add: threads_ok_def accepted_for_def)
  qed
  then show ?thesis using Some c by (simp add: hub_resolve_def try_send_def threads_ok_def)
qed

lemma deny_channel:
  "fold (\<lambda>w ch. snd (try_send (wt_id w) answer_default ch)) ws ch i =
     (if ch i = None \<and> entries_of i ws \<noteq> [] then Some answer_default else ch i)"
  by (induction ws arbitrary: ch) (auto simp: entries_of_def try_send_def)

lemma threads_ok_deny:
  assumes "threads_ok h" shows "threads_ok (hub_deny_all h)"
proof -
  have "thread_ok [] (hb_asks h i) (if hb_channel h i = None \<and> entries_of i (hb_pending h) \<noteq> [] then Some answer_default else hb_channel h i)
      (accepted_for i (hb_accepted h))" for i
  proof (cases "hb_asks h i")
    case None
    with assms show ?thesis by (auto simp: threads_ok_def thread_ok_def dest!: spec [of _ i])
  next
    case (Some pc)
    with assms show ?thesis
      by (cases pc) (auto simp: threads_ok_def thread_ok_def dest!: spec [of _ i] split: if_splits)
  qed
  then show ?thesis by (simp add: threads_ok_def hub_deny_all_def deny_channel)
qed

text \<open>The steps of the threads keep the list, the numbers and what is shown in order.\<close>

lemma threads_ok_step: "hub_step h h' \<Longrightarrow> threads_ok h \<Longrightarrow> numbers_ok h \<Longrightarrow> threads_ok h'"
proof (induction rule: hub_step.induct)
  case (number h i r)
  then have "hb_asks h i = None" by (simp add: number_fresh)
  with number show ?case by - (rule threads_ok_update [of h _ i "AP_Numbered (r\<lparr>aq_id := i\<rparr>)"], auto simp: thread_ok_def)
next
  case (enlist h i r)
  then have "aq_id r = i" by (simp add: numbers_ok_def)
  with enlist show ?case by - (rule threads_ok_update [of h _ i "AP_Listed"], auto simp: thread_ok_def)
next
  case (announce h i)
  then show ?case by - (rule threads_ok_update [of h _ i "AP_Waiting"], auto simp: thread_ok_def)
next
  case (receive h i answer)
  then show ?case by - (rule threads_ok_update [of h _ i "AP_Leaving (Some answer)"], auto simp: thread_ok_def)
next
  case (time_out h i)
  then show ?case by - (rule threads_ok_update [of h _ i "AP_Leaving None"], auto simp: thread_ok_def)
next
  case (leave h i r)
  then show ?case by - (rule threads_ok_update [of h _ i "AP_Left r"], auto simp: thread_ok_def)
next
  case (look_again h i r)
  then show ?case by - (rule threads_ok_update [of h _ i "AP_Telling (if r = None then hb_channel h i else r)"], auto simp: thread_ok_def)
next
  case (tell h i r)
  then show ?case by - (rule threads_ok_update [of h _ i "AP_Returned r"], auto simp: thread_ok_def)
next
  case (unwind h i r)
  then show ?case by - (rule threads_ok_update [of h _ i "AP_Unwound"], auto simp: thread_ok_def)
next
  case (resolve h i answer)
  then show ?case by (simp add: threads_ok_resolve)
next
  case (deny h)
  then show ?case by (simp add: threads_ok_deny)
qed

lemma hub_asks_simps [simp]:
  "hb_asks (snd (hub_resolve i answer h)) = hb_asks h" "hb_next_id (snd (hub_resolve i answer h)) = hb_next_id h"
  "hb_shown (snd (hub_resolve i answer h)) = hb_shown h" "hb_asks (hub_deny_all h) = hb_asks h" "hb_next_id (hub_deny_all h) = hb_next_id h"
  "hb_shown (hub_deny_all h) = hb_shown h"
  by (simp_all add: hub_resolve_def hub_deny_all_def try_send_def split: option.split)

lemma numbers_ok_step: "hub_step h h' \<Longrightarrow> numbers_ok h \<Longrightarrow> numbers_ok h'"
proof (induction rule: hub_step.induct)
  case (number h i r)
  then have "n \<le> hb_next_id h \<Longrightarrow> n \<le> hb_next_id h + 1" for n using next_number [of "hb_next_id h"] by simp
  with number show ?case by (fastforce simp: numbers_ok_def)
qed (auto simp: numbers_ok_def)

lemma pending_listed:
  assumes "threads_ok h" "r \<in> set (hub_pending h)"
  shows "\<exists>pc. hb_asks h (aq_id r) = Some pc \<and> may_be_listed pc"
proof -
  from assms(2) have "entries_of (aq_id r) (hb_pending h) \<noteq> []" by (auto simp: hub_pending_def entries_of_def filter_empty_conv)
  with assms(1) show ?thesis by (auto simp: threads_ok_def thread_ok_def dest!: spec [of _ "aq_id r"] split: option.splits)
qed

lemma listed_shown: "may_be_listed pc \<Longrightarrow> may_be_shown pc"
  by (cases pc) auto

lemma shown_ok_step: "hub_step h h' \<Longrightarrow> threads_ok h \<Longrightarrow> numbers_ok h \<Longrightarrow> shown_ok h \<Longrightarrow> shown_ok h'"
proof (induction rule: hub_step.induct)
  case (number h i r)
  then show ?case using number_fresh [of h] by (fastforce simp: shown_ok_def)
next
  case (announce h i)
  then show ?case using pending_listed [of h] listed_shown by (fastforce simp: shown_ok_def)
next
  case (tell h i r)
  then show ?case using pending_listed [of h] listed_shown by (fastforce simp: shown_ok_def)
qed (auto simp: shown_ok_def)

definition hub_reachable :: "prompt_hub \<Rightarrow> bool" where
  "hub_reachable = hub_step\<^sup>*\<^sup>* hub_default"

lemma hub_reachable_ok: "hub_reachable h \<Longrightarrow> hub_ok h"
  unfolding hub_reachable_def
proof (induction rule: rtranclp_induct)
  case base
  then show ?case by (rule hub_ok_default)
next
  case (step h h')
  then show ?case using threads_ok_step numbers_ok_step shown_ok_step by (simp add: hub_ok_def)
qed

text \<open>
  C12. In every interleaving of the threads that ask, the answers of the window and its closing: an answer that was reported as
  accepted is the one its thread returns, never lost at the end of the waiting time nor replaced by a second one; a thread that returns
  an answer returns an accepted one or the refusal of a closed window; and a request is shown in the window, as it was told last, only
  while the thread that asks has not returned.
\<close>
theorem accepted_answers_count:
  assumes "hub_reachable h"
  shows "(\<forall>i a r. (i, a) \<in> set (hb_accepted h) \<longrightarrow> hb_asks h i = Some (AP_Returned r) \<longrightarrow> r = Some a)
    \<and> (\<forall>i a. hb_asks h i = Some (AP_Returned (Some a)) \<longrightarrow> (i, a) \<in> set (hb_accepted h) \<or> a = answer_default)
    \<and> (\<forall>q r. q \<in> set (hb_shown h) \<longrightarrow> hb_asks h (aq_id q) \<noteq> Some (AP_Returned r))"
proof -
  have ok: "threads_ok h" "shown_ok h" using hub_reachable_ok [OF assms] by (simp_all add: hub_ok_def)
  have "thread_ok (entries_of i (hb_pending h)) (Some (AP_Returned r)) (hb_channel h i) (accepted_for i (hb_accepted h))"
    if "hb_asks h i = Some (AP_Returned r)" for i r
    using ok(1) that by (metis threads_ok_def)
  then have thread: "(\<forall>a. (i, a) \<in> set (hb_accepted h) \<longrightarrow> r = Some a) \<and> (\<forall>a. r = Some a \<longrightarrow> (i, a) \<in> set (hb_accepted h) \<or> a = answer_default)"
    if "hb_asks h i = Some (AP_Returned r)" for i r
    using that by (simp add: thread_ok_def accepted_for_def)
  moreover have "hb_asks h (aq_id q) \<noteq> Some (AP_Returned r)" if "q \<in> set (hb_shown h)" for q r
    using ok(2) that by (auto simp: shown_ok_def)
  ultimately show ?thesis by blast
qed

text \<open>An answer that comes when the waiting time is just over.\<close>

definition late_answer :: agent_approval_answer where
  "late_answer = answer_default\<lparr>aa_allow := True\<rparr>"

definition late_request :: agent_approval_request where
  "late_request = \<lparr>aq_id = approval_id 1, aq_key_name = [], aq_key_fingerprint = [], aq_program_chain = [], aq_user = None, aq_host = None,
     aq_host_fingerprint = None, aq_rememberable = False, aq_remember_minutes = 15, aq_needs_passphrase = False, aq_passphrase_error = None, aq_preapproved = False\<rparr>"

definition late_listed :: prompt_hub where
  "late_listed = progress (approval_id 1) AP_Listed
     (progress (approval_id 1) (AP_Numbered late_request) (hub_default\<lparr>hb_next_id := 1\<rparr>)\<lparr>hb_pending := [\<lparr>wt_request = late_request, wt_answered = False\<rparr>]\<rparr>)"

definition late_left :: prompt_hub where
  "late_left = progress (approval_id 1) (AP_Left None) (hub_forget (approval_id 1)
     (snd (hub_resolve (approval_id 1) late_answer (progress (approval_id 1) (AP_Leaving None) (progress (approval_id 1) AP_Waiting (hub_publish late_listed))))))"

lemma reachable_step: "hub_reachable h \<Longrightarrow> hub_step h h' \<Longrightarrow> hub_reachable h'"
  unfolding hub_reachable_def by (rule rtranclp.rtrancl_into_rtrancl)

lemma late_listed_reachable: "hub_reachable late_listed"
proof -
  have "hub_step hub_default (progress (approval_id 1) (AP_Numbered late_request) (hub_default\<lparr>hb_next_id := 1\<rparr>))"
    using hub_step.number [of hub_default "approval_id 1" late_request] by (simp add: hub_default_def u64_max_def late_request_def word_gt_0)
  then have "hub_reachable (progress (approval_id 1) (AP_Numbered late_request) (hub_default\<lparr>hb_next_id := 1\<rparr>))"
    by (rule reachable_step [rotated]) (simp add: hub_reachable_def)
  then show ?thesis
    by (rule reachable_step) (simp add: late_listed_def, rule hub_step.enlist [where i = "approval_id 1" and r = late_request, THEN back_subst [where P = "hub_step _"]], simp_all add: hub_default_def)
qed

lemma late_left_reachable: "hub_reachable late_left"
  unfolding late_left_def
  by (rule reachable_step [OF _ hub_step.leave], rule reachable_step [OF _ hub_step.resolve], rule reachable_step [OF _ hub_step.time_out],
      rule reachable_step [OF late_listed_reachable hub_step.announce]) (simp_all add: late_listed_def hub_default_def)

lemma late_left_holds:
  "hb_asks late_left (approval_id 1) = Some (AP_Left None)" "hb_channel late_left (approval_id 1) = Some late_answer"
  "(approval_id 1, late_answer) \<in> set (hb_accepted late_left)"
  by (simp_all add: late_left_def late_listed_def hub_resolve_def try_send_def hub_default_def late_request_def)

theorem accepted_answers_count_witness:
  "\<exists>h r. hub_reachable h \<and> hb_asks h (approval_id 1) = Some (AP_Returned r) \<and> r = Some late_answer"
proof -
  define told where "told = progress (approval_id 1) (AP_Telling (Some late_answer)) (late_left\<lparr>hb_channel := (hb_channel late_left)(approval_id 1 := None)\<rparr>)"
  have "hub_reachable told"
    using reachable_step [OF late_left_reachable hub_step.look_again [OF late_left_holds(1)]] late_left_holds(2) by (simp add: told_def)
  moreover define last where "last = progress (approval_id 1) (AP_Returned (Some late_answer)) (hub_publish told)"
  ultimately have returned: "hub_reachable last"
    using reachable_step [OF _ hub_step.tell [of told "approval_id 1" "Some late_answer"]] by (simp add: told_def)
  have "(approval_id 1, late_answer) \<in> set (hb_accepted last)" by (simp add: last_def told_def late_left_holds)
  moreover obtain r where r: "hb_asks last (approval_id 1) = Some (AP_Returned r)" by (simp add: last_def)
  ultimately have "r = Some late_answer" using conjunct1 [OF accepted_answers_count [OF returned]] by blast
  with returned r show ?thesis by blast
qed

end
