(* ===== verification/Agent_Properties.thy ===== *)
theory Agent_Properties
  imports Agent_Broker
begin

text \<open>
  What the SSH agent guarantees: it signs only with the key that was asked for and only what was approved, an approval is
  remembered only as a person wished it, and a request opens a bounded number of windows.
\<close>

section \<open>The log of a request\<close>

text \<open>A person allowed the request in a window that showed its key, its host and its program.\<close>

definition allowed_by :: "'k ask \<Rightarrow> agent_event set \<Rightarrow> bool" where
  "allowed_by a E \<longleftrightarrow> (\<exists>needs rem ans. GE_Asked (prompt_of a False needs rem None) (Some ans) \<in> E \<and> aa_allow ans)"

definition hit_on :: "approval_key \<Rightarrow> agent_event set \<Rightarrow> bool" where
  "hit_on k E \<longleftrightarrow> (\<exists>now. GE_Hit k now \<in> E)"

definition remembered_by :: "'k ask \<Rightarrow> approval_key \<Rightarrow> u64 \<Rightarrow> agent_event set \<Rightarrow> bool" where
  "remembered_by a k e E \<longleftrightarrow> approval_key_of a = Some k \<and> (\<exists>now. e = expiry now (ak_minutes a))
     \<and> (\<exists>needs ans. GE_Asked (prompt_of a False needs True None) (Some ans) \<in> E \<and> aa_allow ans \<and> aa_remember ans)"

definition approved_in :: "agent_settings \<Rightarrow> 'k ask \<Rightarrow> agent_event set \<Rightarrow> bool" where
  "approved_in settings a E \<longleftrightarrow> allowed_by a E
     \<or> (\<exists>k. approval_key_of a = Some k \<and> \<not> ag_always_ask settings \<and> (hit_on k E \<or> GE_Waited k True \<in> E))"

fun agent_reason :: "agent_settings \<Rightarrow> 'k ask \<Rightarrow> agent_event list \<Rightarrow> agent_event \<Rightarrow> bool" where
  "agent_reason settings a before (GE_Remembered k e) = (\<not> ag_always_ask settings \<and> remembered_by a k e (set before))"
| "agent_reason settings a before (GE_Finished k allowed) = (allowed \<longrightarrow> allowed_by a (set before) \<or> hit_on k (set before))"
| "agent_reason settings a before _ = True"

lemma agent_fact_mono: "mono (allowed_by a)" "mono (hit_on k)" "mono (remembered_by a k e)"
  unfolding allowed_by_def [abs_def] hit_on_def [abs_def] remembered_by_def [abs_def] by (intro fact_mono)+

text \<open>The entries another connection puts into the cache.\<close>

definition by_others :: "('k, 'm) agent_host \<Rightarrow> approval_key \<Rightarrow> u64 \<Rightarrow> bool" where
  "by_others N k e \<longleftrightarrow> (\<exists>n b. bk_approvals (ah_others N n b) k = Some e \<and> bk_approvals b k \<noteq> Some e)"

definition accounted :: "('k, 'm) agent_host \<Rightarrow> (approval_key \<Rightarrow> u64 \<Rightarrow> bool) \<Rightarrow> 'm broker \<Rightarrow> agent_event set \<Rightarrow> bool" where
  "accounted N J b E \<longleftrightarrow> (\<forall>k e. bk_approvals b k = Some e \<longrightarrow> J k e \<or> by_others N k e \<or> GE_Remembered k e \<in> E)"

definition orderly :: "('k, 'm) agent_host \<Rightarrow> (approval_key \<Rightarrow> u64 \<Rightarrow> bool) \<Rightarrow> agent_settings \<Rightarrow> 'k ask \<Rightarrow> 'm agent_state \<Rightarrow> bool" where
  "orderly N J settings a st \<longleftrightarrow> explained_by (agent_reason settings a) (as_log st) \<and> accounted N J (as_broker st) (set (as_log st))"

definition steers :: "('k, 'm) agent_host \<Rightarrow> (approval_key \<Rightarrow> u64 \<Rightarrow> bool) \<Rightarrow> agent_settings \<Rightarrow> 'k ask \<Rightarrow> (agent_event set \<Rightarrow> bool) \<Rightarrow> ('m, 'b) agent_act
    \<Rightarrow> ('b \<Rightarrow> agent_event set \<Rightarrow> bool) \<Rightarrow> bool" where
  "steers N J settings a P m Q \<longleftrightarrow>
     (\<forall>st r st'. orderly N J settings a st \<longrightarrow> P (set (as_log st)) \<longrightarrow> m st = (r, st') \<longrightarrow>
        orderly N J settings a st' \<and> set (as_log st) \<subseteq> set (as_log st') \<and> (\<forall>x. r = Some x \<longrightarrow> Q x (set (as_log st'))))"

text \<open>The rules of this logic, for a host, a request and the entries there were before.\<close>

locale request_log =
  fixes N :: "('k, 'm) agent_host" and J :: "approval_key \<Rightarrow> u64 \<Rightarrow> bool" and settings :: agent_settings and a :: "'k ask"
begin

abbreviation told :: "(agent_event set \<Rightarrow> bool) \<Rightarrow> ('m, 'b) agent_act \<Rightarrow> ('b \<Rightarrow> agent_event set \<Rightarrow> bool) \<Rightarrow> bool" where
  "told \<equiv> steers N J settings a"

lemma told_bind:
  assumes "told P m Q" "\<And>x. told (Q x) (f x) R"
  shows "told P (try_bind m f) R"
  unfolding steers_def
proof (intro allI impI)
  fix st r st'
  assume *: "orderly N J settings a st" "P (set (as_log st))" "try_bind m f st = (r, st')"
  obtain y q where y: "m st = (y, q)" by force
  with assms(1) * have q: "orderly N J settings a q" "set (as_log st) \<subseteq> set (as_log q)" "\<And>x. y = Some x \<Longrightarrow> Q x (set (as_log q))"
    unfolding steers_def by blast+
  show "orderly N J settings a st' \<and> set (as_log st) \<subseteq> set (as_log st') \<and> (\<forall>x. r = Some x \<longrightarrow> R x (set (as_log st')))"
  proof (cases y)
    case None
    with * y q show ?thesis by (auto simp: try_bind_def)
  next
    case (Some x)
    with * y have "f x q = (r, st')" by (simp add: try_bind_def)
    with assms(2) [of x] q Some show ?thesis unfolding steers_def by blast
  qed
qed

lemma told_weaken: "told P m Q \<Longrightarrow> (\<And>E. P' E \<Longrightarrow> P E) \<Longrightarrow> (\<And>x E. Q x E \<Longrightarrow> Q' x E) \<Longrightarrow> told P' m Q'"
  unfolding steers_def by blast

lemma told_return: "(\<And>E. P E \<Longrightarrow> Q x E) \<Longrightarrow> told P (try_return x) Q"
  by (simp add: steers_def try_return_def)

lemma told_refuse: "told P refuse Q"
  by (simp add: steers_def refuse_def)

lemma told_host: "told P (on_host f) (\<lambda>_. P)"
  by (auto simp: steers_def on_host_def orderly_def)

text \<open>An access that puts nothing into the cache.\<close>

lemma told_locked:
  assumes "\<And>b x b' k e. f b = (x, b') \<Longrightarrow> bk_approvals b' k = Some e \<Longrightarrow> bk_approvals b k = Some e"
  shows "told P (locked N f) (\<lambda>_. P)"
  using assms unfolding steers_def locked_def orderly_def accounted_def
  by (fastforce simp: by_others_def split: prod.splits)

lemma told_note:
  assumes "mono P" "\<And>log. P (set log) \<Longrightarrow> agent_reason settings a log ev"
  shows "told P (note_event ev) (\<lambda>_ E. ev \<in> E \<and> P E)"
  using assms(2) fact_insert [OF assms(1)] by (auto simp: steers_def note_event_def orderly_def accounted_def)

lemma told_if: "(c \<Longrightarrow> told P m Q) \<Longrightarrow> (\<not> c \<Longrightarrow> told P m' Q) \<Longrightarrow> told P (if c then m else m') Q"
  by simp

lemma told_option: "(x = None \<Longrightarrow> told P m Q) \<Longrightarrow> (\<And>y. x = Some y \<Longrightarrow> told P (f y) Q) \<Longrightarrow> told P (case x of None \<Rightarrow> m | Some y \<Rightarrow> f y) Q"
  by (cases x) simp_all

lemma told_sum: "(\<And>e. told P (f e) Q) \<Longrightarrow> (\<And>y. told P (g y) Q) \<Longrightarrow> told P (case x of Inl e \<Rightarrow> f e | Inr y \<Rightarrow> g y) Q"
  by (cases x) simp_all

lemma told_open_error: "told P m1 Q \<Longrightarrow> told P m2 Q \<Longrightarrow> (\<And>c. told P (m3 c) Q) \<Longrightarrow> told P m4 Q
    \<Longrightarrow> told P (case e of OE_NeedsPassphrase \<Rightarrow> m1 | OE_WrongPassphrase \<Rightarrow> m2 | OE_UnsupportedCipher c \<Rightarrow> m3 c | OE_Unreadable \<Rightarrow> m4) Q"
  by (cases e) simp_all

lemma told_ask:
  assumes "mono P"
  shows "told P (ask_person N p) (\<lambda>answer E. GE_Asked p (Some answer) \<in> E \<and> P E)"
  unfolding ask_person_def
  by (rule told_bind [OF told_host], rule told_bind [OF told_note [OF assms]], simp, rule told_option, rule told_refuse, rule told_return, simp)

text \<open>Opening a key keeps every fact.\<close>

lemma told_keep: "told P (try_return x) (\<lambda>_. P)"
  by (rule told_return)

lemmas told_steps = told_keep told_refuse told_host told_if told_option told_sum told_open_error

lemma told_then: "told P m (\<lambda>_. P) \<Longrightarrow> (\<And>x. told P (f x) Q) \<Longrightarrow> told P (try_bind m f) Q"
  by (rule told_bind)

lemma told_cached: "told P (cached_key N a) (\<lambda>_. P)"
  unfolding cached_key_def
  by (rule told_then [OF told_host], rule told_locked) (auto simp: cached_in_def Let_def split: option.splits if_splits)

lemma told_passphrase: "told P (remembered_passphrase N i) (\<lambda>_. P)"
  unfolding remembered_passphrase_def by (intro told_then told_steps)

lemma told_saved: "told P (open_saved N i t) (\<lambda>_. P)"
  unfolding open_saved_def by (intro told_then told_passphrase told_steps)

lemma told_keep_opened: "told P (keep_opened N a m p rem) (\<lambda>_. P)"
  unfolding keep_opened_def by (intro told_then told_steps told_locked) auto

lemma told_typed:
  assumes "mono P" shows "told P (typed_passphrase N a supplied err) (\<lambda>_. P)"
  unfolding typed_passphrase_def
  by (intro told_option told_keep told_bind [OF told_ask [OF assms]] told_if told_refuse told_return) simp

lemma told_rounds: "mono P \<Longrightarrow> told P (passphrase_rounds N a t k supplied err) (\<lambda>_. P)"
proof (induction k arbitrary: supplied err)
  case (Suc k)
  show ?case
    unfolding passphrase_rounds.simps split_beta
    by (intro told_then told_typed told_steps told_keep_opened Suc.IH Suc.prems)
qed (simp add: told_refuse)

lemma told_unlock:
  assumes "mono P" shows "told P (unlock N a supplied) (\<lambda>_. P)"
  unfolding unlock_def by (intro told_then told_steps told_cached told_saved told_rounds assms)

lemma told_needs: "told P (needs_passphrase N a) (\<lambda>_. P)"
  unfolding needs_passphrase_def by (intro told_then told_steps told_cached told_passphrase)

text \<open>Approving.\<close>

lemma told_remember:
  assumes "mono P" "\<not> ag_always_ask settings" "\<And>E e now. P E \<Longrightarrow> e = expiry now (ak_minutes a) \<Longrightarrow> remembered_by a k e E"
  shows "told P (remember_approval N k i (ak_minutes a)) (\<lambda>_. P)"
proof -
  have insert_entry: "told (\<lambda>E. GE_Remembered k (expiry now (ak_minutes a)) \<in> E \<and> P E)
      (locked N (\<lambda>b. ((), b\<lparr>bk_approvals := cache_remember k now (ak_minutes a) (bk_approvals b)\<rparr>))) (\<lambda>_. P)" for now
    unfolding steers_def locked_def orderly_def accounted_def
    by (fastforce simp: by_others_def cache_remember_def split: if_splits)
  show ?thesis
    unfolding remember_approval_def
    by (rule told_bind [OF told_host], rule told_bind [OF told_note [OF assms(1)]], simp add: assms(2,3), rule told_bind [OF insert_entry],
        rule told_locked, auto simp: extend_unlocked_def)
qed

lemma told_ask_and_unlock:
  assumes "mono P" "k = None \<or> k = approval_key_of a \<and> \<not> ag_always_ask settings"
  shows "told P (ask_and_unlock N a k) (\<lambda>_ E. allowed_by a E \<and> P E)"
proof -
  let ?A = "\<lambda>needs ans E. GE_Asked (prompt_of a False needs (k \<noteq> None) None) (Some ans) \<in> E \<and> P E"
  have mono_A: "mono (?A needs ans)" for needs ans using assms(1) by (intro fact_mono)
  have rest: "told (?A needs ans) (try_bind (unlock N a s) (\<lambda>m.
       try_bind (case k of
                   Some k \<Rightarrow> if aa_remember ans then remember_approval N k (ky_slot_id (ak_key a)) (ak_minutes a) else try_return ()
                 | None \<Rightarrow> try_return ()) (\<lambda>_. try_return m))) (\<lambda>_ E. allowed_by a E \<and> P E)" if "aa_allow ans" for needs ans s
  proof (rule told_bind [OF told_unlock [OF mono_A]], rule told_bind [where Q = "\<lambda>_. ?A needs ans"], intro told_option told_if told_return)
    fix k'
    assume k': "k = Some k'" "aa_remember ans"
    show "told (?A needs ans) (remember_approval N k' (ky_slot_id (ak_key a)) (ak_minutes a)) (\<lambda>_. ?A needs ans)"
      by (rule told_remember [OF mono_A]) (use that k' assms(2) in \<open>auto simp: remembered_by_def\<close>)
  qed (use that in \<open>auto simp: allowed_by_def intro!: told_return\<close>)
  show ?thesis
    unfolding ask_and_unlock_def
    by (rule told_bind [OF told_needs], rule told_bind [OF told_ask [OF assms(1)]], intro told_if told_refuse rest) simp
qed

lemma told_is_remembered:
  assumes "mono P"
  shows "told P (is_remembered N k) (\<lambda>hit E. (hit \<longrightarrow> hit_on k E) \<and> P E)"
proof -
  have look: "told P (locked N (\<lambda>b. case cache_is_remembered k now (bk_approvals b) of (hit, c) \<Rightarrow> (hit, b\<lparr>bk_approvals := c\<rparr>))) (\<lambda>_. P)" for now
    by (rule told_locked) (auto simp: cache_is_remembered_def cache_prune_def opt_filter_def Let_def split: option.splits if_splits)
  have note_hit: "told P (if hit then note_event (GE_Hit k now) else try_return ()) (\<lambda>_ E. (hit \<longrightarrow> hit_on k E) \<and> P E)" for hit now
    by (cases hit) (auto simp: hit_on_def intro!: told_return told_weaken [OF told_note [OF assms]])
  show ?thesis
    unfolding is_remembered_def by (intro told_then [OF told_host] told_then [OF look] told_bind [OF note_hit] told_return)
qed

text \<open>One request of several equal ones, and the whole decision.\<close>

lemma told_ending:
  assumes "told P m Q" "\<And>x. mono (Q x)" "\<And>x. told (Q x) (g True) (\<lambda>_ _. True)" "told (\<lambda>_. True) (g False) (\<lambda>_ _. True)"
  shows "told P (ending_with m g) Q"
  unfolding steers_def
proof (intro allI impI)
  fix st r st'
  assume *: "orderly N J settings a st" "P (set (as_log st))" "ending_with m g st = (r, st')"
  obtain y q u where q: "m st = (r, q)" "g (r \<noteq> None) q = (y, u)" "st' = u"
    using * by (cases "m st"; cases "g (fst (m st) \<noteq> None) (snd (m st))") (auto simp: ending_with_def)
  with assms(1) * have q': "orderly N J settings a q" "set (as_log st) \<subseteq> set (as_log q)" "\<And>x. r = Some x \<Longrightarrow> Q x (set (as_log q))"
    unfolding steers_def by blast+
  have u: "orderly N J settings a u \<and> set (as_log q) \<subseteq> set (as_log u)"
  proof (cases r)
    case None
    with assms(4) q q' show ?thesis unfolding steers_def by auto
  next
    case (Some x)
    with assms(3) [of x] q q' show ?thesis unfolding steers_def by auto
  qed
  moreover have "Q x (set (as_log u))" if "r = Some x" for x
    using monoD [OF assms(2) [of x]] q'(3) [OF that] u by (auto simp: le_bool_def)
  ultimately show "orderly N J settings a st' \<and> set (as_log st) \<subseteq> set (as_log st') \<and> (\<forall>x. r = Some x \<longrightarrow> Q x (set (as_log st')))"
    using q q' by auto
qed

lemma told_first_done: "mono P \<Longrightarrow> (\<And>E. P E \<Longrightarrow> allowed \<Longrightarrow> allowed_by a E \<or> hit_on k E) \<Longrightarrow> told P (first_done N k allowed) (\<lambda>_ _. True)"
  unfolding first_done_def by (rule told_then [OF told_locked]) (auto intro!: told_weaken [OF told_note])

lemma told_ask_once:
  assumes "approval_key_of a = Some k" "\<not> ag_always_ask settings"
  shows "told (\<lambda>_. True) (ask_once N a k) (\<lambda>_ E. allowed_by a E \<or> hit_on k E \<or> GE_Waited k True \<in> E)"
proof -
  let ?D = "\<lambda>E. allowed_by a E \<or> hit_on k E"
  have mono_D: "mono ?D" using agent_fact_mono by (intro fact_mono)
  have waited: "told (\<lambda>_. True) (try_bind (note_event (GE_Waited k allowed)) (\<lambda>_. if allowed then unlock N a None else refuse))
      (\<lambda>_ E. GE_Waited k True \<in> E)" for allowed
    by (rule told_bind [OF told_note [of "\<lambda>_. True"]])
      (auto intro!: fact_mono told_refuse told_weaken [OF told_unlock [of "\<lambda>E. GE_Waited k True \<in> E"]])
  have decide: "told (\<lambda>_. True) (try_bind (is_remembered N k) (\<lambda>hit. if hit then unlock N a None else ask_and_unlock N a (Some k))) (\<lambda>_. ?D)"
  proof (rule told_bind [OF told_is_remembered [OF fact_mono(2)]], rule told_if)
    fix hit
    show "told (\<lambda>E. (hit \<longrightarrow> hit_on k E) \<and> True) (unlock N a None) (\<lambda>_. ?D)" if "hit"
      by (rule told_weaken [OF told_unlock [of "hit_on k"]]) (use that in \<open>auto intro: agent_fact_mono\<close>)
    show "told (\<lambda>E. (hit \<longrightarrow> hit_on k E) \<and> True) (ask_and_unlock N a (Some k)) (\<lambda>_. ?D)"
      by (rule told_weaken [OF told_ask_and_unlock [of "\<lambda>_. True"]]) (use assms in \<open>auto intro: fact_mono\<close>)
  qed
  show ?thesis
    unfolding ask_once_def
    by (intro told_then [OF told_locked] told_if told_then [OF told_host] told_weaken [OF waited] told_weaken [OF told_ending [OF decide]] told_first_done mono_D)
      (auto split: if_splits intro: fact_mono)
qed

lemma told_approve: "told (\<lambda>_. True) (approve N a settings) (\<lambda>_. approved_in settings a)"
proof -
  have asked: "told P (ask_and_unlock N a None) (\<lambda>_. approved_in settings a)" for P
    by (rule told_weaken [OF told_ask_and_unlock [of "\<lambda>_. True"]]) (auto simp: approved_in_def fact_mono)
  show ?thesis
  proof (cases "approval_key_of a")
    case None
    have "told (\<lambda>_. True) (try_bind (on_host (ah_now N)) (\<lambda>_. try_return False)) (\<lambda>_ _. True)" by (intro told_then told_steps)
    with None asked show ?thesis by (simp add: approve_def approval_verdict_of_def told_bind)
  next
    case (Some k)
    have once: "told P (ask_once N a k) (\<lambda>_. approved_in settings a)" if "\<not> ag_always_ask settings" for P
      by (rule told_weaken [OF told_ask_once]) (use Some that in \<open>auto simp: approved_in_def\<close>)
    have hit: "told (hit_on k) (unlock N a None) (\<lambda>_. approved_in settings a)" if "\<not> ag_always_ask settings"
      by (rule told_weaken [OF told_unlock [of "hit_on k"]]) (use Some that in \<open>auto simp: approved_in_def agent_fact_mono\<close>)
    show ?thesis
      unfolding approve_def Let_def Some option.case
      by (rule told_bind [OF told_is_remembered [OF fact_mono(2)]]) (simp add: approval_verdict_of_def protection_default_def asked once hit)
  qed
qed

end

section \<open>Signing\<close>

interpretation request: request_log N J settings a for N J settings a .


definition decide :: "('k, 'm) agent_host \<Rightarrow> grant option \<Rightarrow> 'k ask \<Rightarrow> agent_settings \<Rightarrow> ('m, 'm) agent_act" where
  "decide N g a settings = (if g \<noteq> None then unlock N a None else approve N a settings)"










section \<open>What a request leaves behind\<close>

text \<open>
  Two measures of a request, the windows it opens and the keys it leaves marked as being asked about, share one account: a relation
  of the states before and after with a cost, which an access of the broker that leaves the marks alone does not raise, and a window raises by
  the cost of its kind (an approval, or only a passphrase).
\<close>

definition does :: "(nat \<Rightarrow> 'm agent_state \<Rightarrow> 'm agent_state \<Rightarrow> bool) \<Rightarrow> nat \<Rightarrow> ('m, 'b) agent_act \<Rightarrow> bool" where
  "does rel n m \<longleftrightarrow> (\<forall>st. rel n st (snd (m st)))"

locale request_effect =
  fixes N :: "('k, 'm) agent_host" and rel :: "nat \<Rightarrow> 'm agent_state \<Rightarrow> 'm agent_state \<Rightarrow> bool" and cost :: "bool \<Rightarrow> nat"
  assumes rel_refl: "rel 0 st st"
    and rel_trans: "rel n st st' \<Longrightarrow> rel n' st' st'' \<Longrightarrow> rel (n + n') st st''"
    and rel_mono: "rel n st st' \<Longrightarrow> n \<le> n' \<Longrightarrow> rel n' st st'"
    and rel_step: "rel 0 st (st\<lparr>as_step := as_step st + 1\<rparr>)"
    and rel_note: "rel (case ev of GE_Asked p _ \<Rightarrow> cost (aq_preapproved p) | _ \<Rightarrow> 0) st (st\<lparr>as_log := as_log st @ [ev]\<rparr>)"
    and rel_locked: "bk_asking b = bk_asking (ah_others N (as_step st) (as_broker st)) \<Longrightarrow> rel 0 st (st\<lparr>as_broker := b, as_step := as_step st + 1\<rparr>)"
begin

lemma does_bind: "does rel n m \<Longrightarrow> (\<And>x. does rel n' (f x)) \<Longrightarrow> does rel (n + n') (try_bind m f)"
proof -
  assume m: "does rel n m" and f: "\<And>x. does rel n' (f x)"
  have "rel (n + n') st (snd (try_bind m f st))" for st
  proof (cases "m st")
    case (Pair r q)
    with m have q: "rel n st q" unfolding does_def by (metis snd_conv)
    show ?thesis
    proof (cases r)
      case None
      with Pair q rel_mono show ?thesis by (simp add: try_bind_def)
    next
      case (Some x)
      with Pair q f [of x] rel_trans show ?thesis by (simp add: try_bind_def does_def)
    qed
  qed
  then show ?thesis by (simp add: does_def)
qed

lemma does_mono: "does rel n m \<Longrightarrow> n \<le> n' \<Longrightarrow> does rel n' m"
  using rel_mono unfolding does_def by blast

lemma does_then: "does rel 0 m \<Longrightarrow> (\<And>x. does rel n (f x)) \<Longrightarrow> does rel n (try_bind m f)"
  using does_bind [of 0 m n f] by simp

lemma does_finish: "does rel n m \<Longrightarrow> (\<And>x. does rel 0 (f x)) \<Longrightarrow> does rel n (try_bind m f)"
  using does_bind [of n m 0 f] by simp

lemma does_return: "does rel n (try_return x)"
  using rel_mono [OF rel_refl] by (simp add: does_def try_return_def)

lemma does_refuse: "does rel n refuse"
  using rel_mono [OF rel_refl] by (simp add: does_def refuse_def)

lemma does_host: "does rel 0 (on_host f)"
  using rel_step by (simp add: does_def on_host_def)

lemma does_locked: "(\<And>b. bk_asking (snd (f b)) = bk_asking b) \<Longrightarrow> does rel 0 (locked N f)"
  unfolding does_def locked_def split_beta snd_conv by (intro allI rel_locked) simp

lemma does_note: "does rel (case ev of GE_Asked p _ \<Rightarrow> cost (aq_preapproved p) | _ \<Rightarrow> 0) (note_event ev)"
  using rel_note by (simp add: does_def note_event_def)

lemma does_if: "(c \<Longrightarrow> does rel n m) \<Longrightarrow> (\<not> c \<Longrightarrow> does rel n m') \<Longrightarrow> does rel n (if c then m else m')"
  by simp

lemma does_option: "does rel n m \<Longrightarrow> (\<And>y. does rel n (f y)) \<Longrightarrow> does rel n (case x of None \<Rightarrow> m | Some y \<Rightarrow> f y)"
  by (cases x) simp_all

lemma does_sum: "(\<And>e. does rel n (f e)) \<Longrightarrow> (\<And>y. does rel n (g y)) \<Longrightarrow> does rel n (case x of Inl e \<Rightarrow> f e | Inr y \<Rightarrow> g y)"
  by (cases x) simp_all

lemma does_open_error: "does rel n m1 \<Longrightarrow> does rel n m2 \<Longrightarrow> (\<And>c. does rel n (m3 c)) \<Longrightarrow> does rel n m4
    \<Longrightarrow> does rel n (case e of OE_NeedsPassphrase \<Rightarrow> m1 | OE_WrongPassphrase \<Rightarrow> m2 | OE_UnsupportedCipher c \<Rightarrow> m3 c | OE_Unreadable \<Rightarrow> m4)"
  by (cases e) simp_all

lemmas does_steps = does_return does_refuse does_host does_if does_option does_sum does_open_error

lemma does_ask: "does rel (cost (aq_preapproved p)) (ask_person N p)"
  unfolding ask_person_def
proof (intro does_then [OF does_host] does_finish does_steps)
  show "does rel (cost (aq_preapproved p)) (note_event (GE_Asked p answer))" for answer
    using does_note [of "GE_Asked p answer"] by simp
qed

lemma does_cached: "does rel 0 (cached_key N a)"
  unfolding cached_key_def
  by (intro does_then [OF does_host] does_locked) (auto simp: cached_in_def Let_def split: option.splits)

lemma does_passphrase: "does rel 0 (remembered_passphrase N i)"
  unfolding remembered_passphrase_def by (intro does_then does_steps)

lemma does_saved: "does rel 0 (open_saved N i t)"
  unfolding open_saved_def by (intro does_then does_passphrase does_steps)

lemma does_keep_opened: "does rel 0 (keep_opened N a m p rem)"
  unfolding keep_opened_def by (intro does_then does_steps does_locked) simp

lemma does_typed: "does rel (cost True) (typed_passphrase N a supplied err)"
  unfolding typed_passphrase_def
proof (intro does_steps does_finish)
  show "does rel (cost True) (ask_person N (prompt_of a True True False err))"
    using does_ask [of "prompt_of a True True False err"] by (simp add: prompt_of_def)
qed

lemma does_rounds: "does rel (k * cost True) (passphrase_rounds N a t k supplied err)"
proof (induction k arbitrary: supplied err)
  case (Suc k)
  show ?case
    unfolding passphrase_rounds.simps split_beta mult_Suc
    by (intro does_bind does_typed does_steps Suc.IH does_mono [OF does_keep_opened]) simp
qed (simp add: does_refuse)

lemma does_unlock: "does rel (3 * cost True) (unlock N a supplied)"
  using does_rounds [of AGENT_PASSPHRASE_ATTEMPTS] unfolding unlock_def AGENT_PASSPHRASE_ATTEMPTS_def
  by (intro does_then does_steps does_cached does_saved)

lemma does_is_remembered: "does rel 0 (is_remembered N k)"
  unfolding is_remembered_def
proof (intro does_then does_steps does_locked)
  show "does rel 0 (note_event (GE_Hit k now))" for now
    using does_note [of "GE_Hit k now"] by simp
qed (simp add: cache_is_remembered_def Let_def)

lemma does_remember: "does rel 0 (remember_approval N k i minutes)"
  unfolding remember_approval_def
proof (intro does_then does_host does_locked)
  show "does rel 0 (note_event (GE_Remembered k e))" for e
    using does_note [of "GE_Remembered k e"] by simp
qed (simp_all add: extend_unlocked_def)

lemma does_needs: "does rel 0 (needs_passphrase N a)"
  unfolding needs_passphrase_def by (intro does_then does_steps does_cached does_passphrase)

lemma does_ask_and_unlock: "does rel (cost False + 3 * cost True) (ask_and_unlock N a k)"
  unfolding ask_and_unlock_def
proof (intro does_then [OF does_needs] does_bind)
  show "does rel (cost False) (ask_person N (prompt_of a False needs r None))" for needs r
    using does_ask [of "prompt_of a False needs r None"] by (simp add: prompt_of_def)
qed (intro does_steps does_finish [OF does_unlock] does_then does_remember)

end

text \<open>With the account of one request of several equal ones, the whole request has an account.\<close>

locale signing_effect = request_effect +
  assumes does_ask_once: "does rel (cost False + 3 * cost True) (ask_once N a k)"
begin

lemma does_approve: "does rel (cost False + 3 * cost True) (approve N a settings)"
proof -
  have looked: "does rel 0 (case approval_key_of a of Some k \<Rightarrow> is_remembered N k | None \<Rightarrow> try_bind (on_host (ah_now N)) (\<lambda>_. try_return False))"
    by (intro does_option does_is_remembered does_then does_steps)
  have unlocking: "does rel (cost False + 3 * cost True) (unlock N a None)" by (rule does_mono [OF does_unlock]) simp
  show ?thesis
    unfolding approve_def Let_def
    by (rule does_then [OF looked]) (simp add: approval_verdict_of_def unlocking does_ask_and_unlock does_ask_once split: option.split)
qed

lemma does_broker_sign: "does rel (cost False + 3 * cost True) (broker_sign N q p g)"
proof -
  have ask: "does rel 0 (ask_of N key q p settings)" for key settings
    unfolding ask_of_def Let_def by (intro does_then does_steps)
  have unlocking: "does rel (cost False + 3 * cost True) (unlock N a None)" for a by (rule does_mono [OF does_unlock]) simp
  show ?thesis
    unfolding broker_sign_def
    by (intro does_if does_refuse does_then [OF does_host] does_option does_then [OF ask] does_finish unlocking does_approve does_sum does_return)
qed

end

subsection \<open>Windows\<close>

definition windows :: "bool \<Rightarrow> agent_event list \<Rightarrow> nat" where
  "windows w log = length (filter (\<lambda>ev. case ev of GE_Asked p _ \<Rightarrow> aq_preapproved p = w | _ \<Rightarrow> False) log)"

definition windows_rel :: "bool \<Rightarrow> nat \<Rightarrow> 'm agent_state \<Rightarrow> 'm agent_state \<Rightarrow> bool" where
  "windows_rel w n st st' \<longleftrightarrow> windows w (as_log st') \<le> windows w (as_log st) + n"

interpretation window: request_effect N "windows_rel w" "\<lambda>c. of_bool (c = w)" for N w
  by unfold_locales (auto simp: windows_rel_def windows_def split: agent_event.split)

lemma windows_locked: "does (windows_rel w) 0 (locked N f)"
  by (simp add: does_def windows_rel_def locked_def split_beta)

lemma windows_ending: "does (windows_rel w) n m \<Longrightarrow> (\<And>b. does (windows_rel w) 0 (g b)) \<Longrightarrow> does (windows_rel w) n (ending_with m g)"
  unfolding does_def windows_rel_def ending_with_def by (fastforce simp: split_beta intro: le_trans)

lemma windows_ask_once: "does (windows_rel w) (of_bool (False = w) + 3 * of_bool (True = w)) (ask_once N a k)"
proof -
  have unlocking: "does (windows_rel w) (of_bool (False = w) + 3 * of_bool (True = w)) (unlock N a None)" by (rule window.does_mono [OF window.does_unlock]) simp
  have quiet: "does (windows_rel w) 0 (note_event (GE_Waited k c))" "does (windows_rel w) 0 (note_event (GE_Finished k c))" for c
    using window.does_note [of _ "GE_Waited k c"] window.does_note [of _ "GE_Finished k c"] by simp_all
  show ?thesis
    unfolding ask_once_def first_done_def
    by (intro window.does_then [OF windows_locked] window.does_if window.does_then [OF window.does_host] window.does_then [OF quiet(1)] unlocking window.does_refuse
        windows_ending window.does_then [OF window.does_is_remembered] window.does_ask_and_unlock quiet(2))
qed

interpretation window: signing_effect N "windows_rel w" "\<lambda>c. of_bool (c = w)" for N w
  by unfold_locales (rule windows_ask_once)

text \<open>
  C13. A request for a signature opens at most one window that asks for an approval, and at most three that ask only for the passphrase.
\<close>
theorem few_windows:
  "windows False (as_log (snd (broker_sign N q p g st))) \<le> windows False (as_log st) + 1
   \<and> windows True (as_log (snd (broker_sign N q p g st))) \<le> windows True (as_log st) + 3"
  using window.does_broker_sign [of False N q p g] window.does_broker_sign [of True N q p g] by (simp add: does_def windows_rel_def)

subsection \<open>Keys being asked about\<close>

definition asking_rel :: "('k, 'm) agent_host \<Rightarrow> nat \<Rightarrow> 'm agent_state \<Rightarrow> 'm agent_state \<Rightarrow> bool" where
  "asking_rel N n st st' \<longleftrightarrow> (\<forall>k. k \<in> bk_asking (as_broker st') \<longrightarrow>
     k \<in> bk_asking (as_broker st) \<or> (\<exists>n b. k \<in> bk_asking (ah_others N n b) \<and> k \<notin> bk_asking b))"

interpretation asking: request_effect N "asking_rel N" "\<lambda>_. 0" for N
  by unfold_locales (auto simp: asking_rel_def)

lemma bind_locked:
  "try_bind (locked N f) g st = (let b = ah_others N (as_step st) (as_broker st) in g (fst (f b)) (st\<lparr>as_broker := snd (f b), as_step := as_step st + 1\<rparr>))"
  by (simp add: try_bind_def locked_def Let_def split_beta)

lemma asking_first_done: "bk_asking (as_broker (snd (first_done N k c st))) = bk_asking (ah_others N (as_step st) (as_broker st)) - {k}"
  by (simp add: first_done_def bind_locked note_event_def Let_def)

lemma asking_ending:
  assumes "does (asking_rel N) 0 m" "\<And>c q. bk_asking (as_broker (snd (g c q))) = bk_asking (ah_others N (as_step q) (as_broker q)) - {k}"
    "bk_asking (as_broker st1) = insert k (bk_asking (ah_others N (as_step st) (as_broker st)))"
  shows "asking_rel N n st (snd (ending_with m g st1))"
proof -
  have "asking_rel N 0 st1 (snd (m st1))" using assms(1) by (simp add: does_def)
  then show ?thesis using assms(2,3) by (fastforce simp: asking_rel_def ending_with_def split_beta)
qed

lemma asking_ask_once: "does (asking_rel N) 0 (ask_once N a k)"
proof -
  have unlocking: "does (asking_rel N) 0 (unlock N a None)" using asking.does_unlock by simp
  have waited: "does (asking_rel N) 0 (note_event (GE_Waited k c))" for c using asking.does_note [of _ "GE_Waited k c"] by simp
  have second: "does (asking_rel N) 0 (try_bind (on_host (\<lambda>n. ah_wait N n k)) (\<lambda>allowed.
      try_bind (note_event (GE_Waited k allowed)) (\<lambda>_. if allowed then unlock N a None else refuse)))"
    by (intro asking.does_then asking.does_host waited asking.does_if unlocking asking.does_refuse)
  have body: "does (asking_rel N) 0 (try_bind (is_remembered N k) (\<lambda>hit. if hit then unlock N a None else ask_and_unlock N a (Some k)))"
    using asking.does_ask_and_unlock by (intro asking.does_then asking.does_is_remembered asking.does_if unlocking) simp
  have "asking_rel N 0 st (snd (ask_once N a k st))" for st
  proof (cases "k \<in> bk_asking (ah_others N (as_step st) (as_broker st))")
    case True
    have "asking_rel N 0 st (st\<lparr>as_broker := ah_others N (as_step st) (as_broker st), as_step := as_step st + 1\<rparr>)" by (rule asking.rel_locked) simp
    from True asking.rel_trans [OF this second [unfolded does_def, rule_format]] show ?thesis
      by (simp add: ask_once_def bind_locked Let_def)
  next
    case False
    then show ?thesis
      by (simp add: ask_once_def bind_locked Let_def) (rule asking_ending [OF body asking_first_done], simp)
  qed
  then show ?thesis by (simp add: does_def)
qed

interpretation asking: signing_effect N "asking_rel N" "\<lambda>_. 0" for N
  by unfold_locales (simp add: asking_ask_once)

text \<open>
  C14. A request, however it ends, leaves no approval marked as being asked about: what is marked afterwards was marked before it or by another
  connection. So no later request waits for the answer to a question nobody asks.
\<close>
theorem nothing_left_asking:
  "bk_asking (as_broker (snd (broker_sign N q p g st)))
   \<subseteq> bk_asking (as_broker st) \<union> {k. \<exists>n b. k \<in> bk_asking (ah_others N n b) \<and> k \<notin> bk_asking b}"
  using asking.does_broker_sign [of N q p g] by (auto simp: does_def asking_rel_def)

section \<open>A request that is allowed and remembered\<close>












end
