(* ===== verification/Config_File.thy ===== *)
theory Config_File
  imports Prelude
begin

text \<open>
  The lossless model of an OpenSSH configuration file: \<open>config/model.rs\<close>, the line lexer
  \<open>config/lexer.rs\<close>, the block parser \<open>config/parser.rs\<close> and the serialiser
  \<open>config/serialize.rs\<close>. The parameter \<open>lc\<close> is \<open>str::to_lowercase\<close>, the Unicode case mapping
  that computes the matching key of a keyword.
\<close>

section \<open>Model\<close>

datatype separator = SepSpace rstr | SepEquals rstr

record directive =
  d_keyword :: rstr
  d_key :: rstr
  d_value :: rstr
  d_separator :: separator
  d_indent :: rstr
  d_trailing_ws :: rstr
  d_inline_comment :: "rstr option"
  d_enabled :: bool
  d_raw :: rstr
  d_dirty :: bool

datatype item =
    IBlank rstr
  | IComment rstr
  | IDirective directive
  | IHost host_block
  | IMatch match_block
and host_block =
    HostBlock (hb_header: directive) (hb_patterns: "rstr list") (hb_body: "item list")
and match_block =
    MatchBlock (mb_header: directive) (mb_criteria: rstr) (mb_body: "item list")

definition strip_crlf :: "rstr \<Rightarrow> rstr" where
  "strip_crlf s = filter (\<lambda>c. c \<noteq> 13 \<and> c \<noteq> 10) s"

definition directive_new :: "(rstr \<Rightarrow> rstr) \<Rightarrow> rstr \<Rightarrow> rstr \<Rightarrow> rstr \<Rightarrow> directive" where
  "directive_new lc keyword value indent =
     \<lparr>d_keyword = keyword, d_key = lc keyword, d_value = strip_crlf value,
      d_separator = SepSpace (lit '' ''), d_indent = indent, d_trailing_ws = [],
      d_inline_comment = None, d_enabled = True, d_raw = [], d_dirty = True\<rparr>"

definition serializes_as_comment :: "directive \<Rightarrow> bool" where
  "serializes_as_comment d \<longleftrightarrow> \<not> d_enabled d \<and> d_dirty d"

section \<open>Lexer\<close>

datatype line_kind = LBlank | LComment | LDirective directive

text \<open>The scan of \<open>split_value_comment\<close>: the position of the first \<open>#\<close> outside double quotes.\<close>

fun find_comment :: "bool \<Rightarrow> nat \<Rightarrow> rstr \<Rightarrow> nat option" where
  "find_comment in_dquote i [] = None"
| "find_comment in_dquote i (ch # rest) =
     (if ch = chr CHR 0x22 then find_comment (\<not> in_dquote) (Suc i) rest
      else if ch = chr CHR ''#'' \<and> \<not> in_dquote then Some i
      else find_comment in_dquote (Suc i) rest)"

definition split_value_comment :: "rstr \<Rightarrow> rstr \<times> rstr \<times> rstr option" where
  "split_value_comment valuepart =
     (case find_comment False 0 valuepart of
        None \<Rightarrow>
          (let value = trim_end valuepart
           in (value, drop (length value) valuepart, None))
      | Some idx \<Rightarrow>
          (let before = take idx valuepart;
               value = trim_end before;
               ws = drop (length value) before;
               comment_part = drop idx valuepart
           in (value, [], Some (ws @ comment_part))))"

text \<open>The separator scan: white space and at most one \<open>=\<close>. Returns the number of characters
  consumed and whether \<open>=\<close> was seen.\<close>

fun scan_separator :: "bool \<Rightarrow> rstr \<Rightarrow> nat \<times> bool" where
  "scan_separator saw_eq [] = (0, saw_eq)"
| "scan_separator saw_eq (ch # rest) =
     (if ch = chr CHR ''='' \<and> \<not> saw_eq
      then (case scan_separator True rest of (n, s) \<Rightarrow> (Suc n, s))
      else if is_whitespace ch
      then (case scan_separator saw_eq rest of (n, s) \<Rightarrow> (Suc n, s))
      else (0, saw_eq))"

definition classify_line :: "(rstr \<Rightarrow> rstr) \<Rightarrow> rstr \<Rightarrow> line_kind" where
  "classify_line lc line =
     (if list_all is_whitespace line then LBlank
      else
        let trimmed = trim_start line in
        if starts_with trimmed (lit ''#'') then LComment
        else
          let indent = take (length line - length trimmed) line;
              keyword = takeWhile (\<lambda>c. \<not> (is_whitespace c \<or> c = chr CHR ''='')) trimmed;
              after_kw = dropWhile (\<lambda>c. \<not> (is_whitespace c \<or> c = chr CHR ''='')) trimmed;
              (sep_end, saw_eq) = scan_separator False after_kw;
              sep_str = take sep_end after_kw;
              separator = (if saw_eq then SepEquals sep_str else SepSpace sep_str);
              valuepart = drop sep_end after_kw;
              (value, trailing_ws, inline_comment) = split_value_comment valuepart
          in LDirective
               \<lparr>d_keyword = keyword, d_key = lc keyword, d_value = value, d_separator = separator,
                d_indent = indent, d_trailing_ws = trailing_ws, d_inline_comment = inline_comment,
                d_enabled = True, d_raw = line, d_dirty = False\<rparr>)"

section \<open>Parser\<close>

datatype header_class = HK_Host | HK_Match

fun header_kind :: "item \<Rightarrow> header_class option" where
  "header_kind (IDirective d) =
     (if d_key d = lit ''host'' then Some HK_Host
      else if d_key d = lit ''match'' then Some HK_Match
      else None)"
| "header_kind _ = None"

definition block_of :: "header_class \<Rightarrow> directive \<Rightarrow> item list \<Rightarrow> item" where
  "block_of kind header body =
     (case kind of
        HK_Host \<Rightarrow> IHost (HostBlock header (split_whitespace (d_value header)) body)
      | HK_Match \<Rightarrow> IMatch (MatchBlock header (d_value header) body))"

text \<open>The grouping pass: a header takes the items up to the next header into its body. The
  source's unreachable case (a header that is not a directive) cannot be built here.\<close>

function group_blocks :: "item list \<Rightarrow> item list" where
  "group_blocks [] = []"
| "group_blocks (it # iter) =
     (case (header_kind it, it) of
        (Some kind, IDirective header) \<Rightarrow>
          block_of kind header (takeWhile (\<lambda>n. header_kind n = None) iter)
          # group_blocks (dropWhile (\<lambda>n. header_kind n = None) iter)
      | _ \<Rightarrow> it # group_blocks iter)"
  by pat_completeness auto
termination
  by (relation "measure length") (auto simp: length_dropWhile_le le_imp_less_Suc)

definition item_of_line :: "(rstr \<Rightarrow> rstr) \<Rightarrow> rstr \<Rightarrow> item" where
  "item_of_line lc line =
     (case classify_line lc line of
        LBlank \<Rightarrow> IBlank line
      | LComment \<Rightarrow> IComment line
      | LDirective d \<Rightarrow> IDirective d)"

definition parse_file :: "(rstr \<Rightarrow> rstr) \<Rightarrow> rstr \<Rightarrow> item list \<times> bool" where
  "parse_file lc txt =
     (let trailing_newline = ends_with txt [10] in
      if txt = [] then ([], trailing_newline)
      else
        let body = (if trailing_newline then take (length txt - 1) txt else txt);
            flat = map (item_of_line lc) (split_on 10 body)
        in (group_blocks flat, trailing_newline))"

section \<open>Serialiser\<close>

fun sep_str :: "separator \<Rightarrow> rstr" where
  "sep_str (SepSpace s) = s"
| "sep_str (SepEquals s) = s"

definition render_directive :: "directive \<Rightarrow> rstr" where
  "render_directive d =
     (if \<not> d_dirty d then d_raw d
      else
        let body = d_keyword d @ sep_str (d_separator d) @ d_value d @ d_trailing_ws d
              @ (case d_inline_comment d of None \<Rightarrow> [] | Some c \<Rightarrow> c)
        in if serializes_as_comment d then d_indent d @ lit ''# '' @ body else d_indent d @ body)"

fun push_item :: "item \<Rightarrow> rstr list"
  and push_items :: "item list \<Rightarrow> rstr list" where
  "push_item (IBlank s) = [s]"
| "push_item (IComment s) = [s]"
| "push_item (IDirective d) = [render_directive d]"
| "push_item (IHost (HostBlock header patterns body)) = render_directive header # push_items body"
| "push_item (IMatch (MatchBlock header criteria body)) = render_directive header # push_items body"
| "push_items [] = []"
| "push_items (it # items) = push_item it @ push_items items"

definition serialize_items :: "item list \<Rightarrow> bool \<Rightarrow> rstr" where
  "serialize_items items trailing_newline =
     join [10] (push_items items) @ (if trailing_newline then [10] else [])"

section \<open>Lexer lemmas\<close>

lemma scan_separator_le: "fst (scan_separator b s) \<le> length s"
  by (induction b s rule: scan_separator.induct) (auto split: prod.splits)

lemma find_comment_bounds: "find_comment q i s = Some j \<Longrightarrow> i \<le> j \<and> j < i + length s"
  by (induction q i s rule: find_comment.induct) (fastforce split: if_splits)+

lemma split_value_comment_concat:
  assumes "split_value_comment v = (w, tws, cmt)"
  shows "w @ tws @ (case cmt of None \<Rightarrow> [] | Some c \<Rightarrow> c) = v"
proof (cases "find_comment False 0 v")
  case None
  with assms show ?thesis
    using trim_end_prefix [of v] by (auto simp: split_value_comment_def Let_def)
next
  case (Some idx)
  have "trim_end (take idx v) @ drop (length (trim_end (take idx v))) (take idx v) @ drop idx v = v"
    using trim_end_prefix [of "take idx v"] by (metis append.assoc append_take_drop_id)
  with assms Some show ?thesis
    by (auto simp: split_value_comment_def Let_def)
qed

lemma indent_trimmed: "take (length s - length (trim_start s)) s @ trim_start s = s"
proof -
  have "length s - length (trim_start s) = length (takeWhile is_whitespace s)"
    by (metis add_diff_cancel_right' length_append trim_start_split)
  then show ?thesis
    by (metis append_eq_conv_conj trim_start_split)
qed

lemma classify_line_directive:
  assumes "classify_line lc line = LDirective d"
  shows "d_indent d @ d_keyword d @ sep_str (d_separator d) @ d_value d @ d_trailing_ws d
           @ (case d_inline_comment d of None \<Rightarrow> [] | Some c \<Rightarrow> c) = line"
    and "d_raw d = line" and "\<not> d_dirty d" and "d_enabled d" and "d_key d = lc (d_keyword d)"
proof -
  let ?p = "\<lambda>c. \<not> (is_whitespace c \<or> c = chr CHR ''='')"
  let ?t = "trim_start line"
  let ?a = "dropWhile ?p ?t"
  obtain n eq where sep: "scan_separator False ?a = (n, eq)" by (cases "scan_separator False ?a")
  obtain v tws cmt where val: "split_value_comment (drop n ?a) = (v, tws, cmt)"
    by (metis prod_cases3)
  from assms sep val have d: "d = \<lparr>d_keyword = takeWhile ?p ?t, d_key = lc (takeWhile ?p ?t),
      d_value = v, d_separator = (if eq then SepEquals (take n ?a) else SepSpace (take n ?a)),
      d_indent = take (length line - length ?t) line, d_trailing_ws = tws, d_inline_comment = cmt,
      d_enabled = True, d_raw = line, d_dirty = False\<rparr>"
    by (auto simp: classify_line_def Let_def split: if_splits)
  have "takeWhile ?p ?t @ take n ?a @ v @ tws @ (case cmt of None \<Rightarrow> [] | Some c \<Rightarrow> c) = ?t"
    unfolding split_value_comment_concat [OF val] by simp
  then show "d_indent d @ d_keyword d @ sep_str (d_separator d) @ d_value d @ d_trailing_ws d
      @ (case d_inline_comment d of None \<Rightarrow> [] | Some c \<Rightarrow> c) = line"
    using indent_trimmed [of line] by (simp add: d)
  show "d_raw d = line" "\<not> d_dirty d" "d_enabled d" "d_key d = lc (d_keyword d)"
    by (simp_all add: d)
qed

section \<open>Parse and print\<close>

text \<open>The items that the classification pass produces: one line each, no blocks.\<close>

fun flat_item :: "item \<Rightarrow> bool" where
  "flat_item (IHost _) = False"
| "flat_item (IMatch _) = False"
| "flat_item _ = True"

lemma push_items_append: "push_items (xs @ ys) = push_items xs @ push_items ys"
  by (induction xs) auto

lemma flat_item_of_line [simp]: "flat_item (item_of_line lc l)"
  by (simp add: item_of_line_def split: line_kind.splits)

lemma push_item_of_line [simp]: "push_item (item_of_line lc l) = [l]"
  using classify_line_directive(2,3) [of lc l]
  by (auto simp: item_of_line_def render_directive_def split: line_kind.splits)

lemma push_items_of_lines: "push_items (map (item_of_line lc) ls) = ls"
  by (induction ls) auto

lemma push_block_of: "push_item (block_of kind header body) = render_directive header # push_items body"
  by (cases kind) (simp_all add: block_of_def)

lemma header_kind_Some: "header_kind it = Some k \<Longrightarrow> \<exists>d. it = IDirective d"
  by (cases it) auto

lemma group_blocks_plain: "header_kind it = None \<Longrightarrow> group_blocks (it # iter) = it # group_blocks iter"
  by simp

lemma group_blocks_header:
  "header_kind (IDirective d) = Some k \<Longrightarrow> group_blocks (IDirective d # iter)
     = block_of k d (takeWhile (\<lambda>n. header_kind n = None) iter)
       # group_blocks (dropWhile (\<lambda>n. header_kind n = None) iter)"
  by simp

declare group_blocks.simps(2) [simp del]

lemma blocks_induct [case_names Nil Plain Header]:
  assumes "P []"
    and "\<And>it iter. header_kind it = None \<Longrightarrow> P iter \<Longrightarrow> P (it # iter)"
    and "\<And>d k iter. header_kind (IDirective d) = Some k \<Longrightarrow>
      P (dropWhile (\<lambda>n. header_kind n = None) iter) \<Longrightarrow> P (IDirective d # iter)"
  shows "P flat"
proof (induction flat rule: length_induct)
  case (1 flat)
  show ?case
  proof (cases flat)
    case Nil
    with assms(1) show ?thesis by simp
  next
    case (Cons it iter)
    have "P iter" "P (dropWhile (\<lambda>n. header_kind n = None) iter)"
      using 1 Cons by (auto simp: length_dropWhile_le le_imp_less_Suc)
    then show ?thesis
      using assms(2,3) header_kind_Some [of it] Cons by (cases "header_kind it") auto
  qed
qed

lemma push_group_blocks: "push_items (group_blocks flat) = push_items flat"
proof (induction flat rule: blocks_induct)
  case Nil
  then show ?case by simp
next
  case (Plain it iter)
  then show ?case by (simp add: group_blocks_plain)
next
  case (Header d k iter)
  have "push_items iter = push_items (takeWhile (\<lambda>n. header_kind n = None) iter)
      @ push_items (dropWhile (\<lambda>n. header_kind n = None) iter)"
    by (metis push_items_append takeWhile_dropWhile_id)
  with Header show ?case
    by (simp add: group_blocks_header push_block_of)
qed

lemma ends_with_newline: "ends_with s [10] \<longleftrightarrow> (\<exists>t. s = t @ [10])"
proof
  assume e: "ends_with s [10]"
  then have "s = take (length s - 1) s @ [10]"
    unfolding ends_with_def by (metis append_take_drop_id length_Cons list.size(3) One_nat_def)
  then show "\<exists>t. s = t @ [10]" by blast
next
  assume "\<exists>t. s = t @ [10]"
  then show "ends_with s [10]" by (auto simp: ends_with_def)
qed

lemma serialize_parse:
  "serialize_items (fst (parse_file lc txt)) (snd (parse_file lc txt)) = txt"
proof (cases "ends_with txt [10]")
  case True
  then obtain t where "txt = t @ [10]" by (auto simp: ends_with_newline)
  with True show ?thesis
    by (simp add: parse_file_def serialize_items_def push_group_blocks push_items_of_lines
        join_split_on)
next
  case False
  then show ?thesis
    by (simp add: parse_file_def serialize_items_def push_group_blocks push_items_of_lines
        join_split_on Let_def)
qed

section \<open>Block structure of a parsed file\<close>

text \<open>In a parsed file every block body is flat and holds no header; the items before the first
  block are the global ones, and nothing but blocks follows the first block.\<close>

fun block_ok :: "item \<Rightarrow> bool" where
  "block_ok (IHost h) = (list_all flat_item (hb_body h)
     \<and> list_all (\<lambda>it. header_kind it = None) (hb_body h)
     \<and> d_key (hb_header h) = lit ''host''
     \<and> hb_patterns h = split_whitespace (d_value (hb_header h)))"
| "block_ok (IMatch m) = (list_all flat_item (mb_body m)
     \<and> list_all (\<lambda>it. header_kind it = None) (mb_body m)
     \<and> d_key (mb_header m) = lit ''match'' \<and> mb_criteria m = d_value (mb_header m))"
| "block_ok it = (header_kind it = None)"

fun is_block :: "item \<Rightarrow> bool" where
  "is_block (IHost _) = True"
| "is_block (IMatch _) = True"
| "is_block _ = False"

definition file_shape :: "item list \<Rightarrow> bool" where
  "file_shape items \<longleftrightarrow>
     list_all block_ok items \<and> list_all is_block (dropWhile (\<lambda>it. \<not> is_block it) items)"

lemma is_block_block_of: "is_block (block_of k h b)"
  by (cases k) (simp_all add: block_of_def)

lemma block_ok_block_of:
  "header_kind (IDirective h) = Some k \<Longrightarrow> list_all flat_item b \<Longrightarrow>
     list_all (\<lambda>it. header_kind it = None) b \<Longrightarrow> block_ok (block_of k h b)"
  by (cases k) (auto simp: block_of_def split: if_splits)

lemma flat_parts:
  assumes "list_all flat_item iter"
  shows "list_all flat_item (takeWhile p iter)" "list_all flat_item (dropWhile p iter)"
  using assms by (auto simp: list_all_iff dest: set_takeWhileD set_dropWhileD)

lemma group_blocks_header_first:
  assumes "list_all flat_item flat" and "flat = [] \<or> header_kind (hd flat) \<noteq> None"
  shows "list_all is_block (group_blocks flat)"
  using assms
proof (induction flat rule: blocks_induct)
  case (Header d k iter)
  let ?rest = "dropWhile (\<lambda>n. header_kind n = None) iter"
  have "list_all flat_item ?rest"
    using Header.prems(1) by (simp add: flat_parts(2))
  moreover have "?rest = [] \<or> header_kind (hd ?rest) \<noteq> None"
    using hd_dropWhile by blast
  ultimately have "list_all is_block (group_blocks ?rest)"
    by (rule Header.IH)
  with Header(1) show ?case by (simp add: group_blocks_header is_block_block_of)
qed auto

lemma group_blocks_ok: "list_all flat_item flat \<Longrightarrow> list_all block_ok (group_blocks flat)"
proof (induction flat rule: blocks_induct)
  case (Plain it iter)
  then show ?case by (cases it) (auto simp: group_blocks_plain)
next
  case (Header d k iter)
  have "list_all (\<lambda>n. header_kind n = None) (takeWhile (\<lambda>n. header_kind n = None) iter)"
    by (auto simp: list_all_iff dest: set_takeWhileD)
  with Header show ?case
    by (auto simp: group_blocks_header flat_parts intro: block_ok_block_of)
qed simp

lemma flat_not_block: "flat_item it \<Longrightarrow> \<not> is_block it"
  by (cases it) auto

lemma file_shape_group_blocks: "list_all flat_item flat \<Longrightarrow> file_shape (group_blocks flat)"
proof (induction flat)
  case Nil
  then show ?case by (simp add: file_shape_def)
next
  case (Cons it iter)
  show ?case
  proof (cases "header_kind it")
    case None
    then have g: "group_blocks (it # iter) = it # group_blocks iter" by (rule group_blocks_plain)
    from Cons.prems have "\<not> is_block it" by (auto dest: flat_not_block)
    moreover have "block_ok it" using None Cons.prems by (cases it) auto
    ultimately show ?thesis
      using Cons by (simp add: g file_shape_def)
  next
    case (Some k)
    have "list_all is_block (group_blocks (it # iter))"
      by (rule group_blocks_header_first) (use Cons.prems Some in auto)
    moreover have "list_all block_ok (group_blocks (it # iter))"
      by (rule group_blocks_ok [OF Cons.prems])
    moreover from calculation(1) have "list_all is_block (dropWhile (\<lambda>it. \<not> is_block it) (group_blocks (it # iter)))"
      by (auto simp: list_all_iff dest: set_dropWhileD)
    ultimately show ?thesis by (simp add: file_shape_def)
  qed
qed

lemma file_shape_parse: "file_shape (fst (parse_file lc txt))"
  by (auto simp: parse_file_def Let_def file_shape_def [of "[]"] list_all_iff
      intro!: file_shape_group_blocks)

section \<open>Properties\<close>

text \<open>C36. Reading a configuration and writing it back without an edit gives the same text, for
  every text: nothing is normalised, dropped or added, whatever the line contains.\<close>

theorem parse_serialize_roundtrip:
  "(case parse_file lc txt of (items, nl) \<Rightarrow> serialize_items items nl) = txt"
  using serialize_parse [of lc "txt"] by (simp add: split_beta)

text \<open>Re-rendering a parsed directive from its parts gives back its line: marking a parsed
  directive as edited without changing a part changes no byte of the file.\<close>

theorem render_dirty_identity:
  assumes "classify_line lc line = LDirective d"
  shows "render_directive (d\<lparr>d_dirty := True\<rparr>) = line"
  using classify_line_directive(1,4) [OF assms]
  by (auto simp: render_directive_def serializes_as_comment_def)

theorem render_dirty_identity_witness:
  "\<exists>d. classify_line to_ascii_lowercase (lit ''  Port = 22 # x'') = LDirective d
     \<and> render_directive (d\<lparr>d_dirty := True\<rparr>) = lit ''  Port = 22 # x''"
proof -
  have "\<exists>d. classify_line to_ascii_lowercase (lit ''  Port = 22 # x'') = LDirective d"
    by (auto simp: classify_line_def str_simps Let_def trim_start_def starts_with_def
        split: prod.splits)
  with render_dirty_identity [of to_ascii_lowercase "lit ''  Port = 22 # x''"] show ?thesis by blast
qed

end
