(* ===== verification/Config_Edit.thy ===== *)
theory Config_Edit
  imports Config_File "HOL-Library.Multiset"
begin

text \<open>
  The edit operations on a parsed configuration (\<open>config/edit.rs\<close>) and the placement of a new
  \<open>Include\<close> line with its file-name gate (\<open>config/newfile.rs\<close>). Operations that mutate a block
  take it and return the changed block together with the source's result. \<open>clean_item\<close> is the
  invariant behind line safety: no field that can be printed contains a line feed.
\<close>

section \<open>Finders\<close>

definition host_matches :: "rstr \<Rightarrow> item \<Rightarrow> bool" where
  "host_matches alias it = (case it of IHost h \<Rightarrow> list_ex (\<lambda>p. p = alias) (hb_patterns h) | _ \<Rightarrow> False)"

text \<open>\<open>find_host_mut\<close>: the position and block of the first host whose patterns contain the alias.\<close>

fun find_host_mut :: "item list \<Rightarrow> rstr \<Rightarrow> (nat \<times> host_block) option" where
  "find_host_mut [] alias = None"
| "find_host_mut (it # items) alias =
     (case it of
        IHost h \<Rightarrow>
          if list_ex (\<lambda>p. p = alias) (hb_patterns h) then Some (0, h)
          else map_option (\<lambda>(i, b). (Suc i, b)) (find_host_mut items alias)
      | _ \<Rightarrow> map_option (\<lambda>(i, b). (Suc i, b)) (find_host_mut items alias))"

section \<open>Field operations\<close>

definition sanitize_value :: "rstr \<Rightarrow> rstr" where
  "sanitize_value v = strip_crlf v"

definition quote_spaced_path :: "rstr \<Rightarrow> rstr" where
  "quote_spaced_path v =
     (if list_ex is_whitespace v \<and> chr CHR 0x22 \<notin> set v
      then chr CHR 0x22 # v @ [chr CHR 0x22] else v)"

fun infer_indent :: "item list \<Rightarrow> rstr" where
  "infer_indent [] = lit ''    ''"
| "infer_indent (IDirective d # body) = d_indent d"
| "infer_indent (_ # body) = infer_indent body"

definition is_directive :: "item \<Rightarrow> bool" where
  "is_directive it = (case it of IDirective _ \<Rightarrow> True | _ \<Rightarrow> False)"

text \<open>\<open>rposition\<close>: the index of the last element that satisfies a predicate.\<close>

fun rposition :: "('a \<Rightarrow> bool) \<Rightarrow> 'a list \<Rightarrow> nat option" where
  "rposition p [] = None"
| "rposition p (x # xs) =
     (case rposition p xs of Some i \<Rightarrow> Some (Suc i) | None \<Rightarrow> if p x then Some 0 else None)"

fun position :: "('a \<Rightarrow> bool) \<Rightarrow> 'a list \<Rightarrow> nat option" where
  "position p [] = None"
| "position p (x # xs) = (if p x then Some 0 else map_option Suc (position p xs))"

definition insert_at :: "nat \<Rightarrow> 'a \<Rightarrow> 'a list \<Rightarrow> 'a list" where
  "insert_at i x xs = take i xs @ x # drop i xs"

definition remove_at :: "nat \<Rightarrow> 'a list \<Rightarrow> 'a list" where
  "remove_at i xs = take i xs @ drop (Suc i) xs"

definition set_body :: "host_block \<Rightarrow> item list \<Rightarrow> host_block" where
  "set_body h body = HostBlock (hb_header h) (hb_patterns h) body"

definition insert_directive :: "(rstr \<Rightarrow> rstr) \<Rightarrow> host_block \<Rightarrow> rstr \<Rightarrow> rstr \<Rightarrow> host_block" where
  "insert_directive lc h keyword v =
     (let indent = infer_indent (hb_body h);
          pos = (case rposition is_directive (hb_body h) of
                   Some i \<Rightarrow> i + 1 | None \<Rightarrow> length (hb_body h))
      in set_body h (insert_at pos (IDirective (directive_new lc keyword v indent)) (hb_body h)))"

text \<open>The update loop of \<open>set_host_field\<close>: the first directive with the key is changed.
  \<open>None\<close> means that no directive has the key.\<close>

fun update_field :: "rstr \<Rightarrow> rstr \<Rightarrow> item list \<Rightarrow> (item list \<times> bool) option" where
  "update_field key v [] = None"
| "update_field key v (it # body) =
     (case it of
        IDirective d \<Rightarrow>
          if d_key d = key then
            (if d_value d = v then Some (it # body, False)
             else Some (IDirective (d\<lparr>d_value := v, d_dirty := True\<rparr>) # body, True))
          else map_option (\<lambda>(b, c). (it # b, c)) (update_field key v body)
      | _ \<Rightarrow> map_option (\<lambda>(b, c). (it # b, c)) (update_field key v body))"

definition set_host_field :: "(rstr \<Rightarrow> rstr) \<Rightarrow> host_block \<Rightarrow> rstr \<Rightarrow> rstr \<Rightarrow> host_block \<times> bool" where
  "set_host_field lc h keyword v0 =
     (let key_lower = lc keyword;
          v = sanitize_value v0
      in case update_field key_lower v (hb_body h) of
           Some (body, changed) \<Rightarrow> (set_body h body, changed)
         | None \<Rightarrow> (insert_directive lc h keyword v, True))"

definition live_identity :: "item \<Rightarrow> bool" where
  "live_identity it =
     (case it of
        IDirective d \<Rightarrow> d_key d = lit ''identityfile'' \<and> \<not> serializes_as_comment d
      | _ \<Rightarrow> False)"

definition directive_value :: "item \<Rightarrow> rstr option" where
  "directive_value it = (case it of IDirective d \<Rightarrow> Some (d_value d) | _ \<Rightarrow> None)"

definition point_at :: "rstr \<Rightarrow> item \<Rightarrow> item" where
  "point_at v it =
     (case it of
        IDirective d \<Rightarrow>
          if d_value d \<noteq> v then IDirective (d\<lparr>d_value := v, d_dirty := True, d_enabled := True\<rparr>)
          else it
      | _ \<Rightarrow> it)"

definition replace_identity_files :: "(rstr \<Rightarrow> rstr) \<Rightarrow> host_block \<Rightarrow> rstr \<Rightarrow> host_block \<times> rstr list" where
  "replace_identity_files lc h v0 =
     (let v = quote_spaced_path (sanitize_value v0);
          live = filter (\<lambda>i. live_identity (hb_body h ! i)) [0..<length (hb_body h)]
      in case live of
           [] \<Rightarrow> (insert_directive lc h (lit ''IdentityFile'') v, [])
         | first # rest \<Rightarrow>
             (let old = List.map_filter (\<lambda>i. directive_value (hb_body h ! i)) live;
                  body = foldl (\<lambda>b i. remove_at i b) (hb_body h) (rev rest)
              in (set_body h (body[first := point_at v (body ! first)]), old)))"

definition set_host_patterns :: "host_block \<Rightarrow> rstr list \<Rightarrow> host_block \<times> bool" where
  "set_host_patterns h patterns =
     (let tokens = filter (\<lambda>p. p \<noteq> []) (map strip_crlf patterns);
          v = join (lit '' '') tokens
      in if d_value (hb_header h) = v then (h, False)
         else (HostBlock ((hb_header h)\<lparr>d_value := v, d_dirty := True\<rparr>) tokens (hb_body h), True))"

definition has_key :: "rstr \<Rightarrow> item \<Rightarrow> bool" where
  "has_key key it = (case it of IDirective d \<Rightarrow> d_key d = key | _ \<Rightarrow> False)"

definition remove_host_field :: "(rstr \<Rightarrow> rstr) \<Rightarrow> host_block \<Rightarrow> rstr \<Rightarrow> host_block \<times> bool" where
  "remove_host_field lc h key =
     (case position (has_key (lc key)) (hb_body h) of
        Some pos \<Rightarrow> (set_body h (remove_at pos (hb_body h)), True)
      | None \<Rightarrow> (h, False))"

section \<open>Enable and disable\<close>

definition set_directive_enabled :: "directive \<Rightarrow> bool \<Rightarrow> directive" where
  "set_directive_enabled d enabled = d\<lparr>d_enabled := enabled, d_dirty := True\<rparr>"

definition set_host_enabled :: "host_block \<Rightarrow> bool \<Rightarrow> host_block" where
  "set_host_enabled h enabled =
     HostBlock (set_directive_enabled (hb_header h) enabled) (hb_patterns h)
       (map (\<lambda>it. case it of IDirective d \<Rightarrow> IDirective (set_directive_enabled d enabled) | _ \<Rightarrow> it)
          (hb_body h))"

section \<open>Add, remove and reorder hosts\<close>

definition add_host :: "(rstr \<Rightarrow> rstr) \<Rightarrow> item list \<Rightarrow> rstr \<Rightarrow> (rstr \<times> rstr) list \<Rightarrow> item list" where
  "add_host lc items alias flds =
     items @ [IBlank [],
              IHost (HostBlock (directive_new lc (lit ''Host'') alias []) [alias]
                (map (\<lambda>(kw, v). IDirective (directive_new lc kw v (lit ''    ''))) flds))]"

definition remove_host :: "item list \<Rightarrow> rstr \<Rightarrow> item list \<times> bool" where
  "remove_host items alias =
     (case position (host_matches alias) items of
        Some pos \<Rightarrow> (remove_at pos items, True)
      | None \<Rightarrow> (items, False))"

definition is_host :: "item \<Rightarrow> bool" where
  "is_host it = (case it of IHost _ \<Rightarrow> True | _ \<Rightarrow> False)"

text \<open>One alias of \<open>alias_order\<close>: the first unused host that matches it is taken.\<close>

definition take_named :: "item list \<Rightarrow> nat list \<times> bool list \<Rightarrow> rstr \<Rightarrow> nat list \<times> bool list" where
  "take_named hosts st alias =
     (case st of (new_order, used) \<Rightarrow>
        (case find (\<lambda>i. \<not> used ! i \<and> host_matches alias (hosts ! i)) [0..<length hosts] of
           None \<Rightarrow> st
         | Some i \<Rightarrow> (new_order @ [i], used[i := True])))"

definition new_host_order :: "item list \<Rightarrow> rstr list \<Rightarrow> nat list" where
  "new_host_order hosts alias_order =
     (case foldl (take_named hosts) ([], replicate (length hosts) False) alias_order of
        (new_order, used) \<Rightarrow> new_order @ filter (\<lambda>i. \<not> used ! i) [0..<length hosts])"

definition reorder_hosts :: "item list \<Rightarrow> rstr list \<Rightarrow> item list" where
  "reorder_hosts items alias_order =
     (let host_indices = filter (\<lambda>i. is_host (items ! i)) [0..<length items] in
      if host_indices = [] then items
      else
        let hosts = map (\<lambda>i. items ! i) host_indices;
            reordered = map (\<lambda>i. hosts ! i) (new_host_order hosts alias_order)
        in foldl (\<lambda>its (slot, it). its[slot := it]) items (zip host_indices reordered))"

section \<open>Tags sentinel\<close>

definition TAGS_PREFIX :: rstr where
  "TAGS_PREFIX = lit ''#tags:''"

definition is_sentinel :: "rstr \<Rightarrow> item \<Rightarrow> bool" where
  "is_sentinel pre it = (case it of IComment s \<Rightarrow> starts_with (trim_start s) pre | _ \<Rightarrow> False)"

definition set_tags :: "host_block \<Rightarrow> rstr list \<Rightarrow> host_block" where
  "set_tags h tags =
     (if tags = [] then
        (case position (is_sentinel TAGS_PREFIX) (hb_body h) of
           Some pos \<Rightarrow> set_body h (remove_at pos (hb_body h))
         | None \<Rightarrow> h)
      else
        let sentinel = TAGS_PREFIX @ join (lit '','') tags in
        (case position (is_sentinel TAGS_PREFIX) (hb_body h) of
           Some pos \<Rightarrow> set_body h ((hb_body h)[pos := IComment sentinel])
         | None \<Rightarrow> set_body h (IComment sentinel # hb_body h)))"

section \<open>New files\<close>

definition validate_file_name :: "rstr \<Rightarrow> app_error + unit" where
  "validate_file_name name =
     rbind (fail_if (name = []) (AE_Other (lit ''file name is empty''))) (\<lambda>_.
     rbind (fail_if (name = lit ''.'' \<or> name = lit ''..'') (AE_Other (lit ''file name is reserved''))) (\<lambda>_.
     rbind (fail_if (chr CHR ''/'' \<in> set name \<or> chr CHR 0x5C \<in> set name)
              (AE_Other (lit ''file name must not contain path separators''))) (\<lambda>_.
     rbind (fail_if (list_ex is_whitespace name)
              (AE_Other (lit ''file name must not contain whitespace''))) (\<lambda>_.
     fail_if (starts_with name (lit ''-''))
       (AE_Other (lit ''file name must not start with '' @ [39, 45, 39]))))))"

definition family_name :: "rstr \<Rightarrow> rstr \<Rightarrow> rstr \<Rightarrow> rstr" where
  "family_name pre suf name =
     (if str_len name \<ge> str_len pre + str_len suf \<and> starts_with name pre \<and> ends_with name suf
      then name else pre @ name @ suf)"

definition live_include :: "item \<Rightarrow> bool" where
  "live_include it =
     (case it of IDirective d \<Rightarrow> d_key d = lit ''include'' \<and> d_enabled d | _ \<Rightarrow> False)"

definition include_insert_index :: "item list \<Rightarrow> nat" where
  "include_insert_index items =
     (case rposition live_include items of
        Some i \<Rightarrow> i + 1
      | None \<Rightarrow> (case position is_block items of Some i \<Rightarrow> i | None \<Rightarrow> length items))"

section \<open>Positions\<close>

lemma position_Some:
  "position p xs = Some i \<Longrightarrow> i < length xs \<and> p (xs ! i) \<and> (\<forall>j < i. \<not> p (xs ! j))"
proof (induction xs arbitrary: i)
  case Nil
  then show ?case by simp
next
  case (Cons x xs)
  show ?case
  proof (cases "p x")
    case True
    with Cons.prems show ?thesis by simp
  next
    case False
    with Cons.prems obtain k where k: "position p xs = Some k" "i = Suc k" by auto
    with Cons.IH [OF k(1)] False show ?thesis
      by (auto simp: nth_Cons split: nat.splits)
  qed
qed

lemma position_None: "position p xs = None \<longleftrightarrow> (\<forall>x \<in> set xs. \<not> p x)"
  by (induction xs) auto

lemma rposition_Some:
  "rposition p xs = Some i \<Longrightarrow> i < length xs \<and> p (xs ! i) \<and> (\<forall>j. i < j \<and> j < length xs \<longrightarrow> \<not> p (xs ! j))"
proof (induction xs arbitrary: i)
  case Nil
  then show ?case by simp
next
  case (Cons x xs)
  show ?case
  proof (cases "rposition p xs")
    case None
    then have "\<forall>y \<in> set xs. \<not> p y"
      by (induction xs) (auto split: option.splits if_splits)
    with None Cons.prems show ?thesis
      by (auto simp: nth_Cons split: nat.splits if_splits)
  next
    case (Some k)
    with Cons.prems Cons.IH [OF Some] show ?thesis
      by (auto simp: nth_Cons split: nat.splits)
  qed
qed

lemma set_insert_at: "set (insert_at i x xs) = insert x (set xs)"
  unfolding insert_at_def by (metis Un_insert_right append_take_drop_id list.simps(15) set_append)

lemma set_remove_at: "set (remove_at i xs) \<subseteq> set xs"
  by (auto simp: remove_at_def dest: in_set_takeD in_set_dropD)

lemma length_insert_at: "length (insert_at i x xs) = Suc (length xs)"
  by (simp add: insert_at_def)

section \<open>Line safety\<close>

text \<open>A directive, an item and a block without a line feed in any printable field.\<close>

definition clean_str :: "rstr \<Rightarrow> bool" where
  "clean_str s \<longleftrightarrow> 10 \<notin> set s"

definition clean_directive :: "directive \<Rightarrow> bool" where
  "clean_directive d \<longleftrightarrow> clean_str (d_keyword d) \<and> clean_str (d_value d)
     \<and> clean_str (sep_str (d_separator d)) \<and> clean_str (d_indent d) \<and> clean_str (d_trailing_ws d)
     \<and> (case d_inline_comment d of None \<Rightarrow> True | Some c \<Rightarrow> clean_str c) \<and> clean_str (d_raw d)"

fun clean_item :: "item \<Rightarrow> bool" where
  "clean_item (IBlank s) = clean_str s"
| "clean_item (IComment s) = clean_str s"
| "clean_item (IDirective d) = clean_directive d"
| "clean_item (IHost (HostBlock h p b)) = (clean_directive h \<and> list_all clean_item b)"
| "clean_item (IMatch (MatchBlock h c b)) = (clean_directive h \<and> list_all clean_item b)"

definition clean_host :: "host_block \<Rightarrow> bool" where
  "clean_host h \<longleftrightarrow> clean_directive (hb_header h) \<and> list_all clean_item (hb_body h)"

lemma clean_item_IHost: "clean_item (IHost h) = clean_host h"
  by (cases h) (simp add: clean_host_def)

lemma clean_str_simps [simp]:
  "clean_str []" "clean_str (a @ b) \<longleftrightarrow> clean_str a \<and> clean_str b"
  "clean_str (c # s) \<longleftrightarrow> c \<noteq> 10 \<and> clean_str s"
  by (auto simp: clean_str_def)

lemma clean_strip_crlf [simp]: "clean_str (strip_crlf s)"
  by (auto simp: clean_str_def strip_crlf_def)

lemma clean_sanitize [simp]: "clean_str (sanitize_value s)"
  by (simp add: sanitize_value_def)

lemma clean_quote: "clean_str s \<Longrightarrow> clean_str (quote_spaced_path s)"
  by (simp add: quote_spaced_path_def chr_def)

lemma clean_spaces [simp]: "clean_str (lit ''    '')" "clean_str (lit '' '')" "clean_str (lit ''# '')"
  by (simp_all add: clean_str_def str_simps)

lemma clean_join: "clean_str sep \<Longrightarrow> (\<And>x. x \<in> set xs \<Longrightarrow> clean_str x) \<Longrightarrow> clean_str (join sep xs)"
  by (induction sep xs rule: join.induct) auto

lemma clean_render: "clean_directive d \<Longrightarrow> clean_str (render_directive d)"
  by (auto simp: clean_directive_def render_directive_def Let_def split: option.splits)

lemma clean_push:
  "clean_item it \<Longrightarrow> list_all clean_str (push_item it)"
  "list_all clean_item its \<Longrightarrow> list_all clean_str (push_items its)"
  by (induction it and its rule: push_item_push_items.induct) (auto simp: clean_render)

lemma clean_directive_new:
  "clean_str keyword \<Longrightarrow> clean_str indent \<Longrightarrow> clean_directive (directive_new lc keyword v indent)"
  by (simp add: clean_directive_def directive_new_def)

lemma clean_infer_indent: "list_all clean_item body \<Longrightarrow> clean_str (infer_indent body)"
  by (induction body rule: infer_indent.induct) (auto simp: clean_directive_def)

lemma clean_insert_directive:
  "clean_host h \<Longrightarrow> clean_str keyword \<Longrightarrow> clean_host (insert_directive lc h keyword v)"
  by (auto simp: clean_host_def insert_directive_def Let_def set_body_def list_all_iff set_insert_at
      intro!: clean_directive_new clean_infer_indent)

lemma clean_update_field:
  "update_field key v body = Some (b, c) \<Longrightarrow> list_all clean_item body \<Longrightarrow> clean_str v \<Longrightarrow>
     list_all clean_item b"
proof (induction body arbitrary: b c)
  case Nil
  then show ?case by simp
next
  case (Cons it body)
  then show ?case
    by (fastforce simp: clean_directive_def split: item.splits if_splits)
qed

lemma clean_set_host_field:
  "clean_host h \<Longrightarrow> clean_str keyword \<Longrightarrow> clean_host (fst (set_host_field lc h keyword v))"
  using clean_insert_directive [of h keyword lc "sanitize_value v"]
  by (auto simp: set_host_field_def Let_def clean_host_def set_body_def
      dest: clean_update_field split: option.splits prod.splits)

lemma clean_remove_at: "list_all clean_item b \<Longrightarrow> list_all clean_item (remove_at i b)"
  using set_remove_at by (fastforce simp: list_all_iff)

lemma clean_list_update: "list_all P b \<Longrightarrow> P x \<Longrightarrow> list_all P (b[i := x])"
  by (auto simp: list_all_iff dest: set_update_subset_insert [THEN subsetD])

lemma clean_foldl_remove: "list_all clean_item b \<Longrightarrow> list_all clean_item (foldl (\<lambda>b i. remove_at i b) b is)"
  by (induction "is" arbitrary: b) (auto simp: clean_remove_at)

lemma clean_point_at: "clean_item it \<Longrightarrow> clean_str v \<Longrightarrow> clean_item (point_at v it)"
  by (auto simp: point_at_def clean_directive_def split: item.splits)

lemma clean_set_host_patterns: "clean_host h \<Longrightarrow> clean_host (fst (set_host_patterns h ps))"
proof -
  assume h: "clean_host h"
  have "clean_str (join (lit '' '') (filter (\<lambda>p. p \<noteq> []) (map strip_crlf ps)))"
    by (rule clean_join) auto
  with h show ?thesis
    by (simp add: set_host_patterns_def Let_def clean_host_def clean_directive_def)
qed

lemma clean_remove_host_field: "clean_host h \<Longrightarrow> clean_host (fst (remove_host_field lc h k))"
  by (auto simp: remove_host_field_def clean_host_def set_body_def clean_remove_at
      split: option.splits)

lemma clean_set_host_enabled: "clean_host h \<Longrightarrow> clean_host (set_host_enabled h e)"
  by (auto simp: set_host_enabled_def clean_host_def set_directive_enabled_def clean_directive_def
      list_all_iff split: item.splits)

lemma clean_set_tags:
  assumes "clean_host h" and "\<And>t. t \<in> set tags \<Longrightarrow> clean_str t"
  shows "clean_host (set_tags h tags)"
proof -
  have "clean_str (TAGS_PREFIX @ join (lit '','') tags)"
    using clean_join [of "lit '',''" tags] assms(2)
    by (simp add: TAGS_PREFIX_def) (simp add: clean_str_def str_simps)
  with assms(1) show ?thesis
    by (auto simp: set_tags_def Let_def clean_host_def set_body_def clean_remove_at
        clean_list_update split: option.splits)
qed

text \<open>The parser produces clean items: a line has no line feed, so no piece of it has.\<close>

lemma clean_item_of_line:
  assumes "clean_str l"
  shows "clean_item (item_of_line lc l)"
proof (cases "classify_line lc l")
  case (LDirective d)
  from classify_line_directive(1,2) [OF LDirective] assms
  have "clean_str (d_indent d @ d_keyword d @ sep_str (d_separator d) @ d_value d @ d_trailing_ws d
      @ (case d_inline_comment d of None \<Rightarrow> [] | Some c \<Rightarrow> c))" "clean_str (d_raw d)"
    by simp_all
  then have "clean_directive d"
    by (auto simp: clean_directive_def split: option.splits)
  with LDirective show ?thesis by (simp add: item_of_line_def)
qed (use assms in \<open>simp_all add: item_of_line_def\<close>)

lemma clean_block_of: "clean_directive h \<Longrightarrow> list_all clean_item b \<Longrightarrow> clean_item (block_of k h b)"
  by (cases k) (simp_all add: block_of_def)

lemma clean_group_blocks: "list_all clean_item flat \<Longrightarrow> list_all clean_item (group_blocks flat)"
proof (induction flat rule: blocks_induct)
  case (Header d k iter)
  then have "list_all clean_item (takeWhile (\<lambda>n. header_kind n = None) iter)"
    "list_all clean_item (dropWhile (\<lambda>n. header_kind n = None) iter)"
    by (auto simp: list_all_iff dest: set_takeWhileD set_dropWhileD)
  with Header show ?case by (simp add: group_blocks_header clean_block_of)
qed (auto simp: group_blocks_plain)

lemma clean_parse_file: "list_all clean_item (fst (parse_file lc txt))"
proof -
  have "list_all clean_item (map (item_of_line lc) (split_on 10 s))" for s
    using split_on_no_sep [of _ 10 s] by (auto simp: list_all_iff clean_str_def
        intro!: clean_item_of_line)
  then show ?thesis
    by (simp add: parse_file_def Let_def clean_group_blocks)
qed

text \<open>The physical lines of a clean document are exactly the lines its items print.\<close>

lemma clean_lines:
  assumes "list_all clean_item items" and "push_items items \<noteq> []"
  shows "split_on 10 (join [10] (push_items items)) = push_items items"
  by (rule split_on_join [OF assms(2)]) (use clean_push(2) [OF assms(1)] in
      \<open>auto simp: list_all_iff clean_str_def\<close>)

section \<open>Single-line edits\<close>

lemma find_append_part:
  "find p (xs @ ys) = (case find p xs of None \<Rightarrow> find p ys | Some x \<Rightarrow> Some x)"
  by (induction xs) auto

lemma split_on_trailing:
  assumes "xs \<noteq> []" and "\<forall>x \<in> set xs. c \<notin> set x"
  shows "split_on c (join [c] xs @ (if nl then [c] else [])) = xs @ (if nl then [[]] else [])"
proof (cases nl)
  case True
  have "join [c] xs @ [c] = join [c] (xs @ [[]])"
    using assms(1)
  proof (induction xs)
    case (Cons x xs)
    then show ?case by (cases xs) auto
  qed simp
  then show ?thesis
    using split_on_join [of "xs @ [[]]" c] assms(2) True by simp
next
  case False
  then show ?thesis by (simp add: split_on_join [OF assms])
qed

lemma find_host_mut_Some:
  "find_host_mut items alias = Some (i, h) \<Longrightarrow>
     i < length items \<and> items ! i = IHost h \<and> alias \<in> set (hb_patterns h)"
proof (induction items arbitrary: i)
  case Nil
  then show ?case by simp
next
  case (Cons it items)
  then show ?case
    by (cases it) (fastforce simp: list_ex_iff split: if_splits)+
qed

lemma push_item_IHost: "push_item (IHost h) = render_directive (hb_header h) # push_items (hb_body h)"
  by (cases h) simp

lemma push_items_update:
  "i < length items \<Longrightarrow> push_items (items[i := x])
     = push_items (take i items) @ push_item x @ push_items (drop (Suc i) items)"
  by (simp add: upd_conv_take_nth_drop push_items_append)

lemma push_items_nth:
  "i < length items \<Longrightarrow> push_items items
     = push_items (take i items) @ push_item (items ! i) @ push_items (drop (Suc i) items)"
  using push_items_update [of i items "items ! i"] by simp

lemma update_field_Some:
  "update_field key v body = Some (b, c) \<Longrightarrow>
     \<exists>pre d post. body = pre @ IDirective d # post \<and> d_key d = key
       \<and> (\<forall>x \<in> set pre. \<not> has_key key x)
       \<and> b = pre @ IDirective (if d_value d = v then d else d\<lparr>d_value := v, d_dirty := True\<rparr>) # post
       \<and> c = (d_value d \<noteq> v)"
proof (induction body arbitrary: b c)
  case Nil
  then show ?case by simp
next
  case (Cons it body)
  show ?case
  proof (cases "has_key key it")
    case True
    then obtain d where d: "it = IDirective d" "d_key d = key"
      by (auto simp: has_key_def split: item.splits)
    then show ?thesis
      using Cons.prems by (intro exI [of _ "[]"]) (auto split: if_splits)
  next
    case False
    with Cons.prems obtain b' where b': "update_field key v body = Some (b', c)" "b = it # b'"
      by (auto simp: has_key_def split: item.splits if_splits)
    from Cons.IH [OF b'(1)] obtain pre d post where
      "body = pre @ IDirective d # post" "d_key d = key" "\<forall>x \<in> set pre. \<not> has_key key x"
      "b' = pre @ IDirective (if d_value d = v then d else d\<lparr>d_value := v, d_dirty := True\<rparr>) # post"
      "c = (d_value d \<noteq> v)"
      by blast
    then show ?thesis
      using False b'(2) by (intro exI [of _ "it # pre"]) auto
  qed
qed

lemma update_field_None: "update_field key v body = None \<longleftrightarrow> (\<forall>x \<in> set body. \<not> has_key key x)"
  by (induction body) (auto simp: has_key_def split: item.splits)

lemma insert_directive_split:
  "\<exists>pre post indent. hb_body h = pre @ post
     \<and> insert_directive lc h kw v = set_body h (pre @ IDirective (directive_new lc kw v indent) # post)"
  unfolding insert_directive_def insert_at_def Let_def by (metis append_take_drop_id)

text \<open>What a field edit does to a body: it keeps it, replaces one directive, or inserts one.\<close>

definition one_edit :: "'a list \<Rightarrow> 'a list \<Rightarrow> bool" where
  "one_edit old new \<longleftrightarrow> new = old
     \<or> (\<exists>pre a b post. old = pre @ a # post \<and> new = pre @ b # post)
     \<or> (\<exists>pre b post. old = pre @ post \<and> new = pre @ b # post)"

lemma one_edit_refl: "one_edit xs xs"
  by (simp add: one_edit_def)

lemma one_edit_context: "one_edit xs ys \<Longrightarrow> one_edit (pre @ xs @ post) (pre @ ys @ post)"
proof -
  assume "one_edit xs ys"
  then consider "ys = xs"
    | p a b q where "xs = p @ a # q" "ys = p @ b # q"
    | p b q where "xs = p @ q" "ys = p @ b # q"
    by (auto simp: one_edit_def)
  then show ?thesis
  proof cases
    case 1
    then show ?thesis by (simp add: one_edit_refl)
  next
    case (2 p a b q)
    then have "pre @ xs @ post = (pre @ p) @ a # (q @ post)" "pre @ ys @ post = (pre @ p) @ b # (q @ post)"
      by simp_all
    then show ?thesis unfolding one_edit_def by blast
  next
    case (3 p b q)
    then have "pre @ xs @ post = (pre @ p) @ (q @ post)" "pre @ ys @ post = (pre @ p) @ b # (q @ post)"
      by simp_all
    then show ?thesis unfolding one_edit_def by blast
  qed
qed

lemma set_host_field_body:
  obtains (same) "fst (set_host_field lc h kw v) = h" "\<not> snd (set_host_field lc h kw v)"
      and "\<exists>pre d post. hb_body h = pre @ IDirective d # post \<and> d_key d = lc kw
        \<and> (\<forall>x \<in> set pre. \<not> has_key (lc kw) x) \<and> d_value d = sanitize_value v"
    | (replaced) pre d post where "hb_body h = pre @ IDirective d # post" "d_key d = lc kw"
        "\<forall>x \<in> set pre. \<not> has_key (lc kw) x" "d_value d \<noteq> sanitize_value v"
        "set_host_field lc h kw v =
           (set_body h (pre @ IDirective (d\<lparr>d_value := sanitize_value v, d_dirty := True\<rparr>) # post), True)"
    | (inserted) pre post indent where "hb_body h = pre @ post"
        "\<forall>x \<in> set (hb_body h). \<not> has_key (lc kw) x"
        "set_host_field lc h kw v =
           (set_body h (pre @ IDirective (directive_new lc kw (sanitize_value v) indent) # post), True)"
proof (cases "update_field (lc kw) (sanitize_value v) (hb_body h)")
  case None
  obtain pre post indent where *: "hb_body h = pre @ post"
    "insert_directive lc h kw (sanitize_value v)
      = set_body h (pre @ IDirective (directive_new lc kw (sanitize_value v) indent) # post)"
    using insert_directive_split by blast
  have "set_host_field lc h kw v = (insert_directive lc h kw (sanitize_value v), True)"
    using None by (simp add: set_host_field_def)
  with * None show thesis
    by (intro inserted [of pre post indent]) (simp_all only: update_field_None simp_thms)
next
  case (Some bc)
  obtain b c where bc: "bc = (b, c)" by (cases bc)
  from update_field_Some [of "lc kw" "sanitize_value v" "hb_body h" b c] Some bc
  obtain pre d post where *: "hb_body h = pre @ IDirective d # post" "d_key d = lc kw"
    "\<forall>x \<in> set pre. \<not> has_key (lc kw) x"
    "b = pre @ IDirective (if d_value d = sanitize_value v then d
         else d\<lparr>d_value := sanitize_value v, d_dirty := True\<rparr>) # post"
    "c = (d_value d \<noteq> sanitize_value v)"
    by blast
  have eq: "set_host_field lc h kw v = (set_body h b, c)"
    using Some bc by (simp add: set_host_field_def)
  show thesis
  proof (cases "d_value d = sanitize_value v")
    case True
    then have "set_body h b = h" using * by (cases h) (simp add: set_body_def)
    with eq * True show thesis by (intro same) auto
  next
    case False
    with eq * show thesis by (intro replaced) auto
  qed
qed

lemma set_host_field_header [simp]: "hb_header (fst (set_host_field lc h kw v)) = hb_header h"
  by (cases rule: set_host_field_body [of lc h kw v]) (simp_all add: set_body_def)

lemma set_host_field_lines:
  "one_edit (push_item (IHost h)) (push_item (IHost (fst (set_host_field lc h kw v))))"
proof -
  have "one_edit (push_items (hb_body h)) (push_items (hb_body (fst (set_host_field lc h kw v))))"
  proof (cases rule: set_host_field_body [of lc h kw v])
    case same
    then show ?thesis by (simp add: one_edit_refl)
  next
    case (replaced pre d post)
    then show ?thesis
      unfolding one_edit_def set_body_def by (auto simp: push_items_append)
  next
    case (inserted pre post indent)
    then have "push_items (hb_body h) = push_items pre @ push_items post"
      "push_items (hb_body (fst (set_host_field lc h kw v))) = push_items pre
         @ render_directive (directive_new lc kw (sanitize_value v) indent) # push_items post"
      by (simp_all add: set_body_def push_items_append)
    then show ?thesis unfolding one_edit_def by blast
  qed
  from one_edit_context [OF this, of "[render_directive (hb_header h)]" "[]"]
  show ?thesis by (simp add: push_item_IHost)
qed

section \<open>Reordering\<close>

text \<open>The reordering seen item by item: each host slot takes the next host of the new order.\<close>

fun place :: "item list \<Rightarrow> item list \<Rightarrow> item list" where
  "place [] hs = []"
| "place (it # items) hs =
     (if is_host it then (case hs of [] \<Rightarrow> it # items | h # hs' \<Rightarrow> h # place items hs')
      else it # place items hs)"

definition host_slots :: "item list \<Rightarrow> nat list" where
  "host_slots items = filter (\<lambda>i. is_host (items ! i)) [0..<length items]"

lemma host_slots_Cons:
  "host_slots (it # items) = (if is_host it then [0] else []) @ map Suc (host_slots items)"
proof -
  have "[0..<length (it # items)] = 0 # map Suc [0..<length items]"
    by (simp add: upt_conv_Cons map_Suc_upt del: upt_Suc)
  then show ?thesis
    by (simp add: host_slots_def filter_map o_def)
qed

lemma host_slots_Nil [simp]: "host_slots [] = []"
  by (simp add: host_slots_def)

lemma hosts_of_slots: "map (\<lambda>i. items ! i) (host_slots items) = filter is_host items"
  by (induction items) (simp_all add: host_slots_Cons o_def)

lemma foldl_shift:
  "foldl (\<lambda>its (slot, it). its[slot := it]) (a # items) (zip (map Suc idx) xs)
     = a # foldl (\<lambda>its (slot, it). its[slot := it]) items (zip idx xs)"
proof (induction idx arbitrary: items xs)
  case Nil
  then show ?case by simp
next
  case (Cons i idx)
  then show ?case by (cases xs) auto
qed

lemma place_Nil: "place items [] = items"
  by (induction items) auto

lemma foldl_place:
  "foldl (\<lambda>its (slot, it). its[slot := it]) items (zip (host_slots items) hs) = place items hs"
proof (induction items arbitrary: hs)
  case Nil
  then show ?case by simp
next
  case (Cons it items)
  then show ?case
    by (cases hs) (simp_all add: host_slots_Cons foldl_shift place_Nil)
qed

lemma place_filter:
  assumes "list_all is_host hs" and "length hs = length (filter is_host items)"
  shows "filter is_host (place items hs) = hs"
    and "filter (\<lambda>it. \<not> is_host it) (place items hs) = filter (\<lambda>it. \<not> is_host it) items"
    and "length (place items hs) = length items"
    and "i < length items \<Longrightarrow> \<not> is_host (items ! i) \<Longrightarrow> place items hs ! i = items ! i"
  using assms
proof (induction items arbitrary: hs i)
  case (Cons it items)
  {
    case 1
    then show ?case using Cons.IH(1) by (cases hs) auto
  next
    case 2
    then show ?case using Cons.IH(2) by (cases hs) auto
  next
    case 3
    then show ?case using Cons.IH(3) by (cases hs) auto
  next
    case 4
    then show ?case using Cons.IH(4) by (cases hs; cases i) auto
  }
qed simp_all

lemma take_named_inv:
  assumes "length used = length hosts" and "distinct no"
    and "set no = {i. i < length hosts \<and> used ! i}"
    and "take_named hosts (no, used) alias = (no', used')"
  shows "length used' = length hosts \<and> distinct no' \<and> set no' = {i. i < length hosts \<and> used' ! i}
     \<and> prefix no no'"
proof (cases "find (\<lambda>i. \<not> used ! i \<and> host_matches alias (hosts ! i)) [0..<length hosts]")
  case None
  with assms show ?thesis by (auto simp: take_named_def)
next
  case (Some i)
  then have i: "i < length hosts" "\<not> used ! i"
    by (auto simp: find_Some_iff)
  have eq: "no' = no @ [i]" "used' = used[i := True]"
    using assms(4) Some by (simp_all add: take_named_def)
  have "{j. j < length hosts \<and> used' ! j} = insert i {j. j < length hosts \<and> used ! j}"
    using i assms(1) by (auto simp: eq nth_list_update)
  moreover have "i \<notin> set no"
    using i assms(3) by simp
  ultimately show ?thesis
    using assms(1-3) by (simp add: eq)
qed

lemma take_named_run:
  assumes "length used = length hosts" and "distinct no"
    and "set no = {i. i < length hosts \<and> used ! i}"
    and "foldl (take_named hosts) (no, used) order = (no', used')"
  shows "length used' = length hosts \<and> distinct no' \<and> set no' = {i. i < length hosts \<and> used' ! i}
     \<and> prefix no no'"
  using assms
proof (induction order arbitrary: no used)
  case Nil
  then show ?case by auto
next
  case (Cons a order)
  obtain n u where nu: "take_named hosts (no, used) a = (n, u)" by fastforce
  have "length u = length hosts \<and> distinct n \<and> set n = {i. i < length hosts \<and> u ! i} \<and> prefix no n"
    by (rule take_named_inv [OF Cons.prems(1-3) nu])
  with Cons.IH [of u n] Cons.prems(4) nu show ?case
    using prefix_order.trans by auto
qed

lemma new_host_order_perm: "mset (new_host_order hosts order) = mset [0..<length hosts]"
proof -
  obtain no used where nu:
    "foldl (take_named hosts) ([], replicate (length hosts) False) order = (no, used)"
    by fastforce
  have *: "length used = length hosts \<and> distinct no \<and> set no = {i. i < length hosts \<and> used ! i}"
    using take_named_run [OF _ _ _ nu] by simp
  have eq: "new_host_order hosts order = no @ filter (\<lambda>i. \<not> used ! i) [0..<length hosts]"
    using nu by (simp add: new_host_order_def)
  have "distinct (new_host_order hosts order)"
    using * by (simp add: eq) blast
  moreover have "set (new_host_order hosts order) = set [0..<length hosts]"
    using * by (simp add: eq) fastforce
  ultimately show ?thesis
    using set_eq_iff_mset_eq_distinct [of "new_host_order hosts order" "[0..<length hosts]"] by simp
qed

lemma reorder_hosts_place:
  "reorder_hosts items order =
     place items (map (\<lambda>i. filter is_host items ! i) (new_host_order (filter is_host items) order))"
proof (cases "host_slots items = []")
  case True
  then have "filter is_host items = []"
    using hosts_of_slots [of items] by simp
  then have "mset (new_host_order (filter is_host items) order) = {#}"
    using new_host_order_perm [of "filter is_host items" order] by simp
  then show ?thesis
    using True by (simp add: reorder_hosts_def host_slots_def place_Nil)
next
  case False
  then have "reorder_hosts items order =
    foldl (\<lambda>its (slot, it). its[slot := it]) items (zip (host_slots items)
      (map (\<lambda>i. map ((!) items) (host_slots items) ! i)
         (new_host_order (map ((!) items) (host_slots items)) order)))"
    unfolding reorder_hosts_def Let_def host_slots_def by simp
  then show ?thesis
    by (simp add: hosts_of_slots foldl_place)
qed

lemma reordered_hosts:
  "mset (map (\<lambda>i. hosts ! i) (new_host_order hosts order)) = mset hosts"
proof -
  have "mset (map (\<lambda>i. hosts ! i) (new_host_order hosts order))
      = image_mset (\<lambda>i. hosts ! i) (mset [0..<length hosts])"
    by (simp only: mset_map new_host_order_perm)
  also have "\<dots> = mset (map (\<lambda>i. hosts ! i) [0..<length hosts])"
    by simp
  finally show ?thesis by (simp only: map_nth)
qed

lemma reordered_all_hosts:
  "list_all is_host (map (\<lambda>i. filter is_host items ! i) (new_host_order (filter is_host items) order))"
  "length (map (\<lambda>i. filter is_host items ! i) (new_host_order (filter is_host items) order))
     = length (filter is_host items)"
proof -
  let ?hs = "map (\<lambda>i. filter is_host items ! i) (new_host_order (filter is_host items) order)"
  have m: "mset ?hs = mset (filter is_host items)" by (rule reordered_hosts)
  show "list_all is_host ?hs"
    using mset_eq_setD [OF m] unfolding list_all_iff by auto
  show "length ?hs = length (filter is_host items)"
    by (rule mset_eq_length [OF m])
qed

text \<open>The first host that an order names comes first.\<close>

lemma new_host_order_hd:
  assumes "\<exists>h \<in> set hosts. host_matches a h"
  shows "new_host_order hosts (a # order) \<noteq> []
    \<and> host_matches a (hosts ! hd (new_host_order hosts (a # order)))"
proof -
  let ?u = "replicate (length hosts) False"
  obtain i where i: "find (\<lambda>i. \<not> ?u ! i \<and> host_matches a (hosts ! i)) [0..<length hosts] = Some i"
  proof (cases "find (\<lambda>i. \<not> ?u ! i \<and> host_matches a (hosts ! i)) [0..<length hosts]")
    case None
    then show thesis using assms by (fastforce simp: find_None_iff in_set_conv_nth)
  qed blast
  then have m: "i < length hosts" "host_matches a (hosts ! i)"
    by (auto simp: find_Some_iff)
  obtain no used where run: "foldl (take_named hosts) ([i], ?u[i := True]) order = (no, used)"
    by fastforce
  have "set [i] = {j. j < length hosts \<and> ?u[i := True] ! j}"
    using m(1) by (auto simp: nth_list_update)
  then have "prefix [i] no"
    using take_named_run [OF _ _ _ run] by simp
  then obtain rest where "no = i # rest" by (auto simp: prefix_def)
  moreover have "new_host_order hosts (a # order) = no @ filter (\<lambda>i. \<not> used ! i) [0..<length hosts]"
    using i run by (simp add: new_host_order_def take_named_def)
  ultimately show ?thesis using m(2) by simp
qed

section \<open>Placement of a new include\<close>

lemma file_shape_blocks:
  assumes "file_shape items" and "i < length items" and "is_block (items ! i)" and "i \<le> j"
    and "j < length items"
  shows "is_block (items ! j)"
  using assms(1) unfolding file_shape_def
proof
  assume "list_all is_block (dropWhile (\<lambda>it. \<not> is_block it) items)"
  then show ?thesis
    using assms(2-5)
  proof (induction items arbitrary: i j)
    case (Cons it items)
    show ?case
    proof (cases "is_block it")
      case True
      with Cons.prems(1,5) show ?thesis by (auto simp: list_all_iff nth_Cons split: nat.split)
    next
      case False
      with Cons.prems(3) obtain i' where "i = Suc i'" by (cases i) auto
      moreover from this Cons.prems(4) obtain j' where "j = Suc j'" by (cases j) auto
      ultimately show ?thesis using False Cons.prems Cons.IH [of i' j'] by auto
    qed
  qed simp
qed

lemma include_before_blocks:
  assumes "file_shape items" and "j < include_insert_index items" and "j < length items"
  shows "\<not> is_block (items ! j)"
proof (cases "rposition live_include items")
  case (Some i)
  then have i: "i < length items" "live_include (items ! i)" "j \<le> i"
    using rposition_Some [OF Some] assms(2) by (simp_all add: include_insert_index_def)
  then have "\<not> is_block (items ! i)"
    by (cases "items ! i") (simp_all add: live_include_def)
  with file_shape_blocks [OF assms(1), of j i] i assms(3) show ?thesis by blast
next
  case None
  show ?thesis
  proof (cases "position is_block items")
    case (Some k)
    with None assms(2) have "j < k" by (simp add: include_insert_index_def)
    with position_Some [OF Some] show ?thesis by blast
  next
    case k: None
    with position_None [of is_block items] assms(3) show ?thesis by auto
  qed
qed

lemma clean_replace_identity_files:
  assumes "clean_host h"
  shows "clean_host (fst (replace_identity_files lc h v))"
proof -
  let ?v = "quote_spaced_path (sanitize_value v)"
  have v: "clean_str ?v" by (simp add: clean_quote)
  have up: "list_all clean_item (b[i := point_at ?v (b ! i)])" if "list_all clean_item b" for b i
  proof (cases "i < length b")
    case True
    with that have "clean_item (b ! i)" by (simp add: list_all_length)
    with that v show ?thesis by (intro clean_list_update clean_point_at)
  qed (use that in \<open>simp add: list_update_beyond\<close>)
  have "clean_str (lit ''IdentityFile'')" by (simp add: clean_str_def str_simps)
  then show ?thesis
    using assms clean_insert_directive [OF assms, of "lit ''IdentityFile''" lc ?v]
    unfolding replace_identity_files_def Let_def
    by (auto simp: clean_host_def set_body_def intro!: up clean_foldl_remove split: list.splits)
qed

section \<open>Properties\<close>

text \<open>Editing one field of one host of any configuration file changes at most one physical
  line of the file: the text written back equals the old text, or differs in one replaced line,
  or has one line more.\<close>

theorem set_host_field_one_line:
  assumes "parse_file lc txt = (items, nl)" and "find_host_mut items alias = Some (i, h)"
    and "10 \<notin> set keyword"
  shows "one_edit (split_on 10 txt)
    (split_on 10 (serialize_items (items[i := IHost (fst (set_host_field lc h keyword v))]) nl))"
proof -
  let ?h' = "fst (set_host_field lc h keyword v)"
  let ?items' = "items[i := IHost ?h']"
  have i: "i < length items" "items ! i = IHost h"
    using find_host_mut_Some [OF assms(2)] by simp_all
  have clean: "list_all clean_item items"
    using clean_parse_file [of lc "txt"] assms(1) by simp
  then have "clean_host h"
    using i by (metis clean_item_IHost list_all_length)
  then have clean': "list_all clean_item ?items'"
    using assms(3) clean
    by (intro clean_list_update) (simp_all add: clean_item_IHost clean_set_host_field clean_str_def)
  let ?pre = "push_items (take i items)" and ?post = "push_items (drop (Suc i) items)"
  have old: "push_items items = ?pre @ push_item (IHost h) @ ?post"
    using push_items_nth [OF i(1)] i(2) by simp
  have new: "push_items ?items' = ?pre @ push_item (IHost ?h') @ ?post"
    using push_items_update [OF i(1)] by simp
  have lines: "split_on 10 (serialize_items its nl) = push_items its @ (if nl then [[]] else [])"
    if "list_all clean_item its" "push_items its \<noteq> []" for its
    unfolding serialize_items_def using clean_push(2) [OF that(1)] that(2)
    by (intro split_on_trailing) (auto simp: list_all_iff clean_str_def)
  have "split_on 10 txt = push_items items @ (if nl then [[]] else [])"
    using lines [OF clean] serialize_parse [of lc "txt"] assms(1) old by (simp add: push_item_IHost)
  moreover have "split_on 10 (serialize_items ?items' nl) = push_items ?items' @ (if nl then [[]] else [])"
    using lines [OF clean'] new by (simp add: push_item_IHost)
  moreover have "one_edit (push_items items) (push_items ?items')"
    using one_edit_context [OF set_host_field_lines [of h lc keyword v]] old new by metis
  ultimately show ?thesis
    using one_edit_context [of _ _ "[]"] by fastforce
qed

theorem set_host_field_one_line_witness:
  "\<exists>items nl i h. parse_file to_ascii_lowercase (lit ''Host web'' @ [10]) = (items, nl)
     \<and> find_host_mut items (lit ''web'') = Some (i, h)
     \<and> one_edit (split_on 10 (lit ''Host web'' @ [10]))
         (split_on 10 (serialize_items
           (items[i := IHost (fst (set_host_field to_ascii_lowercase h (lit ''Port'') (lit ''22'')))]) nl))"
proof -
  let ?t = "lit ''Host web'' @ [10]"
  obtain items nl where p: "parse_file to_ascii_lowercase ?t = (items, nl)" by fastforce
  have "\<exists>i h. find_host_mut (fst (parse_file to_ascii_lowercase ?t)) (lit ''web'') = Some (i, h)"
    by (simp add: parse_file_def ends_with_def item_of_line_def classify_line_def Let_def
        split_value_comment_def trim_start_def trim_end_def starts_with_def to_ascii_lowercase_def
        group_blocks.simps block_of_def split_whitespace.simps str_simps)
  then obtain i h where f: "find_host_mut items (lit ''web'') = Some (i, h)" using p by auto
  have "10 \<notin> set (lit ''Port'')" by (simp add: str_simps)
  from set_host_field_one_line [OF p f this] p f show ?thesis by blast
qed

text \<open>After a field is set, the first directive with that key carries the value without
  carriage returns and line feeds, every other directive is as before, and the reported flag says
  whether the block changed.\<close>

theorem set_host_field_get:
  "(\<exists>d. find (has_key (lc keyword)) (hb_body (fst (set_host_field lc h keyword v))) = Some (IDirective d)
       \<and> d_value d = filter (\<lambda>c. c \<noteq> 13 \<and> c \<noteq> 10) v)
   \<and> filter (\<lambda>it. \<not> has_key (lc keyword) it) (hb_body (fst (set_host_field lc h keyword v)))
     = filter (\<lambda>it. \<not> has_key (lc keyword) it) (hb_body h)
   \<and> (snd (set_host_field lc h keyword v) = (fst (set_host_field lc h keyword v) \<noteq> h))"
proof (cases rule: set_host_field_body [of lc h keyword v])
  case same
  then obtain pre d post where d: "hb_body h = pre @ IDirective d # post" "d_key d = lc keyword"
    "\<forall>x \<in> set pre. \<not> has_key (lc keyword) x" "d_value d = sanitize_value v"
    by blast
  then have "find (has_key (lc keyword)) pre = None" by (auto simp: find_None_iff)
  with d same show ?thesis
    by (simp add: has_key_def [of _ "IDirective d"] find_append_part sanitize_value_def strip_crlf_def)
next
  case (replaced pre d post)
  then have "find (has_key (lc keyword)) pre = None" by (auto simp: find_None_iff)
  with replaced show ?thesis
    by (cases h; cases d)
      (auto simp: has_key_def find_append_part set_body_def sanitize_value_def strip_crlf_def)
next
  case (inserted pre post indent)
  then have "find (has_key (lc keyword)) pre = None" by (auto simp: find_None_iff)
  with inserted show ?thesis
    by (cases h) (auto simp: has_key_def find_append_part set_body_def sanitize_value_def strip_crlf_def
        directive_new_def)
qed

text \<open>Reordering hosts permutes the items of the file: nothing is lost or duplicated, every
  item that is not a host keeps its position, the host positions are the same, and when some host
  carries the first requested alias, the first host slot receives a host with that alias.\<close>

theorem reorder_hosts_permutes:
  "mset (reorder_hosts items order) = mset items
   \<and> (\<forall>i. i < length items \<and> \<not> is_host (items ! i) \<longrightarrow> reorder_hosts items order ! i = items ! i)
   \<and> (\<forall>a rest. order = a # rest \<and> (\<exists>h \<in> set items. host_matches a h)
        \<longrightarrow> host_matches a (hd (filter is_host (reorder_hosts items order))))"
proof (intro conjI allI impI)
  let ?hs = "map (\<lambda>i. filter is_host items ! i) (new_host_order (filter is_host items) order)"
  note eq = reorder_hosts_place [of items order]
  note p = place_filter [OF reordered_all_hosts]
  have split: "mset xs = mset (filter is_host xs) + mset (filter (\<lambda>x. \<not> is_host x) xs)" for xs
    by (induction xs) auto
  have "mset (place items ?hs) = mset ?hs + mset (filter (\<lambda>x. \<not> is_host x) items)"
    by (subst split) (simp only: p)
  also have "\<dots> = mset items"
    by (subst (3) split) (simp only: reordered_hosts)
  finally show "mset (reorder_hosts items order) = mset items"
    by (simp only: eq)
  show "reorder_hosts items order ! i = items ! i" if "i < length items \<and> \<not> is_host (items ! i)" for i
    unfolding eq by (rule p(4)) (use that in simp_all)
  show "host_matches a (hd (filter is_host (reorder_hosts items order)))"
    if *: "order = a # rest \<and> (\<exists>h \<in> set items. host_matches a h)" for a rest
  proof -
    have "\<exists>h \<in> set (filter is_host items). host_matches a h"
      using * by (auto simp: host_matches_def is_host_def split: item.splits)
    then have "new_host_order (filter is_host items) order \<noteq> []
      \<and> host_matches a (filter is_host items ! hd (new_host_order (filter is_host items) order))"
      using new_host_order_hd * by metis
    then show ?thesis
      by (simp only: eq p) (simp add: list.map_sel)
  qed
qed

theorem reorder_hosts_permutes_witness:
  "let mk = (\<lambda>a. IHost (HostBlock (directive_new to_ascii_lowercase (lit ''Host'') a []) [a] []));
       items = [mk (lit ''a''), IComment (lit ''#''), mk (lit ''b'')];
       out = reorder_hosts items [lit ''b'']
   in mset out = mset items \<and> out ! 1 = IComment (lit ''#'')
      \<and> host_matches (lit ''b'') (hd (filter is_host out))"
proof -
  let ?mk = "\<lambda>a. IHost (HostBlock (directive_new to_ascii_lowercase (lit ''Host'') a []) [a] [])"
  let ?items = "[?mk (lit ''a''), IComment (lit ''#''), ?mk (lit ''b'')]"
  have "\<exists>h \<in> set ?items. host_matches (lit ''b'') h" "\<not> is_host (?items ! 1)" "1 < length ?items"
    by (simp_all add: host_matches_def is_host_def)
  with reorder_hosts_permutes [of ?items "[lit ''b'']"]
  have "mset (reorder_hosts ?items [lit ''b'']) = mset ?items"
    "reorder_hosts ?items [lit ''b''] ! 1 = ?items ! 1"
    "host_matches (lit ''b'') (hd (filter is_host (reorder_hosts ?items [lit ''b''])))"
    by blast+
  then show ?thesis by (simp add: Let_def)
qed

text \<open>In a parsed file the line for a new include goes before every \<open>Host\<close> and \<open>Match\<close>
  block, where it is global, and after every live include already there.\<close>

theorem include_insert_index_global:
  assumes "items = fst (parse_file lc txt)"
  shows "include_insert_index items \<le> length items
    \<and> (\<forall>j < include_insert_index items. \<not> is_block (items ! j))
    \<and> (\<forall>j < length items. live_include (items ! j) \<longrightarrow> j < include_insert_index items)"
proof (intro conjI allI impI)
  show le: "include_insert_index items \<le> length items"
    using rposition_Some [of live_include items] position_Some [of is_block items]
    by (auto simp: include_insert_index_def split: option.splits dest: Suc_leI less_imp_le)
  show "\<not> is_block (items ! j)" if "j < include_insert_index items" for j
    using include_before_blocks [of items j] that le file_shape_parse [of lc "txt"] assms by simp
  show "j < include_insert_index items" if j: "j < length items" "live_include (items ! j)" for j
  proof (cases "rposition live_include items")
    case (Some i)
    with rposition_Some [OF Some] j show ?thesis
      by (auto simp: include_insert_index_def not_less_eq)
  next
    case None
    then have "\<not> live_include x" if "x \<in> set items" for x
      using that by (induction items) (auto split: option.splits if_splits)
    with j show ?thesis by simp
  qed
qed

theorem include_insert_index_global_witness:
  "let items = fst (parse_file to_ascii_lowercase (lit ''Include x'' @ 10 # lit ''Host web''))
   in include_insert_index items = 1 \<and> (\<forall>j < include_insert_index items. \<not> is_block (items ! j))"
proof -
  let ?t = "lit ''Include x'' @ 10 # lit ''Host web''"
  have "include_insert_index (fst (parse_file to_ascii_lowercase ?t)) = 1"
    by (simp add: parse_file_def ends_with_def item_of_line_def classify_line_def Let_def
        split_value_comment_def trim_start_def trim_end_def starts_with_def to_ascii_lowercase_def
        group_blocks.simps block_of_def include_insert_index_def live_include_def str_simps)
  with include_insert_index_global [OF refl, of to_ascii_lowercase ?t] show ?thesis
    by (simp add: Let_def)
qed

text \<open>No field edit can smuggle a line into the file: when no printable part of a host holds a
  line feed (as in every parsed file), the same is true after a field, its patterns, its identity
  files, its enabled flag are changed or a field is removed, for arbitrary values.\<close>

theorem field_edits_line_safe:
  assumes "clean_host h" and "10 \<notin> set keyword"
  shows "clean_host (fst (set_host_field lc h keyword v))
    \<and> clean_host (fst (set_host_patterns h patterns))
    \<and> clean_host (fst (replace_identity_files lc h v))
    \<and> clean_host (fst (remove_host_field lc h k))
    \<and> clean_host (set_host_enabled h enabled)"
  using assms by (simp add: clean_set_host_field clean_set_host_patterns clean_remove_host_field
      clean_set_host_enabled clean_replace_identity_files clean_str_def)

theorem field_edits_line_safe_witness:
  "clean_host (fst (set_host_field to_ascii_lowercase
     (HostBlock (directive_new to_ascii_lowercase (lit ''Host'') (lit ''web'') []) [lit ''web''] [])
     (lit ''User'') (lit ''a'' @ 10 # lit ''ProxyCommand b'')))"
proof -
  let ?h = "HostBlock (directive_new to_ascii_lowercase (lit ''Host'') (lit ''web'') []) [lit ''web''] []"
  have "clean_host ?h"
    by (simp add: clean_host_def clean_directive_def directive_new_def strip_crlf_def)
      (simp add: clean_str_def str_simps)
  moreover have "10 \<notin> set (lit ''User'')" by (simp add: str_simps)
  ultimately show ?thesis using field_edits_line_safe [of ?h "lit ''User''"] by blast
qed

text \<open>The tags edit has no such protection: a tag with a line feed, set on a host,
  prints as a comment line followed by a line of its own, which reads back as a live directive.\<close>

theorem set_tags_injects_line:
  "let h = HostBlock (directive_new to_ascii_lowercase (lit ''Host'') (lit ''web'') []) [lit ''web''] [];
       out = serialize_items [IHost (set_tags h [lit ''db'' @ 10 # lit ''User root''])] False
   in clean_host h
      \<and> (\<exists>b d. parse_file to_ascii_lowercase out = ([IHost b], False)
           \<and> IDirective d \<in> set (hb_body b) \<and> d_key d = lit ''user'' \<and> d_value d = lit ''root'')"
proof -
  let ?h = "HostBlock (directive_new to_ascii_lowercase (lit ''Host'') (lit ''web'') []) [lit ''web''] []"
  have out: "serialize_items [IHost (set_tags ?h [lit ''db'' @ 10 # lit ''User root''])] False
      = lit ''Host web'' @ 10 # lit ''#tags:db'' @ 10 # lit ''User root''"
    by (simp add: set_tags_def TAGS_PREFIX_def set_body_def serialize_items_def render_directive_def
        directive_new_def strip_crlf_def serializes_as_comment_def str_simps)
  have "clean_host ?h"
    by (simp add: clean_host_def clean_directive_def directive_new_def strip_crlf_def)
      (simp add: clean_str_def str_simps)
  moreover have "\<exists>b d. parse_file to_ascii_lowercase
        (lit ''Host web'' @ 10 # lit ''#tags:db'' @ 10 # lit ''User root'') = ([IHost b], False)
      \<and> IDirective d \<in> set (hb_body b) \<and> d_key d = lit ''user'' \<and> d_value d = lit ''root''"
    by (simp add: parse_file_def ends_with_def item_of_line_def classify_line_def Let_def
        split_value_comment_def trim_start_def trim_end_def starts_with_def to_ascii_lowercase_def
        group_blocks.simps block_of_def str_simps)
  ultimately show ?thesis by (simp add: out Let_def)
qed

end
