(* ===== verification/Hosts_File.thy ===== *)
theory Hosts_File
  imports Config_Edit Crypto
begin

text \<open>
  Host blocks that travel between devices as text (\<open>sync/hosts_file.rs\<close>), the names of the files
  they live in (\<open>sync/space_files.rs\<close>) and the \<open>Include\<close> line that makes OpenSSH read those files.

  A received text is only accepted when the parser of the program and OpenSSH read it alike, so this
  theory also states how OpenSSH splits a line into words (\<open>openssh_words\<close>), as the source documents it.
  Offsets are counted in characters; where the source slices by bytes, \<open>byte_suffix\<close> gives the same
  piece. The Unicode tables for letters and lower case and the glob package are parameters.
\<close>

section \<open>Names of space files\<close>

definition MAX_SLUG_LEN :: nat where
  "MAX_SLUG_LEN = 40"

definition FALLBACK_SLUG :: rstr where
  "FALLBACK_SLUG = lit ''space''"

definition INCLUDE_DIR :: rstr where
  "INCLUDE_DIR = lit ''~/.ssh/sshelter/''"

definition is_slug_char :: "uchar \<Rightarrow> bool" where
  "is_slug_char c \<longleftrightarrow> (97 \<le> c \<and> c \<le> 122) \<or> is_ascii_digit c"

fun slug_scan :: "rstr \<Rightarrow> bool \<Rightarrow> rstr \<Rightarrow> rstr" where
  "slug_scan slug gap [] = slug"
| "slug_scan slug gap (ch # rest) =
     (if is_slug_char ch
      then slug_scan ((if gap \<and> slug \<noteq> [] then slug @ [45] else slug) @ [ch]) False rest
      else slug_scan slug True rest)"

definition trim_end_dashes :: "rstr \<Rightarrow> rstr" where
  "trim_end_dashes s = rev (dropWhile (\<lambda>c. c = 45) (rev s))"

definition slugify :: "(rstr \<Rightarrow> rstr) \<Rightarrow> rstr \<Rightarrow> rstr" where
  "slugify lc name =
     (let slug = trim_end_dashes (take MAX_SLUG_LEN (slug_scan [] False (lc name)))
      in if slug = [] then FALLBACK_SLUG else slug)"

definition space_file_name :: "(rstr \<Rightarrow> rstr) \<Rightarrow> rstr \<Rightarrow> rstr \<Rightarrow> app_error + rstr" where
  "space_file_name lc slug space_id =
     (if \<not> is_chain_id space_id then Inl (AE_Other (lit ''space id must be 64 lowercase hex characters''))
      else Inr (slugify lc slug @ lit ''-'' @ take 8 space_id @ lit ''.config''))"

definition strip_suffix_str :: "rstr \<Rightarrow> rstr \<Rightarrow> rstr option" where
  "strip_suffix_str s p = (if ends_with s p then Some (take (length s - length p) s) else None)"

text \<open>\<open>str::rsplit_once\<close> and \<open>str::split_once\<close> at one character.\<close>

definition rsplit_once :: "uchar \<Rightarrow> rstr \<Rightarrow> (rstr \<times> rstr) option" where
  "rsplit_once c s =
     (case rposition (\<lambda>x. x = c) s of None \<Rightarrow> None | Some i \<Rightarrow> Some (take i s, drop (Suc i) s))"

definition split_once :: "uchar \<Rightarrow> rstr \<Rightarrow> (rstr \<times> rstr) option" where
  "split_once c s =
     (case position (\<lambda>x. x = c) s of None \<Rightarrow> None | Some i \<Rightarrow> Some (take i s, drop (Suc i) s))"

fun has_double_dash :: "rstr \<Rightarrow> bool" where
  "has_double_dash (a # b # s) = (a = 45 \<and> b = 45 \<or> has_double_dash (b # s))"
| "has_double_dash _ = False"

definition is_space_file_name :: "rstr \<Rightarrow> bool" where
  "is_space_file_name name \<longleftrightarrow>
     (case strip_suffix_str name (lit ''.config'') of
        None \<Rightarrow> False
      | Some stem \<Rightarrow>
          (case rsplit_once 45 stem of
             None \<Rightarrow> False
           | Some (slug, id8) \<Rightarrow>
               str_len id8 = 8 \<and> list_all is_lower_hex id8 \<and> slug \<noteq> [] \<and> str_len slug \<le> MAX_SLUG_LEN
               \<and> \<not> starts_with slug [45] \<and> \<not> ends_with slug [45] \<and> \<not> has_double_dash slug
               \<and> list_all (\<lambda>c. is_slug_char c \<or> c = 45) slug))"

definition include_token :: "rstr \<Rightarrow> app_error + rstr" where
  "include_token file_name =
     (if \<not> is_space_file_name file_name
      then Inl (AE_Other ([39] @ file_name @ [39] @ lit '' is not a space file name''))
      else Inr (INCLUDE_DIR @ file_name))"

record space_file_ref =
  sf_space_id :: rstr
  sf_name :: rstr
  sf_file_name :: rstr

definition include_key :: "(rstr \<Rightarrow> rstr) \<Rightarrow> space_file_ref \<Rightarrow> rstr \<times> rstr \<times> rstr" where
  "include_key lc sp = (lc (sf_name sp), sf_name sp, sf_space_id sp)"

definition include_le :: "(rstr \<Rightarrow> rstr) \<Rightarrow> space_file_ref \<Rightarrow> space_file_ref \<Rightarrow> bool" where
  "include_le lc a b \<longleftrightarrow>
     (case (include_key lc a, include_key lc b) of
        ((x, y, z), (x', y', z')) \<Rightarrow> x < x' \<or> x = x' \<and> (y < y' \<or> y = y' \<and> z \<le> z'))"

text \<open>The stable sort of \<open>sort_by\<close>.\<close>

fun include_insert :: "(rstr \<Rightarrow> rstr) \<Rightarrow> space_file_ref \<Rightarrow> space_file_ref list \<Rightarrow> space_file_ref list" where
  "include_insert lc a [] = [a]"
| "include_insert lc a (b # bs) = (if include_le lc a b then a # b # bs else b # include_insert lc a bs)"

definition include_tokens :: "(rstr \<Rightarrow> rstr) \<Rightarrow> space_file_ref list \<Rightarrow> app_error + rstr list" where
  "include_tokens lc spaces =
     for_each (\<lambda>out sp. rbind (include_token (sf_file_name sp)) (\<lambda>t. Inr (out @ [t]))) []
       (foldr (include_insert lc) spaces [])"

section \<open>The Include line\<close>

definition managed_token :: rstr where
  "managed_token = INCLUDE_DIR @ lit ''hosts.config''"

definition is_our_include_token :: "rstr \<Rightarrow> bool" where
  "is_our_include_token token \<longleftrightarrow>
     is_some_and (strip_prefix token INCLUDE_DIR) (\<lambda>rest. ends_with rest (lit ''.config'') \<and> 47 \<notin> set rest \<and> 92 \<notin> set rest)"

definition enabled_include :: "item \<Rightarrow> directive option" where
  "enabled_include it =
     (case it of
        IDirective d \<Rightarrow> if d_key d = lit ''include'' \<and> \<not> serializes_as_comment d then Some d else None
      | _ \<Rightarrow> None)"

definition has_our_token :: "item \<Rightarrow> bool" where
  "has_our_token it \<longleftrightarrow> is_some_and (enabled_include it) (\<lambda>d. list_ex is_our_include_token (split_whitespace (d_value d)))"

definition INCLUDE_TOKEN :: rstr where
  "INCLUDE_TOKEN = lit ''~/.ssh/sshelter/agent/config''"

definition lists_agent_token :: "directive \<Rightarrow> bool" where
  "lists_agent_token d \<longleftrightarrow> d_key d = lit ''include'' \<and> \<not> serializes_as_comment d
     \<and> list_ex (\<lambda>t. t = INCLUDE_TOKEN) (split_whitespace (d_value d))"

definition is_agent_include :: "item \<Rightarrow> bool" where
  "is_agent_include it = (case it of IDirective d \<Rightarrow> lists_agent_token d | _ \<Rightarrow> False)"

fun is_blank_or_comment :: "item \<Rightarrow> bool" where
  "is_blank_or_comment (IBlank _) = True"
| "is_blank_or_comment (IComment _) = True"
| "is_blank_or_comment _ = False"

definition sync_include_index :: "item list \<Rightarrow> nat" where
  "sync_include_index items =
     (case position (\<lambda>it. \<not> is_blank_or_comment it \<and> \<not> is_agent_include it) items of
        Some i \<Rightarrow> i | None \<Rightarrow> length items)"

text \<open>One line of the backwards loop: without our tokens, or gone.\<close>

definition without_our_tokens :: "item \<Rightarrow> item list" where
  "without_our_tokens it =
     (if \<not> has_our_token it then [it]
      else
        (case it of
           IDirective d \<Rightarrow>
             (let rest = filter (\<lambda>t. \<not> is_our_include_token t) (split_whitespace (d_value d)) in
              if rest = [] then []
              else [IDirective (d\<lparr>d_value := join (lit '' '') rest, d_dirty := True, d_enabled := True\<rparr>)])
         | _ \<Rightarrow> [it]))"

definition include_correct :: "item list \<Rightarrow> rstr list \<Rightarrow> bool" where
  "include_correct items tokens \<longleftrightarrow>
     (let top = sync_include_index items in
      if tokens = [] then \<not> list_ex has_our_token items
      else
        (top < length items
         \<and> is_some_and (enabled_include (items ! top)) (\<lambda>d. split_whitespace (d_value d) = tokens))
        \<and> \<not> list_ex (\<lambda>(i, it). i \<noteq> top \<and> has_our_token it) (enumerate 0 items))"

definition ensure_include :: "(rstr \<Rightarrow> rstr) \<Rightarrow> item list \<Rightarrow> rstr list \<Rightarrow> bool \<times> item list" where
  "ensure_include lc items tokens =
     (if include_correct items tokens then (False, items)
      else
        (let top = sync_include_index items;
             items = concat (map without_our_tokens items)
         in (True, if tokens = [] then items
                   else insert_at top (IDirective (directive_new lc (lit ''Include'') (join (lit '' '') tokens) [])) items)))"

definition is_glob_token :: "rstr \<Rightarrow> bool" where
  "is_glob_token token \<longleftrightarrow> list_ex (\<lambda>c. c \<in> {42, 63, 91}) token"

text \<open>The matching itself is the \<open>glob\<close> package: \<open>matches pattern name\<close> is false for a pattern it refuses.\<close>

definition glob_covers :: "(rstr \<Rightarrow> rstr \<Rightarrow> bool) \<Rightarrow> rstr \<Rightarrow> rstr \<Rightarrow> bool" where
  "glob_covers matches glob token \<longleftrightarrow> is_glob_token glob \<and> matches glob token"

definition include_words :: "item list \<Rightarrow> rstr list" where
  "include_words items =
     concat (map (\<lambda>it. case enabled_include it of Some d \<Rightarrow> split_whitespace (d_value d) | None \<Rightarrow> []) items)"

definition lists_include :: "(rstr \<Rightarrow> rstr \<Rightarrow> bool) \<Rightarrow> item list \<Rightarrow> rstr \<Rightarrow> bool" where
  "lists_include matches items token \<longleftrightarrow>
     list_ex (\<lambda>t. is_our_include_token t \<and> (t = token \<or> glob_covers matches t token)) (include_words items)"

text \<open>Leaving an account: what one word of an \<open>Include\<close> line becomes. \<open>placed\<close> holds the moved files whose
  new path stands somewhere already.\<close>

definition find_kept :: "(rstr \<times> rstr) list \<Rightarrow> rstr \<Rightarrow> (rstr \<times> rstr) option" where
  "find_kept kept t = find (\<lambda>(old, _). old = t) kept"

definition covered_by :: "(rstr \<Rightarrow> rstr \<Rightarrow> bool) \<Rightarrow> (rstr \<times> rstr) list \<Rightarrow> rstr set \<Rightarrow> rstr \<Rightarrow> (rstr \<times> rstr) list" where
  "covered_by matches kept placed t =
     sort_key fst (sort_key snd (filter (\<lambda>(old, _). old \<notin> placed \<and> glob_covers matches t old) kept))"

fun release_words :: "(rstr \<Rightarrow> rstr \<Rightarrow> bool) \<Rightarrow> (rstr \<times> rstr) list \<Rightarrow> (rstr \<Rightarrow> bool) \<Rightarrow> rstr set \<Rightarrow> rstr list
    \<Rightarrow> rstr set \<times> rstr list \<times> bool" where
  "release_words matches kept exists placed [] = (placed, [], False)"
| "release_words matches kept exists placed (t # ts) =
     (let (new, placed', changed) =
            (if \<not> is_our_include_token t then ([t], placed, False)
             else
               (case find_kept kept t of
                  Some (_, new) \<Rightarrow> ([new], placed, True)
                | None \<Rightarrow>
                    (let covered = covered_by matches kept placed t in
                     (map snd covered @ (if exists t then [t] else []), placed \<union> fst ` set covered,
                      covered \<noteq> [] \<or> \<not> exists t))));
          (placed'', rest, changed') = release_words matches kept exists placed' ts
      in (placed'', new @ rest, changed \<or> changed'))"

fun release_items :: "(rstr \<Rightarrow> rstr \<Rightarrow> bool) \<Rightarrow> (rstr \<times> rstr) list \<Rightarrow> (rstr \<Rightarrow> bool) \<Rightarrow> rstr set \<Rightarrow> item list
    \<Rightarrow> item list \<times> bool" where
  "release_items matches kept exists placed [] = ([], False)"
| "release_items matches kept exists placed (it # items) =
     (if \<not> has_our_token it
      then (case release_items matches kept exists placed items of (rest, changed) \<Rightarrow> (it # rest, changed))
      else
        (case it of
           IDirective d \<Rightarrow>
             (let (placed', tokens, line_changed) = release_words matches kept exists placed (split_whitespace (d_value d));
                  (rest, changed) = release_items matches kept exists placed' items
              in if \<not> line_changed then (it # rest, changed)
                 else if tokens = [] then (rest, True)
                 else (IDirective (d\<lparr>d_value := join (lit '' '') tokens, d_dirty := True, d_enabled := True\<rparr>) # rest, True))
         | _ \<Rightarrow> (case release_items matches kept exists placed items of (rest, changed) \<Rightarrow> (it # rest, changed))))"

definition release_include :: "(rstr \<Rightarrow> rstr \<Rightarrow> bool) \<Rightarrow> item list \<Rightarrow> (rstr \<times> rstr) list \<Rightarrow> (rstr \<Rightarrow> bool) \<Rightarrow> bool \<times> item list" where
  "release_include matches items kept exists =
     (let placed = set (map fst (List.map_filter (find_kept kept) (include_words items)))
      in case release_items matches kept exists placed items of (items', changed) \<Rightarrow> (changed, items'))"

section \<open>Which blocks are synchronised\<close>

definition is_syncable_alias :: "rstr \<Rightarrow> bool" where
  "is_syncable_alias alias \<longleftrightarrow> alias \<noteq> [] \<and> \<not> list_ex (\<lambda>c. c \<in> {42, 63, 33}) alias"

definition is_syncable_block :: "rstr list \<Rightarrow> bool" where
  "is_syncable_block patterns \<longleftrightarrow> patterns \<noteq> [] \<and> list_all is_syncable_alias patterns"

definition first_alias :: "item \<Rightarrow> rstr option" where
  "first_alias it = (case it of IHost h \<Rightarrow> (case hb_patterns h of [] \<Rightarrow> None | p # _ \<Rightarrow> Some p) | _ \<Rightarrow> None)"

definition wildcard_error :: "rstr \<Rightarrow> app_error" where
  "wildcard_error alias = AE_Other ([39] @ alias @ [39] @ lit '' is a wildcard pattern; wildcard blocks are never synced'')"

definition syncable_host_position :: "item list \<Rightarrow> rstr \<Rightarrow> app_error + nat option" where
  "syncable_host_position items alias =
     (if \<not> is_syncable_alias alias then Inl (wildcard_error alias)
      else
        (case position (\<lambda>it. first_alias it = Some alias) items of
           None \<Rightarrow> Inr None
         | Some p \<Rightarrow>
             (case items ! p of
                IHost h \<Rightarrow>
                  if is_syncable_block (hb_patterns h) then Inr (Some p)
                  else Inl (AE_Other (lit ''local block '' @ [39] @ alias @ [39] @ lit '' has wildcard patterns and stays local''))
              | _ \<Rightarrow> Inl (AE_Other (lit ''local block '' @ [39] @ alias @ [39] @ lit '' has wildcard patterns and stays local'')))))"

section \<open>Lines that a synchronised block must not have\<close>

datatype forbidden_line =
    F_Include
  | F_QuotedKeyword
  | F_LeadingEquals
  | F_UnsafeValue rstr
  | F_InvisibleCharacter
  | F_StrayCharacter
  | F_MisreadHeader rstr

fun describe :: "forbidden_line \<Rightarrow> rstr" where
  "describe F_Include = lit ''an Include line''"
| "describe F_QuotedKeyword = lit ''a quoted keyword (OpenSSH reads it differently from Lunport)''"
| "describe F_LeadingEquals = lit ''a line starting with '' @ [39, 61, 39] @ lit '' (OpenSSH reads the next word as its keyword)''"
| "describe (F_UnsafeValue keyword) = lit ''a '' @ keyword @ lit '' value with characters ssh would pass to a shell''"
| "describe F_InvisibleCharacter = lit ''a line with a non-ASCII space or control character, or an invisible formatting character (OpenSSH would read something other than what Lunport shows)''"
| "describe F_StrayCharacter = lit ''a command with a combining mark or symbol where a word starts (it could disguise where a shell comment begins)''"
| "describe (F_MisreadHeader keyword) = lit ''a '' @ keyword @ lit '' line that OpenSSH reads differently from Lunport''"

definition SHELL_BOUND_KEYWORDS :: "(rstr \<times> rstr) list" where
  "SHELL_BOUND_KEYWORDS =
     [(lit ''hostname'', lit ''HostName''), (lit ''user'', lit ''User''), (lit ''hostkeyalias'', lit ''HostKeyAlias''),
      (lit ''proxyjump'', lit ''ProxyJump'')]"

text \<open>In order: apostrophe, backquote, double quote, dollar, backslash, semicolon, ampersand, the angle
  brackets, bar, parentheses and braces.\<close>

definition SHELL_CHARACTERS :: "uchar list" where
  "SHELL_CHARACTERS = [39, 96, 34, 36, 92, 59, 38, 60, 62, 124, 40, 41, 123, 125]"

definition after_keyword :: "directive \<Rightarrow> rstr" where
  "after_keyword d = d_value d @ d_trailing_ws d @ (case d_inline_comment d of None \<Rightarrow> [] | Some c \<Rightarrow> c)"

text \<open>\<open>split_ascii_whitespace\<close>, and \<open>split([' ', '\t'])\<close> without empty pieces: the maximal runs of other
  characters.\<close>

fun words_by :: "(uchar \<Rightarrow> bool) \<Rightarrow> rstr \<Rightarrow> rstr \<Rightarrow> rstr list" where
  "words_by sep w [] = (if w = [] then [] else [w])"
| "words_by sep w (c # s) =
     (if sep c then (if w = [] then words_by sep [] s else w # words_by sep [] s) else words_by sep (w @ [c]) s)"

definition is_ascii_whitespace :: "uchar \<Rightarrow> bool" where
  "is_ascii_whitespace c \<longleftrightarrow> c \<in> {9, 10, 12, 13, 32}"

definition is_blank_char :: "uchar \<Rightarrow> bool" where
  "is_blank_char c \<longleftrightarrow> c = 32 \<or> c = 9"

definition hop_has_dash :: "rstr \<Rightarrow> bool" where
  "hop_has_dash hop0 \<longleftrightarrow>
     (let hop = (case strip_prefix hop0 (lit ''ssh://'') of Some h \<Rightarrow> h | None \<Rightarrow> hop0);
          host = (case rsplit_once 64 hop of Some (_, h) \<Rightarrow> h | None \<Rightarrow> hop)
      in starts_with hop [45] \<or> starts_with host [45] \<or> starts_with host [91, 45])"

definition has_dash_hop :: "rstr \<Rightarrow> bool" where
  "has_dash_hop v \<longleftrightarrow> list_ex hop_has_dash (split_on 44 v)"

definition is_plain_shell_bound_value :: "directive \<Rightarrow> bool" where
  "is_plain_shell_bound_value d \<longleftrightarrow>
     (case takeWhile (\<lambda>w. \<not> starts_with w [35]) (words_by is_ascii_whitespace [] (after_keyword d)) of
        [word] \<Rightarrow>
          \<not> starts_with word [45]
          \<and> \<not> list_ex (\<lambda>c. is_control c \<or> c \<in> set SHELL_CHARACTERS) word
          \<and> \<not> (d_key d = lit ''proxyjump'' \<and> has_dash_hop word)
      | _ \<Rightarrow> False)"

subsection \<open>Characters that show nothing\<close>

definition in_ranges :: "(uchar \<times> uchar) list \<Rightarrow> uchar \<Rightarrow> bool" where
  "in_ranges rs c \<longleftrightarrow> list_ex (\<lambda>(a, b). a \<le> c \<and> c \<le> b) rs"

definition is_confusable_space :: "uchar \<Rightarrow> bool" where
  "is_confusable_space c \<longleftrightarrow> c \<ge> 128 \<and> is_whitespace c \<or> c = 0xFEFF"

definition is_format_character :: "uchar \<Rightarrow> bool" where
  "is_format_character c \<longleftrightarrow> in_ranges
     [(0xAD, 0xAD), (0x600, 0x605), (0x61C, 0x61C), (0x6DD, 0x6DD), (0x70F, 0x70F), (0x890, 0x891), (0x8E2, 0x8E2),
      (0x180E, 0x180E), (0x200B, 0x200F), (0x202A, 0x202E), (0x2060, 0x2064), (0x2066, 0x206F), (0xFEFF, 0xFEFF),
      (0xFFF9, 0xFFFB), (0x110BD, 0x110BD), (0x110CD, 0x110CD), (0x13430, 0x1343F), (0x1BCA0, 0x1BCA3),
      (0x1D173, 0x1D17A), (0xE0001, 0xE0001), (0xE0020, 0xE007F)] c"

definition is_default_ignorable :: "uchar \<Rightarrow> bool" where
  "is_default_ignorable c \<longleftrightarrow> in_ranges
     [(0xAD, 0xAD), (0x34F, 0x34F), (0x61C, 0x61C), (0x115F, 0x1160), (0x17B4, 0x17B5), (0x180B, 0x180F),
      (0x200B, 0x200F), (0x202A, 0x202E), (0x2060, 0x206F), (0x3164, 0x3164), (0xFE00, 0xFE0F), (0xFEFF, 0xFEFF),
      (0xFFA0, 0xFFA0), (0xFFF0, 0xFFF8), (0x1BCA0, 0x1BCA3), (0x1D173, 0x1D17A), (0xE0000, 0xE0FFF)] c"

definition is_blank_by_design :: "uchar \<Rightarrow> bool" where
  "is_blank_by_design c \<longleftrightarrow> c \<in> {0x2800, 0x1D159, 0x13441, 0x13442, 0x303F}"

definition is_invisible :: "uchar \<Rightarrow> bool" where
  "is_invisible c \<longleftrightarrow> is_confusable_space c \<or> is_format_character c \<or> is_default_ignorable c \<or> is_blank_by_design c
     \<or> is_control c \<and> c \<noteq> 9"

text \<open>What the program takes from the Unicode tables of the standard library: lower case, and which
  characters are letters or digits that \<open>escape_debug\<close> prints as they are.\<close>

record unicode =
  u_lowercase :: "rstr \<Rightarrow> rstr"
  u_plain_alphanumeric :: "uchar \<Rightarrow> bool"

definition is_base_letter_or_digit :: "unicode \<Rightarrow> uchar \<Rightarrow> bool" where
  "is_base_letter_or_digit T c \<longleftrightarrow> u_plain_alphanumeric T c \<and> c \<notin> {0xFF9E, 0xFF9F}"

definition RAW_LINE_KEYWORDS :: "rstr list" where
  "RAW_LINE_KEYWORDS =
     [lit ''proxycommand'', lit ''localcommand'', lit ''remotecommand'', lit ''knownhostscommand'', lit ''versionaddendum'']"

text \<open>\<open>line.get(n..)\<close> for a byte offset \<open>n\<close>.\<close>

fun byte_suffix :: "nat \<Rightarrow> rstr \<Rightarrow> rstr option" where
  "byte_suffix 0 s = Some s"
| "byte_suffix (Suc n) [] = None"
| "byte_suffix (Suc n) (c # s) = (if utf8_len c \<le> Suc n then byte_suffix (Suc n - utf8_len c) s else None)"

definition strip_cr :: "rstr \<Rightarrow> rstr" where
  "strip_cr line = (case strip_suffix_str line [13] of Some l \<Rightarrow> l | None \<Rightarrow> line)"

definition value_offset :: "directive \<Rightarrow> nat" where
  "value_offset d = str_len (d_indent d) + str_len (d_keyword d) + str_len (sep_str (d_separator d))"

text \<open>The inner loop of \<open>openssh_comment_start\<close>: the rest after the word, or nothing when a quote is open.\<close>

fun skip_word :: "uchar option \<Rightarrow> rstr \<Rightarrow> rstr option" where
  "skip_word q [] = (if q = None then Some [] else None)"
| "skip_word q (c # s) =
     (if c = 92 \<and> s \<noteq> [] \<and> hd s \<in> {39, 34, 92} \<or> c = 92 \<and> q = None \<and> s \<noteq> [] \<and> hd s = 32
      then skip_word q (tl s)
      else if is_blank_char c \<and> q = None then Some (c # s)
      else if c \<in> {34, 39} \<and> q = None then skip_word (Some c) s
      else if q = Some c then skip_word None s
      else skip_word q s)"

lemma skip_word_length: "skip_word q s = Some r \<Longrightarrow> length r \<le> length s"
proof (induction q s rule: skip_word.induct)
  case (2 q c s)
  have "length (tl s) \<le> length s" by (cases s) auto
  with 2 show ?case by (auto split: if_splits)
qed (auto split: if_splits)

lemma skip_word_progress:
  assumes "skip_word None (c # s) = Some r" "\<not> is_blank_char c" shows "length r \<le> length s"
proof -
  have "length (tl s) \<le> length s" by (cases s) auto
  with assms skip_word_length show ?thesis by (fastforce split: if_splits)
qed

text \<open>The number of characters before the comment.\<close>

function openssh_comment_start :: "rstr \<Rightarrow> nat option" where
  "openssh_comment_start [] = None"
| "openssh_comment_start (c # s) =
     (if is_blank_char c then map_option Suc (openssh_comment_start s)
      else if c = 35 then Some 0
      else
        (case skip_word None (c # s) of
           None \<Rightarrow> None
         | Some r \<Rightarrow> map_option (\<lambda>n. length (c # s) - length r + n) (openssh_comment_start r)))"
  by pat_completeness auto
termination
  by (relation "measure length") (auto simp del: skip_word.simps dest!: skip_word_progress)

definition openssh_comment_offset :: "directive \<Rightarrow> rstr \<Rightarrow> nat option" where
  "openssh_comment_offset d line =
     (if list_ex (\<lambda>k. k = d_key d) RAW_LINE_KEYWORDS then None
      else
        (case byte_suffix (value_offset d) line of
           None \<Rightarrow> None
         | Some rest \<Rightarrow> map_option (\<lambda>n. length line - length rest + n) (openssh_comment_start rest)))"

definition has_invisible_character :: "directive \<Rightarrow> bool" where
  "has_invisible_character d \<longleftrightarrow>
     (let line = strip_cr (render_directive d)
      in list_ex is_invisible (case openssh_comment_offset d line of Some n \<Rightarrow> take n line | None \<Rightarrow> line))"

fun stray_scan :: "unicode \<Rightarrow> uchar option \<Rightarrow> rstr \<Rightarrow> bool" where
  "stray_scan T previous [] = False"
| "stray_scan T previous (c # s) =
     (if (case previous of None \<Rightarrow> True | Some p \<Rightarrow> p < 128 \<and> \<not> is_ascii_alphanumeric p)
         \<and> c \<ge> 128 \<and> \<not> is_base_letter_or_digit T c then True
      else stray_scan T (Some c) s)"

definition has_stray_character :: "unicode \<Rightarrow> directive \<Rightarrow> bool" where
  "has_stray_character T d \<longleftrightarrow>
     list_ex (\<lambda>k. k = d_key d) RAW_LINE_KEYWORDS
     \<and> (let line = strip_cr (render_directive d)
         in stray_scan T None (case byte_suffix (value_offset d) line of Some v \<Rightarrow> v | None \<Rightarrow> line))"

definition invisible_outside_comment :: "rstr \<Rightarrow> bool" where
  "invisible_outside_comment line0 \<longleftrightarrow>
     (let line = strip_cr line0 in list_ex is_invisible (takeWhile (\<lambda>c. c \<noteq> 35) line))"

definition openssh_trim_end :: "rstr \<Rightarrow> rstr" where
  "openssh_trim_end s = rev (dropWhile (\<lambda>c. c \<in> {32, 9, 13, 10, 12}) (rev s))"

definition header_reads_the_same :: "directive \<Rightarrow> bool" where
  "header_reads_the_same header \<longleftrightarrow>
     (let rest = openssh_trim_end (after_keyword header);
          read = (case openssh_comment_start rest of Some n \<Rightarrow> take n rest | None \<Rightarrow> rest)
      in \<not> list_ex (\<lambda>c. c \<in> {34, 39, 92}) read
         \<and> words_by is_blank_char [] read = split_whitespace (d_value header))"

definition header_name :: "rstr \<Rightarrow> rstr option" where
  "header_name k = (if k = lit ''host'' then Some (lit ''Host'') else if k = lit ''match'' then Some (lit ''Match'') else None)"

definition is_single_host_block_read_alike :: "item list \<Rightarrow> bool" where
  "is_single_host_block_read_alike items = (case items of [IHost h] \<Rightarrow> header_reads_the_same (hb_header h) | _ \<Rightarrow> False)"

definition forbidden :: "unicode \<Rightarrow> directive \<Rightarrow> forbidden_line option" where
  "forbidden T d =
     (if serializes_as_comment d then None
      else if d_keyword d = [] then Some F_LeadingEquals
      else if 34 \<in> set (d_keyword d) then Some F_QuotedKeyword
      else if d_key d = lit ''include'' then Some F_Include
      else if has_invisible_character d then Some F_InvisibleCharacter
      else if has_stray_character T d then Some F_StrayCharacter
      else
        (case header_name (d_key d) of
           Some name \<Rightarrow> if header_reads_the_same d then None else Some (F_MisreadHeader name)
         | None \<Rightarrow>
             (case find (\<lambda>(k, _). d_key d = k) SHELL_BOUND_KEYWORDS of
                None \<Rightarrow> None
              | Some (_, name) \<Rightarrow> if is_plain_shell_bound_value d then None else Some (F_UnsafeValue name))))"

definition or_else :: "'a option \<Rightarrow> 'a option \<Rightarrow> 'a option" where
  "or_else a b = (case a of Some _ \<Rightarrow> a | None \<Rightarrow> b)"

fun forbidden_item :: "unicode \<Rightarrow> item \<Rightarrow> forbidden_line option"
  and forbidden_directive :: "unicode \<Rightarrow> item list \<Rightarrow> forbidden_line option" where
  "forbidden_item T (IDirective d) = forbidden T d"
| "forbidden_item T (IHost (HostBlock header _ body)) = or_else (forbidden T header) (forbidden_directive T body)"
| "forbidden_item T (IMatch (MatchBlock header _ body)) = or_else (forbidden T header) (forbidden_directive T body)"
| "forbidden_item T (IBlank line) = (if invisible_outside_comment line then Some F_InvisibleCharacter else None)"
| "forbidden_item T (IComment line) = (if invisible_outside_comment line then Some F_InvisibleCharacter else None)"
| "forbidden_directive T [] = None"
| "forbidden_directive T (it # items) = or_else (forbidden_item T it) (forbidden_directive T items)"

section \<open>Blocks as text\<close>

record host_block_text =
  ht_alias :: rstr
  ht_text :: rstr

definition block_text :: "item \<Rightarrow> rstr" where
  "block_text it = serialize_items [it] True"

definition block_entry :: "item \<Rightarrow> host_block_text option" where
  "block_entry it =
     (case it of
        IHost h \<Rightarrow>
          if is_syncable_block (hb_patterns h)
          then (case hb_patterns h of [] \<Rightarrow> None | alias # _ \<Rightarrow> Some \<lparr>ht_alias = alias, ht_text = block_text it\<rparr>)
          else None
      | _ \<Rightarrow> None)"

definition blocks_of :: "item list \<Rightarrow> host_block_text list" where
  "blocks_of items = List.map_filter block_entry items"

definition record_error :: "rstr \<Rightarrow> rstr \<Rightarrow> app_error" where
  "record_error alias what = AE_Other (lit ''synced record for '' @ [39] @ alias @ [39] @ what)"

definition parse_single_host :: "unicode \<Rightarrow> rstr \<Rightarrow> rstr \<Rightarrow> app_error + item" where
  "parse_single_host T alias t =
     (let parsed = fst (parse_file (u_lowercase T) t) in
      if \<not> list_all (\<lambda>it. case it of IHost _ \<Rightarrow> True | _ \<Rightarrow> False) parsed
      then Inl (record_error alias (lit '' must contain nothing but one Host block''))
      else if length parsed \<noteq> 1 then Inl (record_error alias (lit '' must contain exactly one Host block''))
      else
        (let host = hd parsed in
         if first_alias host \<noteq> Some alias then Inl (record_error alias (lit '' names a different host''))
         else if \<not> (case host of IHost h \<Rightarrow> is_syncable_block (hb_patterns h) | _ \<Rightarrow> False)
         then Inl (record_error alias (lit '' contains wildcard patterns''))
         else
           (case forbidden_directive T [host] of
              Some f \<Rightarrow> Inl (record_error alias (lit '' contains '' @ describe f @ lit '', which synced hosts cannot use''))
            | None \<Rightarrow> Inr host)))"

definition validate_host_text :: "unicode \<Rightarrow> rstr \<Rightarrow> rstr \<Rightarrow> app_error + unit" where
  "validate_host_text T alias t =
     (if \<not> is_syncable_alias alias then Inl (wildcard_error alias)
      else rbind (parse_single_host T alias t) (\<lambda>_. Inr ()))"

definition apply_host_text :: "unicode \<Rightarrow> item list \<Rightarrow> rstr \<Rightarrow> rstr \<Rightarrow> app_error + bool \<times> item list" where
  "apply_host_text T items alias t =
     rbind (syncable_host_position items alias) (\<lambda>pos.
     rbind (parse_single_host T alias t) (\<lambda>incoming.
     case pos of
       Some p \<Rightarrow> if block_text (items ! p) = block_text incoming then Inr (False, items) else Inr (True, items[p := incoming])
     | None \<Rightarrow> Inr (True, items @ [incoming])))"

definition remove_host_block :: "item list \<Rightarrow> rstr \<Rightarrow> bool \<times> item list" where
  "remove_host_block items alias =
     (case syncable_host_position items alias of
        Inr (Some p) \<Rightarrow> (True, remove_at p items)
      | _ \<Rightarrow> (False, items))"

section \<open>How OpenSSH reads a line\<close>

text \<open>The reference: OpenSSH splits what follows a keyword at spaces and tabs, removes paired quotes and
  recognised escapes, and stops at a word that begins with \<open>#\<close>; an open quote is an error.\<close>

fun argv_word :: "uchar option \<Rightarrow> rstr \<Rightarrow> (rstr \<times> rstr) option" where
  "argv_word q [] = (if q = None then Some ([], []) else None)"
| "argv_word q (c # s) =
     (if c = 92
      then
        (if s \<noteq> [] \<and> (hd s \<in> {39, 34, 92} \<or> q = None \<and> hd s = 32)
         then map_option (\<lambda>(w, r). (hd s # w, r)) (argv_word q (tl s))
         else map_option (\<lambda>(w, r). (92 # w, r)) (argv_word q s))
      else if is_blank_char c \<and> q = None then Some ([], c # s)
      else if c \<in> {34, 39} \<and> q = None then argv_word (Some c) s
      else if q = Some c then argv_word None s
      else map_option (\<lambda>(w, r). (c # w, r)) (argv_word q s))"

lemma argv_word_length: "argv_word q s = Some (w, r) \<Longrightarrow> length r \<le> length s"
proof (induction s arbitrary: q w r rule: length_induct)
  case (1 s)
  show ?case
  proof (cases s)
    case Nil
    with 1(2) show ?thesis by (auto split: if_splits)
  next
    case (Cons c t)
    have IH: "length r' \<le> length u" if "argv_word q' u = Some (w', r')" "u = t \<or> u = tl t" for q' u w' r'
    proof -
      have "length u < length s" using that(2) Cons by (cases t) auto
      with 1(1) that(1) show ?thesis by blast
    qed
    have "length (tl t) \<le> length t" by (cases t) auto
    then have u: "length u \<le> length t" if "u = t \<or> u = tl t" for u using that by auto
    from 1(2) Cons have "r = c # t \<or> (\<exists>q' u w'. argv_word q' u = Some (w', r) \<and> (u = t \<or> u = tl t))"
      by (auto split: if_splits)
    with Cons IH u show ?thesis by (metis le_SucI le_trans length_Cons order_refl)
  qed
qed

lemma argv_word_progress:
  assumes "argv_word None (c # s) = Some (w, r)" "\<not> is_blank_char c" shows "length r \<le> length s"
proof -
  from assms obtain q' u w' where "argv_word q' u = Some (w', r)" "u = s \<or> u = tl s"
    by (auto split: if_splits)
  moreover have "length (tl s) \<le> length s" by (cases s) auto
  ultimately show ?thesis using argv_word_length by (metis le_trans)
qed

function argv_split :: "rstr \<Rightarrow> rstr list option" where
  "argv_split [] = Some []"
| "argv_split (c # s) =
     (if is_blank_char c then argv_split s
      else if c = 35 then Some []
      else (case argv_word None (c # s) of None \<Rightarrow> None | Some (w, r) \<Rightarrow> map_option (Cons w) (argv_split r)))"
  by pat_completeness auto
termination
  by (relation "measure length") (auto simp del: argv_word.simps dest!: argv_word_progress)

text \<open>What OpenSSH reads of a header line: it removes the white space at the end first.\<close>

definition openssh_patterns :: "directive \<Rightarrow> rstr list option" where
  "openssh_patterns h = argv_split (openssh_trim_end (after_keyword h))"

definition plain_text :: "rstr \<Rightarrow> bool" where
  "plain_text s \<longleftrightarrow> \<not> list_ex (\<lambda>c. c \<in> {34, 39, 92}) s"

lemma plain_text_simps [simp]:
  "plain_text []" "plain_text (c # s) \<longleftrightarrow> c \<notin> {34, 39, 92} \<and> plain_text s" "plain_text (s @ t) \<longleftrightarrow> plain_text s \<and> plain_text t"
  by (auto simp: plain_text_def)

lemma skip_word_step:
  assumes "skip_word q (c # s) = Some r"
  shows "r = c # s \<and> is_blank_char c \<and> q = None
    \<or> skip_word q s = Some r \<and> (q = None \<longrightarrow> \<not> is_blank_char c)
    \<or> c \<in> {34, 39} \<and> skip_word (Some c) s = Some r
    \<or> q \<noteq> None \<and> skip_word None s = Some r
    \<or> c = 92 \<and> (\<exists>h t. s = h # t \<and> skip_word q t = Some r)"
proof -
  define esc where "esc \<longleftrightarrow> c = 92 \<and> s \<noteq> [] \<and> hd s \<in> {39, 34, 92} \<or> c = 92 \<and> q = None \<and> s \<noteq> [] \<and> hd s = 32"
  have step: "skip_word q (c # s) = (if esc then skip_word q (tl s) else if is_blank_char c \<and> q = None then Some (c # s)
      else if c \<in> {34, 39} \<and> q = None then skip_word (Some c) s else if q = Some c then skip_word None s else skip_word q s)"
    unfolding esc_def by (rule skip_word.simps(2))
  show ?thesis
  proof (cases esc)
    case True
    then have "c = 92" "s \<noteq> []" unfolding esc_def by auto
    then have "c = 92" "s = hd s # tl s" by simp_all
    moreover have "skip_word q (tl s) = Some r" using assms True step by simp
    ultimately show ?thesis by metis
  next
    case False
    with assms step show ?thesis by (auto simp del: skip_word.simps split: if_splits)
  qed
qed

lemma skip_word_split:
  "skip_word q s = Some r \<Longrightarrow> \<exists>w. s = w @ r \<and> (r = [] \<or> is_blank_char (hd r))
     \<and> (q = None \<longrightarrow> plain_text w \<longrightarrow> list_all (\<lambda>c. \<not> is_blank_char c) w)"
proof (induction s arbitrary: q rule: length_induct)
  case (1 s)
  have IH: "\<exists>w. t = w @ r \<and> (r = [] \<or> is_blank_char (hd r)) \<and> (p = None \<longrightarrow> plain_text w \<longrightarrow> list_all (\<lambda>c. \<not> is_blank_char c) w)"
    if "length t < length s" "skip_word p t = Some r" for t p using 1(1) that by blast
  show ?case
  proof (cases s)
    case Nil
    with 1(2) show ?thesis by (auto split: if_splits)
  next
    case (Cons c t)
    from 1(2) Cons have st: "skip_word q (c # t) = Some r" by simp
    from skip_word_step [OF st] show ?thesis
    proof (elim disjE conjE exE)
      assume "r = c # t" "is_blank_char c"
      with Cons show ?thesis by (intro exI [of _ "[]"]) simp
    next
      assume "skip_word q t = Some r" "q = None \<longrightarrow> \<not> is_blank_char c"
      with IH [of t q] Cons show ?thesis by (metis append_Cons length_Cons lessI list.pred_inject(2) plain_text_simps(2))
    next
      assume "c \<in> {34, 39}" "skip_word (Some c) t = Some r"
      with IH [of t "Some c"] Cons show ?thesis by (metis append_Cons insertE length_Cons lessI plain_text_simps(2) singletonD insertCI)
    next
      assume "q \<noteq> None" "skip_word None t = Some r"
      with IH [of t None] Cons show ?thesis by (metis append_Cons length_Cons lessI)
    next
      fix h u
      assume "c = 92" "t = h # u" "skip_word q u = Some r"
      with IH [of u q] Cons obtain w where "u = w @ r" "r = [] \<or> is_blank_char (hd r)" by auto
      with \<open>c = 92\<close> \<open>t = h # u\<close> Cons show ?thesis by (intro exI [of _ "c # h # w"]) simp
    qed
  qed
qed

lemma argv_word_plain:
  "plain_text w \<Longrightarrow> list_all (\<lambda>c. \<not> is_blank_char c) w \<Longrightarrow> r = [] \<or> is_blank_char (hd r) \<Longrightarrow> argv_word None (w @ r) = Some (w, r)"
proof (induction w)
  case Nil
  then show ?case by (cases r) (auto simp: is_blank_char_def)
qed auto

lemma words_by_append:
  "list_all (\<lambda>c. \<not> sep c) w \<Longrightarrow> words_by sep acc (w @ s) = words_by sep (acc @ w) s"
  by (induction w arbitrary: acc) auto

lemma words_by_word:
  assumes "list_all (\<lambda>c. \<not> sep c) w" "w \<noteq> []" "r = [] \<or> sep (hd r)"
  shows "words_by sep [] (w @ r) = w # words_by sep [] r"
  using assms words_by_append [of sep w "[]" r] by (cases r) auto

text \<open>Without quotes and escapes in the part before the comment, OpenSSH reads the plain words of it.\<close>

lemma argv_split_plain:
  assumes "plain_text (case openssh_comment_start s of Some n \<Rightarrow> take n s | None \<Rightarrow> s)"
  shows "argv_split s = Some (words_by is_blank_char [] (case openssh_comment_start s of Some n \<Rightarrow> take n s | None \<Rightarrow> s))"
  using assms
proof (induction s rule: openssh_comment_start.induct)
  case (2 c s)
  show ?case
  proof (cases "is_blank_char c \<or> c = 35")
    case True
    show ?thesis
    proof (cases "is_blank_char c")
      case blank: True
      let ?cut = "\<lambda>s. case openssh_comment_start s of Some n \<Rightarrow> take n s | None \<Rightarrow> s"
      have "?cut (c # s) = c # ?cut s" using blank by (simp split: option.splits)
      with 2(1) 2(3) blank show ?thesis by (simp only: plain_text_simps argv_split.simps words_by.simps if_True) simp
    qed (use True in simp)
  next
    case False
    show ?thesis
    proof (cases "skip_word None (c # s)")
      case None
      have "skip_word None t \<noteq> None" if "plain_text t" for t using that
        by (induction "None :: uchar option" t rule: skip_word.induct) (auto split: if_splits)
      moreover have "plain_text (c # s)" using 2(3) None False by (simp del: skip_word.simps)
      ultimately show ?thesis using None by blast
    next
      case (Some r)
      from skip_word_split [OF Some] obtain w where w: "c # s = w @ r" "r = [] \<or> is_blank_char (hd r)"
        "plain_text w \<longrightarrow> list_all (\<lambda>c. \<not> is_blank_char c) w" by blast
      let ?cut = "\<lambda>s. case openssh_comment_start s of Some n \<Rightarrow> take n s | None \<Rightarrow> s"
      have len: "length (c # s) - length r = length w" unfolding w(1) by simp
      have start: "openssh_comment_start (c # s) = map_option (\<lambda>n. length w + n) (openssh_comment_start r)"
        using False Some len by (simp del: skip_word.simps)
      have cut: "?cut (c # s) = w @ ?cut r"
        using start unfolding w(1) by (cases "openssh_comment_start r") simp_all
      with 2(3) have plain: "plain_text w" "plain_text (?cut r)" by simp_all
      with w have word: "argv_word None (c # s) = Some (w, r)" by (simp only: w(1)) (simp add: argv_word_plain)
      have ne: "w \<noteq> []" using w(1,2) False by (cases w) auto
      have "argv_split (c # s) = map_option (Cons w) (argv_split r)"
        using False word by (simp del: argv_word.simps)
      also have "argv_split r = Some (words_by is_blank_char [] (?cut r))"
        using 2(2) False Some plain(2) by blast
      also have "map_option (Cons w) (Some (words_by is_blank_char [] (?cut r))) = Some (words_by is_blank_char [] (w @ ?cut r))"
      proof -
        have "?cut r = [] \<or> is_blank_char (hd (?cut r))"
          using w(2) by (cases r) (auto split: option.splits simp: take_Cons' is_blank_char_def)
        with w(3) plain(1) ne show ?thesis by (simp add: words_by_word)
      qed
      finally show ?thesis by (simp only: cut)
    qed
  qed
qed simp

lemma header_read_alike:
  assumes "header_reads_the_same h"
  shows "openssh_patterns h = Some (split_whitespace (d_value h))"
  using assms argv_split_plain [of "openssh_trim_end (after_keyword h)"]
  by (simp add: header_reads_the_same_def openssh_patterns_def Let_def plain_text_def)

section \<open>Applying and removing a block\<close>

lemma blocks_of_simps [simp]:
  "blocks_of [] = []" "blocks_of (xs @ ys) = blocks_of xs @ blocks_of ys"
  "blocks_of (it # items) = (case block_entry it of None \<Rightarrow> [] | Some b \<Rightarrow> [b]) @ blocks_of items"
  by (simp_all add: blocks_of_def List.map_filter_def split: option.splits)

lemma block_entry_alias: "block_entry it = Some b \<Longrightarrow> first_alias it = Some (ht_alias b) \<and> ht_text b = block_text it"
  by (auto simp: block_entry_def first_alias_def split: item.splits if_splits list.splits)

lemma parse_single_host_Inr:
  assumes "parse_single_host T alias t = Inr it"
  obtains h where "it = IHost h" "fst (parse_file (u_lowercase T) t) = [IHost h]" "first_alias it = Some alias"
    "is_syncable_block (hb_patterns h)" "forbidden_directive T [it] = None"
proof -
  let ?p = "fst (parse_file (u_lowercase T) t)"
  from assms have l: "length ?p = 1" "it = hd ?p" "list_all (\<lambda>it. case it of IHost _ \<Rightarrow> True | _ \<Rightarrow> False) ?p"
    "first_alias it = Some alias" "forbidden_directive T [it] = None"
    "case it of IHost h \<Rightarrow> is_syncable_block (hb_patterns h) | _ \<Rightarrow> False"
    unfolding parse_single_host_def Let_def by (auto split: if_splits option.splits simp del: forbidden_directive.simps)
  then have "?p = [it]" by (cases ?p) auto
  moreover from l(6) obtain h where "it = IHost h" by (cases it) auto
  ultimately show ?thesis using l that by simp
qed

text \<open>The text of an applied block is the received one, with a line feed at its end.\<close>

lemma block_text_parsed:
  assumes "fst (parse_file lc t) = [it]"
  shows "block_text it = (if ends_with t [10] then t else t @ [10])"
proof -
  have "serialize_items [it] (snd (parse_file lc t)) = t" using serialize_parse [of lc t] assms by simp
  moreover have "snd (parse_file lc t) = ends_with t [10]" by (simp add: parse_file_def Let_def)
  ultimately show ?thesis by (auto simp: block_text_def serialize_items_def)
qed

lemma block_entry_single:
  assumes "parse_single_host T alias t = Inr it"
  shows "block_entry it = Some \<lparr>ht_alias = alias, ht_text = (if ends_with t [10] then t else t @ [10])\<rparr>"
  using assms
proof (rule parse_single_host_Inr)
  fix h
  assume h: "it = IHost h" "fst (parse_file (u_lowercase T) t) = [IHost h]" "first_alias it = Some alias"
    "is_syncable_block (hb_patterns h)"
  with block_text_parsed [OF h(2)] show ?thesis by (auto simp: block_entry_def first_alias_def split: list.splits)
qed

lemma other_blocks:
  assumes "\<And>it. it \<in> set xs \<Longrightarrow> first_alias it \<noteq> Some alias"
  shows "find (\<lambda>b. ht_alias b = alias) (blocks_of xs) = None" "filter (\<lambda>b. ht_alias b \<noteq> alias) (blocks_of xs) = blocks_of xs"
proof -
  have "ht_alias b \<noteq> alias" if "b \<in> set (blocks_of xs)" for b
    using that assms block_entry_alias by (fastforce simp: blocks_of_def List.map_filter_def)
  then show "find (\<lambda>b. ht_alias b = alias) (blocks_of xs) = None" "filter (\<lambda>b. ht_alias b \<noteq> alias) (blocks_of xs) = blocks_of xs"
    by (auto simp: find_None_iff filter_id_conv)
qed

text \<open>The shape of the file around the block: everything before it names other hosts.\<close>

lemma syncable_host_position_Inr:
  assumes "syncable_host_position items alias = Inr pos"
  shows "is_syncable_alias alias \<and>
    (case pos of
       None \<Rightarrow> (\<forall>it \<in> set items. first_alias it \<noteq> Some alias)
     | Some p \<Rightarrow> \<exists>xs h ys. items = xs @ IHost h # ys \<and> p = length xs \<and> (\<forall>it \<in> set xs. first_alias it \<noteq> Some alias)
         \<and> first_alias (IHost h) = Some alias \<and> is_syncable_block (hb_patterns h))"
proof (cases "position (\<lambda>it. first_alias it = Some alias) items")
  case None
  with assms have "is_syncable_alias alias" "pos = None" by (auto simp: syncable_host_position_def split: if_splits)
  with None show ?thesis by (simp add: position_None)
next
  case (Some p)
  from position_Some [OF Some] have p: "p < length items" "first_alias (items ! p) = Some alias"
    "\<forall>j < p. first_alias (items ! j) \<noteq> Some alias" by blast+
  obtain h where h: "items ! p = IHost h" using p(2) by (auto simp: first_alias_def split: item.splits)
  have "\<forall>it \<in> set (take p items). first_alias it \<noteq> Some alias"
    using p(1,3) by (auto simp: in_set_conv_nth)
  moreover have "is_syncable_alias alias" "pos = Some p" "is_syncable_block (hb_patterns h)"
    using assms Some h by (auto simp: syncable_host_position_def split: if_splits)
  moreover have "items = take p items @ IHost h # drop (Suc p) items" "p = length (take p items)"
    using id_take_nth_drop [OF p(1)] p(1) h by simp_all
  ultimately show ?thesis
    unfolding \<open>pos = Some p\<close> option.case using p(2) h
    by (intro conjI exI [of _ "take p items"] exI [of _ h] exI [of _ "drop (Suc p) items"]) simp_all
qed

lemma position_append: "\<forall>x \<in> set xs. \<not> P x \<Longrightarrow> P y \<Longrightarrow> position P (xs @ y # ys) = Some (length xs)"
  by (induction xs) auto

lemma syncable_position_at:
  assumes "is_syncable_alias alias" "\<forall>it \<in> set xs. first_alias it \<noteq> Some alias" "first_alias (IHost h) = Some alias"
    "is_syncable_block (hb_patterns h)"
  shows "syncable_host_position (xs @ IHost h # ys) alias = Inr (Some (length xs))"
  using assms position_append [of xs "\<lambda>it. first_alias it = Some alias" "IHost h" ys]
  by (simp add: syncable_host_position_def)

lemma blocks_around:
  assumes "\<forall>it \<in> set xs. first_alias it \<noteq> Some alias" "block_entry it = Some \<lparr>ht_alias = alias, ht_text = tx\<rparr>"
  shows "find (\<lambda>b. ht_alias b = alias) (blocks_of (xs @ it # ys)) = Some \<lparr>ht_alias = alias, ht_text = tx\<rparr>
    \<and> filter (\<lambda>b. ht_alias b \<noteq> alias) (blocks_of (xs @ it # ys)) = blocks_of xs @ filter (\<lambda>b. ht_alias b \<noteq> alias) (blocks_of ys)"
proof -
  have "find P (us @ vs) = (case find P us of None \<Rightarrow> find P vs | Some u \<Rightarrow> Some u)" for P us and vs :: "host_block_text list"
    by (induction us) auto
  with other_blocks [of xs "alias"] assms show ?thesis by simp
qed

definition ascii_unicode :: unicode where
  "ascii_unicode = \<lparr>u_lowercase = to_ascii_lowercase, u_plain_alphanumeric = (\<lambda>c. is_ascii_alphabetic c \<or> is_ascii_digit c)\<rparr>"

definition sample_text :: rstr where
  "sample_text = lit ''Host web'' @ [10] @ lit '' User u'' @ [10]"

definition sample_head :: directive where
  "sample_head =
     \<lparr>d_keyword = lit ''Host'', d_key = lit ''host'', d_value = lit ''web'', d_separator = SepSpace (lit '' ''), d_indent = [],
      d_trailing_ws = [], d_inline_comment = None, d_enabled = True, d_raw = lit ''Host web'', d_dirty = False\<rparr>"

definition sample_line :: directive where
  "sample_line =
     \<lparr>d_keyword = lit ''User'', d_key = lit ''user'', d_value = lit ''u'', d_separator = SepSpace (lit '' ''), d_indent = lit '' '',
      d_trailing_ws = [], d_inline_comment = None, d_enabled = True, d_raw = lit '' User u'', d_dirty = False\<rparr>"

lemma sample_text_parse:
  "fst (parse_file to_ascii_lowercase sample_text) = [IHost (HostBlock sample_head [lit ''web''] [IDirective sample_line])]"
  by (simp add: sample_text_def sample_head_def sample_line_def parse_file_def ends_with_def item_of_line_def classify_line_def Let_def
      split_value_comment_def trim_start_def trim_end_def starts_with_def to_ascii_lowercase_def
      group_blocks.simps block_of_def split_whitespace.simps str_simps)

lemma visible_line: "\<forall>c \<in> set (strip_cr (render_directive d)). \<not> is_invisible c \<Longrightarrow> \<not> has_invisible_character d"
  by (auto simp: has_invisible_character_def Let_def list_ex_iff dest: in_set_takeD split: option.splits)

lemma sample_invisible:
  "\<not> has_invisible_character sample_head" "\<not> has_invisible_character sample_line"
proof -
  have a: "\<not> is_invisible c" if "c \<in> set (lit ''Host web'') \<union> set (lit '' User u'')" for c
    using that by (auto simp: is_invisible_def is_confusable_space_def is_format_character_def
      is_default_ignorable_def is_blank_by_design_def in_ranges_def str_simps)
  have "strip_cr (render_directive sample_head) = lit ''Host web''" "strip_cr (render_directive sample_line) = lit '' User u''"
    by (simp_all add: sample_head_def sample_line_def render_directive_def strip_cr_def strip_suffix_str_def ends_with_def str_simps)
  with a show "\<not> has_invisible_character sample_head" "\<not> has_invisible_character sample_line"
    by (auto intro!: visible_line)
qed

lemma header_sample_alike: "header_reads_the_same sample_head"
  by (simp add: header_reads_the_same_def sample_head_def after_keyword_def openssh_trim_end_def Let_def is_blank_char_def
      split_whitespace.simps str_simps)

lemma sample_forbidden:
  "forbidden ascii_unicode sample_head = None" "forbidden ascii_unicode sample_line = None"
proof -
  have k: "\<not> has_stray_character ascii_unicode sample_head" "\<not> has_stray_character ascii_unicode sample_line"
    by (simp_all add: has_stray_character_def RAW_LINE_KEYWORDS_def sample_head_def sample_line_def str_simps)
  with header_sample_alike sample_invisible show "forbidden ascii_unicode sample_head = None"
    by (simp add: forbidden_def serializes_as_comment_def header_name_def) (simp add: sample_head_def str_simps)
  have "is_plain_shell_bound_value sample_line"
    by (simp add: is_plain_shell_bound_value_def sample_line_def after_keyword_def is_ascii_whitespace_def starts_with_def
        SHELL_CHARACTERS_def str_simps)
  with k sample_invisible show "forbidden ascii_unicode sample_line = None"
    by (simp add: forbidden_def serializes_as_comment_def header_name_def SHELL_BOUND_KEYWORDS_def) (simp add: sample_line_def str_simps)
qed

lemma sample_text_valid:
  "parse_single_host ascii_unicode (lit ''web'') sample_text = Inr (IHost (HostBlock sample_head [lit ''web''] [IDirective sample_line]))"
  "is_syncable_alias (lit ''web'')"
proof -
  show a: "is_syncable_alias (lit ''web'')" by (simp add: is_syncable_alias_def str_simps)
  have "u_lowercase ascii_unicode = to_ascii_lowercase" by (simp add: ascii_unicode_def)
  with a sample_text_parse sample_forbidden show
    "parse_single_host ascii_unicode (lit ''web'') sample_text = Inr (IHost (HostBlock sample_head [lit ''web''] [IDirective sample_line]))"
    by (simp add: parse_single_host_def Let_def is_syncable_block_def first_alias_def or_else_def)
qed

text \<open>Applying a received block changes the block of its host and nothing else: afterwards the host
  reads back as the received text, every other block is as it was, the result says whether the file
  changed, and applying the same text again changes nothing.\<close>

theorem apply_host_text_effect:
  assumes "apply_host_text T items alias t = Inr (changed, items')"
  shows "find (\<lambda>b. ht_alias b = alias) (blocks_of items')
           = Some \<lparr>ht_alias = alias, ht_text = (if ends_with t [10] then t else t @ [10])\<rparr>
    \<and> filter (\<lambda>b. ht_alias b \<noteq> alias) (blocks_of items') = filter (\<lambda>b. ht_alias b \<noteq> alias) (blocks_of items)
    \<and> (changed \<longleftrightarrow> items' \<noteq> items)
    \<and> apply_host_text T items' alias t = Inr (False, items')"
proof -
  from assms obtain pos it where pos: "syncable_host_position items alias = Inr pos" and it: "parse_single_host T alias t = Inr it"
    by (auto simp: apply_host_text_def)
  note entry = block_entry_single [OF it]
  from it obtain h where h: "it = IHost h" "first_alias it = Some alias" "is_syncable_block (hb_patterns h)"
    by (rule parse_single_host_Inr)
  note s = syncable_host_position_Inr [OF pos]
  show ?thesis
  proof (cases pos)
    case None
    with assms pos it have items': "changed" "items' = items @ [it]" by (auto simp: apply_host_text_def)
    from s None have sh: "\<forall>it \<in> set items. first_alias it \<noteq> Some alias" "is_syncable_alias alias" by auto
    have "syncable_host_position items' alias = Inr (Some (length items))"
      using syncable_position_at [OF sh(2,1) h(2) [unfolded h(1)] h(3)] items' h by simp
    then have "apply_host_text T items' alias t = Inr (False, items')" using it items' by (simp add: apply_host_text_def)
    with blocks_around [OF sh(1) entry, of "[]"] items' other_blocks(2) [of items "alias"] sh show ?thesis by simp
  next
    case (Some p)
    with s obtain xs g ys where sh: "items = xs @ IHost g # ys" "p = length xs" "\<forall>it \<in> set xs. first_alias it \<noteq> Some alias"
      "first_alias (IHost g) = Some alias" "is_syncable_block (hb_patterns g)" "is_syncable_alias alias" by auto
    have old: "block_entry (IHost g) = Some \<lparr>ht_alias = alias, ht_text = block_text (IHost g)\<rparr>"
      using sh(4,5) by (auto simp: block_entry_def first_alias_def split: list.splits)
    have new: "block_text it = (if ends_with t [10] then t else t @ [10])"
      using block_entry_alias [OF entry] by simp
    show ?thesis
    proof (cases "block_text (IHost g) = block_text it")
      case True
      with assms pos it Some sh have "\<not> changed" "items' = items" by (auto simp: apply_host_text_def)
      with assms blocks_around [OF sh(3) old, of ys] True new sh(1) show ?thesis by auto
    next
      case False
      with assms pos it Some sh have items': "changed" "items' = xs @ it # ys" by (auto simp: apply_host_text_def)
      have "syncable_host_position items' alias = Inr (Some (length xs))"
        using syncable_position_at [OF sh(6,3) h(2) [unfolded h(1)] h(3)] items' h by simp
      then have "apply_host_text T items' alias t = Inr (False, items')" using it items' by (simp add: apply_host_text_def)
      moreover have "items' \<noteq> items" using False items' sh(1) by auto
      ultimately show ?thesis
        using blocks_around [OF sh(3) entry, of ys] blocks_around [OF sh(3) old, of ys] items' sh(1)
        by (simp del: blocks_of_simps)
    qed
  qed
qed

theorem apply_host_text_effect_witness:
  "\<exists>items'. apply_host_text ascii_unicode [] (lit ''web'') sample_text = Inr (True, items')
     \<and> find (\<lambda>b. ht_alias b = lit ''web'') (blocks_of items') = Some \<lparr>ht_alias = lit ''web'', ht_text = sample_text\<rparr>"
proof -
  let ?items = "[IHost (HostBlock sample_head [lit ''web''] [IDirective sample_line])]"
  have r: "apply_host_text ascii_unicode [] (lit ''web'') sample_text = Inr (True, ?items)"
    using sample_text_valid by (simp add: apply_host_text_def syncable_host_position_def)
  have "ends_with sample_text [10]" by (simp add: sample_text_def ends_with_def str_simps)
  with apply_host_text_effect [OF r] r show ?thesis by auto
qed

section \<open>What an accepted text is\<close>

text \<open>Every directive of a parsed file is what the lexer makes of its line.\<close>

definition from_line :: "(rstr \<Rightarrow> rstr) \<Rightarrow> directive \<Rightarrow> bool" where
  "from_line lc d \<longleftrightarrow> classify_line lc (d_raw d) = LDirective d"

fun flat_line :: "(directive \<Rightarrow> bool) \<Rightarrow> item \<Rightarrow> bool" where
  "flat_line P (IDirective d) = P d"
| "flat_line P _ = True"

fun lines_of :: "(directive \<Rightarrow> bool) \<Rightarrow> item \<Rightarrow> bool" where
  "lines_of P (IHost (HostBlock h _ body)) = (P h \<and> list_all (flat_line P) body)"
| "lines_of P (IMatch (MatchBlock h _ body)) = (P h \<and> list_all (flat_line P) body)"
| "lines_of P it = flat_line P it"

lemma lines_of_flat: "flat_item it \<Longrightarrow> lines_of P it = flat_line P it"
  by (cases it) auto

lemma group_blocks_lines:
  "list_all flat_item flat \<Longrightarrow> list_all (flat_line P) flat \<Longrightarrow> it \<in> set (group_blocks flat) \<Longrightarrow> lines_of P it"
proof (induction flat rule: blocks_induct)
  case (Plain i iter)
  then show ?case by (auto simp: group_blocks_plain lines_of_flat)
next
  case (Header d k iter)
  have "list_all (flat_line P) (takeWhile (\<lambda>n. header_kind n = None) iter)" "list_all (flat_line P) (dropWhile (\<lambda>n. header_kind n = None) iter)"
    using Header.prems(2) by (auto simp: list_all_iff dest: set_takeWhileD set_dropWhileD)
  with Header show ?case
    by (cases k) (auto simp: group_blocks_header block_of_def flat_parts)
qed simp

lemma parsed_lines: "it \<in> set (fst (parse_file lc t)) \<Longrightarrow> lines_of (from_line lc) it"
proof -
  have "flat_line (from_line lc) (item_of_line lc l)" for l
    using classify_line_directive(2) [of lc l] by (auto simp: item_of_line_def from_line_def split: line_kind.splits)
  then show "it \<in> set (fst (parse_file lc t)) \<Longrightarrow> lines_of (from_line lc) it"
    by (auto simp: parse_file_def Let_def list_all_iff split: if_splits elim!: group_blocks_lines [rotated 2])
qed

lemma from_line_live: "from_line lc d \<Longrightarrow> \<not> serializes_as_comment d"
  using classify_line_directive(3) by (auto simp: from_line_def serializes_as_comment_def)

lemma or_else_None [simp]: "or_else a b = None \<longleftrightarrow> a = None \<and> b = None"
  by (simp add: or_else_def split: option.splits)

lemma forbidden_directive_None: "forbidden_directive T items = None \<longleftrightarrow> (\<forall>it \<in> set items. forbidden_item T it = None)"
  by (induction items) auto

text \<open>A live line that passes.\<close>

definition safe_line :: "unicode \<Rightarrow> directive \<Rightarrow> bool" where
  "safe_line T d \<longleftrightarrow>
     d_keyword d \<noteq> [] \<and> 34 \<notin> set (d_keyword d) \<and> d_key d \<noteq> lit ''include''
     \<and> \<not> has_invisible_character d \<and> \<not> has_stray_character T d
     \<and> (d_key d \<in> fst ` set SHELL_BOUND_KEYWORDS \<longrightarrow>
          (\<exists>word. takeWhile (\<lambda>w. \<not> starts_with w [35]) (words_by is_ascii_whitespace [] (after_keyword d)) = [word]
             \<and> \<not> starts_with word [45] \<and> (\<forall>c \<in> set word. \<not> is_control c \<and> c \<notin> set SHELL_CHARACTERS)))"

lemma forbidden_None:
  assumes "forbidden T d = None" "\<not> serializes_as_comment d" "d_key d \<noteq> lit ''host''" "d_key d \<noteq> lit ''match''"
  shows "safe_line T d"
proof -
  have f: "d_keyword d \<noteq> []" "34 \<notin> set (d_keyword d)" "d_key d \<noteq> lit ''include''" "\<not> has_invisible_character d" "\<not> has_stray_character T d"
    using assms(1,2) by (auto simp: forbidden_def split: if_splits)
  have "is_plain_shell_bound_value d" if k: "d_key d \<in> fst ` set SHELL_BOUND_KEYWORDS"
  proof -
    from k obtain kn where "find (\<lambda>(k, _). d_key d = k) SHELL_BOUND_KEYWORDS = Some kn"
      by (cases "find (\<lambda>(k, _). d_key d = k) SHELL_BOUND_KEYWORDS") (fastforce simp: find_None_iff)+
    with assms f show ?thesis by (auto simp: forbidden_def header_name_def split: prod.splits if_splits)
  qed
  moreover have "\<exists>word. takeWhile (\<lambda>w. \<not> starts_with w [35]) (words_by is_ascii_whitespace [] (after_keyword d)) = [word]
      \<and> \<not> starts_with word [45] \<and> (\<forall>c \<in> set word. \<not> is_control c \<and> c \<notin> set SHELL_CHARACTERS)" if "is_plain_shell_bound_value d"
    using that unfolding is_plain_shell_bound_value_def by (auto simp: list_ex_iff split: list.splits)
  ultimately show ?thesis using f unfolding safe_line_def by blast
qed

lemma header_line_None:
  assumes "forbidden T d = None" "\<not> serializes_as_comment d" "d_key d = lit ''host''"
  shows "header_reads_the_same d"
  using assms by (auto simp: forbidden_def header_name_def split: if_splits)

text \<open>C21. A received text that is accepted is harmless before anyone approves it: it is one host block
  and nothing else, it names only the host of its record and no pattern with a wildcard, OpenSSH reads
  exactly those patterns, it brings no \<open>Include\<close> and no keyword that OpenSSH would see and the program
  would not, no live line has an invisible character, and the values that ssh hands to a shell are
  single words without shell characters.\<close>

theorem validated_text_safe:
  assumes "validate_host_text T alias t = Inr ()"
  shows "\<exists>h. fst (parse_file (u_lowercase T) t) = [IHost h] \<and> openssh_patterns (hb_header h) = Some (hb_patterns h)
    \<and> hd (hb_patterns h) = alias \<and> (\<forall>p \<in> set (hb_patterns h). p \<noteq> [] \<and> set p \<inter> {42, 63, 33} = {})
    \<and> (\<forall>d. IDirective d \<in> set (hb_body h) \<longrightarrow> safe_line T d \<and> d_key d \<noteq> lit ''host'' \<and> d_key d \<noteq> lit ''match'')"
proof -
  let ?p = "parse_file (u_lowercase T) t"
  from assms obtain it where it: "parse_single_host T alias t = Inr it" by (auto simp: validate_host_text_def split: if_splits)
  then obtain h where h: "it = IHost h" "fst ?p = [IHost h]" "first_alias it = Some alias" "is_syncable_block (hb_patterns h)"
    "forbidden_directive T [it] = None" by (rule parse_single_host_Inr)
  obtain head pats body where hb: "h = HostBlock head pats body" by (cases h)
  from h(5) h(1) hb have f: "forbidden T head = None" "\<forall>i \<in> set body. forbidden_item T i = None"
    by (simp_all add: forbidden_directive_None)
  have ok: "block_ok (IHost h)" using file_shape_parse [of "u_lowercase T" t] h(2) by (simp add: file_shape_def)
  have lines: "lines_of (from_line (u_lowercase T)) (IHost h)" using parsed_lines [of _ "u_lowercase T" t] h(2) by simp
  have "header_reads_the_same head"
    using header_line_None [OF f(1)] lines ok hb from_line_live [of "u_lowercase T" head] by simp
  with header_read_alike have "openssh_patterns head = Some pats" using ok hb by simp
  moreover have "safe_line T d \<and> d_key d \<noteq> lit ''host'' \<and> d_key d \<noteq> lit ''match''" if "IDirective d \<in> set body" for d
  proof -
    have "header_kind (IDirective d) = None" using that ok hb by (auto simp: list_all_iff)
    then have "d_key d \<noteq> lit ''host''" "d_key d \<noteq> lit ''match''" by (auto split: if_splits)
    moreover have "\<not> serializes_as_comment d" using that lines hb from_line_live by (fastforce simp: list_all_iff)
    ultimately show ?thesis using forbidden_None f(2) that by fastforce
  qed
  moreover have "hd pats = alias" "\<forall>p \<in> set pats. p \<noteq> [] \<and> set p \<inter> {42, 63, 33} = {}"
    using h(1,3,4) hb by (auto simp: first_alias_def is_syncable_block_def is_syncable_alias_def list_all_iff list_ex_iff split: list.splits)
  ultimately show ?thesis using h(2) hb by auto
qed

theorem validated_text_safe_witness:
  "validate_host_text ascii_unicode (lit ''web'') sample_text = Inr ()
   \<and> (\<exists>h. fst (parse_file to_ascii_lowercase sample_text) = [IHost h] \<and> openssh_patterns (hb_header h) = Some [lit ''web''])"
proof -
  have v: "validate_host_text ascii_unicode (lit ''web'') sample_text = Inr ()"
    using sample_text_valid by (simp add: validate_host_text_def)
  have "u_lowercase ascii_unicode = to_ascii_lowercase" by (simp add: ascii_unicode_def)
  with validated_text_safe [OF v] v sample_text_parse show ?thesis by auto
qed

section \<open>The Include line is exact\<close>

lemma include_words_simps [simp]:
  "include_words [] = []" "include_words (xs @ ys) = include_words xs @ include_words ys"
  "include_words (it # items) = (case enabled_include it of Some d \<Rightarrow> split_whitespace (d_value d) | None \<Rightarrow> []) @ include_words items"
  by (simp_all add: include_words_def)

lemma enabled_include_Some: "enabled_include it = Some d \<longleftrightarrow> it = IDirective d \<and> d_key d = lit ''include'' \<and> \<not> serializes_as_comment d"
  by (cases it) (auto simp: enabled_include_def)

lemma has_our_token_words: "has_our_token it \<longleftrightarrow> (\<exists>t \<in> set (include_words [it]). is_our_include_token t)"
  by (cases "enabled_include it") (auto simp: has_our_token_def list_ex_iff)

text \<open>A line that loses our tokens keeps its others, and stays the line of the agent if it was one.\<close>

lemma without_our_tokens_cases:
  "without_our_tokens it = [it] \<and> \<not> has_our_token it
   \<or> has_our_token it \<and> filter (\<lambda>t. \<not> is_our_include_token t) (include_words [it]) = [] \<and> without_our_tokens it = []
   \<or> has_our_token it \<and> (\<exists>d. enabled_include it \<noteq> None \<and> without_our_tokens it = [IDirective d] \<and> enabled_include (IDirective d) = Some d
        \<and> split_whitespace (d_value d) = filter (\<lambda>t. \<not> is_our_include_token t) (include_words [it]))"
proof (cases "has_our_token it")
  case True
  then obtain d where d: "it = IDirective d" "enabled_include it = Some d"
    by (cases "enabled_include it") (auto simp: has_our_token_def enabled_include_Some)
  define rest where "rest = filter (\<lambda>t. \<not> is_our_include_token t) (split_whitespace (d_value d))"
  have "list_all word_ok rest" using split_whitespace_ok by (auto simp: rest_def list_all_iff)
  then have j: "split_whitespace (join (lit '' '') rest) = rest" by (rule split_whitespace_join)
  have w: "filter (\<lambda>t. \<not> is_our_include_token t) (include_words [it]) = rest" using d(2) by (simp add: rest_def)
  show ?thesis
  proof (cases "rest = []")
    case True
    with \<open>has_our_token it\<close> d w show ?thesis by (simp add: without_our_tokens_def flip: rest_def)
  next
    case False
    let ?d = "d\<lparr>d_value := join (lit '' '') rest, d_dirty := True, d_enabled := True\<rparr>"
    have "without_our_tokens it = [IDirective ?d]" using \<open>has_our_token it\<close> d False by (simp add: without_our_tokens_def flip: rest_def)
    moreover have "enabled_include (IDirective ?d) = Some ?d" using d by (simp add: enabled_include_Some serializes_as_comment_def)
    moreover have "split_whitespace (d_value ?d) = rest" using j by simp
    ultimately have "enabled_include it \<noteq> None \<and> without_our_tokens it = [IDirective ?d] \<and> enabled_include (IDirective ?d) = Some ?d
        \<and> split_whitespace (d_value ?d) = filter (\<lambda>t. \<not> is_our_include_token t) (include_words [it])"
      using d(2) w by (simp only:) simp
    with \<open>has_our_token it\<close> show ?thesis by blast
  qed
qed (simp add: without_our_tokens_def)

lemma include_words_without:
  "include_words (concat (map without_our_tokens items)) = filter (\<lambda>t. \<not> is_our_include_token t) (include_words items)"
proof (induction items)
  case (Cons it items)
  have "include_words (without_our_tokens it) = filter (\<lambda>t. \<not> is_our_include_token t) (include_words [it])"
    using without_our_tokens_cases [of it] by (auto simp: has_our_token_words filter_id_conv simp del: include_words_simps(3)) (simp add: include_words_def)
  with Cons show ?case by (simp add: include_words_def)
qed simp


lemma other_items_without:
  "filter (\<lambda>it. enabled_include it = None) (concat (map without_our_tokens items)) = filter (\<lambda>it. enabled_include it = None) items"
proof (induction items)
  case (Cons it items)
  have "filter (\<lambda>it. enabled_include it = None) (without_our_tokens it) = filter (\<lambda>it. enabled_include it = None) [it]"
    using without_our_tokens_cases [of it] by (cases "enabled_include it") (auto simp: has_our_token_def)
  with Cons show ?case by simp
qed simp

lemma without_our_tokens_clean: "x \<in> set (without_our_tokens it) \<Longrightarrow> \<not> has_our_token x"
  using without_our_tokens_cases [of it] by (auto simp: has_our_token_def list_ex_iff)

text \<open>The lines above the place of the \<open>Include\<close> line keep their number.\<close>

lemma agent_token_not_ours: "\<not> is_our_include_token INCLUDE_TOKEN"
  by (simp add: is_our_include_token_def INCLUDE_TOKEN_def INCLUDE_DIR_def strip_prefix_def starts_with_def str_simps)

abbreviation stays_above :: "item \<Rightarrow> bool" where
  "stays_above it \<equiv> is_blank_or_comment it \<or> is_agent_include it"

lemma is_agent_include_words: "is_agent_include it \<longleftrightarrow> INCLUDE_TOKEN \<in> set (include_words [it])"
  by (cases it) (auto simp: is_agent_include_def lists_agent_token_def enabled_include_def list_ex_iff)

lemma above_without:
  assumes "stays_above it" shows "\<exists>it'. without_our_tokens it = [it'] \<and> stays_above it'"
proof (cases "is_agent_include it")
  case True
  then have "INCLUDE_TOKEN \<in> set (filter (\<lambda>t. \<not> is_our_include_token t) (include_words [it]))"
    using agent_token_not_ours by (simp only: is_agent_include_words set_filter) simp
  then show ?thesis
    using without_our_tokens_cases [of it] True is_agent_include_words by (auto simp del: set_filter)
next
  case False
  with assms have "enabled_include it = None" by (cases it) (auto simp: enabled_include_def)
  with assms show ?thesis by (simp add: without_our_tokens_def has_our_token_def)
qed

lemma above_all_without:
  "list_all stays_above xs \<Longrightarrow> length (concat (map without_our_tokens xs)) = length xs \<and> list_all stays_above (concat (map without_our_tokens xs))"
proof (induction xs)
  case (Cons x xs)
  from Cons.prems obtain x' where "without_our_tokens x = [x']" "stays_above x'" using above_without by auto
  with Cons show ?case by simp
qed simp

lemma sync_include_index_split:
  obtains xs ys where "items = xs @ ys" "sync_include_index items = length xs" "list_all stays_above xs"
    "case ys of [] \<Rightarrow> True | y # _ \<Rightarrow> \<not> stays_above y"
proof (cases "position (\<lambda>it. \<not> is_blank_or_comment it \<and> \<not> is_agent_include it) items")
  case None
  then have "list_all stays_above items" by (auto simp: position_None list_all_iff)
  with None show ?thesis using that [of items "[]"] by (simp add: sync_include_index_def)
next
  case (Some i)
  then have i: "i < length items" "\<not> stays_above (items ! i)" "\<forall>j < i. stays_above (items ! j)"
    using position_Some [of _ items i] by auto
  have "list_all stays_above (take i items)" using i by (auto simp: list_all_length)
  with that [of "take i items" "items ! i # drop (Suc i) items"] i Some id_take_nth_drop [OF i(1)] show ?thesis
    by (simp add: sync_include_index_def)
qed

lemma sync_include_index_at:
  "list_all stays_above xs \<Longrightarrow> \<not> stays_above y \<Longrightarrow> sync_include_index (xs @ y # ys) = length xs"
  using position_append [of xs "\<lambda>it. \<not> is_blank_or_comment it \<and> \<not> is_agent_include it" y ys]
  by (auto simp: sync_include_index_def list_all_iff)

text \<open>What \<open>include_tokens\<close> produces: words that are ours.\<close>

lemma space_file_name_chars:
  assumes "is_space_file_name name" shows "\<forall>c \<in> set name. is_slug_char c \<or> c = 45 \<or> c = 46" "ends_with name (lit ''.config'')"
proof -
  let ?x = "lit ''.config''" and ?stem = "take (length name - length (lit ''.config'')) name"
  from assms have e: "ends_with name ?x" by (simp add: is_space_file_name_def strip_suffix_str_def split: if_splits)
  with assms obtain i where i: "rposition (\<lambda>x. x = 45) ?stem = Some i" by (fastforce simp: is_space_file_name_def strip_suffix_str_def rsplit_once_def)
  define stem slug id8 where "stem = ?stem" and "slug = take i stem" and "id8 = drop (Suc i) stem"
  with e i assms have n: "list_all is_lower_hex id8" "list_all (\<lambda>c. is_slug_char c \<or> c = 45) slug"
    by (simp_all add: is_space_file_name_def strip_suffix_str_def rsplit_once_def del: take_take)
  from e show "ends_with name ?x" .
  have "stem = slug @ 45 # id8" using rposition_Some [OF i [folded stem_def]] id_take_nth_drop [of i stem] by (simp add: slug_def id8_def)
  then have "\<forall>c \<in> set stem. is_slug_char c \<or> c = 45"
    using n by (auto simp: list_all_iff is_lower_hex_def is_slug_char_def)
  moreover have "name = stem @ lit ''.config''"
    using e append_take_drop_id [of "length name - length ?x" name] by (simp add: ends_with_def stem_def)
  moreover have "\<forall>c \<in> set (lit ''.config''). is_slug_char c \<or> c = 46"
    by (simp add: lit_def is_slug_char_def is_ascii_digit_def)
  ultimately show "\<forall>c \<in> set name. is_slug_char c \<or> c = 45 \<or> c = 46" by auto
qed

lemma slug_char_plain: "is_slug_char c \<or> c = 45 \<or> c = 46 \<Longrightarrow> \<not> is_whitespace c \<and> c \<noteq> 47 \<and> c \<noteq> 92"
  by (auto simp: is_slug_char_def is_ascii_digit_def is_whitespace_def)

lemma include_token_ok:
  assumes "include_token f = Inr t" shows "is_our_include_token t" "word_ok t"
proof -
  from assms have f: "is_space_file_name f" "t = INCLUDE_DIR @ f" by (auto simp: include_token_def split: if_splits)
  have c: "\<forall>c \<in> set f. \<not> is_whitespace c \<and> c \<noteq> 47 \<and> c \<noteq> 92" using space_file_name_chars(1) [OF f(1)] slug_char_plain by blast
  then have "strip_prefix t INCLUDE_DIR = Some f" "47 \<notin> set f" "92 \<notin> set f"
    using f(2) by (auto simp: strip_prefix_def starts_with_def)
  then show "is_our_include_token t" using space_file_name_chars(2) [OF f(1)] by (simp add: is_our_include_token_def)
  have "list_all (\<lambda>c. \<not> is_whitespace c) INCLUDE_DIR" "INCLUDE_DIR \<noteq> []" by (simp_all add: INCLUDE_DIR_def str_simps)
  with c f(2) show "word_ok t" by (auto simp: word_ok_def list_all_iff)
qed

lemma include_tokens_ok:
  assumes "include_tokens lc spaces = Inr tokens" shows "list_all (\<lambda>t. is_our_include_token t \<and> word_ok t) tokens"
  using assms unfolding include_tokens_def
  by (rule for_each_inv) (auto simp: rbind_def include_token_ok split: sum.splits)

section \<open>Keeping the Include line\<close>

lemma word_ok_no_crlf: "word_ok w \<Longrightarrow> 13 \<notin> set w \<and> 10 \<notin> set w"
  using is_whitespace_def [of 13] is_whitespace_def [of 10] by (auto simp: word_ok_def list_all_iff)

lemma join_no_crlf: "list_all word_ok ts \<Longrightarrow> 13 \<notin> set (join (lit '' '') ts) \<and> 10 \<notin> set (join (lit '' '') ts)"
proof (induction ts rule: induct_list012)
  case (3 t u ts)
  have "lit '' '' = [32]" by (simp add: lit_def)
  with 3 show ?case by (simp add: word_ok_no_crlf)
qed (simp_all add: word_ok_no_crlf)

lemma include_line:
  fixes tokens :: "rstr list"
  assumes "list_all word_ok tokens" "lc (lit ''Include'') = lit ''include''"
  defines "line \<equiv> IDirective (directive_new lc (lit ''Include'') (join (lit '' '') tokens) [])"
  shows "include_words [line] = tokens" "enabled_include line \<noteq> None" "\<not> is_blank_or_comment line"
    "is_some_and (enabled_include line) (\<lambda>d. split_whitespace (d_value d) = tokens)"
proof -
  have "strip_crlf (join (lit '' '') tokens) = join (lit '' '') tokens"
    unfolding strip_crlf_def by (rule filter_True) (use join_no_crlf [OF assms(1)] in metis)
  then have e: "enabled_include line = Some (directive_new lc (lit ''Include'') (join (lit '' '') tokens) [])"
    "d_value (directive_new lc (lit ''Include'') (join (lit '' '') tokens) []) = join (lit '' '') tokens"
    using assms(2) by (simp_all add: line_def enabled_include_def directive_new_def serializes_as_comment_def)
  with split_whitespace_join [OF assms(1)]
  show "include_words [line] = tokens" "enabled_include line \<noteq> None" "is_some_and (enabled_include line) (\<lambda>d. split_whitespace (d_value d) = tokens)"
    by simp_all
  show "\<not> is_blank_or_comment line" by (simp add: line_def)
qed

lemma no_our_words: "\<forall>it \<in> set items. \<not> has_our_token it \<Longrightarrow> filter is_our_include_token (include_words items) = []"
  by (induction items) (auto simp: has_our_token_words filter_empty_conv)

lemma include_correct_at:
  assumes "list_all stays_above xs" "\<not> stays_above line" "is_some_and (enabled_include line) (\<lambda>d. split_whitespace (d_value d) = tokens)"
    "tokens \<noteq> []" "\<forall>it \<in> set xs \<union> set ys. \<not> has_our_token it"
  shows "include_correct (xs @ line # ys) tokens"
proof -
  have "\<not> has_our_token ((xs @ line # ys) ! i)" if "i \<noteq> length xs" "i < length (xs @ line # ys)" for i
    using that assms(5) by (auto simp: nth_append nth_Cons split: nat.splits)
  then show ?thesis
    using assms(3,4) sync_include_index_at [OF assms(1,2), of ys]
    by (auto simp: include_correct_def Let_def list_ex_iff in_set_enumerate_eq)
qed

lemma include_correct_words:
  assumes "include_correct items tokens" "list_all is_our_include_token tokens"
  shows "filter is_our_include_token (include_words items) = tokens"
proof (cases "tokens = []")
  case True
  with assms no_our_words [of items] show ?thesis by (auto simp: include_correct_def list_ex_iff)
next
  case False
  let ?n = "sync_include_index items"
  from assms False have n: "?n < length items" "is_some_and (enabled_include (items ! ?n)) (\<lambda>d. split_whitespace (d_value d) = tokens)"
    "\<forall>i < length items. i \<noteq> ?n \<longrightarrow> \<not> has_our_token (items ! i)"
    by (auto simp: include_correct_def Let_def list_ex_iff in_set_enumerate_eq)
  have "\<forall>it \<in> set (take ?n items) \<union> set (drop (Suc ?n) items). \<not> has_our_token it"
    using n(1,3) by (auto simp: in_set_conv_nth)
  then have "filter is_our_include_token (include_words (take ?n items)) = []" "filter is_our_include_token (include_words (drop (Suc ?n) items)) = []"
    by (simp_all add: no_our_words)
  moreover have "include_words [items ! ?n] = tokens" using n(2) by (cases "enabled_include (items ! ?n)") auto
  ultimately have "filter is_our_include_token (include_words (take ?n items @ items ! ?n # drop (Suc ?n) items)) = tokens"
    using assms(2) by (simp add: filter_id_conv list_all_iff)
  then show ?thesis using id_take_nth_drop [OF n(1)] by simp
qed

lemma not_agent_line: "list_all is_our_include_token (include_words [it]) \<Longrightarrow> \<not> is_agent_include it"
  using agent_token_not_ours is_agent_include_words by (auto simp: list_all_iff)

text \<open>The result of a call that changes something: the lines above, the new line, and the rest.\<close>

lemma ensure_include_changed:
  assumes "\<not> include_correct items tokens" "list_all (\<lambda>t. is_our_include_token t \<and> word_ok t) tokens" "lc (lit ''Include'') = lit ''include''"
  obtains xs ys where "xs @ ys = concat (map without_our_tokens items)" "include_correct (snd (ensure_include lc items tokens)) tokens"
    "snd (ensure_include lc items tokens) =
       xs @ (if tokens = [] then [] else [IDirective (directive_new lc (lit ''Include'') (join (lit '' '') tokens) [])]) @ ys"
proof -
  obtain as bs where split: "items = as @ bs" "sync_include_index items = length as" "list_all stays_above as"
    by (rule sync_include_index_split)
  let ?xs = "concat (map without_our_tokens as)" and ?ys = "concat (map without_our_tokens bs)"
  let ?line = "IDirective (directive_new lc (lit ''Include'') (join (lit '' '') tokens) [])"
  have xs: "length ?xs = length as" "list_all stays_above ?xs" using above_all_without [OF split(3)] by simp_all
  have clean: "\<forall>it \<in> set ?xs \<union> set ?ys. \<not> has_our_token it" using without_our_tokens_clean by auto
  have w: "list_all word_ok tokens" "list_all is_our_include_token tokens" using assms(2) by (simp_all add: list_all_iff)
  note line = include_line [where lc = lc, OF w(1) assms(3)]
  have res: "snd (ensure_include lc items tokens) = ?xs @ (if tokens = [] then [] else [?line]) @ ?ys"
    using assms(1) split xs by (simp add: ensure_include_def insert_at_def)
  moreover have "include_correct (?xs @ (if tokens = [] then [] else [?line]) @ ?ys) tokens"
  proof (cases "tokens = []")
    case True
    with clean show ?thesis by (auto simp: include_correct_def list_ex_iff)
  next
    case False
    with include_correct_at [OF xs(2) _ line(4) False clean] not_agent_line [of ?line] w(2) line(1,3) show ?thesis by simp
  qed
  ultimately show ?thesis using that [of ?xs ?ys] split(1) by simp
qed

text \<open>Keeping the \<open>Include\<close> line of the space files: afterwards the words of ours that OpenSSH reads in this
  file are exactly the files of the current spaces in their order, on the line the program looks at; every
  other included file and every line that is not an \<open>Include\<close> line is kept in order; the call reports a
  change exactly when it made one; and a second call changes nothing.\<close>

theorem ensure_include_exact:
  assumes "include_tokens lc spaces = Inr tokens" "lc (lit ''Include'') = lit ''include''"
    and "ensure_include lc items tokens = (changed, items')"
  shows "filter is_our_include_token (include_words items') = tokens
    \<and> filter (\<lambda>t. \<not> is_our_include_token t) (include_words items') = filter (\<lambda>t. \<not> is_our_include_token t) (include_words items)
    \<and> filter (\<lambda>it. enabled_include it = None) items' = filter (\<lambda>it. enabled_include it = None) items
    \<and> (changed \<longleftrightarrow> items' \<noteq> items) \<and> ensure_include lc items' tokens = (False, items')"
proof (cases "include_correct items tokens")
  case True
  moreover have "list_all is_our_include_token tokens" using include_tokens_ok [OF assms(1)] by (simp add: list_all_iff)
  ultimately show ?thesis using assms(3) include_correct_words by (simp add: ensure_include_def)
next
  case False
  have ok: "list_all (\<lambda>t. is_our_include_token t \<and> word_ok t) tokens" using include_tokens_ok [OF assms(1)] .
  then have w: "list_all word_ok tokens" "list_all is_our_include_token tokens" by (simp_all add: list_all_iff)
  let ?line = "if tokens = [] then [] else [IDirective (directive_new lc (lit ''Include'') (join (lit '' '') tokens) [])]"
  obtain xs ys where r: "xs @ ys = concat (map without_our_tokens items)" "include_correct items' tokens" "items' = xs @ ?line @ ys"
    using ensure_include_changed [where lc = lc, OF False ok assms(2)] assms(3) by (metis snd_conv)
  have "changed" using False assms(3) by (simp add: ensure_include_def Let_def)
  moreover have "items' \<noteq> items" using r(2) False by auto
  moreover have "ensure_include lc items' tokens = (False, items')" using r(2) by (simp add: ensure_include_def)
  moreover have "filter (\<lambda>t. \<not> is_our_include_token t) (include_words ?line) = []" "filter (\<lambda>it. enabled_include it = None) ?line = []"
    using include_line(1,2) [where lc = lc, OF w(1) assms(2)] w(2) by (simp_all add: list_all_iff filter_empty_conv del: include_words_simps(3))
  then have "filter (\<lambda>t. \<not> is_our_include_token t) (include_words items') = filter (\<lambda>t. \<not> is_our_include_token t) (include_words (xs @ ys))"
    "filter (\<lambda>it. enabled_include it = None) items' = filter (\<lambda>it. enabled_include it = None) (xs @ ys)"
    unfolding r(3) by (simp_all del: include_words_simps(3))
  ultimately show ?thesis
    using include_correct_words [OF r(2) w(2)] include_words_without [of items] other_items_without [of items] unfolding r(1)
    by (simp add: filter_filter)
qed

theorem ensure_include_exact_witness:
  "\<exists>tokens items'. include_tokens to_ascii_lowercase [\<lparr>sf_space_id = [], sf_name = lit ''a'', sf_file_name = lit ''a-00000000.config''\<rparr>] = Inr tokens
     \<and> ensure_include to_ascii_lowercase [IBlank []] tokens = (True, items')
     \<and> filter is_our_include_token (include_words items') = tokens \<and> tokens = [lit ''~/.ssh/sshelter/a-00000000.config'']"
proof -
  let ?sp = "\<lparr>sf_space_id = [], sf_name = lit ''a'', sf_file_name = lit ''a-00000000.config''\<rparr>"
  have "is_space_file_name (lit ''a-00000000.config'')"
    by (simp add: is_space_file_name_def strip_suffix_str_def ends_with_def rsplit_once_def starts_with_def is_slug_char_def
        MAX_SLUG_LEN_def str_len_def utf8_len_def str_simps)
  then have t: "include_tokens to_ascii_lowercase [?sp] = Inr [lit ''~/.ssh/sshelter/a-00000000.config'']"
    by (simp add: include_tokens_def include_token_def INCLUDE_DIR_def str_simps)
  have lc: "to_ascii_lowercase (lit ''Include'') = lit ''include''" by (simp add: to_ascii_lowercase_def str_simps)
  obtain c items' where r: "ensure_include to_ascii_lowercase [IBlank []] [lit ''~/.ssh/sshelter/a-00000000.config''] = (c, items')" by fastforce
  have "c" using r by (simp add: ensure_include_def include_correct_def sync_include_index_def is_agent_include_def Let_def split: if_splits)
  with ensure_include_exact [where lc = to_ascii_lowercase, OF t lc r] t r show ?thesis
    by (intro exI [of _ "[lit ''~/.ssh/sshelter/a-00000000.config'']"] exI [of _ items']) simp
qed

end
