(* ===== verification/Approval.thy ===== *)
theory Approval
  imports Hosts_File State_V2
begin

text \<open>
  Approval of dangerous settings (\<open>sync/approval.rs\<close>): a received block whose guarded settings differ
  from the ones in force is held back until the user approves it.
\<close>

section \<open>Guarded settings\<close>

definition GATED_KEYWORDS :: "rstr list" where
  "GATED_KEYWORDS = map lit
     [''proxycommand'', ''localcommand'', ''permitlocalcommand'', ''knownhostscommand'', ''pkcs11provider'',
      ''securitykeyprovider'', ''forwardagent'', ''forwardx11'', ''forwardx11trusted'', ''remoteforward'',
      ''smartcarddevice'', ''xauthlocation'', ''remotecommand'', ''stricthostkeychecking'',
      ''nohostauthenticationforproxycommand'', ''verifyhostkeydns'', ''userknownhostsfile'', ''globalknownhostsfile'',
      ''sendenv'', ''gssapidelegatecredentials'', ''identityagent'', ''permitremoteopen'',
      ''nohostauthenticationforlocalhost'', ''gatewayports'']"

definition rest_of_line :: "directive \<Rightarrow> rstr" where
  "rest_of_line d = trim (after_keyword d)"

definition is_bare_port :: "rstr \<Rightarrow> bool" where
  "is_bare_port word \<longleftrightarrow> word \<noteq> [] \<and> list_all is_ascii_digit word"

text \<open>\<open>split_once("]:")\<close>.\<close>

fun split_bracket :: "rstr \<Rightarrow> (rstr \<times> rstr) option" where
  "split_bracket (a # b # s) =
     (if a = 93 \<and> b = 58 then Some ([], s) else map_option (\<lambda>(h, p). (a # h, p)) (split_bracket (b # s)))"
| "split_bracket _ = None"

definition is_plain_forward_target :: "rstr \<Rightarrow> bool" where
  "is_plain_forward_target target \<longleftrightarrow>
     (if list_ex (\<lambda>c. c \<in> {36, 92, 34, 39}) target then False
      else if starts_with target [47] then 58 \<notin> set target
      else
        (case (case strip_prefix target [91] of
                 Some bracketed \<Rightarrow> split_bracket bracketed
               | None \<Rightarrow> split_once 58 target) of
           None \<Rightarrow> False
         | Some (host, port) \<Rightarrow> host \<noteq> [] \<and> \<not> list_ex (\<lambda>c. c \<in> {91, 93}) host \<and> is_bare_port port))"

definition forward_args :: "directive \<Rightarrow> rstr list" where
  "forward_args d = takeWhile (\<lambda>w. \<not> starts_with w [35]) (words_by is_blank_char [] (rest_of_line d))"

definition gated_forward :: "directive \<Rightarrow> bool" where
  "gated_forward d \<longleftrightarrow>
     (if d_key d = lit ''localforward''
      then \<not> (case forward_args d of [port, target] \<Rightarrow> is_bare_port port \<and> is_plain_forward_target target | _ \<Rightarrow> False)
      else if d_key d = lit ''dynamicforward''
      then \<not> (case forward_args d of [port] \<Rightarrow> is_bare_port port | _ \<Rightarrow> False)
      else False)"

definition is_gated :: "directive \<Rightarrow> bool" where
  "is_gated d \<longleftrightarrow>
     \<not> serializes_as_comment d
     \<and> (list_ex (\<lambda>k. k = d_key d) GATED_KEYWORDS \<or> gated_forward d \<or> 34 \<in> set (d_keyword d) \<or> d_key d = [])"

section \<open>The signature of a block\<close>

fun collect_item :: "item \<Rightarrow> rstr list \<times> gated_directive list"
  and collect :: "item list \<Rightarrow> rstr list \<times> gated_directive list" where
  "collect_item (IDirective d) = ([], if is_gated d then [\<lparr>gd_keyword = d_key d, gd_value = rest_of_line d\<rparr>] else [])"
| "collect_item (IHost (HostBlock head_line _ body)) =
     (case collect body of (hosts, gated) \<Rightarrow> (rest_of_line head_line # hosts, gated))"
| "collect_item (IMatch (MatchBlock _ _ body)) = collect body"
| "collect_item (IBlank _) = ([], [])"
| "collect_item (IComment _) = ([], [])"
| "collect [] = ([], [])"
| "collect (it # items) =
     (case (collect_item it, collect items) of ((h, g), (hosts, gated)) \<Rightarrow> (h @ hosts, g @ gated))"

definition signature_of :: "(rstr \<Rightarrow> rstr) \<Rightarrow> rstr \<Rightarrow> approval_signature" where
  "signature_of lc t =
     (case collect (fst (parse_file lc t)) of (hosts, gated) \<Rightarrow> \<lparr>as_host = join [10] hosts, as_gated = gated\<rparr>)"

definition is_single_host_block :: "(rstr \<Rightarrow> rstr) \<Rightarrow> rstr \<Rightarrow> bool" where
  "is_single_host_block lc t \<longleftrightarrow> is_single_host_block_read_alike (fst (parse_file lc t))"

definition needs_approval :: "(rstr \<Rightarrow> rstr) \<Rightarrow> rstr \<Rightarrow> rstr option \<Rightarrow> bool" where
  "needs_approval lc new_text applied_text \<longleftrightarrow>
     (if \<not> is_single_host_block lc new_text \<or> is_some_and applied_text (\<lambda>t. \<not> is_single_host_block lc t) then True
      else
        (let incoming = signature_of lc new_text in
         if as_gated incoming = [] then False
         else incoming \<noteq> (case applied_text of Some t \<Rightarrow> signature_of lc t | None \<Rightarrow> \<lparr>as_host = [], as_gated = []\<rparr>)))"

section \<open>A change that needs no approval\<close>

text \<open>The live guarded settings of a block, in order.\<close>

definition guarded_lines :: "item list \<Rightarrow> directive list" where
  "guarded_lines items = filter is_gated (List.map_filter (\<lambda>it. case it of IDirective d \<Rightarrow> Some d | _ \<Rightarrow> None) items)"

definition setting :: "directive \<Rightarrow> gated_directive" where
  "setting d = \<lparr>gd_keyword = d_key d, gd_value = rest_of_line d\<rparr>"

lemma guarded_lines_simps [simp]:
  "guarded_lines [] = []"
  "guarded_lines (it # items) = (case it of IDirective d \<Rightarrow> if is_gated d then [d] else [] | _ \<Rightarrow> []) @ guarded_lines items"
  by (simp_all add: guarded_lines_def map_filter_simps split: item.splits)

lemma collect_flat: "list_all flat_item items \<Longrightarrow> collect items = ([], map setting (guarded_lines items))"
proof (induction items)
  case (Cons it items)
  then show ?case by (cases it) (auto simp: setting_def)
qed simp

lemma single_block:
  assumes "is_single_host_block lc t"
  obtains h where "fst (parse_file lc t) = [IHost h]" "openssh_patterns (hb_header h) = Some (hb_patterns h)"
    "signature_of lc t = \<lparr>as_host = rest_of_line (hb_header h), as_gated = map setting (guarded_lines (hb_body h))\<rparr>"
proof -
  from assms obtain h where h: "fst (parse_file lc t) = [IHost h]" "header_reads_the_same (hb_header h)"
    by (auto simp: is_single_host_block_def is_single_host_block_read_alike_def split: list.splits item.splits) (metis neq_Nil_conv)+
  obtain head pats body where hb: "h = HostBlock head pats body" by (cases h)
  have "block_ok (IHost h)" using file_shape_parse [of lc t] h(1) by (simp add: file_shape_def)
  then have ok: "pats = split_whitespace (d_value head)" "list_all flat_item body" using hb by (auto simp: list_all_iff)
  have "openssh_patterns (hb_header h) = Some (hb_patterns h)" using header_read_alike h(2) ok(1) hb by simp
  with that [OF h(1)] h(1) collect_flat [OF ok(2)] hb show ?thesis by (simp add: signature_of_def)
qed

text \<open>C22. A received text that is applied without approval brings no new danger: it is one host block whose
  patterns OpenSSH reads as the program does, and either no live line of it is guarded, or the block it
  replaces has the same \<open>Host\<close> line and exactly the same guarded settings with the same values in the same order.\<close>

theorem unapproved_change_harmless:
  assumes "\<not> needs_approval lc new_text applied"
  shows "\<exists>h. fst (parse_file lc new_text) = [IHost h] \<and> openssh_patterns (hb_header h) = Some (hb_patterns h)
    \<and> (guarded_lines (hb_body h) = []
       \<or> (\<exists>t g. applied = Some t \<and> fst (parse_file lc t) = [IHost g] \<and> openssh_patterns (hb_header g) = Some (hb_patterns g)
            \<and> rest_of_line (hb_header g) = rest_of_line (hb_header h)
            \<and> map setting (guarded_lines (hb_body g)) = map setting (guarded_lines (hb_body h))))"
proof -
  from assms have single: "is_single_host_block lc new_text" "\<And>t. applied = Some t \<Longrightarrow> is_single_host_block lc t"
    by (auto simp: needs_approval_def split: if_splits)
  from single(1) obtain h where h: "fst (parse_file lc new_text) = [IHost h]" "openssh_patterns (hb_header h) = Some (hb_patterns h)"
    "signature_of lc new_text = \<lparr>as_host = rest_of_line (hb_header h), as_gated = map setting (guarded_lines (hb_body h))\<rparr>"
    by (rule single_block)
  show ?thesis
  proof (cases "guarded_lines (hb_body h) = [] \<or> applied = None")
    case True
    with assms single h show ?thesis by (auto simp: needs_approval_def Let_def)
  next
    case False
    then obtain t where t: "applied = Some t" by auto
    from single(2) [OF t] obtain g where g: "fst (parse_file lc t) = [IHost g]" "openssh_patterns (hb_header g) = Some (hb_patterns g)"
      "signature_of lc t = \<lparr>as_host = rest_of_line (hb_header g), as_gated = map setting (guarded_lines (hb_body g))\<rparr>"
      by (rule single_block)
    from assms single t False h(3) g(3) have "rest_of_line (hb_header g) = rest_of_line (hb_header h)"
      "map setting (guarded_lines (hb_body g)) = map setting (guarded_lines (hb_body h))"
      by (auto simp: needs_approval_def Let_def)
    with h g t show ?thesis by blast
  qed
qed

definition guarded_text :: rstr where
  "guarded_text = lit ''Host web'' @ [10] @ lit '' ForwardAgent yes'' @ [10]"

definition guarded_setting :: directive where
  "guarded_setting =
     \<lparr>d_keyword = lit ''ForwardAgent'', d_key = lit ''forwardagent'', d_value = lit ''yes'', d_separator = SepSpace (lit '' ''), d_indent = lit '' '',
      d_trailing_ws = [], d_inline_comment = None, d_enabled = True, d_raw = lit '' ForwardAgent yes'', d_dirty = False\<rparr>"

lemma guarded_text_parse:
  "fst (parse_file to_ascii_lowercase guarded_text) = [IHost (HostBlock sample_head [lit ''web''] [IDirective guarded_setting])]"
  by (simp add: guarded_text_def sample_head_def guarded_setting_def parse_file_def ends_with_def item_of_line_def classify_line_def Let_def
      split_value_comment_def trim_start_def trim_end_def starts_with_def to_ascii_lowercase_def
      group_blocks.simps block_of_def split_whitespace.simps str_simps)

theorem unapproved_change_harmless_witness:
  "\<not> needs_approval to_ascii_lowercase guarded_text (Some guarded_text)
   \<and> (\<exists>h. fst (parse_file to_ascii_lowercase guarded_text) = [IHost h] \<and> guarded_lines (hb_body h) = [guarded_setting]
        \<and> openssh_patterns (hb_header h) = Some [lit ''web''])"
proof -
  have "is_single_host_block to_ascii_lowercase guarded_text"
    using guarded_text_parse header_sample_alike by (simp add: is_single_host_block_def is_single_host_block_read_alike_def)
  then have n: "\<not> needs_approval to_ascii_lowercase guarded_text (Some guarded_text)" by (simp add: needs_approval_def Let_def)
  have "is_gated guarded_setting"
    by (simp add: is_gated_def guarded_setting_def serializes_as_comment_def GATED_KEYWORDS_def str_simps)
  with unapproved_change_harmless [OF n] n guarded_text_parse show ?thesis by auto
qed

section \<open>A forward that needs no approval\<close>

text \<open>The reference: OpenSSH joins the two arguments of \<open>LocalForward\<close> with a colon and cuts the whole at colons,
  a field in brackets being one piece. A bind address is the first of four fields, or the first of three
  when the last is a socket.\<close>

fun forward_fields :: "bool \<Rightarrow> rstr \<Rightarrow> rstr \<Rightarrow> rstr list" where
  "forward_fields inside w [] = [w]"
| "forward_fields inside w (c # s) =
     (if inside then forward_fields (c \<noteq> 93) (w @ [c]) s
      else if c = 58 then w # forward_fields False [] s
      else forward_fields (c = 91 \<and> w = []) (w @ [c]) s)"

lemma forward_fields_plain: "58 \<notin> set s \<Longrightarrow> 91 \<notin> set s \<or> w \<noteq> [] \<Longrightarrow> forward_fields False w s = [w @ s]"
  by (induction s arbitrary: w) auto

lemma forward_fields_field: "58 \<notin> set s \<Longrightarrow> 91 \<notin> set s \<Longrightarrow> forward_fields False w (s @ 58 # t) = (w @ s) # forward_fields False [] t"
  by (induction s arbitrary: w) auto

lemma forward_fields_bracket: "93 \<notin> set s \<Longrightarrow> w \<noteq> [] \<Longrightarrow> forward_fields True w (s @ 93 # 58 # t) = (w @ s @ [93]) # forward_fields False [] t"
  by (induction s arbitrary: w) auto

lemma bare_port_plain: "is_bare_port p \<Longrightarrow> 58 \<notin> set p \<and> 91 \<notin> set p"
  by (auto simp: is_bare_port_def list_all_iff is_ascii_digit_def)

lemma split_bracket_Some: "split_bracket s = Some (h, p) \<Longrightarrow> s = h @ 93 # 58 # p"
proof (induction s arbitrary: h p rule: split_bracket.induct)
  case (1 a b s)
  then show ?case by (auto split: if_splits)
qed auto

lemma split_once_Some: "split_once c s = Some (h, p) \<Longrightarrow> s = h @ c # p \<and> c \<notin> set h"
proof -
  assume "split_once c s = Some (h, p)"
  then obtain i where i: "position (\<lambda>x. x = c) s = Some i" "h = take i s" "p = drop (Suc i) s"
    by (auto simp: split_once_def split: option.splits)
  from position_Some [OF i(1)] have "i < length s" "s ! i = c" "\<forall>j < i. s ! j \<noteq> c" by auto
  with i(2,3) id_take_nth_drop [of i s] show ?thesis by (auto simp: in_set_conv_nth)
qed

text \<open>A live \<open>LocalForward\<close> that needs no approval binds no address of its own: OpenSSH sees the listening
  port, and after it a host and a port or the absolute path of a socket, with no fourth field.\<close>

theorem unguarded_forward_no_bind:
  assumes "\<not> is_gated d" "\<not> serializes_as_comment d" "d_key d = lit ''localforward''"
  shows "\<exists>port target. forward_args d = [port, target] \<and> is_bare_port port
    \<and> ((\<exists>host hostport. forward_fields False [] (port @ [58] @ target) = [port, host, hostport] \<and> host \<noteq> [] \<and> is_bare_port hostport)
       \<or> (forward_fields False [] (port @ [58] @ target) = [port, target] \<and> starts_with target [47]))"
proof -
  from assms obtain port target where a: "forward_args d = [port, target]" "is_bare_port port" "is_plain_forward_target target"
    by (auto simp: is_gated_def gated_forward_def split: list.splits)
  note p = forward_fields_field [of port "[]" target]
  have "(\<exists>host hostport. forward_fields False [] target = [host, hostport] \<and> host \<noteq> [] \<and> is_bare_port hostport)
      \<or> (forward_fields False [] target = [target] \<and> starts_with target [47])"
  proof (cases "starts_with target [47]")
    case True
    with a(3) have "58 \<notin> set target" by (simp add: is_plain_forward_target_def split: if_splits)
    moreover obtain rest where "target = 47 # rest" using True by (cases target) (auto simp: starts_with_def)
    ultimately have "forward_fields False [] target = [target]" using forward_fields_plain [of rest "[47]"] by simp
    with True show ?thesis by simp
  next
    case False
    show ?thesis
    proof (cases "strip_prefix target [91]")
      case (Some bracketed)
      with False a(3) obtain host port' where s: "split_bracket bracketed = Some (host, port')" "93 \<notin> set host" "is_bare_port port'"
        by (auto simp: is_plain_forward_target_def list_ex_iff split: if_splits option.splits)
      have "target = 91 # host @ 93 # 58 # port'"
        using Some split_bracket_Some [OF s(1)] by (cases target) (auto simp: strip_prefix_def starts_with_def split: if_splits)
      then have "forward_fields False [] target = [[91] @ host @ [93], port']"
        using forward_fields_bracket [OF s(2), of "[91]" port'] forward_fields_plain [of port' "[]"] bare_port_plain [OF s(3)] by simp
      with s(3) show ?thesis by simp
    next
      case None
      with False a(3) obtain host port' where s: "split_once 58 target = Some (host, port')" "host \<noteq> []" "91 \<notin> set host" "is_bare_port port'"
        by (auto simp: is_plain_forward_target_def list_ex_iff split: if_splits option.splits)
      from split_once_Some [OF s(1)] have "forward_fields False [] target = [host, port']"
        using forward_fields_field [of host "[]" port'] forward_fields_plain [of port' "[]"] bare_port_plain [OF s(4)] s(3) by simp
      with s show ?thesis by simp
    qed
  qed
  with a p bare_port_plain [OF a(2)] show ?thesis by auto
qed

theorem unguarded_forward_no_bind_witness:
  "\<exists>d. \<not> is_gated d \<and> d_key d = lit ''localforward'' \<and> (\<exists>port target. forward_args d = [port, target] \<and> is_bare_port port)"
proof -
  let ?d = "directive_new to_ascii_lowercase (lit ''LocalForward'') (lit ''80 db:54'') []"
  have k: "d_key ?d = lit ''localforward''" by (simp add: directive_new_def to_ascii_lowercase_def str_simps)
  have r: "rest_of_line ?d = lit ''80 db:54''"
    by (simp add: rest_of_line_def after_keyword_def directive_new_def strip_crlf_def trim_def trim_start_def trim_end_def str_simps)
  have "forward_args ?d = [lit ''80'', lit ''db:54'']"
    unfolding forward_args_def r by (simp add: is_blank_char_def starts_with_def str_simps)
  then have "\<not> gated_forward ?d"
    unfolding gated_forward_def k
    by (simp add: is_bare_port_def is_plain_forward_target_def starts_with_def strip_prefix_def split_once_def str_simps)
  then have g: "\<not> is_gated ?d" "\<not> serializes_as_comment ?d"
    unfolding is_gated_def k by (simp_all add: GATED_KEYWORDS_def directive_new_def serializes_as_comment_def str_simps)
  from unguarded_forward_no_bind [OF g k] g k show ?thesis by blast
qed

end
