(* ===== verification/Session_Directory.thy ===== *)
theory Session_Directory
  imports Session_Auth Record_Repository
begin

text \<open>
  Where a session finds its hosts: the interface \<open>HostDirectory\<close> with its default methods and the rules for pins
  (\<open>session/directory.rs\<close>), the adapter over the record library (\<open>session/record_directory.rs\<close>) and the one that
  follows the format of the running workspace (\<open>session/format_directory.rs\<close>). Every call may change the world.
\<close>

section \<open>The interface\<close>

type_synonym ('w, 'a) dir_act = "'w \<Rightarrow> (directory_error + 'a) \<times> 'w"

definition dir_bind :: "('w, 'a) dir_act \<Rightarrow> ('a \<Rightarrow> ('w, 'b) dir_act) \<Rightarrow> ('w, 'b) dir_act" where
  "dir_bind f g w = (case f w of (Inl e, w) \<Rightarrow> (Inl e, w) | (Inr a, w) \<Rightarrow> g a w)"

definition dir_lift :: "directory_error + 'a \<Rightarrow> ('w, 'a) dir_act" where
  "dir_lift r w = (r, w)"

record 'w host_directory =
  hd_resolve :: "host_query \<Rightarrow> ('w, target) dir_act"
  hd_resolve_public :: "host_query \<Rightarrow> ('w, target) dir_act"
  hd_resolve_host_key :: "host_query \<Rightarrow> ('w, target) dir_act"
  hd_pinned :: "host_id \<Rightarrow> ('w, pinned_key option) dir_act"
  hd_pin :: "host_id \<Rightarrow> host_key \<Rightarrow> ('w, unit) dir_act"
  hd_replace_pin :: "host_id \<Rightarrow> host_key \<Rightarrow> host_key \<Rightarrow> ('w, unit) dir_act"
  hd_pinned_for :: "hop_ref \<Rightarrow> ('w, pinned_key option) dir_act"
  hd_pin_for :: "hop_ref \<Rightarrow> host_key \<Rightarrow> ('w, unit) dir_act"
  hd_replace_pin_for :: "hop_ref \<Rightarrow> host_key \<Rightarrow> host_key \<Rightarrow> ('w, unit) dir_act"
  hd_pin_confirmed :: "hop_ref \<Rightarrow> host_key option \<Rightarrow> host_key \<Rightarrow> ('w \<Rightarrow> bool \<times> 'w) \<Rightarrow> ('w, unit) dir_act \<Rightarrow> ('w, unit) dir_act"
  hd_password_account :: "host_id \<Rightarrow> 'w \<Rightarrow> rstr \<times> 'w"

text \<open>The methods an adapter does not write itself.\<close>

definition default_resolve_host_key :: "(host_query \<Rightarrow> ('w, target) dir_act) \<Rightarrow> host_query \<Rightarrow> ('w, target) dir_act" where
  "default_resolve_host_key resolve_public q =
     dir_bind (resolve_public q) (\<lambda>t.
     dir_lift (Inr (if t = [] then t else butlast t @ [(last t)\<lparr>h_auth := AM_Interactive\<rparr>])))"

definition connection_cancelled :: directory_error where
  "connection_cancelled = DE_Failed (lit ''The connection was cancelled.'')"

definition if_live :: "('w \<Rightarrow> bool \<times> 'w) \<Rightarrow> ('w, 'a) dir_act \<Rightarrow> ('w, 'a) dir_act" where
  "if_live cancelled f w = (case cancelled w of (gone, w) \<Rightarrow> if gone then (Inl connection_cancelled, w) else f w)"

definition default_pin_confirmed :: "(hop_ref \<Rightarrow> host_key \<Rightarrow> ('w, unit) dir_act) \<Rightarrow> (hop_ref \<Rightarrow> host_key \<Rightarrow> host_key \<Rightarrow> ('w, unit) dir_act)
    \<Rightarrow> hop_ref \<Rightarrow> host_key option \<Rightarrow> host_key \<Rightarrow> ('w \<Rightarrow> bool \<times> 'w) \<Rightarrow> ('w, unit) dir_act \<Rightarrow> ('w, unit) dir_act" where
  "default_pin_confirmed pin_for replace_pin_for hop previous key cancelled guard =
     dir_bind guard (\<lambda>_. if_live cancelled
       (case previous of Some p \<Rightarrow> replace_pin_for hop p key | None \<Rightarrow> pin_for hop key))"

definition default_directory :: "(host_query \<Rightarrow> ('w, target) dir_act) \<Rightarrow> (host_id \<Rightarrow> ('w, pinned_key option) dir_act)
    \<Rightarrow> (host_id \<Rightarrow> host_key \<Rightarrow> ('w, unit) dir_act) \<Rightarrow> (host_id \<Rightarrow> host_key \<Rightarrow> host_key \<Rightarrow> ('w, unit) dir_act)
    \<Rightarrow> (host_id \<Rightarrow> 'w \<Rightarrow> rstr \<times> 'w) \<Rightarrow> 'w host_directory" where
  "default_directory resolve pinned pin replace_pin password_account =
     \<lparr>hd_resolve = resolve, hd_resolve_public = resolve, hd_resolve_host_key = default_resolve_host_key resolve,
      hd_pinned = pinned, hd_pin = pin, hd_replace_pin = replace_pin,
      hd_pinned_for = \<lambda>hop. pinned (hf_id hop), hd_pin_for = \<lambda>hop. pin (hf_id hop), hd_replace_pin_for = \<lambda>hop. replace_pin (hf_id hop),
      hd_pin_confirmed = default_pin_confirmed (\<lambda>hop. pin (hf_id hop)) (\<lambda>hop. replace_pin (hf_id hop)),
      hd_password_account = password_account\<rparr>"

section \<open>The rules for pins\<close>

datatype pin_decision = AlreadyPinned | WritePin | RefusePin rstr

definition pin_taken :: "host_id \<Rightarrow> rstr" where
  "pin_taken host = lit ''Lunport did not pin the key of '' @ host @ lit '': another key was pinned for it in the meantime.''"

definition pin_not_shown :: "host_id \<Rightarrow> rstr" where
  "pin_not_shown host = lit ''Lunport did not replace the key of '' @ host @ lit '': the pinned key is not the one you were shown.''"

definition decide_pin :: "host_id \<Rightarrow> rstr option \<Rightarrow> host_key \<Rightarrow> pin_decision" where
  "decide_pin host pinned key =
     (case pinned of
        Some p \<Rightarrow> if p = sk_fingerprint key then AlreadyPinned else RefusePin (pin_taken host)
      | None \<Rightarrow> WritePin)"

definition decide_replace :: "host_id \<Rightarrow> rstr option \<Rightarrow> host_key \<Rightarrow> host_key \<Rightarrow> pin_decision" where
  "decide_replace host pinned previous key =
     (case pinned of
        Some p \<Rightarrow> if p = sk_fingerprint key then AlreadyPinned
                  else if p = sk_fingerprint previous then WritePin else RefusePin (pin_not_shown host)
      | None \<Rightarrow> RefusePin (pin_not_shown host))"

section \<open>The record library as a directory\<close>

record 'w record_sources =
  rs_snapshot :: "('w, sync_state) dir_act"
  rs_material :: "key_view \<Rightarrow> ('w, bool) dir_act"
  rs_username :: "('w, rstr) dir_act"
  rs_pin :: "host_id \<Rightarrow> host_endpoint \<Rightarrow> stored_host_key option \<Rightarrow> stored_host_key \<Rightarrow> ('w, unit) dir_act"
  rs_to_bytes :: "ssh_public \<Rightarrow> bytes option"
  rs_confirmed_pin :: "(hop_ref \<Rightarrow> host_key option \<Rightarrow> host_key \<Rightarrow> ('w \<Rightarrow> bool \<times> 'w) \<Rightarrow> ('w, unit) dir_act \<Rightarrow> ('w, unit) dir_act) option"

fun repository_failure :: "'a record_ext_scheme \<Rightarrow> repository_error \<Rightarrow> directory_error" where
  "repository_failure X (RE_Validation (VE_HostNotFound i)) = DE_NotFound (lit ''No saved host matches '' @ i @ lit ''.'')"
| "repository_failure X (RE_Validation (VE_AmbiguousAlias a)) = DE_Ambiguous (lit ''Several hosts use '' @ a @ lit ''; connect with --id.'')"
| "repository_failure X e = DE_Unsupported (lit ''The saved records need review: '' @ x_error_text X e)"

definition endpoint_of :: "host_view \<Rightarrow> host_endpoint" where
  "endpoint_of host = \<lparr>ep_hostname = hp_hostname (hv_effective_payload host), ep_port = hp_port (hv_effective_payload host)\<rparr>"

definition stored_of :: "'a record_ext_scheme \<Rightarrow> host_key \<Rightarrow> stored_host_key" where
  "stored_of X key =
     \<lparr>hk_algorithm = sk_algorithm key, hk_public_key = x_b64_encode X (sk_public_key key), hk_fingerprint = sk_fingerprint key,
      hk_pinned_at_ms = 0, hk_pinned_by_device_id = []\<rparr>"

definition from_openssh_line :: "'a record_ext_scheme \<Rightarrow> (ssh_public \<Rightarrow> bytes option) \<Rightarrow> rstr \<Rightarrow> host_key option" where
  "from_openssh_line X to_bytes line =
     (case x_from_openssh X (trim line) of
        None \<Rightarrow> None
      | Some key \<Rightarrow>
          (case to_bytes key of
             None \<Rightarrow> None
           | Some b \<Rightarrow> Some \<lparr>sk_algorithm = pk_algorithm key, sk_public_key = b, sk_fingerprint = pk_fingerprint key\<rparr>))"

definition pinned_key_of :: "'a record_ext_scheme \<Rightarrow> (ssh_public \<Rightarrow> bytes option) \<Rightarrow> stored_host_key \<Rightarrow> directory_error + pinned_key" where
  "pinned_key_of X to_bytes pin =
     rbind (ok_or (DE_Failed (lit ''The saved host key is unreadable.''))
              (opt_filter (\<lambda>key. sk_fingerprint key = hk_fingerprint pin)
                 (from_openssh_line X to_bytes (hk_algorithm pin @ lit '' '' @ hk_public_key pin)))) (\<lambda>key.
     Inr \<lparr>pk_key = key, pk_pinned_at_ms = hk_pinned_at_ms pin\<rparr>)"

text \<open>\<open>.as_ref().map(pinned_key).transpose()\<close>.\<close>

definition saved_pin :: "'a record_ext_scheme \<Rightarrow> (ssh_public \<Rightarrow> bytes option) \<Rightarrow> stored_host_key option \<Rightarrow> directory_error + pinned_key option" where
  "saved_pin X to_bytes pin = (case pin of None \<Rightarrow> Inr None | Some p \<Rightarrow> rbind (pinned_key_of X to_bytes p) (\<lambda>k. Inr (Some k)))"

definition saved_host :: "'a record_ext_scheme \<Rightarrow> 'w record_sources \<Rightarrow> host_id \<Rightarrow> ('w, host_view) dir_act" where
  "saved_host X S i = dir_bind (rs_snapshot S) (\<lambda>s. dir_lift (map_err (repository_failure X) (get_host X s i)))"

definition endpoint_moved :: "hop_ref \<Rightarrow> host_view \<Rightarrow> bool" where
  "endpoint_moved hop host \<longleftrightarrow> hv_group_error host \<noteq> None \<or> hp_hostname (hv_effective_payload host) \<noteq> hf_hostname hop
     \<or> hp_port (hv_effective_payload host) \<noteq> hf_port hop"

definition saved_host_at :: "'a record_ext_scheme \<Rightarrow> 'w record_sources \<Rightarrow> hop_ref \<Rightarrow> ('w, host_view) dir_act" where
  "saved_host_at X S hop =
     dir_bind (saved_host X S (hf_id hop)) (\<lambda>host.
     dir_lift (if endpoint_moved hop host
       then Inl (DE_Failed (lit ''The endpoint of '' @ hf_id hop @ lit '' changed while connecting; connect again.''))
       else Inr host))"

definition pin_changed :: "host_id \<Rightarrow> directory_error" where
  "pin_changed i = DE_Failed (lit ''The pinned key of '' @ i @ lit '' changed before confirmation.'')"

definition write_pin :: "'a record_ext_scheme \<Rightarrow> 'w record_sources \<Rightarrow> host_view \<Rightarrow> host_key option \<Rightarrow> host_key \<Rightarrow> ('w, unit) dir_act" where
  "write_pin X S host previous key =
     (let expected = hp_host_key (hr_payload (hv_host host)) in
      dir_bind (dir_lift
        (case expected of
           Some pin \<Rightarrow>
             rbind (pinned_key_of X (rs_to_bytes S) pin) (\<lambda>current.
             fail_if (pk_key current \<noteq> key \<and> previous \<noteq> Some (pk_key current)) (pin_changed (hr_id (hv_host host))))
         | None \<Rightarrow> fail_if (previous \<noteq> None) (pin_changed (hr_id (hv_host host))))) (\<lambda>_.
      rs_pin S (hr_id (hv_host host)) (endpoint_of host) expected (stored_of X key)))"

subsection \<open>Resolving a host\<close>

definition route_ready :: "bool \<Rightarrow> host_view \<Rightarrow> directory_error + unit" where
  "route_ready probe view =
     (case hv_readiness view of
        HR_Ready \<Rightarrow> Inr ()
      | HR_NeedsKey i \<Rightarrow>
          if probe then Inr ()
          else Inl (DE_Unsupported (hp_alias (hr_payload (hv_host view)) @ lit '' needs key '' @ i @ lit '' on this device.''))
      | HR_KeyConflict i \<Rightarrow>
          if probe then Inr () else Inl (DE_Unsupported (lit ''Key '' @ i @ lit '' has conflicting public identities.''))
      | HR_NeedsReview \<Rightarrow>
          Inl (DE_Unsupported (hp_alias (hr_payload (hv_host view)) @ lit '' needs its imported settings or route reviewed.'')))"

definition route_auth :: "'a record_ext_scheme \<Rightarrow> 'w record_sources \<Rightarrow> sync_state \<Rightarrow> bool \<Rightarrow> bool \<Rightarrow> host_payload \<Rightarrow> ('w, auth_method) dir_act" where
  "route_auth X S s verify_material probe p =
     (if probe then dir_lift (Inr AM_Interactive)
      else
        (case hp_auth p of
           Auth_Key \<Rightarrow>
             dir_bind (dir_lift (ok_or (DE_Unsupported (lit ''The host has no key reference.'')) (hp_key_id p))) (\<lambda>i.
             dir_bind (dir_lift (map_err (repository_failure X) (resolve_key X s i))) (\<lambda>key.
             dir_bind (if verify_material then rs_material S key else dir_lift (Inr True)) (\<lambda>usable.
             dir_lift (if \<not> usable
               then Inl (DE_Unsupported (hp_alias p @ lit '' needs key '' @ i @ lit '' material on this device.''))
               else Inr (AM_Key i)))))
         | Auth_Password \<Rightarrow> dir_lift (Inr AM_Password)
         | Auth_Interactive \<Rightarrow> dir_lift (Inr AM_Interactive)))"

text \<open>The login name: the host's own, else the one of the operating system, which is asked for at most once.\<close>

definition route_user :: "'w record_sources \<Rightarrow> host_payload \<Rightarrow> rstr option \<Rightarrow> ('w, rstr \<times> rstr option) dir_act" where
  "route_user S p os_user =
     (if hp_user p \<noteq> [] then dir_lift (Inr (hp_user p, os_user))
      else
        (case os_user of
           Some u \<Rightarrow> dir_lift (Inr (u, os_user))
         | None \<Rightarrow>
             dir_bind (rs_username S) (\<lambda>u.
             dir_lift (if u = [] \<or> list_ex (\<lambda>c. is_whitespace c \<or> is_control c) u
               then Inl (DE_Failed (lit ''The operating system did not provide a valid username.''))
               else Inr (u, Some u)))))"

definition route_hop :: "'a record_ext_scheme \<Rightarrow> 'w record_sources \<Rightarrow> sync_state \<Rightarrow> bool \<Rightarrow> bool \<Rightarrow> host_view \<Rightarrow> rstr option
    \<Rightarrow> ('w, hop \<times> rstr option) dir_act" where
  "route_hop X S s verify_material probe view os_user =
     dir_bind (dir_lift (route_ready probe view)) (\<lambda>_.
     let p = hv_effective_payload view in
     dir_bind (route_auth X S s verify_material probe p) (\<lambda>auth.
     dir_bind (route_user S p os_user) (\<lambda>(user, os_user).
     dir_bind (dir_lift (saved_pin X (rs_to_bytes S) (hp_host_key p))) (\<lambda>pin.
     dir_lift (Inr
       ((hop_new (hr_id (hv_host view)) (hp_alias p) (hp_hostname p) (hp_port p) user auth)
          \<lparr>h_pinned := map_option pk_key pin,
           h_connect_timeout := unat (hp_connect_timeout_secs p) * SECOND,
           h_keepalive_every := unat (hp_keepalive_secs p) * SECOND,
           h_keepalive_max_missed := hp_keepalive_max_missed p\<rparr>, os_user))))))"

fun route_hops :: "'a record_ext_scheme \<Rightarrow> 'w record_sources \<Rightarrow> sync_state \<Rightarrow> bool \<Rightarrow> bool \<Rightarrow> host_view list \<Rightarrow> rstr option
    \<Rightarrow> ('w, hop list) dir_act" where
  "route_hops X S s verify_material host_key_only [] os_user = dir_lift (Inr [])"
| "route_hops X S s verify_material host_key_only (view # views) os_user =
     dir_bind (route_hop X S s verify_material (host_key_only \<and> views = []) view os_user) (\<lambda>(hop, os_user).
     dir_bind (route_hops X S s verify_material host_key_only views os_user) (\<lambda>hops. dir_lift (Inr (hop # hops))))"

definition find_query :: "'a record_ext_scheme \<Rightarrow> sync_state \<Rightarrow> host_query \<Rightarrow> repository_error + host_view" where
  "find_query X s q = (case q of HQ_Id i \<Rightarrow> get_host X s i | HQ_Alias a \<Rightarrow> find_by_alias X s a)"

definition resolve_material :: "'a record_ext_scheme \<Rightarrow> 'w record_sources \<Rightarrow> bool \<Rightarrow> bool \<Rightarrow> host_query \<Rightarrow> ('w, target) dir_act" where
  "resolve_material X S verify_material host_key_only q =
     dir_bind (rs_snapshot S) (\<lambda>s.
     dir_bind (dir_lift (map_err (repository_failure X) (find_query X s q))) (\<lambda>host.
     dir_bind (dir_lift (map_err (repository_failure X) (resolve_host_chain X s (hr_id (hv_host host))))) (\<lambda>route.
     route_hops X S s verify_material host_key_only route None)))"

definition record_pinned :: "'a record_ext_scheme \<Rightarrow> 'w record_sources \<Rightarrow> ('w, host_view) dir_act \<Rightarrow> ('w, pinned_key option) dir_act" where
  "record_pinned X S look = dir_bind look (\<lambda>host. dir_lift (saved_pin X (rs_to_bytes S) (hp_host_key (hr_payload (hv_host host)))))"

definition record_pin_confirmed :: "'a record_ext_scheme \<Rightarrow> 'w record_sources \<Rightarrow> hop_ref \<Rightarrow> host_key option \<Rightarrow> host_key
    \<Rightarrow> ('w \<Rightarrow> bool \<times> 'w) \<Rightarrow> ('w, unit) dir_act \<Rightarrow> ('w, unit) dir_act" where
  "record_pin_confirmed X S hop previous key cancelled guard =
     (case rs_confirmed_pin S of
        Some pin \<Rightarrow> pin hop previous key cancelled guard
      | None \<Rightarrow>
          dir_bind guard (\<lambda>_. if_live cancelled (dir_bind (saved_host_at X S hop) (\<lambda>host. write_pin X S host previous key))))"

definition record_directory :: "'a record_ext_scheme \<Rightarrow> 'w record_sources \<Rightarrow> 'w host_directory" where
  "record_directory X S =
     \<lparr>hd_resolve = resolve_material X S True False, hd_resolve_public = resolve_material X S False False,
      hd_resolve_host_key = resolve_material X S False True,
      hd_pinned = \<lambda>i. record_pinned X S (saved_host X S i),
      hd_pin = \<lambda>i key. dir_bind (saved_host X S i) (\<lambda>host. write_pin X S host None key),
      hd_replace_pin = \<lambda>i previous key. dir_bind (saved_host X S i) (\<lambda>host. write_pin X S host (Some previous) key),
      hd_pinned_for = \<lambda>hop. record_pinned X S (saved_host_at X S hop),
      hd_pin_for = \<lambda>hop key. dir_bind (saved_host_at X S hop) (\<lambda>host. write_pin X S host None key),
      hd_replace_pin_for = \<lambda>hop previous key. dir_bind (saved_host_at X S hop) (\<lambda>host. write_pin X S host (Some previous) key),
      hd_pin_confirmed = record_pin_confirmed X S,
      hd_password_account = \<lambda>i w. (lit ''host:'' @ i, w)\<rparr>"

end
