(* ===== verification/Repository_Properties.thy ===== *)
theory Repository_Properties
  imports Record_Repository
begin

text \<open>
  Properties of the repository, with a concrete state on which they are exercised: an empty
  library on one device, to which a host is added.
\<close>

section \<open>A concrete state\<close>

definition sample_state :: sync_state where
  "sample_state =
     \<lparr>st_version = 3, st_device_id = replicate 32 48, st_device_name = [], st_relay_url = [],
      st_account = None, st_spaces = [],
      st_local = \<lparr>ls_group_order = [], ls_groups = [], ls_hosts = [], ls_keys = [], ls_import_receipts = []\<rparr>,
      st_rotation = None, st_relay_features = None, st_legacy_v1_backup = None,
      st_phrase_cleanup_pending = False, st_migration_gate = None, st_shared_writes_blocked = False,
      st_pending_account = None, st_notices = [], st_last_sync_ms = None, st_last_error = None\<rparr>"

definition sample_id :: rstr where
  "sample_id = replicate 16 48"

text \<open>The library with one host: its alias, version and time.\<close>

definition one_row :: "rstr \<Rightarrow> u64 \<Rightarrow> u64 \<Rightarrow> local_record" where
  "one_row a v t = \<lparr>lr_record = \<lparr>r_kind = RK_Host, r_id = sample_id, r_version = v, r_updated_at_ms = t,
       r_device_id = replicate 32 48, r_deleted = False,
       r_payload = x_host_to_value sample_rext (sample_payload\<lparr>hp_alias := a\<rparr>)\<rparr>,
     lr_seq = 0, lr_dirty = False\<rparr>"

definition one_host :: "rstr \<Rightarrow> host_record" where
  "one_host a = \<lparr>hr_id = sample_id, hr_scope = HS_Local, hr_payload = sample_payload\<lparr>hp_alias := a\<rparr>\<rparr>"

definition one_state :: "rstr \<Rightarrow> u64 \<Rightarrow> u64 \<Rightarrow> sync_state" where
  "one_state a v t = put_host HS_Local (record_key RK_Host sample_id) (one_row a v t) sample_state"

definition one_view :: "rstr \<Rightarrow> u64 \<Rightarrow> u64 \<Rightarrow> host_view" where
  "one_view a v t =
     \<lparr>hv_host = one_host a, hv_effective_payload = sample_payload\<lparr>hp_alias := a\<rparr>, hv_inherited_from = [],
      hv_group_error = None, hv_revision = \<lparr>rv_version = v, rv_updated_at_ms = t, rv_device_id = replicate 32 48\<rparr>,
      hv_readiness = HR_Ready\<rparr>"

lemma sample_host_json:
  "hp_schema p = 2 \<Longrightarrow>
     x_host_from_value sample_rext (x_host_to_value sample_rext p) = Inr (sample_payload\<lparr>hp_alias := hp_alias p\<rparr>)"
  "get_u64 (x_host_to_value sample_rext p) (lit ''schema'') = Some (ucast (hp_schema p))"
  by (simp_all add: sample_rext_def record_ext.defs crypto_ext.defs bt_get_def)

lemma one_host_valid: "validate_host X (one_host (lit ''a'')) = Inr ()" "validate_host X (one_host (lit ''b'')) = Inr ()"
  by (simp_all add: validate_host_iff host_shape_ok_def one_host_def sample_payload_def sample_id_def
      schema_defs hex_ids scope_ok_def alias_char_def starts_with_def MAX_JUMPS_def str_simps)

lemma one_fields [simp]:
  "hr_id (one_host a) = sample_id" "hr_scope (one_host a) = HS_Local"
  "hr_payload (one_host a) = sample_payload\<lparr>hp_alias := a\<rparr>"
  "hv_host (one_view a v t) = one_host a" "lr_seq (one_row a v t) = 0"
  "hp_jump sample_payload = []" "hp_host_key sample_payload = None" "hp_group_id sample_payload = None"
  "hp_inherit sample_payload = []" "hp_imported sample_payload = None" "hp_auth sample_payload = Auth_Password"
  "hv_effective_payload (one_view a v t) = sample_payload\<lparr>hp_alias := a\<rparr>"
  "hv_group_error (one_view a v t) = None"
  "ls_hosts (st_local (one_state a v t)) = [(record_key RK_Host sample_id, one_row a v t)]"
  "st_spaces (one_state a v t) = []"
  by (simp_all add: one_host_def one_view_def one_row_def sample_payload_def one_state_def sample_state_def put_host_def)

lemma sample_maps_ok: "maps_ok sample_state" "maps_ok (one_state a v t)"
proof -
  show "maps_ok sample_state" by (simp add: maps_ok_def sample_state_def)
  then show "maps_ok (one_state a v t)" unfolding one_state_def by (rule maps_ok_put)
qed

text \<open>Everything but the hosts of these states is empty.\<close>

lemma sample_rest:
  "validate_header (put_host HS_Local key row sample_state) = Inr ()" "validate_header sample_state = Inr ()"
  "list_keys sample_rext (put_host HS_Local key row sample_state) = Inr []" "list_keys sample_rext sample_state = Inr []"
  "list_groups sample_rext (put_host HS_Local key row sample_state) = Inr []" "list_groups sample_rext sample_state = Inr []"
  by (simp_all add: validate_header_def list_keys_def list_groups_def sample_state_def put_host_def hex_ids schema_defs
      bt_keys_def str_simps bt_values_def bt_empty_def group_scopes_def group_records_def)

lemma sample_snapshot: "snapshot sample_rext sample_state = Inr \<lparr>snap_hosts = [], snap_keys = [], snap_groups = []\<rparr>"
  by (simp add: snapshot_def sample_rest collect_hosts_def)
    (simp add: sample_state_def read_hosts_def)

lemma one_decode:
  assumes "validate_host sample_rext (one_host a) = Inr ()"
  shows "decode_host sample_rext (lr_record (one_row a v t)) HS_Local = Inr (Live (one_host a))"
  unfolding one_host_def
proof (rule decode_host_stamped)
  show "host_shape_ok sample_rext \<lparr>hr_id = sample_id, hr_scope = HS_Local, hr_payload = sample_payload\<lparr>hp_alias := a\<rparr>\<rparr>"
    using assms by (simp add: validate_host_iff one_host_def)
  show "x_host_from_value sample_rext (x_host_to_value sample_rext (sample_payload\<lparr>hp_alias := a\<rparr>))
      = Inr (sample_payload\<lparr>hp_alias := a\<rparr>)"
    using sample_host_json(1) [of "sample_payload\<lparr>hp_alias := a\<rparr>"] by (simp add: sample_payload_def)
qed (simp_all add: one_row_def sample_host_json(2))

lemma one_collect:
  assumes "validate_host sample_rext (one_host a) = Inr ()" and "v \<noteq> 0"
  shows "collect_hosts sample_rext (one_state a v t) = Inr [row_view HS_Local None (one_row a v t) (one_host a)]"
proof -
  have k: "r_kind (lr_record (one_row a v t)) = RK_Host" by (simp add: one_row_def)
  have "row_ok sample_rext HS_Local (record_key RK_Host sample_id, one_row a v t)"
    unfolding row_ok_def snd_conv fst_conv one_decode [OF assms(1)] k using assms(2)
    by (simp add: validate_cache_def one_row_def hex_ids str_simps)
  then show ?thesis
    unfolding collect_hosts_Inr by (simp add: row_views_def one_decode [OF assms(1)] k)
qed

lemma one_hosts_list:
  assumes "validate_host sample_rext (one_host a) = Inr ()" and "v \<noteq> 0"
  shows "list_hosts sample_rext (one_state a v t) = Inr [one_view a v t]"
    and "get_host sample_rext (one_state a v t) sample_id = Inr (one_view a v t)"
    and "route_indices [one_view a v t] sample_id = Inr [0]"
proof -
  have eff: "resolve_effective sample_rext s (one_host a)
      = Inr \<lparr>ef_payload = sample_payload\<lparr>hp_alias := a\<rparr>, ef_inherited_from = []\<rparr>" for s
    by (subst resolve_effective_ungrouped) (simp_all add: assms bt_empty_def)
  have view: "apply_effective sample_rext (one_state a v t) (row_view HS_Local None (one_row a v t) (one_host a))
      = one_view a v t"
    by (simp add: apply_effective_def eff row_view_def)
      (simp add: one_view_def revision_def one_row_def)
  have i: "host_index [one_view a v t] sample_id = Inr 0" by (simp add: host_index_Inr)
  show r: "route_indices [one_view a v t] sample_id = Inr [0]"
    by (simp add: route_indices_def i append_indices.simps add_index_def MAX_JUMPS_def)
  have "view_readiness [one_view a v t] [] (one_view a v t) = HR_Ready"
    by (simp add: view_readiness_def r alias_conflict_def needs_import_review_def) (simp add: one_view_def)
  moreover have "(one_view a v t)\<lparr>hv_readiness := HR_Ready\<rparr> = one_view a v t" by (simp add: one_view_def)
  ultimately have "snapshot sample_rext (one_state a v t)
      = Inr \<lparr>snap_hosts = [one_view a v t], snap_keys = [], snap_groups = []\<rparr>"
    using view by (simp add: snapshot_def one_collect [OF assms]) (simp add: one_state_def sample_rest)
  then show l: "list_hosts sample_rext (one_state a v t) = Inr [one_view a v t]" by (simp add: list_hosts_def)
  then show "get_host sample_rext (one_state a v t) sample_id = Inr (one_view a v t)"
    by (simp add: get_host_def i)
qed

lemma one_snapshot:
  assumes "validate_host sample_rext (one_host a) = Inr ()" and "v \<noteq> 0"
  obtains snap where "snapshot sample_rext (one_state a v t) = Inr snap" "snap_hosts snap = [one_view a v t]"
  using one_hosts_list(1) [OF assms, of t] by (auto simp: list_hosts_def)

lemma one_transition:
  assumes "validate_host sample_rext (one_host a) = Inr ()" and "v \<noteq> 0"
    and "snapshot sample_rext s = Inr old"
  shows "validate_transition sample_rext s (one_state a v t) = Inr ()"
proof -
  obtain snap where "snapshot sample_rext (one_state a v t) = Inr snap" "snap_hosts snap = [one_view a v t]"
    by (rule one_snapshot [OF assms(1,2)])
  moreover have "transition_check os [one_view a v t] (one_view a v t) = Inr ()" for os
    by (simp add: transition_check_def duplicate_id_def alias_conflict_def one_hosts_list(3) [OF assms(1,2)])
  ultimately show ?thesis using assms(3) by (simp add: validate_transition_def)
qed

lemma sample_create:
  "create_host sample_rext sample_state sample_id HS_Local sample_payload 5 = Inr (one_state (lit ''a'') 1 5)"
proof -
  have pin: "sample_payload\<lparr>hp_host_key := None\<rparr> = sample_payload" "sample_payload\<lparr>hp_alias := lit ''a''\<rparr> = sample_payload"
    by (simp_all add: sample_payload_def)
  have "ordered_record sample_state sample_id (x_host_to_value sample_rext sample_payload) False 5 []
      = Inr (lr_record (one_row (lit ''a'') 1 5))"
    by (simp add: ordered_record_def checked_add_def one_row_def sample_state_def pin)
  moreover have "cached (lr_record (one_row (lit ''a'') 1 5)) 0 HS_Local = one_row (lit ''a'') 1 5"
    by (simp add: cached_def one_row_def)
  moreover have "validate_host sample_rext \<lparr>hr_id = sample_id, hr_scope = HS_Local, hr_payload = sample_payload\<rparr> = Inr ()"
    using one_host_valid(1) [of sample_rext] by (simp add: one_host_def pin)
  moreover have "validate_transition sample_rext sample_state (one_state (lit ''a'') 1 5) = Inr ()"
    by (rule one_transition [OF one_host_valid(1) _ sample_snapshot]) simp
  moreover have "ensure_scope sample_rext sample_state HS_Local = Inr ()"
    "require_host_format sample_state sample_payload HS_Local = Inr ()"
    "ls_hosts (st_local sample_state) = []" "st_spaces sample_state = []"
    by (simp_all add: ensure_scope_def require_host_format_def sample_state_def sample_payload_def schema_defs)
  ultimately show ?thesis
    by (simp add: create_host_def pin one_state_def [symmetric] bt_values_def)
qed

lemma one_checked:
  "checked_host sample_rext (one_state (lit ''a'') 1 5) sample_id (hv_revision (one_view (lit ''a'') 1 5))
     = Inr (one_view (lit ''a'') 1 5)"
  by (simp add: checked_host_Inr one_hosts_list(2) [OF one_host_valid(1)] ensure_scope_def ensure_host_authority_def)

lemma one_at: "bt_at (host_records (one_state a v t) HS_Local) (record_key RK_Host sample_id) = one_row a v t"
  by (simp add: host_records_def bt_at_def bt_get_def)

lemma one_put: "put_host HS_Local (record_key RK_Host sample_id) row (one_state a v t)
    = put_host HS_Local (record_key RK_Host sample_id) row sample_state"
  by (simp add: one_state_def put_host_def sample_state_def)

lemma sample_delete:
  "\<exists>s'. delete_host sample_rext (one_state (lit ''a'') 1 5) sample_id (hv_revision (one_view (lit ''a'') 1 5)) 9 = Inr s'"
proof -
  let ?rec = "(lr_record (one_row (lit ''a'') 1 5))\<lparr>r_version := 2, r_updated_at_ms := 9, r_deleted := True, r_payload := JNull\<rparr>"
  let ?s = "put_host HS_Local (record_key RK_Host sample_id) (cached ?rec 0 HS_Local) sample_state"
  have ord: "ordered_record (one_state (lit ''a'') 1 5) sample_id JNull True 9 [lr_record (one_row (lit ''a'') 1 5)] = Inr ?rec"
    by (simp add: ordered_record_def one_row_def checked_add_def one_state_def sample_state_def)
  have rows: "ls_hosts (st_local ?s) = [(record_key RK_Host sample_id, cached ?rec 0 HS_Local)]" "st_spaces ?s = []"
    by (simp_all add: sample_state_def put_host_def)
  have "collect_hosts sample_rext ?s = Inr []"
    unfolding collect_hosts_Inr rows
    by (simp add: row_ok_def row_views_def decode_host_def cached_def validate_cache_def one_row_def
        hex_ids sample_id_def str_simps)
  then have "snapshot sample_rext ?s = Inr \<lparr>snap_hosts = [], snap_keys = [], snap_groups = []\<rparr>"
    by (simp add: snapshot_def sample_rest)
  moreover obtain snap where "snapshot sample_rext (one_state (lit ''a'') 1 5) = Inr snap"
    using one_snapshot [OF one_host_valid(1), of 1 5] by auto
  ultimately have "validate_transition sample_rext (one_state (lit ''a'') 1 5) ?s = Inr ()"
    by (simp add: validate_transition_def)
  then show ?thesis
    by (simp add: delete_host_def one_checked replace_host_row_def one_at ord one_put)
qed

lemma sample_update:
  "update_host sample_rext (one_state (lit ''a'') 1 5) sample_id (hv_revision (one_view (lit ''a'') 1 5))
     (sample_payload\<lparr>hp_alias := lit ''b''\<rparr>) 9 = Inr (one_state (lit ''b'') 2 9)"
proof -
  let ?p = "sample_payload\<lparr>hp_alias := lit ''b''\<rparr>"
  have h: "(one_host (lit ''a''))\<lparr>hr_payload := ?p\<rparr> = one_host (lit ''b'')" by (simp add: one_host_def)
  have eff: "resolve_effective sample_rext s (one_host (lit ''b'')) = Inr \<lparr>ef_payload = ?p, ef_inherited_from = []\<rparr>" for s
    by (subst resolve_effective_ungrouped) (simp_all add: one_host_valid bt_empty_def)
  have p: "?p\<lparr>hp_host_key := None\<rparr> = ?p" by (simp add: sample_payload_def)
  have ord: "ordered_record (one_state (lit ''a'') 1 5) sample_id (x_host_to_value sample_rext ?p) False 9
      [lr_record (one_row (lit ''a'') 1 5)] = Inr (lr_record (one_row (lit ''b'') 2 9))"
    by (simp add: ordered_record_def one_row_def checked_add_def one_state_def sample_state_def)
  have c: "cached (lr_record (one_row (lit ''b'') 2 9)) 0 HS_Local = one_row (lit ''b'') 2 9"
    by (simp add: cached_def one_row_def)
  obtain snap where "snapshot sample_rext (one_state (lit ''a'') 1 5) = Inr snap"
    using one_snapshot [OF one_host_valid(1), of 1 5] by auto
  then have t: "validate_transition sample_rext (one_state (lit ''a'') 1 5) (one_state (lit ''b'') 2 9) = Inr ()"
    by (rule one_transition [OF one_host_valid(2), rotated]) simp
  have f: "require_host_format s ?p HS_Local = Inr ()" for s
    by (simp add: require_host_format_def sample_payload_def schema_defs)
  show ?thesis
    by (simp add: update_host_def one_checked f h eff one_host_valid p replace_host_row_def one_at ord c one_put
        one_state_def [symmetric] t)
qed

section \<open>Properties\<close>

text \<open>C37. Every local edit is stamped so that it wins: its version and its time exceed those of every
  revision it is derived from, whatever the clock says, so last-writer-wins keeps it on every device;
  stamping fails exactly when a version or a time stamp has reached the largest 64-bit value.\<close>

theorem local_edit_wins:
  "(ordered_record s i payload deleted now previous = Inr rec \<longrightarrow>
      now \<le> r_updated_at_ms rec
      \<and> (\<forall>p \<in> set previous. r_version p < r_version rec
           \<and> (\<forall>seq dirty. merge (Some \<lparr>lr_record = p, lr_seq = seq, lr_dirty = dirty\<rparr>) rec \<noteq> KeepLocal)
           \<and> (\<forall>seq dirty. merge (Some \<lparr>lr_record = rec, lr_seq = seq, lr_dirty = dirty\<rparr>) p = KeepLocal)))
   \<and> (is_err (ordered_record s i payload deleted now previous) =
      (\<exists>p \<in> set previous. r_version p = u64_max \<or> r_updated_at_ms p = u64_max))"
  using ordered_record_Inr [of s i payload deleted now previous rec]
    ordered_record_Inl [of s i payload deleted now previous]
  by (auto simp: remote_wins_iff) (meson order.asym)+

theorem local_edit_wins_witness:
  "\<exists>rec. ordered_record sample_state sample_id JNull True 1 [lr_record (one_row (lit ''a'') 1 5)] = Inr rec
     \<and> r_version (lr_record (one_row (lit ''a'') 1 5)) < r_version rec"
proof -
  have "\<exists>rec. ordered_record sample_state sample_id JNull True 1 [lr_record (one_row (lit ''a'') 1 5)] = Inr rec"
    by (simp add: ordered_record_def one_row_def checked_add_def)
  with local_edit_wins [of sample_state sample_id JNull True 1 "[lr_record (one_row (lit ''a'') 1 5)]"]
  show ?thesis by auto
qed

text \<open>Along any sequence of host edits no stored row disappears: it stays under its key with its
  relay sequence number, and is unchanged or replaced by a revision that beats it.\<close>

theorem host_edits_monotone:
  assumes "(repo_step X)\<^sup>*\<^sup>* s s'" and "maps_ok s" and "scope_open s scope"
    and "bt_get (host_records s scope) key = Some row"
  shows "maps_ok s' \<and> (\<exists>row'. bt_get (host_records s' scope) key = Some row' \<and> lr_seq row' = lr_seq row
    \<and> (row' = row \<or> remote_wins (lr_record row') (lr_record row)))"
  using repo_steps_keep [OF assms(1,2)] repo_steps_rows [OF assms] by simp

theorem host_edits_monotone_witness:
  "maps_ok (one_state (lit ''a'') 1 5) \<and> (\<exists>row'. bt_get (host_records (one_state (lit ''a'') 1 5) HS_Local) (record_key RK_Host sample_id) = Some row'
     \<and> lr_seq row' = lr_seq (one_row (lit ''a'') 1 5))"
proof -
  have "bt_get (host_records (one_state (lit ''a'') 1 5) HS_Local) (record_key RK_Host sample_id)
      = Some (one_row (lit ''a'') 1 5)" "scope_open (one_state (lit ''a'') 1 5) HS_Local"
    by (simp_all add: host_records_def bt_get_def scope_open_def)
  with host_edits_monotone [OF rtranclp.rtrancl_refl sample_maps_ok(2)] show ?thesis by blast
qed

text \<open>While shared writes are blocked (a pending account operation, an unfinished migration, a
  frozen or newer account), no sequence of host edits changes the account or any space.\<close>

theorem blocked_account_untouched:
  assumes "(repo_step X)\<^sup>*\<^sup>* s s'" and "maps_ok s" and "account_writes_blocked X s"
  shows "st_account s' = st_account s \<and> st_spaces s' = st_spaces s \<and> account_writes_blocked X s'"
  using repo_steps_keep [OF assms(1,2)] assms(3) by simp

theorem blocked_account_untouched_witness:
  "let s = sample_state\<lparr>st_shared_writes_blocked := True\<rparr>
   in account_writes_blocked sample_rext s \<and> (\<forall>s'. (repo_step sample_rext)\<^sup>*\<^sup>* s s' \<longrightarrow> st_spaces s' = [])"
proof -
  let ?s = "sample_state\<lparr>st_shared_writes_blocked := True\<rparr>"
  have m: "maps_ok ?s" using sample_maps_ok(1) by (simp add: maps_ok_def)
  have b: "account_writes_blocked sample_rext ?s" by (simp add: account_writes_blocked_def)
  have "st_spaces ?s = []" by (simp add: sample_state_def)
  with b blocked_account_untouched [OF _ m b] show ?thesis by (simp add: Let_def)
qed

text \<open>A created host is in the library afterwards: looking its id up in the new state returns the
  host with the given scope and settings and without a pinned key, provided the settings survive
  their JSON form.\<close>

theorem create_host_then_get:
  assumes "maps_ok s" and "create_host X s i scope p now = Inr s'"
    and "x_host_from_value X (x_host_to_value X (p\<lparr>hp_host_key := None\<rparr>)) = Inr (p\<lparr>hp_host_key := None\<rparr>)"
    and "get_u64 (x_host_to_value X (p\<lparr>hp_host_key := None\<rparr>)) (lit ''schema'') = Some (ucast (hp_schema p))"
  shows "\<exists>v. get_host X s' i = Inr v
    \<and> hv_host v = \<lparr>hr_id = i, hr_scope = scope, hr_payload = p\<lparr>hp_host_key := None\<rparr>\<rparr>"
  by (rule create_host_listed [OF assms])

theorem create_host_then_get_witness:
  "\<exists>v. get_host sample_rext (one_state (lit ''a'') 1 5) sample_id = Inr v \<and> hr_id (hv_host v) = sample_id"
proof -
  have pin: "sample_payload\<lparr>hp_host_key := None\<rparr> = sample_payload" by (simp add: sample_payload_def)
  have "x_host_from_value sample_rext (x_host_to_value sample_rext sample_payload) = Inr sample_payload"
    by (subst sample_host_json(1)) (simp_all add: sample_payload_def)
  with create_host_then_get [OF sample_maps_ok(1) sample_create] sample_host_json(2) [of sample_payload]
  show ?thesis by (auto simp: pin)
qed

text \<open>Updating a host writes exactly its row: the new settings, with the pinned key of the stored
  host kept only when the effective endpoint is unchanged, in a revision that beats the stored one.
  An update against another revision than the stored one is refused.\<close>

theorem update_host_effect:
  assumes "maps_ok s" and "update_host X s i rv p now = Inr s'"
  shows "\<exists>v p' e. get_host X s i = Inr v \<and> hv_revision v = rv
    \<and> resolve_effective X s ((hv_host v)\<lparr>hr_payload := p\<rparr>) = Inr e
    \<and> p' = p\<lparr>hp_host_key := hp_host_key p'\<rparr>
    \<and> hp_host_key p' = (if hp_hostname (hv_effective_payload v) = hp_hostname (ef_payload e)
                          \<and> hp_port (hv_effective_payload v) = hp_port (ef_payload e)
                        then hp_host_key (hr_payload (hv_host v)) else None)
    \<and> validate_host X ((hv_host v)\<lparr>hr_payload := p'\<rparr>) = Inr ()
    \<and> row_edit s (hr_scope (hv_host v)) i (x_host_to_value X p') False now s'"
proof -
  from update_host_edit [OF assms] obtain v p' e where
    v: "checked_host X s i rv = Inr v"
    and e: "row_edit s (hr_scope (hv_host v)) i (x_host_to_value X p') False now s'"
    "validate_host X ((hv_host v)\<lparr>hr_payload := p'\<rparr>) = Inr ()"
    "resolve_effective X s ((hv_host v)\<lparr>hr_payload := p\<rparr>) = Inr e"
    "p' = p\<lparr>hp_host_key := (if hp_hostname (hv_effective_payload v) = hp_hostname (ef_payload e)
                \<and> hp_port (hv_effective_payload v) = hp_port (ef_payload e)
             then hp_host_key (hr_payload (hv_host v)) else None)\<rparr>"
    by blast
  moreover have "get_host X s i = Inr v" "hv_revision v = rv" using v by (simp_all add: checked_host_Inr)
  ultimately show ?thesis by (intro exI [of _ v] exI [of _ p'] exI [of _ e]) simp
qed

theorem update_host_effect_witness:
  "row_edit (one_state (lit ''a'') 1 5) HS_Local sample_id
     (x_host_to_value sample_rext (sample_payload\<lparr>hp_alias := lit ''b''\<rparr>)) False 9 (one_state (lit ''b'') 2 9)"
proof -
  have pin: "p' = sample_payload\<lparr>hp_alias := lit ''b''\<rparr>"
    if "p' = sample_payload\<lparr>hp_alias := lit ''b'', hp_host_key := hp_host_key p'\<rparr>" "hp_host_key p' = None" for p'
    using that by (simp add: sample_payload_def)
  obtain v :: host_view and p' :: host_payload where
    "get_host sample_rext (one_state (lit ''a'') 1 5) sample_id = Inr v"
    "p' = sample_payload\<lparr>hp_alias := lit ''b'', hp_host_key := hp_host_key p'\<rparr>"
    "hp_host_key p' = hp_host_key (hr_payload (hv_host v)) \<or> hp_host_key p' = None"
    "row_edit (one_state (lit ''a'') 1 5) (hr_scope (hv_host v)) sample_id
       (x_host_to_value sample_rext p') False 9 (one_state (lit ''b'') 2 9)"
    using update_host_effect [OF sample_maps_ok(2) sample_update] by metis
  moreover from this have "p' = sample_payload\<lparr>hp_alias := lit ''b''\<rparr>"
    by (intro pin) (auto simp: one_hosts_list(2) [OF one_host_valid(1)])
  ultimately show ?thesis by (auto simp: one_hosts_list(2) [OF one_host_valid(1)])
qed

text \<open>Deleting a host leaves a tombstone that beats the deleted revision, and the host is no longer
  listed in its scope.\<close>

theorem delete_host_effect:
  assumes "maps_ok s" and "delete_host X s i rv now = Inr s'"
  shows "\<exists>v. get_host X s i = Inr v \<and> row_edit s (hr_scope (hv_host v)) i JNull True now s'
    \<and> (\<forall>hosts w. list_hosts X s' = Inr hosts \<and> w \<in> set hosts \<longrightarrow>
         \<not> (hr_id (hv_host w) = i \<and> hr_scope (hv_host w) = hr_scope (hv_host v)))"
proof -
  from delete_host_edit [OF assms] obtain v where v: "checked_host X s i rv = Inr v"
    and e: "row_edit s (hr_scope (hv_host v)) i JNull True now s'" by blast
  let ?scope = "hr_scope (hv_host v)" and ?key = "record_key RK_Host i"
  from e obtain old :: local_record and rec :: sync_record where s': "s' = put_host ?scope ?key (cached rec (lr_seq old) ?scope) s"
    and r: "r_deleted rec" and o: "scope_open s ?scope"
    unfolding row_edit_def by auto
  have m: "maps_ok s'" using maps_ok_put [OF assms(1)] s' by simp
  have "\<not> (hr_id (hv_host w) = i \<and> hr_scope (hv_host w) = ?scope)"
    if h: "list_hosts X s' = Inr hosts" and w: "w \<in> set hosts" for hosts w
  proof
    assume a: "hr_id (hv_host w) = i \<and> hr_scope (hv_host w) = ?scope"
    from w list_hosts_mem [OF m h, of "hv_host w" "hv_revision w"] a obtain key l where
      l: "stored_row s' ?scope key l" "decode_host X (lr_record l) ?scope = Inr (Live (hv_host w))" by auto
    have "key = ?key"
      using stored_row_key(1) [OF m h l(1)] decode_host_Live(1,2) [OF l(2)] a by simp
    with l(1) o have "l = cached rec (lr_seq old) ?scope"
      by (simp add: stored_row_open s' put_host_records)
    with decode_host_Live(4) [OF l(2)] r show False by (simp add: cached_def)
  qed
  with v e show ?thesis by (auto simp: checked_host_Inr)
qed

theorem delete_host_effect_witness:
  "\<exists>s'. delete_host sample_rext (one_state (lit ''a'') 1 5) sample_id (hv_revision (one_view (lit ''a'') 1 5)) 9 = Inr s'
     \<and> row_edit (one_state (lit ''a'') 1 5) HS_Local sample_id JNull True 9 s'"
proof -
  from sample_delete obtain s' where
    s': "delete_host sample_rext (one_state (lit ''a'') 1 5) sample_id (hv_revision (one_view (lit ''a'') 1 5)) 9 = Inr s'" ..
  with delete_host_effect [OF sample_maps_ok(2) s'] show ?thesis
    by (auto simp: one_hosts_list(2) [OF one_host_valid(1)])
qed

end
