(* ===== verification/Directory_Properties.thy ===== *)
theory Directory_Properties
  imports Session_Directory Repository_Properties
begin

text \<open>
  What the directories promise a session: a target is the saved route, and pins are only those that are saved.
\<close>

section \<open>What a target is\<close>

lemma dir_bind_Inr:
  "dir_bind f g w = (Inr b, w') \<longleftrightarrow> (\<exists>a w1. f w = (Inr a, w1) \<and> g a w1 = (Inr b, w'))"
  by (auto simp: dir_bind_def split: prod.splits sum.splits)

lemma dir_lift_eq: "dir_lift r w = (x, w') \<longleftrightarrow> r = x \<and> w' = w"
  by (auto simp: dir_lift_def)

lemmas dir_run = dir_bind_Inr dir_lift_eq

text \<open>A route over a snapshot: its hosts are found by their ids, and no id comes twice.\<close>

lemma route_indices_route:
  assumes "route_indices hosts i = Inr ns"
  shows "ns \<noteq> []" "length ns \<le> MAX_JUMPS + 1" "distinct (map (\<lambda>n. hr_id (hv_host (hosts ! n))) ns)"
    "hr_id (hv_host (hosts ! last ns)) = i" "\<forall>n \<in> set ns. host_index hosts (hr_id (hv_host (hosts ! n))) = Inr n"
proof -
  obtain n where n: "host_index hosts i = Inr n" "append_indices hosts n i [] [] = Inr ns"
    using assms by (auto simp: route_indices_def rbind_Inr)
  have id_n: "hr_id (hv_host (hosts ! n)) = i" using n(1) by (simp add: host_index_Inr)
  show "ns \<noteq> []" "hr_id (hv_host (hosts ! last ns)) = i" using positions.expand_last [OF _ n(2)] id_n by auto
  show "length ns \<le> MAX_JUMPS + 1" using positions.expand_bounds [OF _ n(2)] by simp
  have "m = n \<or> (\<exists>j. look_index hosts j = Some m)" if "m \<in> set ns" for m
    using positions.expand_known [OF _ n(2)] that by auto
  then show known: "\<forall>m \<in> set ns. host_index hosts (hr_id (hv_host (hosts ! m))) = Inr m"
    using n(1) id_n by (metis host_index_Inr look_index_Some)
  have "inj_on (\<lambda>m. hr_id (hv_host (hosts ! m))) (set ns)" using known by (metis (mono_tags, lifting) inj_onI sum.inject(2))
  with positions.expand_bounds [OF _ n(2)] show "distinct (map (\<lambda>m. hr_id (hv_host (hosts ! m))) ns)" by (simp add: distinct_map)
qed

lemma resolve_host_chain_route:
  assumes "resolve_host_chain X s i = Inr route"
  shows "route \<noteq> []" "length route \<le> MAX_JUMPS + 1" "distinct (map (\<lambda>v. hr_id (hv_host v)) route)" "hr_id (hv_host (last route)) = i"
    "\<forall>v \<in> set route. get_host X s (hr_id (hv_host v)) = Inr v"
proof -
  obtain snap ns where ns: "snapshot X s = Inr snap" "route_indices (snap_hosts snap) i = Inr ns" "route = map (\<lambda>n. snap_hosts snap ! n) ns"
    using assms by (auto simp: resolve_host_chain_def rbind_Inr)
  note r = route_indices_route [OF ns(2)]
  show "route \<noteq> []" "length route \<le> MAX_JUMPS + 1" "hr_id (hv_host (last route)) = i" using r ns(3) by (simp_all add: last_map)
  show "distinct (map (\<lambda>v. hr_id (hv_host v)) route)" using r(3) ns(3) by (simp add: comp_def)
  have "get_host X s (hr_id (hv_host (snap_hosts snap ! n))) = Inr (snap_hosts snap ! n)" if "n \<in> set ns" for n
    using r(5) that ns(1) by (simp add: get_host_def list_hosts_def rbind_def map_err_def)
  then show "\<forall>v \<in> set route. get_host X s (hr_id (hv_host v)) = Inr v" using ns(3) by auto
qed

text \<open>How a hop and a saved host correspond.\<close>

definition hop_matches :: "host_view \<Rightarrow> hop \<Rightarrow> bool" where
  "hop_matches v h \<longleftrightarrow>
     (let p = hv_effective_payload v in
      h_id h = hr_id (hv_host v) \<and> h_alias h = hp_alias p \<and> h_hostname h = hp_hostname p \<and> h_port h = hp_port p
      \<and> h_user h \<noteq> [] \<and> (hp_user p \<noteq> [] \<longrightarrow> h_user h = hp_user p)
      \<and> map_option sk_fingerprint (h_pinned h) = map_option hk_fingerprint (hp_host_key p))"

lemma saved_pin_fingerprint:
  "saved_pin X b pin = Inr k \<Longrightarrow> map_option (\<lambda>k. sk_fingerprint (pk_key k)) k = map_option hk_fingerprint pin"
  by (auto simp: saved_pin_def pinned_key_of_def rbind_Inr ok_or_def opt_filter_def split: option.splits if_splits)

lemma route_user_ne: "route_user S p ou w = (Inr (u, ou'), w') \<Longrightarrow> (\<forall>x. ou = Some x \<longrightarrow> x \<noteq> [])
    \<Longrightarrow> u \<noteq> [] \<and> (hp_user p \<noteq> [] \<longrightarrow> u = hp_user p) \<and> (\<forall>x. ou' = Some x \<longrightarrow> x \<noteq> [])"
  by (auto simp: route_user_def dir_run split: if_splits option.splits)

lemma route_hop_matches:
  assumes "route_hop X S s vm probe v ou w = (Inr (h, ou'), w')" "\<forall>x. ou = Some x \<longrightarrow> x \<noteq> []"
  shows "hop_matches v h \<and> (\<forall>x. ou' = Some x \<longrightarrow> x \<noteq> []) \<and> (probe \<longrightarrow> h_auth h = AM_Interactive)"
proof -
  let ?p = "hv_effective_payload v"
  obtain a u k w1 w2 w3 where r: "route_auth X S s vm probe ?p w1 = (Inr a, w2)" "route_user S ?p ou w2 = (Inr (u, ou'), w3)"
      "saved_pin X (rs_to_bytes S) (hp_host_key ?p) = Inr k"
      "h = (hop_new (hr_id (hv_host v)) (hp_alias ?p) (hp_hostname ?p) (hp_port ?p) u a)
          \<lparr>h_pinned := map_option pk_key k, h_connect_timeout := unat (hp_connect_timeout_secs ?p) * SECOND,
           h_keepalive_every := unat (hp_keepalive_secs ?p) * SECOND, h_keepalive_max_missed := hp_keepalive_max_missed ?p\<rparr>"
    using assms(1) by (auto simp: route_hop_def Let_def dir_run split: prod.splits)
  have "probe \<Longrightarrow> a = AM_Interactive" using r(1) by (simp add: route_auth_def dir_run)
  moreover have "map_option sk_fingerprint (map_option pk_key k) = map_option hk_fingerprint (hp_host_key ?p)"
    using saved_pin_fingerprint [OF r(3)] by (simp add: option.map_comp comp_def)
  ultimately show ?thesis using route_user_ne [OF r(2) assms(2)] r(4) by (simp add: hop_matches_def hop_new_def Let_def)
qed

lemma route_hops_match:
  assumes "route_hops X S s vm hko vs ou w = (Inr hs, w')" "\<forall>x. ou = Some x \<longrightarrow> x \<noteq> []"
  shows "list_all2 hop_matches vs hs \<and> (hko \<and> vs \<noteq> [] \<longrightarrow> h_auth (last hs) = AM_Interactive)"
  using assms
proof (induction vs arbitrary: ou w hs)
  case Nil
  then show ?case by (simp add: dir_run)
next
  case (Cons v vs)
  from Cons.prems(1) obtain h ou1 w1 hs' where r: "route_hop X S s vm (hko \<and> vs = []) v ou w = (Inr (h, ou1), w1)"
    "route_hops X S s vm hko vs ou1 w1 = (Inr hs', w')" "hs = h # hs'"
    by (auto simp: dir_run split: prod.splits)
  from route_hop_matches [OF r(1) Cons.prems(2)] Cons.IH [OF r(2)] r(3) show ?case by (cases "vs = []") auto
qed

text \<open>What a session connects through is the saved route, as it is saved: when the record library resolves a host, the
  target ends in the host that was asked for, has at most six hops and no host twice; every hop is a host of the
  snapshot with its own address, port and name, and its pin is the saved one, by fingerprint: a host with no
  saved key has no pin and a saved key that cannot be read never becomes a missing one.\<close>

theorem resolve_is_saved_route:
  assumes "resolve_material X S verify_material host_key_only q w = (Inr t, w')"
  shows "\<exists>s w1 host. rs_snapshot S w = (Inr s, w1) \<and> find_query X s q = Inr host
     \<and> t \<noteq> [] \<and> length t \<le> MAX_JUMPS + 1 \<and> distinct (map h_id t) \<and> h_id (last t) = hr_id (hv_host host)
     \<and> (host_key_only \<longrightarrow> h_auth (last t) = AM_Interactive)
     \<and> (\<forall>h \<in> set t. \<exists>v. get_host X s (h_id h) = Inr v \<and> hop_matches v h)"
proof -
  obtain s w1 host route where r: "rs_snapshot S w = (Inr s, w1)" "find_query X s q = Inr host"
    "resolve_host_chain X s (hr_id (hv_host host)) = Inr route" "route_hops X S s verify_material host_key_only route None w1 = (Inr t, w')"
    using assms by (auto simp: resolve_material_def dir_run)
  note c = resolve_host_chain_route [OF r(3)]
  have m: "list_all2 hop_matches route t" "host_key_only \<longrightarrow> h_auth (last t) = AM_Interactive"
    using route_hops_match [OF r(4)] c(1) by simp_all
  have ids: "map h_id t = map (\<lambda>v. hr_id (hv_host v)) route"
    using m(1) by (auto simp: list_all2_conv_all_nth hop_matches_def Let_def intro: nth_equalityI)
  then have t: "t \<noteq> []" "length t \<le> MAX_JUMPS + 1" "distinct (map h_id t)" using c(1-3) by (auto dest: map_eq_imp_length_eq)
  moreover have "h_id (last t) = hr_id (hv_host host)" using c(1,4) t(1) ids by (metis last_map)
  moreover have "\<exists>v. get_host X s (h_id h) = Inr v \<and> hop_matches v h" if "h \<in> set t" for h
  proof -
    from m(1) that obtain v where "v \<in> set route" "hop_matches v h" by (metis in_set_conv_nth list_all2_conv_all_nth)
    with c(5) show ?thesis by (auto simp: hop_matches_def Let_def)
  qed
  ultimately show ?thesis using r(1,2) m(2) by blast
qed

text \<open>A library with one host and a login name.\<close>

definition sample_sources :: "unit record_sources" where
  "sample_sources =
     \<lparr>rs_snapshot = \<lambda>w. (Inr (one_state (lit ''a'') 1 5), w), rs_material = \<lambda>_ w. (Inr True, w), rs_username = \<lambda>w. (Inr (lit ''root''), w),
      rs_pin = \<lambda>_ _ _ _ w. (Inr (), w), rs_to_bytes = \<lambda>k. Some (pk_key_data k), rs_confirmed_pin = None\<rparr>"

lemma one_chain: "resolve_host_chain sample_rext (one_state (lit ''a'') 1 5) sample_id = Inr [one_view (lit ''a'') 1 5]"
proof -
  obtain snap where "snapshot sample_rext (one_state (lit ''a'') 1 5) = Inr snap" "snap_hosts snap = [one_view (lit ''a'') 1 5]"
    by (rule one_snapshot [OF one_host_valid(1), of 1 5]) simp
  with one_hosts_list(3) [OF one_host_valid(1), of 1 5] show ?thesis by (simp add: resolve_host_chain_def map_err_def)
qed

lemma sample_resolve: "\<exists>t. resolve_material sample_rext sample_sources True False (HQ_Id sample_id) () = (Inr t, ())"
proof -
  have u: "lit ''root'' \<noteq> []" "\<not> list_ex (\<lambda>c. is_whitespace c \<or> is_control c) (lit ''root'')"
    by (simp_all add: is_whitespace_def is_control_def str_simps)
  have "hv_readiness (one_view (lit ''a'') 1 5) = HR_Ready" "hp_user sample_payload = []" by (simp_all add: one_view_def sample_payload_def)
  then show ?thesis
    by (simp add: resolve_material_def find_query_def sample_sources_def one_hosts_list(2) [OF one_host_valid(1)] one_chain dir_bind_def dir_lift_def
        map_err_def route_hop_def Let_def route_ready_def route_auth_def route_user_def saved_pin_def u)
qed

theorem resolve_is_saved_route_witness:
  "\<exists>t w'. resolve_material sample_rext sample_sources True False (HQ_Id sample_id) () = (Inr t, w')
     \<and> t \<noteq> [] \<and> length t \<le> MAX_JUMPS + 1 \<and> distinct (map h_id t)"
proof -
  obtain t where t: "resolve_material sample_rext sample_sources True False (HQ_Id sample_id) () = (Inr t, ())" using sample_resolve by blast
  with resolve_is_saved_route [OF t] show ?thesis by blast
qed

end
