(* ===== verification/Record_Groups.thy ===== *)
theory Record_Groups
  imports Record_Repository
begin

text \<open>
  The write side of \<open>sync/record_groups.rs\<close>: revision-checked edits of the group tree, the confirmed
  promotion of the state and the account to the group format, and the clearing of host keys whose
  effective endpoint a group edit changed. A deletion removes the whole subtree: the hosts below it
  are rewritten with their inherited settings written out, and its groups become tombstones.
\<close>

section \<open>Operations\<close>

definition checked_group :: "'a record_ext_scheme \<Rightarrow> sync_state \<Rightarrow> rstr \<Rightarrow> record_revision
    \<Rightarrow> repository_error + group_view" where
  "checked_group X s i expected =
     rbind (list_groups X s) (\<lambda>all.
     (case filter (\<lambda>g. gr_id (gv_group g) = i) all of
        [] \<Rightarrow> Inl (RE_Group (lit ''group '' @ i @ lit '' not found''))
      | g # rest \<Rightarrow>
          rbind (fail_if (rest \<noteq> []) (RE_Group (lit ''duplicate group '' @ i))) (\<lambda>_.
          rbind (fail_if (gv_revision g \<noteq> expected) (RE_RevisionConflict i (gv_revision g))) (\<lambda>_.
          rbind (ensure_scope X s (gr_scope (gv_group g))) (\<lambda>_.
          rbind (group_of X s (gr_scope (gv_group g)) i) (\<lambda>_. Inr g))))))"

definition promote :: "sync_state \<Rightarrow> host_scope \<Rightarrow> bool \<Rightarrow> u64 \<Rightarrow> repository_error + sync_state" where
  "promote s scope confirmed now =
     (let shared = (scope \<noteq> HS_Local) in
      rbind (fail_if ((st_version s < GROUP_STATE_VERSION \<or> shared \<and> \<not> account_group_enabled s) \<and> \<not> confirmed)
               RE_UpgradeConfirmationRequired) (\<lambda>_.
      let s = s\<lparr>st_version := max (st_version s) GROUP_STATE_VERSION\<rparr> in
      if shared \<and> \<not> account_group_enabled s then
        rbind (ok_or (RE_Group (lit ''account metadata missing''))
                 (Option.bind (st_account s) (\<lambda>a. bt_get (acc_records a) account_meta_key))) (\<lambda>old.
        let payload = the (jset (r_payload (lr_record old)) (lit ''schema_version'') (JNumber (PosInt 4))) in
        rbind (ordered_record s ACCOUNT_META_ID payload False now [lr_record old]) (\<lambda>row.
        Inr (s\<lparr>st_account := map_option (\<lambda>a. a\<lparr>acc_records :=
               bt_insert account_meta_key
                 \<lparr>lr_record = row\<lparr>r_kind := RK_Meta\<rparr>, lr_seq = lr_seq old, lr_dirty = True\<rparr>
                 (acc_records a)\<rparr>) (st_account s)\<rparr>)))
      else Inr s))"

definition promote_for_host :: "'a record_ext_scheme \<Rightarrow> sync_state \<Rightarrow> host_scope \<Rightarrow> host_payload \<Rightarrow> bool \<Rightarrow> u64
    \<Rightarrow> repository_error + sync_state" where
  "promote_for_host X s scope payload confirmed now =
     (if hp_schema payload = GROUPED_HOST_SCHEMA then
        rbind (ensure_scope X s scope) (\<lambda>_. promote s scope confirmed now)
      else Inr s)"

definition validate_groups :: "'a record_ext_scheme \<Rightarrow> sync_state \<Rightarrow> host_scope \<Rightarrow> repository_error + unit" where
  "validate_groups X s scope =
     rbind (list_groups X s) (\<lambda>groups.
     rbind (for_each (\<lambda>names g.
              rbind (ancestor_path X s scope (Some (gr_id (gv_group g)))) (\<lambda>_.
              let name = (gp_parent_id (gr_payload (gv_group g)), gp_name (gr_payload (gv_group g))) in
              rbind (fail_if (name \<in> names) (RE_Group (lit ''duplicate group name under the same parent''))) (\<lambda>_.
              Inr (insert name names)))) {}
             (filter (\<lambda>g. gr_scope (gv_group g) = scope) groups)) (\<lambda>_.
     Inr ()))"

text \<open>One host of \<open>finish\<close>: a pinned host whose effective port differs from before loses its pin.\<close>

definition host_before :: "host_view list \<Rightarrow> host_view \<Rightarrow> host_view option" where
  "host_before old view =
     find (\<lambda>v. hr_id (hv_host v) = hr_id (hv_host view) \<and> hr_scope (hv_host v) = hr_scope (hv_host view)) old"

definition clear_pin :: "'a record_ext_scheme \<Rightarrow> host_view list \<Rightarrow> u64 \<Rightarrow> sync_state \<Rightarrow> host_view
    \<Rightarrow> repository_error + sync_state" where
  "clear_pin X old_hosts now s view =
     (let host = hv_host view in
      if hp_host_key (hr_payload host) \<noteq> None
         \<and> is_some_and (host_before old_hosts view) (\<lambda>v.
             hp_port (hv_effective_payload v) \<noteq> hp_port (hv_effective_payload view)) then
        (let key = record_key RK_Host (hr_id host);
             old = bt_at (host_records s (hr_scope host)) key;
             payload = (hr_payload host)\<lparr>hp_host_key := None\<rparr>;
             stamp = lr_record old in
         rbind (ok_or (RE_OrderingOverflow (r_id stamp)) (checked_add (r_version stamp) 1)) (\<lambda>version.
         rbind (ok_or (RE_OrderingOverflow (r_id stamp)) (checked_add (r_updated_at_ms stamp) 1)) (\<lambda>t.
         let stamp = stamp\<lparr>r_version := version, r_updated_at_ms := max now t,
               r_device_id := st_device_id s, r_payload := x_host_to_value X payload\<rparr> in
         Inr (put_host (hr_scope host) key (cached stamp (lr_seq old) (hr_scope host)) s))))
      else Inr s)"

definition finish :: "'a record_ext_scheme \<Rightarrow> sync_state \<Rightarrow> sync_state \<Rightarrow> host_scope \<Rightarrow> u64
    \<Rightarrow> repository_error + sync_state" where
  "finish X before next_state scope now =
     rbind (validate_groups X next_state scope) (\<lambda>_.
     rbind (validate_transition X before next_state) (\<lambda>_.
     rbind (snapshot X before) (\<lambda>old.
     rbind (snapshot X next_state) (\<lambda>new.
     for_each (clear_pin X (snap_hosts old) now) next_state (snap_hosts new)))))"

definition has_group_data :: "sync_state \<Rightarrow> bool" where
  "has_group_data s \<longleftrightarrow>
     account_group_enabled s
     \<or> list_ex (\<lambda>sp. list_ex (\<lambda>r. e_kind (sr_envelope r) = lit ''group'') (bt_values (sp_sealed sp)))
         (bt_values (st_spaces s))
     \<or> ls_groups (st_local s) \<noteq> []
     \<or> list_ex (\<lambda>r. r_kind (lr_record r) = RK_Group
                     \<or> r_kind (lr_record r) = RK_Host
                       \<and> get_u64 (r_payload (lr_record r)) (lit ''schema'') = Some 3)
         (bt_values (ls_hosts (st_local s))
          @ concat (map (\<lambda>sp. bt_values (sp_records sp)) (bt_values (st_spaces s))))"

text \<open>One host of \<open>invalidate_changed_pins\<close>, for group changes that arrive from another device.\<close>

definition invalidate_pin :: "host_view list \<Rightarrow> sync_state \<Rightarrow> host_view \<Rightarrow> repository_error + sync_state" where
  "invalidate_pin old_hosts s view =
     (let host = hv_host view in
      if hp_host_key (hr_payload host) = None
         \<or> \<not> is_some_and (host_before old_hosts view) (\<lambda>v.
               hp_port (hv_effective_payload v) \<noteq> hp_port (hv_effective_payload view)
               \<or> hv_group_error v \<noteq> hv_group_error view) then Inr s
      else
        (let key = record_key RK_Host (hr_id host);
             row = bt_at (host_records s (hr_scope host)) key;
             payload = the (jset (r_payload (lr_record row)) (lit ''host_key'') JNull) in
         rbind (ok_or (RE_OrderingOverflow (hr_id host)) (checked_add (r_version (lr_record row)) 1)) (\<lambda>version.
         rbind (ok_or (RE_OrderingOverflow (hr_id host)) (checked_add (r_updated_at_ms (lr_record row)) 1)) (\<lambda>t.
         Inr (put_host (hr_scope host) key
                \<lparr>lr_record = (lr_record row)\<lparr>r_payload := payload, r_version := version,
                    r_updated_at_ms := t, r_device_id := st_device_id s\<rparr>,
                 lr_seq = lr_seq row, lr_dirty = (hr_scope host \<noteq> HS_Local)\<rparr> s)))))"

definition invalidate_changed_pins :: "'a record_ext_scheme \<Rightarrow> sync_state \<Rightarrow> sync_state
    \<Rightarrow> repository_error + sync_state" where
  "invalidate_changed_pins X before next_state =
     rbind (snapshot X before) (\<lambda>old.
     rbind (snapshot X next_state) (\<lambda>new.
     for_each (invalidate_pin (snap_hosts old)) next_state (snap_hosts new)))"

definition create_group :: "'a record_ext_scheme \<Rightarrow> sync_state \<Rightarrow> rstr \<Rightarrow> host_scope \<Rightarrow> group_payload \<Rightarrow> bool \<Rightarrow> u64
    \<Rightarrow> repository_error + sync_state" where
  "create_group X s i scope payload confirmed now =
     rbind (ensure_scope X s scope) (\<lambda>_.
     let payload = payload\<lparr>gp_name := trim (gp_name payload)\<rparr> in
     rbind (map_err RE_Validation (validate_group \<lparr>gr_id = i, gr_scope = scope, gr_payload = payload\<rparr>)) (\<lambda>_.
     let key = record_key RK_Group i in
     rbind (fail_if (bt_contains (ls_groups (st_local s)) key
                     \<or> list_ex (\<lambda>sp. bt_contains (sp_records sp) key) (bt_values (st_spaces s)))
              (RE_Group (lit ''group identity already exists''))) (\<lambda>_.
     rbind (promote s scope confirmed now) (\<lambda>next_state.
     rbind (ordered_record next_state i (x_group_to_value X payload) False now []) (\<lambda>row.
     finish X s
       (set_group_records next_state scope (bt_insert key (cached (row\<lparr>r_kind := RK_Group\<rparr>) 0 scope)))
       scope now)))))"

definition update_group :: "'a record_ext_scheme \<Rightarrow> sync_state \<Rightarrow> rstr \<Rightarrow> record_revision \<Rightarrow> group_payload \<Rightarrow> u64
    \<Rightarrow> repository_error + sync_state" where
  "update_group X s i expected payload now =
     rbind (checked_group X s i expected) (\<lambda>g.
     let scope = gr_scope (gv_group g);
         payload = payload\<lparr>gp_name := trim (gp_name payload)\<rparr> in
     rbind (map_err RE_Validation (validate_group \<lparr>gr_id = i, gr_scope = scope, gr_payload = payload\<rparr>)) (\<lambda>_.
     let key = record_key RK_Group i in
     rbind (group_records s scope) (\<lambda>rows.
     let old = bt_at rows key in
     rbind (ordered_record s i (x_group_to_value X payload) False now [lr_record old]) (\<lambda>row.
     finish X s
       (set_group_records s scope (bt_insert key (cached (row\<lparr>r_kind := RK_Group\<rparr>) (lr_seq old) scope)))
       scope now))))"

text \<open>The serialisation and digest of the reviewed data are \<open>x_review_digest\<close>.\<close>

definition deletion_snapshot_token :: "'a record_ext_scheme \<Rightarrow> repository_snapshot \<Rightarrow> repository_error + rstr" where
  "deletion_snapshot_token X snap =
     ok_or (RE_Group (lit ''Group deletion review could not be prepared.''))
       (x_review_digest X (snap_groups snap)
          (map (\<lambda>h. (hv_host h, hv_revision h, hv_effective_payload h, hv_inherited_from h, hv_group_error h))
             (snap_hosts snap)))"

text \<open>The loop that collects the subtree: sweeps over the groups until nothing is added.\<close>

definition absorb_child :: "rstr set \<Rightarrow> group_view \<Rightarrow> rstr set" where
  "absorb_child removed g =
     (if is_some_and (gp_parent_id (gr_payload (gv_group g))) (\<lambda>i. i \<in> removed)
      then insert (gr_id (gv_group g)) removed else removed)"

definition sweep_children :: "group_view list \<Rightarrow> host_scope \<Rightarrow> rstr set \<Rightarrow> rstr set" where
  "sweep_children groups scope removed =
     foldl absorb_child removed (filter (\<lambda>g. gr_scope (gv_group g) = scope) groups)"

lemma absorb_grows: "A \<subseteq> foldl absorb_child A gs"
proof (induction gs arbitrary: A)
  case (Cons g gs)
  have "A \<subseteq> absorb_child A g" by (auto simp: absorb_child_def)
  with Cons [of "absorb_child A g"] show ?case by auto
qed simp

lemma absorb_bounded: "foldl absorb_child A gs \<subseteq> A \<union> (\<lambda>g. gr_id (gv_group g)) ` set gs"
proof (induction gs arbitrary: A)
  case (Cons g gs)
  have "absorb_child A g \<subseteq> insert (gr_id (gv_group g)) A" by (auto simp: absorb_child_def)
  with Cons [of "absorb_child A g"] show ?case by auto
qed simp

lemma sweep_grows: "removed \<subseteq> sweep_children groups scope removed"
  by (simp add: sweep_children_def absorb_grows)

lemma sweep_bounded:
  "sweep_children groups scope removed \<subseteq> removed \<union> (\<lambda>g. gr_id (gv_group g)) ` set groups"
  using absorb_bounded [of removed "filter (\<lambda>g. gr_scope (gv_group g) = scope) groups"]
  by (auto simp: sweep_children_def)

function subtree_ids :: "group_view list \<Rightarrow> host_scope \<Rightarrow> rstr set \<Rightarrow> rstr set" where
  "subtree_ids groups scope removed =
     (let next_set = sweep_children groups scope removed in
      if card removed = card next_set then next_set else subtree_ids groups scope next_set)"
  by auto

termination
proof (relation "measure (\<lambda>(groups, scope, removed). card ((\<lambda>g. gr_id (gv_group g)) ` set groups - removed))")
  fix groups scope and removed next_set :: "rstr set"
  assume n: "next_set = sweep_children groups scope removed" and c: "card removed \<noteq> card next_set"
  let ?ids = "(\<lambda>g. gr_id (gv_group g)) ` set groups"
  have "removed \<noteq> next_set" using c by auto
  with sweep_grows [of removed groups scope] sweep_bounded [of groups scope removed]
  have "?ids - next_set \<subset> ?ids - removed" unfolding n by blast
  then show "((groups, scope, next_set), (groups, scope, removed)) \<in>
      measure (\<lambda>(groups, scope, removed). card ((\<lambda>g. gr_id (gv_group g)) ` set groups - removed))"
    by (simp add: psubset_card_mono)
qed simp

declare subtree_ids.simps [simp del]

text \<open>The two loops of \<open>delete_group\<close> after the subtree is known.\<close>

definition detach_host :: "'a record_ext_scheme \<Rightarrow> sync_state \<Rightarrow> u64 \<Rightarrow> sync_state \<Rightarrow> host_view
    \<Rightarrow> repository_error + sync_state" where
  "detach_host X s now next_state view =
     rbind (resolve_effective X s (hv_host view)) (\<lambda>resolved.
     update_host X next_state (hr_id (hv_host view)) (hv_revision view) (materialize (ef_payload resolved)) now)"

definition bury_group :: "'a record_ext_scheme \<Rightarrow> sync_state \<Rightarrow> host_scope \<Rightarrow> u64 \<Rightarrow> sync_state \<Rightarrow> rstr
    \<Rightarrow> repository_error + sync_state" where
  "bury_group X s scope now next_state i =
     rbind (group_of X s scope i) (\<lambda>_.
     let key = record_key RK_Group i in
     rbind (group_records s scope) (\<lambda>rows.
     let old = bt_at rows key in
     rbind (ordered_record s i JNull True now [lr_record old]) (\<lambda>row.
     Inr (set_group_records next_state scope
            (bt_insert key (cached (row\<lparr>r_kind := RK_Group\<rparr>) (lr_seq old) scope))))))"

definition delete_group :: "'a record_ext_scheme \<Rightarrow> sync_state \<Rightarrow> rstr \<Rightarrow> record_revision \<Rightarrow> rstr option \<Rightarrow> u64
    \<Rightarrow> repository_error + sync_state" where
  "delete_group X s i expected reviewed_snapshot now =
     rbind (checked_group X s i expected) (\<lambda>root.
     rbind (snapshot X s) (\<lambda>snap.
     rbind (deletion_snapshot_token X snap) (\<lambda>token.
     rbind (fail_if (reviewed_snapshot \<noteq> Some token)
              (RE_Group (lit ''Group deletion review is missing or stale. Refresh the records and review the deletion again.''))) (\<lambda>_.
     let scope = gr_scope (gv_group root) in
     rbind (case scope of
              HS_Space space_id \<Rightarrow>
                fail_if (list_ex (\<lambda>r. e_kind (sr_envelope r) = lit ''group'' \<and> \<not> e_deleted (sr_envelope r))
                           (bt_values (sp_sealed (bt_at (st_spaces s) space_id))))
                  (RE_Group (lit ''unreadable groups prevent subtree deletion''))
            | HS_Local \<Rightarrow> Inr ()) (\<lambda>_.
     rbind (list_groups X s) (\<lambda>groups.
     let removed = subtree_ids groups scope {i} in
     rbind (for_each (detach_host X s now) s
              (filter (\<lambda>h. hr_scope (hv_host h) = scope
                           \<and> is_some_and (hp_group_id (hr_payload (hv_host h))) (\<lambda>g. g \<in> removed))
                 (snap_hosts snap))) (\<lambda>next_state.
     rbind (for_each (bury_group X s scope now) next_state (sorted_list_of_set removed)) (\<lambda>next_state.
     finish X s next_state scope now))))))))"

section \<open>The subtree\<close>

inductive descends :: "group_view list \<Rightarrow> host_scope \<Rightarrow> rstr \<Rightarrow> rstr \<Rightarrow> bool" for groups scope root where
  descends_self: "descends groups scope root root"
| descends_child: "descends groups scope root j \<Longrightarrow> g \<in> set groups \<Longrightarrow> gr_scope (gv_group g) = scope \<Longrightarrow>
    gp_parent_id (gr_payload (gv_group g)) = Some j \<Longrightarrow> descends groups scope root (gr_id (gv_group g))"

lemma absorb_sound:
  assumes "\<forall>j \<in> A. descends groups scope r j"
    and "\<forall>g \<in> set gs. g \<in> set groups \<and> gr_scope (gv_group g) = scope"
  shows "\<forall>j \<in> foldl absorb_child A gs. descends groups scope r j"
  using assms
proof (induction gs arbitrary: A)
  case (Cons g gs)
  have "\<forall>j \<in> absorb_child A g. descends groups scope r j"
    using Cons.prems by (cases "gp_parent_id (gr_payload (gv_group g))") (auto simp: absorb_child_def intro: descends_child)
  with Cons.IH [of "absorb_child A g"] Cons.prems(2) show ?case by simp
qed simp

lemma absorb_stable:
  assumes "foldl absorb_child A gs = A" and "g \<in> set gs" and "gp_parent_id (gr_payload (gv_group g)) = Some j"
    and "j \<in> A"
  shows "gr_id (gv_group g) \<in> A"
proof -
  from assms(2) obtain pre post where gs: "gs = pre @ g # post" by (meson split_list)
  let ?B = "foldl absorb_child A pre"
  have "j \<in> ?B" using absorb_grows [of A pre] assms(4) by auto
  then have "gr_id (gv_group g) \<in> absorb_child ?B g" using assms(3) by (simp add: absorb_child_def)
  also have "absorb_child ?B g \<subseteq> foldl absorb_child A gs" by (simp add: gs absorb_grows)
  finally show ?thesis using assms(1) by simp
qed

lemma finite_sweep: "finite A \<Longrightarrow> finite (sweep_children groups scope A)"
  using sweep_bounded [of groups scope A] by (rule finite_subset) simp

lemma subtree_ids_descends:
  assumes "finite A" and "r \<in> A" and "\<forall>j \<in> A. descends groups scope r j"
  shows "subtree_ids groups scope A = {j. descends groups scope r j} \<and> finite (subtree_ids groups scope A)"
  using assms
proof (induction groups scope A rule: subtree_ids.induct)
  case (1 groups scope A)
  let ?B = "sweep_children groups scope A"
  have B: "finite ?B" "r \<in> ?B" "\<forall>j \<in> ?B. descends groups scope r j"
    using finite_sweep [OF 1(2)] sweep_grows [of A groups scope] 1(3)
      absorb_sound [OF 1(4), of "filter (\<lambda>g. gr_scope (gv_group g) = scope) groups"]
    by (auto simp: sweep_children_def [symmetric])
  show ?case
  proof (cases "card A = card ?B")
    case True
    then have eq: "?B = A" using card_subset_eq [OF B(1) sweep_grows] by simp
    have "j \<in> A" if "descends groups scope r j" for j
      using that
    proof induction
      case (descends_child j g)
      with absorb_stable [OF eq [unfolded sweep_children_def], of g j] show ?case by simp
    qed (rule 1(3))
    with B True eq 1(2) show ?thesis by (subst (1 2) subtree_ids.simps) auto
  next
    case False
    then have "subtree_ids groups scope A = subtree_ids groups scope ?B"
      by (subst subtree_ids.simps) (simp add: Let_def)
    then show ?thesis using 1(1) [OF refl False B] by metis
  qed
qed

section \<open>Rows of groups\<close>

definition group_row :: "sync_state \<Rightarrow> host_scope \<Rightarrow> rstr \<Rightarrow> local_record option" where
  "group_row s scope i =
     (case group_records s scope of Inr rows \<Rightarrow> bt_get rows (record_key RK_Group i) | Inl _ \<Rightarrow> None)"

text \<open>Two states with the same groups: the same open scopes, group rows and sealed rows.\<close>

definition same_groups :: "sync_state \<Rightarrow> sync_state \<Rightarrow> bool" where
  "same_groups s t \<longleftrightarrow>
     (\<forall>sc. scope_open t sc = scope_open s sc) \<and> (\<forall>sc i. group_row t sc i = group_row s sc i)
     \<and> (\<forall>sc. scope_sealed t sc = scope_sealed s sc) \<and> st_account t = st_account s
     \<and> st_version t = st_version s \<and> st_device_id t = st_device_id s"

lemma same_groups_refl [simp]: "same_groups s s"
  by (simp add: same_groups_def)

lemma same_groups_trans [trans]: "same_groups s t \<Longrightarrow> same_groups t u \<Longrightarrow> same_groups s u"
  by (simp add: same_groups_def)

lemma group_records_open:
  "group_records s scope = Inr rows \<longleftrightarrow> scope_open s scope
     \<and> rows = (case scope of HS_Local \<Rightarrow> ls_groups (st_local s)
                | HS_Space i \<Rightarrow> sp_records (bt_at (st_spaces s) i))"
  by (cases scope) (auto simp: group_records_def scope_open_def open_space_def bt_at_def opt_filter_Some)

lemma same_groups_put_host: "same_groups s (put_host sc (record_key RK_Host h) row s)"
proof -
  have "group_row (put_host sc (record_key RK_Host h) row s) scope i = group_row s scope i" for scope i
    by (cases scope; cases sc) (auto simp: group_row_def group_records_def put_host_def opt_filter_def
        split: option.splits)
  moreover have "scope_sealed (put_host sc (record_key RK_Host h) row s) scope = scope_sealed s scope" for scope
    by (cases scope; cases sc) (auto simp: scope_sealed_def put_host_def option.map_comp comp_def)
  ultimately show ?thesis by (simp add: same_groups_def)
qed

lemma same_groups_group_of:
  assumes "same_groups s t"
  shows "group_of X t scope i = group_of X s scope i"
proof (cases "scope_open s scope")
  case True
  then have o: "scope_open t scope" using assms by (simp add: same_groups_def)
  have r: "bt_get (case scope of HS_Local \<Rightarrow> ls_groups (st_local t) | HS_Space i \<Rightarrow> sp_records (bt_at (st_spaces t) i))
        (record_key RK_Group i)
      = bt_get (case scope of HS_Local \<Rightarrow> ls_groups (st_local s) | HS_Space i \<Rightarrow> sp_records (bt_at (st_spaces s) i))
        (record_key RK_Group i)"
    using assms True o group_records_open [of t scope] group_records_open [of s scope]
    unfolding same_groups_def group_row_def by (metis (no_types, lifting) old.sum.simps(6))
  have "sp_sealed (bt_at (st_spaces t) j) = sp_sealed (bt_at (st_spaces s) j)" if "scope = HS_Space j" for j
  proof -
    have "scope_sealed t scope = scope_sealed s scope" using assms by (simp add: same_groups_def)
    with that True o show ?thesis by (auto simp: scope_sealed_def scope_open_def bt_at_def)
  qed
  moreover have "group_records t scope = Inr (case scope of HS_Local \<Rightarrow> ls_groups (st_local t)
        | HS_Space i \<Rightarrow> sp_records (bt_at (st_spaces t) i))"
    "group_records s scope = Inr (case scope of HS_Local \<Rightarrow> ls_groups (st_local s)
        | HS_Space i \<Rightarrow> sp_records (bt_at (st_spaces s) i))"
    using True o by (simp_all add: group_records_open)
  ultimately show ?thesis
    using r by (cases scope) (simp_all add: group_of_def Let_def)
next
  case False
  then have "\<not> scope_open t scope" using assms by (simp add: same_groups_def)
  with False show ?thesis
    by (cases scope) (auto simp: group_of_def group_records_def scope_open_def open_space_def opt_filter_def
        split: option.splits)
qed

lemma put_group_row:
  assumes "scope_open s scope"
  shows "group_row (set_group_records s scope (bt_insert (record_key RK_Group i) row)) sc j
    = (if sc = scope \<and> j = i then Some row else group_row s sc j)"
  using assms
  by (cases scope; cases sc) (auto simp: group_row_def group_records_def set_group_records_def scope_open_def
      open_space_def opt_filter_def split: option.splits)

lemma put_group_open [simp]: "scope_open (set_group_records s scope f) sc = scope_open s sc"
  by (cases scope; cases sc) (auto simp: scope_open_def set_group_records_def open_space_def)

section \<open>Effect of the edits\<close>

lemma row_edit_same_groups: "row_edit s scope i payload deleted now s' \<Longrightarrow> same_groups s s'"
  by (auto simp: row_edit_def same_groups_put_host)

lemma clear_pin_same_groups: "clear_pin X old now s view = Inr s' \<Longrightarrow> same_groups s s'"
  by (auto simp: clear_pin_def Let_def same_groups_put_host split: if_splits)

lemma clear_pin_maps_ok: "clear_pin X old now s view = Inr s' \<Longrightarrow> maps_ok s \<Longrightarrow> maps_ok s'"
  by (auto simp: clear_pin_def Let_def maps_ok_put split: if_splits)

lemma finish_Inr:
  assumes "finish X before s scope now = Inr s'"
  shows "same_groups s s'" and "validate_groups X s scope = Inr ()"
    and "validate_transition X before s = Inr ()" and "maps_ok s \<Longrightarrow> maps_ok s'"
proof -
  from assms obtain old new :: repository_snapshot where
    f: "for_each (clear_pin X (snap_hosts old) now) s (snap_hosts new) = Inr s'"
    and "validate_groups X s scope = Inr ()" "validate_transition X before s = Inr ()"
    by (auto simp: finish_def)
  then show "validate_groups X s scope = Inr ()" "validate_transition X before s = Inr ()" by simp_all
  show "same_groups s s'"
    using f by (rule for_each_inv) (auto intro: same_groups_trans clear_pin_same_groups)
  show "maps_ok s'" if "maps_ok s"
    using f that by (rule for_each_inv) (auto intro: clear_pin_maps_ok)
qed

lemma detach_host_same_groups:
  assumes "maps_ok t" and "detach_host X s now t view = Inr t'"
  shows "same_groups t t' \<and> maps_ok t' \<and> repo_step X t t'"
proof -
  from assms(2) obtain e :: effective_host where
    u: "update_host X t (hr_id (hv_host view)) (hv_revision view) (materialize (ef_payload e)) now = Inr t'"
    by (auto simp: detach_host_def)
  have st: "repo_step X t t'" using u by (rule step_update)
  from update_host_edit [OF assms(1) u] obtain scope i payload where "row_edit t scope i payload False now t'"
    by metis
  with st assms(1) show ?thesis
    using row_edit_same_groups repo_steps_keep [of X t t'] by blast
qed

lemma bury_group_Inr:
  assumes "bury_group X s scope now t i = Inr t'"
  obtains old rec where "group_row s scope i = Some old" "scope_open s scope"
    "t' = set_group_records t scope (bt_insert (record_key RK_Group i) (cached rec (lr_seq old) scope))"
    "r_kind rec = RK_Group" "r_id rec = i" "r_deleted rec" "r_payload rec = JNull"
    "r_version (lr_record old) < r_version rec" "r_updated_at_ms (lr_record old) < r_updated_at_ms rec"
proof -
  from assms obtain g rows rec where g: "group_of X s scope i = Inr g" and rows: "group_records s scope = Inr rows"
    and r: "ordered_record s i JNull True now [lr_record (bt_at rows (record_key RK_Group i))] = Inr rec"
    and t': "t' = set_group_records t scope (bt_insert (record_key RK_Group i)
        (cached (rec\<lparr>r_kind := RK_Group\<rparr>) (lr_seq (bt_at rows (record_key RK_Group i))) scope))"
    by (auto simp: bury_group_def Let_def)
  from g rows obtain old where old: "bt_get rows (record_key RK_Group i) = Some old"
    by (auto simp: group_of_def Let_def)
  then have "group_row s scope i = Some old" "scope_open s scope"
    using group_records_open [of s scope rows] unfolding group_row_def rows by simp_all
  with that [of old "rec\<lparr>r_kind := RK_Group\<rparr>"] t' old ordered_record_Inr [OF r] show thesis
    by (simp add: bt_at_def)
qed

text \<open>Burying a list of groups turns exactly their rows into winning tombstones.\<close>

definition buried :: "local_record option \<Rightarrow> local_record option \<Rightarrow> bool" where
  "buried old new \<longleftrightarrow> (\<exists>x y. old = Some x \<and> new = Some y \<and> r_deleted (lr_record y) \<and> r_payload (lr_record y) = JNull
     \<and> lr_seq y = lr_seq x \<and> r_version (lr_record x) < r_version (lr_record y)
     \<and> remote_wins (lr_record y) (lr_record x))"

lemma bury_groups_rows:
  assumes "for_each (bury_group X s scope now) t ids = Inr t'"
    and "\<forall>sc. scope_open t sc = scope_open s sc"
  shows "(\<forall>sc. scope_open t' sc = scope_open t sc)
    \<and> (\<forall>j \<in> set ids. buried (group_row s scope j) (group_row t' scope j))
    \<and> (\<forall>sc j. \<not> (sc = scope \<and> j \<in> set ids) \<longrightarrow> group_row t' sc j = group_row t sc j)"
  using assms
proof (induction ids arbitrary: t)
  case Nil
  then show ?case by simp
next
  case (Cons i ids)
  from Cons.prems(1) obtain u where u: "bury_group X s scope now t i = Inr u"
    "for_each (bury_group X s scope now) u ids = Inr t'" by auto
  from bury_group_Inr [OF u(1)] obtain old :: local_record and rec :: sync_record where
    o: "group_row s scope i = Some old" "scope_open s scope"
    and ueq: "u = set_group_records t scope (bt_insert (record_key RK_Group i) (cached rec (lr_seq old) scope))"
    and rec: "r_deleted rec" "r_payload rec = JNull" "r_version (lr_record old) < r_version rec"
      "r_updated_at_ms (lr_record old) < r_updated_at_ms rec"
    by blast
  have ou: "\<forall>sc. scope_open u sc = scope_open s sc" using Cons.prems(2) by (simp add: ueq)
  note IH = Cons.IH [OF u(2) ou]
  have row: "group_row u sc j = (if sc = scope \<and> j = i then Some (cached rec (lr_seq old) scope) else group_row t sc j)" for sc j
    unfolding ueq using o(2) Cons.prems(2) by (simp add: put_group_row)
  have "buried (group_row s scope i) (group_row t' scope i)"
  proof (cases "i \<in> set ids")
    case False
    then have "group_row t' scope i = Some (cached rec (lr_seq old) scope)" using IH row by simp
    with o(1) rec show ?thesis by (simp add: buried_def cached_def remote_wins_iff)
  qed (use IH in simp)
  with IH row ou Cons.prems(2) show ?case by auto
qed

end
