(* ===== verification/Group_Properties.thy ===== *)
theory Group_Properties
  imports Record_Groups Repository_Properties
begin

text \<open>
  Properties of the group tree and its edits. The concrete state is the one-host library with a
  group added to it.
\<close>

section \<open>Inheritance\<close>

definition inherited_value :: "group_record list \<Rightarrow> inherited_field \<Rightarrow> host_payload \<Rightarrow> inherited_field
    \<Rightarrow> (group_defaults \<Rightarrow> 'v option) \<Rightarrow> 'v \<Rightarrow> (host_payload \<Rightarrow> 'v) \<Rightarrow> bool" where
  "inherited_value path fld p f sel dflt get \<longleftrightarrow>
     get (fst (inherit_field path p f)) = (if f = fld then fst (inherit path sel dflt) else get p)"

lemma inherit_one:
  "inherited_value path IF_Port p f gd_port 22 hp_port"
  "inherited_value path IF_User p f gd_user [] hp_user"
  "inherited_value path IF_Jump p f gd_jump [] hp_jump"
  "inherited_value path IF_KeepaliveSecs p f gd_keepalive_secs 30 hp_keepalive_secs"
  "inherited_value path IF_KeepaliveMaxMissed p f gd_keepalive_max_missed 3 hp_keepalive_max_missed"
  "inherited_value path IF_ConnectTimeoutSecs p f gd_connect_timeout_secs 15 hp_connect_timeout_secs"
  "inherited_value path IF_Authentication p f gd_authentication \<lparr>ga_auth = Auth_Password, ga_key_id = None\<rparr>
     (\<lambda>p. \<lparr>ga_auth = hp_auth p, ga_key_id = hp_key_id p\<rparr>)"
  by (cases f; simp add: inherited_value_def inherit_field_def split: prod.splits)+

lemma inherit_fold:
  assumes "\<And>p f. inherited_value path fld p f sel dflt get"
    and "foldl (\<lambda>(p, m) field. case inherit_field path p field of (p', from) \<Rightarrow>
        (p', bt_insert (inherited_str field) from m)) (p, m) fs = (p', m')"
  shows "get p' = (if fld \<in> set fs then fst (inherit path sel dflt) else get p)"
  using assms(2)
proof (induction fs arbitrary: p m)
  case Nil
  then show ?case by simp
next
  case (Cons f fs)
  obtain q src where q: "inherit_field path p f = (q, src)" by fastforce
  have "get q = (if f = fld then fst (inherit path sel dflt) else get p)"
    using assms(1) [of p f] q by (simp add: inherited_value_def)
  with Cons.IH [of q "bt_insert (inherited_str f) src m"] Cons.prems q show ?case by auto
qed

text \<open>A host's effective setting is its own, or, for the fields it inherits, the one of the nearest
  group on its ancestor path that sets the field, or the built-in default. The path is a chain of at
  most 32 different stored groups of the host's scope, each the parent of the one before.\<close>

theorem effective_settings:
  assumes "resolve_effective X s h = Inr e"
  shows "\<exists>path. parent_chain X s (hr_scope h) (hp_group_id (hr_payload h)) path \<and> length path \<le> 32
    \<and> distinct (map gr_id path)
    \<and> hp_port (ef_payload e) = (if IF_Port \<in> set (hp_inherit (hr_payload h))
         then fst (inherit path gd_port 22) else hp_port (hr_payload h))
    \<and> hp_user (ef_payload e) = (if IF_User \<in> set (hp_inherit (hr_payload h))
         then fst (inherit path gd_user []) else hp_user (hr_payload h))
    \<and> hp_jump (ef_payload e) = (if IF_Jump \<in> set (hp_inherit (hr_payload h))
         then fst (inherit path gd_jump []) else hp_jump (hr_payload h))
    \<and> hp_keepalive_secs (ef_payload e) = (if IF_KeepaliveSecs \<in> set (hp_inherit (hr_payload h))
         then fst (inherit path gd_keepalive_secs 30) else hp_keepalive_secs (hr_payload h))
    \<and> hp_connect_timeout_secs (ef_payload e) = (if IF_ConnectTimeoutSecs \<in> set (hp_inherit (hr_payload h))
         then fst (inherit path gd_connect_timeout_secs 15) else hp_connect_timeout_secs (hr_payload h))
    \<and> \<lparr>ga_auth = hp_auth (ef_payload e), ga_key_id = hp_key_id (ef_payload e)\<rparr>
        = (if IF_Authentication \<in> set (hp_inherit (hr_payload h))
           then fst (inherit path gd_authentication \<lparr>ga_auth = Auth_Password, ga_key_id = None\<rparr>)
           else \<lparr>ga_auth = hp_auth (hr_payload h), ga_key_id = hp_key_id (hr_payload h)\<rparr>)
    \<and> hp_host_key (ef_payload e) = hp_host_key (hr_payload h)
    \<and> hp_hostname (ef_payload e) = hp_hostname (hr_payload h)"
proof -
  from assms obtain path m where
    path: "ancestor_path X s (hr_scope h) (hp_group_id (hr_payload h)) = Inr path"
    and f: "foldl (\<lambda>(p, m) field. case inherit_field path p field of (p', from) \<Rightarrow>
        (p', bt_insert (inherited_str field) from m)) (hr_payload h, bt_empty)
        (hp_inherit (hr_payload h)) = (ef_payload e, m)"
    by (rule resolve_effective_Inr)
  show ?thesis
    using ancestor_path_Inr [OF path] inherit_fold [OF inherit_one(1) f] inherit_fold [OF inherit_one(2) f]
      inherit_fold [OF inherit_one(3) f] inherit_fold [OF inherit_one(4) f] inherit_fold [OF inherit_one(6) f]
      inherit_fold [OF inherit_one(7) f] inherit_fold_untouched [OF f]
    by (intro exI [of _ path]) simp
qed

text \<open>Writing a host's effective settings out and detaching it from its group changes nothing about
  how it connects: resolved in any state, the detached host has exactly those settings.\<close>

theorem materialize_keeps_settings:
  assumes "resolve_effective X s h = Inr e"
  shows "resolve_effective X t (h\<lparr>hr_payload := materialize (ef_payload e)\<rparr>)
    = Inr \<lparr>ef_payload = materialize (ef_payload e), ef_inherited_from = []\<rparr>"
proof -
  have "validate_host X (h\<lparr>hr_payload := ef_payload e\<rparr>) = Inr ()"
    by (rule resolve_effective_untouched(4) [OF assms])
  then have "validate_host X (h\<lparr>hr_payload := materialize (ef_payload e)\<rparr>) = Inr ()"
    by (auto simp: validate_host_iff host_shape_ok_def materialize_def Let_def schema_defs)
  then show ?thesis
    by (subst resolve_effective_ungrouped) (simp_all add: materialize_def bt_empty_def)
qed

theorem materialize_keeps_settings_witness:
  "\<exists>e. resolve_effective sample_rext sample_state sample_host = Inr e
     \<and> resolve_effective sample_rext sample_state (sample_host\<lparr>hr_payload := materialize (ef_payload e)\<rparr>)
       = Inr \<lparr>ef_payload = materialize (ef_payload e), ef_inherited_from = []\<rparr>"
proof -
  have "\<exists>e. resolve_effective sample_rext sample_state sample_host = Inr e"
    by (subst resolve_effective_ungrouped) (simp_all add: sample_hosts_valid, simp_all add: sample_host_def)
  with materialize_keeps_settings show ?thesis by blast
qed

section \<open>Edits\<close>

lemma checked_group_Inr:
  assumes "checked_group X s i expected = Inr g"
  shows "\<exists>groups. list_groups X s = Inr groups \<and> g \<in> set groups" and "gr_id (gv_group g) = i"
    and "gv_revision g = expected" and "ensure_scope X s (gr_scope (gv_group g)) = Inr ()"
proof -
  from assms obtain groups where l: "list_groups X s = Inr groups"
    and c: "(case filter (\<lambda>g. gr_id (gv_group g) = i) groups of
        [] \<Rightarrow> Inl (RE_Group (lit ''group '' @ i @ lit '' not found''))
      | g # rest \<Rightarrow>
          rbind (fail_if (rest \<noteq> []) (RE_Group (lit ''duplicate group '' @ i))) (\<lambda>_.
          rbind (fail_if (gv_revision g \<noteq> expected) (RE_RevisionConflict i (gv_revision g))) (\<lambda>_.
          rbind (ensure_scope X s (gr_scope (gv_group g))) (\<lambda>_.
          rbind (group_of X s (gr_scope (gv_group g)) i) (\<lambda>_. Inr g))))) = Inr g"
    unfolding checked_group_def rbind_Inr by blast
  from c obtain rest where f: "filter (\<lambda>g. gr_id (gv_group g) = i) groups = g # rest"
    and "gv_revision g = expected" "ensure_scope X s (gr_scope (gv_group g)) = Inr ()"
    by (cases "filter (\<lambda>g. gr_id (gv_group g) = i) groups") auto
  moreover have "g \<in> set (filter (\<lambda>g. gr_id (gv_group g) = i) groups)" by (simp add: f)
  then have "g \<in> set groups" "gr_id (gv_group g) = i" by simp_all
  ultimately show "\<exists>groups. list_groups X s = Inr groups \<and> g \<in> set groups" "gr_id (gv_group g) = i"
    "gv_revision g = expected" "ensure_scope X s (gr_scope (gv_group g)) = Inr ()"
    using l by blast+
qed

text \<open>Deleting a group needs a review of exactly the current library. It turns the group and all its
  descendants in the scope, and no other group, into tombstones that beat the deleted revisions.\<close>

theorem delete_group_effect:
  assumes "maps_ok s" and "delete_group X s i expected reviewed now = Inr s'"
  shows "\<exists>g groups snap. list_groups X s = Inr groups \<and> g \<in> set groups \<and> gr_id (gv_group g) = i
    \<and> gv_revision g = expected
    \<and> snapshot X s = Inr snap \<and> deletion_snapshot_token X snap = Inr (the reviewed)
    \<and> (\<forall>j. descends groups (gr_scope (gv_group g)) i j \<longrightarrow>
         buried (group_row s (gr_scope (gv_group g)) j) (group_row s' (gr_scope (gv_group g)) j))
    \<and> (\<forall>sc j. \<not> (sc = gr_scope (gv_group g) \<and> descends groups sc i j) \<longrightarrow> group_row s' sc j = group_row s sc j)"
proof -
  from assms(2) obtain g :: group_view and snap :: repository_snapshot and groups hosts t u where
    g: "checked_group X s i expected = Inr g" and snap: "snapshot X s = Inr snap"
    and tok: "deletion_snapshot_token X snap = Inr (the reviewed)"
    and groups: "list_groups X s = Inr groups"
    and d: "for_each (detach_host X s now) s hosts = Inr t"
    and b: "for_each (bury_group X s (gr_scope (gv_group g)) now) t
        (sorted_list_of_set (subtree_ids groups (gr_scope (gv_group g)) {i})) = Inr u"
    and f: "finish X s u (gr_scope (gv_group g)) now = Inr s'"
    by (auto simp: delete_group_def Let_def)
  let ?scope = "gr_scope (gv_group g)"
  have st: "same_groups s t \<and> maps_ok t"
    using d
  proof (rule for_each_inv)
    fix t view t'
    assume "same_groups s t \<and> maps_ok t" "detach_host X s now t view = Inr t'"
    with detach_host_same_groups [of t X s now view t'] same_groups_trans show "same_groups s t' \<and> maps_ok t'" by blast
  qed (use assms(1) in simp)
  have ids: "subtree_ids groups ?scope {i} = {j. descends groups ?scope i j}"
    "finite (subtree_ids groups ?scope {i})"
    using subtree_ids_descends [of "{i}" i groups ?scope] descends_self [of groups ?scope i] by fastforce+
  have "(\<forall>j. descends groups ?scope i j \<longrightarrow> buried (group_row s ?scope j) (group_row u ?scope j))
    \<and> (\<forall>sc j. \<not> (sc = ?scope \<and> descends groups sc i j) \<longrightarrow> group_row u sc j = group_row t sc j)"
    using bury_groups_rows [OF b] st ids by (auto simp: same_groups_def)
  then have "(\<forall>j. descends groups ?scope i j \<longrightarrow> buried (group_row s ?scope j) (group_row s' ?scope j))
    \<and> (\<forall>sc j. \<not> (sc = ?scope \<and> descends groups sc i j) \<longrightarrow> group_row s' sc j = group_row s sc j)"
    using st finish_Inr(1) [OF f] by (simp add: same_groups_def)
  with checked_group_Inr [OF g] groups snap tok show ?thesis by (metis sum.inject(2))
qed

text \<open>The format promotion for groups happens only when confirmed, never lowers the state version,
  never touches hosts, groups or keys, and ends with the account on the group schema for shared
  groups.\<close>

theorem promote_effect:
  assumes "promote s scope confirmed now = Inr s'"
    and "\<And>a r. st_account s = Some a \<Longrightarrow> bt_get (acc_records a) account_meta_key = Some r \<Longrightarrow>
      as_object (r_payload (lr_record r)) \<noteq> None"
  shows "st_version s \<le> st_version s' \<and> GROUP_STATE_VERSION \<le> st_version s'
    \<and> st_local s' = st_local s \<and> st_spaces s' = st_spaces s
    \<and> (\<not> confirmed \<longrightarrow> s' = s) \<and> (scope \<noteq> HS_Local \<longrightarrow> account_group_enabled s')
    \<and> (scope = HS_Local \<longrightarrow> st_account s' = st_account s)"
proof -
  let ?t = "s\<lparr>st_version := max (st_version s) GROUP_STATE_VERSION\<rparr>"
  have en: "account_group_enabled ?t = account_group_enabled s" by (simp add: account_group_enabled_def)
  show ?thesis
  proof (cases "scope \<noteq> HS_Local \<and> \<not> account_group_enabled s")
    case True
    with assms(1) obtain a old row where c: confirmed and a: "st_account s = Some a"
      "bt_get (acc_records a) account_meta_key = Some old"
      and r: "ordered_record ?t ACCOUNT_META_ID
         (the (jset (r_payload (lr_record old)) (lit ''schema_version'') (JNumber (PosInt 4)))) False now
         [lr_record old] = Inr row"
      and s': "s' = ?t\<lparr>st_account := Some (a\<lparr>acc_records := bt_insert account_meta_key
         \<lparr>lr_record = row\<lparr>r_kind := RK_Meta\<rparr>, lr_seq = lr_seq old, lr_dirty = True\<rparr> (acc_records a)\<rparr>)\<rparr>"
      by (auto simp: promote_def Let_def en bind_eq_Some_conv)
    from assms(2) [OF a] obtain m where "as_object (r_payload (lr_record old)) = Some m" by auto
    then have "\<exists>v. jset (r_payload (lr_record old)) (lit ''schema_version'') (JNumber (PosInt 4)) = Some v"
      by (rule jset_object)
    then obtain v where v: "jset (r_payload (lr_record old)) (lit ''schema_version'') (JNumber (PosInt 4)) = Some v" ..
    have "account_group_enabled s'"
      using ordered_record_Inr(4,5) [OF r] v jget_jset [OF v]
      by (simp add: s' account_group_enabled_def)
    with c True show ?thesis by (simp add: s')
  next
    case False
    with assms(1) have "s' = ?t" "\<not> confirmed \<Longrightarrow> GROUP_STATE_VERSION \<le> st_version s"
      by (auto simp: promote_def Let_def en)
    with False en show ?thesis by (auto simp: max_def)
  qed
qed

theorem promote_effect_witness:
  "promote sample_state HS_Local True 5 = Inr (sample_state\<lparr>st_version := 4\<rparr>)
   \<and> st_version sample_state \<le> st_version (sample_state\<lparr>st_version := 4\<rparr>)"
proof -
  have p: "promote sample_state HS_Local True 5 = Inr (sample_state\<lparr>st_version := 4\<rparr>)"
    by (simp add: promote_def sample_state_def schema_defs)
  have "st_account sample_state = None" by (simp add: sample_state_def)
  with p promote_effect [OF p] show ?thesis by simp
qed

lemma put_host_get:
  "bt_get (host_records (put_host sc key row s) sc') key' = bt_get (host_records s sc') key'
   \<or> bt_get (host_records (put_host sc key row s) sc') key' = Some row"
proof (cases sc')
  case HS_Local
  then show ?thesis by (cases sc) (auto simp: put_host_def host_records_def)
next
  case (HS_Space i)
  then show ?thesis
    by (cases sc; cases "bt_get (st_spaces s) i") (auto simp: put_host_def host_records_def bt_at_def)
qed

definition unpinned :: "'a record_ext_scheme \<Rightarrow> sync_state \<Rightarrow> host_scope \<Rightarrow> rstr \<Rightarrow> bool" where
  "unpinned X s scope i \<longleftrightarrow> (\<exists>row p. bt_get (host_records s scope) (record_key RK_Host i) = Some row
     \<and> r_payload (lr_record row) = x_host_to_value X p \<and> hp_host_key p = None)"

lemma clear_pin_cases:
  assumes "clear_pin X old now t u = Inr t'"
  obtains (keep) "t' = t" "\<not> (hp_host_key (hr_payload (hv_host u)) \<noteq> None
         \<and> is_some_and (host_before old u) (\<lambda>v. hp_port (hv_effective_payload v) \<noteq> hp_port (hv_effective_payload u)))"
    | (clear) row p where
      "t' = put_host (hr_scope (hv_host u)) (record_key RK_Host (hr_id (hv_host u))) row t"
      "r_payload (lr_record row) = x_host_to_value X p" "hp_host_key p = None"
  using assms
  by (fastforce simp: clear_pin_def Let_def cached_def split: if_splits)

lemma clear_pin_unpinned:
  assumes "clear_pin X old now t u = Inr t'" and "unpinned X t sc i"
  shows "unpinned X t' sc i"
  using assms(1)
proof (cases rule: clear_pin_cases)
  case keep
  then show ?thesis using assms(2) by simp
next
  case (clear row p)
  with assms(2) put_host_get show ?thesis unfolding unpinned_def by metis
qed

lemma clear_pin_hit:
  assumes "clear_pin X old now t u = Inr t'" and "hp_host_key (hr_payload (hv_host u)) \<noteq> None"
    and "host_before old u = Some w" and "hp_port (hv_effective_payload w) \<noteq> hp_port (hv_effective_payload u)"
    and "scope_open t (hr_scope (hv_host u))"
  shows "unpinned X t' (hr_scope (hv_host u)) (hr_id (hv_host u))"
  using assms(1)
proof (cases rule: clear_pin_cases)
  case keep
  then show ?thesis using assms by simp
next
  case (clear row p)
  with assms(5) show ?thesis unfolding unpinned_def by (auto simp: put_host_records)
qed

text \<open>A group edit that changes the effective port of a pinned host removes the pin in the same
  step: after a successful edit every such host is stored without a pinned key.\<close>

theorem group_edit_clears_pins:
  assumes "finish X before s scope now = Inr s'"
    and "snapshot X before = Inr old" and "snapshot X s = Inr new" and "v \<in> set (snap_hosts new)"
    and "host_before (snap_hosts old) v = Some w"
    and "hp_port (hv_effective_payload w) \<noteq> hp_port (hv_effective_payload v)"
    and "hp_host_key (hr_payload (hv_host v)) \<noteq> None"
    and "scope_open s (hr_scope (hv_host v))"
  shows "unpinned X s' (hr_scope (hv_host v)) (hr_id (hv_host v))"
proof -
  let ?step = "clear_pin X (snap_hosts old) now" and ?sc = "hr_scope (hv_host v)"
  from assms(4) obtain pre post where h: "snap_hosts new = pre @ v # post" by (meson split_list)
  from assms(1-3) have "for_each ?step s (snap_hosts new) = Inr s'" by (auto simp: finish_def)
  then obtain t t' where t: "for_each ?step s pre = Inr t" "?step t v = Inr t'" "for_each ?step t' post = Inr s'"
    by (auto simp: h for_each_append)
  have "scope_open t ?sc"
    using t(1) assms(8) by (rule for_each_inv) (auto dest!: clear_pin_same_groups simp: same_groups_def)
  with clear_pin_hit [OF t(2) assms(7,5,6)] have "unpinned X t' ?sc (hr_id (hv_host v))" by simp
  with t(3) show ?thesis by (rule for_each_inv) (auto intro: clear_pin_unpinned)
qed

section \<open>A pinned host in a group\<close>

definition pin_payload :: host_payload where
  "pin_payload = sample_payload\<lparr>hp_schema := 3, hp_group_id := Some (replicate 16 49), hp_inherit := [IF_Port],
     hp_host_key := Some \<lparr>hk_algorithm = [], hk_public_key = [], hk_fingerprint = [], hk_pinned_at_ms = 0,
       hk_pinned_by_device_id = replicate 32 48\<rparr>\<rparr>"

definition port_defaults :: "u16 option \<Rightarrow> group_defaults" where
  "port_defaults port = \<lparr>gd_port = port, gd_user = None, gd_authentication = None, gd_jump = None,
     gd_keepalive_secs = None, gd_keepalive_max_missed = None, gd_connect_timeout_secs = None\<rparr>"

text \<open>A text form that stores a host as pinned and a group by its port only.\<close>

definition pin_rext :: record_ext where
  "pin_rext = sample_rext\<lparr>x_host_from_value := (\<lambda>v. Inr pin_payload),
     x_host_to_value := (\<lambda>p. JObject [(lit ''schema'', JNumber (PosInt 3))]),
     x_group_from_value := (\<lambda>v. Inr \<lparr>gp_schema = 1, gp_name = lit ''g'', gp_parent_id = None,
       gp_defaults = port_defaults (map_option ucast (get_u64 v (lit ''port'')))\<rparr>),
     x_from_openssh := (\<lambda>l. Some \<lparr>pk_algorithm = [], pk_fingerprint = [], pk_key_data = []\<rparr>)\<rparr>"

definition grp_row :: "u64 \<Rightarrow> local_record" where
  "grp_row port = \<lparr>lr_record = \<lparr>r_kind = RK_Group, r_id = replicate 16 49, r_version = port, r_updated_at_ms = 1,
       r_device_id = replicate 32 48, r_deleted = False,
       r_payload = JObject [(lit ''port'', JNumber (PosInt port))]\<rparr>, lr_seq = 0, lr_dirty = False\<rparr>"

definition grp_state :: "(rstr, local_record) btm \<Rightarrow> local_record \<Rightarrow> sync_state" where
  "grp_state hosts row = sample_state\<lparr>st_version := 4, st_local := (st_local sample_state)\<lparr>
     ls_hosts := hosts, ls_groups := [(record_key RK_Group (replicate 16 49), row)]\<rparr>\<rparr>"

definition pin_row :: local_record where
  "pin_row = \<lparr>lr_record = \<lparr>r_kind = RK_Host, r_id = sample_id, r_version = 1, r_updated_at_ms = 1,
       r_device_id = replicate 32 48, r_deleted = False,
       r_payload = JObject [(lit ''schema'', JNumber (PosInt 3))]\<rparr>, lr_seq = 0, lr_dirty = False\<rparr>"

abbreviation pin_state :: "u64 \<Rightarrow> sync_state" where
  "pin_state p \<equiv> grp_state [(record_key RK_Host sample_id, pin_row)] (grp_row p)"

definition pin_group :: "u64 \<Rightarrow> group_record" where
  "pin_group port = \<lparr>gr_id = replicate 16 49, gr_scope = HS_Local,
     gr_payload = \<lparr>gp_schema = 1, gp_name = lit ''g'', gp_parent_id = None,
       gp_defaults = port_defaults (Some (ucast port))\<rparr>\<rparr>"

definition pin_host :: host_record where
  "pin_host = \<lparr>hr_id = sample_id, hr_scope = HS_Local, hr_payload = pin_payload\<rparr>"

lemma pin_group_valid: "p = 22 \<or> p = 23 \<Longrightarrow> validate_group (pin_group p) = Inr ()"
  by (auto simp: validate_group_def pin_group_def port_defaults_def schema_def schema_defs hex_ids trim_def
      trim_start_def trim_end_def str_simps Let_def)

lemma pin_group_of:
  assumes "p = 22 \<or> p = 23"
  shows "group_of pin_rext (grp_state hosts (grp_row p)) HS_Local (replicate 16 49) = Inr (pin_group p)"
  using assms pin_group_valid [of p]
  by (auto simp: group_of_def group_records_def grp_state_def grp_row_def pin_row_def Let_def bt_get_def validate_cache_def decode_group_def
      hex_ids str_simps pin_rext_def pin_group_def)

lemma pin_path:
  assumes "p = 22 \<or> p = 23"
  shows "ancestor_path pin_rext (grp_state hosts (grp_row p)) HS_Local (Some (replicate 16 49)) = Inr [pin_group p]"
  unfolding ancestor_path_def
  by (subst ancestor_walk.simps, simp only: option.case pin_group_of [OF assms], simp,
      subst ancestor_walk.simps) (simp add: pin_group_def)

definition pin_view :: "u64 \<Rightarrow> host_view" where
  "pin_view p = \<lparr>hv_host = pin_host, hv_effective_payload = pin_payload\<lparr>hp_port := ucast p\<rparr>,
     hv_inherited_from = [(lit ''port'', replicate 16 49)], hv_group_error = None,
     hv_revision = \<lparr>rv_version = 1, rv_updated_at_ms = 1, rv_device_id = replicate 32 48\<rparr>, hv_readiness = HR_Ready\<rparr>"

lemma pin_host_valid:
  fixes p :: u64
  assumes "p = 22 \<or> p = 23"
  shows "validate_host pin_rext (pin_host\<lparr>hr_payload := pin_payload\<lparr>hp_port := ucast p\<rparr>\<rparr>) = Inr ()"
    and "host_shape_ok pin_rext pin_host"
proof -
  have "host_shape_ok pin_rext pin_host" "host_shape_ok pin_rext (pin_host\<lparr>hr_payload := pin_payload\<lparr>hp_port := ucast p\<rparr>\<rparr>)"
    using assms by (auto simp: host_shape_ok_def pin_host_def pin_payload_def sample_payload_def sample_id_def schema_defs
      hex_ids scope_ok_def alias_char_def starts_with_def str_simps check_pin_def parse_public_def pin_rext_def)
  then show "validate_host pin_rext (pin_host\<lparr>hr_payload := pin_payload\<lparr>hp_port := ucast p\<rparr>\<rparr>) = Inr ()"
    "host_shape_ok pin_rext pin_host"
    by (simp_all add: validate_host_iff pin_host_def pin_payload_def sample_payload_def MAX_JUMPS_def)
qed

lemma pin_effective:
  assumes "p = 22 \<or> p = 23"
  shows "resolve_effective pin_rext (pin_state p) pin_host
    = Inr \<lparr>ef_payload = pin_payload\<lparr>hp_port := ucast p\<rparr>, ef_inherited_from = [(lit ''port'', replicate 16 49)]\<rparr>"
proof -
  have "hp_group_id (hr_payload pin_host) = Some (replicate 16 49)" "hr_scope pin_host = HS_Local"
    "hp_inherit (hr_payload pin_host) = [IF_Port]" "hr_payload pin_host = pin_payload"
    by (simp_all add: pin_host_def pin_payload_def)
  moreover have "inherit [pin_group p] gd_port 22 = (ucast p, replicate 16 49)"
    by (simp add: inherit_def pin_group_def port_defaults_def)
  ultimately show ?thesis
    using pin_host_valid(1) [OF assms]
    by (simp add: resolve_effective_def pin_path [OF assms] inherit_field_def bt_empty_def)
qed

lemma pin_collect:
  assumes "p = 22 \<or> p = 23"
  shows "collect_hosts pin_rext (pin_state p)
    = Inr [row_view HS_Local None (pin_row) pin_host]"
proof -
  have rows: "ls_hosts (st_local (pin_state p)) = [(record_key RK_Host sample_id, pin_row)]"
    "st_spaces (pin_state p) = []" by (simp_all add: grp_state_def grp_row_def pin_row_def sample_state_def)
  have k: "r_kind (lr_record (pin_row)) = RK_Host" by (simp add: grp_state_def grp_row_def pin_row_def)
  have d: "decode_host pin_rext (lr_record (pin_row)) HS_Local = Inr (Live pin_host)"
    unfolding pin_host_def
    by (rule decode_host_stamped)
      (use pin_host_valid(2) [OF assms] in \<open>simp_all add: pin_host_def grp_state_def grp_row_def pin_row_def pin_rext_def pin_payload_def bt_get_def\<close>)
  then have "row_ok pin_rext HS_Local (record_key RK_Host sample_id, pin_row)"
    by (simp add: row_ok_def) (simp add: validate_cache_def grp_state_def grp_row_def pin_row_def hex_ids str_simps)
  then show ?thesis
    unfolding collect_hosts_Inr by (subst (1 2) rows(1)) (simp add: row_views_def d k rows(2))
qed

lemma pin_groups:
  assumes "p = 22 \<or> p = 23"
  shows "list_groups pin_rext (grp_state hosts (grp_row p)) = Inr [\<lparr>gv_group = pin_group p,
     gv_revision = \<lparr>rv_version = p, rv_updated_at_ms = 1, rv_device_id = replicate 32 48\<rparr>, gv_group_error = None\<rparr>]"
proof -
  let ?row = "hd (ls_groups (st_local (grp_state hosts (grp_row p))))"
  let ?view = "\<lparr>gv_group = pin_group p,
     gv_revision = \<lparr>rv_version = p, rv_updated_at_ms = 1, rv_device_id = replicate 32 48\<rparr>, gv_group_error = None\<rparr>"
  have p: "p \<noteq> 0" "gr_id (pin_group p) = replicate 16 49" using assms by (auto simp: pin_group_def)
  then have "validate_cache (fst ?row) (snd ?row) = Inr ()"
    by (simp add: validate_cache_def grp_state_def grp_row_def pin_row_def hex_ids str_simps)
  moreover have "decode_group pin_rext (lr_record (snd ?row)) HS_Local = Inr (Live (pin_group p))"
    using pin_group_valid [OF assms]
    by (simp add: decode_group_def grp_state_def grp_row_def pin_row_def pin_group_def hex_ids str_simps pin_rext_def bt_get_def)
  moreover have "revision (lr_record (snd ?row)) = gv_revision ?view" by (simp add: revision_def grp_state_def grp_row_def pin_row_def)
  ultimately have "group_row_view pin_rext (grp_state hosts (grp_row p)) HS_Local [] ?row = Inr [?view]"
    using pin_path [OF assms] p(2) by (simp add: group_row_view_def err_text_def split_beta)
  moreover have "filter (\<lambda>(_, r). r_kind (lr_record r) = RK_Group) (ls_groups (st_local (grp_state hosts (grp_row p)))) = [?row]"
    "group_scopes (grp_state hosts (grp_row p)) = [HS_Local]"
    by (simp_all add: group_scopes_def grp_state_def grp_row_def pin_row_def sample_state_def)
  ultimately show ?thesis
    by (simp add: list_groups_def group_records_def)
qed

lemma pin_route: "route_indices [pin_view p] sample_id = Inr [0]"
proof -
  have i: "host_index [pin_view p] sample_id = Inr 0" by (simp add: host_index_Inr pin_view_def pin_host_def)
  show ?thesis
    by (simp add: route_indices_def i append_indices.simps add_index_def MAX_JUMPS_def)
      (simp add: pin_view_def pin_payload_def sample_payload_def add_index_def MAX_JUMPS_def)
qed

lemma pin_snapshot:
  assumes "p = 22 \<or> p = 23"
  shows "\<exists>groups. snapshot pin_rext (pin_state p) = Inr \<lparr>snap_hosts = [pin_view p], snap_keys = [], snap_groups = groups\<rparr>"
proof -
  let ?raw = "row_view HS_Local None (pin_row) pin_host"
  have a: "apply_effective pin_rext (pin_state p) ?raw = pin_view p"
    by (simp add: apply_effective_def pin_effective [OF assms] row_view_def)
      (simp add: pin_view_def revision_def grp_state_def grp_row_def pin_row_def)
  have "view_readiness [pin_view p] [] (pin_view p) = HR_Ready"
    using pin_route [of p] by (simp add: view_readiness_def alias_conflict_def needs_import_review_def pin_view_def pin_host_def
        pin_payload_def sample_payload_def)
  moreover have "(pin_view p)\<lparr>hv_readiness := HR_Ready\<rparr> = pin_view p" by (simp add: pin_view_def)
  moreover have "validate_header (pin_state p) = Inr ()" "list_keys pin_rext (pin_state p) = Inr []"
    by (simp_all add: validate_header_def list_keys_def grp_state_def grp_row_def pin_row_def sample_state_def hex_ids schema_defs
      bt_keys_def str_simps bt_values_def bt_empty_def)
  ultimately show ?thesis
    by (simp add: snapshot_def pin_collect [OF assms] pin_groups [OF assms] a)
qed

lemma pin_transition:
  assumes "p = 22 \<or> p = 23"
  shows "validate_transition pin_rext (pin_state 22) (pin_state p) = Inr ()"
proof -
  have v: "hv_group_error (pin_view p) = None" "hr_id (hv_host (pin_view p)) = sample_id"
    by (simp_all add: pin_view_def pin_host_def)
  have "transition_check os [pin_view p] (pin_view p) = Inr ()" for os
    by (simp add: transition_check_def duplicate_id_def alias_conflict_def pin_route v Let_def)
  with pin_snapshot [of 22] pin_snapshot [OF assms] show ?thesis by (auto simp: validate_transition_def)
qed

lemma pin_finish: "is_ok (finish pin_rext (pin_state 22) (pin_state 23) HS_Local 9)"
proof -
  have g: "gr_scope (pin_group 23) = HS_Local" "gr_id (pin_group 23) = replicate 16 49" by (simp_all add: pin_group_def)
  have "validate_groups pin_rext (pin_state 23) HS_Local = Inr ()"
    by (simp add: validate_groups_def pin_groups pin_path g)
  moreover have "is_ok (clear_pin pin_rext [pin_view 22] 9 (pin_state 23) (pin_view 23))"
    by (simp add: clear_pin_def Let_def host_records_def is_ok_iff)
      (simp add: grp_state_def grp_row_def pin_row_def pin_view_def pin_host_def bt_at_def bt_get_def checked_add_def)
  ultimately show ?thesis
    using pin_snapshot [of 22] pin_snapshot [of 23] by (auto simp: finish_def pin_transition is_ok_iff)
qed

theorem group_edit_clears_pins_witness:
  "\<exists>s'. finish pin_rext (pin_state 22) (pin_state 23) HS_Local 9 = Inr s' \<and> unpinned pin_rext s' HS_Local sample_id"
proof -
  from pin_finish obtain s' where f: "finish pin_rext (pin_state 22) (pin_state 23) HS_Local 9 = Inr s'"
    by (auto simp: is_ok_iff)
  from pin_snapshot obtain g h where
    s: "snapshot pin_rext (pin_state 22) = Inr \<lparr>snap_hosts = [pin_view 22], snap_keys = [], snap_groups = g\<rparr>"
    "snapshot pin_rext (pin_state 23) = Inr \<lparr>snap_hosts = [pin_view 23], snap_keys = [], snap_groups = h\<rparr>"
    by blast
  have "unpinned pin_rext s' (hr_scope (hv_host (pin_view 23))) (hr_id (hv_host (pin_view 23)))"
    by (rule group_edit_clears_pins [OF f s, where w = "pin_view 22"])
      (simp_all add: host_before_def pin_view_def pin_host_def pin_payload_def scope_open_def)
  with f show ?thesis by (simp add: pin_view_def pin_host_def)
qed

text \<open>The effective settings of the pinned host come from its group.\<close>

theorem effective_settings_witness:
  "\<exists>e. resolve_effective pin_rext (pin_state 23) pin_host = Inr e \<and> hp_hostname (ef_payload e) = lit ''h''
     \<and> hp_port (ef_payload e) = 23"
proof -
  let ?e = "\<lparr>ef_payload = pin_payload\<lparr>hp_port := ucast (23 :: u64)\<rparr>,
     ef_inherited_from = [(lit ''port'', replicate 16 49)]\<rparr>"
  have e: "resolve_effective pin_rext (pin_state 23) pin_host = Inr ?e" by (rule pin_effective) simp
  from effective_settings [OF e] have "hp_hostname (ef_payload ?e) = hp_hostname (hr_payload pin_host)" by blast
  with e show ?thesis by (simp add: pin_host_def pin_payload_def sample_payload_def)
qed

section \<open>Deleting a group\<close>

definition buried_row :: local_record where
  "buried_row = \<lparr>lr_record = (lr_record (grp_row 22))\<lparr>r_version := 23, r_updated_at_ms := 9, r_deleted := True,
     r_payload := JNull\<rparr>, lr_seq = 0, lr_dirty = False\<rparr>"

lemma no_hosts: "collect_hosts pin_rext (grp_state [] row) = Inr []" "validate_header (grp_state [] row) = Inr ()"
  "list_keys pin_rext (grp_state [] row) = Inr []"
proof -
  have "ls_hosts (st_local (grp_state [] row)) = []" "st_spaces (grp_state [] row) = []"
    by (simp_all add: grp_state_def sample_state_def)
  then show "collect_hosts pin_rext (grp_state [] row) = Inr []" unfolding collect_hosts_Inr by simp
  show "validate_header (grp_state [] row) = Inr ()" "list_keys pin_rext (grp_state [] row) = Inr []"
    by (simp_all add: validate_header_def list_keys_def grp_state_def sample_state_def hex_ids schema_defs
      bt_keys_def str_simps bt_values_def bt_empty_def)
qed

lemma buried_groups: "list_groups pin_rext (grp_state [] buried_row) = Inr []"
proof -
  let ?row = "hd (ls_groups (st_local (grp_state [] buried_row)))"
  have "validate_cache (fst ?row) (snd ?row) = Inr ()"
    by (simp add: validate_cache_def grp_state_def grp_row_def buried_row_def hex_ids str_simps)
  moreover have "decode_group pin_rext (lr_record (snd ?row)) HS_Local = Inr (Tombstone (replicate 16 49))"
    by (simp add: decode_group_def grp_state_def grp_row_def buried_row_def hex_ids str_simps)
  ultimately have "group_row_view pin_rext (grp_state [] buried_row) HS_Local [] ?row = Inr []"
    by (simp add: group_row_view_def split_beta)
  moreover have "filter (\<lambda>(_, r). r_kind (lr_record r) = RK_Group) (ls_groups (st_local (grp_state [] buried_row))) = [?row]"
    "group_scopes (grp_state [] buried_row) = [HS_Local]"
    by (simp_all add: group_scopes_def grp_state_def sample_state_def buried_row_def grp_row_def)
  ultimately show ?thesis by (simp add: list_groups_def group_records_def)
qed

lemma sample_delete_group:
  "delete_group pin_rext (grp_state [] (grp_row 22)) (replicate 16 49)
     \<lparr>rv_version = 22, rv_updated_at_ms = 1, rv_device_id = replicate 32 48\<rparr> (Some []) 9
   = Inr (grp_state [] buried_row)"
proof -
  let ?s = "grp_state [] (grp_row 22)" and ?g = "pin_group 22"
  let ?v = "\<lparr>gv_group = ?g, gv_revision = \<lparr>rv_version = 22, rv_updated_at_ms = 1, rv_device_id = replicate 32 48\<rparr>,
    gv_group_error = None\<rparr>"
  have groups: "list_groups pin_rext ?s = Inr [?v]" by (rule pin_groups) simp
  have g: "gr_id ?g = replicate 16 49" "gr_scope ?g = HS_Local" "gp_parent_id (gr_payload ?g) = None"
    by (simp_all add: pin_group_def)
  have of: "group_of pin_rext ?s HS_Local (replicate 16 49) = Inr ?g" by (rule pin_group_of) simp
  have sub: "subtree_ids [?v] HS_Local {replicate 16 49} = {replicate 16 49}"
    by (subst subtree_ids.simps) (simp add: sweep_children_def absorb_child_def g)
  have bury: "bury_group pin_rext ?s HS_Local 9 ?s (replicate 16 49) = Inr (grp_state [] buried_row)"
    by (simp add: bury_group_def of group_records_def)
      (simp add: grp_state_def grp_row_def bt_at_def bt_get_def ordered_record_def checked_add_def set_group_records_def
        sample_state_def cached_def buried_row_def word_le_nat_alt)
  have fin: "finish pin_rext ?s (grp_state [] buried_row) HS_Local 9 = Inr (grp_state [] buried_row)"
    by (simp add: finish_def validate_groups_def buried_groups validate_transition_def snapshot_def no_hosts groups)
  have tok: "deletion_snapshot_token pin_rext snap = Inr []" for snap
    by (simp add: deletion_snapshot_token_def pin_rext_def sample_rext_def record_ext.defs crypto_ext.defs)
  show ?thesis
    by (simp add: delete_group_def checked_group_def groups g of ensure_scope_def snapshot_def no_hosts tok sub bury fin)
qed

theorem delete_group_effect_witness:
  "buried (Some (grp_row 22)) (group_row (grp_state [] buried_row) HS_Local (replicate 16 49))"
proof -
  have m: "maps_ok (grp_state [] (grp_row 22))"
    by (simp add: maps_ok_def grp_state_def sample_state_def bt_inv_def)
  obtain g groups where g: "list_groups pin_rext (grp_state [] (grp_row 22)) = Inr groups" "g \<in> set groups"
    and b: "\<forall>j. descends groups (gr_scope (gv_group g)) (replicate 16 49) j \<longrightarrow>
         buried (group_row (grp_state [] (grp_row 22)) (gr_scope (gv_group g)) j)
           (group_row (grp_state [] buried_row) (gr_scope (gv_group g)) j)"
    using delete_group_effect [OF m sample_delete_group] by blast
  have "groups = [\<lparr>gv_group = pin_group 22,
     gv_revision = \<lparr>rv_version = 22, rv_updated_at_ms = 1, rv_device_id = replicate 32 48\<rparr>, gv_group_error = None\<rparr>]"
    using g(1) pin_groups [of 22 "[]"] by simp
  then have sc: "gr_scope (gv_group g) = HS_Local" using g(2) by (simp add: pin_group_def)
  have "group_row (grp_state [] (grp_row 22)) HS_Local (replicate 16 49) = Some (grp_row 22)"
    by (simp add: group_row_def group_records_def grp_state_def bt_get_def)
  with b sc descends_self show ?thesis by metis
qed

end
