(* ===== verification/Record_Library.thy ===== *)
theory Record_Library
  imports State_Validity Record_Groups
begin

text \<open>
  The library a device shares (\<open>sync/record_library.rs\<close> and \<open>sync/record_library/review.rs\<close>): which
  space holds it, where new hosts go, how the records of this device are moved into it, and the
  review of conflicting names that precedes the move. The digest of a review and the quoted form of
  a string in a message are external.
\<close>

section \<open>The library space\<close>

definition LIBRARY_SLUG :: rstr where
  "LIBRARY_SLUG = lit ''sshelter-library''"

definition DEVICE_FLAG :: rstr where
  "DEVICE_FLAG = lit ''sync_library''"

definition library_enabled :: "sync_state \<Rightarrow> bool" where
  "library_enabled s \<longleftrightarrow>
     is_some_and (Option.bind (st_account s) (\<lambda>a. bt_get (acc_records a) (record_key RK_Device (st_device_id s))))
       (\<lambda>r. \<not> r_deleted (lr_record r)
            \<and> Option.bind (jget (r_payload (lr_record r)) DEVICE_FLAG) as_bool = Some True)"

text \<open>\<open>Iterator::min\<close>.\<close>

fun iter_min :: "'a::linorder list \<Rightarrow> 'a option" where
  "iter_min [] = None"
| "iter_min (x # xs) = Some (foldl min x xs)"

definition is_library_row :: "local_record \<Rightarrow> bool" where
  "is_library_row r \<longleftrightarrow> r_kind (lr_record r) = RK_Space \<and> \<not> r_deleted (lr_record r)
     \<and> get_str (r_payload (lr_record r)) (lit ''slug'') = Some LIBRARY_SLUG"

definition library_space_id :: "sync_state \<Rightarrow> rstr option" where
  "library_space_id s =
     Option.bind (st_account s) (\<lambda>a.
       iter_min (map (\<lambda>r. r_id (lr_record r)) (filter is_library_row (bt_values (acc_records a)))))"

definition creation_scope :: "'a record_ext_scheme \<Rightarrow> sync_state \<Rightarrow> repository_error + host_scope" where
  "creation_scope X s =
     (if \<not> library_enabled s then Inr HS_Local
      else
        rbind (ok_or (RE_SpaceUnavailable (lit ''library'')) (library_space_id s)) (\<lambda>i.
        let scope = HS_Space i in
        rbind (ensure_scope X s scope) (\<lambda>_. Inr scope)))"

section \<open>Moving the records of this device\<close>

text \<open>Rows of the former format that stay sealed: readable, of the old alias form, and not shadowing
  any typed host.\<close>

definition known_host_ids :: "sync_state \<Rightarrow> rstr list" where
  "known_host_ids s =
     map (\<lambda>r. r_id (lr_record r)) (filter (\<lambda>r. r_kind (lr_record r) = RK_Host)
       (bt_values (ls_hosts (st_local s))
        @ concat (map (\<lambda>sp. bt_values (sp_records sp)) (bt_values (st_spaces s)))))"

definition unread_host :: "sealed_record \<Rightarrow> bool" where
  "unread_host r \<longleftrightarrow> e_kind (sr_envelope r) = lit ''host'' \<and> sr_public_identity r = None"

definition retained_in_space :: "'a merge_ext_scheme \<Rightarrow> rstr list \<Rightarrow> account_state \<Rightarrow> chain_keys
    \<Rightarrow> rstr \<times> space_state \<Rightarrow> (rstr \<times> rstr) list" where
  "retained_in_space X host_ids account keys kv =
     (case kv of (i, space) \<Rightarrow>
        if \<not> list_ex unread_host (bt_values (sp_sealed space)) then []
        else
          (case space_keys X account keys i of
             Inr (Some child) \<Rightarrow>
               map (\<lambda>(wire, _). (i, wire))
                 (filter (\<lambda>(wire, row). unread_host row \<and> is_legacy_alias_host X child (sr_envelope row)
                            \<and> \<not> list_ex (\<lambda>h. id_hash X child (lit ''host'') h = e_id_hash (sr_envelope row)) host_ids)
                   (sp_sealed space))
           | _ \<Rightarrow> []))"

definition retained_legacy_aliases :: "'a merge_ext_scheme \<Rightarrow> sync_state \<Rightarrow> chain_keys option \<Rightarrow> (rstr \<times> rstr) set" where
  "retained_legacy_aliases X s keys =
     (case (st_account s, keys) of
        (Some account, Some keys) \<Rightarrow>
          set (concat (map (retained_in_space X (known_host_ids s) account keys) (st_spaces s)))
      | _ \<Rightarrow> {})"

definition check_source_rows :: "record_kind \<Rightarrow> (rstr, local_record) btm \<Rightarrow> repository_error + unit" where
  "check_source_rows expected rows =
     for_all (\<lambda>(key, row).
       rbind (validate_cache key row) (\<lambda>_.
       fail_if (r_kind (lr_record row) \<noteq> expected)
         (repo_invalid (lit ''library'') (r_id (lr_record row))
            (lit ''record kind does not match its source collection'')))) rows"

text \<open>One space must neither hide an unreadable identity nor hold the identity already.\<close>

definition check_free_identity :: "(rstr \<times> rstr) set \<Rightarrow> sync_record \<Rightarrow> rstr \<times> space_state \<Rightarrow> repository_error + unit" where
  "check_free_identity retained rec kv =
     (case kv of (space_id, space) \<Rightarrow>
        rbind (fail_if (list_ex (\<lambda>(wire, r). e_kind (sr_envelope r) = as_str (r_kind rec)
                          \<and> sr_public_identity r = None \<and> (space_id, wire) \<notin> retained) (sp_sealed space))
                 (RE_SpaceUnavailable (lit ''Some synced record identities cannot be read''))) (\<lambda>_.
        fail_if (is_some_and (bt_get (sp_records space) (record_key (r_kind rec) (r_id rec)))
                   (\<lambda>r. \<not> r_deleted (lr_record r))
                 \<or> list_ex (\<lambda>(wire, r). e_kind (sr_envelope r) = as_str (r_kind rec)
                      \<and> (space_id, wire) \<notin> retained
                      \<and> (sr_public_identity r = None
                         \<or> is_some_and (sr_public_identity r) (\<lambda>p. vp_id p = r_id rec))) (sp_sealed space))
          (RE_Validation (VE_DuplicateId (r_id rec)))))"

definition put_local :: "record_kind \<Rightarrow> rstr \<Rightarrow> local_record \<Rightarrow> sync_state \<Rightarrow> sync_state" where
  "put_local kind key row s =
     (if kind = RK_Group
      then s\<lparr>st_local := (st_local s)\<lparr>ls_groups := bt_insert key row (ls_groups (st_local s))\<rparr>\<rparr>
      else s\<lparr>st_local := (st_local s)\<lparr>ls_hosts := bt_insert key row (ls_hosts (st_local s))\<rparr>\<rparr>)"

definition include_row :: "sync_state \<Rightarrow> rstr \<Rightarrow> u64 \<Rightarrow> (rstr \<times> rstr) set \<Rightarrow> sync_state \<Rightarrow> local_record
    \<Rightarrow> repository_error + sync_state" where
  "include_row s destination now retained next_state row =
     (let rec = lr_record row; kind = r_kind rec; key = record_key kind (r_id rec);
          existing = bt_get (sp_records (bt_at (st_spaces s) destination)) key in
      rbind (for_all (check_free_identity retained rec) (st_spaces s)) (\<lambda>_.
      rbind (case existing of None \<Rightarrow> Inr () | Some e \<Rightarrow> validate_cache key e) (\<lambda>_.
      rbind (ordered_record s (r_id rec) (r_payload rec) False now
               (rec # (case existing of None \<Rightarrow> [] | Some e \<Rightarrow> [lr_record e]))) (\<lambda>stamped.
      let stamped = stamped\<lparr>r_kind := kind\<rparr>;
          tombstone = stamped\<lparr>r_deleted := True, r_payload := JNull\<rparr>;
          next_state = put_local kind key (cached tombstone (lr_seq row) HS_Local) next_state in
      Inr (put_host (HS_Space destination) key
             (cached stamped (case existing of None \<Rightarrow> 0 | Some e \<Rightarrow> lr_seq e) (HS_Space destination))
             next_state)))))"

definition live_local_rows :: "sync_state \<Rightarrow> local_record list" where
  "live_local_rows s = filter (\<lambda>r. \<not> r_deleted (lr_record r))
     (bt_values (ls_groups (st_local s)) @ bt_values (ls_hosts (st_local s)))"

definition include_existing :: "'a merge_ext_scheme \<Rightarrow> 'u relay_env_scheme \<Rightarrow> sync_state \<Rightarrow> rstr \<Rightarrow> bool \<Rightarrow> u64 \<Rightarrow> chain_keys option
    \<Rightarrow> repository_error + sync_state" where
  "include_existing X U s destination confirmed now keys =
     (let scope = HS_Space destination in
      rbind (ensure_scope X s scope) (\<lambda>_.
      rbind (fail_if (\<not> sp_baseline_established (bt_at (st_spaces s) destination)
                      \<or> list_ex (\<lambda>sp. sp_selected sp \<and> \<not> sp_missing sp \<and> \<not> sp_baseline_established sp)
                          (bt_values (st_spaces s)))
               (RE_SpaceUnavailable (lit ''Finish downloading the library before including existing records''))) (\<lambda>_.
      rbind (check_source_rows RK_Group (ls_groups (st_local s))) (\<lambda>_.
      rbind (check_source_rows RK_Host (ls_hosts (st_local s))) (\<lambda>_.
      let rows = live_local_rows s in
      if rows = [] then Inr s
      else
        let retained = retained_legacy_aliases X s keys in
        rbind (if list_ex grouped_row rows then promote s scope confirmed now else Inr s) (\<lambda>next_state.
        rbind (for_each (include_row s destination now retained) next_state rows) (\<lambda>next_state.
        rbind (validate_groups X next_state scope) (\<lambda>_.
        rbind (publish_local X next_state keys now) (\<lambda>next_state.
        rbind (validate_transition X s next_state) (\<lambda>_.
        rbind (map_err RE_Validation (validate_state X U next_state)) (\<lambda>_.
        Inr next_state)))))))))))"

definition include_new_records :: "'a merge_ext_scheme \<Rightarrow> 'u relay_env_scheme \<Rightarrow> sync_state \<Rightarrow> chain_keys option \<Rightarrow> sync_state" where
  "include_new_records X U s keys =
     (if \<not> library_enabled s \<or> account_writes_blocked X s then s
      else if \<not> list_ex (\<lambda>r. \<not> r_deleted (lr_record r))
                (bt_values (ls_hosts (st_local s)) @ bt_values (ls_groups (st_local s))) then s
      else
        (case library_space_id s of
           None \<Rightarrow> s
         | Some i \<Rightarrow> (case include_existing X U s i False 0 keys of Inl _ \<Rightarrow> s | Inr next_state \<Rightarrow> next_state)))"

definition select_library_spaces :: "sync_state \<Rightarrow> sync_state" where
  "select_library_spaces s =
     (if library_enabled s
      then s\<lparr>st_spaces := map (\<lambda>(i, sp). (i, if sp_missing sp then sp else sp\<lparr>sp_selected := True\<rparr>)) (st_spaces s)\<rparr>
      else s)"

section \<open>Edits of a shared library\<close>

definition group_scope :: "'a record_ext_scheme \<Rightarrow> sync_state \<Rightarrow> rstr \<Rightarrow> repository_error + host_scope" where
  "group_scope X s i =
     rbind (list_groups X s) (\<lambda>groups.
     (case filter (\<lambda>g. gr_id (gv_group g) = i) groups of
        [g] \<Rightarrow>
          rbind (fail_if (gv_group_error g \<noteq> None) (RE_Group (lit ''Group is unavailable or needs review''))) (\<lambda>_.
          rbind (ensure_scope X s (gr_scope (gv_group g))) (\<lambda>_. Inr (gr_scope (gv_group g))))
      | _ \<Rightarrow> Inl (RE_Group (lit ''Group is unavailable or needs review''))))"

definition library_update_host :: "'a record_ext_scheme \<Rightarrow> sync_state \<Rightarrow> rstr \<Rightarrow> record_revision \<Rightarrow> host_payload \<Rightarrow> bool \<Rightarrow> u64
    \<Rightarrow> repository_error + sync_state" where
  "library_update_host X s i rv payload confirmed now =
     rbind (get_host X s i) (\<lambda>saved.
     rbind (if library_enabled s
            then (case hp_group_id payload of
                    None \<Rightarrow> Inr None
                  | Some g \<Rightarrow> rbind (group_scope X s g) (\<lambda>scope. Inr (Some scope)))
            else Inr None) (\<lambda>destination.
     rbind (case opt_filter (\<lambda>scope. scope \<noteq> hr_scope (hv_host saved)) destination of
              Some scope \<Rightarrow> move_host X s i rv scope now
            | None \<Rightarrow> Inr s) (\<lambda>moved.
     rbind (get_host X moved i) (\<lambda>current.
     let expected = (if hr_scope (hv_host current) \<noteq> hr_scope (hv_host saved) then hv_revision current else rv) in
     rbind (promote_for_host X moved (hr_scope (hv_host current)) payload confirmed now) (\<lambda>next_state.
     update_host X next_state i expected payload now)))))"

definition set_host_group :: "'a record_ext_scheme \<Rightarrow> sync_state \<Rightarrow> rstr \<Rightarrow> record_revision \<Rightarrow> rstr option \<Rightarrow> u64
    \<Rightarrow> repository_error + sync_state" where
  "set_host_group X s i rv group_id now =
     rbind (get_host X s i) (\<lambda>host.
     rbind (fail_if (hv_revision host \<noteq> rv) (RE_RevisionConflict i (hv_revision host))) (\<lambda>_.
     if hp_group_id (hr_payload (hv_host host)) = group_id then Inr s
     else
       rbind (case group_id of
                Some g \<Rightarrow>
                  rbind (list_groups X s) (\<lambda>groups.
                  (case filter (\<lambda>v. gr_id (gv_group v) = g) groups of
                     [v] \<Rightarrow>
                       rbind (fail_if (gv_group_error v \<noteq> None)
                                (RE_Group (lit ''Group is unavailable or needs review''))) (\<lambda>_.
                       Inr (gr_scope (gv_group v)))
                   | _ \<Rightarrow> Inl (RE_Group (lit ''Group is unavailable or needs review''))))
              | None \<Rightarrow> Inr (hr_scope (hv_host host))) (\<lambda>destination.
       rbind (if destination \<noteq> hr_scope (hv_host host) then move_host X s i rv destination now else Inr s)
         (\<lambda>next_state.
       rbind (get_host X next_state i) (\<lambda>current.
       let payload = materialize (hv_effective_payload current);
           payload = (if group_id \<noteq> None then payload\<lparr>hp_schema := GROUPED_HOST_SCHEMA\<rparr> else payload);
           payload = payload\<lparr>hp_group_id := group_id\<rparr> in
       update_host X next_state i (hv_revision current) payload now)))))"

end
