(* ===== verification/Library_Review.thy ===== *)
theory Library_Review
  imports Record_Library Repository_Properties
begin

text \<open>
  The review before the records of a device join the shared library
  (\<open>sync/record_library/review.rs\<close>): which names conflict, a free name suggested for each, and the
  guarded move that a review allows. The search for a suggestion counts up without an end in the
  code; here it stops after one try more than there are names, and it is shown that this is enough.
\<close>

section \<open>Failures\<close>

record library_failure =
  lf_code :: rstr
  lf_message :: rstr

definition library_failure :: "string \<Rightarrow> string \<Rightarrow> library_failure" where
  "library_failure code message = \<lparr>lf_code = lit code, lf_message = lit message\<rparr>"

text \<open>\<open>From<RepositoryError>\<close>. The quoted alias of the message is written by \<open>q\<close>.\<close>

definition failure_of_repository :: "(rstr \<Rightarrow> rstr) \<Rightarrow> repository_error \<Rightarrow> library_failure" where
  "failure_of_repository q e =
     (case e of
        RE_UpgradeConfirmationRequired \<Rightarrow> library_failure ''upgrade_required''
          ''Confirm that older clients have been updated or stopped before including Groups and inherited settings.''
      | RE_Validation (VE_AliasConflict alias _) \<Rightarrow>
          \<lparr>lf_code = lit ''name_conflict'',
           lf_message = lit ''Host alias '' @ q alias
             @ lit '' is already used. Review the proposed names and choose a unique alias.''\<rparr>
      | RE_Validation (VE_DuplicateId _) \<Rightarrow> library_failure ''identity_conflict''
          ''A local record and synced record share an identity. They have been kept separately; review the conflicting records before including the library.''
      | RE_SpaceUnavailable reason \<Rightarrow>
          (if reason = lit ''Finish downloading the library before including existing records'' then
             library_failure ''sync_data_unavailable''
               ''Library setup is waiting for a complete download of every selected sync space. Finish syncing, then retry. Existing records have been kept.''
           else if reason = lit ''Some synced record identities cannot be read'' then
             library_failure ''sync_data_unavailable''
               ''A synced host or Group has an unreadable or unsupported identity. Update Lunport on the devices in this chain and retry. Existing records and encrypted source data have been kept.''
           else
             library_failure ''sync_data_unavailable''
               ''Some library data has not been downloaded or cannot be read. Finish syncing or update Lunport, then retry. Existing records have been kept.'')
      | RE_Group _ \<Rightarrow> library_failure ''group_conflict''
          ''Group names or relationships conflict. Choose unique names under each parent and review unavailable parent Groups, then retry. Existing records have been kept.''
      | _ \<Rightarrow> library_failure ''record_validation''
          ''A host or Group needs review before it can be included. Check its fields, Group and jump-host references. Existing records have been kept.'')"

section \<open>Names\<close>

datatype name_kind = NK_Host | NK_Group

fun name_record_kind :: "name_kind \<Rightarrow> record_kind" where
  "name_record_kind NK_Host = RK_Host"
| "name_record_kind NK_Group = RK_Group"

fun name_field :: "name_kind \<Rightarrow> rstr" where
  "name_field NK_Host = lit ''alias''"
| "name_field NK_Group = lit ''name''"

record name_conflict =
  nc_kind :: name_kind
  nc_id :: rstr
  nc_current_name :: rstr
  nc_suggested_name :: rstr

record rename_edit =
  rn_kind :: name_kind
  rn_id :: rstr
  rn_name :: rstr

record library_review =
  lrv_token :: rstr
  lrv_renames :: "rename_edit list"

record library_preview =
  lpv_token :: rstr
  lpv_conflicts :: "name_conflict list"
  lpv_local_hosts :: nat
  lpv_local_groups :: nat

text \<open>What a review is bound to: everything the inclusion depends on, without acknowledgements.\<close>

record token_space =
  ts_selected :: bool
  ts_missing :: bool
  ts_baseline :: bool
  ts_records :: "sync_record list"
  ts_sealed :: "sealed_record list"

record token_view =
  tv_destination :: rstr
  tv_device_id :: rstr
  tv_version :: u32
  tv_account :: "(rstr \<times> sync_record option) option"
  tv_local :: "sync_record list"
  tv_spaces :: "(rstr, token_space) btm"

definition token_view_of :: "sync_state \<Rightarrow> rstr \<Rightarrow> token_view" where
  "token_view_of s destination =
     \<lparr>tv_destination = destination, tv_device_id = st_device_id s, tv_version = st_version s,
      tv_account = map_option (\<lambda>a. (acc_chain_id a, map_option lr_record (bt_get (acc_records a) account_meta_key)))
        (st_account s),
      tv_local = map lr_record (bt_values (ls_groups (st_local s)) @ bt_values (ls_hosts (st_local s))),
      tv_spaces = map (\<lambda>(i, sp). (i,
        \<lparr>ts_selected = sp_selected sp, ts_missing = sp_missing sp, ts_baseline = sp_baseline_established sp,
         ts_records = map lr_record (filter (\<lambda>r. r_kind (lr_record r) \<in> {RK_Host, RK_Group}) (bt_values (sp_records sp))),
         ts_sealed = filter (\<lambda>r. e_kind (sr_envelope r) \<in> {lit ''host'', lit ''group''}) (bt_values (sp_sealed sp))\<rparr>))
        (st_spaces s)\<rparr>"

definition token :: "(token_view \<Rightarrow> rstr) \<Rightarrow> sync_state \<Rightarrow> rstr \<Rightarrow> rstr" where
  "token digest s destination = digest (token_view_of s destination)"

text \<open>The names taken so far: aliases, and group names under their parent.\<close>

type_synonym taken = "rstr set \<times> (rstr option \<times> rstr) set"

definition row_str :: "local_record \<Rightarrow> string \<Rightarrow> rstr option" where
  "row_str row field = get_str (r_payload (lr_record row)) (lit field)"

definition take_target_name :: "taken \<Rightarrow> local_record \<Rightarrow> taken" where
  "take_target_name t row =
     (if r_deleted (lr_record row) then t
      else if r_kind (lr_record row) = RK_Host then
        (case row_str row ''alias'' of None \<Rightarrow> t | Some name \<Rightarrow> (insert name (fst t), snd t))
      else if r_kind (lr_record row) = RK_Group then
        (case row_str row ''name'' of None \<Rightarrow> t
         | Some name \<Rightarrow> (fst t, insert (row_str row ''parent_id'', name) (snd t)))
      else t)"

definition is_taken :: "taken \<Rightarrow> name_kind \<Rightarrow> rstr option \<Rightarrow> rstr \<Rightarrow> bool" where
  "is_taken t kind parent name = (case kind of NK_Host \<Rightarrow> name \<in> fst t | NK_Group \<Rightarrow> (parent, name) \<in> snd t)"

definition take_name :: "taken \<Rightarrow> name_kind \<Rightarrow> rstr option \<Rightarrow> rstr \<Rightarrow> taken" where
  "take_name t kind parent name =
     (case kind of NK_Host \<Rightarrow> (insert name (fst t), snd t) | NK_Group \<Rightarrow> (fst t, insert (parent, name) (snd t)))"

definition note_local_name :: "name_kind \<Rightarrow> taken \<times> name_conflict list \<Rightarrow> local_record \<Rightarrow> taken \<times> name_conflict list" where
  "note_local_name kind acc row =
     (case acc of (t, out) \<Rightarrow>
        if r_deleted (lr_record row) then acc
        else
          (case get_str (r_payload (lr_record row)) (name_field kind) of
             None \<Rightarrow> acc
           | Some name \<Rightarrow>
               let parent = row_str row ''parent_id'' in
               if is_taken t kind parent name
               then (t, out @ [\<lparr>nc_kind = kind, nc_id = r_id (lr_record row), nc_current_name = name,
                                 nc_suggested_name = []\<rparr>])
               else (take_name t kind parent name, out)))"

definition suggestion :: "name_kind \<Rightarrow> rstr \<Rightarrow> nat \<Rightarrow> rstr" where
  "suggestion kind current n =
     (case kind of
        NK_Host \<Rightarrow> current @ lit ''-'' @ dec n
      | NK_Group \<Rightarrow>
          (let tail = lit '' ('' @ dec n @ lit '')'' in
           trim_end (take (128 - length tail) current) @ tail))"

definition taken_count :: "taken \<Rightarrow> nat" where
  "taken_count t = card (fst t) + card (snd t)"

definition first_free :: "taken \<Rightarrow> name_kind \<Rightarrow> rstr option \<Rightarrow> rstr \<Rightarrow> nat option" where
  "first_free t kind parent current =
     find (\<lambda>n. \<not> is_taken t kind parent (suggestion kind current n)) [2..<taken_count t + 3]"

definition local_rows_of :: "sync_state \<Rightarrow> name_kind \<Rightarrow> (rstr, local_record) btm" where
  "local_rows_of s kind = (case kind of NK_Host \<Rightarrow> ls_hosts (st_local s) | NK_Group \<Rightarrow> ls_groups (st_local s))"

definition suggest :: "sync_state \<Rightarrow> taken \<times> name_conflict list \<Rightarrow> name_conflict \<Rightarrow> taken \<times> name_conflict list" where
  "suggest s acc c =
     (case acc of (t, out) \<Rightarrow>
        let row = bt_at (local_rows_of s (nc_kind c)) (record_key (name_record_kind (nc_kind c)) (nc_id c));
            parent = row_str row ''parent_id'' in
        (case first_free t (nc_kind c) parent (nc_current_name c) of
           None \<Rightarrow> (t, out @ [c])
         | Some n \<Rightarrow>
             let name = suggestion (nc_kind c) (nc_current_name c) n in
             (take_name t (nc_kind c) parent name, out @ [c\<lparr>nc_suggested_name := name\<rparr>])))"

definition name_conflicts :: "sync_state \<Rightarrow> rstr \<Rightarrow> name_conflict list" where
  "name_conflicts s destination =
     (let t = foldl take_target_name ({}, {}) (bt_values (sp_records (bt_at (st_spaces s) destination)));
          (t, out) = foldl (note_local_name NK_Group) (t, []) (bt_values (ls_groups (st_local s)));
          (t, out) = foldl (note_local_name NK_Host) (t, out) (bt_values (ls_hosts (st_local s)))
      in snd (foldl (suggest s) (t, []) out))"

section \<open>The review\<close>

definition rename_row :: "sync_state \<times> (name_kind \<times> rstr) set \<Rightarrow> rename_edit
    \<Rightarrow> library_failure + sync_state \<times> (name_kind \<times> rstr) set" where
  "rename_row acc edit =
     (case acc of (s, seen) \<Rightarrow>
        rbind (fail_if ((rn_kind edit, rn_id edit) \<in> seen \<or> trim (rn_name edit) \<noteq> rn_name edit \<or> rn_name edit = [])
                 (library_failure ''invalid_rename''
                    ''Choose one nonempty name for each conflicting record, without surrounding spaces.'')) (\<lambda>_.
        let kind = name_record_kind (rn_kind edit); key = record_key kind (rn_id edit) in
        rbind (ok_or (library_failure ''stale_review''
                        ''The library changed. Review the latest records before including them.'')
                 (opt_filter (\<lambda>r. \<not> r_deleted (lr_record r)) (bt_get (local_rows_of s (rn_kind edit)) key))) (\<lambda>row.
        let payload = the (jset (r_payload (lr_record row)) (name_field (rn_kind edit)) (JString (rn_name edit))) in
        Inr (put_local kind key (row\<lparr>lr_record := (lr_record row)\<lparr>r_payload := payload\<rparr>\<rparr>) s,
             insert (rn_kind edit, rn_id edit) seen))))"

definition rename :: "sync_state \<Rightarrow> rename_edit list \<Rightarrow> library_failure + sync_state" where
  "rename s renames = rbind (for_each rename_row (s, {}) renames) (\<lambda>acc. Inr (fst acc))"

record library_ext =
  x_quote :: "rstr \<Rightarrow> rstr"
  x_token_digest :: "token_view \<Rightarrow> rstr"

definition live_count :: "(rstr, local_record) btm \<Rightarrow> nat" where
  "live_count m = length (filter (\<lambda>r. \<not> r_deleted (lr_record r)) (bt_values m))"

definition preview :: "'a merge_ext_scheme \<Rightarrow> 'u relay_env_scheme \<Rightarrow> library_ext \<Rightarrow> sync_state \<Rightarrow> chain_keys option
    \<Rightarrow> library_failure + library_preview" where
  "preview X U L s keys =
     rbind (ok_or (library_failure ''sync_data_unavailable'' ''The sync library is unavailable. Retry after syncing.'')
              (library_space_id s)) (\<lambda>i.
     rbind (map_err (failure_of_repository (x_quote L)) (ensure_scope X s (HS_Space i))) (\<lambda>_.
     let conflicts = name_conflicts s i;
         renames = map (\<lambda>c. \<lparr>rn_kind = nc_kind c, rn_id = nc_id c, rn_name = nc_suggested_name c\<rparr>) conflicts in
     rbind (rename s renames) (\<lambda>proposed.
     rbind (map_err (failure_of_repository (x_quote L)) (include_existing X U proposed i True 0 keys)) (\<lambda>_.
     Inr \<lparr>lpv_token = token (x_token_digest L) s i, lpv_conflicts = conflicts,
          lpv_local_hosts = live_count (ls_hosts (st_local s)),
          lpv_local_groups = live_count (ls_groups (st_local s))\<rparr>))))"

definition include_reviewed :: "'a merge_ext_scheme \<Rightarrow> 'u relay_env_scheme \<Rightarrow> library_ext \<Rightarrow> sync_state \<Rightarrow> rstr \<Rightarrow> bool \<Rightarrow> u64
    \<Rightarrow> library_review option \<Rightarrow> chain_keys option \<Rightarrow> library_failure + sync_state" where
  "include_reviewed X U L s i confirmed now review keys =
     (case review of
        None \<Rightarrow> map_err (failure_of_repository (x_quote L)) (include_existing X U s i confirmed now keys)
      | Some review \<Rightarrow>
          rbind (fail_if (lrv_token review \<noteq> token (x_token_digest L) s i)
                   (library_failure ''stale_review''
                      ''The library changed while you were reviewing it. Review the latest records and retry; no names have been changed.'')) (\<lambda>_.
          let expected = set (map (\<lambda>c. (nc_kind c, nc_id c)) (name_conflicts s i));
              supplied = set (map (\<lambda>r. (rn_kind r, rn_id r)) (lrv_renames review)) in
          rbind (fail_if (expected \<noteq> supplied \<or> length (lrv_renames review) \<noteq> card supplied)
                   (library_failure ''invalid_rename''
                      ''Review every conflicting name before including the library. Only those local records may be renamed.'')) (\<lambda>_.
          rbind (rename s (lrv_renames review)) (\<lambda>proposed.
          rbind (map_err (failure_of_repository (x_quote L)) (include_existing X U proposed i confirmed now keys)) (\<lambda>next_state.
          rbind (map_err (failure_of_repository (x_quote L)) (validate_transition X s next_state)) (\<lambda>_.
          Inr next_state))))))"

section \<open>Suggestions\<close>

text \<open>The number can be read back from a suggestion, so different numbers give different names.\<close>

lemma suggestion_inj: "suggestion kind current m = suggestion kind current n \<Longrightarrow> m = n"
proof (cases kind)
  case NK_Host
  assume "suggestion kind current m = suggestion kind current n"
  then have "dec m = dec n" by (simp add: suggestion_def NK_Host)
  then show ?thesis by (metis parse_digits_dec)
next
  case NK_Group
  define number where "number xs = parse_digits (rev (takeWhile is_ascii_digit (tl (rev xs))))" for xs
  have "number (suggestion NK_Group current k) = k" for k
  proof -
    let ?pre = "trim_end (take (128 - length (lit '' ('' @ dec k @ lit '')'')) current)"
    have rev: "tl (rev (suggestion NK_Group current k)) = rev (dec k) @ [40] @ [32] @ rev ?pre"
      by (simp add: suggestion_def lit_def)
    have "takeWhile is_ascii_digit (rev (dec k) @ [40] @ [32] @ rev ?pre) = rev (dec k)"
      using dec_digits [of k] by (simp add: takeWhile_append list_all_iff is_ascii_digit_def)
    then show ?thesis by (simp add: number_def rev)
  qed
  moreover assume "suggestion kind current m = suggestion kind current n"
  ultimately show ?thesis by (metis NK_Group)
qed

definition finite_taken :: "taken \<Rightarrow> bool" where
  "finite_taken t \<longleftrightarrow> finite (fst t) \<and> finite (snd t)"

lemma first_free_exists:
  assumes "finite_taken t"
  shows "\<exists>n. first_free t kind parent current = Some n"
proof (rule ccontr)
  assume "\<nexists>n. first_free t kind parent current = Some n"
  then have all: "is_taken t kind parent (suggestion kind current n)" if "n \<in> {2..<taken_count t + 3}" for n
    using that by (auto simp: first_free_def find_None_iff)
  define names where "names = {name. is_taken t kind parent name}"
  have "finite names \<and> card names \<le> taken_count t"
  proof (cases kind)
    case NK_Host
    with assms show ?thesis by (simp add: names_def is_taken_def taken_count_def finite_taken_def)
  next
    case NK_Group
    have sub: "(\<lambda>name. (parent, name)) ` names \<subseteq> snd t" by (auto simp: names_def is_taken_def NK_Group)
    have inj: "inj_on (\<lambda>name. (parent, name)) names" by (simp add: inj_on_def)
    have fin: "finite (snd t)" using assms by (simp add: finite_taken_def)
    from inj_on_finite [OF inj sub fin] card_inj_on_le [OF inj sub fin] show ?thesis
      by (simp add: taken_count_def)
  qed
  moreover have "suggestion kind current ` {2..<taken_count t + 3} \<subseteq> names"
    using all by (auto simp: names_def)
  moreover have "inj_on (suggestion kind current) {2..<taken_count t + 3}"
    by (auto simp: inj_on_def dest: suggestion_inj)
  ultimately have "card {2..<taken_count t + 3} \<le> taken_count t"
    using card_inj_on_le [of "suggestion kind current" "{2..<taken_count t + 3}" names] by simp
  then show False by simp
qed

lemma first_free_Some:
  assumes "first_free t kind parent current = Some n"
  shows "2 \<le> n" "\<not> is_taken t kind parent (suggestion kind current n)"
    "\<And>m. 2 \<le> m \<Longrightarrow> m < n \<Longrightarrow> is_taken t kind parent (suggestion kind current m)"
proof -
  from assms obtain i where i: "i < taken_count t + 1" "n = [2..<taken_count t + 3] ! i"
    "\<not> is_taken t kind parent (suggestion kind current n)"
    and least: "\<And>j. j < i \<Longrightarrow> is_taken t kind parent (suggestion kind current ([2..<taken_count t + 3] ! j))"
    by (auto simp: first_free_def find_Some_iff)
  have n: "n = 2 + i" using i(1,2) by (subst (asm) nth_upt) auto
  then show "2 \<le> n" by simp
  show "\<not> is_taken t kind parent (suggestion kind current n)" by (rule i(3))
  fix m
  assume m: "2 \<le> m" "m < n"
  then have j: "m - 2 < i" using n by simp
  have "[2..<taken_count t + 3] ! (m - 2) = m" using j i(1) m by (subst nth_upt) auto
  with least [OF j] show "is_taken t kind parent (suggestion kind current m)" by simp
qed

definition conflict_parent :: "sync_state \<Rightarrow> name_conflict \<Rightarrow> rstr option" where
  "conflict_parent s c =
     row_str (bt_at (local_rows_of s (nc_kind c)) (record_key (name_record_kind (nc_kind c)) (nc_id c))) ''parent_id''"

text \<open>Where a suggested name must be unique: aliases together, group names under their parent.\<close>

definition name_slot :: "sync_state \<Rightarrow> name_conflict \<Rightarrow> name_kind \<times> rstr option option \<times> rstr" where
  "name_slot s c =
     (nc_kind c, (case nc_kind c of NK_Host \<Rightarrow> None | NK_Group \<Rightarrow> Some (conflict_parent s c)), nc_suggested_name c)"

definition target_names :: "sync_state \<Rightarrow> rstr \<Rightarrow> taken" where
  "target_names s destination =
     foldl take_target_name ({}, {}) (bt_values (sp_records (bt_at (st_spaces s) destination)))"

definition suggested :: "sync_state \<Rightarrow> taken \<Rightarrow> name_conflict \<Rightarrow> bool" where
  "suggested s t c \<longleftrightarrow> (\<exists>n. 2 \<le> n \<and> nc_suggested_name c = suggestion (nc_kind c) (nc_current_name c) n
     \<and> \<not> is_taken t (nc_kind c) (conflict_parent s c) (nc_suggested_name c))"

lemma take_name_taken:
  "is_taken (take_name t kind parent name) k q m \<longleftrightarrow>
     is_taken t k q m \<or> k = kind \<and> m = name \<and> (kind = NK_Group \<longrightarrow> q = parent)"
  by (cases kind; cases k) (auto simp: is_taken_def take_name_def)

lemma take_name_finite: "finite_taken t \<Longrightarrow> finite_taken (take_name t kind parent name)"
  by (simp add: finite_taken_def take_name_def split: name_kind.splits)

lemma take_target_finite: "finite_taken t \<Longrightarrow> finite_taken (foldl take_target_name t rows)"
  by (induction rows arbitrary: t) (simp_all add: take_target_name_def finite_taken_def split: option.splits)

definition taken_le :: "taken \<Rightarrow> taken \<Rightarrow> bool" where
  "taken_le t u \<longleftrightarrow> fst t \<subseteq> fst u \<and> snd t \<subseteq> snd u"

lemma taken_le_taken: "taken_le t u \<Longrightarrow> is_taken t k q m \<Longrightarrow> is_taken u k q m"
  by (cases k) (auto simp: taken_le_def is_taken_def)

lemma taken_le_take: "taken_le t u \<Longrightarrow> taken_le t (take_name u kind parent name)"
  by (auto simp: taken_le_def take_name_def split: name_kind.splits)

lemma note_local_names:
  "finite_taken (fst acc) \<and> taken_le t (fst acc) \<Longrightarrow>
     finite_taken (fst (foldl (note_local_name kind) acc rows)) \<and> taken_le t (fst (foldl (note_local_name kind) acc rows))"
proof (induction rows arbitrary: acc)
  case (Cons row rows)
  have "finite_taken (fst (note_local_name kind acc row)) \<and> taken_le t (fst (note_local_name kind acc row))"
    using Cons.prems by (cases acc) (simp add: note_local_name_def Let_def take_name_finite taken_le_take split: option.splits)
  from Cons.IH [OF this] show ?case by simp
qed simp

text \<open>A live row of this device with this name, and the conflict that reports it.\<close>

definition is_named :: "name_kind \<Rightarrow> local_record \<Rightarrow> rstr \<Rightarrow> bool" where
  "is_named kind row name \<longleftrightarrow> \<not> r_deleted (lr_record row) \<and> get_str (r_payload (lr_record row)) (name_field kind) = Some name"

definition conflict_key :: "name_conflict \<Rightarrow> name_kind \<times> rstr \<times> rstr" where
  "conflict_key c = (nc_kind c, nc_id c, nc_current_name c)"

text \<open>Every name of the device is reserved, and a name that was taken before is reported.\<close>

lemma note_local_reserves:
  assumes "foldl (note_local_name kind) (t, out) rows = (t', out')"
  shows "taken_le t t' \<and> set out \<subseteq> set out'
    \<and> (\<forall>row \<in> set rows. \<forall>name. is_named kind row name \<longrightarrow> is_taken t' kind (row_str row ''parent_id'') name
         \<and> (is_taken t kind (row_str row ''parent_id'') name \<longrightarrow> (kind, r_id (lr_record row), name) \<in> conflict_key ` set out'))"
  using assms
proof (induction rows arbitrary: t out)
  case Nil
  then show ?case by (simp add: taken_le_def)
next
  case (Cons row rows)
  obtain t1 out1 where 1: "note_local_name kind (t, out) row = (t1, out1)" by (rule prod.exhaust)
  with Cons.prems have "foldl (note_local_name kind) (t1, out1) rows = (t', out')" by simp
  note IH = Cons.IH [OF this]
  have le: "taken_le t t1" "set out \<subseteq> set out1"
    using 1 by (auto simp: note_local_name_def Let_def taken_le_def take_name_def split: option.splits if_splits name_kind.splits)
  have own: "is_taken t1 kind (row_str row ''parent_id'') name
      \<and> (is_taken t kind (row_str row ''parent_id'') name \<longrightarrow> (kind, r_id (lr_record row), name) \<in> conflict_key ` set out1)"
    if "is_named kind row name" for name
    using 1 that by (auto simp: note_local_name_def Let_def is_named_def take_name_taken conflict_key_def split: if_splits)
  from IH le have "taken_le t t'" "set out \<subseteq> set out'" by (auto simp: taken_le_def)
  moreover have "\<forall>name. is_named kind row' name \<longrightarrow> is_taken t' kind (row_str row' ''parent_id'') name
         \<and> (is_taken t kind (row_str row' ''parent_id'') name \<longrightarrow> (kind, r_id (lr_record row'), name) \<in> conflict_key ` set out')"
    if "row' \<in> set (row # rows)" for row'
  proof (cases "row' = row")
    case True
    with own IH show ?thesis using taken_le_taken by blast
  next
    case False
    with that IH le(1) show ?thesis using taken_le_taken by simp
  qed
  ultimately show ?case by blast
qed

lemma suggest_reports: "map conflict_key (snd (foldl (suggest s) (t, out) cs)) = map conflict_key (out @ cs)"
proof (induction cs arbitrary: t out)
  case (Cons c cs)
  have "\<exists>t' c'. suggest s (t, out) c = (t', out @ [c']) \<and> conflict_key c' = conflict_key c"
    by (auto simp: suggest_def Let_def conflict_key_def split: option.splits)
  with Cons.IH show ?case by fastforce
qed simp

lemma suggest_step:
  assumes "finite_taken t" and "taken_le t0 t"
  shows "\<exists>t' c'. suggest s (t, out) c = (t', out @ [c']) \<and> finite_taken t' \<and> taken_le t0 t'
    \<and> suggested s t0 c' \<and> is_taken t' (nc_kind c') (conflict_parent s c') (nc_suggested_name c')
    \<and> \<not> is_taken t (nc_kind c') (conflict_parent s c') (nc_suggested_name c')
    \<and> (\<forall>k q m. is_taken t k q m \<longrightarrow> is_taken t' k q m)"
proof -
  let ?p = "conflict_parent s c"
  obtain n where n: "first_free t (nc_kind c) ?p (nc_current_name c) = Some n"
    using first_free_exists [OF assms(1)] by blast
  let ?name = "suggestion (nc_kind c) (nc_current_name c) n"
  have p: "conflict_parent s (c\<lparr>nc_suggested_name := m\<rparr>) = ?p" for m by (simp add: conflict_parent_def)
  have free: "\<not> is_taken t (nc_kind c) ?p ?name" by (rule first_free_Some(2) [OF n])
  with taken_le_taken [OF assms(2)] first_free_Some(1) [OF n]
  have "suggested s t0 (c\<lparr>nc_suggested_name := ?name\<rparr>)" by (auto simp: suggested_def p)
  moreover have "suggest s (t, out) c = (take_name t (nc_kind c) ?p ?name, out @ [c\<lparr>nc_suggested_name := ?name\<rparr>])"
    using n by (simp add: suggest_def Let_def conflict_parent_def)
  ultimately show ?thesis
    using free assms by (auto simp: p take_name_taken take_name_finite taken_le_take)
qed

lemma suggest_all:
  assumes "finite_taken t" and "taken_le t0 t" and "\<forall>c \<in> set out. suggested s t0 c"
    and "\<forall>c \<in> set out. is_taken t (nc_kind c) (conflict_parent s c) (nc_suggested_name c)"
    and "distinct (map (name_slot s) out)"
  shows "(\<forall>c \<in> set (snd (foldl (suggest s) (t, out) cs)). suggested s t0 c)
    \<and> distinct (map (name_slot s) (snd (foldl (suggest s) (t, out) cs)))"
  using assms
proof (induction cs arbitrary: t out)
  case (Cons c cs)
  obtain t' c' where st: "suggest s (t, out) c = (t', out @ [c'])" "finite_taken t'" "taken_le t0 t'"
    "suggested s t0 c'" "is_taken t' (nc_kind c') (conflict_parent s c') (nc_suggested_name c')"
    "\<not> is_taken t (nc_kind c') (conflict_parent s c') (nc_suggested_name c')"
    "\<forall>k q m. is_taken t k q m \<longrightarrow> is_taken t' k q m"
    using suggest_step [OF Cons.prems(1,2)] by blast
  have "name_slot s c' \<notin> name_slot s ` set out"
  proof
    assume "name_slot s c' \<in> name_slot s ` set out"
    then obtain d where d: "d \<in> set out" "name_slot s c' = name_slot s d" by auto
    with Cons.prems(4) have "is_taken t (nc_kind d) (conflict_parent s d) (nc_suggested_name d)" by blast
    with d(2) st(6) show False
      by (auto simp: name_slot_def is_taken_def split: name_kind.splits)
  qed
  with Cons.prems st have "(\<forall>c \<in> set (snd (foldl (suggest s) (t', out @ [c']) cs)). suggested s t0 c)
    \<and> distinct (map (name_slot s) (snd (foldl (suggest s) (t', out @ [c']) cs)))"
    by (intro Cons.IH) auto
  then show ?case by (simp add: st(1))
qed simp

section \<open>Properties\<close>

text \<open>The names reserved before the first suggestion: those of the shared space and all those of the device.\<close>

lemma reserved_names:
  obtains t out where "name_conflicts s destination = snd (foldl (suggest s) (t, []) out)" "finite_taken t"
    "taken_le (target_names s destination) t"
    "\<And>kind row name. row \<in> set (bt_values (local_rows_of s kind)) \<Longrightarrow> is_named kind row name \<Longrightarrow>
       is_taken t kind (row_str row ''parent_id'') name"
    "\<And>kind row name. row \<in> set (bt_values (local_rows_of s kind)) \<Longrightarrow> is_named kind row name \<Longrightarrow>
       is_taken (target_names s destination) kind (row_str row ''parent_id'') name \<Longrightarrow> (kind, r_id (lr_record row), name) \<in> conflict_key ` set out"
proof -
  let ?t = "target_names s destination"
  obtain t1 out1 where 1: "foldl (note_local_name NK_Group) (?t, []) (bt_values (ls_groups (st_local s))) = (t1, out1)"
    by fastforce
  obtain t2 out2 where 2: "foldl (note_local_name NK_Host) (t1, out1) (bt_values (ls_hosts (st_local s))) = (t2, out2)"
    by fastforce
  have "finite_taken ?t" using take_target_finite [of "({}, {})"] by (simp add: target_names_def finite_taken_def)
  then have fin: "finite_taken t2"
    using note_local_names [of "(?t, [])" ?t NK_Group "bt_values (ls_groups (st_local s))"]
      note_local_names [of "(t1, out1)" t1 NK_Host "bt_values (ls_hosts (st_local s))"] 1 2 by (simp add: taken_le_def)
  have "taken_le ?t t2" using note_local_reserves [OF 1] note_local_reserves [OF 2] by (auto simp: taken_le_def)
  moreover have "is_taken t2 kind (row_str row ''parent_id'') name" "is_taken ?t kind (row_str row ''parent_id'') name \<Longrightarrow> (kind, r_id (lr_record row), name) \<in> conflict_key ` set out2"
    if "row \<in> set (bt_values (local_rows_of s kind))" "is_named kind row name" for kind row name
    using that note_local_reserves [OF 1] note_local_reserves [OF 2] taken_le_taken
    by (cases kind; simp add: local_rows_of_def; blast)+
  ultimately show thesis
    using 1 2 fin that [of t2 out2] by (simp add: name_conflicts_def Let_def target_names_def)
qed

text \<open>C39. The search for free names ends for every library: each reported record gets its current
  name with a number from two on; no suggestion is the name of a live record of the shared space,
  none is the current name of a live record of this device, reported or not, and no two suggestions collide with each other,
  aliases being compared together and group names under their parent. And every live record of the device whose name the shared space
  has is reported.\<close>

theorem suggestions_found:
  "(\<forall>c \<in> set (name_conflicts s destination).
      \<exists>n. 2 \<le> n \<and> nc_suggested_name c = suggestion (nc_kind c) (nc_current_name c) n
        \<and> \<not> is_taken (target_names s destination) (nc_kind c) (conflict_parent s c) (nc_suggested_name c)
        \<and> (\<forall>row \<in> set (bt_values (local_rows_of s (nc_kind c))). is_named (nc_kind c) row (nc_suggested_name c) \<longrightarrow>
             nc_kind c = NK_Group \<and> row_str row ''parent_id'' \<noteq> conflict_parent s c))
   \<and> distinct (map (name_slot s) (name_conflicts s destination))
   \<and> (\<forall>kind. \<forall>row \<in> set (bt_values (local_rows_of s kind)). \<forall>name. is_named kind row name
        \<and> is_taken (target_names s destination) kind (row_str row ''parent_id'') name \<longrightarrow>
          (kind, r_id (lr_record row), name) \<in> conflict_key ` set (name_conflicts s destination))"
proof -
  let ?t = "target_names s destination"
  obtain t out where t: "name_conflicts s destination = snd (foldl (suggest s) (t, []) out)" "finite_taken t" "taken_le ?t t"
    and kept: "\<And>kind row name. row \<in> set (bt_values (local_rows_of s kind)) \<Longrightarrow> is_named kind row name \<Longrightarrow>
       is_taken t kind (row_str row ''parent_id'') name"
    and reported: "\<And>kind row name. row \<in> set (bt_values (local_rows_of s kind)) \<Longrightarrow> is_named kind row name \<Longrightarrow>
       is_taken ?t kind (row_str row ''parent_id'') name \<Longrightarrow> (kind, r_id (lr_record row), name) \<in> conflict_key ` set out"
    using reserved_names by blast
  have names: "\<forall>c \<in> set (name_conflicts s destination). suggested s t c" and slots: "distinct (map (name_slot s) (name_conflicts s destination))"
    using suggest_all [of t t "[]" s out] t by (simp_all add: taken_le_def)
  have "conflict_key ` set (name_conflicts s destination) = conflict_key ` set out"
    using suggest_reports [of s t "[]" out] t(1) by (metis append_Nil set_map)
  moreover have "is_taken t k q m" if "is_taken t k p m" "k = NK_Host \<or> p = q" for k p q m
    using that by (auto simp: is_taken_def)
  then have "nc_kind c = NK_Group \<and> row_str row ''parent_id'' \<noteq> conflict_parent s c"
    if "suggested s t c" "row \<in> set (bt_values (local_rows_of s (nc_kind c)))" "is_named (nc_kind c) row (nc_suggested_name c)" for c row
    using that kept [OF that(2,3)] unfolding suggested_def by (metis (full_types) name_kind.exhaust)
  ultimately show ?thesis using names slots reported taken_le_taken [OF t(3)] unfolding suggested_def by (metis (no_types, lifting))
qed

text \<open>A device and its library both have a host with the alias \<open>a\<close>.\<close>

definition clash_state :: sync_state where
  "clash_state = (one_state (lit ''a'') 1 5)\<lparr>st_spaces :=
     [(replicate 64 49, \<lparr>sp_selected = True, sp_cursor_seq = 0, sp_baseline_established = True,
        sp_records = [(record_key RK_Host sample_id, one_row (lit ''a'') 1 5)], sp_sealed = [],
        sp_last_error = None, sp_missing = False\<rparr>)]\<rparr>"

lemma clash_conflicts:
  "name_conflicts clash_state (replicate 64 49)
     = [\<lparr>nc_kind = NK_Host, nc_id = sample_id, nc_current_name = lit ''a'', nc_suggested_name = lit ''a-2''\<rparr>]"
proof -
  have row: "row_str (one_row (lit ''a'') 1 5) ''alias'' = Some (lit ''a'')" "row_str (one_row (lit ''a'') 1 5) ''parent_id'' = None"
    "\<not> r_deleted (lr_record (one_row (lit ''a'') 1 5))" "r_kind (lr_record (one_row (lit ''a'') 1 5)) = RK_Host"
    "r_id (lr_record (one_row (lit ''a'') 1 5)) = sample_id"
    by (simp_all add: row_str_def one_row_def sample_rext_def record_ext.defs crypto_ext.defs bt_get_def str_simps)
  have name: "suggestion NK_Host (lit ''a'') 2 = lit ''a-2''" "lit ''a-2'' \<noteq> lit ''a''"
    by (simp_all add: suggestion_def dec.simps lit_def)
  have free: "first_free ({lit ''a''}, {}) NK_Host None (lit ''a'') = Some 2"
    by (simp add: first_free_def taken_count_def is_taken_def name upt_rec)
  have target: "sp_records (bt_at (st_spaces clash_state) (replicate 64 49)) = [(record_key RK_Host sample_id, one_row (lit ''a'') 1 5)]"
    "ls_groups (st_local clash_state) = []"
    "ls_hosts (st_local clash_state) = [(record_key RK_Host sample_id, one_row (lit ''a'') 1 5)]"
    by (simp_all add: clash_state_def bt_at_def bt_get_def one_state_def sample_state_def put_host_def)
  have one: "bt_at [(k, v)] k = v" for k :: rstr and v :: local_record by (simp add: bt_at_def bt_get_def)
  show ?thesis
    by (simp add: name_conflicts_def Let_def target bt_values_def take_target_name_def note_local_name_def is_taken_def
        row row [unfolded row_str_def] suggest_def local_rows_of_def one free name)
qed

theorem suggestions_found_witness:
  "\<exists>n. 2 \<le> n \<and> name_conflicts clash_state (replicate 64 49)
       = [\<lparr>nc_kind = NK_Host, nc_id = sample_id, nc_current_name = lit ''a'', nc_suggested_name = suggestion NK_Host (lit ''a'') n\<rparr>]
     \<and> \<not> is_taken (target_names clash_state (replicate 64 49)) NK_Host
           (conflict_parent clash_state
              \<lparr>nc_kind = NK_Host, nc_id = sample_id, nc_current_name = lit ''a'', nc_suggested_name = lit ''a-2''\<rparr>)
           (lit ''a-2'')"
  using suggestions_found [of clash_state "replicate 64 49"] unfolding clash_conflicts by auto

end
