(* ===== verification/Validity_Properties.thy ===== *)
theory Validity_Properties
  imports State_Validity Repository_Properties
begin

text \<open>
  The state invariant: \<open>validate_state\<close>, the check behind which the state file is read and written,
  is kept by every edit of the repository, also while an account operation is pending. The program
  therefore never produces, by editing hosts, a state it would refuse to save or to load.
\<close>

section \<open>Validity as a predicate\<close>

lemma validate_state_Inr:
  "validate_state X U s = Inr () \<longleftrightarrow>
     validate_frame s = Inr ()
     \<and> (\<forall>op. st_pending_account s = Some op \<longrightarrow>
          validate_pending X U op = Inr () \<and> validate_state X U (prepared_state s op) = Inr ())
     \<and> validate_sections X s = Inr ()"
  by (subst validate_state.simps) (auto split: option.splits)

text \<open>One cached row of hosts and groups.\<close>

definition cached_row_ok :: "'a record_ext_scheme \<Rightarrow> host_scope \<Rightarrow> rstr \<times> local_record \<Rightarrow> bool" where
  "cached_row_ok X scope kr \<longleftrightarrow> validate_cache_key (fst kr) (snd kr) = Inr ()
     \<and> (if r_kind (lr_record (snd kr)) = RK_Group then is_ok (decode_group X (lr_record (snd kr)) scope)
        else is_ok (decode_host X (lr_record (snd kr)) scope))"

lemma check_host_rows_Inr:
  "check_host_rows X records scope = Inr u \<longleftrightarrow> (\<forall>kr \<in> set records. cached_row_ok X scope kr)"
proof -
  have "(\<lambda>(key, local). rbind (validate_cache_key key local) (\<lambda>_.
       if r_kind (lr_record local) = RK_Group
       then rbind (decode_group X (lr_record local) scope) (\<lambda>_. Inr ())
       else rbind (decode_host X (lr_record local) scope) (\<lambda>_. Inr ()))) kr = Inr ()
     \<longleftrightarrow> cached_row_ok X scope kr" for kr
    by (cases kr) (auto simp: cached_row_ok_def is_ok_iff)
  then show ?thesis by (simp add: check_host_rows_def)
qed

lemma validate_space_Inr:
  "validate_space X (i, sp) = Inr () \<longleftrightarrow>
     is_chain_id i \<and> (\<forall>kr \<in> set (sp_records sp). cached_row_ok X (HS_Space i) kr)
     \<and> validate_sealed (sp_sealed sp) False = Inr ()"
  by (simp add: validate_space_def check_host_rows_Inr)

lemma validate_sections_Inr:
  "validate_sections X s = Inr () \<longleftrightarrow>
     valid_ids (ls_group_order (st_local s))
     \<and> (ls_group_order (st_local s) = [] \<or> \<not> st_version s < NAVIGATION_STATE_VERSION)
     \<and> (\<forall>kr \<in> set (ls_hosts (st_local s)). cached_row_ok X HS_Local kr)
     \<and> (\<forall>kr \<in> set (ls_groups (st_local s)). validate_local_group X kr = Inr ())
     \<and> (st_version s = STATE_VERSION \<longrightarrow> ls_groups (st_local s) = []
          \<and> (\<forall>kr \<in> set (ls_hosts (st_local s)). \<not> grouped_row (snd kr))
          \<and> (\<forall>ks \<in> set (st_spaces s). \<forall>kr \<in> set (sp_records (snd ks)). \<not> grouped_row (snd kr)))
     \<and> (\<forall>kv \<in> set (ls_keys (st_local s)). validate_local_key X kv = Inr ())
     \<and> (\<forall>kv \<in> set (ls_import_receipts (st_local s)). validate_receipt kv = Inr ())
     \<and> (\<forall>ks \<in> set (st_spaces s). validate_space X ks = Inr ())
     \<and> validate_account_section X (st_account s) = Inr ()"
proof -
  have "(\<not> list_ex grouped_row (bt_values hosts @ concat (map (\<lambda>sp. bt_values (sp_records sp)) (bt_values spaces))))
      \<longleftrightarrow> (\<forall>kr \<in> set hosts. \<not> grouped_row (snd kr))
        \<and> (\<forall>ks \<in> set spaces. \<forall>kr \<in> set (sp_records (snd ks)). \<not> grouped_row (snd kr))"
    for hosts :: "(rstr, local_record) btm" and spaces :: "(rstr, space_state) btm"
    by (simp add: list_ex_iff bt_values_def ball_Un)
  note plain = this
  show ?thesis
    unfolding validate_sections_def Let_def check_host_rows_Inr result_simps de_Morgan_conj de_Morgan_disj
      not_not plain
    by blast
qed

section \<open>Writing one row\<close>

definition row_fits :: "'a record_ext_scheme \<Rightarrow> sync_state \<Rightarrow> host_scope \<Rightarrow> rstr \<Rightarrow> local_record \<Rightarrow> bool" where
  "row_fits X s scope key row \<longleftrightarrow>
     ensure_scope X s scope = Inr () \<and> cached_row_ok X scope (key, row)
     \<and> (st_version s = STATE_VERSION \<longrightarrow> \<not> grouped_row row)"

lemma validate_frame_put:
  assumes "scope_open s scope"
  shows "validate_frame (put_host scope key row s) = validate_frame s"
proof -
  have eq: "(st_spaces (put_host scope key row s) = []) = (st_spaces s = [])"
  proof (cases scope)
    case (HS_Space i)
    with assms obtain sp where sp: "bt_get (st_spaces s) i = Some sp" by (auto simp: scope_open_def)
    then have "bt_get (st_spaces (put_host scope key row s)) i \<noteq> None"
      by (simp add: HS_Space put_host_def)
    with sp show ?thesis by force
  qed (simp add: put_host_def)
  show ?thesis by (simp only: validate_frame_def put_host_keeps eq)
qed

lemma validate_sections_put:
  assumes "validate_sections X s = Inr ()" and "row_fits X s scope key row"
  shows "validate_sections X (put_host scope key row s) = Inr ()"
proof (cases scope)
  case HS_Local
  have "set (bt_insert key row m) \<subseteq> insert (key, row) (set m)" for m
    by (rule set_bt_insert)
  with assms HS_Local show ?thesis
    by (fastforce simp: validate_sections_Inr row_fits_def put_host_def)
next
  case (HS_Space i)
  let ?f = "\<lambda>sp. sp\<lparr>sp_records := bt_insert key row (sp_records sp)\<rparr>"
  have sub: "ks \<in> set (st_spaces s) \<or> (\<exists>sp. (i, sp) \<in> set (st_spaces s) \<and> ks = (i, ?f sp))"
    if "ks \<in> set (bt_modify i ?f (st_spaces s))" for ks
    using that set_bt_modify [of i ?f "st_spaces s"] by blast
  have mem: "kr = (key, row) \<or> kr \<in> set m" if "kr \<in> set (bt_insert key row m)" for kr m
    using that set_bt_insert [of key row m] by blast
  have space: "validate_space X (i, ?f sp) = Inr ()" if "validate_space X (i, sp) = Inr ()" for sp
    using that assms(2) mem HS_Space by (auto simp: validate_space_Inr row_fits_def)
  have plain: "\<not> grouped_row (snd kr)" if "st_version s = STATE_VERSION" "(i, sp) \<in> set (st_spaces s)"
    "kr \<in> set (bt_insert key row (sp_records sp))" for kr sp
    using mem [OF that(3)] that(1,2) assms by (auto simp: validate_sections_Inr row_fits_def)
  have old: "\<And>ks. ks \<in> set (st_spaces s) \<Longrightarrow> validate_space X ks = Inr ()"
    "\<And>ks kr. st_version s = STATE_VERSION \<Longrightarrow> ks \<in> set (st_spaces s) \<Longrightarrow> kr \<in> set (sp_records (snd ks))
       \<Longrightarrow> \<not> grouped_row (snd kr)"
    using assms(1) unfolding validate_sections_Inr by blast+
  have "\<forall>ks \<in> set (bt_modify i ?f (st_spaces s)). validate_space X ks = Inr ()"
    using sub space old(1) by blast
  moreover have "\<forall>ks \<in> set (bt_modify i ?f (st_spaces s)). \<forall>kr \<in> set (sp_records (snd ks)). \<not> grouped_row (snd kr)"
    if "st_version s = STATE_VERSION"
  proof (intro ballI)
    fix ks kr
    assume k: "ks \<in> set (bt_modify i ?f (st_spaces s))" "kr \<in> set (sp_records (snd ks))"
    from sub [OF k(1)] show "\<not> grouped_row (snd kr)"
    proof (elim disjE exE conjE)
      assume "ks \<in> set (st_spaces s)"
      from old(2) [OF that this k(2)] show ?thesis .
    next
      fix sp
      assume "(i, sp) \<in> set (st_spaces s)" and "ks = (i, ?f sp)"
      with plain [OF that, of sp kr] k(2) show ?thesis by simp
    qed
  qed
  ultimately show ?thesis
    using assms(1) by (simp add: HS_Space put_host_def validate_sections_Inr)
qed

lemma writable_not_pending:
  "ensure_scope X s scope = Inr () \<Longrightarrow> st_pending_account s \<noteq> None \<Longrightarrow> scope = HS_Local"
  by (auto simp: ensure_scope_Inr account_writes_blocked_def)

lemma valid_put:
  assumes "validate_state X U s = Inr ()" and "row_fits X s scope key row"
  shows "validate_state X U (put_host scope key row s) = Inr ()"
proof -
  have o: "scope_open s scope" using assms(2) by (simp add: row_fits_def ensure_scope_Inr)
  have "validate_state X U (prepared_state (put_host scope key row s) op) = Inr ()"
    if op: "st_pending_account s = Some op" for op
  proof -
    have local: "scope = HS_Local"
      using writable_not_pending assms(2) op by (auto simp: row_fits_def)
    then have prep: "prepared_state (put_host scope key row s) op
        = put_host scope key row (prepared_state s op)"
      by (simp add: prepared_state_def put_host_def)
    have "row_fits X (prepared_state s op) scope key row"
      using assms(2) by (simp add: local row_fits_def ensure_scope_def prepared_state_def)
    moreover have "validate_frame (prepared_state s op) = Inr ()"
      "validate_sections X (prepared_state s op) = Inr ()"
      using assms(1) op by (auto simp: validate_state_Inr [of X U s] validate_state_Inr [of X U "prepared_state s op"])
    moreover have "scope_open (prepared_state s op) scope" by (simp add: local scope_open_def)
    moreover have "st_pending_account (prepared_state s op) = None" by (simp add: prepared_state_def)
    ultimately show ?thesis
      unfolding prep validate_state_Inr [of X U "put_host scope key row (prepared_state s op)"]
      by (simp add: validate_frame_put validate_sections_put)
  qed
  with assms o show ?thesis
    unfolding validate_state_Inr [of X U "put_host scope key row s"] validate_state_Inr [of X U s]
    by (simp add: validate_frame_put validate_sections_put)
qed

section \<open>Every host edit\<close>

text \<open>What the program relies on of the derived serialisation of a host payload: the schema number is
  written to and read from the field \<open>schema\<close>.\<close>

definition host_serde :: "'a record_ext_scheme \<Rightarrow> bool" where
  "host_serde X \<longleftrightarrow>
     (\<forall>p. get_u64 (x_host_to_value X p) (lit ''schema'') = Some (ucast (hp_schema p)))
     \<and> (\<forall>v p. x_host_from_value X v = Inr p \<longrightarrow> get_u64 v (lit ''schema'') = Some (ucast (hp_schema p)))"

lemma ucast_schema: "(ucast (n :: u32) :: u64) = 3 \<longleftrightarrow> n = 3"
proof -
  have "unat n < 2 ^ 64"
    using unsigned_less [of n, where 'a = nat] by simp
  then show ?thesis
    by (simp add: word_unat_eq_iff unsigned_ucast_eq take_bit_nat_eq_self)
qed

lemma listed_row_ok:
  assumes "list_hosts X s = Inr hosts" and "stored_row s scope key local"
  shows "row_ok X scope (key, local)"
proof -
  from list_hosts_Inr [OF assms(1)] obtain raw where "collect_hosts X s = Inr raw" by blast
  then show ?thesis
    using assms(2) unfolding collect_hosts_Inr stored_row_def
    by (auto split: host_scope.splits dest!: bt_get_SomeD)
qed

lemma row_ok_cached: "row_ok X scope (key, row) \<Longrightarrow> r_kind (lr_record row) = RK_Host \<Longrightarrow> cached_row_ok X scope (key, row)"
  by (simp add: row_ok_def cached_row_ok_def validate_cache_def validate_cache_key_def Let_def)

lemma transition_row_fits:
  assumes "validate_transition X s s' = Inr ()" and "st_version s' = st_version s"
    and "stored_row s' scope key row" and "ensure_scope X s scope = Inr ()"
    and "r_kind (lr_record row) = RK_Host"
    and "st_version s = STATE_VERSION \<Longrightarrow> get_u64 (r_payload (lr_record row)) (lit ''schema'') \<noteq> Some 3"
  shows "row_fits X s scope key row"
proof -
  from assms(1) obtain new where "list_hosts X s' = Inr new" by (rule validate_transition_Inr)
  from row_ok_cached [OF listed_row_ok [OF this assms(3)] assms(5)] assms(4-6)
  show ?thesis by (simp add: row_fits_def grouped_row_def)
qed

lemma valid_row_edit:
  assumes "validate_state X U s = Inr ()" and "row_edit s scope i payload deleted now s'"
    and "ensure_scope X s scope = Inr ()" and "validate_transition X s s' = Inr ()"
    and "st_version s = STATE_VERSION \<Longrightarrow> get_u64 payload (lit ''schema'') \<noteq> Some 3"
  shows "validate_state X U s' = Inr ()"
proof -
  from assms(2) obtain old :: local_record and rec :: sync_record where o: "scope_open s scope"
    and s': "s' = put_host scope (record_key RK_Host i) (cached rec (lr_seq old) scope) s"
    and r: "r_kind rec = RK_Host" "r_payload rec = payload"
    unfolding row_edit_def by blast
  have "row_fits X s scope (record_key RK_Host i) (cached rec (lr_seq old) scope)"
    using assms(4)
  proof (rule transition_row_fits)
    show "stored_row s' scope (record_key RK_Host i) (cached rec (lr_seq old) scope)"
      using o by (simp add: stored_row_open s' put_host_records)
  qed (use assms(3,5) r in \<open>simp_all add: s' cached_def\<close>)
  from valid_put [OF assms(1) this] show ?thesis by (simp add: s')
qed

text \<open>Every edit that changes the state was checked against the old state.\<close>

lemma repo_step_transition: "repo_step X s s' \<Longrightarrow> s' = s \<or> validate_transition X s s' = Inr ()"
  by (elim repo_stepE)
    (auto simp: create_host_def update_host_def delete_host_def move_host_def forget_host_key_def
      pin_host_key_def replace_host_row_def Let_def split: if_splits)

text \<open>In a state of the first format no host uses groups.\<close>

lemma format_payload:
  assumes "host_serde X" and "require_host_format s p scope = Inr ()" and "st_version s = STATE_VERSION"
    and "hp_schema q = hp_schema p"
  shows "get_u64 (x_host_to_value X q) (lit ''schema'') \<noteq> Some 3"
  using assms by (auto simp: host_serde_def require_host_format_def schema_defs ucast_schema split: if_splits)

lemma stored_payload:
  assumes "host_serde X" and "validate_state X U s = Inr ()" and "st_version s = STATE_VERSION"
    and "maps_ok s" and "get_host X s i = Inr v" and "hp_schema q = hp_schema (hr_payload (hv_host v))"
  shows "get_u64 (x_host_to_value X q) (lit ''schema'') \<noteq> Some 3"
proof -
  from get_host_stored [OF assms(4,5)] obtain local where
    l: "stored_row s (hr_scope (hv_host v)) (record_key RK_Host i) local"
    and d: "decode_host X (lr_record local) (hr_scope (hv_host v)) = Inr (Live (hv_host v))" by blast
  have "\<forall>kr \<in> set (ls_hosts (st_local s)). \<not> grouped_row (snd kr)"
    "\<forall>ks \<in> set (st_spaces s). \<forall>kr \<in> set (sp_records (snd ks)). \<not> grouped_row (snd kr)"
    using assms(2,3) unfolding validate_state_Inr [of X U s] validate_sections_Inr by blast+
  then have "\<not> grouped_row local"
    using l by (force simp: stored_row_def split: host_scope.splits dest!: bt_get_SomeD)
  moreover have "get_u64 (r_payload (lr_record local)) (lit ''schema'') = Some (ucast (hp_schema q))"
    using assms(1,6) decode_host_Live(6) [OF d] by (simp add: host_serde_def)
  ultimately show ?thesis
    using assms(1) by (simp add: grouped_row_def host_serde_def)
qed

lemma create_host_valid:
  assumes "create_host X s i scope p now = Inr s'" and "maps_ok s" and "host_serde X"
    and "validate_state X U s = Inr ()"
  shows "validate_state X U s' = Inr ()"
proof -
  from assms(1) have f: "require_host_format s p scope = Inr ()" by (auto simp: create_host_def Let_def)
  from assms(2,1) obtain rec where e: "ensure_scope X s scope = Inr ()"
    and r: "ordered_record s i (x_host_to_value X (p\<lparr>hp_host_key := None\<rparr>)) False now [] = Inr rec"
    and s': "s' = put_host scope (record_key RK_Host i) (cached rec 0 scope) s"
    and t: "validate_transition X s s' = Inr ()"
    by (rule create_host_edit) blast
  have "row_fits X s scope (record_key RK_Host i) (cached rec 0 scope)"
    using t
  proof (rule transition_row_fits)
    show "stored_row s' scope (record_key RK_Host i) (cached rec 0 scope)"
      using e by (simp add: stored_row_open s' put_host_records ensure_scope_Inr)
  qed (use e ordered_record_Inr(1,5) [OF r] format_payload [OF assms(3) f] in
      \<open>simp_all add: s' cached_def\<close>)
  from valid_put [OF assms(4) this] show ?thesis by (simp add: s')
qed

text \<open>A move writes two rows: a tombstone where the host was, then the host where it goes.\<close>

lemma move_host_valid:
  assumes "move_host X s i rv destination now = Inr s'" and "maps_ok s" and "host_serde X"
    and "validate_state X U s = Inr ()"
  shows "validate_state X U s' = Inr ()"
  using assms(2,1)
proof (cases rule: move_host_edit)
  case (stay v)
  with assms(4) show ?thesis by simp
next
  case (moved v rec source e)
  let ?key = "record_key RK_Host i" and ?scope = "hr_scope (hv_host v)"
  let ?gone = "cached (rec\<lparr>r_deleted := True, r_payload := JNull\<rparr>) (lr_seq source) ?scope"
  let ?mid = "put_host ?scope ?key ?gone s"
  define row where "row = cached rec (case bt_get (host_records s destination) ?key of
      None \<Rightarrow> 0 | Some x \<Rightarrow> lr_seq x) destination"
  have s': "s' = put_host destination ?key row ?mid" using moved(9) by (simp add: row_def)
  have o: "scope_open s ?scope" "scope_open s destination"
    using moved(3,4) by (simp_all add: ensure_scope_Inr)
  note rec = ordered_record_Inr(1,5) [OF moved(7)]
  have "row_fits X s ?scope ?key ?gone"
    using moved(10)
  proof (rule transition_row_fits)
    show "stored_row s' ?scope ?key ?gone"
      using o moved(2) by (simp add: stored_row_open s' put_host_records)
  qed (use moved(3) rec in \<open>simp_all add: s' cached_def\<close>)
  then have mid: "validate_state X U ?mid = Inr ()" by (rule valid_put [OF assms(4)])
  have "row_fits X s destination ?key row"
    using moved(10)
  proof (rule transition_row_fits)
    show "stored_row s' destination ?key row"
      using o by (simp add: stored_row_open s' put_host_records)
  next
    have "hp_schema (materialize (ef_payload e)) \<noteq> 3" by (simp add: materialize_def schema_defs)
    with assms(3) rec show "get_u64 (r_payload (lr_record row)) (lit ''schema'') \<noteq> Some 3"
      by (simp add: row_def cached_def host_serde_def ucast_schema)
  qed (use moved(4) rec in \<open>simp_all add: s' row_def cached_def\<close>)
  then have "row_fits X ?mid destination ?key row"
    by (simp add: row_fits_def ensure_scope_Inr)
  from valid_put [OF mid this] show ?thesis by (simp add: s')
qed

lemma repo_step_valid:
  assumes "repo_step X s s'" and "maps_ok s" and "host_serde X" and "validate_state X U s = Inr ()"
  shows "validate_state X U s' = Inr ()"
proof (cases "s' = s")
  case True
  with assms(4) show ?thesis by simp
next
  case False
  with repo_step_transition [OF assms(1)] have t: "validate_transition X s s' = Inr ()" by simp
  note edit = valid_row_edit [OF assms(4) _ _ t] and old = stored_payload [OF assms(3,4) _ assms(2)]
  from assms(1) show ?thesis
  proof cases
    case (step_create i scope p now)
    from this assms(2-4) show ?thesis by (rule create_host_valid)
  next
    case (step_move i rv destination now)
    from this assms(2-4) show ?thesis by (rule move_host_valid)
  next
    case (step_update i rv p now)
    from assms(2) step_update obtain v :: host_view and p' where
      c: "checked_host X s i rv = Inr v"
      and r: "row_edit s (hr_scope (hv_host v)) i (x_host_to_value X p') False now s'"
      "ensure_scope X s (hr_scope (hv_host v)) = Inr ()" and p': "hp_schema p' = hp_schema p"
      by (rule update_host_edit) auto
    from step_update c have f: "require_host_format s p (hr_scope (hv_host v)) = Inr ()"
      by (auto simp: update_host_def Let_def)
    show ?thesis by (rule edit [OF r]) (rule format_payload [OF assms(3) f _ p'])
  next
    case (step_delete i rv now)
    with assms(2) show ?thesis by (rule delete_host_edit) (rule edit, assumption+, simp)
  next
    case (step_forget i rv endpoint pin now)
    from assms(2) step_forget obtain v :: host_view where
      c: "get_host X s i = Inr v" and e: "ensure_scope X s (hr_scope (hv_host v)) = Inr ()"
      and r: "row_edit s (hr_scope (hv_host v)) i
         (x_host_to_value X ((hr_payload (hv_host v))\<lparr>hp_host_key := None\<rparr>)) False now s'"
      by (rule forget_host_key_edit) (simp add: checked_host_Inr)
    show ?thesis by (rule edit [OF r e]) (rule old [OF _ c], simp_all)
  next
    case (step_pin i endpoint prev cand now)
    from assms(2) step_pin show ?thesis
    proof (cases rule: pin_host_key_edit)
      case (same v)
      with False show ?thesis by simp
    next
      case (pinned v)
      show ?thesis by (rule edit [OF pinned(6,2)]) (rule old [OF _ pinned(1)], simp_all)
    qed
  qed
qed

section \<open>Properties\<close>

text \<open>C38. Validity is an invariant of the host library: whatever sequence of creations, updates,
  deletions, moves, pinned and forgotten keys is applied to a valid state, every state on the way
  is valid, so it can be saved and will load again; this holds also while an account operation is
  pending, whose prepared states stay valid with it.\<close>

theorem host_edits_keep_valid:
  assumes "(repo_step X)\<^sup>*\<^sup>* s s'" and "maps_ok s" and "host_serde X" and "validate_state X U s = Inr ()"
  shows "validate_state X U s' = Inr ()"
  using assms(1)
proof (induction rule: rtranclp_induct)
  case base
  show ?case by (rule assms(4))
next
  case (step t u)
  from repo_steps_keep [OF step(1) assms(2)] have "maps_ok t" by blast
  from repo_step_valid [OF step(2) this assms(3) step(3)] show ?case .
qed

definition sample_relay :: relay_env where
  "sample_relay = \<lparr>x_url_parse = (\<lambda>_. None), x_injected_relay = None, x_debug_build = True\<rparr>"

lemma sample_serde: "host_serde sample_rext"
  unfolding host_serde_def
  by (auto simp: sample_host_json(2))
    (auto simp: sample_rext_def record_ext.defs crypto_ext.defs sample_payload_def split: option.splits if_splits)

theorem host_edits_keep_valid_witness:
  "validate_state sample_rext sample_relay (one_state (lit ''a'') 1 5) = Inr ()"
proof -
  have "validate_state sample_rext sample_relay sample_state = Inr ()"
    unfolding validate_state_Inr [of _ _ sample_state]
    by (simp add: validate_frame_def validate_sections_Inr validate_account_section_def
        valid_ids_def sample_state_def hex_ids schema_defs str_simps)
  with host_edits_keep_valid [OF _ sample_maps_ok(1) sample_serde] sample_create
  show ?thesis by (meson step_create r_into_rtranclp)
qed

end
