(* ===== verification/Library_Properties.thy ===== *)
theory Library_Properties
  imports Library_Review Validity_Properties
begin

text \<open>
  Moving the records of a device into the shared library: nothing is lost, nothing is left behind
  twice, and nothing else changes.
\<close>

section \<open>One row\<close>

definition local_rows :: "sync_state \<Rightarrow> record_kind \<Rightarrow> (rstr, local_record) btm" where
  "local_rows s kind = (if kind = RK_Group then ls_groups (st_local s) else ls_hosts (st_local s))"

definition row_key :: "local_record \<Rightarrow> rstr" where
  "row_key row = record_key (r_kind (lr_record row)) (r_id (lr_record row))"

text \<open>What the move of one row leaves behind.\<close>

definition moved_row :: "sync_state \<Rightarrow> rstr \<Rightarrow> local_record \<Rightarrow> bool" where
  "moved_row s destination row \<longleftrightarrow>
     (\<exists>new gone. bt_get (host_records s (HS_Space destination)) (row_key row) = Some new
        \<and> bt_get (local_rows s (r_kind (lr_record row))) (row_key row) = Some gone
        \<and> lr_dirty new \<and> r_deleted (lr_record gone) \<and> \<not> r_deleted (lr_record new)
        \<and> r_kind (lr_record new) = r_kind (lr_record row) \<and> r_id (lr_record new) = r_id (lr_record row)
        \<and> r_payload (lr_record new) = r_payload (lr_record row)
        \<and> remote_wins (lr_record new) (lr_record row) \<and> remote_wins (lr_record gone) (lr_record row))"

lemma put_local_keeps [simp]:
  "st_spaces (put_local kind key row s) = st_spaces s"
  "st_account (put_local kind key row s) = st_account s"
  "host_records (put_local kind key row s) (HS_Space i) = host_records s (HS_Space i)"
  "scope_open (put_local kind key row s) (HS_Space i) = scope_open s (HS_Space i)"
  by (simp_all add: put_local_def host_records_def scope_open_def)

lemma put_local_rows:
  "k \<in> {RK_Host, RK_Group} \<Longrightarrow> kind \<in> {RK_Host, RK_Group} \<Longrightarrow>
     local_rows (put_local kind key row s) k
       = (if k = kind then bt_insert key row (local_rows s k) else local_rows s k)"
  by (auto simp: put_local_def local_rows_def)

lemma put_space_local [simp]: "local_rows (put_host (HS_Space i) key row s) k = local_rows s k"
  by (simp add: put_host_def local_rows_def)

lemma include_row_effect:
  assumes "include_row s d now retained n row = Inr n'" and "r_kind (lr_record row) \<in> {RK_Host, RK_Group}"
    and "scope_open n (HS_Space d)"
  shows "moved_row n' d row" and "scope_open n' (HS_Space d)"
    and "\<And>k key. k \<in> {RK_Host, RK_Group} \<Longrightarrow> (k, key) \<noteq> (r_kind (lr_record row), row_key row) \<Longrightarrow>
      bt_get (local_rows n' k) key = bt_get (local_rows n k) key"
    and "\<And>key. key \<noteq> row_key row \<Longrightarrow>
      bt_get (host_records n' (HS_Space d)) key = bt_get (host_records n (HS_Space d)) key"
    and "\<And>i. i \<noteq> d \<Longrightarrow> bt_get (st_spaces n') i = bt_get (st_spaces n) i"
    and "\<And>k. bt_inv (local_rows n k) \<Longrightarrow> bt_inv (local_rows n' k)"
proof -
  let ?kind = "r_kind (lr_record row)" and ?key = "row_key row"
  define existing where "existing = bt_get (sp_records (bt_at (st_spaces s) d)) ?key"
  from assms(1) obtain stamped where
    st: "ordered_record s (r_id (lr_record row)) (r_payload (lr_record row)) False now
        (lr_record row # (case existing of None \<Rightarrow> [] | Some e \<Rightarrow> [lr_record e])) = Inr stamped"
    and n': "n' = put_host (HS_Space d) ?key
        (cached (stamped\<lparr>r_kind := ?kind\<rparr>) (case existing of None \<Rightarrow> 0 | Some e \<Rightarrow> lr_seq e) (HS_Space d))
        (put_local ?kind ?key (cached (stamped\<lparr>r_kind := ?kind, r_deleted := True, r_payload := JNull\<rparr>) (lr_seq row) HS_Local) n)"
    by (auto simp: include_row_def Let_def row_key_def existing_def)
  note f = ordered_record_Inr [OF st]
  have o: "scope_open (put_local ?kind ?key r n) (HS_Space d)" for r using assms(3) by simp
  note recs = put_host_records [OF o]
  show "moved_row n' d row"
    using f(1-5) f(8) assms(2)
    by (auto simp: moved_row_def n' recs put_local_rows cached_def remote_wins_iff)
  show "scope_open n' (HS_Space d)" using assms(3) by (simp add: n')
  show "bt_get (local_rows n' k) key = bt_get (local_rows n k) key"
    if "k \<in> {RK_Host, RK_Group}" "(k, key) \<noteq> (?kind, ?key)" for k key
    using that put_local_rows [OF that(1) assms(2)] by (auto simp: n')
  show "bt_get (host_records n' (HS_Space d)) key = bt_get (host_records n (HS_Space d)) key" if "key \<noteq> ?key" for key
    using that by (simp add: n' recs)
  show "bt_get (st_spaces n') i = bt_get (st_spaces n) i" if "i \<noteq> d" for i
    using that by (simp add: n' put_host_def)
  show "bt_inv (local_rows n' k)" if "bt_inv (local_rows n k)" for k
    using that by (auto simp: n' put_local_def local_rows_def put_host_def bt_inv_insert)
qed

section \<open>All rows\<close>

lemma include_rows_effect:
  assumes "for_each (include_row s d now retained) n rows = Inr n'"
    and "\<forall>row \<in> set rows. r_kind (lr_record row) \<in> {RK_Host, RK_Group}"
    and "distinct (map row_key rows)" and "scope_open n (HS_Space d)"
  shows "(\<forall>row \<in> set rows. moved_row n' d row) \<and> scope_open n' (HS_Space d)
    \<and> (\<forall>k key. k \<in> {RK_Host, RK_Group} \<and> (k, key) \<notin> (\<lambda>r. (r_kind (lr_record r), row_key r)) ` set rows \<longrightarrow>
         bt_get (local_rows n' k) key = bt_get (local_rows n k) key)
    \<and> (\<forall>key. key \<notin> row_key ` set rows \<longrightarrow>
         bt_get (host_records n' (HS_Space d)) key = bt_get (host_records n (HS_Space d)) key)
    \<and> (\<forall>i. i \<noteq> d \<longrightarrow> bt_get (st_spaces n') i = bt_get (st_spaces n) i)
    \<and> (\<forall>k. bt_inv (local_rows n k) \<longrightarrow> bt_inv (local_rows n' k))"
  using assms
proof (induction rows arbitrary: n)
  case Nil
  then show ?case by simp
next
  case (Cons row rows)
  from Cons.prems(1) obtain m where m: "include_row s d now retained n row = Inr m"
    "for_each (include_row s d now retained) m rows = Inr n'" by auto
  have k: "r_kind (lr_record row) \<in> {RK_Host, RK_Group}" using Cons.prems(2) by simp
  note one = include_row_effect [OF m(1) k Cons.prems(4)]
  from Cons.IH [OF m(2) _ _ one(2)] Cons.prems(2,3) have ih:
    "\<forall>row \<in> set rows. moved_row n' d row" "scope_open n' (HS_Space d)"
    "\<And>k key. k \<in> {RK_Host, RK_Group} \<Longrightarrow> (k, key) \<notin> (\<lambda>r. (r_kind (lr_record r), row_key r)) ` set rows \<Longrightarrow>
       bt_get (local_rows n' k) key = bt_get (local_rows m k) key"
    "\<And>key. key \<notin> row_key ` set rows \<Longrightarrow>
       bt_get (host_records n' (HS_Space d)) key = bt_get (host_records m (HS_Space d)) key"
    "\<And>i. i \<noteq> d \<Longrightarrow> bt_get (st_spaces n') i = bt_get (st_spaces m) i" "\<forall>k. bt_inv (local_rows m k) \<longrightarrow> bt_inv (local_rows n' k)"
    by auto
  have fresh: "row_key row \<notin> row_key ` set rows" using Cons.prems(3) by simp
  have "moved_row n' d row"
    using one(1) fresh by (simp add: moved_row_def ih(3) [OF k] ih(4) [OF fresh] image_iff)
  with ih one(3-6) show ?case by auto
qed

lemma live_rows_keys:
  assumes "maps_ok s" and "check_source_rows RK_Group (ls_groups (st_local s)) = Inr ()"
    and "check_source_rows RK_Host (ls_hosts (st_local s)) = Inr ()"
  shows "\<forall>row \<in> set (live_local_rows s). r_kind (lr_record row) \<in> {RK_Host, RK_Group}"
    and "distinct (map row_key (live_local_rows s))"
    and "\<And>k key row. k \<in> {RK_Host, RK_Group} \<Longrightarrow> bt_get (local_rows s k) key = Some row \<Longrightarrow>
      \<not> r_deleted (lr_record row) \<Longrightarrow> row \<in> set (live_local_rows s) \<and> key = row_key row \<and> r_kind (lr_record row) = k"
proof -
  have src: "key = row_key row \<and> r_kind (lr_record row) = kind"
    if "check_source_rows kind m = Inr ()" "(key, row) \<in> set m" for kind m key row
    using that by (fastforce simp: check_source_rows_def validate_cache_def Let_def row_key_def)
  note g = src [OF assms(2)] and h = src [OF assms(3)]
  show "\<forall>row \<in> set (live_local_rows s). r_kind (lr_record row) \<in> {RK_Host, RK_Group}"
    using g h by (auto simp: live_local_rows_def bt_values_def)
  have keys: "map row_key (bt_values m) = map fst m" if "\<And>key row. (key, row) \<in> set m \<Longrightarrow> key = row_key row" for m
    using that by (auto simp: bt_values_def)
  have "map row_key (bt_values (ls_groups (st_local s))) = map fst (ls_groups (st_local s))"
    "map row_key (bt_values (ls_hosts (st_local s))) = map fst (ls_hosts (st_local s))"
    using g h by (intro keys; blast)+
  moreover have "distinct (map fst (ls_groups (st_local s)))" "distinct (map fst (ls_hosts (st_local s)))"
    using assms(1) by (simp_all add: maps_ok_def bt_inv_distinct)
  moreover have "fst ` set (ls_groups (st_local s)) \<inter> fst ` set (ls_hosts (st_local s)) = {}"
    using g h by (fastforce simp: row_key_def)
  ultimately have "distinct (map row_key (bt_values (ls_groups (st_local s)) @ bt_values (ls_hosts (st_local s))))"
    by simp
  then show "distinct (map row_key (live_local_rows s))"
    unfolding live_local_rows_def by (rule distinct_map_filter)
  show "row \<in> set (live_local_rows s) \<and> key = row_key row \<and> r_kind (lr_record row) = k"
    if "k \<in> {RK_Host, RK_Group}" "bt_get (local_rows s k) key = Some row" "\<not> r_deleted (lr_record row)" for k key row
  proof -
    from bt_get_SomeD [OF that(2)] have m: "(key, row) \<in> set (local_rows s k)" .
    then have "snd (key, row) \<in> set (bt_values (local_rows s k))" by (simp only: bt_values_def set_map image_eqI)
    with that(3) have "row \<in> set (live_local_rows s)"
      by (auto simp: local_rows_def live_local_rows_def split: if_splits)
    moreover have "key = row_key row \<and> r_kind (lr_record row) = k"
      using m that(1) g [of key row] h [of key row] by (auto simp: local_rows_def split: if_splits)
    ultimately show ?thesis by blast
  qed
qed

lemma promote_keeps: "promote s scope confirmed now = Inr n \<Longrightarrow> st_local n = st_local s \<and> st_spaces n = st_spaces s"
  by (auto simp: promote_def Let_def split: if_splits)

lemma publish_local_keeps: "publish_local X s keys now = Inr n \<Longrightarrow> st_local n = st_local s \<and> st_spaces n = st_spaces s"
  by (auto simp: publish_local_def split: option.splits if_splits)

lemma include_existing_Inr:
  assumes "include_existing X U s d confirmed now keys = Inr s'" and "live_local_rows s \<noteq> []"
  obtains n m where "ensure_scope X s (HS_Space d) = Inr ()"
    "check_source_rows RK_Group (ls_groups (st_local s)) = Inr ()" "check_source_rows RK_Host (ls_hosts (st_local s)) = Inr ()"
    "st_local n = st_local s" "st_spaces n = st_spaces s"
    "for_each (include_row s d now (retained_legacy_aliases X s keys)) n (live_local_rows s) = Inr m"
    "st_local s' = st_local m" "st_spaces s' = st_spaces m"
    "validate_transition X s s' = Inr ()" "validate_state X U s' = Inr ()"
proof -
  from assms obtain n m where
    e: "ensure_scope X s (HS_Space d) = Inr ()"
    and c: "check_source_rows RK_Group (ls_groups (st_local s)) = Inr ()"
      "check_source_rows RK_Host (ls_hosts (st_local s)) = Inr ()"
    and n: "(if list_ex grouped_row (live_local_rows s) then promote s (HS_Space d) confirmed now else Inr s) = Inr n"
    and m: "for_each (include_row s d now (retained_legacy_aliases X s keys)) n (live_local_rows s) = Inr m"
    and p: "publish_local X m keys now = Inr s'"
    and v: "validate_transition X s s' = Inr ()" "validate_state X U s' = Inr ()"
    unfolding include_existing_def Let_def by (auto simp del: for_each.simps split: if_splits)
  from n have "st_local n = st_local s" "st_spaces n = st_spaces s"
    using promote_keeps by (auto split: if_splits)
  with e c m v publish_local_keeps [OF p] show thesis by (intro that [of n m]) simp_all
qed

text \<open>Including the records of a device in the shared library moves all of them: every live host
  and group of the device is in the library under the same identity with the same payload, marked
  for upload, and has a tombstone on the device, both newer than what they replace; no live record
  stays behind; the other spaces and all other rows of the library are untouched; and the new
  state is valid.\<close>

theorem include_existing_moves_all:
  assumes "maps_ok s" and "include_existing X U s d confirmed now keys = Inr s'" and "validate_state X U s = Inr ()"
  shows "(\<forall>row \<in> set (live_local_rows s). moved_row s' d row)
    \<and> live_local_rows s' = []
    \<and> (\<forall>i. i \<noteq> d \<longrightarrow> bt_get (st_spaces s') i = bt_get (st_spaces s) i)
    \<and> (\<forall>key. key \<notin> row_key ` set (live_local_rows s) \<longrightarrow>
         bt_get (host_records s' (HS_Space d)) key = bt_get (host_records s (HS_Space d)) key)
    \<and> validate_state X U s' = Inr ()"
proof (cases "live_local_rows s = []")
  case True
  with assms(2) have "s' = s" by (auto simp: include_existing_def Let_def)
  with True assms(3) show ?thesis by simp
next
  case False
  from assms(2) False obtain n m where e: "ensure_scope X s (HS_Space d) = Inr ()"
    and c: "check_source_rows RK_Group (ls_groups (st_local s)) = Inr ()"
      "check_source_rows RK_Host (ls_hosts (st_local s)) = Inr ()"
    and n: "st_local n = st_local s" "st_spaces n = st_spaces s"
    and m: "for_each (include_row s d now (retained_legacy_aliases X s keys)) n (live_local_rows s) = Inr m"
    and s': "st_local s' = st_local m" "st_spaces s' = st_spaces m" and v: "validate_state X U s' = Inr ()"
    by (rule include_existing_Inr)
  note keys = live_rows_keys [OF assms(1) c]
  have same: "local_rows s' = local_rows m" "local_rows n = local_rows s"
    "host_records s' (HS_Space d) = host_records m (HS_Space d)" "host_records n (HS_Space d) = host_records s (HS_Space d)"
    using n s' by (auto simp: local_rows_def host_records_def fun_eq_iff)
  have "scope_open n (HS_Space d)" using e n by (simp add: ensure_scope_Inr scope_open_def)
  note all = include_rows_effect [OF m keys(1,2) this, unfolded same(2,4) n(2)]
  have dead: "r_deleted (lr_record row)" if "bt_get (local_rows s' k) key = Some row" "k \<in> {RK_Host, RK_Group}" for k key row
  proof (cases "(k, key) \<in> (\<lambda>r. (r_kind (lr_record r), row_key r)) ` set (live_local_rows s)")
    case True
    with all that(1) show ?thesis by (fastforce simp: moved_row_def same)
  next
    case False
    with that all have "bt_get (local_rows s k) key = Some row" by (simp add: same)
    with keys(3) [OF that(2) this] False show ?thesis by force
  qed
  have "r_deleted (lr_record row)" if "k \<in> {RK_Host, RK_Group}" "row \<in> set (bt_values (local_rows s' k))" for k row
  proof -
    have "bt_inv (local_rows s k)" using assms(1) by (simp add: maps_ok_def local_rows_def)
    then have "bt_inv (local_rows s' k)" using all by (simp add: same)
    with that(2) obtain key where "bt_get (local_rows s' k) key = Some row"
      by (auto simp: bt_values_def simp flip: bt_get_iff)
    with dead that(1) show ?thesis by blast
  qed
  from this [of RK_Host] this [of RK_Group] have "live_local_rows s' = []"
    by (auto simp: live_local_rows_def local_rows_def filter_empty_conv)
  with all v s' same show ?thesis by (simp add: moved_row_def)
qed

section \<open>A device with one host\<close>

text \<open>A snapshot with a single host that uses no group and no jump.\<close>

lemma lone_snapshot:
  assumes "validate_header s = Inr ()" and "list_keys X s = Inr keys" and "list_groups X s = Inr groups"
    and "collect_hosts X s = Inr [row_view scope se l h]" and "validate_host X h = Inr ()"
    and "hp_group_id (hr_payload h) = None" "hp_inherit (hr_payload h) = []" "hp_jump (hr_payload h) = []"
  shows "\<exists>snap v. snapshot X s = Inr snap \<and> snap_hosts snap = [v] \<and> hv_host v = h
    \<and> hv_effective_payload v = hr_payload h \<and> hv_group_error v = None"
  using assms resolve_effective_ungrouped [of h X s]
  by (simp add: snapshot_def apply_effective_def row_view_def)

lemma lone_transition:
  assumes "snapshot X s = Inr old" and "snapshot X s' = Inr new" "snap_hosts new = [v]"
    and "hv_group_error v = None" and "hp_jump (hv_effective_payload v) = []"
  shows "validate_transition X s s' = Inr ()"
proof -
  have i: "host_index [v] (hr_id (hv_host v)) = Inr 0" by (simp add: host_index_Inr)
  have "route_indices [v] (hr_id (hv_host v)) = Inr [0]"
    by (simp add: route_indices_def i append_indices.simps add_index_def MAX_JUMPS_def assms(5))
  then show ?thesis
    using assms by (simp add: validate_transition_def transition_check_def duplicate_id_def alias_conflict_def)
qed

definition lib_ext :: merge_ext where
  "lib_ext = record_ext.extend sample_rext (merge_ext.fields (\<lambda>_. None) (\<lambda>_. None) (\<lambda>_. None))"

definition lib_space :: rstr where
  "lib_space = replicate 64 49"

definition lib_row :: "bool \<Rightarrow> u64 \<Rightarrow> u64 \<Rightarrow> host_scope \<Rightarrow> local_record" where
  "lib_row deleted v t scope = cached \<lparr>r_kind = RK_Host, r_id = sample_id, r_version = v, r_updated_at_ms = t,
     r_device_id = replicate 32 48, r_deleted = deleted,
     r_payload = (if deleted then JNull else x_host_to_value sample_rext sample_payload)\<rparr> 0 scope"

definition lib_state :: "local_record \<Rightarrow> (rstr, local_record) btm \<Rightarrow> sync_state" where
  "lib_state row shared = (sample_state)\<lparr>
     st_local := (st_local sample_state)\<lparr>ls_hosts := [(record_key RK_Host sample_id, row)]\<rparr>,
     st_account := Some (account_new (replicate 64 48)),
     st_spaces := [(lib_space, \<lparr>sp_selected = True, sp_cursor_seq = 0, sp_baseline_established = True,
       sp_records = shared, sp_sealed = [], sp_last_error = None, sp_missing = False\<rparr>)]\<rparr>"

definition lib_host :: "host_scope \<Rightarrow> host_record" where
  "lib_host scope = \<lparr>hr_id = sample_id, hr_scope = scope, hr_payload = sample_payload\<rparr>"

abbreviation lib_before :: sync_state where
  "lib_before \<equiv> lib_state (lib_row False 1 5 HS_Local) []"

abbreviation lib_after :: sync_state where
  "lib_after \<equiv> lib_state (lib_row True 2 9 HS_Local) [(record_key RK_Host sample_id, lib_row False 2 9 (HS_Space lib_space))]"

lemma lib_json:
  "x_host_from_value lib_ext (x_host_to_value sample_rext sample_payload) = Inr sample_payload"
  "get_u64 (x_host_to_value sample_rext sample_payload) (lit ''schema'') = Some 2"
  by (simp_all add: lib_ext_def sample_rext_def record_ext.defs crypto_ext.defs merge_ext.defs bt_get_def sample_payload_def)

lemma lib_host_valid: "scope = HS_Local \<or> scope = HS_Space lib_space \<Longrightarrow> validate_host lib_ext (lib_host scope) = Inr ()"
  by (auto simp: validate_host_iff host_shape_ok_def lib_host_def sample_payload_def lib_space_def sample_id_def
      schema_defs hex_ids scope_ok_def alias_char_def starts_with_def MAX_JUMPS_def str_simps)

lemma lib_ids: "is_host_id sample_id" "is_slot_id (replicate 32 48)" "is_chain_id lib_space" "is_chain_id (replicate 64 48)"
  by (simp_all add: sample_id_def lib_space_def hex_ids str_simps)

lemma lib_decode:
  "scope = HS_Local \<or> scope = HS_Space lib_space \<Longrightarrow>
     decode_host lib_ext (lr_record (lib_row False v t scope')) scope = Inr (Live (lib_host scope))"
  "decode_host lib_ext (lr_record (lib_row True v t scope')) scope = Inr (Tombstone sample_id)"
proof -
  assume s: "scope = HS_Local \<or> scope = HS_Space lib_space"
  have "host_shape_ok lib_ext (lib_host scope)" using lib_host_valid [OF s] by (simp add: validate_host_iff)
  then show "decode_host lib_ext (lr_record (lib_row False v t scope')) scope = Inr (Live (lib_host scope))"
    by (simp add: decode_host_def lib_row_def cached_def lib_json Let_def validate_host_shape_iff lib_host_def
        lib_ids)
next
  show "decode_host lib_ext (lr_record (lib_row True v t scope')) scope = Inr (Tombstone sample_id)"
    by (simp add: decode_host_def lib_row_def cached_def lib_ids)
qed

lemma lib_row_keeps [simp]:
  "r_kind (lr_record (lib_row d v t scope)) = RK_Host" "r_id (lr_record (lib_row d v t scope)) = sample_id"
  "r_deleted (lr_record (lib_row d v t scope)) = d" "lr_seq (lib_row d v t scope) = 0"
  "r_version (lr_record (lib_row d v t scope)) = v" "r_updated_at_ms (lr_record (lib_row d v t scope)) = t"
  by (simp_all add: lib_row_def cached_def)

lemma lib_cache: "v \<noteq> 0 \<Longrightarrow> validate_cache (record_key RK_Host sample_id) (lib_row d v t scope) = Inr ()"
  by (simp add: validate_cache_def lib_row_def cached_def lib_ids)

lemma lib_state_keeps [simp]:
  "ls_hosts (st_local (lib_state row shared)) = [(record_key RK_Host sample_id, row)]"
  "ls_groups (st_local (lib_state row shared)) = []" "st_version (lib_state row shared) = 3"
  "st_device_id (lib_state row shared) = replicate 32 48" "ls_group_order (st_local (lib_state row shared)) = []"
  "st_account (lib_state row shared) = Some (account_new (replicate 64 48))"
  "st_pending_account (lib_state row shared) = None"
  "bt_get (st_spaces (lib_state row shared)) lib_space = Some \<lparr>sp_selected = True, sp_cursor_seq = 0,
     sp_baseline_established = True, sp_records = shared, sp_sealed = [], sp_last_error = None, sp_missing = False\<rparr>"
  by (simp_all add: lib_state_def sample_state_def schema_defs bt_get_def)

lemma lib_rest:
  assumes "\<And>k r. (k, r) \<in> set shared \<Longrightarrow> r_kind (lr_record r) = RK_Host"
  shows "validate_header (lib_state row shared) = Inr ()" "list_keys lib_ext (lib_state row shared) = Inr []"
    "list_groups lib_ext (lib_state row shared) = Inr []"
proof -
  show h: "validate_header (lib_state row shared) = Inr ()"
    by (simp add: validate_header_def schema_defs lib_ids account_new_def)
      (simp add: lib_state_def bt_keys_def lib_ids)
  show "list_keys lib_ext (lib_state row shared) = Inr []"
    by (simp add: list_keys_def h account_new_def bt_values_def bt_empty_def)
      (simp add: lib_state_def sample_state_def bt_values_def bt_empty_def)
  have "filter (\<lambda>(_, r). r_kind (lr_record r) = RK_Group) shared = []"
    using assms by (fastforce simp: filter_empty_conv)
  then show "list_groups lib_ext (lib_state row shared) = Inr []"
    by (simp add: list_groups_def group_scopes_def group_records_def)
      (simp add: lib_state_def bt_get_def bt_at_def)
qed

lemma lib_collect:
  "collect_hosts lib_ext lib_before = Inr [row_view HS_Local None (lib_row False 1 5 HS_Local) (lib_host HS_Local)]"
  "collect_hosts lib_ext lib_after
     = Inr [row_view (HS_Space lib_space) (Some []) (lib_row False 2 9 (HS_Space lib_space)) (lib_host (HS_Space lib_space))]"
  by (simp_all add: collect_hosts_Inr row_ok_def lib_cache lib_decode row_views_def space_views_def open_space_def)
    (simp_all add: lib_state_def row_ok_def lib_cache lib_decode row_views_def space_views_def open_space_def)

lemma lib_snapshots:
  "\<exists>snap. snapshot lib_ext lib_before = Inr snap"
  "\<exists>snap v. snapshot lib_ext lib_after = Inr snap \<and> snap_hosts snap = [v] \<and> hv_group_error v = None
     \<and> hp_jump (hv_effective_payload v) = []"
proof -
  have p: "hp_group_id (hr_payload (lib_host sc)) = None" "hp_inherit (hr_payload (lib_host sc)) = []"
    "hp_jump (hr_payload (lib_host sc)) = []" for sc by (simp_all add: lib_host_def sample_payload_def)
  show "\<exists>snap. snapshot lib_ext lib_before = Inr snap"
    using lone_snapshot [OF lib_rest lib_collect(1) lib_host_valid p] by auto
  show "\<exists>snap v. snapshot lib_ext lib_after = Inr snap \<and> snap_hosts snap = [v] \<and> hv_group_error v = None
     \<and> hp_jump (hv_effective_payload v) = []"
    using lone_snapshot [OF lib_rest lib_collect(2) lib_host_valid p] p by fastforce
qed

lemma lib_transition: "validate_transition lib_ext lib_before lib_after = Inr ()"
  using lib_snapshots lone_transition by blast

lemma lib_valid: "validate_state lib_ext sample_relay lib_before = Inr ()" "validate_state lib_ext sample_relay lib_after = Inr ()"
proof -
  have row: "cached_row_ok lib_ext scope (record_key RK_Host sample_id, lib_row d v t sc)"
    if "scope = HS_Local \<or> scope = HS_Space lib_space" for d scope v t sc
    using that by (cases d) (simp_all add: cached_row_ok_def validate_cache_key_def lib_decode)
  have plain: "\<not> grouped_row (lib_row d v t sc)" for d v t sc
    by (cases d) (simp_all add: grouped_row_def, simp_all add: lib_row_def cached_def lib_json)
  have "validate_frame (lib_state r sh) = Inr ()" for r sh
    by (simp add: validate_frame_def schema_defs lib_ids)
      (simp add: lib_state_def sample_state_def)
  moreover have "validate_sections lib_ext (lib_state (lib_row d v t HS_Local) sh) = Inr ()"
    if "sh = [] \<or> sh = [(record_key RK_Host sample_id, lib_row False 2 9 (HS_Space lib_space))]" for d v t sh
    using that unfolding validate_sections_Inr
    by (auto simp: row plain valid_ids_def validate_account_section_def account_new_def lib_ids validate_sealed_def bt_empty_def)
      (auto simp: lib_state_def sample_state_def validate_space_Inr lib_ids row plain validate_sealed_def)
  ultimately show "validate_state lib_ext sample_relay lib_before = Inr ()" "validate_state lib_ext sample_relay lib_after = Inr ()"
    unfolding validate_state_Inr [of _ _ lib_before] validate_state_Inr [of _ _ lib_after] by simp_all
qed

lemma lib_maps: "maps_ok lib_before"
  by (simp add: maps_ok_def account_new_def) (simp add: lib_state_def sample_state_def bt_inv_def)

lemma lib_include: "include_existing lib_ext sample_relay lib_before lib_space False 9 None = Inr lib_after"
proof -
  let ?key = "record_key RK_Host sample_id" and ?row = "lib_row False 1 5 HS_Local"
  have blocked: "\<not> account_writes_blocked lib_ext lib_before"
    by (simp add: account_writes_blocked_def account_migration_pending_def account_new_def bt_empty_def)
      (simp add: lib_state_def sample_state_def)
  have scope: "ensure_scope lib_ext lib_before (HS_Space lib_space) = Inr ()"
    by (simp add: ensure_scope_Inr scope_open_def open_space_def blocked)
  have space: "bt_at (st_spaces lib_before) lib_space = \<lparr>sp_selected = True, sp_cursor_seq = 0,
     sp_baseline_established = True, sp_records = [], sp_sealed = [], sp_last_error = None, sp_missing = False\<rparr>"
    by (simp add: bt_at_def)
  have sp_ex: "list_ex P (bt_values (st_spaces lib_before)) = P (bt_at (st_spaces lib_before) lib_space)" for P
    unfolding space by (simp add: lib_state_def bt_values_def)
  have rows: "live_local_rows lib_before = [?row]"
    by (simp add: live_local_rows_def bt_values_def)
  have plain: "\<not> grouped_row ?row"
    by (simp add: grouped_row_def) (simp add: lib_row_def cached_def lib_json)
  have stamp: "ordered_record lib_before sample_id (r_payload (lr_record ?row)) False 9 [lr_record ?row]
      = Inr (lr_record (lib_row False 2 9 HS_Local))"
    by (simp add: ordered_record_def checked_add_def) (simp add: lib_row_def cached_def)
  have free: "for_all (check_free_identity {} (lr_record ?row)) (st_spaces lib_before) = Inr ()"
    by (simp add: lib_state_def check_free_identity_def)
  have one: "include_row lib_before lib_space 9 {} lib_before ?row = Inr lib_after"
    using free stamp by (simp add: include_row_def Let_def space)
      (simp add: lib_state_def put_local_def put_host_def bt_modify_def bt_get_def lib_row_def cached_def sample_state_def)
  have "list_groups lib_ext lib_after = Inr []" by (rule lib_rest(3)) auto
  then have "validate_groups lib_ext lib_after (HS_Space lib_space) = Inr ()" "publish_local lib_ext lib_after None 9 = Inr lib_after"
    by (simp_all add: validate_groups_def publish_local_def)
  moreover have "retained_legacy_aliases lib_ext lib_before None = {}" by (simp add: retained_legacy_aliases_def)
  moreover have "check_source_rows RK_Group [] = Inr ()" "check_source_rows RK_Host [(?key, ?row)] = Inr ()"
    by (simp_all add: check_source_rows_def lib_cache)
  ultimately show ?thesis
    by (simp add: include_existing_def scope sp_ex space rows plain one lib_transition lib_valid Let_def)
qed

theorem include_existing_moves_all_witness:
  "moved_row lib_after lib_space (lib_row False 1 5 HS_Local) \<and> live_local_rows lib_after = []"
  using include_existing_moves_all [OF lib_maps lib_include lib_valid(1)]
  by (simp add: live_local_rows_def bt_values_def)

end
