(* ===== verification/Merge_Properties.thy ===== *)
theory Merge_Properties
  imports Record_Push
begin

text \<open>
  Properties of pulling and pushing, with a concrete envelope: the tombstone of a host, sealed under
  the sample keys.
\<close>

section \<open>Reports\<close>

lemma merge_space_cases:
  obtains (refused) "mo_gate (merge_space X section keys pulled since gate) \<noteq> Compatible"
      "mo_section (merge_space X section keys pulled since gate) = section"
      "mo_conflicts (merge_space X section keys pulled since gate) = []"
    | (merged) st where "gate = Compatible"
      "valid_pull (sp_cursor_seq section) (sp_baseline_established section)
         (max_seq (sp_records section) (sp_sealed section)) pulled since"
      "merge_rows X keys False \<lparr>ms_records = sp_records section, ms_sealed = sp_sealed section, ms_conflicts = [],
         ms_diagnostics = []\<rparr> (pl_records pulled) = (True, st)"
      "mo_gate (merge_space X section keys pulled since gate) = Compatible"
      "mo_section (merge_space X section keys pulled since gate) = section\<lparr>sp_records := ms_records st,
         sp_sealed := ms_sealed st, sp_cursor_seq := pl_latest_seq pulled, sp_baseline_established := True\<rparr>"
      "mo_conflicts (merge_space X section keys pulled since gate) = ms_conflicts st"
proof -
  let ?st = "\<lparr>ms_records = sp_records section, ms_sealed = sp_sealed section, ms_conflicts = [], ms_diagnostics = []\<rparr>"
  obtain ok st where r: "merge_rows X keys False ?st (pl_records pulled) = (ok, st)" by fastforce
  show thesis
  proof (cases "gate = Compatible \<and> valid_pull (sp_cursor_seq section) (sp_baseline_established section)
         (max_seq (sp_records section) (sp_sealed section)) pulled since \<and> ok")
    case True
    with r merged [of st] show thesis by (simp add: merge_space_def initial_report_def)
  next
    case False
    with r refused show thesis
      by (auto simp: merge_space_def initial_report_def refuse_page_def Let_def)
  qed
qed

lemma merge_account_cases:
  obtains (refused) "mo_gate (merge_account X section keys pulled since) \<noteq> Compatible"
      "mo_section (merge_account X section keys pulled since) = section"
    | (merged) s0 st sch where "account_gate_of X section keys pulled = (Compatible, sch)"
      "valid_pull (acc_cursor_seq section) (acc_baseline_established section)
         (max_seq (acc_records section) (acc_sealed section)) pulled since"
      "admit_retained_group_order X keys \<lparr>ms_records = acc_records section, ms_sealed = acc_sealed section,
         ms_conflicts = [], ms_diagnostics = []\<rparr> = (True, s0)"
      "merge_rows X keys True s0 (pl_records pulled) = (True, st)"
      "mo_gate (merge_account X section keys pulled since) = Compatible"
      "mo_section (merge_account X section keys pulled since) = section\<lparr>acc_records := ms_records st,
         acc_sealed := ms_sealed st, acc_cursor_seq := pl_latest_seq pulled, acc_baseline_established := True,
         acc_remote_schema_version := sch\<rparr>"
      "mo_conflicts (merge_account X section keys pulled since) = ms_conflicts st"
proof -
  let ?st = "\<lparr>ms_records = acc_records section, ms_sealed = acc_sealed section, ms_conflicts = [], ms_diagnostics = []\<rparr>"
  obtain gate sch where g: "account_gate_of X section keys pulled = (gate, sch)" by fastforce
  obtain ok0 s0 where a: "admit_retained_group_order X keys ?st = (ok0, s0)" by fastforce
  obtain ok st where r: "merge_rows X keys True s0 (pl_records pulled) = (ok, st)" by fastforce
  show thesis
  proof (cases "gate = Compatible \<and> valid_pull (acc_cursor_seq section) (acc_baseline_established section)
         (max_seq (acc_records section) (acc_sealed section)) pulled since \<and> ok0 \<and> ok")
    case True
    with g a r merged [of sch s0 st] show thesis by (simp add: merge_account_def initial_report_def)
  next
    case False
    with g a r refused show thesis
      by (cases ok0) (auto simp: merge_account_def initial_report_def refuse_page_def Let_def)
  qed
qed

lemma admit_order_effect:
  assumes "admit_retained_group_order X keys st = (ok, st')"
  shows "section_wf st \<Longrightarrow> section_wf st'"
    and "key \<noteq> order_key \<Longrightarrow> bt_get (ms_records st') key = bt_get (ms_records st) key \<or> \<not> ok"
    and "set (ms_conflicts st) \<subseteq> set (ms_conflicts st')"
proof -
  let ?k = "sealed_key (lit ''meta'') (id_hash X keys (lit ''meta'') RECORD_ID)"
  have "(section_wf st \<longrightarrow> section_wf st') \<and> (key \<noteq> order_key \<longrightarrow> bt_get (ms_records st') key = bt_get (ms_records st) key \<or> \<not> ok)
    \<and> set (ms_conflicts st) \<subseteq> set (ms_conflicts st')"
  proof (cases "bt_get (ms_sealed st) ?k")
    case None
    with assms show ?thesis by (simp add: admit_retained_group_order_def Let_def)
  next
    case (Some r)
    let ?st = "st\<lparr>ms_sealed := bt_remove ?k (ms_sealed st)\<rparr>"
    consider (kept) "st' = st" | (hint) h where "st' = st\<lparr>ms_sealed := bt_modify ?k (\<lambda>r. r\<lparr>sr_public_identity := h\<rparr>) (ms_sealed st)\<rparr>"
      | (row) rec where "open_record X keys (sr_envelope r) = Inr rec" "decode_order X rec \<noteq> None"
          "merge_rows X keys True ?st [sr_envelope r] = (ok, st')"
      using assms Some
      by (auto simp: admit_retained_group_order_def Let_def split: if_splits sum.splits)
    then show ?thesis
    proof cases
      case hint
      have "sealed_wf (ms_sealed st) \<Longrightarrow> sealed_wf (bt_modify ?k (\<lambda>r. r\<lparr>sr_public_identity := h\<rparr>) (ms_sealed st))"
        by (rule sealed_wf_modify) auto
      with hint show ?thesis by (simp add: section_wf_def)
    next
      case row
      have k: "record_key (r_kind rec) (r_id rec) = order_key"
        using row(2) by (auto simp: decode_order_def order_key_def split: if_splits)
      have "section_wf st \<Longrightarrow> section_wf ?st" by (simp add: section_wf_def sealed_wf_remove)
      with merge_rows_wf [OF row(3)] have w: "section_wf st \<Longrightarrow> section_wf st'" by blast
      have "set (ms_conflicts st) \<subseteq> set (ms_conflicts st')"
        by (rule merge_rows_inv [OF row(3)]) (use merge_row_conflicts in fastforce)+
      moreover have "bt_get (ms_records st') key = bt_get (ms_records st) key" if "key \<noteq> order_key" "ok"
        using merge_rows_arrivals [OF row(3) [unfolded \<open>ok\<close> [THEN eqTrueI]], of key] that k row(1)
        by (simp add: arrival_def)
      ultimately show ?thesis using w by blast
    qed simp
  qed
  then show "section_wf st \<Longrightarrow> section_wf st'"
    "key \<noteq> order_key \<Longrightarrow> bt_get (ms_records st') key = bt_get (ms_records st) key \<or> \<not> ok"
    "set (ms_conflicts st) \<subseteq> set (ms_conflicts st')" by blast+
qed

section \<open>A concrete envelope\<close>

definition tomb_rec :: sync_record where
  "tomb_rec = \<lparr>r_kind = RK_Host, r_id = replicate 16 48, r_version = 1, r_updated_at_ms = 5,
     r_device_id = replicate 32 48, r_deleted = True, r_payload = JNull\<rparr>"

definition tomb_fields :: "(rstr, json) btm" where
  "tomb_fields = [(lit ''deleted'', JBool True), (lit ''device_id'', JString (replicate 32 48)),
     (lit ''id'', JString (replicate 16 48)), (lit ''kind'', JString (lit ''host'')), (lit ''payload'', JNull),
     (lit ''updated_at_ms'', JNumber (PosInt 5)), (lit ''version'', JNumber (PosInt 1))]"

definition tomb_ext :: merge_ext where
  "tomb_ext = (record_ext.extend sample_rext (merge_ext.fields
     (\<lambda>_. Some \<lparr>mv_schema_version = 4, mv_created_by_app_version = [], mv_migration = None\<rparr>)
     (\<lambda>_. None) (\<lambda>_. None)))\<lparr>x_value_from_slice := (\<lambda>_. Some (JObject tomb_fields))\<rparr>"

definition tomb_env :: envelope where
  "tomb_env = \<lparr>e_id_hash = id_hash tomb_ext sample_keys (lit ''host'') (replicate 16 48), e_kind = lit ''host'',
     e_seq = 3, e_nonce = replicate 24 0, e_ciphertext = [], e_deleted = True\<rparr>"

definition fresh_space :: space_state where
  "fresh_space = \<lparr>sp_selected = True, sp_cursor_seq = 0, sp_baseline_established = False, sp_records = [],
     sp_sealed = [], sp_last_error = None, sp_missing = False\<rparr>"

definition tomb_page :: pull_response where
  "tomb_page = \<lparr>pl_records = [tomb_env], pl_latest_seq = 3\<rparr>"

lemma tomb_record: "record_of_fields tomb_fields = Inr tomb_rec"
  by (simp add: record_of_fields_def tomb_fields_def tomb_rec_def header_fields_def bt_get_def bt_keys_def
      parse_kind_def as_str.simps)

lemma tomb_open: "open_record tomb_ext sample_keys tomb_env = Inr tomb_rec"
proof -
  have v: "x_value_from_slice tomb_ext bs = Some (JObject tomb_fields)" for bs by (simp add: tomb_ext_def)
  have "\<exists>bs. open_sealed tomb_ext sample_keys (lit ''host'') h (sealed_of_envelope tomb_env) = Inr bs" for h
    by (simp add: open_sealed_def sealed_of_envelope_def tomb_env_def tomb_ext_def record_ext.defs sample_rext_def
        crypto_ext.defs sample_ext_def NONCE_LEN_def)
  moreover have "parse_kind (lit ''host'') = Some RK_Host" by (simp add: parse_kind_Some)
  ultimately show ?thesis
    using v tomb_record by (auto simp: open_record_def tomb_env_def tomb_rec_def)
qed

lemma tomb_valid: "valid_public tomb_ext tomb_rec False keys"
  by (simp add: valid_public_def tomb_rec_def decode_host_def null_tombstone_or_schema2_def is_null_def hex_ids str_simps)

lemma tomb_merge:
  "merge_space tomb_ext fresh_space sample_keys tomb_page 0 Compatible =
     \<lparr>mo_section = fresh_space\<lparr>sp_records := [(record_key RK_Host (replicate 16 48),
          \<lparr>lr_record = tomb_rec, lr_seq = 3, lr_dirty = False\<rparr>)], sp_cursor_seq := 3, sp_baseline_established := True\<rparr>,
      mo_gate = Compatible, mo_observed_schema = None, mo_skipped = 0, mo_conflicts = [], mo_diagnostics = [],
      mo_baseline_established = True\<rparr>"
proof -
  have k: "r_kind tomb_rec = RK_Host" "r_id tomb_rec = replicate 16 48" by (simp_all add: tomb_rec_def)
  have "merge_row tomb_ext sample_keys False
      \<lparr>ms_records = [], ms_sealed = [], ms_conflicts = [], ms_diagnostics = []\<rparr> tomb_env
    = (True, \<lparr>ms_records = [(record_key RK_Host (replicate 16 48), \<lparr>lr_record = tomb_rec, lr_seq = 3, lr_dirty = False\<rparr>)],
        ms_sealed = [], ms_conflicts = [], ms_diagnostics = []\<rparr>)"
    by (simp add: merge_row_def tomb_open admissible_def k tomb_valid merge_public_row_def opaque_blocks_def
        bt_remove_def Let_def) (simp add: tomb_env_def)
  moreover have "valid_pull 0 False 0 tomb_page 0"
    by (simp add: valid_pull_def tomb_page_def MAX_RELAY_SEQ_def pull_row_ok_pair) (simp add: tomb_env_def)
  ultimately show ?thesis
    by (simp add: merge_space_def fresh_space_def initial_report_def tomb_page_def max_seq_def bt_values_def len_u32_def)
qed

section \<open>Properties\<close>

lemma foldl_absorb_unbeaten:
  assumes "(r, q) \<in> set rs"
  shows "\<exists>row. foldl absorb l rs = Some row \<and> \<not> remote_wins r (lr_record row)"
proof -
  from assms obtain pre post where rs: "rs = pre @ (r, q) # post" by (meson split_list)
  have "\<exists>l1. absorb m (r, q) = Some l1 \<and> \<not> remote_wins r (lr_record l1)" for m
    by (cases m) (auto simp: absorb_def wins.irrefl)
  then obtain l1 where l1: "absorb (foldl absorb l pre) (r, q) = Some l1" "\<not> remote_wins r (lr_record l1)" by blast
  have "\<not> remote_wins (lr_record l1) (foldl (\<lambda>m r. if remote_wins r m then r else m) (lr_record l1) (map fst post))"
    using wins.run_unbeaten [of "lr_record l1" "map fst post"] by simp
  with l1(2) have n: "\<not> remote_wins r (foldl (\<lambda>m r. if remote_wins r m then r else m) (lr_record l1) (map fst post))"
    by (rule wins.negtrans)
  from foldl_absorb_record [of l1 post] obtain row where "foldl absorb (Some l1) post = Some row"
    "lr_record row = foldl (\<lambda>m r. if remote_wins r m then r else m) (lr_record l1) (map fst post)"
    by (metis (no_types, lifting) map_option_eq_Some)
  with l1(1) rs n show ?thesis by simp
qed

text \<open>C1. Merging a page into a space is last writer wins per record: after an accepted page every typed
  row is what one gets by absorbing, in order, the revisions of that record the page carries, and no
  revision of the page that this client can read beats the row that is kept.\<close>

theorem merge_space_rows:
  assumes "mo_gate (merge_space X section keys pulled since gate) = Compatible"
  shows "bt_get (sp_records (mo_section (merge_space X section keys pulled since gate))) key
      = foldl absorb (bt_get (sp_records section) key) (concat (map (arrival X keys False key) (pl_records pulled)))
    \<and> (\<forall>env rec seq. env \<in> set (pl_records pulled) \<and> (rec, seq) \<in> set (arrival X keys False key env) \<longrightarrow>
         (\<exists>row. bt_get (sp_records (mo_section (merge_space X section keys pulled since gate))) key = Some row
            \<and> \<not> remote_wins rec (lr_record row)))"
proof (cases rule: merge_space_cases [of X "section" keys pulled since gate])
  case refused
  with assms show ?thesis by simp
next
  case (merged st)
  let ?rs = "concat (map (arrival X keys False key) (pl_records pulled))"
  have rows: "bt_get (sp_records (mo_section (merge_space X section keys pulled since gate))) key
      = foldl absorb (bt_get (sp_records section) key) ?rs"
    using merge_rows_arrivals [OF merged(3), of key] merged(5) by simp
  have "(rec, seq) \<in> set ?rs" if "env \<in> set (pl_records pulled)" "(rec, seq) \<in> set (arrival X keys False key env)" for env rec seq
    using that by auto
  with foldl_absorb_unbeaten show ?thesis unfolding rows by blast
qed

theorem merge_space_rows_witness:
  "bt_get (sp_records (mo_section (merge_space tomb_ext fresh_space sample_keys tomb_page 0 Compatible)))
     (record_key RK_Host (replicate 16 48))
   = foldl absorb None [(tomb_rec, 3)]"
proof -
  have "arrival tomb_ext sample_keys False (record_key RK_Host (replicate 16 48)) tomb_env = [(tomb_rec, 3)]"
    by (simp add: arrival_def tomb_open tomb_valid) (simp add: tomb_rec_def tomb_env_def)
  moreover have "mo_gate (merge_space tomb_ext fresh_space sample_keys tomb_page 0 Compatible) = Compatible"
    by (simp add: tomb_merge)
  ultimately show ?thesis
    using merge_space_rows [of tomb_ext fresh_space sample_keys tomb_page 0 Compatible "record_key RK_Host (replicate 16 48)"]
    by (simp add: tomb_page_def fresh_space_def)
qed

text \<open>C2. A page never silently discards unsent local work: a dirty row is still there, unchanged and
  dirty, or its key is reported as a conflict.\<close>

theorem merge_keeps_unsent:
  assumes "bt_get (sp_records section) key = Some row" and "lr_dirty row"
  shows "key \<in> set (mo_conflicts (merge_space X section keys pulled since gate))
    \<or> (\<exists>row'. bt_get (sp_records (mo_section (merge_space X section keys pulled since gate))) key = Some row'
         \<and> lr_record row' = lr_record row \<and> lr_dirty row')"
proof (cases rule: merge_space_cases [of X "section" keys pulled since gate])
  case refused
  with assms show ?thesis by simp
next
  case (merged st)
  with merge_rows_dirty [OF merged(3), of key row] assms show ?thesis by simp
qed

text \<open>The space with an unsent edit that is older than the tombstone of the page.\<close>

definition edited_space :: space_state where
  "edited_space = fresh_space\<lparr>sp_records := [(record_key RK_Host (replicate 16 48),
     \<lparr>lr_record = tomb_rec\<lparr>r_updated_at_ms := 2, r_deleted := False\<rparr>, lr_seq = 0, lr_dirty = True\<rparr>)]\<rparr>"

theorem merge_keeps_unsent_witness:
  "record_key RK_Host (replicate 16 48)
     \<in> set (mo_conflicts (merge_space tomb_ext edited_space sample_keys tomb_page 0 Compatible))
   \<or> (\<exists>row'. bt_get (sp_records (mo_section (merge_space tomb_ext edited_space sample_keys tomb_page 0 Compatible)))
         (record_key RK_Host (replicate 16 48)) = Some row'
       \<and> lr_record row' = tomb_rec\<lparr>r_updated_at_ms := 2, r_deleted := False\<rparr> \<and> lr_dirty row')"
  using merge_keeps_unsent [of edited_space "record_key RK_Host (replicate 16 48)"
      "\<lparr>lr_record = tomb_rec\<lparr>r_updated_at_ms := 2, r_deleted := False\<rparr>, lr_seq = 0, lr_dirty = True\<rparr>"]
  by (simp add: edited_space_def bt_get_def)

text \<open>C3. Merging the account is all or nothing. Unless the report is compatible the account is returned
  untouched; if it is, the cursor has advanced to the page's end and never backwards, the chain and
  the freeze are unchanged, every cached row sits under its own key and no secret record is among
  the typed rows.\<close>

theorem merge_account_atomic:
  assumes "section_wf \<lparr>ms_records = acc_records section, ms_sealed = acc_sealed section, ms_conflicts = c,
      ms_diagnostics = d\<rparr>"
  shows "(mo_gate (merge_account X section keys pulled since) \<noteq> Compatible \<longrightarrow>
       mo_section (merge_account X section keys pulled since) = section)
    \<and> (\<forall>section'. mo_gate (merge_account X section keys pulled since) = Compatible
         \<and> section' = mo_section (merge_account X section keys pulled since) \<longrightarrow>
       acc_cursor_seq section \<le> acc_cursor_seq section' \<and> acc_cursor_seq section' = pl_latest_seq pulled
       \<and> acc_cursor_seq section' \<le> MAX_RELAY_SEQ \<and> acc_baseline_established section'
       \<and> acc_chain_id section' = acc_chain_id section \<and> acc_frozen section' = acc_frozen section
       \<and> rows_wf (acc_records section') \<and> sealed_wf (acc_sealed section'))"
proof (cases rule: merge_account_cases [of X "section" keys pulled since])
  case refused
  then show ?thesis by simp
next
  case (merged s0 st sch)
  have "section_wf \<lparr>ms_records = acc_records section, ms_sealed = acc_sealed section, ms_conflicts = [],
      ms_diagnostics = []\<rparr>" using assms by (simp add: section_wf_def)
  with admit_order_effect(1) [OF merged(3)] have "section_wf s0" by simp
  with merge_rows_wf [OF merged(4)] have "section_wf st" by simp
  with merged valid_pull_rows(1,3) [OF merged(2)] show ?thesis by (auto simp: section_wf_def)
qed

theorem merge_account_atomic_witness:
  "mo_gate (merge_account tomb_ext (account_new (replicate 64 48)) sample_keys tomb_page 0) \<noteq> Compatible
   \<and> mo_section (merge_account tomb_ext (account_new (replicate 64 48)) sample_keys tomb_page 0)
     = account_new (replicate 64 48)"
proof -
  let ?a = "account_new (replicate 64 48)"
  have w: "section_wf \<lparr>ms_records = acc_records ?a, ms_sealed = acc_sealed ?a, ms_conflicts = [], ms_diagnostics = []\<rparr>"
    by (simp add: section_wf_def rows_wf_def sealed_wf_def account_new_def bt_empty_def)
  have g: "fst (account_gate_of tomb_ext ?a sample_keys tomb_page) \<noteq> Compatible"
    by (simp add: account_gate_of_def account_new_def bt_empty_def tomb_page_def tomb_env_def gate_of_winner_def)
  then have "mo_gate (merge_account tomb_ext ?a sample_keys tomb_page 0) \<noteq> Compatible"
    by (cases "account_gate_of tomb_ext ?a sample_keys tomb_page") (simp add: merge_account_def initial_report_def)
  with merge_account_atomic [OF w] show ?thesis by blast
qed

text \<open>The gate in terms of its loop: the start, the metadata envelopes, the decision.\<close>

definition gate_start :: "account_state \<Rightarrow> u32 option \<times> local_record option \<times> bool" where
  "gate_start section =
     (case bt_get (acc_records section) account_meta_key of
        Some w \<Rightarrow> opt_max (acc_remote_schema_version section) (meta_schema (lr_record w))
      | None \<Rightarrow> acc_remote_schema_version section,
      bt_get (acc_records section) account_meta_key, False)"

definition meta_envelopes :: "'a merge_ext_scheme \<Rightarrow> chain_keys \<Rightarrow> pull_response \<Rightarrow> envelope list" where
  "meta_envelopes X keys pulled =
     filter (\<lambda>row. e_kind row = lit ''meta'' \<and> e_id_hash row = id_hash X keys (lit ''meta'') ACCOUNT_META_ID)
       (pl_records pulled)"

definition gate_decision :: "'a merge_ext_scheme \<Rightarrow> u32 option \<times> local_record option \<times> bool \<Rightarrow> account_gate \<times> u32 option" where
  "gate_decision X st =
     (case st of (sch, winner, unreadable) \<Rightarrow>
        (case opt_filter (\<lambda>v. v > ACCOUNT_SCHEMA) sch of
           Some v \<Rightarrow> (NeedsUpdate v, Some v)
         | None \<Rightarrow> if unreadable then (InvalidMigration, sch) else (gate_of_winner X sch winner, sch)))"

lemma account_gate_fold:
  "account_gate_of X section keys pulled =
     (if acc_chain_id section \<noteq> ck_chain_id keys then (InvalidPull, None)
      else gate_decision X (foldl (gate_step X keys) (gate_start section) (meta_envelopes X keys pulled)))"
  by (simp add: account_gate_of_def gate_decision_def gate_start_def meta_envelopes_def Let_def)

lemma valid_meta_error: "valid_meta X rec \<noteq> Inl Compatible"
  by (auto simp: valid_meta_def rbind_def fail_if_def ok_or_def map_err_def split: sum.splits if_splits option.splits)

lemma gate_start_schema: "opt_le (acc_remote_schema_version section) (fst (gate_start section))"
  by (simp add: gate_start_def split: option.splits)

lemma gate_start_cached:
  assumes "bt_get (acc_records section) account_meta_key = Some c"
  shows "opt_le (meta_schema (lr_record c)) (fst (gate_start section))"
  using assms by (simp add: gate_start_def)

lemma gate_start_winner: "fst (snd (gate_start section)) = bt_get (acc_records section) account_meta_key"
  by (simp add: gate_start_def)

text \<open>The winner of the fold is the starting one or one of the revisions folded over.\<close>

lemma gate_fold_source:
  assumes "foldl (gate_step X keys) (sch, winner, un) envs = (sch', Some w, un')"
  shows "winner = Some w \<or> (\<exists>env \<in> set envs. open_record X keys env = Inr (lr_record w))"
  using assms
proof (induction envs arbitrary: sch winner un)
  case (Cons env envs)
  obtain s1 w1 u1 where g: "gate_step X keys (sch, winner, un) env = (s1, w1, u1)" by (metis prod_cases3)
  have "foldl (gate_step X keys) (s1, w1, u1) envs = (sch', Some w, un')" using Cons.prems g by simp
  from Cons.IH [OF this] g show ?case by (auto simp: gate_step_def split: sum.splits if_splits)
qed simp

text \<open>What an open gate says of the fold behind it.\<close>

lemma gate_compatible:
  assumes "account_gate_of X section keys pulled = (Compatible, sch)"
  obtains s w meta where
    "foldl (gate_step X keys) (gate_start section) (meta_envelopes X keys pulled) = (s, Some w, False)"
    "valid_meta X (lr_record w) = Inr meta" "\<forall>m. mv_migration meta = Some m \<longrightarrow> mg_phase m = MP_Active"
    "\<And>v. opt_le (Some v) s \<Longrightarrow> v \<le> ACCOUNT_SCHEMA"
proof -
  obtain s1 w1 u1 where f: "foldl (gate_step X keys) (gate_start section) (meta_envelopes X keys pulled) = (s1, w1, u1)"
    by (metis prod_cases3)
  have "gate_decision X (s1, w1, u1) = (Compatible, sch)"
    using assms f by (simp add: account_gate_fold split: if_splits)
  then have le: "opt_filter (\<lambda>v. v > ACCOUNT_SCHEMA) s1 = None" and u: "\<not> u1" and g: "gate_of_winner X s1 w1 = Compatible"
    by (auto simp: gate_decision_def split: if_splits option.splits)
  from g obtain w meta where w: "w1 = Some w" "valid_meta X (lr_record w) = Inr meta"
    "\<forall>m. mv_migration meta = Some m \<longrightarrow> mg_phase m = MP_Active"
    by (auto simp: gate_of_winner_def valid_meta_error split: option.splits if_splits sum.splits)
  have "v \<le> ACCOUNT_SCHEMA" if "opt_le (Some v) s1" for v
    using that le by (auto simp: opt_le_def opt_filter_def split: if_splits option.splits)
  with f u w that [of s1 w meta] show thesis by simp
qed

text \<open>C4. The account gate opens only for a settled, supported format: when it reports compatible, the
  keys are the account's and the winning metadata is the cached one or one opened from the page. It
  is live, of a supported schema and without a migration in progress. The cached metadata does not
  beat it, every metadata envelope of the page could be read and none of them beats it, and no
  schema above the supported one was seen: not remembered from earlier, not in the cached metadata,
  not in the page.\<close>

theorem account_gate_sound:
  assumes "account_gate_of X section keys pulled = (Compatible, sch)"
  shows "acc_chain_id section = ck_chain_id keys
    \<and> (\<exists>(w :: local_record) (meta :: meta_payload_v3). valid_meta X (lr_record w) = Inr meta \<and> MIN_ACCOUNT_SCHEMA \<le> mv_schema_version meta
      \<and> mv_schema_version meta \<le> ACCOUNT_SCHEMA \<and> \<not> r_deleted (lr_record w)
      \<and> (\<forall>m. mv_migration meta = Some m \<longrightarrow> mg_phase m = MP_Active)
      \<and> (bt_get (acc_records section) account_meta_key = Some w
          \<or> (\<exists>env \<in> set (pl_records pulled). e_kind env = lit ''meta''
              \<and> e_id_hash env = id_hash X keys (lit ''meta'') ACCOUNT_META_ID \<and> open_record X keys env = Inr (lr_record w)))
      \<and> (\<forall>c. bt_get (acc_records section) account_meta_key = Some c \<longrightarrow>
          \<not> remote_wins (lr_record c) (lr_record w) \<and> (\<forall>v. meta_schema (lr_record c) = Some v \<longrightarrow> v \<le> ACCOUNT_SCHEMA))
      \<and> (\<forall>v. acc_remote_schema_version section = Some v \<longrightarrow> v \<le> ACCOUNT_SCHEMA)
      \<and> (\<forall>env \<in> set (pl_records pulled). e_kind env = lit ''meta''
            \<and> e_id_hash env = id_hash X keys (lit ''meta'') ACCOUNT_META_ID \<longrightarrow>
          (\<exists>rec. open_record X keys env = Inr rec \<and> \<not> remote_wins rec (lr_record w)
             \<and> (\<forall>v. meta_schema rec = Some v \<longrightarrow> v \<le> ACCOUNT_SCHEMA))))"
proof -
  obtain s w meta where F: "foldl (gate_step X keys) (gate_start section) (meta_envelopes X keys pulled) = (s, Some w, False)"
    and w: "valid_meta X (lr_record w) = Inr meta" "\<forall>m. mv_migration meta = Some m \<longrightarrow> mg_phase m = MP_Active"
    and le: "\<And>v. opt_le (Some v) s \<Longrightarrow> v \<le> ACCOUNT_SCHEMA"
    using gate_compatible [OF assms] by blast
  obtain s0 w0 u0 where st: "gate_start section = (s0, w0, u0)" by (metis prod_cases3)
  note f = F [unfolded st]
  have w0: "w0 = bt_get (acc_records section) account_meta_key" using gate_start_winner [of "section"] st by simp
  have chain: "acc_chain_id section = ck_chain_id keys"
    using assms by (simp add: account_gate_of_def split: if_splits)
  have past: "\<forall>v. acc_remote_schema_version section = Some v \<longrightarrow> v \<le> ACCOUNT_SCHEMA"
    using gate_start_schema [of "section"] gate_fold_schema(1) [OF f] opt_le_trans st le by (metis fst_conv)
  have from_page: "bt_get (acc_records section) account_meta_key = Some w
      \<or> (\<exists>env \<in> set (meta_envelopes X keys pulled). open_record X keys env = Inr (lr_record w))"
    using gate_fold_source [OF f] w0 by simp
  have held: "\<not> remote_wins (lr_record c) (lr_record w) \<and> (\<forall>v. meta_schema (lr_record c) = Some v \<longrightarrow> v \<le> ACCOUNT_SCHEMA)"
    if c: "bt_get (acc_records section) account_meta_key = Some c" for c
    using gate_fold_winner(3) [OF f, of c] w0 c gate_start_cached [OF c] gate_fold_schema(1) [OF f] opt_le_trans st le
    by (metis fst_conv option.inject)
  have page: "\<exists>rec. open_record X keys env = Inr rec \<and> \<not> remote_wins rec (lr_record w)
      \<and> (\<forall>v. meta_schema rec = Some v \<longrightarrow> v \<le> ACCOUNT_SCHEMA)" if e: "env \<in> set (meta_envelopes X keys pulled)" for env
    using gate_fold_winner(2) [OF f e] gate_fold_schema(2) [OF f e] le by (metis option.inject)
  have "MIN_ACCOUNT_SCHEMA \<le> mv_schema_version meta" "mv_schema_version meta \<le> ACCOUNT_SCHEMA" "\<not> r_deleted (lr_record w)"
    using w(1) by (auto simp: valid_meta_def)
  with w past held page from_page chain show ?thesis
    by (intro conjI exI [of _ w] exI [of _ meta]) (auto simp: meta_envelopes_def)
qed

text \<open>An account whose metadata is cached.\<close>

definition settled_account :: account_state where
  "settled_account = (account_new (ck_chain_id sample_keys))\<lparr>acc_records := [(account_meta_key,
     \<lparr>lr_record = \<lparr>r_kind = RK_Meta, r_id = ACCOUNT_META_ID, r_version = 1, r_updated_at_ms = 1,
        r_device_id = replicate 32 48, r_deleted = False,
        r_payload = JObject [(lit ''schema_version'', JNumber (PosInt 4))]\<rparr>, lr_seq = 1, lr_dirty = False\<rparr>)]\<rparr>"

lemma settled_gate: "account_gate_of tomb_ext settled_account sample_keys tomb_page = (Compatible, Some 4)"
proof -
  have m: "x_meta_v3_from_value tomb_ext v = Some \<lparr>mv_schema_version = 4, mv_created_by_app_version = [], mv_migration = None\<rparr>" for v
    by (simp add: tomb_ext_def record_ext.defs merge_ext.defs)
  show ?thesis
    by (simp add: account_gate_of_def settled_account_def account_new_def bt_get_def tomb_page_def tomb_env_def
        gate_of_winner_def meta_schema_def u32_try_from_def opt_max_def schema_defs valid_meta_def m)
qed

theorem account_gate_sound_witness:
  "account_gate_of tomb_ext settled_account sample_keys tomb_page = (Compatible, Some 4)
    \<and> acc_chain_id settled_account = ck_chain_id sample_keys
    \<and> (\<exists>(w :: local_record) (c :: local_record) (meta :: meta_payload_v3). bt_get (acc_records settled_account) account_meta_key = Some c
        \<and> valid_meta tomb_ext (lr_record w) = Inr meta \<and> mv_schema_version meta \<le> ACCOUNT_SCHEMA
        \<and> \<not> remote_wins (lr_record c) (lr_record w))"
proof -
  obtain c where "bt_get (acc_records settled_account) account_meta_key = Some c"
    by (simp add: settled_account_def bt_get_def)
  with account_gate_sound [OF settled_gate] settled_gate show ?thesis by blast
qed

text \<open>C5. A client that has once seen a newer account format stays read-only: whatever the page holds, the
  gate asks for an update and the merge leaves the account untouched.\<close>

theorem newer_account_blocks:
  assumes "acc_remote_schema_version section = Some v" and "v > ACCOUNT_SCHEMA"
    and "acc_chain_id section = ck_chain_id keys"
  shows "\<exists>v'. v \<le> v' \<and> account_gate_of X section keys pulled = (NeedsUpdate v', Some v')
    \<and> mo_section (merge_account X section keys pulled since) = section
    \<and> is_err (account_outgoing X random section keys)"
proof -
  have gate: "\<exists>v'. v \<le> v' \<and> account_gate_of X section keys page = (NeedsUpdate v', Some v')" for page
  proof -
    obtain s0 w0 u0 where st: "gate_start section = (s0, w0, u0)" by (metis prod_cases3)
    obtain s1 w1 u1 where f: "foldl (gate_step X keys) (s0, w0, u0) (meta_envelopes X keys page) = (s1, w1, u1)"
      by (metis prod_cases3)
    have "opt_le (Some v) s1"
      using gate_start_schema [of "section"] gate_fold_schema(1) [OF f] opt_le_trans st assms(1) by simp
    then obtain v' where v': "s1 = Some v'" "v \<le> v'" by (auto simp: opt_le_def)
    with assms(2) have "ACCOUNT_SCHEMA < v'" by simp
    with f st v' assms(3) show ?thesis by (simp add: account_gate_fold gate_decision_def)
  qed
  from gate [of pulled] obtain v' where v': "v \<le> v'" "account_gate_of X section keys pulled = (NeedsUpdate v', Some v')"
    by blast
  then have "mo_section (merge_account X section keys pulled since) = section"
    by (simp add: merge_account_def initial_report_def)
  moreover have "is_err (account_outgoing X random section keys)"
    using gate [of "\<lparr>pl_records = [], pl_latest_seq = acc_cursor_seq section\<rparr>"]
    by (auto simp: account_outgoing_def)
  ultimately show ?thesis using v' by blast
qed

theorem newer_account_blocks_witness:
  "\<exists>v'. 5 \<le> v' \<and> fst (account_gate_of tomb_ext (settled_account\<lparr>acc_remote_schema_version := Some 5\<rparr>) sample_keys tomb_page)
     = NeedsUpdate v'"
proof -
  let ?a = "settled_account\<lparr>acc_remote_schema_version := Some 5\<rparr>"
  have "acc_remote_schema_version ?a = Some 5" "5 > ACCOUNT_SCHEMA" "acc_chain_id ?a = ck_chain_id sample_keys"
    by (simp_all add: settled_account_def account_new_def schema_defs)
  from newer_account_blocks [OF this, of tomb_ext tomb_page] show ?thesis by force
qed

text \<open>A receipt of the relay acknowledges only what was sent: every typed row is unchanged or, if it
  is still the very revision that was pushed under its key, marked clean at a sequence number that is
  not lower; an edit made during the push stays dirty. The cursor is not touched.\<close>

theorem receipts_only_sent:
  "row_received sent_items key (bt_get (acc_records section) key)
      (bt_get (acc_records (apply_account_receipts section sent_items accepted)) key)
   \<and> sealed_received sent_items key (bt_get (acc_sealed section) key)
      (bt_get (acc_sealed (apply_account_receipts section sent_items accepted)) key)
   \<and> acc_cursor_seq (apply_account_receipts section sent_items accepted) = acc_cursor_seq section"
proof -
  obtain r s where a: "apply_receipts sent_items accepted (acc_records section, acc_sealed section) = (r, s)" by fastforce
  with apply_receipts_rows [OF a, of key] show ?thesis by (simp add: apply_account_receipts_def)
qed

lemma encode_record_fields: "encode_record X rnd keys rec base = Inr item \<Longrightarrow> pi_base_seq item = base"
  by (auto simp: encode_record_def)

lemma open_encoded:
  assumes "crypto_laws X" and "length nonce = 24" and "encode_record X (Inr nonce) keys rec base = Inr item"
    and "\<And>m. x_record_to_vec X rec = Inr m \<Longrightarrow>
      \<exists>o'. x_value_from_slice X m = Some (JObject o') \<and> record_of_fields o' = Inr rec"
  shows "open_record X keys (envelope_of_item item seq) = Inr rec"
proof -
  from assms(3) obtain m sld where m: "x_record_to_vec X rec = Inr m"
    and sld: "seal X (Inr nonce) keys (as_str (r_kind rec)) (r_id rec) m = Inr sld"
    and item: "item = \<lparr>pi_id_hash = s_id_hash sld, pi_kind = as_str (r_kind rec), pi_nonce = s_nonce sld,
          pi_ciphertext = s_ciphertext sld, pi_deleted = r_deleted rec, pi_base_seq = base\<rparr>"
    by (auto simp: encode_record_def)
  have "open_sealed X keys (as_str (r_kind rec)) (s_id_hash sld) sld = Inr m"
    by (rule open_seal [OF assms(1) _ sld]) (simp add: assms(2) NONCE_LEN_def)
  moreover have "sealed_of_envelope (envelope_of_item item seq) = sld"
    by (simp add: sealed_of_envelope_def envelope_of_item_def item)
  moreover have "s_id_hash sld = id_hash X keys (as_str (r_kind rec)) (r_id rec)" using seal_fields [OF sld] by auto
  moreover from assms(4) [OF m] obtain o' where "x_value_from_slice X m = Some (JObject o')" "record_of_fields o' = Inr rec"
    by blast
  ultimately show ?thesis by (simp add: open_record_def envelope_of_item_def item)
qed

text \<open>C6. What one device pushes another device of the same chain reads: a successful outgoing list of a
  space has exactly one item per dirty row, in order, each sealed from that row, and, when the row's
  text form reads back, opening the item as the relay stores it returns the row's record.\<close>

theorem outgoing_readable:
  assumes "crypto_laws X" and "space_outgoing X random section keys gate = Inr items"
    and "list_all (\<lambda>(_, row). \<not> sr_dirty row) (sp_sealed section)"
    and "\<And>key row m. (key, row) \<in> set (sp_records section) \<Longrightarrow> x_record_to_vec X (lr_record row) = Inr m \<Longrightarrow>
      \<exists>o'. x_value_from_slice X m = Some (JObject o') \<and> record_of_fields o' = Inr (lr_record row)"
    and "\<And>n nonce. random n = Inr nonce \<Longrightarrow> length nonce = 24"
  shows "gate = Compatible \<and> list_all2 (\<lambda>(key, row) sent. og_key (to_outgoing sent) = key
      \<and> to_expected sent = ExpectPublic (lr_record row)
      \<and> pi_base_seq (og_item (to_outgoing sent)) = lr_seq row
      \<and> open_record X keys (envelope_of_item (og_item (to_outgoing sent)) seq) = Inr (lr_record row))
    (filter (\<lambda>(_, row). lr_dirty row) (sp_records section)) items"
proof -
  let ?rows = "filter (\<lambda>(_, row). lr_dirty row) (sp_records section)"
  have "filter (\<lambda>(_, row). sr_dirty row) (sp_sealed section) = []"
    using assms(3) by (auto simp: filter_empty_conv list_all_iff)
  with assms(2) have g: "gate = Compatible"
    and f: "for_each (outgoing_public X random (sp_sealed section) keys False) [] ?rows = Inr items"
    by (auto simp: space_outgoing_def outgoing_def)
  have "list_all2 (sent_row X random keys) ?rows items" using outgoing_rows [OF f] by auto
  then have "list_all2 (\<lambda>(key, row) sent. og_key (to_outgoing sent) = key
      \<and> to_expected sent = ExpectPublic (lr_record row)
      \<and> pi_base_seq (og_item (to_outgoing sent)) = lr_seq row
      \<and> open_record X keys (envelope_of_item (og_item (to_outgoing sent)) seq) = Inr (lr_record row)) ?rows items"
  proof (rule list.rel_mono_strong)
    fix kr sent
    assume kr: "kr \<in> set ?rows" and sent: "sent_row X random keys kr sent"
    obtain key row where k: "kr = (key, row)" by (cases kr)
    from sent k obtain n where e: "encode_record X (random n) keys (lr_record row) (lr_seq row) = Inr (og_item (to_outgoing sent))"
      by (auto simp: sent_row_def)
    then have b: "pi_base_seq (og_item (to_outgoing sent)) = lr_seq row" by (rule encode_record_fields)
    from e obtain nonce where n: "random n = Inr nonce" by (auto simp: encode_record_def seal_def)
    have "open_record X keys (envelope_of_item (og_item (to_outgoing sent)) seq) = Inr (lr_record row)"
      by (rule open_encoded [OF assms(1) assms(5) [OF n] e [unfolded n] assms(4)]) (use kr k in auto)
    with sent b k show "(\<lambda>(key, row) sent. og_key (to_outgoing sent) = key
      \<and> to_expected sent = ExpectPublic (lr_record row)
      \<and> pi_base_seq (og_item (to_outgoing sent)) = lr_seq row
      \<and> open_record X keys (envelope_of_item (og_item (to_outgoing sent)) seq) = Inr (lr_record row)) kr sent"
      by (simp add: sent_row_def)
  qed
  with g show ?thesis by simp
qed

definition dirty_space :: space_state where
  "dirty_space = fresh_space\<lparr>sp_baseline_established := True, sp_records := [(record_key RK_Host (replicate 16 48),
     \<lparr>lr_record = tomb_rec, lr_seq = 2, lr_dirty = True\<rparr>)]\<rparr>"

theorem outgoing_readable_witness:
  "\<exists>item. space_outgoing tomb_ext (\<lambda>_. Inr (replicate 24 0)) dirty_space sample_keys Compatible = Inr [item]
     \<and> open_record tomb_ext sample_keys (envelope_of_item (og_item (to_outgoing item)) 9) = Inr tomb_rec"
proof -
  have laws: "crypto_laws tomb_ext"
    using sample_laws by (simp add: crypto_laws_def tomb_ext_def record_ext.defs sample_rext_def crypto_ext.defs)
  have k: "r_kind tomb_rec = RK_Host" "r_id tomb_rec = replicate 16 48" by (simp_all add: tomb_rec_def)
  have "\<exists>it. encode_record tomb_ext (Inr (replicate 24 0)) sample_keys tomb_rec 2 = Inr it"
    by (simp add: encode_record_def seal_def tomb_ext_def record_ext.defs sample_rext_def crypto_ext.defs sample_ext_def)
  then obtain it where it: "encode_record tomb_ext (Inr (replicate 24 0)) sample_keys tomb_rec 2 = Inr it" ..
  have "\<exists>item. space_outgoing tomb_ext (\<lambda>_. Inr (replicate 24 0)) dirty_space sample_keys Compatible = Inr [item]"
    by (simp add: space_outgoing_def dirty_space_def fresh_space_def outgoing_def outgoing_public_def it k tomb_valid)
  then obtain item where o: "space_outgoing tomb_ext (\<lambda>_. Inr (replicate 24 0)) dirty_space sample_keys Compatible = Inr [item]" ..
  have v: "x_value_from_slice tomb_ext m = Some (JObject tomb_fields)" for m by (simp add: tomb_ext_def)
  from outgoing_readable [OF laws o, of 9] o show ?thesis
    by (auto simp: dirty_space_def fresh_space_def v tomb_record list_all2_Cons1)
qed

end
