(* ===== verification/Record_Runtime.thy ===== *)
theory Record_Runtime
  imports State_V2 Utf8 Library_Review
begin

text \<open>
  The runtime around the record library: \<open>sync/record_runtime.rs\<close>, \<open>decode_state\<close> of
  \<open>sync/records_v3/state.rs\<close> and \<open>save_core\<close> and the commits of \<open>sync/runtime.rs\<close>.

  The world is the state behind the core lock (\<open>SyncCore\<close>), the disk and the loaded configuration. An
  operation that holds the core lock for its whole run is one function on the world. The state file is
  read and written through the modelled file system, in which any system call may fail. Codecs and
  random bytes are fields of the environment; \<open>x_debug_repository\<close> is the derived \<open>Debug\<close> text of an
  error.
\<close>

section \<open>Data\<close>

definition MAX_STATE_BYTES :: nat where
  "MAX_STATE_BYTES = 64 * 1024 * 1024"

datatype runtime_format = Legacy | Records | Blocked

datatype startup_error_kind = SK_Io | SK_UnsupportedVersion | SK_InvalidData | SK_TooLarge | SK_UnsafePath | SK_Identity

datatype decoded_state = DS_V1 legacy_state | DS_V2 sync_state_v2 | DS_V3 sync_state

datatype startup_probe =
    SP_Records sync_state bool
  | SP_Legacy decoded_state
  | SP_Blocked startup_error_kind rstr

record sync_core =
  sc_generation :: u64
  sc_format :: runtime_format
  sc_records :: "sync_state option"
  sc_legacy_paused :: bool
  sc_state :: "sync_state_v2 option"
  sc_account_keys :: "chain_keys option"
  sc_legacy :: "legacy_state option"
  sc_unsaved :: bool
  sc_save_blocked :: "rstr option"
  sc_conflict_streak :: u32
  sc_failed_rounds :: u32
  sc_batch_failures :: u32
  sc_relay_checked :: "rstr option"
  sc_rounds :: u64
  sc_swap_pending :: bool
  sc_swap_failures :: u32

definition core_default :: sync_core where
  "core_default = \<lparr>sc_generation = 0, sc_format = Legacy, sc_records = None, sc_legacy_paused = False, sc_state = None,
     sc_account_keys = None, sc_legacy = None, sc_unsaved = False, sc_save_blocked = None, sc_conflict_streak = 0,
     sc_failed_rounds = 0, sc_batch_failures = 0, sc_relay_checked = None, sc_rounds = 0, sc_swap_pending = False,
     sc_swap_failures = 0\<rparr>"

record 'd world =
  w_core :: sync_core
  w_disk :: disk
  w_doc :: "'d option"

record runtime_env = relay_env +
  x_os :: os_env
  x_codec :: v2_codec
  x_state_probe :: "rstr \<Rightarrow> rstr + u32"
  x_v1_from_str :: "rstr \<Rightarrow> rstr + legacy_state"
  x_v2_from_str :: "rstr \<Rightarrow> rstr + sync_state_v2"
  x_state_from_str :: "rstr \<Rightarrow> rstr + sync_state"
  x_state_to_vec :: "sync_state \<Rightarrow> rstr + bytes"
  x_json_from_slice :: "bytes \<Rightarrow> json option"
  x_sha256 :: "bytes \<Rightarrow> bytes"
  x_random16 :: "rstr + bytes"
  x_debug_repository :: "repository_error \<Rightarrow> rstr"
  x_state_path :: path

definition other :: "string \<Rightarrow> app_error" where
  "other m = AE_Other (lit m)"

definition SUPERSEDED :: rstr where
  "SUPERSEDED = lit ''sync round superseded by a newer sync state''"

definition UPGRADING_MESSAGE :: rstr where
  "UPGRADING_MESSAGE = lit ''Lunport is upgrading sync on this device; try again in a moment''"

definition superseded :: app_error where
  "superseded = AE_Other SUPERSEDED"

definition is_superseded :: "app_error \<Rightarrow> bool" where
  "is_superseded e \<longleftrightarrow> e = AE_Other SUPERSEDED"

definition state_path :: "os_env \<Rightarrow> app_error + path" where
  "state_path E = rbind (app_data_root E) (\<lambda>root. Inr (root @ [Normal (lit ''sync-state.json'')]))"

section \<open>Reading the state file\<close>

definition decode_state :: "'a record_ext_scheme \<Rightarrow> 'u runtime_env_scheme \<Rightarrow> rstr \<Rightarrow> record_validation_error + decoded_state" where
  "decode_state X U text =
     rbind (map_err state_decode_error (x_state_probe U text)) (\<lambda>v.
     if v = 1 then map_err state_decode_error (rbind (x_v1_from_str U text) (\<lambda>s. Inr (DS_V1 s)))
     else if v = 2 then map_err state_decode_error (rbind (x_v2_from_str U text) (\<lambda>s. Inr (DS_V2 s)))
     else if v \<in> {STATE_VERSION, GROUP_STATE_VERSION, NAVIGATION_STATE_VERSION} then
       rbind (map_err state_decode_error (x_state_from_str U text)) (\<lambda>s.
       rbind (validate_state X U s) (\<lambda>_. Inr (DS_V3 s)))
     else Inl (VE_UnsupportedSchema (lit ''state'') v))"

definition fresh_records :: "'u runtime_env_scheme \<Rightarrow> rstr \<Rightarrow> app_error + sync_state" where
  "fresh_records U device_name =
     rbind (v2_fresh U (x_random16 U) device_name) (\<lambda>identity.
     Inr \<lparr>st_version = STATE_VERSION, st_device_id = v2_device_id identity, st_device_name = v2_device_name identity,
       st_relay_url = v2_relay_url identity, st_account = None, st_spaces = [],
       st_local = \<lparr>ls_group_order = [], ls_groups = [], ls_hosts = [], ls_keys = [], ls_import_receipts = []\<rparr>,
       st_rotation = None, st_relay_features = None, st_legacy_v1_backup = None, st_phrase_cleanup_pending = False,
       st_migration_gate = None, st_shared_writes_blocked = False, st_pending_account = None, st_notices = [],
       st_last_sync_ms = None, st_last_error = None\<rparr>)"

definition blocked :: "startup_error_kind \<Rightarrow> string \<Rightarrow> startup_probe" where
  "blocked kind reason = SP_Blocked kind (lit reason)"

definition classify_state :: "'a record_ext_scheme \<Rightarrow> 'u runtime_env_scheme \<Rightarrow> bytes \<Rightarrow> startup_probe" where
  "classify_state X U b =
     (if length b > MAX_STATE_BYTES then blocked SK_TooLarge ''sync state exceeds the supported size limit''
      else
        (case from_utf8 b of
           None \<Rightarrow> blocked SK_InvalidData ''sync state is not valid UTF-8; original file retained''
         | Some text \<Rightarrow>
             (case decode_state X U text of
                Inr (DS_V3 s) \<Rightarrow> SP_Records s False
              | Inr s \<Rightarrow> SP_Legacy s
              | Inl (VE_UnsupportedSchema _ found) \<Rightarrow>
                  SP_Blocked SK_UnsupportedVersion (lit ''sync state has an unsupported format (version ''
                    @ dec (unat found) @ lit ''); original file retained'')
              | Inl _ \<Rightarrow> blocked SK_InvalidData ''sync state is malformed; original file retained'')))"

definition io_blocked :: "string \<Rightarrow> io_error \<Rightarrow> startup_probe" where
  "io_blocked what e = SP_Blocked SK_Io (lit what @ io_text e)"

definition probe_startup :: "'a record_ext_scheme \<Rightarrow> 'u runtime_env_scheme \<Rightarrow> rstr \<Rightarrow> disk \<Rightarrow> startup_probe \<times> disk" where
  "probe_startup X U device_name d =
     (let E = x_os U; p = x_state_path U in
      case check_write E p d of
        (Inl _, d) \<Rightarrow> (blocked SK_UnsafePath ''sync state path is outside this profile'', d)
      | (Inr _, d) \<Rightarrow>
      case symlink_metadata E p d of
        (Inl e, d) \<Rightarrow>
          (if io_kind e = IO_NotFound then
             (case fresh_records U device_name of
                Inr s \<Rightarrow> SP_Records s True
              | Inl _ \<Rightarrow> blocked SK_Identity ''cannot create a new device identity'')
           else io_blocked ''cannot inspect sync state: '' e, d)
      | (Inr node, d) \<Rightarrow>
          if \<not> is_file node then (blocked SK_UnsafePath ''sync state must be a regular file'', d)
          else if length (node_bytes node) > MAX_STATE_BYTES
          then (blocked SK_TooLarge ''sync state exceeds the supported size limit'', d)
          else
      case open_nofollow E p d of
        (Inl e, d) \<Rightarrow> (io_blocked ''cannot open sync state: '' e, d)
      | (Inr handle, d) \<Rightarrow>
      case on_file E handle d of
        (Inl e, d) \<Rightarrow> (io_blocked ''cannot inspect opened sync state: '' e, d)
      | (Inr opened, d) \<Rightarrow>
          if \<not> is_file opened then (blocked SK_UnsafePath ''sync state must be a regular file'', d)
          else if length (node_bytes opened) > MAX_STATE_BYTES
          then (blocked SK_TooLarge ''sync state exceeds the supported size limit'', d)
          else
      case on_file E (take (MAX_STATE_BYTES + 1) (node_bytes handle)) d of
        (Inl e, d) \<Rightarrow> (io_blocked ''cannot read sync state: '' e, d)
      | (Inr b, d) \<Rightarrow> (classify_state X U b, d))"

section \<open>Writing the state file\<close>

definition backup_file_name :: "'u runtime_env_scheme \<Rightarrow> u64 \<Rightarrow> bytes \<Rightarrow> rstr" where
  "backup_file_name U source_version source =
     lit ''sync-state-v'' @ dec (unat source_version) @ lit ''-'' @ hex (x_sha256 U source) @ lit ''.backup.json''"

text \<open>The byte-exact copy of a file of an older format, made before the first write of a newer one.\<close>

definition keep_backup :: "'u runtime_env_scheme \<Rightarrow> path \<Rightarrow> bytes \<Rightarrow> unit io" where
  "keep_backup U target source d =
     (let E = x_os U in
      case symlink_metadata E target d of
        (Inr node, d) \<Rightarrow>
          if \<not> is_file node then (Inl (other ''format backup must be a regular file''), d)
          else
            io_bind (try_io (read_file E target)) (\<lambda>b.
            if b \<noteq> source then io_fail (other ''format backup does not match source'') else io_return ()) d
      | (Inl e, d) \<Rightarrow>
          if io_kind e = IO_NotFound then atomic_write E target source d else (Inl (io e), d))"

definition format_backup :: "'u runtime_env_scheme \<Rightarrow> u32 \<Rightarrow> unit io" where
  "format_backup U version =
     (let E = x_os U; p = x_state_path U in
      io_bind (try_io (open_nofollow E p)) (\<lambda>handle.
      io_bind (try_io (on_file E handle)) (\<lambda>opened.
      if \<not> is_file opened then io_fail (other ''sync source must be a regular file'')
      else
        io_bind (try_io (on_file E (take (MAX_STATE_BYTES + 1) (node_bytes handle)))) (\<lambda>source.
        io_bind (io_lift (ok_or (other ''cannot read format upgrade source'') (x_json_from_slice U source))) (\<lambda>v.
        case opt_filter (\<lambda>n. n \<ge> 3 \<and> n < ucast version) (Option.bind (jget v (lit ''version'')) as_u64) of
          None \<Rightarrow> io_return ()
        | Some source_version \<Rightarrow>
            keep_backup U (with_file_name p (backup_file_name U source_version source)) source)))))"

definition save_active :: "'a record_ext_scheme \<Rightarrow> 'u runtime_env_scheme \<Rightarrow> sync_state \<Rightarrow> unit io" where
  "save_active X U s =
     (let E = x_os U; p = x_state_path U in
      io_bind (io_lift (map_err (\<lambda>_. other ''cannot save invalid record state'') (validate_state X U s))) (\<lambda>_.
      io_bind (io_lift (map_err (\<lambda>_. other ''cannot serialize record state'') (x_state_to_vec U s))) (\<lambda>b.
      io_bind (io_lift (fail_if (length b > MAX_STATE_BYTES) (other ''record state exceeds the supported size limit''))) (\<lambda>_.
      io_bind (\<lambda>d. case symlink_metadata E p d of
                 (Inr node, d) \<Rightarrow> (fail_if (\<not> is_file node) (other ''sync state must be a regular file''), d)
               | (Inl e, d) \<Rightarrow> (fail_if (io_kind e \<noteq> IO_NotFound) (io e), d)) (\<lambda>_.
      io_bind (\<lambda>d. if st_version s \<ge> GROUP_STATE_VERSION then
                 (case path_exists E p d of
                    (True, d) \<Rightarrow> format_backup U (st_version s) d
                  | (False, d) \<Rightarrow> (Inr (), d))
               else (Inr (), d)) (\<lambda>_.
      atomic_write E p b))))))"

section \<open>The core\<close>

definition clear_core :: "u64 \<Rightarrow> sync_core \<Rightarrow> sync_core" where
  "clear_core generation core =
     core\<lparr>sc_state := None, sc_records := None, sc_legacy := None, sc_account_keys := None, sc_save_blocked := None,
       sc_unsaved := False, sc_swap_pending := False, sc_swap_failures := 0, sc_conflict_streak := 0,
       sc_failed_rounds := 0, sc_batch_failures := 0, sc_relay_checked := None, sc_rounds := 0,
       sc_legacy_paused := True, sc_generation := generation\<rparr>"

definition exhausted :: app_error where
  "exhausted = other ''sync state generation exhausted''"

definition activate_probe :: "'a record_ext_scheme \<Rightarrow> 'u runtime_env_scheme \<Rightarrow> sync_core \<Rightarrow> startup_probe
    \<Rightarrow> app_error + sync_core" where
  "activate_probe X U core probe =
     rbind (case probe of
              SP_Records s _ \<Rightarrow> map_err (\<lambda>_. other ''cannot activate invalid record state'') (validate_state X U s)
            | SP_Legacy (DS_V3 _) \<Rightarrow> Inl (other ''invalid legacy startup selection'')
            | _ \<Rightarrow> Inr ()) (\<lambda>_.
     rbind (ok_or exhausted (checked_add (sc_generation core) 1)) (\<lambda>generation.
     let core = clear_core generation core in
     Inr (case probe of
            SP_Records s _ \<Rightarrow> core\<lparr>sc_format := Records, sc_records := Some s\<rparr>
          | SP_Legacy (DS_V1 s) \<Rightarrow> core\<lparr>sc_format := Legacy, sc_legacy := Some s\<rparr>
          | SP_Legacy (DS_V2 s) \<Rightarrow> core\<lparr>sc_format := Legacy, sc_state := Some s\<rparr>
          | SP_Blocked _ reason \<Rightarrow> core\<lparr>sc_format := Blocked, sc_save_blocked := Some reason\<rparr>
          | SP_Legacy (DS_V3 _) \<Rightarrow> core)))"

definition active_state :: "sync_core \<Rightarrow> app_error + sync_state" where
  "active_state core =
     (if sc_format core \<noteq> Records
      then Inl (AE_Other (case sc_save_blocked core of Some m \<Rightarrow> m | None \<Rightarrow> lit ''record workspace is not active''))
      else if sc_state core \<noteq> None \<or> sc_legacy core \<noteq> None
      then Inl (other ''record runtime contains legacy state'')
      else ok_or (other ''record workspace is not initialized'') (sc_records core))"

definition writes_allowed :: "sync_core \<Rightarrow> app_error + unit" where
  "writes_allowed core =
     (case sc_save_blocked core of
        Some reason \<Rightarrow> Inl (AE_Other reason)
      | None \<Rightarrow> rbind (active_state core) (\<lambda>_. Inr ()))"

definition core_snapshot :: "sync_core \<Rightarrow> app_error + sync_state \<times> u64" where
  "core_snapshot core = rbind (active_state core) (\<lambda>s. Inr (s, sc_generation core))"

section \<open>Commits\<close>

definition on_disk :: "'a io \<Rightarrow> ('d world, 'a) act" where
  "on_disk m w = (case m (w_disk w) of (r, d) \<Rightarrow> (r, w\<lparr>w_disk := d\<rparr>))"

text \<open>What a candidate becomes before it is written.\<close>

definition complete_candidate :: "'a merge_ext_scheme \<Rightarrow> 'u runtime_env_scheme \<Rightarrow> sync_core \<Rightarrow> sync_state
    \<Rightarrow> app_error + sync_state" where
  "complete_candidate X U core candidate =
     (let c1 = (if st_version candidate = STATE_VERSION \<and> has_group_data candidate
                then candidate\<lparr>st_version := GROUP_STATE_VERSION\<rparr> else candidate);
          c2 = include_new_records X U c1 (sc_account_keys core);
          c3 = (if has_navigation_data c2
                then c2\<lparr>st_version := max (st_version c2) NAVIGATION_STATE_VERSION\<rparr> else c2)
      in case sc_records core of
           Some before \<Rightarrow> map_err (\<lambda>e. AE_Other (x_debug_repository U e)) (invalidate_changed_pins X before c3)
         | None \<Rightarrow> Inr c3)"

definition foreign_keys :: "chain_keys option \<Rightarrow> sync_state \<Rightarrow> bool" where
  "foreign_keys keys s \<longleftrightarrow> is_some_and keys (\<lambda>k. map_option acc_chain_id (st_account s) \<noteq> Some (ck_chain_id k))"

definition persist_candidate :: "'a merge_ext_scheme \<Rightarrow> 'u runtime_env_scheme \<Rightarrow> sync_state \<Rightarrow> ('d world, u64) act" where
  "persist_candidate X U candidate w =
     (let core = w_core w in
      case rbind (writes_allowed core) (\<lambda>_.
           rbind (complete_candidate X U core candidate) (\<lambda>c.
           rbind (ok_or exhausted (checked_add (sc_generation core) 1)) (\<lambda>generation. Inr (c, generation)))) of
        Inl e \<Rightarrow> (Inl e, w)
      | Inr (c, generation) \<Rightarrow>
          (case on_disk (save_active X U c) w of
             (Inl e, w) \<Rightarrow> (Inl e, w)
           | (Inr _, w) \<Rightarrow>
               (Inr generation,
                w\<lparr>w_core := core\<lparr>sc_account_keys := (if foreign_keys (sc_account_keys core) c then None else sc_account_keys core),
                    sc_records := Some c, sc_generation := generation, sc_unsaved := False\<rparr>\<rparr>)))"

definition commit_candidate :: "'a merge_ext_scheme \<Rightarrow> 'u runtime_env_scheme \<Rightarrow> u64 \<Rightarrow> sync_state \<Rightarrow> ('d world, u64) act" where
  "commit_candidate X U expected_generation candidate w =
     (case rbind (writes_allowed (w_core w)) (\<lambda>_.
           fail_if (sc_generation (w_core w) \<noteq> expected_generation) superseded) of
        Inl e \<Rightarrow> (Inl e, w)
      | Inr _ \<Rightarrow> persist_candidate X U candidate w)"

definition pause_legacy_workspace :: "('d world, unit) act" where
  "pause_legacy_workspace w =
     (let core = w_core w in
      if sc_format core \<noteq> Legacy \<or> sc_save_blocked core \<noteq> None \<or> sc_unsaved core
      then (Inl (other ''the legacy workspace must be durable and available before pausing''), w)
      else if sc_legacy_paused core then (Inr (), w)
      else
        (case checked_add (sc_generation core) 1 of
           None \<Rightarrow> (Inl exhausted, w)
         | Some generation \<Rightarrow>
             (Inr (), w\<lparr>w_core := core\<lparr>sc_legacy_paused := True, sc_generation := generation\<rparr>\<rparr>)))"

definition commit_migration_candidate :: "'a merge_ext_scheme \<Rightarrow> 'u runtime_env_scheme \<Rightarrow> u64 \<Rightarrow> sync_state \<Rightarrow> chain_keys option
    \<Rightarrow> ('d world, u64) act" where
  "commit_migration_candidate X U expected_generation candidate keys w =
     (let core = w_core w;
          c = (if has_navigation_data candidate
               then candidate\<lparr>st_version := max (st_version candidate) NAVIGATION_STATE_VERSION\<rparr> else candidate)
      in case rbind (fail_if (sc_generation core \<noteq> expected_generation) superseded) (\<lambda>_.
              rbind (fail_if (sc_format core = Blocked \<or> sc_save_blocked core \<noteq> None)
                       (other ''migration activation is blocked on this device'')) (\<lambda>_.
              rbind (fail_if (sc_format core = Legacy \<and> \<not> sc_legacy_paused core)
                       (other ''pause the legacy workspace before migration activation'')) (\<lambda>_.
              rbind (fail_if (foreign_keys keys candidate)
                       (other ''migration account identity does not match its keys'')) (\<lambda>_.
              rbind (ok_or exhausted (checked_add (sc_generation core) 1)) (\<lambda>_. Inr ()))))) of
           Inl e \<Rightarrow> (Inl e, w)
         | Inr _ \<Rightarrow>
             (case on_disk (save_active X U c) w of
                (Inl e, w) \<Rightarrow> (Inl e, w)
              | (Inr _, w) \<Rightarrow>
                  (case activate_probe X U core (SP_Records c False) of
                     Inl e \<Rightarrow> (Inl e, w)
                   | Inr core \<Rightarrow>
                       (Inr (sc_generation core),
                        w\<lparr>w_core := core\<lparr>sc_account_keys := keys\<rparr>, w_doc := None\<rparr>))))"

definition mutate_records :: "'a merge_ext_scheme \<Rightarrow> 'u runtime_env_scheme \<Rightarrow> (sync_state \<Rightarrow> app_error + sync_state)
    \<Rightarrow> ('d world, u64) act" where
  "mutate_records X U transform w =
     (case rbind (writes_allowed (w_core w)) (\<lambda>_.
           rbind (active_state (w_core w)) transform) of
        Inl e \<Rightarrow> (Inl e, w)
      | Inr candidate \<Rightarrow> persist_candidate X U candidate w)"

definition read_account_keys :: "'a record_ext_scheme \<Rightarrow> 'u runtime_env_scheme \<Rightarrow> sync_state \<Rightarrow> app_error + rstr option
    \<Rightarrow> app_error + chain_keys option" where
  "read_account_keys X U s phrase =
     rbind (map_err (\<lambda>_. other ''cannot read keys for invalid record state'') (validate_state X U s)) (\<lambda>_.
     case st_account s of
       None \<Rightarrow> Inr None
     | Some account \<Rightarrow>
         rbind (map_err (\<lambda>_. other ''the sync code could not be read'') phrase) (\<lambda>p.
         rbind (ok_or (other ''the sync code is unavailable on this device'') p) (\<lambda>p.
         rbind (map_err (\<lambda>_. other ''the sync code is invalid'') (derive_account X p)) (\<lambda>keys.
         rbind (fail_if (ck_chain_id keys \<noteq> acc_chain_id account)
                  (other ''the sync code belongs to a different account'')) (\<lambda>_.
         Inr (Some keys))))))"

section \<open>Saving the core\<close>

definition legacy_writes_allowed :: "sync_core \<Rightarrow> app_error + unit" where
  "legacy_writes_allowed core =
     fail_if (sc_format core \<noteq> Legacy \<or> sc_records core \<noteq> None \<or> sc_legacy_paused core)
       (other ''legacy SSH workspace is not active'')"

text \<open>The core lock is held throughout. A refusal before the attempt leaves \<open>unsaved\<close> as it is.\<close>

definition mark_saved :: "(app_error + unit) \<times> 'd world \<Rightarrow> (app_error + unit) \<times> 'd world" where
  "mark_saved rw = (case rw of (r, w) \<Rightarrow> (r, w\<lparr>w_core := (w_core w)\<lparr>sc_unsaved := is_err r\<rparr>\<rparr>))"

definition save_core :: "'a record_ext_scheme \<Rightarrow> 'u runtime_env_scheme \<Rightarrow> ('d world, unit) act" where
  "save_core X U w =
     (let core = w_core w in
      case sc_save_blocked core of
        Some reason \<Rightarrow> (Inl (AE_Other reason), w)
      | None \<Rightarrow>
          (case sc_format core of
             Records \<Rightarrow>
               mark_saved (case active_state core of
                             Inl e \<Rightarrow> (Inl e, w)
                           | Inr s \<Rightarrow> on_disk (save_active X U s) w)
           | Blocked \<Rightarrow> (Inl (other ''sync workspace is blocked''), w)
           | Legacy \<Rightarrow>
               (case legacy_writes_allowed core of
                  Inl e \<Rightarrow> (Inl e, w)
                | Inr _ \<Rightarrow>
                    if sc_legacy core \<noteq> None then (Inl (AE_Other UPGRADING_MESSAGE), w)
                    else
                      mark_saved (case sc_state core of
                                    Some s \<Rightarrow> on_disk (save_v2 (x_codec U) (x_os U) (x_state_path U) s) w
                                  | None \<Rightarrow> (Inr (), w)))))"

section \<open>Commits of the earlier workspace\<close>

definition READ_ONLY_MESSAGE :: rstr where
  "READ_ONLY_MESSAGE = lit ''this sync account uses a newer format; update Lunport to keep syncing''"

definition format_writes_allowed :: "sync_state_v2 \<Rightarrow> app_error + unit" where
  "format_writes_allowed s = fail_if (v2_read_only s) (AE_Other READ_ONLY_MESSAGE)"

text \<open>A change of the state in place: on an error the changes made so far stay in memory.\<close>

type_synonym 'a change = "sync_state_v2 \<Rightarrow> (app_error + 'a) \<times> sync_state_v2"

definition change_and_save :: "'a record_ext_scheme \<Rightarrow> 'u runtime_env_scheme \<Rightarrow> (sync_core \<Rightarrow> sync_core) \<Rightarrow> sync_state_v2 \<Rightarrow> 'b change
    \<Rightarrow> ('d world, 'b) act" where
  "change_and_save X U bump s f w =
     (case f s of
        (Inl e, s') \<Rightarrow> (Inl e, w\<lparr>w_core := (w_core w)\<lparr>sc_state := Some s'\<rparr>\<rparr>)
      | (Inr a, s') \<Rightarrow>
          (case save_core X U (w\<lparr>w_core := bump ((w_core w)\<lparr>sc_state := Some s'\<rparr>)\<rparr>) of
             (Inl e, w) \<Rightarrow> (Inl e, w)
           | (Inr _, w) \<Rightarrow> (Inr a, w)))"

definition commit :: "'a record_ext_scheme \<Rightarrow> 'u runtime_env_scheme \<Rightarrow> u64 \<Rightarrow> 'b change \<Rightarrow> ('d world, 'b) act" where
  "commit X U generation f w =
     (let core = w_core w in
      case rbind (legacy_writes_allowed core) (\<lambda>_.
           rbind (fail_if (sc_generation core \<noteq> generation) superseded) (\<lambda>_.
           rbind (ok_or superseded (sc_state core)) (\<lambda>s.
           rbind (format_writes_allowed s) (\<lambda>_. Inr s)))) of
        Inl e \<Rightarrow> (Inl e, w)
      | Inr s \<Rightarrow> change_and_save X U (\<lambda>core. core) s f w)"

definition commit_format_observation :: "'a record_ext_scheme \<Rightarrow> 'u runtime_env_scheme \<Rightarrow> rstr \<Rightarrow> rstr \<Rightarrow> unit change \<Rightarrow> ('d world, unit) act" where
  "commit_format_observation X U chain_id relay_url f w =
     (let core = w_core w in
      case rbind (legacy_writes_allowed core) (\<lambda>_.
           rbind (ok_or superseded (sc_state core)) (\<lambda>s.
           rbind (fail_if (v2_relay_url s \<noteq> relay_url \<or> map_option acc_chain_id (v2_account s) \<noteq> Some chain_id) superseded) (\<lambda>_.
           Inr s))) of
        Inl e \<Rightarrow> (Inl e, w)
      | Inr s \<Rightarrow> change_and_save X U (\<lambda>core. core) s f w)"

definition mutate :: "'a record_ext_scheme \<Rightarrow> 'u runtime_env_scheme \<Rightarrow> 'b change \<Rightarrow> ('d world, 'b) act" where
  "mutate X U f w =
     (let core = w_core w in
      case rbind (legacy_writes_allowed core) (\<lambda>_.
           rbind (case sc_save_blocked core of Some reason \<Rightarrow> Inl (AE_Other reason) | None \<Rightarrow> Inr ()) (\<lambda>_.
           rbind (fail_if (sc_legacy core \<noteq> None) (AE_Other UPGRADING_MESSAGE)) (\<lambda>_.
           rbind (ok_or (other ''sync is not initialized'') (sc_state core)) (\<lambda>s.
           rbind (format_writes_allowed s) (\<lambda>_. Inr s))))) of
        Inl e \<Rightarrow> (Inl e, w)
      | Inr s \<Rightarrow> change_and_save X U (\<lambda>core. core\<lparr>sc_generation := sc_generation core + 1\<rparr>) s f w)"

definition snapshot_v2 :: "sync_core \<Rightarrow> sync_state_v2 option" where
  "snapshot_v2 core = (case legacy_writes_allowed core of Inl _ \<Rightarrow> None | Inr _ \<Rightarrow> sc_state core)"

end
