(* ===== verification/Record_Round.thy ===== *)
theory Record_Round
  imports Record_Runtime Relay_Client
begin

text \<open>
  One synchronisation round (\<open>sync/record_round.rs\<close>) and the check for an unfinished migration it
  starts with (\<open>pending_migrations\<close> of \<open>sync/record_migration.rs\<close>).

  The relay, the keychain, the clock and the nonces are fields of the environment and answer by the
  number of the step, so every behaviour of theirs is covered. Other threads act between the steps:
  \<open>x_others\<close> is applied before every access to the core or the disk. The log \<open>rd_sent\<close> lists the
  uploads a round made. A panic (\<open>unwrap\<close> on \<open>None\<close> or an index that is missing) is the flag
  \<open>rd_panicked\<close>, with which everything up to the end of the round is skipped.
\<close>

section \<open>The migration journal\<close>

definition MAX_JOURNAL_BYTES :: nat where
  "MAX_JOURNAL_BYTES = 64 * 1024 * 1024"

record pending_migration =
  pm_migration_id :: rstr
  pm_phase :: rstr
  pm_host_count :: u64
  pm_key_count :: u64

text \<open>\<open>fs::metadata\<close> follows links.\<close>

definition metadata :: "os_env \<Rightarrow> path \<Rightarrow> disk \<Rightarrow> (io_error + file_node) \<times> disk" where
  "metadata E p =
     sys E (\<lambda>d. (case d_files d p of
                   None \<Rightarrow> Inl not_found
                 | Some (Symlink Dangling) \<Rightarrow> Inl not_found
                 | Some (Symlink (ToFile b)) \<Rightarrow> Inr (RegularFile b)
                 | Some (Symlink ToOther) \<Rightarrow> Inr SpecialFile
                 | Some node \<Rightarrow> Inr node, d))"

definition read_optional :: "os_env \<Rightarrow> path \<Rightarrow> nat \<Rightarrow> bytes option io" where
  "read_optional E p limit d =
     (case metadata E p d of
        (Inl e, d) \<Rightarrow> (if io_kind e = IO_NotFound then Inr None else Inl (other ''migration source cannot be read''), d)
      | (Inr node, d) \<Rightarrow>
          if \<not> is_file node \<or> length (node_bytes node) > limit
          then (Inl (other ''migration source is not a bounded regular file''), d)
          else
            (case metadata E p d of
               (Inl _, d) \<Rightarrow> (Inl (other ''migration source cannot be opened''), d)
             | (Inr handle, d) \<Rightarrow>
                 (case on_file E (length (node_bytes handle)) d of
                    (Inl _, d) \<Rightarrow> (Inl (other ''migration source cannot be inspected''), d)
                  | (Inr len, d) \<Rightarrow>
                      if len > limit then (Inl (other ''migration source exceeds its size limit''), d)
                      else
                        (case on_file E (take (limit + 1) (node_bytes handle)) d of
                           (Inl _, d) \<Rightarrow> (Inl (other ''migration source cannot be read''), d)
                         | (Inr b, d) \<Rightarrow>
                             if length b > limit then (Inl (other ''migration source exceeds its size limit''), d)
                             else (Inr (Some b), d)))))"

definition journal_entry :: "rstr \<Rightarrow> json \<Rightarrow> pending_migration option" where
  "journal_entry i v =
     (let phase = (case Option.bind (jget v (lit ''phase'')) as_str_json of
                     Some p \<Rightarrow> if p \<in> {lit ''prepared'', lit ''account-gated'', lit ''publishing'', lit ''active''} then p else lit ''invalid''
                   | None \<Rightarrow> lit ''invalid'');
          num = (\<lambda>k. case Option.bind (jget v (lit k)) as_u64 of Some n \<Rightarrow> n | None \<Rightarrow> 0)
      in if phase = lit ''active'' then None
         else Some \<lparr>pm_migration_id = i, pm_phase = phase, pm_host_count = num ''host_count'', pm_key_count = num ''key_count''\<rparr>)"

fun scan_journals :: "'u runtime_env_scheme \<Rightarrow> path \<Rightarrow> nat \<Rightarrow> nat \<Rightarrow> pending_migration list \<Rightarrow> (io_error + rstr option) list
    \<Rightarrow> pending_migration list io" where
  "scan_journals U root n used out [] d = (Inr out, d)"
| "scan_journals U root n used out (entry # entries) d =
     (if n \<ge> 1024 then (Inl (other ''migration recovery metadata exceeds the scan limit''), d)
      else
        (case entry of
           Inl _ \<Rightarrow> (Inl (other ''migration recovery metadata cannot be read''), d)
         | Inr name \<Rightarrow>
             if \<not> is_some_and name is_slot_id then scan_journals U root (n + 1) used out entries d
             else
               (let E = x_os U; i = the name; p = root @ [Normal i, Normal (lit ''journal.json'')] in
                case metadata E p d of
                  (m, d) \<Rightarrow>
                    (let used = used + (case m of Inr node \<Rightarrow> length (node_bytes node) | Inl _ \<Rightarrow> 0) in
                     if used > MAX_JOURNAL_BYTES then (Inl (other ''migration recovery metadata exceeds the size limit''), d)
                     else
                       (case read_optional E p MAX_JOURNAL_BYTES d of
                          (Inr (Some b), d) \<Rightarrow>
                            (case x_json_from_slice U b of
                               None \<Rightarrow> (Inl (other ''migration recovery metadata is malformed''), d)
                             | Some v \<Rightarrow>
                                 scan_journals U root (n + 1) used
                                   (out @ (case journal_entry i v of Some m \<Rightarrow> [m] | None \<Rightarrow> [])) entries d)
                        | (_, d) \<Rightarrow>
                            scan_journals U root (n + 1) used
                              (out @ [\<lparr>pm_migration_id = i, pm_phase = lit ''invalid'', pm_host_count = 0, pm_key_count = 0\<rparr>]) entries d)))))"

definition pending_migrations :: "'u runtime_env_scheme \<Rightarrow> pending_migration list io" where
  "pending_migrations U =
     io_bind (io_lift (ok_or (other ''migration profile data path is unavailable'') (parent (x_state_path U)))) (\<lambda>up d.
     let root = up @ [Normal (lit ''migrations'')] in
     case path_exists (x_os U) root d of
       (False, d) \<Rightarrow> (Inr [], d)
     | (True, d) \<Rightarrow>
         (case read_dir (x_os U) root d of
            (Inl _, d) \<Rightarrow> (Inl (other ''migration recovery metadata cannot be read''), d)
          | (Inr entries, d) \<Rightarrow>
              (case scan_journals U root 0 0 [] entries d of
                 (Inl e, d) \<Rightarrow> (Inl e, d)
               | (Inr out, d) \<Rightarrow> (Inr (sort_key pm_migration_id out), d))))"

section \<open>The state of a round\<close>

record sent_batch =
  sb_url :: rstr
  sb_chain :: rstr
  sb_state :: sync_state
  sb_items :: "outgoing_item list"

record 'd round =
  rd_world :: "'d world"
  rd_step :: nat
  rd_sent :: "sent_batch list"
  rd_panicked :: bool
  rd_syncing :: bool

record 'd round_env = runtime_env +
  x_others :: "nat \<Rightarrow> 'd world \<Rightarrow> 'd world"
  x_keychain :: "nat \<Rightarrow> app_error + rstr option"
  x_connect :: "nat \<Rightarrow> rstr \<Rightarrow> app_error + unit"
  x_relay_pull :: "nat \<Rightarrow> rstr \<Rightarrow> rstr \<Rightarrow> rstr \<Rightarrow> u64 \<Rightarrow> relay_error + pull_response"
  x_relay_push :: "nat \<Rightarrow> rstr \<Rightarrow> rstr \<Rightarrow> rstr \<Rightarrow> nat \<Rightarrow> push_item list \<Rightarrow> relay_error + push_outcome"
  x_now :: "nat \<Rightarrow> u64"
  x_nonce :: "nat \<Rightarrow> nat \<Rightarrow> rstr + bytes"

type_synonym ('d, 'a) round_act = "('d round, 'a) act"

text \<open>One access to the core or the disk, after whatever the other threads did.\<close>

definition access :: "('d, 'u) round_env_scheme \<Rightarrow> ('d world, 'b) act \<Rightarrow> ('d, 'b) round_act" where
  "access N f r =
     (case f (x_others N (rd_step r) (rd_world r)) of
        (res, w) \<Rightarrow> (res, r\<lparr>rd_world := w, rd_step := rd_step r + 1\<rparr>))"

text \<open>One call to the outside.\<close>

definition ask :: "(nat \<Rightarrow> app_error + 'b) \<Rightarrow> ('d, 'b) round_act" where
  "ask f r = (f (rd_step r), r\<lparr>rd_step := rd_step r + 1\<rparr>)"

definition query :: "(nat \<Rightarrow> 'b) \<Rightarrow> ('d, 'b) round_act" where
  "query f = ask (\<lambda>n. Inr (f n))"

definition panic :: "('d, 'b) round_act" where
  "panic r = (Inl (other ''panic''), r\<lparr>rd_panicked := True\<rparr>)"

definition unwrap :: "'b option \<Rightarrow> ('d, 'b) round_act" where
  "unwrap x = (case x of Some a \<Rightarrow> io_return a | None \<Rightarrow> panic)"

section \<open>Gates\<close>

record fresh_account_proof =
  fp_keys :: chain_keys
  fp_relay_url :: rstr
  fp_gate :: account_gate
  fp_format_gate :: account_gate
  fp_observed_schema :: "u32 option"

definition ensure_compatible :: "fresh_account_proof \<Rightarrow> app_error + unit" where
  "ensure_compatible p = fail_if (fp_gate p \<noteq> Compatible) (other ''record account is not writable'')"

record round_report =
  rr_gate :: "account_gate option"
  rr_spaces_pulled :: nat
  rr_pushed :: nat
  rr_conflicts :: nat
  rr_review_required :: bool

definition empty_report :: round_report where
  "empty_report = \<lparr>rr_gate = None, rr_spaces_pulled = 0, rr_pushed = 0, rr_conflicts = 0, rr_review_required = False\<rparr>"

fun gate_message :: "account_gate \<Rightarrow> rstr" where
  "gate_message Compatible = []"
| "gate_message (NeedsMigration _) = lit ''this account needs an explicit record migration''"
| "gate_message (NeedsUpdate _) = lit ''this account uses a newer format; update Lunport''"
| "gate_message (MigrationPending _) = lit ''account migration is still being published''"
| "gate_message InvalidMigration = lit ''the account migration marker is invalid or unavailable''"
| "gate_message InvalidPull = lit ''the relay returned inconsistent record transport metadata''"

definition require_no_pending_migration :: "'u runtime_env_scheme \<Rightarrow> unit io" where
  "require_no_pending_migration U =
     io_bind (pending_migrations U) (\<lambda>pending.
     io_lift (fail_if (pending \<noteq> []) (other ''finish the pending account migration before changing shared data'')))"

definition preflight_core :: "'a record_ext_scheme \<Rightarrow> 'u runtime_env_scheme \<Rightarrow> ('d world, unit) act" where
  "preflight_core X U w =
     (let core = w_core w in
      case rbind (case sc_save_blocked core of Some reason \<Rightarrow> Inl (AE_Other reason) | None \<Rightarrow> Inr ()) (\<lambda>_.
           rbind (active_state core) (\<lambda>_.
           fail_if (sc_generation core = u64_max) (other ''record state generation exhausted''))) of
        Inl e \<Rightarrow> (Inl e, w)
      | Inr _ \<Rightarrow> if sc_unsaved core then save_core X U w else (Inr (), w))"

definition preflight_files :: "'u runtime_env_scheme \<Rightarrow> unit io" where
  "preflight_files U =
     (let E = x_os U; p = x_state_path U in
      io_bind (check_write E p) (\<lambda>_.
      io_bind (require_no_pending_migration U) (\<lambda>_ d.
      case symlink_metadata E p d of
        (Inr node, d) \<Rightarrow> (fail_if (\<not> is_file node) (other ''record state must be a regular file''), d)
      | (Inl e, d) \<Rightarrow> (fail_if (io_kind e \<noteq> IO_NotFound) (io e), d))))"

definition preflight :: "'a record_ext_scheme \<Rightarrow> ('d, 'u) round_env_scheme \<Rightarrow> ('d, unit) round_act" where
  "preflight X N =
     io_bind (access N (on_disk (preflight_files N))) (\<lambda>_.
     access N (preflight_core X N))"

definition same_account :: "sync_state \<Rightarrow> rstr \<Rightarrow> rstr \<Rightarrow> bool" where
  "same_account s chain url \<longleftrightarrow> st_relay_url s = url \<and> is_some_and (st_account s) (\<lambda>a. acc_chain_id a = chain)"

definition read_keys_from :: "'a crypto_ext_scheme \<Rightarrow> app_error + rstr option \<Rightarrow> sync_state \<Rightarrow> app_error + chain_keys" where
  "read_keys_from X phrase s =
     rbind (ok_or (other ''join or create a record account first'') (st_account s)) (\<lambda>account.
     rbind (map_err (\<lambda>_. other ''the sync code could not be read'') phrase) (\<lambda>p.
     rbind (ok_or (other ''the sync code is unavailable on this device'') p) (\<lambda>p.
     rbind (map_err (\<lambda>_. other ''the sync code is invalid'') (derive_account X p)) (\<lambda>keys.
     rbind (fail_if (ck_chain_id keys \<noteq> acc_chain_id account)
              (other ''the sync code belongs to a different account'')) (\<lambda>_.
     Inr keys)))))"

definition publish_gate :: "account_gate \<Rightarrow> u32 option \<Rightarrow> sync_state \<Rightarrow> sync_state" where
  "publish_gate gate sch s =
     s\<lparr>st_shared_writes_blocked := gate \<noteq> Compatible,
       st_migration_gate := (case gate of MigrationPending marker \<Rightarrow> Some marker | _ \<Rightarrow> None),
       st_account := (case (st_account s, opt_filter (\<lambda>v. v > ACCOUNT_SCHEMA) sch) of
          (Some account, Some v) \<Rightarrow>
            Some (account\<lparr>acc_remote_schema_version :=
                    Some (max (case acc_remote_schema_version account of Some r \<Rightarrow> r | None \<Rightarrow> 0) v)\<rparr>)
        | _ \<Rightarrow> st_account s),
       st_last_error := (if gate \<noteq> Compatible then Some (gate_message gate) else None)\<rparr>"

definition fail_closed_core :: "rstr \<Rightarrow> rstr \<Rightarrow> account_gate \<Rightarrow> u32 option \<Rightarrow> sync_core \<Rightarrow> sync_core" where
  "fail_closed_core chain url gate sch core =
     (case opt_filter (\<lambda>s. same_account s chain url) (sc_records core) of
        Some s \<Rightarrow> core\<lparr>sc_records := Some (publish_gate gate sch s),
                    sc_save_blocked := Some (lit ''an authenticated account gate could not be saved; restart after fixing record storage'')\<rparr>
      | None \<Rightarrow> core)"

definition fail_closed :: "('d, 'u) round_env_scheme \<Rightarrow> rstr \<Rightarrow> rstr \<Rightarrow> account_gate \<Rightarrow> u32 option \<Rightarrow> ('d, unit) round_act" where
  "fail_closed N chain url gate sch =
     access N (\<lambda>w. (Inr (), w\<lparr>w_core := fail_closed_core chain url gate sch (w_core w)\<rparr>))"

record prepared_account_gate =
  pg_snapshot :: sync_state
  pg_keys :: chain_keys
  pg_pulled :: pull_response

definition prepare_account_gate :: "'a merge_ext_scheme \<Rightarrow> ('d, 'u) round_env_scheme \<Rightarrow> sync_state
    \<Rightarrow> ('d, prepared_account_gate) round_act" where
  "prepare_account_gate X N snap =
     io_bind (ask (\<lambda>n. read_keys_from X (x_keychain N n) snap)) (\<lambda>keys.
     io_bind (ask (\<lambda>n. x_connect N n (st_relay_url snap))) (\<lambda>_.
     io_bind (ask (\<lambda>n. map_err app_error_of_relay
                (x_relay_pull N n (st_relay_url snap) (ck_chain_id keys) (ck_auth_token keys) 0))) (\<lambda>pulled.
     io_return \<lparr>pg_snapshot = snap, pg_keys = keys, pg_pulled = pulled\<rparr>)))"

text \<open>Spaces of the account are discovered; a deleted space keeps its cache.\<close>

definition discover_space :: "sync_state \<Rightarrow> local_record \<Rightarrow> sync_state" where
  "discover_space s row =
     (let i = r_id (lr_record row) in
      if r_deleted (lr_record row)
      then s\<lparr>st_spaces := bt_modify i (\<lambda>sp. sp\<lparr>sp_missing := True\<rparr>) (st_spaces s)\<rparr>
      else if bt_contains (st_spaces s) i then s
      else s\<lparr>st_spaces := bt_insert i \<lparr>sp_selected = False, sp_cursor_seq = 0, sp_baseline_established = False,
               sp_records = [], sp_sealed = [], sp_last_error = None, sp_missing = False\<rparr> (st_spaces s)\<rparr>)"

definition space_rows :: "account_state \<Rightarrow> local_record list" where
  "space_rows account = filter (\<lambda>r. r_kind (lr_record r) = RK_Space) (bt_values (acc_records account))"

text \<open>The gate of the merged account, the gate of its format and the schema seen.\<close>

definition observed_gates :: "'a merge_ext_scheme \<Rightarrow> chain_keys \<Rightarrow> pull_response \<Rightarrow> sync_state \<Rightarrow> account_gate \<times> account_gate \<times> u32 option" where
  "observed_gates X keys pulled latest =
     (case st_account latest of
        None \<Rightarrow> (InvalidPull, InvalidPull, None)
      | Some account \<Rightarrow>
          (let merged = merge_account X account keys pulled 0 in
           (if mo_gate merged = Compatible \<and> (st_rotation latest \<noteq> None \<or> acc_frozen account \<noteq> None)
            then InvalidMigration else mo_gate merged,
            mo_gate merged, mo_observed_schema merged)))"

definition gate_transform :: "'a merge_ext_scheme \<Rightarrow> chain_keys \<Rightarrow> pull_response \<Rightarrow> rstr \<Rightarrow> sync_state \<Rightarrow> app_error + sync_state" where
  "gate_transform X keys pulled url latest =
     (if \<not> same_account latest (ck_chain_id keys) url then Inl superseded
      else
        (let account = the (st_account latest);
             merged = merge_account X account keys pulled 0;
             (gate, format_gate, observed) = observed_gates X keys pulled latest;
             s = (if format_gate = Compatible
                  then foldl discover_space (latest\<lparr>st_account := Some (mo_section merged)\<rparr>) (space_rows (mo_section merged))
                  else latest)
         in Inr (publish_gate gate observed (select_library_spaces s))))"

text \<open>The publication returns what the transform saw, even when it fails afterwards.\<close>

definition publish_step :: "'a merge_ext_scheme \<Rightarrow> 'u runtime_env_scheme \<Rightarrow> chain_keys \<Rightarrow> pull_response \<Rightarrow> rstr
    \<Rightarrow> 'd world \<Rightarrow> (app_error + u64) \<times> (account_gate \<times> account_gate \<times> u32 option) \<times> 'd world" where
  "publish_step X U keys pulled url w =
     (let seen = (case rbind (writes_allowed (w_core w)) (\<lambda>_. active_state (w_core w)) of
                    Inr latest \<Rightarrow> if same_account latest (ck_chain_id keys) url
                                  then observed_gates X keys pulled latest else (InvalidPull, InvalidPull, None)
                  | Inl _ \<Rightarrow> (InvalidPull, InvalidPull, None))
      in case mutate_records X U (gate_transform X keys pulled url) w of (res, w') \<Rightarrow> (res, seen, w'))"

definition publish_prepared_account_gate :: "'a merge_ext_scheme \<Rightarrow> ('d, 'u) round_env_scheme \<Rightarrow> prepared_account_gate
    \<Rightarrow> ('d, fresh_account_proof) round_act" where
  "publish_prepared_account_gate X N prepared =
     (let keys = pg_keys prepared; url = st_relay_url (pg_snapshot prepared) in
      io_bind (access N (\<lambda>w. case publish_step X N keys (pg_pulled prepared) url w of (res, seen, w') \<Rightarrow> (Inr (res, seen), w')))
        (\<lambda>(res, gate, format_gate, observed).
      case res of
        Inl e \<Rightarrow>
          io_bind (if gate \<noteq> Compatible \<and> \<not> is_superseded e
                   then fail_closed N (ck_chain_id keys) url gate observed else io_return ()) (\<lambda>_. io_fail e)
      | Inr _ \<Rightarrow>
          io_bind (access N (\<lambda>w.
            (Inr (), if is_some_and (sc_records (w_core w)) (\<lambda>s. same_account s (ck_chain_id keys) url)
                     then w\<lparr>w_core := (w_core w)\<lparr>sc_account_keys := Some keys\<rparr>\<rparr> else w))) (\<lambda>_.
          io_return \<lparr>fp_keys = keys, fp_relay_url = url, fp_gate = gate, fp_format_gate = format_gate,
            fp_observed_schema = observed\<rparr>)))"

definition core_read :: "('d, 'u) round_env_scheme \<Rightarrow> ('d, sync_state) round_act" where
  "core_read N = access N (\<lambda>w. (rbind (core_snapshot (w_core w)) (\<lambda>(s, _). Inr s), w))"

definition fresh_account_gate :: "'a merge_ext_scheme \<Rightarrow> ('d, 'u) round_env_scheme \<Rightarrow> ('d, fresh_account_proof) round_act" where
  "fresh_account_gate X N =
     io_bind (preflight X N) (\<lambda>_.
     io_bind (core_read N) (\<lambda>snap.
     io_bind (prepare_account_gate X N snap) (\<lambda>prepared.
     publish_prepared_account_gate X N prepared)))"

section \<open>Commits of a section\<close>

definition section_transform :: "'a record_ext_scheme \<Rightarrow> fresh_account_proof \<Rightarrow> (sync_state \<Rightarrow> app_error + sync_state \<times> 'b)
    \<Rightarrow> sync_state \<Rightarrow> app_error + sync_state \<times> 'b" where
  "section_transform X proof transform latest =
     (if \<not> same_account latest (ck_chain_id (fp_keys proof)) (fp_relay_url proof) then Inl superseded
      else if account_writes_blocked X latest then Inl (other ''record account shared writes are blocked'')
      else transform latest)"

text \<open>A transform may also report something to its caller.\<close>

definition mutate_reporting :: "'a merge_ext_scheme \<Rightarrow> 'u runtime_env_scheme \<Rightarrow> (sync_state \<Rightarrow> app_error + sync_state \<times> 'b) \<Rightarrow> ('d world, 'b) act" where
  "mutate_reporting X U transform w =
     (case rbind (writes_allowed (w_core w)) (\<lambda>_. rbind (active_state (w_core w)) transform) of
        Inl e \<Rightarrow> (Inl e, w)
      | Inr (_, b) \<Rightarrow>
          (case mutate_records X U (\<lambda>latest. rbind (transform latest) (\<lambda>(s, _). Inr s)) w of
             (Inl e, w) \<Rightarrow> (Inl e, w)
           | (Inr _, w) \<Rightarrow> (Inr b, w)))"

definition section_commit :: "'a merge_ext_scheme \<Rightarrow> ('d, 'u) round_env_scheme \<Rightarrow> fresh_account_proof
    \<Rightarrow> (sync_state \<Rightarrow> app_error + sync_state \<times> 'b) \<Rightarrow> ('d, 'b) round_act" where
  "section_commit X N proof transform = access N (mutate_reporting X N (section_transform X proof transform))"

definition receive_receipts :: "rstr option \<Rightarrow> typed_outgoing list \<Rightarrow> pushed \<Rightarrow> sync_state \<Rightarrow> app_error + sync_state" where
  "receive_receipts space_id sent p s =
     (case space_id of
        Some i \<Rightarrow>
          (case bt_get (st_spaces s) i of
             None \<Rightarrow> Inl superseded
           | Some sp \<Rightarrow> Inr (s\<lparr>st_spaces := bt_insert i (apply_space_receipts sp sent (ps_accepted p)) (st_spaces s)\<rparr>))
      | None \<Rightarrow> Inr (s\<lparr>st_account := map_option (\<lambda>a. apply_account_receipts a sent (ps_accepted p)) (st_account s)\<rparr>))"

definition receipt_core :: "'a record_ext_scheme \<Rightarrow> 'u runtime_env_scheme \<Rightarrow> fresh_account_proof \<Rightarrow> rstr option \<Rightarrow> typed_outgoing list
    \<Rightarrow> pushed \<Rightarrow> ('d world, unit) act" where
  "receipt_core X U proof space_id sent p w =
     (let core = w_core w in
      case rbind (case sc_save_blocked core of Some reason \<Rightarrow> Inl (AE_Other reason) | None \<Rightarrow> Inr ()) (\<lambda>_.
           rbind (active_state core) (\<lambda>latest.
           rbind (fail_if (\<not> same_account latest (ck_chain_id (fp_keys proof)) (fp_relay_url proof)) superseded) (\<lambda>_.
           rbind (receive_receipts space_id sent p latest) (\<lambda>s.
           rbind (map_err (\<lambda>_. other ''cannot retain invalid typed receipts'') (validate_state X U s)) (\<lambda>_.
           rbind (ok_or (other ''record state generation exhausted'') (checked_add (sc_generation core) 1)) (\<lambda>generation.
           Inr (s, generation))))))) of
        Inl e \<Rightarrow> (Inl e, w)
      | Inr (s, generation) \<Rightarrow> save_core X U (w\<lparr>w_core := core\<lparr>sc_records := Some s, sc_generation := generation\<rparr>\<rparr>))"

definition receipt_commit :: "'a record_ext_scheme \<Rightarrow> ('d, 'u) round_env_scheme \<Rightarrow> fresh_account_proof \<Rightarrow> rstr option \<Rightarrow> typed_outgoing list
    \<Rightarrow> pushed \<Rightarrow> ('d, unit) round_act" where
  "receipt_commit X N proof space_id sent p = access N (receipt_core X N proof space_id sent p)"

definition freeze_transform :: "fresh_account_proof \<Rightarrow> u64 \<Rightarrow> sync_state \<Rightarrow> app_error + sync_state" where
  "freeze_transform proof now latest =
     (if \<not> same_account latest (ck_chain_id (fp_keys proof)) (fp_relay_url proof) then Inl superseded
      else Inr (latest\<lparr>st_shared_writes_blocked := True,
                  st_account := map_option (\<lambda>a. a\<lparr>acc_frozen := Some \<lparr>fi_detected_at_ms = now, fi_markers = []\<rparr>\<rparr>) (st_account latest),
                  st_last_error := Some (lit ''the record chain is frozen; shared publication stopped'')\<rparr>))"

definition mark_frozen :: "'a merge_ext_scheme \<Rightarrow> ('d, 'u) round_env_scheme \<Rightarrow> fresh_account_proof \<Rightarrow> ('d, unit) round_act" where
  "mark_frozen X N proof =
     io_bind (query (x_now N)) (\<lambda>now.
     io_bind (access N (\<lambda>w. case mutate_records X N (freeze_transform proof now) w of (res, w') \<Rightarrow> (Inr res, w'))) (\<lambda>res.
     case res of
       Inr _ \<Rightarrow> io_return ()
     | Inl e \<Rightarrow>
         io_bind (if is_superseded e then io_return ()
                  else fail_closed N (ck_chain_id (fp_keys proof)) (fp_relay_url proof) InvalidMigration None) (\<lambda>_.
         io_fail e)))"

section \<open>Pushing a section\<close>

definition in_range :: "u64 \<Rightarrow> bool" where
  "in_range seq \<longleftrightarrow> 0 < seq \<and> seq \<le> MAX_SAFE_INTEGER"

definition check_accepted :: "pushed \<Rightarrow> pushed" where
  "check_accepted p =
     (if \<exists>(_, seq) \<in> set (ps_accepted p). seq = 0 \<or> seq > MAX_SAFE_INTEGER
      then p\<lparr>ps_accepted := filter (\<lambda>(_, seq). in_range seq) (ps_accepted p),
             ps_error := Some (R_BadResponse (lit ''invalid accepted record sequence''))\<rparr>
      else p)"

text \<open>Groups and inherited settings are uploaded only after the account has acknowledged its new
  schema.\<close>

definition needs_schema_gate :: "sync_state \<Rightarrow> bool" where
  "needs_schema_gate s \<longleftrightarrow>
     list_ex (\<lambda>sp. list_ex (\<lambda>r. r_kind (lr_record r) = RK_Group \<or> get_u64 (r_payload (lr_record r)) (lit ''schema'') = Some 3)
                (bt_values (sp_records sp))) (bt_values (st_spaces s))"

definition schema_acknowledged :: "account_state \<Rightarrow> bool" where
  "schema_acknowledged account \<longleftrightarrow>
     is_some_and (bt_get (acc_records account) account_meta_key)
       (\<lambda>m. \<not> lr_dirty m \<and> get_u64 (r_payload (lr_record m)) (lit ''schema_version'') = Some 4)"

definition check_schema_gate :: "rstr option \<Rightarrow> typed_outgoing list \<Rightarrow> sync_state \<Rightarrow> app_error + unit" where
  "check_schema_gate space_id sent latest =
     (if space_id \<noteq> None
         \<and> list_ex (\<lambda>row. pi_kind (og_item (to_outgoing row)) \<in> {lit ''group'', lit ''host''}) sent
      then
        rbind (ok_or (other ''account missing'') (st_account latest)) (\<lambda>account.
        fail_if (needs_schema_gate latest \<and> \<not> schema_acknowledged account)
          (other ''group account schema gate has not been acknowledged''))
      else Inr ())"

text \<open>The upload itself; the log keeps the state it was checked against.\<close>

definition upload :: "('d, 'u) round_env_scheme \<Rightarrow> rstr \<Rightarrow> chain_keys \<Rightarrow> sync_state \<Rightarrow> outgoing_item list \<Rightarrow> ('d, pushed) round_act" where
  "upload N url keys latest outs r =
     (Inr (push_outgoing (x_relay_push N (rd_step r) url (ck_chain_id keys) (ck_auth_token keys)) outs),
      r\<lparr>rd_step := rd_step r + 1,
        rd_sent := rd_sent r @ [\<lparr>sb_url = url, sb_chain = ck_chain_id keys, sb_state = latest, sb_items = outs\<rparr>]\<rparr>)"

definition push_section :: "'a merge_ext_scheme \<Rightarrow> ('d, 'u) round_env_scheme \<Rightarrow> fresh_account_proof \<Rightarrow> rstr option \<Rightarrow> chain_keys
    \<Rightarrow> typed_outgoing list \<Rightarrow> round_report \<Rightarrow> ('d, bool \<times> round_report) round_act" where
  "push_section X N proof space_id keys sent report =
     (if sent = [] then io_return (True, report)
      else
        io_bind (fresh_account_gate X N) (\<lambda>fresh.
        let report = report\<lparr>rr_gate := Some (fp_gate fresh)\<rparr> in
        if is_err (ensure_compatible fresh) then io_return (False, report)
        else
          io_bind (preflight X N) (\<lambda>_.
          io_bind (core_read N) (\<lambda>latest.
          io_bind (io_lift (fail_if (\<not> same_account latest (ck_chain_id (fp_keys proof)) (fp_relay_url proof)) superseded)) (\<lambda>_.
          io_bind (io_lift (fail_if (account_writes_blocked X latest) (other ''record account shared writes are blocked''))) (\<lambda>_.
          io_bind (io_lift (check_schema_gate space_id sent latest)) (\<lambda>_.
          io_bind (ask (\<lambda>n. x_connect N n (fp_relay_url proof))) (\<lambda>_.
          io_bind (upload N (fp_relay_url proof) keys latest (map to_outgoing sent)) (\<lambda>answer.
          let p = check_accepted answer in
          io_bind (receipt_commit X N proof space_id sent p) (\<lambda>_.
          let report = report\<lparr>rr_pushed := rr_pushed report + length (ps_accepted p),
                              rr_conflicts := rr_conflicts report + ps_conflicts p\<rparr> in
          if ps_frozen p then io_bind (mark_frozen X N proof) (\<lambda>_. io_return (False, report))
          else (case ps_error p of
                  Some e \<Rightarrow> io_fail (app_error_of_relay e)
                | None \<Rightarrow> io_return (True, report))))))))))))"

section \<open>The round\<close>

definition missing_transform :: "rstr \<Rightarrow> sync_state \<Rightarrow> app_error + sync_state \<times> unit" where
  "missing_transform i latest =
     (case bt_get (st_spaces latest) i of
        None \<Rightarrow> Inl superseded
      | Some sp \<Rightarrow> Inr (latest\<lparr>st_spaces := bt_insert i (sp\<lparr>sp_missing := True,
                         sp_last_error := Some (lit ''the selected record space is missing from the relay'')\<rparr>) (st_spaces latest)\<rparr>, ()))"

text \<open>Merging a page of a space reports whether it needs review, and the gate of the page.\<close>

definition merge_transform :: "'a merge_ext_scheme \<Rightarrow> rstr \<Rightarrow> chain_keys \<Rightarrow> pull_response \<Rightarrow> u64 \<Rightarrow> sync_state
    \<Rightarrow> app_error + sync_state \<times> bool \<times> account_gate" where
  "merge_transform X i keys pulled since latest =
     (case opt_filter (\<lambda>sp. sp_selected sp \<and> \<not> sp_missing sp) (bt_get (st_spaces latest) i) of
        None \<Rightarrow> Inl superseded
      | Some sp \<Rightarrow>
          (let merged = merge_space X sp keys pulled since Compatible;
               s = latest\<lparr>st_spaces := bt_insert i (mo_section merged) (st_spaces latest)\<rparr>
           in if mo_gate merged = Compatible then
                rbind (map_err (\<lambda>_. other ''record repository cannot be validated for synchronization'')
                         (scope_requires_relationship_review X s (HS_Space i))) (\<lambda>review.
                Inr (s, review, Compatible))
              else Inr (publish_gate (mo_gate merged) None s, False, mo_gate merged)))"

definition round_space :: "'a merge_ext_scheme \<Rightarrow> ('d, 'u) round_env_scheme \<Rightarrow> fresh_account_proof \<Rightarrow> rstr \<Rightarrow> round_report
    \<Rightarrow> ('d, bool \<times> round_report) round_act" where
  "round_space X N proof i report =
     io_bind (core_read N) (\<lambda>current.
     io_bind (unwrap (st_account current)) (\<lambda>account.
     io_bind (io_lift (space_keys X account (fp_keys proof) i)) (\<lambda>child.
     case child of
       None \<Rightarrow> io_return (True, report)
     | Some keys \<Rightarrow>
         io_bind (unwrap (bt_get (st_spaces current) i)) (\<lambda>sp.
         let since = (if sp_baseline_established sp then sp_cursor_seq sp else 0) in
         io_bind (ask (\<lambda>n. x_connect N n (fp_relay_url proof))) (\<lambda>_.
         io_bind (query (\<lambda>n. x_relay_pull N n (fp_relay_url proof) (ck_chain_id keys) (ck_auth_token keys) since)) (\<lambda>answer.
         case answer of
           Inl e \<Rightarrow>
             if e = R_NotFound
             then io_bind (section_commit X N proof (missing_transform i)) (\<lambda>_. io_return (True, report))
             else io_fail (app_error_of_relay e)
         | Inr pulled \<Rightarrow>
             io_bind (section_commit X N proof (merge_transform X i keys pulled since)) (\<lambda>(review, gate).
             let report = report\<lparr>rr_spaces_pulled := rr_spaces_pulled report + 1,
                                 rr_review_required := rr_review_required report \<or> review\<rparr> in
             if gate \<noteq> Compatible then io_return (False, report\<lparr>rr_gate := Some gate\<rparr>)
             else if review then io_return (True, report)
             else
               io_bind (core_read N) (\<lambda>current.
               io_bind (unwrap (bt_get (st_spaces current) i)) (\<lambda>sp.
               io_bind (ask (\<lambda>n. space_outgoing X (x_nonce N n) sp keys Compatible)) (\<lambda>outs.
               push_section X N proof (Some i) keys outs report))))))))))"

fun round_spaces :: "'a merge_ext_scheme \<Rightarrow> ('d, 'u) round_env_scheme \<Rightarrow> fresh_account_proof \<Rightarrow> rstr list \<Rightarrow> round_report
    \<Rightarrow> ('d, bool \<times> round_report) round_act" where
  "round_spaces X N proof [] report = io_return (True, report)"
| "round_spaces X N proof (i # rest) report =
     io_bind (round_space X N proof i report) (\<lambda>(go_on, report).
     if go_on then round_spaces X N proof rest report else io_return (False, report))"

definition finish_transform :: "u64 \<Rightarrow> bool \<Rightarrow> sync_state \<Rightarrow> app_error + sync_state \<times> unit" where
  "finish_transform now review latest =
     Inr (latest\<lparr>st_last_sync_ms := Some now, st_last_error := (if review then st_last_error latest else None)\<rparr>, ())"

definition run :: "'a merge_ext_scheme \<Rightarrow> ('d, 'u) round_env_scheme \<Rightarrow> ('d, round_report) round_act" where
  "run X N =
     io_bind (preflight X N) (\<lambda>_.
     io_bind (core_read N) (\<lambda>snap.
     if st_account snap = None \<or> st_pending_account snap \<noteq> None then io_return empty_report
     else
       io_bind (fresh_account_gate X N) (\<lambda>proof.
       let report = empty_report\<lparr>rr_gate := Some (fp_gate proof)\<rparr> in
       if is_err (ensure_compatible proof) then io_return report
       else
         io_bind (core_read N) (\<lambda>current.
         io_bind (unwrap (st_account current)) (\<lambda>account.
         io_bind (ask (\<lambda>n. account_outgoing X (x_nonce N n) account (fp_keys proof))) (\<lambda>outs.
         io_bind (push_section X N proof None (fp_keys proof) outs report) (\<lambda>(go_on, report).
         if \<not> go_on then io_return report
         else
           io_bind (core_read N) (\<lambda>current.
           io_bind (round_spaces X N proof
                      (map fst (filter (\<lambda>(_, sp). sp_selected sp \<and> \<not> sp_missing sp) (st_spaces current))) report) (\<lambda>(go_on, report).
           if \<not> go_on then io_return report
           else
             io_bind (query (x_now N)) (\<lambda>now.
             io_bind (section_commit X N proof (finish_transform now (rr_review_required report))) (\<lambda>_.
             io_return report)))))))))))"

definition flush_for_rotation :: "'a merge_ext_scheme \<Rightarrow> ('d, 'u) round_env_scheme \<Rightarrow> ('d, round_report) round_act" where
  "flush_for_rotation X N = run X N"

definition note_failure_core :: "'a record_ext_scheme \<Rightarrow> 'u runtime_env_scheme \<Rightarrow> 'd world \<Rightarrow> 'd world" where
  "note_failure_core X U w0 =
     (let w = w0\<lparr>w_core := (w_core w0)\<lparr>sc_failed_rounds :=
                   (if sc_failed_rounds (w_core w0) = u32_max then u32_max else sc_failed_rounds (w_core w0) + 1)\<rparr>\<rparr>
      in if sc_save_blocked (w_core w) \<noteq> None then w
         else
           (case active_state (w_core w) of
              Inl _ \<Rightarrow> w
            | Inr latest \<Rightarrow>
                if account_writes_blocked X latest then w
                else snd (save_core X U (w\<lparr>w_core := (w_core w)\<lparr>sc_records := Some (latest\<lparr>st_last_error :=
                       Some (lit ''Sync could not complete. Check record storage, relay access, and the sync code, then retry.'')\<rparr>)\<rparr>\<rparr>))))"

definition note_failure :: "'a record_ext_scheme \<Rightarrow> ('d, 'u) round_env_scheme \<Rightarrow> ('d, unit) round_act" where
  "note_failure X N = access N (\<lambda>w. (Inr (), note_failure_core X N w))"

definition finish_round :: "'a merge_ext_scheme \<Rightarrow> ('d, 'u) round_env_scheme \<Rightarrow> ('d, round_report) round_act" where
  "finish_round X N r =
     (case run X N r of
        (Inl e, r) \<Rightarrow>
          if rd_panicked r \<or> is_superseded e then (Inl e, r) else (Inl e, snd (note_failure X N r))
      | (Inr report, r) \<Rightarrow>
          (Inr report, snd (access N (\<lambda>w. (Inr (), w\<lparr>w_core := (w_core w)\<lparr>sc_failed_rounds := 0\<rparr>\<rparr>)) r)))"

definition sync_once :: "'a merge_ext_scheme \<Rightarrow> ('d, 'u) round_env_scheme \<Rightarrow> ('d, round_report) round_act" where
  "sync_once X N r =
     (if rd_syncing r then (Inr empty_report, r)
      else (case finish_round X N (r\<lparr>rd_syncing := True\<rparr>) of (res, r) \<Rightarrow> (res, r\<lparr>rd_syncing := False\<rparr>)))"

text \<open>The explicit round has no guard that resets the flag when it panics.\<close>

definition sync_once_required :: "'a merge_ext_scheme \<Rightarrow> ('d, 'u) round_env_scheme \<Rightarrow> ('d, round_report) round_act" where
  "sync_once_required X N r =
     (let owns = \<not> rd_syncing r in
      case finish_round X N (r\<lparr>rd_syncing := True\<rparr>) of (res, r) \<Rightarrow>
        (res, if owns \<and> \<not> rd_panicked r then r\<lparr>rd_syncing := False\<rparr> else r))"

end
