(* ===== verification/Record_Pin.thy ===== *)
theory Record_Pin
  imports Session_Directory Record_Round
begin

text \<open>
  Storing a host key a person confirmed (\<open>session/record_pin.rs\<close>): what was approved is captured first, callbacks
  and the network come next, and the pin is written in one transaction that checks the approval again. Also the
  directory that follows the format of the running workspace (\<open>session/format_directory.rs\<close>).
\<close>

section \<open>What a person approves\<close>

type_synonym pin_identity = "host_view list \<times> (rstr \<times> key_view option) list"

definition failed_repository :: "'a record_ext_scheme \<Rightarrow> repository_error \<Rightarrow> app_error" where
  "failed_repository X e = AE_Other (x_error_text X e)"

definition failed_directory :: "directory_error \<Rightarrow> app_error" where
  "failed_directory e = AE_Other (directory_error_text e)"

definition login_key :: "'a record_ext_scheme \<Rightarrow> sync_state \<Rightarrow> rstr \<Rightarrow> app_error + rstr \<times> key_view option" where
  "login_key X s i =
     (case resolve_key X s i of
        Inr key \<Rightarrow> Inr (i, Some key)
      | Inl (RE_KeyNotFound _) \<Rightarrow> Inr (i, None)
      | Inl e \<Rightarrow> Inl (failed_repository X e))"

fun login_keys :: "'a record_ext_scheme \<Rightarrow> sync_state \<Rightarrow> rstr list \<Rightarrow> app_error + (rstr \<times> key_view option) list" where
  "login_keys X s [] = Inr []"
| "login_keys X s (i # is) = rbind (login_key X s i) (\<lambda>k. rbind (login_keys X s is) (\<lambda>ks. Inr (k # ks)))"

definition pin_identity_of :: "'a record_ext_scheme \<Rightarrow> sync_state \<Rightarrow> rstr \<Rightarrow> app_error + pin_identity" where
  "pin_identity_of X s i =
     rbind (map_err (failed_repository X) (resolve_host_chain X s i)) (\<lambda>route.
     rbind (login_keys X s (List.map_filter (\<lambda>v. hp_key_id (hv_effective_payload v)) route)) (\<lambda>keys.
     Inr (route, keys)))"

definition require_approved_identity :: "'a record_ext_scheme \<Rightarrow> sync_state \<Rightarrow> sync_state \<Rightarrow> rstr \<Rightarrow> pin_identity \<Rightarrow> app_error + unit" where
  "require_approved_identity X current captured i approved =
     (let changed = Inl (other ''The confirmed route or key changed; connect again.'') in
      if st_device_id current \<noteq> st_device_id captured \<or> st_relay_url current \<noteq> st_relay_url captured
         \<or> map_option acc_chain_id (st_account current) \<noteq> map_option acc_chain_id (st_account captured)
      then changed
      else rbind (pin_identity_of X current i) (\<lambda>now. if now \<noteq> approved then changed else Inr ()))"

section \<open>Confirming a pin\<close>

definition live :: "(nat \<Rightarrow> bool) \<Rightarrow> ('d, unit) round_act" where
  "live cancelled = ask (\<lambda>n. fail_if (cancelled n) (other ''The connection was cancelled.''))"

definition guarded_by :: "('d round \<Rightarrow> (directory_error + unit) \<times> 'd round) \<Rightarrow> ('d, unit) round_act" where
  "guarded_by guard r = (case guard r of (res, r) \<Rightarrow> (map_err failed_directory res, r))"

text \<open>The key on record is the one to be stored already, or the one the person was shown.\<close>

definition pin_is_current :: "host_key option \<Rightarrow> host_key \<Rightarrow> pinned_key option \<Rightarrow> bool" where
  "pin_is_current previous key current \<longleftrightarrow>
     (case current of Some c \<Rightarrow> pk_key c = key \<or> previous = Some (pk_key c) | None \<Rightarrow> previous = None)"

definition pin_transform :: "'a record_ext_scheme \<Rightarrow> sync_state \<Rightarrow> pin_identity \<Rightarrow> hop_ref \<Rightarrow> stored_host_key option \<Rightarrow> host_key
    \<Rightarrow> u64 \<Rightarrow> bool \<Rightarrow> sync_state \<Rightarrow> app_error + sync_state" where
  "pin_transform X captured approved hop expected key now_ms cancelled current =
     rbind (require_approved_identity X current captured (hf_id hop) approved) (\<lambda>_.
     rbind (fail_if cancelled (other ''The connection was cancelled.'')) (\<lambda>_.
     map_err (failed_repository X)
       (pin_host_key X current (hf_id hop) \<lparr>ep_hostname = hf_hostname hop, ep_port = hf_port hop\<rparr> expected (stored_of X key) now_ms)))"

definition pin_commit :: "'a merge_ext_scheme \<Rightarrow> ('d, 'u) round_env_scheme \<Rightarrow> (nat \<Rightarrow> bool) \<Rightarrow> sync_state \<Rightarrow> pin_identity \<Rightarrow> hop_ref
    \<Rightarrow> stored_host_key option \<Rightarrow> host_key \<Rightarrow> u64 \<Rightarrow> ('d, u64) round_act" where
  "pin_commit X N cancelled captured approved hop expected key now_ms r =
     access N (mutate_records X N (pin_transform X captured approved hop expected key now_ms (cancelled (rd_step r)))) r"

definition capture :: "'a merge_ext_scheme \<Rightarrow> ('d, 'u) round_env_scheme \<Rightarrow> ('d, sync_state) round_act" where
  "capture X N = io_bind (preflight X N) (\<lambda>_. core_read N)"

definition prepare_for_scope :: "'a merge_ext_scheme \<Rightarrow> ('d, 'u) round_env_scheme \<Rightarrow> host_scope \<Rightarrow> sync_state
    \<Rightarrow> ('d, prepared_account_gate option) round_act" where
  "prepare_for_scope X N scope captured =
     (case scope of
        HS_Space _ \<Rightarrow> io_bind (prepare_account_gate X N captured) (\<lambda>p. io_return (Some p))
      | HS_Local \<Rightarrow> io_return None)"

definition publish_for_scope :: "'a merge_ext_scheme \<Rightarrow> ('d, 'u) round_env_scheme \<Rightarrow> prepared_account_gate option \<Rightarrow> ('d, unit) round_act" where
  "publish_for_scope X N prepared =
     (case prepared of
        Some p \<Rightarrow> io_bind (publish_prepared_account_gate X N p) (\<lambda>proof. io_lift (ensure_compatible proof))
      | None \<Rightarrow> io_return ())"

text \<open>What is checked against the captured state before any callback.\<close>

definition pin_review :: "'a record_ext_scheme \<Rightarrow> (ssh_public \<Rightarrow> bytes option) \<Rightarrow> hop_ref \<Rightarrow> host_key option \<Rightarrow> host_key \<Rightarrow> sync_state
    \<Rightarrow> app_error + host_view \<times> pin_identity" where
  "pin_review X to_bytes hop previous key captured =
     rbind (map_err (failed_repository X) (get_host X captured (hf_id hop))) (\<lambda>host.
     rbind (fail_if (endpoint_moved hop host) (other ''The confirmed endpoint changed; connect again.'')) (\<lambda>_.
     rbind (map_err failed_directory (saved_pin X to_bytes (hp_host_key (hr_payload (hv_host host))))) (\<lambda>current.
     rbind (fail_if (\<not> pin_is_current previous key current) (other ''The confirmed host key changed; connect again.'')) (\<lambda>_.
     rbind (pin_identity_of X captured (hf_id hop)) (\<lambda>approved. Inr (host, approved))))))"

definition pin_confirm :: "'a merge_ext_scheme \<Rightarrow> ('d, 'u) round_env_scheme \<Rightarrow> (ssh_public \<Rightarrow> bytes option) \<Rightarrow> (nat \<Rightarrow> bool)
    \<Rightarrow> ('d round \<Rightarrow> (directory_error + unit) \<times> 'd round) \<Rightarrow> hop_ref \<Rightarrow> host_key option \<Rightarrow> host_key \<Rightarrow> ('d, unit) round_act" where
  "pin_confirm X N to_bytes cancelled guard hop previous key =
     io_bind (live cancelled) (\<lambda>_.
     io_bind (capture X N) (\<lambda>captured.
     io_bind (io_lift (pin_review X to_bytes hop previous key captured)) (\<lambda>(host, approved).
     io_bind (guarded_by guard) (\<lambda>_.
     io_bind (live cancelled) (\<lambda>_.
     io_bind (prepare_for_scope X N (hr_scope (hv_host host)) captured) (\<lambda>prepared.
     io_bind (guarded_by guard) (\<lambda>_.
     io_bind (live cancelled) (\<lambda>_.
     io_bind (query (x_now N)) (\<lambda>now_ms.
     io_bind (access N (on_disk (require_no_pending_migration N))) (\<lambda>_.
     io_bind (core_read N) (\<lambda>current.
     io_bind (io_lift (require_approved_identity X current captured (hf_id hop) approved)) (\<lambda>_.
     io_bind (live cancelled) (\<lambda>_.
     io_bind (publish_for_scope X N prepared) (\<lambda>_.
     io_bind (pin_commit X N cancelled captured approved hop (hp_host_key (hr_payload (hv_host host))) key now_ms) (\<lambda>_.
     io_return ())))))))))))))))"

section \<open>The directory of the running workspace\<close>

record 'w format_directory =
  fd_mode :: "'w \<Rightarrow> (runtime_format \<times> bool) \<times> 'w"
  fd_legacy :: "'w host_directory"
  fd_records :: "'w host_directory"

definition choose_workspace :: directory_error where
  "choose_workspace = DE_Unsupported (lit ''Choose a workspace or resolve the blocked state before connecting.'')"

definition active_directory :: "'w format_directory \<Rightarrow> runtime_format \<times> bool \<Rightarrow> 'w host_directory option" where
  "active_directory F mode =
     (case mode of
        (Records, _) \<Rightarrow> Some (fd_records F)
      | (Legacy, False) \<Rightarrow> Some (fd_legacy F)
      | _ \<Rightarrow> None)"

definition with_active :: "'w format_directory \<Rightarrow> ('w host_directory \<Rightarrow> ('w, 'b) dir_act) \<Rightarrow> ('w, 'b) dir_act" where
  "with_active F f w =
     (case fd_mode F w of (mode, w) \<Rightarrow>
        (case active_directory F mode of Some d \<Rightarrow> f d w | None \<Rightarrow> (Inl choose_workspace, w)))"

definition format_pin_confirmed :: "'w format_directory \<Rightarrow> hop_ref \<Rightarrow> host_key option \<Rightarrow> host_key
    \<Rightarrow> ('w \<Rightarrow> bool \<times> 'w) \<Rightarrow> ('w, unit) dir_act \<Rightarrow> ('w, unit) dir_act" where
  "format_pin_confirmed F hop previous key cancelled guard =
     dir_bind guard (\<lambda>_ w.
     case fd_mode F w of (mode, w) \<Rightarrow>
       (case mode of
          (Records, _) \<Rightarrow> hd_pin_confirmed (fd_records F) hop previous key cancelled guard w
        | (Legacy, False) \<Rightarrow> hd_pin_confirmed (fd_legacy F) hop previous key cancelled (\<lambda>w. (Inr (), w)) w
        | _ \<Rightarrow> (Inl (DE_Unsupported (lit ''The workspace changed before host-key confirmation.'')), w)))"

definition format_password_account :: "'w format_directory \<Rightarrow> host_id \<Rightarrow> 'w \<Rightarrow> rstr \<times> 'w" where
  "format_password_account F i w =
     (case fd_mode F w of (mode, w) \<Rightarrow>
        (case active_directory F mode of Some d \<Rightarrow> hd_password_account d i w | None \<Rightarrow> (lit ''host:'' @ i, w)))"

definition format_host_directory :: "'w format_directory \<Rightarrow> 'w host_directory" where
  "format_host_directory F =
     \<lparr>hd_resolve = \<lambda>q. with_active F (\<lambda>d. hd_resolve d q), hd_resolve_public = \<lambda>q. with_active F (\<lambda>d. hd_resolve_public d q),
      hd_resolve_host_key = \<lambda>q. with_active F (\<lambda>d. hd_resolve_host_key d q),
      hd_pinned = \<lambda>i. with_active F (\<lambda>d. hd_pinned d i), hd_pin = \<lambda>i key. with_active F (\<lambda>d. hd_pin d i key),
      hd_replace_pin = \<lambda>i previous key. with_active F (\<lambda>d. hd_replace_pin d i previous key),
      hd_pinned_for = \<lambda>hop. with_active F (\<lambda>d. hd_pinned_for d hop), hd_pin_for = \<lambda>hop key. with_active F (\<lambda>d. hd_pin_for d hop key),
      hd_replace_pin_for = \<lambda>hop previous key. with_active F (\<lambda>d. hd_replace_pin_for d hop previous key),
      hd_pin_confirmed = format_pin_confirmed F, hd_password_account = format_password_account F\<rparr>"

end
