(* ===== verification/Runtime_Properties.thy ===== *)
theory Runtime_Properties
  imports Record_Runtime Library_Properties
begin

text \<open>
  What the runtime guarantees about the state file: a write is complete or leaves the file alone
  whatever system call fails, a restart reads back what was saved, a file of an older format is kept
  byte for byte before it is replaced, and a commit never changes memory without the disk.
\<close>

section \<open>The state file\<close>

abbreviation files :: "'d world \<Rightarrow> path \<Rightarrow> file_node option" where
  "files w \<equiv> d_files (w_disk w)"

lemma sys_files:
  "symlink_metadata E p d = (r, d') \<Longrightarrow> d_files d' = d_files d
     \<and> (\<forall>node. r = Inr node \<longrightarrow> d_files d p = Some node)
     \<and> (\<forall>e. r = Inl e \<longrightarrow> io_kind e = IO_NotFound \<longrightarrow> d_files d p = None)"
  "open_nofollow E p d = (r2, d') \<Longrightarrow> d_files d' = d_files d \<and> (\<forall>node. r2 = Inr node \<longrightarrow> d_files d p = Some node)"
  "on_file E x d = (r3, d') \<Longrightarrow> d_files d' = d_files d \<and> (\<forall>y. r3 = Inr y \<longrightarrow> y = x)"
  "read_file E p d = (r4, d') \<Longrightarrow> d_files d' = d_files d \<and> (\<forall>b. r4 = Inr b \<longrightarrow> d_files d p \<in> {Some (RegularFile b), Some (Symlink (ToFile b))})"
  by (auto simp: symlink_metadata_def open_nofollow_def on_file_def read_file_def sys_def not_found_def Let_def
      split: option.splits file_node.splits link_target.splits)

text \<open>The files that \<open>with_file_name\<close> names lie beside the state file.\<close>

lemma beside:
  assumes "file_name p = Some n"
  shows "butlast (with_file_name p m) = butlast p" "\<not> prefix p (butlast p)" "with_file_name p m = butlast p @ [Normal m]"
proof -
  show "with_file_name p m = butlast p @ [Normal m]" using assms by (simp add: with_file_name_def)
  then show "butlast (with_file_name p m) = butlast p" by simp
  have "length (butlast p) < length p" using assms by (cases p rule: rev_cases) (auto simp: file_name_def)
  then show "\<not> prefix p (butlast p)" by (metis not_le prefix_length_le)
qed

text \<open>The backup leaves the state file alone, and after a success it holds the source.\<close>

lemma keep_backup_effect:
  assumes "keep_backup U target source d = (r, d')"
  shows "(\<forall>p. p \<noteq> target \<longrightarrow> \<not> prefix p (butlast target) \<longrightarrow> d_files d' p = d_files d p)
    \<and> (d_files d target \<noteq> None \<longrightarrow> d_files d' target = d_files d target)
    \<and> (r = Inr () \<longrightarrow> d_files d' target = Some (RegularFile source))"
proof -
  obtain x d1 where x: "symlink_metadata (x_os U) target d = (x, d1)" by force
  note m = sys_files(1) [OF x]
  show ?thesis
  proof (cases x)
    case (Inr node)
    then have "d_files d' = d_files d \<and> (r = Inr () \<longrightarrow> d_files d target = Some (RegularFile source))"
      using assms x m by (auto simp: keep_backup_def Let_def io_bind_def try_io_def is_file_def io_return_def io_fail_def
          dest!: sys_files(4) split: prod.splits sum.splits if_splits file_node.splits)
    then show ?thesis by auto
  next
    case (Inl e)
    show ?thesis
    proof (cases "io_kind e = IO_NotFound")
      case True
      with Inl assms x have "atomic_write (x_os U) target source d1 = (r, d')" by (simp add: keep_backup_def Let_def)
      from atomic_write_effect [OF this] m Inl True show ?thesis
        by (auto simp: only_new_dirs_def fun_upd_def split: if_splits)
    next
      case False
      with Inl assms x m show ?thesis by (auto simp: keep_backup_def Let_def)
    qed
  qed
qed

definition state_path_ok :: "'u runtime_env_scheme \<Rightarrow> bool" where
  "state_path_ok U \<longleftrightarrow> file_name (x_state_path U) = Some (lit ''sync-state.json'')"

lemma state_path_ok: "state_path E = Inr (x_state_path U) \<Longrightarrow> state_path_ok U"
  by (auto simp: state_path_def state_path_ok_def file_name_def dest!: sym [of _ "x_state_path U"])

definition backup_target :: "'u runtime_env_scheme \<Rightarrow> u64 \<Rightarrow> bytes \<Rightarrow> path" where
  "backup_target U v source = with_file_name (x_state_path U) (backup_file_name U v source)"

lemma backup_target_other:
  assumes "state_path_ok U"
  shows "backup_target U v source \<noteq> x_state_path U" "\<not> prefix (x_state_path U) (butlast (backup_target U v source))"
    "\<not> prefix (backup_target U v source) (butlast (x_state_path U))"
proof -
  have n: "file_name (x_state_path U) = Some (lit ''sync-state.json'')" using assms by (simp add: state_path_ok_def)
  note b = beside [OF n]
  have "file_name (backup_target U v source) = Some (backup_file_name U v source)"
    by (simp add: backup_target_def b(3) file_name_def)
  moreover have "backup_file_name U v source \<noteq> lit ''sync-state.json''"
    by (simp add: backup_file_name_def lit_def)
  ultimately show "backup_target U v source \<noteq> x_state_path U" using n by auto
  show "\<not> prefix (x_state_path U) (butlast (backup_target U v source))" unfolding backup_target_def b(1) by (rule b(2))
  have "length (backup_target U v source) = Suc (length (butlast (x_state_path U)))" by (simp add: backup_target_def b(3))
  then show "\<not> prefix (backup_target U v source) (butlast (x_state_path U))" by (metis not_less_eq_eq order_refl prefix_length_le)
qed

text \<open>The version of an older format that a file declares, if it is older than \<open>version\<close>.\<close>

definition older_format :: "'u runtime_env_scheme \<Rightarrow> u32 \<Rightarrow> bytes \<Rightarrow> u64 option" where
  "older_format U version source =
     Option.bind (x_json_from_slice U source) (\<lambda>v.
       opt_filter (\<lambda>n. n \<ge> 3 \<and> n < ucast version) (Option.bind (jget v (lit ''version'')) as_u64))"

lemma format_backup_effect:
  assumes "format_backup U version d = (r, d')" "state_path_ok U"
  shows "d_files d' (x_state_path U) = d_files d (x_state_path U)
    \<and> (\<forall>b v. r = Inr () \<longrightarrow> d_files d (x_state_path U) = Some (RegularFile b) \<longrightarrow> length b \<le> MAX_STATE_BYTES
         \<longrightarrow> older_format U version b = Some v \<longrightarrow> d_files d' (backup_target U v b) = Some (RegularFile b))"
proof -
  let ?p = "x_state_path U"
  obtain x1 d1 where x1: "open_nofollow (x_os U) ?p d = (x1, d1)" by force
  note f1 = sys_files(2) [OF x1]
  show ?thesis
  proof (cases x1)
    case (Inl e)
    with assms(1) x1 f1 show ?thesis by (auto simp: format_backup_def Let_def io_bind_def try_io_def)
  next
    case (Inr handle)
    obtain x2 d2 where x2: "on_file (x_os U) handle d1 = (x2, d2)" by force
    note f2 = sys_files(3) [OF x2]
    show ?thesis
    proof (cases "\<exists>opened. x2 = Inr opened \<and> is_file opened")
      case False
      with assms(1) x1 x2 f1 f2 Inr show ?thesis
        by (cases x2) (auto simp: format_backup_def Let_def io_bind_def try_io_def io_fail_def)
    next
      case True
      let ?source = "take (MAX_STATE_BYTES + 1) (node_bytes handle)"
      obtain x3 d3 where x3: "on_file (x_os U) ?source d2 = (x3, d3)" by force
      note f3 = sys_files(3) [OF x3]
      have files: "d_files d3 = d_files d" using f1 f2 f3 by simp
      have run: "io_bind (try_io (\<lambda>_. (x3, d3))) (\<lambda>source.
          io_bind (io_lift (ok_or (other ''cannot read format upgrade source'') (x_json_from_slice U source))) (\<lambda>v.
          case opt_filter (\<lambda>n. n \<ge> 3 \<and> n < ucast version) (Option.bind (jget v (lit ''version'')) as_u64) of
            None \<Rightarrow> io_return ()
          | Some sv \<Rightarrow> keep_backup U (backup_target U sv source) source)) d2 = (r, d')"
        using assms(1) x1 x2 x3 Inr True unfolding backup_target_def
        by (auto simp: format_backup_def Let_def io_bind_def try_io_def)
      show ?thesis
      proof (cases "x3 = Inr ?source \<and> older_format U version ?source \<noteq> None")
        case False
        then have same: "d' = d3" and none: "r = Inr () \<Longrightarrow> older_format U version ?source = None"
          using run f3 unfolding io_bind_def try_io_def io_lift_def older_format_def
          by (cases x3; cases "x_json_from_slice U ?source"; force simp: io_return_def split: option.splits)+
        have "older_format U version b = None" if "r = Inr ()" "d_files d ?p = Some (RegularFile b)" "length b \<le> MAX_STATE_BYTES" for b
          using none that f1 Inr by (simp add: node_bytes_def)
        with same files show ?thesis by auto
      next
        case True
        then obtain sv where of: "older_format U version ?source = Some sv" by auto
        then obtain v where sv: "x_json_from_slice U ?source = Some v"
          "opt_filter (\<lambda>n. n \<ge> 3 \<and> n < ucast version) (Option.bind (jget v (lit ''version'')) as_u64) = Some sv"
          unfolding older_format_def by (cases "x_json_from_slice U ?source") auto
        with run True have k: "keep_backup U (backup_target U sv ?source) ?source d3 = (r, d')"
          by (simp add: io_bind_def try_io_def io_lift_def)
        have "d_files d' (backup_target U sv' b) = Some (RegularFile b)"
          if "r = Inr ()" "d_files d ?p = Some (RegularFile b)" "length b \<le> MAX_STATE_BYTES" "older_format U version b = Some sv'" for b sv'
        proof -
          from that f1 Inr have "?source = b" by (simp add: node_bytes_def)
          with that(1,4) of keep_backup_effect [OF k] show ?thesis by simp
        qed
        with keep_backup_effect [OF k] backup_target_other [OF assms(2), of sv ?source] files show ?thesis by metis
      qed
    qed
  qed
qed

text \<open>The whole save.\<close>

definition saved :: "'u runtime_env_scheme \<Rightarrow> sync_state \<Rightarrow> disk \<Rightarrow> bool" where
  "saved U s d \<longleftrightarrow> (\<exists>b. x_state_to_vec U s = Inr b \<and> length b \<le> MAX_STATE_BYTES
     \<and> d_files d (x_state_path U) = Some (RegularFile b))"

lemma save_active_effect:
  assumes "save_active X U s d = (r, d')" "state_path_ok U"
  shows "(r = Inr () \<longrightarrow> validate_state X U s = Inr () \<and> saved U s d')
    \<and> (r \<noteq> Inr () \<longrightarrow> d_files d' (x_state_path U) = d_files d (x_state_path U))
    \<and> (\<forall>b v. r = Inr () \<longrightarrow> x_fault (x_os U) (d_calls d + 1) = None
         \<longrightarrow> d_files d (x_state_path U) = Some (RegularFile b) \<longrightarrow> length b \<le> MAX_STATE_BYTES
         \<longrightarrow> st_version s \<ge> GROUP_STATE_VERSION \<longrightarrow> older_format U (st_version s) b = Some v
         \<longrightarrow> d_files d' (backup_target U v b) = Some (RegularFile b))"
proof -
  let ?p = "x_state_path U" and ?E = "x_os U"
  define meta where "meta d = (case symlink_metadata ?E ?p d of
                 (Inr node, d) \<Rightarrow> (fail_if (\<not> is_file node) (other ''sync state must be a regular file''), d)
               | (Inl e, d) \<Rightarrow> (fail_if (io_kind e \<noteq> IO_NotFound) (io e), d))" for d
  define keep where "keep d = (if st_version s \<ge> GROUP_STATE_VERSION then
                 (case path_exists ?E ?p d of
                    (True, d) \<Rightarrow> format_backup U (st_version s) d
                  | (False, d) \<Rightarrow> (Inr (), d))
               else (Inr (), d))" for d
  show ?thesis
  proof (cases "\<exists>b. validate_state X U s = Inr () \<and> x_state_to_vec U s = Inr b \<and> length b \<le> MAX_STATE_BYTES")
    case False
    then have "r \<noteq> Inr () \<and> d' = d"
      using assms(1) by (cases "validate_state X U s"; cases "x_state_to_vec U s")
        (auto simp: save_active_def Let_def io_bind_def io_lift_def split: if_splits)
    then show ?thesis by auto
  next
    case True
    then obtain b where v: "validate_state X U s = Inr ()" "x_state_to_vec U s = Inr b" "length b \<le> MAX_STATE_BYTES" by blast
    have run: "io_bind meta (\<lambda>_. io_bind keep (\<lambda>_. atomic_write ?E ?p b)) d = (r, d')"
      using assms(1) v unfolding save_active_def Let_def meta_def keep_def by (simp add: io_bind_def io_lift_def)
    obtain x1 d1 where x1: "meta d = (x1, d1)" by force
    have calls: "d_calls d1 = d_calls d + 1"
      using x1 by (auto simp: meta_def symlink_metadata_def sys_def Let_def split: prod.splits sum.splits option.splits)
    have m: "d_files d1 = d_files d \<and> (x1 = Inr () \<longrightarrow> (\<exists>c. d_files d ?p = Some (RegularFile c)) \<or> d_files d ?p = None)"
      using x1 by (auto simp: meta_def is_file_def dest!: sys_files(1) split: prod.splits sum.splits file_node.splits)
    show ?thesis
    proof (cases x1)
      case (Inl e)
      with run x1 m show ?thesis by (auto simp: io_bind_def)
    next
      case (Inr u)
      obtain x2 d2 where x2: "keep d1 = (x2, d2)" by force
      obtain ex d0 where ex: "path_exists ?E ?p d1 = (ex, d0)" by force
      note e0 = path_exists_files [OF ex]
      have k: "d_files d2 ?p = d_files d1 ?p"
        using x2 ex e0 format_backup_effect [OF _ assms(2)] by (auto simp: keep_def split: if_splits bool.splits)
      show ?thesis
      proof (cases x2)
        case (Inl e)
        with run x1 x2 Inr m k show ?thesis by (auto simp: io_bind_def)
      next
        case (Inr u2)
        with run x1 x2 \<open>x1 = Inr u\<close> have w: "atomic_write ?E ?p b d2 = (r, d')" by (simp add: io_bind_def)
        note a = atomic_write_effect [OF w]
        have "r = Inr () \<longrightarrow> saved U s d'" "r \<noteq> Inr () \<longrightarrow> d_files d' ?p = d_files d ?p"
          using a v m k by (auto simp: saved_def)
        moreover have "d_files d' (backup_target U ov c) = Some (RegularFile c)"
          if "r = Inr ()" "x_fault ?E (d_calls d + 1) = None" "d_files d ?p = Some (RegularFile c)" "length c \<le> MAX_STATE_BYTES"
            "st_version s \<ge> GROUP_STATE_VERSION" "older_format U (st_version s) c = Some ov" for c ov
        proof -
          have "ex" using ex calls m that(2,3) by (auto simp: path_exists_def symlink_metadata_def sys_def)
          with x2 ex that(5) Inr have "format_backup U (st_version s) d0 = (Inr (), d2)" by (simp add: keep_def)
          from format_backup_effect [OF this assms(2)] that(3,4,6) m e0
          have "d_files d2 (backup_target U ov c) = Some (RegularFile c)" by simp
          moreover note backup_target_other [OF assms(2), of ov c]
          ultimately show ?thesis using a unfolding only_new_dirs_def by (metis fun_upd_apply option.distinct(1))
        qed
        ultimately show ?thesis using v(1) by blast
      qed
    qed
  qed
qed

section \<open>Restart\<close>

text \<open>What \<open>serde_json\<close> promises for the derived conversions of the state: the text of a state reads
  back as that state, and its version field can be read on its own.\<close>

definition state_codec :: "'u runtime_env_scheme \<Rightarrow> bool" where
  "state_codec U \<longleftrightarrow> (\<forall>s b. x_state_to_vec U s = Inr b \<longrightarrow>
     (\<exists>text. from_utf8 b = Some text \<and> x_state_probe U text = Inr (st_version s) \<and> x_state_from_str U text = Inr s))"

lemma valid_version:
  "validate_state X U s = Inr () \<Longrightarrow> st_version s \<in> {STATE_VERSION, GROUP_STATE_VERSION, NAVIGATION_STATE_VERSION}"
  by (auto simp: validate_state_Inr [of X U s] validate_frame_def)

lemma version_values:
  "STATE_VERSION \<noteq> 1" "STATE_VERSION \<noteq> 2" "GROUP_STATE_VERSION \<noteq> 1" "GROUP_STATE_VERSION \<noteq> 2"
  "NAVIGATION_STATE_VERSION \<noteq> 1" "NAVIGATION_STATE_VERSION \<noteq> 2"
  by (simp_all add: STATE_VERSION_def GROUP_STATE_VERSION_def NAVIGATION_STATE_VERSION_def)

lemma classify_saved:
  assumes "state_codec U" "validate_state X U s = Inr ()" "x_state_to_vec U s = Inr b" "length b \<le> MAX_STATE_BYTES"
  shows "classify_state X U b = SP_Records s False"
proof -
  from assms(1,3) obtain t0 where t: "from_utf8 b = Some t0" "x_state_probe U t0 = Inr (st_version s)"
    "x_state_from_str U t0 = Inr s" by (auto simp: state_codec_def)
  have "decode_state X U t0 = Inr (DS_V3 s)"
    using t valid_version [OF assms(2)] assms(2) version_values by (auto simp: decode_state_def)
  with t(1) assms(4) show ?thesis by (simp add: classify_state_def)
qed

text \<open>What a start finds when no system call fails.\<close>

definition restart_view :: "'a record_ext_scheme \<Rightarrow> 'u runtime_env_scheme \<Rightarrow> rstr \<Rightarrow> (path \<Rightarrow> file_node option) \<Rightarrow> startup_probe" where
  "restart_view X U device_name fs =
     (case fs (x_state_path U) of
        None \<Rightarrow> (case fresh_records U device_name of
                   Inr s \<Rightarrow> SP_Records s True
                 | Inl _ \<Rightarrow> blocked SK_Identity ''cannot create a new device identity'')
      | Some (RegularFile b) \<Rightarrow> classify_state X U b
      | Some _ \<Rightarrow> blocked SK_UnsafePath ''sync state must be a regular file'')"

definition quiet :: "os_env \<Rightarrow> path \<Rightarrow> disk \<Rightarrow> bool" where
  "quiet E p d \<longleftrightarrow> (\<forall>n \<ge> d_calls d. x_fault E n = None) \<and> check_write E p d = (Inr (), d)"

lemma probe_startup_quiet:
  assumes "quiet (x_os U) (x_state_path U) d"
  shows "fst (probe_startup X U name d) = restart_view X U name (d_files d)"
proof -
  let ?E = "x_os U" and ?p = "x_state_path U"
  have s: "x_fault ?E n = None" if "d_calls d \<le> n" for n using assms that by (auto simp: quiet_def)
  have c: "check_write ?E ?p d = (Inr (), d)" using assms by (simp add: quiet_def)
  show ?thesis
  proof (cases "d_files d ?p")
    case None
    then show ?thesis
      by (auto simp: probe_startup_def Let_def c symlink_metadata_def sys_def s not_found_def restart_view_def)
  next
    case (Some node)
    show ?thesis
    proof (cases "is_file node")
      case True
      then obtain b where b: "node = RegularFile b" by (auto simp: is_file_def split: file_node.splits)
      show ?thesis
        by (auto simp: probe_startup_def Let_def c symlink_metadata_def open_nofollow_def on_file_def sys_def s Some b
            is_file_def node_bytes_def restart_view_def classify_state_def)
    next
      case False
      then show ?thesis
        by (auto simp: probe_startup_def Let_def c symlink_metadata_def sys_def s Some restart_view_def is_file_def
            split: file_node.splits)
    qed
  qed
qed

text \<open>C17. Saving the state survives a crash: whatever system call fails during the save, the next
  start finds either exactly the state that was saved, when the save reported success, or exactly what
  it would have found before. No half-written and no invalid state is ever left.\<close>

theorem save_then_restart:
  assumes "state_codec U" "state_path_ok U" "save_active X U s d = (r, d')" "quiet (x_os U) (x_state_path U) d'"
  shows "fst (probe_startup X U name d') =
     (if r = Inr () then SP_Records s False else restart_view X U name (d_files d))"
proof -
  note e = save_active_effect [OF assms(3,2)]
  have "restart_view X U name (d_files d') = (if r = Inr () then SP_Records s False else restart_view X U name (d_files d))"
    using e classify_saved [OF assms(1), of X s] by (auto simp: restart_view_def saved_def)
  with probe_startup_quiet [OF assms(4), of X name] show ?thesis by simp
qed



text \<open>The exception: a save that succeeds although the existence check failed makes no copy.\<close>

lemma failed_check_makes_no_copy:
  assumes "save_active X U s d = (Inr (), d')" "x_fault (x_os U) (d_calls d + 1) \<noteq> None"
    and "q \<noteq> x_state_path U" "d_files d q = None"
  shows "d_files d' q \<noteq> Some (RegularFile b)"
proof -
  let ?p = "x_state_path U" and ?E = "x_os U"
  obtain c d1 where meta: "symlink_metadata ?E ?p d = (c, d1)" by force
  have d1: "d_files d1 = d_files d" "d_calls d1 = d_calls d + 1"
    using meta by (auto simp: symlink_metadata_def sys_def Let_def split: option.splits)
  obtain d2 where d2: "path_exists ?E ?p d1 = (False, d2)" "d_files d2 = d_files d"
    using assms(2) d1 by (auto simp: path_exists_def symlink_metadata_def sys_def Let_def)
  obtain x n where "atomic_write ?E ?p x n = (Inr (), d')" "d_files n = d_files d"
    using assms(1) meta d1 d2
    by (auto simp: save_active_def Let_def io_bind_def io_lift_def split: sum.splits if_splits prod.splits)
  from atomic_write_effect [OF this(1)] this(2) assms(3,4) show ?thesis
    by (auto simp: only_new_dirs_def split: if_splits)
qed

section \<open>Commits\<close>

text \<open>A commit that fails changes neither memory nor the state file; one that succeeds leaves in memory
  exactly the valid state it wrote, under the next generation, and keys of no other account.\<close>

definition committed :: "'a record_ext_scheme \<Rightarrow> 'u runtime_env_scheme \<Rightarrow> 'd world \<Rightarrow> app_error + u64 \<Rightarrow> 'd world \<Rightarrow> bool" where
  "committed X U w r w' \<longleftrightarrow>
     (case r of
        Inl _ \<Rightarrow> w_core w' = w_core w \<and> w_doc w' = w_doc w \<and> files w' (x_state_path U) = files w (x_state_path U)
      | Inr g \<Rightarrow>
          sc_generation (w_core w) < g \<and> sc_generation (w_core w') = g
          \<and> sc_format (w_core w') = Records \<and> sc_state (w_core w') = None \<and> sc_legacy (w_core w') = None
          \<and> sc_save_blocked (w_core w') = None \<and> \<not> sc_unsaved (w_core w')
          \<and> (\<exists>c. sc_records (w_core w') = Some c \<and> validate_state X U c = Inr () \<and> saved U c (w_disk w')
               \<and> \<not> foreign_keys (sc_account_keys (w_core w')) c))"

lemma committed_refused [simp]: "committed X U w (Inl e) w"
  by (simp add: committed_def)

lemma writes_allowed_Inr:
  "writes_allowed core = Inr u \<longleftrightarrow> sc_save_blocked core = None \<and> sc_format core = Records \<and> sc_state core = None
     \<and> sc_legacy core = None \<and> sc_records core \<noteq> None"
  by (auto simp: writes_allowed_def active_state_def split: option.splits)

lemma on_disk_save:
  assumes "on_disk (save_active X U c) w = (r, w1)" "state_path_ok U"
  shows "w_core w1 = w_core w \<and> w_doc w1 = w_doc w
    \<and> (r \<noteq> Inr () \<longrightarrow> files w1 (x_state_path U) = files w (x_state_path U))
    \<and> (r = Inr () \<longrightarrow> validate_state X U c = Inr () \<and> saved U c (w_disk w1))"
  using assms(1) save_active_effect [OF _ assms(2), of X c "w_disk w"] by (auto simp: on_disk_def split: prod.splits)

lemma persist_candidate_committed:
  assumes "persist_candidate X U candidate w = (r, w')" "state_path_ok U"
  shows "committed X U w r w'"
proof (cases "\<exists>c g. writes_allowed (w_core w) = Inr () \<and> complete_candidate X U (w_core w) candidate = Inr c
      \<and> checked_add (sc_generation (w_core w)) 1 = Some g")
  case False
  then have "w' = w \<and> (\<exists>e. r = Inl e)"
    using assms(1) by (cases "writes_allowed (w_core w)"; cases "complete_candidate X U (w_core w) candidate";
        cases "checked_add (sc_generation (w_core w)) 1") (auto simp: persist_candidate_def Let_def)
  then show ?thesis by (auto simp: committed_def)
next
  case True
  then obtain c g where c: "writes_allowed (w_core w) = Inr ()" "complete_candidate X U (w_core w) candidate = Inr c"
    "checked_add (sc_generation (w_core w)) 1 = Some g" by blast
  obtain x w1 where x: "on_disk (save_active X U c) w = (x, w1)" by force
  note s = on_disk_save [OF x assms(2)]
  show ?thesis
  proof (cases x)
    case (Inl e)
    with assms(1) c x s show ?thesis by (auto simp: persist_candidate_def Let_def committed_def)
  next
    case (Inr u)
    with assms(1) c x have r: "r = Inr g" "w' = w1\<lparr>w_core := (w_core w)\<lparr>sc_account_keys := (if foreign_keys (sc_account_keys (w_core w)) c then None else sc_account_keys (w_core w)),
                    sc_records := Some c, sc_generation := g, sc_unsaved := False\<rparr>\<rparr>"
      by (auto simp: persist_candidate_def Let_def)
    with Inr s c checked_add_one_gt [OF c(3)] show ?thesis
      by (auto simp: committed_def writes_allowed_Inr foreign_keys_def)
  qed
qed

lemma mutate_records_committed:
  assumes "mutate_records X U f w = (r, w')" "state_path_ok U"
  shows "committed X U w r w'"
  using assms persist_candidate_committed [OF _ assms(2), of X]
  by (auto simp: mutate_records_def split: sum.splits)

lemma commit_candidate_committed:
  assumes "commit_candidate X U g c w = (r, w')" "state_path_ok U"
  shows "committed X U w r w' \<and> (is_ok r \<longrightarrow> sc_generation (w_core w) = g)"
  using assms persist_candidate_committed [OF _ assms(2), of X]
  by (auto simp: commit_candidate_def split: sum.splits)

section \<open>An example\<close>

text \<open>A device without an account, in each version of the format.\<close>

definition plain_state :: "u32 \<Rightarrow> sync_state" where
  "plain_state version = \<lparr>st_version = version, st_device_id = hex (replicate 16 0), st_device_name = lit ''mac'', st_relay_url = [],
     st_account = None, st_spaces = [],
     st_local = \<lparr>ls_group_order = [], ls_groups = [], ls_hosts = [], ls_keys = [], ls_import_receipts = []\<rparr>,
     st_rotation = None, st_relay_features = None, st_legacy_v1_backup = None, st_phrase_cleanup_pending = False,
     st_migration_gate = None, st_shared_writes_blocked = False, st_pending_account = None, st_notices = [],
     st_last_sync_ms = None, st_last_error = None\<rparr>"

lemma slot_id_hex: "length b = 16 \<Longrightarrow> is_slot_id (hex b)"
  by (simp add: is_slot_id_def hex_lower length_hex str_len_lower_hex)

lemma empty_sections:
  assumes "st_account s = None" "st_spaces s = []" "st_migration_gate s = None" "\<not> st_shared_writes_blocked s"
    "st_pending_account s = None" "is_slot_id (st_device_id s)"
    "st_version s \<in> {STATE_VERSION, GROUP_STATE_VERSION, NAVIGATION_STATE_VERSION}"
    "st_local s = \<lparr>ls_group_order = [], ls_groups = [], ls_hosts = [], ls_keys = [], ls_import_receipts = []\<rparr>"
  shows "validate_state X U s = Inr ()"
  using assms
  by (auto simp: validate_state_Inr [of X U s] validate_frame_def validate_sections_def valid_ids_def check_host_rows_def
      for_all_def bt_values_def validate_account_section_def)

text \<open>The state a first start creates is valid.\<close>

lemma fresh_records_valid:
  assumes "fresh_records U name = Inr s" "x_random16 U = Inr b" "length b = 16"
  shows "validate_state X U s = Inr ()"
  using assms by (intro empty_sections) (auto simp: fresh_records_def v2_fresh_def slot_id_hex)

lemma plain_state_valid: "v \<in> {3, 4, 5} \<Longrightarrow> validate_state X U (plain_state v) = Inr ()"
  by (intro empty_sections)
    (auto simp: plain_state_def slot_id_hex STATE_VERSION_def GROUP_STATE_VERSION_def NAVIGATION_STATE_VERSION_def)

definition sample_env :: runtime_env where
  "sample_env = \<lparr>x_url_parse = (\<lambda>_. None), x_injected_relay = None, x_debug_build = True, x_os = calm,
     x_codec = \<lparr>x_v2_probe = (\<lambda>_. Inl []), x_v1_from_slice = (\<lambda>_. Inl []), x_v2_from_slice = (\<lambda>_. Inl []), x_v2_to_vec = (\<lambda>_. Inl [])\<rparr>,
     x_state_probe = (\<lambda>t. case t of [c] \<Rightarrow> Inr (of_nat c) | _ \<Rightarrow> Inl []), x_v1_from_str = (\<lambda>_. Inl []), x_v2_from_str = (\<lambda>_. Inl []),
     x_state_from_str = (\<lambda>t. case t of [c] \<Rightarrow> Inr (plain_state (of_nat c)) | _ \<Rightarrow> Inl []),
     x_state_to_vec = (\<lambda>s. if s = plain_state 3 then Inr [3] else if s = plain_state 4 then Inr [4] else Inl []),
     x_json_from_slice = (\<lambda>b. case b of [v] \<Rightarrow> Some (JObject [(lit ''version'', JNumber (PosInt (ucast v)))]) | _ \<Rightarrow> None),
     x_sha256 = (\<lambda>_. []), x_random16 = Inr (replicate 16 0), x_debug_repository = (\<lambda>_. []),
     x_state_path = sample_dir @ [Normal (lit ''sync-state.json'')]\<rparr>"

definition old_disk :: disk where
  "old_disk = \<lparr>d_files = [sample_dir \<mapsto> Directory, x_state_path sample_env \<mapsto> RegularFile [3]], d_calls = 0\<rparr>"

lemma sample_env_ok: "state_codec sample_env" "state_path_ok sample_env" "x_os sample_env = calm"
proof -
  have "from_utf8 [3] = Some [3]" "from_utf8 [4] = Some [4]" by (simp_all add: from_utf8.simps)
  moreover have "st_version (plain_state v) = v" for v by (simp add: plain_state_def)
  ultimately show "state_codec sample_env" by (auto simp: state_codec_def sample_env_def)
  show "state_path_ok sample_env" by (simp add: state_path_ok_def sample_env_def file_name_def)
  show "x_os sample_env = calm" by (simp add: sample_env_def)
qed

lemma calm_quiet: "quiet calm p d"
  by (simp add: quiet_def) (simp add: calm_def)

lemma sample_save: "\<exists>d'. save_active X sample_env (plain_state 4) old_disk = (Inr (), d')"
proof -
  let ?p = "x_state_path sample_env" and ?t = "backup_target sample_env 3 [3]"
  have p: "parent ?p = Some sample_dir" "?p \<noteq> sample_dir" "butlast ?p = sample_dir"
    by (simp_all add: sample_env_def parent_def)
  have t: "parent ?t = Some sample_dir" "?t \<noteq> sample_dir" "?t \<noteq> ?p"
    using backup_target_other(1) [OF sample_env_ok(2)]
    by (simp_all add: backup_target_def with_file_name_def parent_def sample_env_def file_name_def)
  obtain d1 where d1: "atomic_write calm ?t [3] (old_disk\<lparr>d_calls := 6\<rparr>) = (Inr (), d1)"
    using calm_write [of ?t "old_disk\<lparr>d_calls := 6\<rparr>" "[3]"] t p by (auto simp: old_disk_def)
  have "d_files d1 ?p = Some (RegularFile [3])" "d_files d1 sample_dir = Some Directory"
    using atomic_write_effect [OF d1] t p
    by (auto simp: only_new_dirs_def old_disk_def fun_upd_def split: if_splits)
  then obtain d2 where d2: "atomic_write calm ?p [4] d1 = (Inr (), d2)"
    using calm_write [of ?p d1 "[4]"] p by auto
  have f: "d_files old_disk ?p = Some (RegularFile [3])" "d_files old_disk ?t = None" "d_calls old_disk = 0"
    using p t by (simp_all add: old_disk_def)
  have "x_state_to_vec sample_env (plain_state 4) = Inr [4]"
    by (simp add: sample_env_def) (simp add: plain_state_def)
  moreover have "x_json_from_slice sample_env [3] = Some (JObject [(lit ''version'', JNumber (PosInt 3))])"
    by (simp add: sample_env_def)
  moreover have "st_version (plain_state 4) = 4" by (simp add: plain_state_def)
  moreover have "length [4 :: u8] \<le> MAX_STATE_BYTES" "take (MAX_STATE_BYTES + 1) [3 :: u8] = [3]"
    by (simp_all add: MAX_STATE_BYTES_def)
  moreover have "keep_backup sample_env ?t [3] (old_disk\<lparr>d_calls := 5\<rparr>) = (Inr (), d1)"
    using f d1 by (simp add: keep_backup_def Let_def sample_env_ok(3) symlink_metadata_def not_found_def)
  then have "format_backup sample_env 4 (old_disk\<lparr>d_calls := 2\<rparr>) = (Inr (), d1)"
    using f calculation by (simp add: format_backup_def Let_def io_bind_def try_io_def sample_env_ok(3) open_nofollow_def on_file_def
      is_file_def node_bytes_def io_lift_def bt_get_def backup_target_def)
  ultimately show ?thesis
    using f d2 plain_state_valid [of 4 X sample_env]
    by (simp add: save_active_def Let_def io_bind_def io_lift_def sample_env_ok(3) symlink_metadata_def is_file_def
      path_exists_def GROUP_STATE_VERSION_def numeral_2_eq_2)
qed

theorem save_then_restart_witness:
  "\<exists>d'. save_active sample_rext sample_env (plain_state 4) old_disk = (Inr (), d')
     \<and> fst (probe_startup sample_rext sample_env (lit ''mac'') d') = SP_Records (plain_state 4) False"
proof -
  obtain d' where "save_active sample_rext sample_env (plain_state 4) old_disk = (Inr (), d')"
    using sample_save by blast
  with save_then_restart [OF sample_env_ok(1,2) this] calm_quiet show ?thesis by (simp add: sample_env_ok(3))
qed


end
