(* ===== verification/Round_Properties.thy ===== *)
theory Round_Properties
  imports Record_Round Runtime_Properties
begin

text \<open>
  What a round guarantees whatever the relay answers, whatever system call fails and whatever the
  other threads do between its steps, as long as they keep the same invariant. The control flow of
  the round is verified once, in the locale \<open>round_invariant\<close>, against the laws of the accesses it
  makes to the core; the locale is interpreted for the soundness of memory and disk and for the
  generation counter.
\<close>

section \<open>Steps of an action\<close>

text \<open>\<open>runs P m Q\<close>: from a state with \<open>P\<close>, \<open>m\<close> ends in one with \<open>P\<close>, and a result it returns has \<open>Q\<close>.\<close>

definition runs :: "('s \<Rightarrow> bool) \<Rightarrow> ('s, 'a) act \<Rightarrow> ('a \<Rightarrow> bool) \<Rightarrow> bool" where
  "runs P m Q \<longleftrightarrow> (\<forall>r x r'. P r \<longrightarrow> m r = (x, r') \<longrightarrow> P r' \<and> (\<forall>a. x = Inr a \<longrightarrow> Q a))"

lemma runsI: "(\<And>r x r'. P r \<Longrightarrow> m r = (x, r') \<Longrightarrow> P r' \<and> (\<forall>a. x = Inr a \<longrightarrow> Q a)) \<Longrightarrow> runs P m Q"
  by (simp add: runs_def)

lemma runsD: "runs P m Q \<Longrightarrow> P r \<Longrightarrow> m r = (x, r') \<Longrightarrow> P r'"
  unfolding runs_def by blast

lemma runs_bind: "runs P m Q \<Longrightarrow> (\<And>a. Q a \<Longrightarrow> runs P (f a) R) \<Longrightarrow> runs P (io_bind m f) R"
proof (rule runsI)
  fix r x r'
  assume *: "runs P m Q" "\<And>a. Q a \<Longrightarrow> runs P (f a) R" "P r" "io_bind m f r = (x, r')"
  obtain y q where y: "m r = (y, q)" by force
  with * have q: "P q" "\<And>a. y = Inr a \<Longrightarrow> Q a" unfolding runs_def by blast+
  show "P r' \<and> (\<forall>a. x = Inr a \<longrightarrow> R a)"
  proof (cases y)
    case (Inl e)
    with * y q show ?thesis by (auto simp: io_bind_def)
  next
    case (Inr a)
    with * y have "f a q = (x, r')" by (simp add: io_bind_def)
    with * q Inr show ?thesis unfolding runs_def by blast
  qed
qed

lemma runs_weaken: "runs P m Q \<Longrightarrow> (\<And>a. Q a \<Longrightarrow> R a) \<Longrightarrow> runs P m R"
  by (fastforce simp: runs_def)

lemma runs_return: "Q a \<Longrightarrow> runs P (io_return a) Q"
  by (simp add: runs_def io_return_def)

lemma runs_fail: "runs P (io_fail e) Q"
  by (simp add: runs_def io_fail_def)

lemma runs_lift: "runs P (io_lift x) (\<lambda>a. x = Inr a)"
  by (simp add: runs_def io_lift_def)

lemma runs_if: "(c \<Longrightarrow> runs P m Q) \<Longrightarrow> (\<not> c \<Longrightarrow> runs P m' Q) \<Longrightarrow> runs P (if c then m else m') Q"
  by simp

lemma runs_pair: "(\<And>a b. x = (a, b) \<Longrightarrow> runs P (f a b) Q) \<Longrightarrow> runs P (case x of (a, b) \<Rightarrow> f a b) Q"
  by (cases x) simp

section \<open>The invariant of a round\<close>

text \<open>An upload is allowed against a state with \<open>V\<close> of an account whose shared writes are open; it goes
  to the relay that state names, and groups and hosts are sent to a space only after the account has
  acknowledged its new schema.\<close>

definition upload_ok :: "'a record_ext_scheme \<Rightarrow> (sync_state \<Rightarrow> bool) \<Rightarrow> sent_batch \<Rightarrow> bool" where
  "upload_ok X V b \<longleftrightarrow>
     (let s = sb_state b in
      V s \<and> \<not> account_writes_blocked X s \<and> sb_url b = st_relay_url s \<and> sb_items b \<noteq> []
      \<and> (\<exists>account. st_account s = Some account
           \<and> (sb_chain b \<noteq> acc_chain_id account
              \<longrightarrow> (\<exists>i \<in> set (sb_items b). pi_kind (og_item i) \<in> {lit ''group'', lit ''host''})
              \<longrightarrow> needs_schema_gate s \<longrightarrow> schema_acknowledged account)))"

lemma check_schema_gate_Inr:
  assumes "check_schema_gate space_id sent s = Inr ()" "st_account s = Some account" "space_id \<noteq> None"
    "\<exists>i \<in> set (map to_outgoing sent). pi_kind (og_item i) \<in> {lit ''group'', lit ''host''}" "needs_schema_gate s"
  shows "schema_acknowledged account"
  using assms by (auto simp: check_schema_gate_def list_ex_iff)

locale round_invariant =
  fixes X :: "'a merge_ext_scheme" and N :: "('d, 'u) round_env_scheme"
    and I :: "'d world \<Rightarrow> bool" and V :: "sync_state \<Rightarrow> bool" and earlier :: "sent_batch list"
  assumes others: "I w \<Longrightarrow> I (x_others N n w)"
    and files_checked: "I w \<Longrightarrow> I (snd (on_disk (preflight_files N) w))"
    and flushed: "I w \<Longrightarrow> I (snd (preflight_core X N w))"
    and commits: "I w \<Longrightarrow> I (snd (mutate_records X N f w))"
    and closed: "I w \<Longrightarrow> gate \<noteq> Compatible \<Longrightarrow> I (w\<lparr>w_core := fail_closed_core chain url gate sch (w_core w)\<rparr>)"
    and keyed: "I w \<Longrightarrow> I (w\<lparr>w_core := (w_core w)\<lparr>sc_account_keys := Some keys\<rparr>\<rparr>)"
    and received: "I w \<Longrightarrow> I (snd (receipt_core X N proof space_id sent p w))"
    and noted: "I w \<Longrightarrow> I (note_failure_core X N w)"
    and cleared: "I w \<Longrightarrow> I (w\<lparr>w_core := (w_core w)\<lparr>sc_failed_rounds := 0\<rparr>\<rparr>)"
    and read: "I w \<Longrightarrow> core_snapshot (w_core w) = Inr (s, g) \<Longrightarrow> V s"
begin

abbreviation inv :: "'d round \<Rightarrow> bool" where
  "inv r \<equiv> I (rd_world r) \<and> (\<exists>new. rd_sent r = earlier @ new \<and> (\<forall>b \<in> set new. upload_ok X V b))"

lemma runs_access:
  assumes "\<And>w x w'. I w \<Longrightarrow> f w = (x, w') \<Longrightarrow> I w' \<and> (\<forall>a. x = Inr a \<longrightarrow> Q a)"
  shows "runs inv (access N f) Q"
  using assms others by (fastforce simp: runs_def access_def split: prod.splits)

lemma runs_ask: "runs inv (ask f) (\<lambda>a. \<exists>n. f n = Inr a)"
  by (auto simp: runs_def ask_def)

lemma runs_query: "runs inv (query f) (\<lambda>_. True)"
  by (auto simp: runs_def query_def ask_def)

lemma runs_unwrap: "runs inv (unwrap x) (\<lambda>a. x = Some a)"
  by (auto simp: runs_def unwrap_def panic_def io_return_def split: option.splits)

lemma runs_preflight: "runs inv (preflight X N) (\<lambda>_. True)"
  unfolding preflight_def
  by (intro runs_bind [where Q = "\<lambda>_. True"] runs_access) (metis files_checked flushed snd_conv)+

lemma runs_core_read: "runs inv (core_read N) V"
  unfolding core_read_def by (intro runs_access) (auto simp: read split: prod.splits sum.splits)

lemma runs_mutate:
  "runs inv (access N (\<lambda>w. case mutate_records X N f w of (res, w') \<Rightarrow> (Inr res, w'))) (\<lambda>_. True)"
  by (intro runs_access) (metis (mono_tags, lifting) commits case_prod_beta snd_conv)

lemma runs_fail_closed: "gate \<noteq> Compatible \<Longrightarrow> runs inv (fail_closed N chain url gate sch) (\<lambda>_. True)"
  unfolding fail_closed_def by (intro runs_access) (auto simp: closed)

lemma runs_section_commit: "runs inv (section_commit X N proof f) (\<lambda>_. True)"
  unfolding section_commit_def
proof (intro runs_access)
  fix w x w'
  assume *: "I w" "mutate_reporting X N (section_transform X proof f) w = (x, w')"
  have "I (snd (mutate_records X N g w))" for g using * commits by blast
  with * show "I w' \<and> (\<forall>a. x = Inr a \<longrightarrow> True)"
    by (auto simp: mutate_reporting_def split: sum.splits prod.splits)
       (metis snd_conv)+
qed

lemma runs_receipt_commit: "runs inv (receipt_commit X N proof space_id sent p) (\<lambda>_. True)"
  unfolding receipt_commit_def by (intro runs_access) (metis received snd_conv)

lemma runs_mark_frozen: "runs inv (mark_frozen X N proof) (\<lambda>_. True)"
  unfolding mark_frozen_def
  by (rule runs_bind [OF runs_query], rule runs_bind [OF runs_mutate])
    (auto intro!: runs_return runs_bind [where Q = "\<lambda>_. True"] runs_fail runs_fail_closed split: sum.splits)

lemma runs_publish: "runs inv (publish_prepared_account_gate X N prepared) (\<lambda>_. True)"
  unfolding publish_prepared_account_gate_def Let_def
proof (rule runs_bind [where Q = "\<lambda>_. True"])
  show "runs inv (access N (\<lambda>w. case publish_step X N (pg_keys prepared) (pg_pulled prepared) (st_relay_url (pg_snapshot prepared)) w of
      (res, seen, w') \<Rightarrow> (Inr (res, seen), w'))) (\<lambda>_. True)"
  proof (intro runs_access)
    fix w x w'
    assume w: "I w" "(case publish_step X N (pg_keys prepared) (pg_pulled prepared) (st_relay_url (pg_snapshot prepared)) w of
      (res, seen, w') \<Rightarrow> (Inr (res, seen), w')) = (x, w')"
    then have "w' = snd (mutate_records X N (gate_transform X (pg_keys prepared) (pg_pulled prepared) (st_relay_url (pg_snapshot prepared))) w)"
      by (auto simp: publish_step_def Let_def split: prod.splits)
    with w(1) commits show "I w' \<and> (\<forall>a. x = Inr a \<longrightarrow> True)" by simp
  qed
qed (auto intro!: runs_return runs_bind [where Q = "\<lambda>_. True"] runs_fail runs_fail_closed runs_access keyed split: sum.splits if_splits)

lemma runs_prepare: "runs inv (prepare_account_gate X N snap) (\<lambda>_. True)"
  unfolding prepare_account_gate_def
  by (intro runs_bind [OF runs_ask] runs_return) simp

lemma runs_gate: "runs inv (fresh_account_gate X N) (\<lambda>_. True)"
  unfolding fresh_account_gate_def
  by (intro runs_bind [OF runs_preflight] runs_bind [OF runs_core_read] runs_bind [OF runs_prepare] runs_publish)

lemma runs_upload:
  assumes "upload_ok X V \<lparr>sb_url = url, sb_chain = ck_chain_id keys, sb_state = s, sb_items = outs\<rparr>"
  shows "runs inv (upload N url keys s outs) (\<lambda>_. True)"
  unfolding runs_def
proof (intro allI impI)
  fix r x r'
  assume "inv r" "upload N url keys s outs r = (x, r')"
  then obtain new where "I (rd_world r')" "rd_sent r' = earlier @ new @ [\<lparr>sb_url = url, sb_chain = ck_chain_id keys, sb_state = s, sb_items = outs\<rparr>]"
    "\<forall>b \<in> set new. upload_ok X V b" by (auto simp: upload_def)
  moreover from this(3) assms have "\<forall>b \<in> set (new @ [\<lparr>sb_url = url, sb_chain = ck_chain_id keys, sb_state = s, sb_items = outs\<rparr>]). upload_ok X V b"
    by simp
  ultimately show "inv r' \<and> (\<forall>a. x = Inr a \<longrightarrow> True)" by blast
qed

lemma runs_push_section:
  assumes "space_id = None \<Longrightarrow> keys = fp_keys proof"
  shows "runs inv (push_section X N proof space_id keys sent report) (\<lambda>_. True)"
proof (cases "sent = []")
  case True
  then show ?thesis by (simp add: push_section_def runs_return)
next
  case False
  have up: "runs inv (upload N (fp_relay_url proof) keys s (map to_outgoing sent)) (\<lambda>_. True)"
    if "V s" "same_account s (ck_chain_id (fp_keys proof)) (fp_relay_url proof)" "\<not> account_writes_blocked X s"
      "check_schema_gate space_id sent s = Inr ()" for s
  proof (rule runs_upload)
    from that(2) obtain account where a: "st_account s = Some account" "acc_chain_id account = ck_chain_id (fp_keys proof)"
      "st_relay_url s = fp_relay_url proof" by (cases "st_account s") (auto simp: same_account_def)
    show "upload_ok X V \<lparr>sb_url = fp_relay_url proof, sb_chain = ck_chain_id keys, sb_state = s, sb_items = map to_outgoing sent\<rparr>"
      using that a False assms check_schema_gate_Inr [OF that(4) a(1)] by (auto simp: upload_ok_def)
  qed
  show ?thesis
    unfolding push_section_def Let_def
    by (simp only: False if_False, rule runs_bind [OF runs_gate], simp, intro impI conjI runs_return TrueI,
        rule runs_bind [OF runs_preflight], rule runs_bind [OF runs_core_read],
        rule runs_bind [OF runs_lift], rule runs_bind [OF runs_lift], rule runs_bind [OF runs_lift],
        rule runs_bind [OF runs_ask], rule runs_bind [OF up])
      (auto intro!: runs_bind [OF runs_receipt_commit] runs_bind [OF runs_mark_frozen] runs_return runs_fail
        simp: fail_if_Inr split: option.splits)
qed

lemma runs_round_space: "runs inv (round_space X N proof i report) (\<lambda>_. True)"
  unfolding round_space_def Let_def
  by (rule runs_bind [OF runs_core_read], rule runs_bind [OF runs_unwrap], rule runs_bind [OF runs_lift])
    (auto intro!: runs_bind [OF runs_unwrap] runs_bind [OF runs_ask] runs_bind [OF runs_query] runs_bind [OF runs_core_read]
      runs_bind [OF runs_section_commit] runs_push_section runs_return runs_fail split: option.splits sum.splits)

lemma runs_round_spaces: "runs inv (round_spaces X N proof ids report) (\<lambda>_. True)"
  by (induction ids arbitrary: report)
    (auto intro!: runs_return runs_bind [OF runs_round_space])

lemma runs_run: "runs inv (run X N) (\<lambda>_. True)"
  unfolding run_def Let_def
  apply (rule runs_bind [OF runs_preflight], rule runs_bind [OF runs_core_read])
  apply (rule runs_if, rule runs_return, rule TrueI)
  apply (rule runs_bind [OF runs_gate])
  apply (rule runs_if, rule runs_return, rule TrueI)
  apply (rule runs_bind [OF runs_core_read], rule runs_bind [OF runs_unwrap], rule runs_bind [OF runs_ask])
  apply (rule runs_bind [OF runs_push_section], rule refl, rule runs_pair)
  apply (rule runs_if, rule runs_return, rule TrueI)
  apply (rule runs_bind [OF runs_core_read], rule runs_bind [OF runs_round_spaces], rule runs_pair)
  apply (rule runs_if, rule runs_return, rule TrueI)
  apply (rule runs_bind [OF runs_query], rule runs_bind [OF runs_section_commit], rule runs_return, rule TrueI)
  done

lemma inv_sync_once:
  assumes "inv r" "sync_once X N r = (res, r')"
  shows "inv r'"
proof -
  have *: "inv (snd (finish_round X N q))" if "inv q" for q
  proof -
    obtain y q1 where q1: "run X N q = (y, q1)" by force
    have i: "inv q1" by (rule runsD [OF runs_run that q1])
    have n: "runs inv (note_failure X N) (\<lambda>_. True)"
      unfolding note_failure_def using noted by (intro runs_access) auto
    have c: "runs inv (access N (\<lambda>w. (Inr (), w\<lparr>w_core := (w_core w)\<lparr>sc_failed_rounds := 0\<rparr>\<rparr>))) (\<lambda>_. True)"
      by (intro runs_access) (auto simp: cleared)
    have e: "inv (snd (m q1))" if "runs inv m (\<lambda>_. True)" for m :: "('d, unit) round_act"
      using runsD [OF that i] by (metis prod.collapse)
    show ?thesis using i e [OF n] e [OF c] by (auto simp: finish_round_def q1 split: sum.splits)
  qed
  from assms * [of "r\<lparr>rd_syncing := True\<rparr>"] show ?thesis
    by (auto simp: sync_once_def split: if_splits prod.splits)
qed

end

section \<open>Memory and disk\<close>

text \<open>The state file always holds a valid state. The state in memory is valid too, unless saving is
  blocked until a restart, and then shared writes are blocked with it; it is the one on disk, unless it
  is marked as unsaved.\<close>

definition sound :: "'a record_ext_scheme \<Rightarrow> 'u runtime_env_scheme \<Rightarrow> 'd world \<Rightarrow> bool" where
  "sound X U w \<longleftrightarrow>
     (let core = w_core w in
      sc_format core = Records \<and> sc_state core = None \<and> sc_legacy core = None
      \<and> (\<exists>s. validate_state X U s = Inr () \<and> saved U s (w_disk w))
      \<and> (sc_save_blocked core = None \<longrightarrow>
           (\<exists>s. sc_records core = Some s \<and> validate_state X U s = Inr ()
              \<and> (\<not> sc_unsaved core \<longrightarrow> saved U s (w_disk w))))
      \<and> (\<forall>s. sc_records core = Some s \<longrightarrow> validate_state X U s = Inr () \<or> account_writes_blocked X s))"

text \<open>What is relied on: the state file has its name, and the other threads keep memory and disk sound.\<close>

definition guarded :: "'a record_ext_scheme \<Rightarrow> ('d, 'u) round_env_scheme \<Rightarrow> bool" where
  "guarded X N \<longleftrightarrow> state_path_ok N \<and> (\<forall>n w. sound X N w \<longrightarrow> sound X N (x_others N n w))"

lemma saved_cong: "d_files d (x_state_path U) = d_files d' (x_state_path U) \<Longrightarrow> saved U s d = saved U s d'"
  by (simp add: saved_def)

lemma sound_same:
  assumes "sound X U w" "w_core w' = w_core w" "files w' (x_state_path U) = files w (x_state_path U)"
  shows "sound X U w'"
  using assms saved_cong [OF assms(3)] by (simp add: sound_def Let_def)

lemma committed_sound:
  assumes "committed X U w r w'" "sound X U w"
  shows "sound X U w'"
proof (cases r)
  case (Inl e)
  with assms(1) have "w_core w' = w_core w" "files w' (x_state_path U) = files w (x_state_path U)"
    by (auto simp: committed_def)
  with assms(2) show ?thesis by (rule sound_same)
next
  case (Inr g)
  with assms show ?thesis by (fastforce simp: committed_def sound_def Let_def)
qed

text \<open>Saving what is in memory, after a change that keeps it valid.\<close>

lemma save_core_sound:
  assumes "state_path_ok U" "sc_format core = Records" "sc_state core = None" "sc_legacy core = None"
    and "sc_records core = Some s" "validate_state X U s = Inr ()" "sc_save_blocked core = None"
    and "\<exists>s. validate_state X U s = Inr () \<and> saved U s (w_disk w)"
    and "save_core X U (w\<lparr>w_core := core\<rparr>) = (r, w')"
  shows "sound X U w' \<and> w_core w' = core\<lparr>sc_unsaved := is_err r\<rparr> \<and> w_doc w' = w_doc w
    \<and> (if r = Inr () then saved U s (w_disk w') else files w' (x_state_path U) = files w (x_state_path U))"
proof -
  obtain y w1 where y: "on_disk (save_active X U s) (w\<lparr>w_core := core\<rparr>) = (y, w1)" by force
  note d = on_disk_save [OF y assms(1)]
  have w': "r = y" "w' = w1\<lparr>w_core := core\<lparr>sc_unsaved := is_err y\<rparr>\<rparr>"
    using assms y d by (auto simp: save_core_def active_state_def mark_saved_def)
  show ?thesis
  proof (cases y)
    case (Inl e)
    with w' d have f: "files w' (x_state_path U) = files w (x_state_path U)" by simp
    with Inl w' d assms saved_cong [OF f] show ?thesis by (auto simp: sound_def Let_def)
  next
    case (Inr u)
    with w' d assms show ?thesis by (auto simp: sound_def Let_def saved_def)
  qed
qed

text \<open>The diagnostic of the last round is not part of what is validated.\<close>

lemma validate_last_error [simp]: "validate_state X U (s\<lparr>st_last_error := e\<rparr>) = validate_state X U s"
proof -
  have parts: "validate_frame (s\<lparr>st_last_error := e\<rparr>) = validate_frame s"
    "validate_sections X (s\<lparr>st_last_error := e\<rparr>) = validate_sections X s" for s
    by (simp_all add: validate_frame_def validate_sections_def cong: option.case_cong)
  have "validate_state X U (s\<lparr>st_last_error := e\<rparr>) = validate_state X U s" if "st_pending_account s = None" for s
    using that by (subst (1 2) validate_state.simps) (simp add: parts)
  moreover have "prepared_state (s\<lparr>st_last_error := e\<rparr>) op = (prepared_state s op)\<lparr>st_last_error := e\<rparr>"
    "st_pending_account (prepared_state s op) = None" for op
    by (simp_all add: prepared_state_def)
  ultimately show ?thesis by (subst (1 2) validate_state.simps) (simp add: parts cong: option.case_cong)
qed

section \<open>The accesses keep memory and disk sound\<close>

lemma sys_same:
  "metadata E p d = (r, d') \<Longrightarrow> d_files d' = d_files d"
  "on_file E x d = (r2, d') \<Longrightarrow> d_files d' = d_files d"
  "path_exists E p d = (b, d') \<Longrightarrow> d_files d' = d_files d"
  "read_dir E p d = (r3, d') \<Longrightarrow> d_files d' = d_files d"
  "symlink_metadata E p d = (r4, d') \<Longrightarrow> d_files d' = d_files d"
  by (auto simp: metadata_def on_file_def path_exists_def read_dir_def symlink_metadata_def sys_def Let_def
      split: option.splits file_node.splits prod.splits sum.splits)

lemma read_optional_same: "read_optional E p n d = (r, d') \<Longrightarrow> d_files d' = d_files d"
  by (auto simp: read_optional_def dest!: sys_same split: prod.splits sum.splits if_splits)

lemma scan_journals_same: "scan_journals U root n used out entries d = (r, d') \<Longrightarrow> d_files d' = d_files d"
proof (induction entries arbitrary: n used out d)
  case (Cons e entries)
  then show ?case
    by (auto simp: Let_def dest!: sys_same read_optional_same split: prod.splits sum.splits if_splits option.splits)
qed simp

lemma pending_migrations_same: "pending_migrations U d = (r, d') \<Longrightarrow> d_files d' = d_files d"
  by (auto simp: pending_migrations_def io_bind_def io_lift_def Let_def dest!: sys_same scan_journals_same
      split: prod.splits sum.splits if_splits bool.splits option.splits)

lemma preflight_files_same:
  assumes "preflight_files U d = (r, d')" shows "d_files d' = d_files d"
proof -
  have c: "d_files e' = d_files e" if "check_write (x_os U) p e = (q, e')" for p e q e'
    using that by (auto simp: check_write_def split: prod.splits)
  show ?thesis using assms
    by (auto simp: preflight_files_def Let_def io_bind_def io_lift_def require_no_pending_migration_def
        dest!: c pending_migrations_same sys_same(5) split: prod.splits sum.splits)
qed

lemma preflight_core_sound:
  assumes "state_path_ok U" "sound X U w" shows "sound X U (snd (preflight_core X U w))"
proof -
  obtain r w' where w': "save_core X U (w\<lparr>w_core := w_core w\<rparr>) = (r, w')" by force
  with save_core_sound [OF assms(1) _ _ _ _ _ _ _ w'] assms(2) show ?thesis
    by (auto simp: preflight_core_def Let_def sound_def split: sum.splits option.splits)
qed

lemma fail_closed_sound:
  "sound X U w \<Longrightarrow> gate \<noteq> Compatible \<Longrightarrow> sound X U (w\<lparr>w_core := fail_closed_core chain url gate sch (w_core w)\<rparr>)"
  by (auto simp: sound_def fail_closed_core_def Let_def publish_gate_def account_writes_blocked_def split: option.splits)

text \<open>Receipts are either refused or kept in memory under the next generation and then saved.\<close>

lemma receipt_core_cases:
  assumes "receipt_core X U proof space_id sent p w = (r, w')"
  obtains (refused) e where "r = Inl e" "w' = w"
  | (kept) s0 s g where "sc_save_blocked (w_core w) = None" "active_state (w_core w) = Inr s0"
      "same_account s0 (ck_chain_id (fp_keys proof)) (fp_relay_url proof)" "receive_receipts space_id sent p s0 = Inr s"
      "validate_state X U s = Inr ()" "checked_add (sc_generation (w_core w)) 1 = Some g"
      "save_core X U (w\<lparr>w_core := (w_core w)\<lparr>sc_records := Some s, sc_generation := g\<rparr>\<rparr>) = (r, w')"
  using assms unfolding receipt_core_def Let_def by (auto split: sum.splits option.splits)

lemma active_state_Inr:
  "active_state core = Inr s \<longleftrightarrow> sc_format core = Records \<and> sc_state core = None \<and> sc_legacy core = None \<and> sc_records core = Some s"
  by (auto simp: active_state_def)

lemma receipt_core_sound:
  assumes "state_path_ok U" "sound X U w" shows "sound X U (snd (receipt_core X U proof space_id sent p w))"
proof -
  obtain r w' where r: "receipt_core X U proof space_id sent p w = (r, w')" by force
  then show ?thesis
  proof (cases rule: receipt_core_cases)
    case kept
    with save_core_sound [OF assms(1) _ _ _ _ kept(5) _ _ kept(7)] assms(2) r show ?thesis
      by (auto simp: active_state_Inr sound_def Let_def)
  qed (use assms r in simp)
qed

lemma note_failure_sound:
  assumes "state_path_ok U" "sound X U w" shows "sound X U (note_failure_core X U w)"
proof -
  define w0 where "w0 = w\<lparr>w_core := (w_core w)\<lparr>sc_failed_rounds :=
                   (if sc_failed_rounds (w_core w) = u32_max then u32_max else sc_failed_rounds (w_core w) + 1)\<rparr>\<rparr>"
  have w0: "sound X U w0" using assms(2) by (simp add: sound_def w0_def Let_def)
  show ?thesis
  proof (cases "sc_save_blocked (w_core w0) = None \<and> (\<exists>s. active_state (w_core w0) = Inr s \<and> \<not> account_writes_blocked X s)")
    case False
    with w0 show ?thesis
      by (auto simp: note_failure_core_def Let_def w0_def split: sum.splits)
  next
    case True
    then obtain s where s: "active_state (w_core w0) = Inr s" "sc_save_blocked (w_core w0) = None" "\<not> account_writes_blocked X s" by blast
    let ?core = "(w_core w0)\<lparr>sc_records := Some (s\<lparr>st_last_error :=
                       Some (lit ''Sync could not complete. Check record storage, relay access, and the sync code, then retry.'')\<rparr>)\<rparr>"
    obtain r w' where w': "save_core X U (w0\<lparr>w_core := ?core\<rparr>) = (r, w')" by force
    from save_core_sound [OF assms(1) _ _ _ _ _ _ _ w'] s w0 have "sound X U w'"
      by (auto simp: active_state_Inr sound_def Let_def)
    with s w' show ?thesis by (simp add: note_failure_core_def Let_def flip: w0_def)
  qed
qed

interpretation rounds: round_invariant X N "\<lambda>w. guarded X N \<longrightarrow> sound X N w"
    "\<lambda>s. guarded X N \<longrightarrow> validate_state X N s = Inr () \<or> account_writes_blocked X s" earlier
  for X :: "'a merge_ext_scheme" and N :: "('d, 'u) round_env_scheme" and earlier :: "sent_batch list"
proof (unfold_locales, goal_cases)
  case (2 w)
  then show ?case
    by (auto simp: on_disk_def dest!: preflight_files_same split: prod.splits intro: sound_same)
next
  case (3 w)
  then show ?case using preflight_core_sound by (auto simp: guarded_def)
next
  case (4 w f)
  then show ?case using committed_sound [OF mutate_records_committed] by (metis guarded_def prod.collapse)
next
  case (7 w account_proof space_id sent p)
  then show ?case using receipt_core_sound by (auto simp: guarded_def)
next
  case (8 w)
  then show ?case using note_failure_sound by (auto simp: guarded_def)
next
  case (10 w s g)
  then show ?case by (auto simp: core_snapshot_def active_state_Inr sound_def Let_def)
next
  case (1 w n)
  then show ?case by (simp add: guarded_def)
next
  case (5 w gate chain url sch)
  then show ?case by (simp add: fail_closed_sound)
qed (simp_all add: sound_def Let_def)

text \<open>C15. A synchronisation round keeps memory and disk sound: whatever the relay and the keychain
  answer, whichever system calls fail, wherever the round stops, and whatever the other threads do in
  between as long as they keep it too, the state file holds a valid state afterwards, the state in
  memory is valid or closed to shared writes, and memory and disk agree unless the state is marked as
  unsaved.\<close>

theorem round_keeps_sound:
  assumes "guarded X N" "sound X N (rd_world r)"
  shows "sound X N (rd_world (snd (sync_once X N r)))"
  using rounds.inv_sync_once [of X N r "rd_sent r" "fst (sync_once X N r)" "snd (sync_once X N r)"] assms by simp

text \<open>C16. Nothing leaves the device past a closed gate: every upload of a round was checked, under the
  core lock and after a fresh authenticated pull of the account, against a valid state of an account
  whose shared writes are open, goes to the relay that state names, and carries groups or hosts for a
  space only if the account has acknowledged the schema that needs them.\<close>

theorem uploads_are_gated:
  assumes "guarded X N" "sound X N (rd_world r)"
  shows "\<exists>new. rd_sent (snd (sync_once X N r)) = rd_sent r @ new
    \<and> (\<forall>b \<in> set new. validate_state X N (sb_state b) = Inr () \<and> upload_ok X (\<lambda>_. True) b)"
proof -
  from rounds.inv_sync_once [of X N r "rd_sent r" "fst (sync_once X N r)" "snd (sync_once X N r)"] assms
  obtain new where new: "rd_sent (snd (sync_once X N r)) = rd_sent r @ new"
    "\<forall>b \<in> set new. upload_ok X (\<lambda>s. guarded X N \<longrightarrow> validate_state X N s = Inr () \<or> account_writes_blocked X s) b" by auto
  then have "validate_state X N (sb_state b) = Inr () \<and> upload_ok X (\<lambda>_. True) b" if "b \<in> set new" for b
    using that assms(1) by (auto simp: upload_ok_def Let_def)
  with new(1) show ?thesis by blast
qed

section \<open>Generations\<close>

text \<open>The generation is what tells a commit that its snapshot is stale. It never goes back.\<close>

definition others_advance :: "('d, 'u) round_env_scheme \<Rightarrow> bool" where
  "others_advance N \<longleftrightarrow> state_path_ok N \<and> (\<forall>n w. sc_generation (w_core w) \<le> sc_generation (w_core (x_others N n w)))"

lemma save_core_generation: "sc_generation (w_core (snd (save_core X U w))) = sc_generation (w_core w)"
  by (auto simp: save_core_def mark_saved_def on_disk_def Let_def split: prod.splits sum.splits option.splits runtime_format.splits)

lemma receipt_core_generation:
  "sc_generation (w_core w) \<le> sc_generation (w_core (snd (receipt_core X U account_proof space_id sent p w)))"
proof -
  obtain r w' where r: "receipt_core X U account_proof space_id sent p w = (r, w')" by force
  then show ?thesis
  proof (cases rule: receipt_core_cases)
    case (kept s0 s g)
    then have "sc_generation (w_core w') = g"
      using save_core_generation [of X U "w\<lparr>w_core := (w_core w)\<lparr>sc_records := Some s, sc_generation := g\<rparr>\<rparr>"] by simp
    with r checked_add_one_gt [OF kept(6)] show ?thesis by simp
  qed (use r in simp)
qed

lemma mutate_records_generation:
  assumes "state_path_ok U"
  shows "sc_generation (w_core w) \<le> sc_generation (w_core (snd (mutate_records X U f w)))"
proof -
  obtain r w' where r: "mutate_records X U f w = (r, w')" by force
  from mutate_records_committed [OF this assms] r show ?thesis by (cases r) (auto simp: committed_def)
qed

lemma note_failure_generation: "sc_generation (w_core (note_failure_core X U w)) = sc_generation (w_core w)"
  by (simp add: note_failure_core_def Let_def save_core_generation split: sum.splits)

lemma preflight_core_generation: "sc_generation (w_core (snd (preflight_core X U w))) = sc_generation (w_core w)"
  by (simp add: preflight_core_def Let_def save_core_generation split: sum.splits)

lemma fail_closed_generation: "sc_generation (fail_closed_core chain url gate sch core) = sc_generation core"
  by (simp add: fail_closed_core_def split: option.splits)

interpretation generations: round_invariant X N "\<lambda>w. others_advance N \<longrightarrow> start \<le> sc_generation (w_core w)" "\<lambda>_. True" earlier
  for X :: "'a merge_ext_scheme" and N :: "('d, 'u) round_env_scheme" and start :: u64 and earlier :: "sent_batch list"
proof (unfold_locales, goal_cases)
  case (1 w n)
  then show ?case by (auto simp: others_advance_def intro: order_trans)
next
  case (2 w)
  then show ?case by (auto simp: on_disk_def split: prod.splits)
next
  case (4 w f)
  then show ?case by (auto simp: others_advance_def intro: order_trans [OF _ mutate_records_generation])
next
  case (7 w account_proof space_id sent p)
  then show ?case by (auto intro: order_trans [OF _ receipt_core_generation])
qed (simp_all add: preflight_core_generation note_failure_generation fail_closed_generation)

text \<open>The generation never goes back during a round, so a commit prepared from an earlier snapshot
  is recognised as stale.\<close>

theorem round_generation_grows:
  assumes "others_advance N"
  shows "sc_generation (w_core (rd_world r)) \<le> sc_generation (w_core (rd_world (snd (sync_once X N r))))"
  using generations.inv_sync_once [where N = N and X = X and r = r and start = "sc_generation (w_core (rd_world r))" and earlier = "rd_sent r"
      and res = "fst (sync_once X N r)" and r' = "snd (sync_once X N r)"] assms by simp

section \<open>Receipts\<close>

text \<open>An acceptance by the relay is never forgotten: unless the receipts are refused as a whole (the
  account was replaced, saving is blocked, the result would not be valid, or the generations are
  exhausted), they are in memory under a new generation even when the disk fails; then the state is
  marked as unsaved and the file is the one before.\<close>

theorem receipts_retained:
  assumes "state_path_ok U" "sound X U w" "receipt_core X U account_proof space_id sent p w = (r, w')" "w' \<noteq> w"
  shows "\<exists>s0 s. sc_records (w_core w) = Some s0 \<and> receive_receipts space_id sent p s0 = Inr s
    \<and> sc_records (w_core w') = Some s \<and> sc_generation (w_core w) < sc_generation (w_core w')
    \<and> (case r of Inr _ \<Rightarrow> \<not> sc_unsaved (w_core w') \<and> saved U s (w_disk w')
       | Inl _ \<Rightarrow> sc_unsaved (w_core w') \<and> files w' (x_state_path U) = files w (x_state_path U))"
  using assms(3)
proof (cases rule: receipt_core_cases)
  case refused
  with assms(4) show ?thesis by simp
next
  case (kept s0 s g)
  with assms(2) save_core_sound [OF assms(1) _ _ _ _ kept(5) _ _ kept(7)] checked_add_one_gt [OF kept(6)] show ?thesis
    by (auto simp: active_state_Inr sound_def Let_def is_err_def split: sum.splits)
qed

text \<open>Until such a state is on disk nothing is asked of the keychain or the relay: a round that
  starts on an unsaved state and cannot save it ends after its two local checks, with the error and
  without an upload.\<close>

theorem unsaved_state_stops_round:
  fixes N :: "('d, 'u) round_env_scheme" and r :: "'d round"
  assumes "\<And>n w. x_others N n w = w" "sc_unsaved (w_core (rd_world r))"
    and "\<And>w :: 'd world. w_core w = w_core (rd_world r) \<Longrightarrow> is_err (fst (save_core X N w))"
  shows "\<exists>e. fst (run X N r) = Inl e \<and> rd_sent (snd (run X N r)) = rd_sent r
    \<and> rd_step (snd (run X N r)) \<le> rd_step r + 2"
proof -
  obtain y w1 where y: "on_disk (preflight_files N) (rd_world r) = (y, w1)" by force
  then have c: "w_core w1 = w_core (rd_world r)" by (auto simp: on_disk_def split: prod.splits)
  obtain z w2 where z: "preflight_core X N w1 = (z, w2)" by force
  have "is_err z"
    using z assms(3) [OF c] assms(2) c
    by (cases "save_core X N w1") (auto simp: preflight_core_def Let_def is_err_def split: sum.splits option.splits)
  then show ?thesis
    using y z by (cases y; cases z) (auto simp: run_def preflight_def io_bind_def access_def assms(1) is_err_def)
qed

section \<open>A closed gate is published or closes the device\<close>

lemma map_err_Inl: "map_err h m = Inl e \<longleftrightarrow> (\<exists>e0. m = Inl e0 \<and> e = h e0)"
  by (cases m) (auto simp: map_err_def)

text \<open>Saving never fails with the error that means a newer state took over.\<close>

definition never_superseded :: "('s, 'a) act \<Rightarrow> bool" where
  "never_superseded m \<longleftrightarrow> (\<forall>s s'. m s \<noteq> (Inl superseded, s'))"

lemma never_bind: "never_superseded m \<Longrightarrow> (\<And>a. never_superseded (f a)) \<Longrightarrow> never_superseded (io_bind m f)"
  by (simp add: never_superseded_def io_bind_Inl)

lemma never_lift: "x \<noteq> Inl superseded \<Longrightarrow> never_superseded (io_lift x)"
  "never_superseded (try_io m)" "never_superseded (check_write E p)" "never_superseded (io_return a)"
  by (auto simp: never_superseded_def io_lift_def try_io_def check_write_def io_return_def superseded_def io_def map_err_Inl
      split: prod.splits)

lemma never_fail: "e \<noteq> superseded \<Longrightarrow> never_superseded (io_fail e)"
  by (simp add: never_superseded_def io_fail_def)

lemma never_if: "never_superseded m \<Longrightarrow> never_superseded m' \<Longrightarrow> never_superseded (if c then m else m')"
  by simp

lemma never_option: "never_superseded m \<Longrightarrow> (\<And>a. never_superseded (f a)) \<Longrightarrow> never_superseded (case x of None \<Rightarrow> m | Some a \<Rightarrow> f a)"
  by (cases x) simp_all

lemma never_atomic_write: "never_superseded (atomic_write E p b)"
proof -
  have dirs: "never_superseded (ensure_dir_secure E dir)" for dir
    unfolding ensure_dir_secure_def
    using never_bind [OF never_lift(2) never_lift(2), of "create_dir_all E dir" "\<lambda>_. on_file E ()"]
    by (intro never_bind never_lift) (auto simp: never_superseded_def split: prod.splits bool.splits)
  show ?thesis
    unfolding atomic_write_def
    by (intro never_bind never_lift dirs)
      (auto simp: never_superseded_def superseded_def SUPERSEDED_def ok_or_def lit_def split: option.splits prod.splits)
qed

lemma never_save_active: "never_superseded (save_active X U s)"
proof -
  have keep: "never_superseded (keep_backup U target source)" for target source
    using never_atomic_write [of "x_os U" target source]
    by (auto simp: never_superseded_def keep_backup_def Let_def io_bind_Inl try_io_def io_fail_def io_return_def superseded_def
        SUPERSEDED_def other_def lit_def io_def map_err_Inl split: prod.splits sum.splits if_splits)
  have backup: "never_superseded (format_backup U v)" for v
    unfolding format_backup_def Let_def
    by (intro never_bind never_lift never_if never_option never_fail keep)
      (auto simp: superseded_def SUPERSEDED_def other_def lit_def ok_or_def split: option.splits)
  show ?thesis
    unfolding save_active_def Let_def
    by (intro never_bind never_lift never_atomic_write)
      (use backup in \<open>auto simp: superseded_def SUPERSEDED_def other_def lit_def never_superseded_def map_err_Inl io_def fail_if_def
        split: prod.splits sum.splits bool.splits if_splits\<close>)
qed

text \<open>Completing a candidate whose shared writes are blocked leaves its account and its gate alone.\<close>

lemma complete_blocked:
  assumes "complete_candidate X U core c = Inr c'" "st_shared_writes_blocked c"
  shows "st_shared_writes_blocked c' \<and> st_account c' = st_account c \<and> st_relay_url c' = st_relay_url c"
proof -
  have put: "st_shared_writes_blocked (put_host scope k row s) = st_shared_writes_blocked s"
    "st_account (put_host scope k row s) = st_account s" "st_relay_url (put_host scope k row s) = st_relay_url s" for scope k row s
    by (simp_all add: put_host_def split: host_scope.splits)
  define c1 where "c1 = (if st_version c = STATE_VERSION \<and> has_group_data c then c\<lparr>st_version := GROUP_STATE_VERSION\<rparr> else c)"
  have "account_writes_blocked X c1" using assms(2) by (simp add: c1_def account_writes_blocked_def)
  then have 1: "include_new_records X U c1 keys = c1" for keys by (simp add: include_new_records_def)
  define c3 where "c3 = (if has_navigation_data c1 then c1\<lparr>st_version := max (st_version c1) NAVIGATION_STATE_VERSION\<rparr> else c1)"
  have c3: "st_shared_writes_blocked c3 \<and> st_account c3 = st_account c \<and> st_relay_url c3 = st_relay_url c"
    using assms(2) by (simp add: c3_def c1_def)
  have d: "(case sc_records core of Some before \<Rightarrow> map_err (\<lambda>e. AE_Other (x_debug_repository U e)) (invalidate_changed_pins X before c3)
         | None \<Rightarrow> Inr c3) = Inr c'"
    using assms(1) unfolding complete_candidate_def Let_def c1_def [symmetric] 1 c3_def [symmetric] .
  then show ?thesis
  proof (cases "sc_records core")
    case (Some before)
    with d obtain old new where "snapshot X before = Inr old" "snapshot X c3 = Inr new" "for_each (invalidate_pin (snap_hosts old)) c3 (snap_hosts new) = Inr c'"
      by (auto simp: invalidate_changed_pins_def)
    from this(3) c3 show ?thesis
      by (rule for_each_inv) (auto simp: invalidate_pin_def Let_def put split: if_splits)
  qed (use c3 in simp)
qed

lemma persist_not_superseded:
  assumes "persist_candidate X U c w = (Inl e, w')" "\<And>e. x_debug_repository U e \<noteq> SUPERSEDED" "writes_allowed (w_core w) = Inr ()"
  shows "\<not> is_superseded e"
proof (cases "\<exists>c' g. complete_candidate X U (w_core w) c = Inr c' \<and> checked_add (sc_generation (w_core w)) 1 = Some g")
  case True
  then obtain c' g where c': "complete_candidate X U (w_core w) c = Inr c'" "checked_add (sc_generation (w_core w)) 1 = Some g" by blast
  obtain y w1 where y: "on_disk (save_active X U c') w = (y, w1)" by force
  then have "y \<noteq> Inl superseded" using never_save_active [of X U c']
    by (auto simp: on_disk_def never_superseded_def split: prod.splits)
  with assms(1,3) c' y show ?thesis
    by (cases y) (auto simp: persist_candidate_def Let_def is_superseded_def superseded_def)
next
  case False
  have "exhausted \<noteq> superseded" by (simp add: exhausted_def superseded_def other_def SUPERSEDED_def lit_def)
  moreover have "complete_candidate X U (w_core w) c \<noteq> Inl superseded"
    using assms(2) not_sym [OF assms(2)] unfolding complete_candidate_def Let_def
    by (cases "sc_records (w_core w)") (simp_all add: map_err_Inl superseded_def)
  ultimately show ?thesis using False assms(1,3)
    by (cases "complete_candidate X U (w_core w) c"; cases "checked_add (sc_generation (w_core w)) 1")
      (auto simp: persist_candidate_def Let_def is_superseded_def superseded_def)
qed

text \<open>A closed gate is never lost. When the authenticated account says that this device may not
  write (it needs an update or a migration, it is frozen, it is being rotated, or the pull was
  inconsistent), then after the publication shared writes are blocked in memory, whether or not the
  state could be saved; if it could not be, the error is reported and saving stays blocked until a
  restart. (Others are locked out during the publication; the debug rendering of a repository error is
  not the text that marks a superseded round.)\<close>

theorem closed_gate_blocks:
  fixes N :: "('d, 'u) round_env_scheme" and r :: "'d round"
  assumes "\<And>n w. x_others N n w = w" "\<And>e. x_debug_repository N e \<noteq> SUPERSEDED" "state_path_ok N"
    and "writes_allowed (w_core (rd_world r)) = Inr ()" "sc_records (w_core (rd_world r)) = Some s"
    and "same_account s (ck_chain_id (pg_keys prepared)) (st_relay_url (pg_snapshot prepared))"
    and "fst (observed_gates X (pg_keys prepared) (pg_pulled prepared) s) \<noteq> Compatible"
    and "publish_prepared_account_gate X N prepared r = (res, r')"
  shows "(\<exists>s'. sc_records (w_core (rd_world r')) = Some s' \<and> account_writes_blocked X s')
    \<and> (case res of Inr p \<Rightarrow> is_err (ensure_compatible p) | Inl _ \<Rightarrow> sc_save_blocked (w_core (rd_world r')) \<noteq> None)"
proof -
  let ?keys = "pg_keys prepared" and ?url = "st_relay_url (pg_snapshot prepared)" and ?w = "rd_world r"
  let ?f = "gate_transform X ?keys (pg_pulled prepared) ?url"
  obtain gate format_gate observed where g: "observed_gates X ?keys (pg_pulled prepared) s = (gate, format_gate, observed)"
    by (metis prod_cases3)
  have act: "active_state (w_core ?w) = Inr s"
    using assms(4,5) by (simp add: writes_allowed_Inr active_state_Inr)
  obtain c where c: "?f s = Inr c" "st_shared_writes_blocked c"
    using assms(6,7) g by (auto simp: gate_transform_def Let_def publish_gate_def)
  obtain y w1 where y: "mutate_records X N ?f ?w = (y, w1)" by force
  then have pc: "persist_candidate X N c ?w = (y, w1)" using assms(4) act c(1) by (simp add: mutate_records_def)
  have step: "publish_step X N ?keys (pg_pulled prepared) ?url ?w = (y, (gate, format_gate, observed), w1)"
    using y assms(4,6) act g by (simp add: publish_step_def Let_def)
  show ?thesis
  proof (cases y)
    case (Inl e)
    have "\<not> is_superseded e" using persist_not_superseded [OF _ assms(2,4)] pc Inl by blast
    have "w_core w1 = w_core ?w" using mutate_records_committed [OF y assms(3)] Inl by (simp add: committed_def)
    then show ?thesis
      using assms(5-8) Inl \<open>\<not> is_superseded e\<close> g step
      by (auto simp: publish_prepared_account_gate_def Let_def io_bind_def access_def assms(1) fail_closed_def fail_closed_core_def
          io_fail_def publish_gate_def account_writes_blocked_def)
  next
    case (Inr gen)
    obtain c' where "complete_candidate X N (w_core ?w) c = Inr c'" and w1: "sc_records (w_core w1) = Some c'"
      using pc Inr by (auto simp: persist_candidate_def Let_def split: sum.splits prod.splits)
    with complete_blocked [OF _ c(2)] have b: "st_shared_writes_blocked c'" by blast
    have "access N f q = (case f (rd_world q) of (res, w) \<Rightarrow> (res, q\<lparr>rd_world := w, rd_step := rd_step q + 1\<rparr>))" for f :: "('d world, 'z) act" and q
      by (simp add: access_def assms(1))
    then show ?thesis
      using assms(7,8) Inr g step b w1
      by (auto simp: publish_prepared_account_gate_def Let_def io_bind_def access_def assms(1) io_return_def
          account_writes_blocked_def ensure_compatible_def cong: if_cong)
  qed
qed

section \<open>An example\<close>

text \<open>A device on which no other thread runs; the relay and the keychain refuse everything.\<close>

definition quiet_round :: "runtime_env \<Rightarrow> unit round_env" where
  "quiet_round U = runtime_env.extend U (round_env.fields (\<lambda>_ w. w) (\<lambda>_. Inl (other ''locked'')) (\<lambda>_ _. Inr ())
     (\<lambda>_ _ _ _ _. Inl R_NotFound) (\<lambda>_ _ _ _ _ _. Inl R_NotFound) (\<lambda>_. 0) (\<lambda>_ _. Inl []))"

definition joined_state :: sync_state where
  "joined_state = (plain_state 4)\<lparr>st_account := Some (account_new (ck_chain_id sample_keys))\<rparr>"

text \<open>Memory holds a joined account that is not on disk yet.\<close>

definition sample_round :: "unit round" where
  "sample_round = \<lparr>rd_world = \<lparr>w_core = core_default\<lparr>sc_format := Records, sc_records := Some joined_state, sc_unsaved := True\<rparr>,
       w_disk = old_disk, w_doc = None\<rparr>, rd_step = 0, rd_sent = [], rd_panicked = False, rd_syncing = False\<rparr>"

lemma quiet_round_simps [simp]:
  "x_others (quiet_round U) n w = w" "x_state_path (quiet_round U) = x_state_path U"
  "x_state_to_vec (quiet_round U) = x_state_to_vec U" "x_debug_repository (quiet_round U) = x_debug_repository U"
  by (simp_all add: quiet_round_def runtime_env.defs round_env.defs)

lemma joined_valid: "validate_state X U joined_state = Inr ()"
proof -
  have "validate_account_section X (Some (account_new (ck_chain_id sample_keys))) = Inr ()"
    by (simp add: validate_account_section_def account_new_def sample_keys_def is_chain_id_hex for_all_def bt_empty_def validate_sealed_def)
  moreover have "validate_sections X (plain_state 4) = Inr ()" "validate_frame (plain_state 4) = Inr ()"
    using plain_state_valid [of 4 X U] by (auto simp: validate_state_Inr [of X U "plain_state 4"])
  ultimately have "validate_sections X joined_state = Inr ()" "validate_frame joined_state = Inr ()"
    by (auto simp: joined_state_def plain_state_def validate_sections_def validate_frame_def)
  then show ?thesis
    by (simp add: validate_state_Inr [of X U joined_state]) (simp add: joined_state_def plain_state_def)
qed

lemma sample_round_ok: "state_path_ok (quiet_round sample_env)" "guarded X (quiet_round sample_env)"
  "sound X (quiet_round sample_env) (rd_world sample_round)" "others_advance (quiet_round sample_env)"
proof -
  show p: "state_path_ok (quiet_round sample_env)" using sample_env_ok(2) by (simp add: state_path_ok_def)
  then show "guarded X (quiet_round sample_env)" "others_advance (quiet_round sample_env)"
    by (simp_all add: guarded_def others_advance_def)
  have "saved (quiet_round sample_env) (plain_state 3) old_disk"
    by (simp add: saved_def old_disk_def) (simp add: sample_env_def MAX_STATE_BYTES_def)
  then show "sound X (quiet_round sample_env) (rd_world sample_round)"
    using plain_state_valid [of 3 X "quiet_round sample_env"] joined_valid [of X "quiet_round sample_env"]
    by (auto simp: sound_def sample_round_def core_default_def)
qed

theorem round_keeps_sound_witness:
  "guarded lib_ext (quiet_round sample_env) \<and> sound lib_ext (quiet_round sample_env) (rd_world (snd (sync_once lib_ext (quiet_round sample_env) sample_round)))"
  using round_keeps_sound [OF sample_round_ok(2,3)] sample_round_ok(2) by blast

theorem uploads_are_gated_witness:
  "\<exists>new. rd_sent (snd (sync_once lib_ext (quiet_round sample_env) sample_round)) = new
    \<and> (\<forall>b \<in> set new. validate_state lib_ext (quiet_round sample_env) (sb_state b) = Inr () \<and> upload_ok lib_ext (\<lambda>_. True) b)"
  using uploads_are_gated [OF sample_round_ok(2,3), of lib_ext] by (simp add: sample_round_def)

theorem round_generation_grows_witness:
  "0 \<le> sc_generation (w_core (rd_world (snd (sync_once lib_ext (quiet_round sample_env) sample_round))))"
  using round_generation_grows [OF sample_round_ok(4), of sample_round lib_ext] by (simp add: sample_round_def core_default_def)

definition sample_proof :: fresh_account_proof where
  "sample_proof = \<lparr>fp_keys = sample_keys, fp_relay_url = [], fp_gate = Compatible, fp_format_gate = Compatible, fp_observed_schema = None\<rparr>"

text \<open>The sample disk refuses the joined state, so its receipts stay in memory.\<close>

theorem receipts_retained_witness:
  "\<exists>r w'. receipt_core lib_ext (quiet_round sample_env) sample_proof None []
       \<lparr>ps_accepted = [], ps_conflicts = 0, ps_frozen = False, ps_error = None\<rparr> (rd_world sample_round) = (r, w')
     \<and> sc_records (w_core w') = Some joined_state \<and> sc_generation (w_core w') > 0"
proof -
  let ?N = "quiet_round sample_env" and ?w = "rd_world sample_round"
  let ?p = "\<lparr>ps_accepted = [], ps_conflicts = 0, ps_frozen = False, ps_error = None\<rparr>"
  obtain r w' where r: "receipt_core lib_ext ?N sample_proof None [] ?p ?w = (r, w')" by force
  have rr: "receive_receipts None [] ?p joined_state = Inr joined_state"
    by (simp add: receive_receipts_def joined_state_def apply_account_receipts_def apply_receipts_def account_new_def)
  have same: "same_account joined_state (ck_chain_id (fp_keys sample_proof)) (fp_relay_url sample_proof)"
    by (simp add: same_account_def joined_state_def sample_proof_def account_new_def plain_state_def)
  have "receipt_core lib_ext ?N sample_proof None [] ?p ?w
      = save_core lib_ext ?N (?w\<lparr>w_core := (w_core ?w)\<lparr>sc_records := Some joined_state, sc_generation := 1\<rparr>\<rparr>)"
    using rr same joined_valid [of lib_ext ?N]
    by (simp add: receipt_core_def sample_round_def core_default_def active_state_def checked_add_def)
  with r save_core_generation [of lib_ext ?N "?w\<lparr>w_core := (w_core ?w)\<lparr>sc_records := Some joined_state, sc_generation := 1\<rparr>\<rparr>"]
  have g: "sc_generation (w_core w') = 1" by simp
  then have "w' \<noteq> ?w" by (auto simp: sample_round_def core_default_def)
  from receipts_retained [OF sample_round_ok(1,3) r this] rr g r show ?thesis
    by (auto simp: sample_round_def core_default_def)
qed

theorem unsaved_state_stops_round_witness:
  "\<exists>e. fst (run lib_ext (quiet_round (sample_env\<lparr>x_state_to_vec := \<lambda>_. Inl []\<rparr>)) sample_round) = Inl e"
proof -
  let ?N = "quiet_round (sample_env\<lparr>x_state_to_vec := \<lambda>_. Inl []\<rparr>)"
  have "is_err (fst (save_core lib_ext ?N w))" if "w_core w = w_core (rd_world sample_round)" for w :: "unit world"
    using that joined_valid [of lib_ext ?N]
    by (simp add: save_core_def sample_round_def core_default_def active_state_def mark_saved_def on_disk_def save_active_def
        io_bind_def io_lift_def is_err_def map_err_def)
  moreover have "sc_unsaved (w_core (rd_world sample_round))" by (simp add: sample_round_def)
  ultimately show ?thesis
    using unsaved_state_stops_round [of ?N sample_round lib_ext] by auto
qed

text \<open>The relay claims a sequence number beyond the range it can have.\<close>

theorem closed_gate_blocks_witness:
  "\<exists>s'. sc_records (w_core (rd_world (snd (publish_prepared_account_gate lib_ext (quiet_round sample_env)
       \<lparr>pg_snapshot = joined_state, pg_keys = sample_keys, pg_pulled = \<lparr>pl_records = [], pl_latest_seq = u64_max\<rparr>\<rparr> sample_round)))) = Some s'
     \<and> account_writes_blocked lib_ext s'"
proof -
  let ?N = "quiet_round sample_env"
  let ?pg = "\<lparr>pg_snapshot = joined_state, pg_keys = sample_keys, pg_pulled = \<lparr>pl_records = [], pl_latest_seq = u64_max\<rparr>\<rparr>"
  obtain res r' where r: "publish_prepared_account_gate lib_ext ?N ?pg sample_round = (res, r')" by force
  have "mo_gate (merge_account lib_ext account sample_keys (pg_pulled ?pg) 0) \<noteq> Compatible" for account
    by (auto simp: merge_account_def Let_def initial_report_def valid_pull_def MAX_RELAY_SEQ_def u64_max_def split: prod.splits)
  then have "fst (observed_gates lib_ext sample_keys (pg_pulled ?pg) joined_state) \<noteq> Compatible"
    by (simp add: observed_gates_def joined_state_def Let_def)
  moreover have "writes_allowed (w_core (rd_world sample_round)) = Inr ()" "sc_records (w_core (rd_world sample_round)) = Some joined_state"
    by (simp_all add: writes_allowed_Inr sample_round_def core_default_def)
  moreover have "same_account joined_state (ck_chain_id sample_keys) (st_relay_url joined_state)"
    by (simp add: same_account_def joined_state_def account_new_def plain_state_def)
  moreover have "x_debug_repository ?N e \<noteq> SUPERSEDED" for e by (simp add: sample_env_def SUPERSEDED_def lit_def)
  ultimately show ?thesis
    using closed_gate_blocks [of ?N sample_round joined_state ?pg lib_ext res r'] sample_round_ok(1) r by simp
qed

end
