(* ===== verification/Pin_Properties.thy ===== *)
theory Pin_Properties
  imports Record_Pin Directory_Properties Round_Properties
begin

text \<open>
  Storing a confirmed host key is one transaction against what the person approved, and it keeps memory and disk sound.
\<close>

section \<open>The transaction\<close>

lemma identity_host:
  assumes "pin_identity_of X s i = Inr (route, keys)"
  shows "get_host X s i = Inr (last route)"
proof -
  have "resolve_host_chain X s i = Inr route" using assms by (auto simp: pin_identity_of_def)
  from resolve_host_chain_route [OF this] show ?thesis by (metis last_in_set)
qed

lemma approved_identity:
  "require_approved_identity X s captured i approved = Inr () \<longleftrightarrow>
     st_device_id s = st_device_id captured \<and> st_relay_url s = st_relay_url captured
     \<and> map_option acc_chain_id (st_account s) = map_option acc_chain_id (st_account captured) \<and> pin_identity_of X s i = Inr approved"
  by (cases approved) (auto simp: require_approved_identity_def Let_def split: if_splits)

lemma pin_review_Inr:
  "pin_review X tb hop previous key captured = Inr (host, approved) \<longleftrightarrow>
     get_host X captured (hf_id hop) = Inr host \<and> \<not> endpoint_moved hop host
     \<and> (\<exists>current. saved_pin X tb (hp_host_key (hr_payload (hv_host host))) = Inr current \<and> pin_is_current previous key current)
     \<and> pin_identity_of X captured (hf_id hop) = Inr approved"
  by (cases approved) (auto simp: pin_review_def)

text \<open>A confirmed pin that succeeds ended in exactly one commit of the transaction, to the state that was current then.\<close>

lemma pin_confirm_transaction:
  assumes "pin_confirm X N tb cancelled guard hop previous key r = (Inr (), r')"
  obtains captured host approved now gone w s s' g where
    "pin_review X tb hop previous key captured = Inr (host, approved)" "active_state (w_core w) = Inr s"
    "pin_transform X captured approved hop (hp_host_key (hr_payload (hv_host host))) key now gone s = Inr s'"
    "persist_candidate X N s' w = (Inr g, rd_world r')"
proof -
  have "\<exists>captured p now r1 g. pin_review X tb hop previous key captured = Inr p
    \<and> pin_commit X N cancelled captured (snd p) hop (hp_host_key (hr_payload (hv_host (fst p)))) key now r1 = (Inr g, r')"
    using assms unfolding pin_confirm_def io_bind_Inr io_simps case_prod_beta
    by (elim exE conjE) (blast intro: sym)
  then obtain captured now r1 g host approved where rev: "pin_review X tb hop previous key captured = Inr (host, approved)"
    and c: "pin_commit X N cancelled captured approved hop (hp_host_key (hr_payload (hv_host host))) key now r1 = (Inr g, r')"
    by (metis prod.collapse)
  let ?w = "x_others N (rd_step r1) (rd_world r1)"
  from c have m: "mutate_records X N (pin_transform X captured approved hop (hp_host_key (hr_payload (hv_host host))) key now
      (cancelled (rd_step r1))) ?w = (Inr g, rd_world r')"
    by (auto simp: pin_commit_def access_def split: prod.splits)
  then obtain s s' where "active_state (w_core ?w) = Inr s"
    "pin_transform X captured approved hop (hp_host_key (hr_payload (hv_host host))) key now (cancelled (rd_step r1)) s = Inr s'"
    "persist_candidate X N s' ?w = (Inr g, rd_world r')"
    unfolding mutate_records_def by (auto split: sum.splits)
  with rev that show thesis by blast
qed

text \<open>C33. A host key is stored only as it was approved: however the records changed while the person decided and the relay was
  asked, when the transaction commits, the device, its relay and its account (the chain, or that there is none) are those of the state the
  person saw, and so are the host, its route and its login keys; the
  server is still at the address that presented the key, the key it replaces is the one that was shown, the
  connection was not cancelled, and the only row that changes is the host's, which gets exactly the confirmed key.\<close>

theorem pin_only_as_approved:
  assumes "pin_review X tb hop previous key captured = Inr (host, approved)" "maps_ok s"
    and "pin_transform X captured approved hop (hp_host_key (hr_payload (hv_host host))) key now_ms gone s = Inr s'"
  shows "\<not> gone \<and> st_device_id s = st_device_id captured \<and> st_relay_url s = st_relay_url captured
    \<and> map_option acc_chain_id (st_account s) = map_option acc_chain_id (st_account captured)
    \<and> pin_identity_of X s (hf_id hop) = pin_identity_of X captured (hf_id hop)
    \<and> get_host X s (hf_id hop) = Inr host \<and> endpoint_of host = \<lparr>ep_hostname = hf_hostname hop, ep_port = hf_port hop\<rparr>
    \<and> (\<exists>current. saved_pin X tb (hp_host_key (hr_payload (hv_host host))) = Inr current \<and> pin_is_current previous key current)
    \<and> (if is_some_and (hp_host_key (hr_payload (hv_host host))) (\<lambda>c. same_pin c (stored_of X key)) then s' = s
       else row_edit s (hr_scope (hv_host host)) (hf_id hop)
         (x_host_to_value X ((hr_payload (hv_host host))\<lparr>hp_host_key :=
            Some ((stored_of X key)\<lparr>hk_pinned_at_ms := now_ms, hk_pinned_by_device_id := st_device_id captured\<rparr>)\<rparr>)) False now_ms s')"
proof -
  note rev = assms(1) [unfolded pin_review_Inr]
  let ?ep = "\<lparr>ep_hostname = hf_hostname hop, ep_port = hf_port hop\<rparr>" and ?old = "hp_host_key (hr_payload (hv_host host))"
  from assms(3) have c: "require_approved_identity X s captured (hf_id hop) approved = Inr ()" "\<not> gone"
    "pin_host_key X s (hf_id hop) ?ep ?old (stored_of X key) now_ms = Inr s'"
    by (auto simp: pin_transform_def)
  obtain route keys where a: "approved = (route, keys)" by fastforce
  have same: "pin_identity_of X s (hf_id hop) = Inr approved" "st_device_id s = st_device_id captured" "st_relay_url s = st_relay_url captured"
    "map_option acc_chain_id (st_account s) = map_option acc_chain_id (st_account captured)" using c(1) by (simp_all add: approved_identity)
  have h: "get_host X s (hf_id hop) = Inr host"
    using identity_host [of X s "hf_id hop"] identity_host [of X captured "hf_id hop"] same(1) rev a by simp
  have "if is_some_and ?old (\<lambda>c. same_pin c (stored_of X key)) then s' = s
       else row_edit s (hr_scope (hv_host host)) (hf_id hop)
         (x_host_to_value X ((hr_payload (hv_host host))\<lparr>hp_host_key :=
            Some ((stored_of X key)\<lparr>hk_pinned_at_ms := now_ms, hk_pinned_by_device_id := st_device_id captured\<rparr>)\<rparr>)) False now_ms s'"
    using assms(2) c(3)
  proof (cases rule: pin_host_key_edit)
    case (same v)
    with h show ?thesis by simp
  next
    case (pinned v)
    have "s' = s" if "is_some_and ?old (\<lambda>c. same_pin c (stored_of X key))"
      using c(3) h that by (auto simp: pin_host_key_def Let_def)
    with pinned h same(2) show ?thesis by auto
  qed
  moreover have "endpoint_of host = ?ep" using rev by (simp add: endpoint_moved_def endpoint_of_def)
  ultimately show ?thesis using c(2) same h rev by simp
qed

section \<open>Memory and disk\<close>

context round_invariant
begin

lemma runs_live: "runs inv (live cancelled) (\<lambda>_. True)"
  unfolding live_def by (rule runs_weaken [OF runs_ask]) simp

lemma runs_capture: "runs inv (capture X N) V"
  unfolding capture_def by (rule runs_bind [OF runs_preflight]) (rule runs_core_read)

lemma runs_prepare_for_scope: "runs inv (prepare_for_scope X N scope captured) (\<lambda>_. True)"
  unfolding prepare_for_scope_def by (cases scope) (auto intro: runs_bind [OF runs_prepare] runs_return)

lemma runs_publish_for_scope: "runs inv (publish_for_scope X N prepared) (\<lambda>_. True)"
  unfolding publish_for_scope_def
  by (cases prepared) (auto intro!: runs_return runs_bind [OF runs_publish] runs_weaken [OF runs_lift])

lemma runs_pin_commit: "runs inv (pin_commit X N cancelled captured approved hop expected key now) (\<lambda>_. True)"
proof (rule runsI)
  fix r r' :: "'d round" and x
  let ?f = "pin_transform X captured approved hop expected key now (cancelled (rd_step r))"
  assume "inv r" "pin_commit X N cancelled captured approved hop expected key now r = (x, r')"
  moreover have "runs inv (access N (mutate_records X N ?f)) (\<lambda>_. True)"
    by (rule runs_access) (metis commits snd_conv)
  ultimately show "inv r' \<and> (\<forall>a. x = Inr a \<longrightarrow> True)" unfolding pin_commit_def by (blast dest: runsD)
qed

lemma runs_pin_confirm:
  assumes "runs inv (guarded_by guard) (\<lambda>_. True)" "\<And>w. I w \<Longrightarrow> I (snd (on_disk (require_no_pending_migration N) w))"
  shows "runs inv (pin_confirm X N tb cancelled guard hop previous key) (\<lambda>_. True)"
proof -
  have disk: "runs inv (access N (on_disk (require_no_pending_migration N))) (\<lambda>_. True)"
    by (rule runs_access) (metis assms(2) snd_conv)
  show ?thesis
    unfolding pin_confirm_def
    by (rule runs_bind [OF runs_live] runs_bind [OF runs_capture] runs_bind [OF runs_lift] runs_pair runs_bind [OF assms(1)]
        runs_bind [OF runs_prepare_for_scope] runs_bind [OF runs_query] runs_bind [OF disk] runs_bind [OF runs_core_read]
        runs_bind [OF runs_publish_for_scope] runs_bind [OF runs_pin_commit] runs_return TrueI)+
qed

end

lemma no_pending_sound:
  assumes "sound X N w" shows "sound X N (snd (on_disk (require_no_pending_migration N) w))"
proof -
  obtain x d where d: "require_no_pending_migration N (w_disk w) = (x, d)" by fastforce
  then have "d_files d = d_files (w_disk w)"
    by (auto simp: require_no_pending_migration_def io_bind_def io_lift_def dest: pending_migrations_same split: prod.splits sum.splits)
  with assms d show ?thesis by (auto simp: on_disk_def intro: sound_same)
qed

text \<open>Confirming a host key keeps memory and disk sound, like a synchronisation round: wherever it stops, whatever the
  callbacks of the request, the relay and the other threads do as long as they keep it too, the state file holds a
  valid state and agrees with memory unless that is marked as unsaved.\<close>

theorem pin_confirm_keeps_sound:
  assumes "guarded X N" "sound X N (rd_world r)"
    and "\<And>q. sound X N (rd_world q) \<Longrightarrow> sound X N (rd_world (snd (guard q))) \<and> rd_sent (snd (guard q)) = rd_sent q"
  shows "sound X N (rd_world (snd (pin_confirm X N tb cancelled guard hop previous key r)))"
proof -
  have "runs (\<lambda>q. (guarded X N \<longrightarrow> sound X N (rd_world q)) \<and> (\<exists>new. rd_sent q = rd_sent r @ new \<and> (\<forall>b \<in> set new. upload_ok X
      (\<lambda>s. guarded X N \<longrightarrow> validate_state X N s = Inr () \<or> account_writes_blocked X s) b))) (guarded_by guard) (\<lambda>_. True)"
    using assms(1,3) by (fastforce simp: runs_def guarded_by_def split: prod.splits)
  from rounds.runs_pin_confirm [OF this, of tb cancelled hop previous key] no_pending_sound
  have "runs (\<lambda>q. (guarded X N \<longrightarrow> sound X N (rd_world q)) \<and> (\<exists>new. rd_sent q = rd_sent r @ new \<and> (\<forall>b \<in> set new. upload_ok X
      (\<lambda>s. guarded X N \<longrightarrow> validate_state X N s = Inr () \<or> account_writes_blocked X s) b))) (pin_confirm X N tb cancelled guard hop previous key) (\<lambda>_. True)"
    by blast
  from runsD [OF this, of r] assms(1,2) show ?thesis by (metis append_Nil2 empty_iff empty_set prod.collapse)
qed

theorem pin_confirm_keeps_sound_witness:
  "sound lib_ext (quiet_round sample_env) (rd_world (snd (pin_confirm lib_ext (quiet_round sample_env) (\<lambda>_. None) (\<lambda>_. False) (Pair (Inr ()))
     \<lparr>hf_id = lit ''1'', hf_alias = lit ''web'', hf_hostname = lit ''h'', hf_port = 22, hf_user = lit ''root''\<rparr> None
     \<lparr>sk_algorithm = lit ''ssh-ed25519'', sk_public_key = [1], sk_fingerprint = lit ''SHA256:a''\<rparr> sample_round)))"
  by (rule pin_confirm_keeps_sound [OF sample_round_ok(2,3)]) simp

section \<open>An example\<close>

text \<open>The one host of a library, without a key so far, is seen with a key and the person confirms it.\<close>

definition one_hop :: hop_ref where
  "one_hop = \<lparr>hf_id = sample_id, hf_alias = lit ''a'', hf_hostname = lit ''h'', hf_port = 22, hf_user = lit ''root''\<rparr>"

definition one_key :: host_key where
  "one_key = \<lparr>sk_algorithm = lit ''ssh-ed25519'', sk_public_key = [1], sk_fingerprint = lit ''SHA256:a''\<rparr>"

lemma one_identity: "pin_identity_of sample_rext (one_state (lit ''a'') 1 5) sample_id = Inr ([one_view (lit ''a'') 1 5], [])"
  by (simp add: pin_identity_of_def one_chain map_err_def List.map_filter_simps) (simp add: sample_payload_def)

lemma one_review:
  "pin_review sample_rext (\<lambda>_. None) one_hop None one_key (one_state (lit ''a'') 1 5)
   = Inr (one_view (lit ''a'') 1 5, [one_view (lit ''a'') 1 5], [])"
proof -
  have "hp_hostname sample_payload = lit ''h''" "hp_port sample_payload = 22" by (simp_all add: sample_payload_def)
  then show ?thesis
    using one_hosts_list(2) [OF one_host_valid(1), of 1 5] one_identity
    by (simp add: pin_review_Inr) (simp add: one_hop_def endpoint_moved_def saved_pin_def pin_is_current_def)
qed

lemma one_pinned:
  "pin_transform sample_rext (one_state (lit ''a'') 1 5) ([one_view (lit ''a'') 1 5], []) one_hop None one_key 9 False (one_state (lit ''a'') 1 5)
   = Inr (one_state (lit ''a'') 2 9)"
proof -
  let ?pin = "(stored_of sample_rext one_key)\<lparr>hk_pinned_at_ms := 9, hk_pinned_by_device_id := replicate 32 48\<rparr>"
  have pay: "hp_hostname sample_payload = lit ''h''" "hp_port sample_payload = 22" "hp_alias sample_payload = lit ''a''"
    "st_device_id (one_state (lit ''a'') 1 5) = replicate 32 48" "sample_payload\<lparr>hp_alias := lit ''a''\<rparr> = sample_payload"
    by (simp_all add: sample_payload_def one_state_def sample_state_def put_host_def)
  have json: "x_host_to_value sample_rext (sample_payload\<lparr>hp_host_key := Some ?pin\<rparr>) = x_host_to_value sample_rext sample_payload"
    by (simp add: sample_rext_def record_ext.defs crypto_ext.defs sample_payload_def)
  have ord: "ordered_record (one_state (lit ''a'') 1 5) sample_id (x_host_to_value sample_rext sample_payload) False 9
      [lr_record (one_row (lit ''a'') 1 5)] = Inr (lr_record (one_row (lit ''a'') 2 9))"
    by (simp add: ordered_record_def one_row_def checked_add_def one_state_def sample_state_def pay)
  have c: "cached (lr_record (one_row (lit ''a'') 2 9)) 0 HS_Local = one_row (lit ''a'') 2 9" by (simp add: cached_def one_row_def)
  obtain snap where "snapshot sample_rext (one_state (lit ''a'') 1 5) = Inr snap" using one_snapshot [OF one_host_valid(1), of 1 5] by auto
  then have t: "validate_transition sample_rext (one_state (lit ''a'') 1 5) (one_state (lit ''a'') 2 9) = Inr ()"
    by (rule one_transition [OF one_host_valid(1), rotated]) simp
  have "is_slot_id (replicate 32 48)" by (simp add: hex_ids str_simps)
  then have "check_pin sample_rext sample_id ?pin = Inr ()"
    by (simp add: check_pin_def parse_public_def stored_of_def one_key_def)
      (simp add: sample_rext_def record_ext.defs crypto_ext.defs)
  then have v: "validate_host sample_rext ((one_host (lit ''a''))\<lparr>hr_payload := sample_payload\<lparr>hp_host_key := Some ?pin\<rparr>\<rparr>) = Inr ()"
    using one_host_valid(1) [of sample_rext] by (simp add: validate_host_def validate_host_shape_def one_host_def pay Let_def)
  have "pin_host_key sample_rext (one_state (lit ''a'') 1 5) sample_id \<lparr>ep_hostname = lit ''h'', ep_port = 22\<rparr> None (stored_of sample_rext one_key) 9
      = Inr (one_state (lit ''a'') 2 9)"
    by (simp add: pin_host_key_def one_hosts_list(2) [OF one_host_valid(1)] ensure_scope_def ensure_host_authority_def pay Let_def v json
        replace_host_row_def one_at ord c one_put one_state_def [symmetric] t)
  then show ?thesis
    by (simp add: pin_transform_def approved_identity [THEN iffD2] one_hop_def one_identity map_err_def)
qed

theorem pin_only_as_approved_witness:
  "pin_transform sample_rext (one_state (lit ''a'') 1 5) ([one_view (lit ''a'') 1 5], []) one_hop None one_key 9 False (one_state (lit ''a'') 1 5)
     = Inr (one_state (lit ''a'') 2 9)
   \<and> get_host sample_rext (one_state (lit ''a'') 1 5) (hf_id one_hop) = Inr (one_view (lit ''a'') 1 5)
   \<and> endpoint_of (one_view (lit ''a'') 1 5) = \<lparr>ep_hostname = hf_hostname one_hop, ep_port = hf_port one_hop\<rparr>
   \<and> (\<exists>payload. hp_host_key payload \<noteq> None
        \<and> row_edit (one_state (lit ''a'') 1 5) HS_Local (hf_id one_hop) (x_host_to_value sample_rext payload) False 9 (one_state (lit ''a'') 2 9))"
proof -
  have "pin_transform sample_rext (one_state (lit ''a'') 1 5) ([one_view (lit ''a'') 1 5], []) one_hop
      (hp_host_key (hr_payload (hv_host (one_view (lit ''a'') 1 5)))) one_key 9 False (one_state (lit ''a'') 1 5) = Inr (one_state (lit ''a'') 2 9)"
    using one_pinned by simp
  from pin_only_as_approved [OF one_review sample_maps_ok(2) this] one_pinned show ?thesis
    by (auto simp: is_some_and_def intro!: exI [of _ "sample_payload\<lparr>hp_alias := lit ''a'', hp_host_key :=
      Some ((stored_of sample_rext one_key)\<lparr>hk_pinned_at_ms := 9, hk_pinned_by_device_id := st_device_id (one_state (lit ''a'') 1 5)\<rparr>)\<rparr>"])
qed

end
