(* ===== verification/Account_World.thy ===== *)
theory Account_World
  imports Record_Round
begin

text \<open>
  What the operations on the account of a device touch besides the records: the keychain, which has an entry per
  name (\<open>secrets::Keychain\<close>), new chains on the relay and random identities. Every outside call answers by the
  number of its step, so each may fail and the keychain may be changed by others at any time. \<open>dv_log\<close> lists
  what an operation read from and did to the outside, the pages the relay answered with, the pending operation it took up and every state it
  committed, in order.
\<close>

datatype account_event =
    AV_Read rstr "rstr option"
  | AV_Set rstr rstr
  | AV_Delete rstr
  | AV_Chain rstr
  | AV_Freeze rstr
  | AV_Push rstr "outgoing_item list"
  | AV_Commit sync_state
  | AV_Resume pending_account_operation
  | AV_Pull rstr chain_keys pull_response

record 'd device =
  dv_round :: "'d round"
  dv_log :: "account_event list"

record 'd device_env = "'d round_env" +
  x_secret_get :: "nat \<Rightarrow> rstr \<Rightarrow> app_error + rstr option"
  x_secret_set :: "nat \<Rightarrow> rstr \<Rightarrow> rstr \<Rightarrow> app_error + unit"
  x_secret_delete :: "nat \<Rightarrow> rstr \<Rightarrow> app_error + unit"
  x_create_chain :: "nat \<Rightarrow> rstr \<Rightarrow> rstr \<Rightarrow> rstr \<Rightarrow> relay_error + unit"
  x_random :: "nat \<Rightarrow> rstr + (nat \<Rightarrow> 8 word)"
  x_tries :: nat

type_synonym ('d, 'a) device_act = "('d device, 'a) act"

definition in_round :: "('d, 'a) round_act \<Rightarrow> ('d, 'a) device_act" where
  "in_round f st = (case f (dv_round st) of (res, r) \<Rightarrow> (res, st\<lparr>dv_round := r\<rparr>))"

text \<open>The result of a call whose error is handled by the caller. A panic is not handled.\<close>

definition attempt :: "('d, 'a) device_act \<Rightarrow> ('d, app_error + 'a) device_act" where
  "attempt m st =
     (case m st of
        (Inl e, st) \<Rightarrow> (if rd_panicked (dv_round st) then Inl e else Inr (Inl e), st)
      | (Inr a, st) \<Rightarrow> (Inr (Inr a), st))"

definition log_account :: "account_event \<Rightarrow> 'd device \<Rightarrow> 'd device" where
  "log_account e st = st\<lparr>dv_log := dv_log st @ [e]\<rparr>"

definition taken_up :: "pending_account_operation \<Rightarrow> ('d, unit) device_act" where
  "taken_up op st = (Inr (), log_account (AV_Resume op) st)"

definition next_step :: "'d device \<Rightarrow> 'd device" where
  "next_step st = st\<lparr>dv_round := (dv_round st)\<lparr>rd_step := rd_step (dv_round st) + 1\<rparr>\<rparr>"

definition secret_get :: "('d, 'u) device_env_scheme \<Rightarrow> rstr \<Rightarrow> ('d, rstr option) device_act" where
  "secret_get N name st =
     (case x_secret_get N (rd_step (dv_round st)) name of
        Inl e \<Rightarrow> (Inl e, next_step st)
      | Inr v \<Rightarrow> (Inr v, log_account (AV_Read name v) (next_step st)))"

text \<open>A write that reports an error may still have happened, so it is logged before it is made.\<close>

definition secret_set :: "('d, 'u) device_env_scheme \<Rightarrow> rstr \<Rightarrow> rstr \<Rightarrow> ('d, unit) device_act" where
  "secret_set N name v st =
     (x_secret_set N (rd_step (dv_round st)) name v, log_account (AV_Set name v) (next_step st))"

definition secret_delete :: "('d, 'u) device_env_scheme \<Rightarrow> rstr \<Rightarrow> ('d, unit) device_act" where
  "secret_delete N name st =
     (x_secret_delete N (rd_step (dv_round st)) name, log_account (AV_Delete name) (next_step st))"

definition create_chain :: "('d, 'u) device_env_scheme \<Rightarrow> rstr \<Rightarrow> chain_keys \<Rightarrow> ('d, unit) device_act" where
  "create_chain N url keys st =
     (map_err app_error_of_relay (x_create_chain N (rd_step (dv_round st)) url (ck_chain_id keys) (ck_auth_token keys)),
      log_account (AV_Chain (ck_chain_id keys)) (next_step st))"

definition push_chain :: "('d, 'u) device_env_scheme \<Rightarrow> rstr \<Rightarrow> chain_keys \<Rightarrow> outgoing_item list \<Rightarrow> ('d, pushed) device_act" where
  "push_chain N url keys outs st =
     (Inr (push_outgoing (x_relay_push N (rd_step (dv_round st)) url (ck_chain_id keys) (ck_auth_token keys)) outs),
      log_account (AV_Push (ck_chain_id keys) outs) (next_step st))"

text \<open>\<open>new_id\<close>: lower case hex of so many random bytes.\<close>

definition new_id :: "('d, 'u) device_env_scheme \<Rightarrow> app_error \<Rightarrow> nat \<Rightarrow> ('d, rstr) device_act" where
  "new_id N e n st =
     (case x_random N (rd_step (dv_round st)) of
        Inl _ \<Rightarrow> (Inl e, next_step st)
      | Inr f \<Rightarrow> (Inr (hex (map f [0..<n])), next_step st))"

text \<open>A commit of the records, logged with the state that is in memory afterwards.\<close>

definition commit_records :: "'a merge_ext_scheme \<Rightarrow> ('d, 'u) device_env_scheme \<Rightarrow> (sync_state \<Rightarrow> app_error + sync_state) \<Rightarrow> ('d, unit) device_act" where
  "commit_records X N f st =
     (case in_round (access N (mutate_records X N f)) st of
        (Inl e, st) \<Rightarrow> (Inl e, st)
      | (Inr _, st) \<Rightarrow>
          (Inr (), case sc_records (w_core (rd_world (dv_round st))) of Some s \<Rightarrow> log_account (AV_Commit s) st | None \<Rightarrow> st))"

definition change_core :: "('d, 'u) device_env_scheme \<Rightarrow> (sync_core \<Rightarrow> sync_core) \<Rightarrow> ('d, unit) device_act" where
  "change_core N f = in_round (access N (\<lambda>w. (Inr (), w\<lparr>w_core := f (w_core w)\<rparr>)))"

text \<open>\<open>env.relay(url)\<close> and \<open>relay.pull(\<dots>)\<close>.\<close>

definition connect_relay :: "('d, 'u) device_env_scheme \<Rightarrow> rstr \<Rightarrow> ('d, unit) device_act" where
  "connect_relay N url = in_round (ask (\<lambda>n. x_connect N n url))"

definition answered :: "rstr \<Rightarrow> chain_keys \<Rightarrow> pull_response \<Rightarrow> ('d, pull_response) device_act" where
  "answered url keys pulled st = (Inr pulled, log_account (AV_Pull url keys pulled) st)"

definition pull_chain :: "('d, 'u) device_env_scheme \<Rightarrow> rstr \<Rightarrow> chain_keys \<Rightarrow> ('d, pull_response) device_act" where
  "pull_chain N url keys =
     io_bind (in_round (ask (\<lambda>n. map_err app_error_of_relay (x_relay_pull N n url (ck_chain_id keys) (ck_auth_token keys) 0))))
       (answered url keys)"

definition env_now :: "('d, 'u) device_env_scheme \<Rightarrow> ('d, u64) device_act" where
  "env_now N = in_round (query (x_now N))"

end
