(* ===== verification/Record_Leave.thy ===== *)
theory Record_Leave
  imports Account_World
begin

text \<open>
  Leaving an account (\<open>sync/record_leave.rs\<close>): every live host and group of the selected spaces is copied into the
  local library under a new identity, the saved passwords are copied to the new identities, the account is dropped
  from the state in one commit, and only then the sync code is removed from the keychain. The plan of the copies is
  part of the state file, so the operation can be resumed. Its validation is in the theory of the state file.
\<close>

section \<open>Small steps\<close>

definition leave_new_id :: "('d, 'u) device_env_scheme \<Rightarrow> nat \<Rightarrow> ('d, rstr) device_act" where
  "leave_new_id N = new_id N (leave_error ''cannot create local preservation identity'')"

text \<open>The loop that draws until an identity is free. It is given \<open>x_tries\<close> rounds; a run that needs more of them is
  treated like one that never returns.\<close>

fun fresh_id :: "('d, 'u) device_env_scheme \<Rightarrow> nat \<Rightarrow> rstr set \<Rightarrow> ('d, rstr) device_act" where
  "fresh_id N 0 used = in_round panic"
| "fresh_id N (Suc k) used =
     io_bind (leave_new_id N 8) (\<lambda>i. if i \<in> used then fresh_id N k used else io_return i)"

definition live_local :: "'a record_ext_scheme \<Rightarrow> local_record \<Rightarrow> app_error + host_record" where
  "live_local X r =
     live_or (leave_error ''invalid local host'') (leave_error ''invalid local host'') (decode_host X (lr_record r) HS_Local)"

fun collect_all :: "('a \<Rightarrow> 'e + 'b) \<Rightarrow> 'a list \<Rightarrow> 'e + 'b list" where
  "collect_all f [] = Inr []"
| "collect_all f (x # xs) = rbind (f x) (\<lambda>y. rbind (collect_all f xs) (\<lambda>ys. Inr (y # ys)))"

definition local_hosts :: "'a record_ext_scheme \<Rightarrow> sync_state \<Rightarrow> app_error + host_record list" where
  "local_hosts X s = collect_all (live_local X) (filter (\<lambda>r. \<not> r_deleted (lr_record r)) (bt_values (ls_hosts (st_local s))))"

definition effective_record :: "'a record_ext_scheme \<Rightarrow> sync_state \<Rightarrow> host_record \<Rightarrow> repository_error + host_record" where
  "effective_record X s h = rbind (resolve_effective X s h) (\<lambda>e. Inr (h\<lparr>hr_payload := ef_payload e\<rparr>))"

definition local_id_set :: "sync_state \<Rightarrow> rstr set" where
  "local_id_set s = (\<lambda>r. r_id (lr_record r)) ` (set (bt_values (ls_hosts (st_local s))) \<union> set (bt_values (ls_groups (st_local s))))"

section \<open>The plan\<close>

text \<open>The live rows of the spaces, in the order of the loops.\<close>

definition source_rows :: "(rstr, space_state) btm \<Rightarrow> (rstr \<times> local_record) list" where
  "source_rows spaces =
     concat (map (\<lambda>(sid, sp). map (Pair sid) (filter (\<lambda>r. \<not> r_deleted (lr_record r)) (bt_values (sp_records sp)))) spaces)"

fun assign_ids :: "('d, 'u) device_env_scheme \<Rightarrow> rstr set \<Rightarrow> rstr set \<Rightarrow> (rstr, rstr) btm \<Rightarrow> (rstr \<times> local_record \<times> rstr) list
    \<Rightarrow> (rstr \<times> local_record) list \<Rightarrow> ('d, (rstr, rstr) btm \<times> (rstr \<times> local_record \<times> rstr) list) device_act" where
  "assign_ids N local_ids used remap rows [] = io_return (remap, rows)"
| "assign_ids N local_ids used remap rows ((sid, source) # rest) =
     (let i = r_id (lr_record source) in
      io_bind (io_lift (fail_if (i \<in> local_ids \<or> bt_contains remap i)
                          (leave_error ''duplicate source host identity requires review before leaving''))) (\<lambda>_.
      io_bind (fresh_id N (x_tries N) used) (\<lambda>j.
      assign_ids N local_ids (insert j used) (bt_insert i j remap) (rows @ [(sid, source, j)]) rest)))"

record leave_build =
  lb_names :: "(rstr option \<times> rstr) set"
  lb_aliases :: "rstr set"
  lb_existing :: "host_record list"
  lb_hosts :: "planned_host list"
  lb_groups :: "planned_group list"

definition copied_record :: "sync_state \<Rightarrow> u64 \<Rightarrow> rstr \<Rightarrow> json \<Rightarrow> sync_record \<Rightarrow> local_record" where
  "copied_record s now i payload rec =
     \<lparr>lr_record = rec\<lparr>r_id := i, r_version := 1, r_updated_at_ms := now, r_device_id := st_device_id s, r_payload := payload\<rparr>,
      lr_seq = 0, lr_dirty = False\<rparr>"

text \<open>A live row never decodes to a tombstone, so the branch \<open>unreachable!()\<close> is not taken.\<close>

definition plan_group :: "'a record_ext_scheme \<Rightarrow> sync_state \<Rightarrow> u64 \<Rightarrow> (rstr, rstr) btm \<Rightarrow> leave_build \<Rightarrow> rstr \<times> local_record \<times> rstr
    \<Rightarrow> app_error + leave_build" where
  "plan_group X s now remap b row =
     (case row of (sid, source, i) \<Rightarrow>
      rbind (live_or (leave_error ''invalid source group'') (leave_error ''unreachable'')
               (decode_group X (lr_record source) HS_Local)) (\<lambda>g.
      rbind (case gp_parent_id (gr_payload g) of
               None \<Rightarrow> Inr (gr_payload g)
             | Some p \<Rightarrow> rbind (ok_or (leave_error ''missing source parent'') (bt_get remap p)) (\<lambda>q.
                         Inr ((gr_payload g)\<lparr>gp_parent_id := Some q\<rparr>))) (\<lambda>p.
      let p = p\<lparr>gp_defaults := (gp_defaults p)\<lparr>gd_jump := map_option (map (remap_jump remap)) (gd_jump (gp_defaults p))\<rparr>\<rparr>;
          taken = (gp_parent_id p, gp_name p) \<in> lb_names b;
          q = (if taken then p\<lparr>gp_name := remapped_group_name (gp_name p) i\<rparr> else p)
      in Inr (b\<lparr>lb_names := insert (gp_parent_id p, gp_name p) (lb_names b),
                lb_groups := lb_groups b @
                  [\<lparr>pg_source_space_id = sid, pg_source_group_id = r_id (lr_record source), pg_local_group_id = i,
                    pg_local = copied_record s now i (x_group_to_value X q) (lr_record source)\<rparr>]\<rparr>))))"

definition plan_host :: "'a record_ext_scheme \<Rightarrow> sync_state \<Rightarrow> u64 \<Rightarrow> (rstr, rstr) btm \<Rightarrow> leave_build \<Rightarrow> rstr \<times> local_record \<times> rstr
    \<Rightarrow> app_error + leave_build" where
  "plan_host X s now remap b row =
     (case row of (sid, source, i) \<Rightarrow>
      rbind (live_or (leave_error ''source host needs review before leaving'') (leave_error ''unreachable'')
               (decode_host X (lr_record source) HS_Local)) (\<lambda>h.
      rbind (case hp_group_id (hr_payload h) of
               None \<Rightarrow> Inr (hr_payload h)
             | Some g \<Rightarrow> rbind (ok_or (leave_error ''missing source group'') (bt_get remap g)) (\<lambda>q.
                         Inr ((hr_payload h)\<lparr>hp_group_id := Some q\<rparr>))) (\<lambda>p.
      let p = p\<lparr>hp_jump := map (remap_jump remap) (hp_jump p)\<rparr>;
          a = (if hp_alias p \<in> lb_aliases b then hp_alias p @ lit ''-'' @ i else hp_alias p)
      in rbind (fail_if (a \<in> lb_aliases b) (leave_error ''local alias collision requires review'')) (\<lambda>_.
         let p = p\<lparr>hp_alias := a\<rparr> in
         Inr (b\<lparr>lb_aliases := insert a (lb_aliases b),
                lb_existing := lb_existing b @ [h\<lparr>hr_id := i, hr_payload := p\<rparr>],
                lb_hosts := lb_hosts b @
                  [\<lparr>ph_mapping = \<lparr>rmap_source_space_id = sid, rmap_source_host_id = r_id (lr_record source), rmap_local_host_id = i, rmap_alias = a\<rparr>,
                    ph_local = copied_record s now i (x_host_to_value X p) (lr_record source)\<rparr>]\<rparr>)))))"

definition plan_row :: "'a record_ext_scheme \<Rightarrow> sync_state \<Rightarrow> u64 \<Rightarrow> (rstr, rstr) btm \<Rightarrow> leave_build \<Rightarrow> rstr \<times> local_record \<times> rstr
    \<Rightarrow> app_error + leave_build" where
  "plan_row X s now remap b row =
     (if r_kind (lr_record (fst (snd row))) = RK_Group then plan_group X s now remap b row else plan_host X s now remap b row)"

definition insert_groups :: "planned_group list \<Rightarrow> (rstr, local_record) btm \<Rightarrow> (rstr, local_record) btm" where
  "insert_groups gs m = foldl (\<lambda>m g. bt_insert (record_key RK_Group (pg_local_group_id g)) (pg_local g) m) m gs"

definition check_plan :: "'a record_ext_scheme \<Rightarrow> sync_state \<Rightarrow> (rstr, space_state) btm \<Rightarrow> leave_build \<Rightarrow> app_error + leave_plan" where
  "check_plan X s spaces b =
     (let candidate = s\<lparr>st_spaces := [], st_local := (st_local s)\<lparr>ls_groups := insert_groups (lb_groups b) (ls_groups (st_local s))\<rparr>\<rparr> in
      rbind (map_err (\<lambda>_. leave_error ''source inheritance requires review'')
               (collect_all (effective_record X candidate) (lb_existing b))) (\<lambda>effective.
      rbind (map_err (\<lambda>_. leave_error ''selected hosts have unresolved routes or conflicts; review before leaving'')
               (validate_hosts X effective)) (\<lambda>_.
      let plan = \<lparr>lp_groups = lb_groups b, lp_source_spaces = spaces, lp_hosts = lb_hosts b, lp_passwords_copied = {}\<rparr> in
      rbind (validate_leave_plan X plan) (\<lambda>_. Inr plan))))"

definition leave_plan_of :: "'a record_ext_scheme \<Rightarrow> ('d, 'u) device_env_scheme \<Rightarrow> sync_state \<Rightarrow> (rstr, space_state) btm \<Rightarrow> ('d, leave_plan) device_act" where
  "leave_plan_of X N s spaces =
     io_bind (io_lift (local_hosts X s)) (\<lambda>existing.
     let local_ids = local_id_set s;
         used = local_ids \<union> (\<Union>sp \<in> set (bt_values spaces). (\<lambda>r. r_id (lr_record r)) ` set (bt_values (sp_records sp)))
     in
     io_bind (assign_ids N local_ids used bt_empty [] (source_rows spaces)) (\<lambda>(remap, rows).
     io_bind (env_now N) (\<lambda>now.
     io_bind (io_lift (map_err (\<lambda>_. leave_error ''invalid existing groups'') (list_groups X s))) (\<lambda>groups.
     let b = \<lparr>lb_names = (\<lambda>g. (gp_parent_id (gr_payload (gv_group g)), gp_name (gr_payload (gv_group g))))
                             ` set (filter (\<lambda>g. gr_scope (gv_group g) = HS_Local) groups),
              lb_aliases = (\<lambda>h. hp_alias (hr_payload h)) ` set existing, lb_existing = existing, lb_hosts = [], lb_groups = []\<rparr>
     in io_lift (rbind (for_each (plan_row X s now remap) b rows) (check_plan X s spaces))))))"

section \<open>The rows to be preserved\<close>

definition unreadable_row :: "'a merge_ext_scheme \<Rightarrow> chain_keys \<Rightarrow> space_state \<Rightarrow> sealed_record \<Rightarrow> bool" where
  "unreadable_row X child sp r \<longleftrightarrow>
     (e_kind (sr_envelope r) = lit ''group'' \<or> e_kind (sr_envelope r) = lit ''host'') \<and> \<not> e_deleted (sr_envelope r)
     \<and> (\<not> is_legacy_alias_host X child (sr_envelope r)
        \<or> list_ex (\<lambda>known. r_kind (lr_record known) = RK_Host
                     \<and> id_hash X child (lit ''host'') (r_id (lr_record known)) = e_id_hash (sr_envelope r)) (bt_values (sp_records sp)))"

definition keep_unsent :: "space_state \<Rightarrow> space_state \<Rightarrow> space_state" where
  "keep_unsent old sp =
     sp\<lparr>sp_records := foldl (\<lambda>m (key, row). bt_insert key row m) (sp_records sp) (filter (\<lambda>(_, r). lr_dirty r) (sp_records old))\<rparr>"

definition source_space :: "'a merge_ext_scheme \<Rightarrow> ('d, 'u) device_env_scheme \<Rightarrow> rstr \<Rightarrow> account_state \<Rightarrow> chain_keys \<Rightarrow> rstr \<Rightarrow> space_state
    \<Rightarrow> ('d, space_state) device_act" where
  "source_space X N url account keys i old =
     io_bind (io_lift (fail_if (sp_missing old) (leave_error ''a selected space is missing; local preservation did not complete''))) (\<lambda>_.
     io_bind (io_lift (rbind (space_keys X account keys i)
                (ok_or (leave_error ''a selected space is unavailable; local preservation did not complete'')))) (\<lambda>child.
     io_bind (attempt (pull_chain N url (child\<lparr>ck_chain_id := i\<rparr>))) (\<lambda>answer.
     io_bind (io_lift (map_err (\<lambda>_. leave_error ''a selected space could not be read; local preservation did not complete'') answer)) (\<lambda>pulled.
     let merged = merge_space X old child pulled 0 Compatible in
     if mo_gate merged \<noteq> Compatible \<or> \<not> mo_baseline_established merged
        \<or> list_ex (unreadable_row X child (mo_section merged)) (bt_values (sp_sealed (mo_section merged)))
     then io_fail (leave_error ''a selected space has unreadable hosts or groups; local preservation did not complete'')
     else io_return (keep_unsent old (mo_section merged))))))"

fun source_loop :: "'a merge_ext_scheme \<Rightarrow> ('d, 'u) device_env_scheme \<Rightarrow> rstr \<Rightarrow> account_state \<Rightarrow> chain_keys \<Rightarrow> (rstr, space_state) btm
    \<Rightarrow> (rstr \<times> space_state) list \<Rightarrow> ('d, (rstr, space_state) btm) device_act" where
  "source_loop X N url account keys out [] = io_return out"
| "source_loop X N url account keys out ((i, old) # rest) =
     io_bind (source_space X N url account keys i old) (\<lambda>sp. source_loop X N url account keys (bt_insert i sp out) rest)"

definition source_spaces :: "'a merge_ext_scheme \<Rightarrow> ('d, 'u) device_env_scheme \<Rightarrow> account_state \<Rightarrow> chain_keys \<Rightarrow> (rstr, space_state) btm
    \<Rightarrow> ('d, (rstr, space_state) btm) device_act" where
  "source_spaces X N account keys sections =
     io_bind (in_round (core_read N)) (\<lambda>s.
     io_bind (connect_relay N (st_relay_url s)) (\<lambda>_.
     source_loop X N (st_relay_url s) account keys bt_empty (filter (\<lambda>(_, sp). sp_selected sp) sections)))"

definition check_source_key :: "'a merge_ext_scheme \<Rightarrow> sync_state \<Rightarrow> account_state \<Rightarrow> chain_keys \<Rightarrow> sync_state \<Rightarrow> host_view \<Rightarrow> app_error + unit" where
  "check_source_key X s account keys source view =
     rbind (map_err (\<lambda>_. leave_error ''invalid source inheritance'') (resolve_effective X source (hv_host view))) (\<lambda>effective.
     case Option.bind (hp_key_id (ef_payload effective)) (\<lambda>i. map_option (Pair i) (bt_get (ls_keys (st_local s)) i)) of
       None \<Rightarrow> Inr ()
     | Some (i, local) \<Rightarrow>
         rbind (if bt_contains (acc_sealed account) (sealed_key (lit ''keyslot'') (id_hash X keys (lit ''keyslot'') i))
                then
                  if bt_contains (acc_records account) (record_key RK_KeySlot i)
                  then Inl (leave_error ''authoritative key metadata needs review before local detach'')
                  else rbind (map_err (\<lambda>_. leave_error ''authoritative key metadata needs review before local detach'')
                                (legacy_own_slot_revision X account keys i)) (\<lambda>revision.
                       fail_if (revision = None) (leave_error ''authoritative key metadata needs review before local detach''))
                else Inr ()) (\<lambda>_.
         (case bt_get (acc_records account) (record_key RK_KeySlot i) of
            None \<Rightarrow> Inr ()
          | Some row \<Rightarrow>
              rbind (map_err (\<lambda>_. leave_error ''authoritative key needs review'') (decode_keyslot X (lr_record row))) (\<lambda>typed.
              (case typed of
                 Live public \<Rightarrow>
                   map_err (\<lambda>_. leave_error ''local key conflicts with the account; review before leaving'')
                     (key_material_matches X public (ks_public_key (lk_public local)) (ks_fingerprint (lk_public local)))
               | Tombstone _ \<Rightarrow> Inl (leave_error ''deleted account key cannot be revived by local detach''))))))"

definition check_source_key_material :: "'a merge_ext_scheme \<Rightarrow> sync_state \<Rightarrow> chain_keys \<Rightarrow> (rstr, space_state) btm \<Rightarrow> app_error + unit" where
  "check_source_key_material X s keys spaces =
     rbind (ok_or (leave_error ''source account changed'') (st_account s)) (\<lambda>account.
     let source = s\<lparr>st_spaces := spaces\<rparr> in
     rbind (map_err (\<lambda>_. leave_error ''invalid source hosts'') (snapshot X source)) (\<lambda>snap.
     for_all (check_source_key X s account keys source) (filter (\<lambda>h. hr_scope (hv_host h) \<noteq> HS_Local) (snap_hosts snap))))"

section \<open>Storing and checking the operation\<close>

definition store_transform :: "pending_account_operation \<Rightarrow> sync_state \<Rightarrow> app_error + sync_state" where
  "store_transform op s =
     (if st_relay_url s \<noteq> po_relay_url op \<or> is_some_and (st_pending_account s) (\<lambda>p. po_id p \<noteq> po_id op) then Inl superseded
      else Inr (s\<lparr>st_pending_account := Some op\<rparr>))"

definition leave_store :: "'a merge_ext_scheme \<Rightarrow> ('d, 'u) device_env_scheme \<Rightarrow> pending_account_operation \<Rightarrow> ('d, unit) device_act" where
  "leave_store X N op = commit_records X N (store_transform op)"

definition newer_schema :: "account_state \<Rightarrow> bool" where
  "newer_schema a \<longleftrightarrow> is_some_and (acc_remote_schema_version a) (\<lambda>v. v > ACCOUNT_SCHEMA)"

definition ensure_latest :: "'a merge_ext_scheme \<Rightarrow> ('d, 'u) device_env_scheme \<Rightarrow> pending_account_operation \<Rightarrow> ('d, unit) device_act" where
  "ensure_latest X N op =
     io_bind (in_round (preflight X N)) (\<lambda>_.
     io_bind (in_round (core_read N)) (\<lambda>s.
     io_bind (io_lift (ok_or superseded (opt_filter (\<lambda>p. po_id p = po_id op) (st_pending_account s)))) (\<lambda>p.
     io_lift (fail_if (is_some_and (st_account s) newer_schema \<or> newer_schema (po_prepared_account p) \<or> account_migration_pending X s)
                (leave_error ''latest account observation prevents local detach effects'')))))"

definition retained_gate :: "account_state merge_report \<Rightarrow> pending_account_operation \<Rightarrow> pending_account_operation" where
  "retained_gate merged op =
     op\<lparr>po_migration_gate := (case mo_gate merged of MigrationPending m \<Rightarrow> Some m | _ \<Rightarrow> None),
        po_prepared_account := (case opt_filter (\<lambda>v. v > ACCOUNT_SCHEMA) (mo_observed_schema merged) of
           Some v \<Rightarrow> (po_prepared_account op)\<lparr>acc_remote_schema_version := Some v\<rparr>
         | None \<Rightarrow> po_prepared_account op)\<rparr>"

definition leave_fail_closed :: "pending_account_operation \<Rightarrow> sync_core \<Rightarrow> sync_core" where
  "leave_fail_closed retained core =
     (case opt_filter (\<lambda>s. st_relay_url s = po_relay_url retained) (sc_records core) of
        None \<Rightarrow> core
      | Some s \<Rightarrow>
          (case opt_filter (\<lambda>p. po_id p = po_id retained) (st_pending_account s) of
             None \<Rightarrow> core
           | Some latest \<Rightarrow>
               core\<lparr>sc_records := Some (s\<lparr>st_shared_writes_blocked := True,
                      st_pending_account := Some (latest\<lparr>po_migration_gate := po_migration_gate retained,
                        po_prepared_account := (po_prepared_account latest)\<lparr>acc_remote_schema_version :=
                          opt_max (acc_remote_schema_version (po_prepared_account latest))
                            (acc_remote_schema_version (po_prepared_account retained))\<rparr>\<rparr>),
                      st_last_error := Some (lit ''an authenticated detach gate could not be saved'')\<rparr>),
                    sc_save_blocked :=
                      Some (lit ''an authenticated detach gate could not be saved; repair record storage before resuming'')\<rparr>))"

text \<open>Without an account in the state, the sync code that is still in the keychain is checked against the relay.\<close>

definition detached_proof :: "'a merge_ext_scheme \<Rightarrow> ('d, 'u) device_env_scheme \<Rightarrow> pending_account_operation \<Rightarrow> ('d, chain_keys option) device_act" where
  "detached_proof X N op =
     io_bind (attempt (secret_get N MNEMONIC_ACCOUNT)) (\<lambda>answer.
     io_bind (io_lift (map_err (\<lambda>_. leave_error ''sync code cleanup is pending'') answer)) (\<lambda>stored.
     case stored of
       None \<Rightarrow>
         if po_phase op = PP_Activated then io_return None
         else io_fail (leave_error ''source sync code is unavailable'')
     | Some code \<Rightarrow>
         io_bind (io_lift (derive_account X code)) (\<lambda>keys.
         io_bind (io_lift (fail_if (ck_chain_id keys \<noteq> acc_chain_id (po_prepared_account op))
                             (leave_error ''source sync code changed; review pending detach''))) (\<lambda>_.
         io_bind (connect_relay N (po_relay_url op)) (\<lambda>_.
         io_bind (pull_chain N (po_relay_url op) keys) (\<lambda>pulled.
         let merged = merge_account X (po_prepared_account op) keys pulled 0 in
         if mo_gate merged = Compatible then io_return (Some keys)
         else
           (let retained = retained_gate merged op in
            io_bind (attempt (leave_store X N retained)) (\<lambda>res.
            case res of
              Inl e \<Rightarrow> io_bind (change_core N (leave_fail_closed retained)) (\<lambda>_. io_fail e)
            | Inr _ \<Rightarrow> io_fail (leave_error ''account format prevents sync code cleanup'')))))))))"

definition leave_proof :: "'a merge_ext_scheme \<Rightarrow> ('d, 'u) device_env_scheme \<Rightarrow> pending_account_operation \<Rightarrow> ('d, chain_keys option) device_act" where
  "leave_proof X N op =
     io_bind (in_round (preflight X N)) (\<lambda>_.
     io_bind (in_round (core_read N)) (\<lambda>s.
     if st_account s \<noteq> None then
       io_bind (in_round (fresh_account_gate X N)) (\<lambda>p.
       if ck_chain_id (fp_keys p) \<noteq> acc_chain_id (po_prepared_account op) \<or> fp_format_gate p \<noteq> Compatible
       then io_fail (leave_error ''account format prevents local detach'')
       else io_return (Some (fp_keys p)))
     else detached_proof X N op))"

section \<open>Passwords\<close>

definition host_password :: "rstr \<Rightarrow> rstr" where
  "host_password i = lit ''host:'' @ i"

definition password_receipt :: "rstr \<Rightarrow> pending_account_operation \<Rightarrow> pending_account_operation" where
  "password_receipt i op =
     op\<lparr>po_leave := map_option (\<lambda>plan. plan\<lparr>lp_passwords_copied := insert i (lp_passwords_copied plan)\<rparr>) (po_leave op)\<rparr>"

definition copy_password :: "'a merge_ext_scheme \<Rightarrow> ('d, 'u) device_env_scheme \<Rightarrow> pending_account_operation \<Rightarrow> planned_host
    \<Rightarrow> ('d, pending_account_operation) device_act" where
  "copy_password X N op h =
     (let source_name = host_password (rmap_source_host_id (ph_mapping h));
          target_name = host_password (rmap_local_host_id (ph_mapping h)) in
      io_bind (ensure_latest X N op) (\<lambda>_.
      io_bind (attempt (secret_get N source_name)) (\<lambda>a.
      io_bind (io_lift (map_err (\<lambda>_. leave_error ''source password could not be read'') a)) (\<lambda>source.
      io_bind (attempt (secret_get N target_name)) (\<lambda>b.
      io_bind (io_lift (map_err (\<lambda>_. leave_error ''target password could not be read'') b)) (\<lambda>target.
      io_bind (ensure_latest X N op) (\<lambda>_.
      io_bind (if source = target then io_return ()
               else (case (source, target) of
                       (Some v, None) \<Rightarrow>
                         io_bind (attempt (secret_set N target_name v)) (\<lambda>res.
                         io_lift (map_err (\<lambda>_. leave_error ''password namespace copy is pending'') res))
                     | _ \<Rightarrow> io_fail (leave_error ''target password differs; review before continuing''))) (\<lambda>_.
      let op = password_receipt (rmap_local_host_id (ph_mapping h)) op in
      io_bind (leave_store X N op) (\<lambda>_. io_return op)))))))))"

fun copy_passwords :: "'a merge_ext_scheme \<Rightarrow> ('d, 'u) device_env_scheme \<Rightarrow> pending_account_operation \<Rightarrow> planned_host list
    \<Rightarrow> ('d, pending_account_operation) device_act" where
  "copy_passwords X N op [] = io_return op"
| "copy_passwords X N op (h # hs) = io_bind (copy_password X N op h) (\<lambda>op. copy_passwords X N op hs)"

section \<open>The commit that drops the account\<close>

fun occupy :: "string \<Rightarrow> (rstr \<times> local_record) list \<Rightarrow> (rstr, local_record) btm \<Rightarrow> app_error + (rstr, local_record) btm" where
  "occupy what [] m = Inr m"
| "occupy what ((k, row) # rows) m =
     (if bt_contains m k then Inl (leave_error what) else occupy what rows (bt_insert k row m))"

definition remap_group_id :: "leave_plan \<Rightarrow> rstr \<Rightarrow> rstr" where
  "remap_group_id plan i =
     (case List.find (\<lambda>g. pg_source_group_id g = i) (lp_groups plan) of None \<Rightarrow> i | Some g \<Rightarrow> pg_local_group_id g)"

definition detach_transform :: "'a record_ext_scheme \<Rightarrow> pending_account_operation \<Rightarrow> leave_plan \<Rightarrow> sync_state \<Rightarrow> app_error + sync_state" where
  "detach_transform X op plan latest =
     (if map_option po_id (st_pending_account latest) \<noteq> Some (po_id op)
         \<or> map_option acc_chain_id (st_account latest) \<noteq> Some (acc_chain_id (po_prepared_account op)) then Inl superseded
      else
        rbind (occupy ''planned local identity became occupied''
                 (map (\<lambda>h. (record_key RK_Host (rmap_local_host_id (ph_mapping h)), ph_local h)) (lp_hosts plan)) (ls_hosts (st_local latest))) (\<lambda>hosts.
        rbind (occupy ''planned group identity became occupied''
                 (map (\<lambda>g. (record_key RK_Group (pg_local_group_id g), pg_local g)) (lp_groups plan)) (ls_groups (st_local latest))) (\<lambda>groups.
        let n = latest\<lparr>st_local := (st_local latest)\<lparr>ls_groups := groups, ls_hosts := hosts\<rparr>\<rparr> in
        rbind (local_hosts X n) (\<lambda>all.
        rbind (map_err (\<lambda>_. leave_error ''preserved inheritance needs review'') (collect_all (effective_record X n) all)) (\<lambda>effective.
        rbind (map_err (\<lambda>_. leave_error ''latest local routes conflict with preservation plan'') (validate_hosts X effective)) (\<lambda>_.
        let order = map (remap_group_id plan) (ov_ids (view_order X latest)) in
        Inr (n\<lparr>st_version := (if order \<noteq> [] then max (st_version n) NAVIGATION_STATE_VERSION else st_version n),
               st_account := None, st_spaces := [], st_local := (st_local n)\<lparr>ls_group_order := order\<rparr>,
               st_rotation := None, st_migration_gate := None, st_shared_writes_blocked := False,
               st_pending_account := Some (op\<lparr>po_phase := PP_Activated\<rparr>), st_last_error := None\<rparr>)))))))"

definition finish_leave :: "pending_account_operation \<Rightarrow> sync_state \<Rightarrow> app_error + sync_state" where
  "finish_leave op s =
     (if map_option po_id (st_pending_account s) \<noteq> Some (po_id op) \<or> st_account s \<noteq> None then Inl superseded
      else Inr (s\<lparr>st_pending_account := None, st_last_error := None\<rparr>))"

section \<open>Resuming and leaving\<close>

text \<open>The records of a section by their keys.\<close>

definition plain_rows :: "space_state \<Rightarrow> (rstr \<times> sync_record) list" where
  "plain_rows sp = map (\<lambda>(k, r). (k, lr_record r)) (sp_records sp)"

fun check_unchanged :: "(rstr, space_state) btm \<Rightarrow> (rstr \<times> space_state) list \<Rightarrow> ('d, unit) device_act" where
  "check_unchanged expected [] = io_return ()"
| "check_unchanged expected ((i, sp) # rest) =
     io_bind (in_round (unwrap (bt_get expected i))) (\<lambda>a.
     if plain_rows sp \<noteq> plain_rows a then io_fail (leave_error ''source hosts changed; review pending local preservation'')
     else check_unchanged expected rest)"

definition detach :: "'a merge_ext_scheme \<Rightarrow> ('d, 'u) device_env_scheme \<Rightarrow> pending_account_operation \<Rightarrow> chain_keys option
    \<Rightarrow> ('d, pending_account_operation) device_act" where
  "detach X N op proven =
     io_bind (in_round (core_read N)) (\<lambda>s.
     io_bind (io_lift (ok_or (leave_error ''source account changed'') (st_account s))) (\<lambda>account.
     io_bind (in_round (unwrap proven)) (\<lambda>keys.
     io_bind (in_round (unwrap (po_leave op))) (\<lambda>plan.
     io_bind (source_spaces X N account keys (lp_source_spaces plan)) (\<lambda>source.
     io_bind (io_lift (check_source_key_material X s keys source)) (\<lambda>_.
     io_bind (check_unchanged (lp_source_spaces plan) source) (\<lambda>_.
     io_bind (copy_passwords X N op (lp_hosts plan)) (\<lambda>op.
     io_bind (leave_proof X N op) (\<lambda>_.
     io_bind (ensure_latest X N op) (\<lambda>_.
     io_bind (commit_records X N (detach_transform X op plan)) (\<lambda>_.
     io_return (op\<lparr>po_phase := PP_Activated\<rparr>))))))))))))"

definition leave_resume :: "'a merge_ext_scheme \<Rightarrow> ('d, 'u) device_env_scheme \<Rightarrow> ('d, unit) device_act" where
  "leave_resume X N =
     io_bind (in_round (preflight X N)) (\<lambda>_.
     io_bind (in_round (core_read N)) (\<lambda>s.
     io_bind (io_lift (ok_or (leave_error ''no detach is pending'') (st_pending_account s))) (\<lambda>op.
     io_bind (io_lift (fail_if (po_kind op \<noteq> PK_LeaveAccount) (leave_error ''a different operation is pending''))) (\<lambda>_.
     io_bind (io_lift (validate_pending X N op)) (\<lambda>_.
     io_bind (taken_up op) (\<lambda>_.
     io_bind (leave_proof X N op) (\<lambda>keys.
     io_bind (if po_phase op \<noteq> PP_Activated then detach X N op keys else io_return op) (\<lambda>op.
     io_bind (leave_proof X N op) (\<lambda>code.
     io_bind (if code = None then io_return ()
              else
                io_bind (ensure_latest X N op) (\<lambda>_.
                io_bind (attempt (secret_delete N MNEMONIC_ACCOUNT)) (\<lambda>res.
                io_lift (map_err (\<lambda>_. leave_error ''local data is preserved; sync code cleanup is pending'') res)))) (\<lambda>_.
     commit_records X N (finish_leave op)))))))))))"

record leave_receipt =
  lv_operation_id :: rstr
  lv_complete :: bool
  lv_copied_hosts :: nat
  lv_mappings :: "host_remap list"
  lv_pending_error :: "rstr option"

definition leave_operation :: "sync_state \<Rightarrow> account_state \<Rightarrow> rstr \<Rightarrow> leave_plan \<Rightarrow> pending_account_operation" where
  "leave_operation s account i plan =
     \<lparr>po_id = i, po_device_name = st_device_name s, po_kind = PK_LeaveAccount, po_phase = PP_Prepared, po_migration_gate = None,
      po_relay_url = st_relay_url s, po_staged_code_account = None, po_prepared_account = account, po_space_id = None,
      po_prepared_space = None, po_leave = Some plan, po_rotation = None\<rparr>"

definition leave_account :: "'a merge_ext_scheme \<Rightarrow> ('d, 'u) device_env_scheme \<Rightarrow> ('d, leave_receipt) device_act" where
  "leave_account X N =
     io_bind (in_round (preflight X N)) (\<lambda>_.
     io_bind (in_round (core_read N)) (\<lambda>s.
     io_bind (io_lift (fail_if (st_pending_account s \<noteq> None) (leave_error ''finish the pending record operation before leaving''))) (\<lambda>_.
     io_bind (io_lift (fail_if (account_migration_pending X s) (leave_error ''finish account migration before leaving''))) (\<lambda>_.
     io_bind (in_round (fresh_account_gate X N)) (\<lambda>p.
     io_bind (io_lift (fail_if (fp_format_gate p \<noteq> Compatible) (leave_error ''account format prevents local detach''))) (\<lambda>_.
     io_bind (in_round (core_read N)) (\<lambda>s.
     io_bind (in_round (unwrap (st_account s))) (\<lambda>account.
     io_bind (source_spaces X N account (fp_keys p) (st_spaces s)) (\<lambda>spaces.
     io_bind (io_lift (check_source_key_material X s (fp_keys p) spaces)) (\<lambda>_.
     io_bind (leave_plan_of X N s spaces) (\<lambda>plan.
     io_bind (leave_new_id N 16) (\<lambda>i.
     io_bind (leave_store X N (leave_operation s account i plan)) (\<lambda>_.
     io_bind (attempt (leave_resume X N)) (\<lambda>res.
     io_bind (in_round (core_read N)) (\<lambda>s.
     let mappings = map ph_mapping (lp_hosts plan) in
     io_return \<lparr>lv_operation_id = i, lv_complete = is_ok res,
       lv_copied_hosts = (if st_account s = None then length mappings else 0), lv_mappings = mappings,
       lv_pending_error = (if is_ok res then None
         else Some (lit ''local preservation or credential cleanup is pending; resume the operation''))\<rparr>)))))))))))))))"

end
