(* ===== verification/Record_Account.thy ===== *)
theory Record_Account
  imports Record_Leave
begin

text \<open>
  The life of an account on a device (\<open>sync/record_account.rs\<close>): creating and joining an account, creating,
  selecting and renaming its spaces, and publishing and withdrawing keys. Creating and joining store an operation with
  public data and ciphertext only; the sync code stays in the keychain under a name of the operation until
  the account is active, and every step can be resumed. \<open>record_rotation::resume_locked\<close>, to which a pending
  rotation is passed on, and the parser of private keys (\<open>vault::material::parse\<close>) are arguments.
\<close>

record parsed_private =
  pp_line :: "rstr option"
  pp_fingerprint :: rstr
  pp_is_encrypted :: bool

record 'd account_env = "'d device_env" +
  x_platform :: rstr
  x_app_version :: rstr
  x_generate_mnemonic :: "nat \<Rightarrow> rstr + rstr"
  x_parse_private :: "rstr \<Rightarrow> parsed_private option"

section \<open>Rows\<close>

definition clean_name :: "rstr \<Rightarrow> app_error + rstr" where
  "clean_name name =
     (let name = trim name in
      rbind (fail_if (name = [] \<or> str_len name > 128) (other ''record name must have 1 to 128 bytes'')) (\<lambda>_.
      Inr name))"

definition account_row :: "sync_state \<Rightarrow> record_kind \<Rightarrow> rstr \<Rightarrow> json \<Rightarrow> u64 \<Rightarrow> sync_record" where
  "account_row s kind i payload now =
     \<lparr>r_kind = kind, r_id = i, r_version = 1, r_updated_at_ms = now, r_device_id = st_device_id s, r_deleted = False,
      r_payload = payload\<rparr>"

definition insert_public :: "sync_record \<Rightarrow> account_state \<Rightarrow> account_state" where
  "insert_public rec account =
     account\<lparr>acc_records := bt_insert (record_key (r_kind rec) (r_id rec))
        \<lparr>lr_record = rec, lr_seq = 0, lr_dirty = True\<rparr> (acc_records account)\<rparr>"

definition json_u64 :: "u64 \<Rightarrow> json" where
  "json_u64 n = JNumber (PosInt n)"

definition device_payload_of :: "('d, 'u) account_env_scheme \<Rightarrow> sync_state \<Rightarrow> rstr \<Rightarrow> u64 \<Rightarrow> bool \<Rightarrow> json" where
  "device_payload_of N s name now library =
     JObject (collect_map
       ([(lit ''schema'', json_u64 1), (lit ''name'', JString name), (lit ''platform'', JString (x_platform N)),
         (lit ''joined_at_ms'', json_u64 now), (lit ''last_seen_ms'', json_u64 now), (lit ''keys'', JArray []),
         (lit ''spaces'', JArray (map (\<lambda>(i, _). JString i) (filter (\<lambda>(_, sp). sp_selected sp \<and> \<not> sp_missing sp) (st_spaces s))))]
        @ (if library then [(lit ''sync_library'', JBool True)] else [])))"

definition plan_device :: "('d, 'u) account_env_scheme \<Rightarrow> sync_state \<Rightarrow> rstr \<Rightarrow> u64 \<Rightarrow> account_state \<Rightarrow> app_error + account_state" where
  "plan_device N s name now account =
     (let key = record_key RK_Device (st_device_id s);
          previous = bt_get (acc_records account) key in
      rbind (ok_or (other ''device revision exhausted'')
               (checked_add (case previous of Some r \<Rightarrow> r_version (lr_record r) | None \<Rightarrow> 0) 1)) (\<lambda>version.
      rbind (case previous of
               Some r \<Rightarrow>
                 rbind (ok_or (other ''device timestamp exhausted'') (checked_add (r_updated_at_ms (lr_record r)) 1)) (\<lambda>t.
                 Inr (max t now))
             | None \<Rightarrow> Inr now) (\<lambda>t.
      let library = is_some_and previous
            (\<lambda>r. Option.bind (jget (r_payload (lr_record r)) (lit ''sync_library'')) as_bool = Some True);
          rec = (account_row s RK_Device (st_device_id s) (device_payload_of N s name now library) t)\<lparr>r_version := version\<rparr> in
      Inr (account\<lparr>acc_records := bt_insert key
             \<lparr>lr_record = rec, lr_seq = (case previous of Some r \<Rightarrow> lr_seq r | None \<Rightarrow> 0), lr_dirty = True\<rparr>
             (acc_records account)\<rparr>))))"

definition ensure_empty :: "sync_state \<Rightarrow> app_error + unit" where
  "ensure_empty s =
     rbind (fail_if (st_account s \<noteq> None) (other ''this record workspace already has an account'')) (\<lambda>_.
     fail_if (st_pending_account s \<noteq> None) (other ''finish the pending record account operation first''))"

definition ensure_shared :: "'a record_ext_scheme \<Rightarrow> sync_state \<Rightarrow> app_error + unit" where
  "ensure_shared X s =
     rbind (fail_if (st_account s = None) (other ''join or create a record account first'')) (\<lambda>_.
     fail_if (account_writes_blocked X s \<or> st_rotation s \<noteq> None) (other ''record account shared writes are blocked''))"

section \<open>The pending operation\<close>

definition pending_transform :: "pending_account_operation \<Rightarrow> sync_state \<Rightarrow> app_error + sync_state" where
  "pending_transform op latest =
     (if st_relay_url latest \<noteq> po_relay_url op then Inl superseded
      else if is_some_and (st_pending_account latest) (\<lambda>old. po_id old \<noteq> po_id op)
      then Inl (other ''another record operation is pending'')
      else Inr (latest\<lparr>st_pending_account := Some op\<rparr>))"

definition save_pending :: "'a merge_ext_scheme \<Rightarrow> ('d, 'u) account_env_scheme \<Rightarrow> pending_account_operation \<Rightarrow> ('d, unit) device_act" where
  "save_pending X N op = commit_records X N (pending_transform op)"

definition pending :: "('d, 'u) account_env_scheme \<Rightarrow> ('d, pending_account_operation) device_act" where
  "pending N =
     io_bind (in_round (core_read N)) (\<lambda>s.
     io_lift (ok_or (other ''no record account operation is pending'') (st_pending_account s)))"

text \<open>What the relay acknowledged is kept in memory even when it cannot be saved.\<close>

definition retain_core :: "'a record_ext_scheme \<Rightarrow> 'u runtime_env_scheme \<Rightarrow> pending_account_operation \<Rightarrow> ('d world, unit) act" where
  "retain_core X U op w =
     (let core = w_core w in
      case rbind (case sc_save_blocked core of Some reason \<Rightarrow> Inl (AE_Other reason) | None \<Rightarrow> Inr ()) (\<lambda>_.
           rbind (active_state core) (\<lambda>latest.
           rbind (fail_if (map_option po_id (st_pending_account latest) \<noteq> Some (po_id op) \<or> st_relay_url latest \<noteq> po_relay_url op)
                    superseded) (\<lambda>_.
           let s = latest\<lparr>st_pending_account := Some op\<rparr> in
           rbind (map_err (\<lambda>_. other ''cannot retain invalid pending receipt'') (validate_state X U s)) (\<lambda>_.
           rbind (ok_or (other ''record state generation exhausted'') (checked_add (sc_generation core) 1)) (\<lambda>generation.
           Inr (s, generation)))))) of
        Inl e \<Rightarrow> (Inl e, w)
      | Inr (s, generation) \<Rightarrow> save_core X U (w\<lparr>w_core := core\<lparr>sc_records := Some s, sc_generation := generation\<rparr>\<rparr>))"

definition replace_pending :: "'a merge_ext_scheme \<Rightarrow> ('d, 'u) account_env_scheme \<Rightarrow> pending_account_operation \<Rightarrow> bool \<Rightarrow> ('d, unit) device_act" where
  "replace_pending X N op accepted =
     (if \<not> accepted then save_pending X N op else in_round (access N (retain_core X N op)))"

fun gate_text :: "account_gate \<Rightarrow> rstr" where
  "gate_text (NeedsMigration _) = lit ''this account needs explicit migration before joining records mode''"
| "gate_text (NeedsUpdate _) = lit ''this account uses a newer format; update Lunport''"
| "gate_text (MigrationPending _) = lit ''this account migration is still being published''"
| "gate_text _ = lit ''this record account is not writable''"

definition gate_error :: "account_gate \<Rightarrow> app_error" where
  "gate_error gate = AE_Other (gate_text gate)"

definition pending_gate_transform :: "pending_account_operation \<Rightarrow> account_gate \<Rightarrow> u32 option \<Rightarrow> sync_state \<Rightarrow> app_error + sync_state" where
  "pending_gate_transform op gate sch latest =
     (case opt_filter (\<lambda>p. po_id p = po_id op) (st_pending_account latest) of
        None \<Rightarrow> Inl superseded
      | Some p \<Rightarrow>
          (let marker = (case gate of MigrationPending m \<Rightarrow> Some m | _ \<Rightarrow> None);
               joined = st_account latest \<noteq> None;
               p = p\<lparr>po_migration_gate := marker,
                     po_prepared_account := (case opt_filter (\<lambda>v. v > ACCOUNT_SCHEMA) sch of
                        Some v \<Rightarrow> (po_prepared_account p)\<lparr>acc_remote_schema_version := Some v\<rparr>
                      | None \<Rightarrow> po_prepared_account p)\<rparr> in
           Inr (latest\<lparr>st_migration_gate := (if joined then marker else st_migration_gate latest),
                       st_shared_writes_blocked := (joined \<or> st_shared_writes_blocked latest),
                       st_pending_account := Some p, st_last_error := Some (gate_text gate)\<rparr>)))"

definition pending_fail_closed :: "pending_account_operation \<Rightarrow> sync_core \<Rightarrow> sync_core" where
  "pending_fail_closed op core =
     (case opt_filter (\<lambda>s. is_some_and (st_pending_account s) (\<lambda>p. po_id p = po_id op)) (sc_records core) of
        None \<Rightarrow> core
      | Some s \<Rightarrow> core\<lparr>sc_records := Some (s\<lparr>st_shared_writes_blocked := True\<rparr>),
                    sc_save_blocked := Some (lit ''pending authenticated account gate could not be saved'')\<rparr>)"

definition observe_pending_gate :: "'a merge_ext_scheme \<Rightarrow> ('d, 'u) account_env_scheme \<Rightarrow> pending_account_operation \<Rightarrow> account_gate
    \<Rightarrow> u32 option \<Rightarrow> ('d, 'b) device_act" where
  "observe_pending_gate X N op gate sch =
     io_bind (attempt (commit_records X N (pending_gate_transform op gate sch))) (\<lambda>res.
     case res of
       Inl e \<Rightarrow> io_bind (change_core N (pending_fail_closed op)) (\<lambda>_. io_fail e)
     | Inr _ \<Rightarrow> io_fail (gate_error gate))"

text \<open>An account that was only just created has no records yet, not even its metadata.\<close>

definition new_and_empty :: "pending_account_operation \<Rightarrow> pull_response \<Rightarrow> account_gate \<Rightarrow> bool" where
  "new_and_empty op pulled gate \<longleftrightarrow>
     po_kind op = PK_CreateAccount \<and> pl_records pulled = []
     \<and> (case gate of NeedsMigration sch \<Rightarrow> sch \<le> ACCOUNT_SCHEMA | _ \<Rightarrow> False)"

definition target_pull :: "'a merge_ext_scheme \<Rightarrow> ('d, 'u) account_env_scheme \<Rightarrow> pending_account_operation \<Rightarrow> chain_keys
    \<Rightarrow> ('d, account_state) device_act" where
  "target_pull X N op keys =
     io_bind (in_round (preflight X N)) (\<lambda>_.
     io_bind (connect_relay N (po_relay_url op)) (\<lambda>_.
     io_bind (pull_chain N (po_relay_url op) keys) (\<lambda>pulled.
     let account = po_prepared_account op;
         fresh = merge_account X ((account_new (ck_chain_id keys))\<lparr>acc_remote_schema_version := acc_remote_schema_version account\<rparr>) keys pulled 0;
         new_empty = new_and_empty op pulled (mo_gate fresh) in
     if mo_gate fresh \<noteq> Compatible \<and> \<not> new_empty then observe_pending_gate X N op (mo_gate fresh) (mo_observed_schema fresh)
     else if new_empty then
       io_return (account\<lparr>acc_cursor_seq := 0, acc_baseline_established := True,
                          acc_remote_schema_version := Some MIN_ACCOUNT_SCHEMA\<rparr>)
     else
       (let merged = merge_account X account keys pulled 0 in
        if mo_gate merged \<noteq> Compatible then observe_pending_gate X N op (mo_gate merged) (mo_observed_schema merged)
        else io_return (mo_section merged)))))"

section \<open>Resuming\<close>

definition account_keys :: "'a merge_ext_scheme \<Rightarrow> ('d, 'u) account_env_scheme \<Rightarrow> sync_state \<Rightarrow> ('d, chain_keys option) device_act" where
  "account_keys X N s =
     (if is_err (validate_state X N s) \<or> st_account s = None then io_lift (read_account_keys X N s (Inr None))
      else
        io_bind (attempt (secret_get N MNEMONIC_ACCOUNT)) (\<lambda>phrase.
        io_lift (read_account_keys X N s phrase)))"

definition pending_keys :: "'a merge_ext_scheme \<Rightarrow> ('d, 'u) account_env_scheme \<Rightarrow> pending_account_operation \<Rightarrow> rstr option
    \<Rightarrow> ('d, chain_keys \<times> rstr option) device_act" where
  "pending_keys X N op provided =
     (if po_kind op = PK_CreateSpace then
        io_bind (in_round (core_read N)) (\<lambda>s.
        io_bind (account_keys X N s) (\<lambda>found.
        io_bind (io_lift (ok_or (other ''the current record account code is unavailable'') found)) (\<lambda>keys.
        io_bind (io_lift (fail_if (ck_chain_id keys \<noteq> acc_chain_id (po_prepared_account op))
                            (other ''pending operation belongs to a different account''))) (\<lambda>_.
        io_return (keys, None)))))
      else
        io_bind (io_lift (ok_or (other ''pending staged code identity is invalid'') (po_staged_code_account op))) (\<lambda>name.
        io_bind (attempt (secret_get N (if po_phase op = PP_Activated then MNEMONIC_ACCOUNT else name))) (\<lambda>answer.
        io_bind (io_lift (map_err (\<lambda>_. other ''the pending sync code could not be read'') answer)) (\<lambda>stored.
        io_bind (io_lift (case provided of
                            Some code \<Rightarrow> normalize_mnemonic X code
                          | None \<Rightarrow> ok_or (other ''re-enter the pending sync code to resume this fixed account identity'') stored)) (\<lambda>phrase.
        io_bind (io_lift (map_err (\<lambda>_. other ''the pending sync code is invalid'') (derive_account X phrase))) (\<lambda>keys.
        io_bind (io_lift (fail_if (ck_chain_id keys \<noteq> acc_chain_id (po_prepared_account op))
                            (other ''the supplied sync code does not match the pending account''))) (\<lambda>_.
        io_return (keys, Some phrase))))))))"

definition delete_staged :: "('d, 'u) account_env_scheme \<Rightarrow> pending_account_operation \<Rightarrow> ('d, unit) device_act" where
  "delete_staged N op =
     (case po_staged_code_account op of
        None \<Rightarrow> io_return ()
      | Some name \<Rightarrow>
          io_bind (attempt (secret_delete N name)) (\<lambda>res.
          io_lift (map_err (\<lambda>_. other ''the staged sync code cleanup is pending'') res)))"

definition same_pending :: "pending_account_operation \<Rightarrow> sync_state \<Rightarrow> bool" where
  "same_pending op s \<longleftrightarrow> map_option po_id (st_pending_account s) = Some (po_id op)"

definition cleanup_transform :: "pending_account_operation \<Rightarrow> sync_state \<Rightarrow> app_error + sync_state" where
  "cleanup_transform op latest =
     (if \<not> same_pending op latest then Inl superseded
      else Inr (latest\<lparr>st_shared_writes_blocked := False, st_pending_account := None, st_last_error := None\<rparr>))"

definition done_transform :: "pending_account_operation \<Rightarrow> sync_state \<Rightarrow> app_error + sync_state" where
  "done_transform op latest =
     (if \<not> same_pending op latest then Inl superseded
      else Inr (latest\<lparr>st_pending_account := None, st_last_error := None\<rparr>))"

definition cleanup_activated :: "'a merge_ext_scheme \<Rightarrow> ('d, 'u) account_env_scheme \<Rightarrow> pending_account_operation \<Rightarrow> ('d, unit) device_act" where
  "cleanup_activated X N op =
     io_bind (in_round (fresh_account_gate X N)) (\<lambda>p.
     io_bind (io_lift (ensure_compatible p)) (\<lambda>_.
     io_bind (delete_staged N op) (\<lambda>_.
     commit_records X N (cleanup_transform op))))"

text \<open>The code is staged, after the target account was verified unless the account is still to be created.\<close>

definition verify_first :: "pending_account_operation \<Rightarrow> bool" where
  "verify_first op \<longleftrightarrow> po_kind op = PK_JoinAccount \<or> po_phase op \<noteq> PP_Prepared
     \<or> is_some_and (acc_remote_schema_version (po_prepared_account op)) (\<lambda>v. v > ACCOUNT_SCHEMA)"

definition stage_code :: "'a merge_ext_scheme \<Rightarrow> ('d, 'u) account_env_scheme \<Rightarrow> pending_account_operation \<Rightarrow> chain_keys \<Rightarrow> rstr option
    \<Rightarrow> ('d, pending_account_operation) device_act" where
  "stage_code X N op keys phrase =
     (if po_kind op = PK_CreateSpace then io_return op
      else
        io_bind (if verify_first op then
                   io_bind (target_pull X N op keys) (\<lambda>account.
                   let op = op\<lparr>po_migration_gate := None, po_prepared_account := account\<rparr> in
                   io_bind (save_pending X N op) (\<lambda>_. io_return op))
                 else io_return op) (\<lambda>op.
        io_bind (in_round (unwrap (po_staged_code_account op))) (\<lambda>name.
        io_bind (in_round (unwrap phrase)) (\<lambda>code.
        io_bind (attempt (secret_set N name code)) (\<lambda>res.
        io_bind (io_lift (map_err (\<lambda>_. other ''the pending sync code could not be stored'') res)) (\<lambda>_.
        io_return op))))))"

definition create_remote :: "'a merge_ext_scheme \<Rightarrow> ('d, 'u) account_env_scheme \<Rightarrow> pending_account_operation \<Rightarrow> chain_keys
    \<Rightarrow> ('d, pending_account_operation) device_act" where
  "create_remote X N op keys =
     (if po_kind op = PK_CreateAccount \<and> po_phase op = PP_Prepared then
        io_bind (create_chain N (po_relay_url op) keys) (\<lambda>_.
        let op = op\<lparr>po_phase := PP_RemoteCreated\<rparr> in
        io_bind (replace_pending X N op True) (\<lambda>_. io_return op))
      else io_return op)"

text \<open>Only the rows of the operation are laid over the account as it is now.\<close>

definition overlay_space :: "'a crypto_ext_scheme \<Rightarrow> chain_keys \<Rightarrow> rstr \<Rightarrow> account_state \<Rightarrow> account_state \<Rightarrow> account_state" where
  "overlay_space X keys i prepared account =
     (let public = record_key RK_Space i;
          secret = sealed_key (lit ''spacekey'') (id_hash X keys (lit ''spacekey'') i) in
      account\<lparr>acc_records := (case bt_get (acc_records prepared) public of
                Some r \<Rightarrow> bt_insert public r (acc_records account) | None \<Rightarrow> acc_records account),
              acc_sealed := (case bt_get (acc_sealed prepared) secret of
                Some r \<Rightarrow> bt_insert secret r (acc_sealed account) | None \<Rightarrow> acc_sealed account)\<rparr>)"

definition create_child :: "'a merge_ext_scheme \<Rightarrow> ('d, 'u) account_env_scheme \<Rightarrow> pending_account_operation \<Rightarrow> chain_keys
    \<Rightarrow> ('d, pending_account_operation) device_act" where
  "create_child X N op keys =
     (if po_kind op \<noteq> PK_CreateSpace then io_return op
      else
        io_bind (in_round (fresh_account_gate X N)) (\<lambda>p.
        io_bind (io_lift (ensure_compatible p)) (\<lambda>_.
        io_bind (io_lift (fail_if (ck_chain_id (fp_keys p) \<noteq> ck_chain_id keys) superseded)) (\<lambda>_.
        io_bind (in_round (core_read N)) (\<lambda>latest.
        io_bind (in_round (unwrap (st_account latest))) (\<lambda>account.
        io_bind (in_round (unwrap (po_space_id op))) (\<lambda>i.
        let op = op\<lparr>po_prepared_account := overlay_space X keys i (po_prepared_account op) account\<rparr> in
        io_bind (io_lift (space_keys X (po_prepared_account op) keys i)) (\<lambda>found.
        io_bind (io_lift (ok_or (other ''pending space credentials are unavailable'') found)) (\<lambda>child.
        io_bind (create_chain N (po_relay_url op) child) (\<lambda>_.
        io_bind (pull_chain N (po_relay_url op) child) (\<lambda>pulled.
        io_bind (in_round (unwrap (po_prepared_space op))) (\<lambda>sp.
        let merged = merge_space X sp child pulled 0 Compatible in
        if mo_gate merged \<noteq> Compatible then observe_pending_gate X N op (mo_gate merged) None
        else
          (let op = op\<lparr>po_phase := PP_RemoteCreated, po_prepared_space := Some (mo_section merged)\<rparr> in
           io_bind (replace_pending X N op True) (\<lambda>_. io_return op))))))))))))))"

definition refresh_target :: "'a merge_ext_scheme \<Rightarrow> ('d, 'u) account_env_scheme \<Rightarrow> pending_account_operation \<Rightarrow> chain_keys
    \<Rightarrow> ('d, pending_account_operation) device_act" where
  "refresh_target X N op keys =
     io_bind (target_pull X N op keys) (\<lambda>account.
     let op = op\<lparr>po_prepared_account := account\<rparr> in
     io_bind (save_pending X N op) (\<lambda>_. io_return op))"

definition publish_pending :: "'a merge_ext_scheme \<Rightarrow> ('d, 'u) account_env_scheme \<Rightarrow> pending_account_operation \<Rightarrow> chain_keys
    \<Rightarrow> ('d, pending_account_operation) device_act" where
  "publish_pending X N op keys =
     io_bind (in_round (ask (\<lambda>n. account_outgoing X (x_nonce N n) (po_prepared_account op) keys))) (\<lambda>sent.
     if sent = [] then io_return op
     else
       io_bind (push_chain N (po_relay_url op) keys (map to_outgoing sent)) (\<lambda>pushed.
       let op = op\<lparr>po_phase := PP_Publishing,
                   po_prepared_account := apply_account_receipts (po_prepared_account op) sent (ps_accepted pushed)\<rparr> in
       io_bind (replace_pending X N op True) (\<lambda>_.
       if ps_frozen pushed then observe_pending_gate X N op InvalidMigration None
       else
         (case ps_error pushed of
            Some e \<Rightarrow> io_fail (app_error_of_relay e)
          | None \<Rightarrow>
              if ps_conflicts pushed > 0
              then io_fail (other ''pending account publication conflicted; retry after a fresh pull'')
              else io_return op))))"

definition empty_space :: space_state where
  "empty_space = \<lparr>sp_selected = False, sp_cursor_seq = 0, sp_baseline_established = False, sp_records = [], sp_sealed = [],
     sp_last_error = None, sp_missing = False\<rparr>"

definition discover_live :: "account_state \<Rightarrow> (rstr, space_state) btm \<Rightarrow> (rstr, space_state) btm" where
  "discover_live account spaces =
     foldl (\<lambda>m r. if bt_contains m (r_id (lr_record r)) then m else bt_insert (r_id (lr_record r)) empty_space m) spaces
       (filter (\<lambda>r. r_kind (lr_record r) = RK_Space \<and> \<not> r_deleted (lr_record r)) (bt_values (acc_records account)))"

definition activate_transform :: "pending_account_operation \<Rightarrow> sync_state \<Rightarrow> app_error + sync_state" where
  "activate_transform op latest =
     (if \<not> same_pending op latest then Inl superseded
      else
        (let spaces = discover_live (po_prepared_account op) (st_spaces latest) in
         Inr (latest\<lparr>st_device_name := po_device_name op, st_account := Some (po_prepared_account op),
                st_spaces := (case (po_space_id op, po_prepared_space op) of
                   (Some i, Some sp) \<Rightarrow> bt_insert i sp spaces | _ \<Rightarrow> spaces),
                st_migration_gate := None, st_shared_writes_blocked := False,
                st_pending_account := Some (op\<lparr>po_phase := PP_Activated\<rparr>)\<rparr>)))"

definition promote_code :: "('d, 'u) account_env_scheme \<Rightarrow> rstr option \<Rightarrow> ('d, unit) device_act" where
  "promote_code N phrase =
     (case phrase of
        None \<Rightarrow> io_return ()
      | Some code \<Rightarrow>
          io_bind (attempt (secret_set N MNEMONIC_ACCOUNT code)) (\<lambda>res.
          io_lift (map_err (\<lambda>_. other ''the current sync code promotion is pending'') res)))"

definition activate :: "'a merge_ext_scheme \<Rightarrow> ('d, 'u) account_env_scheme \<Rightarrow> pending_account_operation \<Rightarrow> chain_keys \<Rightarrow> rstr option
    \<Rightarrow> ('d, unit) device_act" where
  "activate X N op keys phrase =
     (let op = op\<lparr>po_phase := PP_ActivationReady\<rparr> in
      io_bind (save_pending X N op) (\<lambda>_.
      io_bind (refresh_target X N op keys) (\<lambda>op.
      io_bind (promote_code N phrase) (\<lambda>_.
      io_bind (commit_records X N (activate_transform op)) (\<lambda>_.
      io_bind (delete_staged N op) (\<lambda>_.
      io_bind (commit_records X N (done_transform op)) (\<lambda>_.
      change_core N (\<lambda>core. core\<lparr>sc_account_keys := Some keys\<rparr>))))))))"

definition complete_pending :: "'a merge_ext_scheme \<Rightarrow> ('d, 'u) account_env_scheme \<Rightarrow> pending_account_operation \<Rightarrow> rstr option
    \<Rightarrow> ('d, unit) device_act" where
  "complete_pending X N op provided =
     io_bind (pending_keys X N op provided) (\<lambda>(keys, phrase).
     if po_phase op = PP_Activated then cleanup_activated X N op
     else
       io_bind (connect_relay N (po_relay_url op)) (\<lambda>_.
       io_bind (stage_code X N op keys phrase) (\<lambda>op.
       io_bind (create_remote X N op keys) (\<lambda>op.
       io_bind (create_child X N op keys) (\<lambda>op.
       io_bind (refresh_target X N op keys) (\<lambda>op.
       io_bind (publish_pending X N op keys) (\<lambda>op.
       activate X N op keys phrase)))))))"

definition account_resume :: "'a merge_ext_scheme \<Rightarrow> ('d, 'u) account_env_scheme \<Rightarrow> (rstr option \<Rightarrow> ('d, unit) device_act) \<Rightarrow> rstr option
    \<Rightarrow> ('d, unit) device_act" where
  "account_resume X N rotation provided =
     io_bind (in_round (preflight X N)) (\<lambda>_.
     io_bind (pending N) (\<lambda>op.
     io_bind (io_lift (validate_pending X N op)) (\<lambda>_.
     if po_kind op = PK_LeaveAccount then leave_resume X N
     else if po_kind op = PK_RotateAccount then rotation provided
     else io_bind (taken_up op) (\<lambda>_. complete_pending X N op provided))))"

definition resume_pending :: "'a merge_ext_scheme \<Rightarrow> ('d, 'u) account_env_scheme \<Rightarrow> (rstr option \<Rightarrow> ('d, unit) device_act) \<Rightarrow> rstr option
    \<Rightarrow> ('d, unit) device_act" where
  "resume_pending X N rotation code = account_resume X N rotation code"

section \<open>Creating and joining\<close>

fun app_error_text :: "app_error \<Rightarrow> rstr" where
  "app_error_text (AE_Io e) = lit ''io error: '' @ e"
| "app_error_text (AE_ForbiddenPath p) = lit ''path is not allowed: '' @ p"
| "app_error_text (AE_NotFound what) = lit ''not found: '' @ what"
| "app_error_text (AE_Other message) = message"
| "app_error_text (AE_Parse message line) = lit ''parse error at line '' @ dec line @ lit '': '' @ message"
| "app_error_text (AE_Conflict what) = lit ''file changed on disk since it was loaded: '' @ what"

record account_creation =
  ac_code :: rstr
  ac_operation_id :: rstr
  ac_complete :: bool
  ac_pending_error :: "rstr option"

definition account_new_id :: "('d, 'u) account_env_scheme \<Rightarrow> ('d, rstr) device_act" where
  "account_new_id N = new_id N (other ''cannot create operation identity'') 16"

definition account_operation :: "sync_state \<Rightarrow> rstr \<Rightarrow> rstr \<Rightarrow> pending_account_kind \<Rightarrow> pending_account_phase \<Rightarrow> account_state
    \<Rightarrow> pending_account_operation" where
  "account_operation s i device_name kind phase account =
     \<lparr>po_id = i, po_device_name = device_name, po_kind = kind, po_phase = phase, po_migration_gate = None,
      po_relay_url = st_relay_url s, po_staged_code_account = Some (PENDING_CODE_PREFIX @ i), po_prepared_account = account,
      po_space_id = None, po_prepared_space = None, po_leave = None, po_rotation = None\<rparr>"

definition generate_code :: "('d, 'u) account_env_scheme \<Rightarrow> ('d, rstr) device_act" where
  "generate_code N =
     in_round (ask (\<lambda>n. map_err (\<lambda>e. AE_Other (lit ''cannot generate a sync code: '' @ e)) (x_generate_mnemonic N n)))"

definition create_account :: "'a merge_ext_scheme \<Rightarrow> ('d, 'u) account_env_scheme \<Rightarrow> (rstr option \<Rightarrow> ('d, unit) device_act) \<Rightarrow> rstr
    \<Rightarrow> ('d, account_creation) device_act" where
  "create_account X N rotation device_name =
     io_bind (io_lift (clean_name device_name)) (\<lambda>device_name.
     io_bind (in_round (preflight X N)) (\<lambda>_.
     io_bind (in_round (core_read N)) (\<lambda>s.
     io_bind (io_lift (ensure_empty s)) (\<lambda>_.
     io_bind (generate_code N) (\<lambda>code.
     io_bind (io_lift (derive_account X code)) (\<lambda>keys.
     io_bind (account_new_id N) (\<lambda>i.
     io_bind (env_now N) (\<lambda>now.
     let account = insert_public (account_row s RK_Meta ACCOUNT_META_ID
           (JObject (collect_map [(lit ''schema_version'', json_u64 3), (lit ''created_by_app_version'', JString (x_app_version N))])) now)
           ((account_new (ck_chain_id keys))\<lparr>acc_remote_schema_version := Some MIN_ACCOUNT_SCHEMA\<rparr>) in
     io_bind (io_lift (plan_device N s device_name now account)) (\<lambda>account.
     io_bind (save_pending X N (account_operation s i device_name PK_CreateAccount PP_Prepared account)) (\<lambda>_.
     io_bind (attempt (account_resume X N rotation (Some code))) (\<lambda>res.
     io_return \<lparr>ac_code = code, ac_operation_id = i, ac_complete = is_ok res,
       ac_pending_error = (case res of Inl e \<Rightarrow> Some (app_error_text e) | Inr _ \<Rightarrow> None)\<rparr>)))))))))))"

definition join_account :: "'a merge_ext_scheme \<Rightarrow> ('d, 'u) account_env_scheme \<Rightarrow> (rstr option \<Rightarrow> ('d, unit) device_act) \<Rightarrow> rstr \<Rightarrow> rstr
    \<Rightarrow> ('d, unit) device_act" where
  "join_account X N rotation code device_name =
     io_bind (io_lift (clean_name device_name)) (\<lambda>device_name.
     io_bind (in_round (preflight X N)) (\<lambda>_.
     io_bind (io_lift (normalize_mnemonic X code)) (\<lambda>code.
     io_bind (io_lift (derive_account X code)) (\<lambda>keys.
     io_bind (in_round (core_read N)) (\<lambda>s.
     case st_pending_account s of
       Some op \<Rightarrow>
         if po_kind op \<noteq> PK_JoinAccount \<or> acc_chain_id (po_prepared_account op) \<noteq> ck_chain_id keys
         then io_fail (other ''a different record account operation is pending'')
         else account_resume X N rotation (Some code)
     | None \<Rightarrow>
         io_bind (io_lift (ensure_empty s)) (\<lambda>_.
         io_bind (connect_relay N (st_relay_url s)) (\<lambda>_.
         io_bind (pull_chain N (st_relay_url s) keys) (\<lambda>pulled.
         let merged = merge_account X (account_new (ck_chain_id keys)) keys pulled 0 in
         if mo_gate merged \<noteq> Compatible then io_fail (gate_error (mo_gate merged))
         else
           io_bind (env_now N) (\<lambda>now.
           io_bind (io_lift (plan_device N s device_name now (mo_section merged))) (\<lambda>account.
           io_bind (account_new_id N) (\<lambda>i.
           io_bind (save_pending X N (account_operation s i device_name PK_JoinAccount PP_ActivationReady account)) (\<lambda>_.
           account_resume X N rotation (Some code)))))))))))))"

section \<open>Spaces\<close>

definition random_keys :: "('d, 'u) account_env_scheme \<Rightarrow> ('d, chain_keys) device_act" where
  "random_keys N = in_round (ask (\<lambda>n. generate (case x_random N n of Inl e \<Rightarrow> Inl e | Inr f \<Rightarrow> Inr (map f [0..<96]))))"

definition seal_secret :: "'a merge_ext_scheme \<Rightarrow> ('d, 'u) account_env_scheme \<Rightarrow> chain_keys \<Rightarrow> sync_record \<Rightarrow> u64 \<Rightarrow> ('d, sealed_record) device_act" where
  "seal_secret X N keys rec base = in_round (ask (\<lambda>n. seal_secret_record X (x_nonce N n 0) keys rec base))"

definition space_operation :: "sync_state \<Rightarrow> rstr \<Rightarrow> rstr \<Rightarrow> account_state \<Rightarrow> pending_account_operation" where
  "space_operation s i child account =
     \<lparr>po_id = i, po_device_name = st_device_name s, po_kind = PK_CreateSpace, po_phase = PP_Prepared, po_migration_gate = None,
      po_relay_url = st_relay_url s, po_staged_code_account = None, po_prepared_account = account, po_space_id = Some child,
      po_prepared_space = Some (empty_space\<lparr>sp_selected := True\<rparr>), po_leave = None, po_rotation = None\<rparr>"

definition compatible_account :: "'a merge_ext_scheme \<Rightarrow> ('d, 'u) account_env_scheme \<Rightarrow> ('d, fresh_account_proof) device_act" where
  "compatible_account X N =
     io_bind (in_round (fresh_account_gate X N)) (\<lambda>p.
     io_bind (io_lift (ensure_compatible p)) (\<lambda>_. io_return p))"

definition create_space_with_slug :: "'a merge_ext_scheme \<Rightarrow> ('d, 'u) account_env_scheme \<Rightarrow> (rstr option \<Rightarrow> ('d, unit) device_act) \<Rightarrow> rstr \<Rightarrow> rstr
    \<Rightarrow> ('d, rstr) device_act" where
  "create_space_with_slug X N rotation name slug =
     io_bind (io_lift (clean_name name)) (\<lambda>name.
     io_bind (in_round (preflight X N)) (\<lambda>_.
     io_bind (compatible_account X N) (\<lambda>p.
     io_bind (in_round (core_read N)) (\<lambda>s.
     io_bind (io_lift (ensure_shared X s)) (\<lambda>_.
     if slug = LIBRARY_SLUG \<and> library_space_id s \<noteq> None then io_return (the (library_space_id s))
     else
       io_bind (random_keys N) (\<lambda>child.
       io_bind (account_new_id N) (\<lambda>i.
       io_bind (env_now N) (\<lambda>now.
       io_bind (in_round (unwrap (st_account s))) (\<lambda>account.
       let account = insert_public (account_row s RK_Space (ck_chain_id child)
             (JObject (collect_map [(lit ''schema'', json_u64 1), (lit ''name'', JString name), (lit ''slug'', JString slug),
                (lit ''created_at_ms'', json_u64 now)])) now) account;
           private = account_row s RK_SpaceKey (ck_chain_id child)
             (JObject (collect_map [(lit ''schema'', json_u64 1), (lit ''auth_token'', JString (ck_auth_token child)),
                (lit ''enc_key'', JString (enc_key_b64 X child))])) now in
       io_bind (seal_secret X N (fp_keys p) private 0) (\<lambda>sld.
       let account = account\<lparr>acc_sealed := bt_insert (sealed_key (e_kind (sr_envelope sld)) (e_id_hash (sr_envelope sld))) sld
             (acc_sealed account)\<rparr> in
       io_bind (save_pending X N (space_operation s i (ck_chain_id child) account)) (\<lambda>_.
       io_bind (account_resume X N rotation None) (\<lambda>_.
       io_return (ck_chain_id child)))))))))))))"

definition create_space :: "'a merge_ext_scheme \<Rightarrow> ('d, 'u) account_env_scheme \<Rightarrow> (rstr option \<Rightarrow> ('d, unit) device_act) \<Rightarrow> rstr
    \<Rightarrow> ('d, rstr) device_act" where
  "create_space X N rotation name = create_space_with_slug X N rotation name (lit ''records'')"

definition create_library_space :: "'a merge_ext_scheme \<Rightarrow> ('d, 'u) account_env_scheme \<Rightarrow> (rstr option \<Rightarrow> ('d, unit) device_act)
    \<Rightarrow> ('d, rstr) device_act" where
  "create_library_space X N rotation = create_space_with_slug X N rotation (lit ''Library'') LIBRARY_SLUG"

definition select_transform :: "'a record_ext_scheme \<Rightarrow> rstr \<Rightarrow> bool \<Rightarrow> sync_state \<Rightarrow> app_error + sync_state" where
  "select_transform X i selected latest =
     rbind (ensure_shared X latest) (\<lambda>_.
     rbind (ok_or (other ''record space is unavailable'') (bt_get (st_spaces latest) i)) (\<lambda>sp.
     rbind (fail_if (selected \<and> sp_missing sp) (other ''record space is missing'')) (\<lambda>_.
     Inr (latest\<lparr>st_spaces := bt_insert i (sp\<lparr>sp_selected := selected\<rparr>) (st_spaces latest)\<rparr>))))"

definition select_space :: "'a merge_ext_scheme \<Rightarrow> ('d, 'u) account_env_scheme \<Rightarrow> rstr \<Rightarrow> bool \<Rightarrow> ('d, unit) device_act" where
  "select_space X N i selected =
     io_bind (compatible_account X N) (\<lambda>_. commit_records X N (select_transform X i selected))"

text \<open>The row of a space with a new name, newer than the row it replaces. Setting a member of a payload that is
  not an object panics (\<open>None\<close>).\<close>

definition rename_row :: "rstr \<Rightarrow> rstr \<Rightarrow> u64 \<Rightarrow> local_record \<Rightarrow> (app_error + local_record) option" where
  "rename_row device name now r =
     map_option (\<lambda>payload.
       rbind (ok_or (other ''record revision exhausted'') (checked_add (r_version (lr_record r)) 1)) (\<lambda>version.
       rbind (ok_or (other ''record timestamp exhausted'') (checked_add (r_updated_at_ms (lr_record r)) 1)) (\<lambda>t.
       Inr (r\<lparr>lr_record := (lr_record r)\<lparr>r_version := version, r_updated_at_ms := max now t, r_device_id := device,
                             r_payload := payload\<rparr>, lr_dirty := True\<rparr>))))
       (jset (r_payload (lr_record r)) (lit ''name'') (JString name))"

definition rename_transform :: "'a record_ext_scheme \<Rightarrow> rstr \<Rightarrow> rstr \<Rightarrow> u64 \<Rightarrow> sync_state \<Rightarrow> (app_error + sync_state) option" where
  "rename_transform X i name now latest =
     (let key = record_key RK_Space i in
      case rbind (ensure_shared X latest) (\<lambda>_.
           ok_or (other ''record space is unavailable'')
             (Option.bind (st_account latest) (\<lambda>a. opt_filter (\<lambda>r. \<not> r_deleted (lr_record r)) (bt_get (acc_records a) key)))) of
        Inl e \<Rightarrow> Some (Inl e)
      | Inr r \<Rightarrow>
          map_option (\<lambda>res. rbind res (\<lambda>r.
            Inr (latest\<lparr>st_account := map_option (\<lambda>a. a\<lparr>acc_records := bt_insert key r (acc_records a)\<rparr>) (st_account latest)\<rparr>)))
            (rename_row (st_device_id latest) name now r))"

text \<open>A commit whose transform may panic.\<close>

definition commit_or_panic :: "'a merge_ext_scheme \<Rightarrow> ('d, 'u) device_env_scheme \<Rightarrow> (sync_state \<Rightarrow> (app_error + sync_state) option)
    \<Rightarrow> ('d, unit) device_act" where
  "commit_or_panic X N f st =
     (case commit_records X N (\<lambda>s. case f s of None \<Rightarrow> Inl (other ''panic'') | Some res \<Rightarrow> res) st of
        (Inl e, st) \<Rightarrow> if e = other ''panic'' then in_round panic st else (Inl e, st)
      | (Inr a, st) \<Rightarrow> (Inr a, st))"

definition rename_space :: "'a merge_ext_scheme \<Rightarrow> ('d, 'u) account_env_scheme \<Rightarrow> rstr \<Rightarrow> rstr \<Rightarrow> ('d, unit) device_act" where
  "rename_space X N i name =
     io_bind (io_lift (clean_name name)) (\<lambda>name.
     io_bind (compatible_account X N) (\<lambda>_.
     io_bind (env_now N) (\<lambda>now.
     commit_or_panic X N (rename_transform X i name now))))"

section \<open>Keys\<close>

text \<open>The private key must be readable and have the identity the metadata names.\<close>

definition check_private :: "'a merge_ext_scheme \<Rightarrow> ('d, 'u) account_env_scheme \<Rightarrow> rstr \<Rightarrow> key_slot_payload \<Rightarrow> rstr \<Rightarrow> app_error + unit" where
  "check_private X N i public private =
     rbind (map_err (\<lambda>_. other ''key metadata is invalid'') (validate_keyslot X i public)) (\<lambda>_.
     rbind (ok_or (other ''private key is unreadable'') (x_parse_private N private)) (\<lambda>parsed.
     rbind (ok_or (other ''private key public identity is invalid'') (pp_line parsed)) (\<lambda>line.
     rbind (map_err (\<lambda>_. other ''private key does not match account public metadata'')
              (key_material_matches X public line (pp_fingerprint parsed))) (\<lambda>_.
     fail_if (pp_is_encrypted parsed \<noteq> ks_has_passphrase public) (other ''private key passphrase metadata does not match'')))))"

text \<open>Key metadata of the account must name the same key.\<close>

definition check_existing :: "'a merge_ext_scheme \<Rightarrow> key_slot_payload \<Rightarrow> local_record option \<Rightarrow> app_error + unit" where
  "check_existing X public existing =
     (case existing of
        None \<Rightarrow> Inr ()
      | Some row \<Rightarrow>
          rbind (map_err (\<lambda>_. other ''account key metadata is invalid'') (decode_keyslot X (lr_record row))) (\<lambda>typed.
          case typed of
            Live authoritative \<Rightarrow>
              map_err (\<lambda>_. other ''account key identity conflicts; review before publishing'')
                (key_material_matches X authoritative (ks_public_key public) (ks_fingerprint public))
          | Tombstone _ \<Rightarrow> Inl (other ''account key was deleted'')))"

text \<open>The version and time of the next revision of a secret.\<close>

definition next_revision :: "secret_rev option \<Rightarrow> u64 \<Rightarrow> app_error + u64 \<times> u64" where
  "next_revision prior now =
     rbind (case prior of
              Some v \<Rightarrow>
                rbind (ok_or (other ''secret timestamp exhausted'') (checked_add (sv_updated_at_ms v) 1)) (\<lambda>t. Inr (max t now))
            | None \<Rightarrow> Inr now) (\<lambda>t.
     rbind (ok_or (other ''secret revision exhausted'')
              (checked_add (case prior of Some v \<Rightarrow> sv_version v | None \<Rightarrow> 0) 1)) (\<lambda>version.
     Inr (version, t)))"

text \<open>The metadata row to publish: the existing one, stamped beyond an opaque row of an earlier version of the program.\<close>

definition next_metadata :: "'a merge_ext_scheme \<Rightarrow> sync_state \<Rightarrow> rstr \<Rightarrow> key_slot_payload \<Rightarrow> local_record option \<Rightarrow> secret_rev option \<Rightarrow> u64
    \<Rightarrow> app_error + sync_record" where
  "next_metadata X s i public existing legacy now =
     (let rec = (case existing of Some r \<Rightarrow> lr_record r | None \<Rightarrow> account_row s RK_KeySlot i (x_keyslot_to_value X public) now) in
      case legacy of
        None \<Rightarrow> Inr rec
      | Some old \<Rightarrow>
          rbind (ok_or (other ''key metadata revision exhausted'') (checked_add (max (r_version rec) (sv_version old)) 1)) (\<lambda>version.
          rbind (ok_or (other ''key metadata timestamp exhausted'')
                   (checked_add (max (r_updated_at_ms rec) (sv_updated_at_ms old)) 1)) (\<lambda>t.
          Inr (rec\<lparr>r_version := version, r_updated_at_ms := max t now, r_device_id := st_device_id s\<rparr>))))"

definition slot_key :: "'a crypto_ext_scheme \<Rightarrow> chain_keys \<Rightarrow> string \<Rightarrow> rstr \<Rightarrow> rstr" where
  "slot_key X keys kind i = sealed_key (lit kind) (id_hash X keys (lit kind) i)"

definition publish_transform :: "'a record_ext_scheme \<Rightarrow> rstr \<Rightarrow> local_record option \<Rightarrow> rstr \<Rightarrow> sealed_record option \<Rightarrow> bool \<Rightarrow> sync_record
    \<Rightarrow> rstr \<Rightarrow> sealed_record \<Rightarrow> sync_state \<Rightarrow> app_error + sync_state" where
  "publish_transform X key existing opaque_key opaque upgrade public_row secret_key sld latest =
     rbind (ensure_shared X latest) (\<lambda>_.
     case st_account latest of
       None \<Rightarrow> Inl superseded
     | Some account \<Rightarrow>
         if bt_get (acc_records account) key \<noteq> existing \<or> bt_get (acc_sealed account) opaque_key \<noteq> opaque then Inl superseded
         else
           (let seq = max (case opaque of Some r \<Rightarrow> e_seq (sr_envelope r) | None \<Rightarrow> 0) (case existing of Some r \<Rightarrow> lr_seq r | None \<Rightarrow> 0);
                records = (if existing = None \<or> upgrade
                           then bt_insert key \<lparr>lr_record = public_row, lr_seq = seq, lr_dirty = True\<rparr> (acc_records account)
                           else acc_records account) in
            Inr (latest\<lparr>st_account := Some (account\<lparr>acc_records := records,
                   acc_sealed := bt_insert secret_key sld (bt_remove opaque_key (acc_sealed account))\<rparr>)\<rparr>)))"

definition upgrade_transform :: "'a merge_ext_scheme \<Rightarrow> chain_keys \<Rightarrow> rstr \<Rightarrow> sync_state \<Rightarrow> app_error + sync_state" where
  "upgrade_transform X keys i latest =
     rbind (ensure_shared X latest) (\<lambda>_.
     case st_account latest of
       None \<Rightarrow> Inl superseded
     | Some account \<Rightarrow>
         rbind (legacy_own_slot_revision X account keys i) (\<lambda>found.
         case found of
           None \<Rightarrow> Inr latest
         | Some old \<Rightarrow>
             (let key = slot_key X keys ''keyslot'' i; opaque = the (bt_get (acc_sealed account) key);
                  public = record_key RK_KeySlot i in
              rbind (ok_or (other ''key upgrade was superseded'') (bt_get (acc_records account) public)) (\<lambda>r.
              rbind (fail_if (\<not> lr_dirty r \<or> r_updated_at_ms (lr_record r) \<le> sv_updated_at_ms old)
                       (other ''key authority changed; review before publishing'')) (\<lambda>_.
              Inr (latest\<lparr>st_account := Some (account\<lparr>
                     acc_records := bt_insert public (r\<lparr>lr_seq := max (lr_seq r) (e_seq (sr_envelope opaque))\<rparr>) (acc_records account),
                     acc_sealed := bt_remove key (acc_sealed account)\<rparr>)\<rparr>))))))"

definition publish_current :: "'a merge_ext_scheme \<Rightarrow> ('d, 'u) account_env_scheme \<Rightarrow> fresh_account_proof \<Rightarrow> rstr option \<Rightarrow> ('d, unit) device_act" where
  "publish_current X N p upgrade_own =
     io_bind (compatible_account X N) (\<lambda>fresh.
     io_bind (case upgrade_own of None \<Rightarrow> io_return () | Some i \<Rightarrow> commit_records X N (upgrade_transform X (fp_keys fresh) i)) (\<lambda>_.
     io_bind (in_round (core_read N)) (\<lambda>s.
     io_bind (io_lift (ensure_shared X s)) (\<lambda>_.
     io_bind (in_round (unwrap (st_account s))) (\<lambda>account.
     io_bind (in_round (ask (\<lambda>n. account_outgoing X (x_nonce N n) account (fp_keys fresh)))) (\<lambda>sent.
     io_bind (connect_relay N (fp_relay_url fresh)) (\<lambda>_.
     io_bind (push_chain N (fp_relay_url fresh) (fp_keys fresh) (map to_outgoing sent)) (\<lambda>pushed.
     io_bind (in_round (receipt_commit X N p None sent pushed)) (\<lambda>_.
     if ps_frozen pushed then io_bind (in_round (mark_frozen X N p)) (\<lambda>_. io_fail (other ''the record account is frozen''))
     else
       (case ps_error pushed of
          Some e \<Rightarrow> io_fail (app_error_of_relay e)
        | None \<Rightarrow>
            if ps_conflicts pushed > 0 then io_fail (other ''key publication conflicted; sync and retry'') else io_return ()))))))))))"

definition publish_key :: "'a merge_ext_scheme \<Rightarrow> ('d, 'u) account_env_scheme \<Rightarrow> rstr \<Rightarrow> key_slot_payload \<Rightarrow> rstr \<Rightarrow> ('d, unit) device_act" where
  "publish_key X N i public private =
     io_bind (io_lift (check_private X N i public private)) (\<lambda>_.
     io_bind (compatible_account X N) (\<lambda>p.
     io_bind (in_round (core_read N)) (\<lambda>s.
     io_bind (io_lift (ensure_shared X s)) (\<lambda>_.
     io_bind (env_now N) (\<lambda>now.
     io_bind (in_round (unwrap (st_account s))) (\<lambda>account.
     let key = record_key RK_KeySlot i; existing = bt_get (acc_records account) key;
         opaque_key = slot_key X (fp_keys p) ''keyslot'' i; opaque = bt_get (acc_sealed account) opaque_key;
         secret_key = slot_key X (fp_keys p) ''key'' i;
         base = (case bt_get (acc_sealed account) secret_key of Some r \<Rightarrow> e_seq (sr_envelope r) | None \<Rightarrow> 0) in
     io_bind (io_lift (check_existing X public existing)) (\<lambda>_.
     io_bind (io_lift (map_err (\<lambda>_. other ''account key authority is opaque; review before publishing'')
                         (legacy_own_slot_revision X account (fp_keys p) i))) (\<lambda>legacy.
     io_bind (io_lift (secret_revision X account (fp_keys p) RK_Key i)) (\<lambda>prior.
     io_bind (io_lift (next_revision prior now)) (\<lambda>(version, changed_at).
     let secret = (account_row s RK_Key i (JObject (collect_map [(lit ''schema'', json_u64 1), (lit ''private_key'', JString private)])) changed_at)
           \<lparr>r_version := version\<rparr> in
     io_bind (seal_secret X N (fp_keys p) secret base) (\<lambda>sld.
     io_bind (io_lift (next_metadata X s i public existing legacy now)) (\<lambda>public_row.
     io_bind (commit_records X N (publish_transform X key existing opaque_key opaque (legacy \<noteq> None) public_row secret_key sld)) (\<lambda>_.
     publish_current X N p (map_option (\<lambda>_. i) legacy))))))))))))))"

definition withdraw_transform :: "'a record_ext_scheme \<Rightarrow> rstr \<Rightarrow> sealed_record \<Rightarrow> sealed_record \<Rightarrow> sync_state \<Rightarrow> app_error + sync_state" where
  "withdraw_transform X key previous sld latest =
     rbind (ensure_shared X latest) (\<lambda>_.
     case st_account latest of
       None \<Rightarrow> Inl superseded
     | Some account \<Rightarrow>
         if bt_get (acc_sealed account) key \<noteq> Some previous then Inl superseded
         else Inr (latest\<lparr>st_account := Some (account\<lparr>acc_sealed := bt_insert key sld (acc_sealed account)\<rparr>)\<rparr>))"

definition unpublish_key :: "'a merge_ext_scheme \<Rightarrow> ('d, 'u) account_env_scheme \<Rightarrow> rstr \<Rightarrow> ('d, unit) device_act" where
  "unpublish_key X N i =
     io_bind (compatible_account X N) (\<lambda>p.
     io_bind (in_round (core_read N)) (\<lambda>s.
     io_bind (io_lift (ensure_shared X s)) (\<lambda>_.
     io_bind (in_round (unwrap (st_account s))) (\<lambda>account.
     io_bind (io_lift (ok_or (other ''synced public metadata is unavailable'') (bt_get (acc_records account) (record_key RK_KeySlot i)))) (\<lambda>r.
     io_bind (io_lift (fail_if (\<not> (case decode_keyslot X (lr_record r) of Inr (Live _) \<Rightarrow> True | _ \<Rightarrow> False))
                         (other ''synced public metadata is invalid or deleted''))) (\<lambda>_.
     io_bind (io_lift (fail_if (bt_contains (acc_sealed account) (slot_key X (fp_keys p) ''keyslot'' i))
                         (other ''account key authority is opaque''))) (\<lambda>_.
     io_bind (io_lift (secret_revision X account (fp_keys p) RK_Key i)) (\<lambda>found.
     case opt_filter (\<lambda>v. \<not> sv_deleted v) found of
       None \<Rightarrow> io_return ()
     | Some prior \<Rightarrow>
         io_bind (env_now N) (\<lambda>now.
         io_bind (io_lift (next_revision (Some prior) now)) (\<lambda>(version, t).
         let key = slot_key X (fp_keys p) ''key'' i in
         io_bind (in_round (unwrap (bt_get (acc_sealed account) key))) (\<lambda>previous.
         let tombstone = (account_row s RK_Key i JNull t)\<lparr>r_version := version, r_deleted := True\<rparr> in
         io_bind (seal_secret X N (fp_keys p) tombstone (e_seq (sr_envelope previous))) (\<lambda>sld.
         io_bind (commit_records X N (withdraw_transform X key previous sld)) (\<lambda>_.
         publish_current X N p None)))))))))))))"

end
