(* ===== verification/Record_Rotation.thy ===== *)
theory Record_Rotation
  imports Record_Account
begin

text \<open>
  Rotation of the sync code (\<open>sync/record_rotation.rs\<close>): the chains of the account are frozen on the relay, every record is
  copied under a new account with new chains, and the device switches over once the copy is complete. The codes of both
  accounts stay in the keychain under names of the operation until then, and every step can be resumed.
  \<open>validate_plan\<close> and \<open>minimal\<close> are in \<open>State_Validity\<close>. The operation carries a plan from the check at the
  start on, so \<open>the\<close> on it is the \<open>unwrap\<close> of the code.
\<close>

record 'd rotation_env = "'d account_env" +
  x_freeze_chain :: "nat \<Rightarrow> rstr \<Rightarrow> rstr \<Rightarrow> rstr \<Rightarrow> relay_error + unit"
  x_relay_info :: "nat \<Rightarrow> rstr \<Rightarrow> relay_error + relay_info"
  x_json_to_vec :: "json \<Rightarrow> bytes option"
  x_record_to_value :: "sync_record \<Rightarrow> json option"
  x_gate_to_value :: "migration_gate \<Rightarrow> json"
  x_snapshot_to_vec :: "account_state \<Rightarrow> (rstr, space_state) btm \<Rightarrow> bytes option"

definition plan_of :: "pending_account_operation \<Rightarrow> rotation_plan" where
  "plan_of op = the (po_rotation op)"

definition with_plan :: "(rotation_plan \<Rightarrow> rotation_plan) \<Rightarrow> pending_account_operation \<Rightarrow> pending_account_operation" where
  "with_plan f op = op\<lparr>po_rotation := map_option f (po_rotation op)\<rparr>"

definition snapshot_digest :: "('d, 'u) rotation_env_scheme \<Rightarrow> account_state \<Rightarrow> (rstr, space_state) btm \<Rightarrow> app_error + rstr" where
  "snapshot_digest N account spaces =
     rbind (ok_or (rotation_error ''cannot stamp source snapshot'') (x_snapshot_to_vec N account spaces)) (\<lambda>b.
     Inr (hex (x_sha256 N b)))"

definition freeze :: "('d, 'u) rotation_env_scheme \<Rightarrow> rstr \<Rightarrow> rstr \<Rightarrow> rstr \<Rightarrow> ('d, unit) device_act" where
  "freeze N url chain tok st =
     (map_err app_error_of_relay (x_freeze_chain N (rd_step (dv_round st)) url chain tok),
      log_account (AV_Freeze chain) (next_step st))"

section \<open>Records as plain values\<close>

text \<open>\<open>value[key]\<close> for reading: \<open>null\<close> where there is no such member.\<close>

definition jat :: "json \<Rightarrow> rstr \<Rightarrow> json" where
  "jat v k = (case jget v k of Some x \<Rightarrow> x | None \<Rightarrow> JNull)"

definition value_header_ok :: "'a crypto_ext_scheme \<Rightarrow> chain_keys \<Rightarrow> envelope \<Rightarrow> (rstr, json) btm \<Rightarrow> bool" where
  "value_header_ok X keys e m \<longleftrightarrow>
     \<not> (length m \<noteq> 7 \<or> list_ex (\<lambda>k. k \<notin> set header_fields) (bt_keys m)
        \<or> Option.bind (bt_get m (lit ''kind'')) as_str_json \<noteq> Some (e_kind e)
        \<or> Option.bind (bt_get m (lit ''deleted'')) as_bool \<noteq> Some (e_deleted e)
        \<or> \<not> is_some_and (Option.bind (bt_get m (lit ''id'')) as_str_json) (\<lambda>i. i \<noteq> [] \<and> id_hash X keys (e_kind e) i = e_id_hash e)
        \<or> \<not> is_some_and (Option.bind (bt_get m (lit ''version'')) as_u64) (\<lambda>v. v > 0)
        \<or> Option.bind (bt_get m (lit ''updated_at_ms'')) as_u64 = None
        \<or> \<not> is_some_and (Option.bind (bt_get m (lit ''device_id'')) as_str_json) is_slot_id)"

definition open_value :: "'a crypto_ext_scheme \<Rightarrow> chain_keys \<Rightarrow> envelope \<Rightarrow> app_error + json" where
  "open_value X keys e =
     rbind (map_err (\<lambda>_. rotation_error ''rotation source ciphertext could not be authenticated'')
              (open_sealed X keys (e_kind e) (e_id_hash e) (sealed_of_envelope e))) (\<lambda>b.
     rbind (ok_or (rotation_error ''rotation source record is malformed'') (x_value_from_slice X b)) (\<lambda>v.
     rbind (ok_or (rotation_error ''rotation source record is malformed'') (as_object v)) (\<lambda>m.
     rbind (fail_if (\<not> value_header_ok X keys e m) (rotation_error ''rotation source record identity is inconsistent'')) (\<lambda>_.
     Inr v))))"

definition value_id :: "json \<Rightarrow> rstr" where
  "value_id v = the (as_str_json (jat v (lit ''id'')))"

definition seal_value :: "'a crypto_ext_scheme \<Rightarrow> ('d, 'u) rotation_env_scheme \<Rightarrow> rstr + bytes \<Rightarrow> chain_keys \<Rightarrow> rstr \<Rightarrow> rstr \<Rightarrow> json
    \<Rightarrow> app_error + envelope" where
  "seal_value X N nonce keys kind i v =
     rbind (ok_or (rotation_error ''cannot encode rotation record'') (x_json_to_vec N v)) (\<lambda>b.
     rbind (seal X nonce keys kind i b) (\<lambda>s.
     rbind (ok_or (rotation_error ''invalid rotation tombstone'') (as_bool (jat v (lit ''deleted'')))) (\<lambda>deleted.
     Inr \<lparr>e_id_hash = s_id_hash s, e_kind = kind, e_seq = 0, e_nonce = s_nonce s, e_ciphertext = s_ciphertext s, e_deleted = deleted\<rparr>)))"

definition wire_bytes :: "envelope \<Rightarrow> nat" where
  "wire_bytes r = str_len (e_ciphertext r) + str_len (e_nonce r) + str_len (e_kind r) + str_len (e_id_hash r)"

definition limits :: "envelope list \<Rightarrow> app_error + unit" where
  "limits rows =
     fail_if (length rows > 4096 \<or> sum_list (map wire_bytes rows) > 1024 * 1024)
       (rotation_error ''rotation exceeds the per-chain storage budget; no source freeze was attempted'')"

section \<open>The source\<close>

definition any_dirty :: "(rstr, local_record) btm \<Rightarrow> (rstr, sealed_record) btm \<Rightarrow> bool" where
  "any_dirty records sealed \<longleftrightarrow> list_ex lr_dirty (bt_values records) \<or> list_ex sr_dirty (bt_values sealed)"

text \<open>The whole page must be authentic, so that nothing is lost when it is copied.\<close>

definition readable_page :: "'a crypto_ext_scheme \<Rightarrow> chain_keys \<Rightarrow> pull_response \<Rightarrow> app_error + unit" where
  "readable_page X keys pulled =
     rbind (limits (pl_records pulled)) (\<lambda>_.
     for_all (\<lambda>e. rbind (open_value X keys e) (\<lambda>_. Inr ())) (pl_records pulled))"

fun source_children :: "'a merge_ext_scheme \<Rightarrow> ('d, 'u) rotation_env_scheme \<Rightarrow> rstr \<Rightarrow> account_state \<Rightarrow> chain_keys \<Rightarrow> (rstr, space_state) btm
    \<Rightarrow> local_record list \<Rightarrow> (rstr, space_state) btm \<Rightarrow> ('d, (rstr, space_state) btm) device_act" where
  "source_children X N url account keys known [] spaces = io_return spaces"
| "source_children X N url account keys known (r # rows) spaces =
     (let i = r_id (lr_record r); old = (case bt_get known i of Some sp \<Rightarrow> sp | None \<Rightarrow> empty_space) in
      io_bind (io_lift (fail_if (sp_missing old) (rotation_error ''a source space is missing; rotation did not preserve it''))) (\<lambda>_.
      io_bind (io_lift (space_keys X account keys i)) (\<lambda>found.
      io_bind (io_lift (ok_or (rotation_error ''source space credentials unavailable'') found)) (\<lambda>child.
      io_bind (attempt (pull_chain N url (child\<lparr>ck_chain_id := i\<rparr>))) (\<lambda>answer.
      io_bind (io_lift (map_err (\<lambda>_. rotation_error ''a source space could not be read; rotation did not preserve it'') answer)) (\<lambda>pulled.
      io_bind (io_lift (readable_page X child pulled)) (\<lambda>_.
      let merged = merge_space X old child pulled 0 Compatible in
      io_bind (io_lift (fail_if (mo_gate merged \<noteq> Compatible \<or> mo_conflicts merged \<noteq> []
                                 \<or> any_dirty (sp_records (mo_section merged)) (sp_sealed (mo_section merged)))
                          (rotation_error ''finish or review source space changes before rotation''))) (\<lambda>_.
      source_children X N url account keys known rows (bt_insert i (mo_section merged) spaces)))))))))"

definition source_full :: "'a merge_ext_scheme \<Rightarrow> ('d, 'u) rotation_env_scheme \<Rightarrow> account_state \<Rightarrow> chain_keys \<Rightarrow> (rstr, space_state) btm
    \<Rightarrow> ('d, account_state \<times> (rstr, space_state) btm) device_act" where
  "source_full X N source keys known =
     io_bind (in_round (core_read N)) (\<lambda>s.
     io_bind (connect_relay N (st_relay_url s)) (\<lambda>_.
     io_bind (pull_chain N (st_relay_url s) keys) (\<lambda>pulled.
     io_bind (io_lift (readable_page X keys pulled)) (\<lambda>_.
     let merged = merge_account X source keys pulled 0; account = mo_section merged in
     io_bind (io_lift (fail_if (mo_gate merged \<noteq> Compatible) (rotation_error ''source account format prevents rotation''))) (\<lambda>_.
     io_bind (io_lift (fail_if (mo_conflicts merged \<noteq> [] \<or> any_dirty (acc_records account) (acc_sealed account))
                         (rotation_error ''finish or review source account changes before rotation''))) (\<lambda>_.
     io_bind (source_children X N (st_relay_url s) account keys known
                (filter (\<lambda>r. r_kind (lr_record r) = RK_Space \<and> \<not> r_deleted (lr_record r)) (bt_values (acc_records account))) []) (\<lambda>spaces.
     io_bind (io_lift (fail_if (list_ex (\<lambda>(i, sp). sp_selected sp \<and> \<not> bt_contains spaces i) known)
                         (rotation_error ''a selected source space is unavailable''))) (\<lambda>_.
     io_return (account, spaces)))))))))"

section \<open>Codes\<close>

definition read_code :: "('d, 'u) rotation_env_scheme \<Rightarrow> rstr \<Rightarrow> ('d, rstr option) device_act" where
  "read_code N name =
     io_bind (attempt (secret_get N name)) (\<lambda>answer.
     io_lift (map_err (\<lambda>_. rotation_error ''rotation code could not be read'') answer))"

definition keys_for :: "'a merge_ext_scheme \<Rightarrow> ('d, 'u) rotation_env_scheme \<Rightarrow> pending_account_operation \<Rightarrow> rstr option
    \<Rightarrow> ('d, chain_keys \<times> rstr) device_act" where
  "keys_for X N op provided =
     io_bind (case provided of
                Some code \<Rightarrow> io_lift (normalize_mnemonic X code)
              | None \<Rightarrow>
                  io_bind (in_round (unwrap (if po_phase op = PP_Activated then Some MNEMONIC_ACCOUNT else po_staged_code_account op))) (\<lambda>name.
                  io_bind (read_code N name) (\<lambda>stored.
                  io_lift (ok_or (rotation_error ''re-enter the pending new sync code to resume rotation'') stored)))) (\<lambda>phrase.
     io_bind (io_lift (derive_account X phrase)) (\<lambda>keys.
     io_bind (io_lift (fail_if (ck_chain_id keys \<noteq> acc_chain_id (po_prepared_account op))
                         (rotation_error ''new code does not match the pending rotation''))) (\<lambda>_.
     io_return (keys, phrase))))"

definition source_code :: "'a merge_ext_scheme \<Rightarrow> ('d, 'u) rotation_env_scheme \<Rightarrow> pending_account_operation \<Rightarrow> ('d, rstr option) device_act" where
  "source_code X N op =
     io_bind (read_code N (rl_source_code_account (plan_of op))) (\<lambda>archived.
     if archived \<noteq> None then io_return archived
     else if po_phase op = PP_Activated then io_return None
     else
       io_bind (read_code N MNEMONIC_ACCOUNT) (\<lambda>stored.
       io_bind (io_lift (ok_or (rotation_error ''source sync code is unavailable'') stored)) (\<lambda>code.
       io_bind (io_lift (derive_account X code)) (\<lambda>keys.
       io_bind (io_lift (fail_if (ck_chain_id keys \<noteq> acc_chain_id (rl_source_account (plan_of op)))
                           (rotation_error ''source code backup is unavailable; review pending rotation''))) (\<lambda>_.
       io_return (Some code))))))"

section \<open>The durable operation\<close>

definition newer :: "u32 option \<Rightarrow> bool" where
  "newer v \<longleftrightarrow> is_some_and v (\<lambda>v. v > ACCOUNT_SCHEMA)"

text \<open>A newer schema that was seen is never forgotten.\<close>

definition keep_schemas :: "pending_account_operation \<Rightarrow> pending_account_operation \<Rightarrow> pending_account_operation" where
  "keep_schemas old op =
     op\<lparr>po_prepared_account := (po_prepared_account op)\<lparr>acc_remote_schema_version :=
          opt_max (acc_remote_schema_version (po_prepared_account op)) (acc_remote_schema_version (po_prepared_account old))\<rparr>,
        po_rotation := (case (po_rotation op, po_rotation old) of
           (Some p, Some q) \<Rightarrow> Some (p\<lparr>rl_source_account := (rl_source_account p)\<lparr>acc_remote_schema_version :=
              opt_max (acc_remote_schema_version (rl_source_account p)) (acc_remote_schema_version (rl_source_account q))\<rparr>\<rparr>)
         | (p, _) \<Rightarrow> p)\<rparr>"

definition future_rotation :: "pending_account_operation \<Rightarrow> bool" where
  "future_rotation op \<longleftrightarrow> newer (acc_remote_schema_version (po_prepared_account op))
     \<or> is_some_and (po_rotation op) (\<lambda>p. newer (acc_remote_schema_version (rl_source_account p)))"

definition rotation_transform :: "pending_account_operation \<Rightarrow> sync_state \<Rightarrow> app_error + sync_state" where
  "rotation_transform op s =
     (if st_relay_url s \<noteq> po_relay_url op \<or> is_some_and (st_pending_account s) (\<lambda>p. po_id p \<noteq> po_id op) then Inl superseded
      else
        (let op = (case st_pending_account s of Some old \<Rightarrow> keep_schemas old op | None \<Rightarrow> op);
             future = future_rotation op in
         Inr (s\<lparr>st_shared_writes_blocked := (st_shared_writes_blocked s \<or> future \<and> st_account s \<noteq> None),
                st_pending_account := Some op,
                st_last_error := (if future then Some (lit ''a pending rotation account uses a newer format; update Lunport'') else st_last_error s)\<rparr>)))"

definition retain_rotation :: "'a record_ext_scheme \<Rightarrow> 'u runtime_env_scheme \<Rightarrow> pending_account_operation \<Rightarrow> ('d world, unit) act" where
  "retain_rotation X U op w =
     (let core = w_core w in
      case rbind (case sc_save_blocked core of Some reason \<Rightarrow> Inl (AE_Other reason) | None \<Rightarrow> Inr ()) (\<lambda>_.
           rbind (active_state core) (\<lambda>latest.
           rbind (rotation_transform op latest) (\<lambda>s.
           rbind (map_err (\<lambda>_. rotation_error ''invalid rotation receipt'') (validate_state X U s)) (\<lambda>_.
           rbind (ok_or (rotation_error ''record generation exhausted'') (checked_add (sc_generation core) 1)) (\<lambda>generation.
           Inr (s, generation)))))) of
        Inl e \<Rightarrow> (Inl e, w)
      | Inr (s, generation) \<Rightarrow> save_core X U (w\<lparr>w_core := core\<lparr>sc_records := Some s, sc_generation := generation\<rparr>\<rparr>))"

definition rotation_store :: "'a merge_ext_scheme \<Rightarrow> ('d, 'u) rotation_env_scheme \<Rightarrow> pending_account_operation \<Rightarrow> bool \<Rightarrow> ('d, unit) device_act" where
  "rotation_store X N op accepted =
     (if accepted then in_round (access N (retain_rotation X N op)) else commit_records X N (rotation_transform op))"

definition rotation_fail_closed :: "pending_account_operation \<Rightarrow> sync_core \<Rightarrow> sync_core" where
  "rotation_fail_closed op core =
     (case opt_filter (\<lambda>s. st_relay_url s = po_relay_url op) (sc_records core) of
        None \<Rightarrow> core
      | Some s \<Rightarrow>
          (case opt_filter (\<lambda>p. po_id p = po_id op) (st_pending_account s) of
             None \<Rightarrow> core
           | Some latest \<Rightarrow>
               core\<lparr>sc_records := Some (s\<lparr>st_shared_writes_blocked := (st_shared_writes_blocked s \<or> st_account s \<noteq> None),
                      st_pending_account := Some (keep_schemas op latest),
                      st_last_error := Some (lit ''an authenticated rotation account gate could not be saved'')\<rparr>),
                    sc_save_blocked :=
                      Some (lit ''an authenticated rotation gate could not be saved; repair record storage before resuming'')\<rparr>))"

definition retain_blocked_gate :: "'a merge_ext_scheme \<Rightarrow> ('d, 'u) rotation_env_scheme \<Rightarrow> pending_account_operation \<Rightarrow> ('d, unit) device_act" where
  "retain_blocked_gate X N op =
     io_bind (attempt (rotation_store X N op False)) (\<lambda>res.
     case res of
       Inl e \<Rightarrow> io_bind (change_core N (rotation_fail_closed op)) (\<lambda>_. io_fail e)
     | Inr _ \<Rightarrow> io_return ())"

definition rotation_current :: "('d, 'u) rotation_env_scheme \<Rightarrow> ('d, pending_account_operation) device_act" where
  "rotation_current N =
     io_bind (in_round (core_read N)) (\<lambda>s. io_lift (ok_or (rotation_error ''no rotation is pending'') (st_pending_account s)))"

definition rotation_latest :: "'a merge_ext_scheme \<Rightarrow> ('d, 'u) rotation_env_scheme \<Rightarrow> pending_account_operation \<Rightarrow> ('d, unit) device_act" where
  "rotation_latest X N op =
     io_bind (in_round (preflight X N)) (\<lambda>_.
     io_bind (in_round (core_read N)) (\<lambda>s.
     io_bind (io_lift (ok_or superseded (opt_filter (\<lambda>p. po_id p = po_id op) (st_pending_account s)))) (\<lambda>p.
     io_lift (fail_if (is_some_and (st_account s) (\<lambda>a. newer (acc_remote_schema_version a)) \<or> future_rotation p \<or> account_migration_pending X s)
                (rotation_error ''latest account observation blocks rotation effects'')))))"

section \<open>Proofs against the relay\<close>

definition source_proof :: "'a merge_ext_scheme \<Rightarrow> ('d, 'u) rotation_env_scheme \<Rightarrow> pending_account_operation \<Rightarrow> chain_keys
    \<Rightarrow> ('d, account_state) device_act" where
  "source_proof X N op keys =
     io_bind (in_round (preflight X N)) (\<lambda>_.
     io_bind (io_lift (fail_if (ck_chain_id keys \<noteq> acc_chain_id (rl_source_account (plan_of op)))
                         (rotation_error ''source code identity changed''))) (\<lambda>_.
     io_bind (in_round (core_read N)) (\<lambda>latest.
     let source = rl_source_account (plan_of op);
         source = (case opt_filter (\<lambda>a. acc_chain_id a = ck_chain_id keys) (st_account latest) of
             Some a \<Rightarrow> source\<lparr>acc_remote_schema_version := opt_max (acc_remote_schema_version source) (acc_remote_schema_version a)\<rparr>
           | None \<Rightarrow> source) in
     io_bind (connect_relay N (po_relay_url op)) (\<lambda>_.
     io_bind (pull_chain N (po_relay_url op) keys) (\<lambda>pulled.
     let merged = merge_account X source keys pulled 0 in
     if mo_gate merged \<noteq> Compatible then
       (let op = (case opt_filter (\<lambda>v. v > ACCOUNT_SCHEMA) (mo_observed_schema merged) of
            Some v \<Rightarrow> with_plan (\<lambda>p. p\<lparr>rl_source_account := (rl_source_account p)\<lparr>acc_remote_schema_version := Some v\<rparr>\<rparr>) op
          | None \<Rightarrow> op) in
        io_bind (retain_blocked_gate X N op) (\<lambda>_. io_fail (rotation_error ''source format prevents rotation or credential cleanup'')))
     else io_return (mo_section merged))))))"

definition marker :: "pending_account_operation \<Rightarrow> migration_phase \<Rightarrow> migration_gate" where
  "marker op phase = \<lparr>mg_id = po_id op, mg_source_digest = rl_source_digest (plan_of op), mg_phase = phase\<rparr>"

definition same_cipher :: "envelope \<Rightarrow> envelope \<Rightarrow> bool" where
  "same_cipher a b \<longleftrightarrow> e_kind a = e_kind b \<and> e_id_hash a = e_id_hash b \<and> e_nonce a = e_nonce b \<and> e_ciphertext a = e_ciphertext b
     \<and> e_deleted a = e_deleted b"

definition complete_transport :: "'a crypto_ext_scheme \<Rightarrow> (rstr, local_record) btm \<Rightarrow> (rstr, sealed_record) btm \<Rightarrow> chain_keys \<Rightarrow> pull_response
    \<Rightarrow> u64 \<Rightarrow> bool \<Rightarrow> app_error + unit" where
  "complete_transport X records sealed keys pulled cursor baseline =
     rbind (fail_if (\<not> valid_pull cursor baseline (max_seq records sealed) pulled 0)
              (rotation_error ''destination transport baseline is inconsistent'')) (\<lambda>_.
     let present = (\<lambda>kind hash. list_ex (\<lambda>r. sealed_key (e_kind r) (e_id_hash r) = sealed_key kind hash) (pl_records pulled)) in
     fail_if (list_ex (\<lambda>r. \<not> lr_dirty r \<and> lr_seq r > 0
                  \<and> \<not> present (as_str (r_kind (lr_record r))) (id_hash X keys (as_str (r_kind (lr_record r))) (r_id (lr_record r)))) (bt_values records)
              \<or> list_ex (\<lambda>r. \<not> sr_dirty r \<and> e_seq (sr_envelope r) > 0
                  \<and> \<not> present (e_kind (sr_envelope r)) (e_id_hash (sr_envelope r))) (bt_values sealed))
       (rotation_error ''destination full baseline omitted an accepted record''))"

definition target_marker_ok :: "'a merge_ext_scheme \<Rightarrow> chain_keys \<Rightarrow> pending_account_operation \<Rightarrow> pull_response \<Rightarrow> account_gate \<Rightarrow> bool" where
  "target_marker_ok X keys op pulled gate =
     (case gate of
        Compatible \<Rightarrow>
          is_some_and (List.find (\<lambda>v. as_str_json (jat v (lit ''id'')) = Some ACCOUNT_META_ID)
              (List.map_filter (\<lambda>e. case open_value X keys e of Inr v \<Rightarrow> Some v | Inl _ \<Rightarrow> None)
                (filter (\<lambda>e. e_kind e = lit ''meta'') (pl_records pulled))))
            (\<lambda>v. case x_gate_from_value X (jat (jat v (lit ''payload'')) (lit ''migration'')) of
                   Inr m \<Rightarrow> mg_id m = po_id op \<and> mg_source_digest m = rl_source_digest (plan_of op) \<and> mg_phase m = MP_Active
                 | Inl _ \<Rightarrow> False)
      | MigrationPending m \<Rightarrow> mg_id m = po_id op \<and> mg_source_digest m = rl_source_digest (plan_of op)
      | NeedsMigration v \<Rightarrow> v \<le> ACCOUNT_SCHEMA \<and> pl_records pulled = []
      | _ \<Rightarrow> False)"

text \<open>A record on the relay must be the one that was prepared; an earlier revision of the metadata may still wait
  for its release.\<close>

definition match_row :: "'a merge_ext_scheme \<Rightarrow> ('d, 'u) rotation_env_scheme \<Rightarrow> chain_keys \<Rightarrow> account_gate
    \<Rightarrow> (rstr, local_record) btm \<times> (rstr, sealed_record) btm \<Rightarrow> envelope
    \<Rightarrow> app_error + (rstr, local_record) btm \<times> (rstr, sealed_record) btm" where
  "match_row X N keys gate acc e =
     (case acc of (records, sealed) \<Rightarrow>
      rbind (open_value X keys e) (\<lambda>v.
      let i = value_id v; wire = sealed_key (e_kind e) (e_id_hash e) in
      case bt_get sealed wire of
        Some r \<Rightarrow>
          if \<not> same_cipher (sr_envelope r) e then Inl (rotation_error ''destination opaque or private record changed; review rotation'')
          else Inr (records, bt_insert wire (r\<lparr>sr_envelope := (sr_envelope r)\<lparr>e_seq := e_seq e\<rparr>, sr_dirty := False\<rparr>) sealed)
      | None \<Rightarrow>
          rbind (ok_or (rotation_error ''destination introduced an unknown record'') (parse_kind (e_kind e))) (\<lambda>kind.
          let key = record_key kind i in
          rbind (ok_or (rotation_error ''destination introduced an unexpected record'') (bt_get records key)) (\<lambda>r.
          rbind (ok_or (rotation_error ''invalid destination record'') (x_record_to_value N (lr_record r))) (\<lambda>desired.
          if v = desired then Inr (bt_insert key (r\<lparr>lr_seq := e_seq e, lr_dirty := False\<rparr>) records, sealed)
          else if kind = RK_Meta \<and> i = ACCOUNT_META_ID \<and> lr_dirty r
               \<and> is_some_and (as_u64 (jat v (lit ''version''))) (\<lambda>n. r_version (lr_record r) > n)
               \<and> (case gate of MigrationPending _ \<Rightarrow> True | _ \<Rightarrow> False)
          then Inr (bt_insert key (r\<lparr>lr_seq := e_seq e\<rparr>) records, sealed)
          else Inl (rotation_error ''destination public record changed; review rotation''))))))"

definition target_proof :: "'a merge_ext_scheme \<Rightarrow> ('d, 'u) rotation_env_scheme \<Rightarrow> pending_account_operation \<Rightarrow> chain_keys
    \<Rightarrow> ('d, pending_account_operation) device_act" where
  "target_proof X N op keys =
     io_bind (in_round (preflight X N)) (\<lambda>_.
     io_bind (connect_relay N (po_relay_url op)) (\<lambda>_.
     io_bind (pull_chain N (po_relay_url op) keys) (\<lambda>pulled.
     io_bind (io_lift (limits (pl_records pulled))) (\<lambda>_.
     let account = po_prepared_account op;
         check = merge_account X ((account_new (ck_chain_id keys))\<lparr>acc_remote_schema_version := acc_remote_schema_version account\<rparr>) keys pulled 0 in
     if \<not> target_marker_ok X keys op pulled (mo_gate check) then
       (let op = (case opt_filter (\<lambda>v. v > ACCOUNT_SCHEMA) (mo_observed_schema check) of
            Some v \<Rightarrow> op\<lparr>po_prepared_account := account\<lparr>acc_remote_schema_version := Some v\<rparr>\<rparr> | None \<Rightarrow> op) in
        io_bind (retain_blocked_gate X N op) (\<lambda>_.
        io_fail (rotation_error ''destination format or marker prevents rotation; update Lunport if it is newer'')))
     else
       io_bind (io_lift (complete_transport X (acc_records account) (acc_sealed account) keys pulled (acc_cursor_seq account)
                           (acc_baseline_established account))) (\<lambda>_.
       io_bind (io_lift (for_each (match_row X N keys (mo_gate check)) (acc_records account, acc_sealed account) (pl_records pulled))) (\<lambda>(records, sealed).
       let op = op\<lparr>po_prepared_account := account\<lparr>acc_cursor_seq := pl_latest_seq pulled, acc_baseline_established := True,
                     acc_records := records, acc_sealed := sealed\<rparr>\<rparr> in
       io_bind (rotation_store X N op False) (\<lambda>_. io_return op)))))))"

section \<open>The copy\<close>

fun draw_children :: "'a merge_ext_scheme \<Rightarrow> ('d, 'u) rotation_env_scheme \<Rightarrow> (rstr \<times> rstr) list \<Rightarrow> (rstr, chain_keys) btm
    \<Rightarrow> ('d, (rstr, chain_keys) btm) device_act" where
  "draw_children X N [] children = io_return children"
| "draw_children X N ((old_id, i) # rest) children =
     io_bind (random_keys N) (\<lambda>generated.
     io_bind (io_lift (from_parts X i (ck_auth_token generated) (enc_key_b64 X generated))) (\<lambda>child.
     draw_children X N rest (bt_insert old_id child children)))"

text \<open>An early exit by a panic.\<close>

definition panicked_result :: "app_error + 'b" where
  "panicked_result = Inl (other ''panic'')"

definition lift_or_panic :: "app_error + 'b \<Rightarrow> ('d, 'b) device_act" where
  "lift_or_panic x = (if x = panicked_result then in_round panic else io_lift x)"

definition set_member :: "json \<Rightarrow> string \<Rightarrow> json \<Rightarrow> app_error + json" where
  "set_member v k x = (case jset v (lit k) x of Some v' \<Rightarrow> Inr v' | None \<Rightarrow> panicked_result)"

definition account_schema_of :: "account_state \<Rightarrow> u64" where
  "account_schema_of source =
     (case Option.bind (bt_get (acc_records source) (record_key RK_Meta ACCOUNT_META_ID))
             (\<lambda>r. get_u64 (r_payload (lr_record r)) (lit ''schema_version'')) of
        Some v \<Rightarrow> v | None \<Rightarrow> 3)"

definition map_spaces :: "(rstr, rstr) btm \<Rightarrow> json \<Rightarrow> json" where
  "map_spaces mapping v =
     (case Option.bind (as_str_json v) (bt_get mapping) of Some i \<Rightarrow> JString i | None \<Rightarrow> v)"

definition remap_payload :: "(rstr, rstr) btm \<Rightarrow> json \<Rightarrow> json" where
  "remap_payload mapping payload =
     (case jget payload (lit ''spaces'') of
        Some (JArray ids) \<Rightarrow> the (jset payload (lit ''spaces'') (JArray (map (map_spaces mapping) ids)))
      | _ \<Rightarrow> payload)"

definition copy_public :: "('d, 'u) rotation_env_scheme \<Rightarrow> (rstr, rstr) btm \<Rightarrow> u64 \<Rightarrow> migration_gate \<Rightarrow> sync_record \<Rightarrow> app_error + sync_record" where
  "copy_public N mapping sch mark r =
     (if r_kind r = RK_Meta \<and> r_id r = ACCOUNT_META_ID then
        Inr (r\<lparr>r_payload := JObject (collect_map [(lit ''schema_version'', json_u64 sch),
               (lit ''created_by_app_version'', JString (x_app_version N)), (lit ''migration'', x_gate_to_value N mark)])\<rparr>)
      else if r_kind r = RK_Space \<and> \<not> r_deleted r then
        rbind (ok_or (rotation_error ''source space mapping missing'') (bt_get mapping (r_id r))) (\<lambda>i.
        rbind (set_member (r_payload r) ''previous_id'' (JString (r_id r))) (\<lambda>payload.
        Inr (r\<lparr>r_id := i, r_payload := payload\<rparr>)))
      else if r_kind r = RK_Device \<and> \<not> r_deleted r then Inr (r\<lparr>r_payload := remap_payload mapping (r_payload r)\<rparr>)
      else Inr r)"

definition copy_public_row :: "('d, 'u) rotation_env_scheme \<Rightarrow> (rstr, rstr) btm \<Rightarrow> u64 \<Rightarrow> migration_gate \<Rightarrow> (rstr, local_record) btm
    \<Rightarrow> local_record \<Rightarrow> app_error + (rstr, local_record) btm" where
  "copy_public_row N mapping sch mark records row =
     rbind (copy_public N mapping sch mark (lr_record row)) (\<lambda>r.
     Inr (bt_insert (record_key (r_kind r) (r_id r)) \<lparr>lr_record = r, lr_seq = 0, lr_dirty = True\<rparr> records))"

text \<open>The credentials of a space are replaced by those of its copy; everything else is sealed again as it is. The counter
  numbers the nonces.\<close>

definition copy_value :: "'a crypto_ext_scheme \<Rightarrow> (rstr, chain_keys) btm \<Rightarrow> envelope \<Rightarrow> json \<Rightarrow> rstr \<times> json" where
  "copy_value X children e v =
     (let oldid = value_id v in
      if e_kind e = lit ''spacekey'' \<and> \<not> e_deleted e then
        (case bt_get children oldid of
           Some child \<Rightarrow>
             (ck_chain_id child,
              the (jset (the (jset v (lit ''id'') (JString (ck_chain_id child)))) (lit ''payload'')
                (JObject (collect_map [(lit ''schema'', json_u64 1), (lit ''auth_token'', JString (ck_auth_token child)),
                   (lit ''enc_key'', JString (enc_key_b64 X child))]))))
         | None \<Rightarrow> (oldid, v))
      else (oldid, v))"

definition put_sealed :: "envelope \<Rightarrow> (rstr, sealed_record) btm \<Rightarrow> (rstr, sealed_record) btm" where
  "put_sealed e sealed =
     bt_insert (sealed_key (e_kind e) (e_id_hash e)) \<lparr>sr_envelope = e, sr_dirty = True, sr_public_identity = None\<rparr> sealed"

definition copy_sealed :: "'a crypto_ext_scheme \<Rightarrow> ('d, 'u) rotation_env_scheme \<Rightarrow> (nat \<Rightarrow> rstr + bytes) \<Rightarrow> (envelope \<Rightarrow> json \<Rightarrow> rstr \<times> json)
    \<Rightarrow> chain_keys \<Rightarrow> chain_keys \<Rightarrow> nat \<times> (rstr, sealed_record) btm \<Rightarrow> sealed_record \<Rightarrow> app_error + nat \<times> (rstr, sealed_record) btm" where
  "copy_sealed X N nonces f old new acc r =
     (case acc of (n, sealed) \<Rightarrow>
      rbind (open_value X old (sr_envelope r)) (\<lambda>v.
      case f (sr_envelope r) v of (i, v) \<Rightarrow>
        rbind (seal_value X N (nonces n) new (e_kind (sr_envelope r)) i v) (\<lambda>e.
        Inr (n + 1, put_sealed e sealed))))"

definition copy_space :: "'a merge_ext_scheme \<Rightarrow> ('d, 'u) rotation_env_scheme \<Rightarrow> (nat \<Rightarrow> rstr + bytes) \<Rightarrow> account_state \<Rightarrow> chain_keys
    \<Rightarrow> (rstr, chain_keys) btm \<Rightarrow> nat \<times> (rstr, space_state) btm \<Rightarrow> rstr \<times> space_state \<Rightarrow> app_error + nat \<times> (rstr, space_state) btm" where
  "copy_space X N nonces account old children acc kv =
     (case (acc, kv) of ((n, targets), (oldid, source)) \<Rightarrow>
      rbind (space_keys X account old oldid) (\<lambda>found.
      rbind (ok_or (rotation_error ''source space unavailable'') found) (\<lambda>oldchild.
      rbind (case bt_get children oldid of Some c \<Rightarrow> Inr c | None \<Rightarrow> panicked_result) (\<lambda>child.
      rbind (for_each (copy_sealed X N nonces (\<lambda>_ v. (value_id v, v)) oldchild child) (n, []) (bt_values (sp_sealed source))) (\<lambda>(n, sealed).
      Inr (n, bt_insert (ck_chain_id child)
             (source\<lparr>sp_cursor_seq := 0, sp_baseline_established := False,
                     sp_records := map (\<lambda>(k, r). (k, r\<lparr>lr_seq := 0, lr_dirty := True\<rparr>)) (sp_records source),
                     sp_sealed := sealed, sp_missing := False\<rparr>) targets))))))"

definition copy_all :: "'a merge_ext_scheme \<Rightarrow> ('d, 'u) rotation_env_scheme \<Rightarrow> (nat \<Rightarrow> rstr + bytes) \<Rightarrow> pending_account_operation \<Rightarrow> chain_keys \<Rightarrow> chain_keys
    \<Rightarrow> (rstr, chain_keys) btm \<Rightarrow> app_error + pending_account_operation" where
  "copy_all X N nonces op old new children =
     (let p = plan_of op; source = rl_source_account p; sch = account_schema_of source in
      rbind (for_each (copy_public_row N (rl_space_ids p) sch (marker op MP_Publishing)) [] (bt_values (acc_records source))) (\<lambda>records.
      rbind (for_each (copy_sealed X N nonces (copy_value X children) old new) (0, []) (bt_values (acc_sealed source))) (\<lambda>(n, sealed).
      rbind (for_each (copy_space X N nonces source old children) (n, []) (rl_source_spaces p)) (\<lambda>(_, targets).
      Inr (with_plan (\<lambda>p. p\<lparr>rl_target_spaces := targets\<rparr>)
             (op\<lparr>po_prepared_account := (account_new (ck_chain_id new))\<lparr>acc_remote_schema_version := Some (ucast sch),
                   acc_records := records, acc_sealed := sealed\<rparr>\<rparr>))))))"

definition prepare_targets :: "'a merge_ext_scheme \<Rightarrow> ('d, 'u) rotation_env_scheme \<Rightarrow> pending_account_operation \<Rightarrow> chain_keys \<Rightarrow> chain_keys
    \<Rightarrow> ('d, pending_account_operation) device_act" where
  "prepare_targets X N op old new =
     io_bind (draw_children X N (rl_space_ids (plan_of op)) []) (\<lambda>children.
     io_bind (in_round (query (x_nonce N))) (\<lambda>nonces.
     lift_or_panic (copy_all X N nonces op old new children)))"

text \<open>The row of this device takes its new name.\<close>

definition name_device :: "rstr \<Rightarrow> pending_account_operation \<Rightarrow> app_error + pending_account_operation" where
  "name_device own op =
     (let account = po_prepared_account op; key = record_key RK_Device own in
      case bt_get (acc_records account) key of
        None \<Rightarrow> Inr op
      | Some r \<Rightarrow>
          rbind (set_member (r_payload (lr_record r)) ''name'' (JString (po_device_name op))) (\<lambda>payload.
          Inr (op\<lparr>po_prepared_account := account\<lparr>acc_records :=
                 bt_insert key (r\<lparr>lr_record := (lr_record r)\<lparr>r_payload := payload\<rparr>\<rparr>) (acc_records account)\<rparr>\<rparr>)))"

section \<open>Publishing the copy\<close>

record rotation_sent =
  rs_key :: rstr
  rs_item :: push_item
  rs_public :: "sync_record option"
  rs_cipher :: "envelope option"
  rs_version :: u64
  rs_time :: u64

definition sent_public :: "'a merge_ext_scheme \<Rightarrow> (nat \<Rightarrow> rstr + bytes) \<Rightarrow> chain_keys \<Rightarrow> nat \<times> rotation_sent list \<Rightarrow> rstr \<times> local_record
    \<Rightarrow> app_error + nat \<times> rotation_sent list" where
  "sent_public X nonces keys acc kv =
     (case (acc, kv) of ((n, sent), (k, r)) \<Rightarrow>
      rbind (encode_record X (nonces n) keys (lr_record r) (lr_seq r)) (\<lambda>item.
      Inr (n + 1, sent @ [\<lparr>rs_key = k, rs_item = item, rs_public = Some (lr_record r), rs_cipher = None,
             rs_version = r_version (lr_record r), rs_time = r_updated_at_ms (lr_record r)\<rparr>])))"

definition sent_sealed :: "'a merge_ext_scheme \<Rightarrow> chain_keys \<Rightarrow> rotation_sent list \<Rightarrow> rstr \<times> sealed_record \<Rightarrow> app_error + rotation_sent list" where
  "sent_sealed X keys sent kv =
     (case kv of (k, r) \<Rightarrow>
      let e = sr_envelope r in
      rbind (open_value X keys e) (\<lambda>v.
      Inr (sent @ [\<lparr>rs_key = k,
             rs_item = \<lparr>pi_id_hash = e_id_hash e, pi_kind = e_kind e, pi_nonce = e_nonce e, pi_ciphertext = e_ciphertext e,
                        pi_deleted = e_deleted e, pi_base_seq = e_seq e\<rparr>,
             rs_public = None, rs_cipher = Some e, rs_version = the (as_u64 (jat v (lit ''version''))),
             rs_time = the (as_u64 (jat v (lit ''updated_at_ms'')))\<rparr>])))"

definition rotation_outgoing :: "'a merge_ext_scheme \<Rightarrow> (nat \<Rightarrow> rstr + bytes) \<Rightarrow> (rstr, local_record) btm \<Rightarrow> (rstr, sealed_record) btm \<Rightarrow> chain_keys
    \<Rightarrow> app_error + rotation_sent list" where
  "rotation_outgoing X nonces records sealed keys =
     rbind (for_each (sent_public X nonces keys) (0, []) (filter (\<lambda>(_, r). lr_dirty r) records)) (\<lambda>(_, sent).
     for_each (sent_sealed X keys) sent (filter (\<lambda>(_, r). sr_dirty r) sealed))"

definition rotation_receipt :: "(rstr \<times> u64) list \<Rightarrow> (rstr, local_record) btm \<times> (rstr, sealed_record) btm \<Rightarrow> rotation_sent
    \<Rightarrow> (rstr, local_record) btm \<times> (rstr, sealed_record) btm" where
  "rotation_receipt accepted acc s =
     (case acc of (records, sealed) \<Rightarrow>
      case List.find (\<lambda>(k, seq). k = rs_key s \<and> seq > 0 \<and> seq \<le> MAX_SAFE_INTEGER \<and> seq > pi_base_seq (rs_item s)) accepted of
        None \<Rightarrow> (records, sealed)
      | Some (_, seq) \<Rightarrow>
          (case rs_public s of
             Some expected \<Rightarrow>
               (case opt_filter (\<lambda>r. lr_record r = expected) (bt_get records (rs_key s)) of
                  Some r \<Rightarrow> (bt_insert (rs_key s) (r\<lparr>lr_seq := seq, lr_dirty := False\<rparr>) records, sealed)
                | None \<Rightarrow> (records, sealed))
           | None \<Rightarrow>
               (case rs_cipher s of
                  None \<Rightarrow> (records, sealed)
                | Some expected \<Rightarrow>
                    (case opt_filter (\<lambda>r. same_cipher (sr_envelope r) expected) (bt_get sealed (rs_key s)) of
                       Some r \<Rightarrow> (records, bt_insert (rs_key s) (r\<lparr>sr_envelope := (sr_envelope r)\<lparr>e_seq := seq\<rparr>, sr_dirty := False\<rparr>) sealed)
                     | None \<Rightarrow> (records, sealed)))))"

definition rotation_receipts :: "(rstr \<times> u64) list \<Rightarrow> rotation_sent list \<Rightarrow> (rstr, local_record) btm \<times> (rstr, sealed_record) btm
    \<Rightarrow> (rstr, local_record) btm \<times> (rstr, sealed_record) btm" where
  "rotation_receipts accepted sent acc = foldl (rotation_receipt accepted) acc sent"

text \<open>The rows of the new account, or of one of its spaces.\<close>

definition target_space :: "pending_account_operation \<Rightarrow> rstr \<Rightarrow> space_state option" where
  "target_space op i = bt_get (rl_target_spaces (plan_of op)) i"

definition take_receipts :: "rstr option \<Rightarrow> (rstr \<times> u64) list \<Rightarrow> rotation_sent list \<Rightarrow> pending_account_operation \<Rightarrow> pending_account_operation" where
  "take_receipts space accepted sent op =
     (case space of
        Some i \<Rightarrow>
          with_plan (\<lambda>p. p\<lparr>rl_target_spaces := bt_modify i (\<lambda>sp.
            case rotation_receipts accepted sent (sp_records sp, sp_sealed sp) of (records, sealed) \<Rightarrow>
              sp\<lparr>sp_records := records, sp_sealed := sealed\<rparr>) (rl_target_spaces p)\<rparr>) op
      | None \<Rightarrow>
          (let account = po_prepared_account op in
           case rotation_receipts accepted sent (acc_records account, acc_sealed account) of (records, sealed) \<Rightarrow>
             op\<lparr>po_prepared_account := account\<lparr>acc_records := records, acc_sealed := sealed\<rparr>\<rparr>))"

definition outgoing_of :: "rotation_sent \<Rightarrow> outgoing_item" where
  "outgoing_of s = \<lparr>og_key = rs_key s, og_item = rs_item s, og_version = rs_version s, og_updated_at_ms = rs_time s\<rparr>"

definition rotation_push :: "'a merge_ext_scheme \<Rightarrow> ('d, 'u) rotation_env_scheme \<Rightarrow> pending_account_operation \<Rightarrow> chain_keys \<Rightarrow> rstr option
    \<Rightarrow> ('d, pending_account_operation) device_act" where
  "rotation_push X N op new space =
     io_bind (target_proof X N op new) (\<lambda>op.
     io_bind (case space of
                None \<Rightarrow> io_return new
              | Some i \<Rightarrow>
                  io_bind (io_lift (space_keys X (po_prepared_account op) new i)) (\<lambda>found.
                  io_lift (ok_or (rotation_error ''destination space unavailable'') found))) (\<lambda>keys.
     io_bind (case space of
                None \<Rightarrow> io_return (acc_records (po_prepared_account op), acc_sealed (po_prepared_account op))
              | Some i \<Rightarrow>
                  io_bind (in_round (unwrap (target_space op i))) (\<lambda>sp. io_return (sp_records sp, sp_sealed sp))) (\<lambda>(records, sealed).
     io_bind (in_round (ask (\<lambda>n. rotation_outgoing X (x_nonce N n) records sealed keys))) (\<lambda>sent.
     if sent = [] then io_return op
     else
       io_bind (connect_relay N (po_relay_url op)) (\<lambda>_.
       io_bind (rotation_latest X N op) (\<lambda>_.
       io_bind (push_chain N (po_relay_url op) keys (map outgoing_of sent)) (\<lambda>pushed.
       let op = take_receipts space (ps_accepted pushed) sent op in
       io_bind (rotation_store X N op True) (\<lambda>_.
       if ps_frozen pushed \<or> ps_conflicts pushed > 0 \<or> ps_error pushed \<noteq> None
       then io_fail (rotation_error ''destination publication is pending or conflicted; resume after review'')
       else io_return op))))))))"

definition space_unchanged :: "space_state \<Rightarrow> space_state \<Rightarrow> app_error + unit" where
  "space_unchanged old merged =
     rbind (fail_if (list_ex (\<lambda>(k, r). \<not> lr_dirty r \<and> map_option lr_record (bt_get (sp_records merged) k) \<noteq> Some (lr_record r)) (sp_records old))
              (rotation_error ''destination host changed; review rotation'')) (\<lambda>_.
     fail_if (list_ex (\<lambda>(k, r). \<not> sr_dirty r
                \<and> \<not> is_some_and (bt_get (sp_sealed merged) k) (\<lambda>x. same_cipher (sr_envelope r) (sr_envelope x))) (sp_sealed old))
       (rotation_error ''destination opaque host changed; review rotation''))"

definition rotation_space_proof :: "'a merge_ext_scheme \<Rightarrow> ('d, 'u) rotation_env_scheme \<Rightarrow> pending_account_operation \<Rightarrow> chain_keys \<Rightarrow> rstr
    \<Rightarrow> ('d, pending_account_operation) device_act" where
  "rotation_space_proof X N op new i =
     io_bind (target_proof X N op new) (\<lambda>op.
     io_bind (io_lift (space_keys X (po_prepared_account op) new i)) (\<lambda>found.
     io_bind (io_lift (ok_or (rotation_error ''destination space credentials unavailable'') found)) (\<lambda>keys.
     io_bind (connect_relay N (po_relay_url op)) (\<lambda>_.
     io_bind (pull_chain N (po_relay_url op) keys) (\<lambda>pulled.
     io_bind (in_round (unwrap (target_space op i))) (\<lambda>old.
     io_bind (io_lift (complete_transport X (sp_records old) (sp_sealed old) keys pulled (sp_cursor_seq old) (sp_baseline_established old))) (\<lambda>_.
     let merged = merge_space X old keys pulled 0 Compatible in
     io_bind (io_lift (fail_if (mo_gate merged \<noteq> Compatible \<or> mo_conflicts merged \<noteq> [])
                         (rotation_error ''destination space baseline is inconsistent''))) (\<lambda>_.
     io_bind (io_lift (space_unchanged old (mo_section merged))) (\<lambda>_.
     let op = with_plan (\<lambda>p. p\<lparr>rl_target_spaces := bt_insert i (mo_section merged) (rl_target_spaces p)\<rparr>) op in
     io_bind (rotation_store X N op False) (\<lambda>_. io_return op))))))))))"

section \<open>The steps\<close>

definition secret_delete_or :: "('d, 'u) rotation_env_scheme \<Rightarrow> string \<Rightarrow> rstr \<Rightarrow> ('d, unit) device_act" where
  "secret_delete_or N what name =
     io_bind (attempt (secret_delete N name)) (\<lambda>res. io_lift (map_err (\<lambda>_. rotation_error what) res))"

definition secret_set_or :: "('d, 'u) rotation_env_scheme \<Rightarrow> string \<Rightarrow> rstr \<Rightarrow> rstr \<Rightarrow> ('d, unit) device_act" where
  "secret_set_or N what name code =
     io_bind (attempt (secret_set N name code)) (\<lambda>res. io_lift (map_err (\<lambda>_. rotation_error what) res))"

text \<open>The rotation is active: the copies of both codes are removed.\<close>

definition rotation_cleanup :: "'a merge_ext_scheme \<Rightarrow> ('d, 'u) rotation_env_scheme \<Rightarrow> pending_account_operation \<Rightarrow> chain_keys \<Rightarrow> ('d, unit) device_act" where
  "rotation_cleanup X N op new =
     io_bind (target_proof X N op new) (\<lambda>op.
     io_bind (source_code X N op) (\<lambda>source.
     io_bind (case source of
                None \<Rightarrow> io_return ()
              | Some code \<Rightarrow>
                  io_bind (io_lift (derive_account X code)) (\<lambda>old.
                  io_bind (source_proof X N op old) (\<lambda>_. io_return ()))) (\<lambda>_.
     io_bind (in_round (unwrap (po_staged_code_account op))) (\<lambda>staged.
     io_bind (rotation_latest X N op) (\<lambda>_.
     io_bind (secret_delete_or N ''rotation is active; scoped code cleanup is pending'' staged) (\<lambda>_.
     io_bind (rotation_latest X N op) (\<lambda>_.
     io_bind (secret_delete_or N ''rotation is active; scoped code cleanup is pending'' (rl_source_code_account (plan_of op))) (\<lambda>_.
     commit_records X N (done_transform op)))))))))"

text \<open>Both codes are archived, after the source and an existing target were verified.\<close>

definition rotation_stage :: "'a merge_ext_scheme \<Rightarrow> ('d, 'u) rotation_env_scheme \<Rightarrow> pending_account_operation \<Rightarrow> chain_keys \<Rightarrow> rstr
    \<Rightarrow> ('d, pending_account_operation \<times> chain_keys \<times> account_state) device_act" where
  "rotation_stage X N op new phrase =
     io_bind (source_code X N op) (\<lambda>found.
     io_bind (io_lift (ok_or (rotation_error ''source code unavailable'') found)) (\<lambda>source.
     io_bind (io_lift (derive_account X source)) (\<lambda>old.
     io_bind (source_proof X N op old) (\<lambda>fresh.
     io_bind (rotation_latest X N op) (\<lambda>_.
     io_bind (if ck_chain_id new \<in> rl_created (plan_of op) then target_proof X N op new else io_return op) (\<lambda>op.
     io_bind (rotation_latest X N op) (\<lambda>_.
     io_bind (secret_set_or N ''source code archive is pending'' (rl_source_code_account (plan_of op)) source) (\<lambda>_.
     io_bind (rotation_latest X N op) (\<lambda>_.
     io_bind (in_round (unwrap (po_staged_code_account op))) (\<lambda>staged.
     io_bind (secret_set_or N ''new code staging is pending'' staged phrase) (\<lambda>_.
     io_return (op, old, fresh))))))))))))"

text \<open>Freezing a chain is acknowledged by the relay before it is noted.\<close>

definition freeze_noted :: "'a merge_ext_scheme \<Rightarrow> ('d, 'u) rotation_env_scheme \<Rightarrow> pending_account_operation \<Rightarrow> rstr \<Rightarrow> rstr
    \<Rightarrow> ('d, pending_account_operation) device_act" where
  "freeze_noted X N op chain tok =
     io_bind (rotation_latest X N op) (\<lambda>_.
     io_bind (freeze N (po_relay_url op) chain tok) (\<lambda>_.
     let op = with_plan (\<lambda>p. p\<lparr>rl_frozen := insert chain (rl_frozen p)\<rparr>) op in
     io_bind (rotation_store X N op True) (\<lambda>_. io_return op)))"

fun freeze_spaces :: "'a merge_ext_scheme \<Rightarrow> ('d, 'u) rotation_env_scheme \<Rightarrow> chain_keys \<Rightarrow> rstr list \<Rightarrow> pending_account_operation
    \<Rightarrow> ('d, pending_account_operation) device_act" where
  "freeze_spaces X N old [] op = io_return op"
| "freeze_spaces X N old (i # ids) op =
     io_bind (if i \<in> rl_frozen (plan_of op) then io_return op
              else
                io_bind (io_lift (space_keys X (rl_source_account (plan_of op)) old i)) (\<lambda>found.
                io_bind (io_lift (ok_or (rotation_error ''source space unavailable'') found)) (\<lambda>child.
                freeze_noted X N op i (ck_auth_token child)))) (\<lambda>op.
     freeze_spaces X N old ids op)"

fun assign_chains :: "('d, 'u) rotation_env_scheme \<Rightarrow> rstr list \<Rightarrow> (rstr, rstr) btm \<Rightarrow> ('d, (rstr, rstr) btm) device_act" where
  "assign_chains N [] m = io_return m"
| "assign_chains N (i # ids) m =
     (if bt_contains m i then assign_chains N ids m
      else io_bind (random_keys N) (\<lambda>generated. assign_chains N ids (bt_insert i (ck_chain_id generated) m)))"

definition with_source :: "account_state \<times> (rstr, space_state) btm \<Rightarrow> pending_account_operation \<Rightarrow> pending_account_operation" where
  "with_source src = with_plan (\<lambda>p. p\<lparr>rl_source_account := fst src, rl_source_spaces := snd src\<rparr>)"

definition frozen_transform :: "rstr \<Rightarrow> u64 \<Rightarrow> sync_state \<Rightarrow> app_error + sync_state" where
  "frozen_transform chain now s =
     Inr (case opt_filter (\<lambda>a. acc_chain_id a = chain) (st_account s) of
            Some a \<Rightarrow> s\<lparr>st_account := Some (a\<lparr>acc_frozen := Some \<lparr>fi_detected_at_ms = now, fi_markers = []\<rparr>\<rparr>), st_shared_writes_blocked := True\<rparr>
          | None \<Rightarrow> s)"

definition freeze_sources :: "'a merge_ext_scheme \<Rightarrow> ('d, 'u) rotation_env_scheme \<Rightarrow> pending_account_operation \<Rightarrow> chain_keys \<Rightarrow> account_state
    \<Rightarrow> ('d, pending_account_operation) device_act" where
  "freeze_sources X N op old fresh =
     (let op = with_plan (\<lambda>p. p\<lparr>rl_step := RS_Freezing\<rparr>) op in
      io_bind (rotation_store X N op False) (\<lambda>_.
      io_bind (if ck_chain_id old \<in> rl_frozen (plan_of op) then io_return op
               else freeze_noted X N op (ck_chain_id old) (ck_auth_token old)) (\<lambda>op.
      io_bind (source_full X N fresh old (rl_source_spaces (plan_of op))) (\<lambda>src.
      let op = with_source src op; ids = bt_keys (snd src) in
      io_bind (assign_chains N ids (filter (\<lambda>(i, _). i \<in> set ids) (rl_space_ids (plan_of op)))) (\<lambda>mapping.
      let op = with_plan (\<lambda>p. p\<lparr>rl_space_ids := mapping\<rparr>) op in
      io_bind (rotation_store X N op False) (\<lambda>_.
      freeze_spaces X N old ids op))))))"

definition copy_frozen :: "'a merge_ext_scheme \<Rightarrow> ('d, 'u) rotation_env_scheme \<Rightarrow> pending_account_operation \<Rightarrow> chain_keys \<Rightarrow> chain_keys
    \<Rightarrow> ('d, pending_account_operation) device_act" where
  "copy_frozen X N op old new =
     io_bind (source_full X N (rl_source_account (plan_of op)) old (rl_source_spaces (plan_of op))) (\<lambda>src.
     let op = with_source src op in
     io_bind (io_lift (snapshot_digest N (fst src) (snd src))) (\<lambda>digest.
     let op = with_plan (\<lambda>p. p\<lparr>rl_source_digest := digest\<rparr>) op in
     io_bind (prepare_targets X N op old new) (\<lambda>op.
     io_bind (in_round (core_read N)) (\<lambda>s.
     io_bind (lift_or_panic (name_device (st_device_id s) op)) (\<lambda>op.
     let op = with_plan (\<lambda>p. p\<lparr>rl_step := RS_Copying\<rparr>) op in
     io_bind (rotation_store X N op False) (\<lambda>_.
     io_bind (env_now N) (\<lambda>now.
     io_bind (commit_records X N (frozen_transform (ck_chain_id old) now)) (\<lambda>_.
     io_return op))))))))"

definition create_noted :: "'a merge_ext_scheme \<Rightarrow> ('d, 'u) rotation_env_scheme \<Rightarrow> (pending_account_operation \<Rightarrow> pending_account_operation)
    \<Rightarrow> pending_account_operation \<Rightarrow> chain_keys \<Rightarrow> ('d, pending_account_operation) device_act" where
  "create_noted X N f op keys =
     io_bind (rotation_latest X N op) (\<lambda>_.
     io_bind (create_chain N (po_relay_url op) keys) (\<lambda>_.
     let op = f (with_plan (\<lambda>p. p\<lparr>rl_created := insert (ck_chain_id keys) (rl_created p)\<rparr>) op) in
     io_bind (rotation_store X N op True) (\<lambda>_. io_return op)))"

fun create_targets :: "'a merge_ext_scheme \<Rightarrow> ('d, 'u) rotation_env_scheme \<Rightarrow> chain_keys \<Rightarrow> rstr list \<Rightarrow> pending_account_operation
    \<Rightarrow> ('d, pending_account_operation) device_act" where
  "create_targets X N new [] op = io_return op"
| "create_targets X N new (i # ids) op =
     io_bind (if i \<in> rl_created (plan_of op) then io_return op
              else
                io_bind (target_proof X N op new) (\<lambda>op.
                io_bind (io_lift (space_keys X (po_prepared_account op) new i)) (\<lambda>found.
                io_bind (io_lift (ok_or (rotation_error ''destination space unavailable'') found)) (\<lambda>child.
                create_noted X N (\<lambda>op. op) op child)))) (\<lambda>op.
     create_targets X N new ids op)"

fun copy_targets :: "'a merge_ext_scheme \<Rightarrow> ('d, 'u) rotation_env_scheme \<Rightarrow> chain_keys \<Rightarrow> rstr list \<Rightarrow> pending_account_operation
    \<Rightarrow> ('d, pending_account_operation) device_act" where
  "copy_targets X N new [] op = io_return op"
| "copy_targets X N new (i # ids) op =
     io_bind (rotation_space_proof X N op new i) (\<lambda>op.
     io_bind (rotation_push X N op new (Some i)) (\<lambda>op.
     io_bind (rotation_space_proof X N op new i) (\<lambda>op.
     io_bind (in_round (unwrap (target_space op i))) (\<lambda>sp.
     io_bind (io_lift (fail_if (any_dirty (sp_records sp) (sp_sealed sp)) (rotation_error ''destination space receipts are incomplete''))) (\<lambda>_.
     copy_targets X N new ids op)))))"

definition account_clean :: "string \<Rightarrow> pending_account_operation \<Rightarrow> app_error + unit" where
  "account_clean what op =
     fail_if (any_dirty (acc_records (po_prepared_account op)) (acc_sealed (po_prepared_account op))) (rotation_error what)"

text \<open>The metadata of the copy is released: from now on other devices may use it.\<close>

definition release_metadata :: "('d, 'u) rotation_env_scheme \<Rightarrow> pending_account_operation \<Rightarrow> app_error + pending_account_operation" where
  "release_metadata N op =
     (let account = po_prepared_account op; key = record_key RK_Meta ACCOUNT_META_ID in
      rbind (ok_or (rotation_error ''destination metadata missing'') (bt_get (acc_records account) key)) (\<lambda>r.
      rbind (ok_or (rotation_error ''metadata revision exhausted'') (checked_add (r_version (lr_record r)) 1)) (\<lambda>version.
      rbind (ok_or (rotation_error ''metadata timestamp exhausted'') (checked_add (r_updated_at_ms (lr_record r)) 1)) (\<lambda>t.
      rbind (set_member (r_payload (lr_record r)) ''migration'' (x_gate_to_value N (marker op MP_Active))) (\<lambda>payload.
      Inr (with_plan (\<lambda>p. p\<lparr>rl_step := RS_Activating\<rparr>)
             (op\<lparr>po_phase := PP_ActivationReady,
                 po_prepared_account := account\<lparr>acc_records := bt_insert key
                   (r\<lparr>lr_record := (lr_record r)\<lparr>r_version := version, r_updated_at_ms := t, r_payload := payload\<rparr>, lr_dirty := True\<rparr>)
                   (acc_records account)\<rparr>\<rparr>)))))))"

definition publish_copy :: "'a merge_ext_scheme \<Rightarrow> ('d, 'u) rotation_env_scheme \<Rightarrow> pending_account_operation \<Rightarrow> chain_keys \<Rightarrow> rstr list
    \<Rightarrow> ('d, pending_account_operation) device_act" where
  "publish_copy X N op new ids =
     io_bind (rotation_push X N op new None) (\<lambda>op.
     io_bind (copy_targets X N new ids op) (\<lambda>op.
     io_bind (target_proof X N op new) (\<lambda>op.
     io_bind (io_lift (account_clean ''destination account receipts are incomplete'' op)) (\<lambda>_.
     io_bind (lift_or_panic (release_metadata N op)) (\<lambda>op.
     io_bind (rotation_store X N op False) (\<lambda>_. io_return op))))))"

definition switch_transform :: "pending_account_operation \<Rightarrow> sync_state \<Rightarrow> app_error + sync_state" where
  "switch_transform op s =
     (if \<not> same_pending op s then Inl superseded
      else Inr (s\<lparr>st_device_name := po_device_name op, st_account := Some (po_prepared_account op), st_spaces := rl_target_spaces (plan_of op),
                  st_rotation := None, st_migration_gate := None, st_shared_writes_blocked := False,
                  st_pending_account := Some (op\<lparr>po_phase := PP_Activated\<rparr>), st_last_error := None\<rparr>))"

definition switch_over :: "'a merge_ext_scheme \<Rightarrow> ('d, 'u) rotation_env_scheme \<Rightarrow> pending_account_operation \<Rightarrow> chain_keys \<Rightarrow> chain_keys \<Rightarrow> rstr
    \<Rightarrow> ('d, unit) device_act" where
  "switch_over X N op old new phrase =
     io_bind (rotation_push X N op new None) (\<lambda>op.
     io_bind (target_proof X N op new) (\<lambda>op.
     io_bind (source_proof X N op old) (\<lambda>_.
     io_bind (io_lift (account_clean ''destination account release receipt is incomplete'' op)) (\<lambda>_.
     io_bind (rotation_latest X N op) (\<lambda>_.
     io_bind (secret_set_or N ''new code promotion is pending; source archive is retained'' MNEMONIC_ACCOUNT phrase) (\<lambda>_.
     commit_records X N (switch_transform op)))))))"

definition rotation_advance :: "'a merge_ext_scheme \<Rightarrow> ('d, 'u) rotation_env_scheme \<Rightarrow> pending_account_operation \<Rightarrow> chain_keys \<Rightarrow> rstr
    \<Rightarrow> ('d, unit) device_act" where
  "rotation_advance X N op new phrase =
     io_bind (rotation_stage X N op new phrase) (\<lambda>(op, old, fresh).
     io_bind (connect_relay N (po_relay_url op)) (\<lambda>_.
     io_bind (if rl_step (plan_of op) \<in> {RS_Prepared, RS_Freezing}
              then io_bind (freeze_sources X N op old fresh) (\<lambda>op. copy_frozen X N op old new)
              else io_return op) (\<lambda>op.
     io_bind (if ck_chain_id new \<in> rl_created (plan_of op) then io_return op
              else create_noted X N (\<lambda>op. op\<lparr>po_phase := PP_RemoteCreated\<rparr>) op new) (\<lambda>op.
     let ids = bt_keys (rl_target_spaces (plan_of op)) in
     io_bind (create_targets X N new ids op) (\<lambda>op.
     io_bind (if rl_step (plan_of op) = RS_Copying then publish_copy X N op new ids else io_return op) (\<lambda>op.
     switch_over X N op old new phrase))))))"

text \<open>The last step is to resume once more, which finds the rotation active and cleans up. The number bounds how often
  that happens.\<close>

fun rotation_resume :: "nat \<Rightarrow> 'a merge_ext_scheme \<Rightarrow> ('d, 'u) rotation_env_scheme \<Rightarrow> rstr option \<Rightarrow> ('d, unit) device_act" where
  "rotation_resume 0 X N provided = io_fail (rotation_error ''rotation is still running'')"
| "rotation_resume (Suc k) X N provided =
     io_bind (in_round (preflight X N)) (\<lambda>_.
     io_bind (rotation_current N) (\<lambda>op.
     io_bind (io_lift (fail_if (po_kind op \<noteq> PK_RotateAccount) (rotation_error ''a different operation is pending''))) (\<lambda>_.
     io_bind (io_lift (validate_pending X N op)) (\<lambda>_.
     io_bind (taken_up op) (\<lambda>_.
     io_bind (keys_for X N op provided) (\<lambda>(new, phrase).
     if po_phase op = PP_Activated then rotation_cleanup X N op new
     else io_bind (rotation_advance X N op new phrase) (\<lambda>_. rotation_resume k X N None)))))))"

section \<open>Starting\<close>

definition settle_rows :: "(rstr, local_record) btm \<Rightarrow> (rstr, local_record) btm" where
  "settle_rows = map (\<lambda>(k, r). (k, r\<lparr>lr_seq := MAX_SAFE_INTEGER, lr_dirty := False\<rparr>))"

definition settle_sealed :: "(rstr, sealed_record) btm \<Rightarrow> (rstr, sealed_record) btm" where
  "settle_sealed = map (\<lambda>(k, r). (k, r\<lparr>sr_envelope := (sr_envelope r)\<lparr>e_seq := MAX_SAFE_INTEGER\<rparr>, sr_dirty := False\<rparr>))"

text \<open>The operation as it will be at its largest, with the widest receipts.\<close>

definition settled_copy :: "chain_keys \<Rightarrow> pending_account_operation \<Rightarrow> app_error + pending_account_operation" where
  "settled_copy new copy =
     (let account = po_prepared_account copy; key = record_key RK_Meta ACCOUNT_META_ID in
      rbind (ok_or (rotation_error ''source metadata missing'') (bt_get (acc_records account) key)) (\<lambda>r.
      rbind (ok_or (rotation_error ''source metadata stamp exhausted'') (checked_add (r_version (lr_record r)) 1)) (\<lambda>version.
      rbind (ok_or (rotation_error ''source metadata stamp exhausted'') (checked_add (r_updated_at_ms (lr_record r)) 1)) (\<lambda>t.
      let records = bt_insert key (r\<lparr>lr_record := (lr_record r)\<lparr>r_version := version, r_updated_at_ms := t\<rparr>\<rparr>) (acc_records account) in
      Inr (with_plan (\<lambda>p. p\<lparr>
             rl_target_spaces := map (\<lambda>(i, sp). (i, sp\<lparr>sp_cursor_seq := MAX_SAFE_INTEGER, sp_baseline_established := True,
               sp_records := settle_rows (sp_records sp), sp_sealed := settle_sealed (sp_sealed sp)\<rparr>)) (rl_target_spaces p),
             rl_frozen := insert (acc_chain_id (rl_source_account p)) (set (bt_keys (rl_source_spaces p))),
             rl_created := insert (ck_chain_id new) (set (bt_keys (rl_target_spaces p)))\<rparr>)
           (copy\<lparr>po_phase := PP_ActivationReady,
                 po_prepared_account := account\<lparr>acc_cursor_seq := MAX_SAFE_INTEGER, acc_baseline_established := True,
                   acc_records := settle_rows records, acc_sealed := settle_sealed (acc_sealed account)\<rparr>\<rparr>))))))"

definition check_storage_budget :: "'a merge_ext_scheme \<Rightarrow> ('d, 'u) rotation_env_scheme \<Rightarrow> sync_state \<Rightarrow> pending_account_operation \<Rightarrow> chain_keys
    \<Rightarrow> chain_keys \<Rightarrow> nat \<Rightarrow> ('d, unit) device_act" where
  "check_storage_budget X N s op old new limit =
     io_bind (prepare_targets X N op old new) (\<lambda>copy.
     io_bind (lift_or_panic (name_device (st_device_id s) copy)) (\<lambda>copy.
     io_bind (io_lift (settled_copy new copy)) (\<lambda>copy.
     io_lift (case x_state_to_vec N (s\<lparr>st_pending_account := Some copy\<rparr>) of
                Inr b \<Rightarrow> fail_if (length b > limit - 8192)
                  (rotation_error ''complete rotation copy exceeds the record storage budget; no source was frozen'')
              | Inl _ \<Rightarrow> Inl (rotation_error ''complete rotation copy exceeds the record storage budget; no source was frozen'')))))"

definition rotation_operation :: "sync_state \<Rightarrow> rstr \<Rightarrow> rstr \<Rightarrow> rstr \<Rightarrow> account_state \<times> (rstr, space_state) btm \<Rightarrow> (rstr, rstr) btm \<Rightarrow> rstr
    \<Rightarrow> pending_account_operation" where
  "rotation_operation s i name chain src mapping digest =
     \<lparr>po_id = i, po_device_name = name, po_kind = PK_RotateAccount, po_phase = PP_Prepared, po_migration_gate = None,
      po_relay_url = st_relay_url s, po_staged_code_account = Some (PENDING_CODE_PREFIX @ i), po_prepared_account = account_new chain,
      po_space_id = None, po_prepared_space = None, po_leave = None,
      po_rotation = Some \<lparr>rl_step = RS_Prepared, rl_source_code_account = SOURCE_CODE_PREFIX @ i, rl_source_account = fst src,
        rl_source_spaces = snd src, rl_space_ids = mapping, rl_target_spaces = [], rl_frozen = {}, rl_created = {}, rl_source_digest = digest\<rparr>\<rparr>"

definition check_metadata :: "account_state \<Rightarrow> app_error + unit" where
  "check_metadata account =
     rbind (ok_or (rotation_error ''source metadata unavailable'') (bt_get (acc_records account) (record_key RK_Meta ACCOUNT_META_ID))) (\<lambda>r.
     fail_if (checked_add (r_version (lr_record r)) 1 = None \<or> checked_add (r_updated_at_ms (lr_record r)) 1 = None)
       (rotation_error ''source metadata stamp exhausted; review before rotation''))"

definition start_rotation :: "nat \<Rightarrow> 'a merge_ext_scheme \<Rightarrow> ('d, 'u) rotation_env_scheme \<Rightarrow> rstr \<Rightarrow> ('d, account_creation) device_act" where
  "start_rotation k X N name =
     io_bind (in_round (preflight X N)) (\<lambda>_.
     let name = trim name in
     io_bind (io_lift (fail_if (name = [] \<or> str_len name > 128) (rotation_error ''device name must have 1 to 128 bytes''))) (\<lambda>_.
     io_bind (in_round (core_read N)) (\<lambda>initial.
     io_bind (io_lift (fail_if (st_pending_account initial \<noteq> None \<or> st_rotation initial \<noteq> None \<or> account_migration_pending X initial
                                \<or> account_writes_blocked X initial)
                         (rotation_error ''finish pending migration or account work before rotation''))) (\<lambda>_.
     io_bind (in_round (flush_for_rotation X N)) (\<lambda>_.
     io_bind (compatible_account X N) (\<lambda>p.
     io_bind (in_round (core_read N)) (\<lambda>s.
     io_bind (connect_relay N (st_relay_url s)) (\<lambda>_.
     io_bind (in_round (ask (\<lambda>n. map_err app_error_of_relay (x_relay_info N n (st_relay_url s))))) (\<lambda>info.
     io_bind (io_lift (fail_if (\<not> supports info FEATURE_FREEZE) (rotation_error ''the relay must support freeze before rotating records''))) (\<lambda>_.
     io_bind (io_lift (ok_or (rotation_error ''join or create a record account first'') (st_account s))) (\<lambda>source.
     io_bind (source_full X N source (fp_keys p) (st_spaces s)) (\<lambda>src.
     io_bind (io_lift (check_metadata (fst src))) (\<lambda>_.
     io_bind (pull_chain N (st_relay_url s) (fp_keys p)) (\<lambda>pulled.
     io_bind (io_lift (fail_if (sum_list (map wire_bytes (pl_records pulled)) + 1024 + length (snd src) * 256 > 1024 * 1024)
                         (rotation_error ''destination metadata exceeds the rotation storage budget''))) (\<lambda>_.
     io_bind (generate_code N) (\<lambda>code.
     io_bind (io_lift (derive_account X code)) (\<lambda>keys.
     io_bind (new_id N (rotation_error ''cannot create rotation identity'') 16) (\<lambda>i.
     io_bind (assign_chains N (bt_keys (snd src)) []) (\<lambda>mapping.
     io_bind (io_lift (snapshot_digest N (fst src) (snd src))) (\<lambda>digest.
     let op = rotation_operation s i name (ck_chain_id keys) src mapping digest in
     io_bind (check_storage_budget X N s op (fp_keys p) keys MAX_STATE_BYTES) (\<lambda>_.
     io_bind (rotation_store X N op False) (\<lambda>_.
     io_bind (attempt (rotation_resume k X N (Some code))) (\<lambda>res.
     io_return \<lparr>ac_code = code, ac_operation_id = i, ac_complete = is_ok res,
       ac_pending_error = (if is_ok res then None
         else Some (lit ''record rotation is pending; retain this new code and resume the operation''))\<rparr>)))))))))))))))))))))))"

end
