(* ===== verification/Account_Laws.thy ===== *)
theory Account_Laws
  imports Account_World Round_Properties
begin

text \<open>
  What the operations on the account keep. An operation is a sequence of commits, of reads and of calls to the outside,
  so an invariant of the round's state that each of these keeps is kept by the operation, wherever it stops. The
  locale \<open>device_invariant\<close> states the laws of the single steps; it is interpreted for the soundness of memory and
  disk and for the log of uploads.
\<close>

section \<open>Steps\<close>

text \<open>A change of the core that blocks shared writes and saving, or does nothing.\<close>

definition closes :: "(sync_core \<Rightarrow> sync_core) \<Rightarrow> bool" where
  "closes f \<longleftrightarrow> (\<forall>core. f core = core
     \<or> (\<exists>s reason. f core = core\<lparr>sc_records := Some s, sc_save_blocked := Some reason\<rparr> \<and> (st_shared_writes_blocked s \<or> st_pending_account s \<noteq> None)))"

lemma runs_in_round: "runs K f Q \<Longrightarrow> runs (\<lambda>st. K (dv_round st)) (in_round f) Q"
  by (fastforce simp: runs_def in_round_def split: prod.splits)

lemma runs_attempt: "runs K m Q \<Longrightarrow> runs K (attempt m) (\<lambda>_. True)"
  by (fastforce simp: runs_def attempt_def split: prod.splits sum.splits if_splits)

lemma runs_keep: "runs P m Q \<Longrightarrow> runs P m (\<lambda>_. True)"
  by (rule runs_weaken) auto

lemma runs_then: "runs P m (\<lambda>_. True) \<Longrightarrow> (\<And>a. runs P (f a) (\<lambda>_. True)) \<Longrightarrow> runs P (io_bind m f) (\<lambda>_. True)"
  by (rule runs_bind)

lemma runs_result: "runs P (io_lift x) (\<lambda>_. True)" "runs P (io_return a) (\<lambda>_. True)" "runs P (io_fail e) (\<lambda>_. True)"
  by (simp_all add: runs_keep [OF runs_lift] runs_return runs_fail)

lemma runs_split:
  "runs P m (\<lambda>_. True) \<Longrightarrow> (\<And>a. runs P (f a) (\<lambda>_. True)) \<Longrightarrow> runs P (case x of None \<Rightarrow> m | Some a \<Rightarrow> f a) (\<lambda>_. True)"
  "(\<And>e. runs P (g e) (\<lambda>_. True)) \<Longrightarrow> (\<And>b. runs P (h b) (\<lambda>_. True)) \<Longrightarrow> runs P (case y of Inl e \<Rightarrow> g e | Inr b \<Rightarrow> h b) (\<lambda>_. True)"
  "runs P m1 (\<lambda>_. True) \<Longrightarrow> runs P m2 (\<lambda>_. True) \<Longrightarrow> runs P (if c then m1 else m2) (\<lambda>_. True)"
  "(\<And>a b. runs P (k a b) (\<lambda>_. True)) \<Longrightarrow> runs P (case z of (a, b) \<Rightarrow> k a b) (\<lambda>_. True)"
  by (simp_all split: option.split sum.split prod.split)

lemmas runs_rules = runs_then runs_result runs_split

section \<open>The laws\<close>

locale device_invariant =
  fixes X :: "'a merge_ext_scheme" and N :: "('d, 'u) device_env_scheme" and K :: "'d round \<Rightarrow> bool"
  assumes checked: "runs K (preflight X N) (\<lambda>_. True)"
    and read_core: "runs K (core_read N) (\<lambda>_. True)"
    and gated: "runs K (fresh_account_gate X N) (\<lambda>_. True)"
    and commits_records: "runs K (access N (mutate_records X N f)) (\<lambda>_. True)"
    and closed_core: "closes h \<Longrightarrow> runs K (access N (\<lambda>w. (Inr (), w\<lparr>w_core := h (w_core w)\<rparr>))) (\<lambda>_. True)"
    and stepped: "K r \<Longrightarrow> K (r\<lparr>rd_step := n\<rparr>)"
    and panicked: "K r \<Longrightarrow> K (r\<lparr>rd_panicked := True\<rparr>)"
begin

abbreviation held :: "'d device \<Rightarrow> bool" where
  "held st \<equiv> K (dv_round st)"

lemma held_ask: "runs held (in_round (ask g)) (\<lambda>_. True)"
  by (auto simp: runs_def in_round_def ask_def stepped)

lemma held_unwrap: "runs held (in_round (unwrap x)) (\<lambda>_. True)" "runs held (in_round panic) (\<lambda>_. True)"
  by (auto simp: runs_def in_round_def unwrap_def panic_def io_return_def panicked split: option.splits)

lemma held_round:
  "runs held (in_round (preflight X N)) (\<lambda>_. True)" "runs held (in_round (core_read N)) (\<lambda>_. True)"
  "runs held (in_round (fresh_account_gate X N)) (\<lambda>_. True)"
  using checked read_core gated by (simp_all add: runs_in_round)

lemma held_outside:
  "runs held (pull_chain N url keys) (\<lambda>_. True)" "runs held (connect_relay N url) (\<lambda>_. True)" "runs held (env_now N) (\<lambda>_. True)"
proof -
  show "runs held (pull_chain N url keys) (\<lambda>_. True)"
    unfolding pull_chain_def using held_ask
    by (rule runs_then) (auto simp: runs_def answered_def log_account_def)
  show "runs held (connect_relay N url) (\<lambda>_. True)" "runs held (env_now N) (\<lambda>_. True)"
    by (simp_all add: connect_relay_def env_now_def query_def held_ask)
qed

lemma held_secrets:
  "runs held (secret_get N name) (\<lambda>_. True)" "runs held (secret_set N name v) (\<lambda>_. True)" "runs held (secret_delete N name) (\<lambda>_. True)"
  "runs held (create_chain N url keys) (\<lambda>_. True)" "runs held (new_id N e n) (\<lambda>_. True)" "runs held (taken_up op) (\<lambda>_. True)"
  "runs held (push_chain N url keys outs) (\<lambda>_. True)"
  by (auto simp: runs_def secret_get_def secret_set_def secret_delete_def create_chain_def new_id_def taken_up_def push_chain_def next_step_def log_account_def
      stepped split: sum.splits option.splits)

lemma held_commit: "runs held (commit_records X N f) (\<lambda>_. True)"
  using runs_in_round [OF commits_records [of f]]
  by (fastforce simp: runs_def commit_records_def log_account_def split: prod.splits sum.splits option.splits)

lemma held_closed: "closes h \<Longrightarrow> runs held (change_core N h) (\<lambda>_. True)"
  unfolding change_core_def by (intro runs_in_round closed_core)

lemma held_attempt: "runs held m (\<lambda>_. True) \<Longrightarrow> runs held (attempt m) (\<lambda>_. True)"
  by (rule runs_attempt)

lemmas held_rules = runs_rules held_ask held_unwrap held_round held_outside held_secrets held_commit held_attempt

end

section \<open>Soundness of memory and disk\<close>

lemma closes_sound: "closes f \<Longrightarrow> sound X U w \<Longrightarrow> sound X U (w\<lparr>w_core := f (w_core w)\<rparr>)"
proof -
  assume f: "closes f" and w: "sound X U w"
  from f consider "f (w_core w) = w_core w"
    | s reason where "f (w_core w) = (w_core w)\<lparr>sc_records := Some s, sc_save_blocked := Some reason\<rparr>" "st_shared_writes_blocked s \<or> st_pending_account s \<noteq> None"
    unfolding closes_def by blast
  then show ?thesis
  proof cases
    case 1
    with w show ?thesis by simp
  next
    case 2
    with w show ?thesis by (auto simp: sound_def Let_def account_writes_blocked_def)
  qed
qed

lemma runs_forget:
  assumes "\<And>earlier. runs (\<lambda>r. I (rd_world r) \<and> (\<exists>new. rd_sent r = earlier @ new \<and> F new)) m Q" "F []"
  shows "runs (\<lambda>r. I (rd_world r)) m (\<lambda>_. True)"
proof (rule runsI)
  fix r x r'
  assume "I (rd_world r)" "m r = (x, r')"
  then show "I (rd_world r') \<and> (\<forall>a. x = Inr a \<longrightarrow> True)"
    using runsD [OF assms(1) [of "rd_sent r"], of r x r'] assms(2) by auto
qed

interpretation kept: device_invariant X N "\<lambda>r. guarded X N \<longrightarrow> sound X N (rd_world r)"
  for X :: "'a merge_ext_scheme" and N :: "('d, 'u) device_env_scheme"
proof (unfold_locales, goal_cases)
  case 1
  show ?case by (rule runs_forget [OF rounds.runs_preflight]) simp
next
  case 2
  show ?case by (rule runs_forget [OF rounds.runs_core_read]) simp
next
  case 3
  show ?case by (rule runs_forget [OF rounds.runs_gate]) simp
next
  case (4 f)
  show ?case by (rule runs_forget [OF rounds.runs_access [where Q = "\<lambda>_. True"]]) (use rounds.commits in \<open>metis snd_conv\<close>, simp)
next
  case (5 h)
  show ?case by (rule runs_forget [OF rounds.runs_access [where Q = "\<lambda>_. True"]]) (use 5 closes_sound in auto)
qed simp_all

section \<open>Uploads\<close>

text \<open>No step of the locale uploads anything.\<close>

definition silent :: "('d, 'b) round_act \<Rightarrow> bool" where
  "silent m \<longleftrightarrow> (\<forall>r x r'. m r = (x, r') \<longrightarrow> rd_sent r' = rd_sent r)"

lemma silent_bind: "silent m \<Longrightarrow> (\<And>a. silent (f a)) \<Longrightarrow> silent (io_bind m f)"
  by (auto simp: silent_def io_bind_def split: prod.splits sum.splits)

lemma silent_access: "silent (access N f)" "silent (ask g)" "silent (query q)"
  by (auto simp: silent_def access_def ask_def query_def split: prod.splits)

lemma silent_result: "silent (io_return a)" "silent (io_fail e)" "silent (io_lift x)"
  by (auto simp: silent_def io_return_def io_fail_def io_lift_def)

lemma silent_preflight: "silent (preflight X N)" "silent (core_read N)"
  unfolding preflight_def core_read_def by (intro silent_bind silent_access)+

lemma silent_gate: "silent (fresh_account_gate X N)"
  unfolding fresh_account_gate_def prepare_account_gate_def publish_prepared_account_gate_def Let_def fail_closed_def
  by (intro silent_bind silent_preflight silent_access silent_result)
     (auto intro!: silent_bind silent_access silent_result split: sum.splits)

lemma silent_runs: "silent m \<Longrightarrow> runs (\<lambda>r. rd_sent r = earlier) m (\<lambda>_. True)"
  by (auto simp: runs_def silent_def)

interpretation unsent: device_invariant X N "\<lambda>r. rd_sent r = earlier"
  for X :: "'a merge_ext_scheme" and N :: "('d, 'u) device_env_scheme" and earlier :: "sent_batch list"
  by unfold_locales (simp_all add: silent_runs silent_preflight silent_gate silent_access)

end
