(* ===== verification/Account_Log.thy ===== *)
theory Account_Log
  imports Account_Laws
begin

text \<open>
  Reasoning about the log of an account operation. Every entry needs a reason in the entries before it; which reason
  is a matter of the operation, and a parameter here. \<open>tells_by R P m Q\<close> says that from a log whose entries all have
  their reason, with the facts \<open>P\<close>, the action \<open>m\<close> ends with such a log, and with the facts \<open>Q\<close> of its result.
\<close>

definition tells_by :: "(account_event list \<Rightarrow> account_event \<Rightarrow> bool) \<Rightarrow> (account_event set \<Rightarrow> bool) \<Rightarrow> ('d, 'a) device_act
    \<Rightarrow> ('a \<Rightarrow> account_event set \<Rightarrow> bool) \<Rightarrow> bool" where
  "tells_by R P m Q \<longleftrightarrow>
     (\<forall>st x st'. explained_by R (dv_log st) \<longrightarrow> P (set (dv_log st)) \<longrightarrow> m st = (x, st') \<longrightarrow>
        explained_by R (dv_log st') \<and> set (dv_log st) \<subseteq> set (dv_log st') \<and> (\<forall>a. x = Inr a \<longrightarrow> Q a (set (dv_log st'))))"

text \<open>An action that does nothing that needs a reason.\<close>

definition keeps_by :: "(account_event list \<Rightarrow> account_event \<Rightarrow> bool) \<Rightarrow> ('d, 'a) device_act \<Rightarrow> bool" where
  "keeps_by R m \<longleftrightarrow> (\<forall>P. mono P \<longrightarrow> tells_by R P m (\<lambda>_. P))"

lemma mutate_records_state:
  assumes "mutate_records X U f w = (Inr g, w')"
  obtains latest c s where "f latest = Inr c" "complete_candidate X U (w_core w) c = Inr s" "sc_records (w_core w') = Some s"
  using assms
  by (auto simp: mutate_records_def persist_candidate_def Let_def split: sum.splits prod.splits)

text \<open>Reading, committing, taking up an operation and fetching a page need no reason.\<close>

locale event_log =
  fixes reason :: "account_event list \<Rightarrow> account_event \<Rightarrow> bool"
  assumes harmless: "reason log (AV_Read name v)" "reason log (AV_Commit s)" "reason log (AV_Resume op)" "reason log (AV_Pull url keys pulled)"
begin

declare harmless [simp]

abbreviation explained :: "account_event list \<Rightarrow> bool" where
  "explained \<equiv> explained_by reason"

abbreviation tells :: "(account_event set \<Rightarrow> bool) \<Rightarrow> ('d, 'a) device_act \<Rightarrow> ('a \<Rightarrow> account_event set \<Rightarrow> bool) \<Rightarrow> bool" where
  "tells \<equiv> tells_by reason"

abbreviation keeps :: "('d, 'a) device_act \<Rightarrow> bool" where
  "keeps \<equiv> keeps_by reason"

lemma tellsI:
  "(\<And>st x st'. explained (dv_log st) \<Longrightarrow> P (set (dv_log st)) \<Longrightarrow> m st = (x, st') \<Longrightarrow>
      explained (dv_log st') \<and> set (dv_log st) \<subseteq> set (dv_log st') \<and> (\<forall>a. x = Inr a \<longrightarrow> Q a (set (dv_log st')))) \<Longrightarrow> tells P m Q"
  by (simp add: tells_by_def)

lemma tells_bind:
  assumes "tells P m Q" "\<And>a. tells (Q a) (f a) R"
  shows "tells P (io_bind m f) R"
proof (rule tellsI)
  fix st x st'
  assume *: "explained (dv_log st)" "P (set (dv_log st))" "io_bind m f st = (x, st')"
  obtain y q where y: "m st = (y, q)" by force
  with assms(1) * have q: "explained (dv_log q)" "set (dv_log st) \<subseteq> set (dv_log q)" "\<And>a. y = Inr a \<Longrightarrow> Q a (set (dv_log q))"
    unfolding tells_by_def by blast+
  show "explained (dv_log st') \<and> set (dv_log st) \<subseteq> set (dv_log st') \<and> (\<forall>a. x = Inr a \<longrightarrow> R a (set (dv_log st')))"
  proof (cases y)
    case (Inl e)
    with * y q show ?thesis by (auto simp: io_bind_def)
  next
    case (Inr a)
    with * y have "f a q = (x, st')" by (simp add: io_bind_def)
    moreover have "tells (Q a) (f a) R" "Q a (set (dv_log q))" using assms(2) q Inr by auto
    ultimately show ?thesis using q(1,2) unfolding tells_by_def by blast
  qed
qed

lemma tells_weaken: "tells P m Q \<Longrightarrow> (\<And>E. P' E \<Longrightarrow> P E) \<Longrightarrow> (\<And>a E. Q a E \<Longrightarrow> Q' a E) \<Longrightarrow> tells P' m Q'"
  unfolding tells_by_def by blast

lemma tells_frame: "tells P m Q \<Longrightarrow> mono R \<Longrightarrow> tells (\<lambda>E. P E \<and> R E) m (\<lambda>a E. Q a E \<and> R E)"
  unfolding tells_by_def by (metis le_boolE monoD)

lemma tells_return: "(\<And>E. P E \<Longrightarrow> Q a E) \<Longrightarrow> tells P (io_return a) Q"
  by (simp add: tells_by_def io_return_def)

lemma tells_fail: "tells P (io_fail e) Q"
  by (simp add: tells_by_def io_fail_def)

lemma tells_lift: "(\<And>E a. x = Inr a \<Longrightarrow> P E \<Longrightarrow> Q a E) \<Longrightarrow> tells P (io_lift x) Q"
  by (simp add: tells_by_def io_lift_def)

lemma tells_in_round: "tells P (in_round f) (\<lambda>_. P)"
  by (auto simp: tells_by_def in_round_def split: prod.splits)

lemma tells_attempt: "tells P m (\<lambda>_. P') \<Longrightarrow> (\<And>E. P E \<Longrightarrow> P' E) \<Longrightarrow> mono P' \<Longrightarrow> tells P (attempt m) (\<lambda>_. P')"
  unfolding tells_by_def attempt_def
  by (auto split: prod.splits sum.splits) (metis (no_types, lifting) le_boolE monoD)+

lemma tells_get: "mono P \<Longrightarrow> tells P (secret_get N name) (\<lambda>v E. AV_Read name v \<in> E \<and> P E)"
  unfolding tells_by_def secret_get_def next_step_def log_account_def
  by (auto intro: fact_insert split: sum.splits)

lemma tells_set: "mono P \<Longrightarrow> (\<And>log. P (set log) \<Longrightarrow> reason log (AV_Set name v)) \<Longrightarrow> tells P (secret_set N name v) (\<lambda>_. P)"
  unfolding tells_by_def secret_set_def next_step_def log_account_def
  by (auto intro: fact_insert)

lemma tells_delete: "mono P \<Longrightarrow> (\<And>log. P (set log) \<Longrightarrow> reason log (AV_Delete name)) \<Longrightarrow> tells P (secret_delete N name) (\<lambda>_. P)"
  unfolding tells_by_def secret_delete_def next_step_def log_account_def
  by (auto intro: fact_insert)

lemma tells_taken_up: "mono P \<Longrightarrow> tells P (taken_up op) (\<lambda>_ E. AV_Resume op \<in> E \<and> P E)"
  unfolding tells_by_def taken_up_def log_account_def
  by (auto intro: fact_insert)

lemma tells_if: "tells P m Q \<Longrightarrow> tells P m' Q \<Longrightarrow> tells P (if c then m else m') Q"
  by simp

lemma tells_commit:
  assumes "mono P"
  shows "tells P (commit_records X N f)
    (\<lambda>_ E. P E \<and> (\<exists>s. AV_Commit s \<in> E \<and> (\<exists>latest core c. f latest = Inr c \<and> complete_candidate X N core c = Inr s)))"
proof (rule tellsI)
  fix st x st'
  assume *: "explained (dv_log st)" "P (set (dv_log st))" "commit_records X N f st = (x, st')"
  let ?r = "dv_round st"
  obtain y w where y: "mutate_records X N f (x_others N (rd_step ?r) (rd_world ?r)) = (y, w)" by force
  let ?st = "st\<lparr>dv_round := ?r\<lparr>rd_world := w, rd_step := rd_step ?r + 1\<rparr>\<rparr>"
  have run: "in_round (access N (mutate_records X N f)) st = (y, ?st)" by (simp add: in_round_def access_def y)
  show "explained (dv_log st') \<and> set (dv_log st) \<subseteq> set (dv_log st') \<and> (\<forall>a. x = Inr a \<longrightarrow> P (set (dv_log st'))
    \<and> (\<exists>s. AV_Commit s \<in> set (dv_log st') \<and> (\<exists>latest core c. f latest = Inr c \<and> complete_candidate X N core c = Inr s)))"
  proof (cases y)
    case (Inl e)
    with * run show ?thesis by (auto simp: commit_records_def)
  next
    case (Inr g)
    with y obtain latest core c s where s: "f latest = Inr c" "complete_candidate X N core c = Inr s" "sc_records (w_core w) = Some s"
      by (metis mutate_records_state)
    with * run Inr have st': "st' = log_account (AV_Commit s) ?st" by (auto simp: commit_records_def)
    have "P (set (dv_log st'))" using monoD [OF assms, of "set (dv_log st)" "set (dv_log st')"] *(2)
      by (auto simp: st' log_account_def le_bool_def)
    with * s show ?thesis by (auto simp: st' log_account_def)
  qed
qed

lemma keepsI: "(\<And>P. mono P \<Longrightarrow> tells P m (\<lambda>_. P)) \<Longrightarrow> keeps m"
  by (simp add: keeps_by_def)

lemma keepsD: "keeps m \<Longrightarrow> mono P \<Longrightarrow> tells P m (\<lambda>_. P)"
  by (simp add: keeps_by_def)

lemma keeps_log_bind: "keeps m \<Longrightarrow> (\<And>a. keeps (f a)) \<Longrightarrow> keeps (io_bind m f)"
  unfolding keeps_by_def by (metis tells_bind)

lemma tells_then: "keeps m \<Longrightarrow> (\<And>a. tells (\<lambda>_. True) (f a) Q) \<Longrightarrow> tells (\<lambda>_. True) (io_bind m f) Q"
  by (rule tells_bind [OF keepsD]) (auto intro: fact_mono)

lemma keeps_return: "keeps (io_return a)"
  and keeps_fail: "keeps (io_fail e)"
  and keeps_lift: "keeps (io_lift x)"
  and keeps_in_round: "keeps (in_round f)"
  by (auto intro!: keepsI tells_return tells_fail tells_lift tells_in_round)

lemma keeps_attempt: "keeps m \<Longrightarrow> keeps (attempt m)"
  by (auto intro!: keepsI tells_attempt dest: keepsD)

lemma keeps_get: "keeps (secret_get N name)"
proof (rule keepsI)
  fix P :: "account_event set \<Rightarrow> bool"
  assume "mono P"
  then show "tells P (secret_get N name) (\<lambda>_. P)" by (rule tells_weaken [OF tells_get]) auto
qed

lemma keeps_commit: "keeps (commit_records X N f)"
proof (rule keepsI)
  fix P :: "account_event set \<Rightarrow> bool"
  assume "mono P"
  then show "tells P (commit_records X N f) (\<lambda>_. P)" by (rule tells_weaken [OF tells_commit]) auto
qed

lemma keeps_if: "(c \<Longrightarrow> keeps m) \<Longrightarrow> (\<not> c \<Longrightarrow> keeps m') \<Longrightarrow> keeps (if c then m else m')"
  by simp

lemma keeps_option: "keeps m \<Longrightarrow> (\<And>a. keeps (f a)) \<Longrightarrow> keeps (case x of None \<Rightarrow> m | Some a \<Rightarrow> f a)"
  by (cases x) simp_all

lemma keeps_sum: "(\<And>e. keeps (g e)) \<Longrightarrow> (\<And>b. keeps (h b)) \<Longrightarrow> keeps (case y of Inl e \<Rightarrow> g e | Inr b \<Rightarrow> h b)"
  by (cases y) simp_all

lemmas keeps_rules = keeps_log_bind keeps_return keeps_fail keeps_lift keeps_in_round keeps_attempt keeps_get keeps_commit keeps_if keeps_option keeps_sum

lemma tells_attempt_get:
  assumes "mono R"
  shows "tells R (attempt (secret_get N name)) (\<lambda>r E. (\<forall>v. r = Inr v \<longrightarrow> AV_Read name v \<in> E) \<and> R E)"
proof (rule tellsI)
  fix st x and st' :: "'a device"
  assume *: "explained (dv_log st)" "R (set (dv_log st))" "attempt (secret_get N name) st = (x, st')"
  have "R (insert e (set (dv_log st)))" for e
    using monoD [OF assms, of "set (dv_log st)" "insert e (set (dv_log st))"] *(2) by (auto simp: le_bool_def)
  with * show "explained (dv_log st') \<and> set (dv_log st) \<subseteq> set (dv_log st')
      \<and> (\<forall>a. x = Inr a \<longrightarrow> (\<forall>v. a = Inr v \<longrightarrow> AV_Read name v \<in> set (dv_log st')) \<and> R (set (dv_log st')))"
    by (cases "x_secret_get N (rd_step (dv_round st)) name")
       (auto simp: attempt_def secret_get_def next_step_def log_account_def split: if_splits)
qed

lemma keeps_new_id: "keeps (new_id N e n)"
  by (auto simp: keeps_by_def tells_by_def new_id_def next_step_def split: sum.splits)

text \<open>The page that a pull returns is in the log.\<close>

lemma tells_pull: "mono P \<Longrightarrow> tells P (pull_chain N url keys) (\<lambda>pulled E. AV_Pull url keys pulled \<in> E \<and> P E)"
  unfolding pull_chain_def
  by (rule tells_bind [OF tells_in_round])
     (auto simp: tells_by_def answered_def log_account_def intro: fact_insert)

lemma keeps_pull: "keeps (pull_chain N url keys)"
proof (rule keepsI)
  fix P :: "account_event set \<Rightarrow> bool"
  assume "mono P"
  then show "tells P (pull_chain N url keys) (\<lambda>_. P)" by (rule tells_weaken [OF tells_pull]) auto
qed

lemma keeps_world: "keeps (pull_chain N url keys)" "keeps (connect_relay N url)" "keeps (env_now N)" "keeps (change_core N f)"
  by (simp_all add: keeps_pull connect_relay_def env_now_def change_core_def keeps_in_round)

end

end
