(* ===== verification/Leave_Properties.thy ===== *)
theory Leave_Properties
  imports Record_Leave Account_Log
begin

text \<open>
  Leaving an account loses nothing and gives nothing away: every live host and group of the selected spaces is in the
  local library afterwards, with the references between them kept; passwords are only copied, never over another
  one; nothing is uploaded; the sync code is removed last.
\<close>

section \<open>What a valid plan says\<close>

lemma live_or_Inr [simp]: "live_or e1 e2 r = Inr v \<longleftrightarrow> r = Inr (Live v)"
  by (cases r) (auto simp: live_or_def map_err_def split: typed_record.splits)

definition remapped_host :: "leave_plan \<Rightarrow> rstr \<Rightarrow> host_payload \<Rightarrow> host_payload" where
  "remapped_host plan a p =
     p\<lparr>hp_alias := a, hp_group_id := map_option (remap_jump (group_remap_table plan)) (hp_group_id p),
       hp_jump := map (remap_jump (host_remap_table plan)) (hp_jump p)\<rparr>"

definition remapped_group :: "leave_plan \<Rightarrow> rstr \<Rightarrow> group_payload \<Rightarrow> group_payload" where
  "remapped_group plan name p =
     p\<lparr>gp_name := name, gp_parent_id := map_option (remap_jump (group_remap_table plan)) (gp_parent_id p),
       gp_defaults := (gp_defaults p)\<lparr>gd_jump := map_option (map (remap_jump (host_remap_table plan))) (gd_jump (gp_defaults p))\<rparr>\<rparr>"

text \<open>A planned host is its source under another identity.\<close>

definition copies_host :: "'a record_ext_scheme \<Rightarrow> leave_plan \<Rightarrow> planned_host \<Rightarrow> local_record \<Rightarrow> bool" where
  "copies_host X plan h row \<longleftrightarrow>
     (\<exists>old a. decode_host X (lr_record row) HS_Local = Inr (Live old)
        \<and> r_id (lr_record row) = rmap_source_host_id (ph_mapping h)
        \<and> a \<in> {hp_alias (hr_payload old), hp_alias (hr_payload old) @ lit ''-'' @ rmap_local_host_id (ph_mapping h)}
        \<and> decode_host X (lr_record (ph_local h)) HS_Local
          = Inr (Live \<lparr>hr_id = rmap_local_host_id (ph_mapping h), hr_scope = HS_Local, hr_payload = remapped_host plan a (hr_payload old)\<rparr>))"

definition copies_group :: "'a record_ext_scheme \<Rightarrow> leave_plan \<Rightarrow> planned_group \<Rightarrow> local_record \<Rightarrow> bool" where
  "copies_group X plan g row \<longleftrightarrow>
     (\<exists>old name. decode_group X (lr_record row) HS_Local = Inr (Live old)
        \<and> name \<in> {gp_name (gr_payload old), remapped_group_name (gp_name (gr_payload old)) (pg_local_group_id g)}
        \<and> decode_group X (lr_record (pg_local g)) HS_Local
          = Inr (Live \<lparr>gr_id = pg_local_group_id g, gr_scope = HS_Local, gr_payload = remapped_group plan name (gr_payload old)\<rparr>))"

lemma decode_host_scope: "decode_host X rec scope = Inr (Live h) \<Longrightarrow> hr_scope h = scope \<and> hr_id h = r_id rec \<and> r_kind rec = RK_Host \<and> \<not> r_deleted rec"
  by (auto simp: decode_host_def Let_def split: if_splits)

lemma decode_group_scope: "decode_group X rec scope = Inr (Live g) \<Longrightarrow> gr_scope g = scope \<and> gr_id g = r_id rec \<and> r_kind rec = RK_Group \<and> \<not> r_deleted rec"
  by (auto simp: decode_group_def Let_def split: if_splits)

lemma leave_host_Inr:
  assumes "leave_host X plan (ids, sources) h = Inr (ids', sources')"
  obtains sp row where
    "rmap_local_host_id (ph_mapping h) \<notin> ids" "(rmap_source_space_id (ph_mapping h), rmap_source_host_id (ph_mapping h)) \<notin> sources"
    "ids' = insert (rmap_local_host_id (ph_mapping h)) ids"
    "sources' = insert (rmap_source_space_id (ph_mapping h), rmap_source_host_id (ph_mapping h)) sources"
    "bt_get (lp_source_spaces plan) (rmap_source_space_id (ph_mapping h)) = Some sp"
    "bt_get (sp_records sp) (record_key RK_Host (rmap_source_host_id (ph_mapping h))) = Some row" "\<not> r_deleted (lr_record row)"
    "copies_host X plan h row"
proof -
  let ?m = "ph_mapping h"
  from assms obtain row local old p where f:
    "rmap_local_host_id ?m \<notin> ids" "(rmap_source_space_id ?m, rmap_source_host_id ?m) \<notin> sources"
    "ids' = insert (rmap_local_host_id ?m) ids" "sources' = insert (rmap_source_space_id ?m, rmap_source_host_id ?m) sources"
    "opt_filter (\<lambda>r. \<not> r_deleted (lr_record r)) (Option.bind (bt_get (lp_source_spaces plan) (rmap_source_space_id ?m)) (\<lambda>s.
       bt_get (sp_records s) (record_key RK_Host (rmap_source_host_id ?m)))) = Some row"
    "decode_host X (lr_record (ph_local h)) HS_Local = Inr (Live local)" "decode_host X (lr_record row) HS_Local = Inr (Live old)"
    "rmap_alias ?m = hp_alias (hr_payload old) \<or> rmap_alias ?m = hp_alias (hr_payload old) @ lit ''-'' @ rmap_local_host_id ?m"
    and p: "(case hp_group_id (hr_payload old) of None \<Rightarrow> Inr ((hr_payload old)\<lparr>hp_alias := rmap_alias ?m\<rparr>)
       | Some i \<Rightarrow> rbind (ok_or (leave_error ''missing preserved group'') (bt_get (group_remap_table plan) i)) (\<lambda>j.
                   Inr ((hr_payload old)\<lparr>hp_alias := rmap_alias ?m, hp_group_id := Some j\<rparr>))) = Inr p"
    "hr_payload local = p\<lparr>hp_jump := map (remap_jump (host_remap_table plan)) (hp_jump p)\<rparr>"
    "hr_id local = rmap_local_host_id ?m" "r_id (lr_record row) = rmap_source_host_id ?m"
    by (auto simp: leave_host_def Let_def)
  have "hr_payload local = remapped_host plan (rmap_alias ?m) (hr_payload old)"
    using p(1) unfolding p(2) by (cases "hp_group_id (hr_payload old)") (auto simp: remapped_host_def remap_jump_def)
  then have "local = \<lparr>hr_id = rmap_local_host_id ?m, hr_scope = HS_Local, hr_payload = remapped_host plan (rmap_alias ?m) (hr_payload old)\<rparr>"
    using decode_host_scope [OF f(6)] p(3) by (cases local) simp
  with f p(4) have "copies_host X plan h row" unfolding copies_host_def by blast
  with f(1-5) that show thesis by (auto simp: opt_filter_def split: option.splits if_splits bind_splits)
qed

lemma leave_group_Inr:
  assumes "leave_group X plan (ids, sources) g = Inr (ids', sources')"
  obtains sp row where
    "pg_local_group_id g \<notin> ids" "(pg_source_space_id g, pg_source_group_id g) \<notin> sources"
    "ids' = insert (pg_local_group_id g) ids" "sources' = insert (pg_source_space_id g, pg_source_group_id g) sources"
    "bt_get (lp_source_spaces plan) (pg_source_space_id g) = Some sp"
    "bt_get (sp_records sp) (record_key RK_Group (pg_source_group_id g)) = Some row" "\<not> r_deleted (lr_record row)"
    "copies_group X plan g row"
proof -
  from assms obtain row local old p where f:
    "pg_local_group_id g \<notin> ids" "(pg_source_space_id g, pg_source_group_id g) \<notin> sources"
    "ids' = insert (pg_local_group_id g) ids" "sources' = insert (pg_source_space_id g, pg_source_group_id g) sources"
    "Option.bind (bt_get (lp_source_spaces plan) (pg_source_space_id g)) (\<lambda>s.
       bt_get (sp_records s) (record_key RK_Group (pg_source_group_id g))) = Some row"
    "decode_group X (lr_record (pg_local g)) HS_Local = Inr (Live local)" "decode_group X (lr_record row) HS_Local = Inr (Live old)"
    and p: "(case gp_parent_id (gr_payload old) of None \<Rightarrow> Inr (gr_payload old)
       | Some i \<Rightarrow> rbind (ok_or (leave_error ''missing preserved parent'') (bt_get (group_remap_table plan) i)) (\<lambda>j.
                   Inr ((gr_payload old)\<lparr>gp_parent_id := Some j\<rparr>))) = Inr p"
    "gp_name (gr_payload local) = gp_name p \<or> gp_name (gr_payload local) = remapped_group_name (gp_name p) (pg_local_group_id g)"
    "gr_payload local = p\<lparr>gp_defaults := (gp_defaults p)\<lparr>gd_jump := map_option (map (remap_jump (host_remap_table plan))) (gd_jump (gp_defaults p))\<rparr>,
       gp_name := gp_name (gr_payload local)\<rparr>"
    "gr_id local = pg_local_group_id g"
    by (auto simp: leave_group_def Let_def)
  have n: "gp_name p = gp_name (gr_payload old)"
    using p(1) by (cases "gp_parent_id (gr_payload old)") auto
  have "gr_payload local = remapped_group plan (gp_name (gr_payload local)) (gr_payload old)"
    by (subst p(3)) (use p(1) in \<open>cases "gp_parent_id (gr_payload old)"; auto simp: remapped_group_def remap_jump_def\<close>)
  then have "local = \<lparr>gr_id = pg_local_group_id g, gr_scope = HS_Local, gr_payload = remapped_group plan (gp_name (gr_payload local)) (gr_payload old)\<rparr>"
    using decode_group_scope [OF f(6)] p(4) by (cases local) simp
  with f p(2) n have c: "copies_group X plan g row" unfolding copies_group_def by (metis insert_iff)
  have "\<not> r_deleted (lr_record row)" using decode_group_scope [OF f(7)] by simp
  with f(1-5) c that show thesis by (auto split: bind_splits)
qed

text \<open>Where a planned item comes from: its space and the key of its row there.\<close>

definition host_origin :: "planned_host \<Rightarrow> rstr \<times> rstr" where
  "host_origin h = (rmap_source_space_id (ph_mapping h), record_key RK_Host (rmap_source_host_id (ph_mapping h)))"

definition group_origin :: "planned_group \<Rightarrow> rstr \<times> rstr" where
  "group_origin g = (pg_source_space_id g, record_key RK_Group (pg_source_group_id g))"

definition live_keys :: "(rstr, space_state) btm \<Rightarrow> (rstr \<times> rstr) list" where
  "live_keys spaces = concat (map (\<lambda>(sid, sp). map (\<lambda>(k, _). (sid, k)) (filter (\<lambda>(_, r). \<not> r_deleted (lr_record r)) (sp_records sp))) spaces)"

lemma length_live_keys: "length (live_keys spaces) = live_rows spaces"
  by (induction spaces)
     (auto simp: live_keys_def live_rows_def bt_values_def filter_map comp_def case_prod_unfold)

lemma live_keys_iff:
  assumes "bt_inv spaces" "\<forall>(sid, sp) \<in> set spaces. bt_inv (sp_records sp)"
  shows "(sid, k) \<in> set (live_keys spaces) \<longleftrightarrow>
    (\<exists>sp row. bt_get spaces sid = Some sp \<and> bt_get (sp_records sp) k = Some row \<and> \<not> r_deleted (lr_record row))"
  using assms by (auto simp: live_keys_def bt_get_iff) (force simp: bt_get_iff)+

lemma hosts_planned:
  assumes "for_each (leave_host X plan) (ids, sources) hs = Inr (ids', sources')"
  shows "distinct (map (\<lambda>h. (rmap_source_space_id (ph_mapping h), rmap_source_host_id (ph_mapping h))) hs)
    \<and> distinct (map (\<lambda>h. rmap_local_host_id (ph_mapping h)) hs)
    \<and> ids' = ids \<union> (\<lambda>h. rmap_local_host_id (ph_mapping h)) ` set hs \<and> ids \<inter> (\<lambda>h. rmap_local_host_id (ph_mapping h)) ` set hs = {}
    \<and> sources' = sources \<union> (\<lambda>h. (rmap_source_space_id (ph_mapping h), rmap_source_host_id (ph_mapping h))) ` set hs
    \<and> sources \<inter> (\<lambda>h. (rmap_source_space_id (ph_mapping h), rmap_source_host_id (ph_mapping h))) ` set hs = {}
    \<and> (\<forall>h \<in> set hs. \<exists>sp row. bt_get (lp_source_spaces plan) (fst (host_origin h)) = Some sp
         \<and> bt_get (sp_records sp) (snd (host_origin h)) = Some row \<and> \<not> r_deleted (lr_record row) \<and> copies_host X plan h row)"
  using assms
proof (induction hs arbitrary: ids sources)
  case (Cons h hs)
  then obtain i so where step: "leave_host X plan (ids, sources) h = Inr (i, so)" and rest: "for_each (leave_host X plan) (i, so) hs = Inr (ids', sources')"
    by (cases "leave_host X plan (ids, sources) h") auto
  from leave_host_Inr [OF step] obtain sp row where h:
    "rmap_local_host_id (ph_mapping h) \<notin> ids" "(rmap_source_space_id (ph_mapping h), rmap_source_host_id (ph_mapping h)) \<notin> sources"
    "i = insert (rmap_local_host_id (ph_mapping h)) ids"
    "so = insert (rmap_source_space_id (ph_mapping h), rmap_source_host_id (ph_mapping h)) sources"
    "bt_get (lp_source_spaces plan) (fst (host_origin h)) = Some sp"
    "bt_get (sp_records sp) (snd (host_origin h)) = Some row" "\<not> r_deleted (lr_record row)" "copies_host X plan h row"
    by (auto simp: host_origin_def)
  from Cons.IH [OF rest] h show ?case by auto
qed simp

lemma groups_planned:
  assumes "for_each (leave_group X plan) (ids, sources) gs = Inr (ids', sources')"
  shows "distinct (map (\<lambda>g. (pg_source_space_id g, pg_source_group_id g)) gs) \<and> distinct (map pg_local_group_id gs)
    \<and> ids \<inter> pg_local_group_id ` set gs = {} \<and> sources \<inter> (\<lambda>g. (pg_source_space_id g, pg_source_group_id g)) ` set gs = {}
    \<and> (\<forall>g \<in> set gs. \<exists>sp row. bt_get (lp_source_spaces plan) (fst (group_origin g)) = Some sp
         \<and> bt_get (sp_records sp) (snd (group_origin g)) = Some row \<and> \<not> r_deleted (lr_record row) \<and> copies_group X plan g row)"
  using assms
proof (induction gs arbitrary: ids sources)
  case (Cons g gs)
  then obtain i so where step: "leave_group X plan (ids, sources) g = Inr (i, so)" and rest: "for_each (leave_group X plan) (i, so) gs = Inr (ids', sources')"
    by (cases "leave_group X plan (ids, sources) g") auto
  from leave_group_Inr [OF step] obtain sp row where g:
    "pg_local_group_id g \<notin> ids" "(pg_source_space_id g, pg_source_group_id g) \<notin> sources"
    "i = insert (pg_local_group_id g) ids" "so = insert (pg_source_space_id g, pg_source_group_id g) sources"
    "bt_get (lp_source_spaces plan) (fst (group_origin g)) = Some sp"
    "bt_get (sp_records sp) (snd (group_origin g)) = Some row" "\<not> r_deleted (lr_record row)" "copies_group X plan g row"
    by (auto simp: group_origin_def)
  from Cons.IH [OF rest] g show ?case by auto
qed simp

lemma plan_validated:
  assumes "validate_leave_plan X plan = Inr ()"
  obtains ids sources ids' sources' where "for_each (leave_host X plan) ({}, {}) (lp_hosts plan) = Inr (ids, sources)"
    "for_each (leave_group X plan) (ids, sources) (lp_groups plan) = Inr (ids', sources')"
    "live_rows (lp_source_spaces plan) = length (lp_hosts plan) + length (lp_groups plan)"
  using assms by (force simp: validate_leave_plan_def)

lemma plan_host_copies:
  assumes "validate_leave_plan X plan = Inr ()" "h \<in> set (lp_hosts plan)"
  shows "\<exists>sp row. bt_get (lp_source_spaces plan) (fst (host_origin h)) = Some sp
    \<and> bt_get (sp_records sp) (snd (host_origin h)) = Some row \<and> \<not> r_deleted (lr_record row) \<and> copies_host X plan h row"
  by (rule plan_validated [OF assms(1)]) (use assms(2) hosts_planned in blast)

lemma plan_group_copies:
  assumes "validate_leave_plan X plan = Inr ()" "g \<in> set (lp_groups plan)"
  shows "\<exists>sp row. bt_get (lp_source_spaces plan) (fst (group_origin g)) = Some sp
    \<and> bt_get (sp_records sp) (snd (group_origin g)) = Some row \<and> \<not> r_deleted (lr_record row) \<and> copies_group X plan g row"
  by (rule plan_validated [OF assms(1)]) (use assms(2) groups_planned in blast)

text \<open>A valid plan has exactly one item per live row: the items have different rows, and there are as many of them.\<close>

lemma plan_covers:
  assumes "validate_leave_plan X plan = Inr ()" "bt_inv (lp_source_spaces plan)" "\<forall>(sid, sp) \<in> set (lp_source_spaces plan). bt_inv (sp_records sp)"
  shows "set (live_keys (lp_source_spaces plan)) = host_origin ` set (lp_hosts plan) \<union> group_origin ` set (lp_groups plan)"
proof -
  let ?o = "map host_origin (lp_hosts plan) @ map group_origin (lp_groups plan)"
  obtain ids sources ids' sources' where v: "for_each (leave_host X plan) ({}, {}) (lp_hosts plan) = Inr (ids, sources)"
    "for_each (leave_group X plan) (ids, sources) (lp_groups plan) = Inr (ids', sources')"
    "live_rows (lp_source_spaces plan) = length (lp_hosts plan) + length (lp_groups plan)"
    by (rule plan_validated [OF assms(1)])
  note h = hosts_planned [OF v(1)] and g = groups_planned [OF v(2)]
  have "inj_on (\<lambda>h. (rmap_source_space_id (ph_mapping h), rmap_source_host_id (ph_mapping h))) (set (lp_hosts plan))"
    and "distinct (lp_hosts plan)" using h by (simp_all add: distinct_map)
  then have dh: "distinct (map host_origin (lp_hosts plan))"
    by (auto simp: distinct_map host_origin_def inj_on_def record_key_def)
  have "inj_on (\<lambda>g. (pg_source_space_id g, pg_source_group_id g)) (set (lp_groups plan))"
    and "distinct (lp_groups plan)" using g by (simp_all add: distinct_map)
  then have dg: "distinct (map group_origin (lp_groups plan))"
    by (auto simp: distinct_map group_origin_def inj_on_def record_key_def)
  have "distinct ?o" using dh dg by (auto simp: host_origin_def group_origin_def record_key_def lit_def)
  moreover have sub: "set ?o \<subseteq> set (live_keys (lp_source_spaces plan))"
  proof
    fix p
    assume "p \<in> set ?o"
    then consider h where "h \<in> set (lp_hosts plan)" "p = host_origin h" | g where "g \<in> set (lp_groups plan)" "p = group_origin g" by auto
    then show "p \<in> set (live_keys (lp_source_spaces plan))"
    proof cases
      case 1
      with h show ?thesis using live_keys_iff [OF assms(2,3), of "fst p" "snd p"] by auto
    next
      case 2
      with g show ?thesis using live_keys_iff [OF assms(2,3), of "fst p" "snd p"] by auto
    qed
  qed
  moreover have "length ?o = length (live_keys (lp_source_spaces plan))" using v(3) by (simp add: length_live_keys)
  ultimately have "set ?o = set (live_keys (lp_source_spaces plan))"
    by (intro card_seteq [OF List.finite_set sub]) (metis card_length distinct_card)
  then show ?thesis by simp
qed

section \<open>The commit that drops the account\<close>

lemma occupy_Inr:
  assumes "occupy what rows m = Inr m'"
  shows "(bt_get m k = Some r \<longrightarrow> bt_get m' k = Some r) \<and> ((k, r) \<in> set rows \<longrightarrow> bt_get m' k = Some r)"
  using assms
proof (induction rows arbitrary: m)
  case (Cons p rows)
  obtain j q where p: "p = (j, q)" by fastforce
  with Cons.prems have j: "bt_get m j = None" "occupy what rows (bt_insert j q m) = Inr m'"
    by (auto simp: bt_contains_def split: if_splits option.splits)
  from Cons.IH [OF j(2)] have IH: "(bt_get (bt_insert j q m) k = Some r \<longrightarrow> bt_get m' k = Some r) \<and> ((k, r) \<in> set rows \<longrightarrow> bt_get m' k = Some r)" .
  with j(1) show ?case by (auto simp: p split: if_splits)
qed simp

lemma detach_transform_Inr:
  assumes "detach_transform X op plan latest = Inr s"
  shows "st_account s = None" "st_spaces s = []" "st_pending_account s = Some (op\<lparr>po_phase := PP_Activated\<rparr>)"
    "map_option po_id (st_pending_account latest) = Some (po_id op)"
    "occupy ''planned local identity became occupied''
       (map (\<lambda>h. (record_key RK_Host (rmap_local_host_id (ph_mapping h)), ph_local h)) (lp_hosts plan)) (ls_hosts (st_local latest)) = Inr (ls_hosts (st_local s))"
    "occupy ''planned group identity became occupied''
       (map (\<lambda>g. (record_key RK_Group (pg_local_group_id g), pg_local g)) (lp_groups plan)) (ls_groups (st_local latest)) = Inr (ls_groups (st_local s))"
    "ls_group_order (st_local s) = map (remap_group_id plan) (ov_ids (view_order X latest))"
    "\<exists>all effective. local_hosts X s = Inr all \<and> validate_hosts X effective = Inr () \<and> length effective = length all"
proof -
  have len: "collect_all f xs = Inr ys \<Longrightarrow> length ys = length xs" for f :: "host_record \<Rightarrow> repository_error + host_record" and xs ys
    by (induction xs arbitrary: ys) auto
  then show "\<exists>all effective. local_hosts X s = Inr all \<and> validate_hosts X effective = Inr () \<and> length effective = length all"
    using assms by (fastforce simp: detach_transform_def Let_def local_hosts_def split: if_splits)
qed (use assms in \<open>auto simp: detach_transform_def Let_def split: if_splits\<close>)

text \<open>C27. Leaving loses nothing: the commit that drops the account keeps every local host and group as it is, and puts a copy of
  every live host and group of the planned spaces beside them, under the identity the plan gives it, with its name
  kept or extended by that identity and its group and its jump hosts pointing to the copies of what they pointed to.\<close>

theorem leaving_loses_nothing:
  assumes "validate_leave_plan X plan = Inr ()" "detach_transform X op plan latest = Inr s"
    and "bt_inv (lp_source_spaces plan)" "\<forall>(sid, sp) \<in> set (lp_source_spaces plan). bt_inv (sp_records sp)"
  shows "st_account s = None \<and> st_spaces s = []
    \<and> (\<forall>k r. bt_get (ls_hosts (st_local latest)) k = Some r \<longrightarrow> bt_get (ls_hosts (st_local s)) k = Some r)
    \<and> (\<forall>k r. bt_get (ls_groups (st_local latest)) k = Some r \<longrightarrow> bt_get (ls_groups (st_local s)) k = Some r)
    \<and> (\<forall>sid sp key row. bt_get (lp_source_spaces plan) sid = Some sp \<and> bt_get (sp_records sp) key = Some row \<and> \<not> r_deleted (lr_record row) \<longrightarrow>
        (\<exists>h \<in> set (lp_hosts plan). host_origin h = (sid, key) \<and> copies_host X plan h row
           \<and> bt_get (ls_hosts (st_local s)) (record_key RK_Host (rmap_local_host_id (ph_mapping h))) = Some (ph_local h))
        \<or> (\<exists>g \<in> set (lp_groups plan). group_origin g = (sid, key) \<and> copies_group X plan g row
           \<and> bt_get (ls_groups (st_local s)) (record_key RK_Group (pg_local_group_id g)) = Some (pg_local g)))"
proof -
  note d = detach_transform_Inr [OF assms(2)]
  have 1: "st_account s = None \<and> st_spaces s = []" using d by simp
  have 2: "bt_get (ls_hosts (st_local s)) k = Some r" if "bt_get (ls_hosts (st_local latest)) k = Some r" for k r
    using occupy_Inr [OF d(5)] that by blast
  have 3: "bt_get (ls_groups (st_local s)) k = Some r" if "bt_get (ls_groups (st_local latest)) k = Some r" for k r
    using occupy_Inr [OF d(6)] that by blast
  have 4: "(\<exists>h \<in> set (lp_hosts plan). host_origin h = (sid, key) \<and> copies_host X plan h row
         \<and> bt_get (ls_hosts (st_local s)) (record_key RK_Host (rmap_local_host_id (ph_mapping h))) = Some (ph_local h))
      \<or> (\<exists>g \<in> set (lp_groups plan). group_origin g = (sid, key) \<and> copies_group X plan g row
         \<and> bt_get (ls_groups (st_local s)) (record_key RK_Group (pg_local_group_id g)) = Some (pg_local g))"
    if row: "bt_get (lp_source_spaces plan) sid = Some sp" "bt_get (sp_records sp) key = Some row" "\<not> r_deleted (lr_record row)" for sid sp key row
  proof -
    from row have "(sid, key) \<in> host_origin ` set (lp_hosts plan) \<union> group_origin ` set (lp_groups plan)"
      using plan_covers [OF assms(1,3,4)] live_keys_iff [OF assms(3,4), of sid key] by blast
    then consider h where "h \<in> set (lp_hosts plan)" "host_origin h = (sid, key)" | g where "g \<in> set (lp_groups plan)" "group_origin g = (sid, key)" by force
    then show "(\<exists>h \<in> set (lp_hosts plan). host_origin h = (sid, key) \<and> copies_host X plan h row
           \<and> bt_get (ls_hosts (st_local s)) (record_key RK_Host (rmap_local_host_id (ph_mapping h))) = Some (ph_local h))
        \<or> (\<exists>g \<in> set (lp_groups plan). group_origin g = (sid, key) \<and> copies_group X plan g row
           \<and> bt_get (ls_groups (st_local s)) (record_key RK_Group (pg_local_group_id g)) = Some (pg_local g))"
    proof cases
      case 1
      with plan_host_copies [OF assms(1)] row have "copies_host X plan h row" by fastforce
      moreover have "bt_get (ls_hosts (st_local s)) (record_key RK_Host (rmap_local_host_id (ph_mapping h))) = Some (ph_local h)"
        using occupy_Inr [OF d(5)] 1(1) by force
      ultimately show ?thesis using 1 by blast
    next
      case 2
      with plan_group_copies [OF assms(1)] row have "copies_group X plan g row" by fastforce
      moreover have "bt_get (ls_groups (st_local s)) (record_key RK_Group (pg_local_group_id g)) = Some (pg_local g)"
        using occupy_Inr [OF d(6)] 2(1) by force
      ultimately show ?thesis using 2 by blast
    qed
  qed
  from 1 2 3 4 show ?thesis by blast
qed

section \<open>What the log says\<close>

text \<open>The state has no account any more and holds a row for everything the operation planned to keep.\<close>

definition preserved :: "pending_account_operation \<Rightarrow> sync_state \<Rightarrow> bool" where
  "preserved op s \<longleftrightarrow> st_account s = None \<and> st_spaces s = []
     \<and> (\<forall>plan. po_leave op = Some plan \<longrightarrow>
          (\<forall>h \<in> set (lp_hosts plan). bt_contains (ls_hosts (st_local s)) (record_key RK_Host (rmap_local_host_id (ph_mapping h))))
          \<and> (\<forall>g \<in> set (lp_groups plan). bt_contains (ls_groups (st_local s)) (record_key RK_Group (pg_local_group_id g))))"

text \<open>Why an operation that leaves may do something, given what it did before.\<close>

fun explains :: "account_event list \<Rightarrow> account_event \<Rightarrow> bool" where
  "explains before (AV_Delete name) =
     (name = MNEMONIC_ACCOUNT
      \<and> (\<exists>op. AV_Resume op \<in> set before \<and> (po_phase op = PP_Activated \<or> (\<exists>s. AV_Commit s \<in> set before \<and> preserved op s))))"
| "explains before (AV_Set name v) =
     (\<exists>op plan h. AV_Resume op \<in> set before \<and> po_leave op = Some plan \<and> h \<in> set (lp_hosts plan)
        \<and> name = host_password (rmap_local_host_id (ph_mapping h))
        \<and> AV_Read (host_password (rmap_source_host_id (ph_mapping h))) (Some v) \<in> set before \<and> AV_Read name None \<in> set before)"
| "explains before (AV_Chain i) = False"
| "explains before (AV_Freeze i) = False"
| "explains before (AV_Push i outs) = False"
| "explains before _ = True"

interpretation leaves: event_log explains
  by unfold_locales simp_all

lemma keeps_outside: "leaves.keeps (pull_chain N url keys)" "leaves.keeps (connect_relay N url)" "leaves.keeps (env_now N)" "leaves.keeps (change_core N f)" "leaves.keeps (leave_store X N op)"
  by (simp_all add: leaves.keeps_pull connect_relay_def env_now_def change_core_def leave_store_def leaves.keeps_in_round leaves.keeps_commit)

lemma keeps_ensure_latest: "leaves.keeps (ensure_latest X N op)"
  unfolding ensure_latest_def by (intro leaves.keeps_rules)

lemma keeps_leave_proof: "leaves.keeps (leave_proof X N op)"
  unfolding leave_proof_def detached_proof_def Let_def by (intro leaves.keeps_rules keeps_outside)

lemma keeps_source_loop: "leaves.keeps (source_loop X N url account keys out rest)"
  by (induction X N url account keys out rest rule: source_loop.induct)
     (auto simp: source_space_def Let_def intro!: leaves.keeps_rules keeps_outside)

lemma keeps_source_spaces: "leaves.keeps (source_spaces X N account keys sections)"
  unfolding source_spaces_def by (intro leaves.keeps_rules keeps_outside keeps_source_loop)

lemma keeps_check_unchanged: "leaves.keeps (check_unchanged expected rest)"
  by (induction expected rest rule: check_unchanged.induct) (auto intro!: leaves.keeps_rules)

lemma keeps_fresh_id: "leaves.keeps (fresh_id N k used)"
  by (induction k) (simp_all add: leave_new_id_def leaves.keeps_rules leaves.keeps_new_id)

lemma keeps_assign_ids: "leaves.keeps (assign_ids N local_ids used remap rows rest)"
  by (induction N local_ids used remap rows rest rule: assign_ids.induct) (auto simp: Let_def intro!: leaves.keeps_rules keeps_fresh_id)

lemma keeps_leave_plan_of: "leaves.keeps (leave_plan_of X N s spaces)"
  unfolding leave_plan_of_def Let_def
  by (intro leaves.keeps_rules keeps_outside) (auto intro!: leaves.keeps_rules keeps_outside keeps_assign_ids)

section \<open>Passwords and the sync code\<close>

lemma copy_password_tells:
  assumes "mono P" "\<And>E. P E \<Longrightarrow> \<exists>op0 plan. AV_Resume op0 \<in> E \<and> po_leave op0 = Some plan \<and> h \<in> set (lp_hosts plan)"
  shows "leaves.tells P (copy_password X N op h) (\<lambda>op' E. P E \<and> op' = password_receipt (rmap_local_host_id (ph_mapping h)) op)"
proof -
  let ?s = "host_password (rmap_source_host_id (ph_mapping h))" and ?t = "host_password (rmap_local_host_id (ph_mapping h))"
  let ?A = "\<lambda>r E. (\<forall>v. r = Inr v \<longrightarrow> AV_Read ?s v \<in> E) \<and> P E"
  let ?B = "\<lambda>a r E. (\<forall>v. r = Inr v \<longrightarrow> AV_Read ?t v \<in> E) \<and> AV_Read ?s a \<in> E \<and> P E"
  have lift: "leaves.tells (\<lambda>E. (\<forall>v. r = Inr v \<longrightarrow> F v E) \<and> R E) (io_lift (map_err g r)) (\<lambda>v E. F v E \<and> R E)" for r :: "app_error + rstr option" and F R g
    by (rule leaves.tells_lift) auto
  note step = leaves.tells_bind [OF leaves.keepsD [OF keeps_ensure_latest]] leaves.tells_bind [OF leaves.tells_attempt_get] leaves.tells_bind [OF lift]
  have set: "leaves.tells (\<lambda>E. AV_Read ?t None \<in> E \<and> AV_Read ?s (Some v) \<in> E \<and> P E) (attempt (secret_set N ?t v)) (\<lambda>_ E. P E)" for v
  proof -
    have "leaves.tells (\<lambda>E. AV_Read ?t None \<in> E \<and> AV_Read ?s (Some v) \<in> E \<and> P E) (attempt (secret_set N ?t v))
       (\<lambda>_ E. AV_Read ?t None \<in> E \<and> AV_Read ?s (Some v) \<in> E \<and> P E)"
      using assms by (intro leaves.tells_attempt leaves.tells_set fact_mono) (auto, blast)
    then show ?thesis by (rule leaves.tells_weaken) auto
  qed
  have last: "leaves.tells P (io_bind (leave_store X N op') (\<lambda>_. io_return op')) (\<lambda>r E. P E \<and> r = op')" for op'
    by (rule leaves.tells_bind [OF leaves.keepsD [OF keeps_outside(5) assms(1)]]) (rule leaves.tells_return, simp)
  have copy: "leaves.tells (\<lambda>E. AV_Read ?t b \<in> E \<and> AV_Read ?s a \<in> E \<and> P E)
     (if a = b then io_return ()
      else (case (a, b) of
              (Some v, None) \<Rightarrow> io_bind (attempt (secret_set N ?t v)) (\<lambda>res. io_lift (map_err (\<lambda>_. leave_error ''password namespace copy is pending'') res))
            | _ \<Rightarrow> io_fail (leave_error ''target password differs; review before continuing''))) (\<lambda>_. P)" for a b
  proof (cases "a = b")
    case True
    then show ?thesis by (auto intro: leaves.tells_return)
  next
    case False
    show ?thesis
    proof (cases a; cases b)
      fix v
      assume "a = Some v" "b = None"
      then show ?thesis using set by (auto intro!: leaves.tells_bind [OF set] leaves.tells_lift)
    qed (use False in \<open>auto intro: leaves.tells_fail\<close>)
  qed
  have m: "mono (\<lambda>E. AV_Read ?t b \<in> E \<and> AV_Read ?s a \<in> E \<and> P E)" "mono (\<lambda>E. AV_Read ?s a \<in> E \<and> P E)" for a b
    using assms(1) by (intro fact_mono; simp)+
  show ?thesis
    unfolding copy_password_def Let_def
    by (rule step(1) [OF assms(1)] step(2) [OF assms(1)] step(3) step(2) [OF m(2)] step(1) [OF m(1)] leaves.tells_bind [OF copy] last)+
qed

lemma copy_passwords_tells:
  assumes "mono P" "\<And>E. P E \<Longrightarrow> \<exists>op0 plan. AV_Resume op0 \<in> E \<and> po_leave op0 = Some plan \<and> set hs \<subseteq> set (lp_hosts plan)"
  shows "leaves.tells P (copy_passwords X N op hs) (\<lambda>_. P)"
  using assms(2)
proof (induction hs arbitrary: op)
  case Nil
  then show ?case by (auto intro: leaves.tells_return)
next
  case (Cons h hs)
  have "leaves.tells P (copy_password X N op h) (\<lambda>_. P)"
    by (rule leaves.tells_weaken [OF copy_password_tells [OF assms(1), of h]]) (use Cons.prems in fastforce)+
  moreover have "leaves.tells P (copy_passwords X N op' hs) (\<lambda>_. P)" for op'
    by (rule Cons.IH) (use Cons.prems in fastforce)
  ultimately show ?case unfolding copy_passwords.simps by (rule leaves.tells_bind)
qed

text \<open>What a commit adds to a candidate without an account: at most a version and the loss of pins.\<close>

lemma complete_detached:
  assumes "complete_candidate X U core c = Inr s" "st_account c = None" "st_spaces c = []"
  shows "st_account s = None \<and> st_spaces s = [] \<and> ls_groups (st_local s) = ls_groups (st_local c)
    \<and> (\<forall>k. bt_contains (ls_hosts (st_local c)) k \<longrightarrow> bt_contains (ls_hosts (st_local s)) k)"
proof -
  let ?ok = "\<lambda>s. st_account s = None \<and> st_spaces s = [] \<and> ls_groups (st_local s) = ls_groups (st_local c)
    \<and> (\<forall>k. bt_contains (ls_hosts (st_local c)) k \<longrightarrow> bt_contains (ls_hosts (st_local s)) k)"
  define c1 where "c1 = (if st_version c = STATE_VERSION \<and> has_group_data c then c\<lparr>st_version := GROUP_STATE_VERSION\<rparr> else c)"
  have "\<not> library_enabled c1" using assms(2) by (simp add: c1_def library_enabled_def is_some_and_def)
  then have 1: "include_new_records X U c1 keys = c1" for keys by (simp add: include_new_records_def)
  define c3 where "c3 = (if has_navigation_data c1 then c1\<lparr>st_version := max (st_version c1) NAVIGATION_STATE_VERSION\<rparr> else c1)"
  have c3: "?ok c3" using assms(2,3) by (simp add: c3_def c1_def)
  have put: "?ok (put_host scope k row s)" if "?ok s" for scope k row s
    using that by (auto simp: put_host_def bt_modify_def bt_contains_def split: host_scope.splits option.splits)
  have d: "(case sc_records core of Some before \<Rightarrow> map_err (\<lambda>e. AE_Other (x_debug_repository U e)) (invalidate_changed_pins X before c3)
         | None \<Rightarrow> Inr c3) = Inr s"
    using assms(1) unfolding complete_candidate_def Let_def c1_def [symmetric] 1 c3_def [symmetric] .
  show ?thesis
  proof (cases "sc_records core")
    case (Some before)
    with d obtain old new :: repository_snapshot where "for_each (invalidate_pin (snap_hosts old)) c3 (snap_hosts new) = Inr s"
      by (auto simp: invalidate_changed_pins_def)
    from this c3 show ?thesis
      by (rule for_each_inv) (use put in \<open>auto simp: invalidate_pin_def Let_def split: if_splits\<close>)
  qed (use c3 d in simp)
qed

lemma detached_preserved:
  assumes "detach_transform X op' plan latest = Inr c" "complete_candidate X U core c = Inr s" "po_leave op = Some plan"
  shows "preserved op s"
proof -
  note d = detach_transform_Inr [OF assms(1)] and cd = complete_detached [OF assms(2)]
  have "bt_contains (ls_hosts (st_local c)) (record_key RK_Host (rmap_local_host_id (ph_mapping h)))" if "h \<in> set (lp_hosts plan)" for h
    using occupy_Inr [OF d(5)] that by (force simp: bt_contains_def)
  moreover have "bt_contains (ls_groups (st_local c)) (record_key RK_Group (pg_local_group_id g))" if "g \<in> set (lp_groups plan)" for g
    using occupy_Inr [OF d(6)] that by (force simp: bt_contains_def)
  ultimately show ?thesis using d cd assms(3) by (auto simp: preserved_def)
qed

lemma detach_tells:
  "leaves.tells (\<lambda>E. AV_Resume op \<in> E) (detach X N op proven) (\<lambda>_ E. AV_Resume op \<in> E \<and> (\<exists>s. AV_Commit s \<in> E \<and> preserved op s))"
proof -
  let ?P = "\<lambda>E. AV_Resume op \<in> E"
  have m: "mono ?P" by (rule fact_mono)
  note k = leaves.tells_bind [OF leaves.keepsD [OF _ m]]
  have plan: "leaves.tells ?P (in_round (unwrap (po_leave op))) (\<lambda>plan E. ?P E \<and> po_leave op = Some plan)"
    by (auto simp: tells_by_def in_round_def unwrap_def io_return_def panic_def split: option.splits prod.splits)
  have rest: "leaves.tells (\<lambda>E. ?P E \<and> po_leave op = Some plan)
     (io_bind (copy_passwords X N op (lp_hosts plan)) (\<lambda>op'.
      io_bind (leave_proof X N op') (\<lambda>_.
      io_bind (ensure_latest X N op') (\<lambda>_.
      io_bind (commit_records X N (detach_transform X op' plan)) (\<lambda>_.
      io_return (op'\<lparr>po_phase := PP_Activated\<rparr>))))))
     (\<lambda>_ E. ?P E \<and> (\<exists>s. AV_Commit s \<in> E \<and> preserved op s))" for plan
  proof -
    let ?R = "\<lambda>E. ?P E \<and> po_leave op = Some plan"
    have m: "mono ?R" by (intro fact_mono)
    note k = leaves.tells_bind [OF leaves.keepsD [OF _ m]]
    have c: "leaves.tells ?R (copy_passwords X N op (lp_hosts plan)) (\<lambda>_. ?R)"
      by (rule copy_passwords_tells [OF m]) auto
    have "leaves.tells ?R (commit_records X N (detach_transform X op' plan)) (\<lambda>_ E. ?P E \<and> (\<exists>s. AV_Commit s \<in> E \<and> preserved op s))" for op'
      by (rule leaves.tells_weaken [OF leaves.tells_commit [OF m]]) (auto dest: detached_preserved)
    then show ?thesis
      by (intro leaves.tells_bind [OF c] k [OF keeps_leave_proof] k [OF keeps_ensure_latest]) (rule leaves.tells_bind, assumption, rule leaves.tells_return, assumption)
  qed
  have unchanged: "leaves.tells (\<lambda>E. ?P E \<and> po_leave op = Some plan)
     (io_bind (source_spaces X N account keys (lp_source_spaces plan)) (\<lambda>source.
      io_bind (io_lift (check_source_key_material X s keys source)) (\<lambda>_.
      io_bind (check_unchanged (lp_source_spaces plan) source) (\<lambda>_. M))))
     Q" if "leaves.tells (\<lambda>E. ?P E \<and> po_leave op = Some plan) M Q" for plan account keys s M Q
  proof -
    have m: "mono (\<lambda>E. ?P E \<and> po_leave op = Some plan)" by (intro fact_mono)
    note k = leaves.tells_bind [OF leaves.keepsD [OF _ m]]
    show ?thesis by (intro k [OF keeps_source_spaces] k [OF leaves.keeps_lift] k [OF keeps_check_unchanged] that)
  qed
  show ?thesis
    unfolding detach_def
    by (intro k [OF leaves.keeps_in_round] k [OF leaves.keeps_lift] leaves.tells_bind [OF plan] unchanged rest)
qed

lemma leave_resume_tells: "leaves.tells (\<lambda>_. True) (leave_resume X N) (\<lambda>_ _. True)"
proof -
  let ?D = "\<lambda>op E. AV_Resume op \<in> E \<and> (po_phase op = PP_Activated \<or> (\<exists>s. AV_Commit s \<in> E \<and> preserved op s))"
  have m: "mono (\<lambda>E. AV_Resume op \<in> E)" "mono (?D op)" for op by (intro fact_mono)+
  have d: "leaves.tells (\<lambda>E. AV_Resume op \<in> E) (if po_phase op \<noteq> PP_Activated then detach X N op keys else io_return op) (\<lambda>_. ?D op)" for op keys
    by (auto intro!: leaves.tells_return leaves.tells_weaken [OF detach_tells])
  have del: "leaves.tells (?D op) (attempt (secret_delete N MNEMONIC_ACCOUNT)) (\<lambda>_. ?D op)" for op
    by (rule leaves.tells_attempt [OF leaves.tells_delete [OF m(2)] _ m(2)]) auto
  have e: "leaves.tells (?D op) (if code = None then io_return ()
      else io_bind (ensure_latest X N op') (\<lambda>_.
           io_bind (attempt (secret_delete N MNEMONIC_ACCOUNT)) (\<lambda>res.
           io_lift (map_err (\<lambda>_. leave_error ''local data is preserved; sync code cleanup is pending'') res)))) (\<lambda>_. ?D op)" for op op' and code :: "chain_keys option"
    by (intro leaves.tells_if leaves.tells_return leaves.tells_bind [OF leaves.keepsD [OF keeps_ensure_latest m(2)]] leaves.tells_bind [OF del] leaves.tells_lift)
  have c: "leaves.tells (?D op) (commit_records X N (finish_leave op')) (\<lambda>_ _. True)" for op op'
    by (rule leaves.tells_weaken [OF leaves.keepsD [OF leaves.keeps_commit m(2)]]) auto
  have tail: "leaves.tells (\<lambda>_. True)
    (io_bind (taken_up op) (\<lambda>_.
     io_bind (leave_proof X N op) (\<lambda>keys.
     io_bind (if po_phase op \<noteq> PP_Activated then detach X N op keys else io_return op) (\<lambda>op.
     io_bind (leave_proof X N op) (\<lambda>code.
     io_bind (if code = None then io_return ()
              else
                io_bind (ensure_latest X N op) (\<lambda>_.
                io_bind (attempt (secret_delete N MNEMONIC_ACCOUNT)) (\<lambda>res.
                io_lift (map_err (\<lambda>_. leave_error ''local data is preserved; sync code cleanup is pending'') res)))) (\<lambda>_.
     commit_records X N (finish_leave op))))))) (\<lambda>_ _. True)" for op
  proof -
    have t: "leaves.tells (\<lambda>_. True) (taken_up op) (\<lambda>_ E. AV_Resume op \<in> E)"
      by (rule leaves.tells_weaken [OF leaves.tells_taken_up]) (auto intro: fact_mono)
    show ?thesis
      by (rule leaves.tells_bind [OF t] leaves.tells_bind [OF leaves.keepsD [OF keeps_leave_proof m(1)]] leaves.tells_bind [OF d]
          leaves.tells_bind [OF leaves.keepsD [OF keeps_leave_proof m(2)]] leaves.tells_bind [OF e] c)+
  qed
  show ?thesis
    unfolding leave_resume_def by (intro tail leaves.tells_then leaves.keeps_in_round leaves.keeps_lift)
qed

lemma leave_account_tells: "leaves.tells (\<lambda>_. True) (leave_account X N) (\<lambda>_ _. True)"
proof -
  have r: "leaves.tells (\<lambda>_. True) (io_bind (attempt (leave_resume X N)) f) Q" if "\<And>a. leaves.tells (\<lambda>_. True) (f a) Q" for f and Q :: "leave_receipt \<Rightarrow> account_event set \<Rightarrow> bool"
    by (rule leaves.tells_bind [OF leaves.tells_attempt [OF leave_resume_tells]]) (use that in \<open>auto intro: fact_mono\<close>)
  show ?thesis
    unfolding leave_account_def Let_def
    by (intro r leaves.tells_then leaves.keeps_in_round leaves.keeps_lift keeps_source_spaces keeps_leave_plan_of keeps_outside leaves.tells_return TrueI)
       (auto simp: leave_new_id_def intro: leaves.keeps_new_id)
qed

section \<open>What is kept\<close>

lemma leave_fail_closed_closes: "closes (leave_fail_closed op)"
  unfolding closes_def leave_fail_closed_def by (auto split: option.splits)

context device_invariant
begin

lemma held_store: "runs held (leave_store X N op) (\<lambda>_. True)"
  unfolding leave_store_def by (rule held_commit)

lemma held_ensure_latest: "runs held (ensure_latest X N op) (\<lambda>_. True)"
  unfolding ensure_latest_def by (intro held_rules)

lemma held_leave_proof: "runs held (leave_proof X N op) (\<lambda>_. True)"
  unfolding leave_proof_def detached_proof_def Let_def
  by (intro held_rules held_store held_closed leave_fail_closed_closes)

lemma held_source_loop: "runs held (source_loop X N url account keys out rest) (\<lambda>_. True)"
  by (induction rest arbitrary: out) (auto simp: source_space_def Let_def intro!: held_rules)

lemma held_source_spaces: "runs held (source_spaces X N account keys sections) (\<lambda>_. True)"
  unfolding source_spaces_def by (intro held_rules held_source_loop)

lemma held_check_unchanged: "runs held (check_unchanged expected rest) (\<lambda>_. True)"
  by (induction rest) (auto intro!: held_rules)

lemma held_fresh_id: "runs held (fresh_id N k used) (\<lambda>_. True)"
  by (induction k) (auto simp: leave_new_id_def intro!: held_rules)

lemma held_assign_ids: "runs held (assign_ids N local_ids used remap rows rest) (\<lambda>_. True)"
  by (induction rest arbitrary: used remap rows) (auto simp: Let_def intro!: held_rules held_fresh_id)

lemma held_leave_plan_of: "runs held (leave_plan_of X N s spaces) (\<lambda>_. True)"
  unfolding leave_plan_of_def Let_def by (intro held_rules held_assign_ids)

lemma held_copy_passwords: "runs held (copy_passwords X N op hs) (\<lambda>_. True)"
  by (induction hs arbitrary: op) (auto simp: copy_password_def Let_def intro!: held_rules held_store held_ensure_latest)

lemma held_leave_resume: "runs held (leave_resume X N) (\<lambda>_. True)"
  unfolding leave_resume_def detach_def
  by (intro held_rules held_leave_proof held_source_spaces held_check_unchanged held_copy_passwords held_ensure_latest)

lemma held_leave_account: "runs held (leave_account X N) (\<lambda>_. True)"
  unfolding leave_account_def Let_def leave_new_id_def
  by (intro held_rules held_source_spaces held_leave_plan_of held_store held_leave_resume)

end

lemmas kept_leave_account = kept.held_leave_account
lemmas unsent_leave_account = unsent.held_leave_account

text \<open>C28. Leaving is careful with credentials: the only thing it removes from the keychain is the sync code, and that only after the
  state without the account, with a local row for everything the plan leaves.keeps, was committed, now or in an earlier
  attempt; a password is written only for a host of the plan, only where none was, and is the one just read from the
  account of its source; and it creates, freezes and uploads nothing on the relay.\<close>

theorem leaving_keeps_credentials:
  assumes "leave_account X N st = (res, st')" "dv_log st = []"
  shows "rd_sent (dv_round st') = rd_sent (dv_round st)
    \<and> (\<forall>before e after. dv_log st' = before @ e # after \<longrightarrow>
        (\<forall>name. e = AV_Delete name \<longrightarrow> name = MNEMONIC_ACCOUNT
           \<and> (\<exists>op. AV_Resume op \<in> set before \<and> (po_phase op = PP_Activated \<or> (\<exists>s. AV_Commit s \<in> set before \<and> preserved op s))))
        \<and> (\<forall>name v. e = AV_Set name v \<longrightarrow>
             (\<exists>op plan h. AV_Resume op \<in> set before \<and> po_leave op = Some plan \<and> h \<in> set (lp_hosts plan)
                \<and> name = host_password (rmap_local_host_id (ph_mapping h))
                \<and> AV_Read (host_password (rmap_source_host_id (ph_mapping h))) (Some v) \<in> set before \<and> AV_Read name None \<in> set before))
        \<and> (\<forall>i outs. e \<noteq> AV_Chain i \<and> e \<noteq> AV_Freeze i \<and> e \<noteq> AV_Push i outs))"
proof -
  have "leaves.explained (dv_log st')" using leave_account_tells [of X N] assms unfolding tells_by_def by (metis explained_Nil)
  then have e: "explains before e" if "dv_log st' = before @ e # after" for before e after using that by (auto simp: explained_by_def)
  have "rd_sent (dv_round st') = rd_sent (dv_round st)"
    using runsD [OF unsent_leave_account [of "rd_sent (dv_round st)"], OF _ assms(1)] by simp
  moreover have "(\<forall>name. e = AV_Delete name \<longrightarrow> name = MNEMONIC_ACCOUNT
           \<and> (\<exists>op. AV_Resume op \<in> set before \<and> (po_phase op = PP_Activated \<or> (\<exists>s. AV_Commit s \<in> set before \<and> preserved op s))))
        \<and> (\<forall>name v. e = AV_Set name v \<longrightarrow>
             (\<exists>op plan h. AV_Resume op \<in> set before \<and> po_leave op = Some plan \<and> h \<in> set (lp_hosts plan)
                \<and> name = host_password (rmap_local_host_id (ph_mapping h))
                \<and> AV_Read (host_password (rmap_source_host_id (ph_mapping h))) (Some v) \<in> set before \<and> AV_Read name None \<in> set before))
        \<and> (\<forall>i outs. e \<noteq> AV_Chain i \<and> e \<noteq> AV_Freeze i \<and> e \<noteq> AV_Push i outs)" if "dv_log st' = before @ e # after" for before e after
    using e [OF that] by auto
  ultimately show ?thesis by blast
qed

section \<open>An example\<close>

text \<open>A space with one host, which is kept under another identity.\<close>

definition kept_row :: "rstr \<Rightarrow> local_record" where
  "kept_row i = \<lparr>lr_record = \<lparr>r_kind = RK_Host, r_id = i, r_version = 1, r_updated_at_ms = 5, r_device_id = replicate 32 48,
     r_deleted = False, r_payload = x_host_to_value sample_rext sample_payload\<rparr>, lr_seq = 0, lr_dirty = False\<rparr>"

definition kept_space :: space_state where
  "kept_space = \<lparr>sp_selected = True, sp_cursor_seq = 0, sp_baseline_established = True,
     sp_records = [(record_key RK_Host sample_id, kept_row sample_id)], sp_sealed = [], sp_last_error = None, sp_missing = False\<rparr>"

definition kept_host :: planned_host where
  "kept_host = \<lparr>ph_mapping = \<lparr>rmap_source_space_id = lib_space, rmap_source_host_id = sample_id,
     rmap_local_host_id = replicate 16 49, rmap_alias = lit ''a''\<rparr>, ph_local = kept_row (replicate 16 49)\<rparr>"

definition kept_plan :: leave_plan where
  "kept_plan = \<lparr>lp_groups = [], lp_source_spaces = [(lib_space, kept_space)], lp_hosts = [kept_host], lp_passwords_copied = {}\<rparr>"

definition kept_state :: sync_state where
  "kept_state = sample_state\<lparr>st_account := Some (account_new (replicate 64 48)), st_spaces := [(lib_space, kept_space)],
     st_pending_account := Some (leave_operation sample_state (account_new (replicate 64 48)) (replicate 32 50) kept_plan)\<rparr>"

lemma kept_decode:
  assumes "i = sample_id \<or> i = replicate 16 49" "scope = HS_Local \<or> scope = HS_Space lib_space"
  shows "decode_host lib_ext (lr_record (kept_row i)) scope = Inr (Live \<lparr>hr_id = i, hr_scope = scope, hr_payload = sample_payload\<rparr>)"
proof -
  have j: "get_u64 (x_host_to_value sample_rext sample_payload) (lit ''schema'') = Some 2"
    "x_host_from_value lib_ext (x_host_to_value sample_rext sample_payload) = Inr sample_payload"
    by (simp_all add: lib_ext_def sample_rext_def record_ext.defs crypto_ext.defs merge_ext.defs bt_get_def sample_payload_def)
  have i: "is_host_id i" using assms(1) hex_ids(1) [of 48] hex_ids(1) [of 49]
    by (auto simp: sample_id_def is_lower_hex_def is_ascii_digit_def)
  have "host_shape_ok lib_ext \<lparr>hr_id = i, hr_scope = scope, hr_payload = sample_payload\<rparr>"
    using i assms(2) lib_ids(3)
    by (auto simp: host_shape_ok_def sample_payload_def schema_defs scope_ok_def alias_char_def starts_with_def MAX_JUMPS_def str_simps)
  then show ?thesis
    using i j by (simp add: decode_host_def kept_row_def Let_def validate_host_shape_iff)
qed

lemma kept_row_simps [simp]:
  "r_kind (lr_record (kept_row i)) = RK_Host" "r_id (lr_record (kept_row i)) = i" "\<not> r_deleted (lr_record (kept_row i))"
  "lr_seq (kept_row i) = 0" "\<not> lr_dirty (kept_row i)"
  by (simp_all add: kept_row_def)

lemma kept_plan_valid: "validate_leave_plan lib_ext kept_plan = Inr ()"
proof -
  have i: "is_host_id (replicate 16 49)" using hex_ids(1) [of 49] by (simp add: is_lower_hex_def is_ascii_digit_def)
  have p: "hp_alias sample_payload = lit ''a''" "sample_payload\<lparr>hp_alias := lit ''a''\<rparr> = sample_payload" by (simp_all add: sample_payload_def)
  have j: "p\<lparr>hp_jump := hp_jump p\<rparr> = p" for p :: host_payload by simp
  have "leave_host lib_ext kept_plan ({}, {}) kept_host = Inr ({replicate 16 49}, {(lib_space, sample_id)})"
    using j [of sample_payload]
    by (simp add: leave_host_def kept_host_def kept_plan_def kept_space_def i bt_get_def opt_filter_def kept_decode live_or_def p Let_def)
  moreover have "leave_source_space lib_ext (lib_space, kept_space) = Inr ()"
    by (simp add: leave_source_space_def kept_space_def lib_ids leave_source_row_def kept_decode)
  ultimately show ?thesis
    by (simp add: validate_leave_plan_def kept_plan_def [THEN arg_cong [where f = lp_source_spaces]]
        kept_plan_def [THEN arg_cong [where f = lp_hosts]] kept_plan_def [THEN arg_cong [where f = lp_groups]]
        kept_plan_def [THEN arg_cong [where f = lp_passwords_copied]] live_rows_def kept_space_def bt_values_def)
qed

lemma kept_detach:
  "\<exists>s. detach_transform lib_ext (leave_operation sample_state (account_new (replicate 64 48)) (replicate 32 50) kept_plan) kept_plan kept_state = Inr s"
proof -
  let ?h = "\<lparr>hr_id = replicate 16 49, hr_scope = HS_Local, hr_payload = sample_payload\<rparr>"
  have v: "validate_host lib_ext ?h = Inr ()"
    by (simp add: validate_host_iff host_shape_ok_def sample_payload_def schema_defs hex_ids scope_ok_def alias_char_def starts_with_def MAX_JUMPS_def str_simps)
  have e: "effective_record lib_ext s ?h = Inr ?h" for s
    using v by (simp add: effective_record_def resolve_effective_def ancestor_path_def ancestor_walk.simps)
  have "validate_hosts lib_ext [?h] = Inr ()"
    by (simp add: validate_hosts_Inr v chain_ids_def append_hops.simps add_hop_def MAX_JUMPS_def)
  with e show ?thesis
    by (simp add: detach_transform_def leave_operation_def kept_state_def kept_plan_def kept_host_def account_new_def local_hosts_def bt_values_def
        bt_contains_def sample_state_def live_local_def kept_decode live_or_def view_order_def Let_def)
qed

theorem leaving_loses_nothing_witness:
  "\<exists>s h. detach_transform lib_ext (leave_operation sample_state (account_new (replicate 64 48)) (replicate 32 50) kept_plan) kept_plan kept_state = Inr s
     \<and> st_account s = None \<and> h \<in> set (lp_hosts kept_plan) \<and> copies_host lib_ext kept_plan h (kept_row sample_id)
     \<and> bt_get (ls_hosts (st_local s)) (record_key RK_Host (rmap_local_host_id (ph_mapping h))) = Some (ph_local h)"
proof -
  obtain s where s: "detach_transform lib_ext (leave_operation sample_state (account_new (replicate 64 48)) (replicate 32 50) kept_plan) kept_plan kept_state = Inr s"
    using kept_detach by blast
  have i: "bt_inv (lp_source_spaces kept_plan)" "\<forall>(sid, sp) \<in> set (lp_source_spaces kept_plan). bt_inv (sp_records sp)"
    by (simp_all add: kept_plan_def kept_space_def bt_inv_def)
  have r: "bt_get (lp_source_spaces kept_plan) lib_space = Some kept_space"
    "bt_get (sp_records kept_space) (record_key RK_Host sample_id) = Some (kept_row sample_id)"
    by (simp_all add: kept_plan_def kept_space_def bt_get_def)
  have "lp_groups kept_plan = []" by (simp add: kept_plan_def)
  with leaving_loses_nothing [OF kept_plan_valid s i] r s show ?thesis by fastforce
qed

text \<open>A device on which the keychain, the relay and the random source refuse everything.\<close>

definition quiet_device :: "unit device_env" where
  "quiet_device = round_env.extend (quiet_round sample_env) (device_env.fields (\<lambda>_ _. Inl (other ''locked'')) (\<lambda>_ _ _. Inl (other ''locked''))
     (\<lambda>_ _. Inl (other ''locked'')) (\<lambda>_ _ _ _. Inl R_NotFound) (\<lambda>_. Inl []) 1)"

definition sample_device :: "unit device" where
  "sample_device = \<lparr>dv_round = sample_round, dv_log = []\<rparr>"

theorem leaving_keeps_credentials_witness:
  "{name. AV_Delete name \<in> set (dv_log (snd (leave_account lib_ext quiet_device sample_device)))} \<subseteq> {MNEMONIC_ACCOUNT}"
proof
  fix name
  obtain res st where st: "leave_account lib_ext quiet_device sample_device = (res, st)" by force
  assume "name \<in> {name. AV_Delete name \<in> set (dv_log (snd (leave_account lib_ext quiet_device sample_device)))}"
  then obtain before after where "dv_log st = before @ AV_Delete name # after" using st by (auto dest: split_list)
  moreover have "dv_log sample_device = []" by (simp add: sample_device_def)
  ultimately show "name \<in> {MNEMONIC_ACCOUNT}" using leaving_keeps_credentials [OF st] by blast
qed

end
