(* ===== verification/Account_Properties.thy ===== *)
theory Account_Properties
  imports Record_Account Leave_Properties
begin

text \<open>
  What creating and joining an account guarantee: a sync code that was staged stays in the keychain until the account
  is active under it, the account is active only after it was verified against the relay, and nothing is
  uploaded to any other chain.
\<close>

section \<open>What a commit leaves of the pending operation\<close>

lemma complete_pending_state:
  assumes "complete_candidate X U core c = Inr s" "st_pending_account c = Some op"
  shows "st_pending_account s = Some op \<and> st_account s = st_account c"
proof -
  let ?ok = "\<lambda>s. st_pending_account s = Some op \<and> st_account s = st_account c"
  define c1 where "c1 = (if st_version c = STATE_VERSION \<and> has_group_data c then c\<lparr>st_version := GROUP_STATE_VERSION\<rparr> else c)"
  have "account_writes_blocked X c1" using assms(2) by (simp add: c1_def account_writes_blocked_def)
  then have 1: "include_new_records X U c1 keys = c1" for keys by (simp add: include_new_records_def)
  define c3 where "c3 = (if has_navigation_data c1 then c1\<lparr>st_version := max (st_version c1) NAVIGATION_STATE_VERSION\<rparr> else c1)"
  have c3: "?ok c3" using assms(2) by (simp add: c3_def c1_def)
  have put: "?ok (put_host scope k row s)" if "?ok s" for scope k row s
    using that by (auto simp: put_host_def split: host_scope.splits)
  have d: "(case sc_records core of Some before \<Rightarrow> map_err (\<lambda>e. AE_Other (x_debug_repository U e)) (invalidate_changed_pins X before c3)
         | None \<Rightarrow> Inr c3) = Inr s"
    using assms(1) unfolding complete_candidate_def Let_def c1_def [symmetric] 1 c3_def [symmetric] .
  show ?thesis
  proof (cases "sc_records core")
    case (Some before)
    with d obtain old new :: repository_snapshot where "for_each (invalidate_pin (snap_hosts old)) c3 (snap_hosts new) = Inr s"
      by (auto simp: invalidate_changed_pins_def)
    from this c3 show ?thesis
      by (rule for_each_inv) (use put in \<open>auto simp: invalidate_pin_def Let_def split: if_splits\<close>)
  qed (use c3 d in simp)
qed

section \<open>Verified accounts\<close>

abbreviation chain_of :: "pending_account_operation \<Rightarrow> rstr" where
  "chain_of op \<equiv> acc_chain_id (po_prepared_account op)"

text \<open>The account follows from a page that the relay of the operation answered for its chain, and that a new account could take
  over: it is the compatible merge of that page, or it is the one this operation creates, the page is empty, and what the
  gate misses is the metadata of a format that this client writes.\<close>

definition fresh_gate :: "'a merge_ext_scheme \<Rightarrow> u32 option \<Rightarrow> chain_keys \<Rightarrow> pull_response \<Rightarrow> account_gate" where
  "fresh_gate X seen keys pulled =
     mo_gate (merge_account X ((account_new (ck_chain_id keys))\<lparr>acc_remote_schema_version := seen\<rparr>) keys pulled 0)"

definition follows_from :: "'a merge_ext_scheme \<Rightarrow> pending_account_operation \<Rightarrow> chain_keys \<Rightarrow> pull_response \<Rightarrow> account_state \<Rightarrow> bool" where
  "follows_from X op keys pulled account \<longleftrightarrow>
     (\<exists>seen base. fresh_gate X seen keys pulled = Compatible \<and> mo_gate (merge_account X base keys pulled 0) = Compatible
        \<and> account = mo_section (merge_account X base keys pulled 0))
     \<or> po_kind op = PK_CreateAccount \<and> pl_records pulled = [] \<and> acc_cursor_seq account = 0 \<and> acc_chain_id account = chain_of op
        \<and> (\<exists>seen sch. fresh_gate X seen keys pulled = NeedsMigration sch \<and> sch \<le> ACCOUNT_SCHEMA)"

definition verified :: "'a merge_ext_scheme \<Rightarrow> pending_account_operation \<Rightarrow> account_event set \<Rightarrow> account_state \<Rightarrow> bool" where
  "verified X op E account \<longleftrightarrow> acc_chain_id account = chain_of op
     \<and> (\<exists>keys pulled. AV_Pull (po_relay_url op) keys pulled \<in> E \<and> ck_chain_id keys = chain_of op \<and> follows_from X op keys pulled account)"

lemma verified_mono: "mono (\<lambda>E. verified X op E account)"
  by (auto simp: mono_def le_bool_def verified_def)

lemma merge_account_compatible:
  assumes "mo_gate (merge_account X account keys pulled since) = Compatible"
  shows "acc_chain_id account = ck_chain_id keys" "acc_chain_id (mo_section (merge_account X account keys pulled since)) = ck_chain_id keys"
proof -
  have g: "fst (account_gate_of X account keys pulled) = Compatible"
    using assms by (auto simp: merge_account_def initial_report_def Let_def split: prod.splits if_splits)
  then show 1: "acc_chain_id account = ck_chain_id keys" by (auto simp: account_gate_of_def split: if_splits)
  show "acc_chain_id (mo_section (merge_account X account keys pulled since)) = ck_chain_id keys"
    using 1 by (auto simp: merge_account_def initial_report_def refuse_page_def Let_def split: prod.splits if_splits bool.splits)
qed

text \<open>The operation as it goes on: its identity and its relay stay, and unless it creates a space, its account too.\<close>

definition continues :: "pending_account_operation \<Rightarrow> pending_account_operation \<Rightarrow> bool" where
  "continues op op' \<longleftrightarrow> po_id op' = po_id op \<and> po_kind op' = po_kind op \<and> po_staged_code_account op' = po_staged_code_account op
     \<and> po_space_id op' = po_space_id op \<and> po_relay_url op' = po_relay_url op \<and> (po_kind op \<noteq> PK_CreateSpace \<longrightarrow> chain_of op' = chain_of op)"

lemma continues_refl [simp]: "continues op op"
  by (simp add: continues_def)

section \<open>Reasons\<close>

definition was_verified :: "'a merge_ext_scheme \<Rightarrow> pending_account_operation \<Rightarrow> account_event set \<Rightarrow> bool" where
  "was_verified X op E \<longleftrightarrow> (\<exists>s p. AV_Commit s \<in> E \<and> st_pending_account s = Some p \<and> po_id p = po_id op \<and> verified X op E (po_prepared_account p))"

definition was_activated :: "'a merge_ext_scheme \<Rightarrow> pending_account_operation \<Rightarrow> account_event set \<Rightarrow> bool" where
  "was_activated X op E \<longleftrightarrow> (\<exists>s account. AV_Commit s \<in> E \<and> st_account s = Some account \<and> verified X op E account)"

definition code_of :: "'a merge_ext_scheme \<Rightarrow> pending_account_operation \<Rightarrow> rstr \<Rightarrow> bool" where
  "code_of X op code \<longleftrightarrow> (\<exists>keys. derive_account X code = Inr keys \<and> ck_chain_id keys = chain_of op)"

definition was_staged :: "pending_account_operation \<Rightarrow> rstr \<Rightarrow> account_event set \<Rightarrow> bool" where
  "was_staged op code E \<longleftrightarrow> (\<exists>name. po_staged_code_account op = Some name \<and> AV_Set name code \<in> E)"

fun account_reason :: "'a merge_ext_scheme \<Rightarrow> pending_account_operation \<Rightarrow> account_event list \<Rightarrow> account_event \<Rightarrow> bool" where
  "account_reason X op before (AV_Set name code) =
     (code_of X op code \<and> (po_staged_code_account op = Some name
        \<or> name = MNEMONIC_ACCOUNT \<and> was_staged op code (set before) \<and> was_verified X op (set before)))"
| "account_reason X op before (AV_Delete name) =
     (po_staged_code_account op = Some name
      \<and> (po_phase op = PP_Activated \<or> was_activated X op (set before)
           \<and> (\<exists>code. code_of X op code \<and> AV_Set MNEMONIC_ACCOUNT code \<in> set before)))"
| "account_reason X op before (AV_Chain i) =
     (po_kind op = PK_CreateAccount \<and> i = chain_of op \<or> po_kind op = PK_CreateSpace \<and> po_space_id op = Some i)"
| "account_reason X op before (AV_Freeze i) = False"
| "account_reason X op before (AV_Push i outs) = (i = chain_of op \<and> outs \<noteq> [] \<and> was_verified X op (set before))"
| "account_reason X op before _ = True"

interpretation forms: event_log "account_reason X op"
  for X :: "'a merge_ext_scheme" and op :: pending_account_operation
  by unfold_locales simp_all

abbreviation acts :: "'a merge_ext_scheme \<Rightarrow> pending_account_operation \<Rightarrow> (account_event set \<Rightarrow> bool) \<Rightarrow> ('d, 'b) device_act
    \<Rightarrow> ('b \<Rightarrow> account_event set \<Rightarrow> bool) \<Rightarrow> bool" where
  "acts X op \<equiv> tells_by (account_reason X op)"

lemma account_fact_mono:
  "mono (was_verified X op)" "mono (was_activated X op)" "mono (was_staged op code)"
  unfolding was_verified_def [abs_def] was_activated_def [abs_def] was_staged_def [abs_def] by (intro fact_mono verified_mono)+

lemmas facts = fact_mono account_fact_mono

section \<open>The steps\<close>

context event_log
begin

lemma keeps_observe: "keeps (observe_pending_gate X N op gate sch)"
  unfolding observe_pending_gate_def by (intro keeps_rules keeps_world)

lemma tells_save_pending:
  assumes "mono P"
  shows "tells P (save_pending X N op) (\<lambda>_ E. P E \<and> (\<exists>s. AV_Commit s \<in> E \<and> st_pending_account s = Some op))"
  unfolding save_pending_def
  by (rule tells_weaken [OF tells_commit [OF assms]])
     (auto simp: pending_transform_def dest!: complete_pending_state split: if_splits)

lemma keeps_replace_pending: "keeps (replace_pending X N op accepted)"
  unfolding replace_pending_def save_pending_def by (intro keeps_rules)

lemma tells_observe: "mono P \<Longrightarrow> tells P (observe_pending_gate X N op gate sch) Q"
  unfolding observe_pending_gate_def
  by (rule tells_bind [OF keepsD [OF keeps_attempt [OF keeps_commit]]])
     (auto intro: tells_fail tells_bind [OF keepsD [OF keeps_world(4)]] split: sum.split)

lemma tells_cond: "(c \<Longrightarrow> tells P m Q) \<Longrightarrow> (\<not> c \<Longrightarrow> tells P m' Q) \<Longrightarrow> tells P (if c then m else m') Q"
  by simp

lemma tells_target_pull:
  assumes "mono P"
  shows "tells P (target_pull X N op keys)
    (\<lambda>account E. (\<exists>pulled. AV_Pull (po_relay_url op) keys pulled \<in> E \<and> follows_from X op keys pulled account) \<and> P E)"
proof -
  note k = tells_bind [OF keepsD [OF _ assms]]
  have m: "mono (\<lambda>E. AV_Pull (po_relay_url op) keys pulled \<in> E \<and> P E)" for pulled using assms by (intro fact_mono)
  show ?thesis
    unfolding target_pull_def Let_def
    by (intro k [OF keeps_in_round] k [OF keeps_world(2)] tells_bind [OF tells_pull [OF assms]] tells_cond tells_observe tells_return m)
       (auto simp: new_and_empty_def follows_from_def fresh_gate_def split: account_gate.splits)
qed

lemma tells_unwrap: "tells P (in_round (unwrap x)) (\<lambda>a E. x = Some a \<and> P E)"
  by (auto simp: tells_by_def in_round_def unwrap_def io_return_def panic_def split: option.splits prod.splits)

lemma tells_chain: "mono P \<Longrightarrow> (\<And>log. P (set log) \<Longrightarrow> reason log (AV_Chain (ck_chain_id keys))) \<Longrightarrow> tells P (create_chain N url keys) (\<lambda>_. P)"
  unfolding tells_by_def create_chain_def next_step_def log_account_def by (auto intro: fact_insert)

lemma tells_push: "mono P \<Longrightarrow> (\<And>log. P (set log) \<Longrightarrow> reason log (AV_Push (ck_chain_id keys) outs)) \<Longrightarrow> tells P (push_chain N url keys outs) (\<lambda>_. P)"
  unfolding tells_by_def push_chain_def next_step_def log_account_def by (auto intro: fact_insert)

lemma tells_set_done:
  assumes "mono P" "\<And>log. P (set log) \<Longrightarrow> reason log (AV_Set name v)"
  shows "tells P (io_bind (attempt (secret_set N name v)) (\<lambda>res. io_lift (map_err f res))) (\<lambda>_ E. AV_Set name v \<in> E \<and> P E)"
proof (rule tells_bind)
  show "tells P (attempt (secret_set N name v)) (\<lambda>_ E. AV_Set name v \<in> E \<and> P E)"
    using assms unfolding tells_by_def attempt_def secret_set_def next_step_def log_account_def
    by (auto intro: fact_insert split: sum.splits if_splits)
qed (rule tells_lift)

end

section \<open>Completing an operation\<close>

text \<open>The facts that hold with an operation \<open>p\<close> that goes on from \<open>op\<close>.\<close>

lemma verified_pull:
  assumes "continues op p" "ck_chain_id keys = chain_of op"
    "\<exists>pulled. AV_Pull (po_relay_url p) keys pulled \<in> E \<and> follows_from X p keys pulled account"
  shows "verified X op E account"
proof -
  have "follows_from X p keys pulled account = follows_from X op keys pulled account" for pulled
    using assms(1) by (cases "po_kind op = PK_CreateAccount") (simp_all add: continues_def follows_from_def)
  with assms(1,3) obtain pulled where pulled: "AV_Pull (po_relay_url op) keys pulled \<in> E" and f: "follows_from X op keys pulled account"
    by (auto simp: continues_def)
  from f have "acc_chain_id account = chain_of op"
    using merge_account_compatible(2) assms(2) unfolding follows_from_def by metis
  with pulled f assms(2) show ?thesis by (auto simp: verified_def)
qed

lemma refresh_tells:
  assumes "mono P" "continues op p" "ck_chain_id keys = chain_of op"
  shows "acts X op P (refresh_target X N p keys)
    (\<lambda>q E. P E \<and> was_verified X op E \<and> verified X op E (po_prepared_account q) \<and> continues op q \<and> q = p\<lparr>po_prepared_account := po_prepared_account q\<rparr>)"
  unfolding refresh_target_def Let_def
proof (rule forms.tells_bind [OF forms.tells_weaken [OF forms.tells_target_pull [OF assms(1)]]])
  fix account
  let ?q = "p\<lparr>po_prepared_account := account\<rparr>"
  let ?P = "\<lambda>E. verified X op E account \<and> P E"
  show "(\<exists>pulled. AV_Pull (po_relay_url p) keys pulled \<in> E \<and> follows_from X p keys pulled account) \<and> P E \<Longrightarrow> ?P E" for E
    using verified_pull [OF assms(2,3)] by blast
  have m: "mono ?P" using assms(1) by (intro fact_mono verified_mono)
  show "acts X op ?P (io_bind (save_pending X N ?q) (\<lambda>_. io_return ?q))
    (\<lambda>q E. P E \<and> was_verified X op E \<and> verified X op E (po_prepared_account q) \<and> continues op q \<and> q = p\<lparr>po_prepared_account := po_prepared_account q\<rparr>)"
  proof (intro forms.tells_bind [OF forms.tells_save_pending [OF m]] forms.tells_return, elim conjE exE)
    fix E s
    assume v: "verified X op E account" and s: "AV_Commit s \<in> E" "st_pending_account s = Some ?q" and "P E"
    have "continues op ?q" using assms(2) v by (simp add: continues_def verified_def)
    moreover have "was_verified X op E" using s v assms(2) unfolding was_verified_def continues_def
      by (intro exI [of _ s] exI [of _ ?q]) simp
    ultimately show "P E \<and> was_verified X op E \<and> verified X op E (po_prepared_account ?q) \<and> continues op ?q
        \<and> ?q = p\<lparr>po_prepared_account := po_prepared_account ?q\<rparr>" using v \<open>P E\<close> by simp
  qed
qed simp

text \<open>The code in hand, if there is one, is staged.\<close>

definition code_staged :: "pending_account_operation \<Rightarrow> rstr option \<Rightarrow> account_event set \<Rightarrow> bool" where
  "code_staged op phrase E \<longleftrightarrow> (\<forall>code. phrase = Some code \<longrightarrow> was_staged op code E)"

lemma code_staged_mono: "mono (code_staged op phrase)"
  using account_fact_mono(3) unfolding code_staged_def mono_def le_bool_def by blast

definition in_hand :: "'a merge_ext_scheme \<Rightarrow> pending_account_operation \<Rightarrow> chain_keys \<Rightarrow> rstr option \<Rightarrow> bool" where
  "in_hand X op keys phrase \<longleftrightarrow> ck_chain_id keys = chain_of op \<and> (\<forall>code. phrase = Some code \<longrightarrow> code_of X op code)
     \<and> (po_kind op = PK_CreateSpace \<longleftrightarrow> phrase = None)"

lemma io_bind_assoc: "io_bind (io_bind m f) g = io_bind m (\<lambda>a. io_bind (f a) g)"
  by (auto simp: io_bind_def fun_eq_iff split: prod.splits sum.splits)

lemma stage_code_tells:
  assumes "in_hand X op keys phrase"
  shows "acts X op (\<lambda>_. True) (stage_code X N op keys phrase) (\<lambda>q E. continues op q \<and> po_phase q = po_phase op \<and> code_staged op phrase E)"
proof (cases "po_kind op = PK_CreateSpace")
  case True
  with assms show ?thesis by (auto simp: stage_code_def in_hand_def code_staged_def intro!: forms.tells_return)
next
  case False
  let ?C = "\<lambda>q _ :: account_event set. continues op q \<and> po_phase q = po_phase op"
  let ?D = "\<lambda>q name E. po_staged_code_account q = Some name \<and> ?C q E"
  let ?F = "\<lambda>q name code E. phrase = Some code \<and> ?D q name E"
  have chain: "ck_chain_id keys = chain_of op" using assms by (simp add: in_hand_def)
  have v: "acts X op (\<lambda>_. True)
    (if verify_first op then
       io_bind (target_pull X N op keys) (\<lambda>account.
       let op = op\<lparr>po_migration_gate := None, po_prepared_account := account\<rparr> in
       io_bind (save_pending X N op) (\<lambda>_. io_return op))
     else io_return op) ?C"
  proof (intro forms.tells_cond forms.tells_return)
    have p: "acts X op (\<lambda>_. True) (target_pull X N op keys) (\<lambda>account E. verified X op E account)"
      by (rule forms.tells_weaken [OF forms.tells_target_pull [OF fact_mono(2)]])
         (use verified_pull [OF continues_refl chain] in blast)+
    show "acts X op (\<lambda>_. True) (io_bind (target_pull X N op keys) (\<lambda>account.
       let op = op\<lparr>po_migration_gate := None, po_prepared_account := account\<rparr> in
       io_bind (save_pending X N op) (\<lambda>_. io_return op))) ?C"
      unfolding Let_def
      by (intro forms.tells_bind [OF p] forms.tells_bind [OF forms.tells_save_pending] forms.tells_return fact_mono verified_mono)
         (auto simp: continues_def verified_def)
  qed simp
  have s: "acts X op (?F q name code) (io_bind (attempt (secret_set N name code)) (\<lambda>res.
      io_bind (io_lift (map_err f res)) (\<lambda>_. io_return q)))
      (\<lambda>q E. continues op q \<and> po_phase q = po_phase op \<and> code_staged op phrase E)" for q name code f
  proof -
    have "acts X op (?F q name code) (io_bind (attempt (secret_set N name code)) (\<lambda>res. io_lift (map_err f res)))
      (\<lambda>_ E. AV_Set name code \<in> E \<and> ?F q name code E)"
      by (rule forms.tells_set_done) (use assms in \<open>auto simp: in_hand_def continues_def intro: fact_mono\<close>)
    then have "acts X op (?F q name code) (io_bind (io_bind (attempt (secret_set N name code)) (\<lambda>res. io_lift (map_err f res))) (\<lambda>_. io_return q))
      (\<lambda>q E. continues op q \<and> po_phase q = po_phase op \<and> code_staged op phrase E)"
      by (rule forms.tells_bind) (auto simp: code_staged_def was_staged_def continues_def intro!: forms.tells_return)
    then show ?thesis by (simp add: io_bind_assoc)
  qed
  show ?thesis
    unfolding stage_code_def
    by (simp only: False if_False)
       (rule forms.tells_bind [OF v], rule forms.tells_bind [OF forms.tells_unwrap], rule forms.tells_bind [OF forms.tells_unwrap], rule s)
qed

lemma create_remote_tells:
  assumes "ck_chain_id keys = chain_of op" "mono P"
  shows "acts X op (\<lambda>E. continues op p \<and> P E) (create_remote X N p keys) (\<lambda>q E. continues op q \<and> P E)"
proof -
  let ?P = "\<lambda>E. continues op p \<and> P E"
  have m: "mono ?P" using assms(2) by (intro fact_mono)
  have "acts X op (\<lambda>E. po_kind p = PK_CreateAccount \<and> ?P E) (create_chain N (po_relay_url p) keys) (\<lambda>_ E. po_kind p = PK_CreateAccount \<and> ?P E)"
    by (rule forms.tells_chain) (use assms in \<open>auto simp: continues_def intro!: fact_mono\<close>)
  then have c: "acts X op ?P (create_chain N (po_relay_url p) keys) (\<lambda>_. ?P)" if "po_kind p = PK_CreateAccount"
    using that by simp
  show ?thesis
    unfolding create_remote_def Let_def
    by (intro forms.tells_cond forms.tells_bind [OF c] forms.tells_bind [OF forms.keepsD [OF forms.keeps_replace_pending m]] forms.tells_return)
       (auto simp: continues_def)
qed

lemma space_keys_chain: "space_keys X account keys i = Inr (Some child) \<Longrightarrow> ck_chain_id child = i"
  by (auto simp: space_keys_def from_parts_def split: option.splits if_splits)

lemma create_child_tells:
  assumes "mono P"
  shows "acts X op (\<lambda>E. continues op p \<and> P E) (create_child X N p keys) (\<lambda>q E. continues op q \<and> P E)"
proof (cases "po_kind p = PK_CreateSpace")
  case False
  then show ?thesis by (auto simp: create_child_def intro!: forms.tells_return)
next
  case True
  let ?P = "\<lambda>E. continues op p \<and> P E"
  have m: "mono ?P" "mono (\<lambda>E. po_space_id p = Some i \<and> ?P E)" for i using assms by (intro fact_mono; simp)+
  note k = forms.tells_bind [OF forms.keepsD [OF _ m(1)]] and k' = forms.tells_bind [OF forms.keepsD [OF _ m(2)]]
  have l: "acts X op (\<lambda>E. po_space_id p = Some i \<and> ?P E) (io_lift (space_keys X account keys i))
    (\<lambda>found E. (\<forall>child. found = Some child \<longrightarrow> ck_chain_id child = i) \<and> po_space_id p = Some i \<and> ?P E)" for account i
    by (rule forms.tells_lift) (auto dest: space_keys_chain)
  have f: "acts X op (\<lambda>E. (\<forall>child. found = Some child \<longrightarrow> ck_chain_id child = i) \<and> po_space_id p = Some i \<and> ?P E) (io_lift (ok_or e found))
    (\<lambda>child E. ck_chain_id child = i \<and> po_space_id p = Some i \<and> ?P E)" for found e i
    by (rule forms.tells_lift) (auto simp: ok_or_def split: option.splits)
  have c: "acts X op (\<lambda>E. ck_chain_id child = i \<and> po_space_id p = Some i \<and> ?P E) (create_chain N url child) (\<lambda>_ E. po_space_id p = Some i \<and> ?P E)" for child i url
  proof -
    have "acts X op (\<lambda>E. ck_chain_id child = i \<and> po_space_id p = Some i \<and> ?P E) (create_chain N url child)
      (\<lambda>_ E. ck_chain_id child = i \<and> po_space_id p = Some i \<and> ?P E)"
      by (rule forms.tells_chain) (use assms True in \<open>auto simp: continues_def intro!: fact_mono\<close>)
    then show ?thesis by (rule forms.tells_weaken) auto
  qed
  have u: "acts X op (\<lambda>E. po_space_id p = Some i \<and> ?P E) (in_round (unwrap x)) (\<lambda>_ E. po_space_id p = Some i \<and> ?P E)" for i x
    by (rule forms.keepsD [OF forms.keeps_in_round m(2)])
  have last: "acts X op (\<lambda>E. po_space_id p = Some i \<and> ?P E) (io_bind (replace_pending X N q True) (\<lambda>_. io_return q)) (\<lambda>q E. continues op q \<and> P E)"
    if "continues p q" for i q
    using that by (intro k' [OF forms.keeps_replace_pending] forms.tells_return) (auto simp: continues_def)
  show ?thesis
    unfolding create_child_def Let_def
    by (simp only: True simp_thms if_False)
       (rule k [OF forms.keeps_in_round], rule k [OF forms.keeps_lift], rule k [OF forms.keeps_lift], rule k [OF forms.keeps_in_round],
        rule k [OF forms.keeps_in_round], rule forms.tells_bind [OF forms.tells_unwrap], rule forms.tells_bind [OF l],
        rule forms.tells_bind [OF f], rule forms.tells_bind [OF c], rule k' [OF forms.keeps_world(1)], rule forms.tells_bind [OF u],
        rule forms.tells_cond, rule forms.tells_observe [OF m(2)], rule last, simp add: continues_def True)
qed

lemma publish_pending_tells:
  assumes "ck_chain_id keys = chain_of op" "mono P" "\<And>E. P E \<Longrightarrow> was_verified X op E"
  shows "acts X op (\<lambda>E. continues op p \<and> P E) (publish_pending X N p keys) (\<lambda>q E. continues op q \<and> P E)"
proof -
  let ?P = "\<lambda>E. continues op p \<and> P E"
  have m: "mono ?P" "mono (\<lambda>E. outs \<noteq> [] \<and> ?P E)" for outs :: "typed_outgoing list" using assms(2) by (intro fact_mono; simp)+
  have c: "continues p (p\<lparr>po_phase := ph, po_prepared_account := apply_account_receipts (po_prepared_account p) sent acc\<rparr>)" for ph sent acc
    by (auto simp: continues_def apply_account_receipts_def split: prod.split)
  have push: "acts X op ?P (push_chain N url keys (map to_outgoing sent)) (\<lambda>_. ?P)" if "sent \<noteq> []" for url sent
    by (rule forms.tells_push [OF m(1)]) (use that assms in auto)
  show ?thesis
    unfolding publish_pending_def Let_def
    by (intro forms.tells_bind [OF forms.keepsD [OF forms.keeps_in_round m(1)]] forms.tells_cond forms.tells_bind [OF push]
        forms.tells_bind [OF forms.keepsD [OF forms.keeps_replace_pending m(1)]] forms.tells_return forms.tells_observe [OF m(1)])
       (use c in \<open>auto intro!: forms.tells_fail forms.tells_return simp: continues_def apply_account_receipts_def split: option.split prod.split\<close>)
qed

lemma promote_code_tells:
  assumes "in_hand X op keys phrase" "mono C"
  shows "acts X op (\<lambda>E. code_staged op phrase E \<and> was_verified X op E \<and> C E) (promote_code N phrase)
    (\<lambda>_ E. (\<forall>code. phrase = Some code \<longrightarrow> AV_Set MNEMONIC_ACCOUNT code \<in> E) \<and> C E)"
proof (cases phrase)
  case None
  then show ?thesis by (auto simp: promote_code_def intro!: forms.tells_return)
next
  case (Some code)
  let ?P = "\<lambda>E. code_staged op phrase E \<and> was_verified X op E \<and> C E"
  have "acts X op ?P (io_bind (attempt (secret_set N MNEMONIC_ACCOUNT code)) (\<lambda>res. io_lift (map_err f res))) (\<lambda>_ E. AV_Set MNEMONIC_ACCOUNT code \<in> E \<and> ?P E)" for f
    by (rule forms.tells_set_done) (use assms Some in \<open>auto simp: in_hand_def code_staged_def intro!: fact_mono account_fact_mono code_staged_mono\<close>)
  then show ?thesis unfolding promote_code_def Some option.case by (rule forms.tells_weaken) auto
qed

lemma delete_staged_tells:
  assumes "mono P" "\<And>log name. P (set log) \<Longrightarrow> po_staged_code_account p = Some name \<Longrightarrow> account_reason X op log (AV_Delete name)"
  shows "acts X op P (delete_staged N p) (\<lambda>_. P)"
proof (cases "po_staged_code_account p")
  case None
  then show ?thesis by (auto simp: delete_staged_def intro!: forms.tells_return)
next
  case (Some name)
  have "acts X op P (attempt (secret_delete N name)) (\<lambda>_. P)"
    by (rule forms.tells_attempt [OF forms.tells_delete [OF assms(1)] _ assms(1)]) (use assms Some in auto)
  then show ?thesis
    unfolding delete_staged_def Some option.case by (rule forms.tells_bind) (rule forms.tells_lift)
qed

lemma activate_tells:
  assumes "in_hand X op keys phrase" "po_kind op = PK_CreateSpace \<Longrightarrow> po_staged_code_account op = None"
  shows "acts X op (\<lambda>E. continues op p \<and> code_staged op phrase E) (activate X N p keys phrase) (\<lambda>_ _. True)"
proof -
  let ?S = "\<lambda>E. continues op p \<and> code_staged op phrase E"
  let ?p = "p\<lparr>po_phase := PP_ActivationReady\<rparr>"
  let ?V = "\<lambda>q E. verified X op E (po_prepared_account q) \<and> continues op q"
  let ?A = "\<lambda>q E. (\<forall>code. phrase = Some code \<longrightarrow> AV_Set MNEMONIC_ACCOUNT code \<in> E) \<and> ?V q E"
  let ?B = "\<lambda>q E. was_activated X op E \<and> ?A q E"
  have chain: "ck_chain_id keys = chain_of op" using assms(1) by (simp add: in_hand_def)
  have set: "mono (\<lambda>E. \<forall>code. phrase = Some code \<longrightarrow> AV_Set MNEMONIC_ACCOUNT code \<in> E)" by (auto simp: mono_def le_bool_def)
  have mono: "mono ?S" "mono (?A q)" "mono (?B q)" "mono (?V q)" for q
    by (intro fact_mono code_staged_mono account_fact_mono verified_mono set)+
  have save: "acts X op ?S (save_pending X N ?p) (\<lambda>_. ?S)"
    by (rule forms.tells_weaken [OF forms.tells_save_pending [OF mono(1)]]) auto
  have fresh: "acts X op ?S (refresh_target X N ?p keys) (\<lambda>q E. code_staged op phrase E \<and> was_verified X op E \<and> ?V q E)"
  proof (cases "continues op p")
    case True
    then have "continues op ?p" by (simp add: continues_def)
    from refresh_tells [OF mono(1) this chain] show ?thesis by (rule forms.tells_weaken) auto
  qed (simp add: tells_by_def)
  have commit: "acts X op (?A q) (commit_records X N (activate_transform q)) (\<lambda>_. ?B q)" for q
    by (rule forms.tells_weaken [OF forms.tells_commit [OF mono(2)]])
       (auto simp: activate_transform_def Let_def was_activated_def dest!: complete_pending_state split: if_splits)
  have del: "acts X op (?B q) (delete_staged N q) (\<lambda>_. ?B q)" for q
    by (rule delete_staged_tells [OF mono(3)]) (use assms in \<open>auto simp: in_hand_def continues_def\<close>)
  have rest: "acts X op (?B q) (io_bind (commit_records X N (done_transform q)) (\<lambda>_. change_core N f)) (\<lambda>_ _. True)" for q f
    by (rule forms.tells_weaken [OF forms.keepsD [OF _ fact_mono(2) [of True]]]) (intro forms.keeps_rules forms.keeps_world, simp_all)
  show ?thesis
    unfolding activate_def Let_def
    by (rule forms.tells_bind [OF save], rule forms.tells_bind [OF fresh], rule forms.tells_bind [OF promote_code_tells [OF assms(1) mono(4)]],
        rule forms.tells_bind [OF commit], rule forms.tells_bind [OF del], rule rest)
qed

lemma pending_keys_tells:
  "acts X op (\<lambda>_. True) (pending_keys X N op provided) (\<lambda>a _. in_hand X op (fst a) (snd a))"
proof -
  note k = forms.tells_bind [OF forms.keepsD [OF _ fact_mono(2)]]
  have keys: "keeps_by (account_reason X op) (account_keys X N s)" for s
    unfolding account_keys_def by (intro forms.keeps_rules)
  have derived: "acts X op (\<lambda>_. True) (io_lift (map_err f (derive_account X phrase))) (\<lambda>keys _. derive_account X phrase = Inr keys)" for phrase f
    by (rule forms.tells_lift) auto
  have checked: "acts X op (\<lambda>_. P) (io_lift (fail_if b e)) (\<lambda>_ _. P \<and> \<not> b)" for P b e
    by (rule forms.tells_lift) (auto simp: fail_if_Inr)
  show ?thesis
    unfolding pending_keys_def
    apply (rule forms.tells_cond)
     apply (rule k [OF forms.keeps_in_round], rule k [OF keys], rule k [OF forms.keeps_lift], rule forms.tells_bind [OF checked])
     apply (rule forms.tells_return, simp add: in_hand_def)
    apply (rule k [OF forms.keeps_lift], rule k [OF forms.keeps_attempt [OF forms.keeps_get]], rule k [OF forms.keeps_lift], rule k [OF forms.keeps_lift])
    apply (rule forms.tells_bind [OF derived], rule forms.tells_bind [OF checked])
    apply (rule forms.tells_return, auto simp: in_hand_def code_of_def)
    done
qed

lemma complete_pending_tells:
  assumes "po_kind op = PK_CreateSpace \<Longrightarrow> po_staged_code_account op = None"
  shows "acts X op (\<lambda>_. True) (complete_pending X N op provided) (\<lambda>_ _. True)"
proof -
  note k = forms.tells_bind [OF forms.keepsD [OF _ fact_mono(2)]]
  have cleanup: "acts X op (\<lambda>_. True) (cleanup_activated X N op) (\<lambda>_ _. True)" if "po_phase op = PP_Activated"
    unfolding cleanup_activated_def
    by (rule k [OF forms.keeps_in_round], rule k [OF forms.keeps_lift], rule forms.tells_bind [OF delete_staged_tells [OF fact_mono(2)]],
        use that in simp, rule forms.tells_weaken [OF forms.keepsD [OF forms.keeps_commit fact_mono(2) [of True]]], simp_all)
  have complete: "acts X op (\<lambda>_. True)
     (io_bind (connect_relay N (po_relay_url op)) (\<lambda>_.
       io_bind (stage_code X N op keys phrase) (\<lambda>p.
       io_bind (create_remote X N p keys) (\<lambda>p.
       io_bind (create_child X N p keys) (\<lambda>p.
       io_bind (refresh_target X N p keys) (\<lambda>p.
       io_bind (publish_pending X N p keys) (\<lambda>p.
       activate X N p keys phrase))))))) (\<lambda>_ _. True)" if h: "in_hand X op keys phrase" for keys phrase
  proof -
    have chain: "ck_chain_id keys = chain_of op" using h by (simp add: in_hand_def)
    let ?S = "code_staged op phrase" and ?V = "\<lambda>E. code_staged op phrase E \<and> was_verified X op E"
    have m: "mono ?V" by (intro fact_mono code_staged_mono account_fact_mono)
    have stage: "acts X op (\<lambda>_. True) (stage_code X N op keys phrase) (\<lambda>q E. continues op q \<and> ?S E)"
      by (rule forms.tells_weaken [OF stage_code_tells [OF h]]) auto
    have fresh: "acts X op (\<lambda>E. continues op p \<and> ?S E) (refresh_target X N p keys) (\<lambda>q E. continues op q \<and> ?V E)" for p
    proof (cases "continues op p")
      case True
      show ?thesis by (rule forms.tells_weaken [OF refresh_tells [OF code_staged_mono True chain]]) auto
    qed (simp add: tells_by_def)
    have act: "acts X op (\<lambda>E. continues op p \<and> ?V E) (activate X N p keys phrase) (\<lambda>_ _. True)" for p
      by (rule forms.tells_weaken [OF activate_tells [OF h assms]]) auto
    show ?thesis
      by (rule k [OF forms.keeps_world(2)], rule forms.tells_bind [OF stage], rule forms.tells_bind [OF create_remote_tells [OF chain code_staged_mono]],
          rule forms.tells_bind [OF create_child_tells [OF code_staged_mono]], rule forms.tells_bind [OF fresh],
          rule forms.tells_bind [OF publish_pending_tells [OF chain m]], simp, rule act)
  qed
  have "acts X op (\<lambda>_. in_hand X op (fst a) (snd a)) (case a of (keys, phrase) \<Rightarrow>
     if po_phase op = PP_Activated then cleanup_activated X N op
     else io_bind (connect_relay N (po_relay_url op)) (\<lambda>_.
       io_bind (stage_code X N op keys phrase) (\<lambda>p.
       io_bind (create_remote X N p keys) (\<lambda>p.
       io_bind (create_child X N p keys) (\<lambda>p.
       io_bind (refresh_target X N p keys) (\<lambda>p.
       io_bind (publish_pending X N p keys) (\<lambda>p.
       activate X N p keys phrase))))))) (\<lambda>_ _. True)" for a
  proof (cases "in_hand X op (fst a) (snd a)")
    case True
    then show ?thesis using cleanup complete by (auto split: prod.split)
  qed (simp add: tells_by_def)
  then show ?thesis unfolding complete_pending_def by (rule forms.tells_bind [OF pending_keys_tells])
qed

text \<open>C26. Creating or joining an account and creating a space are careful with credentials, at whatever step they stop: a sync code is stored
  only if it derives the chain of the operation, under the name of the operation first and as the code of the device only
  after that, and after the account was verified against the relay; the staged copy is removed only once the code of
  the device was stored and a verified account was committed as the account of the device; and chains are created and records uploaded only for
  the account or the new space, records only after the account was verified. Verified means that an earlier entry of the log is a page
  which the relay of the operation answered for its chain, and that the account is the compatible merge of that page, which a fresh account
  could take over as well; or, for an account that is being created, that the page was empty and the gate missed only the metadata.\<close>

theorem account_forms_carefully:
  assumes "complete_pending X N op provided st = (res, st')" "dv_log st = []"
    "po_kind op = PK_CreateSpace \<Longrightarrow> po_staged_code_account op = None"
  shows "\<forall>before e after. dv_log st' = before @ e # after \<longrightarrow>
     (\<forall>name code. e = AV_Set name code \<longrightarrow> code_of X op code
        \<and> (po_staged_code_account op = Some name
           \<or> name = MNEMONIC_ACCOUNT \<and> was_staged op code (set before) \<and> was_verified X op (set before)))
     \<and> (\<forall>name. e = AV_Delete name \<longrightarrow> po_staged_code_account op = Some name
        \<and> (po_phase op = PP_Activated
           \<or> was_activated X op (set before) \<and> (\<exists>code. code_of X op code \<and> AV_Set MNEMONIC_ACCOUNT code \<in> set before)))
     \<and> (\<forall>i. e = AV_Chain i \<longrightarrow>
          po_kind op = PK_CreateAccount \<and> i = chain_of op \<or> po_kind op = PK_CreateSpace \<and> po_space_id op = Some i)
     \<and> (\<forall>i. e \<noteq> AV_Freeze i) \<and> (\<forall>i outs. e = AV_Push i outs \<longrightarrow> i = chain_of op \<and> was_verified X op (set before))"
proof -
  have "explained_by (account_reason X op) (dv_log st')"
    using complete_pending_tells [of op X N provided] assms unfolding tells_by_def by (metis explained_Nil)
  then have "account_reason X op before e" if "dv_log st' = before @ e # after" for before e after
    using that by (auto simp: explained_by_def)
  then show ?thesis by fastforce
qed

section \<open>Spaces\<close>

lemma checked_add_later: "checked_add t 1 = Some t' \<Longrightarrow> t < max now t'" for t :: u64
  using checked_add_one_gt [of t t'] by (auto simp: less_max_iff_disj)

text \<open>Renaming a space changes exactly the name in the row of the space, and the new row wins over the one it replaces on every
  device, whatever the clock of this one says.\<close>

theorem rename_space_effect:
  assumes "rename_transform X i name now s = Some (Inr s')"
  shows "\<exists>account row row'. st_account s = Some account \<and> bt_get (acc_records account) (record_key RK_Space i) = Some row
    \<and> s' = s\<lparr>st_account := Some (account\<lparr>acc_records := bt_insert (record_key RK_Space i) row' (acc_records account)\<rparr>)\<rparr>
    \<and> lr_dirty row' \<and> lr_seq row' = lr_seq row \<and> remote_wins (lr_record row') (lr_record row)
    \<and> r_id (lr_record row') = r_id (lr_record row) \<and> r_kind (lr_record row') = r_kind (lr_record row)
    \<and> \<not> r_deleted (lr_record row) \<and> \<not> r_deleted (lr_record row')
    \<and> (\<forall>k. jget (r_payload (lr_record row')) k = (if k = lit ''name'' then Some (JString name) else jget (r_payload (lr_record row)) k))"
proof -
  from assms obtain account row row' where r: "st_account s = Some account" "bt_get (acc_records account) (record_key RK_Space i) = Some row"
    "\<not> r_deleted (lr_record row)" "rename_row (st_device_id s) name now row = Some (Inr row')"
    "s' = s\<lparr>st_account := Some (account\<lparr>acc_records := bt_insert (record_key RK_Space i) row' (acc_records account)\<rparr>)\<rparr>"
    by (auto simp: rename_transform_def Let_def ok_or_def opt_filter_def split: sum.splits option.splits if_splits Option.bind_splits)
  from r(4) obtain payload version t where p: "jset (r_payload (lr_record row)) (lit ''name'') (JString name) = Some payload"
    "checked_add (r_updated_at_ms (lr_record row)) 1 = Some t"
    "row' = row\<lparr>lr_record := (lr_record row)\<lparr>r_version := version, r_updated_at_ms := max now t, r_device_id := st_device_id s, r_payload := payload\<rparr>,
       lr_dirty := True\<rparr>"
    by (auto simp: rename_row_def ok_or_def split: option.splits)
  have "remote_wins (lr_record row') (lr_record row)"
    using checked_add_later [OF p(2), of now] by (simp add: p(3) remote_wins_def)
  with r p(3) jget_jset [OF p(1)] show ?thesis by auto
qed

section \<open>What is kept\<close>

text \<open>Accounts are also changed by receipts of the relay and by a chain that is found frozen.\<close>

locale account_invariant = device_invariant X N K
  for X :: "'a merge_ext_scheme" and N :: "('d, 'u) account_env_scheme" and K :: "'d round \<Rightarrow> bool" +
  assumes retained: "runs K (access N (retain_core X N op)) (\<lambda>_. True)"
    and received: "runs K (receipt_commit X N p None sent pushed) (\<lambda>_. True)"
    and frozen: "runs K (mark_frozen X N p) (\<lambda>_. True)"
    and keyed: "runs K (access N (\<lambda>w. (Inr (), w\<lparr>w_core := (w_core w)\<lparr>sc_account_keys := Some keys\<rparr>\<rparr>))) (\<lambda>_. True)"
begin

lemma held_changes:
  "runs held (in_round (access N (retain_core X N op))) (\<lambda>_. True)" "runs held (in_round (receipt_commit X N p None sent pushed)) (\<lambda>_. True)"
  "runs held (in_round (mark_frozen X N p)) (\<lambda>_. True)" "runs held (change_core N (\<lambda>core. core\<lparr>sc_account_keys := Some keys\<rparr>)) (\<lambda>_. True)"
  using retained received frozen keyed by (simp_all add: runs_in_round change_core_def)

lemma held_observe: "runs held (observe_pending_gate X N op gate sch) (\<lambda>_. True)"
proof -
  have "closes (pending_fail_closed op)"
    by (auto simp: closes_def pending_fail_closed_def split: option.splits)
  then show ?thesis unfolding observe_pending_gate_def by (intro held_rules held_closed)
qed

lemma held_save: "runs held (save_pending X N op) (\<lambda>_. True)" "runs held (replace_pending X N op accepted) (\<lambda>_. True)" "runs held (pending N) (\<lambda>_. True)"
  unfolding save_pending_def replace_pending_def pending_def by (intro held_rules held_changes)+

lemma held_target: "runs held (target_pull X N op keys) (\<lambda>_. True)" "runs held (refresh_target X N op keys) (\<lambda>_. True)"
  unfolding refresh_target_def target_pull_def Let_def by (intro held_rules held_observe held_save)+

lemma held_pending_keys: "runs held (pending_keys X N op provided) (\<lambda>_. True)"
  unfolding pending_keys_def account_keys_def by (intro held_rules)

lemma held_delete_staged: "runs held (delete_staged N op) (\<lambda>_. True)"
  unfolding delete_staged_def by (intro held_rules)

lemmas held_parts = held_changes held_observe held_save held_target held_pending_keys held_delete_staged

lemma held_complete: "runs held (complete_pending X N op provided) (\<lambda>_. True)"
  unfolding complete_pending_def cleanup_activated_def stage_code_def create_remote_def create_child_def publish_pending_def activate_def promote_code_def Let_def
  by (intro held_parts held_rules)

lemma held_account_resume: "(\<And>c. runs held (rotation c) (\<lambda>_. True)) \<Longrightarrow> runs held (account_resume X N rotation provided) (\<lambda>_. True)"
  unfolding account_resume_def by (intro held_parts held_rules held_complete held_leave_resume)

lemma held_create:
  assumes "\<And>c. runs held (rotation c) (\<lambda>_. True)"
  shows "runs held (create_account X N rotation name) (\<lambda>_. True)" "runs held (join_account X N rotation code name) (\<lambda>_. True)"
    "runs held (create_space_with_slug X N rotation name slug) (\<lambda>_. True)"
  unfolding create_account_def join_account_def create_space_with_slug_def generate_code_def account_new_id_def random_keys_def seal_secret_def compatible_account_def Let_def
  by (intro held_parts held_rules held_account_resume assms)+

lemma held_commit_or_panic: "runs held (commit_or_panic X N f) (\<lambda>_. True)"
  using held_commit held_unwrap(2)
  by (fastforce simp: runs_def commit_or_panic_def split: prod.splits sum.splits if_splits)

lemma held_spaces: "runs held (select_space X N i b) (\<lambda>_. True)" "runs held (rename_space X N i name) (\<lambda>_. True)"
  unfolding select_space_def rename_space_def compatible_account_def by (intro held_rules held_commit_or_panic)+

lemma held_keys: "runs held (publish_key X N i public private) (\<lambda>_. True)" "runs held (unpublish_key X N i) (\<lambda>_. True)"
  unfolding publish_key_def unpublish_key_def publish_current_def compatible_account_def seal_secret_def Let_def
  by (intro held_parts held_rules)+

end

lemma retain_core_sound:
  assumes "state_path_ok U" "sound X U w" shows "sound X U (snd (retain_core X U op w))"
proof -
  obtain r w' where r: "retain_core X U op w = (r, w')" by force
  then consider e where "r = Inl e" "w' = w"
    | s0 s g where "sc_save_blocked (w_core w) = None" "active_state (w_core w) = Inr s0" "validate_state X U s = Inr ()"
      "save_core X U (w\<lparr>w_core := (w_core w)\<lparr>sc_records := Some s, sc_generation := g\<rparr>\<rparr>) = (r, w')"
    unfolding retain_core_def Let_def by (auto split: sum.splits option.splits)
  then show ?thesis
  proof cases
    case 2
    with save_core_sound [OF assms(1) _ _ _ _ 2(3) _ _ 2(4)] assms(2) r show ?thesis
      by (auto simp: active_state_Inr sound_def Let_def)
  qed (use assms r in simp)
qed

interpretation managed: account_invariant X N "\<lambda>r. guarded X N \<longrightarrow> sound X N (rd_world r)"
  for X :: "'a merge_ext_scheme" and N :: "('d, 'u) account_env_scheme"
proof (unfold_locales, goal_cases)
  case (1 op)
  show ?case by (rule runs_forget [OF rounds.runs_access [where Q = "\<lambda>_. True"]]) (metis guarded_def retain_core_sound snd_conv, simp)
next
  case (2 p sent pushed)
  show ?case by (rule runs_forget [OF rounds.runs_receipt_commit]) simp
next
  case (3 p)
  show ?case by (rule runs_forget [OF rounds.runs_mark_frozen]) simp
next
  case (4 keys)
  show ?case by (rule runs_forget [OF rounds.runs_access [where Q = "\<lambda>_. True"]]) (auto simp: sound_def Let_def)
qed

section \<open>An example\<close>

text \<open>A joined account with a space.\<close>

definition space_row :: local_record where
  "space_row = \<lparr>lr_record = \<lparr>r_kind = RK_Space, r_id = lib_space, r_version = 1, r_updated_at_ms = 5, r_device_id = lit ''d'', r_deleted = False,
     r_payload = JObject [(lit ''name'', JString (lit ''Home''))]\<rparr>, lr_seq = 3, lr_dirty = False\<rparr>"

definition space_account :: account_state where
  "space_account = (account_new (ck_chain_id sample_keys))\<lparr>acc_records := [(record_key RK_Space lib_space, space_row)]\<rparr>"

definition quiet_account :: "unit account_env" where
  "quiet_account = device_env.extend quiet_device (account_env.fields (lit ''linux'') (lit ''1'') (\<lambda>_. Inl []) (\<lambda>_. None))"

text \<open>An operation that creates an account, on a device whose keychain works and whose relay refuses to create the chain.\<close>

definition sample_code :: rstr where
  "sample_code = join (lit '' '') (replicate 24 (lit ''a''))"

definition creating :: pending_account_operation where
  "creating = account_operation joined_state (lit ''a'') (lit ''desk'') PK_CreateAccount PP_Prepared
     (account_new (ck_chain_id (projr (derive_account lib_ext sample_code))))"

definition open_account_env :: "unit account_env" where
  "open_account_env = quiet_account\<lparr>x_secret_get := \<lambda>_ _. Inr (Some sample_code), x_secret_set := \<lambda>_ _ _. Inr ()\<rparr>"

lemma sample_code_derives: "\<exists>keys. derive_account lib_ext sample_code = Inr keys"
proof -
  have "list_all word_ok (replicate 24 (lit ''a''))" by (simp add: list_all_iff word_ok_def lit_def is_whitespace_def)
  then have "length (split_whitespace sample_code) = 24" by (simp add: sample_code_def split_whitespace_join)
  moreover have "x_mnemonic_parse lib_ext t = Inr ()" for t
    by (simp add: lib_ext_def sample_rext_def record_ext.defs crypto_ext.defs merge_ext.defs sample_ext_def)
  ultimately show ?thesis by (simp add: derive_account_def seed_of_def normalize_mnemonic_def Let_def)
qed

lemma creating_log:
  "dv_log (snd (complete_pending lib_ext open_account_env creating None sample_device)) =
     [AV_Read (PENDING_CODE_PREFIX @ lit ''a'') (Some sample_code), AV_Set (PENDING_CODE_PREFIX @ lit ''a'') sample_code, AV_Chain (chain_of creating)]"
proof -
  obtain keys where keys: "derive_account lib_ext sample_code = Inr keys" using sample_code_derives by blast
  have env: "x_secret_get open_account_env n name = Inr (Some sample_code)" "x_secret_set open_account_env n name v = Inr ()"
    "x_connect open_account_env n url = Inr ()" "x_create_chain open_account_env n url i t = Inl R_NotFound" for n name v url i t
    by (simp_all add: open_account_env_def quiet_account_def quiet_device_def quiet_round_def runtime_env.defs round_env.defs device_env.defs account_env.defs)
  have op: "po_kind creating = PK_CreateAccount" "po_phase creating = PP_Prepared" "po_staged_code_account creating = Some (PENDING_CODE_PREFIX @ lit ''a'')"
    "chain_of creating = ck_chain_id keys" "\<not> verify_first creating"
    by (simp_all add: creating_def account_operation_def keys account_new_def verify_first_def is_some_and_def)
  show ?thesis
    by (simp add: complete_pending_def pending_keys_def op env keys io_bind_def io_lift_def io_return_def attempt_def secret_get_def secret_set_def
        connect_relay_def in_round_def ask_def unwrap_def stage_code_def create_remote_def create_chain_def log_account_def next_step_def
        ok_or_def map_err_def fail_if_def sample_device_def)
qed

theorem account_forms_carefully_witness:
  "\<exists>keys. AV_Set (PENDING_CODE_PREFIX @ lit ''a'') sample_code \<in> set (dv_log (snd (complete_pending lib_ext open_account_env creating None sample_device)))
     \<and> AV_Chain (chain_of creating) \<in> set (dv_log (snd (complete_pending lib_ext open_account_env creating None sample_device)))
     \<and> derive_account lib_ext sample_code = Inr keys \<and> ck_chain_id keys = chain_of creating"
proof -
  obtain res st where st: "complete_pending lib_ext open_account_env creating None sample_device = (res, st)" by force
  have "dv_log sample_device = []" by (simp add: sample_device_def)
  moreover have "po_kind creating \<noteq> PK_CreateSpace" by (simp add: creating_def account_operation_def)
  moreover have "dv_log st = [AV_Read (PENDING_CODE_PREFIX @ lit ''a'') (Some sample_code)] @ AV_Set (PENDING_CODE_PREFIX @ lit ''a'') sample_code # [AV_Chain (chain_of creating)]"
    using creating_log st by simp
  ultimately have "code_of lib_ext creating sample_code" using account_forms_carefully [OF st] by blast
  then show ?thesis by (auto simp: creating_log code_of_def)
qed

theorem rename_space_effect_witness:
  "\<exists>s'. rename_transform lib_ext lib_space (lit ''Work'') 2 (joined_state\<lparr>st_account := Some space_account\<rparr>) = Some (Inr s')
    \<and> (\<exists>row'. st_account s' = Some (space_account\<lparr>acc_records := bt_insert (record_key RK_Space lib_space) row' (acc_records space_account)\<rparr>)
         \<and> remote_wins (lr_record row') (lr_record space_row) \<and> jget (r_payload (lr_record row')) (lit ''name'') = Some (JString (lit ''Work'')))"
proof -
  let ?s = "joined_state\<lparr>st_account := Some space_account\<rparr>"
  have get: "bt_get (acc_records space_account) (record_key RK_Space lib_space) = Some space_row"
    by (simp add: space_account_def bt_get_def)
  have "bt_get (acc_records space_account) account_meta_key = None"
    by (simp add: space_account_def bt_get_def account_meta_key_def record_key_def lib_space_def str_simps)
  then have open_account: "ensure_shared lib_ext ?s = Inr ()"
    by (simp add: ensure_shared_def account_writes_blocked_def account_migration_pending_def is_some_and_def)
       (simp add: joined_state_def plain_state_def space_account_def account_new_def)
  obtain row where row: "rename_row (st_device_id ?s) (lit ''Work'') 2 space_row = Some (Inr row)"
    by (simp add: rename_row_def space_row_def checked_add_def)
  then obtain s' where s': "rename_transform lib_ext lib_space (lit ''Work'') 2 ?s = Some (Inr s')"
    using open_account get by (simp add: rename_transform_def Let_def space_row_def)
  from rename_space_effect [OF s'] get have
    "\<exists>row'. st_account s' = Some (space_account\<lparr>acc_records := bt_insert (record_key RK_Space lib_space) row' (acc_records space_account)\<rparr>)
         \<and> remote_wins (lr_record row') (lr_record space_row) \<and> jget (r_payload (lr_record row')) (lit ''name'') = Some (JString (lit ''Work''))"
    by auto
  with s' show ?thesis by blast
qed

end
