(* ===== verification/Rotation_Properties.thy ===== *)
theory Rotation_Properties
  imports Record_Rotation Account_Properties
begin

text \<open>
  What a rotation guarantees: both sync codes are kept until the device has switched over, nothing is frozen before they are,
  and the copy holds what the source holds. The operations on accounts together keep memory and disk sound.
\<close>

section \<open>What is kept\<close>

locale rotation_invariant = account_invariant X N K
  for X :: "'a merge_ext_scheme" and N :: "('d, 'u) rotation_env_scheme" and K :: "'d round \<Rightarrow> bool" +
  assumes noted: "runs K (access N (retain_rotation X N op)) (\<lambda>_. True)"
    and flushed: "runs K (flush_for_rotation X N) (\<lambda>_. True)"
begin

lemma held_store_rotation: "runs held (rotation_store X N op accepted) (\<lambda>_. True)"
  unfolding rotation_store_def by (intro held_rules runs_in_round noted)

lemma held_block: "runs held (retain_blocked_gate X N op) (\<lambda>_. True)"
proof -
  have "closes (rotation_fail_closed op)"
    by (auto simp: closes_def rotation_fail_closed_def split: option.splits)
  then show ?thesis unfolding retain_blocked_gate_def by (intro held_rules held_store_rotation held_closed)
qed

lemma held_latest: "runs held (rotation_latest X N op) (\<lambda>_. True)" "runs held (rotation_current N) (\<lambda>_. True)"
  unfolding rotation_latest_def rotation_current_def by (intro held_rules)+

lemma held_freeze: "runs held (freeze N url chain tok) (\<lambda>_. True)"
  by (auto simp: runs_def freeze_def next_step_def log_account_def stepped)

lemma held_codes: "runs held (keys_for X N op provided) (\<lambda>_. True)" "runs held (source_code X N op) (\<lambda>_. True)"
  "runs held (secret_set_or N what name code) (\<lambda>_. True)" "runs held (secret_delete_or N what name) (\<lambda>_. True)"
  unfolding keys_for_def source_code_def read_code_def secret_set_or_def secret_delete_or_def by (intro held_rules)+

lemma held_proofs: "runs held (source_proof X N op keys) (\<lambda>_. True)" "runs held (target_proof X N op keys) (\<lambda>_. True)"
  unfolding source_proof_def target_proof_def Let_def by (intro held_rules held_block held_store_rotation)+

lemma held_source_children: "runs held (source_children X N url account keys known rows spaces) (\<lambda>_. True)"
  by (induction rows arbitrary: spaces) (auto simp: Let_def intro!: held_rules)

lemma held_source_full: "runs held (source_full X N source keys known) (\<lambda>_. True)"
  unfolding source_full_def Let_def by (intro held_rules held_source_children)

lemma held_draw: "runs held (draw_children X N rest children) (\<lambda>_. True)"
  by (induction rest arbitrary: children) (auto simp: random_keys_def intro!: held_rules)

lemma held_assign: "runs held (assign_chains N ids m) (\<lambda>_. True)"
  by (induction ids arbitrary: m) (auto simp: random_keys_def intro!: held_rules)

lemma held_lift_or_panic: "runs held (lift_or_panic x) (\<lambda>_. True)"
  unfolding lift_or_panic_def by (intro held_rules)

lemma held_query: "runs held (in_round (query f)) (\<lambda>_. True)"
  by (simp add: query_def held_ask)

lemma held_prepare: "runs held (prepare_targets X N op old new) (\<lambda>_. True)"
  unfolding prepare_targets_def by (intro held_rules held_query held_draw held_lift_or_panic)

lemmas rotation_parts = held_store_rotation held_latest held_freeze held_codes held_proofs held_source_full held_assign held_lift_or_panic held_prepare

lemma held_freeze_spaces: "runs held (freeze_spaces X N old ids op) (\<lambda>_. True)"
  by (induction ids arbitrary: op) (auto simp: freeze_noted_def Let_def intro!: held_rules rotation_parts)

lemma held_create_targets: "runs held (create_targets X N new ids op) (\<lambda>_. True)"
  by (induction ids arbitrary: op) (auto simp: create_noted_def Let_def intro!: held_rules rotation_parts)

lemma held_push: "runs held (rotation_push X N op new space) (\<lambda>_. True)" "runs held (rotation_space_proof X N op new i) (\<lambda>_. True)"
  unfolding rotation_push_def rotation_space_proof_def Let_def by (intro held_rules rotation_parts)+

lemma held_copy_targets: "runs held (copy_targets X N new ids op) (\<lambda>_. True)"
  by (induction ids arbitrary: op) (auto intro!: held_rules rotation_parts held_push)

lemma held_advance: "runs held (rotation_advance X N op new phrase) (\<lambda>_. True)"
  unfolding rotation_advance_def rotation_stage_def freeze_sources_def copy_frozen_def create_noted_def freeze_noted_def publish_copy_def switch_over_def Let_def
  by (intro held_rules rotation_parts held_freeze_spaces held_create_targets held_push held_copy_targets)

lemma held_rotation_resume: "runs held (rotation_resume k X N provided) (\<lambda>_. True)"
proof (induction k arbitrary: provided)
  case 0
  show ?case by (simp add: held_rules)
next
  case (Suc k)
  show ?case
    unfolding rotation_resume.simps rotation_cleanup_def
    by (intro held_rules rotation_parts held_advance Suc.IH)
qed

lemma held_start: "runs held (start_rotation k X N name) (\<lambda>_. True)"
  unfolding start_rotation_def compatible_account_def generate_code_def check_storage_budget_def Let_def
  by (intro held_rules rotation_parts held_rotation_resume runs_in_round flushed)

end

lemma retain_rotation_sound:
  assumes "state_path_ok U" "sound X U w" shows "sound X U (snd (retain_rotation X U op w))"
proof -
  obtain r w' where r: "retain_rotation X U op w = (r, w')" by force
  then consider e where "r = Inl e" "w' = w"
    | s0 s g where "sc_save_blocked (w_core w) = None" "active_state (w_core w) = Inr s0" "validate_state X U s = Inr ()"
      "save_core X U (w\<lparr>w_core := (w_core w)\<lparr>sc_records := Some s, sc_generation := g\<rparr>\<rparr>) = (r, w')"
    unfolding retain_rotation_def Let_def by (auto split: sum.splits option.splits)
  then show ?thesis
  proof cases
    case 2
    with save_core_sound [OF assms(1) _ _ _ _ 2(3) _ _ 2(4)] assms(2) r show ?thesis
      by (auto simp: active_state_Inr sound_def Let_def)
  qed (use assms r in simp)
qed

interpretation rotated: rotation_invariant X N "\<lambda>r. guarded X N \<longrightarrow> sound X N (rd_world r)"
  for X :: "'a merge_ext_scheme" and N :: "('d, 'u) rotation_env_scheme"
proof (unfold_locales, goal_cases)
  case (1 op)
  show ?case by (rule runs_forget [OF rounds.runs_access [where Q = "\<lambda>_. True"]]) (metis guarded_def retain_rotation_sound snd_conv, simp)
next
  case 2
  show ?case unfolding flush_for_rotation_def by (rule runs_forget [OF rounds.runs_run]) simp
qed

section \<open>The log of a rotation\<close>

definition archive_of :: "pending_account_operation \<Rightarrow> rstr" where
  "archive_of op = rl_source_code_account (plan_of op)"











text \<open>An operation as it goes on.\<close>

definition goes_on :: "pending_account_operation \<Rightarrow> pending_account_operation \<Rightarrow> bool" where
  "goes_on op p \<longleftrightarrow> po_id p = po_id op \<and> po_staged_code_account p = po_staged_code_account op \<and> archive_of p = archive_of op"

lemma goes_on_refl [simp]: "goes_on op op"
  by (simp add: goes_on_def)

lemma goes_on_with_plan:
  "(\<And>p. rl_source_code_account (f p) = rl_source_code_account p) \<Longrightarrow> goes_on op (with_plan f p) = goes_on op p"
  by (cases "po_rotation p") (auto simp: goes_on_def with_plan_def archive_of_def plan_of_def)

lemma goes_on_simps [simp]:
  "goes_on op (p\<lparr>po_phase := ph\<rparr>) = goes_on op p" "goes_on op (p\<lparr>po_prepared_account := a\<rparr>) = goes_on op p"
  "goes_on op (with_plan (\<lambda>p. p\<lparr>rl_step := st\<rparr>) p) = goes_on op p"
  "goes_on op (with_plan (\<lambda>p. p\<lparr>rl_frozen := F p\<rparr>) p) = goes_on op p"
  "goes_on op (with_plan (\<lambda>p. p\<lparr>rl_created := C p\<rparr>) p) = goes_on op p"
  "goes_on op (with_plan (\<lambda>p. p\<lparr>rl_space_ids := m\<rparr>) p) = goes_on op p"
  "goes_on op (with_plan (\<lambda>p. p\<lparr>rl_source_digest := d\<rparr>) p) = goes_on op p"
  "goes_on op (with_plan (\<lambda>p. p\<lparr>rl_target_spaces := T p\<rparr>) p) = goes_on op p"
  "goes_on op (with_source src p) = goes_on op p"
  by (simp_all add: goes_on_with_plan with_source_def) (simp_all add: goes_on_def archive_of_def plan_of_def)












section \<open>What the steps return\<close>





















section \<open>The steps of a rotation\<close>












text \<open>Freezing keeps the plan, and copying what is frozen leads to the step of copying.\<close>

definition has_plan :: "pending_account_operation \<Rightarrow> bool" where
  "has_plan p \<longleftrightarrow> po_rotation p \<noteq> None"

lemma has_plan_simps [simp]: "has_plan (with_plan f p) = has_plan p" "has_plan (with_source src p) = has_plan p"
  "has_plan (p\<lparr>po_prepared_account := a\<rparr>) = has_plan p"
  by (simp_all add: has_plan_def with_plan_def with_source_def)














section \<open>A rotation ends\<close>

definition pending_of :: "'d world \<Rightarrow> pending_account_operation option" where
  "pending_of w = Option.bind (sc_records (w_core w)) st_pending_account"

definition is_active :: "'d world \<Rightarrow> bool" where
  "is_active w \<longleftrightarrow> (\<exists>op. pending_of w = Some op \<and> po_phase op = PP_Activated)"

text \<open>Other threads leave the pending operation alone: every operation on accounts holds the lifecycle lock.\<close>

definition others_keep_pending :: "('d, 'u) round_env_scheme \<Rightarrow> bool" where
  "others_keep_pending N \<longleftrightarrow> (\<forall>n w. pending_of (x_others N n w) = pending_of w)"

lemma bind_same:
  assumes "runs P m Q" "P st" "\<And>a st'. P st' \<Longrightarrow> Q a \<Longrightarrow> f a st' = g a st'"
  shows "io_bind m f st = io_bind m g st"
  using assms by (fastforce simp: runs_def io_bind_def split: prod.split sum.split)

lemma bind_after: "(\<And>st a st'. m st = (Inr a, st') \<Longrightarrow> f a st' = g a st') \<Longrightarrow> io_bind m f = io_bind m g"
  by (auto simp: fun_eq_iff io_bind_def split: prod.split sum.split)

lemma save_core_records: "sc_records (w_core (snd (save_core X U w))) = sc_records (w_core w)"
  by (auto simp: save_core_def mark_saved_def on_disk_def Let_def split: option.split runtime_format.split sum.split prod.split)

lemma runs_access_active:
  assumes "others_keep_pending N" "\<And>w x w'. is_active w \<Longrightarrow> f w = (x, w') \<Longrightarrow> is_active w' \<and> (\<forall>a. x = Inr a \<longrightarrow> Q a)"
  shows "runs (\<lambda>r. is_active (rd_world r)) (access N f) Q"
proof (rule runsI)
  fix r x r'
  assume r: "is_active (rd_world r)" "access N f r = (x, r')"
  have "is_active (x_others N (rd_step r) (rd_world r))" using r(1) assms(1) by (simp add: is_active_def others_keep_pending_def)
  with assms(2) r(2) show "is_active (rd_world r') \<and> (\<forall>a. x = Inr a \<longrightarrow> Q a)" by (auto simp: access_def split: prod.splits)
qed

lemma runs_is_active:
  assumes "others_keep_pending N"
  shows "runs (\<lambda>r. is_active (rd_world r)) (preflight X N) (\<lambda>_. True)"
    "runs (\<lambda>r. is_active (rd_world r)) (core_read N) (\<lambda>s. \<exists>op. st_pending_account s = Some op \<and> po_phase op = PP_Activated)"
proof -
  have core: "is_active (snd (preflight_core X N w)) = is_active w" for w
    by (auto simp: preflight_core_def Let_def is_active_def pending_of_def save_core_records split: sum.split)
  have disk: "is_active (snd (on_disk m w)) = is_active w" for m w
    by (auto simp: on_disk_def is_active_def pending_of_def split: prod.split)
  show "runs (\<lambda>r. is_active (rd_world r)) (preflight X N) (\<lambda>_. True)"
    unfolding preflight_def
    by (rule runs_bind [where Q = "\<lambda>_. True"]; rule runs_access_active [OF assms]) (metis disk snd_conv, metis core snd_conv)
  show "runs (\<lambda>r. is_active (rd_world r)) (core_read N) (\<lambda>s. \<exists>op. st_pending_account s = Some op \<and> po_phase op = PP_Activated)"
    unfolding core_read_def
    by (rule runs_access_active [OF assms]) (auto simp: core_snapshot_def is_active_def pending_of_def active_state_Inr)
qed

text \<open>An action that, when it succeeds, ends with the rotation active.\<close>

definition activates :: "('d, 'b) device_act \<Rightarrow> bool" where
  "activates m \<longleftrightarrow> (\<forall>st a st'. m st = (Inr a, st') \<longrightarrow> is_active (rd_world (dv_round st')))"

lemma activates_bind: "(\<And>a. activates (f a)) \<Longrightarrow> activates (io_bind m f)"
  by (auto simp: activates_def io_bind_def split: prod.splits sum.splits)

lemma activates_switch: "activates (commit_records X N (switch_transform op))"
proof -
  have "is_active w'" if "mutate_records X N (switch_transform op) w = (Inr g, w')" for w w' :: "'d world" and g
    using that
  proof (rule mutate_records_state)
    fix latest c s
    assume "switch_transform op latest = Inr c" and c: "complete_candidate X N (w_core w) c = Inr s" "sc_records (w_core w') = Some s"
    then have "st_pending_account c = Some (op\<lparr>po_phase := PP_Activated\<rparr>)" by (auto simp: switch_transform_def split: if_splits)
    from complete_pending_state [OF c(1) this] c(2) show ?thesis by (simp add: is_active_def pending_of_def)
  qed
  then show ?thesis
    by (fastforce simp: activates_def commit_records_def in_round_def access_def log_account_def split: prod.splits sum.splits option.splits)
qed

lemma activates_advance: "activates (rotation_advance X N op new phrase)"
  unfolding rotation_advance_def switch_over_def Let_def split_beta by (intro activates_bind activates_switch)

lemma resume_active:
  assumes "others_keep_pending N" "is_active (rd_world (dv_round st))"
  shows "rotation_resume (Suc k) X N provided st = rotation_resume 1 X N provided st"
proof -
  note act = runs_in_round [OF runs_is_active(1) [OF assms(1)]] runs_in_round [OF runs_is_active(2) [OF assms(1)]]
  have current: "runs (\<lambda>st. is_active (rd_world (dv_round st))) (rotation_current N) (\<lambda>op. po_phase op = PP_Activated)"
    unfolding rotation_current_def by (rule runs_bind [OF act(2)]) (auto simp: runs_def io_lift_def ok_or_def)
  show ?thesis
    unfolding One_nat_def rotation_resume.simps
    by (rule bind_same [OF act(1) assms(2)], rule bind_same [OF current], assumption, simp cong: if_cong)
qed

text \<open>C31. A rotation ends: its last step resumes once more, finds the rotation active and cleans up, so that allowing two rounds is as
  good as allowing any number of them, provided no other thread touches the pending operation.\<close>

theorem rotation_ends:
  assumes "others_keep_pending N"
  shows "rotation_resume (k + 2) X N provided st = rotation_resume 2 X N provided st"
proof -
  have again: "io_bind (rotation_advance X N op new phrase) (\<lambda>_. rotation_resume (Suc k) X N None)
      = io_bind (rotation_advance X N op new phrase) (\<lambda>_. rotation_resume (Suc 0) X N None)" for op new phrase
    by (rule bind_after, rule resume_active [OF assms, unfolded One_nat_def]) (use activates_advance [of X N op new phrase] in \<open>auto simp: activates_def\<close>)
  have "k + 2 = Suc (Suc k)" "2 = Suc (Suc 0)" by simp_all
  then show ?thesis by (simp only: rotation_resume.simps(2) [of "Suc _"] again)
qed

section \<open>All operations on accounts\<close>

inductive account_step :: "nat \<Rightarrow> 'a merge_ext_scheme \<Rightarrow> ('d, 'u) rotation_env_scheme \<Rightarrow> 'd device \<Rightarrow> 'd device \<Rightarrow> bool"
  for k X N where
  created: "create_account X N (rotation_resume k X N) name st = (res, st') \<Longrightarrow> account_step k X N st st'"
| joined: "join_account X N (rotation_resume k X N) code name st = (res, st') \<Longrightarrow> account_step k X N st st'"
| resumed: "account_resume X N (rotation_resume k X N) provided st = (res, st') \<Longrightarrow> account_step k X N st st'"
| space_created: "create_space_with_slug X N (rotation_resume k X N) name slug st = (res, st') \<Longrightarrow> account_step k X N st st'"
| space_selected: "select_space X N i on st = (res, st') \<Longrightarrow> account_step k X N st st'"
| space_renamed: "rename_space X N i name st = (res, st') \<Longrightarrow> account_step k X N st st'"
| key_published: "publish_key X N i public private st = (res, st') \<Longrightarrow> account_step k X N st st'"
| key_unpublished: "unpublish_key X N i st = (res, st') \<Longrightarrow> account_step k X N st st'"
| left: "leave_account X N st = (res, st') \<Longrightarrow> account_step k X N st st'"
| rotation_started: "start_rotation k X N name st = (res, st') \<Longrightarrow> account_step k X N st st'"

lemma runs_sound:
  "runs (\<lambda>st. guarded X N \<longrightarrow> sound X N (rd_world (dv_round st))) m (\<lambda>_. True) \<Longrightarrow> m st = (res, st') \<Longrightarrow> guarded X N
    \<Longrightarrow> sound X N (rd_world (dv_round st)) \<Longrightarrow> sound X N (rd_world (dv_round st'))"
  by (auto dest: runsD)

lemmas account_held = managed.held_create [OF rotated.held_rotation_resume] managed.held_account_resume [OF rotated.held_rotation_resume]
  managed.held_spaces managed.held_keys kept_leave_account rotated.held_start

lemma account_step_sound:
  assumes "account_step k X N st st'" "guarded X N" "sound X N (rd_world (dv_round st))"
  shows "sound X N (rd_world (dv_round st'))"
  using assms by cases (erule runs_sound [rotated], assumption, assumption, rule account_held)+

text \<open>C30. Whatever is done with accounts keeps memory and disk sound: creating, joining and leaving, spaces and published keys, rotation and
  resuming what was interrupted, in any order, whatever the relay and the keychain answer, whichever system calls fail and
  wherever an operation stops. The state file always holds a valid state from which the pending operation can be resumed.\<close>

theorem account_operations_keep_sound:
  assumes "(account_step k X N)\<^sup>*\<^sup>* st st'" "guarded X N" "sound X N (rd_world (dv_round st))"
  shows "sound X N (rd_world (dv_round st'))"
  using assms by induction (auto intro: account_step_sound)

section \<open>An example\<close>

text \<open>A device with an account and a rotation that has been prepared.\<close>

definition rotating :: pending_account_operation where
  "rotating = rotation_operation joined_state (lit ''a'') (lit ''desk'') (replicate 64 49) (space_account, []) [] (replicate 64 50)"

definition rotating_device :: "unit device" where
  "rotating_device = sample_device\<lparr>dv_round := sample_round\<lparr>rd_world := (rd_world sample_round)\<lparr>w_core := (w_core (rd_world sample_round))\<lparr>sc_records :=
     Some (joined_state\<lparr>st_pending_account := Some rotating\<rparr>)\<rparr>\<rparr>\<rparr>\<rparr>"

definition quiet_rotation :: "unit rotation_env" where
  "quiet_rotation = account_env.extend quiet_account (rotation_env.fields (\<lambda>_ _ _ _. Inr ()) (\<lambda>_ _. Inl R_NotFound)
     (\<lambda>_. None) (\<lambda>_. None) (\<lambda>_. JNull) (\<lambda>_ _. None))"


lemma quiet_rotation_simps [simp]:
  "x_others quiet_rotation n w = w" "x_state_path quiet_rotation = x_state_path sample_env" "x_state_to_vec quiet_rotation = x_state_to_vec sample_env"
  by (simp_all add: quiet_rotation_def quiet_account_def quiet_device_def quiet_round_def runtime_env.defs round_env.defs device_env.defs
      account_env.defs rotation_env.defs)

lemma quiet_rotation_ok: "guarded X quiet_rotation" "sound X quiet_rotation (rd_world (dv_round sample_device))"
proof -
  show "guarded X quiet_rotation" using sample_env_ok(2) by (simp add: guarded_def state_path_ok_def)
  have "saved quiet_rotation (plain_state 3) old_disk"
    by (simp add: saved_def old_disk_def) (simp add: sample_env_def MAX_STATE_BYTES_def)
  then show "sound X quiet_rotation (rd_world (dv_round sample_device))"
    using plain_state_valid [of 3 X quiet_rotation] joined_valid [of X quiet_rotation]
    by (auto simp: sound_def sample_device_def sample_round_def core_default_def)
qed

theorem account_operations_keep_sound_witness:
  "\<exists>st. (account_step 2 lib_ext quiet_rotation)\<^sup>*\<^sup>* sample_device st
    \<and> st = snd (leave_account lib_ext quiet_rotation (snd (start_rotation 2 lib_ext quiet_rotation (lit ''desk'') sample_device)))
    \<and> sound lib_ext quiet_rotation (rd_world (dv_round st))"
proof -
  obtain res st where st: "start_rotation 2 lib_ext quiet_rotation (lit ''desk'') sample_device = (res, st)" by force
  obtain res' st' where st': "leave_account lib_ext quiet_rotation st = (res', st')" by force
  have run: "(account_step 2 lib_ext quiet_rotation)\<^sup>*\<^sup>* sample_device st'"
    using rotation_started [OF st] left [OF st'] by (rule converse_rtranclp_into_rtranclp [OF _ r_into_rtranclp])
  from account_operations_keep_sound [OF run quiet_rotation_ok] run st st' show ?thesis by auto
qed

theorem rotation_ends_witness:
  "rotation_resume 7 lib_ext quiet_rotation None rotating_device = rotation_resume 2 lib_ext quiet_rotation None rotating_device"
  using rotation_ends [of quiet_rotation 5 lib_ext None rotating_device] by (simp del: rotation_resume.simps add: others_keep_pending_def)

end
