(* ===== verification/Rotation_Copy.thy ===== *)
theory Rotation_Copy
  imports Rotation_Properties Merge_Properties
begin

text \<open>
  What a rotation copies: the records of a space as they are, and every sealed record so that the keys of the copy open it
  to the value the old keys open.
\<close>

section \<open>Sealing again\<close>

text \<open>The text form of a value reads back, and nonces have their length.\<close>

definition reads_back :: "'a crypto_ext_scheme \<Rightarrow> ('d, 'u) rotation_env_scheme \<Rightarrow> bool" where
  "reads_back X N \<longleftrightarrow> (\<forall>v b. x_json_to_vec N v = Some b \<longrightarrow> x_value_from_slice X b = Some v)"

definition full_nonces :: "(nat \<Rightarrow> rstr + bytes) \<Rightarrow> bool" where
  "full_nonces nonces \<longleftrightarrow> (\<forall>n nonce. nonces n = Inr nonce \<longrightarrow> length nonce = NONCE_LEN)"

lemma open_value_Inr:
  assumes "open_value X keys e = Inr v"
  obtains m where "v = JObject m" "value_header_ok X keys e m"
  using assms by (cases v) (auto simp: open_value_def fail_if_Inr)

lemma header_value:
  assumes "value_header_ok X keys e m"
  shows "as_bool (jat (JObject m) (lit ''deleted'')) = Some (e_deleted e)"
    "as_str_json (jat (JObject m) (lit ''id'')) = Some (value_id (JObject m))"
    "value_id (JObject m) \<noteq> []"
  using assms by (auto simp: value_header_ok_def jat_def value_id_def is_some_and_def split: option.splits Option.bind_splits)

lemma seal_value_Inr:
  assumes "seal_value X N nonce new kind i v = Inr e"
  obtains b s where "x_json_to_vec N v = Some b" "seal X nonce new kind i b = Inr s" "e_id_hash e = s_id_hash s" "e_kind e = kind"
    "e_nonce e = s_nonce s" "e_ciphertext e = s_ciphertext s" "as_bool (jat v (lit ''deleted'')) = Some (e_deleted e)"
  using assms by (auto simp: seal_value_def)

lemma open_seal_value:
  assumes "crypto_laws X" "reads_back X N" "full_nonces nonces"
    and old: "open_value X old e = Inr v" and new: "seal_value X N (nonces n) new (e_kind e) (value_id v) v = Inr c"
  shows "open_value X new c = Inr v" "e_kind c = e_kind e" "e_deleted c = e_deleted e" "e_id_hash c = id_hash X new (e_kind e) (value_id v)"
proof -
  from old obtain m where m: "v = JObject m" "value_header_ok X old e m" by (rule open_value_Inr)
  from new obtain b s where s: "x_json_to_vec N v = Some b" "seal X (nonces n) new (e_kind e) (value_id v) b = Inr s" "e_id_hash c = s_id_hash s"
    "e_kind c = e_kind e" "e_nonce c = s_nonce s" "e_ciphertext c = s_ciphertext s" "as_bool (jat v (lit ''deleted'')) = Some (e_deleted c)"
    by (rule seal_value_Inr)
  from seal_fields [OF s(2)] obtain nonce where nonce: "nonces n = Inr nonce" and hash: "s_id_hash s = id_hash X new (e_kind e) (value_id v)" by blast
  show del: "e_deleted c = e_deleted e" and kind: "e_kind c = e_kind e" and "e_id_hash c = id_hash X new (e_kind e) (value_id v)"
    using s(3,4,7) header_value(1) [OF m(2)] hash m(1) by auto
  have "open_sealed X new (e_kind e) (s_id_hash s) s = Inr b"
    using open_seal [OF assms(1) _ s(2) [unfolded nonce]] assms(3) nonce by (auto simp: full_nonces_def)
  then have "open_sealed X new (e_kind c) (e_id_hash c) (sealed_of_envelope c) = Inr b"
    using s(3-6) by (subst open_sealed_cong [of _ s]) (simp_all add: sealed_of_envelope_def)
  moreover have "x_value_from_slice X b = Some v" using assms(2) s(1) by (auto simp: reads_back_def)
  moreover have "value_header_ok X new c m"
    using m(2) header_value(2,3) [OF m(2)] hash s(3) del kind m(1)
    by (auto simp: value_header_ok_def jat_def is_some_and_def split: option.splits Option.bind_splits)
  ultimately show "open_value X new c = Inr v" by (simp add: open_value_def m(1))
qed

section \<open>The rows of a copy\<close>

text \<open>The key of a row in the copy.\<close>

definition copied_key :: "'a crypto_ext_scheme \<Rightarrow> chain_keys \<Rightarrow> chain_keys \<Rightarrow> sealed_record \<Rightarrow> rstr" where
  "copied_key X old new r =
     (case open_value X old (sr_envelope r) of
        Inr v \<Rightarrow> sealed_key (e_kind (sr_envelope r)) (id_hash X new (e_kind (sr_envelope r)) (value_id v))
      | Inl _ \<Rightarrow> [])"

text \<open>The row \<open>c\<close> of the copy stands for the row \<open>r\<close>.\<close>

definition copies :: "'a crypto_ext_scheme \<Rightarrow> chain_keys \<Rightarrow> chain_keys \<Rightarrow> sealed_record \<Rightarrow> sealed_record \<Rightarrow> bool" where
  "copies X old new r c \<longleftrightarrow>
     (\<exists>v. open_value X old (sr_envelope r) = Inr v \<and> open_value X new (sr_envelope c) = Inr v)
     \<and> e_kind (sr_envelope c) = e_kind (sr_envelope r) \<and> e_deleted (sr_envelope c) = e_deleted (sr_envelope r) \<and> sr_dirty c"

lemma copy_sealed_row:
  assumes "crypto_laws X" "reads_back X N" "full_nonces nonces"
    and "copy_sealed X N nonces (\<lambda>_ v. (value_id v, v)) old new (n, sealed) r = Inr (n', sealed')"
  obtains c where "copies X old new r c" "sealed' = bt_insert (copied_key X old new r) c sealed"
proof -
  from assms(4) obtain v e where v: "open_value X old (sr_envelope r) = Inr v"
    "seal_value X N (nonces n) new (e_kind (sr_envelope r)) (value_id v) v = Inr e" "sealed' = put_sealed e sealed"
    by (auto simp: copy_sealed_def)
  note o = open_seal_value [OF assms(1-3) v(1,2)]
  show ?thesis
    by (rule that [of "\<lparr>sr_envelope = e, sr_dirty = True, sr_public_identity = None\<rparr>"])
       (use v o in \<open>auto simp: copies_def copied_key_def put_sealed_def\<close>)
qed

lemma copy_sealed_rows:
  assumes "crypto_laws X" "reads_back X N" "full_nonces nonces"
  shows "for_each (copy_sealed X N nonces (\<lambda>_ v. (value_id v, v)) old new) (n, sealed) rows = Inr (n', sealed')
    \<Longrightarrow> distinct (map (copied_key X old new) rows)
    \<Longrightarrow> (\<forall>r \<in> set rows. \<exists>c. bt_get sealed' (copied_key X old new r) = Some c \<and> copies X old new r c)
      \<and> (\<forall>k. k \<notin> copied_key X old new ` set rows \<longrightarrow> bt_get sealed' k = bt_get sealed k)"
proof (induction rows arbitrary: n sealed)
  case (Cons r rows)
  from Cons.prems(1) obtain n1 s1 where
    s1: "copy_sealed X N nonces (\<lambda>_ v. (value_id v, v)) old new (n, sealed) r = Inr (n1, s1)"
    and rest: "for_each (copy_sealed X N nonces (\<lambda>_ v. (value_id v, v)) old new) (n1, s1) rows = Inr (n', sealed')" by auto
  from s1 obtain c where c: "copies X old new r c" "s1 = bt_insert (copied_key X old new r) c sealed"
    by (rule copy_sealed_row [OF assms])
  from Cons.IH [OF rest] Cons.prems(2) c show ?case by auto
qed simp

text \<open>C32. Copying a space under new keys loses nothing: if every row gets a key of its own in the copy, the public records are the same,
  all of them to be uploaded, every sealed row of the source has a row in the copy which the new keys open to exactly the
  value the old keys open, with the same kind and deletion mark, and the copy holds no other rows.\<close>

theorem rotation_copies_space:
  assumes "crypto_laws X" "reads_back X N" "full_nonces nonces"
    and "copy_space X N nonces account old children (n, targets) (i, source) = Inr (n', targets')"
    and "space_keys X account old i = Inr (Some oldchild)" "bt_get children i = Some child"
    and "distinct (map (copied_key X oldchild child) (bt_values (sp_sealed source)))"
  shows "\<exists>target. targets' = bt_insert (ck_chain_id child) target targets
    \<and> map (\<lambda>(k, r). (k, lr_record r)) (sp_records target) = map (\<lambda>(k, r). (k, lr_record r)) (sp_records source)
    \<and> list_all lr_dirty (bt_values (sp_records target)) \<and> sp_selected target = sp_selected source
    \<and> (\<forall>r \<in> set (bt_values (sp_sealed source)). \<exists>c. bt_get (sp_sealed target) (copied_key X oldchild child r) = Some c \<and> copies X oldchild child r c)
    \<and> (\<forall>k c. bt_get (sp_sealed target) k = Some c \<longrightarrow> (\<exists>r \<in> set (bt_values (sp_sealed source)). k = copied_key X oldchild child r \<and> copies X oldchild child r c))"
proof -
  from assms(4-6) obtain sealed where
    s: "for_each (copy_sealed X N nonces (\<lambda>_ v. (value_id v, v)) oldchild child) (n, []) (bt_values (sp_sealed source)) = Inr (n', sealed)"
    and t: "targets' = bt_insert (ck_chain_id child)
        (source\<lparr>sp_cursor_seq := 0, sp_baseline_established := False,
           sp_records := map (\<lambda>(k, r). (k, r\<lparr>lr_seq := 0, lr_dirty := True\<rparr>)) (sp_records source), sp_sealed := sealed, sp_missing := False\<rparr>) targets"
    by (auto simp: copy_space_def)
  note rows = copy_sealed_rows [OF assms(1-3) s assms(7)]
  then have only: "\<exists>r \<in> set (bt_values (sp_sealed source)). k = copied_key X oldchild child r \<and> copies X oldchild child r c"
    if "bt_get sealed k = Some c" for k c
    using that by (cases "k \<in> copied_key X oldchild child ` set (bt_values (sp_sealed source))") (force, simp add: bt_get_def)
  show ?thesis
    by (rule exI, rule conjI, rule t) (use rows only in \<open>auto simp: list_all_iff bt_values_def\<close>)
qed

section \<open>An example\<close>

text \<open>An account with the credentials of one space, and a deleted host that is sealed in it.\<close>

definition key_fields :: "(rstr, json) btm" where
  "key_fields = [(lit ''deleted'', JBool False), (lit ''device_id'', JString (replicate 32 48)), (lit ''id'', JString lib_space),
     (lit ''kind'', JString (lit ''spacekey'')),
     (lit ''payload'', JObject [(lit ''auth_token'', JString (replicate 64 51)), (lit ''enc_key'', JString (replicate 32 7)), (lit ''schema'', JNumber (PosInt 1))]),
     (lit ''updated_at_ms'', JNumber (PosInt 5)), (lit ''version'', JNumber (PosInt 1))]"

definition key_record :: sync_record where
  "key_record = \<lparr>r_kind = RK_SpaceKey, r_id = lib_space, r_version = 1, r_updated_at_ms = 5, r_device_id = replicate 32 48, r_deleted = False,
     r_payload = JObject [(lit ''auth_token'', JString (replicate 64 51)), (lit ''enc_key'', JString (replicate 32 7)), (lit ''schema'', JNumber (PosInt 1))]\<rparr>"

definition copy_ext :: merge_ext where
  "copy_ext = (record_ext.extend sample_rext (merge_ext.fields (\<lambda>_. None)
     (\<lambda>_. Some \<lparr>spp_schema = 1, spp_name = lit ''Home'', spp_slug = [], spp_created_at_ms = 0, spp_previous_id = None\<rparr>) (\<lambda>_. None)))
     \<lparr>x_value_from_slice := (\<lambda>b. Some (JObject (if b = [] then tomb_fields else key_fields)))\<rparr>"

definition copy_env :: "unit rotation_env" where
  "copy_env = quiet_rotation\<lparr>x_json_to_vec := (\<lambda>v. if v = JObject tomb_fields then Some [] else None)\<rparr>"

definition copied_row :: "chain_keys \<Rightarrow> rstr \<Rightarrow> rstr \<Rightarrow> rstr \<Rightarrow> bool \<Rightarrow> sealed_record" where
  "copied_row keys kind i text deleted = \<lparr>sr_envelope = \<lparr>e_id_hash = id_hash copy_ext keys kind i, e_kind = kind, e_seq = 1, e_nonce = replicate 24 0,
     e_ciphertext = text, e_deleted = deleted\<rparr>, sr_dirty = False, sr_public_identity = None\<rparr>"

definition copy_account :: account_state where
  "copy_account = space_account\<lparr>acc_sealed :=
     [(sealed_key (lit ''spacekey'') (id_hash copy_ext sample_keys (lit ''spacekey'') lib_space),
       copied_row sample_keys (lit ''spacekey'') lib_space (1 # replicate 32 0) False)]\<rparr>"

definition old_child :: chain_keys where
  "old_child = \<lparr>ck_chain_id = lib_space, ck_auth_token = replicate 64 51, ck_enc_key = replicate 32 7\<rparr>"

definition new_child :: chain_keys where
  "new_child = \<lparr>ck_chain_id = replicate 64 50, ck_auth_token = replicate 64 51, ck_enc_key = replicate 32 9\<rparr>"

definition hidden_host :: sealed_record where
  "hidden_host = copied_row old_child (lit ''host'') (replicate 16 48) [] True"

definition copy_source :: space_state where
  "copy_source = fresh_space\<lparr>sp_sealed := [(lit ''host'', hidden_host)]\<rparr>"

lemma copy_ext_simps [simp]:
  "x_b64_decode copy_ext s = Some (map of_nat s)" "x_b64_encode copy_ext = map unat" "x_aead_encrypt copy_ext k n a m = Some (m @ k)"
  "x_aead_decrypt copy_ext k n a c = Some (take (length c - length k) c)"
  "x_value_from_slice copy_ext b = Some (JObject (if b = [] then tomb_fields else key_fields))"
  "x_json_to_vec copy_env v = (if v = JObject tomb_fields then Some [] else None)"
  "x_space_from_value copy_ext v = Some \<lparr>spp_schema = 1, spp_name = lit ''Home'', spp_slug = [], spp_created_at_ms = 0, spp_previous_id = None\<rparr>"
  by (simp_all add: copy_ext_def copy_env_def record_ext.defs merge_ext.defs sample_rext_def crypto_ext.defs sample_ext_def)

lemma copy_laws: "crypto_laws copy_ext" "reads_back copy_ext copy_env"
proof -
  show "crypto_laws copy_ext"
    using sample_laws unfolding crypto_laws_def copy_ext_def by (simp add: record_ext.defs merge_ext.defs sample_rext_def crypto_ext.defs)
qed (simp add: reads_back_def)

lemma key_fields_record: "record_of_fields key_fields = Inr key_record"
  by (simp add: record_of_fields_def key_fields_def key_record_def header_fields_def bt_get_def bt_keys_def parse_kind_def as_str.simps)

lemma hidden_host_opens: "open_value copy_ext old_child (sr_envelope hidden_host) = Inr (JObject tomb_fields)"
proof -
  have "open_sealed copy_ext old_child (lit ''host'') h (sealed_of_envelope (sr_envelope hidden_host)) = Inr []" for h
    by (simp add: open_sealed_def sealed_of_envelope_def hidden_host_def copied_row_def NONCE_LEN_def)
  moreover have "value_header_ok copy_ext old_child (sr_envelope hidden_host) tomb_fields"
    by (simp add: value_header_ok_def tomb_fields_def hidden_host_def copied_row_def header_fields_def bt_get_def bt_keys_def is_some_and_def hex_ids str_simps)
  ultimately show ?thesis by (simp add: open_value_def hidden_host_def copied_row_def)
qed

lemma key_row_opens: "open_record copy_ext sample_keys (sr_envelope (copied_row sample_keys (lit ''spacekey'') lib_space (1 # replicate 32 0) False)) = Inr key_record"
proof -
  let ?e = "sr_envelope (copied_row sample_keys (lit ''spacekey'') lib_space (1 # replicate 32 0) False)"
  have "open_sealed copy_ext sample_keys (lit ''spacekey'') h (sealed_of_envelope ?e) = Inr [1]" for h
    by (simp add: open_sealed_def sealed_of_envelope_def copied_row_def NONCE_LEN_def sample_keys_def)
  moreover have "parse_kind (lit ''spacekey'') = Some RK_SpaceKey" by (simp add: parse_kind_Some)
  ultimately show ?thesis
    by (simp add: open_record_def copied_row_def key_fields_record) (simp add: key_record_def)
qed

lemma old_child_keys: "space_keys copy_ext copy_account sample_keys lib_space = Inr (Some old_child)"
proof -
  have a: "acc_chain_id copy_account = ck_chain_id sample_keys" by (simp add: copy_account_def space_account_def account_new_def)
  have "valid_public copy_ext (lr_record space_row) True sample_keys"
    by (simp add: valid_public_def space_row_def lib_ids is_some_and_def is_none_or_def trim_def trim_start_def trim_end_def str_simps)
  moreover have "\<not> bt_contains (acc_sealed copy_account) (sealed_key (as_str RK_Space) h)" for h
    by (simp add: copy_account_def bt_contains_def bt_get_def sealed_key_def str_simps)
  ultimately have live: "live_metadata copy_ext copy_account sample_keys RK_Space lib_space = Inr True"
    using a by (simp add: live_metadata_def) (simp add: copy_account_def space_account_def space_row_def bt_get_def)
  have "valid_secret copy_ext key_record"
    by (simp add: valid_secret_def key_record_def lib_ids bt_get_def is_some_and_def hex_ids str_simps)
  then have "opened_secret copy_ext copy_account sample_keys RK_SpaceKey lib_space = Inr (Some key_record)"
    using a key_row_opens by (simp add: opened_secret_def) (simp add: copy_account_def bt_get_def key_record_def)
  moreover have "from_parts copy_ext lib_space (replicate 64 51) (replicate 32 7) = Inr old_child"
    by (simp add: from_parts_def lib_ids old_child_def hex_ids str_simps)
  ultimately show ?thesis
    using live by (simp add: space_keys_def) (simp add: key_record_def bt_get_def)
qed

lemma hidden_host_seals:
  "\<exists>e. copy_sealed copy_ext copy_env (\<lambda>_. Inr (replicate 24 0)) (\<lambda>_ v. (value_id v, v)) old_child new_child (0, []) hidden_host = Inr (1, put_sealed e [])"
  by (simp add: copy_sealed_def hidden_host_opens seal_value_def seal_def Let_def) (auto simp: tomb_fields_def jat_def bt_get_def)

theorem rotation_copies_space_witness:
  "\<exists>target c. copy_space copy_ext copy_env (\<lambda>_. Inr (replicate 24 0)) copy_account sample_keys [(lib_space, new_child)] (0, []) (lib_space, copy_source)
      = Inr (1, [(replicate 64 50, target)])
    \<and> c \<in> set (bt_values (sp_sealed target)) \<and> open_value copy_ext new_child (sr_envelope c) = Inr (JObject tomb_fields)"
proof -
  let ?copy = "copy_space copy_ext copy_env (\<lambda>_. Inr (replicate 24 0)) copy_account sample_keys [(lib_space, new_child)] (0, []) (lib_space, copy_source)"
  have child: "bt_get [(lib_space, new_child)] lib_space = Some new_child" by (simp add: bt_get_def)
  have vals: "bt_values (sp_sealed copy_source) = [hidden_host]" by (simp add: copy_source_def bt_values_def)
  obtain e where "copy_sealed copy_ext copy_env (\<lambda>_. Inr (replicate 24 0)) (\<lambda>_ v. (value_id v, v)) old_child new_child (0, []) hidden_host = Inr (1, put_sealed e [])"
    using hidden_host_seals by blast
  then obtain target where t: "?copy = Inr (1, [(ck_chain_id new_child, target)])"
    by (simp add: copy_space_def old_child_keys child vals)
  have n: "full_nonces (\<lambda>_. Inr (replicate 24 0))" by (simp add: full_nonces_def NONCE_LEN_def)
  from rotation_copies_space [OF copy_laws n t old_child_keys child] vals obtain c where
    c: "bt_get (sp_sealed target) (copied_key copy_ext old_child new_child hidden_host) = Some c" "copies copy_ext old_child new_child hidden_host c" by auto
  then have "open_value copy_ext new_child (sr_envelope c) = Inr (JObject tomb_fields)" by (simp add: copies_def hidden_host_opens)
  moreover have "c \<in> set (bt_values (sp_sealed target))" using c(1) by (auto simp: bt_values_def dest!: bt_get_SomeD intro: rev_image_eqI)
  ultimately show ?thesis using t by (auto simp: new_child_def)
qed

end
