(* ===== verification/Vault_Store.thy ===== *)
theory Vault_Store
  imports Agent_Broker
begin

text \<open>
  The vault of private keys (\<open>vault/store.rs\<close>, with \<open>seal_raw\<close> and \<open>open_raw\<close> of \<open>sync/crypto.rs\<close> and \<open>write_private\<close> of
  \<open>sync/slot_files.rs\<close>): a file whose entries are sealed under a key that the keychain of the operating system holds. An operation
  acts on the opened vault and the world, the disk and the keychain; when it fails, what it did so far stays. The parameter \<open>vault_env\<close>
  has the cryptographic primitives, the text forms of the file and of an entry, the operating system, random bytes and the keychain,
  which may fail or report an account as missing that is there.
\<close>

section \<open>Data\<close>

datatype entry_origin = EO_Generated | EO_Imported | EO_Synced

record vault_entry =
  vt_private_key :: rstr
  vt_public_key :: rstr
  vt_fingerprint :: rstr
  vt_origin :: entry_origin
  vt_added_at_ms :: u64

definition agent_settings_default :: agent_settings where
  "agent_settings_default = \<lparr>ag_remember_minutes = DEFAULT_REMEMBER_MINUTES, ag_always_ask = False\<rparr>"

record sealed_entry =
  se_nonce :: rstr
  se_ciphertext :: rstr

record vault_file =
  vf_version :: u32
  vf_key_account :: "rstr option"
  vf_settings :: agent_settings
  vf_entries :: "(rstr, sealed_entry) btm"

definition VAULT_FILE :: rstr where "VAULT_FILE = lit ''vault.json''"
definition VAULT_KEY_ACCOUNT :: rstr where "VAULT_KEY_ACCOUNT = lit ''vault:key''"
definition VAULT_KEY_ACCOUNT_PREFIX :: rstr where "VAULT_KEY_ACCOUNT_PREFIX = lit ''vault:key:''"
definition RETIRED_PREFIX :: rstr where "RETIRED_PREFIX = lit ''retired:''"
definition VAULT_VERSION :: u32 where "VAULT_VERSION = 2"
definition LEGACY_VERSION :: u32 where "LEGACY_VERSION = 1"
definition AAD_PREFIX :: rstr where "AAD_PREFIX = lit ''sshelter-vault-v1''"

definition vault_path :: "path \<Rightarrow> path" where
  "vault_path state_path = with_file_name state_path VAULT_FILE"

definition vault_file_default :: vault_file where
  "vault_file_default = \<lparr>vf_version = LEGACY_VERSION, vf_key_account = None, vf_settings = agent_settings_default, vf_entries = []\<rparr>"

definition key_account :: "vault_file \<Rightarrow> rstr" where
  "key_account f = (case vf_key_account f of Some a \<Rightarrow> a | None \<Rightarrow> VAULT_KEY_ACCOUNT)"

text \<open>\<open>VE_Panic\<close> is the overflow of a 32-bit counter of names.\<close>

datatype vault_error = VE_KeyMissing | VE_Unreadable "rstr option" rstr | VE_Newer u32 | VE_Other app_error | VE_Panic

definition vault_error_text :: "vault_error \<Rightarrow> rstr" where
  "vault_error_text e =
     (case e of
        VE_KeyMissing \<Rightarrow> lit ''the vault'' @ [39] @ lit ''s key is missing from the keychain, so its keys can'' @ [39] @ lit ''t be opened''
      | VE_Unreadable (Some name) reason \<Rightarrow> lit ''the vault file was unreadable ('' @ reason @ lit ''); it was kept as '' @ name
      | VE_Unreadable None reason \<Rightarrow> lit ''the vault file is unreadable ('' @ reason @ lit '')''
      | VE_Newer version \<Rightarrow> lit ''the vault was written by a newer Lunport (format '' @ dec (unat version) @ lit '')''
      | VE_Other e \<Rightarrow> error_text e
      | VE_Panic \<Rightarrow> [])"

definition vault_app_error :: "vault_error \<Rightarrow> app_error" where
  "vault_app_error e = (case e of VE_Other inner \<Rightarrow> inner | _ \<Rightarrow> AE_Other (vault_error_text e))"

section \<open>The world\<close>

record vault_codec =
  vc_probe :: "bytes \<Rightarrow> rstr + u32"
  vc_file_from :: "bytes \<Rightarrow> rstr + vault_file"
  vc_file_to :: "vault_file \<Rightarrow> rstr + bytes"
  vc_entry_from :: "bytes \<Rightarrow> rstr + vault_entry"
  vc_entry_to :: "vault_entry \<Rightarrow> rstr + bytes"

datatype keychain_answer = KA_Fails app_error | KA_Missing | KA_Answers

text \<open>A write to the keychain that fails may have stored the value all the same.\<close>

record vault_env =
  vx_crypto :: crypto_ext
  vx_codec :: vault_codec
  vx_os :: os_env
  vx_lookup_fails :: "nat \<Rightarrow> bool"
  vx_keychain_get :: "nat \<Rightarrow> keychain_answer"
  vx_keychain_set :: "nat \<Rightarrow> (app_error \<times> bool) option"
  vx_random :: "nat \<Rightarrow> nat \<Rightarrow> rstr + bytes"

record vault =
  vl_path :: path
  vl_key :: "bytes option"
  vl_file :: vault_file

record vault_world =
  vw_disk :: disk
  vw_keychain :: "rstr \<Rightarrow> rstr option"
  vw_step :: nat

type_synonym ('s, 'a) vault_act = "'s \<Rightarrow> (vault_error + 'a) \<times> 's"

definition v_bind :: "('s, 'a) vault_act \<Rightarrow> ('a \<Rightarrow> ('s, 'b) vault_act) \<Rightarrow> ('s, 'b) vault_act" where
  "v_bind m f s = (case m s of (Inl e, s) \<Rightarrow> (Inl e, s) | (Inr a, s) \<Rightarrow> f a s)"

definition v_lift :: "vault_error + 'a \<Rightarrow> ('s, 'a) vault_act" where
  "v_lift r s = (r, s)"

definition v_return :: "'a \<Rightarrow> ('s, 'a) vault_act" where
  "v_return a = v_lift (Inr a)"

definition v_fail :: "vault_error \<Rightarrow> ('s, 'a) vault_act" where
  "v_fail e = v_lift (Inl e)"

definition on_disk :: "'a io \<Rightarrow> (vault_world, 'a) vault_act" where
  "on_disk m w = (case m (vw_disk w) of (r, d) \<Rightarrow> (map_err VE_Other r, w\<lparr>vw_disk := d\<rparr>))"

text \<open>An action on the world as one on the opened vault.\<close>

definition in_vault :: "(vault_world, 'a) vault_act \<Rightarrow> (vault \<times> vault_world, 'a) vault_act" where
  "in_vault m = (\<lambda>(v, w). case m w of (r, w) \<Rightarrow> (r, v, w))"

definition keychain_get :: "vault_env \<Rightarrow> rstr \<Rightarrow> (vault_world, rstr option) vault_act" where
  "keychain_get E a w =
     (case vx_keychain_get E (vw_step w) of
        KA_Fails e \<Rightarrow> Inl (VE_Other e)
      | KA_Missing \<Rightarrow> Inr None
      | KA_Answers \<Rightarrow> Inr (vw_keychain w a), w\<lparr>vw_step := vw_step w + 1\<rparr>)"

definition keychain_set :: "vault_env \<Rightarrow> rstr \<Rightarrow> rstr \<Rightarrow> (vault_world, unit) vault_act" where
  "keychain_set E a t w =
     (let stored = w\<lparr>vw_keychain := (vw_keychain w)(a := Some t), vw_step := vw_step w + 1\<rparr>; left = w\<lparr>vw_step := vw_step w + 1\<rparr> in
      case vx_keychain_set E (vw_step w) of
        None \<Rightarrow> (Inr (), stored)
      | Some (e, wrote) \<Rightarrow> (Inl (VE_Other e), if wrote then stored else left))"

definition draw :: "vault_env \<Rightarrow> nat \<Rightarrow> string \<Rightarrow> (vault_world, bytes) vault_act" where
  "draw E n what w =
     (map_err (\<lambda>e. VE_Other (AE_Other (lit what @ e))) (vx_random E (vw_step w) n), w\<lparr>vw_step := vw_step w + 1\<rparr>)"

section \<open>Sealing\<close>

definition seal_raw :: "vault_env \<Rightarrow> bytes \<Rightarrow> bytes \<Rightarrow> bytes \<Rightarrow> (vault_world, rstr \<times> rstr) vault_act" where
  "seal_raw E key ad plaintext =
     v_bind (draw E NONCE_LEN ''cannot draw nonce: '') (\<lambda>nonce.
     v_bind (v_lift (ok_or (VE_Other (AE_Other (lit ''encryption failed''))) (x_aead_encrypt (vx_crypto E) key nonce ad plaintext))) (\<lambda>ciphertext.
     v_return (x_b64_encode (vx_crypto E) nonce, x_b64_encode (vx_crypto E) ciphertext)))"

definition open_raw :: "crypto_ext \<Rightarrow> bytes \<Rightarrow> bytes \<Rightarrow> rstr \<Rightarrow> rstr \<Rightarrow> app_error + bytes" where
  "open_raw X key ad nonce_b64 ciphertext_b64 =
     rbind (ok_or (AE_Other (lit ''vault nonce is not valid base64'')) (x_b64_decode X nonce_b64)) (\<lambda>nonce.
     rbind (fail_if (length nonce \<noteq> NONCE_LEN) (AE_Other (lit ''vault nonce has the wrong length''))) (\<lambda>_.
     rbind (ok_or (AE_Other (lit ''vault ciphertext is not valid base64'')) (x_b64_decode X ciphertext_b64)) (\<lambda>ciphertext.
     ok_or (AE_Other (lit ''vault entry cannot be decrypted'')) (x_aead_decrypt X key nonce ad ciphertext))))"

definition vault_aad :: "rstr \<Rightarrow> bytes" where
  "vault_aad slot_id = as_bytes (AAD_PREFIX @ [10] @ slot_id)"

definition invalid_key :: vault_error where
  "invalid_key = VE_Other (AE_Other (lit ''the vault key in the keychain is not valid''))"

definition new_key_account :: "vault_env \<Rightarrow> (vault_world, rstr) vault_act" where
  "new_key_account E = v_bind (draw E 8 ''cannot draw the vault key: '') (\<lambda>b. v_return (VAULT_KEY_ACCOUNT_PREFIX @ hex b))"

definition decode_key :: "crypto_ext \<Rightarrow> rstr \<Rightarrow> vault_error + bytes" where
  "decode_key X t =
     rbind (ok_or invalid_key (x_b64_decode X t)) (\<lambda>b.
     rbind (fail_if (length b \<noteq> 32) invalid_key) (\<lambda>_. Inr b))"

definition read_key :: "vault_env \<Rightarrow> rstr \<Rightarrow> (vault_world, bytes option) vault_act" where
  "read_key E account =
     v_bind (keychain_get E account) (\<lambda>t.
     case t of
       None \<Rightarrow> v_return None
     | Some t \<Rightarrow> v_bind (v_lift (decode_key (vx_crypto E) t)) (\<lambda>b. v_return (Some b)))"

section \<open>Files\<close>

text \<open>The first name that is free, by a counter of 32 bits.\<close>

function free_number :: "(nat \<Rightarrow> bool) \<Rightarrow> nat \<Rightarrow> nat option" where
  "free_number taken n = (if \<not> taken n then Some n else if n + 1 < 2 ^ 32 then free_number taken (n + 1) else None)"
  by pat_completeness auto
termination by (relation "measure (\<lambda>(_, n). 2 ^ 32 - n)") auto

declare free_number.simps [simp del]

definition numbered :: "rstr \<Rightarrow> nat \<Rightarrow> rstr" where
  "numbered base n = (if n = 0 then base else base @ lit ''-'' @ dec n)"

definition aside_name :: "rstr \<Rightarrow> u64 \<Rightarrow> nat \<Rightarrow> rstr" where
  "aside_name kind now n = numbered (lit ''vault.'' @ kind @ lit ''-'' @ dec (unat now)) n @ lit ''.json''"

text \<open>\<open>symlink_metadata(p).is_ok()\<close>\<close>

definition name_taken :: "vault_env \<Rightarrow> path \<Rightarrow> vault_world \<Rightarrow> bool" where
  "name_taken E p w \<longleftrightarrow> d_files (vw_disk w) p \<noteq> None \<and> \<not> vx_lookup_fails E (vw_step w)"

definition rename_file :: "os_env \<Rightarrow> path \<Rightarrow> path \<Rightarrow> disk \<Rightarrow> (io_error + unit) \<times> disk" where
  "rename_file X p q =
     sys X (\<lambda>d. case d_files d p of
                  None \<Rightarrow> (Inl not_found, d)
                | Some node \<Rightarrow>
                    if d_files d q = Some Directory then (Inl (IoError IO_Other (lit ''Is a directory (os error 21)'')), d)
                    else (Inr (), d\<lparr>d_files := (d_files d)(p := None, q := Some node)\<rparr>))"

definition set_aside :: "vault_env \<Rightarrow> path \<Rightarrow> rstr \<Rightarrow> u64 \<Rightarrow> rstr \<Rightarrow> (vault_world, 'a) vault_act" where
  "set_aside E p kind now reason w =
     (case free_number (\<lambda>n. name_taken E (with_file_name p (aside_name kind now n)) (w\<lparr>vw_step := vw_step w + n\<rparr>)) 0 of
        None \<Rightarrow> (Inl VE_Panic, w)
      | Some n \<Rightarrow>
          let w = w\<lparr>vw_step := vw_step w + n + 1\<rparr>; name = aside_name kind now n; q = with_file_name p name in
          v_bind (on_disk (io_bind (check_write (vx_os E) p) (\<lambda>_. check_write (vx_os E) q))) (\<lambda>_ w.
          case rename_file (vx_os E) p q (vw_disk w) of
            (Inr _, d) \<Rightarrow> (Inl (VE_Unreadable (Some name) reason), w\<lparr>vw_disk := d\<rparr>)
          | (Inl _, d) \<Rightarrow> (Inl (VE_Unreadable None reason), w\<lparr>vw_disk := d\<rparr>)) w)"

definition write_private :: "os_env \<Rightarrow> path \<Rightarrow> bytes \<Rightarrow> unit io" where
  "write_private X p contents =
     io_bind (check_write X p) (\<lambda>_.
     io_bind (io_lift (ok_or (AE_Other (lit ''no parent dir for '' @ path_display p)) (parent p))) (\<lambda>_.
     io_bind (try_io (on_file X ())) (\<lambda>_.
     io_bind (try_io (on_file X ())) (\<lambda>_.
     io_bind (try_io (on_file X ())) (\<lambda>_.
     io_bind (try_io (on_file X ())) (\<lambda>_.
     try_io (persist X p contents)))))))"

section \<open>The opened vault\<close>

definition vault_open :: "vault_env \<Rightarrow> path \<Rightarrow> u64 \<Rightarrow> (vault_world, vault) vault_act" where
  "vault_open E p now w =
     (case read_file (vx_os E) p (vw_disk w) of
        (Inl e, d) \<Rightarrow>
          (if io_kind e = IO_NotFound then Inr \<lparr>vl_path = p, vl_key = None, vl_file = vault_file_default\<rparr> else Inl (VE_Other (io e)), w\<lparr>vw_disk := d\<rparr>)
      | (Inr b, d) \<Rightarrow>
          (case vc_probe (vx_codec E) b of
             Inl e \<Rightarrow> set_aside E p (lit ''unreadable'') now e
           | Inr version \<Rightarrow>
               if version > VAULT_VERSION then v_fail (VE_Newer version)
               else
                 (case vc_file_from (vx_codec E) b of
                    Inl e \<Rightarrow> set_aside E p (lit ''unreadable'') now e
                  | Inr f \<Rightarrow>
                      v_bind (read_key E (key_account f)) (\<lambda>key.
                      if key = None \<and> vf_entries f \<noteq> []
                      then set_aside E p (lit ''keyless'') now (lit ''the vault'' @ [39] @ lit ''s key is missing from the keychain'')
                      else v_return \<lparr>vl_path = p, vl_key = key, vl_file = f\<rparr>))) (w\<lparr>vw_disk := d\<rparr>))"

definition vault_ids :: "vault \<Rightarrow> rstr list" where
  "vault_ids v = bt_keys (vf_entries (vl_file v))"

definition open_entry :: "vault_env \<Rightarrow> bytes \<Rightarrow> rstr \<Rightarrow> sealed_entry \<Rightarrow> vault_error + vault_entry" where
  "open_entry E key i s =
     rbind (map_err VE_Other (open_raw (vx_crypto E) key (vault_aad i) (se_nonce s) (se_ciphertext s))) (\<lambda>plaintext.
     map_err (\<lambda>_. VE_Other (AE_Other (lit ''a vault entry is not readable''))) (vc_entry_from (vx_codec E) plaintext))"

definition vault_get :: "vault_env \<Rightarrow> rstr \<Rightarrow> vault \<Rightarrow> vault_error + vault_entry option" where
  "vault_get E i v =
     (case bt_get (vf_entries (vl_file v)) i of
        None \<Rightarrow> Inr None
      | Some s \<Rightarrow> rbind (ok_or VE_KeyMissing (vl_key v)) (\<lambda>key. rbind (open_entry E key i s) (\<lambda>e. Inr (Some e))))"

definition vault_save :: "vault_env \<Rightarrow> vault \<Rightarrow> (vault_world, unit) vault_act" where
  "vault_save E v =
     v_bind (on_disk (check_write (vx_os E) (vl_path v))) (\<lambda>_.
     v_bind (v_lift (map_err (\<lambda>e. VE_Other (AE_Other e)) (vc_file_to (vx_codec E) (vl_file v)))) (\<lambda>b.
     v_bind (on_disk (case parent (vl_path v) of Some dir \<Rightarrow> ensure_dir_secure (vx_os E) dir | None \<Rightarrow> io_return ())) (\<lambda>_.
     v_bind (on_disk (write_private (vx_os E) (vl_path v) b)) (\<lambda>_.
     on_disk (\<lambda>d. case on_file (vx_os E) () d of (_, d) \<Rightarrow> (Inr (), d))))))"

text \<open>Changes of the opened vault.\<close>

definition save_opened :: "vault_env \<Rightarrow> (vault \<times> vault_world, unit) vault_act" where
  "save_opened E = (\<lambda>(v, w). in_vault (vault_save E v) (v, w))"

definition ensure_key :: "vault_env \<Rightarrow> (vault \<times> vault_world, unit) vault_act" where
  "ensure_key E = (\<lambda>(v, w).
     if vl_key v \<noteq> None then (Inr (), v, w)
     else
       v_bind (in_vault (read_key E (key_account (vl_file v)))) (\<lambda>found (v, w).
       case found of
         Some key \<Rightarrow> (Inr (), v\<lparr>vl_key := Some key\<rparr>, w)
       | None \<Rightarrow>
           if vf_entries (vl_file v) \<noteq> [] then (Inl VE_KeyMissing, v, w)
           else
             v_bind (in_vault (new_key_account E)) (\<lambda>account.
             v_bind (in_vault (draw E 32 ''cannot draw the vault key: '')) (\<lambda>key.
             v_bind (in_vault (keychain_set E account (x_b64_encode (vx_crypto E) key))) (\<lambda>_ (v, w).
             (Inr (), v\<lparr>vl_key := Some key, vl_file := (vl_file v)\<lparr>vf_version := VAULT_VERSION, vf_key_account := Some account\<rparr>\<rparr>, w)))) (v, w)) (v, w))"

definition seal_into :: "vault_env \<Rightarrow> rstr \<Rightarrow> vault_entry \<Rightarrow> (vault \<times> vault_world, unit) vault_act" where
  "seal_into E i entry = (\<lambda>(v, w).
     v_bind (v_lift (ok_or VE_KeyMissing (vl_key v))) (\<lambda>key.
     v_bind (v_lift (map_err (\<lambda>e. VE_Other (AE_Other e)) (vc_entry_to (vx_codec E) entry))) (\<lambda>plaintext.
     v_bind (in_vault (seal_raw E key (vault_aad i) plaintext)) (\<lambda>(nonce, ciphertext) (v, w).
     (Inr (), v\<lparr>vl_file := (vl_file v)\<lparr>vf_entries := bt_insert i \<lparr>se_nonce = nonce, se_ciphertext = ciphertext\<rparr> (vf_entries (vl_file v))\<rparr>\<rparr>, w)))) (v, w))"

definition retired_id :: "rstr \<Rightarrow> u64 \<Rightarrow> nat \<Rightarrow> rstr" where
  "retired_id i now n = numbered (RETIRED_PREFIX @ i @ lit '':'' @ dec (unat now)) n"

definition free_retired_id :: "rstr \<Rightarrow> u64 \<Rightarrow> vault \<Rightarrow> vault_error + rstr" where
  "free_retired_id i now v =
     (case free_number (\<lambda>n. bt_contains (vf_entries (vl_file v)) (retired_id i now n)) 0 of
        Some n \<Rightarrow> Inr (retired_id i now n)
      | None \<Rightarrow> Inl VE_Panic)"

definition vault_put :: "vault_env \<Rightarrow> rstr \<Rightarrow> vault_entry \<Rightarrow> (vault \<times> vault_world, unit) vault_act" where
  "vault_put E i entry = (\<lambda>(v, w).
     v_bind (in_vault (on_disk (check_write (vx_os E) (vl_path v)))) (\<lambda>_.
     v_bind (ensure_key E) (\<lambda>_.
     v_bind (seal_into E i entry) (\<lambda>_.
     save_opened E))) (v, w))"

text \<open>Another key of the slot is kept under a free id.\<close>

definition retire :: "vault_env \<Rightarrow> rstr \<Rightarrow> vault_entry \<Rightarrow> u64 \<Rightarrow> vault_entry option \<Rightarrow> (vault \<times> vault_world, rstr option) vault_act" where
  "retire E i entry now old =
     (case old of
        Some old \<Rightarrow>
          if vt_fingerprint old \<noteq> vt_fingerprint entry
          then v_bind (\<lambda>(v, w). (free_retired_id i now v, v, w)) (\<lambda>r. v_bind (seal_into E r old) (\<lambda>_. v_return (Some r)))
          else v_return None
      | None \<Rightarrow> v_return None)"

definition vault_replace :: "vault_env \<Rightarrow> rstr \<Rightarrow> vault_entry \<Rightarrow> u64 \<Rightarrow> (vault \<times> vault_world, rstr option) vault_act" where
  "vault_replace E i entry now = (\<lambda>(v, w).
     v_bind (in_vault (on_disk (check_write (vx_os E) (vl_path v)))) (\<lambda>_.
     v_bind (ensure_key E) (\<lambda>_.
     v_bind (\<lambda>(v, w). (vault_get E i v, v, w)) (\<lambda>old.
     v_bind (retire E i entry now old) (\<lambda>retired.
     v_bind (seal_into E i entry) (\<lambda>_.
     v_bind (save_opened E) (\<lambda>_.
     v_return retired)))))) (v, w))"

definition vault_remove :: "vault_env \<Rightarrow> rstr \<Rightarrow> (vault \<times> vault_world, bool) vault_act" where
  "vault_remove E i = (\<lambda>(v, w).
     v_bind (in_vault (on_disk (check_write (vx_os E) (vl_path v)))) (\<lambda>_ (v, w).
     if \<not> bt_contains (vf_entries (vl_file v)) i then (Inr False, v, w)
     else
       v_bind (save_opened E) (\<lambda>_. v_return True)
         (v\<lparr>vl_file := (vl_file v)\<lparr>vf_entries := bt_remove i (vf_entries (vl_file v))\<rparr>\<rparr>, w)) (v, w))"

text \<open>The lock around the whole access is its atomicity.\<close>

definition with_vault :: "vault_env \<Rightarrow> path \<Rightarrow> u64 \<Rightarrow> (vault \<times> vault_world, 'a) vault_act \<Rightarrow> (vault_world, 'a) vault_act" where
  "with_vault E p now f = v_bind (vault_open E p now) (\<lambda>v w. case f (v, w) of (r, _, w) \<Rightarrow> (r, w))"

section \<open>Reading without changing anything\<close>

definition MAX_READ_ONLY_VAULT_BYTES :: nat where
  "MAX_READ_ONLY_VAULT_BYTES = 64 * 1024 * 1024"

definition readonly_vault_error :: "string \<Rightarrow> vault_error" where
  "readonly_vault_error reason = VE_Unreadable None (lit reason)"

definition readonly_vault_limit_error :: vault_error where
  "readonly_vault_limit_error = readonly_vault_error ''the vault exceeds the read-only input size limit (64 MiB)''"

text \<open>A call that follows links: the bytes of the file, or \<open>None\<close> for something that is not a file.\<close>

definition followed :: "os_env \<Rightarrow> path \<Rightarrow> disk \<Rightarrow> (io_error + bytes option) \<times> disk" where
  "followed X p =
     sys X (\<lambda>d. (case d_files d p of
                   Some (RegularFile b) \<Rightarrow> Inr (Some b)
                 | Some (Symlink (ToFile b)) \<Rightarrow> Inr (Some b)
                 | Some (Symlink Dangling) \<Rightarrow> Inl not_found
                 | Some _ \<Rightarrow> Inr None
                 | None \<Rightarrow> Inl not_found, d))"

definition check_readonly_vault_metadata :: "bytes option \<Rightarrow> vault_error + unit" where
  "check_readonly_vault_metadata contents =
     (case contents of
        None \<Rightarrow> Inl (readonly_vault_error ''the vault source is not a regular file'')
      | Some b \<Rightarrow> fail_if (length b > MAX_READ_ONLY_VAULT_BYTES) readonly_vault_limit_error)"

definition read_capped_vault_bytes :: "os_env \<Rightarrow> bytes \<Rightarrow> nat \<Rightarrow> disk \<Rightarrow> (vault_error + bytes) \<times> disk" where
  "read_capped_vault_bytes X contents limit d =
     (case on_file X (take (limit + 1) contents) d of
        (Inl _, d) \<Rightarrow> (Inl (readonly_vault_error ''the vault source could not be read''), d)
      | (Inr b, d) \<Rightarrow> (if length b > limit then Inl readonly_vault_limit_error else Inr b, d))"

definition known_key_account :: "rstr \<Rightarrow> bool" where
  "known_key_account account \<longleftrightarrow> account = VAULT_KEY_ACCOUNT
     \<or> is_some_and (strip_prefix account VAULT_KEY_ACCOUNT_PREFIX) (\<lambda>suffix. str_len suffix = 16 \<and> list_all is_lower_hex suffix)"

definition parse_readonly :: "vault_env \<Rightarrow> bytes \<Rightarrow> vault_error + vault_file" where
  "parse_readonly E b =
     rbind (map_err (\<lambda>_. readonly_vault_error ''the vault format is not readable'') (vc_probe (vx_codec E) b)) (\<lambda>version.
     if version > VAULT_VERSION then Inl (VE_Newer version)
     else if version \<noteq> LEGACY_VERSION \<and> version \<noteq> VAULT_VERSION then Inl (readonly_vault_error ''the vault format is not supported'')
     else
       rbind (map_err (\<lambda>_. readonly_vault_error ''the vault format is not readable'') (vc_file_from (vx_codec E) b)) (\<lambda>f.
       rbind (fail_if (\<not> known_key_account (key_account f)) (readonly_vault_error ''the vault key account is not recognized'')) (\<lambda>_.
       Inr f)))"

definition readonly_key :: "vault_env \<Rightarrow> vault_file \<Rightarrow> (vault_world, bytes option) vault_act" where
  "readonly_key E f w =
     (if vf_entries f = [] then (Inr None, w)
      else
        (case read_key E (key_account f) w of
           (Inl _, w) \<Rightarrow> (Inl (readonly_vault_error ''the vault key could not be read from the keychain''), w)
         | (Inr None, w) \<Rightarrow> (Inl VE_KeyMissing, w)
         | (Inr (Some key), w) \<Rightarrow> (Inr (Some key), w)))"

definition read_vault :: "vault_env \<Rightarrow> path \<Rightarrow> (vault_world, vault) vault_act" where
  "read_vault E p w =
     (let empty = \<lparr>vl_path = p, vl_key = None, vl_file = vault_file_default\<rparr>;
          failed = (\<lambda>e. if io_kind e = IO_NotFound then Inr empty else Inl (readonly_vault_error ''the vault source could not be read'')) in
      case followed (vx_os E) p (vw_disk w) of
        (Inl e, d) \<Rightarrow> (failed e, w\<lparr>vw_disk := d\<rparr>)
      | (Inr meta, d) \<Rightarrow>
          v_bind (v_lift (check_readonly_vault_metadata meta)) (\<lambda>_ w.
          case followed (vx_os E) p (vw_disk w) of
            (Inl e, d) \<Rightarrow> (failed e, w\<lparr>vw_disk := d\<rparr>)
          | (Inr opened, d) \<Rightarrow>
              v_bind (\<lambda>w. case on_file (vx_os E) opened (vw_disk w) of
                             (Inl _, d) \<Rightarrow> (Inl (readonly_vault_error ''the vault source could not be read''), w\<lparr>vw_disk := d\<rparr>)
                           | (Inr meta, d) \<Rightarrow> (check_readonly_vault_metadata meta, w\<lparr>vw_disk := d\<rparr>)) (\<lambda>_.
              v_bind (\<lambda>w. case read_capped_vault_bytes (vx_os E) (case opened of Some b \<Rightarrow> b | None \<Rightarrow> []) MAX_READ_ONLY_VAULT_BYTES (vw_disk w) of
                             (r, d) \<Rightarrow> (r, w\<lparr>vw_disk := d\<rparr>)) (\<lambda>b.
              v_bind (v_lift (parse_readonly E b)) (\<lambda>f.
              v_bind (readonly_key E f) (\<lambda>key.
              v_return \<lparr>vl_path = p, vl_key = key, vl_file = f\<rparr>)))) (w\<lparr>vw_disk := d\<rparr>)) (w\<lparr>vw_disk := d\<rparr>))"

definition stored_ids :: "vault_env \<Rightarrow> path \<Rightarrow> (vault_world, rstr list) vault_act" where
  "stored_ids E p w =
     (case read_file (vx_os E) p (vw_disk w) of
        (Inl e, d) \<Rightarrow> (if io_kind e = IO_NotFound then Inr [] else Inl (VE_Other (io e)), w\<lparr>vw_disk := d\<rparr>)
      | (Inr b, d) \<Rightarrow>
          (rbind (map_err (VE_Unreadable None) (vc_probe (vx_codec E) b)) (\<lambda>version.
           if version > VAULT_VERSION then Inl (VE_Newer version)
           else rbind (map_err (VE_Unreadable None) (vc_file_from (vx_codec E) b)) (\<lambda>f. Inr (bt_keys (vf_entries f)))),
           w\<lparr>vw_disk := d\<rparr>))"

end
