(* ===== verification/Vault_Properties.thy ===== *)
theory Vault_Properties
  imports Vault_Store
begin

text \<open>
  What the vault guarantees: putting a key into a slot loses no private key that could be opened before, whatever fails, with one exception
  that is shown to occur (a failed lookup of the name under which a vault is set aside); and what was put can be read back.
\<close>

section \<open>Keys that can be opened\<close>

text \<open>What the code relies on: the primitives and the text forms read back what they wrote, and random bytes come in the asked number.\<close>

definition vault_laws :: "vault_env \<Rightarrow> bool" where
  "vault_laws E \<longleftrightarrow> crypto_laws (vx_crypto E)
     \<and> (\<forall>f b. vc_file_to (vx_codec E) f = Inr b \<longrightarrow> vc_file_from (vx_codec E) b = Inr f)
     \<and> (\<forall>f b. vc_file_from (vx_codec E) b = Inr f \<longrightarrow> vc_probe (vx_codec E) b = Inr (vf_version f))
     \<and> (\<forall>e b. vc_entry_to (vx_codec E) e = Inr b \<longrightarrow> vc_entry_from (vx_codec E) b = Inr e)
     \<and> (\<forall>n k b. vx_random E n k = Inr b \<longrightarrow> length b = k)"

text \<open>A drawn account name is not one of the keychain.\<close>

definition fresh_accounts :: "vault_env \<Rightarrow> (rstr \<Rightarrow> rstr option) \<Rightarrow> bool" where
  "fresh_accounts E kc \<longleftrightarrow> (\<forall>n b. vx_random E n 8 = Inr b \<longrightarrow> kc (VAULT_KEY_ACCOUNT_PREFIX @ hex b) = None)"

definition held_in :: "vault_env \<Rightarrow> vault_file \<Rightarrow> bytes \<Rightarrow> vault_entry \<Rightarrow> bool" where
  "held_in E f key e \<longleftrightarrow> (\<exists>i s. bt_get (vf_entries f) i = Some s \<and> open_entry E key i s = Inr e)"

definition key_of :: "vault_env \<Rightarrow> (rstr \<Rightarrow> rstr option) \<Rightarrow> vault_file \<Rightarrow> bytes \<Rightarrow> bool" where
  "key_of E kc f key \<longleftrightarrow> (\<exists>t. kc (key_account f) = Some t \<and> decode_key (vx_crypto E) t = Inr key)"

definition held_at :: "vault_env \<Rightarrow> (rstr \<Rightarrow> rstr option) \<Rightarrow> file_node option \<Rightarrow> vault_entry \<Rightarrow> bool" where
  "held_at E kc node e \<longleftrightarrow> (\<exists>b f key. node = Some (RegularFile b) \<and> vc_file_from (vx_codec E) b = Inr f \<and> key_of E kc f key \<and> held_in E f key e)"

text \<open>Some file on the disk, with its key in the keychain, gives this entry.\<close>

definition held :: "vault_env \<Rightarrow> vault_world \<Rightarrow> vault_entry \<Rightarrow> bool" where
  "held E w e \<longleftrightarrow> (\<exists>p. held_at E (vw_keychain w) (d_files (vw_disk w) p) e)"

lemma key_of_unique: "key_of E kc f key \<Longrightarrow> key_of E kc f key' \<Longrightarrow> key = key'"
  by (auto simp: key_of_def)

lemma key_of_mono: "kc \<subseteq>\<^sub>m kc' \<Longrightarrow> key_of E kc f key \<Longrightarrow> key_of E kc' f key"
  by (force simp: key_of_def map_le_def)

lemma held_at_mono: "kc \<subseteq>\<^sub>m kc' \<Longrightarrow> held_at E kc node e \<Longrightarrow> held_at E kc' node e"
  by (auto simp: held_at_def dest: key_of_mono)

section \<open>Single steps\<close>

text \<open>Steps that leave the disk and the keychain alone.\<close>

definition same_world :: "vault_world \<Rightarrow> vault_world \<Rightarrow> bool" where
  "same_world w w' \<longleftrightarrow> d_files (vw_disk w') = d_files (vw_disk w) \<and> vw_keychain w' = vw_keychain w"

lemma same_world_trans: "same_world w w' \<Longrightarrow> same_world w' w'' \<Longrightarrow> same_world w w''"
  by (simp add: same_world_def)

lemma v_bind_cases:
  assumes "v_bind m f s = (r, s')"
  obtains (failed) e where "m s = (Inl e, s')" "r = Inl e" | (went_on) a s1 where "m s = (Inr a, s1)" "f a s1 = (r, s')"
  using assms by (auto simp: v_bind_def split: prod.splits sum.splits)

lemma v_bind_Inr: "m s = (Inr a, s1) \<Longrightarrow> v_bind m f s = f a s1"
  by (simp add: v_bind_def)

lemma draw_same: "draw E n what w = (r, w') \<Longrightarrow> same_world w w'"
  by (auto simp: draw_def same_world_def)

lemma read_key_effect:
  assumes "read_key E account w = (r, w')"
  shows "same_world w w'" and "r = Inr (Some key) \<Longrightarrow> \<exists>t. vw_keychain w account = Some t \<and> decode_key (vx_crypto E) t = Inr key"
  using assms
  by (auto simp: read_key_def keychain_get_def v_bind_def v_return_def v_lift_def same_world_def split: prod.splits sum.splits option.splits keychain_answer.splits)

lemma check_write_same: "on_disk (check_write X p) w = (r, w') \<Longrightarrow> w' = w"
  by (auto simp: on_disk_def check_write_def)

lemma seal_raw_effect:
  assumes "seal_raw E key ad plaintext w = (r, w')"
  shows "same_world w w'"
    and "vault_laws E \<Longrightarrow> r = Inr (nonce, ciphertext) \<Longrightarrow> open_raw (vx_crypto E) key ad nonce ciphertext = Inr plaintext"
proof -
  show "same_world w w'" using assms
    by (auto simp: seal_raw_def v_lift_def v_return_def elim!: v_bind_cases dest: draw_same)
  show "open_raw (vx_crypto E) key ad nonce ciphertext = Inr plaintext" if "vault_laws E" "r = Inr (nonce, ciphertext)"
    using assms that
    by (auto simp: seal_raw_def v_bind_def v_lift_def v_return_def draw_def open_raw_def vault_laws_def crypto_laws_def rbind_def ok_or_def fail_if_def map_err_def
        split: prod.splits sum.splits option.splits if_splits)
qed

lemma seal_into_effect:
  assumes "seal_into E i entry (v, w) = (r, v', w')" "vault_laws E"
  shows "same_world w w'"
    and "r \<noteq> Inr () \<Longrightarrow> v' = v"
    and "r = Inr () \<Longrightarrow> \<exists>key s. vl_key v = Some key \<and> open_entry E key i s = Inr entry
      \<and> v' = v\<lparr>vl_file := (vl_file v)\<lparr>vf_entries := bt_insert i s (vf_entries (vl_file v))\<rparr>\<rparr>"
proof -
  have *: "same_world w w' \<and> (r \<noteq> Inr () \<longrightarrow> v' = v) \<and> (r = Inr () \<longrightarrow> (\<exists>key s. vl_key v = Some key \<and> open_entry E key i s = Inr entry
      \<and> v' = v\<lparr>vl_file := (vl_file v)\<lparr>vf_entries := bt_insert i s (vf_entries (vl_file v))\<rparr>\<rparr>))"
  proof (cases "vl_key v")
    case None
    with assms(1) show ?thesis by (auto simp: seal_into_def v_bind_def v_lift_def ok_or_def same_world_def)
  next
    case (Some key)
    show ?thesis
    proof (cases "vc_entry_to (vx_codec E) entry")
      case (Inl x)
      with Some assms(1) show ?thesis by (auto simp: seal_into_def v_bind_def v_lift_def ok_or_def map_err_def same_world_def)
    next
      case (Inr plaintext)
      obtain x w1 where x: "seal_raw E key (vault_aad i) plaintext w = (x, w1)" by force
      have readable: "vc_entry_from (vx_codec E) plaintext = Inr entry" using assms(2) Inr by (simp add: vault_laws_def)
      show ?thesis
      proof (cases x)
        case (Inl e)
        with Some Inr x assms(1) seal_raw_effect(1) [OF x] show ?thesis
          by (auto simp: seal_into_def v_bind_def v_lift_def ok_or_def map_err_def in_vault_def)
      next
        case (Inr nc)
        obtain n c where nc: "nc = (n, c)" by force
        let ?s = "\<lparr>se_nonce = n, se_ciphertext = c\<rparr>"
        have "open_entry E key i ?s = Inr entry"
          using seal_raw_effect(2) [OF x assms(2)] Inr nc readable by (simp add: open_entry_def rbind_def map_err_def)
        moreover have "r = Inr ()" "v' = v\<lparr>vl_file := (vl_file v)\<lparr>vf_entries := bt_insert i ?s (vf_entries (vl_file v))\<rparr>\<rparr>" "w' = w1"
          using Some \<open>vc_entry_to (vx_codec E) entry = Inr plaintext\<close> x Inr nc assms(1)
          by (simp_all add: seal_into_def v_bind_def v_lift_def ok_or_def map_err_def in_vault_def)
        ultimately show ?thesis using Some seal_raw_effect(1) [OF x] by blast
      qed
    qed
  qed
  then show "same_world w w'" "r \<noteq> Inr () \<Longrightarrow> v' = v" "r = Inr () \<Longrightarrow> \<exists>key s. vl_key v = Some key \<and> open_entry E key i s = Inr entry
      \<and> v' = v\<lparr>vl_file := (vl_file v)\<lparr>vf_entries := bt_insert i s (vf_entries (vl_file v))\<rparr>\<rparr>" by blast+
qed

text \<open>Writing a file: every other file stays, and this one is the old or the new.\<close>

definition grows :: "path \<Rightarrow> bytes \<Rightarrow> (path \<Rightarrow> file_node option) \<Rightarrow> (path \<Rightarrow> file_node option) \<Rightarrow> bool" where
  "grows p b x y \<longleftrightarrow> (\<forall>q c. x q = Some (RegularFile c) \<longrightarrow> y q = x q \<or> q = p \<and> y q = Some (RegularFile b))"

lemma grows_refl [simp]: "grows p b x x"
  by (simp add: grows_def)

lemma grows_trans: "grows p b x y \<Longrightarrow> grows p b y z \<Longrightarrow> grows p b x z"
  unfolding grows_def by metis

lemma new_dirs_grow: "only_new_dirs up x y \<Longrightarrow> grows p b x y"
  unfolding only_new_dirs_def grows_def by (metis option.distinct(1))

lemma write_private_grows: "keeps (grows p b) (write_private X p b)"
proof -
  have "keeps (grows p b) (try_io (persist X p b))"
    by (auto simp: keeps_def try_io_def persist_def sys_def Let_def grows_def split: option.splits prod.splits)
  then show ?thesis
    unfolding write_private_def by (intro keeps_bind) (auto intro: grows_trans)
qed

lemma io_bind_InrE:
  assumes "io_bind m f d = (Inr r, d')"
  obtains a d1 where "m d = (Inr a, d1)" "f a d1 = (Inr r, d')"
  using assms by (auto simp: io_bind_def split: prod.splits sum.splits)

lemma write_private_done: "write_private X p b d = (Inr (), d') \<Longrightarrow> d_files d' p = Some (RegularFile b)"
  unfolding write_private_def
  by (elim io_bind_InrE) (auto simp: try_io_def persist_def sys_def map_err_def Let_def split: prod.splits sum.splits option.splits if_splits)

lemma ensure_dir_grows: "keeps (grows p b) (case up of Some dir \<Rightarrow> ensure_dir_secure X dir | None \<Rightarrow> io_return ())"
proof (cases up)
  case (Some dir)
  have "keeps (grows p b) (ensure_dir_secure X dir)"
    unfolding keeps_def using ensure_dir_keeps [unfolded keeps_def] new_dirs_grow by metis
  with Some show ?thesis by simp
qed simp

lemma on_disk_keeps: "keeps R m \<Longrightarrow> on_disk m w = (r, w') \<Longrightarrow> R (d_files (vw_disk w)) (d_files (vw_disk w')) \<and> vw_keychain w' = vw_keychain w"
  unfolding keeps_def on_disk_def by (auto split: prod.splits) (metis snd_conv)

lemma save_effect:
  assumes "vault_save E v w = (r, w')"
  shows "vw_keychain w' = vw_keychain w"
    and "d_files (vw_disk w') = d_files (vw_disk w)
      \<or> (\<exists>b. vc_file_to (vx_codec E) (vl_file v) = Inr b \<and> grows (vl_path v) b (d_files (vw_disk w)) (d_files (vw_disk w'))
           \<and> (r = Inr () \<longrightarrow> d_files (vw_disk w') (vl_path v) = Some (RegularFile b)))"
    and "r = Inr () \<Longrightarrow> \<exists>b. vc_file_to (vx_codec E) (vl_file v) = Inr b \<and> d_files (vw_disk w') (vl_path v) = Some (RegularFile b)"
proof -
  have *: "vw_keychain w' = vw_keychain w \<and> (r = Inr () \<longrightarrow> (\<exists>b. vc_file_to (vx_codec E) (vl_file v) = Inr b \<and> d_files (vw_disk w') (vl_path v) = Some (RegularFile b)))
    \<and> (d_files (vw_disk w') = d_files (vw_disk w) \<or> (\<exists>b. vc_file_to (vx_codec E) (vl_file v) = Inr b \<and> grows (vl_path v) b (d_files (vw_disk w)) (d_files (vw_disk w'))))"
    using assms unfolding vault_save_def
  proof (cases rule: v_bind_cases)
    case (failed e)
    then show ?thesis using check_write_same [OF failed(1)] by simp
  next
    case (went_on u w1)
    then have w1: "w1 = w" using check_write_same by blast
    show ?thesis
    proof (cases "vc_file_to (vx_codec E) (vl_file v)")
      case (Inl e)
      with went_on(2) w1 show ?thesis by (auto simp: v_bind_def v_lift_def map_err_def)
    next
      case (Inr b)
      let ?dir = "on_disk (case parent (vl_path v) of Some dir \<Rightarrow> ensure_dir_secure (vx_os E) dir | None \<Rightarrow> io_return ())"
      and ?last = "on_disk (\<lambda>d. case on_file (vx_os E) () d of (_, d) \<Rightarrow> (Inr (), d))"
      from went_on(2) w1 Inr have "v_bind ?dir (\<lambda>_. v_bind (on_disk (write_private (vx_os E) (vl_path v) b)) (\<lambda>_. ?last)) w = (r, w')"
        by (simp add: v_bind_def v_lift_def map_err_def)
      then show ?thesis
      proof (cases rule: v_bind_cases)
        case (failed e)
        with on_disk_keeps [OF ensure_dir_grows failed(1), of "vl_path v" b] Inr show ?thesis by auto
      next
        case (went_on u w2)
        note dir = on_disk_keeps [OF ensure_dir_grows went_on(1), of "vl_path v" b]
        from went_on(2) show ?thesis
        proof (cases rule: v_bind_cases)
          case (failed e)
          with on_disk_keeps [OF write_private_grows failed(1)] dir Inr show ?thesis by (auto intro: grows_trans)
        next
          case (went_on u w3)
          have "d_files (vw_disk w3) (vl_path v) = Some (RegularFile b)"
            using went_on(1) write_private_done by (auto simp: on_disk_def map_err_def split: prod.splits sum.splits)
          moreover have "d_files (vw_disk w') = d_files (vw_disk w3)" "vw_keychain w' = vw_keychain w3"
            using went_on(2) by (auto simp: on_disk_def on_file_def sys_def Let_def split: option.splits)
          ultimately show ?thesis using on_disk_keeps [OF write_private_grows went_on(1)] dir Inr by (auto intro: grows_trans)
        qed
      qed
    qed
  qed
  then show "vw_keychain w' = vw_keychain w" by blast
  from * show "r = Inr () \<Longrightarrow> \<exists>b. vc_file_to (vx_codec E) (vl_file v) = Inr b \<and> d_files (vw_disk w') (vl_path v) = Some (RegularFile b)" by blast
  from * show "d_files (vw_disk w') = d_files (vw_disk w)
      \<or> (\<exists>b. vc_file_to (vx_codec E) (vl_file v) = Inr b \<and> grows (vl_path v) b (d_files (vw_disk w)) (d_files (vw_disk w'))
           \<and> (r = Inr () \<longrightarrow> d_files (vw_disk w') (vl_path v) = Some (RegularFile b)))" by auto
qed

section \<open>Opening\<close>

lemma free_number_Some: "free_number taken n = Some k \<Longrightarrow> \<not> taken k"
proof (induction taken n rule: free_number.induct)
  case (1 taken n)
  then show ?case by (subst (asm) (2) free_number.simps) (auto split: if_splits)
qed

text \<open>A file that is set aside keeps its contents; it takes the place of another only where looking up the name failed.\<close>

lemma set_aside_effect:
  assumes "set_aside E p kind now reason w = (r, w')"
  shows "\<exists>e. r = Inl e" "vw_keychain w' = vw_keychain w"
    "d_files (vw_disk w') = d_files (vw_disk w)
      \<or> (\<exists>n q node. q = with_file_name p (aside_name kind now n) \<and> r = Inl (VE_Unreadable (Some (aside_name kind now n)) reason)
           \<and> (d_files (vw_disk w) q = None \<or> vx_lookup_fails E (vw_step w + n))
           \<and> d_files (vw_disk w) p = Some node \<and> d_files (vw_disk w') = (d_files (vw_disk w))(p := None, q := Some node))"
    (is ?moved)
proof -
  have "(\<exists>e. r = Inl e) \<and> vw_keychain w' = vw_keychain w \<and> ?moved"
  proof (cases "free_number (\<lambda>n. name_taken E (with_file_name p (aside_name kind now n)) (w\<lparr>vw_step := vw_step w + n\<rparr>)) 0")
    case None
    with assms show ?thesis by (auto simp: set_aside_def)
  next
    case (Some n)
    let ?q = "with_file_name p (aside_name kind now n)"
    have "d_files (vw_disk w) ?q = None \<or> vx_lookup_fails E (vw_step w + n)" using free_number_Some [OF Some] by (simp add: name_taken_def)
    with Some assms show ?thesis
      by (auto simp: set_aside_def Let_def v_bind_def on_disk_def io_bind_def check_write_def rename_file_def sys_def split: prod.splits sum.splits option.splits if_splits)
  qed
  then show "\<exists>e. r = Inl e" "vw_keychain w' = vw_keychain w" ?moved by blast+
qed

text \<open>
  The one way to lose an entry: the vault at \<open>p\<close> was set aside under a name at which an earlier vault with this entry is kept, because
  looking up that name failed.
\<close>

definition kept_vault_replaced :: "vault_env \<Rightarrow> path \<Rightarrow> u64 \<Rightarrow> vault_world \<Rightarrow> vault_error + 'a \<Rightarrow> vault_entry \<Rightarrow> bool" where
  "kept_vault_replaced E p now w r e \<longleftrightarrow>
     (\<exists>kind n reason k. r = Inl (VE_Unreadable (Some (aside_name kind now n)) reason) \<and> vx_lookup_fails E k
        \<and> held_at E (vw_keychain w) (d_files (vw_disk w) (with_file_name p (aside_name kind now n))) e)"

lemma set_aside_held:
  assumes "set_aside E p kind now reason w = (r, w')" "held E w e"
  shows "held E w' e \<or> kept_vault_replaced E p now w r e"
proof -
  note aside = set_aside_effect [OF assms(1)]
  obtain x where x: "held_at E (vw_keychain w) (d_files (vw_disk w) x) e" using assms(2) by (auto simp: held_def)
  from aside(3) show ?thesis
  proof
    assume "d_files (vw_disk w') = d_files (vw_disk w)"
    with x aside(2) show ?thesis by (auto simp: held_def)
  next
    assume "\<exists>n q node. q = with_file_name p (aside_name kind now n) \<and> r = Inl (VE_Unreadable (Some (aside_name kind now n)) reason)
        \<and> (d_files (vw_disk w) q = None \<or> vx_lookup_fails E (vw_step w + n))
        \<and> d_files (vw_disk w) p = Some node \<and> d_files (vw_disk w') = (d_files (vw_disk w))(p := None, q := Some node)"
    then obtain n q node where q: "q = with_file_name p (aside_name kind now n)" "r = Inl (VE_Unreadable (Some (aside_name kind now n)) reason)"
      "d_files (vw_disk w) q = None \<or> vx_lookup_fails E (vw_step w + n)" "d_files (vw_disk w) p = Some node"
      "d_files (vw_disk w') = (d_files (vw_disk w))(p := None, q := Some node)" by blast
    show ?thesis
    proof (cases "x = q")
      case True
      with x have "d_files (vw_disk w) q \<noteq> None" by (auto simp: held_at_def)
      with q(1-3) x True show ?thesis by (auto simp: kept_vault_replaced_def)
    next
      case False
      then have "held_at E (vw_keychain w') (d_files (vw_disk w') (if x = p then q else x)) e" using x q(4,5) aside(2) by auto
      then show ?thesis unfolding held_def by blast
    qed
  qed
qed

text \<open>The opened vault holds what its file holds; a key in memory is the one in the keychain.\<close>

definition in_step :: "vault_env \<Rightarrow> (rstr \<Rightarrow> rstr option) \<Rightarrow> vault_world \<Rightarrow> vault \<Rightarrow> bool" where
  "in_step E kc w v \<longleftrightarrow>
     (\<forall>e. held_at E kc (d_files (vw_disk w) (vl_path v)) e \<longrightarrow>
        (\<exists>key i s. vl_key v = Some key \<and> bt_get (vf_entries (vl_file v)) i = Some s \<and> open_entry E key i s = Inr e))
     \<and> (\<forall>key. vl_key v = Some key \<longrightarrow> key_of E (vw_keychain w) (vl_file v) key)
     \<and> (vl_key v = None \<longrightarrow> vf_entries (vl_file v) = []) \<and> vf_version (vl_file v) \<le> VAULT_VERSION"

lemma in_step_read:
  assumes "\<And>b'. d_files (vw_disk w) p = Some (RegularFile b') \<Longrightarrow> b' = b" "vc_file_from (vx_codec E) b = Inr f"
    "read_key E (key_account f) w = (Inr key, u)" "\<not> (key = None \<and> vf_entries f \<noteq> [])" "vf_version f \<le> VAULT_VERSION"
  shows "in_step E (vw_keychain w) u \<lparr>vl_path = p, vl_key = key, vl_file = f\<rparr>"
proof -
  note u = read_key_effect [OF assms(3)]
  have own: "key_of E (vw_keychain w) f k" if "key = Some k" for k using u(2) that by (auto simp: key_of_def)
  have "\<exists>k. key = Some k \<and> held_in E f k e" if "held_at E (vw_keychain w) (d_files (vw_disk w) p) e" for e
  proof -
    from that assms(1,2) obtain k where k: "key_of E (vw_keychain w) f k" "held_in E f k e" by (force simp: held_at_def)
    then have "key \<noteq> None" using assms(4) by (auto simp: held_in_def)
    with own k show ?thesis by (metis key_of_unique not_None_eq)
  qed
  with own assms(4,5) u(1) show ?thesis by (auto simp: in_step_def same_world_def held_in_def)
qed

lemma open_effect:
  assumes "vault_open E p now w = (r, w')" "vault_laws E"
  shows "r = Inl x \<Longrightarrow> held E w e \<Longrightarrow> held E w' e \<or> kept_vault_replaced E p now w r e"
    and "r = Inr v \<Longrightarrow> same_world w w' \<and> vl_path v = p \<and> in_step E (vw_keychain w) w' v"
proof -
  obtain c d where read: "read_file (vx_os E) p (vw_disk w) = (c, d)" by force
  let ?w = "w\<lparr>vw_disk := d\<rparr>"
  have d: "d_files d = d_files (vw_disk w)" using read by (auto simp: read_file_def sys_def Let_def split: option.splits)
  have held_d: "held E ?w e = held E w e" for e by (simp add: held_def d)
  have none: "\<not> held_at E kc (d_files (vw_disk w) p) e" if "c = Inl err" "io_kind err = IO_NotFound" for kc e err
    using read that by (auto simp: read_file_def sys_def Let_def held_at_def split: option.splits)
  have some: "d_files (vw_disk w) p = Some (RegularFile b') \<Longrightarrow> b' = b" if "c = Inr b" for b b'
    using read that by (auto simp: read_file_def sys_def Let_def split: option.splits)
  have "(\<forall>x. r = Inl x \<longrightarrow> held E w e \<longrightarrow> held E w' e \<or> kept_vault_replaced E p now w r e) \<and> (\<forall>v. r = Inr v \<longrightarrow> same_world w w' \<and> vl_path v = p \<and> in_step E (vw_keychain w) w' v)"
  proof (cases c)
    case (Inl err)
    with assms(1) read d none held_d show ?thesis
      by (auto simp: vault_open_def same_world_def in_step_def vault_file_default_def LEGACY_VERSION_def VAULT_VERSION_def split: if_splits)
  next
    case Inr_c: (Inr b)
    have aside: "\<exists>e'. r = Inl e'" "held E w e \<longrightarrow> held E w' e \<or> kept_vault_replaced E p now w r e"
      if "set_aside E p kind now reason u = (r, w')" "same_world w u" for kind reason u
      using set_aside_effect(1) [OF that(1)] set_aside_held [OF that(1)] that(2) by (simp_all add: same_world_def held_def kept_vault_replaced_def)
    have world: "same_world w ?w" using d by (simp add: same_world_def)
    show ?thesis
    proof (cases "vc_file_from (vx_codec E) b")
      case (Inl err)
      with assms(1) read Inr_c have "(\<exists>reason. set_aside E p (lit ''unreadable'') now reason ?w = (r, w')) \<or> (\<exists>x. r = Inl x) \<and> w' = ?w"
        by (cases "vc_probe (vx_codec E) b"; cases "projr (vc_probe (vx_codec E) b) > VAULT_VERSION") (simp_all add: vault_open_def v_fail_def v_lift_def, blast+)
      then show ?thesis
      proof
        assume "\<exists>reason. set_aside E p (lit ''unreadable'') now reason ?w = (r, w')"
        then obtain reason where "set_aside E p (lit ''unreadable'') now reason ?w = (r, w')" by blast
        from aside [OF this world] show ?thesis by auto
      qed (auto simp: held_d)
    next
      case (Inr f)
      have probe: "vc_probe (vx_codec E) b = Inr (vf_version f)" using assms(2) Inr by (simp add: vault_laws_def)
      show ?thesis
      proof (cases "vf_version f > VAULT_VERSION")
        case True
        with assms(1) read Inr_c probe held_d show ?thesis by (auto simp: vault_open_def v_fail_def v_lift_def)
      next
        case False
        let ?go = "\<lambda>key. if key = None \<and> vf_entries f \<noteq> []
            then set_aside E p (lit ''keyless'') now (lit ''the vault'' @ [39] @ lit ''s key is missing from the keychain'')
            else v_return \<lparr>vl_path = p, vl_key = key, vl_file = f\<rparr>"
        from False assms(1) read Inr_c probe Inr have "v_bind (read_key E (key_account f)) ?go ?w = (r, w')" by (simp add: vault_open_def)
        then show ?thesis
        proof (cases rule: v_bind_cases)
          case (failed x)
          with read_key_effect(1) [OF failed(1)] held_d show ?thesis by (auto simp: same_world_def held_def)
        next
          case (went_on key u)
          note u = read_key_effect [OF went_on(1)]
          have same: "same_world w u" using u(1) d by (simp add: same_world_def)
          show ?thesis
          proof (cases "key = None \<and> vf_entries f \<noteq> []")
            case True
            with went_on(2) have "set_aside E p (lit ''keyless'') now (lit ''the vault'' @ [39] @ lit ''s key is missing from the keychain'') u = (r, w')" by simp
            from aside [OF this same] show ?thesis by auto
          next
            case False
            with went_on(2) have "r = Inr \<lparr>vl_path = p, vl_key = key, vl_file = f\<rparr>" "w' = u" by (auto simp: v_return_def v_lift_def)
            moreover have "in_step E (vw_keychain ?w) u \<lparr>vl_path = p, vl_key = key, vl_file = f\<rparr>"
              by (rule in_step_read [OF _ Inr went_on(1) False]) (use some [OF Inr_c] \<open>\<not> vf_version f > VAULT_VERSION\<close> d in auto)
            ultimately show ?thesis using same by simp
          qed
        qed
      qed
    qed
  qed
  then show "r = Inl x \<Longrightarrow> held E w e \<Longrightarrow> held E w' e \<or> kept_vault_replaced E p now w r e" "r = Inr v \<Longrightarrow> same_world w w' \<and> vl_path v = p \<and> in_step E (vw_keychain w) w' v" by blast+
qed

section \<open>Changing a vault\<close>

lemma keychain_set_effect:
  "keychain_set E a t w = (r, w') \<Longrightarrow> d_files (vw_disk w') = d_files (vw_disk w) \<and> (vw_keychain w' = vw_keychain w \<or> vw_keychain w' = (vw_keychain w)(a \<mapsto> t))
     \<and> (r = Inr () \<longrightarrow> vw_keychain w' = (vw_keychain w)(a \<mapsto> t))"
  by (auto simp: keychain_set_def Let_def split: option.splits prod.splits if_splits)

definition keyed :: "rstr \<Rightarrow> bytes \<Rightarrow> vault \<Rightarrow> vault" where
  "keyed account key v = v\<lparr>vl_key := Some key, vl_file := (vl_file v)\<lparr>vf_version := VAULT_VERSION, vf_key_account := Some account\<rparr>\<rparr>"

lemma new_key_effect:
  assumes "v_bind (in_vault (new_key_account E)) (\<lambda>account. v_bind (in_vault (draw E 32 what)) (\<lambda>key.
      v_bind (in_vault (keychain_set E account (x_b64_encode (vx_crypto E) key))) (\<lambda>_ (v, w). (Inr (), keyed account key v, w)))) (v, w) = (r, v', w')"
    "vault_laws E" "fresh_accounts E kc" "kc \<subseteq>\<^sub>m vw_keychain w"
  shows "d_files (vw_disk w') = d_files (vw_disk w) \<and> kc \<subseteq>\<^sub>m vw_keychain w' \<and> vl_path v' = vl_path v
    \<and> (r = Inr () \<longrightarrow> (\<exists>account key. v' = keyed account key v \<and> key_of E (vw_keychain w') (vl_file v') key))"
  using assms(1)
proof (cases rule: v_bind_cases)
  case (failed e)
  then show ?thesis using assms(4) by (auto simp: in_vault_def new_key_account_def v_bind_def draw_def v_return_def v_lift_def split: prod.splits sum.splits)
next
  case (went_on account st1)
  then obtain w1 b where w1: "st1 = (v, w1)" "same_world w w1" "account = VAULT_KEY_ACCOUNT_PREFIX @ hex b" "\<exists>n. vx_random E n 8 = Inr b"
    by (auto simp: in_vault_def new_key_account_def v_bind_def draw_def v_return_def v_lift_def same_world_def map_err_def split: prod.splits sum.splits)
  then have free: "kc account = None" and le: "kc \<subseteq>\<^sub>m vw_keychain w1" using assms(3,4) by (auto simp: fresh_accounts_def same_world_def)
  from went_on(2) show ?thesis
  proof (cases rule: v_bind_cases)
    case (failed e)
    then show ?thesis using w1 le by (auto simp: in_vault_def draw_def same_world_def)
  next
    case (went_on key st2)
    then obtain w2 where w2: "st2 = (v, w2)" "same_world w1 w2" "length key = 32"
      using w1(1) assms(2) by (auto simp: in_vault_def draw_def same_world_def map_err_def vault_laws_def split: sum.splits)
    obtain x w3 where x: "keychain_set E account (x_b64_encode (vx_crypto E) key) w2 = (x, w3)" by force
    with went_on(2) w2(1) have "w' = w3" and v': "(\<exists>e. x = Inl e) \<and> r \<noteq> Inr () \<and> v' = v \<or> x = Inr () \<and> r = Inr () \<and> v' = keyed account key v"
      by (cases x; auto simp: v_bind_def in_vault_def)+
    note v'
    moreover have "decode_key (vx_crypto E) (x_b64_encode (vx_crypto E) key) = Inr key"
      using w2(3) assms(2) by (simp add: decode_key_def vault_laws_def crypto_laws_def rbind_def ok_or_def fail_if_def)
    moreover have "x = Inr () \<Longrightarrow> vw_keychain w3 account = Some (x_b64_encode (vx_crypto E) key)" using keychain_set_effect [OF x] by simp
    ultimately have "r = Inr () \<longrightarrow> v' = keyed account key v \<and> key_of E (vw_keychain w') (vl_file v') key"
      using \<open>w' = w3\<close> by (auto simp: key_of_def keyed_def key_account_def)
    moreover have "kc \<subseteq>\<^sub>m vw_keychain w3"
      using keychain_set_effect [OF x] w2(2) le free by (auto simp: same_world_def map_le_def dom_def)
    moreover have "vl_path v' = vl_path v" using v' by (auto simp: keyed_def)
    ultimately show ?thesis using \<open>w' = w3\<close> keychain_set_effect [OF x] w1(2) w2(2) by (auto simp: same_world_def)
  qed
qed

text \<open>A key for the vault: no account of before is overwritten.\<close>

lemma ensure_key_effect:
  assumes "ensure_key E (v, w) = (r, v', w')" "vault_laws E" "fresh_accounts E kc" "kc \<subseteq>\<^sub>m vw_keychain w" "in_step E kc w v"
  shows "d_files (vw_disk w') = d_files (vw_disk w) \<and> kc \<subseteq>\<^sub>m vw_keychain w' \<and> vl_path v' = vl_path v"
    and "r = Inr () \<Longrightarrow> in_step E kc w' v' \<and> vl_key v' \<noteq> None"
proof -
  have "d_files (vw_disk w') = d_files (vw_disk w) \<and> kc \<subseteq>\<^sub>m vw_keychain w' \<and> vl_path v' = vl_path v \<and> (r = Inr () \<longrightarrow> in_step E kc w' v' \<and> vl_key v' \<noteq> None)"
  proof (cases "vl_key v")
    case (Some k)
    with assms show ?thesis by (auto simp: ensure_key_def)
  next
    case None
    then have empty: "vf_entries (vl_file v) = []" "\<And>e. \<not> held_at E kc (d_files (vw_disk w) (vl_path v)) e" "vf_version (vl_file v) \<le> VAULT_VERSION"
      using assms(5) by (auto simp: in_step_def)
    obtain x u where x: "read_key E (key_account (vl_file v)) w = (x, u)" by force
    note u = read_key_effect [OF x]
    consider (fails) e where "x = Inl e" | (found) k where "x = Inr (Some k)" | (missing) "x = Inr None" by (cases x) auto
    then show ?thesis
    proof cases
      case fails
      with None assms(1,4) x u show ?thesis by (auto simp: ensure_key_def v_bind_def in_vault_def same_world_def)
    next
      case found
      with None assms(1) x have v': "r = Inr ()" "v' = v\<lparr>vl_key := Some k\<rparr>" "w' = u" by (simp_all add: ensure_key_def v_bind_def in_vault_def)
      moreover have "key_of E (vw_keychain u) (vl_file v) k" using u found by (auto simp: key_of_def same_world_def)
      ultimately show ?thesis using u(1) empty assms(4) by (simp add: in_step_def same_world_def)
    next
      case missing
      with x have "in_vault (read_key E (key_account (vl_file v))) (v, w) = (Inr None, v, u)" by (simp add: in_vault_def)
      with None empty(1) assms(1) have run: "v_bind (in_vault (new_key_account E)) (\<lambda>account. v_bind (in_vault (draw E 32 ''cannot draw the vault key: '')) (\<lambda>key.
          v_bind (in_vault (keychain_set E account (x_b64_encode (vx_crypto E) key))) (\<lambda>_ (v, w). (Inr (), keyed account key v, w)))) (v, u) = (r, v', w')"
        by (simp add: ensure_key_def v_bind_Inr keyed_def)
      have "kc \<subseteq>\<^sub>m vw_keychain u" using u(1) assms(4) by (simp add: same_world_def)
      from new_key_effect [OF run assms(2,3) this] u(1) empty show ?thesis by (auto simp: in_step_def same_world_def keyed_def)
    qed
  qed
  then show "d_files (vw_disk w') = d_files (vw_disk w) \<and> kc \<subseteq>\<^sub>m vw_keychain w' \<and> vl_path v' = vl_path v" "r = Inr () \<Longrightarrow> in_step E kc w' v' \<and> vl_key v' \<noteq> None"
    by blast+
qed

text \<open>
  What a change may take away: an opened vault carries every entry of its file, or, for one with the fingerprint of the new entry,
  the new entry.
\<close>

definition carries :: "vault_env \<Rightarrow> (rstr \<Rightarrow> rstr option) \<Rightarrow> vault_world \<Rightarrow> vault_entry \<Rightarrow> vault \<Rightarrow> bool" where
  "carries E kc w entry v \<longleftrightarrow> (\<exists>key. vl_key v = Some key \<and> key_of E (vw_keychain w) (vl_file v) key
     \<and> (\<forall>e. held_at E kc (d_files (vw_disk w) (vl_path v)) e \<longrightarrow>
          held_in E (vl_file v) key e \<or> vt_fingerprint e = vt_fingerprint entry \<and> held_in E (vl_file v) key entry))"

lemma held_in_new: "open_entry E key i s = Inr entry \<Longrightarrow> held_in E (f\<lparr>vf_entries := bt_insert i s (vf_entries f)\<rparr>) key entry"
  by (auto simp: held_in_def)

lemma key_of_entries [simp]: "key_of E kc (f\<lparr>vf_entries := es\<rparr>) key = key_of E kc f key"
  by (simp add: key_of_def key_account_def)

lemma save_carries:
  assumes "save_opened E (v, w) = (r, v', w')" "carries E kc w entry v" "vault_laws E" "kc \<subseteq>\<^sub>m vw_keychain w"
    "held_at E kc (d_files (vw_disk w) q) e"
  shows "held E w' e \<or> vt_fingerprint e = vt_fingerprint entry \<and> held E w' entry"
proof -
  obtain key where key: "vl_key v = Some key" "key_of E (vw_keychain w) (vl_file v) key" "\<And>e. held_at E kc (d_files (vw_disk w) (vl_path v)) e \<Longrightarrow>
      held_in E (vl_file v) key e \<or> vt_fingerprint e = vt_fingerprint entry \<and> held_in E (vl_file v) key entry"
    using assms(2) by (auto simp: carries_def)
  have run: "vault_save E v w = (r, w')" using assms(1) by (auto simp: save_opened_def in_vault_def split: prod.splits)
  note saved = save_effect [OF run]
  have stays: "held E w' e" if "d_files (vw_disk w') q = d_files (vw_disk w) q"
    using held_at_mono [OF assms(4,5)] that saved(1) unfolding held_def by metis
  from saved(2) show ?thesis
  proof
    assume "\<exists>b. vc_file_to (vx_codec E) (vl_file v) = Inr b \<and> grows (vl_path v) b (d_files (vw_disk w)) (d_files (vw_disk w'))
           \<and> (r = Inr () \<longrightarrow> d_files (vw_disk w') (vl_path v) = Some (RegularFile b))"
    then obtain b where b: "vc_file_to (vx_codec E) (vl_file v) = Inr b" "grows (vl_path v) b (d_files (vw_disk w)) (d_files (vw_disk w'))" by blast
    show ?thesis
    proof (cases "d_files (vw_disk w') q = d_files (vw_disk w) q")
      case False
      obtain c where "d_files (vw_disk w) q = Some (RegularFile c)" using assms(5) by (auto simp: held_at_def)
      with b(2) False have q: "q = vl_path v" "d_files (vw_disk w') q = Some (RegularFile b)" unfolding grows_def by metis+
      have "held E w' e'" if "held_in E (vl_file v) key e'" for e'
        using that q b(1) key(2) saved(1) assms(3) unfolding held_def held_at_def vault_laws_def by metis
      with key(3) assms(5) q(1) show ?thesis by blast
    qed (use stays in blast)
  qed (use stays in simp)
qed

text \<open>The slot may be overwritten: what it holds is also elsewhere, or has the fingerprint of the new entry.\<close>

definition spare :: "vault_env \<Rightarrow> bytes \<Rightarrow> rstr \<Rightarrow> vault_entry \<Rightarrow> vault_file \<Rightarrow> bool" where
  "spare E key i entry f \<longleftrightarrow> (\<forall>e. held_in E f key e \<longrightarrow>
     (\<exists>j s. j \<noteq> i \<and> bt_get (vf_entries f) j = Some s \<and> open_entry E key j s = Inr e) \<or> vt_fingerprint e = vt_fingerprint entry)"

lemma retired_id_other: "retired_id i now n \<noteq> i"
proof
  assume "retired_id i now n = i"
  then have "length (retired_id i now n) = length i" by simp
  then show False by (simp add: retired_id_def numbered_def RETIRED_PREFIX_def lit_def split: if_splits)
qed

lemma get_opens:
  assumes "vault_get E i v = Inr old" "vl_key v = Some key" "bt_get (vf_entries (vl_file v)) i = Some s" "open_entry E key i s = Inr e"
  shows "old = Some e"
  using assms by (simp add: vault_get_def rbind_def ok_or_def)

lemma retire_effect:
  assumes "retire E i entry now old (v, w) = (r, v', w')" "vault_get E i v = Inr old" "vl_key v = Some key" "vault_laws E"
  shows "same_world w w'"
    and "r = Inr x \<Longrightarrow> \<exists>es. v' = v\<lparr>vl_file := (vl_file v)\<lparr>vf_entries := es\<rparr>\<rparr> \<and> (\<forall>e. held_in E (vl_file v) key e \<longrightarrow> held_in E (vl_file v') key e)
      \<and> spare E key i entry (vl_file v')"
proof -
  have "same_world w w' \<and> (\<forall>x. r = Inr x \<longrightarrow> (\<exists>es. v' = v\<lparr>vl_file := (vl_file v)\<lparr>vf_entries := es\<rparr>\<rparr>
      \<and> (\<forall>e. held_in E (vl_file v) key e \<longrightarrow> held_in E (vl_file v') key e) \<and> spare E key i entry (vl_file v')))"
  proof (cases "\<exists>o1. old = Some o1 \<and> vt_fingerprint o1 \<noteq> vt_fingerprint entry")
    case False
    then have "r = Inr None" "v' = v" "w' = w" using assms(1) by (auto simp: retire_def v_return_def v_lift_def split: option.splits)
    moreover have "spare E key i entry (vl_file v)"
      using get_opens [OF assms(2,3)] False unfolding spare_def held_in_def by metis
    ultimately show ?thesis by (auto simp: same_world_def intro: exI [of _ "vf_entries (vl_file v)"])
  next
    case True
    then obtain o1 where o1: "old = Some o1" "vt_fingerprint o1 \<noteq> vt_fingerprint entry" by blast
    show ?thesis
    proof (cases "free_retired_id i now v")
      case (Inl e)
      with assms(1) o1 show ?thesis by (auto simp: retire_def v_bind_def same_world_def)
    next
      case (Inr rid)
      then have rid: "bt_get (vf_entries (vl_file v)) rid = None" "rid \<noteq> i"
        using retired_id_other by (auto simp: free_retired_id_def bt_contains_def dest!: free_number_Some split: option.splits)
      obtain y v2 w2 where y: "seal_into E rid o1 (v, w) = (y, v2, w2)" using prod_cases3 by blast
      note sealed = seal_into_effect [OF y assms(4)]
      from assms(1) o1 Inr y have run: "v' = v2" "w' = w2" "(\<exists>e. y = Inl e \<and> r = Inl e) \<or> y = Inr () \<and> r = Inr (Some rid)"
        by (cases y; auto simp: retire_def v_bind_def v_return_def v_lift_def)+
      show ?thesis
      proof (cases "y = Inr ()")
        case True
        then obtain s where s: "open_entry E key rid s = Inr o1" "v2 = v\<lparr>vl_file := (vl_file v)\<lparr>vf_entries := bt_insert rid s (vf_entries (vl_file v))\<rparr>\<rparr>"
          using sealed(3) assms(3) by auto
        have kept: "held_in E (vl_file v2) key e" if "held_in E (vl_file v) key e" for e
        proof -
          from that obtain j t where "bt_get (vf_entries (vl_file v)) j = Some t" "open_entry E key j t = Inr e" by (auto simp: held_in_def)
          with s(2) rid(1) show ?thesis unfolding held_in_def by (intro exI [of _ j] exI [of _ t]) auto
        qed
        have "spare E key i entry (vl_file v2)"
          unfolding spare_def
        proof (intro allI impI)
          fix e assume "held_in E (vl_file v2) key e"
          then obtain j t where j: "bt_get (vf_entries (vl_file v2)) j = Some t" "open_entry E key j t = Inr e" by (auto simp: held_in_def)
          show "(\<exists>j s. j \<noteq> i \<and> bt_get (vf_entries (vl_file v2)) j = Some s \<and> open_entry E key j s = Inr e) \<or> vt_fingerprint e = vt_fingerprint entry"
          proof (cases "j = i")
            case True
            with j s rid get_opens [OF assms(2,3)] o1 have "e = o1" by simp
            with s rid show ?thesis by (intro disjI1 exI [of _ rid] exI [of _ s]) simp
          qed (use j in blast)
        qed
        with kept s run sealed(1) show ?thesis by auto
      qed (use run sealed(1) in auto)
    qed
  qed
  then show "same_world w w'" "r = Inr x \<Longrightarrow> \<exists>es. v' = v\<lparr>vl_file := (vl_file v)\<lparr>vf_entries := es\<rparr>\<rparr>
      \<and> (\<forall>e. held_in E (vl_file v) key e \<longrightarrow> held_in E (vl_file v') key e) \<and> spare E key i entry (vl_file v')" by blast+
qed

text \<open>Sealing the new entry into the slot.\<close>

lemma seal_slot_carries:
  assumes "seal_into E i entry (v, w) = (Inr (), v', w')" "vault_laws E" "spare E key i entry (vl_file v)" "vl_key v = Some key"
    "key_of E (vw_keychain w) (vl_file v) key" "\<And>e. held_at E kc (d_files (vw_disk w) (vl_path v)) e \<Longrightarrow> held_in E (vl_file v) key e"
  shows "carries E kc w' entry v' \<and> vl_path v' = vl_path v \<and> vf_version (vl_file v') = vf_version (vl_file v) \<and> vault_get E i v' = Inr (Some entry)"
proof -
  note sealed = seal_into_effect [OF assms(1,2)]
  obtain s where s: "open_entry E key i s = Inr entry" "v' = v\<lparr>vl_file := (vl_file v)\<lparr>vf_entries := bt_insert i s (vf_entries (vl_file v))\<rparr>\<rparr>"
    using sealed(3) assms(4) by auto
  have "held_in E (vl_file v') key e \<or> vt_fingerprint e = vt_fingerprint entry \<and> held_in E (vl_file v') key entry" if "held_in E (vl_file v) key e" for e
  proof -
    from assms(3) that consider (other) j t where "j \<noteq> i" "bt_get (vf_entries (vl_file v)) j = Some t" "open_entry E key j t = Inr e"
      | (same) "vt_fingerprint e = vt_fingerprint entry" unfolding spare_def by blast
    then show ?thesis
    proof cases
      case other
      with s show ?thesis unfolding held_in_def by (intro disjI1 exI [of _ j] exI [of _ t]) simp
    next
      case same
      with s held_in_new [OF s(1)] show ?thesis by simp
    qed
  qed
  with assms(4,5,6) s sealed(1) show ?thesis
    by (auto simp: carries_def same_world_def vault_get_def rbind_def ok_or_def)
qed

text \<open>After a success the file is the one in memory, which gives the entry.\<close>

definition settled :: "vault_env \<Rightarrow> path \<Rightarrow> rstr \<Rightarrow> vault_entry \<Rightarrow> vault_world \<Rightarrow> bool" where
  "settled E p i entry w \<longleftrightarrow> (\<exists>v b key. vc_file_to (vx_codec E) (vl_file v) = Inr b \<and> d_files (vw_disk w) p = Some (RegularFile b)
     \<and> vl_key v = Some key \<and> key_of E (vw_keychain w) (vl_file v) key \<and> vf_version (vl_file v) \<le> VAULT_VERSION \<and> vault_get E i v = Inr (Some entry))"

definition loses_nothing :: "vault_env \<Rightarrow> (rstr \<Rightarrow> rstr option) \<Rightarrow> (path \<Rightarrow> file_node option) \<Rightarrow> vault_entry \<Rightarrow> vault_world \<Rightarrow> bool" where
  "loses_nothing E kc files entry w' \<longleftrightarrow> (\<forall>q e. held_at E kc (files q) e \<longrightarrow> held E w' e \<or> vt_fingerprint e = vt_fingerprint entry \<and> held E w' entry)"

lemma unsaved_loses_nothing: "d_files (vw_disk w') = files \<Longrightarrow> kc \<subseteq>\<^sub>m vw_keychain w' \<Longrightarrow> loses_nothing E kc files entry w'"
  unfolding loses_nothing_def held_def using held_at_mono by blast

lemma seal_and_save:
  assumes "v_bind (seal_into E i entry) (\<lambda>_. v_bind (save_opened E) (\<lambda>_. v_return x)) (v, w) = (r, v', w')" "vault_laws E" "spare E key i entry (vl_file v)"
    "vl_key v = Some key" "key_of E (vw_keychain w) (vl_file v) key" "\<And>e. held_at E kc (d_files (vw_disk w) (vl_path v)) e \<Longrightarrow> held_in E (vl_file v) key e"
    "kc \<subseteq>\<^sub>m vw_keychain w" "vf_version (vl_file v) \<le> VAULT_VERSION"
  shows "loses_nothing E kc (d_files (vw_disk w)) entry w' \<and> (r = Inr y \<longrightarrow> settled E (vl_path v) i entry w')"
  using assms(1)
proof (cases rule: v_bind_cases)
  case (failed e)
  then show ?thesis using seal_into_effect(1) [OF failed(1) assms(2)] assms(7) by (auto simp: same_world_def intro: unsaved_loses_nothing)
next
  case (went_on u st)
  obtain v1 w1 where st: "st = (v1, w1)" by force
  have sealed: "seal_into E i entry (v, w) = (Inr (), v1, w1)" using went_on(1) st by simp
  have carried: "carries E kc w1 entry v1" "vl_path v1 = vl_path v" "vf_version (vl_file v1) = vf_version (vl_file v)" "vault_get E i v1 = Inr (Some entry)"
    using seal_slot_carries [OF sealed assms(2-5), of kc] assms(6) by blast+
  have w1: "same_world w w1" using seal_into_effect(1) [OF sealed assms(2)] .
  obtain z v2 w2 where z: "save_opened E (v1, w1) = (z, v2, w2)" using prod_cases3 by blast
  then have run: "vault_save E v1 w1 = (z, w2)" "v2 = v1" by (auto simp: save_opened_def in_vault_def split: prod.splits)
  have end_: "w' = w2" "r = Inr y \<Longrightarrow> z = Inr ()" using went_on(2) st z by (cases z; auto simp: v_bind_def v_return_def v_lift_def)+
  have "loses_nothing E kc (d_files (vw_disk w)) entry w'"
    using save_carries [OF z carried(1) assms(2)] w1 assms(7) end_(1) by (simp add: loses_nothing_def same_world_def)
  moreover have "settled E (vl_path v) i entry w'" if "r = Inr y"
    using save_effect(1,3) [OF run(1)] end_ that carried assms(8) unfolding settled_def carries_def by metis
  ultimately show ?thesis by blast
qed

lemma replace_effect:
  assumes "vault_replace E i entry now (v, w) = (r, v', w')" "vault_laws E" "fresh_accounts E kc" "kc \<subseteq>\<^sub>m vw_keychain w" "in_step E kc w v"
  shows "loses_nothing E kc (d_files (vw_disk w)) entry w' \<and> (r = Inr x \<longrightarrow> settled E (vl_path v) i entry w')"
proof -
  obtain c wc where check: "on_disk (check_write (vx_os E) (vl_path v)) w = (c, wc)" by force
  then have wc: "wc = w" by (rule check_write_same)
  let ?rest = "v_bind (ensure_key E) (\<lambda>_. v_bind (\<lambda>(v, w). (vault_get E i v, v, w)) (\<lambda>old. v_bind (retire E i entry now old) (\<lambda>retired.
      v_bind (seal_into E i entry) (\<lambda>_. v_bind (save_opened E) (\<lambda>_. v_return retired)))))"
  show ?thesis
  proof (cases c)
    case (Inl e)
    with assms(1) check wc have "w' = w" "r = Inl e" by (auto simp: vault_replace_def v_bind_def in_vault_def)
    with assms(4) show ?thesis by (simp add: unsaved_loses_nothing)
  next
    case (Inr u)
    with assms(1) check wc have "?rest (v, w) = (r, v', w')" by (simp add: vault_replace_def v_bind_Inr in_vault_def)
    then show ?thesis
    proof (cases rule: v_bind_cases)
      case (failed e)
      then show ?thesis using ensure_key_effect(1) [OF failed(1) assms(2-5)] by (simp add: unsaved_loses_nothing)
    next
      case (went_on u st)
      obtain v1 w1 where st: "st = (v1, w1)" by force
      have ensured: "ensure_key E (v, w) = (Inr (), v1, w1)" using went_on(1) st by simp
      note e1 = ensure_key_effect [OF ensured assms(2-5)]
      obtain key where key: "vl_key v1 = Some key" using e1(2) by auto
      show ?thesis
      proof (cases "vault_get E i v1")
        case (Inl e)
        with went_on(2) st e1(1) show ?thesis by (auto simp: v_bind_def intro: unsaved_loses_nothing)
      next
        case (Inr old)
        with went_on(2) st have "v_bind (retire E i entry now old) (\<lambda>retired. v_bind (seal_into E i entry) (\<lambda>_. v_bind (save_opened E) (\<lambda>_. v_return retired))) (v1, w1) = (r, v', w')"
          by (simp add: v_bind_Inr)
        then show ?thesis
        proof (cases rule: v_bind_cases)
          case (failed e)
          then show ?thesis using retire_effect(1) [OF failed(1) Inr key assms(2)] e1(1) by (auto simp: same_world_def intro: unsaved_loses_nothing)
        next
          case (went_on y st2)
          obtain v2 w2 where st2: "st2 = (v2, w2)" by force
          have retired: "retire E i entry now old (v1, w1) = (Inr y, v2, w2)" using went_on(1) st2 by simp
          note r2 = retire_effect [OF retired Inr key assms(2)]
          obtain es where es: "v2 = v1\<lparr>vl_file := (vl_file v1)\<lparr>vf_entries := es\<rparr>\<rparr>" "spare E key i entry (vl_file v2)"
            "\<And>e. held_in E (vl_file v1) key e \<Longrightarrow> held_in E (vl_file v2) key e" using r2(2) by auto
          have "loses_nothing E kc (d_files (vw_disk w2)) entry w' \<and> (r = Inr x \<longrightarrow> settled E (vl_path v2) i entry w')"
            by (rule seal_and_save [OF went_on(2) [unfolded st2] assms(2) es(2)])
              (use es e1 r2(1) key in \<open>auto simp: in_step_def same_world_def held_in_def\<close>)
          with es(1) e1(1) r2(1) show ?thesis by (simp add: same_world_def)
        qed
      qed
    qed
  qed
qed

section \<open>Properties\<close>

text \<open>
  C10. Putting a key into a slot of the vault loses no private key, whatever fails on the way: on the disk, in the keychain, or in a keychain
  that reports its keys as missing. Every entry that could be opened before with its file and the keychain can be opened afterwards; only an entry with
  the fingerprint of the new one may be replaced, and then the new one can be opened. There is one exception, and it is the only one: the call
  answers that it set the vault aside under a name at which an earlier vault with this entry was kept, after looking up that name failed
  (\<open>kept_vault_replaced\<close>). Drawn account names are new.
\<close>
theorem vault_keeps_keys:
  assumes "with_vault E p now (vault_replace E i entry now) w = (r, w')" "vault_laws E" "fresh_accounts E (vw_keychain w)" "held E w e"
  shows "held E w' e \<or> vt_fingerprint e = vt_fingerprint entry \<and> held E w' entry \<or> kept_vault_replaced E p now w r e"
proof -
  obtain x w1 where opened: "vault_open E p now w = (x, w1)" by force
  note o1 = open_effect [OF opened assms(2)]
  obtain q where q: "held_at E (vw_keychain w) (d_files (vw_disk w) q) e" using assms(4) by (auto simp: held_def)
  show ?thesis
  proof (cases x)
    case (Inl y)
    with assms(1) opened have "w' = w1" "r = Inl y" by (simp_all add: with_vault_def v_bind_def)
    with o1(1) [OF Inl assms(4)] Inl show ?thesis by (auto simp: kept_vault_replaced_def)
  next
    case (Inr v)
    with o1(2) have w1: "same_world w w1" "in_step E (vw_keychain w) w1 v" by blast+
    obtain y v' w2 where "vault_replace E i entry now (v, w1) = (y, v', w2)" using prod_cases3 by blast
    with assms(1) opened Inr replace_effect [OF this assms(2,3)] w1 q show ?thesis
      by (auto simp: with_vault_def v_bind_def same_world_def loses_nothing_def)
  qed
qed

text \<open>
  C11. A key that was put into the vault can be read back: after a success, opening the vault anew and reading the slot gives the
  entry, provided that the operating system and the keychain answer by then.
\<close>
theorem vault_reads_back:
  assumes "with_vault E p now (vault_replace E i entry now) w = (Inr x, w')" "vault_laws E" "fresh_accounts E (vw_keychain w)"
    "\<forall>n. x_fault X n = None" "E' = E\<lparr>vx_os := X, vx_keychain_get := \<lambda>_. KA_Answers\<rparr>"
  shows "fst (with_vault E' p later (\<lambda>(v, w). (vault_get E' i v, v, w)) w') = Inr (Some entry)"
proof -
  obtain v w1 where opened: "vault_open E p now w = (Inr v, w1)" and "fst (vault_replace E i entry now (v, w1)) = Inr x" "snd (snd (vault_replace E i entry now (v, w1))) = w'"
    using assms(1) by (auto simp: with_vault_def elim!: v_bind_cases split: prod.splits)
  then obtain v' where run: "vault_replace E i entry now (v, w1) = (Inr x, v', w')" by (metis prod.collapse)
  have w1: "same_world w w1" "vl_path v = p" "in_step E (vw_keychain w) w1 v" using open_effect(2) [OF opened assms(2)] by blast+
  then have "settled E p i entry w'" using replace_effect [OF run assms(2,3)] by (simp add: same_world_def)
  then obtain u b key t where u: "vc_file_to (vx_codec E) (vl_file u) = Inr b" "d_files (vw_disk w') p = Some (RegularFile b)" "vl_key u = Some key"
    "vw_keychain w' (key_account (vl_file u)) = Some t" "decode_key (vx_crypto E) t = Inr key" "vf_version (vl_file u) \<le> VAULT_VERSION" "vault_get E i u = Inr (Some entry)"
    by (auto simp: settled_def key_of_def)
  have "vc_file_from (vx_codec E) b = Inr (vl_file u)" "vc_probe (vx_codec E) b = Inr (vf_version (vl_file u))"
    using u(1) assms(2) by (simp_all add: vault_laws_def)
  then have "fst (vault_open E' p later w') = Inr \<lparr>vl_path = p, vl_key = Some key, vl_file = vl_file u\<rparr>"
    using u assms(4,5)
    by (simp add: vault_open_def read_file_def sys_def Let_def read_key_def keychain_get_def v_bind_def v_lift_def v_return_def not_less [symmetric])
  moreover have "vault_get E' i \<lparr>vl_path = p, vl_key = Some key, vl_file = vl_file u\<rparr> = Inr (Some entry)"
    using u(3,7) assms(5) by (simp add: vault_get_def open_entry_def cong: option.case_cong)
  ultimately show ?thesis by (cases "vault_open E' p later w'") (simp add: with_vault_def v_bind_def)
qed

section \<open>A vault with one key\<close>

definition demo_entry :: "string \<Rightarrow> vault_entry" where
  "demo_entry name = \<lparr>vt_private_key = lit name, vt_public_key = [], vt_fingerprint = lit name, vt_origin = EO_Imported, vt_added_at_ms = 0\<rparr>"

definition demo_seal :: "nat \<Rightarrow> u8 \<Rightarrow> sealed_entry" where
  "demo_seal n c = \<lparr>se_nonce = replicate 24 n, se_ciphertext = map unat (c # replicate 32 0)\<rparr>"

definition demo_slot :: rstr where
  "demo_slot = lit ''slot''"

definition demo_file :: vault_file where
  "demo_file = \<lparr>vf_version = VAULT_VERSION, vf_key_account = Some (VAULT_KEY_ACCOUNT_PREFIX @ hex (replicate 8 0)), vf_settings = agent_settings_default,
     vf_entries = [(demo_slot, demo_seal 0 5)]\<rparr>"

definition demo_file_after :: vault_file where
  "demo_file_after = demo_file\<lparr>vf_entries := bt_insert demo_slot (demo_seal 1 6) (bt_insert (retired_id demo_slot 0 0) (demo_seal 1 5) (vf_entries demo_file))\<rparr>"

definition demo_codec :: vault_codec where
  "demo_codec =
     \<lparr>vc_probe = (\<lambda>b. if b = [1] \<or> b = [2] then Inr VAULT_VERSION else Inl []),
      vc_file_from = (\<lambda>b. if b = [1] then Inr demo_file else if b = [2] then Inr demo_file_after else Inl []),
      vc_file_to = (\<lambda>f. if f = demo_file then Inr [1] else if f = demo_file_after then Inr [2] else Inl []),
      vc_entry_from = (\<lambda>b. if b = [5] then Inr (demo_entry ''first'') else if b = [6] then Inr (demo_entry ''second'') else Inl []),
      vc_entry_to = (\<lambda>e. if e = demo_entry ''first'' then Inr [5] else if e = demo_entry ''second'' then Inr [6] else Inl [])\<rparr>"

definition demo_env :: "u8 \<Rightarrow> vault_env" where
  "demo_env c = \<lparr>vx_crypto = sample_ext, vx_codec = demo_codec, vx_os = calm, vx_lookup_fails = \<lambda>_. False, vx_keychain_get = \<lambda>_. KA_Answers,
     vx_keychain_set = \<lambda>_. None, vx_random = \<lambda>_ k. Inr (replicate k c)\<rparr>"

definition demo_path :: path where
  "demo_path = sample_dir @ [Normal VAULT_FILE]"

definition demo_empty :: vault_world where
  "demo_empty = \<lparr>vw_disk = sample_disk, vw_keychain = \<lambda>_. None, vw_step = 0\<rparr>"

definition demo_full :: vault_world where
  "demo_full = \<lparr>vw_disk = sample_disk\<lparr>d_files := [demo_path \<mapsto> RegularFile [1]]\<rparr>, vw_keychain = [key_account demo_file \<mapsto> replicate 32 0], vw_step = 0\<rparr>"

lemma vault_demo_laws: "vault_laws (demo_env c)"
proof -
  have "vf_version demo_file = VAULT_VERSION" "vf_version demo_file_after = VAULT_VERSION" by (simp_all add: demo_file_def demo_file_after_def)
  with sample_laws show ?thesis by (simp add: vault_laws_def demo_env_def demo_codec_def)
qed

lemma vault_demo_held: "held (demo_env c) demo_full (demo_entry ''first'')"
proof -
  have "open_entry (demo_env c) (replicate 32 0) demo_slot (demo_seal 0 5) = Inr (demo_entry ''first'')"
    by (simp add: open_entry_def open_raw_def demo_env_def demo_codec_def demo_seal_def sample_ext_def rbind_def ok_or_def fail_if_def map_err_def NONCE_LEN_def)
  moreover have "decode_key sample_ext (replicate 32 0) = Inr (replicate 32 0)"
    by (simp add: decode_key_def sample_ext_def rbind_def ok_or_def fail_if_def)
  ultimately show ?thesis
    unfolding held_def held_at_def key_of_def held_in_def
    by (intro exI [of _ demo_path] exI [of _ "[1]"] exI [of _ demo_file] exI [of _ "replicate 32 0"] conjI exI [of _ demo_slot] exI [of _ "demo_seal 0 5"])
      (simp_all add: demo_full_def demo_env_def demo_codec_def demo_file_def bt_get_def)
qed

lemma hex_differs: "hex (replicate 8 (1 :: u8)) \<noteq> hex (replicate 8 0)"
  by code_simp

theorem vault_keeps_keys_witness:
  "held (demo_env 1) (snd (with_vault (demo_env 1) demo_path 0 (vault_replace (demo_env 1) demo_slot (demo_entry ''second'') 0) demo_full)) (demo_entry ''first'')"
proof -
  obtain r w' where run: "with_vault (demo_env 1) demo_path 0 (vault_replace (demo_env 1) demo_slot (demo_entry ''second'') 0) demo_full = (r, w')" by force
  have "fresh_accounts (demo_env 1) (vw_keychain demo_full)"
    using hex_differs by (simp add: fresh_accounts_def demo_env_def demo_full_def demo_file_def key_account_def)
  moreover have "\<not> kept_vault_replaced (demo_env 1) demo_path 0 demo_full r (demo_entry ''first'')"
    "vt_fingerprint (demo_entry ''first'') \<noteq> vt_fingerprint (demo_entry ''second'')"
    by (simp_all add: kept_vault_replaced_def demo_env_def demo_entry_def lit_def)
  ultimately show ?thesis using vault_keeps_keys [OF run vault_demo_laws _ vault_demo_held] by (simp add: run)
qed

lemmas vault_run_defs = with_vault_def vault_open_def read_file_def vault_replace_def ensure_key_def read_key_def keychain_get_def new_key_account_def draw_def
  keychain_set_def retire_def seal_into_def seal_raw_def save_opened_def vault_save_def write_private_def v_bind_def v_lift_def v_return_def in_vault_def on_disk_def
  io_bind_def io_lift_def try_io_def on_file_def persist_def ensure_dir_secure_def path_exists_def symlink_metadata_def create_dir_all_def make_dirs_def

lemma vault_demo_run: "\<exists>w'. with_vault (demo_env 0) demo_path 0 (vault_replace (demo_env 0) demo_slot (demo_entry ''first'') 0) demo_empty = (Inr None, w')"
  by (simp add: vault_run_defs demo_env_def demo_codec_def demo_empty_def sample_disk_def demo_path_def sample_dir_def parent_def vault_file_default_def
      vault_get_def demo_file_def demo_seal_def sample_ext_def not_found_def map_err_def ok_or_def Let_def NONCE_LEN_def)

text \<open>
  The exception does occur: an unreadable vault is set aside over an earlier kept one when looking up the name fails once, and the
  private key of the earlier one is gone.
\<close>

definition demo_aside :: path where
  "demo_aside = with_file_name demo_path (aside_name (lit ''unreadable'') 0 0)"

definition demo_kept :: vault_world where
  "demo_kept = demo_full\<lparr>vw_disk := sample_disk\<lparr>d_files := [demo_path \<mapsto> RegularFile [9], demo_aside \<mapsto> RegularFile [1]]\<rparr>\<rparr>"

lemma failed_lookup_loses_kept_vault:
  fixes f :: "(vault \<times> vault_world, 'a) vault_act"
  assumes E: "E = (demo_env 1)\<lparr>vx_lookup_fails := \<lambda>n. n = 0\<rparr>"
  shows "vault_laws E" "held E demo_kept (demo_entry ''first'')"
    "\<not> held E (snd (with_vault E demo_path 0 f demo_kept)) (demo_entry ''first'')"
proof -
  have ne: "demo_aside \<noteq> demo_path"
    by (simp add: demo_aside_def demo_path_def with_file_name_def sample_dir_def aside_name_def numbered_def VAULT_FILE_def lit_def)
  show "vault_laws E" using vault_demo_laws [of 1] by (simp add: E vault_laws_def)
  obtain x where "held_at (demo_env 1) (vw_keychain demo_full) (d_files (vw_disk demo_full) x) (demo_entry ''first'')"
    using vault_demo_held [of 1] by (auto simp: held_def)
  moreover from this have "d_files (vw_disk demo_full) x = Some (RegularFile [1])"
    by (auto simp: held_at_def demo_full_def split: if_splits)
  ultimately have "held_at E (vw_keychain demo_full) (Some (RegularFile [1])) (demo_entry ''first'')"
    by (simp add: held_at_def held_in_def key_of_def open_entry_def E)
  then show "held E demo_kept (demo_entry ''first'')"
    unfolding held_def by (intro exI [of _ demo_aside]) (simp add: demo_kept_def)
  have free: "free_number (\<lambda>n. name_taken E (q n) (w\<lparr>vw_step := vw_step w + n\<rparr>)) 0 = Some 0" if "vw_step w = 0" for q w
    using that by (subst free_number.simps) (simp add: name_taken_def E)
  have moved: "\<exists>e w'. set_aside E demo_path (lit ''unreadable'') 0 reason w = (Inl e, w') \<and> d_files (vw_disk w') = (d_files (vw_disk w))(demo_path := None, demo_aside \<mapsto> node)"
    if "vw_step w = 0" "d_files (vw_disk w) demo_path = Some node" "d_files (vw_disk w) demo_aside \<noteq> Some Directory" for w node reason
    using that free [OF that(1)]
    by (simp add: set_aside_def Let_def v_bind_def on_disk_def io_bind_def rename_file_def E demo_env_def demo_aside_def map_err_def)
  obtain w reason where w: "vault_open E demo_path 0 demo_kept = set_aside E demo_path (lit ''unreadable'') 0 reason w"
      "vw_step w = 0" "d_files (vw_disk w) = d_files (vw_disk demo_kept)"
    using ne by (simp add: vault_open_def read_file_def E demo_env_def demo_codec_def demo_kept_def demo_full_def) 
  obtain e w' where "vault_open E demo_path 0 demo_kept = (Inl e, w')" "d_files (vw_disk w') = [demo_aside \<mapsto> RegularFile [9]]"
    using moved [OF w(2), of "RegularFile [9]" reason] w ne by (auto simp: demo_kept_def)
  then have "d_files (vw_disk (snd (with_vault E demo_path 0 f demo_kept))) = [demo_aside \<mapsto> RegularFile [9]]"
    by (simp add: with_vault_def v_bind_def)
  then show "\<not> held E (snd (with_vault E demo_path 0 f demo_kept)) (demo_entry ''first'')"
    by (auto simp: held_def held_at_def E demo_env_def demo_codec_def split: if_splits)
qed

theorem vault_reads_back_witness:
  "fst (with_vault ((demo_env 0)\<lparr>vx_os := calm, vx_keychain_get := \<lambda>_. KA_Answers\<rparr>) demo_path 5
     (\<lambda>(v, w). (vault_get ((demo_env 0)\<lparr>vx_os := calm, vx_keychain_get := \<lambda>_. KA_Answers\<rparr>) demo_slot v, v, w))
     (snd (with_vault (demo_env 0) demo_path 0 (vault_replace (demo_env 0) demo_slot (demo_entry ''first'') 0) demo_empty)))
   = Inr (Some (demo_entry ''first''))"
proof -
  obtain w' where run: "with_vault (demo_env 0) demo_path 0 (vault_replace (demo_env 0) demo_slot (demo_entry ''first'') 0) demo_empty = (Inr None, w')"
    using vault_demo_run by blast
  have "fresh_accounts (demo_env 0) (vw_keychain demo_empty)" "\<forall>n. x_fault calm n = None"
    by (simp_all add: fresh_accounts_def demo_empty_def demo_env_def calm_def)
  from vault_reads_back [OF run vault_demo_laws this refl] show ?thesis by (simp add: run)
qed

end
