(* ===== verification/Session_Connect.thy ===== *)
theory Session_Connect
  imports Session_Auth
begin

text \<open>
  Opening a session (\<open>session/connect.rs\<close>): the loop around the engine. The engine fails where a person must
  decide; the broker asks the window about host keys and the owner of the session about passwords, and
  connects again with what it learned.
\<close>

section \<open>Limits and failures\<close>

definition PASSWORD_PROMPTS :: nat where
  "PASSWORD_PROMPTS = 3"

definition ROUNDS_PER_HOP :: nat where
  "ROUNDS_PER_HOP = 1 + 1 + 1 + PASSWORD_PROMPTS"

definition round_limit :: "target \<Rightarrow> nat" where
  "round_limit t = length t * ROUNDS_PER_HOP + 1"

record connect_failure =
  cf_kind :: rstr
  cf_text :: rstr

definition KIND_HOST :: rstr where
  "KIND_HOST = lit ''host''"

definition KIND_HOST_KEY :: rstr where
  "KIND_HOST_KEY = lit ''host_key''"

definition KIND_AUTH :: rstr where
  "KIND_AUTH = lit ''auth''"

definition KIND_CONNECT :: rstr where
  "KIND_CONNECT = lit ''connect''"

definition CANCELLED :: rstr where
  "CANCELLED = lit ''cancelled''"

definition failure_new :: "rstr \<Rightarrow> rstr \<Rightarrow> connect_failure" where
  "failure_new kind t = \<lparr>cf_kind = kind, cf_text = printable t\<rparr>"

definition failure_cancelled :: connect_failure where
  "failure_cancelled = failure_new CANCELLED (lit ''The connection was cancelled.'')"

definition failure_at :: "hop_ref option \<Rightarrow> target \<Rightarrow> rstr \<Rightarrow> rstr \<Rightarrow> connect_failure" where
  "failure_at hop t kind reason =
     (let destination = (if t = [] then None else Some (h_id (last t))) in
      case hop of
        Some hop \<Rightarrow>
          if Some (hf_id hop) \<noteq> destination
          then failure_new kind (lit ''Could not connect through '' @ hf_alias hop @ lit '': '' @ reason)
          else failure_new kind reason
      | None \<Rightarrow> failure_new kind reason)"

definition error_kind :: "connect_error \<Rightarrow> rstr" where
  "error_kind e =
     (case e of
        CE_HostKeyUnknown _ _ \<Rightarrow> KIND_HOST_KEY
      | CE_HostKeyMismatch _ _ _ \<Rightarrow> KIND_HOST_KEY
      | CE_AuthFailed _ _ _ _ \<Rightarrow> KIND_AUTH
      | CE_AuthAbandoned _ _ \<Rightarrow> KIND_AUTH
      | _ \<Rightarrow> KIND_CONNECT)"

definition failure_of :: "connect_error \<Rightarrow> target \<Rightarrow> connect_failure" where
  "failure_of e t = failure_at (hop_of e) t (error_kind e) (connect_error_text e)"

definition password_abandoned :: "hop_ref \<Rightarrow> target \<Rightarrow> connect_failure" where
  "password_abandoned hop t = failure_of (CE_AuthAbandoned hop (lit ''the password was not given'')) t"

definition directory_failure :: "directory_error \<Rightarrow> connect_failure" where
  "directory_failure e = failure_new KIND_HOST (directory_error_text e)"

text \<open>\<open>hops.iter_mut().find(..)\<close> and an assignment.\<close>

fun update_hop :: "host_id \<Rightarrow> (hop \<Rightarrow> hop) \<Rightarrow> target \<Rightarrow> target" where
  "update_hop i f [] = []"
| "update_hop i f (h # hs) = (if h_id h = i then f h # hs else h # update_hop i f hs)"

section \<open>Host keys\<close>

definition record_changed :: "hop_ref \<Rightarrow> rstr" where
  "record_changed hop =
     lit ''Lunport'' @ [39] @ lit ''s record of '' @ hf_alias hop @ [39] @ lit ''s host key changed while it was connecting. Connect again.''"

definition pinned_summary_of :: "('w, 's, 'm, 'k) session_env \<Rightarrow> target \<Rightarrow> hop_ref \<Rightarrow> host_key
    \<Rightarrow> (connect_failure + pinned_summary, 'w, 'm) act" where
  "pinned_summary_of E t hop pinned st =
     (case call (se_pinned_for E hop) st of (got, st) \<Rightarrow>
        (case got of
           Inl e \<Rightarrow> (Inl (failure_at (Some hop) t KIND_HOST (directory_error_text e)), st)
         | Inr (Some rec) \<Rightarrow>
             if sk_fingerprint (pk_key rec) = sk_fingerprint pinned
             then (Inr \<lparr>ps_fingerprint = sk_fingerprint pinned, ps_pinned_at_ms = pk_pinned_at_ms rec\<rparr>, st)
             else (Inl (failure_at (Some hop) t KIND_HOST
                     (record_changed hop)), st)
         | Inr None \<Rightarrow>
             (Inl (failure_at (Some hop) t KIND_HOST
                     (record_changed hop)), st)))"

definition pin_policy :: "host_id \<Rightarrow> host_key \<Rightarrow> ('w, 'm) session_state \<Rightarrow> ('w, 'm) session_state" where
  "pin_policy i key st = st\<lparr>ss_pins := (ss_pins st)(i := Some key)\<rparr>"

text \<open>The question itself and what a yes does.\<close>

definition ask_host_key :: "('w, 's, 'm, 'k) session_env \<Rightarrow> target \<Rightarrow> hop_ref \<Rightarrow> host_key \<Rightarrow> host_key option
    \<Rightarrow> pinned_summary option \<Rightarrow> (connect_failure + target, 'w, 'm) act" where
  "ask_host_key E t hop key pinned changed st =
     (case call (se_cancelled E) st of (gone, st) \<Rightarrow>
      if gone then (Inl failure_cancelled, st)
      else
        (let st = st\<lparr>ss_world := se_host_key_notice E
               (lit ''Waiting for you to confirm '' @ label (hf_alias hop) @ [39] @ lit ''s host key in Lunport.'') (ss_world st)\<rparr>;
             question = \<lparr>hq_alias = hf_alias hop, hq_hostname = hf_hostname hop, hq_port = hf_port hop,
                         hq_algorithm = sk_algorithm key, hq_fingerprint = sk_fingerprint key, hq_changed = changed\<rparr>
         in case call (se_confirm E question) st of (trusted, st) \<Rightarrow>
            let st = log_event (EV_Confirmed hop key trusted) st in
            case call (se_cancelled E) st of (gone, st) \<Rightarrow>
            if gone then (Inl failure_cancelled, st)
            else if trusted \<noteq> Some (sk_fingerprint key)
            then (Inl (failure_of (case pinned of None \<Rightarrow> CE_HostKeyUnknown hop key | Some p \<Rightarrow> CE_HostKeyMismatch hop key p) t), st)
            else
              (case call (se_pin_confirmed E hop pinned key (\<lambda>w. (Inr (), w))) st of (r, st) \<Rightarrow>
                 (case r of
                    Inl e \<Rightarrow> (Inl (failure_at (Some hop) t KIND_HOST_KEY (directory_error_text e)), st)
                  | Inr _ \<Rightarrow>
                      (Inr (update_hop (hf_id hop) (\<lambda>h. h\<lparr>h_pinned := Some key\<rparr>) t),
                       pin_policy (hf_id hop) key (log_event (EV_Pinned hop key) st))))))"

definition kept_changing :: "hop_ref \<Rightarrow> rstr" where
  "kept_changing hop = lit ''The host key of '' @ hf_alias hop @ lit '' kept changing while Lunport was connecting. Connection refused.''"

text \<open>A question about a key the host presented: at most once for each host.\<close>

definition confirm_key :: "('w, 's, 'm, 'k) session_env \<Rightarrow> target \<Rightarrow> hop_ref \<Rightarrow> host_key \<Rightarrow> host_key option
    \<Rightarrow> (connect_failure + target, 'w, 'm) act" where
  "confirm_key E t hop key pinned st =
     (if hf_id hop \<in> ss_asked_host_key st
      then (Inl (failure_at (Some hop) t KIND_HOST_KEY
              (kept_changing hop)), st)
      else
        (let st = st\<lparr>ss_asked_host_key := insert (hf_id hop) (ss_asked_host_key st)\<rparr> in
         case pinned of
           None \<Rightarrow> ask_host_key E t hop key None None st
         | Some p \<Rightarrow>
             (case pinned_summary_of E t hop p st of (r, st) \<Rightarrow>
                (case r of
                   Inl f \<Rightarrow> (Inl f, st)
                 | Inr summary \<Rightarrow> ask_host_key E t hop key (Some p) (Some summary) st))))"

definition confirm :: "('w, 's, 'm, 'k) session_env \<Rightarrow> target \<Rightarrow> hop_ref \<Rightarrow> host_key \<Rightarrow> host_key option
    \<Rightarrow> (connect_failure + target, 'w, 'm) act" where
  "confirm E t hop key pinned st =
     (if pinned \<noteq> None then confirm_key E t hop key pinned st
      else
        (case call (se_pinned_for E hop) st of (got, st) \<Rightarrow>
           (case got of
              Inl e \<Rightarrow> (Inl (failure_at (Some hop) t KIND_HOST (directory_error_text e)), st)
            | Inr (Some rec) \<Rightarrow>
                (Inr (update_hop (hf_id hop) (\<lambda>h. h\<lparr>h_pinned := Some (pk_key rec)\<rparr>) t),
                 pin_policy (hf_id hop) (pk_key rec) (log_event (EV_Recorded hop (pk_key rec)) st))
            | Inr None \<Rightarrow> confirm_key E t hop key None st)))"

section \<open>The loop\<close>

datatype 's pass = P_Finish "connect_failure + 's \<times> target" | P_Again target

definition again_or :: "(connect_failure + target) \<times> ('w, 'm) session_state \<Rightarrow> 's pass \<times> ('w, 'm) session_state" where
  "again_or r = (case r of (Inl f, st) \<Rightarrow> (P_Finish (Inl f), st) | (Inr t, st) \<Rightarrow> (P_Again t, st))"

text \<open>The hops whose login the person gave up.\<close>

definition abandoned_hop :: "('w, 'm) session_state \<Rightarrow> connect_error \<Rightarrow> hop_ref option" where
  "abandoned_hop st e =
     (case e of
        CE_HostKeyUnknown hop _ \<Rightarrow> if hf_id hop \<in> ss_cancelled st then Some hop else None
      | CE_HostKeyMismatch hop _ _ \<Rightarrow> if hf_id hop \<in> ss_cancelled st then Some hop else None
      | CE_NoCommonHostKeyAlgorithm hop _ _ \<Rightarrow> if hf_id hop \<in> ss_cancelled st then Some hop else None
      | CE_AuthFailed hop _ _ _ \<Rightarrow> if hf_id hop \<in> ss_cancelled st then Some hop else None
      | _ \<Rightarrow> None)"

definition typed_count :: "host_id \<Rightarrow> ('w, 'm) session_state \<Rightarrow> nat" where
  "typed_count i st =
     (case ss_passwords_typed st i of Some n \<Rightarrow> n | None \<Rightarrow> if ss_gave st i = Some PS_Typed then 1 else 0)"

definition retry_password :: "('w, 's, 'm, 'k) session_env \<Rightarrow> target \<Rightarrow> hop_ref \<Rightarrow> auth_method list \<Rightarrow> rstr \<Rightarrow> bool
    \<Rightarrow> ('w, 'm) session_state \<Rightarrow> 's pass \<times> ('w, 'm) session_state" where
  "retry_password E t hop tried reason password_wanted st =
     (let i = hf_id hop;
          refused = (AM_Password \<in> set tried \<and> ss_gave st i \<noteq> None);
          typed = typed_count i st;
          st = st\<lparr>ss_passwords_typed := (ss_passwords_typed st)(i := Some typed)\<rparr>;
          failed = P_Finish (Inl (failure_of (CE_AuthFailed hop tried reason password_wanted) t))
      in
      if \<not> (password_wanted \<or> refused) \<or> typed \<ge> PASSWORD_PROMPTS then (failed, st)
      else
        (let st = forget_typed i st;
             question = (if refused then lit ''That password didn'' @ [39] @ lit ''t work. '' @ password_question hop else password_question hop)
         in case find (\<lambda>h. h_id h = i) t of
              None \<Rightarrow> (failed, st)
            | Some h \<Rightarrow>
                (case call (se_now E) st of (now, st) \<Rightarrow>
                 let deadline = (if now + prompt_wait h \<le> se_instant_max E then Some (now + prompt_wait h) else None);
                     st = st\<lparr>ss_passwords_typed := (ss_passwords_typed st)(i := Some (typed + 1))\<rparr>
                 in case ask_at E hop QK_Password question False deadline st of (r, st) \<Rightarrow>
                    (case r of
                       RP_Answer password \<Rightarrow>
                         (P_Again (if AM_Password \<in> set (auth_sequence h) then t
                                   else update_hop i (\<lambda>h. h\<lparr>h_auth := AM_Password\<rparr>) t),
                          set_typed i password st)
                     | RP_Cancelled \<Rightarrow> (P_Finish (Inl (password_abandoned hop t)), st)
                     | RP_TimedOut \<Rightarrow> (P_Finish (Inl (password_abandoned hop t)), st)
                     | RP_Gone \<Rightarrow> (P_Finish (Inl failure_cancelled), st)))))"

definition after_error :: "('w, 's, 'm, 'k) session_env \<Rightarrow> target \<Rightarrow> connect_error \<Rightarrow> ('w, 'm) session_state
    \<Rightarrow> 's pass \<times> ('w, 'm) session_state" where
  "after_error E t e st =
     (case abandoned_hop st e of
        Some hop \<Rightarrow> (P_Finish (Inl (password_abandoned hop t)), st)
      | None \<Rightarrow>
          (case e of
             CE_HostKeyUnknown hop key \<Rightarrow> again_or (confirm E t hop key None st)
           | CE_HostKeyMismatch hop key pinned \<Rightarrow> again_or (confirm E t hop key (Some pinned) st)
           | CE_NoCommonHostKeyAlgorithm hop _ _ \<Rightarrow>
               if ss_pins st (hf_id hop) \<noteq> None \<and> hf_id hop \<notin> ss_unrestricted st
               then (P_Again (update_hop (hf_id hop) (\<lambda>h. h\<lparr>h_pinned := None\<rparr>) t),
                     st\<lparr>ss_unrestricted := insert (hf_id hop) (ss_unrestricted st)\<rparr>)
               else (P_Finish (Inl (failure_of e t)), st)
           | CE_AuthFailed hop tried reason password_wanted \<Rightarrow> retry_password E t hop tried reason password_wanted st
           | _ \<Rightarrow> (P_Finish (Inl (failure_of e t)), st)))"

definition connect_pass :: "('w, 's, 'm, 'k) session_env \<Rightarrow> target \<Rightarrow> ('w, 'm) session_state \<Rightarrow> 's pass \<times> ('w, 'm) session_state" where
  "connect_pass E t st =
     (case call (se_cancelled E) st of (gone, st) \<Rightarrow>
      if gone then (P_Finish (Inl failure_cancelled), st)
      else
        (let st = prepare t st in
         case run_dialogue E (se_connect E t (ss_world st)) st of (r, st) \<Rightarrow>
           (case r of
              Inr session \<Rightarrow> (P_Finish (Inr (session, t)), st)
            | Inl e \<Rightarrow> after_error E t e st)))"

definition gave_up :: "target \<Rightarrow> connect_failure" where
  "gave_up t =
     failure_new KIND_CONNECT
       (lit ''Lunport gave up connecting to '' @ (if t = [] then [] else h_alias (last t)) @ lit '' after too many attempts.'')"

fun connect_loop :: "('w, 's, 'm, 'k) session_env \<Rightarrow> nat \<Rightarrow> target \<Rightarrow> (connect_failure + 's \<times> target, 'w, 'm) act" where
  "connect_loop E 0 t st = (Inl (gave_up t), st)"
| "connect_loop E (Suc n) t st =
     (case connect_pass E t st of (p, st) \<Rightarrow> (case p of P_Finish r \<Rightarrow> (r, st) | P_Again t \<Rightarrow> connect_loop E n t st))"

definition state_new :: "'w \<Rightarrow> ('w, 'm) session_state" where
  "state_new w =
     \<lparr>ss_world = w, ss_pins = \<lambda>_. None, ss_opened = \<lambda>_. None, ss_typed = \<lambda>_. None, ss_cancelled = {}, ss_gave = \<lambda>_. None,
      ss_password_first = \<lambda>_. None, ss_asked_host_key = {}, ss_unrestricted = {}, ss_passwords_typed = \<lambda>_. None, ss_log = []\<rparr>"

definition connect_within :: "('w, 's, 'm, 'k) session_env \<Rightarrow> host_query \<Rightarrow> (target \<Rightarrow> nat) \<Rightarrow> (connect_failure + 's \<times> target, 'w, 'm) act" where
  "connect_within E query rounds st =
     (case call (se_cancelled E) st of (gone, st) \<Rightarrow>
      if gone then (Inl failure_cancelled, st)
      else
        (case call (se_resolve E query) st of (got, st) \<Rightarrow>
           (case got of
              Inl e \<Rightarrow> (Inl (directory_failure e), st)
            | Inr t \<Rightarrow>
                (case unlock E t (log_event (EV_Resolved t) st) of (u, st) \<Rightarrow>
                   (case u of
                      Inl text' \<Rightarrow> (Inl (failure_new KIND_AUTH text'), st)
                    | Inr _ \<Rightarrow> connect_loop E (rounds t) t (st\<lparr>ss_pins := pins_of_target t\<rparr>))))))"

definition connect :: "('w, 's, 'm, 'k) session_env \<Rightarrow> host_query \<Rightarrow> (connect_failure + 's \<times> target, 'w, 'm) act" where
  "connect E query st =
     (case connect_within E query round_limit st of (r, st) \<Rightarrow>
      case call (se_cancelled E) st of (gone, st) \<Rightarrow>
      if \<not> gone then (r, st)
      else (case r of
              Inr (session, _) \<Rightarrow> (Inl failure_cancelled, st\<lparr>ss_world := se_close E session (ss_world st)\<rparr>)
            | Inl _ \<Rightarrow> (Inl failure_cancelled, st)))"

end
