(* ===== verification/Session_Verify.thy ===== *)
theory Session_Verify
  imports Session_Connect Session_Directory
begin

text \<open>
  Verifying the key of a server without logging in (\<open>session/verify.rs\<close>): the connect loop of a session runs with a
  directory that refuses changed settings and with an engine that lies to the real one. When the destination presents
  its pinned key the engine is told that the key is unknown, so it stops before it asks for a login; what was seen is
  kept beside the world.
\<close>

section \<open>The directory of a probe\<close>

definition target_identity :: "target \<Rightarrow> target" where
  "target_identity t = map (\<lambda>h. h\<lparr>h_pinned := None\<rparr>) t"

definition settings_changed :: directory_error where
  "settings_changed = DE_Failed (lit ''Connection settings changed; verify the server identity again.'')"

definition checked_target :: "'w host_directory \<Rightarrow> host_query \<Rightarrow> target \<Rightarrow> ('w, target) dir_act" where
  "checked_target D q expected =
     dir_bind (hd_resolve_host_key D q) (\<lambda>t. dir_lift (if target_identity t \<noteq> expected then Inl settings_changed else Inr t))"

definition probe_directory :: "'w host_directory \<Rightarrow> host_query \<Rightarrow> target \<Rightarrow> 'w host_directory" where
  "probe_directory D q expected =
     D\<lparr>hd_resolve := \<lambda>_. checked_target D q expected,
       hd_resolve_public := \<lambda>_. checked_target D q expected,
       hd_resolve_host_key := default_resolve_host_key (\<lambda>_. checked_target D q expected),
       hd_pin_confirmed := \<lambda>hop old key cancelled guard.
         hd_pin_confirmed D hop old key cancelled (dir_bind guard (\<lambda>_. dir_bind (checked_target D q expected) (\<lambda>_. dir_lift (Inr ()))))\<rparr>"

section \<open>The engine of a probe\<close>

type_synonym seen_key = "(hop_ref \<times> host_key) option"
type_synonym 'w probe_world = "'w \<times> seen_key"

definition identity_verified :: rstr where
  "identity_verified = lit ''Server identity verified; destination login was not attempted.''"

definition session_closed :: rstr where
  "session_closed = lit ''Host-key verification unexpectedly opened a session; it was closed.''"

definition probe_result :: "('w, 's, 'm, 'k) session_env \<Rightarrow> host_id \<Rightarrow> seen_key \<Rightarrow> seen_key \<Rightarrow> (connect_error + 's) \<Rightarrow> 'w
    \<Rightarrow> ('w probe_world, 's) dialogue" where
  "probe_result E destination verified completed r w =
     (case r of
        Inl (CE_HostKeyUnknown hop key) \<Rightarrow>
          if hf_id hop = destination \<and> verified = Some (hop, key)
          then D_Done (Inl (CE_Protocol hop identity_verified)) (w, Some (hop, key))
          else D_Done r (w, completed)
      | Inl _ \<Rightarrow> D_Done r (w, completed)
      | Inr session \<Rightarrow> D_Done (Inl (CE_BadJumpChain session_closed)) (se_close E session w, completed))"

text \<open>What the wrapped policy and the wrapped source of logins make of one call of the real engine.\<close>

primrec probe_dialogue :: "('w, 's, 'm, 'k) session_env \<Rightarrow> host_id \<Rightarrow> ('w, 's) dialogue \<Rightarrow> seen_key \<Rightarrow> seen_key \<Rightarrow> ('w probe_world, 's) dialogue" where
  "probe_dialogue E destination (D_Done r w) = (\<lambda>verified completed. probe_result E destination verified completed r w)"
| "probe_dialogue E destination (D_Check hop key k) = (\<lambda>verified completed.
     D_Check hop key (\<lambda>v.
       if hf_id hop = destination \<and> v = V_Pinned then probe_dialogue E destination (k V_Unknown) (Some (hop, key)) completed
       else probe_dialogue E destination (k v) verified completed))"
| "probe_dialogue E destination (D_PublicKey i k) = (\<lambda>verified completed.
     D_PublicKey i (\<lambda>a. probe_dialogue E destination (k a) verified completed))"
| "probe_dialogue E destination (D_Sign i data hash w k) = (\<lambda>verified completed.
     D_Sign i data hash (w, completed) (\<lambda>a W. probe_dialogue E destination (k a (fst W)) verified (snd W)))"
| "probe_dialogue E destination (D_Password hop w k) = (\<lambda>verified completed.
     if hf_id hop = destination then probe_dialogue E destination (k None w) verified completed
     else D_Password hop (w, completed) (\<lambda>a W. probe_dialogue E destination (k a (fst W)) verified (snd W)))"
| "probe_dialogue E destination (D_Interactive hop prompts deadline w k) = (\<lambda>verified completed.
     if hf_id hop = destination then probe_dialogue E destination (k None w) verified completed
     else D_Interactive hop prompts deadline (w, completed) (\<lambda>a W. probe_dialogue E destination (k a (fst W)) verified (snd W)))"
| "probe_dialogue E destination (D_Banner hop t w k) = (\<lambda>verified completed.
     D_Banner hop t (w, completed) (\<lambda>W. probe_dialogue E destination (k (fst W)) verified (snd W)))"

definition verification_cancelled :: rstr where
  "verification_cancelled = lit ''Server identity verification was canceled.''"

definition probe_guard :: "('w, 's, 'm, 'k) session_env \<Rightarrow> 'w host_directory \<Rightarrow> host_query \<Rightarrow> target \<Rightarrow> 'w \<Rightarrow> (rstr + unit) \<times> 'w" where
  "probe_guard E D q expected w =
     (case se_cancelled E w of (gone, w) \<Rightarrow>
      if gone then (Inl verification_cancelled, w)
      else (case checked_target D q expected w of
              (Inl e, w) \<Rightarrow> (Inl (directory_error_text e), w)
            | (Inr _, w) \<Rightarrow> (Inr (), w)))"

definition probe_connect :: "('w, 's, 'm, 'k) session_env \<Rightarrow> 'w host_directory \<Rightarrow> host_query \<Rightarrow> target \<Rightarrow> target \<Rightarrow> 'w probe_world
    \<Rightarrow> ('w probe_world, 's) dialogue" where
  "probe_connect E D q expected t W =
     (case probe_guard E D q expected (fst W) of
        (Inl why, w) \<Rightarrow> D_Done (Inl (CE_BadJumpChain why)) (w, snd W)
      | (Inr _, w) \<Rightarrow>
          if t = [] then D_Done (Inl (CE_BadJumpChain (lit ''No destination.''))) (w, snd W)
          else probe_dialogue E (h_id (last t)) (se_connect E t w) None (snd W))"

section \<open>The connector of a probe\<close>

definition on_world :: "('w \<Rightarrow> 'a \<times> 'w) \<Rightarrow> 'w \<times> 'c \<Rightarrow> 'a \<times> ('w \<times> 'c)" where
  "on_world f W = (case f (fst W) of (a, w) \<Rightarrow> (a, (w, snd W)))"

definition without_mark :: "'c \<Rightarrow> ('w \<times> 'c \<Rightarrow> 'a \<times> ('w \<times> 'c)) \<Rightarrow> 'w \<Rightarrow> 'a \<times> 'w" where
  "without_mark c f w = (case f (w, c) of (a, W) \<Rightarrow> (a, fst W))"

definition probe_env :: "('w, 's, 'm, 'k) session_env \<Rightarrow> 'w host_directory \<Rightarrow> host_query \<Rightarrow> target \<Rightarrow> ('w probe_world, 's, 'm, 'k) session_env" where
  "probe_env E D q expected =
     (let P = probe_directory D q expected in
      \<lparr>se_connect = probe_connect E D q expected,
       se_close = \<lambda>s W. (se_close E s (fst W), snd W),
       se_resolve = \<lambda>q. on_world (hd_resolve P q),
       se_pinned_for = \<lambda>hop. on_world (hd_pinned_for P hop),
       se_pin_confirmed = \<lambda>hop old key guard W. on_world (hd_pin_confirmed P hop old key (se_cancelled E) (without_mark (snd W) guard)) W,
       se_password_account = \<lambda>i. on_world (hd_password_account P i),
       se_key = \<lambda>i. on_world (se_key E i),
       se_private_text = \<lambda>i. on_world (se_private_text E i),
       se_public_key_data = se_public_key_data E,
       se_private_key_data = se_private_key_data E,
       se_open = se_open E,
       se_material_key = se_material_key E,
       se_sign = \<lambda>m data flags. on_world (se_sign E m data flags),
       se_keychain_get = \<lambda>a. on_world (se_keychain_get E a),
       se_keychain_delete = \<lambda>a. on_world (se_keychain_delete E a),
       se_ask_at = \<lambda>hop kind t echo deadline. on_world (se_ask_at E hop kind t echo deadline),
       se_host_key_notice = \<lambda>t W. (se_host_key_notice E t (fst W), snd W),
       se_banner = \<lambda>t W. (se_banner E t (fst W), snd W),
       se_confirm = \<lambda>question. on_world (se_confirm E question),
       se_cancelled = on_world (se_cancelled E),
       se_now = on_world (se_now E),
       se_instant_max = se_instant_max E\<rparr>)"

section \<open>Verifying\<close>

record verified_host_key =
  vh_host_id :: rstr
  vh_alias :: rstr
  vh_hostname :: rstr
  vh_port :: u16
  vh_algorithm :: rstr
  vh_fingerprint :: rstr
  vh_trusted :: bool

definition saved_key_changed :: rstr where
  "saved_key_changed = lit ''The saved server key changed during verification. Verify the current identity again.''"

definition verified_result :: "(connect_failure + 's \<times> target) \<Rightarrow> target \<Rightarrow> seen_key \<Rightarrow> rstr + verified_host_key" where
  "verified_result result current completed =
     (case completed of
        Some (hop, key) \<Rightarrow>
          if list_ex (\<lambda>h. h_id h = hf_id hop \<and> h_pinned h = Some key) current
          then Inr \<lparr>vh_host_id = hf_id hop, vh_alias = hf_alias hop, vh_hostname = hf_hostname hop, vh_port = hf_port hop,
                    vh_algorithm = sk_algorithm key, vh_fingerprint = sk_fingerprint key, vh_trusted = True\<rparr>
          else Inl saved_key_changed
      | None \<Rightarrow> Inl (case result of Inl f \<Rightarrow> cf_text f | Inr _ \<Rightarrow> lit ''Server identity was not verified.''))"

definition verify :: "('w, 's, 'm, 'k) session_env \<Rightarrow> 'w host_directory \<Rightarrow> host_query \<Rightarrow> (rstr + verified_host_key, 'w probe_world, 'm) act" where
  "verify E D q st =
     (case call (on_world (se_cancelled E)) st of (gone, st) \<Rightarrow>
      if gone then (Inl verification_cancelled, st)
      else
        (case call (on_world (hd_resolve_host_key D q)) st of (got, st) \<Rightarrow>
           (case got of
              Inl e \<Rightarrow> (Inl (directory_error_text e), st)
            | Inr t \<Rightarrow>
                (let expected = target_identity t in
                 case connect (probe_env E D q expected) q st of (result, st) \<Rightarrow>
                 case call (on_world (se_cancelled E)) st of (gone, st) \<Rightarrow>
                 if gone then (Inl verification_cancelled, st)
                 else
                   (case call (on_world (checked_target D q expected)) st of (got, st) \<Rightarrow>
                      (case got of
                         Inl e \<Rightarrow> (Inl (directory_error_text e), st)
                       | Inr current \<Rightarrow> (verified_result result current (snd (ss_world st)), st)))))))"

end
