(* ===== verification/Connect_Properties.thy ===== *)
theory Connect_Properties
  imports Session_Connect
begin

text \<open>
  What holds of every connection, whatever the servers, the person and the other threads do: the loop ends by
  itself, nobody is asked too often, and a session only opens to servers whose keys were trusted.
\<close>

section \<open>What the engine promises\<close>

text \<open>The contract of \<open>SshEngine::connect\<close> (\<open>ssh/traits.rs\<close>): an error names a hop of the target; an unknown or changed
  host key is what the policy said of the key the server presented; a login is tried only after the policy found the
  hop's key pinned; and a session opens only after it found every hop's key pinned.\<close>

fun honest_result :: "target \<Rightarrow> (hop_ref \<times> host_key \<times> host_key_verdict) set \<Rightarrow> (connect_error + 's) \<Rightarrow> bool" where
  "honest_result t seen (Inl e) =
     ((case hop_of e of None \<Rightarrow> True | Some hop \<Rightarrow> hop \<in> hop_reference ` set t)
      \<and> (case e of
           CE_HostKeyUnknown hop key \<Rightarrow> (hop, key, V_Unknown) \<in> seen
         | CE_HostKeyMismatch hop key pinned \<Rightarrow> (hop, key, V_Mismatch pinned) \<in> seen
         | CE_AuthFailed hop _ _ _ \<Rightarrow> \<exists>key. (hop, key, V_Pinned) \<in> seen
         | _ \<Rightarrow> True))"
| "honest_result t seen (Inr _) = (\<forall>h \<in> set t. \<exists>key. (hop_reference h, key, V_Pinned) \<in> seen)"

primrec honest :: "target \<Rightarrow> ('w, 's) dialogue \<Rightarrow> (hop_ref \<times> host_key \<times> host_key_verdict) set \<Rightarrow> bool" where
  "honest t (D_Done r w) = (\<lambda>seen. honest_result t seen r)"
| "honest t (D_Check hop key k) = (\<lambda>seen. \<forall>v. honest t (k v) (insert (hop, key, v) seen))"
| "honest t (D_PublicKey i k) = (\<lambda>seen. \<forall>a. honest t (k a) seen)"
| "honest t (D_Sign i data hash w k) = (\<lambda>seen. \<forall>a w. honest t (k a w) seen)"
| "honest t (D_Password hop w k) = (\<lambda>seen. \<forall>a w. honest t (k a w) seen)"
| "honest t (D_Interactive hop ps d w k) = (\<lambda>seen. \<forall>a w. honest t (k a w) seen)"
| "honest t (D_Banner hop b w k) = (\<lambda>seen. \<forall>w. honest t (k w) seen)"

definition engine_ok :: "('w, 's, 'm, 'k) session_env \<Rightarrow> bool" where
  "engine_ok E \<longleftrightarrow> (\<forall>t w. honest t (se_connect E t w) {})"

section \<open>What one call of the engine changes\<close>

text \<open>Callbacks change what the person typed or gave up and add to the log, nothing else.\<close>

definition login_only :: "('w, 'm) session_state \<Rightarrow> ('w, 'm) session_state \<Rightarrow> bool" where
  "login_only st st' \<longleftrightarrow>
     ss_pins st' = ss_pins st \<and> ss_opened st' = ss_opened st \<and> ss_password_first st' = ss_password_first st
     \<and> ss_asked_host_key st' = ss_asked_host_key st \<and> ss_unrestricted st' = ss_unrestricted st
     \<and> ss_passwords_typed st' = ss_passwords_typed st \<and> set (ss_log st) \<subseteq> set (ss_log st')"

lemma login_only_refl [simp]: "login_only st st"
  by (simp add: login_only_def)

lemma login_only_trans: "login_only st st' \<Longrightarrow> login_only st' st'' \<Longrightarrow> login_only st st''"
  by (auto simp: login_only_def)

text \<open>Updates are written in the order of the fields.\<close>

lemma update_order [simp]:
  "st\<lparr>ss_log := l, ss_world := w\<rparr> = st\<lparr>ss_world := w, ss_log := l\<rparr>"
  "st\<lparr>ss_asked_host_key := a, ss_world := w\<rparr> = st\<lparr>ss_world := w, ss_asked_host_key := a\<rparr>"
  "st\<lparr>ss_log := l, ss_asked_host_key := a\<rparr> = st\<lparr>ss_asked_host_key := a, ss_log := l\<rparr>"
  "st\<lparr>ss_log := l, ss_typed := y\<rparr> = st\<lparr>ss_typed := y, ss_log := l\<rparr>"
  "st\<lparr>ss_typed := y, ss_world := w\<rparr> = st\<lparr>ss_world := w, ss_typed := y\<rparr>"
  "st\<lparr>ss_passwords_typed := n, ss_world := w\<rparr> = st\<lparr>ss_world := w, ss_passwords_typed := n\<rparr>"
  "st\<lparr>ss_passwords_typed := n, ss_typed := y\<rparr> = st\<lparr>ss_typed := y, ss_passwords_typed := n\<rparr>"
  by simp_all

lemma call_world: "call f st = (a, st') \<Longrightarrow> \<exists>w. st' = st\<lparr>ss_world := w\<rparr>"
  by (auto simp: call_def split: prod.splits)

lemma deadline_after_world: "deadline_after E wait st = (d, st') \<Longrightarrow> \<exists>w. st' = st\<lparr>ss_world := w\<rparr>"
  by (auto simp: deadline_after_def split: prod.splits dest: call_world)

lemma ask_at_log: "ask_at E hop kind q echo dl st = (r, st') \<Longrightarrow> \<exists>w. st' = st\<lparr>ss_world := w, ss_log := ss_log st @ [EV_Asked hop kind q]\<rparr>"
  by (auto simp: ask_at_def log_event_def dest!: call_world)

lemmas session_updates = log_event_def gave_def set_typed_def forget_typed_def cancel_def auth_banner_def pin_policy_def

text \<open>The three ways a question for a password can end.\<close>

lemma ask_password_cases:
  assumes "ask_password E hop st = (r, st')"
  obtains "r = None" "st' = st"
  | p w where "r = Some p" "hf_id hop \<notin> ss_cancelled st" "ss_password_first st (hf_id hop) \<noteq> None"
      "st' = gave (hf_id hop) PS_Typed (set_typed (hf_id hop) p
         (st\<lparr>ss_world := w, ss_log := ss_log st @ [EV_Asked hop QK_Password (password_question hop)]\<rparr>))"
  | w where "r = None" "hf_id hop \<notin> ss_cancelled st"
      "st' = cancel (hf_id hop) (st\<lparr>ss_world := w, ss_log := ss_log st @ [EV_Asked hop QK_Password (password_question hop)]\<rparr>)"
proof (cases "if hf_id hop \<in> ss_cancelled st then None else ss_password_first st (hf_id hop)")
  case None
  with assms that(1) show ?thesis by (simp add: ask_password_def)
next
  case (Some wait)
  obtain d st1 where d: "deadline_after E wait st = (d, st1)" by fastforce
  obtain a st2 where a: "ask_at E hop QK_Password (password_question hop) False (Some d) st1 = (a, st2)" by fastforce
  from deadline_after_world [OF d] ask_at_log [OF a] obtain w
    where st2: "st2 = st\<lparr>ss_world := w, ss_log := ss_log st @ [EV_Asked hop QK_Password (password_question hop)]\<rparr>" by auto
  from assms Some d a have res: "(r, st') = (case a of RP_Answer p \<Rightarrow> (Some p, gave (hf_id hop) PS_Typed (set_typed (hf_id hop) p st2))
      | _ \<Rightarrow> (None, cancel (hf_id hop) st2))"
    by (simp add: ask_password_def)
  show ?thesis
  proof (cases a)
    case (RP_Answer p)
    with res Some st2 show ?thesis by (intro that(2) [of p w]) (auto split: if_splits)
  qed (use res Some st2 in \<open>intro that(3) [of w]; auto split: if_splits\<close>)+
qed

lemma auth_password_cases:
  assumes "auth_password E hop st = (r, st')"
  obtains p where "r = Some p" "ss_typed st (hf_id hop) = Some p" "st' = gave (hf_id hop) PS_Typed st"
  | p w where "r = Some p" "ss_typed st (hf_id hop) = None" "st' = gave (hf_id hop) PS_Keychain (st\<lparr>ss_world := w\<rparr>)"
  | w where "ss_typed st (hf_id hop) = None" "ask_password E hop (st\<lparr>ss_world := w\<rparr>) = (r, st')"
proof (cases "ss_typed st (hf_id hop)")
  case (Some p)
  with assms that(1) [of p] show ?thesis by (simp add: auth_password_def)
next
  case None
  obtain a st0 where a: "call (se_password_account E (hf_id hop)) st = (a, st0)" by fastforce
  obtain g st1 where g: "call (se_keychain_get E a) st0 = (g, st1)" by fastforce
  from call_world [OF a] call_world [OF g] obtain w where w: "st1 = st\<lparr>ss_world := w\<rparr>" by auto
  from assms None a g have "(r, st') = (case g of Inr (Some saved) \<Rightarrow> if saved \<noteq> [] then (Some saved, gave (hf_id hop) PS_Keychain st1) else ask_password E hop st1
      | _ \<Rightarrow> ask_password E hop st1)"
    by (simp add: auth_password_def)
  with None w that(2,3) show ?thesis by (auto split: sum.splits option.splits if_splits)
qed

lemma login_only_ask_prompts: "ask_prompts E hop dl ps as st = (r, st') \<Longrightarrow> login_only st st'"
proof (induction ps arbitrary: as st)
  case (Cons p ps)
  obtain a st1 where a: "ask_at E hop QK_Interactive (shown_prompt hop (p_text p)) (p_echo p) (Some dl) st = (a, st1)" by fastforce
  from ask_at_log [OF a] have l: "login_only st st1" by (auto simp: login_only_def)
  show ?case
  proof (cases a)
    case (RP_Answer x)
    with Cons.prems a have "ask_prompts E hop dl ps (as @ [x]) st1 = (r, st')" by simp
    from login_only_trans [OF l Cons.IH [OF this]] show ?thesis .
  qed (use Cons.prems a l in \<open>auto simp: session_updates login_only_def\<close>)
qed simp

lemma login_only_auth:
  "auth_sign E i data hash st = (s, st') \<Longrightarrow> login_only st st'"
  "auth_password E hop st = (r, st') \<Longrightarrow> login_only st st'"
  "auth_interactive E hop ps dl st = (q, st') \<Longrightarrow> login_only st st'"
  "login_only st (auth_banner E b st)"
proof -
  show "auth_sign E i data hash st = (s, st') \<Longrightarrow> login_only st st'"
    by (auto simp: auth_sign_def login_only_def split: option.splits prod.splits dest: call_world)
  show "auth_password E hop st = (r, st') \<Longrightarrow> login_only st st'"
    by (erule auth_password_cases) (auto simp: login_only_def session_updates elim!: ask_password_cases)
  show "auth_interactive E hop ps dl st = (q, st') \<Longrightarrow> login_only st st'"
    by (auto simp: auth_interactive_def split: if_splits dest: login_only_ask_prompts)
  show "login_only st (auth_banner E b st)" by (simp add: auth_banner_def login_only_def)
qed

text \<open>What an honest engine reports agrees with the policy.\<close>

definition agrees :: "('w, 'm) session_state \<Rightarrow> (hop_ref \<times> host_key \<times> host_key_verdict) set \<Rightarrow> bool" where
  "agrees st seen \<longleftrightarrow> (\<forall>(hop, key, v) \<in> seen. v = policy_check (ss_pins st) hop key \<and> EV_Checked hop key v \<in> set (ss_log st))"

lemma agrees_mono: "login_only st st' \<Longrightarrow> agrees st seen \<Longrightarrow> agrees st' seen"
  by (auto simp: agrees_def login_only_def)

lemma run_honest:
  assumes "honest t d seen" "run_dialogue E d st = (r, st')" "agrees st seen"
  shows "login_only st st' \<and> (\<exists>seen'. honest_result t seen' r \<and> agrees st' seen')"
  using assms
proof (induction d arbitrary: seen st)
  case (D_Done r' w)
  then show ?case by (auto simp: login_only_def agrees_def)
next
  case (D_Check hop key k)
  let ?v = "policy_check (ss_pins st) hop key"
  let ?st = "log_event (EV_Checked hop key ?v) st"
  have l: "login_only st ?st" by (auto simp: log_event_def login_only_def)
  moreover have "agrees ?st (insert (hop, key, ?v) seen)" using D_Check.prems(3) by (auto simp: agrees_def log_event_def)
  ultimately show ?case
    using D_Check.IH [of "k ?v" "insert (hop, key, ?v) seen" ?st] D_Check.prems(1,2) login_only_trans by (fastforce simp: Let_def)
next
  case (D_PublicKey i k)
  from D_PublicKey.IH [of "k (auth_public_key i st)" seen st] D_PublicKey.prems show ?case by auto
next
  case (D_Sign i data hash w k)
  obtain a st1 where a: "auth_sign E i data hash (st\<lparr>ss_world := w\<rparr>) = (a, st1)" by fastforce
  have l: "login_only st st1" using login_only_auth(1) [OF a] by (simp add: login_only_def)
  with D_Sign.IH [of "k a" "k a (ss_world st1)" seen st1] D_Sign.prems a agrees_mono show ?case by (fastforce intro: login_only_trans)
next
  case (D_Password hop w k)
  obtain a st1 where a: "auth_password E hop (st\<lparr>ss_world := w\<rparr>) = (a, st1)" by fastforce
  have l: "login_only st st1" using login_only_auth(2) [OF a] by (simp add: login_only_def)
  with D_Password.IH [of "k a" "k a (ss_world st1)" seen st1] D_Password.prems a agrees_mono show ?case by (fastforce intro: login_only_trans)
next
  case (D_Interactive hop ps dl w k)
  obtain a st1 where a: "auth_interactive E hop ps dl (st\<lparr>ss_world := w\<rparr>) = (a, st1)" by fastforce
  have l: "login_only st st1" using login_only_auth(3) [OF a] by (simp add: login_only_def)
  with D_Interactive.IH [of "k a" "k a (ss_world st1)" seen st1] D_Interactive.prems a agrees_mono show ?case by (fastforce intro: login_only_trans)
next
  case (D_Banner hop b w k)
  let ?st = "auth_banner E b (st\<lparr>ss_world := w\<rparr>)"
  have l: "login_only st ?st" by (simp add: login_only_def auth_banner_def)
  with D_Banner.IH [of "k (ss_world ?st)" seen ?st] D_Banner.prems agrees_mono show ?case by (fastforce simp: Let_def intro: login_only_trans)
qed

section \<open>What a question about a host key changes\<close>

lemma update_hop_keeps:
  assumes "\<And>h. hop_reference (f h) = hop_reference h"
  shows "map hop_reference (update_hop i f t) = map hop_reference t" "map h_id (update_hop i f t) = map h_id t"
proof -
  have "h_id (f h) = h_id h" for h using arg_cong [OF assms [of h], of hf_id] by (simp add: hop_reference_def)
  then show "map hop_reference (update_hop i f t) = map hop_reference t" "map h_id (update_hop i f t) = map h_id t"
    using assms by (induction t) auto
qed

text \<open>The outcomes of one question: cancelled or refused, with at most the question in the log, or a pin.\<close>

lemma ask_host_key_cases:
  assumes "ask_host_key E t hop key pinned changed st = (r, st')"
  obtains f w evs where "r = Inl f" "evs = [] \<or> (\<exists>x. evs = [EV_Confirmed hop key x])" "st' = st\<lparr>ss_world := w, ss_log := ss_log st @ evs\<rparr>"
  | w where "r = Inr (update_hop (hf_id hop) (\<lambda>h. h\<lparr>h_pinned := Some key\<rparr>) t)"
      "st' = pin_policy (hf_id hop) key
         (st\<lparr>ss_world := w, ss_log := ss_log st @ [EV_Confirmed hop key (Some (sk_fingerprint key)), EV_Pinned hop key]\<rparr>)"
proof -
  obtain g1 st1 where c1: "call (se_cancelled E) st = (g1, st1)" by fastforce
  from call_world [OF c1] obtain w1 where w1: "st1 = st\<lparr>ss_world := w1\<rparr>" by auto
  show ?thesis
  proof (cases g1)
    case True
    with assms c1 w1 that(1) [of _ "[]"] show ?thesis by (simp add: ask_host_key_def) (metis append_Nil2 session_state.surjective session_state.update_convs)
  next
    case False
    define st2 where "st2 = st1\<lparr>ss_world := se_host_key_notice E
       (lit ''Waiting for you to confirm '' @ label (hf_alias hop) @ [39] @ lit ''s host key in Lunport.'') (ss_world st1)\<rparr>"
    define q where "q = \<lparr>hq_alias = hf_alias hop, hq_hostname = hf_hostname hop, hq_port = hf_port hop,
        hq_algorithm = sk_algorithm key, hq_fingerprint = sk_fingerprint key, hq_changed = changed\<rparr>"
    obtain x st3 where c3: "call (se_confirm E q) st2 = (x, st3)" by fastforce
    obtain g2 st4 where c4: "call (se_cancelled E) (log_event (EV_Confirmed hop key x) st3) = (g2, st4)" by fastforce
    from call_world [OF c3] call_world [OF c4] w1 obtain w4 where st4: "st4 = st\<lparr>ss_world := w4, ss_log := ss_log st @ [EV_Confirmed hop key x]\<rparr>"
      by (auto simp: st2_def log_event_def)
    obtain p st5 where c5: "call (se_pin_confirmed E hop pinned key (\<lambda>w. (Inr (), w))) st4 = (p, st5)" by fastforce
    from call_world [OF c5] st4 obtain w5 where st5: "st5 = st\<lparr>ss_world := w5, ss_log := ss_log st @ [EV_Confirmed hop key x]\<rparr>" by auto
    have res: "(r, st') =
      (if g2 then (Inl failure_cancelled, st4)
       else if x \<noteq> Some (sk_fingerprint key)
       then (Inl (failure_of (case pinned of None \<Rightarrow> CE_HostKeyUnknown hop key | Some p \<Rightarrow> CE_HostKeyMismatch hop key p) t), st4)
       else (case p of Inl e \<Rightarrow> (Inl (failure_at (Some hop) t KIND_HOST_KEY (directory_error_text e)), st5)
         | Inr _ \<Rightarrow> (Inr (update_hop (hf_id hop) (\<lambda>h. h\<lparr>h_pinned := Some key\<rparr>) t), pin_policy (hf_id hop) key (log_event (EV_Pinned hop key) st5))))"
      unfolding assms [symmetric] ask_host_key_def c1 using False
      by (simp only: prod.case if_False Let_def st2_def [symmetric] q_def [symmetric] c3 c4 c5)
    show ?thesis
    proof (cases "\<not> g2 \<and> x = Some (sk_fingerprint key) \<and> (\<exists>u. p = Inr u)")
      case True
      with res st5 that(2) [of w5] show ?thesis by (auto simp: log_event_def)
    next
      case False
      then have "\<exists>f w. r = Inl f \<and> st' = st\<lparr>ss_world := w, ss_log := ss_log st @ [EV_Confirmed hop key x]\<rparr>"
        using res st4 st5 by (auto split: if_splits sum.splits)
      with that(1) show ?thesis by blast
    qed
  qed
qed

lemma pinned_summary_world: "pinned_summary_of E t hop p st = (r, st') \<Longrightarrow> \<exists>w. st' = st\<lparr>ss_world := w\<rparr>"
  by (auto simp: pinned_summary_of_def split: prod.splits sum.splits option.splits if_splits dest: call_world)

lemma confirm_key_cases:
  assumes "confirm_key E t hop key pinned st = (r, st')"
  obtains f where "r = Inl f" "hf_id hop \<in> ss_asked_host_key st" "st' = st"
  | f w evs where "r = Inl f" "hf_id hop \<notin> ss_asked_host_key st" "evs = [] \<or> (\<exists>x. evs = [EV_Confirmed hop key x])"
      "st' = st\<lparr>ss_world := w, ss_asked_host_key := insert (hf_id hop) (ss_asked_host_key st), ss_log := ss_log st @ evs\<rparr>"
  | w where "r = Inr (update_hop (hf_id hop) (\<lambda>h. h\<lparr>h_pinned := Some key\<rparr>) t)" "hf_id hop \<notin> ss_asked_host_key st"
      "st' = pin_policy (hf_id hop) key
         (st\<lparr>ss_world := w, ss_asked_host_key := insert (hf_id hop) (ss_asked_host_key st),
             ss_log := ss_log st @ [EV_Confirmed hop key (Some (sk_fingerprint key)), EV_Pinned hop key]\<rparr>)"
proof (cases "hf_id hop \<in> ss_asked_host_key st")
  case True
  with assms have "r = Inl (failure_at (Some hop) t KIND_HOST_KEY (kept_changing hop))" "st' = st"
    unfolding confirm_key_def if_P [OF True] by blast+
  with that(1) True show ?thesis by blast
next
  case False
  let ?st = "st\<lparr>ss_asked_host_key := insert (hf_id hop) (ss_asked_host_key st)\<rparr>"
  have "(\<exists>f w. r = Inl f \<and> st' = ?st\<lparr>ss_world := w\<rparr>) \<or> (\<exists>c w. ask_host_key E t hop key pinned c (?st\<lparr>ss_world := w\<rparr>) = (r, st'))"
  proof (cases pinned)
    case None
    with assms False have "ask_host_key E t hop key pinned None (?st\<lparr>ss_world := ss_world ?st\<rparr>) = (r, st')" by (simp add: confirm_key_def Let_def)
    then show ?thesis by blast
  next
    case (Some p)
    obtain a st1 where a: "pinned_summary_of E t hop p ?st = (a, st1)" by fastforce
    from pinned_summary_world [OF a] obtain w where w: "st1 = ?st\<lparr>ss_world := w\<rparr>" by blast
    show ?thesis
    proof (cases a)
      case (Inl f)
      with assms False Some a w show ?thesis by (simp add: confirm_key_def Let_def) blast
    next
      case (Inr c)
      with assms False Some a have "ask_host_key E t hop key pinned (Some c) st1 = (r, st')" by (simp add: confirm_key_def Let_def)
      with w show ?thesis by blast
    qed
  qed
  then show ?thesis
  proof (elim disjE exE conjE)
    fix f w assume "r = Inl f" "st' = ?st\<lparr>ss_world := w\<rparr>"
    with False that(2) [of f "[]" w] show ?thesis by simp
  next
    fix c w assume "ask_host_key E t hop key pinned c (?st\<lparr>ss_world := w\<rparr>) = (r, st')"
    then show ?thesis
    proof (cases rule: ask_host_key_cases)
      case (1 f w' evs)
      with False that(2) [of f evs w'] show ?thesis by simp
    next
      case (2 w')
      with False that(3) [of w'] show ?thesis by simp
    qed
  qed
qed

lemma confirm_cases:
  assumes "confirm E t hop key pinned st = (r, st')"
  obtains w where "confirm_key E t hop key pinned (st\<lparr>ss_world := w\<rparr>) = (r, st')"
  | f w where "r = Inl f" "st' = st\<lparr>ss_world := w\<rparr>"
  | k w where "pinned = None" "r = Inr (update_hop (hf_id hop) (\<lambda>h. h\<lparr>h_pinned := Some k\<rparr>) t)"
      "st' = pin_policy (hf_id hop) k (st\<lparr>ss_world := w, ss_log := ss_log st @ [EV_Recorded hop k]\<rparr>)"
proof (cases pinned)
  case (Some p)
  with assms have "confirm_key E t hop key pinned (st\<lparr>ss_world := ss_world st\<rparr>) = (r, st')" by (simp add: confirm_def)
  then show ?thesis by (rule that(1))
next
  case None
  obtain g st1 where g: "call (se_pinned_for E hop) st = (g, st1)" by fastforce
  from call_world [OF g] obtain w where w: "st1 = st\<lparr>ss_world := w\<rparr>" by blast
  show ?thesis
  proof (cases g)
    case (Inl e)
    with assms None g w have "r = Inl (failure_at (Some hop) t KIND_HOST (directory_error_text e))" "st' = st\<lparr>ss_world := w\<rparr>"
      by (simp_all add: confirm_def)
    with that(2) show ?thesis by blast
  next
    case (Inr rec)
    show ?thesis
    proof (cases rec)
      case None
      with assms Inr \<open>pinned = None\<close> g w show ?thesis by (intro that(1) [of w]) (simp add: confirm_def)
    next
      case (Some k)
      with assms Inr \<open>pinned = None\<close> g w that(3) [of "pk_key k" w] show ?thesis by (simp add: confirm_def log_event_def)
    qed
  qed
qed

lemma retry_password_cases:
  assumes "retry_password E t hop tried reason wanted st = (p, st')"
  obtains f ty n where "p = P_Finish (Inl f)"
      "st' = st\<lparr>ss_typed := ty, ss_passwords_typed := (ss_passwords_typed st)(hf_id hop := Some n)\<rparr>"
  | f ty n w q where "p = P_Finish (Inl f)" "typed_count (hf_id hop) st < PASSWORD_PROMPTS"
      "st' = st\<lparr>ss_world := w, ss_typed := ty, ss_passwords_typed := (ss_passwords_typed st)(hf_id hop := Some n),
               ss_log := ss_log st @ [EV_Asked hop QK_Password q]\<rparr>"
  | t' pw w q where "p = P_Again t'" "map hop_reference t' = map hop_reference t" "typed_count (hf_id hop) st < PASSWORD_PROMPTS"
      "st' = st\<lparr>ss_world := w, ss_typed := (ss_typed st)(hf_id hop := Some pw),
               ss_passwords_typed := (ss_passwords_typed st)(hf_id hop := Some (typed_count (hf_id hop) st + 1)),
               ss_log := ss_log st @ [EV_Asked hop QK_Password q]\<rparr>"
proof -
  let ?i = "hf_id hop" and ?n = "typed_count (hf_id hop) st"
  define refused where "refused = (AM_Password \<in> set tried \<and> ss_gave st ?i \<noteq> None)"
  define st1 where "st1 = st\<lparr>ss_passwords_typed := (ss_passwords_typed st)(?i := Some ?n)\<rparr>"
  define q where "q = (if refused then lit ''That password didn'' @ [39] @ lit ''t work. '' @ password_question hop else password_question hop)"
  define failed where "failed = P_Finish (Inl (failure_of (CE_AuthFailed hop tried reason wanted) t) :: connect_failure + 'a \<times> target)"
  show ?thesis
  proof (cases "\<not> (wanted \<or> refused) \<or> ?n \<ge> PASSWORD_PROMPTS \<or> find (\<lambda>h. h_id h = ?i) t = None")
    case True
    have "p = failed \<and> (st' = st1 \<or> st' = forget_typed ?i st1)"
      using assms True unfolding retry_password_def Let_def refused_def [symmetric] st1_def [symmetric] failed_def [symmetric]
      by (auto split: if_splits)
    moreover have "st1 = st\<lparr>ss_typed := ss_typed st, ss_passwords_typed := (ss_passwords_typed st)(?i := Some ?n)\<rparr>"
      "forget_typed ?i st1 = st\<lparr>ss_typed := (ss_typed st)(?i := None), ss_passwords_typed := (ss_passwords_typed st)(?i := Some ?n)\<rparr>"
      by (simp_all add: st1_def forget_typed_def)
    ultimately show ?thesis using that(1) unfolding failed_def by metis
  next
    case False
    then obtain h where h: "find (\<lambda>h. h_id h = ?i) t = Some h" by auto
    obtain now st2 where c2: "call (se_now E) (forget_typed ?i st1) = (now, st2)" by fastforce
    define dl where "dl = (if now + prompt_wait h \<le> se_instant_max E then Some (now + prompt_wait h) else None)"
    define st3 where "st3 = st2\<lparr>ss_passwords_typed := (ss_passwords_typed st2)(?i := Some (?n + 1))\<rparr>"
    obtain a st4 where c4: "ask_at E hop QK_Password q False dl st3 = (a, st4)" by fastforce
    from call_world [OF c2] ask_at_log [OF c4] obtain w where st4: "st4 = st\<lparr>ss_world := w, ss_typed := (ss_typed st)(?i := None),
        ss_passwords_typed := (ss_passwords_typed st)(?i := Some (?n + 1)), ss_log := ss_log st @ [EV_Asked hop QK_Password q]\<rparr>"
      by (auto simp: st3_def st1_def forget_typed_def)
    have res: "(p, st') = (case a of
        RP_Answer pw \<Rightarrow> (P_Again (if AM_Password \<in> set (auth_sequence h) then t else update_hop ?i (\<lambda>h. h\<lparr>h_auth := AM_Password\<rparr>) t), set_typed ?i pw st4)
      | RP_Cancelled \<Rightarrow> (P_Finish (Inl (password_abandoned hop t)), st4)
      | RP_TimedOut \<Rightarrow> (P_Finish (Inl (password_abandoned hop t)), st4)
      | RP_Gone \<Rightarrow> (P_Finish (Inl failure_cancelled), st4))"
    proof -
      have n: "\<not> (\<not> (wanted \<or> refused) \<or> PASSWORD_PROMPTS \<le> ?n)" using False by simp
      show ?thesis
        unfolding assms [symmetric] retry_password_def Let_def refused_def [symmetric] st1_def [symmetric] q_def [symmetric] if_not_P [OF n]
        by (simp only: h option.case c2 prod.case dl_def [symmetric] st3_def [symmetric] c4)
    qed
    have ref: "map hop_reference (update_hop ?i (\<lambda>h. h\<lparr>h_auth := AM_Password\<rparr>) t) = map hop_reference t"
      by (rule update_hop_keeps) (simp add: hop_reference_def)
    show ?thesis
    proof (cases a)
      case (RP_Answer pw)
      with res st4 False ref show ?thesis
        by (intro that(3) [of "if AM_Password \<in> set (auth_sequence h) then t else update_hop ?i (\<lambda>h. h\<lparr>h_auth := AM_Password\<rparr>) t" q pw w])
          (simp_all add: set_typed_def)
    qed (use res st4 False that(2) in simp_all)
  qed
qed

section \<open>The loop ends by itself\<close>

text \<open>What may still happen for one host.\<close>

definition typed_so_far :: "('w, 'm) session_state \<Rightarrow> host_id \<Rightarrow> nat" where
  "typed_so_far st i = (case ss_passwords_typed st i of Some n \<Rightarrow> n | None \<Rightarrow> 0)"

definition left_for :: "('w, 'm) session_state \<Rightarrow> host_id \<Rightarrow> nat" where
  "left_for st i =
     (if ss_pins st i = None then 1 else 0) + (if i \<in> ss_asked_host_key st then 0 else 1) + (if i \<in> ss_unrestricted st then 0 else 1)
     + (PASSWORD_PROMPTS - typed_so_far st i)"

definition rounds_left :: "target \<Rightarrow> ('w, 'm) session_state \<Rightarrow> nat" where
  "rounds_left t st = sum (left_for st) (h_id ` set t)"

lemma left_for_bound: "left_for st i \<le> ROUNDS_PER_HOP"
  unfolding left_for_def ROUNDS_PER_HOP_def by (intro add_mono) auto

lemma rounds_left_bound: "rounds_left t st < round_limit t"
proof -
  have "rounds_left t st \<le> card (h_id ` set t) * ROUNDS_PER_HOP"
    using sum_bounded_above [of "h_id ` set t", OF left_for_bound [of st]] by (simp add: rounds_left_def)
  also have "\<dots> \<le> length t * ROUNDS_PER_HOP"
    using le_trans [OF card_image_le [of "set t" h_id] card_length [of t]] by (simp add: mult_le_mono1)
  finally show ?thesis by (simp add: round_limit_def)
qed

definition grows :: "('w, 'm) session_state \<Rightarrow> ('w, 'm) session_state \<Rightarrow> bool" where
  "grows st st' \<longleftrightarrow> (\<forall>j. ss_pins st j \<noteq> None \<longrightarrow> ss_pins st' j \<noteq> None) \<and> ss_asked_host_key st \<subseteq> ss_asked_host_key st'
     \<and> ss_unrestricted st \<subseteq> ss_unrestricted st' \<and> (\<forall>j. typed_so_far st j \<le> typed_so_far st' j)"

lemma left_for_mono:
  assumes "grows st st'" shows "left_for st' j \<le> left_for st j"
proof -
  have "(if j \<in> ss_asked_host_key st' then 0 else 1) \<le> (if j \<in> ss_asked_host_key st then 0 else (1 :: nat))"
    "(if ss_pins st' j = None then 1 else 0) \<le> (if ss_pins st j = None then 1 else (0 :: nat))"
    "(if j \<in> ss_unrestricted st' then 0 else 1) \<le> (if j \<in> ss_unrestricted st then 0 else (1 :: nat))"
    "PASSWORD_PROMPTS - typed_so_far st' j \<le> PASSWORD_PROMPTS - typed_so_far st j"
    using assms by (auto simp: grows_def diff_le_mono2)
  then show ?thesis unfolding left_for_def by linarith
qed

lemma left_for_less:
  assumes "grows st st'"
    and "ss_pins st i = None \<and> ss_pins st' i \<noteq> None \<or> i \<in> ss_asked_host_key st' - ss_asked_host_key st
      \<or> i \<in> ss_unrestricted st' - ss_unrestricted st \<or> typed_so_far st i < typed_so_far st' i \<and> typed_so_far st i < PASSWORD_PROMPTS"
  shows "left_for st' i < left_for st i"
proof -
  have "(if i \<in> ss_asked_host_key st' then 0 else 1) \<le> (if i \<in> ss_asked_host_key st then 0 else (1 :: nat))"
    "(if ss_pins st' i = None then 1 else 0) \<le> (if ss_pins st i = None then 1 else (0 :: nat))"
    "(if i \<in> ss_unrestricted st' then 0 else 1) \<le> (if i \<in> ss_unrestricted st then 0 else (1 :: nat))"
    "PASSWORD_PROMPTS - typed_so_far st' i \<le> PASSWORD_PROMPTS - typed_so_far st i"
    using assms(1) by (auto simp: grows_def diff_le_mono2)
  moreover have "typed_so_far st i < typed_so_far st' i \<and> typed_so_far st i < PASSWORD_PROMPTS \<Longrightarrow>
      PASSWORD_PROMPTS - typed_so_far st' i < PASSWORD_PROMPTS - typed_so_far st i" by linarith
  ultimately show ?thesis using assms(2) unfolding left_for_def by (elim disjE conjE) (simp_all split: if_splits)
qed

lemma left_for_login: "login_only st st' \<Longrightarrow> left_for st' = left_for st"
  by (intro ext) (auto simp: login_only_def left_for_def typed_so_far_def)

lemma confirm_again:
  assumes "confirm E t hop key pinned st = (Inr t', st')" "pinned = None \<longrightarrow> ss_pins st (hf_id hop) = None"
  shows "map hop_reference t' = map hop_reference t \<and> grows st st' \<and> left_for st' (hf_id hop) < left_for st (hf_id hop)"
proof -
  have keep: "map hop_reference (update_hop i (\<lambda>h. h\<lparr>h_pinned := Some k\<rparr>) t) = map hop_reference t" for i k
    by (rule update_hop_keeps) (simp add: hop_reference_def)
  show ?thesis
    using assms(1)
  proof (cases rule: confirm_cases)
    case (1 w)
    then show ?thesis
    proof (cases rule: confirm_key_cases)
      case (3 w')
      then have g: "grows st st'" "hf_id hop \<in> ss_asked_host_key st' - ss_asked_host_key st"
        by (simp_all add: grows_def typed_so_far_def pin_policy_def subset_insertI)
      with left_for_less [OF g(1), of "hf_id hop"] 3(1) keep show ?thesis by simp
    qed simp_all
  next
    case (2 f w)
    then show ?thesis by simp
  next
    case (3 k w)
    with assms(2) have g: "grows st st'" "ss_pins st (hf_id hop) = None \<and> ss_pins st' (hf_id hop) \<noteq> None"
      by (simp_all add: grows_def typed_so_far_def pin_policy_def)
    with left_for_less [OF g(1), of "hf_id hop"] 3(2) keep show ?thesis by simp
  qed
qed

lemma retry_password_again:
  assumes "retry_password E t hop tried reason wanted st = (P_Again t', st')"
  shows "map hop_reference t' = map hop_reference t \<and> grows st st' \<and> left_for st' (hf_id hop) < left_for st (hf_id hop)"
  using assms
proof (cases rule: retry_password_cases)
  case (3 t'' pw w q)
  have le: "typed_so_far st (hf_id hop) \<le> typed_count (hf_id hop) st" by (simp add: typed_so_far_def typed_count_def split: option.splits)
  have so_far: "typed_so_far st' j = (if j = hf_id hop then typed_count (hf_id hop) st + 1 else typed_so_far st j)" for j
    using 3(4) by (simp add: typed_so_far_def)
  with le have "grows st st'" using 3(4) by (simp add: grows_def)
  with left_for_less [of st st' "hf_id hop"] so_far [of "hf_id hop"] le 3 show ?thesis by simp
qed simp_all

lemma after_error_again:
  assumes "after_error E t e st = (P_Again t', st')"
    and "\<And>hop key. e = CE_HostKeyUnknown hop key \<Longrightarrow> ss_pins st (hf_id hop) = None"
  shows "\<exists>hop. hop_of e = Some hop \<and> map hop_reference t' = map hop_reference t
    \<and> grows st st' \<and> left_for st' (hf_id hop) < left_for st (hf_id hop)"
proof -
  have none: "abandoned_hop st e = None" using assms(1) by (auto simp: after_error_def split: option.splits)
  have conf: "again_or r = (P_Again t', st') \<Longrightarrow> r = (Inr t', st')" for r
    by (auto simp: again_or_def split: prod.splits sum.splits)
  show ?thesis
  proof (cases e)
    case (CE_HostKeyUnknown hop key)
    with assms(1) none conf have "confirm E t hop key None st = (Inr t', st')" by (simp add: after_error_def)
    with confirm_again [OF this] assms(2) CE_HostKeyUnknown show ?thesis by simp
  next
    case (CE_HostKeyMismatch hop key pinned)
    with assms(1) none conf have "confirm E t hop key (Some pinned) st = (Inr t', st')" by (simp add: after_error_def)
    with confirm_again [OF this] CE_HostKeyMismatch show ?thesis by simp
  next
    case (CE_NoCommonHostKeyAlgorithm hop ours theirs)
    have keep: "map hop_reference (update_hop (hf_id hop) (\<lambda>h. h\<lparr>h_pinned := None\<rparr>) t) = map hop_reference t"
      by (rule update_hop_keeps) (simp add: hop_reference_def)
    from assms(1) none CE_NoCommonHostKeyAlgorithm have r: "hf_id hop \<notin> ss_unrestricted st"
      "t' = update_hop (hf_id hop) (\<lambda>h. h\<lparr>h_pinned := None\<rparr>) t" "st' = st\<lparr>ss_unrestricted := insert (hf_id hop) (ss_unrestricted st)\<rparr>"
      by (simp_all add: after_error_def split: if_splits)
    then have g: "grows st st'" "hf_id hop \<in> ss_unrestricted st' - ss_unrestricted st"
      by (simp_all add: grows_def typed_so_far_def subset_insertI)
    with left_for_less [OF g(1), of "hf_id hop"] r(2) keep CE_NoCommonHostKeyAlgorithm show ?thesis by simp
  next
    case (CE_AuthFailed hop tried reason wanted)
    with assms(1) none have "retry_password E t hop tried reason wanted st = (P_Again t', st')" by (simp add: after_error_def)
    from retry_password_again [OF this] CE_AuthFailed show ?thesis by simp
  qed (use assms(1) none in \<open>simp_all add: after_error_def\<close>)
qed

text \<open>A pass up to the answer of the engine.\<close>

lemma connect_pass_cases:
  assumes "connect_pass E t st = (p, st')"
  obtains w where "p = P_Finish (Inl failure_cancelled)" "st' = st\<lparr>ss_world := w\<rparr>"
  | w s where "run_dialogue E (se_connect E t w) (prepare t (st\<lparr>ss_world := w\<rparr>)) = (Inr s, st')" "p = P_Finish (Inr (s, t))"
  | w e st1 where "run_dialogue E (se_connect E t w) (prepare t (st\<lparr>ss_world := w\<rparr>)) = (Inl e, st1)" "after_error E t e st1 = (p, st')"
proof -
  obtain g st0 where g: "call (se_cancelled E) st = (g, st0)" by fastforce
  from call_world [OF g] obtain w where w: "st0 = st\<lparr>ss_world := w\<rparr>" by blast
  have pw: "ss_world (prepare t st0) = w" using w by (simp add: prepare_def)
  obtain r st1 where r: "run_dialogue E (se_connect E t w) (prepare t (st\<lparr>ss_world := w\<rparr>)) = (r, st1)" by fastforce
  show ?thesis
  proof (cases g)
    case True
    with assms g w have "p = P_Finish (Inl failure_cancelled)" "st' = st\<lparr>ss_world := w\<rparr>" by (simp_all add: connect_pass_def)
    then show ?thesis by (rule that(1))
  next
    case False
    with assms g pw w r have res: "(p, st') = (case r of Inr s \<Rightarrow> (P_Finish (Inr (s, t)), st1) | Inl e \<Rightarrow> after_error E t e st1)"
      by (simp add: connect_pass_def Let_def)
    show ?thesis
    proof (cases r)
      case (Inl e)
      with res r show ?thesis by (intro that(3) [of w e st1]) simp_all
    next
      case (Inr s)
      with res r show ?thesis by (intro that(2) [of w s]) simp_all
    qed
  qed
qed

lemma prepare_frame: "left_for (prepare t (st\<lparr>ss_world := w\<rparr>)) = left_for st"
  "ss_pins (prepare t (st\<lparr>ss_world := w\<rparr>)) = ss_pins st" "ss_log (prepare t (st\<lparr>ss_world := w\<rparr>)) = ss_log st"
  by (intro ext) (simp_all add: prepare_def left_for_def typed_so_far_def)

lemma connect_pass_again:
  assumes "engine_ok E" "connect_pass E t st = (P_Again t', st')"
  shows "map hop_reference t' = map hop_reference t" "rounds_left t' st' < rounds_left t st"
proof -
  from assms(2) obtain w e st1 where r: "run_dialogue E (se_connect E t w) (prepare t (st\<lparr>ss_world := w\<rparr>)) = (Inl e, st1)"
    "after_error E t e st1 = (P_Again t', st')"
    by (cases rule: connect_pass_cases) auto
  have "agrees (prepare t (st\<lparr>ss_world := w\<rparr>)) {}" by (simp add: agrees_def)
  with run_honest [OF _ r(1)] assms(1) obtain seen where h: "login_only (prepare t (st\<lparr>ss_world := w\<rparr>)) st1"
    "honest_result t seen (Inl e :: connect_error + 'b)" "agrees st1 seen"
    unfolding engine_ok_def by blast
  have unknown: "ss_pins st1 (hf_id hop) = None" if "e = CE_HostKeyUnknown hop key" for hop key
    using h(2,3) that by (auto simp: agrees_def policy_check_def split: option.splits if_splits)
  obtain hop where hop: "hop_of e = Some hop" "map hop_reference t' = map hop_reference t" "grows st1 st'"
    "left_for st' (hf_id hop) < left_for st1 (hf_id hop)"
    using after_error_again [OF r(2)] unknown by blast
  show ref: "map hop_reference t' = map hop_reference t" by (rule hop(2))
  have same: "left_for st1 = left_for st" using left_for_login [OF h(1)] prepare_frame(1) by metis
  have ids: "h_id ` set t' = h_id ` set t" using arg_cong [OF ref, of "map hf_id"] by (simp add: hop_reference_def comp_def flip: set_map)
  from h(2) hop(1) have "hf_id hop \<in> h_id ` set t" by (auto simp: hop_reference_def)
  then show "rounds_left t' st' < rounds_left t st"
    unfolding rounds_left_def ids using left_for_mono [OF hop(3)] hop(4) same by (intro sum_strict_mono_ex1) auto
qed

lemma connect_loop_more:
  "engine_ok E \<Longrightarrow> rounds_left t st < n \<Longrightarrow> connect_loop E (n + k) t st = connect_loop E n t st"
proof (induction n arbitrary: t st)
  case (Suc n)
  obtain p st' where p: "connect_pass E t st = (p, st')" by fastforce
  show ?case
  proof (cases p)
    case (P_Again t')
    with connect_pass_again(2) [OF Suc.prems(1)] p Suc.prems(2) have "rounds_left t' st' < n" by fastforce
    with Suc.IH [OF Suc.prems(1)] p P_Again show ?thesis by simp
  qed (simp add: p)
qed simp

text \<open>C25. The limit on the rounds of a connection is a net that is never reached: whatever the servers, the person and the
  directory do, a connection through any chain ends by itself within the limit, so raising the limit never changes a
  result. (The engine is assumed to keep its contract.)\<close>

theorem round_limit_never_reached:
  assumes "engine_ok E"
  shows "connect_within E query (\<lambda>t. round_limit t + k) st = connect_within E query round_limit st"
proof -
  have "connect_loop E (round_limit t + k) t st' = connect_loop E (round_limit t) t st'" for t st'
    using connect_loop_more [OF assms rounds_left_bound] .
  then show ?thesis unfolding connect_within_def by presburger
qed

section \<open>Invariants of a connection\<close>

text \<open>What a property of the state must survive to hold at the end of every connection: \<open>I\<close> holds between the steps, \<open>J\<close> when
  the connection is over.\<close>

locale session_invariant =
  fixes I J :: "('w, 'm) session_state \<Rightarrow> bool"
  assumes over: "I st \<Longrightarrow> J st"
    and world: "I st \<Longrightarrow> I (st\<lparr>ss_world := w\<rparr>)" "J st \<Longrightarrow> J (st\<lparr>ss_world := w\<rparr>)"
    and resolved: "I st \<Longrightarrow> I (log_event (EV_Resolved t) st)"
    and started: "I st \<Longrightarrow> EV_Resolved t \<in> set (ss_log st) \<Longrightarrow> I (st\<lparr>ss_pins := pins_of_target t\<rparr>)"
    and prepared: "I st \<Longrightarrow> I (st\<lparr>ss_password_first := f\<rparr>)"
    and opened: "I st \<Longrightarrow> I (st\<lparr>ss_opened := ks\<rparr>)"
    and checked: "I st \<Longrightarrow> I (log_event (EV_Checked hop key (policy_check (ss_pins st) hop key)) st)"
    and prompted: "I st \<Longrightarrow> kind \<noteq> QK_Password \<Longrightarrow> I (log_event (EV_Asked hop kind q) st)"
    and given_up: "I st \<Longrightarrow> I (cancel i st)"
    and typed_again: "I st \<Longrightarrow> ss_typed st i \<noteq> None \<Longrightarrow> I (gave i PS_Typed st)"
    and from_keychain: "I st \<Longrightarrow> ss_typed st i = None \<Longrightarrow> I (gave i PS_Keychain st)"
    and typed_new: "I st \<Longrightarrow> ss_typed st (hf_id hop) = None \<Longrightarrow> hf_id hop \<notin> ss_cancelled st
      \<Longrightarrow> I (gave (hf_id hop) PS_Typed (set_typed (hf_id hop) pw (log_event (EV_Asked hop QK_Password q) st)))"
    and not_typed: "I st \<Longrightarrow> ss_typed st (hf_id hop) = None \<Longrightarrow> hf_id hop \<notin> ss_cancelled st
      \<Longrightarrow> I (cancel (hf_id hop) (log_event (EV_Asked hop QK_Password q) st))"
    and recorded: "I st \<Longrightarrow> I (pin_policy (hf_id hop) key (log_event (EV_Recorded hop key) st))"
    and confirmed: "I st \<Longrightarrow> hf_id hop \<notin> ss_asked_host_key st
      \<Longrightarrow> I (pin_policy (hf_id hop) key (st\<lparr>ss_asked_host_key := insert (hf_id hop) (ss_asked_host_key st),
             ss_log := ss_log st @ [EV_Confirmed hop key (Some (sk_fingerprint key)), EV_Pinned hop key]\<rparr>))"
    and unconfirmed: "I st \<Longrightarrow> hf_id hop \<notin> ss_asked_host_key st \<Longrightarrow> evs = [] \<or> (\<exists>x. evs = [EV_Confirmed hop key x])
      \<Longrightarrow> J (st\<lparr>ss_asked_host_key := insert (hf_id hop) (ss_asked_host_key st), ss_log := ss_log st @ evs\<rparr>)"
    and unrestricted: "I st \<Longrightarrow> I (st\<lparr>ss_unrestricted := u\<rparr>)"
    and not_asked: "I st \<Longrightarrow> J (st\<lparr>ss_typed := ty, ss_passwords_typed := n\<rparr>)"
    and asked_in_vain: "I st \<Longrightarrow> hf_id hop \<notin> ss_cancelled st \<Longrightarrow> typed_count (hf_id hop) st < PASSWORD_PROMPTS
      \<Longrightarrow> J (st\<lparr>ss_typed := ty, ss_passwords_typed := n, ss_log := ss_log st @ [EV_Asked hop QK_Password q]\<rparr>)"
    and asked_again: "I st \<Longrightarrow> hf_id hop \<notin> ss_cancelled st \<Longrightarrow> typed_count (hf_id hop) st < PASSWORD_PROMPTS
      \<Longrightarrow> I (st\<lparr>ss_typed := (ss_typed st)(hf_id hop := Some pw),
             ss_passwords_typed := (ss_passwords_typed st)(hf_id hop := Some (typed_count (hf_id hop) st + 1)),
             ss_log := ss_log st @ [EV_Asked hop QK_Password q]\<rparr>)"
begin

lemma call_keeps: "call f st = (a, st') \<Longrightarrow> I st \<Longrightarrow> I st'"
  by (auto dest: call_world intro: world)

lemma deadline_keeps: "deadline_after E wait st = (d, st') \<Longrightarrow> I st \<Longrightarrow> I st'"
  by (auto dest: deadline_after_world intro: world)

lemma ask_at_keeps: "ask_at E hop kind q echo dl st = (r, st') \<Longrightarrow> kind \<noteq> QK_Password \<Longrightarrow> I st \<Longrightarrow> I st'"
  unfolding ask_at_def by (erule call_keeps) (rule prompted)

lemma ask_prompts_keeps: "ask_prompts E hop dl ps as st = (r, st') \<Longrightarrow> I st \<Longrightarrow> I st'"
proof (induction ps arbitrary: as st)
  case (Cons p ps)
  obtain a st1 where a: "ask_at E hop QK_Interactive (shown_prompt hop (p_text p)) (p_echo p) (Some dl) st = (a, st1)" by fastforce
  with ask_at_keeps [OF a] Cons show ?case by (cases a) (auto intro: given_up)
qed simp

lemma auth_password_keeps: "auth_password E hop st = (r, st') \<Longrightarrow> I st \<Longrightarrow> I st'"
proof (erule auth_password_cases)
  assume "I st"
  fix p w
  show "ss_typed st (hf_id hop) = Some p \<Longrightarrow> st' = gave (hf_id hop) PS_Typed st \<Longrightarrow> I st'"
    using typed_again \<open>I st\<close> by simp
  show "ss_typed st (hf_id hop) = None \<Longrightarrow> st' = gave (hf_id hop) PS_Keychain (st\<lparr>ss_world := w\<rparr>) \<Longrightarrow> I st'"
    using from_keychain [of "st\<lparr>ss_world := w\<rparr>"] world(1) \<open>I st\<close> by simp
  assume n: "ss_typed st (hf_id hop) = None" and a: "ask_password E hop (st\<lparr>ss_world := w\<rparr>) = (r, st')"
  from a show "I st'"
  proof (cases rule: ask_password_cases)
    case 1
    with world(1) \<open>I st\<close> show ?thesis by simp
  next
    case (2 pw w')
    with typed_new [of "st\<lparr>ss_world := w'\<rparr>" hop pw "password_question hop"] world(1) [OF \<open>I st\<close>, of w'] n show ?thesis by (simp add: log_event_def)
  next
    case (3 w')
    with not_typed [of "st\<lparr>ss_world := w'\<rparr>" hop "password_question hop"] world(1) [OF \<open>I st\<close>, of w'] n show ?thesis by (simp add: log_event_def)
  qed
qed

lemma run_dialogue_keeps: "run_dialogue E d st = (r, st') \<Longrightarrow> I st \<Longrightarrow> I st'"
proof (induction d arbitrary: st)
  case (D_Done x w)
  then show ?case by (auto intro: world)
next
  case (D_Check hop key k)
  then show ?case by (auto simp: Let_def intro: checked)
next
  case (D_PublicKey i k)
  then show ?case by auto
next
  case (D_Sign i data hash w k)
  obtain a st1 where a: "auth_sign E i data hash (st\<lparr>ss_world := w\<rparr>) = (a, st1)" by fastforce
  then have "I st1" using D_Sign.prems(2) world(1)
    by (auto simp: auth_sign_def split: option.splits prod.splits dest: call_keeps)
  with D_Sign.IH [of "k a" "k a (ss_world st1)" st1] D_Sign.prems a show ?case by simp
next
  case (D_Password hop w k)
  obtain a st1 where a: "auth_password E hop (st\<lparr>ss_world := w\<rparr>) = (a, st1)" by fastforce
  with D_Password.IH [of "k a" "k a (ss_world st1)" st1] D_Password.prems auth_password_keeps [OF a] world(1) show ?case by simp
next
  case (D_Interactive hop ps dl w k)
  obtain a st1 where a: "auth_interactive E hop ps dl (st\<lparr>ss_world := w\<rparr>) = (a, st1)" by fastforce
  have "I (st\<lparr>ss_world := w\<rparr>)" using D_Interactive.prems(2) world(1) by simp
  with a have "I st1" by (auto simp: auth_interactive_def split: if_splits dest: ask_prompts_keeps)
  with D_Interactive.IH [of "k a" "k a (ss_world st1)" st1] D_Interactive.prems a show ?case by simp
next
  case (D_Banner hop b w k)
  then show ?case using world(1) by (auto simp: Let_def auth_banner_def)
qed

lemma confirm_keeps:
  assumes "confirm E t hop key pinned st = (r, st')" "I st"
  shows "J st'" "r = Inr t' \<Longrightarrow> I st'"
proof -
  have "J st' \<and> (r = Inr t' \<longrightarrow> I st')"
    using assms(1)
  proof (cases rule: confirm_cases)
    case (1 w)
    from 1 show ?thesis
    proof (cases rule: confirm_key_cases)
      case (1 f)
      with over world(1) assms(2) show ?thesis by simp
    next
      case (2 f w' evs)
      with unconfirmed [of "st\<lparr>ss_world := w'\<rparr>" hop evs key] world(1) [OF assms(2), of w'] show ?thesis by simp
    next
      case (3 w')
      with confirmed [of "st\<lparr>ss_world := w'\<rparr>" hop key] world(1) [OF assms(2), of w'] have "I st'" by simp
      with over show ?thesis by simp
    qed
  next
    case (2 f w)
    with over world(1) assms(2) show ?thesis by simp
  next
    case (3 k w)
    with recorded [of "st\<lparr>ss_world := w\<rparr>" hop k] world(1) [OF assms(2), of w] have "I st'" by (simp add: log_event_def)
    with over show ?thesis by simp
  qed
  then show "J st'" "r = Inr t' \<Longrightarrow> I st'" by simp_all
qed

lemma retry_password_keeps:
  assumes "retry_password E t hop tried reason wanted st = (p, st')" "I st" "hf_id hop \<notin> ss_cancelled st"
  shows "J st' \<and> (p = P_Again t' \<longrightarrow> I st')"
  using assms(1)
proof (cases rule: retry_password_cases)
  case (1 f ty n)
  with not_asked [OF assms(2)] show ?thesis by simp
next
  case (2 f ty n w q)
  have "typed_count (hf_id hop) (st\<lparr>ss_world := w\<rparr>) = typed_count (hf_id hop) st" by (simp add: typed_count_def)
  with 2 asked_in_vain [of "st\<lparr>ss_world := w\<rparr>" hop] world(1) [OF assms(2)] assms(3) show ?thesis by simp
next
  case (3 t'' pw w q)
  have "typed_count (hf_id hop) (st\<lparr>ss_world := w\<rparr>) = typed_count (hf_id hop) st" by (simp add: typed_count_def)
  with 3 asked_again [of "st\<lparr>ss_world := w\<rparr>" hop] world(1) [OF assms(2)] assms(3) have "I st'" by simp
  with over show ?thesis by simp
qed

lemma after_error_keeps:
  assumes "after_error E t e st = (p, st')" "I st"
  shows "J st' \<and> (\<forall>t'. p = P_Again t' \<longrightarrow> I st')"
proof (cases "abandoned_hop st e")
  case (Some hop)
  with assms over show ?thesis by (auto simp: after_error_def)
next
  case None
  have conf: "J st' \<and> (\<forall>t'. p = P_Again t' \<longrightarrow> I st')" if c: "again_or (confirm E t hop key pinned st) = (p, st')" for hop key pinned
  proof -
    obtain r st1 where r: "confirm E t hop key pinned st = (r, st1)" by fastforce
    with c have "st1 = st'" "p = P_Again t' \<Longrightarrow> r = Inr t'" for t' by (auto simp: again_or_def split: sum.splits)
    with confirm_keeps [OF r assms(2)] show ?thesis by blast
  qed
  show ?thesis
  proof (cases e)
    case (CE_HostKeyUnknown hop key)
    with assms(1) None conf show ?thesis by (simp add: after_error_def)
  next
    case (CE_HostKeyMismatch hop key pinned)
    with assms(1) None conf show ?thesis by (simp add: after_error_def)
  next
    case (CE_NoCommonHostKeyAlgorithm hop ours theirs)
    with assms None over unrestricted show ?thesis by (auto simp: after_error_def split: if_splits)
  next
    case (CE_AuthFailed hop tried reason wanted)
    with None have "hf_id hop \<notin> ss_cancelled st" by (auto simp: abandoned_hop_def split: if_splits)
    with assms None CE_AuthFailed retry_password_keeps show ?thesis by (fastforce simp: after_error_def)
  qed (use assms None over in \<open>auto simp: after_error_def\<close>)
qed

lemma connect_pass_keeps:
  assumes "connect_pass E t st = (p, st')" "I st"
  shows "J st' \<and> (\<forall>t'. p = P_Again t' \<longrightarrow> I st')"
proof -
  have prep: "I (prepare t (st\<lparr>ss_world := w\<rparr>))" for w using prepared world(1) assms(2) by (simp add: prepare_def)
  show ?thesis
    using assms(1)
  proof (cases rule: connect_pass_cases)
    case (1 w)
    with over world(1) assms(2) show ?thesis by simp
  next
    case (2 w s)
    with run_dialogue_keeps [OF 2(1) prep] over show ?thesis by simp
  next
    case (3 w e st1)
    with after_error_keeps run_dialogue_keeps [OF 3(1) prep] show ?thesis by blast
  qed
qed

lemma connect_loop_keeps: "connect_loop E n t st = (r, st') \<Longrightarrow> I st \<Longrightarrow> J st'"
proof (induction n arbitrary: t st)
  case (Suc n)
  obtain p st1 where p: "connect_pass E t st = (p, st1)" by fastforce
  from connect_pass_keeps [OF p Suc.prems(2)] Suc p show ?case by (cases p) auto
qed (auto intro: over)

lemma ask_passphrase_keeps: "ask_passphrase E h key t q n st = (r, st') \<Longrightarrow> I st \<Longrightarrow> I st'"
proof (induction n arbitrary: q st)
  case (Suc n)
  obtain d st1 where d: "deadline_after E (prompt_wait h) st = (d, st1)" by fastforce
  obtain a st2 where a: "ask_at E (hop_reference h) QK_Passphrase q False (Some d) st1 = (a, st2)" by fastforce
  have "I st2" using ask_at_keeps [OF a] deadline_keeps [OF d] Suc.prems(2) by simp
  with Suc d a show ?case by (cases a) (auto split: sum.splits open_error.splits)
qed simp

lemma unlock_keeps: "unlock E t st = (r, st') \<Longrightarrow> I st \<Longrightarrow> I st'"
proof (induction t arbitrary: st)
  case (Cons h t)
  have rem: "I st2" if "remembered E i x st1 = (m, st2)" "I st1" for i x st1 m st2
    using that by (auto simp: remembered_def Let_def split: prod.splits sum.splits option.splits dest: call_keeps)
      (metis call_keeps prod.collapse)
  have op: "I st2" if "open_key E h i key x st1 = (m, st2)" "I st1" for i key x st1 m st2
    using that by (auto simp: open_key_def split: prod.splits sum.splits option.splits open_error.splits dest: rem intro: ask_passphrase_keeps)
  have un: "I st2" if "unlock_hop E h st1 = (m, st2)" "I st1" for st1 m st2
    using that unfolding unlock_hop_def unlock_key_def
    by (auto split: prod.splits sum.splits option.splits auth_method.splits if_splits intro!: opened dest!: call_keeps op)
  obtain u st1 where u: "unlock_hop E h st = (u, st1)" by fastforce
  with un [OF u] Cons show ?case by (auto split: sum.splits)
qed simp

end

text \<open>The log only grows.\<close>

interpretation logged: session_invariant "\<lambda>st. ev \<in> set (ss_log st)" "\<lambda>st. ev \<in> set (ss_log st)" for ev
  by unfold_locales (auto simp: session_updates)

context session_invariant
begin

lemma connect_within_keeps:
  assumes "connect_within E query rounds st = (r, st')" "I st"
  shows "J st'"
proof -
  obtain g st1 where c1: "call (se_cancelled E) st = (g, st1)" by fastforce
  have i1: "I st1" using call_keeps [OF c1 assms(2)] .
  show ?thesis
  proof (cases g)
    case True
    with assms(1) c1 over [OF i1] show ?thesis by (simp add: connect_within_def)
  next
    case False
    obtain t' st2 where c2: "call (se_resolve E query) st1 = (t', st2)" by fastforce
    have i2: "I st2" using call_keeps [OF c2 i1] .
    show ?thesis
    proof (cases t')
      case (Inl e)
      with assms(1) c1 c2 False over [OF i2] show ?thesis by (simp add: connect_within_def)
    next
      case (Inr t)
      obtain u st3 where c3: "unlock E t (log_event (EV_Resolved t) st2) = (u, st3)" by fastforce
      have i3: "I st3" using unlock_keeps [OF c3 resolved [OF i2]] .
      have "EV_Resolved t \<in> set (ss_log st3)" using logged.unlock_keeps [OF c3] by (simp add: log_event_def)
      with started [OF i3] have i4: "I (st3\<lparr>ss_pins := pins_of_target t\<rparr>)" .
      have "(r, st') = (case u of Inl e \<Rightarrow> (Inl (failure_new KIND_AUTH e), st3)
          | Inr _ \<Rightarrow> connect_loop E (rounds t) t (st3\<lparr>ss_pins := pins_of_target t\<rparr>))"
        using assms(1) c1 c2 c3 False Inr by (simp add: connect_within_def)
      then show ?thesis using connect_loop_keeps [OF _ i4, of E "rounds t" t r st'] over [OF i3] by (cases u) simp_all
    qed
  qed
qed

lemma connect_keeps:
  assumes "connect E query st = (r, st')" "I st"
  shows "J st'"
proof -
  obtain x st1 where c1: "connect_within E query round_limit st = (x, st1)" by fastforce
  obtain g st2 where c2: "call (se_cancelled E) st1 = (g, st2)" by fastforce
  have "J st1" using connect_within_keeps [OF c1 assms(2)] .
  with call_world [OF c2] world(2) have "J st2" by auto
  with assms(1) c1 c2 world(2) show ?thesis by (auto simp: connect_def split: if_splits sum.splits prod.splits)
qed

end

section \<open>Passwords\<close>

text \<open>How often the person was asked for the password of a host.\<close>

definition password_questions :: "session_event list \<Rightarrow> host_id \<Rightarrow> nat" where
  "password_questions evs i = length (filter (\<lambda>ev. case ev of EV_Asked hop kind _ \<Rightarrow> kind = QK_Password \<and> hf_id hop = i | _ \<Rightarrow> False) evs)"

lemma password_questions_simps [simp]:
  "password_questions [] i = 0" "password_questions (evs @ evs') i = password_questions evs i + password_questions evs' i"
  "password_questions [ev] i = (case ev of EV_Asked hop kind _ \<Rightarrow> if kind = QK_Password \<and> hf_id hop = i then 1 else 0 | _ \<Rightarrow> 0)"
  "password_questions (ev # ev' # evs) i = password_questions [ev] i + password_questions (ev' # evs) i"
  by (simp_all add: password_questions_def split: session_event.splits)

text \<open>Before a host is counted it was asked at most once, and then the answer is at hand or the person gave up; afterwards the count
  is right and an answer is at hand.\<close>

definition prompts_ok :: "('w, 'm) session_state \<Rightarrow> host_id \<Rightarrow> bool" where
  "prompts_ok st i \<longleftrightarrow>
     (let n = password_questions (ss_log st) i in
      case ss_passwords_typed st i of
        None \<Rightarrow> n = 0 \<and> ss_typed st i = None \<and> ss_gave st i \<noteq> Some PS_Typed
              \<or> n = 1 \<and> (i \<in> ss_cancelled st \<or> ss_typed st i \<noteq> None \<and> ss_gave st i = Some PS_Typed)
      | Some k \<Rightarrow> n \<le> k \<and> k \<le> PASSWORD_PROMPTS \<and> ss_typed st i \<noteq> None)"

lemma prompts_ok_bound: "prompts_ok st i \<Longrightarrow> password_questions (ss_log st) i \<le> PASSWORD_PROMPTS"
  by (auto simp: prompts_ok_def Let_def PASSWORD_PROMPTS_def split: option.splits)

lemma prompts_ok_count:
  "prompts_ok st i \<Longrightarrow> i \<notin> ss_cancelled st \<Longrightarrow> password_questions (ss_log st) i \<le> typed_count i st"
  by (auto simp: prompts_ok_def Let_def typed_count_def split: option.splits)

lemma prompts_ok_frame [simp]:
  "prompts_ok (st\<lparr>ss_world := w\<rparr>) i = prompts_ok st i" "prompts_ok (st\<lparr>ss_pins := p\<rparr>) i = prompts_ok st i"
  "prompts_ok (st\<lparr>ss_opened := ks\<rparr>) i = prompts_ok st i" "prompts_ok (st\<lparr>ss_password_first := f\<rparr>) i = prompts_ok st i"
  "prompts_ok (st\<lparr>ss_unrestricted := u\<rparr>) i = prompts_ok st i"
  "prompts_ok (st\<lparr>ss_asked_host_key := a, ss_log := l\<rparr>) i = prompts_ok (st\<lparr>ss_log := l\<rparr>) i"
  by (simp_all add: prompts_ok_def cong: option.case_cong)

text \<open>Events that are no password questions.\<close>

lemma prompts_ok_log: "password_questions evs i = 0 \<Longrightarrow> prompts_ok (st\<lparr>ss_log := ss_log st @ evs\<rparr>) i = prompts_ok st i"
  by (simp add: prompts_ok_def Let_def cong: option.case_cong)

lemma prompts_ok_login:
  "prompts_ok st j \<Longrightarrow> prompts_ok (cancel i st) j"
  "prompts_ok st j \<Longrightarrow> ss_typed st i \<noteq> None \<Longrightarrow> prompts_ok (gave i PS_Typed st) j"
  "prompts_ok st j \<Longrightarrow> ss_typed st i = None \<Longrightarrow> prompts_ok (gave i PS_Keychain st) j"
  "prompts_ok st j \<Longrightarrow> ss_typed st (hf_id hop) = None \<Longrightarrow> hf_id hop \<notin> ss_cancelled st
     \<Longrightarrow> prompts_ok (gave (hf_id hop) PS_Typed (set_typed (hf_id hop) pw (log_event (EV_Asked hop QK_Password q) st))) j"
  "prompts_ok st j \<Longrightarrow> ss_typed st (hf_id hop) = None \<Longrightarrow> hf_id hop \<notin> ss_cancelled st
     \<Longrightarrow> prompts_ok (cancel (hf_id hop) (log_event (EV_Asked hop QK_Password q) st)) j"
  by (auto simp: prompts_ok_def session_updates Let_def split: option.splits)

lemma prompts_ok_retry:
  assumes "prompts_ok st j" "hf_id hop \<notin> ss_cancelled st" "typed_count (hf_id hop) st < PASSWORD_PROMPTS" "prompts_ok st (hf_id hop)"
  shows "prompts_ok (st\<lparr>ss_typed := (ss_typed st)(hf_id hop := Some pw),
      ss_passwords_typed := (ss_passwords_typed st)(hf_id hop := Some (typed_count (hf_id hop) st + 1)),
      ss_log := ss_log st @ [EV_Asked hop QK_Password q]\<rparr>) j"
  using assms prompts_ok_count [OF assms(4,2)] by (auto simp: prompts_ok_def Let_def split: option.splits)

interpretation prompts: session_invariant "\<lambda>st. \<forall>i. prompts_ok st i" "\<lambda>st. \<forall>i. password_questions (ss_log st) i \<le> PASSWORD_PROMPTS"
proof (unfold_locales, goal_cases)
  case (1 st)
  then show ?case using prompts_ok_bound by blast
next
  case (17 st hop evs key)
  then show ?case using prompts_ok_bound by (elim disjE exE) auto
next
  case (19 st n ty)
  then show ?case using prompts_ok_bound by auto
next
  case (20 st hop q n ty)
  then have "password_questions (ss_log st) i \<le> (if i = hf_id hop then PASSWORD_PROMPTS - 1 else PASSWORD_PROMPTS)" for i
    using prompts_ok_bound [of st i] prompts_ok_count [of st "hf_id hop"] by fastforce
  note bound = this
  show ?case
  proof
    fix i
    show "password_questions (ss_log (st\<lparr>ss_typed := ty, ss_passwords_typed := n, ss_log := ss_log st @ [EV_Asked hop QK_Password q]\<rparr>)) i \<le> PASSWORD_PROMPTS"
      using bound [of i] by (auto simp: PASSWORD_PROMPTS_def split: if_splits)
  qed
next
  case (21 st hop q pw)
  then show ?case using prompts_ok_retry by blast
qed (simp_all add: prompts_ok_login prompts_ok_login [unfolded log_event_def] log_event_def pin_policy_def prompts_ok_log split: question_kind.splits)

section \<open>Host keys\<close>

definition host_key_questions :: "session_event list \<Rightarrow> host_id \<Rightarrow> nat" where
  "host_key_questions evs i = length (filter (\<lambda>ev. case ev of EV_Confirmed hop _ _ \<Rightarrow> hf_id hop = i | _ \<Rightarrow> False) evs)"

lemma host_key_questions_simps [simp]:
  "host_key_questions [] i = 0" "host_key_questions (evs @ evs') i = host_key_questions evs i + host_key_questions evs' i"
  "host_key_questions [ev] i = (case ev of EV_Confirmed hop _ _ \<Rightarrow> if hf_id hop = i then 1 else 0 | _ \<Rightarrow> 0)"
  "host_key_questions (ev # ev' # evs) i = host_key_questions [ev] i + host_key_questions (ev' # evs) i"
  by (simp_all add: host_key_questions_def split: session_event.splits)

text \<open>Where a key that the policy accepts may come from: the saved host as it was resolved, a pin another connection made
  meanwhile, or a yes of the person to exactly this key, which the directory then stored.\<close>

definition trusted :: "session_event set \<Rightarrow> host_id \<Rightarrow> host_key \<Rightarrow> bool" where
  "trusted evs i key \<longleftrightarrow>
     (\<exists>t h. EV_Resolved t \<in> evs \<and> h \<in> set t \<and> h_id h = i \<and> h_pinned h = Some key)
     \<or> (\<exists>hop. hf_id hop = i \<and> EV_Recorded hop key \<in> evs)
     \<or> (\<exists>hop. hf_id hop = i \<and> EV_Confirmed hop key (Some (sk_fingerprint key)) \<in> evs \<and> EV_Pinned hop key \<in> evs)"

lemma trusted_mono: "trusted evs i key \<Longrightarrow> evs \<subseteq> evs' \<Longrightarrow> trusted evs' i key"
  unfolding trusted_def by blast

definition trust_ok :: "('w, 'm) session_state \<Rightarrow> bool" where
  "trust_ok st \<longleftrightarrow>
     (\<forall>i key. ss_pins st i = Some key \<longrightarrow> trusted (set (ss_log st)) i key)
     \<and> (\<forall>hop key. EV_Pinned hop key \<in> set (ss_log st) \<longrightarrow> EV_Confirmed hop key (Some (sk_fingerprint key)) \<in> set (ss_log st))
     \<and> (\<forall>i. host_key_questions (ss_log st) i \<le> (if i \<in> ss_asked_host_key st then 1 else 0))"

text \<open>Steps that leave the pins alone and log no answer about a host key.\<close>

fun about_trust :: "session_event \<Rightarrow> bool" where
  "about_trust (EV_Confirmed _ _ _) = True"
| "about_trust (EV_Pinned _ _) = True"
| "about_trust _ = False"

lemma trust_ok_log:
  assumes "trust_ok st" "ss_pins st' = ss_pins st" "ss_asked_host_key st' = ss_asked_host_key st"
    and "ss_log st' = ss_log st \<or> (\<exists>ev. \<not> about_trust ev \<and> ss_log st' = ss_log st @ [ev])"
  shows "trust_ok st'"
  using assms(4)
proof (elim disjE exE conjE)
  assume "ss_log st' = ss_log st"
  with assms(1-3) show ?thesis by (simp add: trust_ok_def)
next
  fix ev
  assume ev: "\<not> about_trust ev" "ss_log st' = ss_log st @ [ev]"
  have "trusted (set (ss_log st')) i key" if "ss_pins st i = Some key" for i key
    using that assms(1) ev(2) trusted_mono [of "set (ss_log st)" i key "set (ss_log st')"] by (auto simp: trust_ok_def)
  moreover have "host_key_questions (ss_log st') i = host_key_questions (ss_log st) i" for i
    using ev by (cases ev) auto
  moreover have "EV_Pinned hop key \<in> set (ss_log st') \<longleftrightarrow> EV_Pinned hop key \<in> set (ss_log st)" for hop key
    using ev by auto
  ultimately show ?thesis using assms(1-3) ev(2) by (simp add: trust_ok_def)
qed

lemma trust_ok_pin:
  assumes "trust_ok st" "trusted (set (ss_log st)) i key" shows "trust_ok (pin_policy i key st)"
  using assms by (auto simp: trust_ok_def pin_policy_def)

lemma trust_ok_ask:
  assumes "trust_ok st" "hf_id hop \<notin> ss_asked_host_key st"
    "evs = [] \<or> (\<exists>x. evs = [EV_Confirmed hop key x]) \<or> evs = [EV_Confirmed hop key (Some (sk_fingerprint key)), EV_Pinned hop key]"
  shows "trust_ok (st\<lparr>ss_asked_host_key := insert (hf_id hop) (ss_asked_host_key st), ss_log := ss_log st @ evs\<rparr>)"
proof -
  have "trusted (set (ss_log st @ evs)) i key" if "ss_pins st i = Some key" for i key
    using that assms(1) trusted_mono [of "set (ss_log st)" i key "set (ss_log st @ evs)"] by (auto simp: trust_ok_def)
  moreover have "host_key_questions (ss_log st @ evs) j \<le> (if j \<in> insert (hf_id hop) (ss_asked_host_key st) then 1 else 0)" for j
  proof -
    have "host_key_questions (ss_log st) j \<le> (if j \<in> ss_asked_host_key st then 1 else 0)" using assms(1) by (simp add: trust_ok_def)
    moreover have "host_key_questions evs j \<le> (if j = hf_id hop then 1 else 0)" using assms(3) by auto
    ultimately show ?thesis using assms(2) by (auto split: if_splits)
  qed
  ultimately show ?thesis using assms(1,3) by (auto simp: trust_ok_def)
qed

lemma pins_of_target_from: "pins_of_target t i = Some key \<Longrightarrow> \<exists>h \<in> set t. h_id h = i \<and> h_pinned h = Some key"
proof -
  have "fold (\<lambda>h pins. case h_pinned h of Some k \<Rightarrow> pins(h_id h := Some k) | None \<Rightarrow> pins) t p i = Some key
      \<Longrightarrow> p i = Some key \<or> (\<exists>h \<in> set t. h_id h = i \<and> h_pinned h = Some key)" for p
    by (induction t arbitrary: p) (fastforce split: option.splits if_splits)+
  then show "pins_of_target t i = Some key \<Longrightarrow> ?thesis" by (auto simp: pins_of_target_def)
qed

interpretation trust: session_invariant trust_ok trust_ok
proof (unfold_locales, goal_cases)
  case (4 st t)
  then have "trusted (set (ss_log st)) i key" if "pins_of_target t i = Some key" for i key
    using pins_of_target_from [OF that] by (auto simp: trusted_def)
  with 4 show ?case by (auto simp: trust_ok_def)
next
  case (14 st hop key)
  let ?st = "log_event (EV_Recorded hop key) st"
  have "trust_ok ?st" using trust_ok_log [OF 14, of ?st] by (simp add: log_event_def)
  moreover have "trusted (set (ss_log ?st)) (hf_id hop) key" by (auto simp: trusted_def log_event_def)
  ultimately show ?case by (rule trust_ok_pin)
next
  case (15 st hop key)
  let ?st = "st\<lparr>ss_asked_host_key := insert (hf_id hop) (ss_asked_host_key st),
      ss_log := ss_log st @ [EV_Confirmed hop key (Some (sk_fingerprint key)), EV_Pinned hop key]\<rparr>"
  have "trust_ok ?st" using trust_ok_ask [OF 15, of "[EV_Confirmed hop key (Some (sk_fingerprint key)), EV_Pinned hop key]"] by simp
  moreover have "trusted (set (ss_log ?st)) (hf_id hop) key" by (auto simp: trusted_def)
  ultimately show ?case by (rule trust_ok_pin)
next
  case (16 st hop evs key)
  then show ?case using trust_ok_ask [OF 16(1,2), of evs] by auto
qed (erule trust_ok_log; simp add: session_updates)+

text \<open>A key the policy found pinned is one that was trusted by then.\<close>

definition vouched :: "('w, 'm) session_state \<Rightarrow> bool" where
  "vouched st \<longleftrightarrow> (\<forall>hop key. EV_Checked hop key V_Pinned \<in> set (ss_log st)
     \<longrightarrow> (\<exists>pin. sk_fingerprint pin = sk_fingerprint key \<and> trusted (set (ss_log st)) (hf_id hop) pin))"

lemma vouched_log:
  assumes "vouched st" "set (ss_log st) \<subseteq> set (ss_log st')"
    "\<And>hop key. EV_Checked hop key V_Pinned \<in> set (ss_log st') \<Longrightarrow> EV_Checked hop key V_Pinned \<in> set (ss_log st)"
  shows "vouched st'"
  using assms trusted_mono unfolding vouched_def by metis

lemma vouched_checked:
  assumes "vouched st" "trust_ok st"
  shows "vouched (log_event (EV_Checked hop key (policy_check (ss_pins st) hop key)) st)" (is "vouched ?st")
proof (cases "policy_check (ss_pins st) hop key = V_Pinned")
  case True
  then obtain pin where pin: "ss_pins st (hf_id hop) = Some pin" "sk_fingerprint pin = sk_fingerprint key"
    by (auto simp: policy_check_def split: option.splits if_splits)
  have sub: "set (ss_log st) \<subseteq> set (ss_log ?st)" by (auto simp: log_event_def)
  from pin assms(2) have "trusted (set (ss_log ?st)) (hf_id hop) pin" using trusted_mono [OF _ sub] by (auto simp: trust_ok_def)
  moreover have "EV_Checked h k V_Pinned \<in> set (ss_log st) \<or> h = hop \<and> k = key" if "EV_Checked h k V_Pinned \<in> set (ss_log ?st)" for h k
    using that by (auto simp: log_event_def)
  ultimately show ?thesis using assms(1) pin(2) trusted_mono [OF _ sub] unfolding vouched_def by metis
qed (use assms(1) in \<open>auto intro: vouched_log simp: log_event_def\<close>)

interpretation vouch: session_invariant "\<lambda>st. trust_ok st \<and> vouched st" "\<lambda>st. trust_ok st \<and> vouched st"
proof (unfold_locales, goal_cases)
  case (7 st hop key)
  then show ?case using trust.checked vouched_checked by blast
next
  case (4 st t)
  then have "vouched (st\<lparr>ss_pins := pins_of_target t\<rparr>)" by (auto elim: vouched_log)
  with 4 trust.started show ?case by blast
next
  case (14 st hop key)
  then have "vouched (pin_policy (hf_id hop) key (log_event (EV_Recorded hop key) st))" by (auto elim!: vouched_log simp: session_updates)
  with 14 trust.recorded show ?case by blast
next
  case (15 st hop key)
  then have "vouched (pin_policy (hf_id hop) key (st\<lparr>ss_asked_host_key := insert (hf_id hop) (ss_asked_host_key st),
      ss_log := ss_log st @ [EV_Confirmed hop key (Some (sk_fingerprint key)), EV_Pinned hop key]\<rparr>))"
    by (auto elim!: vouched_log simp: session_updates)
  with 15 trust.confirmed show ?case by blast
next
  case (16 st hop evs key)
  then have "vouched (st\<lparr>ss_asked_host_key := insert (hf_id hop) (ss_asked_host_key st), ss_log := ss_log st @ evs\<rparr>)"
    by (elim conjE vouched_log) auto
  with 16 trust.unconfirmed show ?case by blast
qed (elim conjE, rule conjI, (erule trust_ok_log; simp add: session_updates), (erule vouched_log; auto simp: session_updates))+

section \<open>Sessions\<close>

text \<open>When the loop ends with a session, the last call of the engine found every hop's key pinned.\<close>

definition all_pinned :: "target \<Rightarrow> ('w, 'm) session_state \<Rightarrow> bool" where
  "all_pinned t st \<longleftrightarrow> (\<forall>h \<in> set t. \<exists>key pin. EV_Checked (hop_reference h) key V_Pinned \<in> set (ss_log st)
     \<and> ss_pins st (h_id h) = Some pin \<and> sk_fingerprint pin = sk_fingerprint key)"

lemma agrees_all_pinned:
  fixes s :: 's
  assumes "honest_result t seen (Inr s :: connect_error + 's)" "agrees st seen"
  shows "all_pinned t st"
  unfolding all_pinned_def
proof
  fix h assume "h \<in> set t"
  with assms obtain key where k: "EV_Checked (hop_reference h) key V_Pinned \<in> set (ss_log st)" "policy_check (ss_pins st) (hop_reference h) key = V_Pinned"
    by (fastforce simp: agrees_def)
  from k(2) obtain pin where "ss_pins st (h_id h) = Some pin" "sk_fingerprint pin = sk_fingerprint key"
    by (auto simp: policy_check_def hop_reference_def split: option.splits if_splits)
  with k(1) show "\<exists>key pin. EV_Checked (hop_reference h) key V_Pinned \<in> set (ss_log st)
     \<and> ss_pins st (h_id h) = Some pin \<and> sk_fingerprint pin = sk_fingerprint key" by blast
qed

lemma after_error_no_session: "after_error E t e st = (p, st') \<Longrightarrow> p \<noteq> P_Finish (Inr x)"
proof (cases "abandoned_hop st e")
  case None
  have conf: "again_or r = (p, st') \<Longrightarrow> p \<noteq> P_Finish (Inr x)" for r
    by (auto simp: again_or_def split: prod.splits sum.splits)
  have "retry_password E t hop tried reason wanted st = (p, st') \<Longrightarrow> p \<noteq> P_Finish (Inr x)" for hop tried reason wanted
    by (erule retry_password_cases) simp_all
  moreover assume "after_error E t e st = (p, st')"
  ultimately show ?thesis using None conf by (cases e) (auto simp: after_error_def split: if_splits)
qed (auto simp: after_error_def)

lemma connect_loop_all_pinned:
  assumes "engine_ok E" "connect_loop E n t st = (Inr (s, t'), st')"
  shows "all_pinned t' st' \<and> map hop_reference t' = map hop_reference t"
  using assms(2)
proof (induction n arbitrary: t st)
  case (Suc n)
  obtain p st1 where p: "connect_pass E t st = (p, st1)" by fastforce
  show ?case
  proof (cases p)
    case (P_Again u)
    with Suc p connect_pass_again(1) [OF assms(1)] show ?thesis by fastforce
  next
    case (P_Finish r)
    with Suc.prems p have r: "p = P_Finish (Inr (s, t'))" "st1 = st'" by simp_all
    from p show ?thesis
    proof (cases rule: connect_pass_cases)
      case (2 w s')
      have "agrees (prepare t (st\<lparr>ss_world := w\<rparr>)) {}" by (simp add: agrees_def)
      with run_honest [OF _ 2(1)] assms(1) obtain seen where "honest_result t seen (Inr s' :: connect_error + 'b)" "agrees st1 seen"
        unfolding engine_ok_def by blast
      with agrees_all_pinned [of t seen s' st1] 2(2) r show ?thesis by simp
    next
      case (3 w e st2)
      with after_error_no_session [OF 3(2)] r(1) show ?thesis by blast
    qed (use r in simp)
  qed
qed simp

lemma connect_all_pinned:
  assumes "engine_ok E" "connect E query (state_new w) = (Inr (s, t), st)"
  shows "all_pinned t st"
proof -
  obtain r st1 where c1: "connect_within E query round_limit (state_new w) = (r, st1)" by fastforce
  obtain g st2 where c2: "call (se_cancelled E) st1 = (g, st2)" by fastforce
  from assms(2) c1 c2 have r: "r = Inr (s, t)" "st = st2" by (auto simp: connect_def split: if_splits sum.splits prod.splits)
  from c1 r(1) obtain n t' st0 where "connect_loop E n t' st0 = (Inr (s, t), st1)"
    by (auto simp: connect_within_def split: prod.splits if_splits sum.splits)
  from connect_loop_all_pinned [OF assms(1) this] call_world [OF c2] r(2) show ?thesis by (auto simp: all_pinned_def)
qed

lemma state_new_ok: "prompts_ok (state_new w) i" "trust_ok (state_new w)"
  by (simp_all add: prompts_ok_def trust_ok_def state_new_def Let_def)

section \<open>What holds of every connection\<close>

text \<open>C23. A session opens only to servers whose keys were trusted: when \<open>connect\<close> returns a session, every hop of its target
  presented a key that the policy found pinned, and the pin with that fingerprint came from the saved host, from the
  record of another connection, or from the person, who answered the question about exactly this key with its
  fingerprint before the directory stored it.\<close>

theorem session_only_to_trusted:
  assumes "engine_ok E" "connect E query (state_new w) = (Inr (s, t), st)" "h \<in> set t"
  shows "\<exists>key pin. EV_Checked (hop_reference h) key V_Pinned \<in> set (ss_log st) \<and> sk_fingerprint pin = sk_fingerprint key
     \<and> trusted (set (ss_log st)) (h_id h) pin"
proof -
  have "trust_ok st" using trust.connect_keeps [OF assms(2) state_new_ok(2)] .
  with connect_all_pinned [OF assms(1,2)] assms(3) show ?thesis unfolding all_pinned_def trust_ok_def by blast
qed

text \<open>C24. The person is not worn down: during one connection, however often it is retried and whatever the servers ask, the
  password of a host is asked for at most three times and its host key at most once, and the directory stores a key
  only after the person confirmed its fingerprint.\<close>

theorem person_asked_boundedly:
  assumes "connect E query (state_new w) = (r, st)"
  shows "password_questions (ss_log st) i \<le> PASSWORD_PROMPTS \<and> host_key_questions (ss_log st) i \<le> 1
     \<and> (EV_Pinned hop key \<in> set (ss_log st) \<longrightarrow> EV_Confirmed hop key (Some (sk_fingerprint key)) \<in> set (ss_log st))"
proof (intro conjI impI)
  have t: "trust_ok st" using trust.connect_keeps [OF assms state_new_ok(2)] .
  then have "host_key_questions (ss_log st) i \<le> (if i \<in> ss_asked_host_key st then 1 else 0)" by (simp add: trust_ok_def)
  then show "host_key_questions (ss_log st) i \<le> 1" by (auto split: if_splits)
  show "password_questions (ss_log st) i \<le> PASSWORD_PROMPTS" using prompts.connect_keeps [OF assms allI [OF state_new_ok(1)]] by simp
  from t show "EV_Pinned hop key \<in> set (ss_log st) \<Longrightarrow> EV_Confirmed hop key (Some (sk_fingerprint key)) \<in> set (ss_log st)"
    by (simp add: trust_ok_def)
qed

section \<open>A small world\<close>

text \<open>An engine that checks the key of every hop and logs in without asking, a directory with one host whose key is not known
  yet, and a person who reads the question and confirms the fingerprint in it.\<close>

definition small_key :: host_key where
  "small_key = \<lparr>sk_algorithm = lit ''ssh-ed25519'', sk_public_key = [1], sk_fingerprint = lit ''SHA256:a''\<rparr>"

definition small_hop :: hop where
  "small_hop = hop_new (lit ''1'') (lit ''web'') (lit ''10.0.0.1'') 22 (lit ''root'') AM_Password"

fun small_connect :: "target \<Rightarrow> unit \<Rightarrow> (unit, unit) dialogue" where
  "small_connect [] w = D_Done (Inr ()) w"
| "small_connect (h # t) w =
     D_Check (hop_reference h) small_key (\<lambda>v. case v of
        V_Pinned \<Rightarrow> small_connect t w
      | V_Unknown \<Rightarrow> D_Done (Inl (CE_HostKeyUnknown (hop_reference h) small_key)) w
      | V_Mismatch p \<Rightarrow> D_Done (Inl (CE_HostKeyMismatch (hop_reference h) small_key p)) w)"

definition small_env :: "(unit, unit, unit, unit) session_env" where
  "small_env =
     \<lparr>se_connect = small_connect, se_close = \<lambda>_ w. w, se_resolve = \<lambda>_ w. (Inr [small_hop], w), se_pinned_for = \<lambda>_ w. (Inr None, w),
      se_pin_confirmed = \<lambda>_ _ _ check w. check w, se_password_account = Pair, se_key = \<lambda>_ w. (None, w),
      se_private_text = \<lambda>_ w. (Inr None, w), se_public_key_data = \<lambda>_. None, se_private_key_data = \<lambda>_. None,
      se_open = \<lambda>_ _. Inl OE_Unreadable, se_material_key = \<lambda>_. (), se_sign = \<lambda>_ _ _ w. (Inr [], w),
      se_keychain_get = \<lambda>_ w. (Inr None, w), se_keychain_delete = \<lambda>_ w. (Inr (), w), se_ask_at = \<lambda>_ _ _ _ _ w. (RP_Cancelled, w),
      se_host_key_notice = \<lambda>_ w. w, se_banner = \<lambda>_ w. w, se_confirm = \<lambda>q w. (Some (hq_fingerprint q), w),
      se_cancelled = \<lambda>w. (False, w), se_now = \<lambda>w. (0, w), se_instant_max = 0\<rparr>"

lemma small_env_ok: "engine_ok small_env"
proof -
  have "honest t (small_connect u w) seen"
    if "set u \<subseteq> set t" "\<forall>h \<in> set t - set u. \<exists>key. (hop_reference h, key, V_Pinned) \<in> seen" for t u w seen
    using that
  proof (induction u arbitrary: seen)
    case (Cons h u)
    then have "honest t (small_connect u w) (insert (hop_reference h, small_key, V_Pinned) seen)" by (intro Cons.IH) auto
    with Cons.prems(1) show ?case by (auto split: host_key_verdict.splits)
  qed auto
  then show ?thesis by (simp add: engine_ok_def small_env_def)
qed

abbreviation small_host :: hop_ref where
  "small_host \<equiv> hop_reference small_hop"

definition small_end :: "(unit, unit) session_state" where
  "small_end = (state_new ())\<lparr>ss_pins := [lit ''1'' \<mapsto> small_key], ss_password_first := [lit ''1'' \<mapsto> prompt_wait small_hop],
      ss_asked_host_key := {lit ''1''},
      ss_log := [EV_Resolved [small_hop], EV_Checked small_host small_key V_Unknown,
        EV_Confirmed small_host small_key (Some (sk_fingerprint small_key)), EV_Pinned small_host small_key,
        EV_Checked small_host small_key V_Pinned]\<rparr>"

lemma small_run: "connect small_env query (state_new ()) = (Inr ((), [small_hop\<lparr>h_pinned := Some small_key\<rparr>]), small_end)"
proof -
  have [simp]: "hf_id small_host = lit ''1''" "h_id small_hop = lit ''1''" "h_auth small_hop = AM_Password" "h_pinned small_hop = None"
    "hop_reference (small_hop\<lparr>h_pinned := x\<rparr>) = small_host" "prompt_wait (small_hop\<lparr>h_pinned := x\<rparr>) = prompt_wait small_hop" for x
    by (simp_all add: small_hop_def hop_new_def hop_reference_def prompt_wait_def)
  have env: "se_connect small_env = small_connect" "se_resolve small_env = (\<lambda>_ w. (Inr [small_hop], w))"
    "se_pinned_for small_env = (\<lambda>_ w. (Inr None, w))" "se_pin_confirmed small_env = (\<lambda>_ _ _ check w. check w)"
    "se_host_key_notice small_env = (\<lambda>_ w. w)" "se_confirm small_env = (\<lambda>q w. (Some (hq_fingerprint q), w))"
    "se_cancelled small_env = (\<lambda>w. (False, w))"
    by (simp_all add: small_env_def)
  show ?thesis
    by (simp add: connect_def connect_within_def small_end_def env call_def unlock_hop_def state_new_def log_event_def round_limit_def
      ROUNDS_PER_HOP_def PASSWORD_PROMPTS_def eval_nat_numeral connect_pass_def prepare_def pins_of_target_def policy_check_def after_error_def
      abandoned_hop_def confirm_def confirm_key_def ask_host_key_def Let_def again_or_def pin_policy_def)
qed

theorem round_limit_never_reached_witness:
  "connect_within small_env (HQ_Alias (lit ''web'')) (\<lambda>t. round_limit t + 5) (state_new ())
   = connect_within small_env (HQ_Alias (lit ''web'')) round_limit (state_new ())"
  by (rule round_limit_never_reached [OF small_env_ok])

theorem session_only_to_trusted_witness:
  "\<exists>key pin. EV_Checked (hop_reference (small_hop\<lparr>h_pinned := Some small_key\<rparr>)) key V_Pinned \<in> set (ss_log small_end)
     \<and> sk_fingerprint pin = sk_fingerprint key \<and> trusted (set (ss_log small_end)) (h_id (small_hop\<lparr>h_pinned := Some small_key\<rparr>)) pin"
  by (rule session_only_to_trusted [OF small_env_ok small_run]) simp

theorem person_asked_boundedly_witness:
  "password_questions (ss_log small_end) (lit ''1'') \<le> PASSWORD_PROMPTS \<and> host_key_questions (ss_log small_end) (lit ''1'') \<le> 1
   \<and> EV_Confirmed small_host small_key (Some (sk_fingerprint small_key)) \<in> set (ss_log small_end)"
proof -
  have "EV_Pinned small_host small_key \<in> set (ss_log small_end)" by (simp add: small_end_def)
  with person_asked_boundedly [OF small_run, of "lit ''1''" small_host small_key] show ?thesis by blast
qed

section \<open>What a server may write on the terminal\<close>

definition harmless :: "uchar \<Rightarrow> bool" where
  "harmless c \<longleftrightarrow> c = 10 \<or> c = 9 \<or> \<not> is_control c \<and> \<not> is_deceptive_format c"

lemma harmless_printable: "c \<in> set (printable s) \<Longrightarrow> harmless c"
  by (auto simp: printable_def harmless_def is_control_def is_deceptive_format_def split: if_splits)

lemma label_plain: "c \<in> set (label s) \<Longrightarrow> harmless c \<and> c \<noteq> 10 \<and> c \<noteq> 9"
  by (auto simp: label_def harmless_def is_control_def is_deceptive_format_def dest: harmless_printable split: if_splits)

lemma prompt_prefix_plain: "c \<in> set (prompt_prefix hop) \<Longrightarrow> harmless c \<and> c \<noteq> 10"
proof -
  have "\<forall>c \<in> set (lit ''('' @ lit ''@'' @ lit '') ''). harmless c \<and> c \<noteq> 10"
    by (simp add: lit_def harmless_def is_control_def is_deceptive_format_def)
  then show "c \<in> set (prompt_prefix hop) \<Longrightarrow> ?thesis" using label_plain by (auto simp: prompt_prefix_def)
qed

lemma set_join: "set (join sep xs) \<subseteq> set sep \<union> (\<Union>x \<in> set xs. set x)"
  by (induction sep xs rule: join.induct) auto

lemma join_snoc_Nil: "xs \<noteq> [] \<Longrightarrow> join sep (xs @ [[]]) = join sep xs @ sep"
  by (induction sep xs rule: join.induct) auto

lemma set_split_on: "line \<in> set (split_on c s) \<Longrightarrow> set line \<subseteq> set s"
  by (induction s arbitrary: line) (fastforce split: if_splits list.splits)+

lemma prompt_ends_with_newline: "ends_with s [10] \<longleftrightarrow> (\<exists>p. s = p @ [10])"
  by (cases s rule: rev_cases) (auto simp: ends_with_def)

text \<open>A server cannot pass its prompt off as one of Lunport's: whatever text it sends, every line that reaches the terminal
  begins with the user and host it comes from, the lines without their marks are the server's text with the
  characters that steer a terminal or reorder text replaced, and no such character is left.\<close>

theorem shown_prompt_marked:
  "\<exists>lines. lines \<noteq> [] \<and> split_on 10 (shown_prompt hop t) = map (\<lambda>line. prompt_prefix hop @ line) lines @ (if ends_with (printable t) [10] then [[]] else [])
     \<and> printable t = join [10] lines @ (if ends_with (printable t) [10] then [10] else [])
     \<and> (\<forall>c \<in> set (shown_prompt hop t). c = 10 \<or> c = 9 \<or> \<not> is_control c \<and> \<not> is_deceptive_format c)"
proof -
  define body where "body = (if ends_with (printable t) [10] then butlast (printable t) else printable t)"
  let ?tail = "if ends_with (printable t) [10] then [10] else []"
  let ?marked = "map (\<lambda>line. prompt_prefix hop @ line) (split_on 10 body)"
  have body: "printable t = body @ ?tail" by (auto simp: body_def prompt_ends_with_newline)
  have shown: "shown_prompt hop t = join [10] ?marked @ ?tail" by (simp add: shown_prompt_def body_def Let_def)
  have no: "10 \<notin> set line" if "line \<in> set ?marked" for line
    using that prompt_prefix_plain split_on_no_sep [of _ 10 body] by fastforce
  have "split_on 10 (join [10] ?marked) = ?marked" using no by (intro split_on_join) auto
  moreover have "split_on 10 (join [10] ?marked @ [10]) = ?marked @ [[]]"
  proof -
    have "join [10] ?marked @ [10] = join [10] (?marked @ [[]])" by (rule join_snoc_Nil [symmetric]) simp
    moreover have "split_on 10 (join [10] (?marked @ [[]])) = ?marked @ [[]]" using no by (intro split_on_join) auto
    ultimately show ?thesis by simp
  qed
  ultimately have "split_on 10 (shown_prompt hop t) = ?marked @ (if ends_with (printable t) [10] then [[]] else [])" by (simp add: shown)
  moreover have "harmless c" if "c \<in> set (shown_prompt hop t)" for c
  proof -
    have "set body \<subseteq> set (printable t)" using body by (metis Un_upper1 set_append)
    then have "harmless d" if "d \<in> set line" "line \<in> set (split_on 10 body)" for d line
      using that set_split_on [of _ 10 body] harmless_printable by blast
    moreover have "c = 10 \<or> c \<in> set (prompt_prefix hop) \<or> (\<exists>line \<in> set (split_on 10 body). c \<in> set line)"
      using that set_join [of "[10]" ?marked] unfolding shown by (auto split: if_splits)
    ultimately show ?thesis using prompt_prefix_plain by (auto simp: harmless_def [of 10])
  qed
  ultimately show ?thesis using body join_split_on [of 10 body] by (intro exI [of _ "split_on 10 body"]) (auto simp: harmless_def)
qed

theorem shown_prompt_marked_witness:
  "\<exists>lines. lines \<noteq> [] \<and> split_on 10 (shown_prompt small_host (lit ''root'' @ [27, 10] @ lit ''Password:''))
     = map (\<lambda>line. prompt_prefix small_host @ line) lines @ (if ends_with (printable (lit ''root'' @ [27, 10] @ lit ''Password:'')) [10] then [[]] else [])"
  using shown_prompt_marked [of small_host "lit ''root'' @ [27, 10] @ lit ''Password:''"] by blast

end
