(* ===== verification/Verify_Properties.thy ===== *)
theory Verify_Properties
  imports Session_Verify Connect_Properties
begin

text \<open>
  Verifying a server asks for no login at the destination and reports only keys that were trusted.
\<close>

section \<open>Worlds that every call keeps\<close>

text \<open>A property of the world that every call of the environment keeps, apart from the engine.\<close>

locale world_invariant =
  fixes E :: "('w, 's, 'm, 'k) session_env" and P :: "'w \<Rightarrow> bool"
  assumes resolve_P: "P w \<Longrightarrow> P (snd (se_resolve E q w))"
    and pinned_for_P: "P w \<Longrightarrow> P (snd (se_pinned_for E hop w))"
    and pin_confirmed_P: "P w \<Longrightarrow> P (snd (se_pin_confirmed E hop old key guard w))"
    and password_account_P: "P w \<Longrightarrow> P (snd (se_password_account E i w))"
    and key_P: "P w \<Longrightarrow> P (snd (se_key E kid w))"
    and private_text_P: "P w \<Longrightarrow> P (snd (se_private_text E kid w))"
    and sign_P: "P w \<Longrightarrow> P (snd (se_sign E m data flags w))"
    and keychain_get_P: "P w \<Longrightarrow> P (snd (se_keychain_get E a w))"
    and keychain_delete_P: "P w \<Longrightarrow> P (snd (se_keychain_delete E a w))"
    and ask_P: "P w \<Longrightarrow> P (snd (se_ask_at E hop kind t echo deadline w))"
    and notice_P: "P w \<Longrightarrow> P (se_host_key_notice E t w)"
    and banner_P: "P w \<Longrightarrow> P (se_banner E t w)"
    and confirm_P: "P w \<Longrightarrow> P (snd (se_confirm E question w))"
    and cancelled_P: "P w \<Longrightarrow> P (snd (se_cancelled E w))"
    and now_P: "P w \<Longrightarrow> P (snd (se_now E w))"
begin

abbreviation ok :: "('w, 'n) session_state \<Rightarrow> bool" where
  "ok st \<equiv> P (ss_world st)"

lemma call_ok: "call f st = (a, st') \<Longrightarrow> ok st \<Longrightarrow> (\<And>w. P w \<Longrightarrow> P (snd (f w))) \<Longrightarrow> ok st'"
  by (auto simp: call_def split: prod.splits) (metis snd_conv)

lemmas calls_ok = call_ok [OF _ _ resolve_P] call_ok [OF _ _ pinned_for_P] call_ok [OF _ _ pin_confirmed_P] call_ok [OF _ _ password_account_P]
  call_ok [OF _ _ key_P] call_ok [OF _ _ private_text_P] call_ok [OF _ _ sign_P] call_ok [OF _ _ keychain_get_P] call_ok [OF _ _ keychain_delete_P]
  call_ok [OF _ _ confirm_P] call_ok [OF _ _ cancelled_P] call_ok [OF _ _ now_P]

lemma update_ok [simp]:
  "ok (log_event ev st) = ok st" "ok (gave i src st) = ok st" "ok (set_typed i pw st) = ok st" "ok (forget_typed i st) = ok st"
  "ok (cancel i st) = ok st" "ok (pin_policy i key st) = ok st" "ok (prepare t st) = ok st"
  by (simp_all add: session_updates prepare_def)

lemma deadline_ok: "deadline_after E wait st = (d, st') \<Longrightarrow> ok st \<Longrightarrow> ok st'"
  by (auto simp: deadline_after_def split: prod.splits dest: calls_ok)

lemma ask_at_ok: "ask_at E hop kind q echo dl st = (r, st') \<Longrightarrow> ok st \<Longrightarrow> ok st'"
  unfolding ask_at_def by (erule call_ok) (simp_all add: ask_P)

lemma ask_passphrase_ok: "ask_passphrase E h key t q n st = (r, st') \<Longrightarrow> ok st \<Longrightarrow> ok st'"
proof (induction n arbitrary: q st)
  case (Suc n)
  obtain d st1 where d: "deadline_after E (prompt_wait h) st = (d, st1)" by fastforce
  obtain a st2 where a: "ask_at E (hop_reference h) QK_Passphrase q False (Some d) st1 = (a, st2)" by fastforce
  have "ok st2" using ask_at_ok [OF a] deadline_ok [OF d] Suc.prems(2) by simp
  with Suc d a show ?case by (cases a) (auto split: sum.splits open_error.splits)
qed simp

lemma unlock_ok: "unlock E t st = (r, st') \<Longrightarrow> ok st \<Longrightarrow> ok st'"
proof (induction t arbitrary: st)
  case (Cons h t)
  have rem: "ok st2" if "remembered E i x st1 = (m, st2)" "ok st1" for i x st1 m st2
  proof -
    obtain g st0 where g: "call (se_keychain_get E (passphrase_account i)) st1 = (g, st0)" by fastforce
    have "ok st0" using calls_ok(8) [OF g that(2)] .
    then have "ok (snd (call (se_keychain_delete E (passphrase_account i)) st0))"
      by (rule calls_ok(9) [OF surjective_pairing])
    with \<open>ok st0\<close> that(1) g show ?thesis by (auto simp: remembered_def Let_def split: sum.splits option.splits)
  qed
  have op: "ok st2" if "open_key E h i key x st1 = (m, st2)" "ok st1" for i key x st1 m st2
    using that by (auto simp: open_key_def split: prod.splits sum.splits option.splits open_error.splits dest: rem intro: ask_passphrase_ok)
  have un: "ok st2" if "unlock_hop E h st1 = (m, st2)" "ok st1" for st1 m st2
    using that unfolding unlock_hop_def unlock_key_def
    by (auto split: prod.splits sum.splits option.splits auth_method.splits if_splits dest!: calls_ok(5,6) op)
  obtain u st1 where u: "unlock_hop E h st = (u, st1)" by fastforce
  with un [OF u] Cons show ?case by (auto split: sum.splits)
qed simp

lemma auth_ok:
  "auth_sign E i data hash st = (s, st') \<Longrightarrow> ok st \<Longrightarrow> ok st'"
  "auth_password E hop st = (r, st') \<Longrightarrow> ok st \<Longrightarrow> ok st'"
proof -
  show "auth_sign E i data hash st = (s, st') \<Longrightarrow> ok st \<Longrightarrow> ok st'"
    by (auto simp: auth_sign_def split: option.splits prod.splits dest: calls_ok)
  have asked: "ok st2" if "ask_password E hop st1 = (r, st2)" "ok st1" for st1 st2 r
    using that by (auto simp: ask_password_def split: option.splits prod.splits reply.splits if_splits dest!: deadline_ok ask_at_ok)
  show "auth_password E hop st = (r, st') \<Longrightarrow> ok st \<Longrightarrow> ok st'"
    by (auto simp: auth_password_def split: option.splits prod.splits sum.splits if_splits dest: calls_ok asked)
qed

lemma interactive_ok: "auth_interactive E hop ps dl st = (r, st') \<Longrightarrow> ok st \<Longrightarrow> ok st'"
proof -
  have "ask_prompts E hop dl ps as st = (r, st') \<Longrightarrow> ok st \<Longrightarrow> ok st'" for as
  proof (induction ps arbitrary: as st)
    case (Cons p ps)
    obtain a st1 where a: "ask_at E hop QK_Interactive (shown_prompt hop (p_text p)) (p_echo p) (Some dl) st = (a, st1)" by fastforce
    with ask_at_ok [OF a] Cons show ?case by (cases a) auto
  qed simp
  then show "auth_interactive E hop ps dl st = (r, st') \<Longrightarrow> ok st \<Longrightarrow> ok st'" by (auto simp: auth_interactive_def split: if_splits)
qed

lemma ask_host_key_ok:
  assumes "ask_host_key E t hop key pinned changed st = (r, st')" "ok st"
  shows "ok st'"
proof -
  obtain g1 st1 where c1: "call (se_cancelled E) st = (g1, st1)" by fastforce
  define st2 where "st2 = st1\<lparr>ss_world := se_host_key_notice E
     (lit ''Waiting for you to confirm '' @ label (hf_alias hop) @ [39] @ lit ''s host key in Lunport.'') (ss_world st1)\<rparr>"
  define q where "q = \<lparr>hq_alias = hf_alias hop, hq_hostname = hf_hostname hop, hq_port = hf_port hop,
      hq_algorithm = sk_algorithm key, hq_fingerprint = sk_fingerprint key, hq_changed = changed\<rparr>"
  obtain x st3 where c3: "call (se_confirm E q) st2 = (x, st3)" by fastforce
  obtain g2 st4 where c4: "call (se_cancelled E) (log_event (EV_Confirmed hop key x) st3) = (g2, st4)" by fastforce
  obtain p st5 where c5: "call (se_pin_confirmed E hop pinned key (\<lambda>w. (Inr (), w))) st4 = (p, st5)" by fastforce
  have ok1: "ok st1" using calls_ok(11) [OF c1 assms(2)] .
  then have "ok st3" using calls_ok(10) [OF c3] notice_P by (simp add: st2_def)
  then have ok4: "ok st4" using calls_ok(11) [OF c4] by simp
  then have ok5: "ok st5" using calls_ok(3) [OF c5] by simp
  show ?thesis
  proof (cases g1)
    case True
    with assms(1) c1 ok1 show ?thesis by (simp add: ask_host_key_def)
  next
    case False
    with assms(1) have "(r, st') =
      (if g2 then (Inl failure_cancelled, st4)
       else if x \<noteq> Some (sk_fingerprint key)
       then (Inl (failure_of (case pinned of None \<Rightarrow> CE_HostKeyUnknown hop key | Some p \<Rightarrow> CE_HostKeyMismatch hop key p) t), st4)
       else (case p of Inl e \<Rightarrow> (Inl (failure_at (Some hop) t KIND_HOST_KEY (directory_error_text e)), st5)
         | Inr _ \<Rightarrow> (Inr (update_hop (hf_id hop) (\<lambda>h. h\<lparr>h_pinned := Some key\<rparr>) t), pin_policy (hf_id hop) key (log_event (EV_Pinned hop key) st5))))"
      unfolding ask_host_key_def c1
      by (simp only: prod.case if_False Let_def st2_def [symmetric] q_def [symmetric] c3 c4 c5)
    with ok4 ok5 show ?thesis by (auto split: if_splits sum.splits)
  qed
qed

lemma confirm_ok:
  assumes "confirm E t hop key pinned st = (r, st')" "ok st"
  shows "ok st'"
proof -
  have keyed: "ok st2" if "confirm_key E t hop key pinned st1 = (r, st2)" "ok st1" for st1 st2 pinned
  proof -
    have "ok st4" if "pinned_summary_of E t hop p st3 = (x, st4)" "ok st3" for p x st3 st4
      using that by (auto simp: pinned_summary_of_def split: prod.splits sum.splits option.splits if_splits dest: calls_ok)
    with that ask_host_key_ok show ?thesis
      unfolding confirm_key_def Let_def by (fastforce split: if_splits option.splits prod.splits sum.splits)
  qed
  show ?thesis
    using assms keyed unfolding confirm_def by (fastforce split: if_splits option.splits prod.splits sum.splits dest: calls_ok(2))
qed

lemma retry_password_ok:
  assumes "retry_password E t hop tried reason wanted st = (p, st')" "ok st"
  shows "ok st'"
proof -
  obtain now st1 where n: "call (se_now E) (forget_typed (hf_id hop)
      (st\<lparr>ss_passwords_typed := (ss_passwords_typed st)(hf_id hop := Some (typed_count (hf_id hop) st))\<rparr>)) = (now, st1)" by fastforce
  have ok1: "ok st1" using calls_ok(12) [OF n] assms(2) by (simp add: forget_typed_def)
  have asked: "ok st3" if "ask_at E hop QK_Password q False dl (st1\<lparr>ss_passwords_typed := f\<rparr>) = (a, st3)" for q dl f a st3
    using ask_at_ok [OF that] ok1 by simp
  show ?thesis
    using assms n unfolding retry_password_def Let_def
    by (auto simp: forget_typed_def set_typed_def split: if_splits option.splits prod.splits reply.splits dest!: asked)
qed

lemma after_error_ok: "after_error E t e st = (p, st') \<Longrightarrow> ok st \<Longrightarrow> ok st'"
  using confirm_ok retry_password_ok
  by (auto simp: after_error_def again_or_def split: option.splits connect_error.splits prod.splits sum.splits if_splits)

end

section \<open>What the probe has seen\<close>

text \<open>Nothing but the engine of a probe touches what it has seen.\<close>

interpretation marked: world_invariant "probe_env E D q expected" "\<lambda>W. snd W = c" for E D q expected c
  by unfold_locales (simp_all add: probe_env_def Let_def on_world_def split: prod.splits)

text \<open>Questions for a login at the destination.\<close>

fun asks_login :: "host_id \<Rightarrow> session_event \<Rightarrow> bool" where
  "asks_login i (EV_Asked hop kind t) = (hf_id hop = i \<and> kind \<noteq> QK_Passphrase)"
| "asks_login i _ = False"

definition no_login_at :: "host_id \<Rightarrow> ('w, 'm) session_state \<Rightarrow> bool" where
  "no_login_at i st \<longleftrightarrow> (\<forall>ev \<in> set (ss_log st). \<not> asks_login i ev)"

lemma no_login_log: "no_login_at i st \<Longrightarrow> ss_log st' = ss_log st @ evs \<Longrightarrow> \<forall>ev \<in> set evs. \<not> asks_login i ev \<Longrightarrow> no_login_at i st'"
  by (auto simp: no_login_at_def)

lemma no_login_ask: "ask_at E hop kind q echo dl st = (r, st') \<Longrightarrow> no_login_at i st \<Longrightarrow> hf_id hop \<noteq> i \<or> kind = QK_Passphrase \<Longrightarrow> no_login_at i st'"
  by (drule ask_at_log) (auto elim!: no_login_log)

lemma no_login_auth:
  assumes "no_login_at i st"
  shows "auth_sign E kid data hash st = (s, st') \<Longrightarrow> no_login_at i st'"
    "auth_password E hop st = (r, st') \<Longrightarrow> hf_id hop \<noteq> i \<Longrightarrow> no_login_at i st'"
    "auth_interactive E hop ps dl st = (q, st') \<Longrightarrow> hf_id hop \<noteq> i \<Longrightarrow> no_login_at i st'"
proof -
  show "auth_sign E kid data hash st = (s, st') \<Longrightarrow> no_login_at i st'"
    using assms by (auto simp: auth_sign_def no_login_at_def split: option.splits prod.splits dest!: call_world)
  have asked: "no_login_at i st2" if "ask_password E hop st1 = (r, st2)" "no_login_at i st1" "hf_id hop \<noteq> i" for st1 st2
    using that(1) by (cases rule: ask_password_cases) (use that(2,3) in \<open>simp_all add: no_login_at_def session_updates\<close>)
  show "no_login_at i st'" if "auth_password E hop st = (r, st')" "hf_id hop \<noteq> i"
    using that(1)
  proof (cases rule: auth_password_cases)
    case (3 w)
    with asked [OF 3(2)] assms that(2) show ?thesis by (simp add: no_login_at_def)
  qed (use assms in \<open>simp_all add: no_login_at_def session_updates\<close>)
  have "ask_prompts E hop dl ps as st = (q, st') \<Longrightarrow> hf_id hop \<noteq> i \<Longrightarrow> no_login_at i st \<Longrightarrow> no_login_at i st'" for as
  proof (induction ps arbitrary: as st)
    case (Cons p ps)
    obtain a st1 where a: "ask_at E hop QK_Interactive (shown_prompt hop (p_text p)) (p_echo p) (Some dl) st = (a, st1)" by fastforce
    have n: "no_login_at i st1" using no_login_ask [OF a Cons.prems(3)] Cons.prems(2) by simp
    then have c: "no_login_at i (cancel (hf_id hop) st1)" by (simp add: no_login_at_def cancel_def)
    show ?case
    proof (cases a)
      case (RP_Answer x)
      with Cons.IH [OF _ Cons.prems(2) n, of "as @ [x]"] Cons.prems(1) a show ?thesis by simp
    qed (use Cons.prems(1) a c in simp_all)
  qed simp
  then show "auth_interactive E hop ps dl st = (q, st') \<Longrightarrow> hf_id hop \<noteq> i \<Longrightarrow> no_login_at i st'"
    using assms by (auto simp: auth_interactive_def split: if_splits)
qed

text \<open>One call of the wrapped engine: it opens no session, it asks for no login at the destination, and when it says that the
  key was verified the policy had found exactly that key pinned.\<close>

definition seen_ok :: "host_id \<Rightarrow> ('w, 'm) session_state \<Rightarrow> seen_key \<Rightarrow> bool" where
  "seen_ok i st seen \<longleftrightarrow> (\<forall>hop key. seen = Some (hop, key) \<longrightarrow> hf_id hop = i \<and> EV_Checked hop key V_Pinned \<in> set (ss_log st))"

lemma seen_ok_mono: "seen_ok i st seen \<Longrightarrow> set (ss_log st) \<subseteq> set (ss_log st') \<Longrightarrow> seen_ok i st' seen"
  by (auto simp: seen_ok_def)

lemma run_probe_seen:
  fixes st :: "('w probe_world, 'm) session_state" and E :: "('w, 's, 'm, 'k) session_env"
  assumes "run_dialogue (probe_env E D q expected) (probe_dialogue E i d verified completed) st = (r, st')"
    "seen_ok i st verified" "seen_ok i st completed"
  shows "seen_ok i st' (snd (ss_world st')) \<and> \<not> (\<exists>s. r = Inr s)"
  using assms
proof (induction d arbitrary: verified completed st)
  case (D_Done r' w)
  then show ?case
    by (auto simp: probe_result_def seen_ok_def split: sum.splits connect_error.splits if_splits)
next
  case (D_Check hop key k)
  let ?v = "policy_check (ss_pins st) hop key"
  let ?st = "log_event (EV_Checked hop key ?v) st"
  have sub: "set (ss_log st) \<subseteq> set (ss_log ?st)" by (auto simp: log_event_def)
  have c: "seen_ok i ?st completed" "seen_ok i ?st verified" using seen_ok_mono [OF _ sub] D_Check.prems(2,3) by auto
  show ?case
  proof (cases "hf_id hop = i \<and> ?v = V_Pinned")
    case True
    then have "seen_ok i ?st (Some (hop, key))" by (simp add: seen_ok_def log_event_def)
    with D_Check.IH [of "k V_Unknown" "Some (hop, key)" completed ?st] c D_Check.prems(1) True show ?thesis by (simp add: Let_def)
  next
    case False
    with D_Check.IH [of "k ?v" verified completed ?st] c D_Check.prems(1) show ?thesis by (auto simp: Let_def)
  qed
next
  case (D_PublicKey kid k)
  from D_PublicKey.IH [of "k (auth_public_key kid st)" verified completed st] D_PublicKey.prems show ?case by simp
next
  case (D_Sign kid data hash w k)
  obtain a st1 where a: "auth_sign (probe_env E D q expected) kid data hash (st\<lparr>ss_world := (w, completed)\<rparr>) = (a, st1)" by fastforce
  have m: "snd (ss_world st1) = completed" using marked.auth_ok(1) [OF a] by simp
  have sub: "set (ss_log st) \<subseteq> set (ss_log st1)" using login_only_auth(1) [OF a] by (simp add: login_only_def)
  show ?case
    using D_Sign.IH [of "k a" "k a (fst (ss_world st1))" verified completed st1] D_Sign.prems(1) a m
      seen_ok_mono [OF D_Sign.prems(2) sub] seen_ok_mono [OF D_Sign.prems(3) sub] by simp
next
  case (D_Password hop w k)
  show ?case
  proof (cases "hf_id hop = i")
    case True
    with D_Password.IH [of "k None" "k None w" verified completed st] D_Password.prems show ?thesis by simp
  next
    case False
    obtain a st1 where a: "auth_password (probe_env E D q expected) hop (st\<lparr>ss_world := (w, completed)\<rparr>) = (a, st1)" by fastforce
    have m: "snd (ss_world st1) = completed" using marked.auth_ok(2) [OF a] by simp
    have sub: "set (ss_log st) \<subseteq> set (ss_log st1)" using login_only_auth(2) [OF a] by (simp add: login_only_def)
    show ?thesis
      using D_Password.IH [of "k a" "k a (fst (ss_world st1))" verified completed st1] D_Password.prems(1) a m False
        seen_ok_mono [OF D_Password.prems(2) sub] seen_ok_mono [OF D_Password.prems(3) sub] by simp
  qed
next
  case (D_Interactive hop ps dl w k)
  show ?case
  proof (cases "hf_id hop = i")
    case True
    with D_Interactive.IH [of "k None" "k None w" verified completed st] D_Interactive.prems show ?thesis by simp
  next
    case False
    obtain a st1 where a: "auth_interactive (probe_env E D q expected) hop ps dl (st\<lparr>ss_world := (w, completed)\<rparr>) = (a, st1)" by fastforce
    have m: "snd (ss_world st1) = completed" using marked.interactive_ok [OF a] by simp
    have sub: "set (ss_log st) \<subseteq> set (ss_log st1)" using login_only_auth(3) [OF a] by (simp add: login_only_def)
    show ?thesis
      using D_Interactive.IH [of "k a" "k a (fst (ss_world st1))" verified completed st1] D_Interactive.prems(1) a m False
        seen_ok_mono [OF D_Interactive.prems(2) sub] seen_ok_mono [OF D_Interactive.prems(3) sub] by simp
  qed
next
  case (D_Banner hop b w k)
  define st1 where "st1 = auth_banner (probe_env E D q expected) b (st\<lparr>ss_world := (w, completed)\<rparr>)"
  have b: "ss_log st1 = ss_log st" "snd (ss_world st1) = completed" by (simp_all add: st1_def auth_banner_def probe_env_def Let_def)
  have run: "run_dialogue (probe_env E D q expected) (probe_dialogue E i (k (fst (ss_world st1))) verified (snd (ss_world st1))) st1 = (r, st')"
    using D_Banner.prems(1) by (simp add: Let_def flip: st1_def)
  have "seen_ok i st1 verified" "seen_ok i st1 completed" using D_Banner.prems(2,3) seen_ok_mono [of i st _ st1] b(1) by auto
  with D_Banner.IH [of "k (fst (ss_world st1))" verified completed st1] run b(2) show ?case by simp
qed

text \<open>The engine is never told that the destination's key is pinned, so it never gets to a login there.\<close>

definition unpinned_at :: "host_id \<Rightarrow> (hop_ref \<times> host_key \<times> host_key_verdict) set \<Rightarrow> bool" where
  "unpinned_at i seen \<longleftrightarrow> (\<forall>hop key. (hop, key, V_Pinned) \<in> seen \<longrightarrow> hf_id hop \<noteq> i)"

fun login_failed_at :: "host_id \<Rightarrow> (connect_error + 's) \<Rightarrow> bool" where
  "login_failed_at i (Inl (CE_AuthFailed hop _ _ _)) = (hf_id hop = i)"
| "login_failed_at i _ = False"

lemma run_probe_no_login:
  fixes st :: "('w probe_world, 'm) session_state" and E :: "('w, 's, 'm, 'k) session_env"
  assumes "run_dialogue Z (probe_dialogue E i d verified completed) st = (r, st')" "honest t d seen" "unpinned_at i seen" "no_login_at i st"
  shows "no_login_at i st' \<and> \<not> login_failed_at i r"
  using assms
proof (induction d arbitrary: verified completed st seen)
  case (D_Done r' w)
  then have "no_login_at i st'" by (auto simp: probe_result_def no_login_at_def split: sum.splits connect_error.splits if_splits)
  moreover have "\<not> login_failed_at i r'" using D_Done.prems(2,3) by (cases "(i, r')" rule: login_failed_at.cases) (auto simp: unpinned_at_def)
  ultimately show ?case using D_Done.prems(1) by (auto simp: probe_result_def split: sum.splits connect_error.splits if_splits)
next
  case (D_Check hop key k)
  let ?v = "policy_check (ss_pins st) hop key"
  let ?st = "log_event (EV_Checked hop key ?v) st"
  have n: "no_login_at i ?st" using D_Check.prems(4) by (simp add: no_login_at_def log_event_def)
  show ?case
  proof (cases "hf_id hop = i \<and> ?v = V_Pinned")
    case True
    moreover have "unpinned_at i (insert (hop, key, V_Unknown) seen)" using D_Check.prems(3) by (auto simp: unpinned_at_def)
    ultimately show ?thesis
      using D_Check.IH [of "k V_Unknown" "Some (hop, key)" completed ?st "insert (hop, key, V_Unknown) seen"] D_Check.prems(1,2) n by (simp add: Let_def)
  next
    case False
    moreover have "unpinned_at i (insert (hop, key, ?v) seen)" using D_Check.prems(3) False by (auto simp: unpinned_at_def)
    ultimately show ?thesis
      using D_Check.IH [of "k ?v" verified completed ?st "insert (hop, key, ?v) seen"] D_Check.prems(1,2) n by (auto simp: Let_def)
  qed
next
  case (D_PublicKey kid k)
  from D_PublicKey.IH [of "k (auth_public_key kid st)" verified completed st seen] D_PublicKey.prems show ?case by simp
next
  case (D_Sign kid data hash w k)
  obtain a st1 where a: "auth_sign Z kid data hash (st\<lparr>ss_world := (w, completed)\<rparr>) = (a, st1)" by fastforce
  have "no_login_at i (st\<lparr>ss_world := (w, completed)\<rparr>)" using D_Sign.prems(4) by (simp add: no_login_at_def)
  with D_Sign.IH [of "k a" "k a (fst (ss_world st1))" verified "snd (ss_world st1)" st1 seen] D_Sign.prems(1-3) a no_login_auth(1) [OF _ a]
  show ?case by simp
next
  case (D_Password hop w k)
  obtain a st1 where a: "auth_password Z hop (st\<lparr>ss_world := (w, completed)\<rparr>) = (a, st1)" by fastforce
  have "no_login_at i (st\<lparr>ss_world := (w, completed)\<rparr>)" using D_Password.prems(4) by (simp add: no_login_at_def)
  with D_Password.IH [of "k a" "k a (fst (ss_world st1))" verified "snd (ss_world st1)" st1 seen]
    D_Password.IH [of "k None" "k None w" verified completed st seen] D_Password.prems a no_login_auth(2) [OF _ a]
  show ?case by (cases "hf_id hop = i") simp_all
next
  case (D_Interactive hop ps dl w k)
  obtain a st1 where a: "auth_interactive Z hop ps dl (st\<lparr>ss_world := (w, completed)\<rparr>) = (a, st1)" by fastforce
  have "no_login_at i (st\<lparr>ss_world := (w, completed)\<rparr>)" using D_Interactive.prems(4) by (simp add: no_login_at_def)
  with D_Interactive.IH [of "k a" "k a (fst (ss_world st1))" verified "snd (ss_world st1)" st1 seen]
    D_Interactive.IH [of "k None" "k None w" verified completed st seen] D_Interactive.prems a no_login_auth(3) [OF _ a]
  show ?case by (cases "hf_id hop = i") simp_all
next
  case (D_Banner hop b w k)
  define st1 where "st1 = auth_banner Z b (st\<lparr>ss_world := (w, completed)\<rparr>)"
  have run: "run_dialogue Z (probe_dialogue E i (k (fst (ss_world st1))) verified (snd (ss_world st1))) st1 = (r, st')"
    using D_Banner.prems(1) by (simp add: Let_def flip: st1_def)
  moreover have "no_login_at i st1" using D_Banner.prems(4) by (simp add: st1_def auth_banner_def no_login_at_def)
  ultimately show ?case
    using D_Banner.IH [of "k (fst (ss_world st1))" verified "snd (ss_world st1)" st1 seen] D_Banner.prems(2,3) by simp
qed

section \<open>The loop around the probe\<close>

lemma log_kept: "after_error Z t e st = (p, st') \<Longrightarrow> set (ss_log st) \<subseteq> set (ss_log st')"
  using logged.after_error_keeps by blast

lemma confirm_refs:
  assumes "confirm E t hop key pinned st = (Inr t', st')"
  shows "map hop_reference t' = map hop_reference t"
proof -
  have keep: "map hop_reference (update_hop i (\<lambda>h. h\<lparr>h_pinned := Some k\<rparr>) t) = map hop_reference t" for i k
    by (rule update_hop_keeps) (simp add: hop_reference_def)
  from assms show ?thesis
  proof (cases rule: confirm_cases)
    case (1 w)
    then show ?thesis by (cases rule: confirm_key_cases) (simp_all add: keep)
  qed (simp_all add: keep)
qed

lemma after_error_refs:
  assumes "after_error E t e st = (P_Again t', st')"
  shows "map hop_reference t' = map hop_reference t"
proof (cases "abandoned_hop st e")
  case None
  have conf: "again_or r = (P_Again t', st') \<Longrightarrow> r = (Inr t', st')" for r
    by (auto simp: again_or_def split: prod.splits sum.splits)
  have keep: "map hop_reference (update_hop i (\<lambda>h. h\<lparr>h_pinned := None\<rparr>) t) = map hop_reference t" for i
    by (rule update_hop_keeps) (simp add: hop_reference_def)
  have retry: "retry_password E t hop tried reason wanted st = (P_Again t', st') \<Longrightarrow> ?thesis" for hop tried reason wanted
    using retry_password_again by blast
  show ?thesis
    using assms None confirm_refs conf retry keep by (cases e) (auto simp: after_error_def split: if_splits dest!: conf)
qed (use assms in \<open>auto simp: after_error_def\<close>)

lemma confirm_no_login:
  assumes "confirm E t hop key pinned st = (r, st')" "no_login_at i st"
  shows "no_login_at i st'"
  using assms(1)
proof (cases rule: confirm_cases)
  case (1 w)
  then show ?thesis by (cases rule: confirm_key_cases) (use assms(2) in \<open>auto simp: no_login_at_def pin_policy_def\<close>)
qed (use assms(2) in \<open>auto simp: no_login_at_def pin_policy_def\<close>)

lemma after_error_no_login:
  fixes e :: connect_error
  assumes "after_error E t e st = (p, st')" "no_login_at i st" "\<not> login_failed_at i (Inl e :: connect_error + unit)"
  shows "no_login_at i st'"
proof (cases "abandoned_hop st e")
  case None
  have conf: "no_login_at i st'" if "again_or (confirm E t hop key pinned st) = (p, st')" for hop key pinned
    using that confirm_no_login [OF _ assms(2)] by (auto simp: again_or_def split: prod.splits sum.splits)
  show ?thesis
  proof (cases e)
    case (CE_AuthFailed hop tried reason wanted)
    with assms None have "retry_password E t hop tried reason wanted st = (p, st')" by (simp add: after_error_def)
    then show ?thesis by (cases rule: retry_password_cases) (use assms(2,3) CE_AuthFailed in \<open>auto simp: no_login_at_def\<close>)
  next
    case (CE_NoCommonHostKeyAlgorithm hop ours theirs)
    with assms None show ?thesis by (auto simp: after_error_def no_login_at_def split: if_splits)
  next
    case (CE_HostKeyUnknown hop key)
    with assms None conf show ?thesis by (simp add: after_error_def)
  next
    case (CE_HostKeyMismatch hop key old)
    with assms None conf show ?thesis by (simp add: after_error_def)
  qed (use assms None in \<open>simp_all add: after_error_def\<close>)
qed (use assms in \<open>simp add: after_error_def\<close>)

text \<open>One pass and the whole loop.\<close>

definition probe_ok :: "host_id \<Rightarrow> ('w probe_world, 'm) session_state \<Rightarrow> bool" where
  "probe_ok i st \<longleftrightarrow> seen_ok i st (snd (ss_world st)) \<and> no_login_at i st"

lemma probe_engine:
  fixes st :: "('w probe_world, 'm) session_state" and E :: "('w, 's, 'm, 'k) session_env"
  assumes "engine_ok E" "run_dialogue (probe_env E D q expected) (probe_connect E D q expected t (ss_world st)) st = (r, st')" "probe_ok i st"
    "t \<noteq> [] \<Longrightarrow> h_id (last t) = i"
  shows "probe_ok i st' \<and> \<not> login_failed_at i r \<and> \<not> (\<exists>s. r = Inr s)"
proof -
  obtain g w where g: "probe_guard E D q expected (fst (ss_world st)) = (g, w)" by fastforce
  have idle: "probe_ok i (st\<lparr>ss_world := (w, snd (ss_world st))\<rparr>)" using assms(3) by (simp add: probe_ok_def seen_ok_def no_login_at_def)
  show ?thesis
  proof (cases "\<exists>u. g = Inr u \<and> t \<noteq> []")
    case True
    then have i: "h_id (last t) = i" using assms(4) by simp
    with True g assms(2) have run: "run_dialogue (probe_env E D q expected)
        (probe_dialogue E i (se_connect E t w) None (snd (ss_world st))) st = (r, st')"
      by (auto simp: probe_connect_def)
    have n: "no_login_at i st" and c: "seen_ok i st (snd (ss_world st))" using assms(3) by (simp_all add: probe_ok_def)
    have v: "seen_ok i st None" by (simp add: seen_ok_def)
    have h: "honest t (se_connect E t w) {}" using assms(1) by (simp add: engine_ok_def)
    show ?thesis
      using run_probe_seen [OF run v c] run_probe_no_login [OF run h _ n] by (simp add: probe_ok_def unpinned_at_def)
  next
    case False
    with g assms(2) idle show ?thesis by (auto simp: probe_connect_def split: sum.splits)
  qed
qed

lemma probe_pass:
  fixes st :: "('w probe_world, 'm) session_state" and E :: "('w, 's, 'm, 'k) session_env"
  assumes "engine_ok E" "connect_pass (probe_env E D q expected) t st = (p, st')" "probe_ok i st" "t \<noteq> [] \<Longrightarrow> h_id (last t) = i"
  shows "probe_ok i st' \<and> (\<forall>t'. p = P_Again t' \<longrightarrow> map hop_reference t' = map hop_reference t) \<and> (\<forall>x. p \<noteq> P_Finish (Inr x))"
proof -
  let ?Z = "probe_env E D q expected"
  obtain g st0 where g: "call (se_cancelled ?Z) st = (g, st0)" by fastforce
  have "snd (ss_world st0) = snd (ss_world st)" using marked.calls_ok(11) [OF g] by simp
  moreover have "ss_log st0 = ss_log st" using call_world [OF g] by auto
  ultimately have ok0: "probe_ok i st0" "probe_ok i (prepare t st0)" using assms(3) by (simp_all add: probe_ok_def seen_ok_def no_login_at_def prepare_def)
  obtain r st1 where r: "run_dialogue ?Z (se_connect ?Z t (ss_world (prepare t st0))) (prepare t st0) = (r, st1)" by fastforce
  have eng: "probe_ok i st1 \<and> \<not> login_failed_at i r \<and> \<not> (\<exists>s. r = Inr s)"
    using probe_engine [OF assms(1) _ ok0(2) assms(4), of D q expected r st1] r by (simp add: probe_env_def Let_def)
  show ?thesis
  proof (cases g)
    case True
    with assms(2) g ok0(1) show ?thesis by (auto simp: connect_pass_def)
  next
    case False
    from eng obtain e where e: "r = Inl e" by (cases r) auto
    with assms(2) g r False have ae: "after_error ?Z t e st1 = (p, st')" by (simp add: connect_pass_def Let_def)
    have "snd (ss_world st') = snd (ss_world st1)" using marked.after_error_ok [OF ae] by simp
    moreover have "seen_ok i st' (snd (ss_world st1))" using eng seen_ok_mono [OF _ log_kept [OF ae]] by (simp add: probe_ok_def)
    moreover have "\<not> login_failed_at i (Inl e :: connect_error + unit)" using eng e by (cases e) auto
    then have "no_login_at i st'" using after_error_no_login [OF ae] eng by (simp add: probe_ok_def)
    ultimately show ?thesis using after_error_refs [of ?Z t e st1] ae after_error_no_session [OF ae] by (auto simp: probe_ok_def)
  qed
qed

lemma probe_loop:
  fixes st :: "('w probe_world, 'm) session_state" and E :: "('w, 's, 'm, 'k) session_env"
  assumes "engine_ok E" "connect_loop (probe_env E D q expected) n t st = (r, st')" "probe_ok i st" "t \<noteq> [] \<Longrightarrow> h_id (last t) = i"
  shows "probe_ok i st' \<and> (\<forall>x. r \<noteq> Inr x)"
  using assms(2-4)
proof (induction n arbitrary: t st)
  case (Suc n)
  obtain p st1 where p: "connect_pass (probe_env E D q expected) t st = (p, st1)" by fastforce
  note pass = probe_pass [OF assms(1) p Suc.prems(2,3)]
  show ?case
  proof (cases p)
    case (P_Again t')
    then have refs: "map hop_reference t' = map hop_reference t" using pass by blast
    have "h_id (last t') = i" if "t' \<noteq> []"
    proof -
      have ne: "t \<noteq> []" using that refs by auto
      then have "hop_reference (last t') = hop_reference (last t)" using refs that by (metis last_map)
      then have "h_id (last t') = h_id (last t)" by (simp add: hop_reference_def)
      with Suc.prems(3) [OF ne] show ?thesis by simp
    qed
    with Suc.IH [of t' st1] Suc.prems(1) p P_Again pass show ?thesis by auto
  next
    case (P_Finish x)
    with Suc.prems(1) p pass show ?thesis by auto
  qed
qed auto

lemma log_call: "ss_log (snd (call f st)) = ss_log st"
  by (simp add: call_def split: prod.splits)

lemma no_login_call: "call f st = (a, st') \<Longrightarrow> no_login_at i st \<Longrightarrow> no_login_at i st'"
  by (auto simp: no_login_at_def dest!: call_world)

lemma no_login_opened: "no_login_at i (st\<lparr>ss_opened := ks\<rparr>) = no_login_at i st"
  by (simp add: no_login_at_def)

lemma unlock_no_login:
  assumes "unlock E t st = (r, st')" "no_login_at i st"
  shows "no_login_at i st'"
  using assms
proof (induction t arbitrary: st)
  case (Cons h t)
  have pass: "no_login_at i st2" if "ask_passphrase E h key x q n st1 = (m, st2)" "no_login_at i st1" for key x q n st1 m st2
    using that
  proof (induction n arbitrary: q st1)
    case (Suc n)
    obtain d st3 where d: "deadline_after E (prompt_wait h) st1 = (d, st3)" by fastforce
    obtain a st4 where a: "ask_at E (hop_reference h) QK_Passphrase q False (Some d) st3 = (a, st4)" by fastforce
    have "no_login_at i st3" using deadline_after_world [OF d] Suc.prems(2) by (auto simp: no_login_at_def)
    then have "no_login_at i st4" using no_login_ask [OF a] by simp
    with Suc d a show ?case by (cases a) (auto split: sum.splits open_error.splits)
  qed simp
  have rem: "no_login_at i st2" if "remembered E kid x st1 = (m, st2)" "no_login_at i st1" for kid x st1 m st2
  proof -
    obtain g st0 where g: "call (se_keychain_get E (passphrase_account kid)) st1 = (g, st0)" by fastforce
    have "ss_log st2 = ss_log st1"
      using that(1) g call_world [OF g] by (auto simp: remembered_def Let_def log_call split: sum.splits option.splits)
    with that(2) show ?thesis by (simp add: no_login_at_def)
  qed
  have op: "no_login_at i st2" if "open_key E h kid key x st1 = (m, st2)" "no_login_at i st1" for kid key x st1 m st2
    using that by (auto simp: open_key_def split: prod.splits sum.splits option.splits open_error.splits dest: rem intro: pass)
  have un: "no_login_at i st2" if "unlock_hop E h st1 = (m, st2)" "no_login_at i st1" for st1 m st2
    using that unfolding unlock_hop_def unlock_key_def
    by (auto simp: no_login_opened split: prod.splits sum.splits option.splits auth_method.splits if_splits dest!: no_login_call op)
  obtain u st1 where u: "unlock_hop E h st = (u, st1)" by fastforce
  with un [OF u] Cons show ?case by (auto split: sum.splits)
qed simp

lemma checked_target_Inr:
  "checked_target D q expected w = (Inr t, w') \<longleftrightarrow> hd_resolve_host_key D q w = (Inr t, w') \<and> target_identity t = expected"
  by (auto simp: checked_target_def dir_bind_def dir_lift_def split: prod.splits sum.splits if_splits)

lemma last_identity: "t \<noteq> [] \<Longrightarrow> h_id (last (target_identity t)) = h_id (last t)"
  by (simp add: target_identity_def last_map)

lemma probe_connect_ok:
  fixes st :: "('w probe_world, 'm) session_state" and E :: "('w, 's, 'm, 'k) session_env"
  assumes "engine_ok E" "connect (probe_env E D q expected) q st = (r, st')" "probe_ok i st" "expected \<noteq> [] \<Longrightarrow> h_id (last expected) = i"
  shows "probe_ok i st'"
proof -
  let ?Z = "probe_env E D q expected"
  have frame: "probe_ok i s2" if "call f s1 = (a, s2)" "probe_ok i s1" "snd (ss_world s2) = snd (ss_world s1)" for f a and s1 s2 :: "('w probe_world, 'm) session_state"
    using call_world [OF that(1)] that(2,3) by (auto simp: probe_ok_def seen_ok_def no_login_at_def)
  obtain x st1 where c1: "connect_within ?Z q round_limit st = (x, st1)" by fastforce
  obtain g st2 where c2: "call (se_cancelled ?Z) st1 = (g, st2)" by fastforce
  have ok1: "probe_ok i st1 \<and> (\<forall>y. x \<noteq> Inr y)"
  proof -
    obtain g0 s0 where d0: "call (se_cancelled ?Z) st = (g0, s0)" by fastforce
    have k0: "probe_ok i s0" using frame [OF d0 assms(3)] marked.calls_ok(11) [OF d0] by simp
    obtain t' s1 where d1: "call (se_resolve ?Z q) s0 = (t', s1)" by fastforce
    have k1: "probe_ok i s1" using frame [OF d1 k0] marked.calls_ok(1) [OF d1] by simp
    show ?thesis
    proof (cases "g0 \<or> (\<exists>e. t' = Inl e)")
      case True
      with c1 d0 d1 k0 k1 show ?thesis by (cases g0) (auto simp: connect_within_def)
    next
      case False
      then obtain t where t: "t' = Inr t" by (cases t') auto
      have "target_identity t = expected"
        using d1 t by (auto simp: call_def probe_env_def Let_def probe_directory_def on_world_def checked_target_Inr split: prod.splits)
      then have last: "t \<noteq> [] \<Longrightarrow> h_id (last t) = i" using assms(4) last_identity [of t] by (auto simp: target_identity_def)
      obtain u s2 where d2: "unlock ?Z t (log_event (EV_Resolved t) s1) = (u, s2)" by fastforce
      have "no_login_at i (log_event (EV_Resolved t) s1)" using k1 by (simp add: probe_ok_def no_login_at_def log_event_def)
      then have "no_login_at i s2" by (rule unlock_no_login [OF d2])
      moreover have "snd (ss_world s2) = snd (ss_world s1)" using marked.unlock_ok [OF d2] by (simp add: log_event_def)
      moreover have "set (ss_log s1) \<subseteq> set (ss_log s2)" using logged.unlock_keeps [OF d2] by (auto simp: log_event_def)
      ultimately have k2: "probe_ok i s2" using k1 seen_ok_mono [of i s1 _ s2] by (simp add: probe_ok_def)
      then have k3: "probe_ok i (s2\<lparr>ss_pins := pins_of_target t\<rparr>)" by (simp add: probe_ok_def seen_ok_def no_login_at_def)
      from c1 d0 d1 d2 t False have "(x, st1) = (case u of Inl e \<Rightarrow> (Inl (failure_new KIND_AUTH e), s2)
          | Inr _ \<Rightarrow> connect_loop ?Z (round_limit t) t (s2\<lparr>ss_pins := pins_of_target t\<rparr>))"
        by (simp add: connect_within_def)
      with k2 probe_loop [OF assms(1) _ k3 last, of D q expected "round_limit t" x st1] show ?thesis by (cases u) auto
    qed
  qed
  have ok2: "probe_ok i st2" using frame [OF c2] ok1 marked.calls_ok(11) [OF c2] by simp
  have "st' = st2" using assms(2) c1 c2 ok1 by (auto simp: connect_def split: if_splits sum.splits)
  with ok2 show ?thesis by simp
qed

section \<open>What a verification shows\<close>

definition key_report :: "hop_ref \<Rightarrow> host_key \<Rightarrow> verified_host_key" where
  "key_report hop key =
     \<lparr>vh_host_id = hf_id hop, vh_alias = hf_alias hop, vh_hostname = hf_hostname hop, vh_port = hf_port hop,
      vh_algorithm = sk_algorithm key, vh_fingerprint = sk_fingerprint key, vh_trusted = True\<rparr>"

text \<open>A verification that got as far as connecting.\<close>

lemma verify_connected:
  fixes E :: "('w, 's, 'm, 'k) session_env"
  assumes "verify E D q (state_new (w, None)) = (r, st)" "se_cancelled E w = (False, w1)" "hd_resolve_host_key D q w1 = (Inr t, w2)"
  obtains result st1 where
    "connect (probe_env E D q (target_identity t)) q ((state_new (w, None))\<lparr>ss_world := (w2, None)\<rparr>) = (result, st1)"
    "ss_log st = ss_log st1" "ss_pins st = ss_pins st1" "ss_asked_host_key st = ss_asked_host_key st1"
    "\<And>v. r = Inr v \<Longrightarrow> \<exists>hop key current w3 w4. snd (ss_world st1) = Some (hop, key) \<and> v = key_report hop key
       \<and> hd_resolve_host_key D q w3 = (Inr current, w4) \<and> (\<exists>h \<in> set current. h_id h = hf_id hop \<and> h_pinned h = Some key)"
proof -
  let ?s = "state_new (w, None) :: ('w probe_world, 'm) session_state" and ?Z = "probe_env E D q (target_identity t)"
  obtain result st1 where c: "connect ?Z q (?s\<lparr>ss_world := (w2, None)\<rparr>) = (result, st1)" by fastforce
  obtain g st2 where g: "call (on_world (se_cancelled E)) st1 = (g, st2)" by fastforce
  obtain x st3 where x: "call (on_world (checked_target D q (target_identity t))) st2 = (x, st3)" by fastforce
  have "call (on_world (se_cancelled E)) ?s = (False, ?s\<lparr>ss_world := (w1, None)\<rparr>)"
    "call (on_world (hd_resolve_host_key D q)) (?s\<lparr>ss_world := (w1, None)\<rparr>) = (Inr t, ?s\<lparr>ss_world := (w2, None)\<rparr>)"
    using assms(2,3) by (simp_all add: call_def on_world_def state_new_def)
  with assms(1) c g x have res: "(r, st) = (if g then (Inl verification_cancelled, st2)
      else (case x of Inl e \<Rightarrow> (Inl (directory_error_text e), st3) | Inr current \<Rightarrow> (verified_result result current (snd (ss_world st3)), st3)))"
    by (cases g) (simp_all add: verify_def Let_def)
  have frame: "st2 = st1\<lparr>ss_world := ss_world st2\<rparr>" "st3 = st2\<lparr>ss_world := ss_world st3\<rparr>" using call_world [OF g] call_world [OF x] by auto
  have m: "snd (ss_world st3) = snd (ss_world st1)"
    using g x by (auto simp: call_def on_world_def split: prod.splits)
  show thesis
  proof (rule that [OF c])
    have "st = st2 \<or> st = st3" using res by (auto split: if_splits sum.splits)
    then show "ss_log st = ss_log st1" "ss_pins st = ss_pins st1" "ss_asked_host_key st = ss_asked_host_key st1"
      using frame by (metis session_state.select_convs(2,8,11) session_state.surjective session_state.update_convs(1))+
  next
    fix v assume "r = Inr v"
    with res obtain current where cur: "x = Inr current" "verified_result result current (snd (ss_world st1)) = Inr v"
      using m by (auto split: if_splits sum.splits)
    then obtain hop key where k: "snd (ss_world st1) = Some (hop, key)" "v = key_report hop key"
      "list_ex (\<lambda>h. h_id h = hf_id hop \<and> h_pinned h = Some key) current"
      by (auto simp: verified_result_def key_report_def split: option.splits prod.splits if_splits)
    have "hd_resolve_host_key D q (fst (ss_world st2)) = (Inr current, fst (ss_world st3))"
      using x cur(1) by (auto simp: call_def on_world_def checked_target_Inr split: prod.splits)
    with k show "\<exists>hop key current w3 w4. snd (ss_world st1) = Some (hop, key) \<and> v = key_report hop key
       \<and> hd_resolve_host_key D q w3 = (Inr current, w4) \<and> (\<exists>h \<in> set current. h_id h = hf_id hop \<and> h_pinned h = Some key)"
      by (fastforce simp: list_ex_iff)
  qed
qed

lemma fresh_probe_ok: "probe_ok i ((state_new (w, None))\<lparr>ss_world := (w', None)\<rparr>)"
  by (simp add: probe_ok_def seen_ok_def no_login_at_def state_new_def)

lemma fresh_vouched: "trust_ok ((state_new w)\<lparr>ss_world := w'\<rparr>) \<and> vouched ((state_new w)\<lparr>ss_world := w'\<rparr>)"
  by (simp add: trust_ok_def vouched_def state_new_def)

text \<open>C34. Verifying a server never logs in to it: whatever the server, the jump hosts in front of it and the person do, nobody is
  asked for a password or for an answer to a prompt of the destination, even when the destination presents its
  pinned key.\<close>

theorem verify_asks_no_login:
  assumes "engine_ok E" "se_cancelled E w = (False, w1)" "hd_resolve_host_key D q w1 = (Inr t, w2)" "t \<noteq> []"
    and "verify E D q (state_new (w, None)) = (r, st)" "EV_Asked hop kind question \<in> set (ss_log st)" "hf_id hop = h_id (last t)"
  shows "kind = QK_Passphrase"
proof -
  from assms(5,2,3) obtain result st1 where c:
    "connect (probe_env E D q (target_identity t)) q ((state_new (w, None))\<lparr>ss_world := (w2, None)\<rparr>) = (result, st1)" "ss_log st = ss_log st1"
    by (rule verify_connected) blast
  have "probe_ok (h_id (last t)) st1"
    by (rule probe_connect_ok [OF assms(1) c(1) fresh_probe_ok]) (simp add: last_identity assms(4))
  then have "\<not> asks_login (h_id (last t)) (EV_Asked hop kind question)" using assms(6) c(2) by (auto simp: probe_ok_def no_login_at_def)
  with assms(7) show ?thesis by simp
qed

text \<open>A verified key is a trusted one: when a verification reports a key, the destination presented it, the policy found it
  pinned, its pin came from the saved host, another connection or the person's own confirmation of exactly this
  key, and afterwards the saved host still has it.\<close>

theorem verified_key_trusted:
  assumes "engine_ok E" "se_cancelled E w = (False, w1)" "hd_resolve_host_key D q w1 = (Inr t, w2)" "t \<noteq> []"
    and "verify E D q (state_new (w, None)) = (Inr v, st)"
  shows "\<exists>hop key pin current w3 w4. v = key_report hop key \<and> hf_id hop = h_id (last t)
    \<and> EV_Checked hop key V_Pinned \<in> set (ss_log st) \<and> sk_fingerprint pin = sk_fingerprint key \<and> trusted (set (ss_log st)) (hf_id hop) pin
    \<and> hd_resolve_host_key D q w3 = (Inr current, w4) \<and> (\<exists>h \<in> set current. h_id h = hf_id hop \<and> h_pinned h = Some key)"
proof -
  from assms(5,2,3) obtain result st1 where c:
    "connect (probe_env E D q (target_identity t)) q ((state_new (w, None))\<lparr>ss_world := (w2, None)\<rparr>) = (result, st1)" "ss_log st = ss_log st1"
    "\<And>u. (Inr v :: rstr + verified_host_key) = Inr u \<Longrightarrow> \<exists>hop key current w3 w4. snd (ss_world st1) = Some (hop, key) \<and> u = key_report hop key
       \<and> hd_resolve_host_key D q w3 = (Inr current, w4) \<and> (\<exists>h \<in> set current. h_id h = hf_id hop \<and> h_pinned h = Some key)"
    by (rule verify_connected) blast
  from c(3) obtain hop key current w3 w4 where k: "snd (ss_world st1) = Some (hop, key)" "v = key_report hop key"
    "hd_resolve_host_key D q w3 = (Inr current, w4)" "\<exists>h \<in> set current. h_id h = hf_id hop \<and> h_pinned h = Some key" by blast
  have "probe_ok (h_id (last t)) st1"
    by (rule probe_connect_ok [OF assms(1) c(1) fresh_probe_ok]) (simp add: last_identity assms(4))
  then have "hf_id hop = h_id (last t)" "EV_Checked hop key V_Pinned \<in> set (ss_log st)" using k(1) c(2) by (auto simp: probe_ok_def seen_ok_def)
  moreover from vouch.connect_keeps [OF c(1) fresh_vouched] this(2) c(2)
  obtain pin where "sk_fingerprint pin = sk_fingerprint key" "trusted (set (ss_log st)) (hf_id hop) pin" unfolding vouched_def by metis
  ultimately show ?thesis using k(2-4) by blast
qed

section \<open>An example\<close>

text \<open>The one host of the small world, with its key on record.\<close>

definition known_hop :: hop where
  "known_hop = small_hop\<lparr>h_auth := AM_Interactive, h_pinned := Some small_key\<rparr>"

definition small_directory :: "unit host_directory" where
  "small_directory = default_directory (\<lambda>_ w. (Inr [known_hop], w)) (\<lambda>_ w. (Inr None, w)) (\<lambda>_ _ w. (Inr (), w)) (\<lambda>_ _ _ w. (Inr (), w)) Pair"

lemma small_directory_resolve: "hd_resolve_host_key small_directory q w = (Inr [known_hop], w)"
  by (simp add: small_directory_def default_directory_def default_resolve_host_key_def dir_bind_def dir_lift_def known_hop_def)

lemma small_env_cancelled: "se_cancelled small_env w = (False, w)"
  by (simp add: small_env_def)

lemma small_verify: "\<exists>st. verify small_env small_directory (HQ_Alias (lit ''web'')) (state_new ((), None))
    = (Inr (key_report (hop_reference known_hop) small_key), st)"
proof -
  have [simp]: "hf_id (hop_reference known_hop) = lit ''1''" "h_id known_hop = lit ''1''" "h_auth known_hop = AM_Interactive" "h_pinned known_hop = Some small_key"
    by (simp_all add: known_hop_def small_hop_def hop_new_def hop_reference_def)
  have env: "se_connect small_env = small_connect" "se_cancelled small_env = (\<lambda>w. (False, w))" by (simp_all add: small_env_def)
  have ch: "checked_target small_directory q (target_identity [known_hop]) w = (Inr [known_hop], w)" for q w
    by (simp add: checked_target_Inr small_directory_resolve)
  have gd: "probe_guard small_env small_directory q (target_identity [known_hop]) w = (Inr (), w)" for q w
    by (simp add: probe_guard_def env ch)
  have Z: "se_connect (probe_env small_env small_directory q e) = probe_connect small_env small_directory q e"
    "se_resolve (probe_env small_env small_directory q e) = (\<lambda>_. on_world (checked_target small_directory q e))"
    "se_cancelled (probe_env small_env small_directory q e) = on_world (\<lambda>w. (False, w))" for q e
    by (simp_all add: probe_env_def Let_def probe_directory_def env)
  show ?thesis
    by (simp add: verify_def env small_directory_resolve call_def on_world_def Let_def connect_def connect_within_def Z ch unlock_hop_def state_new_def
        log_event_def round_limit_def ROUNDS_PER_HOP_def PASSWORD_PROMPTS_def eval_nat_numeral connect_pass_def prepare_def pins_of_target_def
        probe_connect_def gd policy_check_def probe_result_def after_error_def abandoned_hop_def verified_result_def key_report_def)
qed

theorem verify_asks_no_login_witness:
  "\<exists>r st. verify small_env small_directory (HQ_Alias (lit ''web'')) (state_new ((), None)) = (r, st)
     \<and> (\<forall>hop kind question. EV_Asked hop kind question \<in> set (ss_log st) \<longrightarrow> hf_id hop = h_id (last [known_hop]) \<longrightarrow> kind = QK_Passphrase)"
proof -
  obtain st where v: "verify small_env small_directory (HQ_Alias (lit ''web'')) (state_new ((), None))
      = (Inr (key_report (hop_reference known_hop) small_key), st)" using small_verify by blast
  show ?thesis
    using verify_asks_no_login [OF small_env_ok small_env_cancelled small_directory_resolve _ v] v by blast
qed

theorem verified_key_trusted_witness:
  "\<exists>st hop key pin. verify small_env small_directory (HQ_Alias (lit ''web'')) (state_new ((), None)) = (Inr (key_report hop key), st)
    \<and> EV_Checked hop key V_Pinned \<in> set (ss_log st) \<and> sk_fingerprint pin = sk_fingerprint key \<and> trusted (set (ss_log st)) (hf_id hop) pin"
proof -
  obtain st where v: "verify small_env small_directory (HQ_Alias (lit ''web'')) (state_new ((), None))
      = (Inr (key_report (hop_reference known_hop) small_key), st)" using small_verify by blast
  have "[known_hop] \<noteq> []" by simp
  from verified_key_trusted [OF small_env_ok small_env_cancelled small_directory_resolve this v]
  obtain hop key pin where "key_report (hop_reference known_hop) small_key = key_report hop key"
    "EV_Checked hop key V_Pinned \<in> set (ss_log st)" "sk_fingerprint pin = sk_fingerprint key" "trusted (set (ss_log st)) (hf_id hop) pin"
    by (elim exE conjE)
  with v show ?thesis by metis
qed

end
