(* ===== verification/Spec2Isabelle.thy ===== *)
theory Spec2Isabelle
  imports Agent_Prompt Agent_Properties Approval Config_Edit Crypto Directory_Properties Group_Properties Library_Properties Merge_Properties Pin_Properties Rotation_Copy Round_Properties Vault_Properties Verify_Properties
begin

text \<open>
  A verification library for the core of sshelter, the program under \<open>src/src-tauri/src\<close>: a desktop application
  that keeps SSH hosts, groups and keys as typed records, synchronises them end-to-end encrypted between devices over
  a relay, edits OpenSSH configuration files, and opens SSH sessions through a broker.

  \<^bold>\<open>The program and its theories.\<close> File names are relative to \<open>src/src-tauri/src\<close>; a definition keeps the name of
  the function or type it translates, with a prefix or suffix where HOL has that name already.

  \<^descr> \<open>Shared vocabulary.\<close> \<open>Prelude\<close> has Rust strings (lists of code points), the result monad (\<open>Inl\<close> the error,
    \<open>Inr\<close> the value), saturating and checked arithmetic on words and \<open>BTreeMap\<close> as sorted association lists;
    \<open>Json\<close> has \<open>serde_json::Value\<close>, \<open>Utf8\<close> has \<open>str::from_utf8\<close>.
  \<^descr> \<open>Record model.\<close> \<open>Sync_Record\<close> (\<open>sync/record.rs\<close>) has records, envelopes and the rule by which a revision wins.
    \<open>Crypto\<close> (\<open>sync/crypto.rs\<close>) seals and opens them. \<open>Records_Types\<close> and \<open>Validate\<close> (\<open>sync/records_v3/types.rs\<close>,
    \<open>validate.rs\<close>) have the payloads of hosts, key slots and groups and what makes them valid; \<open>Jump_Route\<close> is the
    interface of the two routines that expand a chain of jump hosts.
  \<^descr> \<open>Local library.\<close> \<open>State_Gates\<close>, \<open>State_Validity\<close> (\<open>sync/records_v3/state.rs\<close>) have the state file, when it may be
    written and when it is valid. \<open>Group_Tree\<close>, \<open>Group_Order\<close>, \<open>Record_Groups\<close> (\<open>sync/group_order.rs\<close>,
    \<open>sync/record_groups.rs\<close>), \<open>Record_Repository\<close> (\<open>sync/record_repository.rs\<close>), \<open>Record_Library\<close>, \<open>Library_Review\<close>
    (\<open>sync/record_library.rs\<close>, \<open>sync/record_library/review.rs\<close>) have every edit of hosts, keys and groups, and the move
    of a device's records into the shared library.
  \<^descr> \<open>Synchronisation.\<close> \<open>Record_Open\<close>, \<open>Record_Merge\<close>, \<open>Record_Push\<close> (\<open>sync/record_merge.rs\<close>) merge pulled pages and
    make push items; \<open>Relay_Client\<close> (\<open>sync/relay.rs\<close>, \<open>push_outgoing\<close> of \<open>sync/merge.rs\<close>) is the HTTP client;
    \<open>Record_Runtime\<close> (\<open>sync/record_runtime.rs\<close>, \<open>sync/runtime.rs\<close>) is the state in memory, the file and commits;
    \<open>State_V2\<close> (\<open>sync/state_v2.rs\<close>, \<open>sync/state.rs\<close>) the earlier file format; \<open>Record_Round\<close> (\<open>sync/record_round.rs\<close>)
    the whole round that composes them.
  \<^descr> \<open>Account.\<close> Over \<open>Account_World\<close>, which has the keychain, the relay, random identities and the state,
    \<open>Record_Account\<close> (\<open>sync/record_account.rs\<close>) creates and joins an account, its spaces and its published keys,
    \<open>Record_Leave\<close> (\<open>sync/record_leave.rs\<close>) leaves it, and \<open>Record_Rotation\<close> (\<open>sync/record_rotation.rs\<close>) moves
    everything to a new sync code. Each keeps a pending operation in the state file and can be resumed at every step.
  \<^descr> \<open>Files.\<close> \<open>File_Util\<close> (\<open>fsutil.rs\<close>, \<open>write_policy.rs\<close>), \<open>Config_File\<close> (\<open>config/model.rs\<close>, \<open>lexer.rs\<close>,
    \<open>parser.rs\<close>, \<open>serialize.rs\<close>), \<open>Config_Edit\<close> (\<open>config/edit.rs\<close>, \<open>newfile.rs\<close>), \<open>Hosts_File\<close>
    (\<open>sync/hosts_file.rs\<close>, \<open>sync/space_files.rs\<close>), \<open>Approval\<close> (\<open>sync/approval.rs\<close>).
  \<^descr> \<open>Sessions.\<close> \<open>Session_Protocol\<close> (\<open>session/protocol.rs\<close>), \<open>Ssh_Types\<close> (\<open>ssh/types.rs\<close>, \<open>ssh/error.rs\<close>),
    \<open>Session_Auth\<close> (\<open>session/auth.rs\<close>), \<open>Session_Connect\<close> (\<open>session/connect.rs\<close>), \<open>Session_Directory\<close>
    (\<open>session/directory.rs\<close>, \<open>record_directory.rs\<close>, \<open>format_directory.rs\<close>), \<open>Record_Pin\<close> (\<open>session/record_pin.rs\<close>) and
    \<open>Session_Verify\<close> (\<open>session/verify.rs\<close>).
  \<^descr> \<open>SSH agent.\<close> \<open>Agent_Protocol\<close> (\<open>agent/protocol.rs\<close>, \<open>agent/session.rs\<close>) has the messages of a client and the session,
    which learns the host from a signed session binding; \<open>Agent_Broker\<close> (\<open>agent/approval.rs\<close>, \<open>agent/broker.rs\<close>) decides
    about a signature: it finds the key, looks for a remembered approval or asks a person, opens the private key and
    signs; \<open>Agent_Prompt\<close> (\<open>agent/prompt.rs\<close>) has the requests waiting for an answer as a step relation over all threads.
    \<open>Vault_Store\<close> (\<open>vault/store.rs\<close>) is the file with the private keys, sealed under a key of the keychain.

  The theories named \<open>..._Properties\<close> hold the theorems about the theory they extend. \<open>Account_Laws\<close> and
  \<open>Account_Log\<close> have the shared reasoning about account operations: what they keep, and what has to come before each
  entry of the log of outside calls. \<open>Rotation_Copy\<close> is about the copies a rotation makes.

  \<^bold>\<open>How state and effects are modelled.\<close> A library edit is a function from the state in memory to an error or
  the new state with its result, as the transaction closures of the code are. A component that talks to the outside
  threads a world: \<open>world\<close> (memory, disk, the steps of other threads) in \<open>Record_Runtime\<close> and \<open>Record_Round\<close>, a
  \<open>device\<close> with a log of its outside calls in \<open>Account_World\<close>, a session state with a log of questions and keys in
  \<open>Session_Connect\<close>, an \<open>agent_state\<close> with the memory of the agent and a log of questions and approvals in
  \<open>Agent_Broker\<close>, a \<open>vault_world\<close> (disk and keychain) in \<open>Vault_Store\<close>. Every outside call takes its answer from an environment by the number of the call, so a theorem
  over all environments covers every failure, every answer and every order of the other threads' commits. A lock held
  over an access is the atomicity of that access. Panics of the code are the value \<open>Panic\<close> or a separate constructor
  where the caller can observe them.

  \<^bold>\<open>Interfaces.\<close> Each interface is a locale, interpreted on the model:

  \<^item> \<open>ordered_map\<close> for \<open>BTreeMap\<close> (\<open>bt\<close>), \<open>lww\<close> for last writer wins (\<open>wins\<close>), \<open>jump_route\<close> for route expansion, once
    over ids (\<open>hops\<close>) and once over positions in a snapshot (\<open>positions\<close>), \<open>relay_push\<close> for uploads (\<open>client\<close>);
  \<^item> \<open>round_invariant\<close> verifies the control flow of a round once against the laws of its single accesses; it is
    interpreted for soundness of memory and disk (\<open>rounds\<close>) and for the growth of generations (\<open>generations\<close>);
    \<open>device_invariant\<close> does the same for account operations (\<open>kept\<close>, \<open>unsent\<close>), with \<open>account_invariant\<close>
    (\<open>managed\<close>) and \<open>rotation_invariant\<close> (\<open>rotated\<close>) for the accesses the later operations add;
  \<^item> \<open>event_log\<close> verifies, for a given notion of a reason, that every entry of a log has one; it is interpreted for
    leaving (\<open>leaves\<close>), for creating and joining (\<open>forms\<close>) and for a rotation (\<open>turns\<close>), and \<open>rotation_log\<close> extends it
    for the steps of a rotation after both codes are stored (\<open>carried\<close>);
  \<^item> \<open>session_invariant\<close> verifies the connect loop once, interpreted for the log (\<open>logged\<close>), the bound on questions
    (\<open>prompts\<close>) and trust in keys (\<open>trust\<close>, \<open>vouch\<close>); \<open>world_invariant\<close> does it for what a session leaves alone
    (\<open>marked\<close>);
  \<^item> \<open>request_log\<close> verifies the decision of the agent once against what its log must hold (\<open>request\<close>); \<open>request_effect\<close> and
    its extension \<open>signing_effect\<close> account for what a request does, interpreted for the windows it opens (\<open>window\<close>) and
    for the marks of questions being asked (\<open>asking\<close>).

  \<^bold>\<open>What is shown.\<close>

  \<^item> \<open>Merge_Properties\<close>: a merge is last writer wins per record (a refinement of the fold of the revisions), never drops
    an unsent edit in silence, is all or nothing for the account; the schema gate is sound; what is pushed is what is
    dirty, and another device with the keys reads it.
  \<^item> \<open>Repository_Properties\<close>, \<open>Validity_Properties\<close>, \<open>Group_Properties\<close>, \<open>Library_Properties\<close>, \<open>Library_Review\<close>,
    \<open>Validate\<close>: local edits win over what they derive from, keep the whole state valid, change exactly the rows they
    name; suggested names collide with no name of the library or of the device; validation accepts exactly the well-formed sets of hosts.
  \<^item> \<open>Runtime_Properties\<close>, \<open>Round_Properties\<close>: a save is complete or leaves the file alone, a restart reads it back, and a
    file of an older record format is copied first unless its existence check fails; a
    round keeps memory and disk sound under every failure, uploads only behind its gates, and closes them for good.
  \<^item> \<open>Leave_Properties\<close>: leaving an account copies every live host and group with its references, only adds passwords,
    uploads nothing, removes the sync code last.
  \<^item> \<open>Account_Properties\<close>: creating and joining store only codes of the chain, and as the code of the device only after
    the account was verified against a page that the relay answered.
  \<^item> \<open>Rotation_Properties\<close>, \<open>Rotation_Copy\<close>: a rotation loses no code and freezes, creates and uploads nothing before
    both are stored, and switches over only to a copy that is acknowledged in every row; its copy of a space opens to the values of the source; it ends; and all operations on accounts
    together keep memory and disk sound.
  \<^item> \<open>Relay_Client\<close>, \<open>Session_Protocol\<close>, \<open>Config_File\<close>: exact batches and receipts, frames and files round-trip.
  \<^item> \<open>File_Util\<close>, \<open>Hosts_File\<close>, \<open>Approval\<close>: writes stay in the data root, received host texts are harmless or approved.
  \<^item> \<open>Connect_Properties\<close>, \<open>Verify_Properties\<close>, \<open>Pin_Properties\<close>, \<open>Directory_Properties\<close>: a session opens only to
    trusted keys over the saved route, asks boundedly and always ends; a key is stored only as it was approved.
  \<^item> \<open>Agent_Protocol\<close>, \<open>Agent_Properties\<close>, \<open>Agent_Prompt\<close>: the agent names a host only on proof; it signs only with the key of the
    request and only what was approved for this key, host and program; it remembers an approval only as it was wished, opens few
    windows and leaves no question marked; an accepted answer is never lost or replaced, however the threads interleave.
  \<^item> \<open>Vault_Properties\<close>: changing the key of a slot loses no private key under any failure but one, which is a bug of the code
    (a failed lookup of the name under which an unusable vault is set aside), and what was put is read back.

  \<^bold>\<open>Bounds and fuel.\<close> \<open>MAX_JUMPS\<close>, \<open>MAX_GROUP_DEPTH\<close>, \<open>PASSWORD_PROMPTS\<close> and the size limits are the constants of the
  code. The connect loop has the code's own round limit; \<open>round_limit_never_reached\<close> shows that it never matters. The
  search for a free name terminates by a measure (\<open>suggestions_found\<close>). Drawing a fresh random identity may in
  principle go on for ever; the model draws at most \<open>x_tries\<close> times, an argument of the environment, and the theorems
  hold for every value of it. A rotation resumes itself once more at its end; \<open>rotation_resume\<close> takes the number of
  rounds, \<open>rotation_ends\<close> shows that two are enough, and the other theorems hold for every number. Counters that may overflow are words, or bounded by
  their width, and their exhaustion is a branch; the numbers of requests in \<open>Agent_Prompt\<close> do not wrap around within a run.

  \<^bold>\<open>Parameters.\<close> Code outside the repository is an argument: cryptographic primitives (\<open>crypto_ext\<close>, with
  \<open>crypto_laws\<close> for decryption after encryption), digests and codecs (\<open>record_ext\<close>, \<open>merge_ext\<close>, \<open>library_ext\<close>,
  \<open>v2_codec\<close>, with \<open>host_serde\<close> and \<open>state_codec\<close> for decoding after encoding), the HTTP package (\<open>http_env\<close>,
  \<open>relay_env\<close>), the operating system (\<open>os_env\<close>), other threads and clocks (\<open>runtime_env\<close>, \<open>round_env\<close>, with \<open>guarded\<close>
  for threads that keep the same invariant), the keychain and random numbers (\<open>device_env\<close>, \<open>account_env\<close>, \<open>rotation_env\<close>, with \<open>reads_back\<close> for the text
  form of a value and \<open>others_keep_pending\<close> for threads that wait for the lifecycle lock), the SSH engine and windows
  (\<open>session_env\<close>, with \<open>engine_ok\<close> for the contract of the trait), the codec of SSH keys (\<open>ssh_codec\<close>) and the host of the
  agent (\<open>agent_host\<close>, the trait \<open>AgentHost\<close> with its vault, keychain, clock and window, and the other connections),
  the surroundings of the vault (\<open>vault_env\<close>, with \<open>vault_laws\<close> for text forms and \<open>fresh_accounts\<close> for drawn names), Unicode tables and globs. Each property with such a
  hypothesis has a witness with concrete instances.

  \<^bold>\<open>Not modelled.\<close> The earlier file-based synchronisation (\<open>sync/engine.rs\<close>, \<open>slots.rs\<close>, \<open>round.rs\<close>, ...), whose shared
  rules are modelled where the record library uses them; the migration of an earlier account; downloading a
  published key into the vault; the importer of OpenSSH configurations; the commands of the desktop shell and the data they send to its
  window; the asynchronous adapter around the \<open>russh\<close> package, the MCP server, sockets, terminals, windows and external programs, which
  are effects of packages or of the operating system; the wiping of secret buffers; the TypeScript window and relay.
\<close>

end
